(* ===== verification/Prelude.thy ===== *)
theory Prelude
  imports Main "HOL-Library.Word"
begin

text \<open>
  Shared vocabulary of the development: Rust's fallible control flow (\<open>ensure!\<close>,
  \<open>?\<close>, \<open>ok_or\<close>) as functions on the sum type, fixed-width unsigned and signed
  arithmetic with the saturating and checked variants written out, and the generic lemmas on
  finite maps and sums that the components share.

  An extrinsic of the runtime either commits all its storage writes or, when it returns an
  error, none of them (FRAME wraps every dispatchable in a storage layer). A dispatchable is
  therefore modelled as a function into \<open>'e + 'state\<close>: \<open>Inl e\<close> is the error, with the
  state of the caller unchanged, \<open>Inr s\<close> the committed state.
\<close>

section \<open>Results\<close>

type_synonym ('e, 'a) result = "'e + 'a"

definition ensure :: "bool \<Rightarrow> 'e \<Rightarrow> ('e, 'a) result \<Rightarrow> ('e, 'a) result" where
  "ensure b e k = (if b then k else Inl e)"

definition and_then :: "('e, 'a) result \<Rightarrow> ('a \<Rightarrow> ('e, 'b) result) \<Rightarrow> ('e, 'b) result" where
  "and_then m f = (case m of Inl e \<Rightarrow> Inl e | Inr a \<Rightarrow> f a)"

definition ok_or :: "'a option \<Rightarrow> 'e \<Rightarrow> ('e, 'a) result" where
  "ok_or x e = (case x of None \<Rightarrow> Inl e | Some a \<Rightarrow> Inr a)"

definition map_err :: "('e \<Rightarrow> 'f) \<Rightarrow> ('e, 'a) result \<Rightarrow> ('f, 'a) result" where
  "map_err f m = (case m of Inl e \<Rightarrow> Inl (f e) | Inr a \<Rightarrow> Inr a)"

definition is_ok :: "('e, 'a) result \<Rightarrow> bool" where
  "is_ok m = (case m of Inl _ \<Rightarrow> False | Inr _ \<Rightarrow> True)"

text \<open>The rules below take a successful run apart into its guards; \<open>guard_rules\<close> collects them.\<close>

named_theorems guard_rules

lemma ensure_Inr [simp, guard_rules]: "ensure b e k = Inr x \<longleftrightarrow> b \<and> k = Inr x"
  by (simp add: ensure_def)

lemma ensure_Inl: "ensure b e k = Inl x \<longleftrightarrow> (if b then k = Inl x else x = e)"
  by (auto simp: ensure_def)

lemma ensure_True [simp]: "b \<Longrightarrow> ensure b e k = k"
  by (simp add: ensure_def)

lemma ensure_False [simp]: "\<not> b \<Longrightarrow> ensure b e k = Inl e"
  by (simp add: ensure_def)

lemma and_then_Inr [simp, guard_rules]: "and_then m f = Inr y \<longleftrightarrow> (\<exists>x. m = Inr x \<and> f x = Inr y)"
  by (auto simp: and_then_def split: sum.splits)

lemma and_then_Inl: "and_then m f = Inl e \<longleftrightarrow> m = Inl e \<or> (\<exists>x. m = Inr x \<and> f x = Inl e)"
  by (auto simp: and_then_def split: sum.splits)

lemma and_then_simps [simp]: "and_then (Inl e) f = Inl e" "and_then (Inr a) f = f a"
  by (simp_all add: and_then_def)

lemma ok_or_Inr [simp, guard_rules]: "ok_or x e = Inr a \<longleftrightarrow> x = Some a"
  by (auto simp: ok_or_def split: option.splits)

lemma ok_or_simps [simp]: "ok_or None e = Inl e" "ok_or (Some a) e = Inr a"
  by (simp_all add: ok_or_def)

lemma map_err_Inr [simp, guard_rules]: "map_err f m = Inr a \<longleftrightarrow> m = Inr a"
  by (auto simp: map_err_def split: sum.splits)

lemma map_err_simps [simp]: "map_err f (Inl e) = Inl (f e)" "map_err f (Inr a) = Inr a"
  by (simp_all add: map_err_def)

text \<open>A \<open>for\<close> loop whose body may return early with an error.\<close>

fun try_for_each :: "('x \<Rightarrow> 's \<Rightarrow> ('e, 's) result) \<Rightarrow> 'x list \<Rightarrow> 's \<Rightarrow> ('e, 's) result" where
  "try_for_each f [] s = Inr s"
| "try_for_each f (x # xs) s = and_then (f x s) (try_for_each f xs)"

lemma try_for_each_rule:
  assumes "try_for_each f xs s = Inr t" "P s" "\<And>x s t. P s \<Longrightarrow> f x s = Inr t \<Longrightarrow> P t"
  shows "P t"
  using assms(1,2) by (induction xs arbitrary: s) (auto intro: assms(3))

lemma is_ok_iff: "is_ok m \<longleftrightarrow> (\<exists>a. m = Inr a)"
  by (auto simp: is_ok_def split: sum.splits)

section \<open>Subnets\<close>

type_synonym netuid = nat

text \<open>\<open>NetUid::ROOT\<close> and \<open>NetUid::is_root\<close>.\<close>

definition root_netuid :: netuid where "root_netuid = 0"

definition is_root :: "netuid \<Rightarrow> bool" where "is_root n \<longleftrightarrow> n = root_netuid"

section \<open>Origins\<close>

text \<open>The origin of a call: the root account, no account, or a signed account.\<close>

datatype 'a origin = Root | NoOrigin | Signed 'a

fun ensure_signed :: "'e \<Rightarrow> 'a origin \<Rightarrow> ('e, 'a) result" where
  "ensure_signed e (Signed a) = Inr a"
| "ensure_signed e _ = Inl e"

fun ensure_root :: "'e \<Rightarrow> 'a origin \<Rightarrow> ('e, unit) result" where
  "ensure_root e Root = Inr ()"
| "ensure_root e _ = Inl e"

lemma ensure_signed_Inr [simp]: "ensure_signed e og = Inr a \<longleftrightarrow> og = Signed a"
  by (cases og) auto

lemma ensure_root_Inr [simp]: "ensure_root e og = Inr u \<longleftrightarrow> og = Root"
  by (cases og) auto

section \<open>Unsigned integers of a fixed width\<close>

text \<open>
  An unsigned integer is a natural number; the operations that can leave the range take the
  largest value \<open>m\<close> of the type. \<open>saturating_sub\<close> at zero is subtraction on
  \<open>nat\<close>.
\<close>

definition u8_max :: nat where "u8_max = 255"
definition u16_max :: nat where "u16_max = 65535"
definition u32_max :: nat where "u32_max = 4294967295"
definition u64_max :: nat where "u64_max = 18446744073709551615"
definition u128_max :: nat where "u128_max = 340282366920938463463374607431768211455"

definition sat_add :: "nat \<Rightarrow> nat \<Rightarrow> nat \<Rightarrow> nat" where
  "sat_add m a b = min m (a + b)"

definition sat_mul :: "nat \<Rightarrow> nat \<Rightarrow> nat \<Rightarrow> nat" where
  "sat_mul m a b = min m (a * b)"

definition checked_add :: "nat \<Rightarrow> nat \<Rightarrow> nat \<Rightarrow> nat option" where
  "checked_add m a b = (if a + b \<le> m then Some (a + b) else None)"

definition checked_sub :: "nat \<Rightarrow> nat \<Rightarrow> nat option" where
  "checked_sub a b = (if b \<le> a then Some (a - b) else None)"

definition checked_div :: "nat \<Rightarrow> nat \<Rightarrow> nat option" where
  "checked_div a b = (if b = 0 then None else Some (a div b))"

definition safe_div :: "nat \<Rightarrow> nat \<Rightarrow> nat" where
  "safe_div a b = (case checked_div a b of None \<Rightarrow> 0 | Some q \<Rightarrow> q)"

lemma checked_add_Some [simp]: "checked_add m a b = Some c \<longleftrightarrow> c = a + b \<and> a + b \<le> m"
  by (auto simp: checked_add_def)

lemma checked_sub_Some [simp]: "checked_sub a b = Some c \<longleftrightarrow> c = a - b \<and> b \<le> a"
  by (auto simp: checked_sub_def)

lemma sat_add_le: "sat_add m a b \<le> m"
  by (simp add: sat_add_def)

lemma sat_add_exact: "a + b \<le> m \<Longrightarrow> sat_add m a b = a + b"
  by (simp add: sat_add_def)

lemma sat_mul_exact: "a * b \<le> m \<Longrightarrow> sat_mul m a b = a * b"
  by (simp add: sat_mul_def)

lemma safe_div_eq: "safe_div a b = a div b"
  by (simp add: safe_div_def checked_div_def)

section \<open>Lists\<close>

text \<open>\<open>v.get(i).copied().unwrap_or(d)\<close> and the guarded write \<open>if let Some(e) = v.get_mut(i)\<close>;
  \<open>list_update\<close> leaves the list alone out of range.\<close>

definition vec_get :: "'a list \<Rightarrow> nat \<Rightarrow> 'a \<Rightarrow> 'a" where
  "vec_get xs i d = (if i < length xs then xs ! i else d)"

lemma fold_concat_map: "fold f (concat (map g xs)) acc = fold (\<lambda>x. fold f (g x)) xs acc"
  by (induction xs arbitrary: acc) simp_all

section \<open>Extremal elements\<close>

lemma Max_le_filter:
  fixes t :: "'a::linorder"
  assumes "finite A" "v \<in> A" "v \<le> t"
  shows "Max {v \<in> A. v \<le> t} \<in> A" "Max {v \<in> A. v \<le> t} \<le> t"
proof -
  from assms have "Max {v \<in> A. v \<le> t} \<in> {v \<in> A. v \<le> t}" by (intro Max_in) auto
  then show "Max {v \<in> A. v \<le> t} \<in> A" "Max {v \<in> A. v \<le> t} \<le> t" by blast+
qed

lemma Min_ge_filter:
  fixes t :: "'a::linorder"
  assumes "finite A" "v \<in> A" "t \<le> v"
  shows "Min {v \<in> A. t \<le> v} \<in> A" "t \<le> Min {v \<in> A. t \<le> v}"
proof -
  from assms have "Min {v \<in> A. t \<le> v} \<in> {v \<in> A. t \<le> v}" by (intro Min_in) auto
  then show "Min {v \<in> A. t \<le> v} \<in> A" "t \<le> Min {v \<in> A. t \<le> v}" by blast+
qed

section \<open>Words\<close>

lemma word_neq_0_bit: "(w :: 'a::len word) \<noteq> 0 \<longleftrightarrow> (\<exists>k. bit w k)"
  by (auto simp: bit_eq_iff dest: bit_imp_le_length)

lemma word_neq_0_bitE:
  fixes w :: "'a::len word"
  assumes "w \<noteq> 0"
  obtains k where "bit w k" "k < LENGTH('a)"
  using assms by (auto simp: word_neq_0_bit dest: bit_imp_le_length)

section \<open>Signed integers of a fixed width\<close>

definition i32_min :: int where "i32_min = -2147483648"
definition i32_max :: int where "i32_max = 2147483647"
definition i64_min :: int where "i64_min = -9223372036854775808"
definition i64_max :: int where "i64_max = 9223372036854775807"

definition clamp :: "int \<Rightarrow> int \<Rightarrow> int \<Rightarrow> int" where
  "clamp lo hi x = max lo (min hi x)"

text \<open>Integer quotient of signed numbers in Rust: the magnitude is that of the absolute values.\<close>

definition trunc_div :: "int \<Rightarrow> int \<Rightarrow> int" where
  "trunc_div x d = (let q = \<bar>x\<bar> div \<bar>d\<bar> in if (x < 0) = (d < 0) then q else - q)"

lemma clamp_bounds: "lo \<le> hi \<Longrightarrow> lo \<le> clamp lo hi x \<and> clamp lo hi x \<le> hi"
  by (auto simp: clamp_def)

lemma clamp_id: "lo \<le> x \<Longrightarrow> x \<le> hi \<Longrightarrow> clamp lo hi x = x"
  by (simp add: clamp_def)

section \<open>Reading bytes\<close>

text \<open>\<open>Input::read\<close> of exactly \<open>n\<close> bytes, which fails on a shorter input.\<close>

definition read_bytes :: "nat \<Rightarrow> nat list \<Rightarrow> (nat list \<times> nat list) option" where
  "read_bytes n bs = (if n \<le> length bs then Some (List.take n bs, drop n bs) else None)"

lemma read_bytes_append [simp]: "read_bytes (length xs) (xs @ rest) = Some (xs, rest)"
  by (simp add: read_bytes_def)

lemma read_bytes_length: "read_bytes n bs = Some (xs, rest) \<Longrightarrow> length xs = n"
  by (auto simp: read_bytes_def split: if_splits)

lemma read_bytes_exact: "length xs = n \<Longrightarrow> read_bytes n (xs @ rest) = Some (xs, rest)"
  using read_bytes_append by blast

end
