(* ===== verification/Storage.thy ===== *)
theory Storage
  imports Prelude
begin

text \<open>
  Storage of the runtime. A storage map with no iteration is a function of its key; one that
  the code iterates over is the list of its entries in key order, which is the order of the trie
  (the keys are hashed with \<open>Identity\<close>, so the order of the encoded keys is the order of
  iteration). The second half is the interface of a transition system, on which the
  reachability arguments of the pallets rest.
\<close>

section \<open>Maps that are iterated over\<close>

fun smap_put :: "'k::linorder \<Rightarrow> 'v \<Rightarrow> ('k \<times> 'v) list \<Rightarrow> ('k \<times> 'v) list" where
  "smap_put k v [] = [(k, v)]"
| "smap_put k v ((k', v') # xs) =
     (if k = k' then (k, v) # xs
      else if k < k' then (k, v) # (k', v') # xs
      else (k', v') # smap_put k v xs)"

definition smap_del :: "'k \<Rightarrow> ('k \<times> 'v) list \<Rightarrow> ('k \<times> 'v) list" where
  "smap_del k xs = filter (\<lambda>p. fst p \<noteq> k) xs"

definition smap_wf :: "('k::linorder \<times> 'v) list \<Rightarrow> bool" where
  "smap_wf xs \<longleftrightarrow> sorted (map fst xs) \<and> distinct (map fst xs)"

lemma smap_wf_Nil [simp]: "smap_wf []"
  by (simp add: smap_wf_def)

lemma smap_put_keys [simp]: "fst ` set (smap_put k v xs) = insert k (fst ` set xs)"
proof (induction xs)
  case (Cons p xs)
  then show ?case by (cases p) (simp add: insert_commute)
qed simp

lemma map_of_smap_put [simp]: "smap_wf xs \<Longrightarrow> map_of (smap_put k v xs) = (map_of xs)(k \<mapsto> v)"
  by (induction xs) (auto simp: smap_wf_def fun_eq_iff)

lemma smap_wf_put [simp]: "smap_wf xs \<Longrightarrow> smap_wf (smap_put k v xs)"
proof (induction xs)
  case (Cons p xs)
  obtain k' v' where p: "p = (k', v')" by (cases p)
  have "smap_wf (smap_put k v xs)" using Cons by (simp add: smap_wf_def)
  then show ?case using Cons.prems smap_put_keys[of k v xs]
    by (auto simp: p smap_wf_def simp del: smap_put_keys)
qed (simp add: smap_wf_def)

lemma map_of_smap_del [simp]: "map_of (smap_del k xs) = (map_of xs)(k := None)"
  by (induction xs) (auto simp: smap_del_def fun_eq_iff)

lemma map_of_filter_key: "map_of (filter (\<lambda>p. P (fst p)) xs) k = (if P k then map_of xs k else None)"
  by (induction xs) auto

lemma smap_wf_filter: "smap_wf xs \<Longrightarrow> smap_wf (filter P xs)"
  unfolding smap_wf_def by (induction xs) auto

lemma smap_wf_del [simp]: "smap_wf xs \<Longrightarrow> smap_wf (smap_del k xs)"
  unfolding smap_del_def by (rule smap_wf_filter)

definition smap_sum :: "('k \<times> nat) list \<Rightarrow> nat" where
  "smap_sum xs = sum_list (map snd xs)"

lemma smap_sum_simps [simp]: "smap_sum [] = 0" "smap_sum (p # xs) = snd p + smap_sum xs"
  by (simp_all add: smap_sum_def)

lemma smap_sum_append [simp]: "smap_sum (xs @ ys) = smap_sum xs + smap_sum ys"
  by (simp add: smap_sum_def)

lemma smap_sum_ge: "map_of xs k = Some v \<Longrightarrow> v \<le> smap_sum xs"
  by (induction xs) (auto split: if_splits)

lemma smap_put_set: "set (smap_put k v xs) \<subseteq> insert (k, v) (set xs)"
proof (induction xs)
  case (Cons p xs)
  then show ?case by (cases p) auto
qed simp

lemma all_smap_put: "\<forall>p \<in> set l. P p \<Longrightarrow> P (k, v) \<Longrightarrow> \<forall>p \<in> set (smap_put k v l). P p"
  using smap_put_set[of k v l] by blast

text \<open>The effect of a write on the total of the values and on the number of entries.\<close>

lemma smap_sum_put_new:
  "smap_wf xs \<Longrightarrow> map_of xs k = None \<Longrightarrow> smap_sum (smap_put k v xs) = smap_sum xs + v"
  by (induction xs) (auto simp: smap_wf_def split: if_splits)

lemma smap_sum_put_old:
  "smap_wf xs \<Longrightarrow> map_of xs k = Some u \<Longrightarrow> smap_sum (smap_put k v xs) + u = smap_sum xs + v"
proof (induction xs)
  case (Cons p xs)
  then show ?case
    by (cases p) (force simp: smap_wf_def map_of_eq_Some_iff split: if_splits)
qed simp

lemma smap_length_put:
  "smap_wf xs \<Longrightarrow> length (smap_put k v xs) = (if map_of xs k = None then Suc (length xs) else length xs)"
proof (induction xs)
  case (Cons p xs)
  then show ?case
    by (cases p) (force simp: smap_wf_def map_of_eq_Some_iff split: if_splits)
qed simp

lemma smap_del_absent: "k \<notin> fst ` set xs \<Longrightarrow> smap_del k xs = xs"
  unfolding smap_del_def by (rule filter_True) force

lemma smap_del_present:
  "smap_wf xs \<Longrightarrow> map_of xs k = Some u \<Longrightarrow>
     smap_sum (smap_del k xs) + u = smap_sum xs \<and> Suc (length (smap_del k xs)) = length xs"
proof (induction xs)
  case (Cons p xs)
  obtain k' v' where p: "p = (k', v')" by (cases p)
  show ?case
  proof (cases "k' = k")
    case True
    with Cons.prems smap_del_absent[of k xs] show ?thesis
      by (simp add: p smap_wf_def) (simp add: smap_del_def)
  next
    case False
    with Cons show ?thesis by (simp add: p smap_wf_def) (simp add: smap_del_def)
  qed
qed simp

text \<open>Removing a part of the entries by their keys.\<close>

lemma smap_remove_part:
  assumes "smap_wf l" "set T \<subseteq> set l" "distinct T"
  shows "smap_sum (filter (\<lambda>p. fst p \<notin> fst ` set T) l) + smap_sum T = smap_sum l"
    "length (filter (\<lambda>p. fst p \<notin> fst ` set T) l) + length T = length l"
proof -
  let ?R = "filter (\<lambda>p. fst p \<notin> fst ` set T) l"
  have dl: "distinct l" using assms(1) by (simp add: smap_wf_def distinct_map)
  have key: "fst p \<in> fst ` set T \<longleftrightarrow> p \<in> set T" if "p \<in> set l" for p
    using that assms(1,2) by (auto simp: smap_wf_def distinct_map dest!: inj_onD)
  have part: "set l = set ?R \<union> set T" "set ?R \<inter> set T = {}" using key assms(2) by auto
  have "distinct ?R" using dl by simp
  then have "smap_sum ?R = sum snd (set ?R)" "length ?R = card (set ?R)"
    unfolding smap_sum_def by (simp_all only: sum_list_distinct_conv_sum_set distinct_card)
  moreover have "smap_sum l = sum snd (set l)" "length l = card (set l)"
    using dl unfolding smap_sum_def by (simp_all only: sum_list_distinct_conv_sum_set distinct_card)
  moreover have "smap_sum T = sum snd (set T)" "length T = card (set T)"
    using assms(3) unfolding smap_sum_def by (simp_all only: sum_list_distinct_conv_sum_set distinct_card)
  moreover have "sum snd (set l) = sum snd (set ?R) + sum snd (set T)"
    unfolding part(1) by (rule sum.union_disjoint) (use part(2) in auto)
  moreover have "card (set l) = card (set ?R) + card (set T)"
    unfolding part(1) by (rule card_Un_disjoint) (use part(2) in auto)
  ultimately show "smap_sum ?R + smap_sum T = smap_sum l" "length ?R + length T = length l"
    by simp_all
qed

lemma filter_not_taken:
  assumes "distinct (map fst l)"
  shows "filter (\<lambda>p. fst p \<notin> fst ` set (take k l)) l = drop k l"
proof -
  have "distinct (map fst (take k l) @ map fst (drop k l))"
    using assms by (metis append_take_drop_id map_append)
  then have "fst p \<notin> fst ` set (take k l)" if "p \<in> set (drop k l)" for p
    using that by (force simp: disjoint_iff)
  then have "filter (\<lambda>p. fst p \<notin> fst ` set (take k l)) (take k l @ drop k l) = drop k l"
    unfolding filter_append by (auto simp: filter_empty_conv filter_id_conv)
  then show ?thesis by simp
qed

lemma smap_del_put: "k \<notin> fst ` set l \<Longrightarrow> smap_del k (smap_put k v l) = l"
proof (induction l)
  case (Cons p l)
  then show ?case using smap_del_absent[of k l] by (cases p) (auto simp: smap_del_def)
qed (simp add: smap_del_def)

lemma smap_singleton:
  assumes "smap_wf l" "set l \<subseteq> {p. fst p = k}" "map_of l k = Some v"
  shows "l = [(k, v)]"
proof -
  obtain p l' where l: "l = p # l'" using assms(3) by (cases l) auto
  with assms have "l' = []" by (cases l') (auto simp: smap_wf_def)
  with l assms show ?thesis by (cases p) (auto split: if_splits)
qed

section \<open>Transition systems\<close>

text \<open>
  What every pallet relies on for its invariant: the initial states have it and each step keeps
  it. \<open>step\<close> relates the states before and after one successful call or one change of the
  environment; a call that fails changes nothing.
\<close>

locale invariant_system =
  fixes initial :: "'s \<Rightarrow> bool"
    and step :: "'s \<Rightarrow> 's \<Rightarrow> bool"
    and invar :: "'s \<Rightarrow> bool"
  assumes invar_initial: "initial s \<Longrightarrow> invar s"
    and invar_step: "invar s \<Longrightarrow> step s t \<Longrightarrow> invar t"
begin

lemma invar_steps: "step\<^sup>*\<^sup>* s t \<Longrightarrow> invar s \<Longrightarrow> invar t"
  by (induction rule: rtranclp_induct) (auto intro: invar_step)

lemma reachable_invar: "initial s \<Longrightarrow> step\<^sup>*\<^sup>* s t \<Longrightarrow> invar t"
  using invar_steps invar_initial by blast

lemma stable_steps:
  assumes "\<And>u v. invar u \<Longrightarrow> step u v \<Longrightarrow> P u \<Longrightarrow> P v"
  shows "step\<^sup>*\<^sup>* s t \<Longrightarrow> invar s \<Longrightarrow> P s \<Longrightarrow> P t"
  by (induction rule: rtranclp_induct) (use assms invar_steps in blast)+

end

end
