(* ===== verification/Tick_Index.thy ===== *)
theory Tick_Index
  imports Prelude
begin

text \<open>
  The type \<open>TickIndex\<close> of the swap pallet (\<open>pallets/swap/src/tick.rs\<close>): an \<open>i32\<close>
  that the checked constructor keeps between \<open>MIN\<close> and \<open>MAX\<close>, and its checked and
  saturating arithmetic. A tick index is an \<open>int\<close>; every operation that the source does on
  the underlying \<open>i32\<close> saturates at the \<open>i32\<close> bounds first, exactly as written there.
\<close>

datatype tick_math_error =
  TickOutOfBounds | SqrtPriceOutOfBounds | ConversionError | Overflow | DivisionByZero

type_synonym tick_index = int

definition MIN_TICK :: int where "MIN_TICK = -887272"
definition MAX_TICK :: int where "MAX_TICK = - MIN_TICK"

text \<open>\<open>TickIndex::MIN\<close>, \<open>TickIndex::MAX\<close> and \<open>TickIndex::OFFSET\<close>.\<close>

definition tick_MIN :: tick_index where "tick_MIN = trunc_div MIN_TICK 2"
definition tick_MAX :: tick_index where "tick_MAX = trunc_div MAX_TICK 2"
definition tick_OFFSET :: tick_index where "tick_OFFSET = MAX_TICK"

definition i32_saturating_add :: "int \<Rightarrow> int \<Rightarrow> int" where
  "i32_saturating_add a b = clamp i32_min i32_max (a + b)"

definition i32_saturating_sub :: "int \<Rightarrow> int \<Rightarrow> int" where
  "i32_saturating_sub a b = clamp i32_min i32_max (a - b)"

definition i32_saturating_div :: "int \<Rightarrow> int \<Rightarrow> int" where
  "i32_saturating_div a b = clamp i32_min i32_max (trunc_div a b)"

definition i32_checked_mul :: "int \<Rightarrow> int \<Rightarrow> int option" where
  "i32_checked_mul a b = (if i32_min \<le> a * b \<and> a * b \<le> i32_max then Some (a * b) else None)"

definition tick_new :: "int \<Rightarrow> (tick_math_error, tick_index) result" where
  "tick_new v = (if \<not> (tick_MIN \<le> v \<and> v \<le> tick_MAX) then Inl TickOutOfBounds else Inr v)"

text \<open>\<open>(offset_index as i64).saturating_sub(OFFSET as i64) as i32\<close>: the difference of a
  \<open>u32\<close> and a small constant fits an \<open>i64\<close>; the cast to \<open>i32\<close> keeps the low 32
  bits, read as a signed number.\<close>

definition as_i32 :: "int \<Rightarrow> int" where
  "as_i32 x = (x + 2 ^ 31) mod 2 ^ 32 - 2 ^ 31"

definition from_offset_index :: "nat \<Rightarrow> (tick_math_error, tick_index) result" where
  "from_offset_index i = tick_new (as_i32 (clamp i64_min i64_max (int i - tick_OFFSET)))"

definition tick_next :: "tick_index \<Rightarrow> (tick_math_error, tick_index) result" where
  "tick_next t = tick_new (i32_saturating_add t 1)"

definition tick_prev :: "tick_index \<Rightarrow> (tick_math_error, tick_index) result" where
  "tick_prev t = tick_new (i32_saturating_sub t 1)"

definition tick_checked_add :: "tick_index \<Rightarrow> int \<Rightarrow> (tick_math_error, tick_index) result" where
  "tick_checked_add t v = tick_new (i32_saturating_add t v)"

definition tick_checked_sub :: "tick_index \<Rightarrow> int \<Rightarrow> (tick_math_error, tick_index) result" where
  "tick_checked_sub t v = tick_new (i32_saturating_sub t v)"

definition tick_saturating_add :: "tick_index \<Rightarrow> int \<Rightarrow> tick_index" where
  "tick_saturating_add t v =
     (case tick_checked_add t v of Inr r \<Rightarrow> r | Inl _ \<Rightarrow> if v > 0 then tick_MAX else tick_MIN)"

definition tick_saturating_sub :: "tick_index \<Rightarrow> int \<Rightarrow> tick_index" where
  "tick_saturating_sub t v =
     (case tick_checked_sub t v of Inr r \<Rightarrow> r | Inl _ \<Rightarrow> if v > 0 then tick_MIN else tick_MAX)"

definition tick_checked_div :: "tick_index \<Rightarrow> int \<Rightarrow> (tick_math_error, tick_index) result" where
  "tick_checked_div t v =
     (if v = 0 then Inl DivisionByZero else tick_new (i32_saturating_div t v))"

definition tick_saturating_div :: "tick_index \<Rightarrow> int \<Rightarrow> tick_index" where
  "tick_saturating_div t v =
     (if v = 0 then tick_MAX
      else case tick_checked_div t v of
        Inr r \<Rightarrow> r
      | Inl _ \<Rightarrow> if t < 0 \<and> v > 0 \<or> t > 0 \<and> v < 0 then tick_MIN else tick_MAX)"

definition tick_checked_mul :: "tick_index \<Rightarrow> int \<Rightarrow> (tick_math_error, tick_index) result" where
  "tick_checked_mul t v =
     (case i32_checked_mul t v of Some r \<Rightarrow> tick_new r | None \<Rightarrow> Inl Overflow)"

definition tick_saturating_mul :: "tick_index \<Rightarrow> int \<Rightarrow> tick_index" where
  "tick_saturating_mul t v =
     (case tick_checked_mul t v of
        Inr r \<Rightarrow> r
      | Inl _ \<Rightarrow> if t < 0 \<and> v > 0 \<or> t > 0 \<and> v < 0 then tick_MIN else tick_MAX)"

definition current_bounded :: "tick_index \<Rightarrow> tick_index" where
  "current_bounded t =
     (if t > tick_MAX then tick_MAX else if t < tick_MIN then tick_MIN else t)"

section \<open>Bounds\<close>

definition valid_tick :: "tick_index \<Rightarrow> bool" where
  "valid_tick t \<longleftrightarrow> tick_MIN \<le> t \<and> t \<le> tick_MAX"

definition is_i32 :: "int \<Rightarrow> bool" where
  "is_i32 v \<longleftrightarrow> i32_min \<le> v \<and> v \<le> i32_max"

lemma tick_bounds_value [simp]:
  "tick_MIN = -443636" "tick_MAX = 443636" "tick_OFFSET = 887272"
  by (simp_all add: tick_MIN_def tick_MAX_def tick_OFFSET_def MIN_TICK_def MAX_TICK_def
      trunc_div_def)

lemmas tick_op_defs = tick_new_def tick_next_def tick_prev_def tick_checked_add_def
  tick_checked_sub_def tick_checked_div_def tick_checked_mul_def
  tick_saturating_add_def tick_saturating_sub_def tick_saturating_div_def
  tick_saturating_mul_def current_bounded_def
  i32_saturating_add_def i32_saturating_sub_def i32_saturating_div_def i32_checked_mul_def

lemmas i32_bounds_defs = is_i32_def i32_min_def i32_max_def clamp_def

lemma from_offset_index_eq:
  "i \<le> u32_max \<Longrightarrow> from_offset_index i = tick_new (as_i32 (int i - 887272))"
  by (simp add: from_offset_index_def clamp_def i64_min_def i64_max_def u32_max_def)

lemma from_offset_index_small:
  assumes "i < 2 ^ 31"
  shows "from_offset_index i = tick_new (int i - 887272)"
proof -
  from assms have "0 \<le> int i - 887272 + 2 ^ 31" "int i - 887272 + 2 ^ 31 < 2 ^ 32"
    by simp_all
  then have "as_i32 (int i - 887272) = int i - 887272"
    unfolding as_i32_def by (simp del: of_nat_less_numeral_power_cancel_iff)
  with assms show ?thesis by (simp add: from_offset_index_eq u32_max_def)
qed

lemma sgn_mult_pos: "0 < t * v \<Longrightarrow> \<not> (t < 0 \<and> v > 0 \<or> t > 0 \<and> v < (0::int))"
  by (auto simp: zero_less_mult_iff)

lemma sgn_mult_neg: "t * v < 0 \<Longrightarrow> t < 0 \<and> v > 0 \<or> t > 0 \<and> v < (0::int)"
  by (auto simp: mult_less_0_iff)

lemma tick_saturating_mul_eq: "tick_saturating_mul t v = clamp tick_MIN tick_MAX (t * v)"
proof -
  consider "0 < t * v" | "t * v < 0" | "t * v = 0" by linarith
  then show ?thesis
    by cases (simp_all add: tick_op_defs i32_bounds_defs sgn_mult_pos sgn_mult_neg, auto)
qed

lemma trunc_div_abs: "\<bar>trunc_div a b\<bar> \<le> \<bar>a\<bar>"
proof (cases "b = 0")
  case False
  then have "\<bar>a\<bar> div \<bar>b\<bar> \<le> \<bar>a\<bar> div 1" by (intro zdiv_mono2) auto
  moreover have "0 \<le> \<bar>a\<bar> div \<bar>b\<bar>" using False by (simp add: pos_imp_zdiv_nonneg_iff)
  ultimately show ?thesis unfolding trunc_div_def Let_def by simp
qed (simp add: trunc_div_def)

text \<open>The saturating operations of a tick index agree with exact integer arithmetic followed
  by clamping to the tick range, for every valid tick and every \<open>i32\<close> operand: neither the
  saturation at the \<open>i32\<close> bounds nor the choice of bound in the error branches shows.\<close>

theorem tick_saturating_ops_clamp:
  assumes "valid_tick t" "is_i32 v"
  shows "tick_saturating_add t v = clamp tick_MIN tick_MAX (t + v)
    \<and> tick_saturating_sub t v = clamp tick_MIN tick_MAX (t - v)
    \<and> tick_saturating_mul t v = clamp tick_MIN tick_MAX (t * v)
    \<and> (v \<noteq> 0 \<longrightarrow> tick_saturating_div t v = trunc_div t v)"
proof (intro conjI impI)
  show "tick_saturating_add t v = clamp tick_MIN tick_MAX (t + v)"
    using assms by (auto simp: tick_op_defs i32_bounds_defs valid_tick_def)
  show "tick_saturating_sub t v = clamp tick_MIN tick_MAX (t - v)"
    using assms by (auto simp: tick_op_defs i32_bounds_defs valid_tick_def)
  show "tick_saturating_mul t v = clamp tick_MIN tick_MAX (t * v)"
    by (rule tick_saturating_mul_eq)
  assume "v \<noteq> 0"
  with assms trunc_div_abs[of t v] show "tick_saturating_div t v = trunc_div t v"
    by (auto simp: tick_op_defs i32_bounds_defs valid_tick_def)
qed

theorem tick_saturating_ops_clamp_witness:
  "tick_saturating_add 443000 2147483647 = 443636 \<and> tick_saturating_mul (-443000) 5000000 = -443636
   \<and> tick_saturating_div 443000 (-3) = -147666"
  using tick_saturating_ops_clamp[of 443000 2147483647] tick_saturating_ops_clamp[of "-443000" 5000000]
    tick_saturating_ops_clamp[of 443000 "-3"]
  by (simp add: valid_tick_def i32_bounds_defs trunc_div_def)

end
