(* ===== verification/Tick_Bitmap.thy ===== *)
theory Tick_Bitmap
  imports Tick_Index
begin

unbundle bit_operations_syntax

text \<open>
  The three-layer bitmap of active ticks (\<open>TickIndexBitmap\<close> and
  \<open>ActiveTickIndexManager\<close> in \<open>pallets/swap/src/tick.rs\<close>). A tick is a bit of a
  bottom word; a bit of a middle word says that the bottom word it points to is not zero, a bit
  of the top word says the same of a middle word. Words are \<open>u128\<close>, modelled as
  \<open>128 word\<close>; the storage map \<open>TickIndexBitmapWords\<close> has the default 0, so it is a
  total function of its key.

  The abstract view is the set of active ticks of a subnet (\<open>active_ticks\<close>): the layers
  agree with each other (\<open>bitmap_inv\<close>), \<open>insert\<close> and \<open>remove\<close> add and delete one
  element, and the layered search returns the greatest active tick at or below, respectively the
  least at or above, the requested one.
\<close>

section \<open>Data and operations\<close>

datatype layer_level = Top | Middle | Bottom

record bitmap_layer =
  layer_word :: nat
  layer_bit :: nat

record tick_index_bitmap =
  layer0 :: bitmap_layer
  layer1 :: bitmap_layer
  layer2 :: bitmap_layer

type_synonym bitmap_words = "netuid \<times> layer_level \<times> nat \<Rightarrow> 128 word"

definition mk_layer :: "nat \<Rightarrow> nat \<Rightarrow> bitmap_layer" where
  "mk_layer w b = \<lparr>layer_word = w, layer_bit = b\<rparr>"

definition index_to_layer :: "nat \<Rightarrow> bitmap_layer" where
  "index_to_layer index = mk_layer (safe_div index 128) (index mod 128)"

definition layer_to_index :: "bitmap_layer \<Rightarrow> nat" where
  "layer_to_index l = sat_add u32_max (sat_mul u32_max (layer_word l) 128) (layer_bit l)"

fun bit_at :: "tick_index_bitmap \<Rightarrow> layer_level \<Rightarrow> nat" where
  "bit_at m Top = layer_bit (layer0 m)"
| "bit_at m Middle = layer_bit (layer1 m)"
| "bit_at m Bottom = layer_bit (layer2 m)"

fun word_at :: "tick_index_bitmap \<Rightarrow> layer_level \<Rightarrow> nat" where
  "word_at m Top = layer_word (layer0 m)"
| "word_at m Middle = layer_word (layer1 m)"
| "word_at m Bottom = layer_word (layer2 m)"

fun bit_mask :: "tick_index_bitmap \<Rightarrow> layer_level \<Rightarrow> 128 word" where
  "bit_mask m Top = push_bit (layer_bit (layer0 m)) 1"
| "bit_mask m Middle = push_bit (layer_bit (layer1 m)) 1"
| "bit_mask m Bottom = push_bit (layer_bit (layer2 m)) 1"

definition bitmap_of_tick :: "tick_index \<Rightarrow> tick_index_bitmap" where
  "bitmap_of_tick t =
     (let offset_index = nat (i32_saturating_add t tick_OFFSET mod 2 ^ 32);
          l2 = index_to_layer offset_index;
          l1 = index_to_layer (layer_word l2);
          l0 = index_to_layer (layer_word l1)
      in \<lparr>layer0 = l0, layer1 = l1, layer2 = l2\<rparr>)"

definition in_range :: "tick_index \<Rightarrow> bool" where
  "in_range t \<longleftrightarrow> \<not> (t < tick_MIN \<or> t > tick_MAX)"

definition insert_tick :: "bitmap_words \<Rightarrow> netuid \<Rightarrow> tick_index \<Rightarrow> bitmap_words" where
  "insert_tick s n t =
     (if \<not> in_range t then s
      else let m = bitmap_of_tick t;
               word0_value = s (n, Top, word_at m Top) OR bit_mask m Top;
               word1_value = s (n, Middle, word_at m Middle) OR bit_mask m Middle;
               word2_value = s (n, Bottom, word_at m Bottom) OR bit_mask m Bottom
           in s((n, Top, word_at m Top) := word0_value,
                (n, Middle, word_at m Middle) := word1_value,
                (n, Bottom, word_at m Bottom) := word2_value))"

definition remove_tick :: "bitmap_words \<Rightarrow> netuid \<Rightarrow> tick_index \<Rightarrow> bitmap_words" where
  "remove_tick s n t =
     (if \<not> in_range t then s
      else let m = bitmap_of_tick t;
               word0_value = s (n, Top, word_at m Top);
               word1_value = s (n, Middle, word_at m Middle);
               word2_value = s (n, Bottom, word_at m Bottom) AND NOT (bit_mask m Bottom);
               s2 = s((n, Bottom, word_at m Bottom) := word2_value);
               (word1_value, s1) =
                 (if word2_value = 0
                  then let v = word1_value AND NOT (bit_mask m Middle)
                       in (v, s2((n, Middle, word_at m Middle) := v))
                  else (word1_value, s2))
           in if word1_value = 0
              then s1((n, Top, word_at m Top) := word0_value AND NOT (bit_mask m Top))
              else s1)"

text \<open>
  The loop of \<open>find_closest_active_bit_candidates\<close>. It runs while the mask is not zero;
  \<open>wrapping_shr(1)\<close> and \<open>wrapping_shl(1)\<close> move the single set bit of the mask out of
  the word at the end.
\<close>

lemma push_bit_1_least:
  fixes m :: "128 word"
  assumes "push_bit 1 m \<noteq> 0"
  shows "(LEAST k. bit m k) < (LEAST k. bit (push_bit 1 m) k)"
proof -
  from assms obtain j where j: "bit (push_bit 1 m) j"
    by (rule word_neq_0_bitE)
  define l where "l = (LEAST k. bit (push_bit 1 m) k)"
  from j have "bit (push_bit 1 m) l" unfolding l_def by (rule LeastI)
  then have "1 \<le> l" "bit m (l - 1)" unfolding bit_push_bit_iff by auto
  from this(2) have "(LEAST k. bit m k) \<le> l - 1" by (rule Least_le)
  with \<open>1 \<le> l\<close> show ?thesis unfolding l_def[symmetric] by simp
qed

lemma least_bit_bound:
  fixes m :: "128 word"
  assumes "m \<noteq> 0"
  shows "(LEAST k. bit m k) < 128"
proof -
  from assms obtain j where j: "bit m j" by (rule word_neq_0_bitE)
  then have "bit m (LEAST k. bit m k)" by (rule LeastI)
  then show ?thesis by (auto dest: bit_imp_le_length)
qed

function closest_loop ::
    "128 word \<Rightarrow> nat \<Rightarrow> bool \<Rightarrow> 128 word \<Rightarrow> nat \<Rightarrow> nat list \<Rightarrow> nat list" where
  "closest_loop word bit0 lower msk active_bit result =
     (if msk > 0
      then let result' = (if msk AND word \<noteq> 0 then result @ [active_bit] else result)
           in if msk AND word \<noteq> 0 \<and> active_bit \<noteq> bit0 then result'
              else if lower
              then closest_loop word bit0 lower (drop_bit 1 msk) (active_bit - 1) result'
              else closest_loop word bit0 lower (push_bit 1 msk) (sat_add u32_max active_bit 1) result'
      else result)"
  by pat_completeness auto
termination
proof (relation "measure (\<lambda>(w, b, lower, msk, a, r).
    if msk = 0 then 0 else if lower then unat msk else 129 - (LEAST k. bit msk k))", goal_cases)
  case 1
  show ?case by simp
next
  case (2 word bit0 lower msk active_bit result x)
  have "unat (drop_bit 1 msk) < unat msk"
    using 2 by (simp add: drop_bit_eq_div unat_div word_gt_0 unat_gt_0)
  with 2 show ?case by (auto simp: word_gt_0 unat_gt_0)
next
  case (3 word bit0 lower msk active_bit result x)
  show ?case
  proof (cases "push_bit 1 msk = 0")
    case True
    with 3 least_bit_bound[of msk] show ?thesis by (auto simp: word_gt_0)
  next
    case False
    have "(LEAST k. bit (push_bit 1 msk) k) < 128"
      using False by (rule least_bit_bound)
    with push_bit_1_least[OF False] False 3 show ?thesis by (auto simp: word_gt_0)
  qed
qed

declare closest_loop.simps [simp del]

definition find_closest_active_bit_candidates :: "128 word \<Rightarrow> nat \<Rightarrow> bool \<Rightarrow> nat list" where
  "find_closest_active_bit_candidates word b lower =
     closest_loop word b lower (push_bit (b mod 128) 1) b []"

text \<open>The two nested search loops of \<open>find_closest\<close>; the state is \<open>(found, result)\<close>.\<close>

definition start_bit :: "nat \<Rightarrow> nat \<Rightarrow> nat \<Rightarrow> nat" where
  "start_bit word_index layer_word_index own_bit =
     (if word_index < layer_word_index then 127
      else if word_index > layer_word_index then 0 else own_bit)"

definition search_l2 ::
    "bitmap_words \<Rightarrow> netuid \<Rightarrow> tick_index_bitmap \<Rightarrow> bool \<Rightarrow> nat \<Rightarrow> nat \<Rightarrow> bool \<times> nat \<Rightarrow> bool \<times> nat" where
  "search_l2 s n m lower word1_index closest_bit_l1 acc =
     (let (found, result) = acc;
          word2_index = layer_to_index (mk_layer word1_index closest_bit_l1);
          closest_bits_l2 = find_closest_active_bit_candidates (s (n, Bottom, word2_index))
            (start_bit word2_index (word_at m Bottom) (bit_at m Bottom)) lower
      in if closest_bits_l2 = [] then acc
         else let offset_found_index = layer_to_index (mk_layer word2_index (hd closest_bits_l2))
              in if lower
                 then if offset_found_index > result \<or> \<not> found then (True, offset_found_index) else acc
                 else if offset_found_index < result \<or> \<not> found then (True, offset_found_index) else acc)"

definition search_l1 ::
    "bitmap_words \<Rightarrow> netuid \<Rightarrow> tick_index_bitmap \<Rightarrow> bool \<Rightarrow> nat \<Rightarrow> bool \<times> nat \<Rightarrow> bool \<times> nat" where
  "search_l1 s n m lower closest_bit_l0 acc =
     (let word1_index = layer_to_index (mk_layer 0 closest_bit_l0);
          closest_bits_l1 = find_closest_active_bit_candidates (s (n, Middle, word1_index))
            (start_bit word1_index (word_at m Middle) (bit_at m Middle)) lower
      in fold (search_l2 s n m lower word1_index) closest_bits_l1 acc)"

definition find_closest :: "bitmap_words \<Rightarrow> netuid \<Rightarrow> tick_index \<Rightarrow> bool \<Rightarrow> tick_index option" where
  "find_closest s n t lower =
     (if \<not> in_range t then None
      else let m = bitmap_of_tick t;
               closest_bits_l0 = find_closest_active_bit_candidates (s (n, Top, word_at m Top))
                 (bit_at m Top) lower;
               (found, result) = fold (search_l1 s n m lower) closest_bits_l0 (False, 0)
           in if \<not> found then None
              else (case from_offset_index result of Inl _ \<Rightarrow> None | Inr r \<Rightarrow> Some r))"

definition find_closest_lower :: "bitmap_words \<Rightarrow> netuid \<Rightarrow> tick_index \<Rightarrow> tick_index option" where
  "find_closest_lower s n t = find_closest s n t True"

definition find_closest_higher :: "bitmap_words \<Rightarrow> netuid \<Rightarrow> tick_index \<Rightarrow> tick_index option" where
  "find_closest_higher s n t = find_closest s n t False"

definition tick_is_active :: "bitmap_words \<Rightarrow> netuid \<Rightarrow> tick_index \<Rightarrow> bool" where
  "tick_is_active s n t =
     ((case find_closest_lower s n t of None \<Rightarrow> tick_MAX | Some r \<Rightarrow> r) = t)"


section \<open>Search directions\<close>

text \<open>
  Both searches are one argument read in two directions: \<open>dle lower a b\<close> says that \<open>b\<close>
  is \<open>a\<close> or lies beyond \<open>a\<close> for a search in that direction.
\<close>

definition dle :: "bool \<Rightarrow> nat \<Rightarrow> nat \<Rightarrow> bool" where
  "dle lower a b = (if lower then b \<le> a else a \<le> b)"

definition dlt :: "bool \<Rightarrow> nat \<Rightarrow> nat \<Rightarrow> bool" where
  "dlt lower a b = (if lower then b < a else a < b)"

lemma dle_refl [simp]: "dle lower a a"
  by (simp add: dle_def)

lemma dle_trans: "dle lower a b \<Longrightarrow> dle lower b c \<Longrightarrow> dle lower a c"
  by (auto simp: dle_def split: if_splits)

lemma dlt_dle_trans: "dlt lower a b \<Longrightarrow> dle lower b c \<Longrightarrow> dlt lower a c"
  by (auto simp: dle_def dlt_def split: if_splits)

lemma dle_iff_dlt: "dle lower a b \<longleftrightarrow> a = b \<or> dlt lower a b"
  by (auto simp: dle_def dlt_def)

lemma not_dle: "\<not> dle lower a b \<longleftrightarrow> dlt lower b a"
  by (auto simp: dle_def dlt_def)

lemma dle_antisym: "dle lower a b \<Longrightarrow> dle lower b a \<Longrightarrow> a = b"
  by (auto simp: dle_def split: if_splits)

text \<open>A flat index is a word index and a bit; the order of indices is lexicographic.\<close>

lemma div_mod_128: "(w * 128 + b) div 128 = w" "(w * 128 + b) mod 128 = b" if "b < 128" for b w :: nat
  using that by simp_all

lemma dle_div: "dle lower i j \<Longrightarrow> dle lower (i div 128) (j div 128)"
  by (auto simp: dle_def div_le_mono)

lemma dlt_of_div: "dlt lower (i div 128) (j div 128) \<Longrightarrow> dlt lower i j"
  by (auto simp: dlt_def split: if_splits)

lemma dle_same_word:
  assumes "i div 128 = j div 128"
  shows "dle lower i j \<longleftrightarrow> dle lower (i mod 128) (j mod 128)"
proof -
  define q a c where "q = j div 128" and "a = i mod 128" and "c = j mod 128"
  have "i = q * 128 + a" "j = q * 128 + c" "a < 128" "c < 128"
    using assms div_mult_mod_eq[of i 128] by (simp_all add: q_def a_def c_def)
  then show ?thesis by (auto simp: dle_def)
qed

section \<open>The candidate bits of one word\<close>

definition first_from :: "bool \<Rightarrow> 128 word \<Rightarrow> nat \<Rightarrow> nat list \<Rightarrow> bool" where
  "first_from lower w k L \<longleftrightarrow>
     (L = [] \<and> (\<forall>j<128. dle lower k j \<longrightarrow> \<not> bit w j)) \<or>
     (\<exists>j<128. L = [j] \<and> dle lower k j \<and> bit w j \<and>
        (\<forall>i<128. dle lower k i \<and> bit w i \<longrightarrow> dle lower j i))"

lemma first_from_skip:
  assumes "\<not> bit w k" "\<And>i. dle lower k i \<longleftrightarrow> i = k \<or> dle lower k' i" "first_from lower w k' L"
  shows "first_from lower w k L"
  using assms by (auto simp: first_from_def)

lemma mask_pos: "k < 128 \<Longrightarrow> 0 < push_bit k (1 :: 128 word)"
  by (auto simp: word_gt_0 word_neq_0_bit bit_push_bit_iff bit_1_iff intro!: exI[of _ k])

lemma mask_and: "k < 128 \<Longrightarrow> push_bit k (1 :: 128 word) AND w \<noteq> 0 \<longleftrightarrow> bit w k"
  unfolding word_neq_0_bit bit_and_iff bit_push_bit_iff bit_1_iff by auto

lemma drop_mask: "Suc k < 128 \<Longrightarrow> drop_bit 1 (push_bit (Suc k) (1 :: 128 word)) = push_bit k 1"
  by (rule bit_word_eqI) (unfold bit_drop_bit_eq o_def bit_push_bit_iff bit_1_iff, auto)

lemma mask_out: "push_bit 128 (1 :: 128 word) = 0"
  by (rule bit_word_eqI) (auto simp del: push_bit_of_1 simp: bit_push_bit_iff)

lemma closest_loop_0 [simp]: "closest_loop w b lower 0 a r = r"
  by (subst closest_loop.simps) simp

lemma closest_loop_down:
  "k < 128 \<Longrightarrow> k < b \<Longrightarrow>
     \<exists>L. closest_loop w b True (push_bit k 1) k r = r @ L \<and> first_from True w k L"
proof (induction k arbitrary: r)
  case 0
  then show ?case
    using mask_and[of 0 w] mask_pos[of 0]
    by (subst closest_loop.simps) (auto simp: first_from_def dle_def)
next
  case (Suc k)
  show ?case
  proof (cases "bit w (Suc k)")
    case True
    with Suc.prems show ?thesis
      using mask_and[of "Suc k" w] mask_pos[of "Suc k"]
      by (subst closest_loop.simps) (auto simp: first_from_def dle_def simp del: push_bit_Suc push_bit_of_1)
  next
    case False
    have "closest_loop w b True (push_bit (Suc k) 1) (Suc k) r =
        closest_loop w b True (push_bit k 1) k r"
      using Suc.prems False mask_and[of "Suc k" w] mask_pos[of "Suc k"] drop_mask[of k]
      by (subst closest_loop.simps) (simp del: push_bit_Suc push_bit_of_1)
    moreover obtain L where "closest_loop w b True (push_bit k 1) k r = r @ L" "first_from True w k L"
      using Suc.IH[of r] Suc.prems by auto
    moreover have "first_from True w (Suc k) L"
      using False _ \<open>first_from True w k L\<close> by (rule first_from_skip) (auto simp: dle_def)
    ultimately show ?thesis by auto
  qed
qed

lemma closest_loop_up:
  "k \<le> 128 \<Longrightarrow> b < k \<Longrightarrow>
     \<exists>L. closest_loop w b False (push_bit k 1) k r = r @ L \<and> first_from False w k L"
proof (induction "128 - k" arbitrary: k r)
  case 0
  then have "k = 128" by simp
  then show ?case by (auto simp: first_from_def dle_def mask_out simp del: push_bit_of_1)
next
  case (Suc d)
  then have k: "k < 128" and d: "d = 128 - Suc k" by simp_all
  show ?case
  proof (cases "bit w k")
    case True
    with Suc.prems k show ?thesis
      using mask_and[of k w] mask_pos[of k]
      by (subst closest_loop.simps) (auto simp: first_from_def dle_def simp del: push_bit_of_1)
  next
    case False
    have step: "sat_add u32_max k (Suc 0) = Suc k" "push_bit 1 (push_bit k (1 :: 128 word)) = push_bit (Suc k) 1"
      using k by (simp_all add: sat_add_def u32_max_def push_bit_push_bit del: push_bit_of_1)
    have "closest_loop w b False (push_bit k 1) k r =
        closest_loop w b False (push_bit (Suc k) 1) (Suc k) r"
      using False k mask_and[of k w] mask_pos[of k]
      by (subst closest_loop.simps) (simp add: step del: push_bit_of_1 push_bit_Suc)
    moreover obtain L where "closest_loop w b False (push_bit (Suc k) 1) (Suc k) r = r @ L"
      "first_from False w (Suc k) L"
      using Suc.hyps(1)[OF d, of r] Suc.prems k by auto
    moreover have "first_from False w k L"
      using False _ \<open>first_from False w (Suc k) L\<close> by (rule first_from_skip) (auto simp: dle_def)
    ultimately show ?thesis by auto
  qed
qed


definition next_after :: "bool \<Rightarrow> 128 word \<Rightarrow> nat \<Rightarrow> nat list \<Rightarrow> bool" where
  "next_after lower w b L \<longleftrightarrow>
     (L = [] \<and> (\<forall>j<128. dlt lower b j \<longrightarrow> \<not> bit w j)) \<or>
     (\<exists>j<128. L = [j] \<and> dlt lower b j \<and> bit w j \<and>
        (\<forall>i<128. dlt lower b i \<and> bit w i \<longrightarrow> dle lower j i))"

lemma next_after_first_from:
  "(\<And>i. dlt lower b i \<longleftrightarrow> dle lower k i) \<Longrightarrow> next_after lower w b L \<longleftrightarrow> first_from lower w k L"
  by (simp add: next_after_def first_from_def)

lemma candidates_down:
  assumes "b < 128"
  shows "\<exists>L. find_closest_active_bit_candidates w b True = (if bit w b then [b] else []) @ L \<and>
    next_after True w b L"
proof (cases b)
  case 0
  have "find_closest_active_bit_candidates w b True = (if bit w b then [b] else [])"
    using 0 mask_and[of 0 w] unfolding find_closest_active_bit_candidates_def
    by (subst closest_loop.simps) (auto simp: drop_bit_eq_div)
  with 0 show ?thesis by (auto simp: next_after_def dlt_def)
next
  case (Suc k)
  let ?r = "if bit w b then [b] else []"
  have "find_closest_active_bit_candidates w b True = closest_loop w b True (push_bit k 1) k ?r"
    using Suc assms mask_and[of b w] mask_pos[of b] drop_mask[of k]
    unfolding find_closest_active_bit_candidates_def
    by (subst closest_loop.simps) (simp del: push_bit_Suc push_bit_of_1)
  moreover obtain L where "closest_loop w b True (push_bit k 1) k ?r = ?r @ L" "first_from True w k L"
    using closest_loop_down[of k b w ?r] Suc assms by auto
  moreover have "next_after True w b L"
    using \<open>first_from True w k L\<close> Suc
    by (subst next_after_first_from[where k = k]) (auto simp: dle_def dlt_def)
  ultimately show ?thesis by auto
qed

lemma candidates_up:
  assumes "b < 128"
  shows "\<exists>L. find_closest_active_bit_candidates w b False = (if bit w b then [b] else []) @ L \<and>
    next_after False w b L"
proof -
  let ?r = "if bit w b then [b] else []"
  have step: "sat_add u32_max b (Suc 0) = Suc b" "push_bit 1 (push_bit b (1 :: 128 word)) = push_bit (Suc b) 1"
    using assms by (simp_all add: sat_add_def u32_max_def push_bit_push_bit del: push_bit_of_1)
  have "find_closest_active_bit_candidates w b False =
      closest_loop w b False (push_bit (Suc b) 1) (Suc b) ?r"
    using assms mask_and[of b w] mask_pos[of b] unfolding find_closest_active_bit_candidates_def
    by (subst closest_loop.simps) (simp add: step del: push_bit_Suc push_bit_of_1)
  moreover obtain L where "closest_loop w b False (push_bit (Suc b) 1) (Suc b) ?r = ?r @ L"
    "first_from False w (Suc b) L"
    using closest_loop_up[of "Suc b" b w ?r] assms by auto
  moreover have "next_after False w b L"
    using \<open>first_from False w (Suc b) L\<close>
    by (subst next_after_first_from[where k = "Suc b"]) (auto simp: dle_def dlt_def)
  ultimately show ?thesis by auto
qed

lemma candidates_next_after:
  assumes "b < 128"
  obtains L where
    "find_closest_active_bit_candidates w b lower = (if bit w b then [b] else []) @ L"
    "next_after lower w b L"
  using candidates_down[OF assms, of w] candidates_up[OF assms, of w] by (cases lower) auto

text \<open>
  What the layered search uses of the candidates of a word: every candidate is an active bit at
  or beyond the requested one, every active bit with no other one strictly between it and the
  requested bit is a candidate, and the first candidate is the closest one.
\<close>

lemma candidates_sound:
  assumes "b < 128" "k \<in> set (find_closest_active_bit_candidates w b lower)"
  shows "bit w k \<and> dle lower b k \<and> k < 128"
proof -
  obtain L where "find_closest_active_bit_candidates w b lower = (if bit w b then [b] else []) @ L"
    "next_after lower w b L"
    using candidates_next_after[OF assms(1)] .
  with assms show ?thesis by (auto simp: next_after_def dle_iff_dlt split: if_splits)
qed

lemma candidates_complete:
  assumes "b < 128" "k < 128" "bit w k" "dle lower b k"
    and "\<And>j. j < 128 \<Longrightarrow> dlt lower b j \<Longrightarrow> dlt lower j k \<Longrightarrow> \<not> bit w j"
  shows "k \<in> set (find_closest_active_bit_candidates w b lower)"
proof -
  obtain L where L: "find_closest_active_bit_candidates w b lower = (if bit w b then [b] else []) @ L"
    "next_after lower w b L"
    using candidates_next_after[OF assms(1)] .
  show ?thesis
  proof (cases "k = b")
  case True
  with assms L show ?thesis by simp
next
  case False
  with assms(4) have lt: "dlt lower b k" by (auto simp: dle_iff_dlt)
  with L(2) obtain j where j: "j < 128" "L = [j]" "dlt lower b j" "bit w j" "dle lower j k"
    using assms(2,3) by (auto simp: next_after_def)
  with assms(5) have "j = k" by (auto simp: dle_iff_dlt)
  with L j show ?thesis by simp
qed
qed

lemma candidates_hd:
  assumes "b < 128" "k < 128" "bit w k" "dle lower b k"
  shows "find_closest_active_bit_candidates w b lower \<noteq> []"
    and "dle lower (hd (find_closest_active_bit_candidates w b lower)) k"
proof -
  obtain L where "find_closest_active_bit_candidates w b lower = (if bit w b then [b] else []) @ L"
    "next_after lower w b L"
    using candidates_next_after[OF assms(1)] .
  with assms have "find_closest_active_bit_candidates w b lower \<noteq> [] \<and>
      dle lower (hd (find_closest_active_bit_candidates w b lower)) k"
    by (auto simp: next_after_def dle_iff_dlt split: if_splits)
  then show "find_closest_active_bit_candidates w b lower \<noteq> []"
    "dle lower (hd (find_closest_active_bit_candidates w b lower)) k" by simp_all
qed


section \<open>The abstract view: the set of active ticks\<close>

definition tick_offset :: "tick_index \<Rightarrow> nat" where
  "tick_offset t = nat (t + tick_OFFSET)"

text \<open>The flat indices whose bit is set in a layer.\<close>

definition lset :: "bitmap_words \<Rightarrow> netuid \<Rightarrow> layer_level \<Rightarrow> nat set" where
  "lset s n L = {i. bit (s (n, L, i div 128)) (i mod 128)}"

definition active_ticks :: "bitmap_words \<Rightarrow> netuid \<Rightarrow> tick_index set" where
  "active_ticks s n = {t. in_range t \<and> tick_offset t \<in> lset s n Bottom}"

text \<open>The layers agree: a bit of a layer is set exactly when the word it points to is not zero,
  and only offsets of valid ticks occur in the bottom layer.\<close>

definition bitmap_inv :: "bitmap_words \<Rightarrow> netuid \<Rightarrow> bool" where
  "bitmap_inv s n \<longleftrightarrow>
     lset s n Middle = (\<lambda>i. i div 128) ` lset s n Bottom \<and>
     lset s n Top = (\<lambda>i. i div 128) ` lset s n Middle \<and>
     lset s n Bottom \<subseteq> {443636..1330908}"

definition empty_bitmap :: bitmap_words where
  "empty_bitmap = (\<lambda>_. 0)"

lemma in_range_iff: "in_range t \<longleftrightarrow> -443636 \<le> t \<and> t \<le> 443636"
  by (auto simp: in_range_def)

lemma tick_offset_bounds:
  "in_range t \<Longrightarrow> 443636 \<le> tick_offset t \<and> tick_offset t \<le> 1330908"
  by (auto simp: in_range_iff tick_offset_def nat_le_iff le_nat_iff)

lemma tick_offset_inj: "in_range t \<Longrightarrow> in_range u \<Longrightarrow> tick_offset t = tick_offset u \<longleftrightarrow> t = u"
  by (auto simp: in_range_iff tick_offset_def)

lemma tick_offset_surj:
  assumes "443636 \<le> i" "i \<le> 1330908"
  shows "in_range (int i - 887272)" "tick_offset (int i - 887272) = i"
  using assms by (auto simp: in_range_iff tick_offset_def)

lemma bitmap_of_tick_layers:
  assumes "in_range t"
  shows "word_at (bitmap_of_tick t) Bottom = tick_offset t div 128"
    "bit_at (bitmap_of_tick t) Bottom = tick_offset t mod 128"
    "word_at (bitmap_of_tick t) Middle = tick_offset t div 128 div 128"
    "bit_at (bitmap_of_tick t) Middle = tick_offset t div 128 mod 128"
    "word_at (bitmap_of_tick t) Top = 0"
    "bit_at (bitmap_of_tick t) Top = tick_offset t div 128 div 128"
proof -
  have eq: "nat (i32_saturating_add t tick_OFFSET mod 2 ^ 32) = tick_offset t"
    using assms
    by (auto simp: in_range_iff tick_offset_def i32_saturating_add_def clamp_def i32_min_def i32_max_def)
  have "tick_offset t div 128 div 128 < 128"
    using tick_offset_bounds[OF assms] by linarith
  then show "word_at (bitmap_of_tick t) Bottom = tick_offset t div 128"
    "bit_at (bitmap_of_tick t) Bottom = tick_offset t mod 128"
    "word_at (bitmap_of_tick t) Middle = tick_offset t div 128 div 128"
    "bit_at (bitmap_of_tick t) Middle = tick_offset t div 128 mod 128"
    "word_at (bitmap_of_tick t) Top = 0"
    "bit_at (bitmap_of_tick t) Top = tick_offset t div 128 div 128"
    unfolding bitmap_of_tick_def eq by (simp_all add: Let_def index_to_layer_def mk_layer_def safe_div_eq)
qed

lemma bit_mask_eq: "bit_mask m L = push_bit (bit_at m L) 1"
  by (cases L) simp_all

lemma word_zero_iff: "s (n, L, w) = 0 \<longleftrightarrow> (\<forall>i \<in> lset s n L. i div 128 \<noteq> w)"
proof
  assume "\<forall>i \<in> lset s n L. i div 128 \<noteq> w"
  show "s (n, L, w) = 0"
  proof (rule ccontr)
    assume "s (n, L, w) \<noteq> 0"
    then obtain k where k: "bit (s (n, L, w)) k" "k < 128" by (rule word_neq_0_bitE) simp
    then have "w * 128 + k \<in> lset s n L" "(w * 128 + k) div 128 = w" by (simp_all add: lset_def)
    with \<open>\<forall>i \<in> lset s n L. i div 128 \<noteq> w\<close> show False by blast
  qed
qed (auto simp: lset_def)

lemma lset_other:
  "n \<noteq> n' \<or> L \<noteq> L' \<Longrightarrow> lset (s((n', L', w) := v)) n L = lset s n L"
  by (auto simp: lset_def)

lemma index_eq_iff: "i div 128 = w \<and> i mod 128 = b \<longleftrightarrow> i = w * 128 + b" if "b < 128" for i :: nat
  using that div_mult_mod_eq[of i 128] by auto

lemma lset_set_bit:
  assumes "b < 128"
  shows "lset (s((n, L, w) := s (n, L, w) OR push_bit b 1)) n L = insert (w * 128 + b) (lset s n L)"
proof (rule set_eqI)
  fix i
  have "bit (s (n, L, w) OR push_bit b 1) (i mod 128) \<longleftrightarrow> bit (s (n, L, w)) (i mod 128) \<or> i mod 128 = b"
    using assms by (auto simp: bit_or_iff bit_push_bit_iff bit_1_iff simp del: push_bit_of_1)
  then show "i \<in> lset (s((n, L, w) := s (n, L, w) OR push_bit b 1)) n L \<longleftrightarrow>
      i \<in> insert (w * 128 + b) (lset s n L)"
    unfolding lset_def mem_Collect_eq insert_iff fun_upd_apply index_eq_iff[OF assms, symmetric]
    by (cases "i div 128 = w") (simp_all del: push_bit_of_1, blast)
qed

lemma lset_clear_bit:
  assumes "b < 128"
  shows "lset (s((n, L, w) := s (n, L, w) AND NOT (push_bit b 1))) n L = lset s n L - {w * 128 + b}"
proof (rule set_eqI)
  fix i
  have "bit (s (n, L, w) AND NOT (push_bit b 1)) (i mod 128) \<longleftrightarrow>
      bit (s (n, L, w)) (i mod 128) \<and> i mod 128 \<noteq> b"
    using assms by (auto simp: bit_and_iff bit_not_iff bit_push_bit_iff bit_1_iff simp del: push_bit_of_1
        dest: bit_imp_le_length)
  then show "i \<in> lset (s((n, L, w) := s (n, L, w) AND NOT (push_bit b 1))) n L \<longleftrightarrow>
      i \<in> lset s n L - {w * 128 + b}"
    unfolding lset_def mem_Collect_eq Diff_iff singleton_iff fun_upd_apply index_eq_iff[OF assms, symmetric]
    by (cases "i div 128 = w") (simp_all del: push_bit_of_1)
qed


section \<open>Insertion and removal\<close>

text \<open>The flat index of a tick in each layer.\<close>

fun layer_index :: "tick_index \<Rightarrow> layer_level \<Rightarrow> nat" where
  "layer_index t Bottom = tick_offset t"
| "layer_index t Middle = tick_offset t div 128"
| "layer_index t Top = tick_offset t div 128 div 128"

lemma layer_index_split:
  assumes "in_range t"
  shows "word_at (bitmap_of_tick t) L * 128 + bit_at (bitmap_of_tick t) L = layer_index t L"
    "bit_at (bitmap_of_tick t) L < 128"
proof -
  have "tick_offset t div 128 div 128 < 128"
    using tick_offset_bounds[OF assms] by linarith
  then show "word_at (bitmap_of_tick t) L * 128 + bit_at (bitmap_of_tick t) L = layer_index t L"
    "bit_at (bitmap_of_tick t) L < 128"
    by (cases L; simp add: bitmap_of_tick_layers[OF assms] del: word_at.simps bit_at.simps)+
qed

lemma lset_cong: "(\<And>w. s (n, L, w) = s' (n, L, w)) \<Longrightarrow> lset s n L = lset s' n L"
  by (simp add: lset_def)

lemma lset_cond:
  "(\<And>w. s' (n, L, w) = (if c then u (n, L, w) else s (n, L, w))) \<Longrightarrow>
     lset s' n L = (if c then lset u n L else lset s n L)"
  by (simp add: lset_def)

lemma insert_tick_lset:
  assumes "in_range t"
  shows "lset (insert_tick s n t) n L = insert (layer_index t L) (lset s n L)"
proof -
  let ?m = "bitmap_of_tick t"
  have "lset (insert_tick s n t) n L =
      lset (s((n, L, word_at ?m L) := s (n, L, word_at ?m L) OR push_bit (bit_at ?m L) 1)) n L"
    using assms
    by (intro lset_cong; cases L) (simp_all add: insert_tick_def Let_def bit_mask_eq del: push_bit_of_1)
  also have "\<dots> = insert (layer_index t L) (lset s n L)"
    by (simp add: lset_set_bit layer_index_split[OF assms] del: push_bit_of_1)
  finally show ?thesis .
qed

lemma insert_tick_other: "n' \<noteq> n \<Longrightarrow> lset (insert_tick s n t) n' L = lset s n' L"
  by (rule lset_cong) (simp add: insert_tick_def Let_def)

lemma remove_tick_other: "n' \<noteq> n \<Longrightarrow> lset (remove_tick s n t) n' L = lset s n' L"
  by (rule lset_cong) (simp add: remove_tick_def Let_def)

lemma remove_tick_lset:
  fixes s :: bitmap_words and n :: netuid
  assumes "in_range t"
  defines "R \<equiv> lset (remove_tick s n t) n"
  shows "R Bottom = lset s n Bottom - {layer_index t Bottom}"
    and "R Middle = (if \<forall>i \<in> R Bottom. i div 128 \<noteq> layer_index t Middle
           then lset s n Middle - {layer_index t Middle} else lset s n Middle)"
    and "R Top = (if \<forall>i \<in> R Middle. i div 128 \<noteq> layer_index t Top
           then lset s n Top - {layer_index t Top} else lset s n Top)"
proof -
  let ?m = "bitmap_of_tick t"
  let ?c = "\<lambda>L. s (n, L, word_at ?m L) AND NOT (push_bit (bit_at ?m L) 1)"
  let ?s' = "remove_tick s n t"
  note idx = layer_index_split[OF assms(1)]
  have wM: "word_at ?m Bottom = layer_index t Middle" and wT: "word_at ?m Middle = layer_index t Top"
    by (simp_all add: bitmap_of_tick_layers[OF assms(1)] del: word_at.simps)
  have clear: "lset (s((n, L, word_at ?m L) := ?c L)) n L = lset s n L - {layer_index t L}" for L
    by (simp add: lset_clear_bit idx del: push_bit_of_1)
  have B: "?s' (n, Bottom, w) = (s((n, Bottom, word_at ?m Bottom) := ?c Bottom)) (n, Bottom, w)" for w
    using assms(1) by (simp add: remove_tick_def Let_def bit_mask_eq del: push_bit_of_1)
  have M: "?s' (n, Middle, w) = (if ?s' (n, Bottom, word_at ?m Bottom) = 0
      then (s((n, Middle, word_at ?m Middle) := ?c Middle)) (n, Middle, w) else s (n, Middle, w))" for w
    using assms(1) by (simp add: remove_tick_def Let_def bit_mask_eq del: push_bit_of_1)
  have T: "?s' (n, Top, w) = (if ?s' (n, Middle, word_at ?m Middle) = 0
      then (s((n, Top, word_at ?m Top) := ?c Top)) (n, Top, w) else s (n, Top, w))" for w
    using assms(1) by (simp add: remove_tick_def Let_def bit_mask_eq del: push_bit_of_1)
  show "R Bottom = lset s n Bottom - {layer_index t Bottom}"
    unfolding R_def clear[symmetric] by (rule lset_cong) (rule B)
  show "R Middle = (if \<forall>i \<in> R Bottom. i div 128 \<noteq> layer_index t Middle
      then lset s n Middle - {layer_index t Middle} else lset s n Middle)"
    using lset_cond[of "?s'" n Middle, OF M] unfolding R_def clear word_zero_iff wM .
  show "R Top = (if \<forall>i \<in> R Middle. i div 128 \<noteq> layer_index t Top
      then lset s n Top - {layer_index t Top} else lset s n Top)"
    using lset_cond[of "?s'" n Top, OF T] unfolding R_def clear word_zero_iff wT .
qed

lemma insert_tick_inv: "bitmap_inv s n \<Longrightarrow> bitmap_inv (insert_tick s n t) n"
proof (cases "in_range t")
  case True
  assume "bitmap_inv s n"
  then show ?thesis
    using tick_offset_bounds[OF True] by (simp add: bitmap_inv_def insert_tick_lset[OF True])
next
  case False
  assume "bitmap_inv s n"
  with False show ?thesis by (simp add: insert_tick_def)
qed

text \<open>Removing an element from a set and its image under the word index.\<close>

lemma image_remove:
  "f ` (A - {a}) = (if \<forall>i \<in> A - {a}. f i \<noteq> f a then f ` A - {f a} else f ` A)"
proof (cases "\<forall>i \<in> A - {a}. f i \<noteq> f a")
  case False
  then obtain i where "i \<in> A - {a}" "f i = f a" by auto
  then have "f a \<in> f ` (A - {a})" by (metis image_eqI)
  then have "f ` A \<subseteq> f ` (A - {a})" by auto
  with False show ?thesis by auto
qed auto

lemma remove_tick_inv:
  assumes "bitmap_inv s n"
  shows "bitmap_inv (remove_tick s n t) n"
proof (cases "in_range t")
  case True
  let ?d = "\<lambda>i :: nat. i div 128" and ?R = "lset (remove_tick s n t) n" and ?x = "layer_index t"
  note R = remove_tick_lset[OF True, of s n]
  note inv = assms[unfolded bitmap_inv_def]
  have d: "?x Middle = ?d (?x Bottom)" "?x Top = ?d (?x Middle)" by simp_all
  have M: "?R Middle = ?d ` ?R Bottom"
    unfolding R(2) R(1) d(1) image_remove[of ?d] using inv by simp
  moreover have "?R Top = ?d ` ?R Middle"
  proof (cases "\<forall>i \<in> ?R Bottom. ?d i \<noteq> ?x Middle")
    case True
    then have "?R Middle = lset s n Middle - {?x Middle}" using R(2) by simp
    then show ?thesis
      unfolding R(3) d(2) using image_remove[of ?d "lset s n Middle" "?x Middle"] inv by simp
  next
    case False
    then have "?R Middle = lset s n Middle" unfolding R(2) by (simp only: if_False)
    moreover have "?x Top \<in> ?d ` ?R Middle" using False M d(2) by (metis image_eqI)
    ultimately show ?thesis unfolding R(3) using inv by auto
  qed
  moreover have "?R Bottom \<subseteq> {443636..1330908}" using R(1) inv by auto
  ultimately show ?thesis by (simp add: bitmap_inv_def)
next
  case False
  with assms show ?thesis by (simp add: remove_tick_def)
qed

lemma insert_tick_active:
  "in_range t \<Longrightarrow> active_ticks (insert_tick s n t) n = insert t (active_ticks s n)"
  by (auto simp: active_ticks_def insert_tick_lset tick_offset_inj)

lemma remove_tick_active:
  "in_range t \<Longrightarrow> active_ticks (remove_tick s n t) n = active_ticks s n - {t}"
  by (auto simp: active_ticks_def remove_tick_lset tick_offset_inj)

lemma bitmap_inv_empty: "bitmap_inv empty_bitmap n" "active_ticks empty_bitmap n = {}"
  by (auto simp: bitmap_inv_def empty_bitmap_def lset_def active_ticks_def)


section \<open>The layered search\<close>

definition closest :: "bool \<Rightarrow> nat set \<Rightarrow> nat \<Rightarrow> nat \<Rightarrow> bool" where
  "closest lower A i x \<longleftrightarrow> x \<in> A \<and> dle lower i x \<and> (\<forall>y \<in> A. dle lower i y \<longrightarrow> dle lower x y)"

lemma closest_unique: "closest lower A i x \<Longrightarrow> closest lower A i y \<Longrightarrow> x = y"
  by (auto simp: closest_def intro: dle_antisym)

text \<open>Bits of a word of the layer, seen from the flat index \<open>i\<close> where the search starts.\<close>

abbreviation level_candidates ::
    "bitmap_words \<Rightarrow> netuid \<Rightarrow> layer_level \<Rightarrow> bool \<Rightarrow> nat \<Rightarrow> nat \<Rightarrow> nat list" where
  "level_candidates s n L lower i w \<equiv>
     find_closest_active_bit_candidates (s (n, L, w)) (start_bit w (i div 128) (i mod 128)) lower"

lemma start_bit_less: "start_bit w (i div 128) (i mod 128) < 128"
  by (simp add: start_bit_def)

lemma start_bit_dle:
  assumes "dle lower (i div 128) w" "k < 128"
  shows "dle lower (start_bit w (i div 128) (i mod 128)) k \<longleftrightarrow> dle lower i (w * 128 + k)"
proof (cases "w = i div 128")
  case True
  then show ?thesis
    using dle_same_word[of i "w * 128 + k" lower] assms(2) by (simp add: start_bit_def)
next
  case False
  with assms(1) have lt: "dlt lower (i div 128) w" by (auto simp: dle_iff_dlt)
  then have "dlt lower i (w * 128 + k)"
    using dlt_of_div[of lower i "w * 128 + k"] assms(2) by simp
  moreover have "dle lower (start_bit w (i div 128) (i mod 128)) k"
    using lt assms(2) by (auto simp: start_bit_def dlt_def dle_def split: if_splits)
  ultimately show ?thesis by (simp add: dle_iff_dlt)
qed

lemma level_sound:
  assumes "dle lower (i div 128) w" "k \<in> set (level_candidates s n L lower i w)"
  shows "w * 128 + k \<in> lset s n L \<and> dle lower i (w * 128 + k) \<and> k < 128"
  using candidates_sound[OF start_bit_less assms(2)] start_bit_dle[OF assms(1), of k]
  by (simp add: lset_def)

lemma lset_bit: "j \<in> lset s n L \<Longrightarrow> bit (s (n, L, j div 128)) (j mod 128)"
  by (simp add: lset_def)

lemma level_complete:
  assumes "j \<in> lset s n L" "dle lower i j"
    and between: "\<And>y. y \<in> lset s n L \<Longrightarrow> dlt lower i y \<Longrightarrow> dlt lower y j \<Longrightarrow> False"
  shows "j mod 128 \<in> set (level_candidates s n L lower i (j div 128))"
proof (rule candidates_complete[OF start_bit_less])
  let ?w = "j div 128"
  let ?b = "start_bit ?w (i div 128) (i mod 128)"
  have d: "dle lower (i div 128) ?w" using assms(2) by (rule dle_div)
  show "j mod 128 < 128" by simp
  show "bit (s (n, L, ?w)) (j mod 128)" using assms(1) by (rule lset_bit)
  show "dle lower ?b (j mod 128)" using start_bit_dle[OF d, of "j mod 128"] assms(2) by simp
  fix k
  assume k: "k < 128" "dlt lower ?b k" "dlt lower k (j mod 128)"
  let ?y = "?w * 128 + k"
  have "dle lower i ?y" using k start_bit_dle[OF d k(1)] by (auto simp: dle_iff_dlt)
  moreover have "i \<noteq> ?y"
  proof
    assume "i = ?y"
    then have "i div 128 = ?w" "i mod 128 = k" using k(1) by simp_all
    with k(2) show False by (simp add: start_bit_def dlt_def split: if_splits)
  qed
  moreover have "dlt lower ?y j"
    using k dle_same_word[of j ?y lower] by (simp flip: not_dle)
  ultimately show "\<not> bit (s (n, L, ?w)) k"
    using between[of ?y] k(1) by (auto simp: lset_def dle_iff_dlt)
qed

lemma level_hd:
  assumes "j \<in> lset s n L" "dle lower i j"
  shows "level_candidates s n L lower i (j div 128) \<noteq> []"
    and "dle lower (j div 128 * 128 + hd (level_candidates s n L lower i (j div 128))) j"
proof -
  let ?w = "j div 128"
  let ?C = "level_candidates s n L lower i ?w"
  have d: "dle lower (i div 128) ?w" using assms(2) by (rule dle_div)
  have "dle lower (start_bit ?w (i div 128) (i mod 128)) (j mod 128)"
    using start_bit_dle[OF d, of "j mod 128"] assms(2) by simp
  note h = candidates_hd[OF start_bit_less _ lset_bit[OF assms(1)] this, simplified]
  then show "?C \<noteq> []" by simp
  then have "hd ?C < 128" using level_sound[OF d, of "hd ?C" s n L] by simp
  with h(2) show "dle lower (?w * 128 + hd ?C) j"
    using dle_same_word[of "?w * 128 + hd ?C" j lower] by simp
qed

lemma closest_between:
  assumes "closest lower A i x" "y \<in> (\<lambda>i. i div 128) ` A"
    "dlt lower (i div 128) y" "dlt lower y (x div 128)"
  shows False
proof -
  from assms(2) obtain z where z: "z \<in> A" "y = z div 128" by auto
  with assms(3,4) have "dlt lower i z" "dlt lower z x" by (auto intro: dlt_of_div)
  with assms(1) z(1) show False by (auto simp: closest_def dle_iff_dlt dlt_def split: if_splits)
qed

text \<open>The two loops visit a list of found indices and keep the closest of them.\<close>

definition keep_best :: "bool \<Rightarrow> nat \<Rightarrow> bool \<times> nat \<Rightarrow> bool \<times> nat" where
  "keep_best lower x acc = (if dlt lower x (snd acc) \<or> \<not> fst acc then (True, x) else acc)"

lemma fold_keep_best_found:
  "fst acc \<Longrightarrow> fst (fold (keep_best lower) xs acc) \<and>
     (let r = snd (fold (keep_best lower) xs acc)
      in (r = snd acc \<or> r \<in> set xs) \<and> dle lower r (snd acc) \<and> (\<forall>y \<in> set xs. dle lower r y))"
proof (induction xs arbitrary: acc)
  case (Cons x xs)
  have "fst (keep_best lower x acc)" using Cons.prems by (simp add: keep_best_def)
  note IH = Cons.IH[OF this, unfolded Let_def]
  have "dle lower (snd (keep_best lower x acc)) x" "dle lower (snd (keep_best lower x acc)) (snd acc)"
    "snd (keep_best lower x acc) \<in> {x, snd acc}"
    using Cons.prems by (auto simp: keep_best_def dle_def dlt_def)
  with IH show ?case by (auto simp: Let_def intro: dle_trans)
qed simp

lemma fold_keep_best:
  "xs \<noteq> [] \<Longrightarrow> \<exists>r \<in> set xs. fold (keep_best lower) xs (False, z) = (True, r) \<and> (\<forall>y \<in> set xs. dle lower r y)"
proof (cases xs)
  case (Cons x xs')
  let ?f = "fold (keep_best lower) xs' (True, x)"
  have "fst ?f" "snd ?f = x \<or> snd ?f \<in> set xs'" "dle lower (snd ?f) x" "\<forall>y \<in> set xs'. dle lower (snd ?f) y"
    using fold_keep_best_found[of "(True, x)" lower xs'] by (auto simp: Let_def)
  moreover have "fold (keep_best lower) xs (False, z) = ?f" using Cons by (simp add: keep_best_def)
  ultimately show ?thesis using Cons by (auto intro!: bexI[of _ "snd ?f"] simp: prod_eq_iff)
qed simp

definition found_in :: "bitmap_words \<Rightarrow> netuid \<Rightarrow> bool \<Rightarrow> nat \<Rightarrow> nat \<Rightarrow> nat list" where
  "found_in s n lower i w =
     (if level_candidates s n Bottom lower i w = [] then []
      else [w * 128 + hd (level_candidates s n Bottom lower i w)])"

definition found_indices :: "bitmap_words \<Rightarrow> netuid \<Rightarrow> bool \<Rightarrow> nat \<Rightarrow> nat list" where
  "found_indices s n lower i =
     concat (map (\<lambda>c0. concat (map (\<lambda>c1. found_in s n lower i (c0 * 128 + c1))
         (level_candidates s n Middle lower (i div 128) c0)))
       (level_candidates s n Top lower (i div 128 div 128) 0))"

lemma layer_to_index_small: "w < 2 ^ 24 \<Longrightarrow> b < 128 \<Longrightarrow> layer_to_index (mk_layer w b) = w * 128 + b"
  by (simp add: layer_to_index_def mk_layer_def sat_add_def sat_mul_def u32_max_def)

lemma search_l2_eq:
  assumes "in_range t" "w < 2 ^ 17" "c < 128"
  shows "search_l2 s n (bitmap_of_tick t) lower w c acc =
    fold (keep_best lower) (found_in s n lower (tick_offset t) (w * 128 + c)) acc"
proof -
  let ?C = "level_candidates s n Bottom lower (tick_offset t) (w * 128 + c)"
  have "layer_to_index (mk_layer w c) = w * 128 + c" using assms by (simp add: layer_to_index_small)
  moreover have "layer_to_index (mk_layer (w * 128 + c) (hd ?C)) = (w * 128 + c) * 128 + hd ?C" if "?C \<noteq> []"
  proof (rule layer_to_index_small)
    show "hd ?C < 128" using candidates_sound[OF start_bit_less hd_in_set[OF that]] by simp
  qed (use assms in simp)
  ultimately show ?thesis
    by (cases acc)
      (auto simp: search_l2_def Let_def bitmap_of_tick_layers[OF assms(1)] found_in_def keep_best_def dlt_def
        simp del: word_at.simps bit_at.simps)
qed

lemma search_l1_eq:
  assumes "in_range t" "c0 < 128"
  shows "search_l1 s n (bitmap_of_tick t) lower c0 acc =
    fold (keep_best lower) (concat (map (\<lambda>c1. found_in s n lower (tick_offset t) (c0 * 128 + c1))
      (level_candidates s n Middle lower (tick_offset t div 128) c0))) acc"
proof -
  let ?C = "level_candidates s n Middle lower (tick_offset t div 128) c0"
  have C: "c1 < 128" if "c1 \<in> set ?C" for c1
    using candidates_sound[OF start_bit_less that] by simp
  have "layer_to_index (mk_layer 0 c0) = c0" using assms(2) by (simp add: layer_to_index_small)
  then have "search_l1 s n (bitmap_of_tick t) lower c0 acc =
      fold (search_l2 s n (bitmap_of_tick t) lower c0) ?C acc"
    by (simp add: search_l1_def bitmap_of_tick_layers[OF assms(1)] del: word_at.simps bit_at.simps)
  also have "\<dots> = fold (\<lambda>c1. fold (keep_best lower) (found_in s n lower (tick_offset t) (c0 * 128 + c1))) ?C acc"
    using assms by (intro fold_cong refl ext search_l2_eq C) simp_all
  finally show ?thesis by (simp only: fold_concat_map)
qed


lemma find_closest_fold:
  assumes "in_range t"
  shows "find_closest s n t lower =
    (let (found, result) = fold (keep_best lower) (found_indices s n lower (tick_offset t)) (False, 0)
     in if \<not> found then None
        else case from_offset_index result of Inl _ \<Rightarrow> None | Inr r \<Rightarrow> Some r)"
proof -
  let ?i = "tick_offset t div 128 div 128"
  let ?C = "level_candidates s n Top lower ?i 0"
  have "?i < 128" using tick_offset_bounds[OF assms] by linarith
  then have C: "?C = find_closest_active_bit_candidates (s (n, Top, 0)) ?i lower"
    by (simp add: start_bit_def)
  have lt: "c0 < 128" if "c0 \<in> set ?C" for c0
    using candidates_sound[OF start_bit_less that] by simp
  have "fold (search_l1 s n (bitmap_of_tick t) lower) ?C (False, 0) =
      fold (\<lambda>c0. fold (keep_best lower) (concat (map (\<lambda>c1. found_in s n lower (tick_offset t) (c0 * 128 + c1))
        (level_candidates s n Middle lower (tick_offset t div 128) c0)))) ?C (False, 0)"
    using assms by (intro fold_cong refl ext search_l1_eq lt)
  also have "\<dots> = fold (keep_best lower) (found_indices s n lower (tick_offset t)) (False, 0)"
    unfolding found_indices_def by (simp only: fold_concat_map)
  finally show ?thesis
    using assms C
    by (simp add: find_closest_def Let_def bitmap_of_tick_layers[OF assms] del: word_at.simps bit_at.simps)
qed

lemma found_indices_sound:
  assumes "i < 128 * 128 * 128" "x \<in> set (found_indices s n lower i)"
  shows "x \<in> lset s n Bottom \<and> dle lower i x"
proof -
  from assms(2) obtain c0 c1 where c: "c0 \<in> set (level_candidates s n Top lower (i div 128 div 128) 0)"
    "c1 \<in> set (level_candidates s n Middle lower (i div 128) c0)"
    "x \<in> set (found_in s n lower i (c0 * 128 + c1))"
    by (auto simp: found_indices_def)
  have "i div 128 div 128 div 128 = 0" using assms(1) by simp
  then have "dle lower (i div 128 div 128) c0"
    using level_sound[of lower "i div 128 div 128" 0 c0 s n Top] c(1) by simp
  then have d: "dle lower (i div 128) (c0 * 128 + c1)"
    using level_sound[of lower "i div 128" c0 c1 s n Middle] c(2) by simp
  let ?C = "level_candidates s n Bottom lower i (c0 * 128 + c1)"
  from c(3) have "?C \<noteq> []" "x = (c0 * 128 + c1) * 128 + hd ?C"
    by (auto simp: found_in_def split: if_splits)
  with level_sound[OF d, of "hd ?C" s n Bottom] show ?thesis by simp
qed

lemma found_indices_complete:
  assumes "bitmap_inv s n" "closest lower (lset s n Bottom) i x"
  shows "x \<in> set (found_indices s n lower i)"
proof -
  have x: "x \<in> lset s n Bottom" "dle lower i x" and best: "\<And>y. y \<in> lset s n Bottom \<Longrightarrow> dle lower i y \<Longrightarrow> dle lower x y"
    using assms(2) by (auto simp: closest_def)
  have M: "lset s n Middle = (\<lambda>i. i div 128) ` lset s n Bottom"
    and T: "lset s n Top = (\<lambda>i. i div 128) ` lset s n Middle" and "x \<le> 1330908"
    using assms(1) x(1) by (auto simp: bitmap_inv_def)
  from \<open>x \<le> 1330908\<close> have "x div 128 div 128 < 128" by linarith
  then have x0: "x div 128 div 128 div 128 = 0" "x div 128 div 128 mod 128 = x div 128 div 128"
    by simp_all
  have m: "x div 128 \<in> lset s n Middle" "dle lower (i div 128) (x div 128)"
    using M x by (auto intro: dle_div)
  have t: "x div 128 div 128 \<in> lset s n Top" "dle lower (i div 128 div 128) (x div 128 div 128)"
    using T m by (auto intro: dle_div)
  have tb: False if y: "y \<in> lset s n Top" "dlt lower (i div 128 div 128) y" "dlt lower y (x div 128 div 128)" for y
  proof -
    from y(1) T obtain z where z: "z \<in> lset s n Middle" "y = z div 128" by auto
    with y(2,3) have "dlt lower (i div 128) z" "dlt lower z (x div 128)" by (auto intro: dlt_of_div)
    with closest_between[OF assms(2)] M z(1) show False by blast
  qed
  have "x div 128 div 128 \<in> set (level_candidates s n Top lower (i div 128 div 128) 0)"
    using level_complete[OF t tb] x0 by simp
  moreover have "x div 128 mod 128 \<in> set (level_candidates s n Middle lower (i div 128) (x div 128 div 128))"
    using level_complete[OF m] closest_between[OF assms(2)] M by blast
  moreover have "x \<in> set (found_in s n lower i (x div 128 div 128 * 128 + x div 128 mod 128))"
  proof -
    let ?C = "level_candidates s n Bottom lower i (x div 128)"
    note h = level_hd[OF x]
    have "x div 128 * 128 + hd ?C \<in> lset s n Bottom \<and> dle lower i (x div 128 * 128 + hd ?C)"
      using level_sound[OF m(2), of "hd ?C" s n Bottom] h(1) by simp
    with best have "dle lower x (x div 128 * 128 + hd ?C)" by simp
    with h show ?thesis by (auto simp: found_in_def dest: dle_antisym)
  qed
  ultimately show ?thesis unfolding found_indices_def by force
qed

lemma closest_exists:
  assumes "y \<in> A" "dle lower i y"
  shows "\<exists>x. closest lower A i x"
proof (cases lower)
  case True
  let ?B = "{x \<in> A. x \<le> i}"
  have "finite ?B" "?B \<noteq> {}" using assms True by (auto simp: dle_def)
  then have "Max ?B \<in> ?B" "\<forall>x \<in> ?B. x \<le> Max ?B" using Max_in[of ?B] by simp_all
  with True show ?thesis by (auto simp: closest_def dle_def)
next
  case False
  let ?x = "LEAST x. x \<in> A \<and> i \<le> x"
  have "?x \<in> A \<and> i \<le> ?x"
    using LeastI[of "\<lambda>x. x \<in> A \<and> i \<le> x" y] assms False by (simp add: dle_def)
  moreover have "\<forall>z \<in> A. i \<le> z \<longrightarrow> ?x \<le> z" by (auto intro: Least_le)
  ultimately show ?thesis using False by (auto simp: closest_def dle_def)
qed

lemma from_offset_index_valid:
  assumes "443636 \<le> i" "i \<le> 1330908"
  shows "from_offset_index i = Inr (int i - 887272)"
  using assms by (simp add: from_offset_index_small tick_new_def)

lemma find_closest_correct:
  assumes "bitmap_inv s n" "in_range t"
  shows "find_closest s n t lower = Some u \<longleftrightarrow>
    in_range u \<and> closest lower (lset s n Bottom) (tick_offset t) (tick_offset u)"
    and "find_closest s n t lower = None \<longleftrightarrow>
    (\<forall>y \<in> lset s n Bottom. \<not> dle lower (tick_offset t) y)"
proof -
  let ?i = "tick_offset t" and ?B = "lset s n Bottom"
  let ?F = "found_indices s n lower ?i"
  have i: "?i < 128 * 128 * 128" using tick_offset_bounds[OF assms(2)] by simp
  have B: "?B \<subseteq> {443636..1330908}" using assms(1) by (simp add: bitmap_inv_def)
  have empty: "?F = [] \<longleftrightarrow> (\<forall>y \<in> ?B. \<not> dle lower ?i y)"
    using found_indices_sound[OF i] found_indices_complete[OF assms(1)] closest_exists[of _ ?B lower ?i]
    by (metis closest_def empty_iff hd_in_set list.set(1))
  have some: "\<exists>x. closest lower ?B ?i x \<and> find_closest s n t lower = Some (int x - 887272)" if ne: "?F \<noteq> []"
  proof -
    obtain r where r: "r \<in> set ?F" "fold (keep_best lower) ?F (False, 0) = (True, r)" "\<forall>y \<in> set ?F. dle lower r y"
      using fold_keep_best[OF ne] by blast
    from ne empty obtain y where "y \<in> ?B" "dle lower ?i y" by auto
    then obtain x where x: "closest lower ?B ?i x" using closest_exists by blast
    with found_indices_complete[OF assms(1)] r(3) have "dle lower r x" by blast
    moreover have "r \<in> ?B" "dle lower x r"
      using found_indices_sound[OF i r(1)] x by (auto simp: closest_def)
    ultimately have "r = x" by (blast dest: dle_antisym)
    then have "find_closest s n t lower = Some (int x - 887272)"
      using r(2) \<open>r \<in> ?B\<close> B by (auto simp: find_closest_fold[OF assms(2)] from_offset_index_valid)
    with x show ?thesis by blast
  qed
  have none: "find_closest s n t lower = None" if "?F = []"
    using that by (simp add: find_closest_fold[OF assms(2)])
  show "find_closest s n t lower = None \<longleftrightarrow> (\<forall>y \<in> ?B. \<not> dle lower ?i y)"
    using some none empty by fastforce
  show "find_closest s n t lower = Some u \<longleftrightarrow> in_range u \<and> closest lower ?B ?i (tick_offset u)"
  proof
    assume u: "find_closest s n t lower = Some u"
    with none have "?F \<noteq> []" by auto
    with some u obtain x where x: "closest lower ?B ?i x" "u = int x - 887272" by auto
    then have "443636 \<le> x" "x \<le> 1330908" using B by (auto simp: closest_def)
    with x tick_offset_surj show "in_range u \<and> closest lower ?B ?i (tick_offset u)" by simp
  next
    assume u: "in_range u \<and> closest lower ?B ?i (tick_offset u)"
    then have "?F \<noteq> []" using empty by (auto simp: closest_def)
    with some obtain x where x: "closest lower ?B ?i x" "find_closest s n t lower = Some (int x - 887272)" by blast
    with u have "x = tick_offset u" by (blast dest: closest_unique)
    with x(2) u show "find_closest s n t lower = Some u" by (auto simp: tick_offset_def in_range_iff)
  qed
qed


lemma lset_Bottom_ticks:
  assumes "bitmap_inv s n"
  shows "lset s n Bottom = tick_offset ` active_ticks s n"
proof (intro equalityI subsetI)
  fix i assume i: "i \<in> lset s n Bottom"
  with assms have "443636 \<le> i" "i \<le> 1330908" by (auto simp: bitmap_inv_def)
  with i tick_offset_surj[of i] show "i \<in> tick_offset ` active_ticks s n"
    by (intro image_eqI[of _ _ "int i - 887272"]) (auto simp: active_ticks_def)
qed (auto simp: active_ticks_def)

lemma dle_tick_offset:
  "in_range x \<Longrightarrow> in_range y \<Longrightarrow> dle lower (tick_offset x) (tick_offset y) \<longleftrightarrow> (if lower then y \<le> x else x \<le> y)"
  by (auto simp: dle_def tick_offset_def in_range_iff)

lemma active_in_range: "t \<in> active_ticks s n \<Longrightarrow> in_range t"
  by (simp add: active_ticks_def)

lemma active_none:
  assumes "bitmap_inv s n" "in_range t"
  shows "(\<forall>y \<in> lset s n Bottom. \<not> dle lower (tick_offset t) y) \<longleftrightarrow>
    (\<forall>v \<in> active_ticks s n. \<not> (if lower then v \<le> t else t \<le> v))"
  using assms active_in_range by (auto simp: lset_Bottom_ticks dle_tick_offset)

lemma active_closest:
  assumes "bitmap_inv s n" "in_range t"
  shows "in_range u \<and> closest lower (lset s n Bottom) (tick_offset t) (tick_offset u) \<longleftrightarrow>
    u \<in> active_ticks s n \<and> (if lower then u \<le> t else t \<le> u) \<and>
    (\<forall>v \<in> active_ticks s n. (if lower then v \<le> t else t \<le> v) \<longrightarrow> (if lower then v \<le> u else u \<le> v))"
proof (cases "in_range u")
  case True
  then have "tick_offset u \<in> lset s n Bottom \<longleftrightarrow> u \<in> active_ticks s n"
    by (simp add: active_ticks_def)
  moreover have "(\<forall>y \<in> lset s n Bottom. dle lower (tick_offset t) y \<longrightarrow> dle lower (tick_offset u) y) \<longleftrightarrow>
      (\<forall>v \<in> active_ticks s n. (if lower then v \<le> t else t \<le> v) \<longrightarrow> (if lower then v \<le> u else u \<le> v))"
    using assms True active_in_range by (auto simp: lset_Bottom_ticks dle_tick_offset)
  ultimately show ?thesis using assms True by (simp add: closest_def dle_tick_offset)
next
  case False
  then show ?thesis using active_in_range by blast
qed

section \<open>The interface of an ordered index\<close>

text \<open>
  What the swap pallet relies on: insertion and removal change the set of elements by one
  element, and the two queries return the neighbours of a position. The lemmas of the locale are
  consequences that hold for any implementation of the interface.
\<close>

locale ordered_index =
  fixes ins :: "'s \<Rightarrow> 'k::linorder \<Rightarrow> 's"
    and del :: "'s \<Rightarrow> 'k \<Rightarrow> 's"
    and lower :: "'s \<Rightarrow> 'k \<Rightarrow> 'k option"
    and higher :: "'s \<Rightarrow> 'k \<Rightarrow> 'k option"
    and elems :: "'s \<Rightarrow> 'k set"
    and invar :: "'s \<Rightarrow> bool"
    and ok :: "'k \<Rightarrow> bool"
  assumes invar_ins: "invar s \<Longrightarrow> invar (ins s x)"
    and invar_del: "invar s \<Longrightarrow> invar (del s x)"
    and elems_ok: "x \<in> elems s \<Longrightarrow> ok x"
    and elems_ins: "invar s \<Longrightarrow> ok x \<Longrightarrow> elems (ins s x) = insert x (elems s)"
    and elems_ins_bad: "\<not> ok x \<Longrightarrow> ins s x = s"
    and elems_del: "invar s \<Longrightarrow> ok x \<Longrightarrow> elems (del s x) = elems s - {x}"
    and elems_del_bad: "\<not> ok x \<Longrightarrow> del s x = s"
    and lower_Some: "invar s \<Longrightarrow> ok x \<Longrightarrow>
      lower s x = Some y \<longleftrightarrow> y \<in> elems s \<and> y \<le> x \<and> (\<forall>z \<in> elems s. z \<le> x \<longrightarrow> z \<le> y)"
    and lower_None: "invar s \<Longrightarrow> ok x \<Longrightarrow> lower s x = None \<longleftrightarrow> (\<forall>z \<in> elems s. \<not> z \<le> x)"
    and higher_Some: "invar s \<Longrightarrow> ok x \<Longrightarrow>
      higher s x = Some y \<longleftrightarrow> y \<in> elems s \<and> x \<le> y \<and> (\<forall>z \<in> elems s. x \<le> z \<longrightarrow> y \<le> z)"
    and higher_None: "invar s \<Longrightarrow> ok x \<Longrightarrow> higher s x = None \<longleftrightarrow> (\<forall>z \<in> elems s. \<not> x \<le> z)"
begin

lemma lower_self_iff: "invar s \<Longrightarrow> ok x \<Longrightarrow> lower s x = Some x \<longleftrightarrow> x \<in> elems s"
  by (auto simp: lower_Some)

lemma neighbours_adjacent:
  assumes "invar s" "ok x" "lower s x = Some a" "higher s x = Some b" "z \<in> elems s"
  shows "z \<le> a \<or> b \<le> z"
  using assms by (auto simp: lower_Some higher_Some)

lemma lower_after_ins:
  assumes "invar s" "ok x" "ok y"
  shows "lower (ins s x) y =
    (if x \<le> y then Some (case lower s y of None \<Rightarrow> x | Some z \<Rightarrow> max x z) else lower s y)"
proof -
  have i: "invar (ins s x)" using assms(1) by (rule invar_ins)
  show ?thesis
  proof (cases "lower s y")
    case None
    with assms have "\<forall>z \<in> elems s. \<not> z \<le> y" by (simp add: lower_None)
    with assms i None show ?thesis
      by (auto simp: lower_Some[OF i] lower_None[OF i] elems_ins)
  next
    case (Some z)
    with assms have "z \<in> elems s" "z \<le> y" "\<forall>w \<in> elems s. w \<le> y \<longrightarrow> w \<le> z" by (auto simp: lower_Some)
    with assms i Some show ?thesis by (auto simp: lower_Some[OF i] elems_ins max_def)
  qed
qed

end

interpretation bitmap: ordered_index
  "\<lambda>s. insert_tick s n" "\<lambda>s. remove_tick s n"
  "\<lambda>s. find_closest_lower s n" "\<lambda>s. find_closest_higher s n"
  "\<lambda>s. active_ticks s n" "\<lambda>s. bitmap_inv s n" in_range
  for n :: netuid
proof (unfold_locales, goal_cases)
  case (1 s x) then show ?case by (rule insert_tick_inv)
next
  case (2 s x) then show ?case by (rule remove_tick_inv)
next
  case (3 x s) then show ?case by (simp add: active_ticks_def)
next
  case (4 s x) then show ?case by (simp add: insert_tick_active)
next
  case (5 x s) then show ?case by (simp add: insert_tick_def)
next
  case (6 s x) then show ?case by (simp add: remove_tick_active)
next
  case (7 x s) then show ?case by (simp add: remove_tick_def)
next
  case (8 s x y)
  show ?case
    unfolding find_closest_lower_def find_closest_correct(1)[OF 8] active_closest[OF 8] by simp
next
  case (9 s x)
  show ?case
    unfolding find_closest_lower_def find_closest_correct(2)[OF 9] active_none[OF 9] by simp
next
  case (10 s x y)
  show ?case
    unfolding find_closest_higher_def find_closest_correct(1)[OF 10] active_closest[OF 10] by simp
next
  case (11 s x)
  show ?case
    unfolding find_closest_higher_def find_closest_correct(2)[OF 11] active_none[OF 11] by simp
qed

section \<open>Properties\<close>

text \<open>A history of insertions and removals on the ticks of one subnet, and its meaning as a set.\<close>

datatype tick_op = Insert tick_index | Remove tick_index

fun apply_op :: "netuid \<Rightarrow> tick_op \<Rightarrow> bitmap_words \<Rightarrow> bitmap_words" where
  "apply_op n (Insert t) s = insert_tick s n t"
| "apply_op n (Remove t) s = remove_tick s n t"

fun set_op :: "tick_op \<Rightarrow> tick_index set \<Rightarrow> tick_index set" where
  "set_op (Insert t) S = (if in_range t then insert t S else S)"
| "set_op (Remove t) S = S - {t}"

lemma apply_op_refines:
  assumes "bitmap_inv s n"
  shows "bitmap_inv (apply_op n x s) n \<and> active_ticks (apply_op n x s) n = set_op x (active_ticks s n)"
proof (cases x)
  case (Insert t)
  with assms show ?thesis
    by (cases "in_range t") (simp_all add: bitmap.invar_ins bitmap.elems_ins bitmap.elems_ins_bad)
next
  case (Remove t)
  with assms show ?thesis
    by (cases "in_range t")
      (auto simp: bitmap.invar_del bitmap.elems_del bitmap.elems_del_bad dest: bitmap.elems_ok)
qed

lemma history_refines:
  "bitmap_inv s n \<Longrightarrow> bitmap_inv (fold (apply_op n) ops s) n \<and>
     active_ticks (fold (apply_op n) ops s) n = fold set_op ops (active_ticks s n)"
  by (induction ops arbitrary: s) (simp_all add: apply_op_refines)

text \<open>A history on all subnets, and what it leaves for one of them.\<close>

definition run_history :: "(netuid \<times> tick_op) list \<Rightarrow> bitmap_words" where
  "run_history ops = fold (\<lambda>(n, x). apply_op n x) ops empty_bitmap"

definition history_ticks :: "(netuid \<times> tick_op) list \<Rightarrow> netuid \<Rightarrow> tick_index set" where
  "history_ticks ops n = fold (\<lambda>(m, x) S. if m = n then set_op x S else S) ops {}"

lemma apply_op_other:
  assumes "m \<noteq> n"
  shows "apply_op m x s (n, l, w) = s (n, l, w)"
  using assms by (cases x) (simp_all add: insert_tick_def remove_tick_def Let_def split: prod.splits if_splits)

lemma bitmap_frame:
  assumes "\<And>l w. s' (n, l, w) = s (n, l, w)"
  shows "lset s' n = lset s n" "active_ticks s' n = active_ticks s n"
    "bitmap_inv s' n \<longleftrightarrow> bitmap_inv s n"
  unfolding fun_eq_iff lset_def active_ticks_def bitmap_inv_def using assms by simp_all

lemma run_history_refines_from:
  assumes "bitmap_inv s n" "active_ticks s n = S"
  shows "bitmap_inv (fold (\<lambda>(n, x). apply_op n x) ops s) n \<and>
    active_ticks (fold (\<lambda>(n, x). apply_op n x) ops s) n =
      fold (\<lambda>(m, x) S. if m = n then set_op x S else S) ops S"
  using assms
proof (induction ops arbitrary: s S)
  case (Cons o1 ops)
  obtain m x where o1: "o1 = (m, x)" by (cases o1)
  show ?case
  proof (cases "m = n")
    case True
    with Cons apply_op_refines[of s n x] show ?thesis by (simp add: o1)
  next
    case False
    with Cons.prems bitmap_frame[of "apply_op m x s" n s] show ?thesis
      by (simp add: o1 Cons.IH apply_op_other)
  qed
qed simp

lemma run_history_refines:
  "bitmap_inv (run_history ops) n" "active_ticks (run_history ops) n = history_ticks ops n"
  using run_history_refines_from[of empty_bitmap n "{}" ops] bitmap_inv_empty
  by (simp_all add: run_history_def history_ticks_def)

lemma finite_in_range: "finite {t. in_range t}"
  by (rule finite_subset[of _ "{-443636..443636}"]) (auto simp: in_range_def)

lemma finite_active: "finite (active_ticks s n)"
  by (rule finite_subset[OF _ finite_in_range]) (auto dest: active_in_range)

lemma find_closest_lower_eq_Max:
  assumes "bitmap_inv s n"
  shows "find_closest_lower s n t =
    (if in_range t \<and> (\<exists>v \<in> active_ticks s n. v \<le> t) then Some (Max {v \<in> active_ticks s n. v \<le> t})
     else None)"
proof (cases "in_range t")
  case True
  with assms finite_active[of s n] show ?thesis
    by (auto simp: bitmap.lower_Some bitmap.lower_None intro: Max_le_filter)
next
  case False
  then show ?thesis by (simp add: find_closest_lower_def find_closest_def)
qed

lemma find_closest_higher_eq_Min:
  assumes "bitmap_inv s n"
  shows "find_closest_higher s n t =
    (if in_range t \<and> (\<exists>v \<in> active_ticks s n. t \<le> v) then Some (Min {v \<in> active_ticks s n. t \<le> v})
     else None)"
proof (cases "in_range t")
  case True
  with assms finite_active[of s n] show ?thesis
    by (auto simp: bitmap.higher_Some bitmap.higher_None intro: Min_ge_filter)
next
  case False
  then show ?thesis by (simp add: find_closest_higher_def find_closest_def)
qed

text \<open>C17. After any interleaving of insertions and removals on any subnets, starting from the
  empty storage, \<open>find_closest_lower\<close> returns the greatest tick at or below the requested one
  among those inserted and not removed on that subnet, and \<open>None\<close> exactly when there is no
  such tick or the request is outside the tick range.\<close>

theorem find_closest_lower_history:
  "find_closest_lower (run_history ops) n t =
    (if in_range t \<and> (\<exists>v \<in> history_ticks ops n. v \<le> t)
     then Some (Max {v \<in> history_ticks ops n. v \<le> t}) else None)"
  using find_closest_lower_eq_Max[OF run_history_refines(1)] by (simp add: run_history_refines(2))

text \<open>The same for \<open>find_closest_higher\<close>, with the least tick at or above.\<close>

theorem find_closest_higher_history:
  "find_closest_higher (run_history ops) n t =
    (if in_range t \<and> (\<exists>v \<in> history_ticks ops n. t \<le> v)
     then Some (Min {v \<in> history_ticks ops n. t \<le> v}) else None)"
  using find_closest_higher_eq_Min[OF run_history_refines(1)] by (simp add: run_history_refines(2))

text \<open>Every storage reached by insertions and removals keeps the three layers in agreement,
  and \<open>tick_is_active\<close> on it decides membership, with one exception: on a subnet with no
  active tick at or below it, \<open>TickIndex::MAX\<close> is reported as active, since the default of
  the failed search is \<open>MAX\<close> itself.\<close>

theorem tick_is_active_history:
  "bitmap_inv (run_history ops) n \<and>
   (tick_is_active (run_history ops) n t \<longleftrightarrow>
      t \<in> history_ticks ops n \<or> t = tick_MAX \<and> history_ticks ops n = {})"
proof -
  let ?s = "run_history ops"
  note inv = run_history_refines(1)[of ops n]
  note act = run_history_refines(2)[of ops n]
  have rng: "in_range v" "v \<le> 443636" if "v \<in> history_ticks ops n" for v
    using that active_in_range[of v ?s n] by (simp_all add: act in_range_def)
  show ?thesis
  proof (cases "in_range t")
    case True
    have "tick_is_active ?s n t \<longleftrightarrow> find_closest_lower ?s n t = Some t \<or>
        find_closest_lower ?s n t = None \<and> t = tick_MAX"
      by (auto simp: tick_is_active_def split: option.splits)
    with True inv rng show ?thesis
      by (auto simp: bitmap.lower_self_iff bitmap.lower_None act)
  next
    case False
    with rng inv show ?thesis
      by (auto simp: tick_is_active_def find_closest_lower_def find_closest_def in_range_def)
  qed
qed

end
