(* ===== verification/Tick_Price.thy ===== *)
theory Tick_Price
  imports Tick_Index
begin

text \<open>
  Prices of ticks (\<open>pallets/swap/src/tick.rs\<close>): the square root of the price at a tick, and the tick of
  a price. A \<open>U256\<close> is a natural number below \<open>2 ^ 256\<close>, an \<open>I256\<close> an integer; a \<open>U64F64\<close> is the natural number
  of its bits, which is what the conversions read and build.
\<close>

unbundle bit_operations_syntax

section \<open>The conversions\<close>

definition u256_max :: nat where "u256_max = 2 ^ 256 - 1"

definition from_limbs :: "nat \<Rightarrow> nat \<Rightarrow> nat \<Rightarrow> nat \<Rightarrow> nat" where
  "from_limbs a b c d = a + b * 2 ^ 64 + c * 2 ^ 128 + d * 2 ^ 192"

definition MIN_SQRT_RATIO :: nat where "MIN_SQRT_RATIO = from_limbs 4295128739 0 0 0"
definition MAX_SQRT_RATIO :: nat where
  "MAX_SQRT_RATIO = from_limbs 6743328256752651558 17280870778742802505 4294805859 0"
definition SQRT_10001 :: int where "SQRT_10001 = int (from_limbs 11745905768312294533 13863 0 0)"
definition TICK_LOW :: int where "TICK_LOW = int (from_limbs 6552757943157144234 184476617836266586 0 0)"
definition TICK_HIGH :: int where "TICK_HIGH = int (from_limbs 4998474450511881007 15793544031827761793 0 0)"

text \<open>The factor of each bit of the tick but the lowest, in the order in which they are applied.\<close>

definition sqrt_ratio_factors :: "(nat \<times> nat) list" where
  "sqrt_ratio_factors =
    [(2, from_limbs 6459403834229662010 18444899583751176498 0 0),
     (4, from_limbs 17226890335427755468 18443055278223354162 0 0),
     (8, from_limbs 2032852871939366096 18439367220385604838 0 0),
     (16, from_limbs 14545316742740207172 18431993317065449817 0 0),
     (32, from_limbs 5129152022828963008 18417254355718160513 0 0),
     (64, from_limbs 4894419605888772193 18387811781193591352 0 0),
     (128, from_limbs 1280255884321894483 18329067761203520168 0 0),
     (256, from_limbs 15924666964335305636 18212142134806087854 0 0),
     (512, from_limbs 8010504389359918676 17980523815641551639 0 0),
     (1024, from_limbs 10668036004952895731 17526086738831147013 0 0),
     (2048, from_limbs 4878133418470705625 16651378430235024244 0 0),
     (4096, from_limbs 9537173718739605541 15030750278693429944 0 0),
     (8192, from_limbs 9972618978014552549 12247334978882834399 0 0),
     (16384, from_limbs 10428997489610666743 8131365268884726200 0 0),
     (32768, from_limbs 9305304367709015974 3584323654723342297 0 0),
     (65536, from_limbs 14301143598189091785 696457651847595233 0 0),
     (131072, from_limbs 7393154844743099908 26294789957452057 0 0),
     (262144, from_limbs 2209338891292245656 37481735321082 0 0),
     (524288, from_limbs 10518117631919034274 76158723 0 0)]"

definition apply_factor :: "nat \<Rightarrow> nat \<times> nat \<Rightarrow> nat \<Rightarrow> nat" where
  "apply_factor abs_tick factor ratio =
     (if abs_tick AND fst factor \<noteq> 0 then sat_mul u256_max ratio (snd factor) div 2 ^ 128 else ratio)"

definition get_sqrt_ratio_at_tick :: "int \<Rightarrow> (tick_math_error, nat) result" where
  "get_sqrt_ratio_at_tick tick =
     (let abs_tick = nat (if tick < 0 then - tick else tick) in
      if abs_tick > 887272 then Inl TickOutOfBounds
      else let ratio = (if abs_tick AND 1 \<noteq> 0 then from_limbs 12262481743371124737 18445821805675392311 0 0
                        else from_limbs 0 0 1 0);
               ratio = fold (apply_factor abs_tick) sqrt_ratio_factors ratio;
               ratio = (if tick > 0 then u256_max div ratio else ratio);
               shifted = ratio div 2 ^ 32
           in Inr (if ratio AND (2 ^ 32 - 1) \<noteq> 0 then sat_add u256_max shifted 1 else shifted))"

text \<open>\<open>get_tick_at_sqrt_ratio\<close>: the position of the highest bit by bisection, fourteen bits of the binary
  logarithm by repeated squaring, and the change of base.\<close>

definition msb_step :: "nat \<times> nat \<Rightarrow> nat \<times> nat \<Rightarrow> nat \<times> nat" where
  "msb_step s p = (case s of (msb, r) \<Rightarrow> let f = (if r > fst p then 2 ^ snd p else 0) in (msb OR f, r div 2 ^ f))"

definition most_significant_bit :: "nat \<Rightarrow> nat" where
  "most_significant_bit ratio =
     (let (msb, r) = foldl msb_step (0, ratio)
        [(from_limbs 18446744073709551615 18446744073709551615 0 0, 7), (from_limbs 18446744073709551615 0 0 0, 6),
         (4294967295, 5), (65535, 4), (255, 3), (15, 2), (3, 1)];
          f = (if r > 1 then 1 else 0)
      in msb OR f)"

definition log_step :: "nat \<Rightarrow> int \<times> nat \<Rightarrow> int \<times> nat" where
  "log_step i s = (case s of (log_2, r) \<Rightarrow>
     let r = (r * r) mod 2 ^ 256 div 2 ^ 127;
         f = r div 2 ^ 128
     in (log_2 OR int (f * 2 ^ i), r div 2 ^ f))"

definition as_i256 :: "int \<Rightarrow> int" where
  "as_i256 x = (x + 2 ^ 255) mod 2 ^ 256 - 2 ^ 255"

definition i256_saturate :: "int \<Rightarrow> int" where
  "i256_saturate x = clamp (- (2 ^ 255)) (2 ^ 255 - 1) x"

definition get_tick_at_sqrt_ratio :: "nat \<Rightarrow> (tick_math_error, int) result" where
  "get_tick_at_sqrt_ratio sqrt_price_x_96 =
     ensure (MIN_SQRT_RATIO \<le> sqrt_price_x_96 \<and> sqrt_price_x_96 < MAX_SQRT_RATIO) SqrtPriceOutOfBounds
    (let ratio = (sqrt_price_x_96 * 2 ^ 32) mod 2 ^ 256;
         msb = most_significant_bit ratio;
         r = (if msb \<ge> 128 then ratio div 2 ^ (msb - 127) else (ratio * 2 ^ (127 - msb)) mod 2 ^ 256);
         (log_2, r) = fold log_step (rev [51..<64]) ((int msb - 128) * 2 ^ 64, r);
         (log_2, r) = log_step 50 (log_2, r);
         log_sqrt10001 = as_i256 (log_2 * SQRT_10001);
         tick_low = as_i32 (i256_saturate (log_sqrt10001 - TICK_LOW) div 2 ^ 128);
         tick_high = as_i32 (i256_saturate (log_sqrt10001 + TICK_HIGH) div 2 ^ 128)
     in if tick_low = tick_high then Inr tick_low
        else and_then (get_sqrt_ratio_at_tick tick_high) (\<lambda>price.
             Inr (if price \<le> sqrt_price_x_96 then tick_high else tick_low)))"

definition u64f64_to_u256 :: "nat \<Rightarrow> nat \<Rightarrow> nat" where
  "u64f64_to_u256 raw target_fractional_bits =
     (if target_fractional_bits < 64 then raw div 2 ^ (64 - target_fractional_bits)
      else if target_fractional_bits > 64 then sat_mul u256_max raw (2 ^ (target_fractional_bits - 64)) else raw)"

definition u64f64_to_u256_q64_96 :: "nat \<Rightarrow> nat" where
  "u64f64_to_u256_q64_96 v = u64f64_to_u256 v 96"

definition q_to_u64f64 :: "nat \<Rightarrow> nat \<Rightarrow> (tick_math_error, nat) result" where
  "q_to_u64f64 x frac_bits =
     (let diff = frac_bits - 64;
          shifted = (if diff \<noteq> 0 then x div 2 ^ diff else x);
          low_mask = (if diff \<noteq> 0 then sat_mul u256_max 1 (2 ^ diff) - 1 else 0);
          rounded = (if diff \<noteq> 0 \<and> x AND low_mask \<noteq> 0 then sat_add u256_max shifted 1 else shifted)
      in ensure (rounded div 2 ^ 128 = 0) Overflow (Inr rounded))"

definition u256_q64_96_to_u64f64 :: "nat \<Rightarrow> (tick_math_error, nat) result" where
  "u256_q64_96_to_u64f64 x = q_to_u64f64 x 96"

definition try_to_sqrt_price :: "tick_index \<Rightarrow> (tick_math_error, nat) result" where
  "try_to_sqrt_price t =
     ensure (tick_MIN \<le> t \<and> t \<le> tick_MAX) TickOutOfBounds
    (and_then (get_sqrt_ratio_at_tick t) u256_q64_96_to_u64f64)"

definition try_from_sqrt_price :: "nat \<Rightarrow> (tick_math_error, tick_index) result" where
  "try_from_sqrt_price sqrt_price =
     (let price_x96 = u64f64_to_u256_q64_96 sqrt_price in
      and_then (get_tick_at_sqrt_ratio price_x96) (\<lambda>tick.
      and_then (get_sqrt_ratio_at_tick tick) (\<lambda>price_at_tick.
      and_then (if price_at_tick > price_x96 then Inr (i32_saturating_sub tick 1)
                else and_then (get_sqrt_ratio_at_tick (i32_saturating_add tick 1)) (\<lambda>price_at_tick_plus.
                     Inr (if price_at_tick_plus \<le> price_x96 then i32_saturating_add tick 1 else tick))) tick_new)))"

section \<open>The price grows with the tick\<close>

text \<open>The product over the bits of \<open>n\<close>, and how far two products stay apart. \<open>gap k x y\<close>: the distance is at
  least a 32768th of the larger one, up to \<open>k\<close> units of rounding.\<close>

fun bit_product :: "nat list \<Rightarrow> nat \<Rightarrow> nat \<Rightarrow> nat" where
  "bit_product [] n r = r"
| "bit_product (c # cs) n r = bit_product cs (n div 2) (if odd n then r * c div 2 ^ 128 else r)"

definition gap :: "nat \<Rightarrow> nat \<Rightarrow> nat \<Rightarrow> bool" where
  "gap k x y \<longleftrightarrow> y \<le> x \<and> x + y * 2 ^ 15 \<le> (x + k) * 2 ^ 15"

lemma gap_mono: "gap k x y \<Longrightarrow> k \<le> l \<Longrightarrow> gap l x y"
  by (simp add: gap_def)

lemma scaled_le: "c \<le> 2 ^ 128 \<Longrightarrow> r * c div 2 ^ 128 \<le> (r :: nat)"
  by (rule order_trans[OF div_le_mono[OF mult_le_mono2[of c "2 ^ 128"]]]) simp_all

lemma bit_product_mono: "x \<le> y \<Longrightarrow> bit_product cs n x \<le> bit_product cs n y"
  by (induction cs arbitrary: n x y) (simp_all add: div_le_mono)

lemma bit_product_le: "\<forall>c \<in> set cs. c \<le> 2 ^ 128 \<Longrightarrow> bit_product cs n x \<le> x"
proof (induction cs arbitrary: n x)
  case (Cons c cs)
  then have "bit_product (c # cs) n x \<le> (if odd n then x * c div 2 ^ 128 else x)" by simp
  also have "\<dots> \<le> x" using scaled_le[of c x] Cons.prems by simp
  finally show ?case .
qed simp

lemma gap_step:
  assumes "gap k x y" "c \<le> 2 ^ 128"
  shows "gap (Suc k) (x * c div 2 ^ 128) (y * c div 2 ^ 128)"
proof -
  let ?B = "2 ^ 128 :: nat" let ?x = "x * c div ?B" let ?y = "y * c div ?B"
  have yx: "y \<le> x" and g: "x + y * 2 ^ 15 \<le> (x + k) * 2 ^ 15" using assms(1) by (simp_all add: gap_def)
  have "?B * ?x \<le> x * c" "?B * ?y \<le> y * c" by simp_all
  then have "?B * (?x + ?y * 2 ^ 15) \<le> (x + y * 2 ^ 15) * c" by (simp add: algebra_simps)
  also have "\<dots> \<le> (x + k) * 2 ^ 15 * c" using g by (rule mult_le_mono1)
  also have "\<dots> = (x * c + k * c) * 2 ^ 15" by (simp add: algebra_simps)
  also have "\<dots> \<le> ((?x + 1) * ?B + k * ?B) * 2 ^ 15"
    using assms(2) dividend_less_div_times[of ?B "x * c"] by (intro mult_le_mono1 add_mono) simp_all
  also have "\<dots> = ?B * ((?x + Suc k) * 2 ^ 15)" by (simp add: algebra_simps)
  finally have "?x + ?y * 2 ^ 15 \<le> (?x + Suc k) * 2 ^ 15" by simp
  with yx show ?thesis by (simp add: gap_def div_le_mono)
qed

lemma gap_product:
  "gap k x y \<Longrightarrow> \<forall>c \<in> set cs. c \<le> 2 ^ 128 \<Longrightarrow> gap (k + length cs) (bit_product cs n x) (bit_product cs n y)"
proof (induction cs arbitrary: n x y k)
  case (Cons c cs)
  let ?f = "\<lambda>r. if odd n then r * c div 2 ^ 128 else r"
  have "gap (Suc k) (?f x) (?f y)"
    using gap_step[OF Cons.prems(1), of c] gap_mono[OF Cons.prems(1), of "Suc k"] Cons.prems by simp
  from Cons.IH[OF this] Cons.prems(2) show ?case by simp
qed simp

text \<open>Below each factor lies the product of the factors before it: this is what the carry of \<open>n + 1\<close> compares.\<close>

fun ladder :: "nat \<Rightarrow> nat list \<Rightarrow> bool" where
  "ladder a [] \<longleftrightarrow> True"
| "ladder a (c # cs) \<longleftrightarrow> gap 0 a c \<and> ladder (a * c div 2 ^ 128) cs"

lemma bit_product_Suc:
  "ladder a cs \<Longrightarrow> \<forall>c \<in> set cs. c \<le> 2 ^ 128 \<Longrightarrow> Suc n < 2 ^ length cs \<Longrightarrow>
    gap (length cs) (bit_product cs n a) (bit_product cs (Suc n) (2 ^ 128))"
proof (induction cs arbitrary: n a)
  case (Cons c cs)
  show ?case
  proof (cases "even n")
    case True
    then have "gap (0 + length cs) (bit_product cs (n div 2) a) (bit_product cs (n div 2) c)"
      using Cons.prems by (intro gap_product) simp_all
    from gap_mono[OF this, of "length (c # cs)"] True show ?thesis by simp
  next
    case False
    then have "Suc n div 2 = Suc (n div 2)" by presburger
    moreover have "gap (length cs) (bit_product cs (n div 2) (a * c div 2 ^ 128)) (bit_product cs (Suc (n div 2)) (2 ^ 128))"
      using Cons.prems False by (intro Cons.IH) (auto elim: oddE)
    ultimately show ?thesis using False gap_mono[of "length cs" _ _ "length (c # cs)"] by simp
  qed
qed simp

definition tick_factors :: "nat list" where
  "tick_factors = from_limbs 12262481743371124737 18445821805675392311 0 0 # map snd sqrt_ratio_factors"

lemmas tick_factor_defs = tick_factors_def sqrt_ratio_factors_def from_limbs_def

lemma tick_factors_facts:
  "length tick_factors = 20" "\<forall>c \<in> set tick_factors. c \<le> 2 ^ 128" "ladder (2 ^ 128) tick_factors"
  by (simp_all add: tick_factor_defs gap_def)

definition sqrt_ratio :: "nat \<Rightarrow> nat" where
  "sqrt_ratio n = bit_product tick_factors n (2 ^ 128)"

lemma apply_factors_eq:
  "\<forall>c \<in> set cs. c < 2 ^ 128 \<Longrightarrow> r \<le> 2 ^ 128 \<Longrightarrow>
    fold (apply_factor n) (zip (map (\<lambda>i. 2 ^ i) [k..<k + length cs]) cs) r = bit_product cs (n div 2 ^ k) r"
proof (induction cs arbitrary: k r)
  case (Cons c cs)
  have c: "c < 2 ^ 128" using Cons.prems by simp
  have "r * c \<le> 2 ^ 128 * (2 ^ 128 - 1)" using Cons.prems c by (intro mult_le_mono) simp_all
  then have m: "sat_mul u256_max r c = r * c" by (intro sat_mul_exact) (simp add: u256_max_def)
  have z: "zip (map (\<lambda>i. 2 ^ i) [k..<k + length (c # cs)]) (c # cs) =
      (2 ^ k, c) # zip (map (\<lambda>i. 2 ^ i) [Suc k..<Suc k + length cs]) cs"
    by (simp add: upt_conv_Cons del: upt_Suc)
  have f: "apply_factor n (2 ^ k, c) r = (if odd (n div 2 ^ k) then r * c div 2 ^ 128 else r)"
    by (simp add: apply_factor_def and_exp_eq_0_iff_not_bit bit_iff_odd m)
  have "(if odd (n div 2 ^ k) then r * c div 2 ^ 128 else r) \<le> 2 ^ 128"
    using scaled_le[of c r] c Cons.prems(2) by auto
  from Cons.IH[OF _ this, of "Suc k"] Cons.prems show ?case
    unfolding z by (simp add: f div_mult2_eq[symmetric] mult.commute)
qed simp

lemma sqrt_ratio_fold:
  "fold (apply_factor n) sqrt_ratio_factors
     (if n AND 1 \<noteq> 0 then from_limbs 12262481743371124737 18445821805675392311 0 0 else from_limbs 0 0 1 0) = sqrt_ratio n"
proof -
  have "sqrt_ratio_factors = zip (map (\<lambda>i. 2 ^ i) [1..<1 + length (map snd sqrt_ratio_factors)]) (map snd sqrt_ratio_factors)"
    by (simp add: sqrt_ratio_factors_def upt_rec)
  moreover have "\<forall>c \<in> set (map snd sqrt_ratio_factors). c < 2 ^ 128" by (simp add: tick_factor_defs)
  ultimately have e: "r \<le> 2 ^ 128 \<Longrightarrow>
      fold (apply_factor n) sqrt_ratio_factors r = bit_product (map snd sqrt_ratio_factors) (n div 2 ^ 1) r" for r
    by (metis apply_factors_eq)
  show ?thesis unfolding sqrt_ratio_def tick_factors_def
    by (subst e) (simp_all add: from_limbs_def and_one_eq odd_iff_mod_2_eq_one)
qed

lemma sqrt_ratio_Suc: "n < 887272 \<Longrightarrow> gap 20 (sqrt_ratio n) (sqrt_ratio (Suc n))"
  unfolding sqrt_ratio_def using bit_product_Suc[OF tick_factors_facts(3,2), of n] tick_factors_facts(1) by simp

lemma sqrt_ratio_anti: "n \<le> m \<Longrightarrow> m \<le> 887272 \<Longrightarrow> sqrt_ratio m \<le> sqrt_ratio n"
proof (induction m rule: dec_induct)
  case (step m)
  with sqrt_ratio_Suc[of m] show ?case by (simp add: gap_def)
qed simp

lemma sqrt_ratio_last: "sqrt_ratio 887272 = 18447437462383981825"
  by (simp add: sqrt_ratio_def tick_factor_defs)

lemma sqrt_ratio_bounds: "n \<le> 887272 \<Longrightarrow> 2 ^ 64 \<le> sqrt_ratio n \<and> sqrt_ratio n \<le> 2 ^ 128"
  using sqrt_ratio_anti[of n 887272] bit_product_le[OF tick_factors_facts(2), of n "2 ^ 128"]
  unfolding sqrt_ratio_last sqrt_ratio_def[of n, symmetric] by simp

text \<open>The price at a tick, in units of \<open>2 ^ -96\<close>.\<close>

definition ceil_shift :: "nat \<Rightarrow> nat" where
  "ceil_shift r = (r + (2 ^ 32 - 1)) div 2 ^ 32"

definition tick_ratio :: "int \<Rightarrow> nat" where
  "tick_ratio t = (if t > 0 then u256_max div sqrt_ratio (nat t) else sqrt_ratio (nat (- t)))"

definition tick_price :: "int \<Rightarrow> nat" where
  "tick_price t = ceil_shift (tick_ratio t)"

lemma mask_eq_mod: "(r :: nat) AND (2 ^ k - 1) = r mod 2 ^ k"
  using take_bit_eq_mask[of k r] by (simp add: mask_eq_exp_minus_1 take_bit_eq_mod)

lemma ceil_div: "(r + (b - 1)) div b = (if r mod b \<noteq> 0 then r div b + 1 else r div b)" if "0 < b" for b :: nat
proof -
  have "(r + (b - 1)) div b = (r mod b + (b - 1) + b * (r div b)) div b" by simp
  also have "\<dots> = r div b + (r mod b + (b - 1)) div b" using that by (subst div_mult_self2) auto
  also have "(r mod b + (b - 1)) div b = (if r mod b \<noteq> 0 then 1 else 0)"
    using that mod_less_divisor[OF that, of r] by (auto intro!: div_nat_eqI)
  finally show ?thesis by simp
qed

lemma ceil_shift_eq: "ceil_shift r = (if r AND (2 ^ 32 - 1) \<noteq> 0 then r div 2 ^ 32 + 1 else r div 2 ^ 32)"
  unfolding ceil_shift_def mask_eq_mod by (rule ceil_div) simp

lemma ceil_shift_bounds: "ceil_shift r * 2 ^ 32 < r + 2 ^ 32" "r \<le> ceil_shift r * 2 ^ 32"
  using dividend_less_div_times[of "2 ^ 32" "r + (2 ^ 32 - 1)"] by (simp_all add: ceil_shift_def)

lemma sqrt_ratio_at_tick:
  "get_sqrt_ratio_at_tick t = (if \<bar>t\<bar> \<le> 887272 then Inr (tick_price t) else Inl TickOutOfBounds)"
proof -
  define n where "n = nat (if t < 0 then - t else t)"
  define r where "r = (if t > 0 then u256_max div sqrt_ratio n else sqrt_ratio n)"
  have "\<bar>t\<bar> \<le> 887272 \<Longrightarrow> get_sqrt_ratio_at_tick t = Inr (ceil_shift r)"
  proof -
    assume t: "\<bar>t\<bar> \<le> 887272"
    then have n: "n \<le> 887272" by (auto simp: n_def)
    then have "r \<le> u256_max" using sqrt_ratio_bounds[OF n] by (auto simp: r_def u256_max_def intro: order_trans[OF div_le_dividend])
    then have "r div 2 ^ 32 + 1 \<le> u256_max" by (auto simp: u256_max_def)
    then have s: "sat_add u256_max (r div 2 ^ 32) 1 = r div 2 ^ 32 + 1" by (rule sat_add_exact)
    have g: "\<not> n > 887272" using n by simp
    show ?thesis unfolding get_sqrt_ratio_at_tick_def Let_def n_def[symmetric] if_not_P[OF g] sqrt_ratio_fold r_def[symmetric] s ceil_shift_eq
      by (rule refl)
  qed
  moreover have "r = tick_ratio t" by (simp add: r_def tick_ratio_def n_def)
  moreover have "\<not> \<bar>t\<bar> \<le> 887272 \<Longrightarrow> n > 887272" by (auto simp: n_def)
  ultimately show ?thesis by (auto simp: tick_price_def get_sqrt_ratio_at_tick_def Let_def n_def[symmetric])
qed

text \<open>One tick raises the price by at least a 65536th.\<close>

lemma ceil_shift_grows:
  assumes "(2 ^ 16 + 1) * (q + 2 ^ 32) \<le> 2 ^ 16 * q'"
  shows "ceil_shift q * (2 ^ 16 + 1) \<le> ceil_shift q' * 2 ^ 16"
proof -
  have "(ceil_shift q * (2 ^ 16 + 1)) * 2 ^ 32 \<le> (2 ^ 16 + 1) * (q + 2 ^ 32)"
    using ceil_shift_bounds(1)[of q] by simp
  also have "\<dots> \<le> (ceil_shift q' * 2 ^ 16) * 2 ^ 32" using assms ceil_shift_bounds(2)[of q'] by simp
  finally show ?thesis by simp
qed

lemma tick_price_step_down:
  assumes "n < 887272"
  shows "ceil_shift (sqrt_ratio (Suc n)) * (2 ^ 16 + 1) \<le> ceil_shift (sqrt_ratio n) * 2 ^ 16"
  using sqrt_ratio_Suc[OF assms] sqrt_ratio_bounds[of n] assms by (intro ceil_shift_grows) (simp add: gap_def)

lemma reciprocal_grows:
  assumes g: "gap 20 x y" and x: "2 ^ 64 \<le> x" "x \<le> 2 ^ 128" and y: "0 < y" and q: "q * x \<le> u256_max + 1"
  shows "(2 ^ 16 + 1) * (q + 2 ^ 32) \<le> 2 ^ 16 * (u256_max div y)"
proof -
  let ?q = "u256_max div y"
  have "u256_max < (?q + 1) * y" using dividend_less_div_times[OF y, of u256_max] by simp
  with q have "q * x \<le> (?q + 1) * y" by simp
  then have "2 ^ 55 * (q * x) \<le> (?q + 1) * (2 ^ 55 * y)" by simp
  also have "\<dots> \<le> (?q + 1) * ((2 ^ 55 - 2 ^ 40 + 1) * x)"
    using g x by (intro mult_le_mono2) (simp add: gap_def)
  finally have "x * (2 ^ 55 * q) \<le> x * ((?q + 1) * (2 ^ 55 - 2 ^ 40 + 1))" by (simp only: ac_simps)
  then have b: "2 ^ 55 * q \<le> (?q + 1) * (2 ^ 55 - 2 ^ 40 + 1)" using x by (subst (asm) mult_le_cancel1) simp
  have "y \<le> 2 ^ 128" using g x by (simp add: gap_def)
  then have "u256_max div 2 ^ 128 \<le> ?q" using y by (rule div_le_mono2[rotated])
  then have "2 ^ 127 \<le> ?q" by (simp add: u256_max_def)
  with b show ?thesis by simp
qed

lemma tick_price_step_up:
  assumes "n < 887272" "q * sqrt_ratio n \<le> u256_max + 1"
  shows "ceil_shift q * (2 ^ 16 + 1) \<le> ceil_shift (u256_max div sqrt_ratio (Suc n)) * 2 ^ 16"
  using assms sqrt_ratio_bounds[of n] sqrt_ratio_bounds[of "Suc n"]
  by (intro ceil_shift_grows reciprocal_grows[OF sqrt_ratio_Suc[OF assms(1)]]) simp_all

lemma tick_price_step:
  assumes "-887272 \<le> t" "t < 887272"
  shows "tick_price t * (2 ^ 16 + 1) \<le> tick_price (t + 1) * 2 ^ 16"
proof (cases "t < 0")
  case True
  then have "nat (- t) = Suc (nat (- (t + 1)))" "nat (- (t + 1)) < 887272" using assms by auto
  with tick_price_step_down[of "nat (- (t + 1))"] True show ?thesis by (simp add: tick_price_def tick_ratio_def)
next
  case False
  then have n: "nat (t + 1) = Suc (nat t)" "nat t < 887272" using assms by auto
  have "tick_ratio t * sqrt_ratio (nat t) \<le> u256_max + 1"
  proof (cases "t = 0")
    case True
    have "sqrt_ratio 0 = 2 ^ 128" by (simp add: sqrt_ratio_def tick_factor_defs)
    with True show ?thesis by (simp add: tick_ratio_def u256_max_def)
  qed (use False in \<open>simp add: tick_ratio_def le_SucI\<close>)
  from tick_price_step_up[OF n(2) this] n(1) False show ?thesis by (simp add: tick_price_def tick_ratio_def)
qed

lemma tick_ratio_ge: "\<bar>t\<bar> \<le> 887272 \<Longrightarrow> 2 ^ 64 \<le> tick_ratio t"
proof (cases "t > 0")
  case True
  assume "\<bar>t\<bar> \<le> 887272"
  with True have b: "2 ^ 64 \<le> sqrt_ratio (nat t)" "sqrt_ratio (nat t) \<le> 2 ^ 128" using sqrt_ratio_bounds[of "nat t"] by auto
  have "2 ^ 64 \<le> u256_max div 2 ^ 128" by (simp add: u256_max_def)
  also have "\<dots> \<le> u256_max div sqrt_ratio (nat t)" using b by (intro div_le_mono2) auto
  finally show ?thesis using True by (simp add: tick_ratio_def)
qed (use sqrt_ratio_bounds[of "nat (- t)"] in \<open>auto simp: tick_ratio_def\<close>)

lemma tick_price_ge: "\<bar>t\<bar> \<le> 887272 \<Longrightarrow> 2 ^ 32 \<le> tick_price t"
  using tick_ratio_ge[of t] ceil_shift_bounds(2)[of "tick_ratio t"] by (simp add: tick_price_def)

lemma tick_price_less_Suc: "-887272 \<le> t \<Longrightarrow> t < 887272 \<Longrightarrow> tick_price t < tick_price (t + 1)"
  using tick_price_step[of t] tick_price_ge[of t] by (simp add: abs_le_iff)

lemma tick_price_less:
  assumes "-887272 \<le> t" "t < u" "u \<le> 887272"
  shows "tick_price t < tick_price u"
proof -
  obtain k where u: "u = t + 1 + int k" using assms(2) by (metis zle_iff_zadd add1_zle_eq)
  have "t + 1 + int k \<le> 887272 \<Longrightarrow> tick_price t < tick_price (t + 1 + int k)"
  proof (induction k)
    case (Suc k)
    then show ?case using tick_price_less_Suc[of "t + 1 + int k"] assms(1) by (simp add: algebra_simps)
  qed (use tick_price_less_Suc[of t] assms(1) in simp)
  with u assms(3) show ?thesis by simp
qed

text \<open>C27. The price grows strictly with the tick over the whole range of ticks, by at least one part in 65536
  from each tick to the next. Ticks outside the range have no price.\<close>

theorem sqrt_ratio_strictly_increasing:
  "(\<forall>t. is_ok (get_sqrt_ratio_at_tick t) \<longleftrightarrow> MIN_TICK \<le> t \<and> t \<le> MAX_TICK) \<and>
   (\<forall>t p q. get_sqrt_ratio_at_tick t = Inr p \<and> get_sqrt_ratio_at_tick (t + 1) = Inr q \<longrightarrow>
      p < q \<and> p * (2 ^ 16 + 1) \<le> q * 2 ^ 16)"
  using tick_price_step tick_price_less
  by (auto simp: sqrt_ratio_at_tick is_ok_def MIN_TICK_def MAX_TICK_def split: if_splits)

theorem sqrt_ratio_strictly_increasing_witness:
  "\<exists>p q. get_sqrt_ratio_at_tick 0 = Inr p \<and> get_sqrt_ratio_at_tick 1 = Inr q \<and> p < q"
  using conjunct2[OF sqrt_ratio_strictly_increasing, rule_format, of 0 "tick_price 0" "tick_price 1"]
  by (simp add: sqrt_ratio_at_tick)

end
