(* ===== verification/Tick_Log.thy ===== *)
theory Tick_Log
  imports Tick_Price Complex_Main
begin

text \<open>
  The tick of a price is the inverse of the price of a tick (\<open>try_from_sqrt_price\<close>, \<open>try_to_sqrt_price\<close>). The code finds it by
  a binary logarithm of fourteen fractional bits and corrects the result by at most one tick in
  either direction. The proof measures everything by the logarithm to the base of one tick and
  bounds the rounding of each step.
\<close>

section \<open>Logarithms to the base of a tick\<close>

definition tick_base :: real where
  "tick_base = 2 ^ 128 / real (tick_factors ! 0)"

definition tick_log :: "real \<Rightarrow> real" where
  "tick_log x = log tick_base x"

definition log2_ticks :: real where
  "log2_ticks = tick_log 2"

lemma tick_base_bounds: "1 < tick_base" "1 / 2 ^ 15 \<le> ln tick_base"
proof -
  have inv: "1 / tick_base \<le> 1 - 1 / 2 ^ 15" by (simp add: tick_base_def tick_factors_def from_limbs_def)
  show b: "1 < tick_base" by (simp add: tick_base_def tick_factors_def from_limbs_def)
  have "ln (1 / tick_base) \<le> 1 / tick_base - 1" using b by (intro ln_le_minus_one) simp
  then show "1 / 2 ^ 15 \<le> ln tick_base" using inv b by (simp add: ln_div)
qed

lemma tick_log_mult: "0 < x \<Longrightarrow> 0 < y \<Longrightarrow> tick_log (x * y) = tick_log x + tick_log y"
  by (simp add: tick_log_def log_mult)

lemma tick_log_div: "0 < x \<Longrightarrow> 0 < y \<Longrightarrow> tick_log (x / y) = tick_log x - tick_log y"
  by (simp add: tick_log_def log_divide)

lemma tick_log_pow2: "tick_log (2 ^ k) = real k * log2_ticks"
  by (simp add: tick_log_def log2_ticks_def log_nat_power)

lemma tick_log_mono: "0 < x \<Longrightarrow> x \<le> y \<Longrightarrow> tick_log x \<le> tick_log y"
  using tick_base_bounds(1) by (simp add: tick_log_def)

lemma tick_log_diff:
  assumes "0 < x" "x \<le> y"
  shows "tick_log y \<le> tick_log x + (y - x) / x * 2 ^ 15"
proof -
  have "ln (y / x) \<le> y / x - 1" using assms by (intro ln_le_minus_one) simp
  then have "ln y - ln x \<le> (y - x) / x" using assms by (simp add: ln_div diff_divide_distrib)
  moreover have "0 \<le> (y - x) / x" using assms by simp
  ultimately have "(ln y - ln x) / ln tick_base \<le> ((y - x) / x) / (1 / 2 ^ 15)"
    using tick_base_bounds by (intro frac_le) simp_all
  then show ?thesis by (simp add: tick_log_def log_def diff_divide_distrib)
qed

text \<open>Rounding down a number of at least \<open>2 ^ m\<close>.\<close>

lemma tick_log_floor:
  assumes "2 ^ (m + 1) \<le> z" "z - 1 \<le> real q" "real q \<le> z"
  shows "tick_log z - 2 ^ 15 / 2 ^ m \<le> tick_log (real q)" "tick_log (real q) \<le> tick_log z"
proof -
  have "1 \<le> (2 :: real) ^ m" by simp
  then have z: "2 ^ m \<le> z - 1" using assms(1) unfolding power_add power_one_right by linarith
  then have q: "2 ^ m \<le> real q" using assms(2) by linarith
  then have q0: "0 < real q" by (rule less_le_trans[rotated]) simp
  have "(z - real q) / real q \<le> 1 / 2 ^ m" using assms(2,3) q by (intro frac_le) simp_all
  then have "(z - real q) / real q * 2 ^ 15 \<le> 1 / 2 ^ m * 2 ^ 15" by (rule mult_right_mono) simp
  then have "(z - real q) / real q * 2 ^ 15 \<le> 2 ^ 15 / 2 ^ m" by simp
  with tick_log_diff[OF q0 assms(3)] show "tick_log z - 2 ^ 15 / 2 ^ m \<le> tick_log (real q)" by linarith
  show "tick_log (real q) \<le> tick_log z" by (rule tick_log_mono[OF q0 assms(3)])
qed

lemma real_div_bounds:
  assumes "0 < b"
  shows "real a / real b - 1 \<le> real (a div b)" "real (a div b) \<le> real a / real b"
proof -
  have e: "real a = real (a div b) * real b + real (a mod b)" by (metis div_mult_mod_eq of_nat_add of_nat_mult)
  have "real (a mod b) \<le> real b" using mod_less_divisor[OF assms, of a] by simp
  with e assms show "real a / real b - 1 \<le> real (a div b)" by (simp add: field_simps)
  show "real (a div b) \<le> real a / real b" using e assms by (simp add: field_simps)
qed

section \<open>The factors\<close>

lemma factor_squares:
  "k < 19 \<Longrightarrow> (let x = (tick_factors ! k) ^ 2; y = tick_factors ! Suc k * 2 ^ 128 in
     (x - y) * 2 ^ 85 \<le> y \<and> (y - x) * 2 ^ 85 \<le> x)"
proof -
  have "\<forall>k \<in> set [0..<19]. let x = (tick_factors ! k) ^ 2; y = tick_factors ! Suc k * 2 ^ 128 in
     (x - y) * 2 ^ 85 \<le> y \<and> (y - x) * 2 ^ 85 \<le> x"
    by (simp add: upt_rec tick_factor_defs)
  then show "k < 19 \<Longrightarrow> ?thesis" by simp
qed

lemma tick_factors_pos: "k < 20 \<Longrightarrow> 0 < tick_factors ! k"
proof -
  have "\<forall>c \<in> set tick_factors. 0 < c" by (simp add: tick_factor_defs)
  then show "k < 20 \<Longrightarrow> ?thesis" using tick_factors_facts(1) by simp
qed

lemma tick_log_close:
  assumes "0 < x" "0 < y" "(x - y) * 2 ^ 85 \<le> y" "(y - x) * 2 ^ 85 \<le> x"
  shows "\<bar>tick_log (real x) - tick_log (real y)\<bar> \<le> 1 / 2 ^ 70"
proof -
  have one: "\<bar>tick_log (real u) - tick_log (real v)\<bar> \<le> 1 / 2 ^ 70" if "0 < u" "u \<le> v" "(v - u) * 2 ^ 85 \<le> u" for u v :: nat
  proof -
    have "real ((v - u) * 2 ^ 85) \<le> real u" using that(3) by (simp only: of_nat_le_iff)
    then have "(real v - real u) / real u \<le> 1 / 2 ^ 85" using that by (simp add: field_simps of_nat_diff)
    then have "(real v - real u) / real u * 2 ^ 15 \<le> 1 / 2 ^ 85 * 2 ^ 15" by (rule mult_right_mono) simp
    with tick_log_diff[of "real u" "real v"] have "tick_log (real v) \<le> tick_log (real u) + 1 / 2 ^ 85 * 2 ^ 15" using that by linarith
    with tick_log_mono[of "real u" "real v"] that show ?thesis by (simp add: abs_le_iff)
  qed
  show ?thesis
  proof (cases "x \<le> y")
    case True
    with one[of x y] assms show ?thesis by simp
  next
    case False
    with one[of y x] assms show ?thesis by (simp add: abs_minus_commute)
  qed
qed

lemma abs_double_error:
  "\<bar>2 * a - (b + m)\<bar> \<le> e \<Longrightarrow> \<bar>a - (m - w)\<bar> \<le> (w - 1) * e \<Longrightarrow> \<bar>b - (m - 2 * w)\<bar> \<le> (2 * w - 1) * e" for e :: real
  by (simp add: abs_le_iff algebra_simps) linarith

lemma factor_log:
  assumes "k < 20"
  shows "\<bar>tick_log (real (tick_factors ! k)) - (128 * log2_ticks - 2 ^ k)\<bar> \<le> (2 ^ k - 1) * (1 / 2 ^ 70)"
  using assms
proof (induction k)
  case 0
  have "tick_log tick_base = 1" using tick_base_bounds(1) by (simp add: tick_log_def)
  moreover have "tick_log tick_base = 128 * log2_ticks - tick_log (real (tick_factors ! 0))"
    unfolding tick_base_def using tick_log_pow2[of 128] by (subst tick_log_div) (simp_all add: tick_factors_def from_limbs_def)
  ultimately show ?case by simp
next
  case (Suc k)
  let ?c = "real (tick_factors ! k)" and ?d = "real (tick_factors ! Suc k)"
  let ?x = "(tick_factors ! k) ^ 2" and ?y = "tick_factors ! Suc k * 2 ^ 128"
  have sq: "(?x - ?y) * 2 ^ 85 \<le> ?y" "(?y - ?x) * 2 ^ 85 \<le> ?x"
    using factor_squares[of k] Suc.prems by (simp_all add: Let_def)
  have pos: "0 < ?c" "0 < ?d" using tick_factors_pos[of k] tick_factors_pos[of "Suc k"] Suc.prems by simp_all
  have "\<bar>tick_log (real ?x) - tick_log (real ?y)\<bar> \<le> 1 / 2 ^ 70" by (rule tick_log_close[OF _ _ sq]) (use pos in simp_all)
  moreover have "tick_log (real ?x) = 2 * tick_log ?c" using pos by (simp add: power2_eq_square tick_log_mult)
  moreover have "tick_log (real ?y) = tick_log ?d + 128 * log2_ticks"
    using pos tick_log_pow2[of 128] by (simp add: tick_log_mult)
  moreover have "\<bar>tick_log ?c - (128 * log2_ticks - 2 ^ k)\<bar> \<le> (2 ^ k - 1) * (1 / 2 ^ 70)" using Suc by simp
  ultimately show ?case using abs_double_error[of "tick_log ?c" "tick_log ?d" "128 * log2_ticks" "1 / 2 ^ 70" "2 ^ k"]
    unfolding power_Suc by simp
qed

text \<open>A product of factors with weights \<open>w\<close>, \<open>2 w\<close>, \<open>4 w\<close>, ... lowers the logarithm by \<open>w n\<close>.\<close>

lemma abs_chain: "\<bar>a - b\<bar> \<le> x \<Longrightarrow> \<bar>b - c\<bar> \<le> y \<Longrightarrow> \<bar>a - c\<bar> \<le> x + y" for x :: real
  by linarith

lemma scaled_log:
  assumes "0 < r" "0 < c" "2 ^ 63 \<le> r * c div 2 ^ 128"
  shows "\<bar>tick_log (real (r * c div 2 ^ 128)) - (tick_log (real r) + tick_log (real c) - 128 * log2_ticks)\<bar> \<le> 1 / 2 ^ 47"
proof -
  let ?z = "real (r * c) / real (2 ^ 128)"
  have b: "?z - 1 \<le> real (r * c div 2 ^ 128)" "real (r * c div 2 ^ 128) \<le> ?z" by (rule real_div_bounds; simp)+
  have "real (2 ^ 63) \<le> real (r * c div 2 ^ 128)" using assms(3) by (simp only: of_nat_le_iff)
  with b(2) have "2 ^ (62 + 1) \<le> ?z" by simp
  note tick_log_floor[OF this b]
  moreover have "tick_log ?z = tick_log (real r) + tick_log (real c) - 128 * log2_ticks"
    using assms(1,2) tick_log_pow2[of 128] by (simp add: tick_log_div tick_log_mult)
  ultimately show ?thesis by (simp add: abs_le_iff)
qed

lemma bit_product_log:
  assumes "\<forall>i < length cs. 0 < cs ! i \<and> cs ! i \<le> 2 ^ 128 \<and>
      \<bar>tick_log (real (cs ! i)) - (128 * log2_ticks - w * 2 ^ i)\<bar> \<le> w * 2 ^ i * e"
    and "0 \<le> w" "0 \<le> e" "0 < r" "n < 2 ^ length cs" "2 ^ 63 \<le> bit_product cs n r"
  shows "\<bar>tick_log (real (bit_product cs n r)) - (tick_log (real r) - w * real n)\<bar> \<le> real (length cs) / 2 ^ 47 + w * real n * e"
  using assms
proof (induction cs arbitrary: w n r)
  case (Cons c cs)
  define r' where "r' = (if odd n then r * c div 2 ^ 128 else r)"
  have c: "0 < c" "\<bar>tick_log (real c) - (128 * log2_ticks - w)\<bar> \<le> w * e" using Cons.prems(1) by (auto dest: spec[of _ 0])
  have tail: "\<forall>i < length cs. 0 < cs ! i \<and> cs ! i \<le> 2 ^ 128 \<and>
      \<bar>tick_log (real (cs ! i)) - (128 * log2_ticks - (2 * w) * 2 ^ i)\<bar> \<le> (2 * w) * 2 ^ i * e"
  proof (intro allI impI)
    fix i assume "i < length cs"
    with Cons.prems(1) have "0 < (c # cs) ! Suc i \<and> (c # cs) ! Suc i \<le> 2 ^ 128 \<and>
        \<bar>tick_log (real ((c # cs) ! Suc i)) - (128 * log2_ticks - w * 2 ^ Suc i)\<bar> \<le> w * 2 ^ Suc i * e"
      by (metis Suc_less_eq length_Cons)
    then show "0 < cs ! i \<and> cs ! i \<le> 2 ^ 128 \<and>
        \<bar>tick_log (real (cs ! i)) - (128 * log2_ticks - (2 * w) * 2 ^ i)\<bar> \<le> (2 * w) * 2 ^ i * e"
      by (simp add: ac_simps)
  qed
  then have "\<forall>c \<in> set cs. c \<le> 2 ^ 128" by (auto simp: in_set_conv_nth)
  from bit_product_le[OF this, of "n div 2" r'] have r': "2 ^ 63 \<le> r'" using Cons.prems(6) by (simp add: r'_def)
  then have "0 < r'" by (rule less_le_trans[rotated]) simp
  then have IH: "\<bar>tick_log (real (bit_product cs (n div 2) r')) - (tick_log (real r') - 2 * w * real (n div 2))\<bar>
      \<le> real (length cs) / 2 ^ 47 + 2 * w * real (n div 2) * e"
    using Cons.prems tail by (intro Cons.IH) (simp_all add: r'_def)
  have "\<bar>tick_log (real r') - (tick_log (real r) - w * real (n mod 2))\<bar> \<le> 1 / 2 ^ 47 + w * real (n mod 2) * e"
  proof (cases "odd n")
    case True
    have "\<bar>tick_log (real r') - (tick_log (real r) + tick_log (real c) - 128 * log2_ticks)\<bar> \<le> 1 / 2 ^ 47"
      using scaled_log[of r c] r' c Cons.prems(4) True unfolding r'_def by simp
    moreover have "\<bar>(tick_log (real r) + tick_log (real c) - 128 * log2_ticks) - (tick_log (real r) - w)\<bar> \<le> w * e"
      using c(2) by (simp add: algebra_simps)
    ultimately show ?thesis using abs_chain True by (simp add: odd_iff_mod_2_eq_one)
  qed (simp add: r'_def)
  moreover have "real n = 2 * real (n div 2) + real (n mod 2)" by (metis mult_div_mod_eq of_nat_add of_nat_mult of_nat_numeral)
  ultimately show ?case using IH by (simp add: r'_def[symmetric] abs_le_iff algebra_simps add_divide_distrib)
qed simp

lemma sqrt_ratio_log:
  assumes "n \<le> 887272"
  shows "\<bar>tick_log (real (sqrt_ratio n)) - (128 * log2_ticks - real n)\<bar> \<le> 1 / 2 ^ 42"
proof -
  have b: "2 ^ 63 \<le> bit_product tick_factors n (2 ^ 128)" using sqrt_ratio_bounds[OF assms] unfolding sqrt_ratio_def by simp
  have f: "\<forall>i < length tick_factors. 0 < tick_factors ! i \<and> tick_factors ! i \<le> 2 ^ 128 \<and>
      \<bar>tick_log (real (tick_factors ! i)) - (128 * log2_ticks - 1 * 2 ^ i)\<bar> \<le> 1 * 2 ^ i * (1 / 2 ^ 70)"
  proof (intro allI impI conjI)
    fix i assume i: "i < length tick_factors"
    then have "i < 20" by (simp add: tick_factors_facts(1))
    from factor_log[OF this] show "\<bar>tick_log (real (tick_factors ! i)) - (128 * log2_ticks - 1 * 2 ^ i)\<bar> \<le> 1 * 2 ^ i * (1 / 2 ^ 70)"
      by (simp add: algebra_simps)
    show "0 < tick_factors ! i" by (rule tick_factors_pos) fact
    show "tick_factors ! i \<le> 2 ^ 128" using tick_factors_facts(2) i by simp
  qed
  have "\<bar>tick_log (real (sqrt_ratio n)) - (tick_log (real (2 ^ 128)) - 1 * real n)\<bar> \<le> real (length tick_factors) / 2 ^ 47 + 1 * real n * (1 / 2 ^ 70)"
    unfolding sqrt_ratio_def by (rule bit_product_log[OF f _ _ _ _ b]) (use assms in \<open>simp_all add: tick_factors_facts(1)\<close>)
  also have "tick_log (real (2 ^ 128)) = 128 * log2_ticks" using tick_log_pow2[of 128] by simp
  also have "real (length tick_factors) / 2 ^ 47 + 1 * real n * (1 / 2 ^ 70) \<le> 1 / 2 ^ 42" using assms by (simp add: tick_factors_facts(1))
  finally show ?thesis by simp
qed

section \<open>Prices and the number of ticks of a factor two\<close>

lemma sqrt_ratio_samples: "sqrt_ratio 804091 \<le> 2 ^ 70" "2 ^ 117 \<le> sqrt_ratio 152500"
  by (simp_all add: sqrt_ratio_def tick_factor_defs)

lemma log2_ticks_bounds: "58 * log2_ticks \<le> 804091 + 1 / 2 ^ 42" "152500 - 1 / 2 ^ 42 \<le> 11 * log2_ticks"
proof -
  have "real (sqrt_ratio 804091) \<le> real (2 ^ 70)" "real (2 ^ 117) \<le> real (sqrt_ratio 152500)"
    using sqrt_ratio_samples by (simp_all only: of_nat_le_iff)
  then have "tick_log (real (sqrt_ratio 804091)) \<le> 70 * log2_ticks" "117 * log2_ticks \<le> tick_log (real (sqrt_ratio 152500))"
    using tick_log_mono[of "real (sqrt_ratio 804091)" "2 ^ 70"] tick_log_mono[of "2 ^ 117" "real (sqrt_ratio 152500)"]
      tick_log_pow2[of 70] tick_log_pow2[of 117] sqrt_ratio_bounds[of 804091] by simp_all
  with sqrt_ratio_log[of 804091] sqrt_ratio_log[of 152500]
  show "58 * log2_ticks \<le> 804091 + 1 / 2 ^ 42" "152500 - 1 / 2 ^ 42 \<le> 11 * log2_ticks" by linarith+
qed

lemma tick_ratio_log:
  assumes "\<bar>t\<bar> \<le> 887272"
  shows "\<bar>tick_log (real (tick_ratio t)) - (128 * log2_ticks + of_int t)\<bar> \<le> 1 / 2 ^ 41"
proof (cases "t > 0")
  case True
  define n where "n = nat t"
  have n: "n \<le> 887272" "real n = of_int t" using assms True by (auto simp: n_def)
  let ?z = "real u256_max / real (sqrt_ratio n)"
  have R: "0 < sqrt_ratio n" using sqrt_ratio_bounds[OF n(1)] by auto
  have q: "?z - 1 \<le> real (u256_max div sqrt_ratio n)" "real (u256_max div sqrt_ratio n) \<le> ?z"
    by (rule real_div_bounds[OF R])+
  have T: "tick_ratio t = u256_max div sqrt_ratio n" using True by (simp add: tick_ratio_def n_def)
  have "real (2 ^ 64) \<le> real (tick_ratio t)" using tick_ratio_ge[OF assms] by (simp only: of_nat_le_iff)
  then have "2 ^ (63 + 1) \<le> ?z" using q(2) by (simp add: T)
  note fl = tick_log_floor[OF this q, folded T]
  have zl: "tick_log ?z = tick_log (real u256_max) - tick_log (real (sqrt_ratio n))" using R by (simp add: tick_log_div u256_max_def)
  have "tick_log (real (2 ^ 256)) \<le> tick_log (real u256_max) + (real (2 ^ 256) - real u256_max) / real u256_max * 2 ^ 15"
    by (rule tick_log_diff) (simp_all add: u256_max_def)
  also have "(real (2 ^ 256) - real u256_max) / real u256_max * 2 ^ 15 \<le> 1 / 2 ^ 100" by (simp add: u256_max_def)
  finally have u: "256 * log2_ticks \<le> tick_log (real u256_max) + 1 / 2 ^ 100" using tick_log_pow2[of 256] by simp
  have "tick_log (real u256_max) \<le> tick_log (2 ^ 256)" by (rule tick_log_mono) (simp_all add: u256_max_def)
  then have u': "tick_log (real u256_max) \<le> 256 * log2_ticks" using tick_log_pow2[of 256] by simp
  have k: "1 / 2 ^ 42 + 1 / 2 ^ 100 + 2 ^ 15 / 2 ^ 63 \<le> 1 / (2 ^ 41 :: real)" by simp
  show ?thesis using fl u u' zl k sqrt_ratio_log[OF n(1)] unfolding abs_le_iff n(2) by linarith
next
  case False
  then have "real (nat (- t)) = - of_int t" "nat (- t) \<le> 887272" using assms by auto
  moreover have "1 / 2 ^ 42 \<le> 1 / (2 ^ 41 :: real)" by simp
  ultimately show ?thesis using sqrt_ratio_log[of "nat (- t)"] False unfolding abs_le_iff by (simp add: tick_ratio_def)
qed

lemma tick_price_log:
  assumes "\<bar>t\<bar> \<le> 887272"
  shows "\<bar>tick_log (real (tick_price t)) - (96 * log2_ticks + of_int t)\<bar> \<le> 1 / 2 ^ 16"
proof -
  let ?r = "real (tick_ratio t)" and ?p = "real (tick_price t)"
  have "real (2 ^ 64) \<le> ?r" using tick_ratio_ge[OF assms] by (simp only: of_nat_le_iff)
  then have r: "2 ^ 64 \<le> ?r" by simp
  have "real (tick_price t * 2 ^ 32) < real (tick_ratio t + 2 ^ 32)" "real (tick_ratio t) \<le> real (tick_price t * 2 ^ 32)"
    using ceil_shift_bounds[of "tick_ratio t"] unfolding tick_price_def by (simp_all only: of_nat_less_iff of_nat_le_iff)
  then have p: "?p * 2 ^ 32 \<le> ?r + 2 ^ 32" "?r \<le> ?p * 2 ^ 32" by simp_all
  have r0: "0 < ?r" using r by simp
  have "(?p * 2 ^ 32 - ?r) / ?r \<le> 2 ^ 32 / 2 ^ 64" using p r by (intro frac_le) simp_all
  then have "(?p * 2 ^ 32 - ?r) / ?r * 2 ^ 15 \<le> 2 ^ 32 / 2 ^ 64 * 2 ^ 15" by (rule mult_right_mono) simp
  also have "\<dots> = 1 / 2 ^ 17" by simp
  finally have "tick_log (?p * 2 ^ 32) \<le> tick_log ?r + 1 / 2 ^ 17" "tick_log ?r \<le> tick_log (?p * 2 ^ 32)"
    using tick_log_diff[OF r0 p(2)] tick_log_mono[OF r0 p(2)] by linarith+
  moreover have "tick_log (?p * 2 ^ 32) = tick_log ?p + 32 * log2_ticks"
    using tick_price_ge[OF assms] tick_log_pow2[of 32] by (simp add: tick_log_mult)
  moreover have "1 / 2 ^ 17 + 1 / 2 ^ 41 \<le> 1 / (2 ^ 16 :: real)" by simp
  ultimately show ?thesis using tick_ratio_log[OF assms] unfolding abs_le_iff by linarith
qed

section \<open>The binary logarithm\<close>

lemma or_eq_add_nat: "2 ^ Suc k dvd a \<Longrightarrow> a OR 2 ^ k = a + 2 ^ k" for a :: nat
proof (rule disjunctive_add[symmetric])
  fix n assume "2 ^ Suc k dvd a"
  then obtain m where "a = 2 ^ k * (2 * m)" by (elim dvdE) simp
  then have "\<not> bit a k" by (simp add: bit_iff_odd)
  then show "\<not> bit a n \<or> \<not> bit ((2::nat) ^ k) n" by (auto simp: bit_exp_iff)
qed

lemma or_eq_add_int: "2 ^ Suc k dvd a \<Longrightarrow> a OR 2 ^ k = a + 2 ^ k" for a :: int
proof (rule disjunctive_add[symmetric])
  fix n assume "2 ^ Suc k dvd a"
  then obtain m where "a = 2 ^ k * (2 * m)" by (elim dvdE) simp
  then have "\<not> bit a k" by (simp add: bit_iff_odd)
  then show "\<not> bit a n \<or> \<not> bit ((2::int) ^ k) n" by (auto simp: bit_exp_iff)
qed

text \<open>The bisection: the part of the number above the bits found so far.\<close>

definition msb_found :: "nat \<Rightarrow> nat \<Rightarrow> nat \<times> nat \<Rightarrow> bool" where
  "msb_found ratio k s \<longleftrightarrow> snd s = ratio div 2 ^ fst s \<and> 0 < snd s \<and> snd s < 2 ^ (2 ^ k) \<and> 2 ^ k dvd fst s"

lemma msb_found_step:
  assumes "msb_found ratio (Suc k) s" "b = 2 ^ (2 ^ k) - 1"
  shows "msb_found ratio k (msb_step s (b, k))"
proof (cases "snd s > b")
  case True
  obtain msb r where s: "s = (msb, r)" by (cases s)
  have r: "r = ratio div 2 ^ msb" "r < 2 ^ (2 ^ Suc k)" "2 ^ Suc k dvd msb" using assms(1) by (simp_all add: msb_found_def s)
  have big: "2 ^ (2 ^ k) \<le> r" using True by (simp add: s assms(2))
  have sq: "(2::nat) ^ (2 ^ Suc k) = 2 ^ (2 ^ k) * 2 ^ (2 ^ k)" by (simp add: power_add[symmetric])
  have "r div 2 ^ (2 ^ k) < 2 ^ (2 ^ k)" using r(2) unfolding sq by (rule less_mult_imp_div_less)
  moreover have "0 < r div 2 ^ (2 ^ k)" using big by (simp add: div_greater_zero_iff)
  moreover have "2 ^ k dvd msb + 2 ^ k" using r(3) by (meson dvd_add dvd_refl dvd_trans le_imp_power_dvd lessI less_imp_le)
  ultimately show ?thesis
    using True r or_eq_add_nat[OF r(3)] by (simp add: msb_found_def msb_step_def s Let_def power_add div_mult2_eq)
next
  case False
  have "(2::nat) ^ k dvd 2 ^ Suc k" by (rule le_imp_power_dvd) simp
  moreover have "0 < (2::nat) ^ (2 ^ k)" by simp
  then have "snd s < 2 ^ (2 ^ k)" using False assms(2) by linarith
  ultimately show ?thesis using False assms(1) by (auto simp: msb_found_def msb_step_def Let_def split: prod.splits intro: dvd_trans)
qed

lemma most_significant_bit:
  assumes "0 < ratio" "ratio < 2 ^ 256"
  shows "2 ^ most_significant_bit ratio \<le> ratio" "ratio < 2 ^ Suc (most_significant_bit ratio)"
proof -
  let ?ps = "[(from_limbs 18446744073709551615 18446744073709551615 0 0, 7), (from_limbs 18446744073709551615 0 0 0, 6),
         (4294967295, 5), (65535, 4), (255, 3), (15, 2), (3, 1)] :: (nat \<times> nat) list"
  have init: "msb_found ratio 8 (0, ratio)" using assms by (simp add: msb_found_def)
  have step: "msb_found ratio k (msb_step s (b, k))" if "msb_found ratio l s" "l = Suc k" "b = 2 ^ (2 ^ k) - 1" for s b k l
    using msb_found_step that by simp
  have m1: "msb_found ratio 1 (foldl msb_step (0, ratio) ?ps)"
    unfolding foldl.simps by (rule step, rule step, rule step, rule step, rule step, rule step, rule step, rule init) (simp_all add: from_limbs_def)
  obtain msb r where f: "foldl msb_step (0, ratio) ?ps = (msb, r)" by (meson surj_pair)
  have m0: "msb_found ratio 0 (msb_step (msb, r) (1, 0))" by (rule msb_found_step) (use m1 f in simp_all)
  have e: "most_significant_bit ratio = fst (msb_step (msb, r) (1, 0))"
    unfolding most_significant_bit_def f by (simp add: msb_step_def Let_def)
  let ?m = "most_significant_bit ratio"
  have d: "ratio div 2 ^ ?m = 1" using m0 unfolding e by (auto simp: msb_found_def)
  show "2 ^ ?m \<le> ratio" using d by (cases "ratio < 2 ^ ?m") auto
  show "ratio < 2 ^ Suc ?m" using d dividend_less_div_times[of "2 ^ ?m" ratio] by simp
qed

text \<open>One bit of the logarithm. The logarithm of what is left doubles, up to the rounding of two divisions.\<close>

lemma log_step_correct:
  assumes "2 ^ 127 \<le> r" "r < 2 ^ 128" "2 ^ Suc i dvd l" "log_step i (l, r) = (l', r')"
  obtains f where "f \<le> 1" "l' = l + int f * 2 ^ i" "2 ^ 127 \<le> r'" "r' < 2 ^ 128"
    "\<bar>tick_log (real r') - (2 * tick_log (real r) - (127 + real f) * log2_ticks)\<bar> \<le> 1 / 2 ^ 100"
proof -
  define r1 where "r1 = r * r div 2 ^ 127"
  define f where "f = r1 div 2 ^ 128"
  have "r * r \<le> (2 ^ 128 - 1) * (2 ^ 128 - 1)" using assms(2) by (intro mult_le_mono) simp_all
  then have lt: "r * r < 2 ^ 256" by (rule le_less_trans) simp
  have "2 ^ 127 * 2 ^ 127 \<le> r * r" using assms(1) by (intro mult_le_mono)
  then have r1: "2 ^ 127 \<le> r1" unfolding r1_def by (simp add: less_eq_div_iff_mult_less_eq)
  have r1': "r1 < 2 ^ 129" unfolding r1_def using lt by (intro less_mult_imp_div_less) simp
  have "f < 2" unfolding f_def using r1' by (intro less_mult_imp_div_less) simp
  then have f: "f \<le> 1" by simp
  have r': "r' = r1 div 2 ^ f" and l': "l' = l OR int (f * 2 ^ i)"
    using assms(4) lt by (simp_all add: log_step_def Let_def r1_def f_def)
  consider "f = 0" "r1 < 2 ^ 128" | "f = 1" "2 ^ 128 \<le> r1"
    using f by (cases "f = 0") (auto simp: f_def div_eq_0_iff le_Suc_eq div_greater_zero_iff)
  then have b: "2 ^ 127 \<le> r'" "r' < 2 ^ 128" using r1 r1' by (cases; simp add: r' less_mult_imp_div_less less_eq_div_iff_mult_less_eq)+
  have e: "l' = l + int f * 2 ^ i" using f or_eq_add_int[OF assms(3)] by (cases "f = 0") (simp_all add: l' le_Suc_eq)
  have r0: "0 < real r" using assms(1) by simp
  have z1: "2 ^ (126 + 1) \<le> real (r * r) / real (2 ^ 127)"
  proof -
    have "real (2 ^ 127 * 2 ^ 127) \<le> real (r * r)" using \<open>2 ^ 127 * 2 ^ 127 \<le> r * r\<close> by (simp only: of_nat_le_iff)
    then show ?thesis by simp
  qed
  have F1: "tick_log (real (r * r) / real (2 ^ 127)) - 2 ^ 15 / 2 ^ 126 \<le> tick_log (real r1)"
      "tick_log (real r1) \<le> tick_log (real (r * r) / real (2 ^ 127))"
    unfolding r1_def by (rule tick_log_floor[OF z1 real_div_bounds]; simp)+
  have "real (2 ^ 127) \<le> real r'" using b(1) by (simp only: of_nat_le_iff)
  then have z2: "2 ^ (126 + 1) \<le> real r1 / real (2 ^ f)" using real_div_bounds(2)[of "2 ^ f" r1] unfolding r' by simp
  have F2: "tick_log (real r1 / real (2 ^ f)) - 2 ^ 15 / 2 ^ 126 \<le> tick_log (real r')"
      "tick_log (real r') \<le> tick_log (real r1 / real (2 ^ f))"
    unfolding r' by (rule tick_log_floor[OF z2 real_div_bounds]; simp)+
  have "tick_log (real (r * r) / real (2 ^ 127)) = 2 * tick_log (real r) - 127 * log2_ticks"
    using r0 tick_log_pow2[of 127] by (simp add: tick_log_div tick_log_mult)
  moreover have "tick_log (real r1 / real (2 ^ f)) = tick_log (real r1) - real f * log2_ticks"
    using r1 tick_log_pow2[of f] by (simp add: tick_log_div)
  moreover have "2 ^ 15 / 2 ^ 126 + 2 ^ 15 / 2 ^ 126 \<le> 1 / (2 ^ 100 :: real)" "0 \<le> 1 / (2 ^ 100 :: real)" by simp_all
  ultimately have "\<bar>tick_log (real r') - (2 * tick_log (real r) - (127 + real f) * log2_ticks)\<bar> \<le> 1 / 2 ^ 100"
    using F1 F2 unfolding abs_le_iff distrib_right by linarith
  with f e b show thesis by (rule that)
qed

text \<open>The value that the loop preserves, up to rounding: the bits found so far and what the rest stands for.\<close>

definition log_value :: "nat \<Rightarrow> int \<times> nat \<Rightarrow> real" where
  "log_value j s = of_int (fst s) / 2 ^ 64 * log2_ticks + (tick_log (real (snd s)) - 127 * log2_ticks) / 2 ^ j"

definition log_inv :: "nat \<Rightarrow> real \<Rightarrow> int \<times> nat \<Rightarrow> bool" where
  "log_inv j v s \<longleftrightarrow> 2 ^ (64 - j) dvd fst s \<and> 2 ^ 127 \<le> snd s \<and> snd s < 2 ^ 128 \<and>
     \<bar>log_value j s - v\<bar> \<le> real j / 2 ^ 100"

lemma log_value_algebra:
  "a' = a + f * (1 / (2 * d)) \<Longrightarrow> 0 < d \<Longrightarrow>
    a' * m + (y - 127 * m) / (2 * d) - (a * m + (x - 127 * m) / d) = (y - (2 * x - (127 + f) * m)) / (2 * d)" for d :: real
  by (hypsubst, simp add: field_simps)

lemma log_inv_step:
  assumes "log_inv j v s" "j < 64" "i = 63 - j"
  shows "log_inv (Suc j) v (log_step i s)"
proof -
  obtain l r where s: "s = (l, r)" by (cases s)
  obtain l' r' where s': "log_step i s = (l', r')" by (cases "log_step i s")
  have i: "Suc i = 64 - j" "64 - Suc j = i" using assms(2,3) by simp_all
  have r: "2 ^ 127 \<le> r" "r < 2 ^ 128" and l: "2 ^ Suc i dvd l" and v: "\<bar>log_value j (l, r) - v\<bar> \<le> real j / 2 ^ 100"
    using assms(1) unfolding log_inv_def s i by simp_all
  obtain f where f: "l' = l + int f * 2 ^ i" "2 ^ 127 \<le> r'" "r' < 2 ^ 128"
    and e: "\<bar>tick_log (real r') - (2 * tick_log (real r) - (127 + real f) * log2_ticks)\<bar> \<le> 1 / 2 ^ 100"
    using log_step_correct[OF r l s'[unfolded s]] by metis
  have "(2::real) ^ i * 2 ^ Suc j = 2 ^ 64" using assms(2,3) by (simp add: power_add[symmetric] del: power_Suc)
  then have p: "(2::real) ^ i / 2 ^ 64 = 1 / 2 ^ Suc j" by (simp add: field_simps)
  have "log_value (Suc j) (l', r') - log_value j (l, r) =
      (tick_log (real r') - (2 * tick_log (real r) - (127 + real f) * log2_ticks)) / 2 ^ Suc j"
  proof -
    have "of_int l' / 2 ^ 64 = of_int l / 2 ^ 64 + real f * (2 ^ i / 2 ^ 64)" by (simp add: f(1) add_divide_distrib)
    then have "of_int l' / 2 ^ 64 = of_int l / 2 ^ 64 + real f * (1 / (2 * 2 ^ j))" by (simp only: p power_Suc)
    then show ?thesis unfolding log_value_def fst_conv snd_conv power_Suc by (rule log_value_algebra) simp
  qed
  also have "\<bar>\<dots>\<bar> \<le> (1 / 2 ^ 100) / 2 ^ Suc j" 
    using divide_right_mono[OF e, of "2 ^ Suc j"] by (simp only: abs_divide power_abs abs_numeral) simp
  also have "\<dots> \<le> (1 / 2 ^ 100) / 1" using one_le_power[of "2 :: real" "Suc j"] by (intro divide_left_mono) (simp_all del: power_Suc)
  finally have "\<bar>log_value (Suc j) (l', r') - log_value j (l, r)\<bar> \<le> 1 / 2 ^ 100" by simp
  from abs_chain[OF this v] have "\<bar>log_value (Suc j) (l', r') - v\<bar> \<le> real (Suc j) / 2 ^ 100"
    by (simp add: add_divide_distrib)
  moreover have "2 ^ i dvd l'" using l unfolding f(1) by (intro dvd_add) (auto dest: dvd_trans[rotated] simp: power_Suc)
  ultimately show ?thesis using f(2,3) unfolding log_inv_def s' fst_conv snd_conv i(2) by (intro conjI)
qed

lemma log_loop:
  assumes "log_inv 0 v s"
  shows "log_inv 14 v (log_step 50 (fold log_step (rev [51..<64]) s))"
proof -
  have e: "rev [51..<64] = [63, 62, 61, 60, 59, 58, 57, 56, 55, 54, 53, 52, 51 :: nat]" by (simp add: upt_rec)
  have step: "log_inv k v (log_step i s)" if "log_inv j v s" "k = Suc j" "j < 64" "i = 63 - j" for i j k s
    using log_inv_step that by simp
  show ?thesis unfolding e fold.simps comp_apply id_apply
    by (rule step, rule step, rule step, rule step, rule step, rule step, rule step, rule step, rule step, rule step, rule step,
        rule step, rule step, rule step, rule assms) (simp_all, simp_all)
qed

text \<open>The normalised ratio starts the loop at the logarithm of the price.\<close>

lemma shifted_log:
  assumes "2 ^ 64 \<le> ratio" "ratio < 2 ^ 192" "msb = most_significant_bit ratio"
    and "r = (if msb \<ge> 128 then ratio div 2 ^ (msb - 127) else (ratio * 2 ^ (127 - msb)) mod 2 ^ 256)"
  shows "2 ^ 127 \<le> r" "r < 2 ^ 128" "64 \<le> msb" "msb < 192"
    "\<bar>tick_log (real r) - (tick_log (real ratio) + (127 - real msb) * log2_ticks)\<bar> \<le> 1 / 2 ^ 100"
proof -
  have m: "2 ^ msb \<le> ratio" "ratio < 2 ^ Suc msb"
    unfolding assms(3) by (rule most_significant_bit; use assms(1,2) in simp)+
  show m64: "64 \<le> msb" using less_le_trans[of ratio "2 ^ Suc msb" "2 ^ 64"] m(2) assms(1) power_increasing_iff[of "2::nat" "Suc msb" 64]
    by (simp add: not_less[symmetric])
  show m192: "msb < 192" using m(1) assms(2) power_increasing_iff[of "2::nat" 192 msb] by (meson le_less_trans not_le one_less_numeral_iff order.strict_trans1 semiring_norm(76))
  have rat0: "0 < real ratio" using assms(1) by simp
  consider "128 \<le> msb" | "msb < 128" by linarith
  then show "2 ^ 127 \<le> r" "r < 2 ^ 128" "\<bar>tick_log (real r) - (tick_log (real ratio) + (127 - real msb) * log2_ticks)\<bar> \<le> 1 / 2 ^ 100"
  proof (atomize (full), cases)
    case 1
    define k where "k = msb - 127"
    have k: "msb = 127 + k" "Suc msb = 128 + k" "r = ratio div 2 ^ k" using 1 assms(4) by (simp_all add: k_def)
    have b: "2 ^ 127 \<le> r" "r < 2 ^ 128"
      using m(1)[unfolded k(1) power_add] m(2)[unfolded k(2) power_add] unfolding k(3)
      by (simp_all add: less_eq_div_iff_mult_less_eq less_mult_imp_div_less)
    have "real (2 ^ 127) \<le> real r" using b(1) by (simp only: of_nat_le_iff)
    then have z: "2 ^ (126 + 1) \<le> real ratio / real (2 ^ k)" using real_div_bounds(2)[of "2 ^ k" ratio] unfolding k by simp
    have F: "tick_log (real ratio / real (2 ^ k)) - 2 ^ 15 / 2 ^ 126 \<le> tick_log (real r)" "tick_log (real r) \<le> tick_log (real ratio / real (2 ^ k))"
      unfolding k(3) by (rule tick_log_floor[OF z real_div_bounds]; simp)+
    moreover have "tick_log (real ratio / real (2 ^ k)) = tick_log (real ratio) + (127 - real msb) * log2_ticks"
      using rat0 tick_log_pow2[of k] by (simp add: tick_log_div k(1))
    moreover have "2 ^ 15 / 2 ^ 126 \<le> 1 / (2 ^ 100 :: real)" "0 \<le> 1 / (2 ^ 100 :: real)" by simp_all
    ultimately have "\<bar>tick_log (real r) - (tick_log (real ratio) + (127 - real msb) * log2_ticks)\<bar> \<le> 1 / 2 ^ 100"
      unfolding abs_le_iff by linarith
    with b show "2 ^ 127 \<le> r \<and> r < 2 ^ 128 \<and> \<bar>tick_log (real r) - (tick_log (real ratio) + (127 - real msb) * log2_ticks)\<bar> \<le> 1 / 2 ^ 100" by blast
  next
    case 2
    define k where "k = 127 - msb"
    have k: "127 = msb + k" "128 = Suc msb + k" using 2 by (simp_all add: k_def)
    have b: "2 ^ 127 \<le> ratio * 2 ^ k" "ratio * 2 ^ k < 2 ^ 128" using m unfolding k power_add by simp_all
    from b(2) have "ratio * 2 ^ k < 2 ^ 256" by (rule less_trans) simp
    then have r: "r = ratio * 2 ^ k" using 2 assms(4) by (simp add: k_def)
    have "tick_log (real r) = tick_log (real ratio) + (127 - real msb) * log2_ticks"
      using rat0 tick_log_pow2[of k] 2 by (simp add: r tick_log_mult k_def of_nat_diff)
    with b r show "2 ^ 127 \<le> r \<and> r < 2 ^ 128 \<and> \<bar>tick_log (real r) - (tick_log (real ratio) + (127 - real msb) * log2_ticks)\<bar> \<le> 1 / 2 ^ 100" by simp
  qed
qed

section \<open>The estimate of the tick\<close>

lemma sqrt_10001_close: "\<bar>of_int SQRT_10001 / 2 ^ 64 - log2_ticks\<bar> \<le> 12 / 10000"
proof -
  have "of_int SQRT_10001 / 2 ^ 64 \<le> (1386363675 / 100000 :: real)" "(1386363674 / 100000 :: real) \<le> of_int SQRT_10001 / 2 ^ 64"
    by (simp_all add: SQRT_10001_def from_limbs_def)
  then show ?thesis using log2_ticks_bounds unfolding abs_le_iff by simp
qed

lemma as_i256_small: "\<bar>x\<bar> < 2 ^ 255 \<Longrightarrow> as_i256 x = x"
  unfolding as_i256_def by (simp add: mod_pos_pos_trivial abs_less_iff)

lemma i256_saturate_small: "\<bar>x\<bar> < 2 ^ 255 \<Longrightarrow> i256_saturate x = x"
  by (simp add: i256_saturate_def clamp_def abs_less_iff)

lemma as_i32_small: "\<bar>x\<bar> < 2 ^ 31 \<Longrightarrow> as_i32 x = x"
  unfolding as_i32_def by (simp add: mod_pos_pos_trivial abs_less_iff)

text \<open>The change of base keeps the error below one tick.\<close>

lemma change_of_base:
  fixes c d :: real
  assumes y: "of_int t - 1 / 2 ^ 16 \<le> y" "y \<le> of_int t + 1 + 1 / 2 ^ 16" and t: "\<bar>t\<bar> \<le> 887272"
    and l: "y - log2_ticks / 2 ^ 14 - 1 / 2 ^ 80 \<le> of_int l / 2 ^ 64 * log2_ticks" "of_int l / 2 ^ 64 * log2_ticks \<le> y + 1 / 2 ^ 80"
    and c: "0 \<le> c" "c < 857 / 1000" "d = 0 \<and> c \<ge> 856 / 1000 \<or> c = 0 \<and> 0 \<le> d \<and> d \<le> 11 / 1000"
    and q: "of_int q \<le> of_int (l * SQRT_10001) / 2 ^ 128 + c - d" "of_int (l * SQRT_10001) / 2 ^ 128 + c - d < of_int q + 1"
  shows "t - 1 \<le> q \<and> q \<le> t + 1 \<and> \<bar>l\<bar> \<le> 65 * 2 ^ 64"
proof -
  have m: "13863 \<le> log2_ticks" "log2_ticks \<le> 13864" using log2_ticks_bounds by simp_all
  have "\<bar>of_int l / 2 ^ 64 * log2_ticks\<bar> \<le> 887276" using y t l m unfolding abs_le_iff by simp
  then have "\<bar>of_int l / 2 ^ 64\<bar> * 13863 \<le> (887276 :: real)"
    using m mult_left_mono[of 13863 log2_ticks "\<bar>of_int l / 2 ^ 64\<bar>"] by (simp add: abs_mult)
  then have L: "\<bar>of_int l / 2 ^ 64\<bar> \<le> (65 :: real)" by simp
  then have "\<bar>of_int l\<bar> \<le> real_of_int (65 * 2 ^ 64)" by simp
  then have l65: "\<bar>l\<bar> \<le> 65 * 2 ^ 64" by (simp only: of_int_abs[symmetric] of_int_le_iff)
  have eq: "of_int (l * SQRT_10001) / 2 ^ 128 - of_int l / 2 ^ 64 * log2_ticks = of_int l / 2 ^ 64 * (of_int SQRT_10001 / 2 ^ 64 - log2_ticks)"
    by (simp add: field_simps)
  have "\<bar>of_int l / 2 ^ 64 * (of_int SQRT_10001 / 2 ^ 64 - log2_ticks)\<bar> \<le> 65 * (12 / 10000)"
    unfolding abs_mult by (rule mult_mono[OF L sqrt_10001_close]) simp_all
  then have E: "\<bar>of_int (l * SQRT_10001) / 2 ^ 128 - of_int l / 2 ^ 64 * log2_ticks\<bar> \<le> 65 * (12 / 10000)" by (simp only: eq)
  define e where "e = of_int (l * SQRT_10001) / (2 ^ 128 :: real)"
  define k where "k = of_int l / 2 ^ 64 * log2_ticks"
  have "of_int t - 93 / 100 \<le> e" "e \<le> of_int t + 1 + 8 / 100"
    using E y l m unfolding e_def[symmetric] k_def[symmetric] abs_le_iff by simp_all
  then have "of_int t - 2 < real_of_int q" "real_of_int q < of_int t + 2" using q c unfolding e_def[symmetric] by linarith+
  then have "of_int (t - 2) < real_of_int q" "real_of_int q < of_int (t + 2)" by simp_all
  then have "t - 2 < q" "q < t + 2" by (simp_all only: of_int_less_iff)
  with l65 show ?thesis by simp
qed

lemma int_div_bounds: "of_int (x div 2 ^ 128) \<le> of_int x / (2 ^ 128 :: real)" "of_int x / (2 ^ 128 :: real) < of_int (x div 2 ^ 128) + 1"
proof -
  have "x div 2 ^ 128 * 2 ^ 128 \<le> x" "x < (x div 2 ^ 128 + 1) * 2 ^ 128"
    using pos_mod_bound[of "2 ^ 128" x] pos_mod_sign[of "2 ^ 128" x] div_mult_mod_eq[of x "2 ^ 128"] by simp_all
  then have "real_of_int (x div 2 ^ 128 * 2 ^ 128) \<le> of_int x" "of_int x < real_of_int ((x div 2 ^ 128 + 1) * 2 ^ 128)"
    by (simp_all only: of_int_le_iff of_int_less_iff)
  then show "of_int (x div 2 ^ 128) \<le> of_int x / (2 ^ 128 :: real)" "of_int x / (2 ^ 128 :: real) < of_int (x div 2 ^ 128) + 1"
    by (simp_all add: field_simps)
qed

definition tick_estimates :: "nat \<Rightarrow> int \<times> int" where
  "tick_estimates x =
     (let ratio = (x * 2 ^ 32) mod 2 ^ 256;
         msb = most_significant_bit ratio;
         r = (if msb \<ge> 128 then ratio div 2 ^ (msb - 127) else (ratio * 2 ^ (127 - msb)) mod 2 ^ 256);
         (log_2, r) = log_step 50 (fold log_step (rev [51..<64]) ((int msb - 128) * 2 ^ 64, r));
         log_sqrt10001 = as_i256 (log_2 * SQRT_10001)
      in (as_i32 (i256_saturate (log_sqrt10001 - TICK_LOW) div 2 ^ 128), as_i32 (i256_saturate (log_sqrt10001 + TICK_HIGH) div 2 ^ 128)))"

lemma get_tick_at_sqrt_ratio_eq:
  "get_tick_at_sqrt_ratio x = ensure (MIN_SQRT_RATIO \<le> x \<and> x < MAX_SQRT_RATIO) SqrtPriceOutOfBounds
     (case tick_estimates x of (tick_low, tick_high) \<Rightarrow>
        if tick_low = tick_high then Inr tick_low
        else and_then (get_sqrt_ratio_at_tick tick_high) (\<lambda>price. Inr (if price \<le> x then tick_high else tick_low)))"
  by (simp only: get_tick_at_sqrt_ratio_def tick_estimates_def Let_def split_beta prod.collapse fst_conv snd_conv)

text \<open>The logarithm of the price that the loop computes.\<close>

lemma log_2_correct:
  assumes "2 ^ 32 \<le> x" "x < 2 ^ 160" "ratio = (x * 2 ^ 32) mod 2 ^ 256" "msb = most_significant_bit ratio"
    and "r = (if msb \<ge> 128 then ratio div 2 ^ (msb - 127) else (ratio * 2 ^ (127 - msb)) mod 2 ^ 256)"
    and "log_step 50 (fold log_step (rev [51..<64]) ((int msb - 128) * 2 ^ 64, r)) = (l, r')"
  shows "tick_log (real x) - 96 * log2_ticks - log2_ticks / 2 ^ 14 - 1 / 2 ^ 80 \<le> of_int l / 2 ^ 64 * log2_ticks"
    "of_int l / 2 ^ 64 * log2_ticks \<le> tick_log (real x) - 96 * log2_ticks + 1 / 2 ^ 80"
proof -
  have rat: "ratio = x * 2 ^ 32" "2 ^ 64 \<le> ratio" "ratio < 2 ^ 192" using assms(1-3) by simp_all
  note sh = shifted_log[OF rat(2,3) assms(4,5)]
  define v where "v = log_value 0 ((int msb - 128) * 2 ^ 64, r)"
  have "log_inv 0 v ((int msb - 128) * 2 ^ 64, r)" using sh(1,2) by (simp add: log_inv_def v_def)
  from log_loop[OF this] have li: "2 ^ 127 \<le> r'" "r' < 2 ^ 128" "\<bar>log_value 14 (l, r') - v\<bar> \<le> 14 / 2 ^ 100"
    unfolding assms(6) log_inv_def fst_conv snd_conv by simp_all
  have "v = (real msb - 255) * log2_ticks + tick_log (real r)" by (simp add: v_def log_value_def field_simps)
  moreover have "tick_log (real ratio) = tick_log (real x) + 32 * log2_ticks"
    using assms(1) tick_log_pow2[of 32] by (simp add: rat(1) tick_log_mult)
  ultimately have "v - (tick_log (real x) - 96 * log2_ticks) = tick_log (real r) - (tick_log (real ratio) + (127 - real msb) * log2_ticks)"
    by (simp add: algebra_simps)
  with sh(5) have v: "\<bar>v - (tick_log (real x) - 96 * log2_ticks)\<bar> \<le> 1 / 2 ^ 100" by (simp only:)
  have "real (2 ^ 127) \<le> real r'" "real r' \<le> real (2 ^ 128)" using li(1) less_imp_le[OF li(2)] by (simp_all only: of_nat_le_iff)
  then have r': "127 * log2_ticks \<le> tick_log (real r')" "tick_log (real r') \<le> 128 * log2_ticks"
    using tick_log_mono[of "2 ^ 127" "real r'"] tick_log_mono[of "real r'" "2 ^ 128"] tick_log_pow2[of 127] tick_log_pow2[of 128] by simp_all
  define w where "w = (tick_log (real r') - 127 * log2_ticks) / 2 ^ 14"
  have w: "0 \<le> w" "w \<le> log2_ticks / 2 ^ 14" using r' unfolding w_def by simp_all
  define u where "u = of_int l / 2 ^ 64 * log2_ticks"
  have lv: "log_value 14 (l, r') = u + w" by (simp add: log_value_def w_def u_def)
  have k: "14 / 2 ^ 100 + 1 / 2 ^ 100 \<le> 1 / (2 ^ 80 :: real)" by simp
  show "tick_log (real x) - 96 * log2_ticks - log2_ticks / 2 ^ 14 - 1 / 2 ^ 80 \<le> of_int l / 2 ^ 64 * log2_ticks"
    "of_int l / 2 ^ 64 * log2_ticks \<le> tick_log (real x) - 96 * log2_ticks + 1 / 2 ^ 80"
    using li(3) v w k unfolding lv u_def[symmetric] by linarith+
qed

lemma tick_price_ends: "tick_price 887272 = MAX_SQRT_RATIO" "tick_price (- 887272) = MIN_SQRT_RATIO"
  by (simp_all add: tick_price_def tick_ratio_def sqrt_ratio_last ceil_shift_def u256_max_def MAX_SQRT_RATIO_def MIN_SQRT_RATIO_def from_limbs_def)

lemma tick_price_le_MAX: "- 887272 \<le> t \<Longrightarrow> t \<le> 887272 \<Longrightarrow> tick_price t \<le> MAX_SQRT_RATIO"
  using tick_price_less[of t 887272] by (cases "t = 887272") (auto simp: tick_price_ends)

lemma tick_estimates_close:
  assumes t: "- 887272 \<le> t" "t < 887272" and x: "tick_price t \<le> x" "x < tick_price (t + 1)"
  shows "t - 1 \<le> fst (tick_estimates x) \<and> fst (tick_estimates x) \<le> t + 1 \<and>
    t - 1 \<le> snd (tick_estimates x) \<and> snd (tick_estimates x) \<le> t + 1"
proof -
  have tb: "\<bar>t\<bar> \<le> 887272" "\<bar>t + 1\<bar> \<le> 887272" using t by simp_all
  define ratio where "ratio = (x * 2 ^ 32) mod 2 ^ 256"
  define msb where "msb = most_significant_bit ratio"
  define r where "r = (if msb \<ge> 128 then ratio div 2 ^ (msb - 127) else (ratio * 2 ^ (127 - msb)) mod 2 ^ 256)"
  obtain l r' where run: "log_step 50 (fold log_step (rev [51..<64]) ((int msb - 128) * 2 ^ 64, r)) = (l, r')" by (meson surj_pair)
  have x32: "2 ^ 32 \<le> x" using tick_price_ge[OF tb(1)] x(1) by linarith
  have "x < MAX_SQRT_RATIO" using x(2) tick_price_le_MAX[of "t + 1"] t by simp
  then have x160: "x < 2 ^ 160" by (rule less_trans) (simp add: MAX_SQRT_RATIO_def from_limbs_def)
  let ?y = "tick_log (real x) - 96 * log2_ticks"
  have p0: "0 < real (tick_price t)" "0 < real x" using tick_price_ge[OF tb(1)] x32 by simp_all
  have y: "of_int t - 1 / 2 ^ 16 \<le> ?y" "?y \<le> of_int t + 1 + 1 / 2 ^ 16"
    using tick_price_log[OF tb(1)] tick_price_log[OF tb(2)] tick_log_mono[OF p0(1), of "real x"]
      tick_log_mono[OF p0(2), of "real (tick_price (t + 1))"] x unfolding abs_le_iff by simp_all
  note L = log_2_correct[OF x32 x160 ratio_def msb_def r_def run]
  let ?lo = "(l * SQRT_10001 - TICK_LOW) div 2 ^ 128" and ?hi = "(l * SQRT_10001 + TICK_HIGH) div 2 ^ 128"
  have c: "of_int TICK_LOW / 2 ^ 128 \<le> (11 / 1000 :: real)" "(0 :: real) \<le> of_int TICK_LOW / 2 ^ 128"
      "of_int TICK_HIGH / 2 ^ 128 < (857 / 1000 :: real)" "(856 / 1000 :: real) \<le> of_int TICK_HIGH / 2 ^ 128"
    by (simp_all add: TICK_LOW_def TICK_HIGH_def from_limbs_def)
  have lo: "t - 1 \<le> ?lo \<and> ?lo \<le> t + 1 \<and> \<bar>l\<bar> \<le> 65 * 2 ^ 64"
    using int_div_bounds[of "l * SQRT_10001 - TICK_LOW"] c
    by (intro change_of_base[OF y tb(1) L, of 0 "of_int TICK_LOW / 2 ^ 128"]) (simp_all add: diff_divide_distrib)
  have hi: "t - 1 \<le> ?hi \<and> ?hi \<le> t + 1 \<and> \<bar>l\<bar> \<le> 65 * 2 ^ 64"
    using int_div_bounds[of "l * SQRT_10001 + TICK_HIGH"] c
    by (intro change_of_base[OF y tb(1) L, of "of_int TICK_HIGH / 2 ^ 128" 0]) (simp_all add: add_divide_distrib)
  have "\<bar>l * SQRT_10001\<bar> \<le> 65 * 2 ^ 64 * 2 ^ 80" unfolding abs_mult
    using lo by (intro mult_mono) (simp_all add: SQRT_10001_def from_limbs_def)
  then have b: "\<bar>l * SQRT_10001\<bar> < 2 ^ 255" "\<bar>l * SQRT_10001 - TICK_LOW\<bar> < 2 ^ 255" "\<bar>l * SQRT_10001 + TICK_HIGH\<bar> < 2 ^ 255"
    unfolding abs_less_iff abs_le_iff by (simp_all add: TICK_LOW_def TICK_HIGH_def from_limbs_def)
  have i: "\<bar>?lo\<bar> < 2 ^ 31" "\<bar>?hi\<bar> < 2 ^ 31" unfolding abs_less_iff using lo hi t by simp_all
  have "tick_estimates x = (?lo, ?hi)"
    unfolding tick_estimates_def Let_def ratio_def[symmetric] msb_def[symmetric] r_def[symmetric] run prod.case
      as_i256_small[OF b(1)] i256_saturate_small[OF b(2)] i256_saturate_small[OF b(3)] as_i32_small[OF i(1)] as_i32_small[OF i(2)] ..
  with lo hi show ?thesis by simp
qed

section \<open>The tick of a price\<close>

lemma tick_of_price_exists:
  assumes "MIN_SQRT_RATIO \<le> x" "x < MAX_SQRT_RATIO"
  obtains t where "- 887272 \<le> t" "t < 887272" "tick_price t \<le> x" "x < tick_price (t + 1)"
proof -
  let ?A = "{t \<in> {- 887272..887272}. tick_price t \<le> x}"
  have "finite ?A" by (rule finite_subset[of _ "{- 887272..887272}"]) auto
  moreover have "- 887272 \<in> ?A" using assms(1) by (simp add: tick_price_ends)
  then have "?A \<noteq> {}" by blast
  ultimately have m: "Max ?A \<in> ?A" by (rule Max_in)
  then have "Max ?A \<noteq> 887272" using assms(2) tick_price_ends(1) by auto
  with m have "Max ?A < 887272" by auto
  moreover have "Max ?A + 1 \<notin> ?A" using Max_ge[OF \<open>finite ?A\<close>, of "Max ?A + 1"] by linarith
  ultimately show thesis using m by (intro that[of "Max ?A"]) auto
qed

lemma u64f64_q96: "p < 2 ^ 128 \<Longrightarrow> u64f64_to_u256_q64_96 p = p * 2 ^ 32"
  by (simp add: u64f64_to_u256_q64_96_def u64f64_to_u256_def sat_mul_def u256_max_def)

lemma tick_price_unique:
  assumes "- 887272 \<le> t" "t < 887272" "tick_price t \<le> x" "x < tick_price (t + 1)"
    and "- 887272 \<le> u" "u < 887272" "tick_price u \<le> x" "x < tick_price (u + 1)"
  shows "t = u"
proof -
  have le: "tick_price a \<le> tick_price b" if "a \<le> b" "- 887272 \<le> a" "b \<le> 887272" for a b
    using tick_price_less[of a b] that by (cases "a = b") auto
  show ?thesis
  proof (cases t u rule: linorder_cases)
    case less
    then show ?thesis using le[of "t + 1" u] assms by simp
  next
    case greater
    then show ?thesis using le[of "u + 1" t] assms by simp
  qed
qed

lemma get_tick_at_sqrt_ratio_close:
  assumes "- 887272 \<le> t" "t < 887272" "tick_price t \<le> x" "x < tick_price (t + 1)"
  shows "get_tick_at_sqrt_ratio x = Inr e \<Longrightarrow> t - 1 \<le> e \<and> e \<le> t + 1"
    and "- 887270 \<le> t \<Longrightarrow> t < 887270 \<Longrightarrow> \<exists>e. get_tick_at_sqrt_ratio x = Inr e"
proof -
  obtain lo hi where est: "tick_estimates x = (lo, hi)" by (meson surj_pair)
  have close: "t - 1 \<le> lo" "lo \<le> t + 1" "t - 1 \<le> hi" "hi \<le> t + 1" using tick_estimates_close[OF assms] by (simp_all add: est)
  then show "get_tick_at_sqrt_ratio x = Inr e \<Longrightarrow> t - 1 \<le> e \<and> e \<le> t + 1"
    by (auto simp: get_tick_at_sqrt_ratio_eq est split: if_splits)
  have "MIN_SQRT_RATIO \<le> tick_price t" using tick_price_less[of "- 887272" t] assms by (cases "t = - 887272") (auto simp: tick_price_ends)
  then have "MIN_SQRT_RATIO \<le> x" "x < MAX_SQRT_RATIO" using assms tick_price_le_MAX[of "t + 1"] by auto
  then show "- 887270 \<le> t \<Longrightarrow> t < 887270 \<Longrightarrow> \<exists>e. get_tick_at_sqrt_ratio x = Inr e"
    using close by (auto simp: get_tick_at_sqrt_ratio_eq est sqrt_ratio_at_tick)
qed

text \<open>The corrections turn an estimate that is off by at most one into the tick.\<close>

lemma try_from_sqrt_price_eq:
  assumes p: "p < 2 ^ 128" and t: "- 887270 \<le> t" "t < 887270" and x: "tick_price t \<le> p * 2 ^ 32" "p * 2 ^ 32 < tick_price (t + 1)"
  shows "try_from_sqrt_price p = tick_new t"
proof -
  define z where "z = p * 2 ^ 32"
  obtain e where e: "get_tick_at_sqrt_ratio z = Inr e" "t - 1 \<le> e" "e \<le> t + 1"
    using get_tick_at_sqrt_ratio_close[of t z] t x by (fastforce simp: z_def)
  have z: "u64f64_to_u256_q64_96 p = z" using u64f64_q96[OF p] by (simp add: z_def)
  consider "e = t - 1" | "e = t" | "e = t + 1" using e by linarith
  then show ?thesis
    using t x[folded z_def] tick_price_less_Suc[of "t - 1"]
    by cases (simp_all add: try_from_sqrt_price_def Let_def z e(1) sqrt_ratio_at_tick i32_saturating_add_def
        i32_saturating_sub_def clamp_def i32_min_def i32_max_def abs_le_iff)
qed

lemma try_from_sqrt_price_tick:
  assumes p: "p < 2 ^ 128" and run: "try_from_sqrt_price p = Inr u"
  shows "valid_tick u \<and> tick_price u \<le> p * 2 ^ 32 \<and> p * 2 ^ 32 < tick_price (u + 1)"
proof -
  define z where "z = p * 2 ^ 32"
  have z: "u64f64_to_u256_q64_96 p = z" using u64f64_q96[OF p] by (simp add: z_def)
  obtain e v where e: "get_tick_at_sqrt_ratio z = Inr e" and v: "tick_new v = Inr u" "v = i32_saturating_sub e 1 \<or> v = i32_saturating_add e 1 \<or> v = e"
    using run by (auto simp: try_from_sqrt_price_def Let_def z split: if_splits)
  have "MIN_SQRT_RATIO \<le> z" "z < MAX_SQRT_RATIO" using e by (simp_all add: get_tick_at_sqrt_ratio_eq)
  then obtain t where t: "- 887272 \<le> t" "t < 887272" "tick_price t \<le> z" "z < tick_price (t + 1)" by (rule tick_of_price_exists)
  have "t - 1 \<le> e \<and> e \<le> t + 1" by (rule get_tick_at_sqrt_ratio_close(1)[OF t e])
  moreover have "u = v" "- 443636 \<le> v" "v \<le> 443636" using v(1) by (simp_all add: tick_new_def split: if_splits)
  ultimately have "- 887270 \<le> t" "t < 887270" using v(2) t(1,2)
    by (auto simp: i32_saturating_add_def i32_saturating_sub_def clamp_def i32_min_def i32_max_def)
  from try_from_sqrt_price_eq[OF p this t(3,4)[unfolded z_def]] run have "t = u" "valid_tick u"
    by (simp_all add: tick_new_def valid_tick_def split: if_splits)
  with t show ?thesis by (simp add: z_def)
qed

lemma try_to_sqrt_price_eq:
  assumes "valid_tick t"
  shows "try_to_sqrt_price t = Inr (ceil_shift (tick_price t)) \<and> ceil_shift (tick_price t) < 2 ^ 128"
proof -
  have t: "- 443636 \<le> t" "t \<le> 443636" using assms by (simp_all add: valid_tick_def)
  then have "tick_price t \<le> MAX_SQRT_RATIO" by (intro tick_price_le_MAX) simp_all
  then have "ceil_shift (tick_price t) \<le> ceil_shift MAX_SQRT_RATIO" unfolding ceil_shift_def by (intro div_le_mono) simp
  also have "\<dots> < 2 ^ 128" by (simp add: ceil_shift_def MAX_SQRT_RATIO_def from_limbs_def)
  finally have b: "ceil_shift (tick_price t) < 2 ^ 128" .
  have "q_to_u64f64 x 96 = ensure (ceil_shift x div 2 ^ 128 = 0) Overflow (Inr (ceil_shift x))" if "ceil_shift x < 2 ^ 128" for x
  proof -
    have "x div 2 ^ 32 + 1 \<le> u256_max" using that ceil_shift_bounds(2)[of x] by (simp add: u256_max_def)
    then show ?thesis unfolding q_to_u64f64_def Let_def ceil_shift_eq by (simp add: sat_mul_def sat_add_def u256_max_def)
  qed
  with b t show ?thesis by (simp add: try_to_sqrt_price_def sqrt_ratio_at_tick u256_q64_96_to_u64f64_def div_less)
qed

lemma tick_price_wide: "valid_tick t \<Longrightarrow> tick_price t + 2 ^ 32 \<le> tick_price (t + 1)"
proof -
  assume v: "valid_tick t"
  have "tick_price (- 443636) = 18447090764788882728" by (simp add: tick_price_def tick_ratio_def sqrt_ratio_def tick_factor_defs ceil_shift_def)
  then have "18447090764788882728 \<le> tick_price t" using tick_price_less[of "- 443636" t] v by (cases "t = - 443636") (auto simp: valid_tick_def)
  with tick_price_step[of t] v show ?thesis by (simp add: valid_tick_def)
qed

lemma price_of_tick_back: "valid_tick t \<Longrightarrow> try_from_sqrt_price (ceil_shift (tick_price t)) = Inr t"
proof -
  assume v: "valid_tick t"
  have "try_from_sqrt_price (ceil_shift (tick_price t)) = tick_new t"
    using v ceil_shift_bounds[of "tick_price t"] tick_price_wide[OF v] try_to_sqrt_price_eq[OF v]
    by (intro try_from_sqrt_price_eq) (auto simp: valid_tick_def)
  then show ?thesis using v by (simp add: tick_new_def valid_tick_def)
qed

text \<open>C9. The tick of a price is exact. For every price (a \<open>U64F64\<close> by its bits), \<open>try_from_sqrt_price\<close> returns a tick exactly
  when it is a valid tick whose price is at most the given one and whose successor's price is
  greater; the error of the logarithm never shows. The price of a valid tick converts back to
  that tick.\<close>

theorem tick_of_price_exact:
  assumes "p < 2 ^ 128"
  shows "(try_from_sqrt_price p = Inr t \<longleftrightarrow> valid_tick t \<and>
      (\<exists>a b. get_sqrt_ratio_at_tick t = Inr a \<and> get_sqrt_ratio_at_tick (t + 1) = Inr b \<and> a \<le> p * 2 ^ 32 \<and> p * 2 ^ 32 < b)) \<and>
    (valid_tick t \<longrightarrow> (\<exists>q. try_to_sqrt_price t = Inr q \<and> q < 2 ^ 128 \<and> try_from_sqrt_price q = Inr t))"
proof (intro conjI impI iffI)
  assume "try_from_sqrt_price p = Inr t"
  from try_from_sqrt_price_tick[OF assms this] show "valid_tick t"
    and "\<exists>a b. get_sqrt_ratio_at_tick t = Inr a \<and> get_sqrt_ratio_at_tick (t + 1) = Inr b \<and> a \<le> p * 2 ^ 32 \<and> p * 2 ^ 32 < b"
    by (auto simp: sqrt_ratio_at_tick valid_tick_def)
next
  assume "valid_tick t \<and>
      (\<exists>a b. get_sqrt_ratio_at_tick t = Inr a \<and> get_sqrt_ratio_at_tick (t + 1) = Inr b \<and> a \<le> p * 2 ^ 32 \<and> p * 2 ^ 32 < b)"
  then show "try_from_sqrt_price p = Inr t"
    using try_from_sqrt_price_eq[OF assms, of t] by (auto simp: sqrt_ratio_at_tick valid_tick_def tick_new_def split: if_splits)
next
  assume "valid_tick t"
  then show "\<exists>q. try_to_sqrt_price t = Inr q \<and> q < 2 ^ 128 \<and> try_from_sqrt_price q = Inr t"
    using try_to_sqrt_price_eq[of t] price_of_tick_back[of t] by blast
qed

theorem tick_of_price_exact_witness:
  "try_from_sqrt_price (2 ^ 64) = Inr 0 \<and> (\<exists>q. try_to_sqrt_price 0 = Inr q \<and> try_from_sqrt_price q = Inr 0)"
proof -
  have p: "tick_price 0 = 2 ^ 96" "2 ^ 96 < tick_price 1"
    by (simp_all add: tick_price_def tick_ratio_def sqrt_ratio_def tick_factor_defs ceil_shift_def u256_max_def)
  then show ?thesis using tick_of_price_exact[of "2 ^ 64" 0] by (simp add: sqrt_ratio_at_tick valid_tick_def) blast
qed

end
