(* ===== verification/Share_Pool.thy ===== *)
theory Share_Pool
  imports Storage
begin

text \<open>
  The share pool (\<open>primitives/share-pool/src/lib.rs\<close>) that divides a hotkey's alpha on a subnet
  among its stakers, and its data layer \<open>HotkeyAlphaSharePoolDataOperations\<close>
  (\<open>pallets/subtensor/src/staking/stake_utils.rs\<close>). The trait \<open>SharePoolDataOperations\<close> is the
  record \<open>share_ops\<close>, on a state \<open>'s\<close>; its laws are the locale \<open>share_store\<close>.

  The fixed-point types of the crate \<open>substrate-fixed\<close> are parameters: the record \<open>ufixed\<close> has the
  operations of an unsigned type of 128 bits, \<open>pool_fixed\<close> adds the signed type and the
  conversions. \<open>fbits\<close> is \<open>to_bits\<close>; comparisons of numbers are comparisons of their bits. What is
  relied on is the documented meaning of the unsigned operations, the predicate \<open>ufixed_ok\<close>: they
  are the exact ones, rounded down and kept in range.
\<close>

section \<open>Fixed-point numbers\<close>

record 'f ufixed =
  fbits :: "'f \<Rightarrow> nat"
  of_u64 :: "nat \<Rightarrow> 'f"
  f_add :: "'f \<Rightarrow> 'f \<Rightarrow> 'f"
  f_sub :: "'f \<Rightarrow> 'f \<Rightarrow> 'f"
  f_mul :: "'f \<Rightarrow> 'f \<Rightarrow> 'f"
  f_div :: "'f \<Rightarrow> 'f \<Rightarrow> 'f option"
  to_u64 :: "'f \<Rightarrow> nat"

record ('u, 'i) pool_fixed = "'u ufixed" +
  u_of_i64 :: "int \<Rightarrow> 'u"
  u_of_i :: "'i \<Rightarrow> 'u"
  i_of_i64 :: "int \<Rightarrow> 'i"
  i_of_u :: "'u \<Rightarrow> 'i"
  i_div :: "'i \<Rightarrow> 'i \<Rightarrow> 'i option"
  i_mul :: "'i \<Rightarrow> 'i \<Rightarrow> 'i"
  i_neg :: "'i \<Rightarrow> 'i"
  i_bits :: "'i \<Rightarrow> int"
  u_hundred_thousandth :: 'u

definition ufixed_ok :: "nat \<Rightarrow> ('f, 'z) ufixed_scheme \<Rightarrow> bool" where
  "ufixed_ok frac fx \<longleftrightarrow>
     (\<forall>x. fbits fx x \<le> u128_max) \<and>
     (\<forall>n \<le> u64_max. fbits fx (of_u64 fx n) = min u128_max (n * 2 ^ frac)) \<and>
     (\<forall>x y. fbits fx (f_add fx x y) = sat_add u128_max (fbits fx x) (fbits fx y)) \<and>
     (\<forall>x y. fbits fx (f_sub fx x y) = fbits fx x - fbits fx y) \<and>
     (\<forall>x y. fbits fx (f_mul fx x y) = min u128_max (fbits fx x * fbits fx y div 2 ^ frac)) \<and>
     (\<forall>x y. map_option (fbits fx) (f_div fx x y) =
        (let q = fbits fx x * 2 ^ frac div fbits fx y
         in if fbits fx y = 0 \<or> u128_max < q then None else Some q)) \<and>
     (\<forall>x. to_u64 fx x = min u64_max (fbits fx x div 2 ^ frac))"

text \<open>The signed operations keep the sign of their arguments.\<close>

definition signs_ok :: "('u, 'i, 'z) pool_fixed_scheme \<Rightarrow> bool" where
  "signs_ok fx \<longleftrightarrow> (\<forall>n. 0 \<le> n \<longrightarrow> 0 \<le> i_bits fx (i_of_i64 fx n)) \<and> (\<forall>x. 0 \<le> i_bits fx (i_of_u fx x)) \<and>
     (\<forall>x y q. i_div fx x y = Some q \<longrightarrow> 0 \<le> i_bits fx x \<longrightarrow> 0 \<le> i_bits fx y \<longrightarrow> 0 \<le> i_bits fx q) \<and>
     (\<forall>x y. 0 \<le> i_bits fx x \<longrightarrow> 0 \<le> i_bits fx y \<longrightarrow> 0 \<le> i_bits fx (i_mul fx x y))"

definition pool_fixed_ok :: "('u, 'i, 'z) pool_fixed_scheme \<Rightarrow> bool" where
  "pool_fixed_ok fx \<longleftrightarrow> ufixed_ok 64 fx \<and> signs_ok fx \<and> 0 < fbits fx (u_hundred_thousandth fx) \<and>
     (\<forall>n. i64_min \<le> n \<and> n \<le> i64_max \<longrightarrow> fbits fx (u_of_i64 fx n) = nat n * 2 ^ 64)"

text \<open>\<open>SafeDiv::safe_div\<close> on a fixed-point type.\<close>

definition f_safe_div :: "('f, 'z) ufixed_scheme \<Rightarrow> 'f \<Rightarrow> 'f \<Rightarrow> 'f" where
  "f_safe_div fx x y = (case f_div fx x y of Some q \<Rightarrow> q | None \<Rightarrow> of_u64 fx 0)"

text \<open>\<open>-x\<close> and \<open>x as i64\<close>, which wrap.\<close>

definition i64_neg :: "int \<Rightarrow> int" where
  "i64_neg x = (if x = i64_min then i64_min else - x)"

definition as_i64 :: "nat \<Rightarrow> int" where
  "as_i64 x = (if x \<le> nat i64_max then int x else int x - 2 ^ 64)"

section \<open>The pool\<close>

record ('k, 'u, 's) share_ops =
  get_shared_value :: "'s \<Rightarrow> 'u"
  get_share :: "'s \<Rightarrow> 'k \<Rightarrow> 'u"
  try_get_share :: "'s \<Rightarrow> 'k \<Rightarrow> 'u option"
  get_denominator :: "'s \<Rightarrow> 'u"
  set_shared_value :: "'u \<Rightarrow> 's \<Rightarrow> 's"
  set_share :: "'k \<Rightarrow> 'u \<Rightarrow> 's \<Rightarrow> 's"
  set_denominator :: "'u \<Rightarrow> 's \<Rightarrow> 's"

definition get_value_from_shares ::
    "('u, 'i, 'z) pool_fixed_scheme \<Rightarrow> ('k, 'u, 's) share_ops \<Rightarrow> 'u \<Rightarrow> 's \<Rightarrow> nat" where
  "get_value_from_shares fx ops current_share s =
     (let shared_value = get_shared_value ops s;
          denominator = get_denominator ops s
      in to_u64 fx (case f_div fx shared_value denominator of
           Some value_per_share \<Rightarrow> f_mul fx value_per_share current_share
         | None \<Rightarrow> f_safe_div fx (f_mul fx shared_value current_share) denominator))"

definition get_value ::
    "('u, 'i, 'z) pool_fixed_scheme \<Rightarrow> ('k, 'u, 's) share_ops \<Rightarrow> 'k \<Rightarrow> 's \<Rightarrow> nat" where
  "get_value fx ops key s =
     (let shared_value = get_shared_value ops s;
          current_share = get_share ops s key;
          denominator = get_denominator ops s
      in to_u64 fx (case f_div fx shared_value denominator of
           Some value_per_share \<Rightarrow> f_mul fx value_per_share current_share
         | None \<Rightarrow> f_safe_div fx (f_mul fx shared_value current_share) denominator))"

definition try_get_value ::
    "('u, 'i, 'z) pool_fixed_scheme \<Rightarrow> ('k, 'u, 's) share_ops \<Rightarrow> 'k \<Rightarrow> 's \<Rightarrow> nat option" where
  "try_get_value fx ops key s =
     (case try_get_share ops s key of Some _ \<Rightarrow> Some (get_value fx ops key s) | None \<Rightarrow> None)"

definition update_value_for_all ::
    "('u, 'i, 'z) pool_fixed_scheme \<Rightarrow> ('k, 'u, 's) share_ops \<Rightarrow> int \<Rightarrow> 's \<Rightarrow> 's" where
  "update_value_for_all fx ops update s =
     (let shared_value = get_shared_value ops s
      in set_shared_value ops
           (if update \<ge> 0 then f_add fx shared_value (u_of_i64 fx update)
            else f_sub fx shared_value (u_of_i64 fx (i64_neg update))) s)"

definition get_shares_per_update ::
    "('u, 'i, 'z) pool_fixed_scheme \<Rightarrow> int \<Rightarrow> 'u \<Rightarrow> 'u \<Rightarrow> 'i" where
  "get_shares_per_update fx update shared_value denominator =
     (case f_div fx shared_value denominator of
        Some value_per_share \<Rightarrow>
          (case i_div fx (i_of_i64 fx update) (i_of_u fx value_per_share) of
             Some q \<Rightarrow> q | None \<Rightarrow> i_of_i64 fx 0)
      | None \<Rightarrow>
          i_mul fx
            (case i_div fx (i_of_i64 fx update) (i_of_u fx shared_value) of
               Some q \<Rightarrow> q | None \<Rightarrow> i_of_i64 fx 0)
            (i_of_u fx denominator))"

definition sim_update_value_for_one ::
    "('u, 'i, 'z) pool_fixed_scheme \<Rightarrow> ('k, 'u, 's) share_ops \<Rightarrow> int \<Rightarrow> 's \<Rightarrow> bool" where
  "sim_update_value_for_one fx ops update s =
     (let shared_value = get_shared_value ops s;
          denominator = get_denominator ops s
      in if fbits fx denominator = 0 then True
         else i_bits fx (get_shares_per_update fx update shared_value denominator) \<noteq> 0)"

definition update_value_for_one ::
    "('u, 'i, 'z) pool_fixed_scheme \<Rightarrow> ('k, 'u, 's) share_ops \<Rightarrow> 'k \<Rightarrow> int \<Rightarrow> 's \<Rightarrow> int \<times> 's" where
  "update_value_for_one fx ops key update s =
     (let shared_value = get_shared_value ops s;
          current_share = get_share ops s key;
          denominator = get_denominator ops s;
          initial_value = as_i64 (get_value fx ops key s);
          (actual_update, s) =
            (if fbits fx denominator = 0
             then let update_fixed = u_of_i64 fx update
                  in (update, set_share ops key update_fixed (set_denominator ops update_fixed s))
             else
               let shares_per_update = get_shares_per_update fx update shared_value denominator
               in if i_bits fx shares_per_update \<ge> 0
                  then (update,
                    set_share ops key (f_add fx current_share (u_of_i fx shares_per_update))
                      (set_denominator ops (f_add fx denominator (u_of_i fx shares_per_update)) s))
                  else
                    let new_denominator = f_sub fx denominator (u_of_i fx (i_neg fx shares_per_update));
                        new_share = f_sub fx current_share (u_of_i fx (i_neg fx shares_per_update))
                    in if fbits fx (f_safe_div fx new_share current_share) < fbits fx (u_hundred_thousandth fx) \<or>
                          f_div fx (f_add fx shared_value (of_u64 fx 2628000000000000)) new_denominator = None
                       then (i64_neg initial_value,
                         set_share ops key (of_u64 fx 0)
                           (set_denominator ops (f_sub fx denominator current_share) s))
                       else (update, set_share ops key new_share (set_denominator ops new_denominator s)))
      in (actual_update, update_value_for_all fx ops actual_update s))"

section \<open>The alpha of the hotkeys\<close>

record ('a, 'u) alpha_state =
  Alpha :: "'a \<Rightarrow> 'a \<Rightarrow> netuid \<Rightarrow> 'u option"
  TotalHotkeyAlpha :: "'a \<Rightarrow> netuid \<Rightarrow> nat option"
  TotalHotkeyShares :: "'a \<Rightarrow> netuid \<Rightarrow> 'u option"

text \<open>\<open>StorageMap::get\<close> with the default zero.\<close>

definition get_alpha :: "('u, 'z) ufixed_scheme \<Rightarrow> ('a, 'u) alpha_state \<Rightarrow> 'a \<Rightarrow> 'a \<Rightarrow> netuid \<Rightarrow> 'u" where
  "get_alpha fx s hotkey coldkey n = (case Alpha s hotkey coldkey n of Some v \<Rightarrow> v | None \<Rightarrow> of_u64 fx 0)"

definition total_hotkey_alpha :: "('a, 'u) alpha_state \<Rightarrow> 'a \<Rightarrow> netuid \<Rightarrow> nat" where
  "total_hotkey_alpha s hotkey n = (case TotalHotkeyAlpha s hotkey n of Some v \<Rightarrow> v | None \<Rightarrow> 0)"

definition total_hotkey_shares :: "('u, 'z) ufixed_scheme \<Rightarrow> ('a, 'u) alpha_state \<Rightarrow> 'a \<Rightarrow> netuid \<Rightarrow> 'u" where
  "total_hotkey_shares fx s hotkey n = (case TotalHotkeyShares s hotkey n of Some v \<Rightarrow> v | None \<Rightarrow> of_u64 fx 0)"

definition hotkey_alpha_ops ::
    "('u, 'i, 'z) pool_fixed_scheme \<Rightarrow> 'a \<Rightarrow> netuid \<Rightarrow> ('a, 'u, ('a, 'u) alpha_state) share_ops" where
  "hotkey_alpha_ops fx hotkey n =
     \<lparr>get_shared_value = (\<lambda>s. of_u64 fx (total_hotkey_alpha s hotkey n)),
      get_share = (\<lambda>s key. get_alpha fx s hotkey key n),
      try_get_share = (\<lambda>s key. Alpha s hotkey key n),
      get_denominator = (\<lambda>s. total_hotkey_shares fx s hotkey n),
      set_shared_value = (\<lambda>v s. s\<lparr>TotalHotkeyAlpha := (TotalHotkeyAlpha s)(hotkey := (TotalHotkeyAlpha s hotkey)
        (n := (if fbits fx v \<noteq> 0 then Some (to_u64 fx v) else None)))\<rparr>),
      set_share = (\<lambda>key v s. s\<lparr>Alpha := (Alpha s)(hotkey := (Alpha s hotkey)(key := (Alpha s hotkey key)
        (n := (if fbits fx v \<noteq> 0 then Some v else None))))\<rparr>),
      set_denominator = (\<lambda>v s. s\<lparr>TotalHotkeyShares := (TotalHotkeyShares s)(hotkey := (TotalHotkeyShares s hotkey)
        (n := (if fbits fx v \<noteq> 0 then Some v else None)))\<rparr>)\<rparr>"

section \<open>Arithmetic of the numbers\<close>

lemma ufixed_okD:
  assumes "ufixed_ok frac fx"
  shows "fbits fx x \<le> u128_max" "n \<le> u64_max \<Longrightarrow> fbits fx (of_u64 fx n) = min u128_max (n * 2 ^ frac)"
    "fbits fx (f_add fx x y) = sat_add u128_max (fbits fx x) (fbits fx y)"
    "fbits fx (f_sub fx x y) = fbits fx x - fbits fx y"
    "fbits fx (f_mul fx x y) = min u128_max (fbits fx x * fbits fx y div 2 ^ frac)"
    "to_u64 fx x = min u64_max (fbits fx x div 2 ^ frac)"
  using assms unfolding ufixed_ok_def by blast+

lemma of_u64_0: "ufixed_ok frac fx \<Longrightarrow> fbits fx (of_u64 fx 0) = 0"
  by (simp add: ufixed_okD(2))

lemma of_u64_to_u64:
  assumes "ufixed_ok 64 fx" "n \<le> u64_max"
  shows "fbits fx (of_u64 fx n) = n * 2 ^ 64" "to_u64 fx (of_u64 fx n) = n"
proof -
  from assms(2) have "n * 2 ^ 64 \<le> u128_max" by (simp add: u64_max_def u128_max_def)
  with assms show "fbits fx (of_u64 fx n) = n * 2 ^ 64" by (simp add: ufixed_okD(2))
  with assms show "to_u64 fx (of_u64 fx n) = n" by (simp add: ufixed_okD(6))
qed

lemma f_div_Some:
  assumes "ufixed_ok frac fx" "f_div fx x y = Some q"
  shows "fbits fx q * fbits fx y \<le> fbits fx x * 2 ^ frac"
proof -
  have "map_option (fbits fx) (f_div fx x y) =
      (let q = fbits fx x * 2 ^ frac div fbits fx y in if fbits fx y = 0 \<or> u128_max < q then None else Some q)"
    using assms(1) unfolding ufixed_ok_def by blast
  with assms(2) have "fbits fx q = fbits fx x * 2 ^ frac div fbits fx y"
    by (simp add: Let_def split: if_splits)
  then show ?thesis by (simp only: div_times_less_eq_dividend)
qed

lemma f_div_0:
  assumes "ufixed_ok frac fx" "fbits fx x = 0"
  shows "fbits fx (f_safe_div fx x y) = 0"
proof -
  have "map_option (fbits fx) (f_div fx x y) =
      (let q = fbits fx x * 2 ^ frac div fbits fx y in if fbits fx y = 0 \<or> u128_max < q then None else Some q)"
    using assms(1) unfolding ufixed_ok_def by blast
  with assms show ?thesis
    by (cases "f_div fx x y") (auto simp: f_safe_div_def of_u64_0 Let_def split: if_splits)
qed

lemma f_safe_div_le:
  assumes "ufixed_ok frac fx"
  shows "fbits fx (f_safe_div fx x y) * fbits fx y \<le> fbits fx x * 2 ^ frac"
  using f_div_Some[OF assms, of x y] of_u64_0[OF assms] by (auto simp: f_safe_div_def split: option.splits)

text \<open>The value of a share is at most its part of the whole, whichever way it is computed.\<close>

lemma share_value_bound:
  assumes ok: "ufixed_ok 64 fx"
  shows "to_u64 fx (case f_div fx v d of Some p \<Rightarrow> f_mul fx p s | None \<Rightarrow> f_safe_div fx (f_mul fx v s) d) * 2 ^ 64 *
      fbits fx d \<le> fbits fx v * fbits fx s"
proof -
  have div: "(a div 2 ^ 64) * 2 ^ 64 \<le> (a::nat)" for a by (rule div_times_less_eq_dividend)
  show ?thesis
  proof (cases "f_div fx v d")
    case None
    let ?q = "fbits fx (f_safe_div fx (f_mul fx v s) d)"
    have "min u64_max (?q div 2 ^ 64) * 2 ^ 64 \<le> ?q" using div[of ?q] by (meson le_trans min.cobounded2 mult_le_mono1)
    then have "min u64_max (?q div 2 ^ 64) * 2 ^ 64 * fbits fx d \<le> ?q * fbits fx d" by (rule mult_le_mono1)
    also have "\<dots> \<le> fbits fx (f_mul fx v s) * 2 ^ 64" by (rule f_safe_div_le[OF ok])
    also have "\<dots> \<le> (fbits fx v * fbits fx s div 2 ^ 64) * 2 ^ 64"
      unfolding ufixed_okD(5)[OF ok] by (intro mult_le_mono1) simp
    also have "\<dots> \<le> fbits fx v * fbits fx s" by (rule div)
    finally show ?thesis using None by (simp only: option.case ufixed_okD(6)[OF ok])
  next
    case (Some p)
    let ?m = "fbits fx (f_mul fx p s)" and ?t = "min u64_max (fbits fx (f_mul fx p s) div 2 ^ 64)"
    have "?t * 2 ^ 64 \<le> ?m" using div[of ?m] by (meson le_trans min.cobounded2 mult_le_mono1)
    then have "?t * 2 ^ 64 * 2 ^ 64 \<le> ?m * 2 ^ 64" by (rule mult_le_mono1)
    also have "\<dots> \<le> (fbits fx p * fbits fx s div 2 ^ 64) * 2 ^ 64"
      unfolding ufixed_okD(5)[OF ok] by (intro mult_le_mono1) simp
    also have "\<dots> \<le> fbits fx p * fbits fx s" by (rule div)
    finally have "?t * 2 ^ 64 * 2 ^ 64 * fbits fx d \<le> fbits fx p * fbits fx s * fbits fx d" by (rule mult_le_mono1)
    also have "\<dots> = fbits fx p * fbits fx d * fbits fx s" by (simp only: ac_simps)
    also have "\<dots> \<le> fbits fx v * 2 ^ 64 * fbits fx s" by (intro mult_le_mono1 f_div_Some[OF ok Some])
    finally have "(?t * 2 ^ 64 * fbits fx d) * 2 ^ 64 \<le> (fbits fx v * fbits fx s) * 2 ^ 64" by (simp only: ac_simps)
    then have "?t * 2 ^ 64 * fbits fx d \<le> fbits fx v * fbits fx s"
      by (rule mult_right_le_imp_le) simp
    then show ?thesis using Some by (simp only: option.case ufixed_okD(6)[OF ok])
  qed
qed

section \<open>The store behind a pool\<close>

text \<open>The invariant of a pool: the denominator is the sum of the shares.\<close>

definition bits_of :: "('u, 'i, 'z) pool_fixed_scheme \<Rightarrow> ('k, 'u, 's) share_ops \<Rightarrow> 's \<Rightarrow> 'k \<Rightarrow> nat" where
  "bits_of fx ops s k = fbits fx (get_share ops s k)"

definition holders :: "('u, 'i, 'z) pool_fixed_scheme \<Rightarrow> ('k, 'u, 's) share_ops \<Rightarrow> 's \<Rightarrow> 'k set" where
  "holders fx ops s = {k. bits_of fx ops s k \<noteq> 0}"

definition pool_inv :: "('u, 'i, 'z) pool_fixed_scheme \<Rightarrow> ('k, 'u, 's) share_ops \<Rightarrow> 's \<Rightarrow> bool" where
  "pool_inv fx ops s \<longleftrightarrow> finite (holders fx ops s) \<and>
     fbits fx (get_denominator ops s) = (\<Sum>k \<in> holders fx ops s. bits_of fx ops s k)"


text \<open>
  What \<open>SharePool\<close> relies on: the setters write what the getters read, each its own item, up to the
  representation of zero. The shared value may be stored as an integer.
\<close>

locale share_store =
  fixes fx :: "('u, 'i, 'z) pool_fixed_scheme"
    and ops :: "('k, 'u, 's) share_ops"
  assumes share_set_share: "pool_fixed_ok fx \<Longrightarrow>
      fbits fx (get_share ops (set_share ops k v s) k') = (if k' = k then fbits fx v else fbits fx (get_share ops s k'))"
    and share_set_denominator: "get_share ops (set_denominator ops v s) k = get_share ops s k"
    and share_set_value: "get_share ops (set_shared_value ops v s) k = get_share ops s k"
    and denominator_set_share: "get_denominator ops (set_share ops k v s) = get_denominator ops s"
    and denominator_set_denominator: "pool_fixed_ok fx \<Longrightarrow>
      fbits fx (get_denominator ops (set_denominator ops v s)) = fbits fx v"
    and denominator_set_value: "get_denominator ops (set_shared_value ops v s) = get_denominator ops s"
    and value_set_share: "get_shared_value ops (set_share ops k v s) = get_shared_value ops s"
    and value_set_denominator: "get_shared_value ops (set_denominator ops v s) = get_shared_value ops s"
    and value_set_value: "pool_fixed_ok fx \<Longrightarrow>
      to_u64 fx (get_shared_value ops (set_shared_value ops v s)) = to_u64 fx v"
begin

lemmas store_laws = share_set_denominator share_set_value denominator_set_share denominator_set_value
  value_set_share value_set_denominator

lemma holders_sum: "finite K \<Longrightarrow> holders fx ops s \<subseteq> K \<Longrightarrow> (\<Sum>k \<in> holders fx ops s. bits_of fx ops s k) = (\<Sum>k \<in> K. bits_of fx ops s k)"
  by (intro sum.mono_neutral_left) (auto simp: holders_def)

lemma pool_inv_alt:
  assumes "finite K" "holders fx ops s \<subseteq> K"
  shows "pool_inv fx ops s \<longleftrightarrow> fbits fx (get_denominator ops s) = (\<Sum>k \<in> K. bits_of fx ops s k)"
  using assms holders_sum[OF assms] by (auto simp: pool_inv_def intro: finite_subset)

lemma share_le_denominator:
  assumes "pool_inv fx ops s"
  shows "bits_of fx ops s k \<le> fbits fx (get_denominator ops s)"
proof (cases "k \<in> holders fx ops s")
  case True
  with assms show ?thesis by (auto simp: pool_inv_def intro: member_le_sum)
qed (simp add: holders_def)

text \<open>Replacing the share of one key and correcting the denominator by the difference.\<close>

lemma pool_inv_replace:
  assumes "pool_inv fx ops s" and share: "\<And>k'. bits_of fx ops s' k' = (if k' = k then v else bits_of fx ops s k')"
    and den: "fbits fx (get_denominator ops s') = fbits fx (get_denominator ops s) - bits_of fx ops s k + v"
  shows "pool_inv fx ops s'"
proof -
  let ?K = "insert k (holders fx ops s)"
  have fin: "finite ?K" using assms(1) by (simp add: pool_inv_def)
  have sub: "holders fx ops s' \<subseteq> ?K" by (auto simp: holders_def share split: if_splits)
  have "fbits fx (get_denominator ops s) = (\<Sum>j \<in> ?K. bits_of fx ops s j)"
    using assms(1) fin by (subst (asm) pool_inv_alt[OF fin]) auto
  also have "\<dots> = bits_of fx ops s k + (\<Sum>j \<in> ?K - {k}. bits_of fx ops s j)" using fin by (subst sum.remove[of _ k]) auto
  finally have "fbits fx (get_denominator ops s') = v + (\<Sum>j \<in> ?K - {k}. bits_of fx ops s j)" using den by simp
  also have "(\<Sum>j \<in> ?K - {k}. bits_of fx ops s j) = (\<Sum>j \<in> ?K - {k}. bits_of fx ops s' j)" by (intro sum.cong) (auto simp: share)
  also have "v + \<dots> = (\<Sum>j \<in> ?K. bits_of fx ops s' j)" using fin share[of k] by (subst (2) sum.remove[of _ k]) auto
  finally show ?thesis using pool_inv_alt[OF fin sub] by simp
qed

lemma update_all_fields:
  "get_share ops (update_value_for_all fx ops u s) k = get_share ops s k"
  "get_denominator ops (update_value_for_all fx ops u s) = get_denominator ops s"
  by (simp_all add: update_value_for_all_def Let_def store_laws)

lemma update_all_inv: "pool_inv fx ops (update_value_for_all fx ops u s) \<longleftrightarrow> pool_inv fx ops s"
  by (simp add: pool_inv_def holders_def bits_of_def update_all_fields)

lemma put_share:
  assumes "pool_fixed_ok fx"
  shows "bits_of fx ops (set_share ops k v (set_denominator ops d s)) k' = (if k' = k then fbits fx v else bits_of fx ops s k')"
    "fbits fx (get_denominator ops (set_share ops k v (set_denominator ops d s))) = fbits fx d"
  using assms by (simp_all add: bits_of_def share_set_share denominator_set_denominator store_laws)

text \<open>The three ways in which an update changes the share of its key and the denominator.\<close>

lemma update_one_cases:
  obtains (init) "fbits fx (get_denominator ops s) = 0"
      "update_value_for_one fx ops k u s = (u, update_value_for_all fx ops u
        (set_share ops k (u_of_i64 fx u) (set_denominator ops (u_of_i64 fx u) s)))"
  | (buy) x where "fbits fx (get_denominator ops s) \<noteq> 0"
      "update_value_for_one fx ops k u s = (u, update_value_for_all fx ops u
        (set_share ops k (f_add fx (get_share ops s k) x) (set_denominator ops (f_add fx (get_denominator ops s) x) s)))"
  | (clear) "fbits fx (get_denominator ops s) \<noteq> 0"
      "update_value_for_one fx ops k u s =
        (i64_neg (as_i64 (get_value fx ops k s)), update_value_for_all fx ops (i64_neg (as_i64 (get_value fx ops k s)))
          (set_share ops k (of_u64 fx 0) (set_denominator ops (f_sub fx (get_denominator ops s) (get_share ops s k)) s)))"
  | (sell) x where "fbits fx (get_denominator ops s) \<noteq> 0"
      "\<not> fbits fx (f_safe_div fx (f_sub fx (get_share ops s k) x) (get_share ops s k)) < fbits fx (u_hundred_thousandth fx)"
      "update_value_for_one fx ops k u s = (u, update_value_for_all fx ops u
        (set_share ops k (f_sub fx (get_share ops s k) x) (set_denominator ops (f_sub fx (get_denominator ops s) x) s)))"
proof -
  let ?d = "get_denominator ops s" and ?c = "get_share ops s k"
  let ?spu = "get_shares_per_update fx u (get_shared_value ops s) ?d"
  let ?x = "u_of_i fx (i_neg fx ?spu)"
  show thesis
  proof (cases "fbits fx ?d = 0")
    case True
    then show thesis by (intro init) (simp_all add: update_value_for_one_def Let_def)
  next
    case nz: False
    show thesis
    proof (cases "i_bits fx ?spu \<ge> 0")
      case True
      with nz show thesis by (intro buy[of "u_of_i fx ?spu"]) (simp_all add: update_value_for_one_def Let_def)
    next
      case neg: False
      show thesis
      proof (cases "fbits fx (f_safe_div fx (f_sub fx ?c ?x) ?c) < fbits fx (u_hundred_thousandth fx) \<or>
          f_div fx (f_add fx (get_shared_value ops s) (of_u64 fx 2628000000000000)) (f_sub fx ?d ?x) = None")
        case True
        with nz neg show thesis by (intro clear) (simp_all add: update_value_for_one_def Let_def)
      next
        case False
        with nz neg show thesis by (intro sell[of ?x]) (auto simp: update_value_for_one_def Let_def)
      qed
    qed
  qed
qed

text \<open>An update keeps the denominator equal to the sum of the shares, unless it saturates: a sale of
  more than the share is turned into the removal of the whole share.\<close>

lemma update_one_inv:
  assumes ok: "pool_fixed_ok fx" and inv: "pool_inv fx ops s"
    and unsat: "fbits fx (get_denominator ops (snd (update_value_for_one fx ops k u s))) < u128_max"
  shows "pool_inv fx ops (snd (update_value_for_one fx ops k u s))"
proof -
  have uok: "ufixed_ok 64 fx" using ok by (simp add: pool_fixed_ok_def)
  note le = share_le_denominator[OF inv, of k, unfolded bits_of_def] and B = ufixed_okD[OF uok]
  have finish: "pool_inv fx ops (set_share ops k v (set_denominator ops d s))"
    if "fbits fx d = fbits fx (get_denominator ops s) - fbits fx (get_share ops s k) + fbits fx v" for v d
    using put_share[OF ok] that by (intro pool_inv_replace[OF inv]) (auto simp: bits_of_def)
  show ?thesis
  proof (cases rule: update_one_cases[of s k u])
    case init
    then show ?thesis using le by (simp add: update_all_inv finish)
  next
    case (buy x)
    then have "fbits fx (f_add fx (get_denominator ops s) x) < u128_max"
      using unsat put_share(2)[OF ok] by (simp add: update_all_fields)
    then have "fbits fx (get_denominator ops s) + fbits fx x \<le> u128_max" by (simp add: B sat_add_def)
    then show ?thesis using buy(2) le by (simp add: update_all_inv) (intro finish, simp add: B sat_add_def)
  next
    case clear
    then show ?thesis by (simp add: update_all_inv) (intro finish, simp add: B of_u64_0[OF uok])
  next
    case (sell x)
    have "fbits fx x \<le> fbits fx (get_share ops s k)"
    proof (rule ccontr)
      assume "\<not> ?thesis"
      then have "fbits fx (f_sub fx (get_share ops s k) x) = 0" by (simp add: B)
      from f_div_0[OF uok this] sell(2) ok show False by (simp add: pool_fixed_ok_def)
    qed
    then show ?thesis using sell(3) le by (simp add: update_all_inv) (intro finish, simp add: B)
  qed
qed

text \<open>The values of all keys together are at most the shared value.\<close>

lemma values_le_shared:
  assumes ok: "pool_fixed_ok fx" and inv: "pool_inv fx ops s" and "finite K"
  shows "(\<Sum>k \<in> K. get_value fx ops k s) \<le> to_u64 fx (get_shared_value ops s)"
proof -
  have uok: "ufixed_ok 64 fx" using ok by (simp add: pool_fixed_ok_def)
  let ?V = "fbits fx (get_shared_value ops s)" and ?D = "fbits fx (get_denominator ops s)"
  have each: "get_value fx ops k s * 2 ^ 64 * ?D \<le> ?V * bits_of fx ops s k" for k
    unfolding get_value_def Let_def bits_of_def by (rule share_value_bound[OF uok])
  show ?thesis
  proof (cases "?D = 0")
    case True
    have "get_value fx ops k s = 0" for k
    proof -
      have "bits_of fx ops s k = 0" using share_le_denominator[OF inv, of k] True by simp
      then have z: "fbits fx (get_share ops s k) = 0" by (simp add: bits_of_def)
      then have m: "fbits fx (f_mul fx x (get_share ops s k)) = 0" for x by (simp add: ufixed_okD(5)[OF uok])
      show ?thesis
        unfolding get_value_def Let_def using m f_div_0[OF uok m]
        by (auto simp: ufixed_okD(6)[OF uok] split: option.splits)
    qed
    then show ?thesis by simp
  next
    case False
    have fin: "finite (holders fx ops s \<union> K)" using assms(3) inv by (simp add: pool_inv_def)
    have "(\<Sum>k \<in> K. get_value fx ops k s) * (2 ^ 64 * ?D) \<le> (\<Sum>k \<in> holders fx ops s \<union> K. get_value fx ops k s) * (2 ^ 64 * ?D)"
      by (intro mult_le_mono1 sum_mono2 fin) auto
    also have "\<dots> \<le> (\<Sum>k \<in> holders fx ops s \<union> K. ?V * bits_of fx ops s k)"
      unfolding sum_distrib_right using each by (intro sum_mono) (simp only: mult.assoc)
    also have "\<dots> = ?V * ?D"
      using pool_inv_alt[OF fin, of s] inv by (simp add: sum_distrib_left)
    finally have "(\<Sum>k \<in> K. get_value fx ops k s) * 2 ^ 64 * ?D \<le> ?V * ?D" by (simp only: ac_simps)
    then have "(\<Sum>k \<in> K. get_value fx ops k s) * 2 ^ 64 \<le> ?V" using False by simp
    then have "(\<Sum>k \<in> K. get_value fx ops k s) \<le> ?V div 2 ^ 64" by (simp add: less_eq_div_iff_mult_less_eq)
    moreover have "?V div 2 ^ 64 \<le> u64_max"
      using ufixed_okD(1)[OF uok, of "get_shared_value ops s"] by (simp add: u128_max_def u64_max_def)
    ultimately show ?thesis by (simp add: ufixed_okD(6)[OF uok])
  qed
qed

end

section \<open>The pools of the hotkeys\<close>

lemma alpha_bits:
  assumes "pool_fixed_ok fx"
  shows "fbits fx (case (if fbits fx v \<noteq> 0 then Some v else None) of Some v \<Rightarrow> v | None \<Rightarrow> of_u64 fx 0) = fbits fx v"
  using assms by (simp add: of_u64_0[of 64] pool_fixed_ok_def)

interpretation alpha: share_store fx "hotkey_alpha_ops fx h n" for fx h n
proof (unfold_locales, goal_cases)
  case (1 k v s k')
  then show ?case using alpha_bits[OF 1, of v] by (simp add: hotkey_alpha_ops_def get_alpha_def)
next
  case (5 v s)
  then show ?case using alpha_bits[OF 5, of v] by (simp add: hotkey_alpha_ops_def total_hotkey_shares_def)
next
  case (9 v s)
  then have uok: "ufixed_ok 64 fx" by (simp add: pool_fixed_ok_def)
  have "to_u64 fx v \<le> u64_max" by (simp add: ufixed_okD(6)[OF uok])
  from of_u64_to_u64(2)[OF uok this] show ?case
    by (simp add: hotkey_alpha_ops_def total_hotkey_alpha_def of_u64_to_u64[OF uok] ufixed_okD(6)[OF uok])
qed (simp_all add: hotkey_alpha_ops_def get_alpha_def total_hotkey_alpha_def total_hotkey_shares_def)

lemma alpha_set_fields:
  "Alpha (set_shared_value (hotkey_alpha_ops fx h n) v s) = Alpha s"
  "TotalHotkeyShares (set_shared_value (hotkey_alpha_ops fx h n) v s) = TotalHotkeyShares s"
  "Alpha (set_denominator (hotkey_alpha_ops fx h n) v s) = Alpha s"
  "TotalHotkeyAlpha (set_denominator (hotkey_alpha_ops fx h n) v s) = TotalHotkeyAlpha s"
  "TotalHotkeyAlpha (set_share (hotkey_alpha_ops fx h n) c v s) = TotalHotkeyAlpha s"
  "TotalHotkeyShares (set_share (hotkey_alpha_ops fx h n) c v s) = TotalHotkeyShares s"
  "h' \<noteq> h \<or> m \<noteq> n \<Longrightarrow> TotalHotkeyAlpha (set_shared_value (hotkey_alpha_ops fx h n) v s) h' m = TotalHotkeyAlpha s h' m"
  "h' \<noteq> h \<or> m \<noteq> n \<Longrightarrow> TotalHotkeyShares (set_denominator (hotkey_alpha_ops fx h n) v s) h' m = TotalHotkeyShares s h' m"
  "h' \<noteq> h \<or> c' \<noteq> c \<or> m \<noteq> n \<Longrightarrow> Alpha (set_share (hotkey_alpha_ops fx h n) c v s) h' c' m = Alpha s h' c' m"
  by (auto simp: hotkey_alpha_ops_def)

text \<open>An update of one pool leaves every other pool alone, and in its own every other share.\<close>

lemma update_all_frame:
  "Alpha (update_value_for_all fx (hotkey_alpha_ops fx h n) u s) = Alpha s"
  "TotalHotkeyShares (update_value_for_all fx (hotkey_alpha_ops fx h n) u s) = TotalHotkeyShares s"
  "h' \<noteq> h \<or> m \<noteq> n \<Longrightarrow>
     TotalHotkeyAlpha (update_value_for_all fx (hotkey_alpha_ops fx h n) u s) h' m = TotalHotkeyAlpha s h' m"
  by (simp_all add: update_value_for_all_def Let_def alpha_set_fields)

lemma update_one_frame:
  assumes "update_value_for_one fx (hotkey_alpha_ops fx h n) c u s = (a, s')"
  shows "h' \<noteq> h \<or> c' \<noteq> c \<or> m \<noteq> n \<Longrightarrow> Alpha s' h' c' m = Alpha s h' c' m"
    "h' \<noteq> h \<or> m \<noteq> n \<Longrightarrow> TotalHotkeyShares s' h' m = TotalHotkeyShares s h' m"
    "h' \<noteq> h \<or> m \<noteq> n \<Longrightarrow> TotalHotkeyAlpha s' h' m = TotalHotkeyAlpha s h' m"
  using assms
  by (cases rule: alpha.update_one_cases[of fx h n s c u]; auto simp: update_all_frame alpha_set_fields)+

text \<open>The total moves by the update, within the range of \<open>u64\<close>.\<close>

lemma update_all_total:
  assumes ok: "pool_fixed_ok fx" and u: "i64_min < u" "u \<le> i64_max" and le: "total_hotkey_alpha s h n \<le> u64_max"
  shows "total_hotkey_alpha (update_value_for_all fx (hotkey_alpha_ops fx h n) u s) h n =
    (if u \<ge> 0 then min u64_max (total_hotkey_alpha s h n + nat u) else total_hotkey_alpha s h n - nat (- u))"
proof -
  have uok: "ufixed_ok 64 fx" using ok by (simp add: pool_fixed_ok_def)
  let ?T = "total_hotkey_alpha s h n"
  have conv: "fbits fx (u_of_i64 fx k) = nat k * 2 ^ 64" if "i64_min \<le> k" "k \<le> i64_max" for k
    using ok that by (simp add: pool_fixed_ok_def)
  define v where "v = (if u \<ge> 0 then f_add fx (of_u64 fx ?T) (u_of_i64 fx u) else f_sub fx (of_u64 fx ?T) (u_of_i64 fx (i64_neg u)))"
  have t: "total_hotkey_alpha (update_value_for_all fx (hotkey_alpha_ops fx h n) u s) h n = to_u64 fx v"
    by (simp add: update_value_for_all_def hotkey_alpha_ops_def total_hotkey_alpha_def v_def Let_def
        ufixed_okD(6)[OF uok])
  show ?thesis
  proof (cases "u \<ge> 0")
    case True
    have bits: "fbits fx v = min u128_max ((?T + nat u) * 2 ^ 64)"
      using True u by (simp add: v_def ufixed_okD(3)[OF uok] of_u64_to_u64[OF uok le] conv sat_add_def distrib_right)
    show ?thesis
    proof (cases "?T + nat u \<le> u64_max")
      case fits: True
      then have "(?T + nat u) * 2 ^ 64 \<le> u128_max" by (simp add: u64_max_def u128_max_def)
      with bits fits True show ?thesis unfolding t by (simp add: ufixed_okD(6)[OF uok])
    next
      case False
      then have "u128_max \<le> (?T + nat u) * 2 ^ 64" by (simp add: u64_max_def u128_max_def)
      with bits have b: "fbits fx v = u128_max" by simp
      have "u128_max div 2 ^ 64 = u64_max" by (simp add: u64_max_def u128_max_def)
      with b False True show ?thesis unfolding t by (simp add: ufixed_okD(6)[OF uok])
    qed
  next
    case False
    have "i64_min \<le> - u" "- u \<le> i64_max" using u False by (auto simp: i64_min_def i64_max_def)
    with False u have "fbits fx v = (?T - nat (- u)) * 2 ^ 64"
      by (simp add: v_def ufixed_okD(4)[OF uok] of_u64_to_u64[OF uok le] conv i64_neg_def diff_mult_distrib)
    then have "to_u64 fx v = min u64_max (?T - nat (- u))" by (simp add: ufixed_okD(6)[OF uok])
    also have "\<dots> = ?T - nat (- u)" using le by simp
    finally show ?thesis using False unfolding t by simp
  qed
qed

lemma update_one_total:
  assumes ok: "pool_fixed_ok fx" and "update_value_for_one fx (hotkey_alpha_ops fx h n) c u s = (a, s')"
    and "i64_min < a" "a \<le> i64_max" and le: "total_hotkey_alpha s h n \<le> u64_max"
  shows "total_hotkey_alpha s' h n =
    (if a \<ge> 0 then min u64_max (total_hotkey_alpha s h n + nat a) else total_hotkey_alpha s h n - nat (- a))"
proof -
  let ?ops = "hotkey_alpha_ops fx h n"
  obtain v d where s': "s' = update_value_for_all fx ?ops a (set_share ?ops c v (set_denominator ?ops d s))"
    using assms(2) by (cases rule: alpha.update_one_cases[of fx h n s c u]) auto
  have eq: "total_hotkey_alpha (set_share ?ops c v (set_denominator ?ops d s)) h n = total_hotkey_alpha s h n"
    by (simp add: total_hotkey_alpha_def alpha_set_fields)
  show ?thesis
    unfolding s' by (rule update_all_total[OF ok assms(3,4), where s = "set_share ?ops c v (set_denominator ?ops d s)" and h = h and n = n,
          unfolded eq, OF le])
qed

text \<open>A positive update is made in full.\<close>

lemma shares_nonneg:
  assumes "pool_fixed_ok fx" "0 \<le> u"
  shows "0 \<le> i_bits fx (get_shares_per_update fx u v d)"
proof -
  note S = assms(1)[unfolded pool_fixed_ok_def signs_ok_def]
  have q: "0 \<le> i_bits fx (case i_div fx (i_of_i64 fx u) (i_of_u fx y) of Some q \<Rightarrow> q | None \<Rightarrow> i_of_i64 fx 0)" for y
    using S assms(2) by (cases "i_div fx (i_of_i64 fx u) (i_of_u fx y)") auto
  show ?thesis using q S by (cases "f_div fx v d") (auto simp: get_shares_per_update_def)
qed

lemma update_one_nonneg:
  assumes "pool_fixed_ok fx" "0 \<le> u"
  shows "fst (update_value_for_one fx ops k u s) = u"
  using shares_nonneg[OF assms] by (simp add: update_value_for_one_def Let_def)

lemma update_one_result:
  "fst (update_value_for_one fx ops k u s) = u \<or>
   fst (update_value_for_one fx ops k u s) = i64_neg (as_i64 (get_value fx ops k s))"
  by (simp add: update_value_for_one_def Let_def)

text \<open>
  The runs of the pools: any updates, by any amounts, on any hotkeys and subnets, as long as no
  denominator saturates.
\<close>

inductive alpha_step ::
    "('u, 'i, 'z) pool_fixed_scheme \<Rightarrow> ('a, 'u) alpha_state \<Rightarrow> ('a, 'u) alpha_state \<Rightarrow> bool" for fx where
  one: "update_value_for_one fx (hotkey_alpha_ops fx h n) c u s = (a, s') \<Longrightarrow>
      fbits fx (total_hotkey_shares fx s' h n) < u128_max \<Longrightarrow> alpha_step fx s s'"
| all: "alpha_step fx s (update_value_for_all fx (hotkey_alpha_ops fx h n) u s)"

definition alpha_initial :: "('a, 'u) alpha_state \<Rightarrow> bool" where
  "alpha_initial s \<longleftrightarrow> (\<forall>h c n. Alpha s h c n = None) \<and> (\<forall>h n. TotalHotkeyShares s h n = None \<and> TotalHotkeyAlpha s h n = None)"

definition alpha_inv :: "('u, 'i, 'z) pool_fixed_scheme \<Rightarrow> ('a, 'u) alpha_state \<Rightarrow> bool" where
  "alpha_inv fx s \<longleftrightarrow> (\<forall>h n. finite {c. fbits fx (get_alpha fx s h c n) \<noteq> 0} \<and> total_hotkey_alpha s h n \<le> u64_max \<and>
     fbits fx (total_hotkey_shares fx s h n) =
       (\<Sum>c \<in> {c. fbits fx (get_alpha fx s h c n) \<noteq> 0}. fbits fx (get_alpha fx s h c n)))"

lemma alpha_inv_pool: "alpha_inv fx s \<longleftrightarrow> (\<forall>h n. pool_inv fx (hotkey_alpha_ops fx h n) s \<and> total_hotkey_alpha s h n \<le> u64_max)"
  by (auto simp: alpha_inv_def pool_inv_def holders_def bits_of_def hotkey_alpha_ops_def)

lemma alpha_pool_other:
  assumes "\<And>c. Alpha s' h c n = Alpha s h c n" "TotalHotkeyShares s' h n = TotalHotkeyShares s h n"
  shows "pool_inv fx (hotkey_alpha_ops fx h n) s' \<longleftrightarrow> pool_inv fx (hotkey_alpha_ops fx h n) s"
  using assms by (simp add: pool_inv_def holders_def bits_of_def hotkey_alpha_ops_def get_alpha_def
      total_hotkey_shares_def)

lemma update_total_u64:
  assumes "pool_fixed_ok fx" "total_hotkey_alpha s h' m \<le> u64_max"
  shows "total_hotkey_alpha (update_value_for_all fx (hotkey_alpha_ops fx h n) u s) h' m \<le> u64_max"
proof -
  have uok: "ufixed_ok 64 fx" using assms(1) by (simp add: pool_fixed_ok_def)
  have "to_u64 fx v \<le> u64_max" for v by (simp add: ufixed_okD(6)[OF uok])
  with assms(2) show ?thesis
    by (auto simp: update_value_for_all_def hotkey_alpha_ops_def total_hotkey_alpha_def Let_def split: option.splits)
qed

lemma update_one_alpha_inv:
  assumes ok: "pool_fixed_ok fx" and inv: "alpha_inv fx s"
    and run: "update_value_for_one fx (hotkey_alpha_ops fx h n) c u s = (a, s')"
    and unsat: "fbits fx (total_hotkey_shares fx s' h n) < u128_max"
  shows "alpha_inv fx s'"
  unfolding alpha_inv_pool
proof (intro allI conjI)
  let ?ops = "hotkey_alpha_ops fx h n"
  fix h' m
  have "fbits fx (get_denominator ?ops s') < u128_max" using unsat by (simp add: hotkey_alpha_ops_def)
  then have same: "pool_inv fx (hotkey_alpha_ops fx h n) s'"
    using alpha.update_one_inv[OF ok, of h n s c u] inv run by (simp add: alpha_inv_pool)
  show "pool_inv fx (hotkey_alpha_ops fx h' m) s'"
  proof (cases "h' = h \<and> m = n")
    case False
    then have "pool_inv fx (hotkey_alpha_ops fx h' m) s' \<longleftrightarrow> pool_inv fx (hotkey_alpha_ops fx h' m) s"
      using update_one_frame[OF run] by (intro alpha_pool_other) auto
    with inv show ?thesis by (simp add: alpha_inv_pool)
  qed (use same in simp)
  obtain v d where s': "s' = update_value_for_all fx ?ops a (set_share ?ops c v (set_denominator ?ops d s))"
    using run by (cases rule: alpha.update_one_cases[of fx h n s c u]) auto
  show "total_hotkey_alpha s' h' m \<le> u64_max"
    unfolding s' using inv by (intro update_total_u64[OF ok]) (simp add: total_hotkey_alpha_def alpha_set_fields alpha_inv_def)
qed

interpretation alpha_pools: invariant_system
  "\<lambda>s. alpha_initial s \<and> pool_fixed_ok fx" "alpha_step fx" "\<lambda>s. alpha_inv fx s \<and> pool_fixed_ok fx"
proof (unfold_locales, goal_cases)
  case (1 s)
  then show ?case by (simp add: alpha_initial_def alpha_inv_def get_alpha_def total_hotkey_shares_def
      total_hotkey_alpha_def of_u64_0[of 64] pool_fixed_ok_def)
next
  case (2 s t)
  from 2(2) show ?case
  proof (cases rule: alpha_step.cases)
    case (one h n c u a)
    show ?thesis using update_one_alpha_inv[OF _ _ one(1,2)] 2(1) by blast
  next
    case (all h n u)
    have "pool_inv fx (hotkey_alpha_ops fx h' m) t \<longleftrightarrow> pool_inv fx (hotkey_alpha_ops fx h' m) s" for h' m
      by (intro alpha_pool_other) (simp_all add: all update_all_frame)
    then show ?thesis using 2(1) update_total_u64[of fx s] by (simp add: alpha_inv_pool all)
  qed
qed

text \<open>C2. Solvency of the stake pools. Whatever updates were made on the pools of any hotkeys and
  subnets, as long as no denominator saturates at the largest \<open>U64F64\<close>: the denominator of a pool is
  the sum of its shares, and the stakes of any set of coldkeys together are at most the alpha of
  the hotkey. In particular a sale that rounds to more than the seller's share cannot take from
  the others.\<close>

theorem stake_pools_solvent:
  assumes "pool_fixed_ok fx" "alpha_initial s" "(alpha_step fx)\<^sup>*\<^sup>* s t" "finite C"
  shows "fbits fx (total_hotkey_shares fx t h n) =
      (\<Sum>c \<in> {c. fbits fx (get_alpha fx t h c n) \<noteq> 0}. fbits fx (get_alpha fx t h c n)) \<and>
    (\<Sum>c \<in> C. get_value fx (hotkey_alpha_ops fx h n) c t) \<le> total_hotkey_alpha t h n"
proof -
  have inv: "alpha_inv fx t" using alpha_pools.reachable_invar assms(1-3) by blast
  have uok: "ufixed_ok 64 fx" using assms(1) by (simp add: pool_fixed_ok_def)
  have "(\<Sum>c \<in> C. get_value fx (hotkey_alpha_ops fx h n) c t) \<le> to_u64 fx (of_u64 fx (total_hotkey_alpha t h n))"
    using alpha.values_le_shared[OF assms(1) _ assms(4), of h n t] inv by (simp add: alpha_inv_pool hotkey_alpha_ops_def)
  also have "\<dots> = total_hotkey_alpha t h n" using inv by (intro of_u64_to_u64(2)[OF uok]) (simp add: alpha_inv_def)
  finally show ?thesis using inv by (simp add: alpha_inv_def)
qed

text \<open>The numbers as their bits, for the witnesses.\<close>

definition bits_fixed :: "(nat, int) pool_fixed" where
  "bits_fixed = \<lparr>fbits = (\<lambda>x. min u128_max x), of_u64 = (\<lambda>n. min u128_max (n * 2 ^ 64)),
     f_add = (\<lambda>x y. sat_add u128_max (min u128_max x) (min u128_max y)),
     f_sub = (\<lambda>x y. min u128_max x - min u128_max y),
     f_mul = (\<lambda>x y. min u128_max (min u128_max x * min u128_max y div 2 ^ 64)),
     f_div = (\<lambda>x y. let q = min u128_max x * 2 ^ 64 div min u128_max y
       in if y = 0 \<or> u128_max < q then None else Some q),
     to_u64 = (\<lambda>x. min u64_max (min u128_max x div 2 ^ 64)),
     u_of_i64 = (\<lambda>n. nat n * 2 ^ 64), u_of_i = nat, i_of_i64 = (\<lambda>n. n * 2 ^ 64),
     i_of_u = (\<lambda>x. min (2 ^ 127 - 1) (int x)),
     i_div = (\<lambda>x y. if y = 0 \<or> 2 ^ 127 \<le> \<bar>trunc_div (x * 2 ^ 64) y\<bar> then None else Some (trunc_div (x * 2 ^ 64) y)),
     i_mul = (\<lambda>x y. x * y div 2 ^ 64), i_neg = uminus, i_bits = (\<lambda>x. x), u_hundred_thousandth = 184467440737095\<rparr>"

lemma bits_fixed_ok: "pool_fixed_ok bits_fixed"
proof -
  have "ufixed_ok 64 bits_fixed"
    unfolding ufixed_ok_def
    by (intro conjI allI impI) (auto simp: bits_fixed_def sat_add_def u128_max_def Let_def split: if_splits)
  moreover have "fbits bits_fixed (u_of_i64 bits_fixed n) = nat n * 2 ^ 64" if "n \<le> i64_max" for n
  proof -
    have "nat n \<le> nat i64_max" using that by simp
    then have "nat n * 2 ^ 64 \<le> u128_max" by (simp add: i64_max_def u128_max_def)
    then show ?thesis by (simp add: bits_fixed_def)
  qed
  moreover have "signs_ok bits_fixed"
    by (auto simp: signs_ok_def bits_fixed_def trunc_div_def Let_def pos_imp_zdiv_nonneg_iff div_int_pos_iff split: if_splits)
  ultimately show ?thesis by (simp add: pool_fixed_ok_def) (simp add: bits_fixed_def u128_max_def)
qed

definition no_alpha :: "(nat, nat) alpha_state" where
  "no_alpha = \<lparr>Alpha = (\<lambda>_ _ _. None), TotalHotkeyAlpha = (\<lambda>_ _. None), TotalHotkeyShares = (\<lambda>_ _. None)\<rparr>"

text \<open>Two stakers of 300 and 100 on hotkey 5 of subnet 2.\<close>

definition one_staker :: "(nat, nat) alpha_state" where
  "one_staker = snd (update_value_for_one bits_fixed (hotkey_alpha_ops bits_fixed 5 2) 10 300 no_alpha)"

definition two_stakers :: "(nat, nat) alpha_state" where
  "two_stakers = snd (update_value_for_one bits_fixed (hotkey_alpha_ops bits_fixed 5 2) 11 100 one_staker)"

lemma update_one_init:
  "fbits fx (get_denominator ops s) = 0 \<Longrightarrow> update_value_for_one fx ops k u s = (u, update_value_for_all fx ops u
     (set_share ops k (u_of_i64 fx u) (set_denominator ops (u_of_i64 fx u) s)))"
  by (simp add: update_value_for_one_def Let_def)

lemma update_one_buy:
  assumes "fbits fx (get_denominator ops s) \<noteq> 0"
    and "get_shares_per_update fx u (get_shared_value ops s) (get_denominator ops s) = x" "i_bits fx x \<ge> 0"
  shows "update_value_for_one fx ops k u s = (u, update_value_for_all fx ops u
     (set_share ops k (f_add fx (get_share ops s k) (u_of_i fx x))
       (set_denominator ops (f_add fx (get_denominator ops s) (u_of_i fx x)) s)))"
  using assms by (simp add: update_value_for_one_def Let_def)

lemma bits_fixed_simps:
  "fbits bits_fixed x = min u128_max x" "of_u64 bits_fixed m = min u128_max (m * 2 ^ 64)"
  "u_of_i64 bits_fixed k = nat k * 2 ^ 64"
  "to_u64 bits_fixed x = min u64_max (min u128_max x div 2 ^ 64)"
  "f_add bits_fixed x y = sat_add u128_max (min u128_max x) (min u128_max y)"
  "u_of_i bits_fixed j = nat j" "i_bits bits_fixed j = j"
  by (simp_all add: bits_fixed_def)

lemma one_staker_fields:
  "Alpha one_staker 5 10 2 = Some (300 * 2 ^ 64)" "Alpha one_staker 5 11 2 = None"
  "TotalHotkeyAlpha one_staker 5 2 = Some 300" "TotalHotkeyShares one_staker 5 2 = Some (300 * 2 ^ 64)"
proof -
  let ?ops = "hotkey_alpha_ops bits_fixed 5 2"
  have z: "fbits bits_fixed (get_denominator ?ops no_alpha) = 0"
    by (simp add: no_alpha_def hotkey_alpha_ops_def total_hotkey_shares_def bits_fixed_simps)
  show "Alpha one_staker 5 10 2 = Some (300 * 2 ^ 64)" "Alpha one_staker 5 11 2 = None"
    "TotalHotkeyAlpha one_staker 5 2 = Some 300" "TotalHotkeyShares one_staker 5 2 = Some (300 * 2 ^ 64)"
    unfolding one_staker_def update_one_init[OF z] update_value_for_all_def
    by (simp_all add: hotkey_alpha_ops_def no_alpha_def bits_fixed_simps u128_max_def u64_max_def sat_add_def Let_def
        total_hotkey_alpha_def)
qed

lemma two_stakers_fields:
  "Alpha two_stakers 5 10 2 = Some (300 * 2 ^ 64)" "Alpha two_stakers 5 11 2 = Some (100 * 2 ^ 64)"
  "TotalHotkeyAlpha two_stakers 5 2 = Some 400" "TotalHotkeyShares two_stakers 5 2 = Some (400 * 2 ^ 64)"
proof -
  let ?ops = "hotkey_alpha_ops bits_fixed 5 2"
  have d: "get_denominator ?ops one_staker = 300 * 2 ^ 64" "get_shared_value ?ops one_staker = 300 * 2 ^ 64"
    by (simp_all add: hotkey_alpha_ops_def total_hotkey_shares_def total_hotkey_alpha_def one_staker_fields
        bits_fixed_simps u128_max_def)
  have nz: "fbits bits_fixed (get_denominator ?ops one_staker) \<noteq> 0" unfolding d by (simp add: bits_fixed_simps u128_max_def)
  have q: "get_shares_per_update bits_fixed 100 (get_shared_value ?ops one_staker) (get_denominator ?ops one_staker) = 100 * 2 ^ 64"
    unfolding d get_shares_per_update_def by (simp add: bits_fixed_def u128_max_def Let_def trunc_div_def)
  have pos: "i_bits bits_fixed (100 * 2 ^ 64) \<ge> 0" by (simp add: bits_fixed_simps)
  show "Alpha two_stakers 5 10 2 = Some (300 * 2 ^ 64)" "Alpha two_stakers 5 11 2 = Some (100 * 2 ^ 64)"
    "TotalHotkeyAlpha two_stakers 5 2 = Some 400" "TotalHotkeyShares two_stakers 5 2 = Some (400 * 2 ^ 64)"
    unfolding two_stakers_def update_one_buy[OF nz q pos] update_value_for_all_def
    by (simp_all add: hotkey_alpha_ops_def bits_fixed_simps u128_max_def u64_max_def sat_add_def Let_def one_staker_fields
        total_hotkey_alpha_def total_hotkey_shares_def get_alpha_def)
qed

lemma two_stakers_reachable: "(alpha_step bits_fixed)\<^sup>*\<^sup>* no_alpha two_stakers"
proof -
  have "alpha_step bits_fixed no_alpha one_staker"
    by (rule alpha_step.one[where h = 5 and n = 2 and c = 10 and u = 300 and
          a = "fst (update_value_for_one bits_fixed (hotkey_alpha_ops bits_fixed 5 2) 10 300 no_alpha)"])
      (simp_all add: one_staker_def[symmetric] total_hotkey_shares_def one_staker_fields bits_fixed_simps u128_max_def
        one_staker_def[symmetric] prod_eq_iff)
  moreover have "alpha_step bits_fixed one_staker two_stakers"
    by (rule alpha_step.one[where h = 5 and n = 2 and c = 11 and u = 100 and
          a = "fst (update_value_for_one bits_fixed (hotkey_alpha_ops bits_fixed 5 2) 11 100 one_staker)"])
      (simp_all add: total_hotkey_shares_def two_stakers_fields bits_fixed_simps u128_max_def
        two_stakers_def[symmetric] prod_eq_iff)
  ultimately show ?thesis by (simp add: converse_rtranclp_into_rtranclp r_into_rtranclp)
qed

theorem stake_pools_solvent_witness:
  "(\<Sum>c \<in> {10, 11}. get_value bits_fixed (hotkey_alpha_ops bits_fixed 5 2) c two_stakers) \<le> 400"
proof -
  have "alpha_initial no_alpha" by (simp add: alpha_initial_def no_alpha_def)
  from stake_pools_solvent[OF bits_fixed_ok this two_stakers_reachable, where C = "{10, 11}" and h = 5 and n = 2]
  have "(\<Sum>c \<in> {10, 11}. get_value bits_fixed (hotkey_alpha_ops bits_fixed 5 2) c two_stakers) \<le>
      total_hotkey_alpha two_stakers 5 2" by blast
  then show ?thesis by (simp only: total_hotkey_alpha_def two_stakers_fields option.case)
qed

end
