(* ===== verification/Subtensor_Base.thy ===== *)
theory Subtensor_Base
  imports Storage
begin

text \<open>
  What the components of the subtensor pallet share: the errors they raise, and the pairing of
  hotkeys with the coldkeys that own them (\<open>pallets/subtensor/src/staking/helpers.rs\<close>, the
  storage maps \<open>Owner\<close>, \<open>OwnedHotkeys\<close> and \<open>StakingHotkeys\<close>).
\<close>

datatype (plugins only: size) subtensor_error =
    RegistrationNotPermittedOnRootSubnet | SubNetworkDoesNotExist | SubNetRegistrationDisabled
  | TooManyRegistrationsThisBlock | TooManyRegistrationsThisInterval
  | HotKeyAlreadyRegisteredInSubNet | NotEnoughBalanceToStake | NonAssociatedColdKey
  | NoNeuronIdAvailable | BalanceWithdrawalError | ZeroBalanceAfterWithdrawn
  | TransactorAccountShouldBeHotKey | InvalidWorkBlock | InvalidDifficulty | InvalidSeal
  | HotKeyNotRegisteredInSubNet | HotKeyAccountNotExists
  | DelegateTakeTooLow | DelegateTakeTooHigh | DelegateTxRateLimitExceeded
  | TxRateLimitExceeded | InvalidChild | TooManyChildren | ProportionOverflow | DuplicateChild
  | NotEnoughStakeToSetChildkeys | InvalidChildkeyTake | TxChildkeyTakeRateLimitExceeded
  | CommitRevealDisabled | CommitRevealEnabled | CommittingWeightsTooFast | TooManyUnrevealedCommits
  | NoWeightsCommitFound | ExpiredWeightCommit | RevealTooEarly | InvalidRevealCommitHashNotMatch
  | InputLengthsUnequal | InvalidRevealRound | WeightVecNotEqualSize | UidsLengthExceedUidsInSubNet
  | NotEnoughStakeToSetWeights | IncorrectWeightVersionKey | SettingWeightsTooFast
  | NeuronNoValidatorPermit | DuplicateUids | UidVecContainInvalidOne | WeightVecLengthIsLow
  | MaxWeightExceeded | CanNotSetRootNetworkWeights
  | HotKeyNotRegisteredInNetwork | InvalidIpType | InvalidIpAddress | InvalidPort
  | ServingRateLimitExceeded
  | SubnetNotExists | SubtokenDisabled | AmountTooLow | SlippageTooHigh | InsufficientLiquidity
  | NotEnoughStakeToWithdraw | ZeroMaxStakeAmount | SameNetuid | TransferDisallowed
  | CannotBurnOrRecycleOnRootSubnet
  | NewHotKeyIsSameWithOld | HotKeySetTxRateLimitExceeded | NotEnoughBalanceToPaySwapHotKey
  | HotKeySwapOnSubnetIntervalNotPassed | ColdKeyAlreadyAssociated | NewColdKeyIsHotkey
  | NotEnoughBalanceToPaySwapColdKey | SwapAlreadyScheduled | FailedToSchedule
  | LiquidAlphaDisabled | AlphaHighTooLow | AlphaLowOutOfRange
  | InvalidIdentity | MechanismDoesNotExist | NetworkTxRateLimitExceeded | NotSubnetOwner
  | FirstEmissionBlockNumberAlreadySet | NeedWaitingMoreBlocksToStarCall
  | RootNetworkDoesNotExist | StakeTooLowForRoot | CouldNotJoinSenate | NotSenateMember
  | InvalidRecoveredPublicKey | UnableToRecoverPublicKey
  | SymbolDoesNotExist | SymbolAlreadyInUse
  | ActivityCutoffTooLow | BadOrigin | Panic string | Other string

text \<open>\<open>Panic\<close> stands for a Rust panic (an assertion or a slice of the wrong length), which
  aborts the extrinsic; \<open>Other\<close> for an error of another pallet.\<close>

section \<open>Hotkeys and coldkeys\<close>

record 'a accounts =
  Owner :: "'a \<Rightarrow> 'a option"
  OwnedHotkeys :: "'a \<Rightarrow> 'a list"
  StakingHotkeys :: "'a \<Rightarrow> 'a list"

definition hotkey_account_exists :: "'a accounts \<Rightarrow> 'a \<Rightarrow> bool" where
  "hotkey_account_exists s hotkey \<longleftrightarrow> Owner s hotkey \<noteq> None"

definition coldkey_owns_hotkey :: "'a accounts \<Rightarrow> 'a \<Rightarrow> 'a \<Rightarrow> bool" where
  "coldkey_owns_hotkey s coldkey hotkey =
     (if hotkey_account_exists s hotkey then Owner s hotkey = Some coldkey else False)"

definition push_unique :: "'a \<Rightarrow> 'a list \<Rightarrow> 'a list" where
  "push_unique x xs = (if x \<in> set xs then xs else xs @ [x])"

definition create_account_if_non_existent :: "'a \<Rightarrow> 'a \<Rightarrow> 'a accounts \<Rightarrow> 'a accounts" where
  "create_account_if_non_existent coldkey hotkey s =
     (if \<not> hotkey_account_exists s hotkey
      then s\<lparr>Owner := (Owner s)(hotkey \<mapsto> coldkey),
             OwnedHotkeys := (OwnedHotkeys s)(coldkey := push_unique hotkey (OwnedHotkeys s coldkey)),
             StakingHotkeys := (StakingHotkeys s)(coldkey := push_unique hotkey (StakingHotkeys s coldkey))\<rparr>
      else s)"

definition do_take_checks :: "'a accounts \<Rightarrow> 'a \<Rightarrow> 'a \<Rightarrow> (subtensor_error, unit) result" where
  "do_take_checks s coldkey hotkey =
     ensure (hotkey_account_exists s hotkey) HotKeyAccountNotExists
    (ensure (coldkey_owns_hotkey s coldkey hotkey) NonAssociatedColdKey (Inr ()))"

text \<open>
  The maps agree: the hotkeys listed for a coldkey are exactly those it owns, each listed once,
  and an owner also has them among its staking hotkeys.
\<close>

definition accounts_inv :: "'a accounts \<Rightarrow> bool" where
  "accounts_inv s \<longleftrightarrow>
     (\<forall>c h. h \<in> set (OwnedHotkeys s c) \<longleftrightarrow> Owner s h = Some c) \<and>
     (\<forall>c. distinct (OwnedHotkeys s c) \<and> distinct (StakingHotkeys s c)) \<and>
     (\<forall>c h. Owner s h = Some c \<longrightarrow> h \<in> set (StakingHotkeys s c))"

lemma coldkey_owns_hotkey_iff [simp]: "coldkey_owns_hotkey s c h \<longleftrightarrow> Owner s h = Some c"
  by (auto simp: coldkey_owns_hotkey_def hotkey_account_exists_def)

lemma push_unique_set [simp]: "set (push_unique x xs) = insert x (set xs)"
  by (auto simp: push_unique_def)

lemma push_unique_distinct [simp]: "distinct (push_unique x xs) \<longleftrightarrow> distinct xs"
  by (auto simp: push_unique_def)

lemma create_account_inv:
  assumes "accounts_inv s"
  shows "accounts_inv (create_account_if_non_existent c h s)"
  using assms by (auto simp: accounts_inv_def create_account_if_non_existent_def hotkey_account_exists_def)

lemma create_account_Owner:
  "Owner (create_account_if_non_existent c h s) =
     (case Owner s h of None \<Rightarrow> (Owner s)(h \<mapsto> c) | Some _ \<Rightarrow> Owner s)"
  by (auto simp: create_account_if_non_existent_def hotkey_account_exists_def split: option.splits)

lemma do_take_checks_Inr [simp]: "do_take_checks s c h = Inr u \<longleftrightarrow> Owner s h = Some c"
  by (auto simp: do_take_checks_def hotkey_account_exists_def)

end
