(* ===== verification/Subnet_Pool.thy ===== *)
theory Subnet_Pool
  imports Subtensor_Base
begin

text \<open>
  The reserves of a subnet pool and the two swaps between TAO and alpha
  (\<open>pallets/subtensor/src/staking/stake_utils.rs\<close>). The automated market maker behind
  \<open>T::SwapInterface\<close> is a parameter: \<open>swap\<close> gets the order and the pool and returns the
  result and its own new state \<open>amm\<close>.
\<close>

datatype order_type = Buy | Sell

record swap_result =
  amount_paid_in :: nat
  amount_paid_out :: nat
  fee_paid :: nat
  tao_reserve_delta :: int
  alpha_reserve_delta :: int

record 'w subnet_pool =
  SubnetMechanism :: "netuid \<Rightarrow> nat"
  SubnetTAO :: "netuid \<Rightarrow> nat"
  SubnetTaoProvided :: "netuid \<Rightarrow> nat"
  SubnetAlphaIn :: "netuid \<Rightarrow> nat"
  SubnetAlphaInProvided :: "netuid \<Rightarrow> nat"
  SubnetAlphaOut :: "netuid \<Rightarrow> nat"
  SubnetVolume :: "netuid \<Rightarrow> nat"
  TotalStake :: nat
  amm :: 'w

type_synonym 'w swap_fun =
  "netuid \<Rightarrow> order_type \<Rightarrow> nat \<Rightarrow> nat \<Rightarrow> bool \<Rightarrow> 'w subnet_pool \<Rightarrow> (subtensor_error, swap_result \<times> 'w) result"

text \<open>\<open>delta.abs().try_into().unwrap_or(0)\<close> and \<open>delta as u64\<close> on an \<open>i64\<close>. The absolute
  value of \<open>i64::MIN\<close> wraps to itself, so its conversion fails.\<close>

definition abs_as_u64 :: "int \<Rightarrow> nat" where
  "abs_as_u64 d = (if d = i64_min then 0 else nat \<bar>d\<bar>)"

definition as_u64 :: "int \<Rightarrow> nat" where
  "as_u64 d = nat (d mod 2 ^ 64)"

section \<open>Reserves\<close>

definition increase_provided_tao_reserve :: "netuid \<Rightarrow> nat \<Rightarrow> 'w subnet_pool \<Rightarrow> 'w subnet_pool" where
  "increase_provided_tao_reserve n tao s =
     s\<lparr>SubnetTaoProvided := (SubnetTaoProvided s)(n := sat_add u64_max (SubnetTaoProvided s n) tao)\<rparr>"

definition decrease_provided_tao_reserve :: "netuid \<Rightarrow> nat \<Rightarrow> 'w subnet_pool \<Rightarrow> 'w subnet_pool" where
  "decrease_provided_tao_reserve n tao s =
     (let subnet_tao = SubnetTAO s n;
          subnet_tao_provided = SubnetTaoProvided s n;
          remainder = subnet_tao_provided - tao;
          carry_over = tao - subnet_tao_provided
      in if carry_over = 0
         then s\<lparr>SubnetTaoProvided := (SubnetTaoProvided s)(n := remainder)\<rparr>
         else s\<lparr>SubnetTaoProvided := (SubnetTaoProvided s)(n := 0),
                SubnetTAO := (SubnetTAO s)(n := subnet_tao - carry_over)\<rparr>)"

definition increase_provided_alpha_reserve :: "netuid \<Rightarrow> nat \<Rightarrow> 'w subnet_pool \<Rightarrow> 'w subnet_pool" where
  "increase_provided_alpha_reserve n alpha s =
     s\<lparr>SubnetAlphaInProvided := (SubnetAlphaInProvided s)(n := sat_add u64_max (SubnetAlphaInProvided s n) alpha)\<rparr>"

definition decrease_provided_alpha_reserve :: "netuid \<Rightarrow> nat \<Rightarrow> 'w subnet_pool \<Rightarrow> 'w subnet_pool" where
  "decrease_provided_alpha_reserve n alpha s =
     (let subnet_alpha = SubnetAlphaIn s n;
          subnet_alpha_provided = SubnetAlphaInProvided s n;
          remainder = subnet_alpha_provided - alpha;
          carry_over = alpha - subnet_alpha_provided
      in if carry_over = 0
         then s\<lparr>SubnetAlphaInProvided := (SubnetAlphaInProvided s)(n := remainder)\<rparr>
         else s\<lparr>SubnetAlphaInProvided := (SubnetAlphaInProvided s)(n := 0),
                SubnetAlphaIn := (SubnetAlphaIn s)(n := subnet_alpha - carry_over)\<rparr>)"

section \<open>Swaps\<close>

definition swap_tao_for_alpha ::
    "'w swap_fun \<Rightarrow> netuid \<Rightarrow> nat \<Rightarrow> nat \<Rightarrow> 'w subnet_pool \<Rightarrow>
     (subtensor_error, swap_result \<times> 'w subnet_pool) result" where
  "swap_tao_for_alpha swap n tao price_limit s =
     (let mechanism_id = SubnetMechanism s n in
      if mechanism_id = 1
      then and_then (swap n Buy tao price_limit False s) (\<lambda>(r, w).
        let s = s\<lparr>amm := w\<rparr>;
            s = decrease_provided_alpha_reserve n (abs_as_u64 (alpha_reserve_delta r)) s;
            s = s\<lparr>SubnetAlphaOut := (SubnetAlphaOut s)(n := sat_add u64_max (SubnetAlphaOut s n) (amount_paid_out r)),
                  SubnetTAO := (SubnetTAO s)(n := sat_add u64_max (SubnetTAO s n) (as_u64 (tao_reserve_delta r))),
                  TotalStake := sat_add u64_max (TotalStake s) tao,
                  SubnetVolume := (SubnetVolume s)(n := sat_add u128_max (SubnetVolume s n) tao)\<rparr>
        in Inr (r, s))
      else Inr (\<lparr>amount_paid_in = tao, amount_paid_out = tao, fee_paid = 0,
                 tao_reserve_delta = 0, alpha_reserve_delta = 0\<rparr>, s))"

definition swap_alpha_for_tao ::
    "'w swap_fun \<Rightarrow> netuid \<Rightarrow> nat \<Rightarrow> nat \<Rightarrow> 'w subnet_pool \<Rightarrow>
     (subtensor_error, swap_result \<times> 'w subnet_pool) result" where
  "swap_alpha_for_tao swap n alpha price_limit s =
     (let mechanism_id = SubnetMechanism s n in
      if mechanism_id = 1
      then and_then (swap n Sell alpha price_limit False s) (\<lambda>(r, w).
        let s = s\<lparr>amm := w\<rparr>;
            s = s\<lparr>SubnetAlphaIn := (SubnetAlphaIn s)(n := sat_add u64_max (SubnetAlphaIn s n) (as_u64 (alpha_reserve_delta r))),
                  SubnetAlphaOut := (SubnetAlphaOut s)(n := SubnetAlphaOut s n - as_u64 (alpha_reserve_delta r))\<rparr>;
            s = decrease_provided_tao_reserve n (abs_as_u64 (tao_reserve_delta r)) s;
            s = s\<lparr>TotalStake := TotalStake s - amount_paid_out r,
                  SubnetVolume := (SubnetVolume s)(n := sat_add u128_max (SubnetVolume s n) (amount_paid_out r))\<rparr>
        in Inr (r, s))
      else Inr (\<lparr>amount_paid_in = alpha, amount_paid_out = alpha, fee_paid = 0,
                 tao_reserve_delta = 0, alpha_reserve_delta = 0\<rparr>, s))"

section \<open>Properties\<close>

text \<open>The reserve that the price is computed from is the sum of the protocol's and the
  providers' part.\<close>

definition tao_reserve :: "'w subnet_pool \<Rightarrow> netuid \<Rightarrow> nat" where
  "tao_reserve s n = SubnetTAO s n + SubnetTaoProvided s n"

definition alpha_reserve :: "'w subnet_pool \<Rightarrow> netuid \<Rightarrow> nat" where
  "alpha_reserve s n = SubnetAlphaIn s n + SubnetAlphaInProvided s n"

lemma decrease_tao_reserve:
  "tao_reserve (decrease_provided_tao_reserve n x s) m = tao_reserve s m - (if m = n then x else 0)"
  "alpha_reserve (decrease_provided_tao_reserve n x s) m = alpha_reserve s m"
  by (auto simp: tao_reserve_def alpha_reserve_def decrease_provided_tao_reserve_def Let_def)

lemma decrease_alpha_reserve:
  "alpha_reserve (decrease_provided_alpha_reserve n x s) m = alpha_reserve s m - (if m = n then x else 0)"
  "tao_reserve (decrease_provided_alpha_reserve n x s) m = tao_reserve s m"
  by (auto simp: tao_reserve_def alpha_reserve_def decrease_provided_alpha_reserve_def Let_def)

lemma decrease_alpha_keeps [simp]:
  "SubnetMechanism (decrease_provided_alpha_reserve n x s) = SubnetMechanism s"
  "SubnetTAO (decrease_provided_alpha_reserve n x s) = SubnetTAO s"
  "SubnetTaoProvided (decrease_provided_alpha_reserve n x s) = SubnetTaoProvided s"
  "SubnetAlphaOut (decrease_provided_alpha_reserve n x s) = SubnetAlphaOut s"
  "SubnetVolume (decrease_provided_alpha_reserve n x s) = SubnetVolume s"
  "TotalStake (decrease_provided_alpha_reserve n x s) = TotalStake s"
  by (simp_all add: decrease_provided_alpha_reserve_def Let_def)

lemma decrease_tao_keeps [simp]:
  "SubnetMechanism (decrease_provided_tao_reserve n x s) = SubnetMechanism s"
  "SubnetAlphaIn (decrease_provided_tao_reserve n x s) = SubnetAlphaIn s"
  "SubnetAlphaInProvided (decrease_provided_tao_reserve n x s) = SubnetAlphaInProvided s"
  "SubnetAlphaOut (decrease_provided_tao_reserve n x s) = SubnetAlphaOut s"
  "SubnetVolume (decrease_provided_tao_reserve n x s) = SubnetVolume s"
  "TotalStake (decrease_provided_tao_reserve n x s) = TotalStake s"
  by (simp_all add: decrease_provided_tao_reserve_def Let_def)

text \<open>A buy on a dynamic subnet moves the reserves by exactly the deltas that the market
  maker reports: alpha goes down, TAO goes up, the alpha paid out becomes outstanding and the
  paid TAO becomes stake, as long as no counter is at its limit; every other subnet keeps its
  reserves. The deltas of a buy are non-negative for TAO and non-positive for alpha, within
  what is in the pool.\<close>

theorem swap_tao_for_alpha_reserves:
  assumes "swap_tao_for_alpha swap n tao limit s = Inr (r, s')" "SubnetMechanism s n = 1"
    and "0 \<le> tao_reserve_delta r" "i64_min < alpha_reserve_delta r" "alpha_reserve_delta r \<le> 0"
    and "tao_reserve_delta r \<le> i64_max" "- alpha_reserve_delta r \<le> int (alpha_reserve s n)"
    and "SubnetTAO s n + nat (tao_reserve_delta r) \<le> u64_max"
    and "SubnetAlphaOut s n + amount_paid_out r \<le> u64_max" "TotalStake s + tao \<le> u64_max"
  shows "int (tao_reserve s' n) = int (tao_reserve s n) + tao_reserve_delta r
    \<and> int (alpha_reserve s' n) = int (alpha_reserve s n) + alpha_reserve_delta r
    \<and> SubnetAlphaOut s' n = SubnetAlphaOut s n + amount_paid_out r
    \<and> TotalStake s' = TotalStake s + tao
    \<and> (\<forall>m. m \<noteq> n \<longrightarrow> tao_reserve s' m = tao_reserve s m \<and> alpha_reserve s' m = alpha_reserve s m)"
proof -
  from assms(1,2) obtain w where s': "s' = (let s1 = decrease_provided_alpha_reserve n
        (abs_as_u64 (alpha_reserve_delta r)) (s\<lparr>amm := w\<rparr>) in
      s1\<lparr>SubnetAlphaOut := (SubnetAlphaOut s1)(n := sat_add u64_max (SubnetAlphaOut s1 n) (amount_paid_out r)),
         SubnetTAO := (SubnetTAO s1)(n := sat_add u64_max (SubnetTAO s1 n) (as_u64 (tao_reserve_delta r))),
         TotalStake := sat_add u64_max (TotalStake s1) tao,
         SubnetVolume := (SubnetVolume s1)(n := sat_add u128_max (SubnetVolume s1 n) tao)\<rparr>)"
    by (auto simp: swap_tao_for_alpha_def Let_def)
  have d: "as_u64 (tao_reserve_delta r) = nat (tao_reserve_delta r)"
    using assms(3,6) by (simp add: as_u64_def i64_max_def)
  have a: "int (abs_as_u64 (alpha_reserve_delta r)) = - alpha_reserve_delta r"
    using assms(4,5) by (simp add: abs_as_u64_def)
  have al: "alpha_reserve s' m = alpha_reserve s m - (if m = n then abs_as_u64 (alpha_reserve_delta r) else 0)" for m
    using decrease_alpha_reserve(1)[of n "abs_as_u64 (alpha_reserve_delta r)" "s\<lparr>amm := w\<rparr>" m]
    by (simp add: s' alpha_reserve_def Let_def)
  have ta: "tao_reserve s' m = tao_reserve s m + (if m = n then nat (tao_reserve_delta r) else 0)" for m
    using assms(8) by (simp add: s' tao_reserve_def Let_def d sat_add_def)
  show ?thesis
    using assms(3,7,9,10) a by (auto simp: al ta) (simp_all add: s' Let_def sat_add_def)
qed

theorem swap_tao_for_alpha_reserves_witness:
  defines "s \<equiv> \<lparr>SubnetMechanism = (\<lambda>_. 1), SubnetTAO = (\<lambda>_. 100), SubnetTaoProvided = (\<lambda>_. 5),
      SubnetAlphaIn = (\<lambda>_. 200), SubnetAlphaInProvided = (\<lambda>_. 3), SubnetAlphaOut = (\<lambda>_. 0),
      SubnetVolume = (\<lambda>_. 0), TotalStake = 0, amm = ()\<rparr>"
    and "r \<equiv> \<lparr>amount_paid_in = 10, amount_paid_out = 18, fee_paid = 0,
      tao_reserve_delta = 10, alpha_reserve_delta = -18\<rparr>"
  shows "\<exists>s'. swap_tao_for_alpha (\<lambda>n or x l d s. Inr (r, ())) 2 10 99 s = Inr (r, s') \<and>
    tao_reserve s' 2 = 115 \<and> alpha_reserve s' 2 = 185 \<and> alpha_reserve s' 3 = 203"
proof -
  obtain s' where s': "swap_tao_for_alpha (\<lambda>n or x l d s. Inr (r, ())) 2 10 99 s = Inr (r, s')"
    by (simp add: swap_tao_for_alpha_def s_def Let_def)
  from swap_tao_for_alpha_reserves[OF this] have "int (tao_reserve s' 2) = 115 \<and> int (alpha_reserve s' 2) = 185
      \<and> alpha_reserve s' 3 = 203"
    by (simp add: s_def r_def i64_min_def i64_max_def u64_max_def alpha_reserve_def tao_reserve_def)
  with s' show ?thesis by auto
qed

end
