(* ===== verification/Swap_Model.thy ===== *)
theory Swap_Model
  imports Tick_Bitmap Tick_Log Share_Pool Subnet_Pool
begin

text \<open>
  The swap pallet: positions, ticks and swaps (\<open>pallets/swap/src/position.rs\<close>, \<open>pallet/impls.rs\<close>, \<open>pallet/mod.rs\<close> and the
  fees of \<open>tick.rs\<close>), and the square root of \<open>primitives/safe-math/src/lib.rs\<close>.

  A \<open>U64F64\<close> is the number of its bits, so that prices are compared as numbers; the arithmetic of the
  crate is in \<open>sf_u\<close>, that of \<open>I64F64\<close> in the other fields of \<open>swap_fixed\<close>. The traits \<open>SubnetInfo\<close> and
  \<open>BalanceOps\<close> are fields of \<open>swap_env\<close> on a world \<open>'w\<close>, the order in which the positions of an account
  are iterated is \<open>positions_prefix\<close>.
\<close>

section \<open>Fixed-point numbers\<close>

record 'i swap_fixed =
  sf_u :: "nat ufixed"
  u_round :: "nat \<Rightarrow> nat"
  min_sqrt_price :: nat
  max_sqrt_price :: nat
  init_epsilon :: nat
  limit_epsilon :: nat
  x_of_u :: "nat \<Rightarrow> 'i"
  x_of_u64 :: "nat \<Rightarrow> 'i"
  x_sub :: "'i \<Rightarrow> 'i \<Rightarrow> 'i"
  x_mul :: "'i \<Rightarrow> 'i \<Rightarrow> 'i"
  x_to_u64 :: "'i \<Rightarrow> nat"

text \<open>\<open>FixedExt::abs_diff\<close> and \<open>FixedExt::checked_sqrt\<close> at an unsigned type: bisection, with at most 129 rounds.\<close>

definition abs_diff :: "nat ufixed \<Rightarrow> nat \<Rightarrow> nat \<Rightarrow> nat" where
  "abs_diff fx a b = (if a < b then f_sub fx b a else f_sub fx a b)"

function sqrt_loop :: "nat ufixed \<Rightarrow> nat \<Rightarrow> nat \<Rightarrow> nat \<Rightarrow> nat \<Rightarrow> nat \<Rightarrow> nat \<Rightarrow> nat" where
  "sqrt_loop fx x epsilon iteration high low middle =
     (let check_val = f_safe_div fx x middle in
      if abs_diff fx check_val middle > epsilon
      then let high = (if check_val < middle then middle else high);
               low = (if check_val < middle then low else middle);
               middle = f_safe_div fx (f_add fx high low) (of_u64 fx 2);
               iteration = iteration + 1
           in if iteration > 128 then middle else sqrt_loop fx x epsilon iteration high low middle
      else middle)"
  by pat_completeness auto
termination by (relation "measure (\<lambda>(fx, x, epsilon, iteration, high, low, middle). 128 - iteration)") auto

declare sqrt_loop.simps [simp del]

definition checked_sqrt :: "nat ufixed \<Rightarrow> nat \<Rightarrow> nat \<Rightarrow> nat option" where
  "checked_sqrt fx x epsilon =
     (let one = of_u64 fx 1;
          high = (if x > one then x else one);
          low = (if x > one then of_u64 fx 0 else x);
          middle = f_safe_div fx (f_add fx high low) (of_u64 fx 2)
      in Some (sqrt_loop fx x epsilon 0 high low middle))"

section \<open>State\<close>

datatype swap_error =
  FeeRateTooHigh | InsufficientInputAmount | InsufficientLiquidity | PriceLimitExceeded | InsufficientBalance
| LiquidityNotFound | InvalidTickRange | MaxPositionsExceeded | TooManySwapSteps | InvalidLiquidityValue
| ReservesTooLow | SwapSubNetworkDoesNotExist | UserLiquidityDisabled | SwapBadOrigin | BalanceError nat

record 'i tick =
  liquidity_net :: int
  liquidity_gross :: nat
  fees_out_tao :: 'i
  fees_out_alpha :: 'i

record 'i position =
  pos_id :: nat
  pos_netuid :: netuid
  tick_low :: tick_index
  tick_high :: tick_index
  pos_liquidity :: nat
  fees_tao :: 'i
  fees_alpha :: 'i

record ('a, 'i, 'w) swap_state =
  FeeRate :: "netuid \<Rightarrow> nat"
  FeeGlobalTao :: "netuid \<Rightarrow> nat"
  FeeGlobalAlpha :: "netuid \<Rightarrow> nat"
  Ticks :: "netuid \<Rightarrow> tick_index \<Rightarrow> 'i tick option"
  SwapV3Initialized :: "netuid \<Rightarrow> bool"
  AlphaSqrtPrice :: "netuid \<Rightarrow> nat"
  CurrentTick :: "netuid \<Rightarrow> tick_index"
  CurrentLiquidity :: "netuid \<Rightarrow> nat"
  EnabledUserLiquidity :: "netuid \<Rightarrow> bool"
  Positions :: "netuid \<Rightarrow> 'a \<Rightarrow> nat \<Rightarrow> 'i position option"
  LastPositionId :: nat
  TickIndexBitmapWords :: bitmap_words
  sw_world :: 'w

record ('a, 'i, 'w) swap_env =
  sw_fixed :: "'i swap_fixed"
  si_tao_reserve :: "netuid \<Rightarrow> 'w \<Rightarrow> nat"
  si_alpha_reserve :: "netuid \<Rightarrow> 'w \<Rightarrow> nat"
  si_exists :: "netuid \<Rightarrow> 'w \<Rightarrow> bool"
  si_mechanism :: "netuid \<Rightarrow> 'w \<Rightarrow> nat"
  si_is_owner :: "'a \<Rightarrow> netuid \<Rightarrow> 'w \<Rightarrow> bool"
  bo_tao_balance :: "'a \<Rightarrow> 'w \<Rightarrow> nat"
  bo_alpha_balance :: "netuid \<Rightarrow> 'a \<Rightarrow> 'a \<Rightarrow> 'w \<Rightarrow> nat"
  bo_increase_balance :: "'a \<Rightarrow> nat \<Rightarrow> 'w \<Rightarrow> 'w"
  bo_decrease_balance :: "'a \<Rightarrow> nat \<Rightarrow> 'w \<Rightarrow> (swap_error, nat \<times> 'w) result"
  bo_increase_stake :: "'a \<Rightarrow> 'a \<Rightarrow> netuid \<Rightarrow> nat \<Rightarrow> 'w \<Rightarrow> (swap_error, 'w) result"
  bo_decrease_stake :: "'a \<Rightarrow> 'a \<Rightarrow> netuid \<Rightarrow> nat \<Rightarrow> 'w \<Rightarrow> (swap_error, nat \<times> 'w) result"
  bo_increase_provided_tao_reserve :: "netuid \<Rightarrow> nat \<Rightarrow> 'w \<Rightarrow> 'w"
  bo_decrease_provided_tao_reserve :: "netuid \<Rightarrow> nat \<Rightarrow> 'w \<Rightarrow> 'w"
  bo_increase_provided_alpha_reserve :: "netuid \<Rightarrow> nat \<Rightarrow> 'w \<Rightarrow> 'w"
  bo_decrease_provided_alpha_reserve :: "netuid \<Rightarrow> nat \<Rightarrow> 'w \<Rightarrow> 'w"
  protocol_account_id :: 'a
  MaxFeeRate :: nat
  MaxPositions :: nat
  MinimumLiquidity :: nat
  MinimumReserve :: nat
  sqrt_u128 :: "nat \<Rightarrow> nat"
  positions_prefix :: "(nat \<Rightarrow> 'i position option) \<Rightarrow> 'i position list"

abbreviation sw_u :: "('a, 'i, 'w) swap_env \<Rightarrow> nat ufixed" where
  "sw_u env \<equiv> sf_u (sw_fixed env)"

definition i128_max :: int where "i128_max = 2 ^ 127 - 1"
definition i128_min :: int where "i128_min = - (2 ^ 127)"

section \<open>Ticks\<close>

definition liquidity_net_as_u64 :: "'i tick \<Rightarrow> nat" where
  "liquidity_net_as_u64 tick = nat (min \<bar>liquidity_net tick\<bar> (int u64_max))"

definition default_tick :: "'i swap_fixed \<Rightarrow> 'i tick" where
  "default_tick fx = \<lparr>liquidity_net = 0, liquidity_gross = 0, fees_out_tao = x_of_u64 fx 0, fees_out_alpha = x_of_u64 fx 0\<rparr>"

definition tick_or_default :: "'i swap_fixed \<Rightarrow> ('a, 'i, 'w) swap_state \<Rightarrow> netuid \<Rightarrow> tick_index \<Rightarrow> 'i tick" where
  "tick_or_default fx s n t = (case Ticks s n t of Some tick \<Rightarrow> tick | None \<Rightarrow> default_tick fx)"

definition fee_global :: "'i swap_fixed \<Rightarrow> ('a, 'i, 'w) swap_state \<Rightarrow> netuid \<Rightarrow> bool \<Rightarrow> 'i" where
  "fee_global fx s n quote = (if quote then x_of_u fx (FeeGlobalTao s n) else x_of_u fx (FeeGlobalAlpha s n))"

definition fees_out :: "'i tick \<Rightarrow> bool \<Rightarrow> 'i" where
  "fees_out tick quote = (if quote then fees_out_tao tick else fees_out_alpha tick)"

definition fees_above :: "'i swap_fixed \<Rightarrow> ('a, 'i, 'w) swap_state \<Rightarrow> netuid \<Rightarrow> tick_index \<Rightarrow> bool \<Rightarrow> 'i" where
  "fees_above fx s n t quote =
     (let current_tick = current_bounded (CurrentTick s n);
          tick = tick_or_default fx s n t
      in if t \<le> current_tick then x_sub fx (fee_global fx s n quote) (fees_out tick quote) else fees_out tick quote)"

definition fees_below :: "'i swap_fixed \<Rightarrow> ('a, 'i, 'w) swap_state \<Rightarrow> netuid \<Rightarrow> tick_index \<Rightarrow> bool \<Rightarrow> 'i" where
  "fees_below fx s n t quote =
     (let current_tick = current_bounded (CurrentTick s n);
          tick = tick_or_default fx s n t
      in if t \<le> current_tick then fees_out tick quote else x_sub fx (fee_global fx s n quote) (fees_out tick quote))"

definition as_sqrt_price_bounded :: "'i swap_fixed \<Rightarrow> tick_index \<Rightarrow> nat" where
  "as_sqrt_price_bounded fx t =
     (case try_to_sqrt_price t of
        Inr p \<Rightarrow> p
      | Inl _ \<Rightarrow> if t \<ge> tick_MAX then max_sqrt_price fx else min_sqrt_price fx)"

definition from_sqrt_price_bounded :: "'i swap_fixed \<Rightarrow> nat \<Rightarrow> tick_index" where
  "from_sqrt_price_bounded fx sqrt_price =
     (case try_from_sqrt_price sqrt_price of
        Inr index \<Rightarrow> index
      | Inl _ \<Rightarrow> let max_price = as_sqrt_price_bounded fx tick_MAX
                 in if sqrt_price > max_price then tick_MAX else tick_MIN)"

section \<open>Positions\<close>

definition next_position_id :: "('a, 'i, 'w) swap_state \<Rightarrow> nat \<times> ('a, 'i, 'w) swap_state" where
  "next_position_id s = (let new = sat_add u128_max (LastPositionId s) 1 in (new, s\<lparr>LastPositionId := new\<rparr>))"

definition fees_in_range :: "'i swap_fixed \<Rightarrow> ('a, 'i, 'w) swap_state \<Rightarrow> 'i position \<Rightarrow> bool \<Rightarrow> 'i" where
  "fees_in_range fx s pos quote =
     (let n = pos_netuid pos
      in x_sub fx (x_sub fx (fee_global fx s n quote) (fees_below fx s n (tick_low pos) quote))
           (fees_above fx s n (tick_high pos) quote))"

definition position_new ::
    "'i swap_fixed \<Rightarrow> ('a, 'i, 'w) swap_state \<Rightarrow> nat \<Rightarrow> netuid \<Rightarrow> tick_index \<Rightarrow> tick_index \<Rightarrow> nat \<Rightarrow> 'i position" where
  "position_new fx s i n low high liquidity =
     (let pos = \<lparr>pos_id = i, pos_netuid = n, tick_low = low, tick_high = high, pos_liquidity = liquidity,
                 fees_tao = x_of_u64 fx 0, fees_alpha = x_of_u64 fx 0\<rparr>;
          pos = pos\<lparr>fees_tao := fees_in_range fx s pos True\<rparr>
      in pos\<lparr>fees_alpha := fees_in_range fx s pos False\<rparr>)"

definition to_token_amounts :: "'i swap_fixed \<Rightarrow> 'i position \<Rightarrow> nat \<Rightarrow> (swap_error, nat \<times> nat) result" where
  "to_token_amounts fx pos sqrt_price_curr =
     (let u = sf_u fx; one = of_u64 u 1 in
      and_then (map_err (\<lambda>_. InvalidTickRange) (try_to_sqrt_price (tick_low pos))) (\<lambda>sqrt_price_low.
      and_then (map_err (\<lambda>_. InvalidTickRange) (try_to_sqrt_price (tick_high pos))) (\<lambda>sqrt_price_high.
      let liquidity_fixed = of_u64 u (pos_liquidity pos) in
      Inr (if sqrt_price_curr < sqrt_price_low
           then (0, to_u64 u (f_mul u liquidity_fixed (f_sub u (f_safe_div u one sqrt_price_low) (f_safe_div u one sqrt_price_high))))
           else if sqrt_price_curr > sqrt_price_high
           then (to_u64 u (f_mul u liquidity_fixed (f_sub u sqrt_price_high sqrt_price_low)), 0)
           else (to_u64 u (f_mul u liquidity_fixed (f_sub u sqrt_price_curr sqrt_price_low)),
                 to_u64 u (f_mul u liquidity_fixed (f_sub u (f_safe_div u one sqrt_price_curr) (f_safe_div u one sqrt_price_high))))))))"

definition collect_fees :: "'i swap_fixed \<Rightarrow> ('a, 'i, 'w) swap_state \<Rightarrow> 'i position \<Rightarrow> (nat \<times> nat) \<times> 'i position" where
  "collect_fees fx s pos =
     (let fee_tao_agg = fees_in_range fx s pos True;
          fee_alpha_agg = fees_in_range fx s pos False;
          fee_tao = x_sub fx fee_tao_agg (fees_tao pos);
          fee_alpha = x_sub fx fee_alpha_agg (fees_alpha pos);
          pos = pos\<lparr>fees_tao := fee_tao_agg, fees_alpha := fee_alpha_agg\<rparr>;
          liquidity_frac = x_of_u64 fx (pos_liquidity pos)
      in ((x_to_u64 fx (x_mul fx liquidity_frac fee_tao), x_to_u64 fx (x_mul fx liquidity_frac fee_alpha)), pos))"

section \<open>Liquidity\<close>

definition add_liquidity_at_index ::
    "'i swap_fixed \<Rightarrow> netuid \<Rightarrow> tick_index \<Rightarrow> nat \<Rightarrow> bool \<Rightarrow> ('a, 'i, 'w) swap_state \<Rightarrow> ('a, 'i, 'w) swap_state" where
  "add_liquidity_at_index fx n t liquidity upper s =
     (let net_liquidity_change = (if upper then - int liquidity else int liquidity);
          tick = (case Ticks s n t of
             Some tick \<Rightarrow> tick\<lparr>liquidity_net := clamp i128_min i128_max (liquidity_net tick + net_liquidity_change),
                               liquidity_gross := sat_add u64_max (liquidity_gross tick) liquidity\<rparr>
           | None \<Rightarrow> let current_tick = current_bounded (CurrentTick s n)
                     in \<lparr>liquidity_net = net_liquidity_change, liquidity_gross = liquidity,
                         fees_out_tao = (if t > current_tick then x_of_u fx (FeeGlobalTao s n) else x_of_u64 fx 0),
                         fees_out_alpha = (if t > current_tick then x_of_u fx (FeeGlobalAlpha s n) else x_of_u64 fx 0)\<rparr>)
      in s\<lparr>Ticks := (Ticks s)(n := (Ticks s n)(t \<mapsto> tick)),
           TickIndexBitmapWords := insert_tick (TickIndexBitmapWords s) n t\<rparr>)"

definition remove_liquidity_at_index ::
    "netuid \<Rightarrow> tick_index \<Rightarrow> nat \<Rightarrow> bool \<Rightarrow> ('a, 'i, 'w) swap_state \<Rightarrow> ('a, 'i, 'w) swap_state" where
  "remove_liquidity_at_index n t liquidity upper s =
     (let net_reduction = (if upper then - int liquidity else int liquidity) in
      case Ticks s n t of
        None \<Rightarrow> s
      | Some tick \<Rightarrow>
          let tick = tick\<lparr>liquidity_net := clamp i128_min i128_max (liquidity_net tick - net_reduction),
                         liquidity_gross := liquidity_gross tick - liquidity\<rparr>
          in if liquidity_gross tick = 0
             then s\<lparr>Ticks := (Ticks s)(n := (Ticks s n)(t := None)),
                    TickIndexBitmapWords := remove_tick (TickIndexBitmapWords s) n t\<rparr>
             else s\<lparr>Ticks := (Ticks s)(n := (Ticks s n)(t \<mapsto> tick))\<rparr>)"

definition update_liquidity_if_needed ::
    "netuid \<Rightarrow> tick_index \<Rightarrow> tick_index \<Rightarrow> int \<Rightarrow> ('a, 'i, 'w) swap_state \<Rightarrow> ('a, 'i, 'w) swap_state" where
  "update_liquidity_if_needed n low high liquidity s =
     (let current_tick_index = current_bounded (CurrentTick s n) in
      if low \<le> current_tick_index \<and> current_tick_index < high
      then let amount = nat (min \<bar>liquidity\<bar> (int u64_max)) in
           s\<lparr>CurrentLiquidity := (CurrentLiquidity s)
               (n := (if liquidity < 0 then CurrentLiquidity s n - amount else sat_add u64_max (CurrentLiquidity s n) amount))\<rparr>
      else s)"

definition clamp_sqrt_price ::
    "'i swap_fixed \<Rightarrow> netuid \<Rightarrow> tick_index \<Rightarrow> ('a, 'i, 'w) swap_state \<Rightarrow> ('a, 'i, 'w) swap_state" where
  "clamp_sqrt_price fx n t s =
     (if t \<ge> tick_MAX \<or> t \<le> tick_MIN
      then s\<lparr>AlphaSqrtPrice := (AlphaSqrtPrice s)(n := as_sqrt_price_bounded fx t)\<rparr> else s)"

definition count_positions :: "('a, 'i, 'w) swap_env \<Rightarrow> ('a, 'i, 'w) swap_state \<Rightarrow> netuid \<Rightarrow> 'a \<Rightarrow> nat" where
  "count_positions env s n account = length (positions_prefix env (Positions s n account))"

definition add_liquidity_not_insert ::
    "('a, 'i, 'w) swap_env \<Rightarrow> netuid \<Rightarrow> 'a \<Rightarrow> tick_index \<Rightarrow> tick_index \<Rightarrow> nat \<Rightarrow> ('a, 'i, 'w) swap_state \<Rightarrow>
     (swap_error, ('i position \<times> nat \<times> nat) \<times> ('a, 'i, 'w) swap_state) result" where
  "add_liquidity_not_insert env n coldkey low high liquidity s =
     (let fx = sw_fixed env in
      ensure (count_positions env s n coldkey \<le> MaxPositions env) MaxPositionsExceeded
     (let s = add_liquidity_at_index fx n low liquidity False s;
          s = add_liquidity_at_index fx n high liquidity True s;
          current_tick_index = current_bounded (CurrentTick s n);
          s = clamp_sqrt_price fx n current_tick_index s;
          s = update_liquidity_if_needed n low high (int liquidity) s;
          (position_id, s) = next_position_id s;
          pos = position_new fx s position_id n low high liquidity;
          current_price_sqrt = AlphaSqrtPrice s n
      in and_then (to_token_amounts fx pos current_price_sqrt) (\<lambda>(tao, alpha).
         Inr ((pos, tao, alpha), s\<lparr>SwapV3Initialized := (SwapV3Initialized s)(n := True)\<rparr>))))"

definition insert_position ::
    "netuid \<Rightarrow> 'a \<Rightarrow> nat \<Rightarrow> 'i position \<Rightarrow> ('a, 'i, 'w) swap_state \<Rightarrow> ('a, 'i, 'w) swap_state" where
  "insert_position n account i pos s =
     s\<lparr>Positions := (Positions s)(n := (Positions s n)(account := (Positions s n account)(i \<mapsto> pos)))\<rparr>"

definition remove_position ::
    "netuid \<Rightarrow> 'a \<Rightarrow> nat \<Rightarrow> ('a, 'i, 'w) swap_state \<Rightarrow> ('a, 'i, 'w) swap_state" where
  "remove_position n account i s =
     s\<lparr>Positions := (Positions s)(n := (Positions s n)(account := (Positions s n account)(i := None)))\<rparr>"

definition do_add_liquidity ::
    "('a, 'i, 'w) swap_env \<Rightarrow> netuid \<Rightarrow> 'a \<Rightarrow> 'a \<Rightarrow> tick_index \<Rightarrow> tick_index \<Rightarrow> nat \<Rightarrow> ('a, 'i, 'w) swap_state \<Rightarrow>
     (swap_error, (nat \<times> nat \<times> nat) \<times> ('a, 'i, 'w) swap_state) result" where
  "do_add_liquidity env n coldkey hotkey low high liquidity s =
     ensure (EnabledUserLiquidity s n) UserLiquidityDisabled
    (and_then (add_liquidity_not_insert env n coldkey low high liquidity s) (\<lambda>((pos, tao, alpha), s).
     ensure (bo_tao_balance env coldkey (sw_world s) \<ge> tao \<and> bo_alpha_balance env n coldkey hotkey (sw_world s) \<ge> alpha)
       InsufficientBalance
    (ensure (liquidity \<ge> MinimumLiquidity env) InvalidLiquidityValue
    (Inr ((pos_id pos, tao, alpha), insert_position n coldkey (pos_id pos) pos s)))))"

record update_liquidity_result =
  ul_tao :: nat
  ul_alpha :: nat
  ul_fee_tao :: nat
  ul_fee_alpha :: nat
  ul_removed :: bool

definition do_remove_liquidity ::
    "('a, 'i, 'w) swap_env \<Rightarrow> netuid \<Rightarrow> 'a \<Rightarrow> nat \<Rightarrow> ('a, 'i, 'w) swap_state \<Rightarrow>
     (swap_error, update_liquidity_result \<times> ('a, 'i, 'w) swap_state) result" where
  "do_remove_liquidity env n coldkey position_id s =
     (let fx = sw_fixed env in
      and_then (ok_or (Positions s n coldkey position_id) LiquidityNotFound) (\<lambda>pos.
      let ((fee_tao, fee_alpha), pos) = collect_fees fx s pos;
          current_price = AlphaSqrtPrice s n
      in and_then (to_token_amounts fx pos current_price) (\<lambda>(tao, alpha).
      let s = remove_liquidity_at_index n (tick_low pos) (pos_liquidity pos) False s;
          s = remove_liquidity_at_index n (tick_high pos) (pos_liquidity pos) True s;
          s = update_liquidity_if_needed n (tick_low pos) (tick_high pos) (- int (pos_liquidity pos)) s;
          s = remove_position n coldkey position_id s
      in Inr (\<lparr>ul_tao = tao, ul_alpha = alpha, ul_fee_tao = fee_tao, ul_fee_alpha = fee_alpha, ul_removed = True\<rparr>, s))))"

text \<open>\<open>abs\<close> on an \<open>i64\<close>, which wraps at the minimum.\<close>

definition i64_abs :: "int \<Rightarrow> int" where
  "i64_abs x = (if x = i64_min then i64_min else \<bar>x\<bar>)"

definition do_modify_position ::
    "('a, 'i, 'w) swap_env \<Rightarrow> netuid \<Rightarrow> 'a \<Rightarrow> 'a \<Rightarrow> nat \<Rightarrow> int \<Rightarrow> ('a, 'i, 'w) swap_state \<Rightarrow>
     (swap_error, update_liquidity_result \<times> ('a, 'i, 'w) swap_state) result" where
  "do_modify_position env n coldkey hotkey position_id liquidity_delta s =
     (let fx = sw_fixed env; u = sf_u fx in
      ensure (EnabledUserLiquidity s n) UserLiquidityDisabled
     (and_then (ok_or (Positions s n coldkey position_id) LiquidityNotFound) (\<lambda>pos.
      ensure (i64_abs liquidity_delta \<ge> as_i64 (MinimumLiquidity env)) InvalidLiquidityValue
     (let delta_liquidity_abs = nat \<bar>liquidity_delta\<bar>;
          current_price_sqrt = AlphaSqrtPrice s n in
      and_then (map_err (\<lambda>_. InvalidTickRange) (try_to_sqrt_price (tick_low pos))) (\<lambda>sqrt_pa.
      and_then (map_err (\<lambda>_. InvalidTickRange) (try_to_sqrt_price (tick_high pos))) (\<lambda>sqrt_pb.
      let (sqrt_price_box, s) =
            (if current_price_sqrt < sqrt_pa then (sqrt_pa, s)
             else if current_price_sqrt > sqrt_pb then (sqrt_pb, s)
             else (current_price_sqrt,
                   s\<lparr>CurrentLiquidity := (CurrentLiquidity s)
                      (n := (if liquidity_delta > 0 then sat_add u64_max (CurrentLiquidity s n) delta_liquidity_abs
                             else CurrentLiquidity s n - delta_liquidity_abs))\<rparr>));
          mul = f_sub u (f_safe_div u (of_u64 u 1) sqrt_price_box) (f_safe_div u (of_u64 u 1) sqrt_pb);
          alpha = f_mul u (of_u64 u delta_liquidity_abs) mul;
          tao = f_mul u (of_u64 u delta_liquidity_abs) (f_sub u sqrt_price_box sqrt_pa)
      in and_then (if liquidity_delta > 0
            then ensure (bo_tao_balance env coldkey (sw_world s) * 2 ^ 64 \<ge> tao \<and>
                         bo_alpha_balance env n coldkey hotkey (sw_world s) * 2 ^ 64 \<ge> alpha) InsufficientBalance (Inr ())
            else ensure (pos_liquidity pos \<ge> delta_liquidity_abs) InsufficientLiquidity (Inr ())) (\<lambda>_.
      let ((fee_tao, fee_alpha), pos) = collect_fees fx s pos;
          remove = (liquidity_delta < 0 \<and> pos_liquidity pos - delta_liquidity_abs < MinimumLiquidity env);
          delta_liquidity_abs = (if remove then pos_liquidity pos else delta_liquidity_abs);
          (pos, s) =
            (if liquidity_delta > 0
             then let s = add_liquidity_at_index fx n (tick_low pos) delta_liquidity_abs False s;
                      s = add_liquidity_at_index fx n (tick_high pos) delta_liquidity_abs True s
                  in (pos\<lparr>pos_liquidity := sat_add u64_max (pos_liquidity pos) delta_liquidity_abs\<rparr>, s)
             else let s = remove_liquidity_at_index n (tick_low pos) delta_liquidity_abs False s;
                      s = remove_liquidity_at_index n (tick_high pos) delta_liquidity_abs True s
                  in (pos\<lparr>pos_liquidity := pos_liquidity pos - delta_liquidity_abs\<rparr>, s));
          s = (if remove then remove_position n coldkey position_id s else insert_position n coldkey (pos_id pos) pos s)
      in Inr (\<lparr>ul_tao = to_u64 u tao, ul_alpha = to_u64 u alpha, ul_fee_tao = fee_tao, ul_fee_alpha = fee_alpha,
               ul_removed = remove\<rparr>, s))))))))"

section \<open>Initialization and protocol liquidity\<close>

definition maybe_initialize_v3 ::
    "('a, 'i, 'w) swap_env \<Rightarrow> netuid \<Rightarrow> ('a, 'i, 'w) swap_state \<Rightarrow> (swap_error, ('a, 'i, 'w) swap_state) result" where
  "maybe_initialize_v3 env n s =
     (if SwapV3Initialized s n then Inr s
      else let fx = sw_fixed env; u = sf_u fx;
               tao_reserve = si_tao_reserve env n (sw_world s);
               alpha_reserve = si_alpha_reserve env n (sw_world s);
               price = f_safe_div u (of_u64 u tao_reserve) (of_u64 u alpha_reserve);
               current_sqrt_price = (case checked_sqrt u price (init_epsilon fx) of Some p \<Rightarrow> p | None \<Rightarrow> of_u64 u 0);
               s = s\<lparr>AlphaSqrtPrice := (AlphaSqrtPrice s)(n := current_sqrt_price)\<rparr>;
               current_tick = from_sqrt_price_bounded fx current_sqrt_price;
               s = s\<lparr>CurrentTick := (CurrentTick s)(n := current_tick)\<rparr>;
               liquidity = sqrt_u128 env (sat_mul u128_max tao_reserve alpha_reserve) mod 2 ^ 64
           in and_then (add_liquidity_not_insert env n (protocol_account_id env) tick_MIN tick_MAX liquidity s)
                (\<lambda>((pos, _, _), s). Inr (insert_position n (protocol_account_id env) (pos_id pos) pos s)))"

definition adjust_protocol_liquidity ::
    "('a, 'i, 'w) swap_env \<Rightarrow> netuid \<Rightarrow> nat \<Rightarrow> nat \<Rightarrow> ('a, 'i, 'w) swap_state \<Rightarrow> ('a, 'i, 'w) swap_state" where
  "adjust_protocol_liquidity env n tao_delta alpha_delta s =
     (case positions_prefix env (Positions s n (protocol_account_id env)) of
        [] \<Rightarrow> s
      | pos # _ \<Rightarrow>
          (case to_token_amounts (sw_fixed env) pos (AlphaSqrtPrice s n) of
             Inl _ \<Rightarrow> s
           | Inr (tao, alpha) \<Rightarrow>
               let new_tao_reserve = sat_add u64_max tao tao_delta;
                   new_alpha_reserve = sat_add u64_max alpha alpha_delta;
                   new_liquidity = sqrt_u128 env (sat_mul u128_max new_tao_reserve new_alpha_reserve) mod 2 ^ 64;
                   pos = pos\<lparr>pos_liquidity := new_liquidity\<rparr>
               in insert_position n (protocol_account_id env) (pos_id pos) pos s))"

section \<open>A swap step\<close>

datatype swap_step_action = Crossing | Stop

record swap_step =
  st_netuid :: netuid
  st_order_type :: order_type
  current_liquidity :: nat
  possible_delta_in :: nat
  target_sqrt_price :: nat
  limit_sqrt_price :: nat
  current_sqrt_price :: nat
  edge_sqrt_price :: nat
  edge_tick :: tick_index
  st_action :: swap_step_action
  st_delta_in :: nat
  final_price :: nat
  st_fee :: nat

record swap_step_result =
  ssr_amount_to_take :: nat
  ssr_fee_paid :: nat
  ssr_delta_in :: nat
  ssr_delta_out :: nat

definition MAX_SWAP_ITERATIONS :: nat where "MAX_SWAP_ITERATIONS = 1000"

definition min_price :: "'i swap_fixed \<Rightarrow> nat" where
  "min_price fx = (let u = sf_u fx in
     to_u64 u (f_mul u (f_mul u (min_sqrt_price fx) (min_sqrt_price fx)) (of_u64 u 1000000000)))"

definition max_price :: "'i swap_fixed \<Rightarrow> nat" where
  "max_price fx = (let u = sf_u fx in
     to_u64 u (u_round fx (f_mul u (f_mul u (max_sqrt_price fx) (max_sqrt_price fx)) (of_u64 u 1000000000))))"

text \<open>\<open>unwrap_or\<close> on a result.\<close>

definition ok_or_else :: "('e, 'v) result \<Rightarrow> 'v \<Rightarrow> 'v" where
  "ok_or_else r d = (case r of Inr v \<Rightarrow> v | Inl _ \<Rightarrow> d)"

definition some_or :: "'v option \<Rightarrow> 'v \<Rightarrow> 'v" where
  "some_or x d = (case x of Some v \<Rightarrow> v | None \<Rightarrow> d)"

definition tick_edge ::
    "'i swap_fixed \<Rightarrow> ('a, 'i, 'w) swap_state \<Rightarrow> netuid \<Rightarrow> tick_index \<Rightarrow> order_type \<Rightarrow> tick_index" where
  "tick_edge fx s n current_tick order =
     (let words = TickIndexBitmapWords s in
      case order of
        Buy \<Rightarrow> some_or (find_closest_higher words n (ok_or_else (tick_next current_tick) tick_MAX)) tick_MAX
      | Sell \<Rightarrow>
          let current_price = AlphaSqrtPrice s n;
              current_tick_price = as_sqrt_price_bounded fx current_tick;
              is_active = tick_is_active words n current_tick
          in if is_active \<and> current_price > current_tick_price
             then some_or (find_closest_lower words n current_tick) tick_MIN
             else some_or (find_closest_lower words n (ok_or_else (tick_prev current_tick) tick_MIN)) tick_MIN)"

definition calculate_fee_amount :: "'i swap_fixed \<Rightarrow> ('a, 'i, 'w) swap_state \<Rightarrow> netuid \<Rightarrow> nat \<Rightarrow> nat" where
  "calculate_fee_amount fx s n amount =
     (let u = sf_u fx; fee_rate = f_safe_div u (of_u64 u (FeeRate s n)) (of_u64 u u16_max)
      in to_u64 u (f_mul u (of_u64 u amount) fee_rate))"

definition current_liquidity_safe :: "('a, 'i, 'w) swap_env \<Rightarrow> ('a, 'i, 'w) swap_state \<Rightarrow> netuid \<Rightarrow> nat" where
  "current_liquidity_safe env s n = of_u64 (sw_u env) (CurrentLiquidity s n - MinimumLiquidity env)"

definition add_fees ::
    "('a, 'i, 'w) swap_env \<Rightarrow> netuid \<Rightarrow> order_type \<Rightarrow> nat \<Rightarrow> ('a, 'i, 'w) swap_state \<Rightarrow> ('a, 'i, 'w) swap_state" where
  "add_fees env n order fee s =
     (let u = sw_u env; liquidity_curr = current_liquidity_safe env s n in
      if liquidity_curr = 0 then s
      else let fee_fixed = of_u64 u fee in
           case order of
             Sell \<Rightarrow> s\<lparr>FeeGlobalAlpha := (FeeGlobalAlpha s)(n := f_add u (FeeGlobalAlpha s n) (f_safe_div u fee_fixed liquidity_curr))\<rparr>
           | Buy \<Rightarrow> s\<lparr>FeeGlobalTao := (FeeGlobalTao s)(n := f_add u (FeeGlobalTao s n) (f_safe_div u fee_fixed liquidity_curr))\<rparr>)"

definition convert_deltas :: "'i swap_fixed \<Rightarrow> ('a, 'i, 'w) swap_state \<Rightarrow> netuid \<Rightarrow> order_type \<Rightarrow> nat \<Rightarrow> nat" where
  "convert_deltas fx s n order delta_in =
     (if delta_in = 0 then 0
      else let u = sf_u fx;
               liquidity_curr = of_u64 u (CurrentLiquidity s n);
               sqrt_price_curr = AlphaSqrtPrice s n;
               delta_fixed = of_u64 u delta_in;
               res = (case order of
                 Sell \<Rightarrow> let denom = f_add u (f_safe_div u liquidity_curr sqrt_price_curr) delta_fixed;
                             a = f_safe_div u liquidity_curr denom;
                             b = f_mul u a sqrt_price_curr
                         in f_mul u delta_fixed b
               | Buy \<Rightarrow> let a = f_mul u (f_add u (f_mul u liquidity_curr sqrt_price_curr) delta_fixed) sqrt_price_curr;
                            b = f_safe_div u liquidity_curr a
                        in f_mul u b delta_fixed)
           in to_u64 u res)"

definition sqrt_price_target :: "'i swap_fixed \<Rightarrow> order_type \<Rightarrow> nat \<Rightarrow> nat \<Rightarrow> nat \<Rightarrow> nat" where
  "sqrt_price_target fx order liquidity_curr sqrt_price_curr delta_in =
     (let u = sf_u fx; delta_fixed = of_u64 u delta_in; one = of_u64 u 1 in
      if liquidity_curr = 0
      then (case order of Sell \<Rightarrow> of_u64 u (min_price fx) | Buy \<Rightarrow> of_u64 u (max_price fx))
      else case order of
             Sell \<Rightarrow> f_safe_div u one (f_add u (f_safe_div u delta_fixed liquidity_curr) (f_safe_div u one sqrt_price_curr))
           | Buy \<Rightarrow> f_add u (f_safe_div u delta_fixed liquidity_curr) sqrt_price_curr)"

definition step_new ::
    "('a, 'i, 'w) swap_env \<Rightarrow> ('a, 'i, 'w) swap_state \<Rightarrow> netuid \<Rightarrow> order_type \<Rightarrow> nat \<Rightarrow> nat \<Rightarrow> swap_step" where
  "step_new env s n order amount_remaining limit =
     (let fx = sw_fixed env; u = sf_u fx;
          current_tick = CurrentTick s n;
          current_price = AlphaSqrtPrice s n;
          edge = tick_edge fx s n current_tick order;
          edge_price = as_sqrt_price_bounded fx edge;
          fee = calculate_fee_amount fx s n amount_remaining;
          possible = amount_remaining - fee;
          liquidity = of_u64 u (CurrentLiquidity s n);
          target = sqrt_price_target fx order liquidity current_price possible
      in \<lparr>st_netuid = n, st_order_type = order, current_liquidity = liquidity, possible_delta_in = possible,
          target_sqrt_price = target, limit_sqrt_price = limit, current_sqrt_price = current_price,
          edge_sqrt_price = edge_price, edge_tick = edge, st_action = Stop, st_delta_in = 0, final_price = target, st_fee = fee\<rparr>)"

definition price_is_closer :: "order_type \<Rightarrow> nat \<Rightarrow> nat \<Rightarrow> bool" where
  "price_is_closer order p q = (case order of Buy \<Rightarrow> p \<le> q | Sell \<Rightarrow> p \<ge> q)"

definition delta_in :: "'i swap_fixed \<Rightarrow> order_type \<Rightarrow> nat \<Rightarrow> nat \<Rightarrow> nat \<Rightarrow> nat" where
  "delta_in fx order liquidity_curr sqrt_price_curr target =
     (let u = sf_u fx; one = of_u64 u 1
      in to_u64 u (case order of
           Sell \<Rightarrow> f_mul u liquidity_curr (f_sub u (f_safe_div u one target) (f_safe_div u one sqrt_price_curr))
         | Buy \<Rightarrow> f_mul u liquidity_curr (f_sub u target sqrt_price_curr)))"

definition determine_action :: "'i swap_fixed \<Rightarrow> ('a, 'i, 'w) swap_state \<Rightarrow> swap_step \<Rightarrow> swap_step" where
  "determine_action fx s st =
     (let u = sf_u fx; order = st_order_type st; closer = price_is_closer order;
          (st, recalculate_fee) =
            (if closer (target_sqrt_price st) (limit_sqrt_price st) \<and> closer (target_sqrt_price st) (edge_sqrt_price st)
             then (st\<lparr>st_action := Stop, final_price := target_sqrt_price st, st_delta_in := possible_delta_in st\<rparr>, False)
             else if closer (limit_sqrt_price st) (target_sqrt_price st) \<and> closer (limit_sqrt_price st) (edge_sqrt_price st)
             then (st\<lparr>st_action := Stop, final_price := limit_sqrt_price st,
                      st_delta_in := delta_in fx order (current_liquidity st) (current_sqrt_price st) (limit_sqrt_price st)\<rparr>, True)
             else (st\<lparr>st_action := Crossing,
                      st_delta_in := delta_in fx order (current_liquidity st) (current_sqrt_price st) (edge_sqrt_price st),
                      final_price := edge_sqrt_price st\<rparr>, True));
          st = (if recalculate_fee
                then let fee_rate = of_u64 u (FeeRate s (st_netuid st))
                     in st\<lparr>st_fee := to_u64 u (f_mul u (of_u64 u (st_delta_in st))
                            (f_safe_div u fee_rate (f_sub u (of_u64 u u16_max) fee_rate)))\<rparr>
                else st);
          natural_reason_stop_price =
            (if closer (limit_sqrt_price st) (target_sqrt_price st) then limit_sqrt_price st else target_sqrt_price st)
      in if natural_reason_stop_price = edge_sqrt_price st
         then st\<lparr>st_action := (case order of Buy \<Rightarrow> Crossing | Sell \<Rightarrow> Stop)\<rparr>
         else st)"

definition update_liquidity_at_crossing ::
    "'i swap_fixed \<Rightarrow> netuid \<Rightarrow> order_type \<Rightarrow> ('a, 'i, 'w) swap_state \<Rightarrow> (swap_error, ('a, 'i, 'w) swap_state) result" where
  "update_liquidity_at_crossing fx n order s =
     (let liquidity_curr = CurrentLiquidity s n;
          current_tick_index = current_bounded (CurrentTick s n)
      in and_then (ok_or (Ticks s n (tick_edge fx s n current_tick_index order)) InsufficientLiquidity) (\<lambda>tick.
         let liquidity_update_abs_u64 = liquidity_net_as_u64 tick;
             liquidity_curr =
               (if (order = Sell) = (liquidity_net tick \<ge> 0) then liquidity_curr - liquidity_update_abs_u64
                else sat_add u64_max liquidity_curr liquidity_update_abs_u64)
         in Inr (s\<lparr>CurrentLiquidity := (CurrentLiquidity s)(n := liquidity_curr)\<rparr>)))"

definition process_swap ::
    "('a, 'i, 'w) swap_env \<Rightarrow> swap_step \<Rightarrow> ('a, 'i, 'w) swap_state \<Rightarrow> (swap_error, swap_step_result \<times> ('a, 'i, 'w) swap_state) result" where
  "process_swap env st s =
     (let fx = sw_fixed env; n = st_netuid st; order = st_order_type st;
          s = add_fees env n order (st_fee st) s;
          delta_out = convert_deltas fx s n order (st_delta_in st)
      in and_then (if st_action st = Crossing
           then let tick = tick_or_default fx s n (edge_tick st);
                    tick = tick\<lparr>fees_out_tao := x_sub fx (x_of_u fx (FeeGlobalTao s n)) (fees_out_tao tick)\<rparr>;
                    tick = tick\<lparr>fees_out_alpha := x_sub fx (x_of_u fx (FeeGlobalAlpha s n)) (fees_out_alpha tick)\<rparr>
                in and_then (update_liquidity_at_crossing fx n order s) (\<lambda>s.
                   Inr (s\<lparr>Ticks := (Ticks s)(n := (Ticks s n)(edge_tick st \<mapsto> tick))\<rparr>))
           else Inr s) (\<lambda>s.
         let s = s\<lparr>AlphaSqrtPrice := (AlphaSqrtPrice s)(n := final_price st)\<rparr>;
             s = s\<lparr>CurrentTick := (CurrentTick s)(n := from_sqrt_price_bounded fx (final_price st))\<rparr>
         in Inr (\<lparr>ssr_amount_to_take = sat_add u64_max (st_delta_in st) (st_fee st), ssr_fee_paid = st_fee st,
                  ssr_delta_in = st_delta_in st, ssr_delta_out = delta_out\<rparr>, s)))"

definition step_execute ::
    "('a, 'i, 'w) swap_env \<Rightarrow> swap_step \<Rightarrow> ('a, 'i, 'w) swap_state \<Rightarrow>
     (swap_error, (swap_step \<times> swap_step_result) \<times> ('a, 'i, 'w) swap_state) result" where
  "step_execute env st s =
     (let st = determine_action (sw_fixed env) s st
      in and_then (process_swap env st s) (\<lambda>(res, s). Inr ((st, res), s)))"

section \<open>Swaps\<close>

record swap_acc =
  amount_remaining :: nat
  acc_paid_out :: nat
  in_acc :: nat
  fee_acc :: nat

definition swap_iteration ::
    "('a, 'i, 'w) swap_env \<Rightarrow> netuid \<Rightarrow> order_type \<Rightarrow> nat \<Rightarrow> swap_acc \<Rightarrow> ('a, 'i, 'w) swap_state \<Rightarrow>
     (swap_error, swap_acc \<times> ('a, 'i, 'w) swap_state) result" where
  "swap_iteration env n order limit acc s =
     and_then (step_execute env (step_new env s n order (amount_remaining acc) limit) s) (\<lambda>((st, res), s).
     let acc = acc\<lparr>in_acc := sat_add u64_max (in_acc acc) (ssr_delta_in res)\<rparr>;
         acc = acc\<lparr>fee_acc := sat_add u64_max (fee_acc acc) (ssr_fee_paid res)\<rparr>;
         acc = acc\<lparr>amount_remaining := amount_remaining acc - ssr_amount_to_take res\<rparr>;
         acc = acc\<lparr>acc_paid_out := sat_add u64_max (acc_paid_out acc) (ssr_delta_out res)\<rparr>;
         acc = (if st_action st = Stop then acc\<lparr>amount_remaining := 0\<rparr> else acc);
         acc = (if ssr_amount_to_take res = 0 then acc\<lparr>amount_remaining := 0\<rparr> else acc)
     in Inr (acc, s))"

lemma ensure_cong [fundef_cong]: "b = b' \<Longrightarrow> e = e' \<Longrightarrow> (b' \<Longrightarrow> k = k') \<Longrightarrow> ensure b e k = ensure b' e' k'"
  by (simp add: ensure_def)

lemma and_then_cong [fundef_cong]: "m = m' \<Longrightarrow> (\<And>x. m' = Inr x \<Longrightarrow> f x = g x) \<Longrightarrow> and_then m f = and_then m' g"
  by (cases m') (simp_all add: and_then_def)

function swap_loop ::
    "('a, 'i, 'w) swap_env \<Rightarrow> netuid \<Rightarrow> order_type \<Rightarrow> nat \<Rightarrow> nat \<Rightarrow> swap_acc \<Rightarrow> ('a, 'i, 'w) swap_state \<Rightarrow>
     (swap_error, swap_acc \<times> ('a, 'i, 'w) swap_state) result" where
  "swap_loop env n order limit iteration_counter acc s =
     (if amount_remaining acc > 0
      then and_then (swap_iteration env n order limit acc s) (\<lambda>r.
           ensure (sat_add u16_max iteration_counter 1 \<le> MAX_SWAP_ITERATIONS) TooManySwapSteps
             (swap_loop env n order limit (sat_add u16_max iteration_counter 1) (fst r) (snd r)))
      else Inr (acc, s))"
  by pat_completeness auto
termination
  by (relation "measure (\<lambda>(env, n, order, limit, iteration_counter, acc, s). 1001 - iteration_counter)")
    (auto simp: MAX_SWAP_ITERATIONS_def sat_add_def u16_max_def)

declare swap_loop.simps [simp del]

definition swap_inner ::
    "('a, 'i, 'w) swap_env \<Rightarrow> netuid \<Rightarrow> order_type \<Rightarrow> nat \<Rightarrow> nat \<Rightarrow> ('a, 'i, 'w) swap_state \<Rightarrow>
     (swap_error, swap_result \<times> ('a, 'i, 'w) swap_state) result" where
  "swap_inner env n order amount limit s =
     ensure (si_tao_reserve env n (sw_world s) \<ge> MinimumReserve env \<and> si_alpha_reserve env n (sw_world s) \<ge> MinimumReserve env)
       ReservesTooLow
    (and_then (maybe_initialize_v3 env n s) (\<lambda>s.
     and_then (swap_loop env n order limit 0 \<lparr>amount_remaining = amount, acc_paid_out = 0, in_acc = 0, fee_acc = 0\<rparr> s) (\<lambda>(acc, s).
     let (tao_delta, alpha_delta) =
           (case order of
              Buy \<Rightarrow> (as_i64 (in_acc acc), i64_neg (as_i64 (acc_paid_out acc)))
            | Sell \<Rightarrow> (i64_neg (as_i64 (acc_paid_out acc)), as_i64 (in_acc acc)))
     in Inr (\<lparr>amount_paid_in = in_acc acc, amount_paid_out = acc_paid_out acc, fee_paid = fee_acc acc,
              tao_reserve_delta = tao_delta, alpha_reserve_delta = alpha_delta\<rparr>, s))))"

text \<open>The storage transaction is rolled back on a simulation and on an error of \<open>swap_inner\<close>, and committed otherwise.\<close>

definition do_swap ::
    "('a, 'i, 'w) swap_env \<Rightarrow> netuid \<Rightarrow> order_type \<Rightarrow> nat \<Rightarrow> nat \<Rightarrow> bool \<Rightarrow> ('a, 'i, 'w) swap_state \<Rightarrow>
     (swap_error, swap_result) result \<times> ('a, 'i, 'w) swap_state" where
  "do_swap env n order amount limit simulate s =
     (let tao_reserve = si_tao_reserve env n (sw_world s);
          alpha_reserve = si_alpha_reserve env n (sw_world s)
      in case swap_inner env n order amount limit s of
           Inl e \<Rightarrow> (Inl e, s)
         | Inr (res, s') \<Rightarrow>
             if simulate then (Inr res, s)
             else let checked_reserve = (case order of Buy \<Rightarrow> alpha_reserve | Sell \<Rightarrow> tao_reserve)
                  in if checked_reserve < amount_paid_out res then (Inl InsufficientLiquidity, s') else (Inr res, s'))"

definition handler_swap ::
    "('a, 'i, 'w) swap_env \<Rightarrow> netuid \<Rightarrow> order_type \<Rightarrow> nat \<Rightarrow> nat \<Rightarrow> bool \<Rightarrow> ('a, 'i, 'w) swap_state \<Rightarrow>
     (swap_error, swap_result) result \<times> ('a, 'i, 'w) swap_state" where
  "handler_swap env n order amount price_limit should_rollback s =
     (let u = sw_u env in
      case checked_sqrt u (f_safe_div u (of_u64 u price_limit) (of_u64 u 1000000000)) (limit_epsilon (sw_fixed env)) of
        None \<Rightarrow> (Inl PriceLimitExceeded, s)
      | Some limit \<Rightarrow> do_swap env n order amount limit should_rollback s)"

definition sim_swap ::
    "('a, 'i, 'w) swap_env \<Rightarrow> netuid \<Rightarrow> order_type \<Rightarrow> nat \<Rightarrow> ('a, 'i, 'w) swap_state \<Rightarrow>
     (swap_error, swap_result) result \<times> ('a, 'i, 'w) swap_state" where
  "sim_swap env n order amount s =
     (if si_mechanism env n (sw_world s) = 1
      then handler_swap env n order amount
             (case order of Buy \<Rightarrow> max_price (sw_fixed env) | Sell \<Rightarrow> min_price (sw_fixed env)) True s
      else (Inr \<lparr>amount_paid_in = amount, amount_paid_out = amount, fee_paid = 0, tao_reserve_delta = 0, alpha_reserve_delta = 0\<rparr>, s))"

section \<open>Calls\<close>

definition ensure_root_or_owner :: "('a, 'i, 'w) swap_env \<Rightarrow> 'a origin \<Rightarrow> netuid \<Rightarrow> bool \<Rightarrow> 'w \<Rightarrow> (swap_error, unit) result" where
  "ensure_root_or_owner env og n extra w =
     (case ensure_root SwapBadOrigin og of
        Inr _ \<Rightarrow> Inr ()
      | Inl _ \<Rightarrow> and_then (ensure_signed SwapBadOrigin og) (\<lambda>account_id.
                 ensure (si_is_owner env account_id n w \<and> extra) SwapBadOrigin (Inr ())))"

definition set_fee_rate ::
    "('a, 'i, 'w) swap_env \<Rightarrow> 'a origin \<Rightarrow> netuid \<Rightarrow> nat \<Rightarrow> ('a, 'i, 'w) swap_state \<Rightarrow> (swap_error, ('a, 'i, 'w) swap_state) result" where
  "set_fee_rate env og n rate s =
     and_then (ensure_root_or_owner env og n True (sw_world s)) (\<lambda>_.
     ensure (si_exists env n (sw_world s)) SwapSubNetworkDoesNotExist
    (ensure (rate \<le> MaxFeeRate env) FeeRateTooHigh
    (Inr (s\<lparr>FeeRate := (FeeRate s)(n := rate)\<rparr>))))"

definition toggle_user_liquidity ::
    "('a, 'i, 'w) swap_env \<Rightarrow> 'a origin \<Rightarrow> netuid \<Rightarrow> bool \<Rightarrow> ('a, 'i, 'w) swap_state \<Rightarrow> (swap_error, ('a, 'i, 'w) swap_state) result" where
  "toggle_user_liquidity env og n enable s =
     and_then (ensure_root_or_owner env og n enable (sw_world s)) (\<lambda>_.
     ensure (si_exists env n (sw_world s)) SwapSubNetworkDoesNotExist
    (Inr (s\<lparr>EnabledUserLiquidity := (EnabledUserLiquidity s)(n := enable)\<rparr>)))"

definition add_liquidity ::
    "('a, 'i, 'w) swap_env \<Rightarrow> 'a origin \<Rightarrow> 'a \<Rightarrow> netuid \<Rightarrow> tick_index \<Rightarrow> tick_index \<Rightarrow> nat \<Rightarrow> ('a, 'i, 'w) swap_state \<Rightarrow>
     (swap_error, ('a, 'i, 'w) swap_state) result" where
  "add_liquidity env og hotkey n low high liquidity s =
     and_then (ensure_signed SwapBadOrigin og) (\<lambda>coldkey.
     ensure (si_exists env n (sw_world s)) SwapSubNetworkDoesNotExist
    (and_then (do_add_liquidity env n coldkey hotkey low high liquidity s) (\<lambda>((position_id, tao, alpha), s).
     and_then (bo_decrease_balance env coldkey tao (sw_world s)) (\<lambda>(tao_provided, w).
     ensure (tao_provided = tao) InsufficientBalance
    (and_then (bo_decrease_stake env coldkey hotkey n alpha w) (\<lambda>(alpha_provided, w).
     ensure (alpha_provided = alpha) InsufficientBalance
    (let w = bo_increase_provided_tao_reserve env n tao_provided w;
         w = bo_increase_provided_alpha_reserve env n alpha_provided w
     in Inr (s\<lparr>sw_world := w\<rparr>))))))))"

definition remove_liquidity ::
    "('a, 'i, 'w) swap_env \<Rightarrow> 'a origin \<Rightarrow> 'a \<Rightarrow> netuid \<Rightarrow> nat \<Rightarrow> ('a, 'i, 'w) swap_state \<Rightarrow>
     (swap_error, ('a, 'i, 'w) swap_state) result" where
  "remove_liquidity env og hotkey n position_id s =
     and_then (ensure_signed SwapBadOrigin og) (\<lambda>coldkey.
     ensure (si_exists env n (sw_world s)) SwapSubNetworkDoesNotExist
    (and_then (do_remove_liquidity env n coldkey position_id s) (\<lambda>(res, s).
     let w = bo_increase_balance env coldkey (sat_add u64_max (ul_tao res) (ul_fee_tao res)) (sw_world s) in
     and_then (bo_increase_stake env coldkey hotkey n (sat_add u64_max (ul_alpha res) (ul_fee_alpha res)) w) (\<lambda>w.
     let w = bo_decrease_provided_tao_reserve env n (ul_tao res) w;
         w = bo_decrease_provided_alpha_reserve env n (ul_alpha res) w
     in Inr (s\<lparr>sw_world := w\<rparr>)))))"

definition modify_position ::
    "('a, 'i, 'w) swap_env \<Rightarrow> 'a origin \<Rightarrow> 'a \<Rightarrow> netuid \<Rightarrow> nat \<Rightarrow> int \<Rightarrow> ('a, 'i, 'w) swap_state \<Rightarrow>
     (swap_error, ('a, 'i, 'w) swap_state) result" where
  "modify_position env og hotkey n position_id liquidity_delta s =
     and_then (ensure_signed SwapBadOrigin og) (\<lambda>coldkey.
     ensure (si_exists env n (sw_world s)) SwapSubNetworkDoesNotExist
    (and_then (do_modify_position env n coldkey hotkey position_id liquidity_delta s) (\<lambda>(res, s).
     and_then
       (if liquidity_delta > 0
        then and_then (bo_decrease_balance env coldkey (ul_tao res) (sw_world s)) (\<lambda>(tao_provided, w).
             ensure (tao_provided = ul_tao res) InsufficientBalance
            (and_then (bo_decrease_stake env coldkey hotkey n (ul_alpha res) w) (\<lambda>(alpha_provided, w).
             ensure (alpha_provided = ul_alpha res) InsufficientBalance (Inr w))))
        else let w = bo_increase_balance env coldkey (ul_tao res) (sw_world s)
             in bo_increase_stake env coldkey hotkey n (ul_alpha res) w) (\<lambda>w.
     let w = (if ul_fee_tao res > 0 then bo_increase_balance env coldkey (ul_fee_tao res) w else w) in
     and_then (if ul_fee_alpha res > 0 then bo_increase_stake env coldkey hotkey n (ul_fee_alpha res) w else Inr w) (\<lambda>w.
     Inr (s\<lparr>sw_world := w\<rparr>))))))"

end
