(* ===== verification/Swap_Ledger.thy ===== *)
theory Swap_Ledger
  imports Swap_Model
begin

text \<open>
  What the swap pallet keeps of the positions: the liquidity at the ticks, the index of active ticks,
  the limit on positions. The table of ticks is the sum of the positions of the users, and of the
  protocol's position as it was when it was created; it stays so under every call and every swap.
\<close>

section \<open>Sums over a map\<close>

definition sum_over :: "('k \<Rightarrow> 'v option) \<Rightarrow> ('v \<Rightarrow> nat) \<Rightarrow> nat" where
  "sum_over m f = (\<Sum>k \<in> dom m. f (the (m k)))"

lemma sum_over_empty [simp]: "sum_over (\<lambda>_. None) f = 0"
  by (simp add: sum_over_def)

lemma sum_over_del:
  assumes "finite (dom m)" "m k = Some v"
  shows "sum_over (m(k := None)) f = sum_over m f - f v" "f v \<le> sum_over m f"
proof -
  have "sum_over m f = f v + (\<Sum>x \<in> dom m - {k}. f (the (m x)))"
    unfolding sum_over_def using sum.remove[OF assms(1), of k "\<lambda>x. f (the (m x))"] assms(2) by auto
  moreover have "sum_over (m(k := None)) f = (\<Sum>x \<in> dom m - {k}. f (the (m x)))"
    unfolding sum_over_def by (rule sum.cong) auto
  ultimately show "sum_over (m(k := None)) f = sum_over m f - f v" "f v \<le> sum_over m f" by simp_all
qed

lemma sum_over_new:
  assumes "finite (dom m)" "m k = None"
  shows "sum_over (m(k \<mapsto> v)) f = sum_over m f + f v"
proof -
  have "sum_over (m(k \<mapsto> v)) f = f v + (\<Sum>x \<in> dom m. f (the ((m(k \<mapsto> v)) x)))"
    unfolding sum_over_def dom_fun_upd using assms by (simp add: sum.insert domIff)
  also have "(\<Sum>x \<in> dom m. f (the ((m(k \<mapsto> v)) x))) = sum_over m f"
    unfolding sum_over_def by (rule sum.cong) (use assms(2) in auto)
  finally show ?thesis by (simp only: add.commute)
qed

lemma sum_over_upd:
  assumes "finite (dom m)" "m k = Some w"
  shows "sum_over (m(k \<mapsto> v)) f = sum_over m f - f w + f v"
proof -
  have "sum_over ((m(k := None))(k \<mapsto> v)) f = sum_over (m(k := None)) f + f v"
    using assms(1) by (intro sum_over_new) simp_all
  then show ?thesis by (simp add: sum_over_del(1)[OF assms])
qed

section \<open>The table of ticks\<close>

text \<open>\<open>A t\<close> is the liquidity that begins at a tick, \<open>B t\<close> the liquidity that ends there.\<close>

definition tick_sums :: "'i tick option \<Rightarrow> nat \<Rightarrow> nat \<Rightarrow> bool" where
  "tick_sums tk a b = (case tk of
      None \<Rightarrow> a = 0 \<and> b = 0
    | Some tk \<Rightarrow> liquidity_gross tk = a + b \<and> 0 < a + b \<and> liquidity_net tk = int a - int b)"

lemma tick_sums_simps:
  "tick_sums None a b \<longleftrightarrow> a = 0 \<and> b = 0"
  "tick_sums (Some tk) a b \<longleftrightarrow> liquidity_gross tk = a + b \<and> 0 < a + b \<and> liquidity_net tk = int a - int b"
  by (simp_all add: tick_sums_def)

definition ticks_match ::
    "(tick_index \<Rightarrow> 'i tick option) \<Rightarrow> bitmap_words \<Rightarrow> netuid \<Rightarrow> (tick_index \<Rightarrow> nat) \<Rightarrow> (tick_index \<Rightarrow> nat) \<Rightarrow> bool" where
  "ticks_match T words n A B \<longleftrightarrow>
     (\<forall>t. tick_sums (T t) (A t) (B t)) \<and> bitmap_inv words n \<and> active_ticks words n = {t. T t \<noteq> None}"

definition unsaturated :: "(tick_index \<Rightarrow> 'i tick option) \<Rightarrow> bool" where
  "unsaturated T \<longleftrightarrow> (\<forall>t tk. T t = Some tk \<longrightarrow> liquidity_gross tk < u64_max)"

lemma ticks_matchD:
  assumes "ticks_match T words n A B"
  shows "tick_sums (T t) (A t) (B t)" "bitmap_inv words n" "active_ticks words n = {t. T t \<noteq> None}"
  using assms by (simp_all add: ticks_match_def)

lemma unsaturated_sums: "ticks_match T words n A B \<Longrightarrow> unsaturated T \<Longrightarrow> A t + B t < u64_max"
  using ticks_matchD(1)[of T words n A B t] unfolding unsaturated_def
  by (cases "T t") (simp add: tick_sums_simps u64_max_def, metis tick_sums_simps(2))

text \<open>A tick of the table is replaced by one with the new sums, or taken out.\<close>

lemma ticks_match_put:
  assumes m: "ticks_match T words n A B" and v: "in_range t" and tk: "tick_sums (Some tk) a b"
  shows "ticks_match (T(t \<mapsto> tk)) (insert_tick words n t) n (A(t := a)) (B(t := b))"
    and "T t \<noteq> None \<Longrightarrow> ticks_match (T(t \<mapsto> tk)) words n (A(t := a)) (B(t := b))"
proof -
  have all: "tick_sums ((T(t \<mapsto> tk)) u) ((A(t := a)) u) ((B(t := b)) u)" for u
    using ticks_matchD(1)[OF m, of u] tk by simp
  show "ticks_match (T(t \<mapsto> tk)) (insert_tick words n t) n (A(t := a)) (B(t := b))"
    unfolding ticks_match_def using all ticks_matchD(2,3)[OF m] v
    by (simp add: bitmap.invar_ins bitmap.elems_ins) auto
  assume "T t \<noteq> None"
  then show "ticks_match (T(t \<mapsto> tk)) words n (A(t := a)) (B(t := b))"
    unfolding ticks_match_def using all ticks_matchD(2,3)[OF m] by auto
qed

lemma ticks_match_del:
  assumes m: "ticks_match T words n A B" and v: "in_range t"
  shows "ticks_match (T(t := None)) (remove_tick words n t) n (A(t := 0)) (B(t := 0))"
proof -
  have "tick_sums ((T(t := None)) u) ((A(t := 0)) u) ((B(t := 0)) u)" for u
    using ticks_matchD(1)[OF m, of u] by (simp add: tick_sums_simps)
  then show ?thesis unfolding ticks_match_def using ticks_matchD(2,3)[OF m] v
    by (simp add: bitmap.invar_del bitmap.elems_del) auto
qed

text \<open>The words of the index on another subnet, as far as they are read.\<close>

lemma ticks_match_words:
  assumes "\<And>L. lset W n L = lset V n L"
  shows "ticks_match T W n A B = ticks_match T V n A B"
  by (simp add: ticks_match_def bitmap_inv_def active_ticks_def assms)

lemma i128_exact: "A \<le> u64_max \<Longrightarrow> B \<le> u64_max \<Longrightarrow> clamp i128_min i128_max (int A - int B) = int A - int B"
  by (intro clamp_id) (simp_all add: i128_min_def i128_max_def u64_max_def)

definition bump :: "bool \<Rightarrow> bool \<Rightarrow> tick_index \<Rightarrow> nat \<Rightarrow> (tick_index \<Rightarrow> nat) \<Rightarrow> tick_index \<Rightarrow> nat" where
  "bump here up t l A = (if here then A(t := (if up then A t + l else A t - l)) else A)"

lemma add_index_match:
  assumes m: "ticks_match (Ticks s n) (TickIndexBitmapWords s) n A B" and v: "in_range t" and l: "0 < l"
    and u: "\<And>tk. Ticks (add_liquidity_at_index fx n t l upper s) n t = Some tk \<Longrightarrow> liquidity_gross tk < u64_max"
  shows "ticks_match (Ticks (add_liquidity_at_index fx n t l upper s) n) (TickIndexBitmapWords (add_liquidity_at_index fx n t l upper s)) n
    (bump (\<not> upper) True t l A) (bump upper True t l B)"
proof -
  define a where "a = (if upper then A t else A t + l)"
  define b where "b = (if upper then B t + l else B t)"
  have AB: "bump (\<not> upper) True t l A = A(t := a)" "bump upper True t l B = B(t := b)" by (simp_all add: bump_def a_def b_def)
  obtain tk where tk: "Ticks (add_liquidity_at_index fx n t l upper s) n = (Ticks s n)(t \<mapsto> tk)"
      "TickIndexBitmapWords (add_liquidity_at_index fx n t l upper s) = insert_tick (TickIndexBitmapWords s) n t"
    by (simp add: add_liquidity_at_index_def Let_def)
  have lt: "liquidity_gross tk < u64_max" using u[of tk] by (simp add: tk)
  have "liquidity_gross tk = a + b \<and> liquidity_net tk = int a - int b"
  proof (cases "Ticks s n t")
    case None
    then have "A t = 0" "B t = 0" using ticks_matchD(1)[OF m, of t] by (simp_all add: tick_sums_simps)
    moreover have "liquidity_gross tk = l" "liquidity_net tk = (if upper then - int l else int l)"
      using tk(1) None by (auto simp: add_liquidity_at_index_def Let_def dest!: fun_cong[of _ _ t])
    ultimately show ?thesis by (simp add: a_def b_def)
  next
    case (Some k)
    have k: "liquidity_gross k = A t + B t" "liquidity_net k = int (A t) - int (B t)"
      using ticks_matchD(1)[OF m, of t] by (simp_all add: Some tick_sums_simps)
    have g: "liquidity_gross tk = sat_add u64_max (liquidity_gross k) l"
        "liquidity_net tk = clamp i128_min i128_max (liquidity_net k + (if upper then - int l else int l))"
      using tk(1) Some by (auto simp: add_liquidity_at_index_def Let_def dest!: fun_cong[of _ _ t])
    then have e: "liquidity_gross tk = a + b" using lt k by (auto simp: sat_add_def a_def b_def)
    moreover have "liquidity_net k + (if upper then - int l else int l) = int a - int b" using k by (simp add: a_def b_def)
    ultimately show ?thesis using g(2) lt i128_exact[of a b] by simp
  qed
  moreover have "0 < a + b" using l by (simp add: a_def b_def)
  ultimately have "tick_sums (Some tk) a b" by (simp add: tick_sums_simps)
  then show ?thesis unfolding AB tk by (rule ticks_match_put(1)[OF m v])
qed

lemma remove_index_match:
  assumes m: "ticks_match (Ticks s n) (TickIndexBitmapWords s) n A B" and v: "in_range t" and l: "0 < l"
    and le: "if upper then l \<le> B t else l \<le> A t" and u: "A t + B t \<le> u64_max"
  shows "ticks_match (Ticks (remove_liquidity_at_index n t l upper s) n) (TickIndexBitmapWords (remove_liquidity_at_index n t l upper s)) n
    (bump (\<not> upper) False t l A) (bump upper False t l B)"
proof -
  define a where "a = (if upper then A t else A t - l)"
  define b where "b = (if upper then B t - l else B t)"
  have AB: "bump (\<not> upper) False t l A = A(t := a)" "bump upper False t l B = B(t := b)" by (simp_all add: bump_def a_def b_def)
  obtain k where k: "Ticks s n t = Some k"
    using ticks_matchD(1)[OF m, of t] l le by (cases "Ticks s n t") (auto simp: tick_sums_simps split: if_splits)
  have K: "liquidity_gross k = A t + B t" "liquidity_net k = int (A t) - int (B t)"
    using ticks_matchD(1)[OF m, of t] by (simp_all add: k tick_sums_simps)
  define tk where "tk = k\<lparr>liquidity_net := clamp i128_min i128_max (liquidity_net k - (if upper then - int l else int l)),
      liquidity_gross := liquidity_gross k - l\<rparr>"
  have "liquidity_net k - (if upper then - int l else int l) = int a - int b" using K le by (auto simp: a_def b_def)
  then have g: "liquidity_gross tk = a + b" "liquidity_net tk = int a - int b"
    using K le u i128_exact[of a b] by (auto simp: tk_def a_def b_def)
  have s': "remove_liquidity_at_index n t l upper s = (if liquidity_gross tk = 0
      then s\<lparr>Ticks := (Ticks s)(n := (Ticks s n)(t := None)), TickIndexBitmapWords := remove_tick (TickIndexBitmapWords s) n t\<rparr>
      else s\<lparr>Ticks := (Ticks s)(n := (Ticks s n)(t \<mapsto> tk))\<rparr>)"
    by (simp add: remove_liquidity_at_index_def Let_def k tk_def)
  show ?thesis
  proof (cases "a + b = 0")
    case True
    then have "a = 0" "b = 0" by simp_all
    with ticks_match_del[OF m v] True show ?thesis unfolding AB s' by (simp add: g)
  next
    case False
    then have "ticks_match ((Ticks s n)(t \<mapsto> tk)) (TickIndexBitmapWords s) n (A(t := a)) (B(t := b))"
      using g k by (intro ticks_match_put(2)[OF m v]) (simp_all add: tick_sums_simps)
    then show ?thesis unfolding AB s' g(1) if_not_P[OF False] by simp
  qed
qed

text \<open>The two ticks of a range together.\<close>

definition add_range ::
    "'i swap_fixed \<Rightarrow> netuid \<Rightarrow> tick_index \<Rightarrow> tick_index \<Rightarrow> nat \<Rightarrow> ('a, 'i, 'w) swap_state \<Rightarrow> ('a, 'i, 'w) swap_state" where
  "add_range fx n low high l s = add_liquidity_at_index fx n high l True (add_liquidity_at_index fx n low l False s)"

definition remove_range ::
    "netuid \<Rightarrow> tick_index \<Rightarrow> tick_index \<Rightarrow> nat \<Rightarrow> ('a, 'i, 'w) swap_state \<Rightarrow> ('a, 'i, 'w) swap_state" where
  "remove_range n low high l s = remove_liquidity_at_index n high l True (remove_liquidity_at_index n low l False s)"

lemma add_index_gross:
  "\<exists>tk. Ticks (add_liquidity_at_index fx n t l upper s) n = (Ticks s n)(t \<mapsto> tk) \<and>
    (\<forall>k. Ticks s n t = Some k \<longrightarrow> liquidity_gross k \<le> liquidity_gross tk \<or> u64_max \<le> liquidity_gross tk)"
  by (cases "Ticks s n t") (auto simp: add_liquidity_at_index_def Let_def sat_add_def)

lemma add_range_match:
  assumes m: "ticks_match (Ticks s n) (TickIndexBitmapWords s) n A B" and v: "in_range low" "in_range high" and l: "0 < l"
    and u: "unsaturated (Ticks (add_range fx n low high l s) n)"
  shows "ticks_match (Ticks (add_range fx n low high l s) n) (TickIndexBitmapWords (add_range fx n low high l s)) n
    (A(low := A low + l)) (B(high := B high + l))"
proof -
  let ?s1 = "add_liquidity_at_index fx n low l False s"
  obtain tk where tk: "Ticks (add_range fx n low high l s) n = (Ticks ?s1 n)(high \<mapsto> tk)"
      "\<And>k. Ticks ?s1 n high = Some k \<Longrightarrow> liquidity_gross k \<le> liquidity_gross tk \<or> u64_max \<le> liquidity_gross tk"
    using add_index_gross[of fx n high l True ?s1] by (auto simp: add_range_def)
  have lt: "liquidity_gross k < u64_max" if "Ticks ?s1 n low = Some k" for k
    using u tk(2)[of k] that unfolding unsaturated_def tk(1) by (cases "low = high") (auto dest: spec[of _ high] spec[of _ low])
  have "ticks_match (Ticks ?s1 n) (TickIndexBitmapWords ?s1) n (A(low := A low + l)) B"
    using add_index_match[OF m v(1) l, of fx False] lt by (simp add: bump_def)
  from add_index_match[OF this v(2) l, of fx True] u show ?thesis by (simp add: bump_def add_range_def unsaturated_def)
qed

lemma remove_range_match:
  assumes m: "ticks_match (Ticks s n) (TickIndexBitmapWords s) n A B" and v: "in_range low" "in_range high" and l: "0 < l"
    and le: "l \<le> A low" "l \<le> B high" and u: "unsaturated (Ticks s n)"
  shows "ticks_match (Ticks (remove_range n low high l s) n) (TickIndexBitmapWords (remove_range n low high l s)) n
    (A(low := A low - l)) (B(high := B high - l))"
proof -
  let ?s1 = "remove_liquidity_at_index n low l False s"
  note sums = unsaturated_sums[OF m u]
  have "ticks_match (Ticks ?s1 n) (TickIndexBitmapWords ?s1) n (A(low := A low - l)) B"
    using remove_index_match[OF m v(1) l, of False] le sums[of low] by (simp add: bump_def)
  from remove_index_match[OF this v(2) l, of True] le sums[of high] show ?thesis
    by (cases "high = low") (simp_all add: bump_def remove_range_def)
qed

text \<open>What the two operations leave alone.\<close>

definition ticks_only :: "netuid \<Rightarrow> ('a, 'i, 'w) swap_state \<Rightarrow> ('a, 'i, 'w) swap_state \<Rightarrow> bool" where
  "ticks_only n s t \<longleftrightarrow> (\<exists>T W. t = s\<lparr>Ticks := (Ticks s)(n := T), TickIndexBitmapWords := W\<rparr> \<and>
     (\<forall>m L. m \<noteq> n \<longrightarrow> lset W m L = lset (TickIndexBitmapWords s) m L))"

lemma ticks_onlyI:
  "t = s\<lparr>Ticks := (Ticks s)(n := T), TickIndexBitmapWords := W\<rparr> \<Longrightarrow> (\<And>m L. m \<noteq> n \<Longrightarrow> lset W m L = lset (TickIndexBitmapWords s) m L) \<Longrightarrow>
    ticks_only n s t"
  unfolding ticks_only_def by blast

lemma ticks_only_trans: "ticks_only n s t \<Longrightarrow> ticks_only n t u \<Longrightarrow> ticks_only n s u"
  unfolding ticks_only_def by (elim exE conjE, intro exI conjI) simp_all

lemma ticks_only_frame:
  assumes "ticks_only n s t"
  shows "Positions t = Positions s" "CurrentTick t = CurrentTick s" "SwapV3Initialized t = SwapV3Initialized s"
    "LastPositionId t = LastPositionId s" "sw_world t = sw_world s" "CurrentLiquidity t = CurrentLiquidity s"
    "EnabledUserLiquidity t = EnabledUserLiquidity s" "AlphaSqrtPrice t = AlphaSqrtPrice s"
    "m \<noteq> n \<Longrightarrow> Ticks t m = Ticks s m" "m \<noteq> n \<Longrightarrow> lset (TickIndexBitmapWords t) m L = lset (TickIndexBitmapWords s) m L"
  using assms unfolding ticks_only_def by auto

lemma ticks_only_index:
  "ticks_only n s (add_liquidity_at_index fx n t l upper s)" "ticks_only n s (remove_liquidity_at_index n t l upper s)"
proof -
  show "ticks_only n s (add_liquidity_at_index fx n t l upper s)"
    unfolding add_liquidity_at_index_def Let_def by (rule ticks_onlyI, rule refl) (simp add: insert_tick_other)
  show "ticks_only n s (remove_liquidity_at_index n t l upper s)"
  proof (cases "Ticks s n t")
    case None
    then show ?thesis by (intro ticks_onlyI[where T = "Ticks s n" and W = "TickIndexBitmapWords s"]) (simp_all add: remove_liquidity_at_index_def)
  next
    case (Some k)
    have del: "ticks_only n s (s\<lparr>Ticks := (Ticks s)(n := T), TickIndexBitmapWords := remove_tick (TickIndexBitmapWords s) n t\<rparr>)" for T
      by (rule ticks_onlyI, rule refl) (simp add: remove_tick_other)
    have put: "ticks_only n s (s\<lparr>Ticks := (Ticks s)(n := T)\<rparr>)" for T
      by (rule ticks_onlyI[where W = "TickIndexBitmapWords s"]) simp_all
    show ?thesis unfolding remove_liquidity_at_index_def Some Let_def option.case using del put by (simp split: if_split)
  qed
qed

lemma ticks_only_range: "ticks_only n s (add_range fx n low high l s)" "ticks_only n s (remove_range n low high l s)"
  unfolding add_range_def remove_range_def by (rule ticks_only_trans, rule ticks_only_index, rule ticks_only_index)+

lemmas range_frame = ticks_only_range[THEN ticks_only_frame(1)] ticks_only_range[THEN ticks_only_frame(2)]
  ticks_only_range[THEN ticks_only_frame(3)] ticks_only_range[THEN ticks_only_frame(4)] ticks_only_range[THEN ticks_only_frame(5)]
  ticks_only_range[THEN ticks_only_frame(6)] ticks_only_range[THEN ticks_only_frame(7)] ticks_only_range[THEN ticks_only_frame(8)]

section \<open>The ledger\<close>

text \<open>The positions of the users of a subnet; the account of the protocol is apart.\<close>

definition book :: "('a, 'i, 'w) swap_env \<Rightarrow> ('a, 'i, 'w) swap_state \<Rightarrow> netuid \<Rightarrow> 'a \<times> nat \<Rightarrow> 'i position option" where
  "book env s n k = (if fst k = protocol_account_id env then None else Positions s n (fst k) (snd k))"

definition starting :: "('k \<Rightarrow> 'i position option) \<Rightarrow> tick_index \<Rightarrow> nat" where
  "starting m t = sum_over m (\<lambda>p. if tick_low p = t then pos_liquidity p else 0)"

definition ending :: "('k \<Rightarrow> 'i position option) \<Rightarrow> tick_index \<Rightarrow> nat" where
  "ending m t = sum_over m (\<lambda>p. if tick_high p = t then pos_liquidity p else 0)"

definition at_tick :: "tick_index \<Rightarrow> nat \<Rightarrow> tick_index \<Rightarrow> nat" where
  "at_tick u g t = (if t = u then g else 0)"

definition position_ok :: "('a, 'i, 'w) swap_state \<Rightarrow> 'a \<times> nat \<Rightarrow> 'i position \<Rightarrow> bool" where
  "position_ok s k p \<longleftrightarrow> pos_id p = snd k \<and> snd k \<le> LastPositionId s \<and> in_range (tick_low p) \<and> in_range (tick_high p) \<and>
     0 < pos_liquidity p"

text \<open>\<open>g\<close> is the liquidity that the position of the protocol was created with.\<close>

definition ledger :: "('a, 'i, 'w) swap_env \<Rightarrow> nat \<Rightarrow> ('a, 'i, 'w) swap_state \<Rightarrow> netuid \<Rightarrow> bool" where
  "ledger env g s n \<longleftrightarrow>
     finite (dom (book env s n)) \<and> (\<forall>k p. book env s n k = Some p \<longrightarrow> position_ok s k p) \<and>
     ticks_match (Ticks s n) (TickIndexBitmapWords s) n
       (\<lambda>t. starting (book env s n) t + at_tick tick_MIN g t) (\<lambda>t. ending (book env s n) t + at_tick tick_MAX g t) \<and>
     unsaturated (Ticks s n) \<and> in_range (CurrentTick s n) \<and> (\<not> SwapV3Initialized s n \<longrightarrow> g = 0)"

text \<open>The sums, as a position enters the book, changes its liquidity or leaves.\<close>

lemma starting_book:
  assumes "finite (dom m)"
  shows "m k = None \<Longrightarrow> (\<lambda>t. starting (m(k \<mapsto> p)) t + c t) = (\<lambda>t. starting m t + c t)(tick_low p := starting m (tick_low p) + c (tick_low p) + pos_liquidity p)"
    and "m k = Some q \<Longrightarrow> (\<lambda>t. starting (m(k := None)) t + c t) = (\<lambda>t. starting m t + c t)(tick_low q := starting m (tick_low q) + c (tick_low q) - pos_liquidity q)"
    and "m k = Some q \<Longrightarrow> pos_liquidity q \<le> starting m (tick_low q)"
    and "m k = Some q \<Longrightarrow> tick_low p = tick_low q \<Longrightarrow> (\<lambda>t. starting (m(k \<mapsto> p)) t + c t) =
      (\<lambda>t. starting m t + c t)(tick_low q := starting m (tick_low q) + c (tick_low q) + pos_liquidity p - pos_liquidity q)"
  unfolding starting_def
  using assms sum_over_del(2)[OF assms, of k q "\<lambda>p. if tick_low p = tick_low q then pos_liquidity p else 0"]
  by (auto simp: fun_eq_iff sum_over_new sum_over_del(1) sum_over_upd)

lemma ending_book:
  assumes "finite (dom m)"
  shows "m k = None \<Longrightarrow> (\<lambda>t. ending (m(k \<mapsto> p)) t + c t) = (\<lambda>t. ending m t + c t)(tick_high p := ending m (tick_high p) + c (tick_high p) + pos_liquidity p)"
    and "m k = Some q \<Longrightarrow> (\<lambda>t. ending (m(k := None)) t + c t) = (\<lambda>t. ending m t + c t)(tick_high q := ending m (tick_high q) + c (tick_high q) - pos_liquidity q)"
    and "m k = Some q \<Longrightarrow> pos_liquidity q \<le> ending m (tick_high q)"
    and "m k = Some q \<Longrightarrow> tick_high p = tick_high q \<Longrightarrow> (\<lambda>t. ending (m(k \<mapsto> p)) t + c t) =
      (\<lambda>t. ending m t + c t)(tick_high q := ending m (tick_high q) + c (tick_high q) + pos_liquidity p - pos_liquidity q)"
  unfolding ending_def
  using assms sum_over_del(2)[OF assms, of k q "\<lambda>p. if tick_high p = tick_high q then pos_liquidity p else 0"]
  by (auto simp: fun_eq_iff sum_over_new sum_over_del(1) sum_over_upd)

lemma ledgerD:
  assumes "ledger env g s n"
  shows "finite (dom (book env s n))" "book env s n k = Some p \<Longrightarrow> position_ok s k p"
    "ticks_match (Ticks s n) (TickIndexBitmapWords s) n
       (\<lambda>t. starting (book env s n) t + at_tick tick_MIN g t) (\<lambda>t. ending (book env s n) t + at_tick tick_MAX g t)"
    "unsaturated (Ticks s n)" "in_range (CurrentTick s n)" "\<not> SwapV3Initialized s n \<Longrightarrow> g = 0"
  using assms unfolding ledger_def by blast+

text \<open>A state that agrees with another on a subnet has its ledger.\<close>

lemma ledger_frame:
  assumes "ledger env g s n" "Ticks t n = Ticks s n" "\<And>L. lset (TickIndexBitmapWords t) n L = lset (TickIndexBitmapWords s) n L"
    "\<And>a. a \<noteq> protocol_account_id env \<Longrightarrow> Positions t n a = Positions s n a" "in_range (CurrentTick t n)"
    "SwapV3Initialized s n \<Longrightarrow> SwapV3Initialized t n" "LastPositionId s \<le> LastPositionId t"
  shows "ledger env g t n"
proof -
  have b: "book env t n = book env s n" using assms(4) by (auto simp: book_def fun_eq_iff)
  have ok: "position_ok t k p" if "position_ok s k p" for k p using that assms(7) by (auto simp: position_ok_def)
  show ?thesis using assms(1,5,6) ok unfolding ledger_def b assms(2) ticks_match_words[OF assms(3)] by blast
qed

lemma ledger_changed:
  assumes L: "ledger env g s n" and t: "book env t n = (book env s n)(k := e)" "\<And>p. e = Some p \<Longrightarrow> position_ok t k p"
      "LastPositionId s \<le> LastPositionId t" "in_range (CurrentTick t n)" "SwapV3Initialized s n \<Longrightarrow> SwapV3Initialized t n" "unsaturated (Ticks t n)"
    and m: "ticks_match (Ticks t n) (TickIndexBitmapWords t) n
       (\<lambda>t'. starting (book env t n) t' + at_tick tick_MIN g t') (\<lambda>t'. ending (book env t n) t' + at_tick tick_MAX g t')"
  shows "ledger env g t n"
proof -
  have ok: "position_ok t k' p" if "position_ok s k' p" for k' p using that t(3) by (auto simp: position_ok_def)
  have fin: "finite (dom (book env t n))" using ledgerD(1)[OF L] unfolding t(1) by (cases e) simp_all
  have "position_ok t k' p" if "book env t n k' = Some p" for k' p
    using that t(2) ledgerD(2)[OF L] ok unfolding t(1) by (cases "k' = k") simp_all
  with fin m t(4-6) ledgerD(6)[OF L] show ?thesis unfolding ledger_def by blast
qed

lemma ledger_enter:
  assumes L: "ledger env g s n" and t: "book env t n = (book env s n)(k \<mapsto> p)" "position_ok t k p"
      "LastPositionId s \<le> LastPositionId t" "in_range (CurrentTick t n)" "SwapV3Initialized s n \<Longrightarrow> SwapV3Initialized t n" "unsaturated (Ticks t n)"
    and k: "book env s n k = None"
    and T: "Ticks t n = Ticks (add_range fx n (tick_low p) (tick_high p) (pos_liquidity p) s) n"
      "TickIndexBitmapWords t = TickIndexBitmapWords (add_range fx n (tick_low p) (tick_high p) (pos_liquidity p) s)"
  shows "ledger env g t n"
proof (rule ledger_changed[OF L t(1) _ t(3-6)])
  note r = t(2)[unfolded position_ok_def]
  note fin = ledgerD(1)[OF L]
  show "ticks_match (Ticks t n) (TickIndexBitmapWords t) n
       (\<lambda>t'. starting (book env t n) t' + at_tick tick_MIN g t') (\<lambda>t'. ending (book env t n) t' + at_tick tick_MAX g t')"
    unfolding t(1) starting_book(1)[OF fin k] ending_book(1)[OF fin k] T
    using r t(6) by (intro add_range_match[OF ledgerD(3)[OF L]]) (simp_all add: T)
qed (use t(2) in simp)

lemma ledger_leave:
  assumes L: "ledger env g s n" and t: "book env t n = (book env s n)(k := None)"
      "LastPositionId s \<le> LastPositionId t" "in_range (CurrentTick t n)" "SwapV3Initialized s n \<Longrightarrow> SwapV3Initialized t n" "unsaturated (Ticks t n)"
    and k: "book env s n k = Some p"
    and T: "Ticks t n = Ticks (remove_range n (tick_low p) (tick_high p) (pos_liquidity p) s) n"
      "TickIndexBitmapWords t = TickIndexBitmapWords (remove_range n (tick_low p) (tick_high p) (pos_liquidity p) s)"
  shows "ledger env g t n"
proof (rule ledger_changed[OF L t(1) _ t(2-5)])
  note r = ledgerD(2)[OF L k, unfolded position_ok_def]
  note fin = ledgerD(1)[OF L]
  show "ticks_match (Ticks t n) (TickIndexBitmapWords t) n
       (\<lambda>t'. starting (book env t n) t' + at_tick tick_MIN g t') (\<lambda>t'. ending (book env t n) t' + at_tick tick_MAX g t')"
    unfolding t(1) starting_book(2)[OF fin k] ending_book(2)[OF fin k] T
    using r starting_book(3)[OF fin k] ending_book(3)[OF fin k]
    by (intro remove_range_match[OF ledgerD(3)[OF L]] ledgerD(4)[OF L]) simp_all
qed simp

lemma ledger_grow:
  assumes L: "ledger env g s n" and t: "book env t n = (book env s n)(k \<mapsto> p)" "position_ok t k p"
      "LastPositionId s \<le> LastPositionId t" "in_range (CurrentTick t n)" "SwapV3Initialized s n \<Longrightarrow> SwapV3Initialized t n" "unsaturated (Ticks t n)"
    and k: "book env s n k = Some q" and p: "tick_low p = tick_low q" "tick_high p = tick_high q" and d: "0 < d"
      "pos_liquidity p = sat_add u64_max (pos_liquidity q) d"
    and T: "Ticks t n = Ticks (add_range fx n (tick_low q) (tick_high q) d s) n"
      "TickIndexBitmapWords t = TickIndexBitmapWords (add_range fx n (tick_low q) (tick_high q) d s)"
  shows "ledger env g t n"
proof (rule ledger_changed[OF L t(1) _ t(3-6)])
  note r = ledgerD(2)[OF L k, unfolded position_ok_def]
  note fin = ledgerD(1)[OF L]
  let ?A = "\<lambda>u. starting (book env s n) u + at_tick tick_MIN g u" and ?B = "\<lambda>u. ending (book env s n) u + at_tick tick_MAX g u"
  have m: "ticks_match (Ticks t n) (TickIndexBitmapWords t) n (?A(tick_low q := ?A (tick_low q) + d)) (?B(tick_high q := ?B (tick_high q) + d))"
    unfolding T using r d(1) t(6) by (intro add_range_match[OF ledgerD(3)[OF L]]) (simp_all add: T)
  have "?A (tick_low q) + d < u64_max" using unsaturated_sums[OF m t(6), of "tick_low q"] by simp
  then have "pos_liquidity p = pos_liquidity q + d" using starting_book(3)[OF fin k] by (simp add: d(2) sat_add_def)
  with m show "ticks_match (Ticks t n) (TickIndexBitmapWords t) n
       (\<lambda>t'. starting (book env t n) t' + at_tick tick_MIN g t') (\<lambda>t'. ending (book env t n) t' + at_tick tick_MAX g t')"
    unfolding t(1) starting_book(4)[OF fin k p(1)] ending_book(4)[OF fin k p(2)] by (simp add: add.assoc)
qed (use t(2) in simp)

lemma ledger_shrink:
  assumes L: "ledger env g s n" and t: "book env t n = (book env s n)(k \<mapsto> p)" "position_ok t k p"
      "LastPositionId s \<le> LastPositionId t" "in_range (CurrentTick t n)" "SwapV3Initialized s n \<Longrightarrow> SwapV3Initialized t n" "unsaturated (Ticks t n)"
    and k: "book env s n k = Some q" and p: "tick_low p = tick_low q" "tick_high p = tick_high q" and d: "0 < d" "d \<le> pos_liquidity q"
      "pos_liquidity p = pos_liquidity q - d"
    and T: "Ticks t n = Ticks (remove_range n (tick_low q) (tick_high q) d s) n"
      "TickIndexBitmapWords t = TickIndexBitmapWords (remove_range n (tick_low q) (tick_high q) d s)"
  shows "ledger env g t n"
proof (rule ledger_changed[OF L t(1) _ t(3-6)])
  note r = ledgerD(2)[OF L k, unfolded position_ok_def]
  note fin = ledgerD(1)[OF L]
  note le = starting_book(3)[OF fin k] ending_book(3)[OF fin k]
  let ?A = "\<lambda>u. starting (book env s n) u + at_tick tick_MIN g u" and ?B = "\<lambda>u. ending (book env s n) u + at_tick tick_MAX g u"
  have m: "ticks_match (Ticks t n) (TickIndexBitmapWords t) n (?A(tick_low q := ?A (tick_low q) - d)) (?B(tick_high q := ?B (tick_high q) - d))"
    unfolding T using r d(1,2) le by (intro remove_range_match[OF ledgerD(3)[OF L]] ledgerD(4)[OF L]) simp_all
  have e: "x + pos_liquidity p - pos_liquidity q = x - d" if "pos_liquidity q \<le> x" for x using that d(2,3) by simp
  show "ticks_match (Ticks t n) (TickIndexBitmapWords t) n
       (\<lambda>t'. starting (book env t n) t' + at_tick tick_MIN g t') (\<lambda>t'. ending (book env t n) t' + at_tick tick_MAX g t')"
    unfolding t(1) starting_book(4)[OF fin k p(1)] ending_book(4)[OF fin k p(2)] using m le e by simp
qed (use t(2) in simp)

section \<open>Calls of the users\<close>

lemma clamp_sqrt_price_frame: "\<exists>P. clamp_sqrt_price fx n t s = s\<lparr>AlphaSqrtPrice := P\<rparr>"
proof (cases "t \<ge> tick_MAX \<or> t \<le> tick_MIN")
  case False
  then show ?thesis unfolding clamp_sqrt_price_def if_not_P[OF False] by (intro exI[of _ "AlphaSqrtPrice s"]) simp
qed (auto simp: clamp_sqrt_price_def)

lemma update_liquidity_if_needed_frame: "\<exists>C. update_liquidity_if_needed n low high d s = s\<lparr>CurrentLiquidity := C\<rparr>"
proof (cases "low \<le> current_bounded (CurrentTick s n) \<and> current_bounded (CurrentTick s n) < high")
  case False
  then show ?thesis unfolding update_liquidity_if_needed_def Let_def if_not_P[OF False] by (intro exI[of _ "CurrentLiquidity s"]) simp
next
  case True
  then show ?thesis unfolding update_liquidity_if_needed_def Let_def if_P[OF True] by blast
qed

lemma to_token_amounts_range:
  "to_token_amounts fx p price = Inr x \<Longrightarrow> in_range (tick_low p) \<and> in_range (tick_high p)"
  by (auto simp: to_token_amounts_def Let_def try_to_sqrt_price_def in_range_def)

lemma position_new_fields [simp]:
  "pos_id (position_new fx s i n low high l) = i" "tick_low (position_new fx s i n low high l) = low"
  "tick_high (position_new fx s i n low high l) = high" "pos_liquidity (position_new fx s i n low high l) = l"
  "pos_netuid (position_new fx s i n low high l) = n"
  by (simp_all add: position_new_def Let_def)

text \<open>A success of \<open>add_liquidity_not_insert\<close>.\<close>

lemma add_liquidity_not_insert_ok:
  assumes "add_liquidity_not_insert env n c low high l s = Inr ((p, tao, alpha), s')"
  shows "count_positions env s n c \<le> MaxPositions env" "in_range low" "in_range high"
    "pos_id p = sat_add u128_max (LastPositionId s) 1" "tick_low p = low" "tick_high p = high" "pos_liquidity p = l"
    "\<exists>P C. s' = (add_range (sw_fixed env) n low high l s)\<lparr>AlphaSqrtPrice := P, CurrentLiquidity := C,
        LastPositionId := pos_id p, SwapV3Initialized := (SwapV3Initialized s)(n := True)\<rparr>"
proof -
  let ?s = "add_range (sw_fixed env) n low high l s"
  obtain P where P: "clamp_sqrt_price (sw_fixed env) n (current_bounded (CurrentTick ?s n)) ?s = ?s\<lparr>AlphaSqrtPrice := P\<rparr>"
    using clamp_sqrt_price_frame by blast
  obtain C where C: "update_liquidity_if_needed n low high (int l) (?s\<lparr>AlphaSqrtPrice := P\<rparr>) = ?s\<lparr>AlphaSqrtPrice := P, CurrentLiquidity := C\<rparr>"
    using update_liquidity_if_needed_frame by fastforce
  note run = assms[unfolded add_liquidity_not_insert_def Let_def add_range_def[symmetric] P C next_position_id_def
      ensure_Inr prod.case and_then_Inr, simplified]
  then obtain q x where q: "p = q" "to_token_amounts (sw_fixed env) q x = Inr (tao, alpha)"
      "q = position_new (sw_fixed env) (?s\<lparr>AlphaSqrtPrice := P, CurrentLiquidity := C, LastPositionId := sat_add u128_max (LastPositionId ?s) 1\<rparr>)
         (sat_add u128_max (LastPositionId ?s) 1) n low high l" by auto
  then show "in_range low" "in_range high" using to_token_amounts_range[OF q(2)] by simp_all
  show "count_positions env s n c \<le> MaxPositions env" using run by simp
  show "pos_id p = sat_add u128_max (LastPositionId s) 1" "tick_low p = low" "tick_high p = high" "pos_liquidity p = l"
    using q by (simp_all add: range_frame)
  show "\<exists>P C. s' = ?s\<lparr>AlphaSqrtPrice := P, CurrentLiquidity := C, LastPositionId := pos_id p,
      SwapV3Initialized := (SwapV3Initialized s)(n := True)\<rparr>"
    using run q by (intro exI[of _ P] exI[of _ C]) (auto simp: range_frame)
qed

definition within_limit :: "('a, 'i, 'w) swap_env \<Rightarrow> ('a, 'i, 'w) swap_state \<Rightarrow> netuid \<Rightarrow> bool" where
  "within_limit env s n \<longleftrightarrow> (\<forall>a. a \<noteq> protocol_account_id env \<longrightarrow> card (dom (Positions s n a)) \<le> MaxPositions env + 1)"

definition swap_inv :: "('a, 'i, 'w) swap_env \<Rightarrow> ('a, 'i, 'w) swap_state \<Rightarrow> bool" where
  "swap_inv env s \<longleftrightarrow> LastPositionId s \<le> u128_max \<and> (\<forall>n. (\<exists>g. ledger env g s n) \<and> within_limit env s n)"

text \<open>
  What the pallet relies on: the constants of its configuration are not zero, \<open>integer-sqrt\<close> returns
  the integer square root, and iterating the positions of an account gives each of them once.
\<close>

definition swap_env_ok :: "('a, 'i, 'w) swap_env \<Rightarrow> bool" where
  "swap_env_ok env \<longleftrightarrow> 0 < MinimumLiquidity env \<and> MinimumLiquidity env < 2 ^ 63 \<and> 0 < MinimumReserve env \<and>
     (\<forall>x. sqrt_u128 env x * sqrt_u128 env x \<le> x \<and> x < (sqrt_u128 env x + 1) * (sqrt_u128 env x + 1)) \<and>
     (\<forall>m. finite (dom m) \<longrightarrow> length (positions_prefix env m) = card (dom m) \<and> set (positions_prefix env m) = ran m)"

text \<open>A change of one subnet.\<close>

definition one_subnet :: "netuid \<Rightarrow> ('a, 'i, 'w) swap_state \<Rightarrow> ('a, 'i, 'w) swap_state \<Rightarrow> bool" where
  "one_subnet n s t \<longleftrightarrow> LastPositionId s \<le> LastPositionId t \<and> (LastPositionId s \<le> u128_max \<longrightarrow> LastPositionId t \<le> u128_max) \<and>
     (\<forall>m. m \<noteq> n \<longrightarrow> Ticks t m = Ticks s m \<and> (\<forall>L. lset (TickIndexBitmapWords t) m L = lset (TickIndexBitmapWords s) m L) \<and>
        Positions t m = Positions s m \<and> CurrentTick t m = CurrentTick s m \<and> SwapV3Initialized t m = SwapV3Initialized s m)"

lemma swap_inv_subnet:
  assumes "swap_inv env s" "one_subnet n s t" "ledger env g t n" "within_limit env t n"
  shows "swap_inv env t"
  unfolding swap_inv_def
proof (intro conjI[of "_ \<le> _"] allI)
  show "LastPositionId t \<le> u128_max" using assms(1,2) by (simp add: swap_inv_def one_subnet_def)
  fix m
  obtain h where h: "ledger env h s m" "within_limit env s m" using assms(1) by (auto simp: swap_inv_def)
  show "(\<exists>g. ledger env g t m) \<and> within_limit env t m"
  proof (cases "m = n")
    case False
    with assms(2) have o: "LastPositionId s \<le> LastPositionId t" "Ticks t m = Ticks s m"
      "\<And>L. lset (TickIndexBitmapWords t) m L = lset (TickIndexBitmapWords s) m L" "Positions t m = Positions s m"
      "CurrentTick t m = CurrentTick s m" "SwapV3Initialized t m = SwapV3Initialized s m"
      by (auto simp: one_subnet_def)
    have "ledger env h t m" using ledger_frame[OF h(1) o(2,3)] ledgerD(5)[OF h(1)] o by simp
    then show ?thesis using h(2) o(4) by (auto simp: within_limit_def)
  qed (use assms(3,4) in blast)
qed

lemma within_limit_put:
  assumes w: "within_limit env s n" and p: "Positions t n = (Positions s n)(a := X)"
    and c: "a \<noteq> protocol_account_id env \<Longrightarrow> card (dom X) \<le> MaxPositions env + 1"
  shows "within_limit env t n"
  using w c unfolding within_limit_def p by simp

lemma book_put:
  assumes "a \<noteq> protocol_account_id env" "Positions t n = (Positions s n)(a := (Positions s n a)(i := e))"
  shows "book env t n = (book env s n)((a, i) := e)"
  using assms by (auto simp: book_def fun_eq_iff)

lemma finite_positions: "ledger env g s n \<Longrightarrow> a \<noteq> protocol_account_id env \<Longrightarrow> finite (dom (Positions s n a))"
proof -
  assume L: "ledger env g s n" and a: "a \<noteq> protocol_account_id env"
  have "i \<in> snd ` dom (book env s n)" if "i \<in> dom (Positions s n a)" for i
    using that a by (intro image_eqI[of _ _ "(a, i)"]) (auto simp: book_def)
  then have "dom (Positions s n a) \<subseteq> snd ` dom (book env s n)" by blast
  then show ?thesis using finite_subset ledgerD(1)[OF L] by blast
qed

lemma swap_env_okD:
  assumes "swap_env_ok env"
  shows "0 < MinimumLiquidity env \<and> MinimumLiquidity env < 2 ^ 63" "0 < MinimumReserve env" "sqrt_u128 env x * sqrt_u128 env x \<le> x"
    "x < (sqrt_u128 env x + 1) * (sqrt_u128 env x + 1)" "finite (dom m) \<Longrightarrow> length (positions_prefix env m) = card (dom m)"
    "finite (dom m) \<Longrightarrow> set (positions_prefix env m) = ran m"
  using assms unfolding swap_env_ok_def by blast+

lemma one_subnet_ticks: "ticks_only n s s1 \<Longrightarrow> one_subnet n s1 t \<Longrightarrow> one_subnet n s t"
  unfolding one_subnet_def by (simp add: ticks_only_frame)

lemma do_add_liquidity_inv:
  assumes env: "swap_env_ok env" and inv: "swap_inv env s" and run: "do_add_liquidity env n c h low high l s = Inr (r, t)"
    and c: "c \<noteq> protocol_account_id env" and fresh: "LastPositionId s < u128_max" and u: "unsaturated (Ticks t n)"
  shows "swap_inv env t"
proof -
  obtain p tao alpha s1 where run1: "add_liquidity_not_insert env n c low high l s = Inr ((p, tao, alpha), s1)"
      and l: "MinimumLiquidity env \<le> l" and t: "t = insert_position n c (pos_id p) p s1"
    using run by (auto simp: do_add_liquidity_def)
  note A = add_liquidity_not_insert_ok[OF run1]
  obtain P C where s1: "s1 = (add_range (sw_fixed env) n low high l s)\<lparr>AlphaSqrtPrice := P, CurrentLiquidity := C,
        LastPositionId := pos_id p, SwapV3Initialized := (SwapV3Initialized s)(n := True)\<rparr>" using A(8) by blast
  have i: "pos_id p = LastPositionId s + 1" using A(4) fresh by (simp add: sat_add_def)
  have pos: "Positions t n = (Positions s n)(c := (Positions s n c)(pos_id p \<mapsto> p))"
    by (simp add: t s1 insert_position_def range_frame)
  obtain g where L: "ledger env g s n" and w: "within_limit env s n" using inv by (auto simp: swap_inv_def)
  have "book env s n (c, pos_id p) = None" using ledgerD(2)[OF L, of "(c, pos_id p)"] i
    by (cases "book env s n (c, pos_id p)") (auto simp: position_ok_def)
  moreover have "position_ok t (c, pos_id p) p" "LastPositionId s \<le> LastPositionId t"
    using A l swap_env_okD(1)[OF env] i by (auto simp: position_ok_def t s1 insert_position_def)
  ultimately have "ledger env g t n" using A(5-7) u ledgerD(5)[OF L]
    by (intro ledger_enter[OF L book_put[OF c pos]]) (simp_all add: t s1 insert_position_def range_frame)
  moreover have "within_limit env t n"
  proof (rule within_limit_put[OF w pos])
    have "card (dom (Positions s n c)) \<le> MaxPositions env"
      using A(1) swap_env_okD(5)[OF env finite_positions[OF L c]] by (simp add: count_positions_def)
    then show "card (dom ((Positions s n c)(pos_id p \<mapsto> p))) \<le> MaxPositions env + 1"
      using card_insert_le_m1[of "MaxPositions env + 1" "dom (Positions s n c)" "pos_id p"] by simp
  qed
  moreover have "one_subnet n s t"
    by (rule one_subnet_ticks[OF ticks_only_range(1)[of n s "sw_fixed env" low high l]]) (simp add: one_subnet_def t s1 insert_position_def range_frame i fresh[THEN Suc_leI])
  ultimately show ?thesis using swap_inv_subnet[OF inv] by blast
qed

lemma collect_fees_fields:
  assumes "collect_fees fx s p = (fees, q)"
  shows "pos_id q = pos_id p" "tick_low q = tick_low p" "tick_high q = tick_high p" "pos_liquidity q = pos_liquidity p"
  using assms by (auto simp: collect_fees_def Let_def)

lemma do_remove_liquidity_ok:
  assumes "do_remove_liquidity env n c i s = Inr (r, t)"
  shows "\<exists>p C. Positions s n c i = Some p \<and>
    t = remove_position n c i ((remove_range n (tick_low p) (tick_high p) (pos_liquidity p) s)\<lparr>CurrentLiquidity := C\<rparr>)"
proof -
  obtain p where p: "Positions s n c i = Some p" using assms by (auto simp: do_remove_liquidity_def Let_def)
  obtain f1 f2 q where q: "collect_fees (sw_fixed env) s p = ((f1, f2), q)" by (metis surj_pair)
  note F = collect_fees_fields[OF q]
  obtain C where C: "update_liquidity_if_needed n (tick_low p) (tick_high p) (- int (pos_liquidity p))
      (remove_range n (tick_low p) (tick_high p) (pos_liquidity p) s) =
      (remove_range n (tick_low p) (tick_high p) (pos_liquidity p) s)\<lparr>CurrentLiquidity := C\<rparr>"
    using update_liquidity_if_needed_frame by blast
  show ?thesis using assms p
    unfolding do_remove_liquidity_def Let_def p q F prod.case ok_or_simps and_then_simps remove_range_def[symmetric] C by auto
qed

text \<open>A success of \<open>do_modify_position\<close>: the position grows, shrinks or is taken out.\<close>

lemma do_modify_position_ok:
  assumes run: "do_modify_position env n c h i d s = Inr (r, t)" and min: "0 < MinimumLiquidity env \<and> MinimumLiquidity env < 2 ^ 63"
  shows "\<exists>p q C. Positions s n c i = Some p \<and> tick_low q = tick_low p \<and> tick_high q = tick_high p \<and> pos_id q = pos_id p \<and>
    (0 < d \<and> pos_liquidity q = sat_add u64_max (pos_liquidity p) (nat \<bar>d\<bar>) \<and>
       t = insert_position n c (pos_id p) q (add_range (sw_fixed env) n (tick_low p) (tick_high p) (nat \<bar>d\<bar>) (s\<lparr>CurrentLiquidity := C\<rparr>)) \<or>
     d < 0 \<and> nat \<bar>d\<bar> \<le> pos_liquidity p \<and> pos_liquidity q = pos_liquidity p - nat \<bar>d\<bar> \<and> MinimumLiquidity env \<le> pos_liquidity q \<and>
       t = insert_position n c (pos_id p) q (remove_range n (tick_low p) (tick_high p) (nat \<bar>d\<bar>) (s\<lparr>CurrentLiquidity := C\<rparr>)) \<or>
     d < 0 \<and> nat \<bar>d\<bar> \<le> pos_liquidity p \<and>
       t = remove_position n c i (remove_range n (tick_low p) (tick_high p) (pos_liquidity p) (s\<lparr>CurrentLiquidity := C\<rparr>)))"
proof -
  obtain p where p: "Positions s n c i = Some p" using run by (auto simp: do_modify_position_def Let_def)
  obtain pa pb where pab: "try_to_sqrt_price (tick_low p) = Inr pa" "try_to_sqrt_price (tick_high p) = Inr pb"
    using run by (auto simp: do_modify_position_def Let_def p)
  have "as_i64 (MinimumLiquidity env) \<le> i64_abs d" using run by (auto simp: do_modify_position_def Let_def p)
  moreover have "0 < as_i64 (MinimumLiquidity env)" using min by (simp add: as_i64_def i64_max_def)
  ultimately have d: "d \<noteq> 0" by (auto simp: i64_abs_def i64_min_def)
  obtain box C where box: "(if AlphaSqrtPrice s n < pa then (pa, s) else if AlphaSqrtPrice s n > pb then (pb, s)
      else (AlphaSqrtPrice s n, s\<lparr>CurrentLiquidity := (CurrentLiquidity s)
        (n := (if d > 0 then sat_add u64_max (CurrentLiquidity s n) (nat \<bar>d\<bar>) else CurrentLiquidity s n - nat \<bar>d\<bar>))\<rparr>)) =
      (box, s\<lparr>CurrentLiquidity := C\<rparr>)" (is "?box = _")
  proof (cases "AlphaSqrtPrice s n < pa \<or> AlphaSqrtPrice s n > pb")
    case True
    then show ?thesis using that[of pa "CurrentLiquidity s"] that[of pb "CurrentLiquidity s"]
      by (cases "AlphaSqrtPrice s n < pa") simp_all
  next
    case False
    then show ?thesis using that by auto
  qed
  let ?s = "s\<lparr>CurrentLiquidity := C\<rparr>"
  obtain f1 f2 q where q: "collect_fees (sw_fixed env) ?s p = ((f1, f2), q)" by (metis surj_pair)
  note F = collect_fees_fields[OF q]
  note run' = run[unfolded do_modify_position_def Let_def p pab box q F ok_or_simps map_err_simps and_then_simps prod.case add_range_def[symmetric] remove_range_def[symmetric]]
  show ?thesis
  proof (cases "0 < d")
    case True
    show ?thesis using run' p F True by (intro exI[of _ p] exI[of _ "q\<lparr>pos_liquidity := sat_add u64_max (pos_liquidity p) (nat \<bar>d\<bar>)\<rparr>"] exI[of _ C]) auto
  next
    case False
    then have neg: "d < 0" using d by simp
    have le: "nat \<bar>d\<bar> \<le> pos_liquidity p" using run' False by auto
    show ?thesis
    proof (cases "pos_liquidity p - nat \<bar>d\<bar> < MinimumLiquidity env")
      case True
      show ?thesis using run' p F True neg le by (intro exI[of _ p] exI[of _ q] exI[of _ C]) auto
    next
      case False
      show ?thesis using run' p F False neg le
        by (intro exI[of _ p] exI[of _ "q\<lparr>pos_liquidity := pos_liquidity p - nat \<bar>d\<bar>\<rparr>"] exI[of _ C]) auto
    qed
  qed
qed

text \<open>Fields that the ledger does not speak of.\<close>

lemma swap_inv_frame:
  assumes "swap_inv env s" "Ticks t = Ticks s" "TickIndexBitmapWords t = TickIndexBitmapWords s" "\<And>n a. a \<noteq> protocol_account_id env \<Longrightarrow> Positions t n a = Positions s n a"
    "CurrentTick t = CurrentTick s" "SwapV3Initialized t = SwapV3Initialized s" "LastPositionId t = LastPositionId s"
  shows "swap_inv env t"
  unfolding swap_inv_def
proof (intro allI conjI)
  show "LastPositionId t \<le> u128_max" using assms(1,7) by (simp add: swap_inv_def)
  fix n
  obtain g where L: "ledger env g s n" and w: "within_limit env s n" using assms(1) by (auto simp: swap_inv_def)
  have "ledger env g t n" using ledgerD(5)[OF L] by (intro ledger_frame[OF L]) (simp_all add: assms)
  then show "\<exists>g. ledger env g t n" by blast
  show "within_limit env t n" using w assms(4) by (simp add: within_limit_def)
qed

lemma position_key: "ledger env g s n \<Longrightarrow> c \<noteq> protocol_account_id env \<Longrightarrow> Positions s n c i = Some p \<Longrightarrow>
    book env s n (c, i) = Some p \<and> pos_id p = i \<and> in_range (tick_low p) \<and> in_range (tick_high p) \<and> 0 < pos_liquidity p \<and> i \<le> LastPositionId s"
  using ledgerD(2)[of env g s n "(c, i)" p] by (auto simp: book_def position_ok_def)

lemma within_limit_same:
  assumes w: "within_limit env s n" and p: "Positions t n = (Positions s n)(a := (Positions s n a)(i := e))" and i: "Positions s n a i \<noteq> None"
    and fin: "a \<noteq> protocol_account_id env \<Longrightarrow> finite (dom (Positions s n a))"
  shows "within_limit env t n"
proof (rule within_limit_put[OF w p])
  assume a: "a \<noteq> protocol_account_id env"
  have "dom ((Positions s n a)(i := e)) \<subseteq> dom (Positions s n a)" using i by (auto split: if_splits)
  then have "card (dom ((Positions s n a)(i := e))) \<le> card (dom (Positions s n a))" using fin[OF a] by (rule card_mono[rotated])
  also have "\<dots> \<le> MaxPositions env + 1" using w a by (simp add: within_limit_def)
  finally show "card (dom ((Positions s n a)(i := e))) \<le> MaxPositions env + 1" .
qed

text \<open>The liquidity of a range changes together with a position of the book.\<close>

lemma swap_inv_range:
  assumes inv: "swap_inv env s" and r: "ticks_only n s r"
    and t: "t = r\<lparr>Positions := (Positions s)(n := (Positions s n)(c := (Positions s n c)(i := e)))\<rparr>"
    and p: "Positions s n c i \<noteq> None" and c: "c \<noteq> protocol_account_id env"
    and led: "\<And>g. ledger env g s n \<Longrightarrow> book env t n = (book env s n)((c, i) := e) \<Longrightarrow> LastPositionId s \<le> LastPositionId t \<Longrightarrow>
      in_range (CurrentTick t n) \<Longrightarrow> (SwapV3Initialized s n \<Longrightarrow> SwapV3Initialized t n) \<Longrightarrow> ledger env g t n"
  shows "swap_inv env t"
proof -
  obtain g where L: "ledger env g s n" and w: "within_limit env s n" using inv by (auto simp: swap_inv_def)
  note F = ticks_only_frame[OF r]
  have pos: "Positions t n = (Positions s n)(c := (Positions s n c)(i := e))" by (simp add: t)
  have "ledger env g t n" using ledgerD(5)[OF L] by (intro led[OF L book_put[OF c pos]]) (simp_all add: t F)
  moreover have "within_limit env t n" using within_limit_same[OF w pos p] finite_positions[OF L] by simp
  moreover have "one_subnet n s t" by (simp add: one_subnet_def t F)
  ultimately show ?thesis using swap_inv_subnet[OF inv] by blast
qed

lemma insert_position_range:
  "insert_position n c i q (add_range fx n low high d s) =
     (add_range fx n low high d s)\<lparr>Positions := (Positions s)(n := (Positions s n)(c := (Positions s n c)(i := Some q)))\<rparr>"
  "insert_position n c i q (remove_range n low high d s) =
     (remove_range n low high d s)\<lparr>Positions := (Positions s)(n := (Positions s n)(c := (Positions s n c)(i := Some q)))\<rparr>"
  "remove_position n c i (remove_range n low high d s) =
     (remove_range n low high d s)\<lparr>Positions := (Positions s)(n := (Positions s n)(c := (Positions s n c)(i := None)))\<rparr>"
  by (simp_all add: insert_position_def remove_position_def range_frame)

lemma swap_inv_grow:
  assumes inv: "swap_inv env s" and c: "c \<noteq> protocol_account_id env" and p: "Positions s n c i = Some p"
    and q: "tick_low q = tick_low p" "tick_high q = tick_high p" "pos_id q = pos_id p" "pos_liquidity q = sat_add u64_max (pos_liquidity p) d" "0 < d"
    and t: "t = insert_position n c i q (add_range fx n (tick_low p) (tick_high p) d s)" and u: "unsaturated (Ticks t n)"
  shows "swap_inv env t"
proof (rule swap_inv_range[OF inv ticks_only_range(1) t[unfolded insert_position_range] _ c])
  fix g
  assume L: "ledger env g s n" and b: "book env t n = (book env s n)((c, i) \<mapsto> q)" and l: "LastPositionId s \<le> LastPositionId t"
    and f: "in_range (CurrentTick t n)" "SwapV3Initialized s n \<Longrightarrow> SwapV3Initialized t n"
  note K = position_key[OF L c p]
  have "0 < pos_liquidity q" using q(4,5) by (simp add: sat_add_def u64_max_def)
  then have "position_ok t (c, i) q" using K q l by (auto simp: position_ok_def)
  then show "ledger env g t n" using K q u
    by (intro ledger_grow[OF L b _ l f, where q = p and d = d and fx = fx]) (simp_all add: t insert_position_def)
qed (simp add: p)

lemma swap_inv_shrink:
  assumes inv: "swap_inv env s" and c: "c \<noteq> protocol_account_id env" and p: "Positions s n c i = Some p"
    and q: "tick_low q = tick_low p" "tick_high q = tick_high p" "pos_id q = pos_id p" "pos_liquidity q = pos_liquidity p - d" "0 < d" "d < pos_liquidity p"
    and t: "t = insert_position n c i q (remove_range n (tick_low p) (tick_high p) d s)" and u: "unsaturated (Ticks t n)"
  shows "swap_inv env t"
proof (rule swap_inv_range[OF inv ticks_only_range(2) t[unfolded insert_position_range] _ c])
  fix g
  assume L: "ledger env g s n" and b: "book env t n = (book env s n)((c, i) \<mapsto> q)" and l: "LastPositionId s \<le> LastPositionId t"
    and f: "in_range (CurrentTick t n)" "SwapV3Initialized s n \<Longrightarrow> SwapV3Initialized t n"
  note K = position_key[OF L c p]
  have "position_ok t (c, i) q" using K q l by (auto simp: position_ok_def)
  then show "ledger env g t n" using K q u
    by (intro ledger_shrink[OF L b _ l f, where q = p and d = d]) (simp_all add: t insert_position_def)
qed (simp add: p)

lemma swap_inv_leave:
  assumes inv: "swap_inv env s" and c: "c \<noteq> protocol_account_id env" and p: "Positions s n c i = Some p"
    and t: "t = remove_position n c i (remove_range n (tick_low p) (tick_high p) (pos_liquidity p) s)" and u: "unsaturated (Ticks t n)"
  shows "swap_inv env t"
proof (rule swap_inv_range[OF inv ticks_only_range(2) t[unfolded insert_position_range] _ c])
  fix g
  assume L: "ledger env g s n" and b: "book env t n = (book env s n)((c, i) := None)" and l: "LastPositionId s \<le> LastPositionId t"
    and f: "in_range (CurrentTick t n)" "SwapV3Initialized s n \<Longrightarrow> SwapV3Initialized t n"
  show "ledger env g t n" using position_key[OF L c p] u
    by (intro ledger_leave[OF L b l f, where p = p]) (simp_all add: t remove_position_def)
qed (simp add: p)

lemma do_remove_liquidity_inv:
  assumes inv: "swap_inv env s" and run: "do_remove_liquidity env n c i s = Inr (r, t)"
    and c: "c \<noteq> protocol_account_id env" and u: "unsaturated (Ticks t n)"
  shows "swap_inv env t"
proof -
  obtain p C where p: "Positions s n c i = Some p"
      and t: "t = remove_position n c i ((remove_range n (tick_low p) (tick_high p) (pos_liquidity p) s)\<lparr>CurrentLiquidity := C\<rparr>)"
    using do_remove_liquidity_ok[OF run] by blast
  let ?t = "remove_position n c i (remove_range n (tick_low p) (tick_high p) (pos_liquidity p) s)"
  have "swap_inv env ?t" using u by (intro swap_inv_leave[OF inv c p refl]) (simp add: t remove_position_def)
  then show ?thesis by (rule swap_inv_frame) (simp_all add: t remove_position_def)
qed

lemma do_modify_position_inv:
  assumes env: "swap_env_ok env" and inv: "swap_inv env s" and run: "do_modify_position env n c h i d s = Inr (r, t)"
    and c: "c \<noteq> protocol_account_id env" and u: "unsaturated (Ticks t n)"
  shows "swap_inv env t"
proof -
  note min = swap_env_okD(1)[OF env]
  obtain p q C where p: "Positions s n c i = Some p" and q: "tick_low q = tick_low p" "tick_high q = tick_high p" "pos_id q = pos_id p"
      and t: "0 < d \<and> pos_liquidity q = sat_add u64_max (pos_liquidity p) (nat \<bar>d\<bar>) \<and>
       t = insert_position n c (pos_id p) q (add_range (sw_fixed env) n (tick_low p) (tick_high p) (nat \<bar>d\<bar>) (s\<lparr>CurrentLiquidity := C\<rparr>)) \<or>
     d < 0 \<and> nat \<bar>d\<bar> \<le> pos_liquidity p \<and> pos_liquidity q = pos_liquidity p - nat \<bar>d\<bar> \<and> MinimumLiquidity env \<le> pos_liquidity q \<and>
       t = insert_position n c (pos_id p) q (remove_range n (tick_low p) (tick_high p) (nat \<bar>d\<bar>) (s\<lparr>CurrentLiquidity := C\<rparr>)) \<or>
     d < 0 \<and> nat \<bar>d\<bar> \<le> pos_liquidity p \<and>
       t = remove_position n c i (remove_range n (tick_low p) (tick_high p) (pos_liquidity p) (s\<lparr>CurrentLiquidity := C\<rparr>))"
    using do_modify_position_ok[OF run min] by blast
  define s0 where "s0 = s\<lparr>CurrentLiquidity := C\<rparr>"
  have inv0: "swap_inv env s0" by (rule swap_inv_frame[OF inv]) (simp_all add: s0_def)
  have p0: "Positions s0 n c i = Some p" by (simp add: s0_def p)
  obtain g where "ledger env g s0 n" using inv0 by (auto simp: swap_inv_def)
  from position_key[OF this c p0] have i: "pos_id p = i" by blast
  show ?thesis using t[folded s0_def, unfolded i]
  proof (elim disjE conjE)
    assume "0 < d" "pos_liquidity q = sat_add u64_max (pos_liquidity p) (nat \<bar>d\<bar>)"
      "t = insert_position n c i q (add_range (sw_fixed env) n (tick_low p) (tick_high p) (nat \<bar>d\<bar>) s0)"
    then show ?thesis using swap_inv_grow[OF inv0 c p0 q] u by simp
  next
    assume "d < 0" "nat \<bar>d\<bar> \<le> pos_liquidity p" "pos_liquidity q = pos_liquidity p - nat \<bar>d\<bar>" "MinimumLiquidity env \<le> pos_liquidity q"
       "t = insert_position n c i q (remove_range n (tick_low p) (tick_high p) (nat \<bar>d\<bar>) s0)"
    then show ?thesis using min u by (intro swap_inv_shrink[OF inv0 c p0 q, of "nat \<bar>d\<bar>"]) auto
  next
    assume "t = remove_position n c i (remove_range n (tick_low p) (tick_high p) (pos_liquidity p) s0)"
    then show ?thesis using swap_inv_leave[OF inv0 c p0] u by simp
  qed
qed

section \<open>Swaps\<close>

text \<open>What a swap may change on its subnet: prices, fees, the current tick and the current liquidity.\<close>

definition same_liquidity :: "(tick_index \<Rightarrow> 'i tick option) \<Rightarrow> (tick_index \<Rightarrow> 'i tick option) \<Rightarrow> bool" where
  "same_liquidity T U \<longleftrightarrow> (\<forall>e. map_option (\<lambda>k. (liquidity_net k, liquidity_gross k)) (U e) = map_option (\<lambda>k. (liquidity_net k, liquidity_gross k)) (T e))"

definition crosses :: "netuid \<Rightarrow> ('a, 'i, 'w) swap_state \<Rightarrow> ('a, 'i, 'w) swap_state \<Rightarrow> bool" where
  "crosses n s t \<longleftrightarrow> Positions t = Positions s \<and> TickIndexBitmapWords t = TickIndexBitmapWords s \<and> SwapV3Initialized t = SwapV3Initialized s \<and>
     LastPositionId t = LastPositionId s \<and> sw_world t = sw_world s \<and> same_liquidity (Ticks s n) (Ticks t n) \<and> in_range (CurrentTick t n) \<and>
     (\<forall>m. m \<noteq> n \<longrightarrow> Ticks t m = Ticks s m \<and> CurrentTick t m = CurrentTick s m \<and> CurrentLiquidity t m = CurrentLiquidity s m \<and>
        AlphaSqrtPrice t m = AlphaSqrtPrice s m \<and> FeeGlobalTao t m = FeeGlobalTao s m \<and> FeeGlobalAlpha t m = FeeGlobalAlpha s m)"

lemma crosses_refl: "in_range (CurrentTick s n) \<Longrightarrow> crosses n s s"
  by (simp add: crosses_def same_liquidity_def)

lemma crosses_trans: "crosses n s t \<Longrightarrow> crosses n t u \<Longrightarrow> crosses n s u"
  by (simp add: crosses_def same_liquidity_def)

lemma same_liquidity_sums: "same_liquidity T U \<Longrightarrow> tick_sums (U e) a b = tick_sums (T e) a b \<and> (U e = None \<longleftrightarrow> T e = None)"
  unfolding same_liquidity_def by (drule spec[of _ e], cases "T e"; cases "U e") (simp_all add: tick_sums_simps)

lemma same_liquidity_unsaturated: "same_liquidity T U \<Longrightarrow> unsaturated U = unsaturated T"
  unfolding same_liquidity_def unsaturated_def
  by (rule all_cong1, drule_tac x = t in spec, case_tac "T t"; case_tac "U t") auto

lemma crosses_ledger:
  assumes "crosses n s t" "ledger env g s n"
  shows "ledger env g t n"
proof -
  note L = ledgerD[OF assms(2)]
  have c: "book env t n = book env s n" "TickIndexBitmapWords t = TickIndexBitmapWords s" "in_range (CurrentTick t n)"
      "SwapV3Initialized t = SwapV3Initialized s" "same_liquidity (Ticks s n) (Ticks t n)" "LastPositionId t = LastPositionId s"
    using assms(1) by (auto simp: crosses_def book_def fun_eq_iff)
  have "position_ok t k p = position_ok s k p" for k p by (simp add: position_ok_def c(6))
  then show ?thesis using assms(2) c(3,4)
    unfolding ledger_def c(1,2) ticks_match_def
    by (simp add: same_liquidity_sums[OF c(5)] same_liquidity_unsaturated[OF c(5)])
qed

lemma crosses_inv: "crosses n s t \<Longrightarrow> swap_inv env s \<Longrightarrow> swap_inv env t"
proof -
  assume c: "crosses n s t" and inv: "swap_inv env s"
  obtain g where "ledger env g s n" "within_limit env s n" using inv by (auto simp: swap_inv_def)
  with crosses_ledger[OF c] have "ledger env g t n" "within_limit env t n" using c by (auto simp: within_limit_def crosses_def)
  moreover have "one_subnet n s t" using c by (simp add: one_subnet_def crosses_def)
  ultimately show ?thesis using swap_inv_subnet[OF inv] by blast
qed

lemma from_sqrt_price_bounded_range: "in_range (from_sqrt_price_bounded fx p)"
proof (cases "try_from_sqrt_price p")
  case (Inl e)
  then show ?thesis by (simp add: from_sqrt_price_bounded_def Let_def in_range_def)
next
  case (Inr t)
  then obtain v where "tick_new v = Inr t" by (auto simp: try_from_sqrt_price_def Let_def split: if_splits)
  then show ?thesis by (simp add: from_sqrt_price_bounded_def Inr in_range_def tick_new_def split: if_splits)
qed

lemma add_fees_frame:
  "\<exists>F G. add_fees env n order fee s = s\<lparr>FeeGlobalTao := F, FeeGlobalAlpha := G\<rparr> \<and> (\<forall>m. m \<noteq> n \<longrightarrow> F m = FeeGlobalTao s m \<and> G m = FeeGlobalAlpha s m)"
proof (cases "current_liquidity_safe env s n = 0")
  case True
  then show ?thesis by (intro exI[of _ "FeeGlobalTao s"] exI[of _ "FeeGlobalAlpha s"]) (simp add: add_fees_def Let_def)
next
  case False
  let ?F = "(FeeGlobalTao s)(n := f_add (sw_u env) (FeeGlobalTao s n) (f_safe_div (sw_u env) (of_u64 (sw_u env) fee) (current_liquidity_safe env s n)))"
  let ?G = "(FeeGlobalAlpha s)(n := f_add (sw_u env) (FeeGlobalAlpha s n) (f_safe_div (sw_u env) (of_u64 (sw_u env) fee) (current_liquidity_safe env s n)))"
  show ?thesis
  proof (cases order)
    case Buy
    with False show ?thesis by (intro exI[of _ ?F] exI[of _ "FeeGlobalAlpha s"]) (simp add: add_fees_def Let_def)
  next
    case Sell
    with False show ?thesis by (intro exI[of _ "FeeGlobalTao s"] exI[of _ ?G]) (simp add: add_fees_def Let_def)
  qed
qed

lemma tick_edge_frame:
  "TickIndexBitmapWords t = TickIndexBitmapWords s \<Longrightarrow> AlphaSqrtPrice t = AlphaSqrtPrice s \<Longrightarrow> tick_edge fx t n c order = tick_edge fx s n c order"
  by (cases order) (simp_all add: tick_edge_def Let_def)

lemma current_bounded_id: "in_range t \<Longrightarrow> current_bounded t = t"
  by (auto simp: current_bounded_def in_range_def)

lemma update_liquidity_at_crossing_ok:
  assumes "update_liquidity_at_crossing fx n order s = Inr t"
  shows "\<exists>k C. Ticks s n (tick_edge fx s n (current_bounded (CurrentTick s n)) order) = Some k \<and> t = s\<lparr>CurrentLiquidity := C\<rparr> \<and>
    (\<forall>m. m \<noteq> n \<longrightarrow> C m = CurrentLiquidity s m)"
  using assms by (auto simp: update_liquidity_at_crossing_def Let_def)

lemma same_liquidity_put:
  "T e = Some k \<Longrightarrow> liquidity_net k' = liquidity_net k \<Longrightarrow> liquidity_gross k' = liquidity_gross k \<Longrightarrow> same_liquidity T (T(e \<mapsto> k'))"
  by (simp add: same_liquidity_def)

lemma process_swap_crosses:
  assumes run: "process_swap env st s = Inr (res, t)" and st: "st_netuid st = n"
      "edge_tick st = tick_edge (sw_fixed env) s n (CurrentTick s n) (st_order_type st)" and c: "in_range (CurrentTick s n)"
  shows "crosses n s t"
proof -
  let ?fx = "sw_fixed env"
  obtain F G where F: "add_fees env n (st_order_type st) (st_fee st) s = s\<lparr>FeeGlobalTao := F, FeeGlobalAlpha := G\<rparr>"
      "\<And>m. m \<noteq> n \<Longrightarrow> F m = FeeGlobalTao s m \<and> G m = FeeGlobalAlpha s m" using add_fees_frame by metis
  define s1 where "s1 = s\<lparr>FeeGlobalTao := F, FeeGlobalAlpha := G\<rparr>"
  have "\<exists>T C. t = s1\<lparr>Ticks := (Ticks s)(n := T), CurrentLiquidity := C, AlphaSqrtPrice := (AlphaSqrtPrice s)(n := final_price st),
      CurrentTick := (CurrentTick s)(n := from_sqrt_price_bounded ?fx (final_price st))\<rparr> \<and>
      same_liquidity (Ticks s n) T \<and> (\<forall>m. m \<noteq> n \<longrightarrow> C m = CurrentLiquidity s m)"
  proof (cases "st_action st = Crossing")
    case False
    then show ?thesis using run by (intro exI[of _ "Ticks s n"] exI[of _ "CurrentLiquidity s"])
        (auto simp: process_swap_def Let_def st F(1) s1_def same_liquidity_def)
  next
    case True
    define tk where "tk = tick_or_default ?fx s1 n (edge_tick st)"
    define tk' where "tk' = tk\<lparr>fees_out_tao := x_sub ?fx (x_of_u ?fx (FeeGlobalTao s1 n)) (fees_out_tao tk),
        fees_out_alpha := x_sub ?fx (x_of_u ?fx (FeeGlobalAlpha s1 n)) (fees_out_alpha tk)\<rparr>"
    obtain u where u: "update_liquidity_at_crossing ?fx n (st_order_type st) s1 = Inr u"
      and t: "t = u\<lparr>Ticks := (Ticks u)(n := (Ticks u n)(edge_tick st \<mapsto> tk')), AlphaSqrtPrice := (AlphaSqrtPrice u)(n := final_price st),
          CurrentTick := (CurrentTick u)(n := from_sqrt_price_bounded ?fx (final_price st))\<rparr>"
      using run True unfolding process_swap_def Let_def st(1) F(1) s1_def[symmetric] tk'_def tk_def by auto
    obtain k C where k: "Ticks s1 n (tick_edge ?fx s1 n (current_bounded (CurrentTick s1 n)) (st_order_type st)) = Some k" "u = s1\<lparr>CurrentLiquidity := C\<rparr>"
        "\<forall>m. m \<noteq> n \<longrightarrow> C m = CurrentLiquidity s1 m"
      using update_liquidity_at_crossing_ok[OF u] by blast
    have "tick_edge ?fx s1 n (current_bounded (CurrentTick s1 n)) (st_order_type st) = edge_tick st"
      using current_bounded_id[OF c] by (simp add: s1_def st(2)) (rule tick_edge_frame; simp)
    then have tk: "Ticks s n (edge_tick st) = Some k" "tk = k" using k(1) by (simp_all add: tk_def tick_or_default_def s1_def)
    have "same_liquidity (Ticks s n) ((Ticks s n)(edge_tick st \<mapsto> tk'))" by (rule same_liquidity_put[where k = k]) (simp_all add: tk'_def tk)
    then show ?thesis using k(3) by (intro exI[of _ "(Ticks s n)(edge_tick st \<mapsto> tk')"] exI[of _ C]) (simp add: t k(2) s1_def)
  qed
  then show ?thesis using F(2) from_sqrt_price_bounded_range by (auto simp: crosses_def s1_def)
qed

lemma determine_action_fields:
  "st_netuid (determine_action fx s st) = st_netuid st" "edge_tick (determine_action fx s st) = edge_tick st"
  "st_order_type (determine_action fx s st) = st_order_type st"
  by (simp_all add: determine_action_def Let_def)

lemma swap_iteration_crosses:
  assumes run: "swap_iteration env n order limit acc s = Inr (acc', t)" and c: "in_range (CurrentTick s n)"
  shows "crosses n s t"
proof -
  let ?st = "determine_action (sw_fixed env) s (step_new env s n order (amount_remaining acc) limit)"
  obtain res where "process_swap env ?st s = Inr (res, t)"
    using run by (auto simp: swap_iteration_def step_execute_def Let_def)
  then show ?thesis by (rule process_swap_crosses) (simp_all add: determine_action_fields step_new_def Let_def c)
qed

lemma swap_loop_crosses:
  "swap_loop env n order limit i acc s = Inr (acc', t) \<Longrightarrow> in_range (CurrentTick s n) \<Longrightarrow> crosses n s t"
proof (induction env n order limit i acc s rule: swap_loop.induct)
  case (1 env n order limit i acc s)
  show ?case
  proof (cases "amount_remaining acc > 0")
    case False
    with 1(2,3) show ?thesis by (simp add: swap_loop.simps[of env n order limit i acc s] crosses_refl)
  next
    case True
    then obtain a u where it: "swap_iteration env n order limit acc s = Inr (a, u)"
        and le: "sat_add u16_max i 1 \<le> MAX_SWAP_ITERATIONS"
        and rest: "swap_loop env n order limit (sat_add u16_max i 1) a u = Inr (acc', t)"
      using 1(2) unfolding swap_loop.simps[of env n order limit i acc s] by auto
    have su: "crosses n s u" by (rule swap_iteration_crosses[OF it 1(3)])
    then have "in_range (CurrentTick u n)" by (simp add: crosses_def)
    then have "crosses n u t" using 1(1)[OF True it le] rest by simp
    with su show ?thesis by (rule crosses_trans)
  qed
qed

text \<open>The initialization enters the position of the protocol, which spans all ticks.\<close>

lemma at_tick_enter: "(\<lambda>t. A t + at_tick u l t) = (\<lambda>t. A t + at_tick u 0 t)(u := A u + at_tick u 0 u + l)"
  by (auto simp: at_tick_def fun_eq_iff)

lemma ledger_seed:
  assumes L: "ledger env 0 s n" and l: "0 < l" and t: "Ticks t n = Ticks (add_range fx n tick_MIN tick_MAX l s) n"
      "TickIndexBitmapWords t = TickIndexBitmapWords (add_range fx n tick_MIN tick_MAX l s)" "book env t n = book env s n"
      "LastPositionId s \<le> LastPositionId t" "in_range (CurrentTick t n)" "SwapV3Initialized t n" and u: "unsaturated (Ticks t n)"
  shows "ledger env l t n"
proof -
  have "ticks_match (Ticks t n) (TickIndexBitmapWords t) n (\<lambda>u. starting (book env t n) u + at_tick tick_MIN l u) (\<lambda>u. ending (book env t n) u + at_tick tick_MAX l u)"
    unfolding t(1-3) at_tick_enter[of _ _ l] using u l
    by (intro add_range_match[OF ledgerD(3)[OF L]]) (simp_all add: t in_range_def)
  moreover have "position_ok t k p" if "book env s n k = Some p" for k p using ledgerD(2)[OF L that] t(4) by (auto simp: position_ok_def)
  ultimately show ?thesis using ledgerD(1)[OF L] t(5,6) u unfolding ledger_def t(3) by simp
qed

lemma sqrt_u128_range:
  assumes "swap_env_ok env" "0 < a" "0 < b"
  shows "0 < sqrt_u128 env (sat_mul u128_max a b) mod 2 ^ 64"
proof -
  define x where "x = sat_mul u128_max a b"
  have x: "0 < x" "x < 2 ^ 128" using assms(2,3) by (simp_all add: x_def sat_mul_def u128_max_def)
  note q = swap_env_okD(3,4)[OF assms(1), of x]
  have "sqrt_u128 env x \<noteq> 0" using q(2) x(1) by (intro notI) simp
  moreover have "sqrt_u128 env x < 2 ^ 64"
  proof (rule ccontr)
    assume "\<not> ?thesis"
    then have "2 ^ 64 * 2 ^ 64 \<le> sqrt_u128 env x * sqrt_u128 env x" by (intro mult_mono) simp_all
    with q(1) x(2) show False by simp
  qed
  ultimately show ?thesis by (simp add: x_def)
qed

lemma maybe_initialize_v3_ok:
  assumes "maybe_initialize_v3 env n s = Inr t" "\<not> SwapV3Initialized s n"
  shows "\<exists>P x p a b s1. add_liquidity_not_insert env n (protocol_account_id env) tick_MIN tick_MAX
      (sqrt_u128 env (sat_mul u128_max (si_tao_reserve env n (sw_world s)) (si_alpha_reserve env n (sw_world s))) mod 2 ^ 64)
      (s\<lparr>AlphaSqrtPrice := P, CurrentTick := (CurrentTick s)(n := from_sqrt_price_bounded (sw_fixed env) x)\<rparr>) = Inr ((p, a, b), s1) \<and>
    t = insert_position n (protocol_account_id env) (pos_id p) p s1"
proof -
  let ?u = "sw_u env"
  define x where "x = (case checked_sqrt ?u (f_safe_div ?u (of_u64 ?u (si_tao_reserve env n (sw_world s))) (of_u64 ?u (si_alpha_reserve env n (sw_world s))))
      (init_epsilon (sw_fixed env)) of Some p \<Rightarrow> p | None \<Rightarrow> of_u64 ?u 0)"
  show ?thesis using assms unfolding maybe_initialize_v3_def Let_def x_def[symmetric]
    by (intro exI[of _ "(AlphaSqrtPrice s)(n := x)"] exI[of _ x]) auto
qed

lemma maybe_initialize_v3_tick:
  assumes "maybe_initialize_v3 env n s = Inr t" "in_range (CurrentTick s n)"
  shows "in_range (CurrentTick t n)"
proof (cases "SwapV3Initialized s n")
  case True
  then show ?thesis using assms by (simp add: maybe_initialize_v3_def)
next
  case False
  obtain P x p a b s1 where s1: "add_liquidity_not_insert env n (protocol_account_id env) tick_MIN tick_MAX
      (sqrt_u128 env (sat_mul u128_max (si_tao_reserve env n (sw_world s)) (si_alpha_reserve env n (sw_world s))) mod 2 ^ 64)
      (s\<lparr>AlphaSqrtPrice := P, CurrentTick := (CurrentTick s)(n := from_sqrt_price_bounded (sw_fixed env) x)\<rparr>) = Inr ((p, a, b), s1)"
      and t: "t = insert_position n (protocol_account_id env) (pos_id p) p s1"
    using maybe_initialize_v3_ok[OF assms(1) False] by blast
  show ?thesis using add_liquidity_not_insert_ok(8)[OF s1] by (auto simp: t insert_position_def range_frame from_sqrt_price_bounded_range)
qed

lemma maybe_initialize_v3_inv:
  assumes env: "swap_env_ok env" and inv: "swap_inv env s" and run: "maybe_initialize_v3 env n s = Inr t"
    and res: "0 < si_tao_reserve env n (sw_world s)" "0 < si_alpha_reserve env n (sw_world s)" and u: "unsaturated (Ticks t n)"
  shows "swap_inv env t"
proof (cases "SwapV3Initialized s n")
  case True
  then show ?thesis using inv run by (simp add: maybe_initialize_v3_def)
next
  case False
  define l where "l = sqrt_u128 env (sat_mul u128_max (si_tao_reserve env n (sw_world s)) (si_alpha_reserve env n (sw_world s))) mod 2 ^ 64"
  let ?c = "protocol_account_id env"
  obtain P x p a b s1 where s1: "add_liquidity_not_insert env n ?c tick_MIN tick_MAX l (s\<lparr>AlphaSqrtPrice := P,
        CurrentTick := (CurrentTick s)(n := from_sqrt_price_bounded (sw_fixed env) x)\<rparr>) = Inr ((p, a, b), s1)"
      and t: "t = insert_position n ?c (pos_id p) p s1"
    using maybe_initialize_v3_ok[OF run False] unfolding l_def by blast
  define s0 where "s0 = s\<lparr>AlphaSqrtPrice := P, CurrentTick := (CurrentTick s)(n := from_sqrt_price_bounded (sw_fixed env) x)\<rparr>"
  have cross: "crosses n s (s0\<lparr>AlphaSqrtPrice := (AlphaSqrtPrice s)(n := P n)\<rparr>)" by (simp add: crosses_def s0_def same_liquidity_def from_sqrt_price_bounded_range)
  have inv0: "swap_inv env s0" by (rule swap_inv_frame[OF crosses_inv[OF cross inv]]) simp_all
  obtain g where "ledger env g s0 n" and w: "within_limit env s0 n" using inv0 by (auto simp: swap_inv_def)
  then have L: "ledger env 0 s0 n" using ledgerD(6)[of env g s0 n] False by (auto simp: s0_def)
  note A = add_liquidity_not_insert_ok[OF s1, folded s0_def]
  obtain Q C where s1: "s1 = (add_range (sw_fixed env) n tick_MIN tick_MAX l s0)\<lparr>AlphaSqrtPrice := Q, CurrentLiquidity := C,
        LastPositionId := pos_id p, SwapV3Initialized := (SwapV3Initialized s0)(n := True)\<rparr>" using A(8) by blast
  have i: "LastPositionId s0 \<le> pos_id p" "pos_id p \<le> u128_max" using A(4) inv0 by (auto simp: sat_add_def swap_inv_def)
  note F = t s1 insert_position_def range_frame
  have "0 < l" unfolding l_def by (rule sqrt_u128_range[OF env res])
  then have "ledger env l t n" using ledgerD(5)[OF L] u i
    by (intro ledger_seed[OF L, where fx = "sw_fixed env"]) (simp_all add: F book_def fun_eq_iff)
  moreover have "within_limit env t n" using w by (simp add: within_limit_def F)
  moreover have "one_subnet n s0 t"
    using i by (intro one_subnet_ticks[OF ticks_only_range(1)[of n s0 "sw_fixed env" tick_MIN tick_MAX l]]) (simp add: one_subnet_def F)
  ultimately show ?thesis using swap_inv_subnet[OF inv0] by blast
qed

lemma swap_inner_inv:
  assumes env: "swap_env_ok env" and inv: "swap_inv env s" and run: "swap_inner env n order amount limit s = Inr (res, t)"
    and u: "unsaturated (Ticks t n)"
  shows "swap_inv env t"
proof -
  obtain s1 acc where s1: "maybe_initialize_v3 env n s = Inr s1" and r: "MinimumReserve env \<le> si_tao_reserve env n (sw_world s)"
      "MinimumReserve env \<le> si_alpha_reserve env n (sw_world s)"
      and loop: "swap_loop env n order limit 0 \<lparr>amount_remaining = amount, acc_paid_out = 0, in_acc = 0, fee_acc = 0\<rparr> s1 = Inr (acc, t)"
    using run by (cases order) (auto simp: swap_inner_def)
  have pos: "0 < si_tao_reserve env n (sw_world s)" "0 < si_alpha_reserve env n (sw_world s)"
    using r swap_env_okD(2)[OF env] by simp_all
  have "in_range (CurrentTick s n)" using inv unfolding swap_inv_def by (meson ledgerD(5))
  then have "in_range (CurrentTick s1 n)" by (rule maybe_initialize_v3_tick[OF s1])
  then have c: "crosses n s1 t" by (rule swap_loop_crosses[OF loop])
  then have "unsaturated (Ticks s1 n)" using u same_liquidity_unsaturated by (auto simp: crosses_def)
  then show ?thesis using crosses_inv[OF c] maybe_initialize_v3_inv[OF env inv s1 pos] by blast
qed

lemma do_swap_inv:
  assumes env: "swap_env_ok env" and inv: "swap_inv env s" and u: "unsaturated (Ticks (snd (do_swap env n order amount limit simulate s)) n)"
  shows "swap_inv env (snd (do_swap env n order amount limit simulate s))"
proof (cases "swap_inner env n order amount limit s")
  case (Inr x)
  then obtain res t where x: "swap_inner env n order amount limit s = Inr (res, t)" by (cases x) simp
  show ?thesis using inv u swap_inner_inv[OF env inv x] by (simp add: do_swap_def x Let_def split: if_splits)
qed (use inv in \<open>simp add: do_swap_def Let_def\<close>)

lemma adjust_protocol_liquidity_inv: "swap_inv env s \<Longrightarrow> swap_inv env (adjust_protocol_liquidity env n tao alpha s)"
  by (erule swap_inv_frame)
    (auto simp: adjust_protocol_liquidity_def insert_position_def Let_def split: list.splits sum.splits)

section \<open>The pallet as a system of steps\<close>

definition swap_initial :: "('a, 'i, 'w) swap_state \<Rightarrow> bool" where
  "swap_initial s \<longleftrightarrow> (\<forall>n. Ticks s n = (\<lambda>_. None) \<and> Positions s n = (\<lambda>_ _. None) \<and> CurrentTick s n = 0 \<and> \<not> SwapV3Initialized s n) \<and>
     TickIndexBitmapWords s = empty_bitmap \<and> LastPositionId s = 0"

text \<open>
  A step is a successful call, a swap, an adjustment by the coinbase, or a change of balances outside
  the pallet. No key signs for the account of the protocol, the identifiers of positions have not run
  out, and the gross liquidity of no tick has reached the maximum of its type.
\<close>

inductive market_step :: "('a, 'i, 'w) swap_env \<Rightarrow> ('a, 'i, 'w) swap_state \<Rightarrow> ('a, 'i, 'w) swap_state \<Rightarrow> bool" for env where
  add: "add_liquidity env og h n low high l s = Inr t \<Longrightarrow> og \<noteq> Signed (protocol_account_id env) \<Longrightarrow> LastPositionId s < u128_max \<Longrightarrow>
    unsaturated (Ticks t n) \<Longrightarrow> market_step env s t"
| remove: "remove_liquidity env og h n i s = Inr t \<Longrightarrow> og \<noteq> Signed (protocol_account_id env) \<Longrightarrow> unsaturated (Ticks t n) \<Longrightarrow> market_step env s t"
| modify: "modify_position env og h n i d s = Inr t \<Longrightarrow> og \<noteq> Signed (protocol_account_id env) \<Longrightarrow> unsaturated (Ticks t n) \<Longrightarrow> market_step env s t"
| swap: "unsaturated (Ticks (snd (do_swap env n order amount limit simulate s)) n) \<Longrightarrow>
    market_step env s (snd (do_swap env n order amount limit simulate s))"
| adjust: "market_step env s (adjust_protocol_liquidity env n tao alpha s)"
| fee: "set_fee_rate env og n rate s = Inr t \<Longrightarrow> market_step env s t"
| toggle: "toggle_user_liquidity env og n on s = Inr t \<Longrightarrow> market_step env s t"
| world: "market_step env s (s\<lparr>sw_world := w\<rparr>)"

lemma swap_inv_world: "swap_inv env s \<Longrightarrow> swap_inv env (s\<lparr>sw_world := w\<rparr>)"
  by (rule swap_inv_frame) simp_all

lemma add_liquidity_ok: "add_liquidity env og h n low high l s = Inr t \<Longrightarrow>
    \<exists>c r s1 w. og = Signed c \<and> do_add_liquidity env n c h low high l s = Inr (r, s1) \<and> t = s1\<lparr>sw_world := w\<rparr>"
  unfolding add_liquidity_def Let_def by fastforce

lemma remove_liquidity_ok: "remove_liquidity env og h n i s = Inr t \<Longrightarrow>
    \<exists>c r s1 w. og = Signed c \<and> do_remove_liquidity env n c i s = Inr (r, s1) \<and> t = s1\<lparr>sw_world := w\<rparr>"
  unfolding remove_liquidity_def Let_def by fastforce

lemma modify_position_ok: "modify_position env og h n i d s = Inr t \<Longrightarrow>
    \<exists>c r s1 w. og = Signed c \<and> do_modify_position env n c h i d s = Inr (r, s1) \<and> t = s1\<lparr>sw_world := w\<rparr>"
  unfolding modify_position_def Let_def by fastforce

lemma market_step_inv:
  assumes env: "swap_env_ok env" and inv: "swap_inv env s" and step: "market_step env s t"
  shows "swap_inv env t"
  using step inv
proof cases
  case (add og h n low high l)
  then obtain c r s1 w where "og = Signed c" "do_add_liquidity env n c h low high l s = Inr (r, s1)" "t = s1\<lparr>sw_world := w\<rparr>"
    using add_liquidity_ok[OF add(1)] by (elim exE conjE) (rule that)
  with add do_add_liquidity_inv[OF env inv, of n c h low high l r s1] show ?thesis by (simp add: swap_inv_world)
next
  case (remove og h n i)
  then obtain c r s1 w where "og = Signed c" "do_remove_liquidity env n c i s = Inr (r, s1)" "t = s1\<lparr>sw_world := w\<rparr>"
    using remove_liquidity_ok[OF remove(1)] by (elim exE conjE) (rule that)
  with remove do_remove_liquidity_inv[OF inv, of n c i r s1] show ?thesis by (simp add: swap_inv_world)
next
  case (modify og h n i d)
  then obtain c r s1 w where "og = Signed c" "do_modify_position env n c h i d s = Inr (r, s1)" "t = s1\<lparr>sw_world := w\<rparr>"
    using modify_position_ok[OF modify(1)] by (elim exE conjE) (rule that)
  with modify do_modify_position_inv[OF env inv, of n c h i d r s1] show ?thesis by (simp add: swap_inv_world)
next
  case (swap n order amount limit simulate)
  then show ?thesis using do_swap_inv[OF env inv] by blast
next
  case (fee og n rate)
  then show ?thesis using inv by (intro swap_inv_frame[OF inv]) (auto simp: set_fee_rate_def)
next
  case (toggle og n on)
  then show ?thesis using inv by (intro swap_inv_frame[OF inv]) (auto simp: toggle_user_liquidity_def)
qed (simp_all add: inv adjust_protocol_liquidity_inv swap_inv_world)

lemma swap_initial_inv: "swap_initial s \<Longrightarrow> swap_inv env s"
proof -
  assume i: "swap_initial s"
  have b: "book env s n = (\<lambda>_. None)" for n using i by (auto simp: swap_initial_def book_def fun_eq_iff)
  have "ledger env 0 s n" for n
    using i bitmap_inv_empty[of n] unfolding ledger_def b swap_initial_def
    by (simp add: ticks_match_def tick_sums_simps starting_def ending_def at_tick_def unsaturated_def in_range_def)
  then show ?thesis using i by (auto simp: swap_inv_def within_limit_def swap_initial_def)
qed

interpretation market: invariant_system swap_initial "market_step env" "\<lambda>s. swap_env_ok env \<longrightarrow> swap_inv env s" for env
  by unfold_locales (auto intro: swap_initial_inv market_step_inv)

end
