(* ===== verification/Swap_Market.thy ===== *)
theory Swap_Market
  imports Swap_Ledger
begin

text \<open>
  The properties of the swap pallet: the table of ticks over every history, what a swap may change,
  the bound on its steps, and what adding, modifying and removing a position moves.
\<close>

section \<open>When a position can be added\<close>

lemma to_u64_le: "ufixed_ok 64 u \<Longrightarrow> to_u64 u x \<le> u64_max"
  by (simp add: ufixed_okD)

lemma to_token_amounts_total:
  assumes "in_range (tick_low p)" "in_range (tick_high p)" "ufixed_ok 64 (sf_u fx)"
  shows "\<exists>tao alpha. to_token_amounts fx p price = Inr (tao, alpha) \<and> tao \<le> u64_max \<and> alpha \<le> u64_max"
proof -
  obtain a b where "try_to_sqrt_price (tick_low p) = Inr a" "try_to_sqrt_price (tick_high p) = Inr b"
    using try_to_sqrt_price_eq assms(1,2) by (auto simp: valid_tick_def in_range_def)
  then show ?thesis using to_u64_le[OF assms(3)] by (auto simp: to_token_amounts_def Let_def)
qed

lemma add_liquidity_not_insert_total:
  assumes "count_positions env s n c \<le> MaxPositions env" "in_range low" "in_range high" "ufixed_ok 64 (sw_u env)"
  shows "\<exists>p tao alpha t. add_liquidity_not_insert env n c low high l s = Inr ((p, tao, alpha), t) \<and>
    to_token_amounts (sw_fixed env) p (AlphaSqrtPrice t n) = Inr (tao, alpha) \<and> tao \<le> u64_max \<and> alpha \<le> u64_max"
proof -
  obtain t where t: "t = snd (next_position_id (update_liquidity_if_needed n low high (int l) (clamp_sqrt_price (sw_fixed env) n
      (current_bounded (CurrentTick (add_range (sw_fixed env) n low high l s) n)) (add_range (sw_fixed env) n low high l s))))" by blast
  define p where "p = position_new (sw_fixed env) t (LastPositionId t) n low high l"
  obtain tao alpha where a: "to_token_amounts (sw_fixed env) p (AlphaSqrtPrice t n) = Inr (tao, alpha)" "tao \<le> u64_max" "alpha \<le> u64_max"
    using to_token_amounts_total[of p "sw_fixed env" "AlphaSqrtPrice t n"] assms by (auto simp: p_def)
  show ?thesis using assms(1) a unfolding p_def t
    by (auto simp: add_liquidity_not_insert_def Let_def add_range_def next_position_id_def)
qed

section \<open>An environment\<close>

text \<open>The numbers as their bits and an environment in which every transfer succeeds, for the witnesses.\<close>

fun isqrt :: "nat \<Rightarrow> nat" where
  "isqrt 0 = 0"
| "isqrt (Suc n) = (let r = isqrt n in if (r + 1) * (r + 1) \<le> Suc n then r + 1 else r)"

lemma isqrt_correct: "isqrt x * isqrt x \<le> x \<and> x < (isqrt x + 1) * (isqrt x + 1)"
  by (induction x) (auto simp: Let_def)

definition bits_swap :: "int swap_fixed" where
  "bits_swap = \<lparr>sf_u = ufixed.truncate bits_fixed, u_round = (\<lambda>x. (x + 2 ^ 63) div 2 ^ 64 * 2 ^ 64), min_sqrt_price = 4295,
     max_sqrt_price = 79226673521066979257578248091, init_epsilon = 1000000, limit_epsilon = 1000000,
     x_of_u = (\<lambda>x. min (2 ^ 127 - 1) (int x)), x_of_u64 = (\<lambda>x. int x * 2 ^ 64), x_sub = (\<lambda>x y. x - y),
     x_mul = (\<lambda>x y. x * y div 2 ^ 64), x_to_u64 = (\<lambda>x. nat (x div 2 ^ 64))\<rparr>"

definition open_env :: "(nat, int, unit) swap_env" where
  "open_env = \<lparr>sw_fixed = bits_swap, si_tao_reserve = (\<lambda>_ _. 1000000000), si_alpha_reserve = (\<lambda>_ _. 4000000000), si_exists = (\<lambda>_ _. True),
     si_mechanism = (\<lambda>_ _. 1), si_is_owner = (\<lambda>_ _ _. False), bo_tao_balance = (\<lambda>_ _. u64_max), bo_alpha_balance = (\<lambda>_ _ _ _. u64_max),
     bo_increase_balance = (\<lambda>_ _ w. w), bo_decrease_balance = (\<lambda>_ x w. Inr (x, w)), bo_increase_stake = (\<lambda>_ _ _ _ w. Inr w),
     bo_decrease_stake = (\<lambda>_ _ _ x w. Inr (x, w)), bo_increase_provided_tao_reserve = (\<lambda>_ _ w. w),
     bo_decrease_provided_tao_reserve = (\<lambda>_ _ w. w), bo_increase_provided_alpha_reserve = (\<lambda>_ _ w. w),
     bo_decrease_provided_alpha_reserve = (\<lambda>_ _ w. w), protocol_account_id = 0, MaxFeeRate = 10000, MaxPositions = 100,
     MinimumLiquidity = 1000, MinimumReserve = 1000000, sqrt_u128 = isqrt,
     positions_prefix = (\<lambda>m. map (\<lambda>i. the (m i)) (sorted_list_of_set (dom m)))\<rparr>"

definition empty_market :: "(nat, int, unit) swap_state" where
  "empty_market = \<lparr>FeeRate = (\<lambda>_. 33), FeeGlobalTao = (\<lambda>_. 0), FeeGlobalAlpha = (\<lambda>_. 0), Ticks = (\<lambda>_ _. None),
     SwapV3Initialized = (\<lambda>_. False), AlphaSqrtPrice = (\<lambda>_. 0), CurrentTick = (\<lambda>_. 0), CurrentLiquidity = (\<lambda>_. 0),
     EnabledUserLiquidity = (\<lambda>_. True), Positions = (\<lambda>_ _ _. None), LastPositionId = 0, TickIndexBitmapWords = empty_bitmap, sw_world = ()\<rparr>"

lemma open_env_ok: "swap_env_ok open_env"
proof -
  have "set (map (\<lambda>i. the (m i)) (sorted_list_of_set (dom m))) = ran m" if "finite (dom m)" for m :: "nat \<Rightarrow> int position option"
    using that by (force simp: ran_def)
  then show ?thesis using isqrt_correct by (simp add: swap_env_ok_def open_env_def)
qed

lemma bits_swap_ok: "ufixed_ok 64 (sf_u bits_swap)"
  using bits_fixed_ok unfolding pool_fixed_ok_def ufixed_ok_def bits_swap_def by (simp add: ufixed.truncate_def)

lemma open_env_sel:
  "si_exists open_env = (\<lambda>_ _. True)" "bo_tao_balance open_env = (\<lambda>_ _. u64_max)" "bo_alpha_balance open_env = (\<lambda>_ _ _ _. u64_max)"
  "bo_decrease_balance open_env = (\<lambda>_ x w. Inr (x, w))" "bo_decrease_stake open_env = (\<lambda>_ _ _ x w. Inr (x, w))"
  "MinimumLiquidity open_env = 1000" "protocol_account_id open_env = 0"
  by (simp_all add: open_env_def)

lemma empty_market_initial: "swap_initial empty_market"
  by (simp add: swap_initial_def empty_market_def)

text \<open>A first position on the empty market.\<close>

definition first_market :: "(nat, int, unit) swap_state" where
  "first_market = (case add_liquidity open_env (Signed 1) 2 3 (- 10) 10 5000 empty_market of Inr t \<Rightarrow> t | Inl _ \<Rightarrow> empty_market)"

lemma first_market_run: "add_liquidity open_env (Signed 1) 2 3 (- 10) 10 5000 empty_market = Inr first_market"
proof -
  obtain p tao alpha t where t: "add_liquidity_not_insert open_env 3 1 (- 10) 10 5000 empty_market = Inr ((p, tao, alpha), t)" "tao \<le> u64_max" "alpha \<le> u64_max"
    using add_liquidity_not_insert_total[of open_env empty_market 3 1 "- 10" 10 5000] bits_swap_ok
    by (auto simp: count_positions_def open_env_def empty_market_def in_range_def)
  have "add_liquidity_not_insert open_env 3 (Suc 0) (- 10) 10 5000 empty_market = Inr ((p, tao, alpha), t)" using t(1) by simp
  then have "\<exists>t. add_liquidity open_env (Signed 1) 2 3 (- 10) 10 5000 empty_market = Inr t"
    using t(2,3) by (auto simp: add_liquidity_def do_add_liquidity_def open_env_sel empty_market_def[THEN arg_cong[of _ _ EnabledUserLiquidity]])
  then show ?thesis by (auto simp: first_market_def)
qed

section \<open>The table of ticks\<close>

text \<open>C8. The ticks are the sum of the positions. In every state that calls, swaps and adjustments by the coinbase reach from an empty pallet,
  and for some amount \<open>g\<close> that stands for the position of the protocol at its creation, each tick of a subnet has as gross
  liquidity the liquidity of the positions that begin or end there (plus \<open>g\<close> at the outermost ticks), as net liquidity the
  difference of the two, and is stored and indexed as active exactly when that is not zero. No account but the protocol's has
  more than one position over \<open>MaxPositions\<close>.\<close>

theorem ticks_are_positions:
  assumes "swap_env_ok env" "swap_initial s" "(market_step env)\<^sup>*\<^sup>* s t"
  shows "(\<exists>g. \<forall>e. tick_sums (Ticks t n e)
        (starting (book env t n) e + at_tick tick_MIN g e) (ending (book env t n) e + at_tick tick_MAX g e) \<and>
      (e \<in> active_ticks (TickIndexBitmapWords t) n \<longleftrightarrow> Ticks t n e \<noteq> None)) \<and>
    (a \<noteq> protocol_account_id env \<longrightarrow> card (dom (Positions t n a)) \<le> MaxPositions env + 1)"
proof -
  have inv: "swap_inv env t" using market.reachable_invar[OF assms(2,3)] assms(1) by blast
  then obtain g where L: "ledger env g t n" and w: "within_limit env t n" by (auto simp: swap_inv_def)
  note m = ticks_matchD[OF ledgerD(3)[OF L]]
  have "tick_sums (Ticks t n e) (starting (book env t n) e + at_tick tick_MIN g e) (ending (book env t n) e + at_tick tick_MAX g e) \<and>
      (e \<in> active_ticks (TickIndexBitmapWords t) n \<longleftrightarrow> Ticks t n e \<noteq> None)" for e
    using m(1)[of e] m(3) by blast
  with w show ?thesis unfolding within_limit_def by blast
qed

text \<open>The first position of the witness.\<close>

lemma first_market_ok:
  "\<exists>p tao alpha t. add_liquidity_not_insert open_env 3 1 (- 10) 10 5000 empty_market = Inr ((p, tao, alpha), t) \<and>
    do_add_liquidity open_env 3 1 2 (- 10) 10 5000 empty_market = Inr ((pos_id p, tao, alpha), insert_position 3 1 (pos_id p) p t) \<and>
    first_market = insert_position 3 1 (pos_id p) p t"
proof -
  obtain r s1 w where s1: "do_add_liquidity open_env 3 1 2 (- 10) 10 5000 empty_market = Inr (r, s1)" "first_market = s1\<lparr>sw_world := w\<rparr>"
    using add_liquidity_ok[OF first_market_run] by (elim exE conjE) (drule origin.inject[THEN iffD1], blast)
  moreover have "s1\<lparr>sw_world := w\<rparr> = s1" by (cases s1) simp
  ultimately show ?thesis by (auto simp: do_add_liquidity_def)
qed

lemma first_market_ticks: "Ticks first_market 3 e = None \<longleftrightarrow> e \<noteq> - 10 \<and> e \<noteq> 10"
    "Ticks first_market 3 e = Some k \<Longrightarrow> liquidity_gross k = 5000"
proof -
  obtain p tao alpha t where t: "add_liquidity_not_insert open_env 3 1 (- 10) 10 5000 empty_market = Inr ((p, tao, alpha), t)"
      "first_market = insert_position 3 1 (pos_id p) p t" using first_market_ok by blast
  have "Ticks t = Ticks (add_range (sw_fixed open_env) 3 (- 10) 10 5000 empty_market)"
    using add_liquidity_not_insert_ok(8)[OF t(1)] by auto
  then have T: "Ticks first_market = Ticks (add_range (sw_fixed open_env) 3 (- 10) 10 5000 empty_market)"
    by (simp add: t(2) insert_position_def)
  show "Ticks first_market 3 e = None \<longleftrightarrow> e \<noteq> - 10 \<and> e \<noteq> 10" "Ticks first_market 3 e = Some k \<Longrightarrow> liquidity_gross k = 5000"
    unfolding T by (auto simp: add_range_def add_liquidity_at_index_def Let_def empty_market_def split: if_splits)
qed

lemma first_market_step: "market_step open_env empty_market first_market"
  by (rule market_step.add[OF first_market_run])
    (simp_all add: open_env_def empty_market_def u128_max_def unsaturated_def first_market_ticks(2) u64_max_def)

theorem ticks_are_positions_witness:
  "card (dom (Positions first_market 3 1)) \<le> 101 \<and> 10 \<in> active_ticks (TickIndexBitmapWords first_market) 3 \<and>
   11 \<notin> active_ticks (TickIndexBitmapWords first_market) 3"
  using ticks_are_positions[OF open_env_ok empty_market_initial r_into_rtranclp[of "market_step open_env", OF first_market_step], of 3 1]
  by (auto simp: first_market_ticks(1) open_env_def)

section \<open>Swaps\<close>

lemma do_swap_cases:
  assumes "do_swap env n order amount limit simulate s = (r, t)"
  shows "t = s \<and> (simulate \<or> (\<exists>e. swap_inner env n order amount limit s = Inl e \<and> r = Inl e)) \<or>
    \<not> simulate \<and> (\<exists>res. swap_inner env n order amount limit s = Inr (res, t) \<and>
      r = (if (case order of Buy \<Rightarrow> si_alpha_reserve env n (sw_world s) | Sell \<Rightarrow> si_tao_reserve env n (sw_world s)) < amount_paid_out res
           then Inl InsufficientLiquidity else Inr res))"
  using assms by (cases "swap_inner env n order amount limit s") (auto simp: do_swap_def Let_def split: if_splits)

lemma swap_inner_crosses:
  assumes "swap_inner env n order amount limit s = Inr (res, t)" "SwapV3Initialized s n" "in_range (CurrentTick s n)"
  shows "crosses n s t"
proof -
  obtain acc where "swap_loop env n order limit 0 \<lparr>amount_remaining = amount, acc_paid_out = 0, in_acc = 0, fee_acc = 0\<rparr> s = Inr (acc, t)"
    using assms(1,2) by (cases order) (auto simp: swap_inner_def maybe_initialize_v3_def)
  then show ?thesis using assms(3) by (rule swap_loop_crosses)
qed


lemma first_market_open: "SwapV3Initialized first_market 3" "CurrentTick first_market 3 = 0" "EnabledUserLiquidity first_market 3"
proof -
  obtain p tao alpha t where t: "add_liquidity_not_insert open_env 3 1 (- 10) 10 5000 empty_market = Inr ((p, tao, alpha), t)"
      "first_market = insert_position 3 1 (pos_id p) p t" using first_market_ok by blast
  show "SwapV3Initialized first_market 3" "CurrentTick first_market 3 = 0" "EnabledUserLiquidity first_market 3"
    using add_liquidity_not_insert_ok(8)[OF t(1)] by (auto simp: t(2) insert_position_def range_frame empty_market_def)
qed


text \<open>The iterations of the loop, one after the other.\<close>

fun swap_steps ::
    "('a, 'i, 'w) swap_env \<Rightarrow> netuid \<Rightarrow> order_type \<Rightarrow> nat \<Rightarrow> nat \<Rightarrow> swap_acc \<times> ('a, 'i, 'w) swap_state \<Rightarrow>
     (swap_error, swap_acc \<times> ('a, 'i, 'w) swap_state) result" where
  "swap_steps env n order limit 0 x = Inr x"
| "swap_steps env n order limit (Suc k) x =
     (if amount_remaining (fst x) = 0 then Inr x
      else and_then (swap_iteration env n order limit (fst x) (snd x)) (swap_steps env n order limit k))"

lemma swap_steps_done: "amount_remaining acc = 0 \<Longrightarrow> swap_steps env n order limit k (acc, s) = Inr (acc, s)"
  by (cases k) simp_all

lemma swap_loop_eq_steps:
  "i \<le> 1000 \<Longrightarrow> 1000 - i = k \<Longrightarrow> swap_loop env n order limit i acc s =
    and_then (swap_steps env n order limit k (acc, s)) (\<lambda>(acc, t).
      if amount_remaining acc = 0 then Inr (acc, t)
      else and_then (swap_iteration env n order limit acc t) (\<lambda>_. Inl TooManySwapSteps))"
proof (induction k arbitrary: i acc s)
  case 0
  then have "i = 1000" by simp
  then show ?case unfolding swap_loop.simps[of env n order limit i acc s]
    by (auto simp: sat_add_def u16_max_def MAX_SWAP_ITERATIONS_def)
next
  case (Suc k)
  then have i: "sat_add u16_max i 1 = i + 1" "i + 1 \<le> MAX_SWAP_ITERATIONS" by (simp_all add: sat_add_def u16_max_def MAX_SWAP_ITERATIONS_def)
  show ?case
  proof (cases "amount_remaining acc = 0")
    case True
    then show ?thesis by (simp add: swap_loop.simps[of env n order limit i acc s])
  next
    case False
    show ?thesis
    proof (cases "swap_iteration env n order limit acc s")
      case (Inr x)
      have "swap_loop env n order limit (i + 1) (fst x) (snd x) =
          and_then (swap_steps env n order limit k (fst x, snd x)) (\<lambda>(acc, t).
            if amount_remaining acc = 0 then Inr (acc, t)
            else and_then (swap_iteration env n order limit acc t) (\<lambda>_. Inl TooManySwapSteps))"
        using Suc by (intro Suc.IH) simp_all
      then show ?thesis using False i Inr unfolding swap_loop.simps[of env n order limit i acc s] by simp
    qed (use False in \<open>simp add: swap_loop.simps[of env n order limit i acc s]\<close>)
  qed
qed

text \<open>C28. A swap ends within a thousand steps. The loop of \<open>swap_inner\<close> does what its body does when it is run at most a thousand times: it
  returns as soon as nothing is left of the amount, with the error of the body when the body fails, and with
  \<open>TooManySwapSteps\<close> after one more run of the body when something is left even then.\<close>

theorem swap_loop_bounded:
  "swap_loop env n order limit 0 acc s =
    and_then (swap_steps env n order limit 1000 (acc, s)) (\<lambda>(acc, t).
      if amount_remaining acc = 0 then Inr (acc, t)
      else and_then (swap_iteration env n order limit acc t) (\<lambda>_. Inl TooManySwapSteps))"
  by (rule swap_loop_eq_steps) simp_all

section \<open>Changing a position\<close>

lemma zero_amounts:
  assumes "ufixed_ok 64 u"
  shows "to_u64 u (f_mul u x (f_sub u y y)) = 0"
  using assms by (simp add: ufixed_okD)

lemma modify_amounts:
  assumes u: "ufixed_ok 64 (sf_u fx)" and pab: "try_to_sqrt_price (tick_low p) = Inr pa" "try_to_sqrt_price (tick_high p) = Inr pb"
    and box: "box = (if price < pa then pa else if price > pb then pb else price)"
  shows "to_token_amounts fx (p\<lparr>pos_liquidity := l\<rparr>) price =
    Inr (to_u64 (sf_u fx) (f_mul (sf_u fx) (of_u64 (sf_u fx) l) (f_sub (sf_u fx) box pa)),
         to_u64 (sf_u fx) (f_mul (sf_u fx) (of_u64 (sf_u fx) l)
           (f_sub (sf_u fx) (f_safe_div (sf_u fx) (of_u64 (sf_u fx) 1) box) (f_safe_div (sf_u fx) (of_u64 (sf_u fx) 1) pb))))"
  using zero_amounts[OF u] by (simp add: to_token_amounts_def Let_def pab box)

lemma modify_box:
  assumes "(if price < pa then (pa, s) else if price > pb then (pb, s) else (price, s\<lparr>CurrentLiquidity := C\<rparr>)) = (box, s')"
  shows "box = (if price < pa then pa else if price > pb then pb else price)" "Positions s' = Positions s"
    "CurrentLiquidity s' = CurrentLiquidity s \<or> CurrentLiquidity s' = C"
  using assms by (auto split: if_splits)

text \<open>What modifying a position moves. A successful \<open>do_modify_position\<close> returns the token amounts of a position over the same range with
  the liquidity \<open>|liquidity_delta|\<close> at the current price. A position that grows or shrinks does so by that liquidity; one
  whose rest would be below \<open>MinimumLiquidity\<close> is removed with all its liquidity, and then, too, only the amounts for
  \<open>|liquidity_delta|\<close> are returned, and the current liquidity falls by no more than that.\<close>

theorem modify_position_amounts:
  assumes run: "do_modify_position env n c h i d s = Inr (r, t)" and p: "Positions s n c i = Some p" and u: "ufixed_ok 64 (sw_u env)"
  shows "to_token_amounts (sw_fixed env) (p\<lparr>pos_liquidity := nat \<bar>d\<bar>\<rparr>) (AlphaSqrtPrice s n) = Inr (ul_tao r, ul_alpha r) \<and>
    (ul_removed r \<longleftrightarrow> d < 0 \<and> pos_liquidity p - nat \<bar>d\<bar> < MinimumLiquidity env) \<and>
    (ul_removed r \<longrightarrow> Positions t n c i = None \<and> nat \<bar>d\<bar> \<le> pos_liquidity p \<and> CurrentLiquidity s n - nat \<bar>d\<bar> \<le> CurrentLiquidity t n) \<and>
    (\<not> ul_removed r \<longrightarrow> map_option pos_liquidity (Positions t n c (pos_id p)) =
       Some (if d > 0 then sat_add u64_max (pos_liquidity p) (nat \<bar>d\<bar>) else pos_liquidity p - nat \<bar>d\<bar>))"
proof -
  obtain pa pb where pab: "try_to_sqrt_price (tick_low p) = Inr pa" "try_to_sqrt_price (tick_high p) = Inr pb"
    using run by (auto simp: do_modify_position_def Let_def p)
  let ?C = "(CurrentLiquidity s)(n := (if d > 0 then sat_add u64_max (CurrentLiquidity s n) (nat \<bar>d\<bar>) else CurrentLiquidity s n - nat \<bar>d\<bar>))"
  obtain box s0 where box: "(if AlphaSqrtPrice s n < pa then (pa, s) else if AlphaSqrtPrice s n > pb then (pb, s)
      else (AlphaSqrtPrice s n, s\<lparr>CurrentLiquidity := ?C\<rparr>)) = (box, s0)" by (metis surj_pair)
  note B = modify_box[OF box]
  obtain f1 f2 q where q: "collect_fees (sw_fixed env) s0 p = ((f1, f2), q)" by (metis surj_pair)
  note F = collect_fees_fields[OF q]
  note run' = run[unfolded do_modify_position_def Let_def p pab box q F ok_or_simps map_err_simps and_then_simps prod.case
      add_range_def[symmetric] remove_range_def[symmetric]]
  note A = modify_amounts[OF u pab B(1), of "nat \<bar>d\<bar>"]
  show ?thesis
  proof (cases "d < 0 \<and> pos_liquidity p - nat \<bar>d\<bar> < MinimumLiquidity env")
    case True
    then have "CurrentLiquidity s n - nat \<bar>d\<bar> \<le> CurrentLiquidity s0 n" using B(3) by auto
    with True show ?thesis using run' A by (auto simp: remove_position_def range_frame)
  next
    case False
    with run' A show ?thesis by (auto simp: insert_position_def range_frame F)
  qed
qed

lemma do_modify_position_total:
  assumes "EnabledUserLiquidity s n" "Positions s n c i = Some p" "as_i64 (MinimumLiquidity env) \<le> i64_abs d" "d < 0" "nat \<bar>d\<bar> \<le> pos_liquidity p"
    "in_range (tick_low p)" "in_range (tick_high p)"
  shows "\<exists>r t. do_modify_position env n c h i d s = Inr (r, t)"
proof -
  obtain a b where "try_to_sqrt_price (tick_low p) = Inr a" "try_to_sqrt_price (tick_high p) = Inr b"
    using try_to_sqrt_price_eq assms(6,7) by (auto simp: valid_tick_def in_range_def)
  then show ?thesis using assms by (simp add: do_modify_position_def Let_def split: prod.split)
qed

lemma first_market_position:
  "\<exists>p. Positions first_market 3 1 1 = Some p \<and> tick_low p = - 10 \<and> tick_high p = 10 \<and> pos_liquidity p = 5000"
proof -
  obtain p tao alpha t where t: "add_liquidity_not_insert open_env 3 1 (- 10) 10 5000 empty_market = Inr ((p, tao, alpha), t)"
      "first_market = insert_position 3 1 (pos_id p) p t" using first_market_ok by blast
  note A = add_liquidity_not_insert_ok[OF t(1)]
  have "pos_id p = 1" using A(4) by (simp add: empty_market_def sat_add_def u128_max_def)
  then show ?thesis using A(5-7) by (simp add: t(2) insert_position_def)
qed

theorem modify_position_amounts_witness:
  "\<exists>p r t. do_modify_position open_env 3 1 2 1 (- 4500) first_market = Inr (r, t) \<and> Positions t 3 1 1 = None \<and> pos_liquidity p = 5000 \<and>
    to_token_amounts bits_swap (p\<lparr>pos_liquidity := 4500\<rparr>) (AlphaSqrtPrice first_market 3) = Inr (ul_tao r, ul_alpha r)"
proof -
  obtain p where p: "Positions first_market 3 1 1 = Some p" "tick_low p = - 10" "tick_high p = 10" "pos_liquidity p = 5000"
    using first_market_position by blast
  obtain r t where run: "do_modify_position open_env 3 1 2 1 (- 4500) first_market = Inr (r, t)"
    using do_modify_position_total[OF first_market_open(3) p(1), of open_env "- 4500" 2] p(2-)
    by (auto simp: open_env_def as_i64_def i64_max_def i64_abs_def i64_min_def in_range_def)
  have e: "sw_fixed open_env = bits_swap" by (simp add: open_env_def)
  show ?thesis using modify_position_amounts[OF run p(1)] bits_swap_ok run p(4)
    by (intro exI[of _ p] exI[of _ r] exI[of _ t]) (simp add: e open_env_sel(6))
qed

section \<open>Adding and removing a position\<close>

lemma index_keeps_fees:
  "Ticks s n e = Some k \<Longrightarrow> \<exists>k'. Ticks (add_liquidity_at_index fx n t l up s) n e = Some k' \<and> fees_out_tao k' = fees_out_tao k \<and> fees_out_alpha k' = fees_out_alpha k"
  "Ticks (remove_liquidity_at_index n t l up s) n e = Some k' \<Longrightarrow> \<exists>k. Ticks s n e = Some k \<and> fees_out_tao k' = fees_out_tao k \<and> fees_out_alpha k' = fees_out_alpha k"
  by (auto simp: add_liquidity_at_index_def remove_liquidity_at_index_def Let_def split: option.splits if_splits)

lemma remove_add_range:
  assumes m: "ticks_match (Ticks s n) (TickIndexBitmapWords s) n A B" and v: "in_range low" "in_range high" and l: "0 < l"
    and u: "unsaturated (Ticks (add_range fx n low high l s) n)"
  shows "Ticks (remove_range n low high l (add_range fx n low high l s)) = Ticks s"
    and "active_ticks (TickIndexBitmapWords (remove_range n low high l (add_range fx n low high l s))) n = active_ticks (TickIndexBitmapWords s) n"
proof -
  let ?t = "add_range fx n low high l s" and ?r = "remove_range n low high l (add_range fx n low high l s)"
  have "ticks_match (Ticks ?r n) (TickIndexBitmapWords ?r) n ((A(low := A low + l))(low := (A(low := A low + l)) low - l))
      ((B(high := B high + l))(high := (B(high := B high + l)) high - l))"
    by (rule remove_range_match[OF add_range_match[OF m v l u] v l _ _ u]) simp_all
  then have r: "ticks_match (Ticks ?r n) (TickIndexBitmapWords ?r) n A B" by simp
  have same: "Ticks ?r n e = None \<longleftrightarrow> Ticks s n e = None" for e
    using ticks_matchD(1)[OF m, of e] ticks_matchD(1)[OF r, of e] by (cases "Ticks s n e"; cases "Ticks ?r n e") (auto simp: tick_sums_simps)
  have "Ticks ?r n e = Ticks s n e" for e
  proof (cases "Ticks s n e")
    case (Some k)
    then obtain k' where k': "Ticks ?r n e = Some k'" using same[of e] by auto
    obtain k1 where k1: "Ticks (add_liquidity_at_index fx n low l False s) n e = Some k1" "fees_out_tao k1 = fees_out_tao k" "fees_out_alpha k1 = fees_out_alpha k"
      using index_keeps_fees(1)[OF Some] by blast
    obtain k2 where k2: "Ticks ?t n e = Some k2" "fees_out_tao k2 = fees_out_tao k" "fees_out_alpha k2 = fees_out_alpha k"
      using index_keeps_fees(1)[OF k1(1), of fx high l True] k1(2,3) unfolding add_range_def[symmetric] by auto
    obtain k3 where k3: "Ticks (remove_liquidity_at_index n low l False ?t) n e = Some k3" "fees_out_tao k' = fees_out_tao k3" "fees_out_alpha k' = fees_out_alpha k3"
      using index_keeps_fees(2)[OF k'[unfolded remove_range_def]] by blast
    have "fees_out_tao k' = fees_out_tao k \<and> fees_out_alpha k' = fees_out_alpha k"
      using index_keeps_fees(2)[OF k3(1)] k2 k3(2,3) by auto
    moreover have "liquidity_gross k' = liquidity_gross k \<and> liquidity_net k' = liquidity_net k"
      using ticks_matchD(1)[OF m, of e] ticks_matchD(1)[OF r, of e] by (simp add: Some k' tick_sums_simps)
    ultimately show ?thesis by (simp add: Some k')
  qed (use same in simp)
  moreover have "Ticks ?r m = Ticks s m" if "m \<noteq> n" for m
    using ticks_only_frame(9)[OF ticks_only_trans[OF ticks_only_range(1) ticks_only_range(2)] that] .
  ultimately show "Ticks ?r = Ticks s" by (metis ext)
  show "active_ticks (TickIndexBitmapWords ?r) n = active_ticks (TickIndexBitmapWords s) n"
    unfolding ticks_matchD(3)[OF r] ticks_matchD(3)[OF m] by (simp add: same)
qed

lemma add_liquidity_not_insert_price:
  assumes "add_liquidity_not_insert env n c low high l s = Inr ((p, tao, alpha), t)"
  shows "to_token_amounts (sw_fixed env) p (AlphaSqrtPrice t n) = Inr (tao, alpha)"
    "CurrentLiquidity t = CurrentLiquidity (update_liquidity_if_needed n low high (int l) s)"
proof -
  let ?s = "add_range (sw_fixed env) n low high l s"
  obtain P where P: "clamp_sqrt_price (sw_fixed env) n (current_bounded (CurrentTick ?s n)) ?s = ?s\<lparr>AlphaSqrtPrice := P\<rparr>"
    using clamp_sqrt_price_frame by blast
  have C: "CurrentLiquidity (update_liquidity_if_needed n low high (int l) (?s\<lparr>AlphaSqrtPrice := P\<rparr>)) =
      CurrentLiquidity (update_liquidity_if_needed n low high (int l) s)"
    by (simp add: update_liquidity_if_needed_def Let_def range_frame)
  show "to_token_amounts (sw_fixed env) p (AlphaSqrtPrice t n) = Inr (tao, alpha)"
    "CurrentLiquidity t = CurrentLiquidity (update_liquidity_if_needed n low high (int l) s)"
    using assms C unfolding add_liquidity_not_insert_def Let_def add_range_def[symmetric] P next_position_id_def by auto
qed

lemma to_token_amounts_cong:
  "tick_low q = tick_low p \<Longrightarrow> tick_high q = tick_high p \<Longrightarrow> pos_liquidity q = pos_liquidity p \<Longrightarrow> to_token_amounts fx q price = to_token_amounts fx p price"
  by (simp add: to_token_amounts_def)

lemma update_liquidity_back:
  assumes "CurrentLiquidity s n + l \<le> u64_max" "CurrentTick t = CurrentTick s"
    "CurrentLiquidity t = CurrentLiquidity (update_liquidity_if_needed n low high (int l) s)"
  shows "CurrentLiquidity (update_liquidity_if_needed n low high (- int l) t) = CurrentLiquidity s"
  using assms by (auto simp: update_liquidity_if_needed_def Let_def sat_add_def fun_eq_iff)

lemma remove_index_cong:
  assumes "Ticks t = Ticks s" "TickIndexBitmapWords t = TickIndexBitmapWords s"
  shows "Ticks (remove_liquidity_at_index n e l up t) = Ticks (remove_liquidity_at_index n e l up s)"
    "TickIndexBitmapWords (remove_liquidity_at_index n e l up t) = TickIndexBitmapWords (remove_liquidity_at_index n e l up s)"
  using assms by (cases "Ticks s n e"; simp add: remove_liquidity_at_index_def Let_def)+

lemma remove_range_cong:
  assumes "Ticks t = Ticks s" "TickIndexBitmapWords t = TickIndexBitmapWords s"
  shows "Ticks (remove_range n low high l t) = Ticks (remove_range n low high l s)"
    "TickIndexBitmapWords (remove_range n low high l t) = TickIndexBitmapWords (remove_range n low high l s)"
  unfolding remove_range_def by (intro remove_index_cong assms)+

lemma update_liquidity_if_needed_fields:
  "Ticks (update_liquidity_if_needed n low high d s) = Ticks s" "Positions (update_liquidity_if_needed n low high d s) = Positions s"
  "TickIndexBitmapWords (update_liquidity_if_needed n low high d s) = TickIndexBitmapWords s"
  by (simp_all add: update_liquidity_if_needed_def Let_def)

text \<open>C11. A position that is added and removed again leaves no trace. In a state reached from an empty pallet, after \<open>do_add_liquidity\<close> the
  same account can remove the position; it gets back exactly the amounts it was charged, and the ticks, the index of active
  ticks, the positions and the current liquidity are what they were.\<close>

theorem add_remove_liquidity_roundtrip:
  assumes env: "swap_env_ok env" "swap_initial s0" "(market_step env)\<^sup>*\<^sup>* s0 s"
    and add: "do_add_liquidity env n c h low high l s = Inr ((i, tao, alpha), t)" and c: "c \<noteq> protocol_account_id env"
    and room: "LastPositionId s < u128_max" "unsaturated (Ticks t n)" "CurrentLiquidity s n + l \<le> u64_max"
  shows "\<exists>r u. do_remove_liquidity env n c i t = Inr (r, u) \<and> ul_tao r = tao \<and> ul_alpha r = alpha \<and> Ticks u = Ticks s \<and>
    active_ticks (TickIndexBitmapWords u) n = active_ticks (TickIndexBitmapWords s) n \<and> Positions u = Positions s \<and>
    CurrentLiquidity u = CurrentLiquidity s"
proof -
  let ?fx = "sw_fixed env"
  have "swap_inv env s" using market.reachable_invar[OF env(2,3)] env(1) by blast
  then obtain g where L: "ledger env g s n" by (auto simp: swap_inv_def)
  obtain p t1 where t1: "add_liquidity_not_insert env n c low high l s = Inr ((p, tao, alpha), t1)" and l: "MinimumLiquidity env \<le> l"
      and t: "i = pos_id p" "t = insert_position n c i p t1" using add by (auto simp: do_add_liquidity_def)
  note A = add_liquidity_not_insert_ok[OF t1] and P = add_liquidity_not_insert_price[OF t1]
  obtain Q C where t1': "t1 = (add_range ?fx n low high l s)\<lparr>AlphaSqrtPrice := Q, CurrentLiquidity := C,
        LastPositionId := pos_id p, SwapV3Initialized := (SwapV3Initialized s)(n := True)\<rparr>" using A(8) by blast
  have fresh: "Positions s n c i = None"
    using position_key[OF L c, of i] A(4) room(1) t(1) by (cases "Positions s n c i") (auto simp: sat_add_def)
  have pos: "Positions t n c i = Some p" by (simp add: t(2) insert_position_def)
  obtain f1 f2 q where q: "collect_fees ?fx t p = ((f1, f2), q)" by (metis surj_pair)
  note F = collect_fees_fields[OF q, unfolded A(5-7)]
  let ?u = "remove_position n c i (update_liquidity_if_needed n low high (- int l) (remove_range n low high l t))"
  have tok: "to_token_amounts ?fx q (AlphaSqrtPrice t n) = Inr (tao, alpha)"
    using P(1) to_token_amounts_cong[of q p] F A(5-7) by (simp add: t(2) insert_position_def)
  have run: "do_remove_liquidity env n c i t =
      Inr (\<lparr>ul_tao = tao, ul_alpha = alpha, ul_fee_tao = f1, ul_fee_alpha = f2, ul_removed = True\<rparr>, ?u)"
    unfolding do_remove_liquidity_def Let_def by (simp add: pos q F tok remove_range_def)
  have same: "Ticks t = Ticks (add_range ?fx n low high l s)" "TickIndexBitmapWords t = TickIndexBitmapWords (add_range ?fx n low high l s)"
    "CurrentTick t = CurrentTick s" by (simp_all add: t(2) t1' insert_position_def range_frame)
  have u: "unsaturated (Ticks (add_range ?fx n low high l s) n)" using room(2) by (simp add: same(1))
  have "0 < l" using l swap_env_okD(1)[OF env(1)] by simp
  note undo = remove_add_range[OF ledgerD(3)[OF L] A(2,3) this u]
  have "Ticks ?u = Ticks s" "active_ticks (TickIndexBitmapWords ?u) n = active_ticks (TickIndexBitmapWords s) n"
    using undo by (simp_all add: remove_position_def update_liquidity_if_needed_fields remove_range_cong[OF same(1,2)])
  moreover have "Positions ?u = Positions s" using fresh by (auto simp: remove_position_def update_liquidity_if_needed_fields range_frame t(2) t1' insert_position_def fun_eq_iff)
  moreover have "CurrentLiquidity (remove_range n low high l t) = CurrentLiquidity (update_liquidity_if_needed n low high (int l) s)"
    using P(2) by (simp add: range_frame t(2) insert_position_def)
  then have "CurrentLiquidity ?u = CurrentLiquidity s"
    using update_liquidity_back[OF room(3), of "remove_range n low high l t"] by (simp add: remove_position_def range_frame same(3))
  ultimately show ?thesis using run by auto
qed

theorem add_remove_liquidity_roundtrip_witness:
  "\<exists>r u. do_remove_liquidity open_env 3 1 1 first_market = Inr (r, u) \<and> Ticks u = (\<lambda>_ _. None) \<and> Positions u = (\<lambda>_ _ _. None)"
proof -
  obtain p tao alpha t where t: "add_liquidity_not_insert open_env 3 1 (- 10) 10 5000 empty_market = Inr ((p, tao, alpha), t)"
      "do_add_liquidity open_env 3 1 2 (- 10) 10 5000 empty_market = Inr ((pos_id p, tao, alpha), first_market)"
    using first_market_ok by metis
  have "pos_id p = 1" using add_liquidity_not_insert_ok(4)[OF t(1)] by (simp add: empty_market_def sat_add_def u128_max_def)
  moreover have "unsaturated (Ticks first_market 3)" by (simp add: unsaturated_def first_market_ticks(2) u64_max_def)
  moreover have "Ticks empty_market = (\<lambda>_ _. None)" "Positions empty_market = (\<lambda>_ _ _. None)" by (simp_all add: empty_market_def)
  ultimately show ?thesis
    using add_remove_liquidity_roundtrip[OF open_env_ok empty_market_initial rtranclp.rtrancl_refl t(2)]
    by (auto simp: open_env_sel empty_market_def u128_max_def u64_max_def)
qed

end
