(* ===== verification/Crowdloan.thy ===== *)
theory Crowdloan
  imports Storage
begin

text \<open>
  The crowdloan pallet (\<open>pallets/crowdloan/src/lib.rs\<close>): every dispatchable as a function
  from the state to an error or the committed state. The currency, the account providers, the
  preimage store and the call that \<open>finalize\<close> dispatches belong to other pallets: they are
  the fields of \<open>crowdloan_config\<close>, acting on an opaque \<open>world\<close>, and what the pallet
  relies on is stated by the predicates \<open>currency_ok\<close>, \<open>services_ok\<close> and
  \<open>call_ok\<close>.

  The block number is an argument of the calls that read it. Events carry no state.
\<close>

section \<open>Data\<close>

datatype crowdloan_error =
    DepositTooLow | CapTooLow | MinimumContributionTooLow | CannotEndInPast
  | BlockDurationTooShort | BlockDurationTooLong | InsufficientBalance | Overflow
  | InvalidCrowdloanId | CapRaised | ContributionPeriodEnded | ContributionTooLow
  | InvalidOrigin | AlreadyFinalized | ContributionPeriodNotEnded | NoContribution
  | CapNotRaised | Underflow | CallUnavailable | NotReadyToDissolve
  | DepositCannotBeWithdrawn | MaxContributorsReached
  | BadOrigin | External string

type_synonym crowdloan_id = nat

text \<open>\<open>CrowdloanInfo\<close>: \<open>'a\<close> is the account type, \<open>'b\<close> the bounded call.\<close>

record ('a, 'b) crowdloan_info =
  cl_creator :: 'a
  cl_deposit :: nat
  cl_min_contribution :: nat
  cl_end :: nat
  cl_cap :: nat
  cl_funds_account :: 'a
  cl_raised :: nat
  cl_target_address :: "'a option"
  cl_call :: "'b option"
  cl_finalized :: bool
  cl_contributors_count :: nat

record ('a, 'b, 'w) crowdloan_state =
  crowdloans :: "crowdloan_id \<Rightarrow> ('a, 'b) crowdloan_info option"
  next_crowdloan_id :: crowdloan_id
  contributions :: "crowdloan_id \<Rightarrow> ('a \<times> nat) list"
  current_crowdloan_id :: "crowdloan_id option"
  world :: 'w

record ('a, 'b, 'c, 'w) crowdloan_config =
  MinimumDeposit :: nat
  AbsoluteMinimumContribution :: nat
  MinimumBlockDuration :: nat
  MaximumBlockDuration :: nat
  RefundContributorsLimit :: nat
  MaxContributors :: nat
  sub_account :: "crowdloan_id \<Rightarrow> 'a"
  balance :: "'w \<Rightarrow> 'a \<Rightarrow> nat"
  transfer :: "'a \<Rightarrow> 'a \<Rightarrow> nat \<Rightarrow> 'w \<Rightarrow> (crowdloan_error, 'w) result"
  inc_providers :: "'a \<Rightarrow> 'w \<Rightarrow> 'w"
  dec_providers :: "'a \<Rightarrow> 'w \<Rightarrow> 'w"
  preimage_bound :: "'c \<Rightarrow> 'w \<Rightarrow> (crowdloan_error, 'b \<times> 'w) result"
  preimage_peek :: "'b \<Rightarrow> 'w \<Rightarrow> 'c option"
  preimage_drop :: "'b \<Rightarrow> 'w \<Rightarrow> 'w"
  dispatch :: "'c \<Rightarrow> 'a \<Rightarrow> ('a, 'b, 'w) crowdloan_state \<Rightarrow>
    (crowdloan_error, ('a, 'b, 'w) crowdloan_state) result"

section \<open>Helpers\<close>

definition funds_account :: "('a, 'b, 'c, 'w) crowdloan_config \<Rightarrow> crowdloan_id \<Rightarrow> 'a" where
  "funds_account cfg cid = sub_account cfg cid"

definition ensure_crowdloan_exists ::
    "('a, 'b, 'w) crowdloan_state \<Rightarrow> crowdloan_id \<Rightarrow> (crowdloan_error, ('a, 'b) crowdloan_info) result" where
  "ensure_crowdloan_exists s cid = ok_or (crowdloans s cid) InvalidCrowdloanId"

definition ensure_valid_end ::
    "('a, 'b, 'c, 'w) crowdloan_config \<Rightarrow> nat \<Rightarrow> nat \<Rightarrow> (crowdloan_error, unit) result" where
  "ensure_valid_end cfg now end_block =
     ensure (now < end_block) CannotEndInPast
     (and_then (ok_or (checked_sub end_block now) Underflow) (\<lambda>block_duration.
      ensure (block_duration \<ge> MinimumBlockDuration cfg) BlockDurationTooShort
     (ensure (block_duration \<le> MaximumBlockDuration cfg) BlockDurationTooLong (Inr ()))))"

definition contribution_of :: "('a, 'b, 'w) crowdloan_state \<Rightarrow> crowdloan_id \<Rightarrow> 'a \<Rightarrow> nat option" where
  "contribution_of s cid a = map_of (contributions s cid) a"

definition set_contribution ::
    "crowdloan_id \<Rightarrow> 'a::linorder \<Rightarrow> nat \<Rightarrow> ('a, 'b, 'w) crowdloan_state \<Rightarrow> ('a, 'b, 'w) crowdloan_state" where
  "set_contribution cid a v s =
     s\<lparr>contributions := (contributions s)(cid := smap_put a v (contributions s cid))\<rparr>"

definition remove_contribution ::
    "crowdloan_id \<Rightarrow> 'a \<Rightarrow> ('a, 'b, 'w) crowdloan_state \<Rightarrow> ('a, 'b, 'w) crowdloan_state" where
  "remove_contribution cid a s =
     s\<lparr>contributions := (contributions s)(cid := smap_del a (contributions s cid))\<rparr>"

definition put_crowdloan ::
    "crowdloan_id \<Rightarrow> ('a, 'b) crowdloan_info \<Rightarrow> ('a, 'b, 'w) crowdloan_state \<Rightarrow> ('a, 'b, 'w) crowdloan_state" where
  "put_crowdloan cid c s = s\<lparr>crowdloans := (crowdloans s)(cid \<mapsto> c)\<rparr>"

text \<open>\<open>CurrencyOf::<T>::transfer(from, to, amount, Expendable)?\<close> on the state.\<close>

definition pay ::
    "('a, 'b, 'c, 'w) crowdloan_config \<Rightarrow> 'a \<Rightarrow> 'a \<Rightarrow> nat \<Rightarrow> ('a, 'b, 'w) crowdloan_state \<Rightarrow>
     (crowdloan_error, ('a, 'b, 'w) crowdloan_state) result" where
  "pay cfg a b amount s = and_then (transfer cfg a b amount (world s)) (\<lambda>w. Inr (s\<lparr>world := w\<rparr>))"

section \<open>Dispatchables\<close>

definition create ::
    "('a::linorder, 'b, 'c, 'w) crowdloan_config \<Rightarrow> nat \<Rightarrow> 'a origin \<Rightarrow> nat \<Rightarrow> nat \<Rightarrow> nat \<Rightarrow> nat \<Rightarrow>
     'c option \<Rightarrow> 'a option \<Rightarrow> ('a, 'b, 'w) crowdloan_state \<Rightarrow>
     (crowdloan_error, ('a, 'b, 'w) crowdloan_state) result" where
  "create cfg now og deposit min_contribution cap end_block call target_address s =
     and_then (ensure_signed BadOrigin og) (\<lambda>creator.
     ensure (deposit \<ge> MinimumDeposit cfg) DepositTooLow
    (ensure (cap > deposit) CapTooLow
    (ensure (min_contribution \<ge> AbsoluteMinimumContribution cfg) MinimumContributionTooLow
    (and_then (ensure_valid_end cfg now end_block) (\<lambda>_.
     ensure (balance cfg (world s) creator \<ge> deposit) InsufficientBalance
    (let cid = next_crowdloan_id s in
     and_then (ok_or (checked_add u32_max cid 1) Overflow) (\<lambda>next_id.
     let fa = funds_account cfg cid;
         s = s\<lparr>next_crowdloan_id := next_id, world := inc_providers cfg fa (world s)\<rparr> in
     and_then (case call of
         None \<Rightarrow> Inr (None, world s)
       | Some c \<Rightarrow> and_then (preimage_bound cfg c (world s)) (\<lambda>(b, w). Inr (Some b, w))) (\<lambda>(bcall, w).
     let s = s\<lparr>world := w\<rparr>;
         info = \<lparr>cl_creator = creator, cl_deposit = deposit,
           cl_min_contribution = min_contribution, cl_end = end_block, cl_cap = cap,
           cl_funds_account = fa, cl_raised = deposit, cl_target_address = target_address,
           cl_call = bcall, cl_finalized = False, cl_contributors_count = 1\<rparr>;
         s = put_crowdloan cid info s in
     and_then (pay cfg creator (cl_funds_account info) deposit s) (\<lambda>s.
     Inr (set_contribution cid creator deposit s))))))))))"

definition contribute ::
    "('a::linorder, 'b, 'c, 'w) crowdloan_config \<Rightarrow> nat \<Rightarrow> 'a origin \<Rightarrow> crowdloan_id \<Rightarrow> nat \<Rightarrow>
     ('a, 'b, 'w) crowdloan_state \<Rightarrow> (crowdloan_error, ('a, 'b, 'w) crowdloan_state) result" where
  "contribute cfg now og cid amount s =
     and_then (ensure_signed BadOrigin og) (\<lambda>contributor.
     and_then (ensure_crowdloan_exists s cid) (\<lambda>crowdloan.
     ensure (now < cl_end crowdloan) ContributionPeriodEnded
    (ensure (cl_raised crowdloan < cl_cap crowdloan) CapRaised
    (ensure (amount \<ge> cl_min_contribution crowdloan) ContributionTooLow
    (ensure (cl_contributors_count crowdloan < MaxContributors cfg) MaxContributorsReached
    (and_then (ok_or (checked_sub (cl_cap crowdloan) (cl_raised crowdloan)) Underflow) (\<lambda>left_to_raise.
     let amount = min amount left_to_raise in
     and_then (ok_or (checked_add u64_max (cl_raised crowdloan) amount) Overflow) (\<lambda>raised.
     let crowdloan = crowdloan\<lparr>cl_raised := raised\<rparr> in
     and_then (case contribution_of s cid contributor of
         Some contribution \<Rightarrow>
           and_then (ok_or (checked_add u64_max contribution amount) Overflow) (\<lambda>v. Inr (v, crowdloan))
       | None \<Rightarrow>
           and_then (ok_or (checked_add u32_max (cl_contributors_count crowdloan) 1) Overflow) (\<lambda>n.
             Inr (amount, crowdloan\<lparr>cl_contributors_count := n\<rparr>))) (\<lambda>(contribution, crowdloan).
     ensure (balance cfg (world s) contributor \<ge> amount) InsufficientBalance
    (and_then (pay cfg contributor (cl_funds_account crowdloan) amount s) (\<lambda>s.
     Inr (put_crowdloan cid crowdloan (set_contribution cid contributor contribution s)))))))))))))"

definition withdraw ::
    "('a::linorder, 'b, 'c, 'w) crowdloan_config \<Rightarrow> 'a origin \<Rightarrow> crowdloan_id \<Rightarrow>
     ('a, 'b, 'w) crowdloan_state \<Rightarrow> (crowdloan_error, ('a, 'b, 'w) crowdloan_state) result" where
  "withdraw cfg og cid s =
     and_then (ensure_signed BadOrigin og) (\<lambda>who.
     and_then (ensure_crowdloan_exists s cid) (\<lambda>crowdloan.
     ensure (\<not> cl_finalized crowdloan) AlreadyFinalized
    (let amount = (case contribution_of s cid who of None \<Rightarrow> 0 | Some v \<Rightarrow> v) in
     ensure (amount > 0) NoContribution
    (and_then (if who = cl_creator crowdloan
        then let amount = amount - cl_deposit crowdloan in
          ensure (amount > 0) DepositCannotBeWithdrawn
            (Inr (amount, crowdloan, set_contribution cid who (cl_deposit crowdloan) s))
        else and_then (ok_or (checked_sub (cl_contributors_count crowdloan) 1) Underflow) (\<lambda>n.
            Inr (amount, crowdloan\<lparr>cl_contributors_count := n\<rparr>, remove_contribution cid who s)))
      (\<lambda>(amount, crowdloan, s).
     and_then (pay cfg (cl_funds_account crowdloan) who amount s) (\<lambda>s.
     Inr (put_crowdloan cid (crowdloan\<lparr>cl_raised := cl_raised crowdloan - amount\<rparr>) s)))))))"

definition finalize ::
    "('a::linorder, 'b, 'c, 'w) crowdloan_config \<Rightarrow> nat \<Rightarrow> 'a origin \<Rightarrow> crowdloan_id \<Rightarrow>
     ('a, 'b, 'w) crowdloan_state \<Rightarrow> (crowdloan_error, ('a, 'b, 'w) crowdloan_state) result" where
  "finalize cfg now og cid s =
     and_then (ensure_signed BadOrigin og) (\<lambda>who.
     and_then (ensure_crowdloan_exists s cid) (\<lambda>crowdloan.
     ensure (who = cl_creator crowdloan) InvalidOrigin
    (ensure (now \<ge> cl_end crowdloan) ContributionPeriodNotEnded
    (ensure (cl_raised crowdloan = cl_cap crowdloan) CapNotRaised
    (ensure (\<not> cl_finalized crowdloan) AlreadyFinalized
    (and_then (case cl_target_address crowdloan of
         Some target_address \<Rightarrow>
           pay cfg (cl_funds_account crowdloan) target_address (cl_raised crowdloan) s
       | None \<Rightarrow> Inr s) (\<lambda>s.
     and_then (case cl_call crowdloan of
         Some call \<Rightarrow>
           let s = s\<lparr>current_crowdloan_id := Some cid\<rparr> in
           and_then (ok_or (preimage_peek cfg call (world s)) CallUnavailable) (\<lambda>stored_call.
           and_then (dispatch cfg stored_call who s) (\<lambda>s.
           Inr (s\<lparr>current_crowdloan_id := None\<rparr>)))
       | None \<Rightarrow> Inr s) (\<lambda>s.
     Inr (put_crowdloan cid (crowdloan\<lparr>cl_finalized := True\<rparr>) s)))))))))"

text \<open>
  The loop of \<open>refund\<close> over the contributions that are not the creator's, in key order. Its
  variables are the crowdloan (only \<open>raised\<close> changes), the accounts refunded so far, the
  counter, the flag \<open>all_refunded\<close> and the state (only \<open>world\<close> changes).
\<close>

fun refund_loop ::
    "('a, 'b, 'c, 'w) crowdloan_config \<Rightarrow> ('a \<times> nat) list \<Rightarrow> ('a, 'b) crowdloan_info \<Rightarrow> 'a list \<Rightarrow> nat \<Rightarrow>
     ('a, 'b, 'w) crowdloan_state \<Rightarrow>
     (crowdloan_error, ('a, 'b) crowdloan_info \<times> 'a list \<times> nat \<times> bool \<times> ('a, 'b, 'w) crowdloan_state) result" where
  "refund_loop cfg [] crowdloan refunded count s = Inr (crowdloan, refunded, count, True, s)"
| "refund_loop cfg ((contributor, amount) # rest) crowdloan refunded count s =
     (if count \<ge> RefundContributorsLimit cfg then Inr (crowdloan, refunded, count, False, s)
      else and_then (pay cfg (cl_funds_account crowdloan) contributor amount s) (\<lambda>s.
        and_then (ok_or (checked_add u32_max count 1) Overflow) (\<lambda>count.
        refund_loop cfg rest (crowdloan\<lparr>cl_raised := cl_raised crowdloan - amount\<rparr>)
          (refunded @ [contributor]) count s)))"

definition refund ::
    "('a::linorder, 'b, 'c, 'w) crowdloan_config \<Rightarrow> nat \<Rightarrow> 'a origin \<Rightarrow> crowdloan_id \<Rightarrow>
     ('a, 'b, 'w) crowdloan_state \<Rightarrow> (crowdloan_error, ('a, 'b, 'w) crowdloan_state) result" where
  "refund cfg now og cid s =
     and_then (ensure_signed BadOrigin og) (\<lambda>_.
     and_then (ensure_crowdloan_exists s cid) (\<lambda>crowdloan.
     ensure (now \<ge> cl_end crowdloan) ContributionPeriodNotEnded
    (ensure (\<not> cl_finalized crowdloan) AlreadyFinalized
    (and_then (refund_loop cfg (filter (\<lambda>p. fst p \<noteq> cl_creator crowdloan) (contributions s cid))
        crowdloan [] 0 s) (\<lambda>(crowdloan, refunded, count, all_refunded, s).
     and_then (ok_or (checked_sub (cl_contributors_count crowdloan) count) Underflow) (\<lambda>n.
     Inr (fold (remove_contribution cid) refunded
       (put_crowdloan cid (crowdloan\<lparr>cl_contributors_count := n\<rparr>) s))))))))"

definition dissolve ::
    "('a::linorder, 'b, 'c, 'w) crowdloan_config \<Rightarrow> 'a origin \<Rightarrow> crowdloan_id \<Rightarrow>
     ('a, 'b, 'w) crowdloan_state \<Rightarrow> (crowdloan_error, ('a, 'b, 'w) crowdloan_state) result" where
  "dissolve cfg og cid s =
     and_then (ensure_signed BadOrigin og) (\<lambda>who.
     and_then (ensure_crowdloan_exists s cid) (\<lambda>crowdloan.
     ensure (\<not> cl_finalized crowdloan) AlreadyFinalized
    (ensure (who = cl_creator crowdloan) InvalidOrigin
    (and_then (ok_or (contribution_of s cid (cl_creator crowdloan)) NoContribution) (\<lambda>creator_contribution.
     ensure (creator_contribution = cl_raised crowdloan) NotReadyToDissolve
    (and_then (pay cfg (cl_funds_account crowdloan) (cl_creator crowdloan) creator_contribution s) (\<lambda>s.
     let s = remove_contribution cid (cl_creator crowdloan) s;
         w = (case cl_call crowdloan of Some call \<Rightarrow> preimage_drop cfg call (world s) | None \<Rightarrow> world s);
         w = dec_providers cfg (cl_funds_account crowdloan) w
     in Inr (s\<lparr>world := w, crowdloans := (crowdloans s)(cid := None)\<rparr>))))))))"

definition update_min_contribution ::
    "('a::linorder, 'b, 'c, 'w) crowdloan_config \<Rightarrow> 'a origin \<Rightarrow> crowdloan_id \<Rightarrow> nat \<Rightarrow>
     ('a, 'b, 'w) crowdloan_state \<Rightarrow> (crowdloan_error, ('a, 'b, 'w) crowdloan_state) result" where
  "update_min_contribution cfg og cid new_min_contribution s =
     and_then (ensure_signed BadOrigin og) (\<lambda>who.
     and_then (ensure_crowdloan_exists s cid) (\<lambda>crowdloan.
     ensure (\<not> cl_finalized crowdloan) AlreadyFinalized
    (ensure (who = cl_creator crowdloan) InvalidOrigin
    (ensure (new_min_contribution \<ge> AbsoluteMinimumContribution cfg) MinimumContributionTooLow
    (Inr (put_crowdloan cid (crowdloan\<lparr>cl_min_contribution := new_min_contribution\<rparr>) s))))))"

definition update_end ::
    "('a::linorder, 'b, 'c, 'w) crowdloan_config \<Rightarrow> nat \<Rightarrow> 'a origin \<Rightarrow> crowdloan_id \<Rightarrow> nat \<Rightarrow>
     ('a, 'b, 'w) crowdloan_state \<Rightarrow> (crowdloan_error, ('a, 'b, 'w) crowdloan_state) result" where
  "update_end cfg now og cid new_end s =
     and_then (ensure_signed BadOrigin og) (\<lambda>who.
     and_then (ensure_crowdloan_exists s cid) (\<lambda>crowdloan.
     ensure (\<not> cl_finalized crowdloan) AlreadyFinalized
    (ensure (who = cl_creator crowdloan) InvalidOrigin
    (and_then (ensure_valid_end cfg now new_end) (\<lambda>_.
     Inr (put_crowdloan cid (crowdloan\<lparr>cl_end := new_end\<rparr>) s))))))"

definition update_cap ::
    "('a::linorder, 'b, 'c, 'w) crowdloan_config \<Rightarrow> 'a origin \<Rightarrow> crowdloan_id \<Rightarrow> nat \<Rightarrow>
     ('a, 'b, 'w) crowdloan_state \<Rightarrow> (crowdloan_error, ('a, 'b, 'w) crowdloan_state) result" where
  "update_cap cfg og cid new_cap s =
     and_then (ensure_signed BadOrigin og) (\<lambda>who.
     and_then (ensure_crowdloan_exists s cid) (\<lambda>crowdloan.
     ensure (\<not> cl_finalized crowdloan) AlreadyFinalized
    (ensure (who = cl_creator crowdloan) InvalidOrigin
    (ensure (new_cap \<ge> cl_raised crowdloan) CapTooLow
    (Inr (put_crowdloan cid (crowdloan\<lparr>cl_cap := new_cap\<rparr>) s))))))"

text \<open>The calls of the pallet, as the runtime dispatches them.\<close>

datatype ('a, 'c) crowdloan_call =
    Create nat nat nat nat "'c option" "'a option"
  | Contribute crowdloan_id nat
  | Withdraw crowdloan_id
  | Finalize crowdloan_id
  | Refund crowdloan_id
  | Dissolve crowdloan_id
  | UpdateMinContribution crowdloan_id nat
  | UpdateEnd crowdloan_id nat
  | UpdateCap crowdloan_id nat

fun crowdloan_exec ::
    "('a::linorder, 'b, 'c, 'w) crowdloan_config \<Rightarrow> nat \<Rightarrow> 'a origin \<Rightarrow> ('a, 'c) crowdloan_call \<Rightarrow>
     ('a, 'b, 'w) crowdloan_state \<Rightarrow> (crowdloan_error, ('a, 'b, 'w) crowdloan_state) result" where
  "crowdloan_exec cfg now og (Create d m cap e call t) s = create cfg now og d m cap e call t s"
| "crowdloan_exec cfg now og (Contribute cid x) s = contribute cfg now og cid x s"
| "crowdloan_exec cfg now og (Withdraw cid) s = withdraw cfg og cid s"
| "crowdloan_exec cfg now og (Finalize cid) s = finalize cfg now og cid s"
| "crowdloan_exec cfg now og (Refund cid) s = refund cfg now og cid s"
| "crowdloan_exec cfg now og (Dissolve cid) s = dissolve cfg og cid s"
| "crowdloan_exec cfg now og (UpdateMinContribution cid x) s = update_min_contribution cfg og cid x s"
| "crowdloan_exec cfg now og (UpdateEnd cid x) s = update_end cfg now og cid x s"
| "crowdloan_exec cfg now og (UpdateCap cid x) s = update_cap cfg og cid x s"

section \<open>What the pallet relies on\<close>

text \<open>
  \<open>fungible::Mutate::transfer\<close> with \<open>Preservation::Expendable\<close>: the amount leaves the
  sender and arrives at the receiver; what remains with the sender is kept unless it is below
  the existential deposit \<open>ed\<close>, in which case it is removed as dust.
\<close>

definition currency_ok :: "('a, 'b, 'c, 'w) crowdloan_config \<Rightarrow> nat \<Rightarrow> bool" where
  "currency_ok cfg ed \<longleftrightarrow>
     (\<forall>a b n w w'. transfer cfg a b n w = Inr w' \<longrightarrow>
        n \<le> balance cfg w a \<and>
        (a = b \<longrightarrow> balance cfg w' = balance cfg w) \<and>
        (a \<noteq> b \<longrightarrow> balance cfg w' b = balance cfg w b + n \<and>
           (balance cfg w' a = balance cfg w a - n \<or>
            balance cfg w a - n < ed \<and> balance cfg w' a = 0) \<and>
           (\<forall>c. c \<noteq> a \<longrightarrow> c \<noteq> b \<longrightarrow> balance cfg w' c = balance cfg w c)))"

text \<open>The account providers and the preimage store move no funds.\<close>

definition services_ok :: "('a, 'b, 'c, 'w) crowdloan_config \<Rightarrow> bool" where
  "services_ok cfg \<longleftrightarrow>
     (\<forall>a w. balance cfg (inc_providers cfg a w) = balance cfg w) \<and>
     (\<forall>a w. balance cfg (dec_providers cfg a w) = balance cfg w) \<and>
     (\<forall>c w b w'. preimage_bound cfg c w = Inr (b, w') \<longrightarrow> balance cfg w' = balance cfg w) \<and>
     (\<forall>b w. balance cfg (preimage_drop cfg b w) = balance cfg w)"

text \<open>
  The call dispatched by \<open>finalize\<close> is one of another pallet: it leaves the storage of this
  pallet alone and takes no funds from a crowdloan other than the current one.
\<close>

definition call_ok :: "('a, 'b, 'c, 'w) crowdloan_config \<Rightarrow> bool" where
  "call_ok cfg \<longleftrightarrow>
     (\<forall>c who s s'. dispatch cfg c who s = Inr s' \<longrightarrow>
        crowdloans s' = crowdloans s \<and> next_crowdloan_id s' = next_crowdloan_id s \<and>
        contributions s' = contributions s \<and>
        (\<forall>cid. current_crowdloan_id s \<noteq> Some cid \<longrightarrow>
           balance cfg (world s) (sub_account cfg cid) \<le> balance cfg (world s') (sub_account cfg cid)))"

text \<open>Sub-accounts of the pallet are distinct and nobody can sign for one.\<close>

definition crowdloan_env_ok :: "('a, 'b, 'c, 'w) crowdloan_config \<Rightarrow> nat \<Rightarrow> bool" where
  "crowdloan_env_ok cfg ed \<longleftrightarrow>
     currency_ok cfg ed \<and> services_ok cfg \<and> call_ok cfg \<and> inj (sub_account cfg) \<and>
     ed \<le> MinimumDeposit cfg \<and> RefundContributorsLimit cfg \<le> u32_max \<and>
     0 < AbsoluteMinimumContribution cfg"

definition user_account :: "('a, 'b, 'c, 'w) crowdloan_config \<Rightarrow> 'a \<Rightarrow> bool" where
  "user_account cfg a \<longleftrightarrow> (\<forall>cid. a \<noteq> sub_account cfg cid)"

definition user_origin :: "('a, 'b, 'c, 'w) crowdloan_config \<Rightarrow> 'a origin \<Rightarrow> bool" where
  "user_origin cfg og = (case og of Signed a \<Rightarrow> user_account cfg a | _ \<Rightarrow> True)"

lemma user_origin_Signed [simp]: "user_origin cfg (Signed a) = user_account cfg a"
  by (simp add: user_origin_def)

section \<open>Invariant\<close>

text \<open>
  One crowdloan, given its info, its contributions and the balance of its funds account: the
  amount raised is the total of the contributions and stays within the cap, the contributors
  are counted and every one but the creator has put something in, the creator keeps at least the
  deposit in, and until the crowdloan is finalized
  its account holds everything that was raised.
\<close>

definition info_inv ::
    "('a::linorder, 'b, 'c, 'w) crowdloan_config \<Rightarrow> crowdloan_id \<Rightarrow> ('a, 'b) crowdloan_info \<Rightarrow>
     ('a \<times> nat) list \<Rightarrow> nat \<Rightarrow> bool" where
  "info_inv cfg cid c l bal \<longleftrightarrow>
     cl_funds_account c = sub_account cfg cid \<and>
     cl_raised c = smap_sum l \<and> cl_raised c \<le> cl_cap c \<and>
     cl_contributors_count c = length l \<and>
     MinimumDeposit cfg \<le> cl_deposit c \<and>
     map_of l (cl_creator c) \<noteq> None \<and> cl_deposit c \<le> the (map_of l (cl_creator c)) \<and>
     0 < cl_min_contribution c \<and> (\<forall>p \<in> set l. fst p = cl_creator c \<or> 0 < snd p) \<and>
     (cl_finalized c \<or> cl_raised c \<le> bal)"

definition loan_inv ::
    "('a::linorder, 'b, 'c, 'w) crowdloan_config \<Rightarrow> crowdloan_id \<Rightarrow> ('a, 'b) crowdloan_info option \<Rightarrow>
     ('a \<times> nat) list \<Rightarrow> nat \<Rightarrow> bool" where
  "loan_inv cfg cid x l bal \<longleftrightarrow>
     smap_wf l \<and> (\<forall>p \<in> set l. user_account cfg (fst p)) \<and>
     (case x of None \<Rightarrow> l = [] | Some c \<Rightarrow> info_inv cfg cid c l bal)"

definition crowdloan_inv ::
    "('a::linorder, 'b, 'c, 'w) crowdloan_config \<Rightarrow> ('a, 'b, 'w) crowdloan_state \<Rightarrow> bool" where
  "crowdloan_inv cfg s \<longleftrightarrow>
     (\<forall>cid. loan_inv cfg cid (crowdloans s cid) (contributions s cid)
        (balance cfg (world s) (sub_account cfg cid))) \<and>
     (\<forall>cid. next_crowdloan_id s \<le> cid \<longrightarrow> crowdloans s cid = None)"

inductive crowdloan_step ::
    "('a::linorder, 'b, 'c, 'w) crowdloan_config \<Rightarrow> ('a, 'b, 'w) crowdloan_state \<Rightarrow>
     ('a, 'b, 'w) crowdloan_state \<Rightarrow> bool" for cfg where
  call: "user_origin cfg og \<Longrightarrow> crowdloan_exec cfg now og c s = Inr s' \<Longrightarrow> crowdloan_step cfg s s'"
| environment: "(\<And>cid. balance cfg (world s) (sub_account cfg cid) \<le> balance cfg w (sub_account cfg cid)) \<Longrightarrow>
    crowdloan_step cfg s (s\<lparr>world := w\<rparr>)"

definition crowdloan_initial :: "('a, 'b, 'w) crowdloan_state \<Rightarrow> bool" where
  "crowdloan_initial s \<longleftrightarrow>
     crowdloans s = (\<lambda>_. None) \<and> contributions s = (\<lambda>_. []) \<and> next_crowdloan_id s = 0"

lemma pay_Inr [simp]:
  "pay cfg a b n s = Inr s' \<longleftrightarrow> (\<exists>w. transfer cfg a b n (world s) = Inr w \<and> s' = s\<lparr>world := w\<rparr>)"
  by (auto simp: pay_def)

lemma loan_inv_mono:
  "loan_inv cfg cid x l b \<Longrightarrow> b \<le> b' \<Longrightarrow> loan_inv cfg cid x l b'"
  by (auto simp: loan_inv_def info_inv_def split: option.splits)

lemma crowdloan_inv_loan:
  "crowdloan_inv cfg s \<Longrightarrow>
     loan_inv cfg cid (crowdloans s cid) (contributions s cid) (balance cfg (world s) (sub_account cfg cid))"
  by (simp add: crowdloan_inv_def)

lemma crowdloan_inv_update:
  assumes "crowdloan_inv cfg s"
    and "crowdloans s' = (crowdloans s)(cid := x)" "contributions s' = (contributions s)(cid := l)"
    and "next_crowdloan_id s \<le> next_crowdloan_id s'" "x = None \<or> cid < next_crowdloan_id s'"
    and "loan_inv cfg cid x l (balance cfg (world s') (sub_account cfg cid))"
    and "\<And>i. i \<noteq> cid \<Longrightarrow> balance cfg (world s) (sub_account cfg i) \<le> balance cfg (world s') (sub_account cfg i)"
  shows "crowdloan_inv cfg s'"
  unfolding crowdloan_inv_def
proof (intro conjI allI impI)
  fix i
  show "loan_inv cfg i (crowdloans s' i) (contributions s' i) (balance cfg (world s') (sub_account cfg i))"
    using assms(6) loan_inv_mono[OF crowdloan_inv_loan[OF assms(1)] assms(7), of i]
    by (cases "i = cid") (simp_all add: assms(2,3))
  assume "next_crowdloan_id s' \<le> i"
  moreover from this assms(4) have "next_crowdloan_id s \<le> i" by simp
  ultimately show "crowdloans s' i = None" using assms(1,5) by (auto simp: assms(2) crowdloan_inv_def)
qed

lemma crowdloan_exists_bound:
  "crowdloan_inv cfg s \<Longrightarrow> crowdloans s cid = Some c \<Longrightarrow> cid < next_crowdloan_id s"
  by (metis crowdloan_inv_def linorder_not_le option.distinct(1))

text \<open>Payments into and out of a funds account, by a user.\<close>

lemma transfer_law:
  assumes "crowdloan_env_ok cfg ed" "transfer cfg a b n w = Inr w'" "a \<noteq> b"
  shows "n \<le> balance cfg w a" "balance cfg w' b = balance cfg w b + n"
    "balance cfg w' a = balance cfg w a - n \<or> balance cfg w a - n < ed \<and> balance cfg w' a = 0"
    "c \<noteq> a \<Longrightarrow> c \<noteq> b \<Longrightarrow> balance cfg w' c = balance cfg w c"
  using assms by (auto simp: crowdloan_env_ok_def currency_ok_def)

lemma transfer_self:
  "crowdloan_env_ok cfg ed \<Longrightarrow> transfer cfg a a n w = Inr w' \<Longrightarrow> balance cfg w' = balance cfg w"
  by (auto simp: crowdloan_env_ok_def currency_ok_def)

lemma sub_account_inj: "crowdloan_env_ok cfg ed \<Longrightarrow> sub_account cfg i = sub_account cfg j \<longleftrightarrow> i = j"
  by (auto simp: crowdloan_env_ok_def dest: injD)

lemma pay_in:
  assumes "crowdloan_env_ok cfg ed" "transfer cfg a (sub_account cfg cid) n w = Inr w'" "user_account cfg a"
  shows "balance cfg w' (sub_account cfg i) = balance cfg w (sub_account cfg i) + (if i = cid then n else 0)"
proof -
  from assms(3) have ne: "a \<noteq> sub_account cfg j" for j by (simp add: user_account_def)
  show ?thesis
  proof (cases "i = cid")
    case True
    with transfer_law(2)[OF assms(1,2) ne] show ?thesis by simp
  next
    case False
    with transfer_law(4)[OF assms(1,2) ne, of "sub_account cfg i"] ne[symmetric] sub_account_inj[OF assms(1), of i cid]
    show ?thesis by simp
  qed
qed

lemma pay_out:
  assumes "crowdloan_env_ok cfg ed" "transfer cfg (sub_account cfg cid) a n w = Inr w'" "user_account cfg a"
    and "ed \<le> balance cfg w (sub_account cfg cid) - n"
  shows "balance cfg w' (sub_account cfg i) = balance cfg w (sub_account cfg i) - (if i = cid then n else 0)"
proof -
  from assms(3) have ne: "sub_account cfg j \<noteq> a" for j by (auto simp: user_account_def)
  show ?thesis
  proof (cases "i = cid")
    case True
    with transfer_law(3)[OF assms(1,2) ne] assms(4) show ?thesis by simp
  next
    case False
    with transfer_law(4)[OF assms(1,2) ne, of "sub_account cfg i"] ne sub_account_inj[OF assms(1), of i cid]
    show ?thesis by simp
  qed
qed

lemma pay_out_other:
  assumes "crowdloan_env_ok cfg ed" "transfer cfg (sub_account cfg cid) a n w = Inr w'" "i \<noteq> cid"
  shows "balance cfg w (sub_account cfg i) \<le> balance cfg w' (sub_account cfg i)"
proof (cases "sub_account cfg cid = a")
  case True
  with assms show ?thesis by (simp add: transfer_self)
next
  case False
  with transfer_law(2,4)[OF assms(1,2)] sub_account_inj[OF assms(1), of i cid] assms(3)
  show ?thesis by (cases "sub_account cfg i = a") auto
qed

text \<open>What the invariant gives for one existing crowdloan, and what has to be shown to keep it.\<close>

lemma crowdloan_invD:
  assumes "crowdloan_inv cfg s" "crowdloans s cid = Some c"
  shows "smap_wf (contributions s cid)" "\<And>p. p \<in> set (contributions s cid) \<Longrightarrow> user_account cfg (fst p)"
    "info_inv cfg cid c (contributions s cid) (balance cfg (world s) (sub_account cfg cid))"
    "cl_funds_account c = sub_account cfg cid" "cid < next_crowdloan_id s"
  using crowdloan_inv_loan[OF assms(1), of cid] crowdloan_exists_bound[OF assms] assms(2)
  by (auto simp: loan_inv_def info_inv_def)

lemma users_put:
  "user_account cfg a \<Longrightarrow> (\<And>p. p \<in> set l \<Longrightarrow> user_account cfg (fst p)) \<Longrightarrow>
     \<forall>p \<in> set (smap_put a v l). user_account cfg (fst p)"
  by (rule all_smap_put) auto

lemma users_del:
  "(\<And>p. p \<in> set l \<Longrightarrow> user_account cfg (fst p)) \<Longrightarrow> \<forall>p \<in> set (smap_del a l). user_account cfg (fst p)"
  by (simp add: smap_del_def)

text \<open>The effect of a successful contribution and of a successful withdrawal.\<close>

definition accepted :: "('a, 'b) crowdloan_info \<Rightarrow> nat \<Rightarrow> nat" where
  "accepted c amount = min amount (cl_cap c - cl_raised c)"

definition prior :: "('a, 'b, 'w) crowdloan_state \<Rightarrow> crowdloan_id \<Rightarrow> 'a \<Rightarrow> nat" where
  "prior s cid a = (case contribution_of s cid a of None \<Rightarrow> 0 | Some u \<Rightarrow> u)"

lemma contributeE:
  assumes "contribute cfg now og cid amount s = Inr s'"
  obtains a c w where "og = Signed a" "crowdloans s cid = Some c" "now < cl_end c"
    "cl_raised c < cl_cap c" "cl_min_contribution c \<le> amount"
    "cl_contributors_count c < MaxContributors cfg"
    "transfer cfg a (cl_funds_account c) (accepted c amount) (world s) = Inr w"
    "s' = put_crowdloan cid (c\<lparr>cl_raised := cl_raised c + accepted c amount,
        cl_contributors_count := cl_contributors_count c + (if contribution_of s cid a = None then 1 else 0)\<rparr>)
      (set_contribution cid a (prior s cid a + accepted c amount) (s\<lparr>world := w\<rparr>))"
proof -
  from assms obtain a c where 1: "og = Signed a" "crowdloans s cid = Some c"
    by (auto simp: contribute_def ensure_crowdloan_exists_def)
  show thesis
  proof (cases "contribution_of s cid a")
    case None
    with 1 assms show thesis
      by (clarsimp simp: contribute_def ensure_crowdloan_exists_def Let_def)
        (rule that[of a c], simp_all add: accepted_def prior_def)
  next
    case (Some u)
    with 1 assms show thesis
      by (clarsimp simp: contribute_def ensure_crowdloan_exists_def Let_def)
        (rule that[of a c], simp_all add: accepted_def prior_def)
  qed
qed

lemma contribute_inv:
  assumes env: "crowdloan_env_ok cfg ed" and inv: "crowdloan_inv cfg s" and og: "user_origin cfg og"
    and ok: "contribute cfg now og cid amount s = Inr s'"
  shows "crowdloan_inv cfg s'"
  using ok
proof (rule contributeE)
  fix a c w
  assume c: "crowdloans s cid = Some c"
  let ?x = "accepted c amount"
  let ?l = "contributions s cid"
  let ?c' = "c\<lparr>cl_raised := cl_raised c + ?x,
    cl_contributors_count := cl_contributors_count c + (if contribution_of s cid a = None then 1 else 0)\<rparr>"
  assume h: "og = Signed a" "cl_raised c < cl_cap c"
    "transfer cfg a (cl_funds_account c) ?x (world s) = Inr w" "cl_min_contribution c \<le> amount"
    and s': "s' = put_crowdloan cid ?c' (set_contribution cid a (prior s cid a + ?x) (s\<lparr>world := w\<rparr>))"
  note D = crowdloan_invD[OF inv c]
  have a: "user_account cfg a" using og h(1) by simp
  have bal: "balance cfg w (sub_account cfg i) =
      balance cfg (world s) (sub_account cfg i) + (if i = cid then ?x else 0)" for i
    using pay_in[OF env _ a] h(3) D(4) by simp
  have sum: "smap_sum (smap_put a (prior s cid a + ?x) ?l) = smap_sum ?l + ?x"
    using smap_sum_put_new[OF D(1), of a] smap_sum_put_old[OF D(1), of a]
    by (cases "map_of ?l a") (simp_all add: prior_def contribution_of_def, metis add.assoc add.commute add_right_cancel)
  have len: "length (smap_put a (prior s cid a + ?x) ?l) =
      length ?l + (if contribution_of s cid a = None then 1 else 0)"
    by (simp add: smap_length_put[OF D(1)] contribution_of_def)
  have pos: "\<forall>p \<in> set (smap_put a (prior s cid a + ?x) ?l). fst p = cl_creator c \<or> 0 < snd p"
    using D(3) h(2,4) by (intro all_smap_put) (auto simp: info_inv_def accepted_def)
  have acc: "cl_raised c + ?x \<le> cl_cap c" using h(2) by (simp add: accepted_def)
  have share: "cl_deposit c \<le> the (map_of (smap_put a (prior s cid a + ?x) ?l) (cl_creator c))"
    using D(1,3) by (auto simp: info_inv_def prior_def contribution_of_def)
  have "loan_inv cfg cid (Some ?c') (smap_put a (prior s cid a + ?x) ?l)
      (balance cfg w (sub_account cfg cid))"
    using D(1,3) acc len share pos users_put[OF a D(2)] sum by (auto simp: loan_inv_def info_inv_def bal)
  then show "crowdloan_inv cfg s'"
    by (intro crowdloan_inv_update[OF inv, where cid = cid])
      (auto simp: s' put_crowdloan_def set_contribution_def D(5) bal)
qed

text \<open>The amount a withdrawal pays out: all of a contribution, except the deposit of the creator.\<close>

definition withdrawable :: "('a, 'b, 'w) crowdloan_state \<Rightarrow> crowdloan_id \<Rightarrow> ('a, 'b) crowdloan_info \<Rightarrow> 'a \<Rightarrow> nat" where
  "withdrawable s cid c a = (if a = cl_creator c then prior s cid a - cl_deposit c else prior s cid a)"

lemma world_contribution [simp]:
  "world (set_contribution cid a v s) = world s" "world (remove_contribution cid a s) = world s"
  "(set_contribution cid a v s)\<lparr>world := w\<rparr> = set_contribution cid a v (s\<lparr>world := w\<rparr>)"
  "(remove_contribution cid a s)\<lparr>world := w\<rparr> = remove_contribution cid a (s\<lparr>world := w\<rparr>)"
  by (simp_all add: set_contribution_def remove_contribution_def)

lemma withdrawE:
  assumes "withdraw cfg og cid s = Inr s'"
  obtains a c w where "og = Signed a" "crowdloans s cid = Some c" "\<not> cl_finalized c"
    "0 < withdrawable s cid c a" "a \<noteq> cl_creator c \<longrightarrow> 0 < cl_contributors_count c"
    "transfer cfg (cl_funds_account c) a (withdrawable s cid c a) (world s) = Inr w"
    "s' = put_crowdloan cid (c\<lparr>cl_contributors_count :=
        cl_contributors_count c - (if a = cl_creator c then 0 else 1),
        cl_raised := cl_raised c - withdrawable s cid c a\<rparr>)
      ((if a = cl_creator c then set_contribution cid a (cl_deposit c) else remove_contribution cid a)
        (s\<lparr>world := w\<rparr>))"
proof -
  from assms obtain a c where 1: "og = Signed a" "crowdloans s cid = Some c"
    by (auto simp: withdraw_def ensure_crowdloan_exists_def)
  show thesis
  proof (cases "a = cl_creator c")
    case True
    with 1 assms show thesis
      by (clarsimp simp: withdraw_def ensure_crowdloan_exists_def Let_def)
        (rule that[of a c], simp_all add: withdrawable_def prior_def)
  next
    case False
    with 1 assms show thesis
      by (clarsimp simp: withdraw_def ensure_crowdloan_exists_def Let_def)
        (rule that[of a c], simp_all add: withdrawable_def prior_def)
  qed
qed

lemma creator_share:
  assumes "info_inv cfg cid c l bal"
  shows "cl_deposit c \<le> smap_sum l" "MinimumDeposit cfg \<le> smap_sum l"
  using assms smap_sum_ge[of l "cl_creator c"] by (auto simp: info_inv_def split: option.splits)

lemma withdraw_inv:
  assumes env: "crowdloan_env_ok cfg ed" and inv: "crowdloan_inv cfg s" and og: "user_origin cfg og"
    and ok: "withdraw cfg og cid s = Inr s'"
  shows "crowdloan_inv cfg s'"
  using ok
proof (rule withdrawE)
  fix a c w
  assume c: "crowdloans s cid = Some c"
  let ?x = "withdrawable s cid c a"
  let ?l = "contributions s cid"
  let ?l' = "if a = cl_creator c then smap_put a (cl_deposit c) ?l else smap_del a ?l"
  let ?c' = "c\<lparr>cl_contributors_count := cl_contributors_count c - (if a = cl_creator c then 0 else 1),
    cl_raised := cl_raised c - ?x\<rparr>"
  assume h: "og = Signed a" "\<not> cl_finalized c" "0 < ?x"
    "transfer cfg (cl_funds_account c) a ?x (world s) = Inr w"
    and s': "s' = put_crowdloan cid ?c'
      ((if a = cl_creator c then set_contribution cid a (cl_deposit c) else remove_contribution cid a) (s\<lparr>world := w\<rparr>))"
  note D = crowdloan_invD[OF inv c]
  have a: "user_account cfg a" using og h(1) by simp
  obtain u where u: "map_of ?l a = Some u" "prior s cid a = u"
    using h(3) by (auto simp: withdrawable_def prior_def contribution_of_def split: option.splits if_splits)
  have sum: "smap_sum ?l' + ?x = smap_sum ?l"
    using smap_sum_put_old[OF D(1) u(1), of "cl_deposit c"] smap_del_present[OF D(1) u(1)] u h(3)
    by (auto simp: withdrawable_def)
  have len: "length ?l' = length ?l - (if a = cl_creator c then 0 else 1)"
    using smap_del_present[OF D(1) u(1)] u by (auto simp: smap_length_put[OF D(1)])
  have pos: "\<forall>p \<in> set ?l'. fst p = cl_creator c \<or> 0 < snd p"
    using D(3) all_smap_put[of ?l "\<lambda>p. fst p = cl_creator c \<or> 0 < snd p" a "cl_deposit c"]
    by (simp add: info_inv_def smap_del_def)
  have info: "info_inv cfg cid ?c' ?l' (balance cfg (world s) (sub_account cfg cid) - ?x)"
    using D(1,3) h(2) sum len pos by (auto simp: info_inv_def)
  have "ed \<le> balance cfg (world s) (sub_account cfg cid) - ?x"
    using creator_share(2)[OF info] info h(2) env by (auto simp: info_inv_def crowdloan_env_ok_def)
  then have bal: "balance cfg w (sub_account cfg i) =
      balance cfg (world s) (sub_account cfg i) - (if i = cid then ?x else 0)" for i
    using pay_out[OF env _ a] h(4) D(4) by simp
  have "loan_inv cfg cid (Some ?c') ?l' (balance cfg w (sub_account cfg cid))"
    using D(1) info users_put[OF a D(2)] users_del[OF D(2)] by (simp add: loan_inv_def bal)
  then show "crowdloan_inv cfg s'"
    by (intro crowdloan_inv_update[OF inv, where cid = cid and x = "Some ?c'" and l = ?l'])
      (auto simp: s' put_crowdloan_def set_contribution_def remove_contribution_def D(5) bal)
qed

text \<open>
  The refund loop pays a prefix of the list it is given, as many entries as the limit leaves.
\<close>

fun pays :: "('a, 'b, 'c, 'w) crowdloan_config \<Rightarrow> 'a \<Rightarrow> ('a \<times> nat) list \<Rightarrow> 'w \<Rightarrow> (crowdloan_error, 'w) result" where
  "pays cfg fa [] w = Inr w"
| "pays cfg fa ((a, n) # rest) w = and_then (transfer cfg fa a n w) (pays cfg fa rest)"

lemma refund_loop_eq:
  assumes "RefundContributorsLimit cfg \<le> u32_max"
  shows "refund_loop cfg L c refunded n s =
    (let k = min (RefundContributorsLimit cfg - n) (length L) in
     and_then (pays cfg (cl_funds_account c) (take k L) (world s)) (\<lambda>w.
       Inr (c\<lparr>cl_raised := cl_raised c - smap_sum (take k L)\<rparr>, refunded @ map fst (take k L), n + k,
         length L \<le> RefundContributorsLimit cfg - n, s\<lparr>world := w\<rparr>)))"
proof (induction L arbitrary: c refunded n s)
  case (Cons p L)
  obtain a x where p: "p = (a, x)" by (cases p)
  show ?case
  proof (cases "RefundContributorsLimit cfg \<le> n")
    case False
    then obtain m where m: "RefundContributorsLimit cfg - n = Suc m"
      "RefundContributorsLimit cfg - Suc n = m" by (metis Suc_diff_Suc not_le)
    from False assms have co: "checked_add u32_max n 1 = Some (Suc n)" by simp
    show ?thesis using False
      by (cases "transfer cfg (cl_funds_account c) a x (world s)")
        (simp_all only: p refund_loop.simps pay_def Cons.IH Let_def m co and_then_simps ok_or_simps if_False,
          simp_all add: and_then_def m diff_diff_left split: sum.splits)
  qed (simp add: p)
qed simp

lemma pays_out:
  assumes env: "crowdloan_env_ok cfg ed" and "pays cfg (sub_account cfg cid) L w = Inr w'"
    and "\<And>p. p \<in> set L \<Longrightarrow> user_account cfg (fst p)"
    and "ed + smap_sum L \<le> balance cfg w (sub_account cfg cid)"
  shows "balance cfg w' (sub_account cfg i) =
    balance cfg w (sub_account cfg i) - (if i = cid then smap_sum L else 0)"
  using assms(2-)
proof (induction L arbitrary: w)
  case (Cons p L)
  obtain a n where p: "p = (a, n)" by (cases p)
  from Cons.prems obtain w1 where w1: "transfer cfg (sub_account cfg cid) a n w = Inr w1"
    "pays cfg (sub_account cfg cid) L w1 = Inr w'" by (auto simp: p)
  have "balance cfg w1 (sub_account cfg j) = balance cfg w (sub_account cfg j) - (if j = cid then n else 0)" for j
    using Cons.prems(2)[of p] Cons.prems(3) by (intro pay_out[OF env w1(1)]) (simp_all add: p)
  with Cons.IH[OF w1(2)] Cons.prems show ?case by (auto simp: p)
qed simp

lemma fold_remove_contribution:
  "fold (remove_contribution cid) xs s =
     s\<lparr>contributions := (contributions s)(cid := filter (\<lambda>p. fst p \<notin> set xs) (contributions s cid))\<rparr>"
proof (induction xs arbitrary: s)
  case (Cons x xs)
  show ?case
    unfolding fold_simps(2) Cons.IH by (simp add: remove_contribution_def smap_del_def conj_commute fun_upd_def cong: if_cong)
qed simp

text \<open>The contributors still to be refunded, and those that one call refunds.\<close>

definition refundable :: "('a, 'b, 'w) crowdloan_state \<Rightarrow> crowdloan_id \<Rightarrow> ('a, 'b) crowdloan_info \<Rightarrow> ('a \<times> nat) list" where
  "refundable s cid c = filter (\<lambda>p. fst p \<noteq> cl_creator c) (contributions s cid)"

definition refund_batch ::
    "('a, 'b, 'c, 'w) crowdloan_config \<Rightarrow> ('a, 'b, 'w) crowdloan_state \<Rightarrow> crowdloan_id \<Rightarrow>
     ('a, 'b) crowdloan_info \<Rightarrow> ('a \<times> nat) list" where
  "refund_batch cfg s cid c = take (RefundContributorsLimit cfg) (refundable s cid c)"

lemma refundE:
  assumes "refund cfg now og cid s = Inr s'" and lim: "RefundContributorsLimit cfg \<le> u32_max"
  obtains a c w where "og = Signed a" "crowdloans s cid = Some c" "cl_end c \<le> now" "\<not> cl_finalized c"
    "pays cfg (cl_funds_account c) (refund_batch cfg s cid c) (world s) = Inr w"
    "length (refund_batch cfg s cid c) \<le> cl_contributors_count c"
    "s' = s\<lparr>world := w,
        crowdloans := (crowdloans s)(cid \<mapsto> c\<lparr>cl_raised := cl_raised c - smap_sum (refund_batch cfg s cid c),
          cl_contributors_count := cl_contributors_count c - length (refund_batch cfg s cid c)\<rparr>),
        contributions := (contributions s)(cid :=
          filter (\<lambda>p. fst p \<notin> fst ` set (refund_batch cfg s cid c)) (contributions s cid))\<rparr>"
proof -
  have tk: "take (min (RefundContributorsLimit cfg) (length L)) L = take (RefundContributorsLimit cfg) L"
    for L :: "('a \<times> nat) list" by (metis min.commute take_take take_all order_refl)
  from assms(1) obtain a c where 1: "og = Signed a" "crowdloans s cid = Some c"
    by (auto simp: refund_def ensure_crowdloan_exists_def)
  with assms(1) show thesis
    by (clarsimp simp: refund_def ensure_crowdloan_exists_def refund_loop_eq[OF lim] Let_def tk
        refundable_def[symmetric] refund_batch_def[symmetric] fold_remove_contribution put_crowdloan_def)
      (rule that[of a c], simp_all add: refund_batch_def min.commute)
qed

lemma refund_inv:
  assumes env: "crowdloan_env_ok cfg ed" and inv: "crowdloan_inv cfg s"
    and ok: "refund cfg now og cid s = Inr s'"
  shows "crowdloan_inv cfg s'"
proof -
  have lim: "RefundContributorsLimit cfg \<le> u32_max" using env by (simp add: crowdloan_env_ok_def)
  obtain a c w where "og = Signed a" and c: "crowdloans s cid = Some c" and "cl_end c \<le> now"
    and nf: "\<not> cl_finalized c"
    and t: "pays cfg (cl_funds_account c) (refund_batch cfg s cid c) (world s) = Inr w"
    and "length (refund_batch cfg s cid c) \<le> cl_contributors_count c"
    and s': "s' = s\<lparr>world := w,
        crowdloans := (crowdloans s)(cid \<mapsto> c\<lparr>cl_raised := cl_raised c - smap_sum (refund_batch cfg s cid c),
          cl_contributors_count := cl_contributors_count c - length (refund_batch cfg s cid c)\<rparr>),
        contributions := (contributions s)(cid :=
          filter (\<lambda>p. fst p \<notin> fst ` set (refund_batch cfg s cid c)) (contributions s cid))\<rparr>"
    using refundE[OF ok lim] .
  let ?T = "refund_batch cfg s cid c"
  let ?l = "contributions s cid"
  let ?l' = "filter (\<lambda>p. fst p \<notin> fst ` set ?T) ?l"
  let ?c' = "c\<lparr>cl_raised := cl_raised c - smap_sum ?T, cl_contributors_count := cl_contributors_count c - length ?T\<rparr>"
  note D = crowdloan_invD[OF inv c]
  have T: "set ?T \<subseteq> set ?l" "cl_creator c \<notin> fst ` set ?T"
    by (auto simp: refund_batch_def refundable_def dest!: in_set_takeD)
  have dT: "distinct ?T" using D(1)
    by (simp add: refund_batch_def refundable_def smap_wf_def distinct_map)
  note part = smap_remove_part[OF D(1) T(1) dT]
  have cr: "map_of ?l' (cl_creator c) = map_of ?l (cl_creator c)"
    using T(2) map_of_filter_key[of "\<lambda>k. k \<notin> fst ` set ?T" ?l] by simp
  have info: "info_inv cfg cid ?c' ?l' (balance cfg (world s) (sub_account cfg cid) - smap_sum ?T)"
    using D(3) nf part by (auto simp: info_inv_def cr)
  have "ed + smap_sum ?T \<le> balance cfg (world s) (sub_account cfg cid)"
    using creator_share(2)[OF info] info D(3) nf env part by (auto simp: info_inv_def crowdloan_env_ok_def)
  then have bal: "balance cfg w (sub_account cfg i) =
      balance cfg (world s) (sub_account cfg i) - (if i = cid then smap_sum ?T else 0)" for i
    using t D(4) subsetD[OF T(1)] by (intro pays_out[OF env _ D(2)]) simp_all
  have "loan_inv cfg cid (Some ?c') ?l' (balance cfg w (sub_account cfg cid))"
    using D(1,2) info by (simp add: loan_inv_def bal smap_wf_filter)
  then show ?thesis
    by (intro crowdloan_inv_update[OF inv, where cid = cid and x = "Some ?c'" and l = ?l'])
      (auto simp: s' D(5) bal)
qed

lemma createE:
  assumes "create cfg now og deposit min_contribution cap end_block call target s = Inr s'"
    and "services_ok cfg"
  obtains a bcall w0 w where "og = Signed a" "MinimumDeposit cfg \<le> deposit" "deposit < cap"
    "AbsoluteMinimumContribution cfg \<le> min_contribution"
    "now + MinimumBlockDuration cfg \<le> end_block" "end_block \<le> now + MaximumBlockDuration cfg" "now < end_block"
    "balance cfg w0 = balance cfg (world s)"
    "transfer cfg a (sub_account cfg (next_crowdloan_id s)) deposit w0 = Inr w"
    "next_crowdloan_id s < u32_max"
    "s' = set_contribution (next_crowdloan_id s) a deposit
      (s\<lparr>next_crowdloan_id := Suc (next_crowdloan_id s), crowdloans := (crowdloans s)(next_crowdloan_id s \<mapsto>
        \<lparr>cl_creator = a, cl_deposit = deposit, cl_min_contribution = min_contribution, cl_end = end_block,
          cl_cap = cap, cl_funds_account = sub_account cfg (next_crowdloan_id s), cl_raised = deposit,
          cl_target_address = target, cl_call = bcall, cl_finalized = False, cl_contributors_count = 1\<rparr>),
        world := w\<rparr>)"
proof -
  let ?wi = "inc_providers cfg (sub_account cfg (next_crowdloan_id s)) (world s)"
  have wi: "balance cfg ?wi = balance cfg (world s)" using assms(2) by (simp add: services_ok_def)
  show thesis
  proof (cases call)
    case None
    with assms(1) wi show thesis
      by (clarsimp simp: create_def funds_account_def ensure_valid_end_def Let_def put_crowdloan_def)
        (rule that[where ?w0.0 = ?wi and bcall = None],
          simp_all add: put_crowdloan_def)
  next
    case (Some c)
    with assms(1) obtain b w0 where b: "preimage_bound cfg c ?wi = Inr (b, w0)"
      by (auto simp: create_def funds_account_def Let_def)
    then have "balance cfg w0 = balance cfg (world s)"
      using assms(2) wi unfolding services_ok_def by metis
    with Some b assms(1) show thesis
      by (clarsimp simp: create_def funds_account_def ensure_valid_end_def Let_def put_crowdloan_def)
        (rule that[where ?w0.0 = w0 and bcall = "Some b"],
          simp_all add: put_crowdloan_def)
  qed
qed

lemma create_inv:
  assumes env: "crowdloan_env_ok cfg ed" and inv: "crowdloan_inv cfg s" and og: "user_origin cfg og"
    and ok: "create cfg now og deposit min_contribution cap end_block call target s = Inr s'"
  shows "crowdloan_inv cfg s'"
proof (rule createE[OF ok])
  show "services_ok cfg" using env by (simp add: crowdloan_env_ok_def)
  fix a bcall w0 w
  let ?cid = "next_crowdloan_id s"
  assume h: "og = Signed a" "MinimumDeposit cfg \<le> deposit" "deposit < cap"
    "AbsoluteMinimumContribution cfg \<le> min_contribution" "balance cfg w0 = balance cfg (world s)"
    "transfer cfg a (sub_account cfg ?cid) deposit w0 = Inr w"
    and s': "s' = set_contribution ?cid a deposit
      (s\<lparr>next_crowdloan_id := Suc ?cid, crowdloans := (crowdloans s)(?cid \<mapsto>
        \<lparr>cl_creator = a, cl_deposit = deposit, cl_min_contribution = min_contribution, cl_end = end_block,
          cl_cap = cap, cl_funds_account = sub_account cfg ?cid, cl_raised = deposit,
          cl_target_address = target, cl_call = bcall, cl_finalized = False, cl_contributors_count = 1\<rparr>),
        world := w\<rparr>)"
  have a: "user_account cfg a" using og h(1) by simp
  have "crowdloans s ?cid = None" using inv by (simp add: crowdloan_inv_def)
  then have l: "contributions s ?cid = []"
    using crowdloan_inv_loan[OF inv, of ?cid] by (simp add: loan_inv_def)
  show "crowdloan_inv cfg s'"
    by (intro crowdloan_inv_update[OF inv, where cid = ?cid and l = "[(a, deposit)]"])
      (use h a pay_in[OF env h(6) a] l env in
        \<open>auto simp: s' crowdloan_env_ok_def put_crowdloan_def set_contribution_def loan_inv_def info_inv_def smap_wf_def\<close>)
qed

lemma finalizeE:
  assumes "finalize cfg now og cid s = Inr s'"
  obtains a c w s1 where "og = Signed a" "crowdloans s cid = Some c" "a = cl_creator c"
    "cl_end c \<le> now" "cl_raised c = cl_cap c" "\<not> cl_finalized c"
    "case cl_target_address c of None \<Rightarrow> w = world s
      | Some t \<Rightarrow> transfer cfg (cl_funds_account c) t (cl_raised c) (world s) = Inr w"
    "case cl_call c of None \<Rightarrow> s1 = s\<lparr>world := w\<rparr>
      | Some b \<Rightarrow> (\<exists>call s2. preimage_peek cfg b w = Some call \<and>
          dispatch cfg call a (s\<lparr>world := w, current_crowdloan_id := Some cid\<rparr>) = Inr s2 \<and>
          s1 = s2\<lparr>current_crowdloan_id := None\<rparr>)"
    "s' = put_crowdloan cid (c\<lparr>cl_finalized := True\<rparr>) s1"
proof -
  from assms obtain a c where 1: "og = Signed a" "crowdloans s cid = Some c"
    by (auto simp: finalize_def ensure_crowdloan_exists_def)
  from 1 assms obtain s0 s1 where 2: "(case cl_target_address c of
         Some target_address \<Rightarrow>
           pay cfg (cl_funds_account c) target_address (cl_raised c) s
       | None \<Rightarrow> Inr s) = Inr s0"
     "(case cl_call c of
         Some call \<Rightarrow>
           let s = s0\<lparr>current_crowdloan_id := Some cid\<rparr> in
           and_then (ok_or (preimage_peek cfg call (world s)) CallUnavailable) (\<lambda>stored_call.
           and_then (dispatch cfg stored_call a s) (\<lambda>s.
           Inr (s\<lparr>current_crowdloan_id := None\<rparr>)))
       | None \<Rightarrow> Inr s0) = Inr s1"
     "s' = put_crowdloan cid (c\<lparr>cl_finalized := True\<rparr>) s1"
    and 3: "a = cl_creator c" "cl_end c \<le> now" "cl_raised c = cl_cap c" "\<not> cl_finalized c"
    by (auto simp: finalize_def ensure_crowdloan_exists_def)
  from 2(1) have s0: "s0 = s\<lparr>world := world s0\<rparr>"
    and t: "case cl_target_address c of None \<Rightarrow> world s0 = world s
      | Some t \<Rightarrow> transfer cfg (cl_funds_account c) t (cl_raised c) (world s) = Inr (world s0)"
    by (auto split: option.splits)
  have "case cl_call c of None \<Rightarrow> s1 = s\<lparr>world := world s0\<rparr>
      | Some b \<Rightarrow> (\<exists>call s2. preimage_peek cfg b (world s0) = Some call \<and>
          dispatch cfg call a (s\<lparr>world := world s0, current_crowdloan_id := Some cid\<rparr>) = Inr s2 \<and>
          s1 = s2\<lparr>current_crowdloan_id := None\<rparr>)"
    using 2(2) s0 by (auto simp: Let_def split: option.splits)
  with 1 2(3) 3 t show thesis by (intro that)
qed

lemma finalize_inv:
  assumes env: "crowdloan_env_ok cfg ed" and inv: "crowdloan_inv cfg s"
    and ok: "finalize cfg now og cid s = Inr s'"
  shows "crowdloan_inv cfg s'"
  using ok
proof (rule finalizeE)
  fix a c w s1
  assume c: "crowdloans s cid = Some c"
    and t: "case cl_target_address c of None \<Rightarrow> w = world s
      | Some t \<Rightarrow> transfer cfg (cl_funds_account c) t (cl_raised c) (world s) = Inr w"
    and d: "case cl_call c of None \<Rightarrow> s1 = s\<lparr>world := w\<rparr>
      | Some b \<Rightarrow> (\<exists>call s2. preimage_peek cfg b w = Some call \<and>
          dispatch cfg call a (s\<lparr>world := w, current_crowdloan_id := Some cid\<rparr>) = Inr s2 \<and>
          s1 = s2\<lparr>current_crowdloan_id := None\<rparr>)"
    and s': "s' = put_crowdloan cid (c\<lparr>cl_finalized := True\<rparr>) s1"
  note D = crowdloan_invD[OF inv c]
  have w: "balance cfg (world s) (sub_account cfg i) \<le> balance cfg w (sub_account cfg i)" if "i \<noteq> cid" for i
    using t pay_out_other[OF env _ that] D(4) by (auto split: option.splits)
  have call: "call_ok cfg" using env by (simp add: crowdloan_env_ok_def)
  have s1: "crowdloans s1 = crowdloans s" "next_crowdloan_id s1 = next_crowdloan_id s"
      "contributions s1 = contributions s"
    using d call by (auto simp: call_ok_def split: option.splits)
  have b1: "balance cfg w (sub_account cfg i) \<le> balance cfg (world s1) (sub_account cfg i)" if "i \<noteq> cid" for i
    using d call that by (fastforce simp: call_ok_def split: option.splits)
  show "crowdloan_inv cfg s'"
  proof (rule crowdloan_inv_update[OF inv, where cid = cid and x = "Some (c\<lparr>cl_finalized := True\<rparr>)"
        and l = "contributions s cid"])
    show "loan_inv cfg cid (Some (c\<lparr>cl_finalized := True\<rparr>)) (contributions s cid)
        (balance cfg (world s') (sub_account cfg cid))"
      using D by (simp add: loan_inv_def info_inv_def)
  qed (use D(5) order_trans[OF w b1] in \<open>auto simp: s' s1 put_crowdloan_def\<close>)
qed

lemma dissolveE:
  assumes "dissolve cfg og cid s = Inr s'"
  obtains c w where "og = Signed (cl_creator c)" "crowdloans s cid = Some c" "\<not> cl_finalized c"
    "map_of (contributions s cid) (cl_creator c) = Some (cl_raised c)"
    "transfer cfg (cl_funds_account c) (cl_creator c) (cl_raised c) (world s) = Inr w"
    "crowdloans s' = (crowdloans s)(cid := None)" "next_crowdloan_id s' = next_crowdloan_id s"
    "contributions s' = (contributions s)(cid := smap_del (cl_creator c) (contributions s cid))"
    "world s' = dec_providers cfg (cl_funds_account c)
      (case cl_call c of Some b \<Rightarrow> preimage_drop cfg b w | None \<Rightarrow> w)"
proof -
  from assms obtain c where c: "crowdloans s cid = Some c"
    by (auto simp: dissolve_def ensure_crowdloan_exists_def)
  with assms show thesis
    by (clarsimp simp: dissolve_def ensure_crowdloan_exists_def contribution_of_def Let_def)
      (rule that[of c], simp_all add: remove_contribution_def)
qed

lemma dissolve_inv:
  assumes env: "crowdloan_env_ok cfg ed" and inv: "crowdloan_inv cfg s"
    and ok: "dissolve cfg og cid s = Inr s'"
  shows "crowdloan_inv cfg s'"
  using ok
proof (rule dissolveE)
  fix c w
  assume c: "crowdloans s cid = Some c"
    and eq: "map_of (contributions s cid) (cl_creator c) = Some (cl_raised c)"
    and t: "transfer cfg (cl_funds_account c) (cl_creator c) (cl_raised c) (world s) = Inr w"
    and s': "crowdloans s' = (crowdloans s)(cid := None)" "next_crowdloan_id s' = next_crowdloan_id s"
      "contributions s' = (contributions s)(cid := smap_del (cl_creator c) (contributions s cid))"
      "world s' = dec_providers cfg (cl_funds_account c)
         (case cl_call c of Some b \<Rightarrow> preimage_drop cfg b w | None \<Rightarrow> w)"
  note D = crowdloan_invD[OF inv c]
  let ?l' = "smap_del (cl_creator c) (contributions s cid)"
  have "smap_sum ?l' = 0"
    using smap_del_present[OF D(1) eq] D(3) by (simp add: info_inv_def)
  moreover have "0 < snd p" if "p \<in> set ?l'" for p
    using that D(3) by (auto simp: info_inv_def smap_del_def)
  ultimately have l': "?l' = []" by (cases ?l') fastforce+
  have "balance cfg (world s') = balance cfg w"
    using env by (auto simp: s' crowdloan_env_ok_def services_ok_def split: option.splits)
  then show "crowdloan_inv cfg s'"
    using t D(4) s' l'
    by (intro crowdloan_inv_update[OF inv, where cid = cid and x = None and l = "[]"])
      (auto simp: loan_inv_def intro: pay_out_other[OF env])
qed

lemma updates_inv:
  assumes inv: "crowdloan_inv cfg s" and env: "crowdloan_env_ok cfg ed"
  shows "update_min_contribution cfg og cid x s = Inr s' \<Longrightarrow> crowdloan_inv cfg s'"
    "update_end cfg now og cid x s = Inr s' \<Longrightarrow> crowdloan_inv cfg s'"
    "update_cap cfg og cid x s = Inr s' \<Longrightarrow> crowdloan_inv cfg s'"
proof -
  have *: "crowdloan_inv cfg (put_crowdloan cid c' s)"
    if "crowdloans s cid = Some c"
      "info_inv cfg cid c' (contributions s cid) (balance cfg (world s) (sub_account cfg cid))" for c c'
    using crowdloan_invD[OF inv that(1)] that(2)
    by (intro crowdloan_inv_update[OF inv, where cid = cid and x = "Some c'" and l = "contributions s cid"])
      (auto simp: put_crowdloan_def loan_inv_def)
  show "update_min_contribution cfg og cid x s = Inr s' \<Longrightarrow> crowdloan_inv cfg s'"
    using env by (auto simp: update_min_contribution_def ensure_crowdloan_exists_def crowdloan_env_ok_def info_inv_def
        dest: crowdloan_invD(3)[OF inv] intro!: *)
  show "update_end cfg now og cid x s = Inr s' \<Longrightarrow> crowdloan_inv cfg s'"
    by (auto simp: update_end_def ensure_crowdloan_exists_def info_inv_def
        dest: crowdloan_invD(3)[OF inv] intro!: *)
  show "update_cap cfg og cid x s = Inr s' \<Longrightarrow> crowdloan_inv cfg s'"
    by (auto simp: update_cap_def ensure_crowdloan_exists_def info_inv_def
        dest: crowdloan_invD(3)[OF inv] intro!: *)
qed

lemma crowdloan_exec_inv:
  assumes "crowdloan_env_ok cfg ed" "crowdloan_inv cfg s" "user_origin cfg og"
    "crowdloan_exec cfg now og call s = Inr s'"
  shows "crowdloan_inv cfg s'"
  using assms
  by (cases call) (auto intro: create_inv contribute_inv withdraw_inv finalize_inv refund_inv dissolve_inv updates_inv)

lemma crowdloan_step_inv:
  assumes "crowdloan_env_ok cfg ed" "crowdloan_inv cfg s" "crowdloan_step cfg s s'"
  shows "crowdloan_inv cfg s'"
  using assms(3,2)
proof cases
  case (call og now c)
  with assms(1,2) show ?thesis by (blast intro: crowdloan_exec_inv)
next
  case (environment w)
  with assms(2) show ?thesis by (auto simp: crowdloan_inv_def intro: loan_inv_mono)
qed

interpretation crowdloan: invariant_system
  "\<lambda>s. crowdloan_env_ok cfg ed \<and> crowdloan_initial s"
  "\<lambda>s s'. crowdloan_env_ok cfg ed \<and> crowdloan_step cfg s s'"
  "crowdloan_inv cfg"
  for cfg :: "('a::linorder, 'b, 'c, 'w) crowdloan_config" and ed
proof (unfold_locales, goal_cases)
  case (1 s)
  then show ?case by (simp add: crowdloan_inv_def crowdloan_initial_def loan_inv_def)
next
  case (2 s t)
  then show ?case by (blast intro: crowdloan_step_inv)
qed

lemma crowdloan_reachable:
  assumes "crowdloan_env_ok cfg ed" "crowdloan_initial s" "(crowdloan_step cfg)\<^sup>*\<^sup>* s t"
  shows "crowdloan_inv cfg t"
  using crowdloan.reachable_invar[of cfg ed s t] assms by simp

section \<open>Finalized crowdloans\<close>

definition finalized_as :: "crowdloan_id \<Rightarrow> ('a, 'b) crowdloan_info \<Rightarrow> ('a \<times> nat) list \<Rightarrow> ('a, 'b, 'w) crowdloan_state \<Rightarrow> bool" where
  "finalized_as cid c l s \<longleftrightarrow>
     crowdloans s cid = Some c \<and> contributions s cid = l \<and> cl_finalized c \<and> cl_raised c = cl_cap c"

lemma finalized_as_exec:
  assumes env: "crowdloan_env_ok cfg ed" and inv: "crowdloan_inv cfg s" and f: "finalized_as cid c l s"
    and ok: "crowdloan_exec cfg now og call s = Inr s'"
  shows "finalized_as cid c l s'"
proof -
  have lim: "RefundContributorsLimit cfg \<le> u32_max" and sv: "services_ok cfg" and co: "call_ok cfg"
    using env by (simp_all add: crowdloan_env_ok_def)
  have nx: "cid \<noteq> next_crowdloan_id s"
    using f crowdloan_exists_bound[OF inv] by (auto simp: finalized_as_def)
  show ?thesis
  proof (cases call)
    case (Create d m cap e c t)
    with ok have "create cfg now og d m cap e c t s = Inr s'" by simp
    from this sv show ?thesis
      by (rule createE) (use f nx in \<open>simp add: finalized_as_def set_contribution_def\<close>)
  next
    case (Contribute i x)
    with ok have "contribute cfg now og i x s = Inr s'" by simp
    then show ?thesis
      by (rule contributeE) (use f in \<open>auto simp: finalized_as_def put_crowdloan_def set_contribution_def\<close>)
  next
    case (Withdraw i)
    with ok have "withdraw cfg og i s = Inr s'" by simp
    then show ?thesis
      by (rule withdrawE)
        (use f in \<open>auto simp: finalized_as_def put_crowdloan_def set_contribution_def remove_contribution_def\<close>)
  next
    case (Finalize i)
    with ok have fin: "finalize cfg now og i s = Inr s'" by simp
    from fin show ?thesis
    proof (rule finalizeE)
      fix a c0 w s1
      assume h: "crowdloans s i = Some c0" "\<not> cl_finalized c0"
        "case cl_call c0 of None \<Rightarrow> s1 = s\<lparr>world := w\<rparr>
          | Some b \<Rightarrow> (\<exists>call s2. preimage_peek cfg b w = Some call \<and>
              dispatch cfg call a (s\<lparr>world := w, current_crowdloan_id := Some i\<rparr>) = Inr s2 \<and>
              s1 = s2\<lparr>current_crowdloan_id := None\<rparr>)"
        "s' = put_crowdloan i (c0\<lparr>cl_finalized := True\<rparr>) s1"
      have "crowdloans s1 = crowdloans s" "contributions s1 = contributions s"
        using h(3) co by (auto simp: call_ok_def split: option.splits)
      with h(1,2,4) f show ?thesis by (auto simp: finalized_as_def put_crowdloan_def)
    qed
  next
    case (Refund i)
    with ok have "refund cfg now og i s = Inr s'" by simp
    from this lim show ?thesis by (rule refundE) (use f in \<open>auto simp: finalized_as_def\<close>)
  next
    case (Dissolve i)
    with ok have "dissolve cfg og i s = Inr s'" by simp
    then show ?thesis by (rule dissolveE) (use f in \<open>auto simp: finalized_as_def\<close>)
  qed (use ok f in \<open>auto simp: finalized_as_def put_crowdloan_def ensure_crowdloan_exists_def
      update_min_contribution_def update_end_def update_cap_def\<close>)
qed

lemma finalized_as_step:
  assumes "crowdloan_env_ok cfg ed" "crowdloan_inv cfg s" "crowdloan_step cfg s s'" "finalized_as cid c l s"
  shows "finalized_as cid c l s'"
  using assms(3)
proof cases
  case (call og now c)
  with assms show ?thesis by (blast intro: finalized_as_exec)
next
  case (environment w)
  with assms(4) show ?thesis by (simp add: finalized_as_def)
qed

section \<open>Refunding everybody\<close>

fun refund_times ::
    "('a::linorder, 'b, 'c, 'w) crowdloan_config \<Rightarrow> nat \<Rightarrow> 'a origin \<Rightarrow> crowdloan_id \<Rightarrow> nat \<Rightarrow>
     ('a, 'b, 'w) crowdloan_state \<Rightarrow> (crowdloan_error, ('a, 'b, 'w) crowdloan_state) result" where
  "refund_times cfg now og cid 0 s = Inr s"
| "refund_times cfg now og cid (Suc k) s = and_then (refund cfg now og cid s) (refund_times cfg now og cid k)"

text \<open>A run of payments gives every receiver the total of what the list has for it.\<close>

lemma pays_receivers:
  assumes env: "crowdloan_env_ok cfg ed"
    and "pays cfg (sub_account cfg cid) L w = Inr w'" "distinct (map fst L)"
    and "\<And>p. p \<in> set L \<Longrightarrow> user_account cfg (fst p)" "user_account cfg a"
  shows "balance cfg w' a = balance cfg w a + (case map_of L a of None \<Rightarrow> 0 | Some n \<Rightarrow> n)"
  using assms(2-)
proof (induction L arbitrary: w)
  case (Cons p L)
  obtain b n where p: "p = (b, n)" by (cases p)
  from Cons.prems obtain w1 where w1: "transfer cfg (sub_account cfg cid) b n w = Inr w1"
    "pays cfg (sub_account cfg cid) L w1 = Inr w'" by (auto simp: p)
  have ne: "sub_account cfg cid \<noteq> b" "sub_account cfg cid \<noteq> a"
    using Cons.prems(3)[of p] Cons.prems(4) by (auto simp: user_account_def p)
  have IH: "balance cfg w' a = balance cfg w1 a + (case map_of L a of None \<Rightarrow> 0 | Some n \<Rightarrow> n)"
    by (rule Cons.IH[OF w1(2)]) (use Cons.prems in auto)
  show ?case
  proof (cases "a = b")
    case True
    with Cons.prems(2) have "map_of L a = None" by (simp add: p map_of_eq_None_iff)
    with IH transfer_law(2)[OF env w1(1) ne(1)] True show ?thesis by (simp add: p)
  next
    case False
    with IH transfer_law(4)[OF env w1(1) ne(1), of a] ne(2) show ?thesis by (simp add: p)
  qed
qed simp

lemma refund_progress:
  assumes env: "crowdloan_env_ok cfg ed" and inv: "crowdloan_inv cfg s"
    and ok: "refund cfg now og cid s = Inr s'" and c: "crowdloans s cid = Some c"
  obtains c' where "crowdloans s' cid = Some c'" "cl_creator c' = cl_creator c"
    "refundable s' cid c' = drop (RefundContributorsLimit cfg) (refundable s cid c)"
    "contribution_of s' cid (cl_creator c) = contribution_of s cid (cl_creator c)"
    "\<forall>a. user_account cfg a \<longrightarrow>
      balance cfg (world s') a + prior s' cid a = balance cfg (world s) a + prior s cid a"
proof -
  have lim: "RefundContributorsLimit cfg \<le> u32_max" using env by (simp add: crowdloan_env_ok_def)
  let ?T = "refund_batch cfg s cid c"
  let ?l = "contributions s cid"
  let ?c' = "c\<lparr>cl_raised := cl_raised c - smap_sum ?T, cl_contributors_count := cl_contributors_count c - length ?T\<rparr>"
  note D = crowdloan_invD[OF inv c]
  obtain a0 c0 w where "og = Signed a0" and c0: "crowdloans s cid = Some c0" and "cl_end c0 \<le> now"
    and "\<not> cl_finalized c0"
    and t: "pays cfg (cl_funds_account c0) (refund_batch cfg s cid c0) (world s) = Inr w"
    and "length (refund_batch cfg s cid c0) \<le> cl_contributors_count c0"
    and s': "s' = s\<lparr>world := w,
        crowdloans := (crowdloans s)(cid \<mapsto> c0\<lparr>cl_raised := cl_raised c0 - smap_sum (refund_batch cfg s cid c0),
          cl_contributors_count := cl_contributors_count c0 - length (refund_batch cfg s cid c0)\<rparr>),
        contributions := (contributions s)(cid :=
          filter (\<lambda>p. fst p \<notin> fst ` set (refund_batch cfg s cid c0)) (contributions s cid))\<rparr>"
    using refundE[OF ok lim] .
  have [simp]: "c0 = c" using c c0 by simp
  have dl: "distinct (map fst ?l)" using D(1) by (simp add: smap_wf_def)
  then have dr: "distinct (map fst (refundable s cid c))"
    unfolding refundable_def by (rule distinct_map_filter)
  then have dT: "distinct (map fst ?T)" by (simp add: refund_batch_def flip: take_map)
  have T: "set ?T \<subseteq> set ?l" "cl_creator c \<notin> fst ` set ?T"
    by (auto simp: refund_batch_def refundable_def dest!: in_set_takeD)
  have r': "refundable s' cid ?c' = drop (RefundContributorsLimit cfg) (refundable s cid c)"
    using filter_not_taken[OF dr, of "RefundContributorsLimit cfg"]
    by (simp add: s' refundable_def refund_batch_def conj_commute)
  have co: "contribution_of s' cid a = (if a \<in> fst ` set ?T then None else contribution_of s cid a)" for a
    using map_of_filter_key[of "\<lambda>k. k \<notin> fst ` set ?T" ?l a] by (simp add: s' contribution_of_def)
  have mT: "map_of ?T a = (if a \<in> fst ` set ?T then map_of ?l a else None)" for a
  proof (cases "a \<in> fst ` set ?T")
    case True
    then obtain n where "(a, n) \<in> set ?T" by auto
    with T(1) dl dT show ?thesis by (auto simp: True)
  qed (simp add: map_of_eq_None_iff)
  have b: "balance cfg (world s') a + prior s' cid a = balance cfg (world s) a + prior s cid a"
    if "user_account cfg a" for a
  proof -
    have "balance cfg w a = balance cfg (world s) a + (case map_of ?T a of None \<Rightarrow> 0 | Some n \<Rightarrow> n)"
      using t D(4) subsetD[OF T(1)] by (intro pays_receivers[OF env _ dT D(2) that]) simp_all
    moreover have "world s' = w" by (simp add: s')
    ultimately show ?thesis by (simp add: prior_def co mT) (simp add: contribution_of_def)
  qed
  show thesis by (rule that[of ?c']) (use r' co T(2) b in \<open>auto simp: s'\<close>)
qed

lemma refund_times_progress:
  assumes env: "crowdloan_env_ok cfg ed" and "crowdloan_inv cfg s"
    and "refund_times cfg now og cid k s = Inr s'" and "crowdloans s cid = Some c"
  obtains c' where "crowdloan_inv cfg s'" "crowdloans s' cid = Some c'" "cl_creator c' = cl_creator c"
    "refundable s' cid c' = drop (k * RefundContributorsLimit cfg) (refundable s cid c)"
    "contribution_of s' cid (cl_creator c) = contribution_of s cid (cl_creator c)"
    "\<forall>a. user_account cfg a \<longrightarrow>
      balance cfg (world s') a + prior s' cid a = balance cfg (world s) a + prior s cid a"
  using assms(2-)
proof (induction k arbitrary: s c thesis)
  case 0
  then show ?case by simp
next
  case (Suc k)
  from Suc.prems(3) obtain s1 where s1: "refund cfg now og cid s = Inr s1"
    "refund_times cfg now og cid k s1 = Inr s'" by auto
  obtain c1 where c1: "crowdloans s1 cid = Some c1" "cl_creator c1 = cl_creator c"
    "refundable s1 cid c1 = drop (RefundContributorsLimit cfg) (refundable s cid c)"
    "contribution_of s1 cid (cl_creator c) = contribution_of s cid (cl_creator c)"
    "\<forall>a. user_account cfg a \<longrightarrow>
      balance cfg (world s1) a + prior s1 cid a = balance cfg (world s) a + prior s cid a"
    using refund_progress[OF env Suc.prems(2) s1(1) Suc.prems(4)] .
  show ?case
  proof (rule Suc.IH[OF _ refund_inv[OF env Suc.prems(2) s1(1)] s1(2) c1(1)])
    fix c'
    assume h: "crowdloan_inv cfg s'" "crowdloans s' cid = Some c'" "cl_creator c' = cl_creator c1"
      "refundable s' cid c' = drop (k * RefundContributorsLimit cfg) (refundable s1 cid c1)"
      "contribution_of s' cid (cl_creator c1) = contribution_of s1 cid (cl_creator c1)"
      "\<forall>a. user_account cfg a \<longrightarrow>
        balance cfg (world s') a + prior s' cid a = balance cfg (world s1) a + prior s1 cid a"
    show thesis
      by (rule Suc.prems(1)[of c']) (use h c1 in \<open>auto simp: add.commute\<close>)
  qed
qed

section \<open>A concrete environment\<close>

text \<open>
  An instance of the parameters, to run the pallet on: accounts are numbers, the funds account
  of crowdloan \<open>i\<close> is \<open>2 * i + 1\<close>, a world is the function of balances, and the
  existential deposit is 2. The dispatched call does nothing.
\<close>

definition sample_transfer :: "nat \<Rightarrow> nat \<Rightarrow> nat \<Rightarrow> (nat \<Rightarrow> nat) \<Rightarrow> (crowdloan_error, nat \<Rightarrow> nat) result" where
  "sample_transfer a b n w =
     (if w a < n then Inl (External ''FundsUnavailable'')
      else if a = b then Inr w
      else Inr (w(a := (if w a - n < 2 then 0 else w a - n), b := w b + n)))"

definition sample_config :: "(nat, nat, nat, nat \<Rightarrow> nat) crowdloan_config" where
  "sample_config = \<lparr>MinimumDeposit = 10, AbsoluteMinimumContribution = 3, MinimumBlockDuration = 5,
     MaximumBlockDuration = 100, RefundContributorsLimit = 2, MaxContributors = 10,
     sub_account = (\<lambda>i. 2 * i + 1), balance = (\<lambda>w. w), transfer = sample_transfer,
     inc_providers = (\<lambda>a w. w), dec_providers = (\<lambda>a w. w), preimage_bound = (\<lambda>c w. Inr (c, w)),
     preimage_peek = (\<lambda>b w. Some b), preimage_drop = (\<lambda>b w. w), dispatch = (\<lambda>c who s. Inr s)\<rparr>"

definition sample_initial :: "(nat, nat, nat \<Rightarrow> nat) crowdloan_state" where
  "sample_initial = \<lparr>crowdloans = (\<lambda>_. None), next_crowdloan_id = 0, contributions = (\<lambda>_. []),
     current_crowdloan_id = None, world = (\<lambda>a. if even a then 100 else 0)\<rparr>"

text \<open>A sequence of signed calls, each at its block; the result of the last successful one.\<close>

fun crowdloan_run ::
    "('a::linorder, 'b, 'c, 'w) crowdloan_config \<Rightarrow> (nat \<times> 'a \<times> ('a, 'c) crowdloan_call) list \<Rightarrow>
     ('a, 'b, 'w) crowdloan_state \<Rightarrow> (crowdloan_error, ('a, 'b, 'w) crowdloan_state) result" where
  "crowdloan_run cfg [] s = Inr s"
| "crowdloan_run cfg ((now, a, c) # cs) s =
     and_then (crowdloan_exec cfg now (Signed a) c s) (crowdloan_run cfg cs)"

lemma crowdloan_run_steps:
  "crowdloan_run cfg cs s = Inr t \<Longrightarrow> \<forall>(now, a, c) \<in> set cs. user_account cfg a \<Longrightarrow>
     (crowdloan_step cfg)\<^sup>*\<^sup>* s t"
proof (induction cs arbitrary: s)
  case (Cons x cs)
  obtain now a c where x: "x = (now, a, c)" by (cases x)
  from Cons.prems obtain s1 where s1: "crowdloan_exec cfg now (Signed a) c s = Inr s1"
    "crowdloan_run cfg cs s1 = Inr t" by (auto simp: x)
  have "crowdloan_step cfg s s1" using s1(1) Cons.prems(2) by (intro crowdloan_step.call) (auto simp: x)
  moreover have "(crowdloan_step cfg)\<^sup>*\<^sup>* s1 t" using Cons s1(2) by simp
  ultimately show ?case by (rule converse_rtranclp_into_rtranclp)
qed simp

lemma sample_env_ok: "crowdloan_env_ok sample_config 2"
  unfolding crowdloan_env_ok_def currency_ok_def services_ok_def call_ok_def
  by (auto simp: sample_config_def sample_transfer_def inj_def u32_max_def split: if_splits)

lemma sample_user: "user_account sample_config a \<longleftrightarrow> even a"
  unfolding user_account_def by (simp add: sample_config_def) (metis Suc_eq_plus1 even_Suc dvd_triv_left oddE)

lemma sample_initial_ok: "crowdloan_initial sample_initial"
  by (simp add: crowdloan_initial_def sample_initial_def)

lemmas crowdloan_run_rules = guard_rules pay_Inr checked_add_Some checked_sub_Some

lemmas crowdloan_eval = sample_config_def sample_initial_def sample_transfer_def create_def
  contribute_def withdraw_def refund_def dissolve_def finalize_def funds_account_def
  ensure_crowdloan_exists_def ensure_valid_end_def contribution_of_def set_contribution_def
  remove_contribution_def put_crowdloan_def pay_def checked_add_def checked_sub_def Let_def
  smap_del_def u32_max_def u64_max_def

section \<open>Properties\<close>



text \<open>When a crowdloan is refunded by as many successful \<open>refund\<close> calls as its number
  of contributors needs, every user except the creator gets back exactly what they had put in,
  the only contribution left is the creator's, and it equals the raised amount, which is the
  condition that \<open>dissolve\<close> checks.\<close>

theorem refund_complete:
  assumes "crowdloan_env_ok cfg ed" "crowdloan_inv cfg s" "crowdloans s cid = Some c"
    and "refund_times cfg now og cid k s = Inr s'"
    and "length (contributions s cid) \<le> Suc (k * RefundContributorsLimit cfg)"
  shows "\<exists>c' v. crowdloans s' cid = Some c' \<and> contributions s' cid = [(cl_creator c, v)]
    \<and> v = prior s cid (cl_creator c) \<and> cl_raised c' = v
    \<and> (\<forall>a. user_account cfg a \<and> a \<noteq> cl_creator c \<longrightarrow>
        balance cfg (world s') a = balance cfg (world s) a + prior s cid a)"
proof -
  obtain c' where inv': "crowdloan_inv cfg s'" and c': "crowdloans s' cid = Some c'" "cl_creator c' = cl_creator c"
    and r: "refundable s' cid c' = drop (k * RefundContributorsLimit cfg) (refundable s cid c)"
    and co: "contribution_of s' cid (cl_creator c) = contribution_of s cid (cl_creator c)"
    and b: "\<forall>a. user_account cfg a \<longrightarrow>
      balance cfg (world s') a + prior s' cid a = balance cfg (world s) a + prior s cid a"
    using refund_times_progress[OF assms(1,2,4,3)] .
  note D = crowdloan_invD[OF assms(2,3)] and D' = crowdloan_invD[OF inv' c'(1)]
  obtain v where v: "map_of (contributions s cid) (cl_creator c) = Some v"
    using D(3) by (auto simp: info_inv_def)
  have "length (refundable s cid c) < length (contributions s cid)"
    using v unfolding refundable_def by (intro length_filter_less[of "(cl_creator c, v)"]) (auto dest: map_of_SomeD)
  with r assms(5) have "refundable s' cid c' = []" by simp
  then have "set (contributions s' cid) \<subseteq> {p. fst p = cl_creator c}"
    using c'(2) by (auto simp: refundable_def filter_empty_conv)
  moreover have v': "map_of (contributions s' cid) (cl_creator c) = Some v"
    using co v by (simp add: contribution_of_def)
  ultimately have l': "contributions s' cid = [(cl_creator c, v)]"
    using D'(1) by (intro smap_singleton) auto
  then show ?thesis using b c'(1) D'(3) v
    by (auto simp: prior_def contribution_of_def info_inv_def)
qed

theorem refund_complete_witness:
  "\<exists>s s'. crowdloan_run sample_config
      [(1, 0, Create 10 3 40 50 None None), (2, 2, Contribute 0 4), (3, 4, Contribute 0 5),
       (4, 6, Contribute 0 6)] sample_initial = Inr s \<and>
    refund_times sample_config 50 (Signed 8) 0 (Suc (Suc 0)) s = Inr s' \<and>
    contributions s' 0 = [(0, 10)] \<and> world s' 4 = world s 4 + 5"
proof -
  obtain s where s: "crowdloan_run sample_config
      [(1, 0, Create 10 3 40 50 None None), (2, 2, Contribute 0 4), (3, 4, Contribute 0 5),
       (4, 6, Contribute 0 6)] sample_initial = Inr s"
    and f: "contributions s 0 = [(0, 10), (2, 4), (4, 5), (6, 6)]"
      "\<exists>c. crowdloans s 0 = Some c \<and> cl_creator c = 0"
      "\<exists>s'. refund_times sample_config 50 (Signed 8) 0 (Suc (Suc 0)) s = Inr s'"
    by (simp add: crowdloan_eval del: crowdloan_run_rules)
  from f(2,3) obtain c s' where c: "crowdloans s 0 = Some c" "cl_creator c = 0"
    and s': "refund_times sample_config 50 (Signed 8) 0 (Suc (Suc 0)) s = Inr s'" by blast
  have "(crowdloan_step sample_config)\<^sup>*\<^sup>* sample_initial s"
    by (rule crowdloan_run_steps[OF s]) (simp add: sample_user)
  then have inv: "crowdloan_inv sample_config s"
    by (rule crowdloan_reachable[OF sample_env_ok sample_initial_ok])
  have cfg: "RefundContributorsLimit sample_config = 2" "balance sample_config = (\<lambda>w. w)"
    by (simp_all add: sample_config_def)
  have "contributions s' 0 = [(0, prior s 0 0)]"
    and "user_account sample_config 4 \<and> (4 :: nat) \<noteq> 0 \<longrightarrow> world s' 4 = world s 4 + prior s 0 4"
    using refund_complete[OF sample_env_ok inv c(1) s'] f(1) c(2) unfolding cfg by auto
  then have "contributions s' 0 = [(0, 10)] \<and> world s' 4 = world s 4 + 5"
    by (simp add: sample_user prior_def contribution_of_def f(1))
  with s s' show ?thesis by blast
qed

text \<open>A finalized crowdloan that raised its cap never changes again: no later call and no
  change of the rest of the chain alters its record or its contributions.\<close>

theorem finalized_frozen:
  assumes "crowdloan_env_ok cfg ed" "crowdloan_inv cfg s" "finalize cfg now og cid s = Inr s1"
    and "(crowdloan_step cfg)\<^sup>*\<^sup>* s1 t"
  shows "\<exists>c. crowdloans s cid = Some c \<and> og = Signed (cl_creator c) \<and> cl_end c \<le> now \<and>
    cl_raised c = cl_cap c \<and> \<not> cl_finalized c \<and>
    crowdloans t cid = Some (c\<lparr>cl_finalized := True\<rparr>) \<and> contributions t cid = contributions s cid"
  using assms(3)
proof (rule finalizeE)
  fix a c w s2
  assume h: "og = Signed a" "crowdloans s cid = Some c" "a = cl_creator c" "cl_end c \<le> now"
    "cl_raised c = cl_cap c" "\<not> cl_finalized c" "s1 = put_crowdloan cid (c\<lparr>cl_finalized := True\<rparr>) s2"
    and d: "case cl_call c of None \<Rightarrow> s2 = s\<lparr>world := w\<rparr>
      | Some b \<Rightarrow> (\<exists>call s3. preimage_peek cfg b w = Some call \<and>
          dispatch cfg call a (s\<lparr>world := w, current_crowdloan_id := Some cid\<rparr>) = Inr s3 \<and>
          s2 = s3\<lparr>current_crowdloan_id := None\<rparr>)"
  have "contributions s2 = contributions s"
    using d assms(1) by (auto simp: crowdloan_env_ok_def call_ok_def split: option.splits)
  then have "finalized_as cid (c\<lparr>cl_finalized := True\<rparr>) (contributions s cid) s1"
    using h(5,7) by (simp add: finalized_as_def put_crowdloan_def)
  moreover have "crowdloan_inv cfg s1" using finalize_inv[OF assms(1-3)] .
  ultimately have "finalized_as cid (c\<lparr>cl_finalized := True\<rparr>) (contributions s cid) t"
    using crowdloan.stable_steps[of cfg ed "finalized_as cid (c\<lparr>cl_finalized := True\<rparr>) (contributions s cid)" s1 t]
      assms(1,4) finalized_as_step[OF assms(1)] by simp
  with h show ?thesis by (auto simp: finalized_as_def)
qed

theorem finalized_frozen_witness:
  "\<exists>s s1 s2. crowdloan_run sample_config
      [(1, 0, Create 10 3 20 50 None (Some 8)), (2, 2, Contribute 0 30)] sample_initial = Inr s \<and>
    finalize sample_config 50 (Signed 0) 0 s = Inr s1 \<and>
    crowdloan_run sample_config [(51, 4, Create 10 3 20 99 None None)] s1 = Inr s2 \<and>
    crowdloans s2 0 = map_option (\<lambda>c. c\<lparr>cl_finalized := True\<rparr>) (crowdloans s 0)"
proof -
  obtain s where s: "crowdloan_run sample_config
      [(1, 0, Create 10 3 20 50 None (Some 8)), (2, 2, Contribute 0 30)] sample_initial = Inr s"
    and f: "\<exists>s1 s2. finalize sample_config 50 (Signed 0) 0 s = Inr s1 \<and>
      crowdloan_run sample_config [(51, 4, Create 10 3 20 99 None None)] s1 = Inr s2"
    by (simp add: crowdloan_eval del: crowdloan_run_rules)
  from f obtain s1 s2 where s1: "finalize sample_config 50 (Signed 0) 0 s = Inr s1"
    and s2: "crowdloan_run sample_config [(51, 4, Create 10 3 20 99 None None)] s1 = Inr s2" by blast
  have "(crowdloan_step sample_config)\<^sup>*\<^sup>* sample_initial s"
    by (rule crowdloan_run_steps[OF s]) (simp add: sample_user)
  then have inv: "crowdloan_inv sample_config s"
    by (rule crowdloan_reachable[OF sample_env_ok sample_initial_ok])
  have "(crowdloan_step sample_config)\<^sup>*\<^sup>* s1 s2"
    by (rule crowdloan_run_steps[OF s2]) (simp add: sample_user)
  from finalized_frozen[OF sample_env_ok inv s1 this] s s1 s2 show ?thesis by auto
qed

text \<open>A contribution of a new contributor followed by a withdrawal of the same account leaves
  the crowdloan, its contributions and the balance of its funds account exactly as they were.\<close>

theorem contribute_withdraw_roundtrip:
  assumes "crowdloan_env_ok cfg ed" "crowdloan_inv cfg s" "user_account cfg a"
    and "crowdloans s cid = Some c" "a \<noteq> cl_creator c" "contribution_of s cid a = None" "\<not> cl_finalized c"
    and "contribute cfg now (Signed a) cid amount s = Inr s1" "withdraw cfg (Signed a) cid s1 = Inr s2"
  shows "crowdloans s2 = crowdloans s \<and> contributions s2 = contributions s
    \<and> balance cfg (world s2) (funds_account cfg cid) = balance cfg (world s) (funds_account cfg cid)"
proof -
  note env = assms(1)
  note D = crowdloan_invD[OF assms(2,4)]
  have inv1: "crowdloan_inv cfg s1"
    using contribute_inv[OF env assms(2) _ assms(8)] assms(3) by simp
  let ?x = "accepted c amount"
  obtain w where t1: "transfer cfg a (sub_account cfg cid) ?x (world s) = Inr w"
    and s1: "s1 = put_crowdloan cid (c\<lparr>cl_raised := cl_raised c + ?x,
        cl_contributors_count := cl_contributors_count c + 1\<rparr>) (set_contribution cid a ?x (s\<lparr>world := w\<rparr>))"
    using assms(8) by (rule contributeE) (use assms(4,6) D(4) in \<open>auto simp: prior_def\<close>)
  let ?c1 = "c\<lparr>cl_raised := cl_raised c + ?x, cl_contributors_count := cl_contributors_count c + 1\<rparr>"
  have c1: "crowdloans s1 cid = Some ?c1" by (simp add: s1 put_crowdloan_def)
  have wd: "withdrawable s1 cid ?c1 a = ?x"
    using assms(5) D(1) by (simp add: withdrawable_def prior_def contribution_of_def s1 put_crowdloan_def
        set_contribution_def)
  obtain w2 where t2: "transfer cfg (sub_account cfg cid) a ?x (world s1) = Inr w2"
    and s2: "s2 = put_crowdloan cid (?c1\<lparr>cl_contributors_count := cl_contributors_count c,
        cl_raised := cl_raised c\<rparr>) (remove_contribution cid a (s1\<lparr>world := w2\<rparr>))"
    using assms(9) by (rule withdrawE) (use c1 wd assms(5) D(4) in auto)
  have w1: "world s1 = w" by (simp add: s1 put_crowdloan_def set_contribution_def)
  have b1: "balance cfg w (sub_account cfg cid) = balance cfg (world s) (sub_account cfg cid) + ?x"
    using pay_in[OF env t1 assms(3), of cid] by simp
  have "ed \<le> balance cfg w (sub_account cfg cid) - ?x"
    using creator_share(2)[OF D(3)] D(3) assms(7) env b1 by (auto simp: info_inv_def crowdloan_env_ok_def)
  then have b2: "balance cfg w2 (sub_account cfg cid) = balance cfg (world s) (sub_account cfg cid)"
    using pay_out[OF env t2 assms(3), of cid] b1 w1 by simp
  have "a \<notin> fst ` set (contributions s cid)"
    using assms(6) by (simp add: contribution_of_def map_of_eq_None_iff)
  then show ?thesis
    using b2 assms(4)
    by (auto simp: s2 s1 put_crowdloan_def remove_contribution_def set_contribution_def smap_del_put
        funds_account_def fun_upd_idem_iff)
qed

theorem contribute_withdraw_roundtrip_witness:
  "\<exists>s s1 s2. crowdloan_run sample_config [(1, 0, Create 10 3 20 50 None None)] sample_initial = Inr s \<and>
    contribute sample_config 2 (Signed 2) 0 30 s = Inr s1 \<and>
    withdraw sample_config (Signed 2) 0 s1 = Inr s2 \<and> contributions s1 0 \<noteq> contributions s 0 \<and>
    crowdloans s2 = crowdloans s \<and> contributions s2 = contributions s"
proof -
  obtain s where s: "crowdloan_run sample_config [(1, 0, Create 10 3 20 50 None None)] sample_initial = Inr s"
    and f: "\<exists>s1 s2. contribute sample_config 2 (Signed 2) 0 30 s = Inr s1 \<and>
      withdraw sample_config (Signed 2) 0 s1 = Inr s2 \<and> contributions s1 0 \<noteq> contributions s 0"
      "\<exists>c. crowdloans s 0 = Some c \<and> 2 \<noteq> cl_creator c \<and> \<not> cl_finalized c"
      "contribution_of s 0 2 = None"
    by (simp add: crowdloan_eval del: crowdloan_run_rules)
  from f(1,2) obtain s1 s2 c where h: "contribute sample_config 2 (Signed 2) 0 30 s = Inr s1"
      "withdraw sample_config (Signed 2) 0 s1 = Inr s2" "contributions s1 0 \<noteq> contributions s 0"
    and c: "crowdloans s 0 = Some c" "2 \<noteq> cl_creator c" "\<not> cl_finalized c" by blast
  have "(crowdloan_step sample_config)\<^sup>*\<^sup>* sample_initial s"
    by (rule crowdloan_run_steps[OF s]) (simp add: sample_user)
  then have inv: "crowdloan_inv sample_config s"
    by (rule crowdloan_reachable[OF sample_env_ok sample_initial_ok])
  have "user_account sample_config 2" by (simp add: sample_user)
  from contribute_withdraw_roundtrip[OF sample_env_ok inv this c(1,2) f(3) c(3) h(1,2)] s h
  show ?thesis by blast
qed

text \<open>The hypothesis that the dispatched call leaves the pallet alone is needed: \<open>finalize\<close>
  writes back the record it read before the dispatch. When the call of a crowdloan raised by its
  creator alone is \<open>dissolve\<close> on itself, the funds go back and the contributions are removed,
  and then the record is stored again as finalized, with a raised amount that nothing backs.\<close>

definition reentrant_config :: "(nat, nat, nat, nat \<Rightarrow> nat) crowdloan_config" where
  "reentrant_config = sample_config\<lparr>dispatch := (\<lambda>call who s. dissolve sample_config (Signed who) call s)\<rparr>"

text \<open>See above: the state after \<open>finalize\<close> has a finalized crowdloan with 20 raised, no
  contribution, and an empty funds account.\<close>

theorem finalize_overwrites_dissolved:
  "\<exists>t c. crowdloan_run reentrant_config
      [(1, 0, Create 10 3 20 50 (Some 0) None), (2, 0, Contribute 0 10), (50, 0, Finalize 0)]
      sample_initial = Inr t \<and>
    crowdloans t 0 = Some c \<and> cl_finalized c \<and> cl_raised c = 20 \<and> contributions t 0 = [] \<and>
    world t (funds_account reentrant_config 0) = 0"
  by (simp add: crowdloan_eval reentrant_config_def del: crowdloan_run_rules)

end
