(* ===== verification/Neurons.thy ===== *)
theory Neurons
  imports Subtensor_Base
begin

text \<open>
  The neuron slots of the subnets (\<open>pallets/subtensor/src/subnets/uids.rs\<close> and the accessors
  it uses from \<open>utils/misc.rs\<close>). A slot is a uid below \<open>SubnetworkN\<close>; \<open>Keys\<close> and
  \<open>Uids\<close> map uids to hotkeys and back, \<open>IsNetworkMember\<close> repeats the membership the other
  way round, and eleven vectors hold the consensus data of the slots. The invariant
  \<open>neurons_inv\<close> says that all of them agree.
\<close>

section \<open>Data\<close>

record axon_info =
  axon_block :: nat
  axon_version :: nat
  axon_ip :: nat
  axon_port :: nat
  axon_ip_type :: nat
  axon_protocol :: nat
  axon_placeholder1 :: nat
  axon_placeholder2 :: nat

record neuron_certificate =
  public_key :: "nat list"
  algorithm :: nat

record 'a neurons =
  DefaultAccount :: 'a
  SubnetworkN :: "netuid \<Rightarrow> nat"
  Keys :: "netuid \<Rightarrow> nat \<Rightarrow> 'a option"
  Uids :: "netuid \<Rightarrow> 'a \<Rightarrow> nat option"
  IsNetworkMember :: "'a \<Rightarrow> netuid \<Rightarrow> bool option"
  BlockAtRegistration :: "netuid \<Rightarrow> nat \<Rightarrow> nat"
  SubnetOwnerHotkey :: "netuid \<Rightarrow> 'a option"
  Rank :: "netuid \<Rightarrow> nat list"
  Trust :: "netuid \<Rightarrow> nat list"
  Active :: "netuid \<Rightarrow> bool list"
  Emission :: "netuid \<Rightarrow> nat list"
  Consensus :: "netuid \<Rightarrow> nat list"
  Incentive :: "netuid \<Rightarrow> nat list"
  Dividends :: "netuid \<Rightarrow> nat list"
  LastUpdate :: "netuid \<Rightarrow> nat list"
  PruningScores :: "netuid \<Rightarrow> nat list"
  ValidatorTrust :: "netuid \<Rightarrow> nat list"
  ValidatorPermit :: "netuid \<Rightarrow> bool list"
  Bonds :: "netuid \<Rightarrow> nat \<Rightarrow> (nat \<times> nat) list"
  NeuronCertificates :: "netuid \<Rightarrow> 'a \<Rightarrow> neuron_certificate option"
  Axons :: "netuid \<Rightarrow> 'a \<Rightarrow> axon_info option"

section \<open>Operations\<close>

definition get_subnetwork_n :: "'a neurons \<Rightarrow> netuid \<Rightarrow> nat" where
  "get_subnetwork_n s n = SubnetworkN s n"

definition set_element_at :: "'v list \<Rightarrow> nat \<Rightarrow> 'v \<Rightarrow> 'v list" where
  "set_element_at v position x = (if position < length v then v[position := x] else v)"

definition set_active_for_uid :: "netuid \<Rightarrow> nat \<Rightarrow> bool \<Rightarrow> 'a neurons \<Rightarrow> 'a neurons" where
  "set_active_for_uid n uid active s =
     (if uid < length (Active s n)
      then s\<lparr>Active := (Active s)(n := (Active s n)[uid := active])\<rparr> else s)"

definition set_last_update_for_uid :: "netuid \<Rightarrow> nat \<Rightarrow> nat \<Rightarrow> 'a neurons \<Rightarrow> 'a neurons" where
  "set_last_update_for_uid n uid last_update s =
     (if uid < length (LastUpdate s n)
      then s\<lparr>LastUpdate := (LastUpdate s)(n := (LastUpdate s n)[uid := last_update])\<rparr> else s)"

definition set_validator_permit_for_uid :: "netuid \<Rightarrow> nat \<Rightarrow> bool \<Rightarrow> 'a neurons \<Rightarrow> 'a neurons" where
  "set_validator_permit_for_uid n uid permit s =
     (if uid < length (ValidatorPermit s n)
      then s\<lparr>ValidatorPermit := (ValidatorPermit s)(n := (ValidatorPermit s n)[uid := permit])\<rparr> else s)"

text \<open>The assertion of \<open>set_pruning_score_for_uid\<close> panics when the uid is out of range.\<close>

definition set_pruning_score_for_uid ::
    "netuid \<Rightarrow> nat \<Rightarrow> nat \<Rightarrow> 'a neurons \<Rightarrow> (subtensor_error, 'a neurons) result" where
  "set_pruning_score_for_uid n uid pruning_score s =
     ensure (uid < SubnetworkN s n) (Panic ''assertion failed: uid < SubnetworkN'')
       (Inr (s\<lparr>PruningScores := (PruningScores s)(n := set_element_at (PruningScores s n) uid pruning_score)\<rparr>))"

definition get_pruning_score_for_uid :: "'a neurons \<Rightarrow> netuid \<Rightarrow> nat \<Rightarrow> nat" where
  "get_pruning_score_for_uid s n uid = vec_get (PruningScores s n) uid u16_max"

definition get_last_update_for_uid :: "'a neurons \<Rightarrow> netuid \<Rightarrow> nat \<Rightarrow> nat" where
  "get_last_update_for_uid s n uid = vec_get (LastUpdate s n) uid 0"

definition get_validator_permit_for_uid :: "'a neurons \<Rightarrow> netuid \<Rightarrow> nat \<Rightarrow> bool" where
  "get_validator_permit_for_uid s n uid = vec_get (ValidatorPermit s n) uid False"

definition get_neuron_block_at_registration :: "'a neurons \<Rightarrow> netuid \<Rightarrow> nat \<Rightarrow> nat" where
  "get_neuron_block_at_registration s n uid = BlockAtRegistration s n uid"

definition clear_neuron :: "netuid \<Rightarrow> nat \<Rightarrow> 'a neurons \<Rightarrow> 'a neurons" where
  "clear_neuron n uid s =
     s\<lparr>Emission := (Emission s)(n := set_element_at (Emission s n) uid 0),
       Trust := (Trust s)(n := set_element_at (Trust s n) uid 0),
       Consensus := (Consensus s)(n := set_element_at (Consensus s n) uid 0),
       Incentive := (Incentive s)(n := set_element_at (Incentive s n) uid 0),
       Dividends := (Dividends s)(n := set_element_at (Dividends s n) uid 0),
       Bonds := (Bonds s)(n := (Bonds s n)(uid := []))\<rparr>"

definition get_key :: "'a neurons \<Rightarrow> netuid \<Rightarrow> nat \<Rightarrow> 'a" where
  "get_key s n uid = (case Keys s n uid of None \<Rightarrow> DefaultAccount s | Some h \<Rightarrow> h)"

definition replace_neuron :: "netuid \<Rightarrow> nat \<Rightarrow> 'a \<Rightarrow> nat \<Rightarrow> 'a neurons \<Rightarrow> 'a neurons" where
  "replace_neuron n uid new_hotkey block_number s =
     (let old_hotkey = get_key s n uid in
      if SubnetOwnerHotkey s n = Some old_hotkey then s
      else let
        s = s\<lparr>Uids := (Uids s)(n := (Uids s n)(old_hotkey := None)),
              IsNetworkMember := (IsNetworkMember s)(old_hotkey := (IsNetworkMember s old_hotkey)(n := None)),
              Keys := (Keys s)(n := (Keys s n)(uid := None))\<rparr>;
        s = set_active_for_uid n uid True s;
        s = s\<lparr>Keys := (Keys s)(n := (Keys s n)(uid \<mapsto> new_hotkey)),
              Uids := (Uids s)(n := (Uids s n)(new_hotkey \<mapsto> uid)),
              BlockAtRegistration := (BlockAtRegistration s)(n := (BlockAtRegistration s n)(uid := block_number)),
              IsNetworkMember := (IsNetworkMember s)(new_hotkey := (IsNetworkMember s new_hotkey)(n \<mapsto> True)),
              NeuronCertificates := (NeuronCertificates s)(n := (NeuronCertificates s n)(old_hotkey := None))\<rparr>;
        s = clear_neuron n uid s
      in s\<lparr>Axons := (Axons s)(n := (Axons s n)(old_hotkey := None))\<rparr>)"

definition append_neuron :: "netuid \<Rightarrow> 'a \<Rightarrow> nat \<Rightarrow> 'a neurons \<Rightarrow> 'a neurons" where
  "append_neuron n new_hotkey block_number s =
     (let next_uid = get_subnetwork_n s n in
      s\<lparr>SubnetworkN := (SubnetworkN s)(n := sat_add u16_max next_uid 1),
        Rank := (Rank s)(n := Rank s n @ [0]),
        Trust := (Trust s)(n := Trust s n @ [0]),
        Active := (Active s)(n := Active s n @ [True]),
        Emission := (Emission s)(n := Emission s n @ [0]),
        Consensus := (Consensus s)(n := Consensus s n @ [0]),
        Incentive := (Incentive s)(n := Incentive s n @ [0]),
        Dividends := (Dividends s)(n := Dividends s n @ [0]),
        LastUpdate := (LastUpdate s)(n := LastUpdate s n @ [block_number]),
        PruningScores := (PruningScores s)(n := PruningScores s n @ [0]),
        ValidatorTrust := (ValidatorTrust s)(n := ValidatorTrust s n @ [0]),
        ValidatorPermit := (ValidatorPermit s)(n := ValidatorPermit s n @ [False]),
        Keys := (Keys s)(n := (Keys s n)(next_uid \<mapsto> new_hotkey)),
        Uids := (Uids s)(n := (Uids s n)(new_hotkey \<mapsto> next_uid)),
        BlockAtRegistration := (BlockAtRegistration s)(n := (BlockAtRegistration s n)(next_uid := block_number)),
        IsNetworkMember := (IsNetworkMember s)(new_hotkey := (IsNetworkMember s new_hotkey)(n \<mapsto> True))\<rparr>)"

definition is_uid_exist_on_network :: "'a neurons \<Rightarrow> netuid \<Rightarrow> nat \<Rightarrow> bool" where
  "is_uid_exist_on_network s n uid \<longleftrightarrow> Keys s n uid \<noteq> None"

definition is_hotkey_registered_on_network :: "'a neurons \<Rightarrow> netuid \<Rightarrow> 'a \<Rightarrow> bool" where
  "is_hotkey_registered_on_network s n hotkey \<longleftrightarrow> Uids s n hotkey \<noteq> None"

definition get_hotkey_for_net_and_uid ::
    "'a neurons \<Rightarrow> netuid \<Rightarrow> nat \<Rightarrow> (subtensor_error, 'a) result" where
  "get_hotkey_for_net_and_uid s n uid = ok_or (Keys s n uid) HotKeyNotRegisteredInSubNet"

definition get_uid_for_net_and_hotkey ::
    "'a neurons \<Rightarrow> netuid \<Rightarrow> 'a \<Rightarrow> (subtensor_error, nat) result" where
  "get_uid_for_net_and_hotkey s n hotkey = ok_or (Uids s n hotkey) HotKeyNotRegisteredInSubNet"

definition is_hotkey_registered_on_specific_network :: "'a neurons \<Rightarrow> 'a \<Rightarrow> netuid \<Rightarrow> bool" where
  "is_hotkey_registered_on_specific_network s hotkey n \<longleftrightarrow> IsNetworkMember s hotkey n \<noteq> None"

text \<open>The netuids under which the prefix of a hotkey is iterated are 16-bit numbers.\<close>

definition is_hotkey_registered_on_any_network :: "'a neurons \<Rightarrow> 'a \<Rightarrow> bool" where
  "is_hotkey_registered_on_any_network s hotkey \<longleftrightarrow>
     list_ex (\<lambda>n. case IsNetworkMember s hotkey n of None \<Rightarrow> False | Some is_registered \<Rightarrow> is_registered)
       [0..<u16_max + 1]"

section \<open>Invariant\<close>

definition vectors_length :: "'a neurons \<Rightarrow> netuid \<Rightarrow> nat \<Rightarrow> bool" where
  "vectors_length s n k \<longleftrightarrow>
     length (Rank s n) = k \<and> length (Trust s n) = k \<and> length (Active s n) = k \<and>
     length (Emission s n) = k \<and> length (Consensus s n) = k \<and> length (Incentive s n) = k \<and>
     length (Dividends s n) = k \<and> length (LastUpdate s n) = k \<and> length (PruningScores s n) = k \<and>
     length (ValidatorTrust s n) = k \<and> length (ValidatorPermit s n) = k"

definition slots_inv :: "'a neurons \<Rightarrow> netuid \<Rightarrow> bool" where
  "slots_inv s n \<longleftrightarrow>
     (\<forall>u. Keys s n u \<noteq> None \<longleftrightarrow> u < SubnetworkN s n) \<and>
     (\<forall>u h. Keys s n u = Some h \<longleftrightarrow> Uids s n h = Some u) \<and>
     (\<forall>h. IsNetworkMember s h n = Some True \<longleftrightarrow> Uids s n h \<noteq> None)"

definition neurons_inv :: "'a neurons \<Rightarrow> netuid \<Rightarrow> bool" where
  "neurons_inv s n \<longleftrightarrow>
     SubnetworkN s n \<le> u16_max \<and> slots_inv s n \<and> vectors_length s n (SubnetworkN s n)"

lemmas neuron_op_defs = append_neuron_def replace_neuron_def clear_neuron_def get_key_def
  set_active_for_uid_def set_element_at_def get_subnetwork_n_def Let_def

lemma slots_invD:
  assumes "slots_inv s n"
  shows "Keys s n u \<noteq> None \<longleftrightarrow> u < SubnetworkN s n" "Keys s n u = Some h \<longleftrightarrow> Uids s n h = Some u"
    "IsNetworkMember s h n = Some True \<longleftrightarrow> Uids s n h \<noteq> None"
  using assms by (auto simp: slots_inv_def)

lemma slot_taken:
  assumes "slots_inv s n" "u < SubnetworkN s n"
  obtains h where "Keys s n u = Some h" "Uids s n h = Some u"
  using slots_invD(1,2)[OF assms(1), of u] assms(2) by auto

text \<open>Appending a neuron: the next uid becomes the slot of the new hotkey.\<close>

lemma append_neuron_fields:
  "SubnetworkN (append_neuron n h b s) = (SubnetworkN s)(n := sat_add u16_max (SubnetworkN s n) 1)"
  "Keys (append_neuron n h b s) = (Keys s)(n := (Keys s n)(SubnetworkN s n \<mapsto> h))"
  "Uids (append_neuron n h b s) = (Uids s)(n := (Uids s n)(h \<mapsto> SubnetworkN s n))"
  "IsNetworkMember (append_neuron n h b s) = (IsNetworkMember s)(h := (IsNetworkMember s h)(n \<mapsto> True))"
  "SubnetOwnerHotkey (append_neuron n h b s) = SubnetOwnerHotkey s"
  by (simp_all add: append_neuron_def get_subnetwork_n_def Let_def)

lemma append_slots_inv:
  assumes "slots_inv s n" "SubnetworkN s n < u16_max" "Uids s n h = None"
  shows "slots_inv (append_neuron n h b s) n"
proof -
  have N: "SubnetworkN (append_neuron n h b s) n = Suc (SubnetworkN s n)"
    using assms(2) by (simp add: append_neuron_fields sat_add_def)
  have none: "Keys s n (SubnetworkN s n) = None"
    using slots_invD(1)[OF assms(1), of "SubnetworkN s n"] by auto
  have fresh: "Uids s n h' \<noteq> Some (SubnetworkN s n)" "Keys s n u \<noteq> Some h" for h' u
    using none assms(3) slots_invD(2)[OF assms(1)] by (metis option.distinct(1))+
  show ?thesis
    unfolding slots_inv_def N
    using slots_invD[OF assms(1)] fresh assms(3)
    by (auto simp: append_neuron_fields less_Suc_eq)
qed

lemma append_neuron_inv:
  assumes "neurons_inv s n" "SubnetworkN s n < u16_max" "Uids s n h = None"
  shows "neurons_inv (append_neuron n h b s) n"
proof -
  have N: "SubnetworkN (append_neuron n h b s) n = Suc (SubnetworkN s n)"
    using assms(2) by (simp add: append_neuron_fields sat_add_def)
  have "slots_inv (append_neuron n h b s) n"
    using assms by (intro append_slots_inv) (simp_all add: neurons_inv_def)
  moreover have "vectors_length (append_neuron n h b s) n (Suc (SubnetworkN s n))"
    using assms(1) by (simp add: neurons_inv_def vectors_length_def append_neuron_def Let_def)
  ultimately show ?thesis using assms(2) by (simp add: neurons_inv_def N)
qed

text \<open>Replacing a neuron: the slot changes hands, unless it is the slot of the subnet owner.\<close>

definition is_owner_slot :: "'a neurons \<Rightarrow> netuid \<Rightarrow> nat \<Rightarrow> bool" where
  "is_owner_slot s n uid \<longleftrightarrow> SubnetOwnerHotkey s n = Some (get_key s n uid)"

lemma replace_neuron_owner: "is_owner_slot s n uid \<Longrightarrow> replace_neuron n uid h b s = s"
  by (simp add: is_owner_slot_def replace_neuron_def)

lemma clear_neuron_fields [simp]:
  "SubnetworkN (clear_neuron n u s) = SubnetworkN s" "Keys (clear_neuron n u s) = Keys s"
  "Uids (clear_neuron n u s) = Uids s" "IsNetworkMember (clear_neuron n u s) = IsNetworkMember s"
  "SubnetOwnerHotkey (clear_neuron n u s) = SubnetOwnerHotkey s"
  "BlockAtRegistration (clear_neuron n u s) = BlockAtRegistration s"
  "vectors_length (clear_neuron n u s) m k \<longleftrightarrow> vectors_length s m k"
  by (auto simp: clear_neuron_def vectors_length_def set_element_at_def)

lemma set_active_fields [simp]:
  "SubnetworkN (set_active_for_uid n u a s) = SubnetworkN s" "Keys (set_active_for_uid n u a s) = Keys s"
  "Uids (set_active_for_uid n u a s) = Uids s"
  "IsNetworkMember (set_active_for_uid n u a s) = IsNetworkMember s"
  "SubnetOwnerHotkey (set_active_for_uid n u a s) = SubnetOwnerHotkey s"
  "BlockAtRegistration (set_active_for_uid n u a s) = BlockAtRegistration s"
  "vectors_length (set_active_for_uid n u a s) m k \<longleftrightarrow> vectors_length s m k"
  by (auto simp: set_active_for_uid_def vectors_length_def)

lemma vectors_length_cong [simp]:
  "vectors_length (s\<lparr>Keys := k\<rparr>) m l \<longleftrightarrow> vectors_length s m l"
  "vectors_length (s\<lparr>Uids := us\<rparr>) m l \<longleftrightarrow> vectors_length s m l"
  "vectors_length (s\<lparr>IsNetworkMember := i\<rparr>) m l \<longleftrightarrow> vectors_length s m l"
  "vectors_length (s\<lparr>BlockAtRegistration := br\<rparr>) m l \<longleftrightarrow> vectors_length s m l"
  "vectors_length (s\<lparr>NeuronCertificates := nc\<rparr>) m l \<longleftrightarrow> vectors_length s m l"
  "vectors_length (s\<lparr>Axons := ax\<rparr>) m l \<longleftrightarrow> vectors_length s m l"
  by (simp_all add: vectors_length_def)

lemma replace_neuron_fields:
  assumes "\<not> is_owner_slot s n uid"
  shows "SubnetworkN (replace_neuron n uid h b s) = SubnetworkN s"
    "Keys (replace_neuron n uid h b s) = (Keys s)(n := (Keys s n)(uid \<mapsto> h))"
    "Uids (replace_neuron n uid h b s) = (Uids s)(n := (Uids s n)(get_key s n uid := None, h \<mapsto> uid))"
    "IsNetworkMember (replace_neuron n uid h b s) h' k =
      (if k = n then if h' = h then Some True else if h' = get_key s n uid then None
        else IsNetworkMember s h' k else IsNetworkMember s h' k)"
    "SubnetOwnerHotkey (replace_neuron n uid h b s) = SubnetOwnerHotkey s"
    "vectors_length (replace_neuron n uid h b s) m l \<longleftrightarrow> vectors_length s m l"
  using assms by (simp_all add: replace_neuron_def is_owner_slot_def Let_def)

lemma replace_neuron_inv:
  assumes inv: "neurons_inv s n" and "uid < SubnetworkN s n" "Uids s n h = None"
  shows "neurons_inv (replace_neuron n uid h b s) n"
proof (cases "is_owner_slot s n uid")
  case False
  have sl: "slots_inv s n" using inv by (simp add: neurons_inv_def)
  obtain old where old: "Keys s n uid = Some old" "Uids s n old = Some uid"
    using slot_taken[OF sl assms(2)] .
  have gk: "get_key s n uid = old" by (simp add: get_key_def old)
  have fresh: "Keys s n u \<noteq> Some h" for u using assms(3) slots_invD(2)[OF sl] by (metis option.distinct(1))
  note F = replace_neuron_fields[OF False, of h b, unfolded gk]
  have "slots_inv (replace_neuron n uid h b s) n"
  proof (unfold slots_inv_def, intro conjI allI)
    fix u h'
    show "Keys (replace_neuron n uid h b s) n u \<noteq> None \<longleftrightarrow> u < SubnetworkN (replace_neuron n uid h b s) n"
      using slots_invD(1)[OF sl, of u] assms(2) by (simp add: F)
    show "Keys (replace_neuron n uid h b s) n u = Some h' \<longleftrightarrow> Uids (replace_neuron n uid h b s) n h' = Some u"
    proof (cases "u = uid")
      case True
      with slots_invD(2)[OF sl, of uid h'] old(1) show ?thesis
        by (cases "h' = h"; cases "h' = old") (simp_all add: F)
    next
      case False
      with slots_invD(2)[OF sl, of u h'] fresh[of u] old(2) show ?thesis
        by (cases "h' = h"; cases "h' = old") (simp_all add: F)
    qed
    show "IsNetworkMember (replace_neuron n uid h b s) h' n = Some True \<longleftrightarrow> Uids (replace_neuron n uid h b s) n h' \<noteq> None"
      using slots_invD(3)[OF sl, of h'] by (simp add: F)
  qed
  then show ?thesis
    using inv by (simp add: neurons_inv_def replace_neuron_fields[OF False])
qed (use inv in \<open>simp add: replace_neuron_owner\<close>)

text \<open>Other subnets are not touched.\<close>

lemma neurons_inv_cong:
  assumes "SubnetworkN s' m = SubnetworkN s m" "Keys s' m = Keys s m" "Uids s' m = Uids s m"
    and "\<And>h. IsNetworkMember s' h m = IsNetworkMember s h m"
    and "\<And>k. vectors_length s' m k = vectors_length s m k"
  shows "neurons_inv s' m \<longleftrightarrow> neurons_inv s m"
  unfolding neurons_inv_def slots_inv_def by (simp add: assms)

lemma neurons_inv_frame:
  assumes "n \<noteq> m"
  shows "neurons_inv (append_neuron n h b s) m \<longleftrightarrow> neurons_inv s m"
    "neurons_inv (replace_neuron n uid h b s) m \<longleftrightarrow> neurons_inv s m"
proof -
  show "neurons_inv (append_neuron n h b s) m \<longleftrightarrow> neurons_inv s m"
    using assms by (intro neurons_inv_cong) (auto simp: vectors_length_def append_neuron_def Let_def)
  show "neurons_inv (replace_neuron n uid h b s) m \<longleftrightarrow> neurons_inv s m"
  proof (cases "is_owner_slot s n uid")
    case False
    with assms show ?thesis by (intro neurons_inv_cong) (simp_all add: replace_neuron_fields)
  qed (simp add: replace_neuron_owner)
qed

end
