(* ===== verification/Registration.thy ===== *)
theory Registration
  imports Neurons Subnet_Pool
begin

text \<open>
  Registration of neurons (\<open>pallets/subtensor/src/subnets/registration.rs\<close>): the choice of
  the neuron to prune, burned and proof-of-work registration, the faucet, and the work hash.
  Hash functions, the encoding of accounts, the block hashes, the currency and the market maker
  are the fields of \<open>registration_env\<close>; bytes are natural numbers and a 256-bit hash is the
  list of its 32 bytes.
\<close>

section \<open>Data\<close>

record ('a, 'w) registration_env =
  env_block :: nat
  reducible_balance :: "'w \<Rightarrow> 'a \<Rightarrow> nat"
  can_withdraw :: "'w \<Rightarrow> 'a \<Rightarrow> nat \<Rightarrow> bool"
  env_withdraw :: "'a \<Rightarrow> nat \<Rightarrow> 'w \<Rightarrow> (nat \<times> 'w) option"
  env_deposit :: "'a \<Rightarrow> nat \<Rightarrow> 'w \<Rightarrow> 'w"
  env_swap :: "'w swap_fun"
  max_price :: nat
  block_hash :: "nat \<Rightarrow> nat list"
  keccak_256 :: "nat list \<Rightarrow> nat list"
  sha2_256 :: "nat list \<Rightarrow> nat list"
  encode_account :: "'a \<Rightarrow> nat list"

record ('a, 'w) registration_state =
  reg_neurons :: "'a neurons"
  reg_accounts :: "'a accounts"
  reg_pool :: "'w subnet_pool"
  NetworksAdded :: "netuid \<Rightarrow> bool"
  NetworkRegistrationAllowed :: "netuid \<Rightarrow> bool"
  NetworkPowRegistrationAllowed :: "netuid \<Rightarrow> bool"
  MaxRegistrationsPerBlock :: "netuid \<Rightarrow> nat"
  TargetRegistrationsPerInterval :: "netuid \<Rightarrow> nat"
  MaxAllowedUids :: "netuid \<Rightarrow> nat"
  ImmunityPeriod :: "netuid \<Rightarrow> nat"
  Burn :: "netuid \<Rightarrow> nat"
  Difficulty :: "netuid \<Rightarrow> nat"
  RegistrationsThisBlock :: "netuid \<Rightarrow> nat"
  RegistrationsThisInterval :: "netuid \<Rightarrow> nat"
  BurnRegistrationsThisInterval :: "netuid \<Rightarrow> nat"
  POWRegistrationsThisInterval :: "netuid \<Rightarrow> nat"
  RAORecycledForRegistration :: "netuid \<Rightarrow> nat"
  UsedWork :: "nat list \<Rightarrow> nat option"
  TotalIssuance :: nat

section \<open>Pruning\<close>

definition get_neuron_is_immune :: "nat \<Rightarrow> ('a, 'w) registration_state \<Rightarrow> netuid \<Rightarrow> nat \<Rightarrow> bool" where
  "get_neuron_is_immune current_block s n uid =
     (let registered_at = get_neuron_block_at_registration (reg_neurons s) n uid
      in current_block - registered_at < ImmunityPeriod s n)"

record prune_vars =
  min_score :: nat
  min_score_in_immunity :: nat
  earliest_registration :: nat
  earliest_registration_in_immunity :: nat
  uid_to_prune :: nat
  uid_to_prune_in_immunity :: nat
  found_non_immune :: bool

definition prune_start :: prune_vars where
  "prune_start = \<lparr>min_score = u16_max, min_score_in_immunity = u16_max,
     earliest_registration = u64_max, earliest_registration_in_immunity = u64_max,
     uid_to_prune = 0, uid_to_prune_in_immunity = 0, found_non_immune = False\<rparr>"

text \<open>One iteration of the loop over the uids; \<open>continue\<close> leaves the variables alone.\<close>

definition prune_step :: "nat \<Rightarrow> ('a, 'w) registration_state \<Rightarrow> netuid \<Rightarrow> nat \<Rightarrow> prune_vars \<Rightarrow> prune_vars" where
  "prune_step current_block s n uid v =
     (let is_owner = (case get_hotkey_for_net_and_uid (reg_neurons s) n uid of
            Inr hotkey \<Rightarrow> SubnetOwnerHotkey (reg_neurons s) n = Some hotkey
          | Inl _ \<Rightarrow> False)
      in if is_owner then v
      else let
        pruning_score = get_pruning_score_for_uid (reg_neurons s) n uid;
        block_at_registration = get_neuron_block_at_registration (reg_neurons s) n uid;
        is_immune = get_neuron_is_immune current_block s n uid
      in if is_immune
         then if pruning_score < min_score_in_immunity v \<or>
                 pruning_score = min_score_in_immunity v \<and>
                 block_at_registration < earliest_registration_in_immunity v
              then v\<lparr>min_score_in_immunity := pruning_score,
                     earliest_registration_in_immunity := block_at_registration,
                     uid_to_prune_in_immunity := uid\<rparr>
              else v
         else let v = v\<lparr>found_non_immune := True\<rparr>
              in if pruning_score < min_score v \<or>
                    pruning_score = min_score v \<and> block_at_registration < earliest_registration v
                 then v\<lparr>min_score := pruning_score, earliest_registration := block_at_registration,
                        uid_to_prune := uid\<rparr>
                 else v)"

definition get_neuron_to_prune ::
    "nat \<Rightarrow> ('a, 'w) registration_state \<Rightarrow> netuid \<Rightarrow> (subtensor_error, nat \<times> ('a, 'w) registration_state) result" where
  "get_neuron_to_prune current_block s n =
     (let neurons_n = get_subnetwork_n (reg_neurons s) n in
      if neurons_n = 0 then Inr (0, s)
      else let v = fold (prune_step current_block s n) [0..<neurons_n] prune_start;
               uid = (if found_non_immune v then uid_to_prune v else uid_to_prune_in_immunity v)
           in and_then (set_pruning_score_for_uid n uid u16_max (reg_neurons s)) (\<lambda>ns.
              Inr (uid, s\<lparr>reg_neurons := ns\<rparr>)))"

definition register_neuron ::
    "nat \<Rightarrow> netuid \<Rightarrow> 'a \<Rightarrow> ('a, 'w) registration_state \<Rightarrow>
     (subtensor_error, nat \<times> ('a, 'w) registration_state) result" where
  "register_neuron block_number n hotkey s =
     (let current_subnetwork_n = get_subnetwork_n (reg_neurons s) n in
      if current_subnetwork_n < MaxAllowedUids s n
      then Inr (current_subnetwork_n, s\<lparr>reg_neurons := append_neuron n hotkey block_number (reg_neurons s)\<rparr>)
      else and_then (get_neuron_to_prune block_number s n) (\<lambda>(neuron_uid, s).
        Inr (neuron_uid, s\<lparr>reg_neurons := replace_neuron n neuron_uid hotkey block_number (reg_neurons s)\<rparr>)))"

section \<open>Work\<close>

text \<open>\<open>U256::from_little_endian\<close>.\<close>

definition from_little_endian :: "nat list \<Rightarrow> nat" where
  "from_little_endian bytes = foldr (\<lambda>b acc. b + 256 * acc) bytes 0"

text \<open>\<open>overflowing_mul\<close> on \<open>U256\<close>: the product modulo \<open>2^256\<close> and whether it overflowed.\<close>

definition overflowing_mul :: "nat \<Rightarrow> nat \<Rightarrow> nat \<times> bool" where
  "overflowing_mul a b = ((a * b) mod 2 ^ 256, 2 ^ 256 \<le> a * b)"

definition hash_meets_difficulty :: "nat list \<Rightarrow> nat \<Rightarrow> bool" where
  "hash_meets_difficulty hash difficulty =
     (let num_hash = from_little_endian hash;
          (val, overflowed) = overflowing_mul num_hash difficulty
      in \<not> overflowed)"

text \<open>\<open>H256::from_slice\<close> panics when the slice does not have 32 bytes.\<close>

definition vec_to_hash :: "nat list \<Rightarrow> (subtensor_error, nat list) result" where
  "vec_to_hash v = ensure (length v = 32) (Panic ''H256::from_slice'') (Inr v)"

fun le_bytes :: "nat \<Rightarrow> nat \<Rightarrow> nat list" where
  "le_bytes 0 x = []"
| "le_bytes (Suc k) x = x mod 256 # le_bytes k (x div 256)"

definition hash_block_and_hotkey :: "('a, 'w) registration_env \<Rightarrow> nat list \<Rightarrow> 'a \<Rightarrow> nat list" where
  "hash_block_and_hotkey env block_hash_bytes hotkey =
     (let hotkey_bytes = take 32 (encode_account env hotkey)
      in keccak_256 env (block_hash_bytes @ hotkey_bytes))"

definition create_seal_hash :: "('a, 'w) registration_env \<Rightarrow> nat \<Rightarrow> nat \<Rightarrow> 'a \<Rightarrow> nat list" where
  "create_seal_hash env block_number nonce hotkey =
     (let block_hash_at_number = block_hash env block_number;
          block_and_hotkey = hash_block_and_hotkey env block_hash_at_number hotkey;
          full_bytes = le_bytes 8 nonce @ block_and_hotkey
      in keccak_256 env (sha2_256 env full_bytes))"

text \<open>The search for a nonce. The loop may not end: the nonce saturates at the largest
  \<open>u64\<close>, so \<open>None\<close> is its not returning.\<close>

partial_function (option) create_work_loop ::
    "('a, 'w) registration_env \<Rightarrow> nat \<Rightarrow> nat \<Rightarrow> 'a \<Rightarrow> nat \<Rightarrow> (nat \<times> nat list) option" where
  "create_work_loop env difficulty block_number hotkey nonce =
     (let work = create_seal_hash env block_number nonce hotkey in
      if hash_meets_difficulty work difficulty then Some (nonce, work)
      else create_work_loop env difficulty block_number hotkey (sat_add u64_max nonce 1))"

definition create_work_for_block_number ::
    "('a, 'w) registration_env \<Rightarrow> ('a, 'w) registration_state \<Rightarrow> netuid \<Rightarrow> nat \<Rightarrow> nat \<Rightarrow> 'a \<Rightarrow>
     (nat \<times> nat list) option" where
  "create_work_for_block_number env s n block_number start_nonce hotkey =
     create_work_loop env (Difficulty s n) block_number hotkey start_nonce"

section \<open>The currency\<close>

definition can_remove_balance_from_coldkey_account ::
    "('a, 'w, 'z) registration_env_scheme \<Rightarrow> 'a \<Rightarrow> nat \<Rightarrow> 'w \<Rightarrow> bool" where
  "can_remove_balance_from_coldkey_account env coldkey amount w =
     (if amount > reducible_balance env w coldkey then False else can_withdraw env w coldkey amount)"

definition remove_balance_from_coldkey_account ::
    "('a, 'w, 'z) registration_env_scheme \<Rightarrow> 'a \<Rightarrow> nat \<Rightarrow> 'w \<Rightarrow> (subtensor_error, nat \<times> 'w) result" where
  "remove_balance_from_coldkey_account env coldkey amount w =
     (if amount = 0 then Inr (0, w)
      else and_then (ok_or (env_withdraw env coldkey amount w) BalanceWithdrawalError) (\<lambda>(credit, w).
        ensure (credit \<noteq> 0) ZeroBalanceAfterWithdrawn (Inr (credit, w))))"

definition increase_rao_recycled :: "netuid \<Rightarrow> nat \<Rightarrow> ('a, 'w) registration_state \<Rightarrow> ('a, 'w) registration_state" where
  "increase_rao_recycled n inc s =
     s\<lparr>RAORecycledForRegistration :=
         (RAORecycledForRegistration s)(n := sat_add u64_max (RAORecycledForRegistration s n) inc)\<rparr>"

definition coinbase :: "nat \<Rightarrow> ('a, 'w) registration_state \<Rightarrow> ('a, 'w) registration_state" where
  "coinbase amount s = s\<lparr>TotalIssuance := sat_add u64_max (TotalIssuance s) amount\<rparr>"

section \<open>Dispatchables\<close>

definition do_burned_registration ::
    "('a, 'w) registration_env \<Rightarrow> 'a origin \<Rightarrow> netuid \<Rightarrow> 'a \<Rightarrow> ('a, 'w) registration_state \<Rightarrow>
     (subtensor_error, ('a, 'w) registration_state) result" where
  "do_burned_registration env og n hotkey s =
     and_then (ensure_signed BadOrigin og) (\<lambda>coldkey.
     ensure (\<not> is_root n) RegistrationNotPermittedOnRootSubnet
    (ensure (NetworksAdded s n) SubNetworkDoesNotExist
    (ensure (NetworkRegistrationAllowed s n) SubNetRegistrationDisabled
    (ensure (RegistrationsThisBlock s n < MaxRegistrationsPerBlock s n) TooManyRegistrationsThisBlock
    (ensure (RegistrationsThisInterval s n < sat_mul u16_max (TargetRegistrationsPerInterval s n) 3)
       TooManyRegistrationsThisInterval
    (ensure (Uids (reg_neurons s) n hotkey = None) HotKeyAlreadyRegisteredInSubNet
    (let registration_cost = Burn s n in
     ensure (can_remove_balance_from_coldkey_account env coldkey registration_cost (amm (reg_pool s)))
       NotEnoughBalanceToStake
    (let s = s\<lparr>reg_accounts := create_account_if_non_existent coldkey hotkey (reg_accounts s)\<rparr> in
     ensure (coldkey_owns_hotkey (reg_accounts s) coldkey hotkey) NonAssociatedColdKey
    (ensure (MaxAllowedUids s n \<noteq> 0) NoNeuronIdAvailable
    (and_then (remove_balance_from_coldkey_account env coldkey registration_cost (amm (reg_pool s)))
       (\<lambda>(actual_burn_amount, w).
     let pool = (reg_pool s)\<lparr>amm := w\<rparr> in
     and_then (swap_tao_for_alpha (env_swap env) n actual_burn_amount (max_price env) pool)
       (\<lambda>(r, pool).
     let burned_alpha = amount_paid_out r;
         pool = pool\<lparr>SubnetAlphaOut := (SubnetAlphaOut pool)(n := SubnetAlphaOut pool n - burned_alpha)\<rparr>;
         s = s\<lparr>reg_pool := pool\<rparr> in
     and_then (register_neuron (env_block env) n hotkey s) (\<lambda>(neuron_uid, s).
     let s = s\<lparr>
       BurnRegistrationsThisInterval := (BurnRegistrationsThisInterval s)(n := sat_add u16_max (BurnRegistrationsThisInterval s n) 1),
       RegistrationsThisInterval := (RegistrationsThisInterval s)(n := sat_add u16_max (RegistrationsThisInterval s n) 1),
       RegistrationsThisBlock := (RegistrationsThisBlock s)(n := sat_add u16_max (RegistrationsThisBlock s n) 1)\<rparr>
     in Inr (increase_rao_recycled n (Burn s n) s))))))))))))))"

definition check_work_block :: "nat \<Rightarrow> nat \<Rightarrow> (subtensor_error, 'b) result \<Rightarrow> (subtensor_error, 'b) result" where
  "check_work_block current_block_number block_number k =
     ensure (block_number \<le> current_block_number) InvalidWorkBlock
    (ensure (current_block_number - block_number < 3) InvalidWorkBlock k)"

definition do_registration ::
    "('a, 'w) registration_env \<Rightarrow> 'a origin \<Rightarrow> netuid \<Rightarrow> nat \<Rightarrow> nat \<Rightarrow> nat list \<Rightarrow> 'a \<Rightarrow> 'a \<Rightarrow>
     ('a, 'w) registration_state \<Rightarrow> (subtensor_error, ('a, 'w) registration_state) result" where
  "do_registration env og n block_number nonce work hotkey coldkey s =
     and_then (ensure_signed BadOrigin og) (\<lambda>signing_origin.
     ensure (signing_origin = hotkey) TransactorAccountShouldBeHotKey
    (ensure (\<not> is_root n) RegistrationNotPermittedOnRootSubnet
    (ensure (NetworksAdded s n) SubNetworkDoesNotExist
    (ensure (NetworkPowRegistrationAllowed s n) SubNetRegistrationDisabled
    (ensure (RegistrationsThisBlock s n < MaxRegistrationsPerBlock s n) TooManyRegistrationsThisBlock
    (ensure (RegistrationsThisInterval s n < sat_mul u16_max (TargetRegistrationsPerInterval s n) 3)
       TooManyRegistrationsThisInterval
    (ensure (Uids (reg_neurons s) n hotkey = None) HotKeyAlreadyRegisteredInSubNet
    (check_work_block (env_block env) block_number
    (and_then (vec_to_hash work) (\<lambda>work_hash.
     ensure (hash_meets_difficulty work_hash (Difficulty s n)) InvalidDifficulty
    (let seal = create_seal_hash env block_number nonce hotkey in
     ensure (seal = work_hash) InvalidSeal
    (let s = s\<lparr>UsedWork := (UsedWork s)(work \<mapsto> env_block env),
               reg_accounts := create_account_if_non_existent coldkey hotkey (reg_accounts s)\<rparr> in
     ensure (coldkey_owns_hotkey (reg_accounts s) coldkey hotkey) NonAssociatedColdKey
    (ensure (MaxAllowedUids s n \<noteq> 0) NoNeuronIdAvailable
    (and_then (register_neuron (env_block env) n hotkey s) (\<lambda>(neuron_uid, s).
     Inr (s\<lparr>
       POWRegistrationsThisInterval := (POWRegistrationsThisInterval s)(n := sat_add u16_max (POWRegistrationsThisInterval s n) 1),
       RegistrationsThisInterval := (RegistrationsThisInterval s)(n := sat_add u16_max (RegistrationsThisInterval s n) 1),
       RegistrationsThisBlock := (RegistrationsThisBlock s)(n := sat_add u16_max (RegistrationsThisBlock s n) 1)\<rparr>))))))))))))))))"

definition do_faucet ::
    "('a, 'w) registration_env \<Rightarrow> 'a origin \<Rightarrow> nat \<Rightarrow> nat \<Rightarrow> nat list \<Rightarrow>
     ('a, 'w) registration_state \<Rightarrow> (subtensor_error, ('a, 'w) registration_state) result" where
  "do_faucet env og block_number nonce work s =
     and_then (ensure_signed BadOrigin og) (\<lambda>coldkey.
     check_work_block (env_block env) block_number
    (and_then (vec_to_hash work) (\<lambda>work_hash.
     ensure (hash_meets_difficulty work_hash 1000000) InvalidDifficulty
    (let seal = create_seal_hash env block_number nonce coldkey in
     ensure (seal = work_hash) InvalidSeal
    (let s = s\<lparr>UsedWork := (UsedWork s)(work \<mapsto> env_block env)\<rparr>;
         balance_to_add = 1000000000000;
         s = coinbase 100000000000 s;
         pool = reg_pool s
     in Inr (s\<lparr>reg_pool := pool\<lparr>amm := env_deposit env coldkey balance_to_add (amm pool)\<rparr>\<rparr>))))))"

section \<open>What is pruned\<close>

text \<open>
  The order of pruning: lower score first, then earlier registration, then lower uid. The loop
  keeps two running minima, one per class of neurons; \<open>pick\<close> is the update of one of them.
\<close>

definition prune_le :: "(nat \<Rightarrow> nat) \<Rightarrow> (nat \<Rightarrow> nat) \<Rightarrow> nat \<Rightarrow> nat \<Rightarrow> bool" where
  "prune_le sc br u w \<longleftrightarrow> sc u < sc w \<or> sc u = sc w \<and> (br u < br w \<or> br u = br w \<and> u \<le> w)"

definition pick :: "(nat \<Rightarrow> nat) \<Rightarrow> (nat \<Rightarrow> nat) \<Rightarrow> nat \<Rightarrow> nat \<times> nat \<times> nat \<Rightarrow> nat \<times> nat \<times> nat" where
  "pick sc br u = (\<lambda>(m, e, i). if sc u < m \<or> sc u = m \<and> br u < e then (sc u, br u, u) else (m, e, i))"

lemma pick_fold:
  assumes "xs \<noteq> []" "sorted xs" "distinct xs" "\<forall>u \<in> set xs. sc u \<le> u16_max \<and> br u < u64_max"
  shows "\<exists>r \<in> set xs. fold (pick sc br) xs (u16_max, u64_max, i0) = (sc r, br r, r) \<and>
    (\<forall>w \<in> set xs. prune_le sc br r w)"
  using assms
proof (induction xs rule: rev_induct)
  case (snoc u xs)
  show ?case
  proof (cases "xs = []")
    case True
    with snoc.prems(4) show ?thesis by (auto simp: pick_def prune_le_def)
  next
    case False
    with snoc obtain r where r: "r \<in> set xs" "fold (pick sc br) xs (u16_max, u64_max, i0) = (sc r, br r, r)"
      "\<forall>w \<in> set xs. prune_le sc br r w" by (auto simp: sorted_append)
    have lt: "w < u" if "w \<in> set xs" for w
      using snoc.prems(2,3) that by (fastforce simp: sorted_append nat_less_le)
    have step: "fold (pick sc br) (xs @ [u]) (u16_max, u64_max, i0) =
        (if sc u < sc r \<or> sc u = sc r \<and> br u < br r then (sc u, br u, u) else (sc r, br r, r))"
      by (simp add: r(2)) (simp add: pick_def)
    show ?thesis
    proof (cases "sc u < sc r \<or> sc u = sc r \<and> br u < br r")
      case True
      have "prune_le sc br u w" if "w \<in> set (xs @ [u])" for w
        using True r(3) that by (cases "w = u") (force simp: prune_le_def)+
      with step True show ?thesis by (intro bexI[of _ u]) auto
    next
      case False
      have "prune_le sc br r w" if "w \<in> set (xs @ [u])" for w
        using False r(3) that lt[OF r(1)] by (cases "w = u") (auto simp: prune_le_def)
      with step False r(1) show ?thesis by (intro bexI[of _ r]) auto
    qed
  qed
qed simp

definition owner_uid :: "'a neurons \<Rightarrow> netuid \<Rightarrow> nat \<Rightarrow> bool" where
  "owner_uid ns n uid \<longleftrightarrow> Keys ns n uid \<noteq> None \<and> SubnetOwnerHotkey ns n = Keys ns n uid"

definition prunable :: "bool \<Rightarrow> nat \<Rightarrow> ('a, 'w) registration_state \<Rightarrow> netuid \<Rightarrow> nat \<Rightarrow> bool" where
  "prunable immune b s n u \<longleftrightarrow> \<not> owner_uid (reg_neurons s) n u \<and> get_neuron_is_immune b s n u = immune"

definition prune_before :: "('a, 'w) registration_state \<Rightarrow> netuid \<Rightarrow> nat \<Rightarrow> nat \<Rightarrow> bool" where
  "prune_before s n = prune_le (get_pruning_score_for_uid (reg_neurons s) n) (BlockAtRegistration (reg_neurons s) n)"

text \<open>The loop is two independent folds over the two classes.\<close>

lemma prune_fold_split:
  fixes s :: "('a, 'w) registration_state" and n :: netuid
  defines "sc \<equiv> get_pruning_score_for_uid (reg_neurons s) n"
    and "br \<equiv> BlockAtRegistration (reg_neurons s) n"
  shows "let v = fold (prune_step b s n) xs prune_start in
    (min_score v, earliest_registration v, uid_to_prune v) =
      fold (pick sc br) (filter (prunable False b s n) xs) (u16_max, u64_max, 0) \<and>
    (min_score_in_immunity v, earliest_registration_in_immunity v, uid_to_prune_in_immunity v) =
      fold (pick sc br) (filter (prunable True b s n) xs) (u16_max, u64_max, 0) \<and>
    (found_non_immune v \<longleftrightarrow> filter (prunable False b s n) xs \<noteq> [])"
proof (induction xs rule: rev_induct)
  case Nil
  show ?case by (simp add: prune_start_def)
next
  case (snoc u xs)
  define v where "v = fold (prune_step b s n) xs prune_start"
  have IH: "fold (pick sc br) (filter (prunable False b s n) xs) (u16_max, u64_max, 0) =
      (min_score v, earliest_registration v, uid_to_prune v)"
    "fold (pick sc br) (filter (prunable True b s n) xs) (u16_max, u64_max, 0) =
      (min_score_in_immunity v, earliest_registration_in_immunity v, uid_to_prune_in_immunity v)"
    "found_non_immune v \<longleftrightarrow> filter (prunable False b s n) xs \<noteq> []"
    using snoc by (simp_all add: v_def Let_def)
  have prunable_now: "prunable i b s n u \<longleftrightarrow> \<not> owner_uid (reg_neurons s) n u \<and> get_neuron_is_immune b s n u = i" for i
    by (simp add: prunable_def)
  have own: "(case get_hotkey_for_net_and_uid (reg_neurons s) n u of
      Inr hotkey \<Rightarrow> SubnetOwnerHotkey (reg_neurons s) n = Some hotkey | Inl _ \<Rightarrow> False) \<longleftrightarrow>
      owner_uid (reg_neurons s) n u"
    by (auto simp: owner_uid_def get_hotkey_for_net_and_uid_def ok_or_def split: option.splits)
  show ?case
    unfolding fold_append filter_append comp_def v_def[symmetric]
    using IH(3)
    by (cases "owner_uid (reg_neurons s) n u"; cases "get_neuron_is_immune b s n u")
      (simp_all add: prune_step_def own IH(1,2) Let_def pick_def prunable_now
        get_neuron_block_at_registration_def flip: sc_def br_def)
qed

lemma prune_le_upt:
  assumes "\<forall>u < k. sc u \<le> u16_max \<and> br u < u64_max" "\<exists>u < k. P u"
  shows "\<exists>r < k. P r \<and> fold (pick sc br) (filter P [0..<k]) (u16_max, u64_max, 0) = (sc r, br r, r) \<and>
    (\<forall>w < k. P w \<longrightarrow> prune_le sc br r w)"
proof -
  have "filter P [0..<k] \<noteq> []" "sorted (filter P [0..<k])" "distinct (filter P [0..<k])"
    "\<forall>u \<in> set (filter P [0..<k]). sc u \<le> u16_max \<and> br u < u64_max"
    using assms sorted_filter[of id "[0..<k]"] by (auto simp: filter_empty_conv)
  from pick_fold[OF this, of 0] show ?thesis by auto
qed

text \<open>The bounds on the stored values that the types of the storage give.\<close>

definition scores_ok :: "'a neurons \<Rightarrow> netuid \<Rightarrow> bool" where
  "scores_ok ns n \<longleftrightarrow> (\<forall>x \<in> set (PruningScores ns n). x \<le> u16_max) \<and> (\<forall>u. BlockAtRegistration ns n u < u64_max)"

lemma scores_okD: "scores_ok ns n \<Longrightarrow> get_pruning_score_for_uid ns n u \<le> u16_max \<and> BlockAtRegistration ns n u < u64_max"
  by (auto simp: scores_ok_def get_pruning_score_for_uid_def vec_get_def)

lemma scores_ok_set_pruning:
  "set_pruning_score_for_uid n r u16_max ns = Inr ns' \<Longrightarrow> scores_ok ns m \<Longrightarrow> scores_ok ns' m"
  using set_update_subset_insert[of "PruningScores ns n" r u16_max]
  by (auto simp: set_pruning_score_for_uid_def scores_ok_def set_element_at_def split: if_splits)

lemma scores_ok_append: "scores_ok ns m \<Longrightarrow> b < u64_max \<Longrightarrow> scores_ok (append_neuron n h b ns) m"
  by (auto simp: scores_ok_def append_neuron_def Let_def)

lemma scores_ok_replace: "scores_ok ns m \<Longrightarrow> b < u64_max \<Longrightarrow> scores_ok (replace_neuron n r h b ns) m"
  by (auto simp: scores_ok_def replace_neuron_def clear_neuron_def set_active_for_uid_def Let_def)

definition prune_choice :: "nat \<Rightarrow> ('a, 'w) registration_state \<Rightarrow> netuid \<Rightarrow> nat \<Rightarrow> bool" where
  "prune_choice b s n r \<longleftrightarrow>
     (let N = SubnetworkN (reg_neurons s) n;
          immune = (\<forall>u < N. \<not> prunable False b s n u) in
      if \<forall>u < N. owner_uid (reg_neurons s) n u then r = 0
      else r < N \<and> prunable immune b s n r \<and> (\<forall>w < N. prunable immune b s n w \<longrightarrow> prune_before s n r w))"

lemma get_neuron_to_prune_choice:
  assumes "0 < SubnetworkN (reg_neurons s) n" "scores_ok (reg_neurons s) n"
  obtains r ns where "get_neuron_to_prune b s n = Inr (r, s\<lparr>reg_neurons := ns\<rparr>)"
    "prune_choice b s n r" "r < SubnetworkN (reg_neurons s) n"
    "set_pruning_score_for_uid n r u16_max (reg_neurons s) = Inr ns"
proof -
  let ?N = "SubnetworkN (reg_neurons s) n"
  let ?sc = "get_pruning_score_for_uid (reg_neurons s) n" and ?br = "BlockAtRegistration (reg_neurons s) n"
  define v where "v = fold (prune_step b s n) [0..<?N] prune_start"
  define r where "r = (if found_non_immune v then uid_to_prune v else uid_to_prune_in_immunity v)"
  note split = prune_fold_split[where s = s and n = n and b = b and xs = "[0..<?N]", folded v_def, unfolded Let_def]
  have bnd: "\<forall>u < ?N. ?sc u \<le> u16_max \<and> ?br u < u64_max" using scores_okD[OF assms(2)] by blast
  have ne: "(filter (prunable i b s n) [0..<?N] \<noteq> []) \<longleftrightarrow> (\<exists>u < ?N. prunable i b s n u)" for i
    by (auto simp: filter_empty_conv)
  have "prune_choice b s n r \<and> r < ?N"
  proof (cases "\<exists>u < ?N. prunable False b s n u")
    case True
    then have "\<not> (\<forall>u < ?N. owner_uid (reg_neurons s) n u)" by (auto simp: prunable_def)
    moreover have im: "(\<forall>u < ?N. \<not> prunable False b s n u) \<longleftrightarrow> False" using True by blast
    ultimately show ?thesis using prune_le_upt[OF bnd True] split True ne[of False]
      by (auto simp: r_def prune_choice_def prune_before_def Let_def im)
  next
    case False
    then have nf: "\<not> found_non_immune v" using split ne[of False] by simp
    show ?thesis
    proof (cases "\<exists>u < ?N. prunable True b s n u")
      case True
      then have "\<not> (\<forall>u < ?N. owner_uid (reg_neurons s) n u)" by (auto simp: prunable_def)
      with prune_le_upt[OF bnd True] split False nf show ?thesis
        by (auto simp: r_def prune_choice_def prune_before_def Let_def)
    next
      case none: False
      have "\<forall>u < ?N. owner_uid (reg_neurons s) n u"
        using none False by (metis (full_types) prunable_def)
      moreover have "r = 0" using split nf none ne[of True] by (simp add: r_def)
      ultimately show ?thesis using assms(1) by (simp add: prune_choice_def)
    qed
  qed
  moreover from this have "get_neuron_to_prune b s n = Inr (r, s\<lparr>reg_neurons := (reg_neurons s)
      \<lparr>PruningScores := (PruningScores (reg_neurons s))(n := set_element_at (PruningScores (reg_neurons s) n) r u16_max)\<rparr>\<rparr>)"
    using assms(1)
    by (simp add: get_neuron_to_prune_def get_subnetwork_n_def set_pruning_score_for_uid_def
        Let_def flip: v_def r_def)
  ultimately show thesis
    by (intro that) (auto simp: set_pruning_score_for_uid_def)
qed

section \<open>Registration keeps the slots consistent\<close>

lemma set_pruning_score_inv:
  assumes "set_pruning_score_for_uid n r x ns = Inr ns'"
  shows "neurons_inv ns' m \<longleftrightarrow> neurons_inv ns m" "Keys ns' = Keys ns" "Uids ns' = Uids ns"
    "SubnetworkN ns' = SubnetworkN ns" "SubnetOwnerHotkey ns' = SubnetOwnerHotkey ns"
    "IsNetworkMember ns' = IsNetworkMember ns"
proof -
  from assms have ns': "ns' = ns\<lparr>PruningScores := (PruningScores ns)(n := set_element_at (PruningScores ns n) r x)\<rparr>"
    by (simp add: set_pruning_score_for_uid_def)
  show "neurons_inv ns' m \<longleftrightarrow> neurons_inv ns m"
    by (rule neurons_inv_cong) (simp_all add: ns' vectors_length_def set_element_at_def)
qed (use assms in \<open>auto simp: set_pruning_score_for_uid_def\<close>)

text \<open>The slots are full and the only one belongs to the subnet owner.\<close>

definition only_owner_slot :: "('a, 'w) registration_state \<Rightarrow> netuid \<Rightarrow> bool" where
  "only_owner_slot s n \<longleftrightarrow> MaxAllowedUids s n \<le> 1 \<and> SubnetworkN (reg_neurons s) n = 1 \<and>
     owner_uid (reg_neurons s) n 0"

lemma owner_uid_unique:
  assumes "neurons_inv ns n" "owner_uid ns n u" "owner_uid ns n v"
  shows "u = v"
proof -
  have sl: "slots_inv ns n" using assms(1) by (simp add: neurons_inv_def)
  from assms(2,3) obtain h where "Keys ns n u = Some h" "Keys ns n v = Some h" by (auto simp: owner_uid_def)
  then show ?thesis by (simp add: slots_invD(2)[OF sl])
qed

lemma choice_owner:
  assumes inv: "neurons_inv (reg_neurons s) n" and ch: "prune_choice b s n r"
    and r: "r < SubnetworkN (reg_neurons s) n" and own: "owner_uid (reg_neurons s) n r"
  shows "SubnetworkN (reg_neurons s) n = 1 \<and> r = 0"
proof -
  have all: "\<forall>u < SubnetworkN (reg_neurons s) n. owner_uid (reg_neurons s) n u"
    using ch own by (auto simp: prune_choice_def prunable_def Let_def split: if_splits)
  with owner_uid_unique[OF inv] r have "\<And>u. u < SubnetworkN (reg_neurons s) n \<Longrightarrow> u = r" by blast
  from this[of 0] this[of "SubnetworkN (reg_neurons s) n - 1"] r show ?thesis by force
qed

text \<open>\<open>register_neuron\<close> on a consistent subnet with at least one slot: it returns, keeps the
  consistency of all subnets, and the hotkey gets the returned uid unless the only slot is the
  owner's, in which case nothing is replaced.\<close>

lemma register_neuron_spec:
  assumes inv: "\<And>m. neurons_inv (reg_neurons s) m" and fresh: "Uids (reg_neurons s) n h = None"
    and max: "MaxAllowedUids s n \<noteq> 0" "MaxAllowedUids s n \<le> u16_max" 
    and sc: "\<And>m. scores_ok (reg_neurons s) m" and b: "b < u64_max"
  obtains r ns where "register_neuron b n h s = Inr (r, s\<lparr>reg_neurons := ns\<rparr>)"
    "\<forall>m. neurons_inv ns m" "\<forall>m. scores_ok ns m"
    "if only_owner_slot s n then Uids ns = Uids (reg_neurons s) else Uids ns n h = Some r"
    "SubnetworkN ns n \<le> max (SubnetworkN (reg_neurons s) n) (MaxAllowedUids s n)"
proof (cases "SubnetworkN (reg_neurons s) n < MaxAllowedUids s n")
  case True
  let ?ns = "append_neuron n h b (reg_neurons s)"
  have "neurons_inv ?ns m" for m
    using True max(2) inv fresh by (cases "m = n") (auto intro: append_neuron_inv simp: neurons_inv_frame)
  moreover have "register_neuron b n h s = Inr (SubnetworkN (reg_neurons s) n, s\<lparr>reg_neurons := ?ns\<rparr>)"
    using True by (simp add: register_neuron_def get_subnetwork_n_def)
  moreover have "\<not> only_owner_slot s n" using True max by (auto simp: only_owner_slot_def)
  ultimately show thesis
    using True sc b by (intro that) (auto simp: append_neuron_fields sat_add_def intro: scores_ok_append)
next
  case False
  then have N: "0 < SubnetworkN (reg_neurons s) n" using max(1) by simp
  obtain r ns where p: "get_neuron_to_prune b s n = Inr (r, s\<lparr>reg_neurons := ns\<rparr>)"
    and ch: "prune_choice b s n r" and r: "r < SubnetworkN (reg_neurons s) n"
    and ns: "set_pruning_score_for_uid n r u16_max (reg_neurons s) = Inr ns"
    using get_neuron_to_prune_choice[OF N sc] .
  note P = set_pruning_score_inv[OF ns]
  let ?ns = "replace_neuron n r h b ns"
  have inv': "neurons_inv ?ns m" for m
    using inv fresh r by (cases "m = n") (auto intro!: replace_neuron_inv simp: neurons_inv_frame P)
  have reg: "register_neuron b n h s = Inr (r, s\<lparr>reg_neurons := ?ns\<rparr>)"
    using False p by (simp add: register_neuron_def get_subnetwork_n_def)
  have sc': "scores_ok ?ns m" for m
    using scores_ok_replace[OF scores_ok_set_pruning[OF ns sc] b] .
  have sl: "slots_inv (reg_neurons s) n" using inv by (simp add: neurons_inv_def)
  obtain k where k: "Keys (reg_neurons s) n r = Some k" using slot_taken[OF sl r] .
  have own: "is_owner_slot ns n r \<longleftrightarrow> owner_uid (reg_neurons s) n r"
    by (simp add: is_owner_slot_def owner_uid_def get_key_def P k)
  have oo: "owner_uid (reg_neurons s) n r \<longleftrightarrow> only_owner_slot s n"
    using choice_owner[OF inv ch r] False r max(1) by (auto simp: only_owner_slot_def)
  show thesis
  proof (cases "only_owner_slot s n")
    case True
    with own oo have "?ns = ns" by (simp add: replace_neuron_owner)
    with True reg inv' sc' P show thesis by (intro that[of r ?ns]) simp_all
  next
    case nf: False
    with own oo have "\<not> is_owner_slot ns n r" by simp
    with nf reg inv' sc' P show thesis by (intro that[of r ?ns]) (simp_all add: replace_neuron_fields)
  qed
qed

definition registration_inv :: "('a, 'w) registration_state \<Rightarrow> bool" where
  "registration_inv s \<longleftrightarrow>
     (\<forall>m. neurons_inv (reg_neurons s) m \<and> scores_ok (reg_neurons s) m \<and> MaxAllowedUids s m \<le> u16_max \<and>
        MaxRegistrationsPerBlock s m \<le> u16_max) \<and>
     accounts_inv (reg_accounts s)"

text \<open>What a successful registration of either kind shares.\<close>

definition registered ::
    "('a, 'w) registration_state \<Rightarrow> netuid \<Rightarrow> 'a \<Rightarrow> 'a \<Rightarrow> ('a, 'w) registration_state \<Rightarrow> bool" where
  "registered s n hotkey coldkey s' \<longleftrightarrow>
     registration_inv s' \<and>
     Owner (reg_accounts s') hotkey = Some coldkey \<and>
     (if only_owner_slot s n then Uids (reg_neurons s') = Uids (reg_neurons s)
      else \<exists>uid. Uids (reg_neurons s') n hotkey = Some uid \<and> Keys (reg_neurons s') n uid = Some hotkey) \<and>
     RegistrationsThisBlock s' n = RegistrationsThisBlock s n + 1 \<and>
     RegistrationsThisBlock s' n \<le> MaxRegistrationsPerBlock s n \<and>
     RegistrationsThisInterval s' n = RegistrationsThisInterval s n + 1"

lemma register_registered:
  assumes "registration_inv s" "Uids (reg_neurons s) n h = None" "MaxAllowedUids s n \<noteq> 0" "b < u64_max"
    and "register_neuron b n h (s\<lparr>reg_pool := p, reg_accounts := a, UsedWork := uw\<rparr>) = Inr (u, s1)"
    and "accounts_inv a"
  obtains ns where "s1 = s\<lparr>reg_pool := p, reg_accounts := a, UsedWork := uw, reg_neurons := ns\<rparr>"
    "\<forall>m. neurons_inv ns m" "\<forall>m. scores_ok ns m"
    "if only_owner_slot s n then Uids ns = Uids (reg_neurons s) else Uids ns n h = Some u"
proof -
  let ?s = "s\<lparr>reg_pool := p, reg_accounts := a, UsedWork := uw\<rparr>"
  obtain r ns where r: "register_neuron b n h ?s = Inr (r, ?s\<lparr>reg_neurons := ns\<rparr>)"
    "\<forall>m. neurons_inv ns m" "\<forall>m. scores_ok ns m"
    "if only_owner_slot ?s n then Uids ns = Uids (reg_neurons ?s) else Uids ns n h = Some r"
    by (rule register_neuron_spec[of ?s n h b]) (use assms(1-4) in \<open>auto simp: registration_inv_def\<close>)
  have "only_owner_slot ?s n \<longleftrightarrow> only_owner_slot s n" by (simp add: only_owner_slot_def)
  with r assms(5) show thesis by (intro that[of ns]) simp_all
qed

lemma counter_inc: "x < y \<Longrightarrow> y \<le> u16_max \<Longrightarrow> sat_add u16_max x 1 = x + 1"
  by (simp add: sat_add_def)

lemma sat_mul_le: "sat_mul m a b \<le> m"
  by (simp add: sat_mul_def)

text \<open>The state that the counters are updated on after \<open>register_neuron\<close>.\<close>

lemma registered_intro:
  assumes inv: "registration_inv s" and fresh: "Uids (reg_neurons s) n h = None" and mx: "MaxAllowedUids s n \<noteq> 0"
    and b: "b < u64_max"
    and reg: "register_neuron b n h (s\<lparr>reg_pool := p, reg_accounts := create_account_if_non_existent c h (reg_accounts s), UsedWork := uw\<rparr>) = Inr (u, s1)"
    and own: "coldkey_owns_hotkey (create_account_if_non_existent c h (reg_accounts s)) c h"
    and blk: "RegistrationsThisBlock s n < MaxRegistrationsPerBlock s n"
    and int: "RegistrationsThisInterval s n < sat_mul u16_max (TargetRegistrationsPerInterval s n) 3"
    and s': "reg_neurons s' = reg_neurons s1" "reg_accounts s' = reg_accounts s1"
      "MaxAllowedUids s' = MaxAllowedUids s1" "MaxRegistrationsPerBlock s' = MaxRegistrationsPerBlock s1"
      "RegistrationsThisBlock s' n = sat_add u16_max (RegistrationsThisBlock s1 n) 1"
      "RegistrationsThisInterval s' n = sat_add u16_max (RegistrationsThisInterval s1 n) 1"
  shows "registered s n h c s'"
proof -
  let ?a = "create_account_if_non_existent c h (reg_accounts s)"
  have ai: "accounts_inv ?a" using inv by (simp add: registration_inv_def create_account_inv)
  obtain ns where s1: "s1 = s\<lparr>reg_pool := p, reg_accounts := ?a, UsedWork := uw, reg_neurons := ns\<rparr>"
    and ni: "\<forall>m. neurons_inv ns m" and so: "\<forall>m. scores_ok ns m"
    and u: "if only_owner_slot s n then Uids ns = Uids (reg_neurons s) else Uids ns n h = Some u"
    using register_registered[OF inv fresh mx b reg ai] .
  have "slots_inv ns n" using ni by (simp add: neurons_inv_def)
  from slots_invD(2)[OF this] u have k: "if only_owner_slot s n then Uids ns = Uids (reg_neurons s)
      else \<exists>uid. Uids ns n h = Some uid \<and> Keys ns n uid = Some h" by auto
  have mb: "MaxRegistrationsPerBlock s n \<le> u16_max" using inv by (simp add: registration_inv_def)
  have "registration_inv s'" using inv ni so ai by (simp add: registration_inv_def s' s1)
  then show ?thesis
    using own k counter_inc[OF blk mb] counter_inc[OF int sat_mul_le] blk
    by (simp add: registered_def s' s1)
qed

text \<open>C21. A successful burned registration keeps every subnet consistent (uids and hotkeys are in
  bijection, all vectors have one entry per slot), gives the hotkey a slot and leaves the caller
  as its owner, and counts as one registration within the block limit. The exception is a full
  subnet whose only slot is the owner's: the burn is taken and counted, but no slot changes.\<close>

theorem burned_registration_registers:
  assumes "registration_inv s" "env_block env < u64_max"
    and "do_burned_registration env og n hotkey s = Inr s'"
  shows "\<exists>coldkey. og = Signed coldkey \<and> \<not> is_root n \<and> NetworksAdded s n \<and>
    Uids (reg_neurons s) n hotkey = None \<and> registered s n hotkey coldkey s'"
proof -
  from assms(3) obtain c where og: "og = Signed c" and nr: "\<not> is_root n" and na: "NetworksAdded s n"
    and blk: "RegistrationsThisBlock s n < MaxRegistrationsPerBlock s n"
    and int: "RegistrationsThisInterval s n < sat_mul u16_max (TargetRegistrationsPerInterval s n) 3"
    and fresh: "Uids (reg_neurons s) n hotkey = None" and mx: "MaxAllowedUids s n \<noteq> 0"
    by (auto simp: do_burned_registration_def Let_def)
  let ?a = "create_account_if_non_existent c hotkey (reg_accounts s)"
  from assms(3) og obtain p u s1 where own: "coldkey_owns_hotkey ?a c hotkey"
    and reg: "register_neuron (env_block env) n hotkey (s\<lparr>reg_accounts := ?a, reg_pool := p\<rparr>) = Inr (u, s1)"
    and s': "s' = increase_rao_recycled n (Burn s1 n) (s1\<lparr>
       BurnRegistrationsThisInterval := (BurnRegistrationsThisInterval s1)(n := sat_add u16_max (BurnRegistrationsThisInterval s1 n) 1),
       RegistrationsThisInterval := (RegistrationsThisInterval s1)(n := sat_add u16_max (RegistrationsThisInterval s1 n) 1),
       RegistrationsThisBlock := (RegistrationsThisBlock s1)(n := sat_add u16_max (RegistrationsThisBlock s1 n) 1)\<rparr>)"
    by (auto simp: do_burned_registration_def Let_def)
  have eq: "s\<lparr>reg_accounts := ?a, reg_pool := p\<rparr> =
      s\<lparr>reg_pool := p, reg_accounts := ?a, UsedWork := UsedWork s\<rparr>" by simp
  have "registered s n hotkey c s'"
    by (rule registered_intro[OF assms(1) fresh mx assms(2) reg[unfolded eq] own blk int])
      (simp_all add: s' increase_rao_recycled_def)
  with og nr na fresh show ?thesis by blast
qed

text \<open>A concrete environment: accounts are numbers, the world is the function of balances, the
  market maker is not used (mechanism 0) and every hash is zero.\<close>

definition sample_env :: "(nat, nat \<Rightarrow> nat) registration_env" where
  "sample_env = \<lparr>env_block = 10, reducible_balance = (\<lambda>w a. w a), can_withdraw = (\<lambda>w a x. x \<le> w a),
     env_withdraw = (\<lambda>a x w. if x \<le> w a then Some (x, w(a := w a - x)) else None),
     env_deposit = (\<lambda>a x w. w(a := w a + x)), env_swap = (\<lambda>n or x l d p. Inl (Other ''none'')),
     max_price = 1000, block_hash = (\<lambda>b. replicate 32 b), keccak_256 = (\<lambda>_. replicate 32 0),
     sha2_256 = (\<lambda>_. replicate 32 0), encode_account = (\<lambda>a. replicate 32 a)\<rparr>"

definition empty_neurons :: "nat neurons" where
  "empty_neurons = \<lparr>DefaultAccount = 0, SubnetworkN = (\<lambda>_. 0), Keys = (\<lambda>_ _. None), Uids = (\<lambda>_ _. None),
     IsNetworkMember = (\<lambda>_ _. None), BlockAtRegistration = (\<lambda>_ _. 0), SubnetOwnerHotkey = (\<lambda>_. Some 5),
     Rank = (\<lambda>_. []), Trust = (\<lambda>_. []), Active = (\<lambda>_. []), Emission = (\<lambda>_. []), Consensus = (\<lambda>_. []),
     Incentive = (\<lambda>_. []), Dividends = (\<lambda>_. []), LastUpdate = (\<lambda>_. []), PruningScores = (\<lambda>_. []),
     ValidatorTrust = (\<lambda>_. []), ValidatorPermit = (\<lambda>_. []), Bonds = (\<lambda>_ _. []),
     NeuronCertificates = (\<lambda>_ _. None), Axons = (\<lambda>_ _. None)\<rparr>"

definition sample_state :: "nat neurons \<Rightarrow> nat \<Rightarrow> (nat, nat \<Rightarrow> nat) registration_state" where
  "sample_state ns slots = \<lparr>reg_neurons = ns,
     reg_accounts = \<lparr>Owner = (\<lambda>_. None), OwnedHotkeys = (\<lambda>_. []), StakingHotkeys = (\<lambda>_. [])\<rparr>,
     reg_pool = \<lparr>SubnetMechanism = (\<lambda>_. 0), SubnetTAO = (\<lambda>_. 0), SubnetTaoProvided = (\<lambda>_. 0),
       SubnetAlphaIn = (\<lambda>_. 0), SubnetAlphaInProvided = (\<lambda>_. 0), SubnetAlphaOut = (\<lambda>_. 0),
       SubnetVolume = (\<lambda>_. 0), TotalStake = 0, amm = (\<lambda>_. 50)\<rparr>,
     NetworksAdded = (\<lambda>_. True), NetworkRegistrationAllowed = (\<lambda>_. True),
     NetworkPowRegistrationAllowed = (\<lambda>_. True), MaxRegistrationsPerBlock = (\<lambda>_. 1),
     TargetRegistrationsPerInterval = (\<lambda>_. 1), MaxAllowedUids = (\<lambda>_. slots), ImmunityPeriod = (\<lambda>_. 4),
     Burn = (\<lambda>_. 7), Difficulty = (\<lambda>_. 1000), RegistrationsThisBlock = (\<lambda>_. 0),
     RegistrationsThisInterval = (\<lambda>_. 0), BurnRegistrationsThisInterval = (\<lambda>_. 0),
     POWRegistrationsThisInterval = (\<lambda>_. 0), RAORecycledForRegistration = (\<lambda>_. 0),
     UsedWork = (\<lambda>_. None), TotalIssuance = 0\<rparr>"

definition sample_neurons :: "nat neurons" where
  "sample_neurons = append_neuron 1 8 2 (append_neuron 1 7 3 (append_neuron 1 5 1 empty_neurons))"

lemma empty_neurons_inv: "neurons_inv empty_neurons m" "scores_ok empty_neurons m"
  by (simp_all add: neurons_inv_def slots_inv_def vectors_length_def scores_ok_def empty_neurons_def u64_max_def)

lemma sample_neurons_inv: "neurons_inv sample_neurons m" "scores_ok sample_neurons m"
proof -
  have u: "Uids empty_neurons n h = None" "SubnetworkN empty_neurons n = 0" for n h
    by (simp_all add: empty_neurons_def)
  show "neurons_inv sample_neurons m"
    unfolding sample_neurons_def
    by (cases "m = 1") (simp_all add: neurons_inv_frame append_neuron_inv append_neuron_fields
        sat_add_def u16_max_def u empty_neurons_inv)
  show "scores_ok sample_neurons m"
    unfolding sample_neurons_def
    by (intro scores_ok_append empty_neurons_inv) (simp_all add: u64_max_def)
qed

lemma sample_state_inv:
  assumes "\<And>m. neurons_inv ns m" "\<And>m. scores_ok ns m" "slots \<le> u16_max"
  shows "registration_inv (sample_state ns slots)"
  using assms by (simp add: registration_inv_def sample_state_def accounts_inv_def u16_max_def)

lemma from_little_endian_zero: "from_little_endian (replicate k 0) = 0"
  by (induction k) (simp_all add: from_little_endian_def)

lemmas registration_eval = sample_env_def empty_neurons_def sample_neurons_def sample_state_def
  do_burned_registration_def do_registration_def do_faucet_def check_work_block_def vec_to_hash_def
  register_neuron_def get_neuron_to_prune_def prune_step_def prune_start_def get_neuron_is_immune_def
  create_seal_hash_def hash_meets_difficulty_def overflowing_mul_def
  can_remove_balance_from_coldkey_account_def remove_balance_from_coldkey_account_def
  swap_tao_for_alpha_def increase_rao_recycled_def coinbase_def set_pruning_score_for_uid_def
  get_hotkey_for_net_and_uid_def get_pruning_score_for_uid_def get_neuron_block_at_registration_def
  create_account_if_non_existent_def hotkey_account_exists_def push_unique_def vec_get_def
  is_root_def root_netuid_def neuron_op_defs sat_add_def sat_mul_def u16_max_def u64_max_def upt_conv_Cons

theorem burned_registration_registers_witness:
  "\<exists>s'. do_burned_registration sample_env (Signed 9) 1 6 (sample_state empty_neurons 2) = Inr s' \<and>
    registered (sample_state empty_neurons 2) 1 6 9 s'"
proof -
  obtain s' where s': "do_burned_registration sample_env (Signed 9) 1 6 (sample_state empty_neurons 2) = Inr s'"
    by (simp add: registration_eval)
  have "registration_inv (sample_state empty_neurons 2)"
    by (rule sample_state_inv) (simp_all add: empty_neurons_inv u16_max_def)
  from burned_registration_registers[OF this _ s'] s' show ?thesis
    by (auto simp: sample_env_def u64_max_def)
qed

text \<open>On a subnet with neurons, \<open>get_neuron_to_prune\<close> never fails and returns a slot of
  the subnet: among the neurons that are not the owner's and not immune the one that is first
  by score, registration block and uid; if all of those are immune, the first of the immune
  ones in the same order; and 0 if every neuron is the owner's.\<close>

theorem get_neuron_to_prune_first:
  assumes "0 < SubnetworkN (reg_neurons s) n" "scores_ok (reg_neurons s) n"
  shows "\<exists>r s'. get_neuron_to_prune b s n = Inr (r, s') \<and> r < SubnetworkN (reg_neurons s) n \<and>
    prune_choice b s n r \<and> get_pruning_score_for_uid (reg_neurons s') n r = u16_max"
proof -
  obtain r ns where h: "get_neuron_to_prune b s n = Inr (r, s\<lparr>reg_neurons := ns\<rparr>)"
    "prune_choice b s n r" "r < SubnetworkN (reg_neurons s) n"
    "set_pruning_score_for_uid n r u16_max (reg_neurons s) = Inr ns"
    using get_neuron_to_prune_choice[OF assms] .
  then have "get_pruning_score_for_uid ns n r = u16_max"
    by (auto simp: set_pruning_score_for_uid_def get_pruning_score_for_uid_def vec_get_def set_element_at_def)
  with h show ?thesis by auto
qed

theorem get_neuron_to_prune_first_witness:
  "\<exists>s'. get_neuron_to_prune 10 (sample_state sample_neurons 3) 1 = Inr (2, s') \<and>
    prune_choice 10 (sample_state sample_neurons 3) 1 2"
proof -
  have N: "SubnetworkN (reg_neurons (sample_state sample_neurons 3)) 1 = 3"
    by (simp add: registration_eval)
  have r: "\<exists>s'. get_neuron_to_prune 10 (sample_state sample_neurons 3) 1 = Inr (2, s')"
    by (simp add: registration_eval)
  have "scores_ok (reg_neurons (sample_state sample_neurons 3)) 1"
    by (simp add: sample_neurons_inv sample_state_def)
  from get_neuron_to_prune_first[OF _ this, of 10] N r show ?thesis by auto
qed

text \<open>Registration by proof of work: the work is a hash of 32 bytes that meets the difficulty
  and is the seal of the hotkey for a block at most two blocks old, it is recorded as used, and
  the registration has the same effect on slots, ownership and counters as a burned one.\<close>

theorem pow_registration_registers:
  assumes "registration_inv s" "env_block env < u64_max"
    and "do_registration env og n block_number nonce work hotkey coldkey s = Inr s'"
  shows "og = Signed hotkey \<and> length work = 32 \<and> work = create_seal_hash env block_number nonce hotkey
    \<and> from_little_endian work * Difficulty s n < 2 ^ 256
    \<and> block_number \<le> env_block env \<and> env_block env \<le> block_number + 2
    \<and> UsedWork s' work = Some (env_block env) \<and> registered s n hotkey coldkey s'"
proof -
  let ?a = "create_account_if_non_existent coldkey hotkey (reg_accounts s)"
  let ?uw = "(UsedWork s)(work \<mapsto> env_block env)"
  from assms(3) have og: "og = Signed hotkey"
    and blk: "RegistrationsThisBlock s n < MaxRegistrationsPerBlock s n"
    and int: "RegistrationsThisInterval s n < sat_mul u16_max (TargetRegistrationsPerInterval s n) 3"
    and fresh: "Uids (reg_neurons s) n hotkey = None" and mx: "MaxAllowedUids s n \<noteq> 0"
    and own: "coldkey_owns_hotkey ?a coldkey hotkey"
    and w: "length work = 32" "work = create_seal_hash env block_number nonce hotkey"
      "from_little_endian work * Difficulty s n < 2 ^ 256"
      "block_number \<le> env_block env" "env_block env \<le> block_number + 2"
    by (auto simp: do_registration_def Let_def check_work_block_def vec_to_hash_def
        hash_meets_difficulty_def overflowing_mul_def)
  from assms(3) og obtain u s1 where
    reg: "register_neuron (env_block env) n hotkey (s\<lparr>UsedWork := ?uw, reg_accounts := ?a\<rparr>) = Inr (u, s1)"
    and s': "s' = s1\<lparr>
       POWRegistrationsThisInterval := (POWRegistrationsThisInterval s1)(n := sat_add u16_max (POWRegistrationsThisInterval s1 n) 1),
       RegistrationsThisInterval := (RegistrationsThisInterval s1)(n := sat_add u16_max (RegistrationsThisInterval s1 n) 1),
       RegistrationsThisBlock := (RegistrationsThisBlock s1)(n := sat_add u16_max (RegistrationsThisBlock s1 n) 1)\<rparr>"
    by (auto simp: do_registration_def Let_def check_work_block_def vec_to_hash_def)
  have eq: "s\<lparr>UsedWork := ?uw, reg_accounts := ?a\<rparr> =
      s\<lparr>reg_pool := reg_pool s, reg_accounts := ?a, UsedWork := ?uw\<rparr>" by simp
  note reg' = reg[unfolded eq]
  have ai: "accounts_inv ?a" using assms(1) by (simp add: registration_inv_def create_account_inv)
  obtain ns where "s1 = s\<lparr>reg_pool := reg_pool s, reg_accounts := ?a, UsedWork := ?uw, reg_neurons := ns\<rparr>"
    using register_registered[OF assms(1) fresh mx assms(2) reg' ai] .
  then have "UsedWork s' work = Some (env_block env)" by (simp add: s')
  moreover have "registered s n hotkey coldkey s'"
    by (rule registered_intro[OF assms(1) fresh mx assms(2) reg' own blk int]) (simp_all add: s')
  ultimately show ?thesis using og w by simp
qed

theorem pow_registration_registers_witness:
  "\<exists>s'. do_registration sample_env (Signed 6) 1 9 77 (replicate 32 0) 6 9 (sample_state empty_neurons 2) = Inr s' \<and>
    registered (sample_state empty_neurons 2) 1 6 9 s'"
proof -
  obtain s' where s': "do_registration sample_env (Signed 6) 1 9 77 (replicate 32 0) 6 9
      (sample_state empty_neurons 2) = Inr s'"
    by (simp add: registration_eval from_little_endian_zero)
  have "registration_inv (sample_state empty_neurons 2)"
    by (rule sample_state_inv) (simp_all add: empty_neurons_inv u16_max_def)
  from pow_registration_registers[OF this _ s'] s' show ?thesis
    by (auto simp: sample_env_def u64_max_def)
qed

text \<open>When the only slot of a full subnet belongs to the subnet owner, a burned registration
  succeeds, takes the burn from the caller and counts as a registration, but the hotkey is not
  registered.\<close>

theorem burned_registration_without_slot:
  "\<exists>s s'. registration_inv s \<and> do_burned_registration sample_env (Signed 9) 1 6 s = Inr s' \<and>
    amm (reg_pool s) 9 = 50 \<and> amm (reg_pool s') 9 = 43 \<and> RegistrationsThisBlock s' 1 = 1 \<and>
    Uids (reg_neurons s') 1 6 = None"
proof -
  let ?ns = "append_neuron 1 5 1 empty_neurons"
  have "neurons_inv ?ns m" for m
    by (cases "m = 1") (simp_all add: neurons_inv_frame empty_neurons_inv append_neuron_inv, 
        simp_all add: empty_neurons_def u16_max_def append_neuron_inv empty_neurons_inv[unfolded empty_neurons_def])
  then have "registration_inv (sample_state ?ns 1)"
    by (intro sample_state_inv scores_ok_append empty_neurons_inv) (simp_all add: u64_max_def u16_max_def)
  moreover have "\<exists>s'. do_burned_registration sample_env (Signed 9) 1 6 (sample_state ?ns 1) = Inr s' \<and>
      amm (reg_pool (sample_state ?ns 1)) 9 = 50 \<and> amm (reg_pool s') 9 = 43 \<and>
      RegistrationsThisBlock s' 1 = 1 \<and> Uids (reg_neurons s') 1 6 = None"
    by (simp add: registration_eval)
  ultimately show ?thesis by blast
qed

section \<open>Work\<close>

definition nonce_meets :: "('a, 'w) registration_env \<Rightarrow> nat \<Rightarrow> nat \<Rightarrow> 'a \<Rightarrow> nat \<Rightarrow> bool" where
  "nonce_meets env d b h k \<longleftrightarrow> hash_meets_difficulty (create_seal_hash env b k h) d"

definition first_nonce :: "('a, 'w) registration_env \<Rightarrow> nat \<Rightarrow> nat \<Rightarrow> 'a \<Rightarrow> nat \<Rightarrow> nat \<Rightarrow> bool" where
  "first_nonce env d b h k m \<longleftrightarrow> k \<le> m \<and> m \<le> u64_max \<and> nonce_meets env d b h m \<and>
     (\<forall>j. k \<le> j \<longrightarrow> j < m \<longrightarrow> \<not> nonce_meets env d b h j)"

lemma first_nonce_step:
  "\<not> nonce_meets env d b h k \<Longrightarrow> k \<le> u64_max \<Longrightarrow>
     first_nonce env d b h (sat_add u64_max k 1) m \<Longrightarrow> first_nonce env d b h k m"
  by (cases "k = u64_max") (auto simp: first_nonce_def sat_add_def nat_less_le Suc_le_eq)

lemma work_loop_sound:
  assumes "create_work_loop env d b h k = Some r"
  shows "k \<le> u64_max \<longrightarrow> first_nonce env d b h k (fst r) \<and> snd r = create_seal_hash env b (fst r) h"
  using assms
proof (rule create_work_loop.raw_induct[where
      P = "\<lambda>env d b h k r. k \<le> u64_max \<longrightarrow> first_nonce env d b h k (fst r) \<and> snd r = create_seal_hash env b (fst r) h",
      rotated])
  fix f env d b h k and r :: "nat \<times> nat list"
  assume IH: "\<And>env d b h k r. f env d b h k = Some r \<Longrightarrow>
      k \<le> u64_max \<longrightarrow> first_nonce env d b h k (fst r) \<and> snd r = create_seal_hash env b (fst r) h"
    and eq: "(let work = create_seal_hash env b k h in
      if hash_meets_difficulty work d then Some (k, work) else f env d b h (sat_add u64_max k 1)) = Some r"
  show "k \<le> u64_max \<longrightarrow> first_nonce env d b h k (fst r) \<and> snd r = create_seal_hash env b (fst r) h"
  proof (cases "nonce_meets env d b h k")
    case True
    with eq show ?thesis by (auto simp: Let_def nonce_meets_def first_nonce_def)
  next
    case False
    with eq have "f env d b h (sat_add u64_max k 1) = Some r" by (simp add: Let_def nonce_meets_def)
    from IH[OF this] show ?thesis
      using first_nonce_step[OF False, of "fst r"] sat_add_le[of u64_max k 1] by simp
  qed
qed

lemma work_loop_complete:
  "first_nonce env d b h k m \<Longrightarrow> create_work_loop env d b h k = Some (m, create_seal_hash env b m h)"
proof (induction "m - k" arbitrary: k)
  case 0
  then show ?case by (subst create_work_loop.simps) (auto simp: first_nonce_def nonce_meets_def Let_def)
next
  case (Suc x)
  then have k: "k < m" "\<not> nonce_meets env d b h k" "sat_add u64_max k 1 = Suc k"
    by (auto simp: first_nonce_def sat_add_def)
  have "first_nonce env d b h (Suc k) m" using Suc.prems k by (auto simp: first_nonce_def)
  with Suc(1)[of "Suc k"] Suc(2) k show ?case
    by (subst create_work_loop.simps) (simp add: nonce_meets_def Let_def)
qed

text \<open>The search for work returns exactly the first nonce at or after the start whose seal
  meets the difficulty of the subnet, together with that seal; in particular it returns whenever
  there is such a nonce among the 64-bit numbers.\<close>

theorem create_work_first_nonce:
  assumes "start_nonce \<le> u64_max"
  shows "create_work_for_block_number env s n b start_nonce hotkey = Some (nonce, work) \<longleftrightarrow>
    first_nonce env (Difficulty s n) b hotkey start_nonce nonce \<and> work = create_seal_hash env b nonce hotkey"
  using work_loop_sound[of env "Difficulty s n" b hotkey start_nonce "(nonce, work)"] assms
    work_loop_complete[of env "Difficulty s n" b hotkey start_nonce nonce]
  by (auto simp: create_work_for_block_number_def)

theorem create_work_first_nonce_witness:
  "create_work_for_block_number sample_env (sample_state empty_neurons 2) 1 9 5 6 = Some (5, replicate 32 0)"
proof -
  have "create_seal_hash sample_env 9 5 6 = replicate 32 0" by (simp add: registration_eval)
  moreover from this have "first_nonce sample_env (Difficulty (sample_state empty_neurons 2) 1) 9 6 5 5"
    by (simp add: first_nonce_def nonce_meets_def hash_meets_difficulty_def from_little_endian_zero
        overflowing_mul_def u64_max_def)
  ultimately show ?thesis
    using create_work_first_nonce[of 5 sample_env "sample_state empty_neurons 2" 1 9 6 5 "replicate 32 0"]
    by (simp add: u64_max_def)
qed

text \<open>On a consistent chain the only panic of a proof-of-work registration is the conversion
  of work that does not have 32 bytes: the assertion on the uid to prune never fails.\<close>

theorem pow_registration_panic:
  assumes "registration_inv s" "env_block env < u64_max"
    and "do_registration env og n block_number nonce work hotkey coldkey s = Inl (Panic msg)"
  shows "length work \<noteq> 32 \<and> msg = ''H256::from_slice''"
proof -
  let ?s = "s\<lparr>UsedWork := (UsedWork s)(work \<mapsto> env_block env),
    reg_accounts := create_account_if_non_existent coldkey hotkey (reg_accounts s)\<rparr>"
  have noerr: "register_neuron (env_block env) n hotkey ?s \<noteq> Inl e"
    if "Uids (reg_neurons s) n hotkey = None" "MaxAllowedUids s n \<noteq> 0" for e
  proof (rule register_neuron_spec[of ?s n hotkey "env_block env"])
    fix r ns
    assume "register_neuron (env_block env) n hotkey ?s = Inr (r, ?s\<lparr>reg_neurons := ns\<rparr>)"
    then show ?thesis by simp
  qed (use that assms(1,2) in \<open>auto simp: registration_inv_def\<close>)
  show ?thesis
  proof (cases og)
    case (Signed a)
    with assms(3) noerr show ?thesis
      by (auto simp: do_registration_def check_work_block_def vec_to_hash_def Let_def ensure_Inl
          and_then_Inl split: if_splits)
  qed (use assms(3) in \<open>simp_all add: do_registration_def\<close>)
qed

theorem pow_registration_panic_witness:
  "do_registration sample_env (Signed 6) 1 9 77 [1, 2, 3] 6 9 (sample_state empty_neurons 2) =
     Inl (Panic ''H256::from_slice'') \<and> length [1, 2, 3 :: nat] \<noteq> 32"
proof -
  have p: "do_registration sample_env (Signed 6) 1 9 77 [1, 2, 3] 6 9 (sample_state empty_neurons 2) =
     Inl (Panic ''H256::from_slice'')" by (simp add: registration_eval)
  have "registration_inv (sample_state empty_neurons 2)"
    by (rule sample_state_inv) (simp_all add: empty_neurons_inv u16_max_def)
  from pow_registration_panic[OF this _ p] p show ?thesis by (simp add: sample_env_def u64_max_def)
qed

text \<open>The faucet credits ten times what it adds to the issuance, and the same work is
  accepted again in the same block: the record of used work is never consulted.\<close>

theorem faucet_issuance_and_reuse:
  assumes "do_faucet env og block_number nonce work s = Inr s'"
  shows "\<exists>coldkey. og = Signed coldkey \<and>
    amm (reg_pool s') = env_deposit env coldkey 1000000000000 (amm (reg_pool s)) \<and>
    TotalIssuance s' = sat_add u64_max (TotalIssuance s) 100000000000 \<and>
    UsedWork s' work = Some (env_block env) \<and> is_ok (do_faucet env og block_number nonce work s')"
  using assms by (auto simp: do_faucet_def check_work_block_def Let_def coinbase_def is_ok_iff)

theorem faucet_issuance_and_reuse_witness:
  "\<exists>s'. do_faucet sample_env (Signed 6) 9 77 (replicate 32 0) (sample_state empty_neurons 2) = Inr s' \<and>
    amm (reg_pool s') 6 = 1000000000050 \<and> TotalIssuance s' = 100000000000"
proof -
  obtain s' where s': "do_faucet sample_env (Signed 6) 9 77 (replicate 32 0) (sample_state empty_neurons 2) = Inr s'"
    by (simp add: registration_eval from_little_endian_zero)
  from faucet_issuance_and_reuse[OF s'] s' show ?thesis
    by (auto simp: sample_env_def sample_state_def sat_add_def u64_max_def)
qed

end
