(* ===== verification/Rate_Limits.thy ===== *)
theory Rate_Limits
  imports Subtensor_Base
begin

text \<open>
  Rate limiting of transactions (\<open>pallets/subtensor/src/utils/rate_limiting.rs\<close>) and the two
  calls that change the take of a delegate (\<open>staking/increase_take.rs\<close>,
  \<open>staking/decrease_take.rs\<close>), which are limited by it.
\<close>

section \<open>Transaction types\<close>

datatype transaction_type =
    SetChildren | SetChildkeyTake | Unknown | RegisterNetwork | SetWeightsVersionKey | SetSNOwnerHotkey

fun u16_of_transaction_type :: "transaction_type \<Rightarrow> nat" where
  "u16_of_transaction_type SetChildren = 0"
| "u16_of_transaction_type SetChildkeyTake = 1"
| "u16_of_transaction_type Unknown = 2"
| "u16_of_transaction_type RegisterNetwork = 3"
| "u16_of_transaction_type SetWeightsVersionKey = 4"
| "u16_of_transaction_type SetSNOwnerHotkey = 5"

definition transaction_type_of_u16 :: "nat \<Rightarrow> transaction_type" where
  "transaction_type_of_u16 v =
     (if v = 0 then SetChildren else if v = 1 then SetChildkeyTake else if v = 3 then RegisterNetwork
      else if v = 4 then SetWeightsVersionKey else if v = 5 then SetSNOwnerHotkey else Unknown)"

section \<open>State\<close>

record 'a rate_limits =
  TxRateLimit :: nat
  TxDelegateTakeRateLimit :: nat
  TxChildkeyTakeRateLimit :: nat
  NetworkRateLimit :: nat
  WeightsVersionKeyRateLimit :: nat
  SetSNOwnerHotkeyRateLimit :: nat
  rl_Tempo :: "netuid \<Rightarrow> nat"
  TransactionKeyLastBlock :: "'a \<times> netuid \<times> nat \<Rightarrow> nat"
  LastRateLimitedBlock :: "netuid \<Rightarrow> nat"
  NetworkLastRegistered :: nat
  LastTxBlock :: "'a \<Rightarrow> nat"
  LastTxBlockDelegateTake :: "'a \<Rightarrow> nat"
  LastTxBlockChildKeyTake :: "'a \<Rightarrow> nat"

section \<open>Limits\<close>

fun get_rate_limit :: "'a rate_limits \<Rightarrow> transaction_type \<Rightarrow> nat" where
  "get_rate_limit s SetChildren = 150"
| "get_rate_limit s SetChildkeyTake = TxChildkeyTakeRateLimit s"
| "get_rate_limit s RegisterNetwork = NetworkRateLimit s"
| "get_rate_limit s Unknown = 0"
| "get_rate_limit s _ = 0"

fun get_rate_limit_on_subnet :: "'a rate_limits \<Rightarrow> transaction_type \<Rightarrow> netuid \<Rightarrow> nat" where
  "get_rate_limit_on_subnet s SetWeightsVersionKey n =
     sat_mul u64_max (rl_Tempo s n) (WeightsVersionKeyRateLimit s)"
| "get_rate_limit_on_subnet s SetSNOwnerHotkey n = SetSNOwnerHotkeyRateLimit s"
| "get_rate_limit_on_subnet s tx n = get_rate_limit s tx"

definition check_passes_rate_limit :: "nat \<Rightarrow> nat \<Rightarrow> nat \<Rightarrow> bool" where
  "check_passes_rate_limit limit block last_block \<longleftrightarrow> last_block = 0 \<or> block - last_block \<ge> limit"

fun get_last_transaction_block_on_subnet :: "'a rate_limits \<Rightarrow> 'a \<Rightarrow> netuid \<Rightarrow> transaction_type \<Rightarrow> nat" where
  "get_last_transaction_block_on_subnet s hotkey n RegisterNetwork = NetworkLastRegistered s"
| "get_last_transaction_block_on_subnet s hotkey n SetSNOwnerHotkey = LastRateLimitedBlock s n"
| "get_last_transaction_block_on_subnet s hotkey n tx =
     TransactionKeyLastBlock s (hotkey, n, u16_of_transaction_type tx)"

fun get_last_transaction_block :: "'a rate_limits \<Rightarrow> 'a \<Rightarrow> transaction_type \<Rightarrow> nat" where
  "get_last_transaction_block s key RegisterNetwork = NetworkLastRegistered s"
| "get_last_transaction_block s key tx = get_last_transaction_block_on_subnet s key root_netuid tx"

definition passes_rate_limit :: "'a rate_limits \<Rightarrow> nat \<Rightarrow> transaction_type \<Rightarrow> 'a \<Rightarrow> bool" where
  "passes_rate_limit s block tx key =
     check_passes_rate_limit (get_rate_limit s tx) block (get_last_transaction_block s key tx)"

definition passes_rate_limit_on_subnet :: "'a rate_limits \<Rightarrow> nat \<Rightarrow> transaction_type \<Rightarrow> 'a \<Rightarrow> netuid \<Rightarrow> bool" where
  "passes_rate_limit_on_subnet s block tx hotkey n =
     check_passes_rate_limit (get_rate_limit_on_subnet s tx n) block
       (get_last_transaction_block_on_subnet s hotkey n tx)"

fun set_last_transaction_block_on_subnet ::
    "'a \<Rightarrow> netuid \<Rightarrow> transaction_type \<Rightarrow> nat \<Rightarrow> 'a rate_limits \<Rightarrow> 'a rate_limits" where
  "set_last_transaction_block_on_subnet key n RegisterNetwork block s = s\<lparr>NetworkLastRegistered := block\<rparr>"
| "set_last_transaction_block_on_subnet key n SetSNOwnerHotkey block s =
     s\<lparr>LastRateLimitedBlock := (LastRateLimitedBlock s)(n := block)\<rparr>"
| "set_last_transaction_block_on_subnet key n tx block s =
     s\<lparr>TransactionKeyLastBlock := (TransactionKeyLastBlock s)((key, n, u16_of_transaction_type tx) := block)\<rparr>"

fun set_last_transaction_block :: "'a \<Rightarrow> transaction_type \<Rightarrow> nat \<Rightarrow> 'a rate_limits \<Rightarrow> 'a rate_limits" where
  "set_last_transaction_block key RegisterNetwork block s = s\<lparr>NetworkLastRegistered := block\<rparr>"
| "set_last_transaction_block key tx block s = set_last_transaction_block_on_subnet key root_netuid tx block s"

definition exceeds_tx_rate_limit :: "'a rate_limits \<Rightarrow> nat \<Rightarrow> nat \<Rightarrow> bool" where
  "exceeds_tx_rate_limit s prev_tx_block current_block =
     (let rate_limit = TxRateLimit s in
      if rate_limit = 0 \<or> prev_tx_block = 0 then False else current_block - prev_tx_block \<le> rate_limit)"

definition exceeds_tx_delegate_take_rate_limit :: "'a rate_limits \<Rightarrow> nat \<Rightarrow> nat \<Rightarrow> bool" where
  "exceeds_tx_delegate_take_rate_limit s prev_tx_block current_block =
     (let rate_limit = TxDelegateTakeRateLimit s in
      if rate_limit = 0 \<or> prev_tx_block = 0 then False else current_block - prev_tx_block \<le> rate_limit)"

definition set_last_tx_block_delegate_take :: "'a \<Rightarrow> nat \<Rightarrow> 'a rate_limits \<Rightarrow> 'a rate_limits" where
  "set_last_tx_block_delegate_take key block s =
     s\<lparr>LastTxBlockDelegateTake := (LastTxBlockDelegateTake s)(key := block)\<rparr>"

section \<open>Takes\<close>

record 'a delegate_state =
  ds_accounts :: "'a accounts"
  ds_limits :: "'a rate_limits"
  Delegates :: "'a \<Rightarrow> nat option"
  MinDelegateTake :: nat
  MaxDelegateTake :: nat

definition do_increase_take ::
    "nat \<Rightarrow> 'a origin \<Rightarrow> 'a \<Rightarrow> nat \<Rightarrow> 'a delegate_state \<Rightarrow> (subtensor_error, 'a delegate_state) result" where
  "do_increase_take block og hotkey new_take s =
     and_then (ensure_signed BadOrigin og) (\<lambda>coldkey.
     and_then (do_take_checks (ds_accounts s) coldkey hotkey) (\<lambda>_.
     and_then (case Delegates s hotkey of
         Some current_take \<Rightarrow> ensure (new_take > current_take) DelegateTakeTooLow (Inr ())
       | None \<Rightarrow> Inr ()) (\<lambda>_.
     let max_take = MaxDelegateTake s in
     ensure (new_take \<le> max_take) DelegateTakeTooHigh
    (ensure (\<not> exceeds_tx_delegate_take_rate_limit (ds_limits s)
        (LastTxBlockDelegateTake (ds_limits s) hotkey) block) DelegateTxRateLimitExceeded
    (Inr (s\<lparr>ds_limits := set_last_tx_block_delegate_take hotkey block (ds_limits s),
            Delegates := (Delegates s)(hotkey \<mapsto> new_take)\<rparr>))))))"

definition do_decrease_take ::
    "nat \<Rightarrow> 'a origin \<Rightarrow> 'a \<Rightarrow> nat \<Rightarrow> 'a delegate_state \<Rightarrow> (subtensor_error, 'a delegate_state) result" where
  "do_decrease_take block og hotkey new_take s =
     and_then (ensure_signed BadOrigin og) (\<lambda>coldkey.
     and_then (do_take_checks (ds_accounts s) coldkey hotkey) (\<lambda>_.
     and_then (case Delegates s hotkey of
         Some current_take \<Rightarrow> ensure (new_take < current_take) DelegateTakeTooLow (Inr ())
       | None \<Rightarrow> Inr ()) (\<lambda>_.
     let min_take = MinDelegateTake s in
     ensure (new_take \<ge> min_take) DelegateTakeTooLow
    (Inr (s\<lparr>Delegates := (Delegates s)(hotkey \<mapsto> new_take),
            ds_limits := set_last_tx_block_delegate_take hotkey block (ds_limits s)\<rparr>)))))"

section \<open>Properties\<close>

text \<open>The numbering of transaction types is injective: converting a type to its number and
  back is the identity, and every number outside the numbering is read as \<open>Unknown\<close>.\<close>

theorem transaction_type_roundtrip:
  "transaction_type_of_u16 (u16_of_transaction_type tx) = tx \<and>
   (transaction_type_of_u16 v = Unknown \<longleftrightarrow> v = 2 \<or> 5 < v)"
  by (cases tx) (auto simp: transaction_type_of_u16_def)

lemma u16_of_transaction_type_inj: "u16_of_transaction_type t = u16_of_transaction_type t' \<longleftrightarrow> t = t'"
  by (cases t; cases t') simp_all

lemma last_block_same:
  "get_last_transaction_block_on_subnet (set_last_transaction_block_on_subnet key n tx b s) key n tx = b"
  by (cases tx) simp_all

lemma limit_set [simp]:
  "get_rate_limit_on_subnet (set_last_transaction_block_on_subnet key n tx b s) tx' m =
     get_rate_limit_on_subnet s tx' m"
  by (cases tx; cases tx') simp_all

text \<open>Which records of the last transaction are shared: network registrations by everybody, the
  owner hotkey of a subnet by all keys on it, the others by nobody.\<close>

definition same_record :: "'a \<times> netuid \<times> transaction_type \<Rightarrow> 'a \<times> netuid \<times> transaction_type \<Rightarrow> bool" where
  "same_record x y \<longleftrightarrow> (case (x, y) of ((k, n, t), (k', n', t')) \<Rightarrow>
     t = t' \<and> (t = RegisterNetwork \<or> n = n' \<and> (t = SetSNOwnerHotkey \<or> k = k')))"

lemma last_block_other:
  "\<not> same_record (key, n, tx) (key', m, tx') \<Longrightarrow>
   get_last_transaction_block_on_subnet (set_last_transaction_block_on_subnet key n tx b s) key' m tx' =
     get_last_transaction_block_on_subnet s key' m tx'"
  by (cases tx; cases tx') (auto simp: same_record_def)

lemma last_block_shared:
  "same_record (key, n, tx) (key', m, tx') \<Longrightarrow>
   get_last_transaction_block_on_subnet (set_last_transaction_block_on_subnet key n tx b s) key' m tx' = b"
  by (cases tx; cases tx') (auto simp: same_record_def)

definition sample_delegates :: "nat delegate_state" where
  "sample_delegates = \<lparr>ds_accounts = \<lparr>Owner = (\<lambda>h. if h = 5 then Some 9 else None),
       OwnedHotkeys = (\<lambda>c. if c = 9 then [5] else []), StakingHotkeys = (\<lambda>c. if c = 9 then [5] else [])\<rparr>,
     ds_limits = \<lparr>TxRateLimit = 0, TxDelegateTakeRateLimit = 20, TxChildkeyTakeRateLimit = 0,
       NetworkRateLimit = 0, WeightsVersionKeyRateLimit = 0, SetSNOwnerHotkeyRateLimit = 0,
       rl_Tempo = (\<lambda>_. 0), TransactionKeyLastBlock = (\<lambda>_. 0), LastRateLimitedBlock = (\<lambda>_. 0),
       NetworkLastRegistered = 0, LastTxBlock = (\<lambda>_. 0), LastTxBlockDelegateTake = (\<lambda>_. 10),
       LastTxBlockChildKeyTake = (\<lambda>_. 0)\<rparr>,
     Delegates = (\<lambda>h. if h = 5 then Some 100 else None), MinDelegateTake = 50, MaxDelegateTake = 200\<rparr>"

text \<open>After a limited transaction is recorded at a block other than 0, the next one that
  shares its record passes exactly from the block on that is the limit later, and transactions
  with another record are not affected.\<close>

theorem rate_limit_window:
  assumes "0 < b" "b \<le> b'"
  shows "passes_rate_limit_on_subnet (set_last_transaction_block_on_subnet key n tx b s) b' tx' key' m \<longleftrightarrow>
    (if same_record (key, n, tx) (key', m, tx')
     then b + get_rate_limit_on_subnet s tx' m \<le> b'
     else passes_rate_limit_on_subnet s b' tx' key' m)"
  using assms by (auto simp: passes_rate_limit_on_subnet_def check_passes_rate_limit_def
      last_block_shared last_block_other)

theorem rate_limit_window_witness:
  "let s' = set_last_transaction_block_on_subnet 5 3 SetChildren 100 (ds_limits sample_delegates) in
    \<not> passes_rate_limit_on_subnet s' 249 SetChildren 5 3 \<and> passes_rate_limit_on_subnet s' 250 SetChildren 5 3"
  using rate_limit_window[of 100 249 5 3 SetChildren "ds_limits sample_delegates" SetChildren 5 3]
    rate_limit_window[of 100 250 5 3 SetChildren "ds_limits sample_delegates" SetChildren 5 3]
  by (simp add: same_record_def Let_def)

text \<open>A sequence of take changes at non-decreasing blocks.\<close>

datatype 'a take_call = IncreaseTake "'a origin" 'a nat | DecreaseTake "'a origin" 'a nat

fun take_exec :: "nat \<Rightarrow> 'a take_call \<Rightarrow> 'a delegate_state \<Rightarrow> (subtensor_error, 'a delegate_state) result" where
  "take_exec b (IncreaseTake og h t) s = do_increase_take b og h t s"
| "take_exec b (DecreaseTake og h t) s = do_decrease_take b og h t s"

text \<open>A take only goes up by a call of the owner of the hotkey, above the current take of a
  delegate and within the maximum, and no sooner than the rate limit after the last change of
  the take, in either direction; it only goes down by a call of the owner, below the current
  take and not below the minimum.\<close>

theorem take_changes:
  assumes "take_exec b call s = Inr s'" "Delegates s' h \<noteq> Delegates s h"
  shows "\<exists>coldkey tk. Owner (ds_accounts s) h = Some coldkey \<and> Delegates s' h = Some tk \<and>
    LastTxBlockDelegateTake (ds_limits s') h = b \<and>
    (case call of
       IncreaseTake og h' t \<Rightarrow> og = Signed coldkey \<and> h' = h \<and> t = tk \<and> tk \<le> MaxDelegateTake s \<and>
         (\<forall>c. Delegates s h = Some c \<longrightarrow> c < tk) \<and>
         (TxDelegateTakeRateLimit (ds_limits s) = 0 \<or> LastTxBlockDelegateTake (ds_limits s) h = 0 \<or>
          LastTxBlockDelegateTake (ds_limits s) h + TxDelegateTakeRateLimit (ds_limits s) < b)
     | DecreaseTake og h' t \<Rightarrow> og = Signed coldkey \<and> h' = h \<and> t = tk \<and> MinDelegateTake s \<le> tk \<and>
         (\<forall>c. Delegates s h = Some c \<longrightarrow> tk < c))"
  using assms
  by (cases call)
    (auto simp: do_increase_take_def do_decrease_take_def Let_def set_last_tx_block_delegate_take_def
      exceeds_tx_delegate_take_rate_limit_def split: option.splits if_splits)

theorem take_changes_witness:
  "\<exists>s'. take_exec 31 (IncreaseTake (Signed 9) 5 150) sample_delegates = Inr s' \<and> Delegates s' 5 = Some 150 \<and>
    LastTxBlockDelegateTake (ds_limits s') 5 = 31"
proof -
  obtain s' where s': "take_exec 31 (IncreaseTake (Signed 9) 5 150) sample_delegates = Inr s'"
    "Delegates s' 5 \<noteq> Delegates sample_delegates 5"
    by (simp add: sample_delegates_def do_increase_take_def do_take_checks_def hotkey_account_exists_def
        exceeds_tx_delegate_take_rate_limit_def Let_def)
  from take_changes[OF s'] s' show ?thesis by auto
qed

end
