(* ===== verification/Children.thy ===== *)
theory Children
  imports Rate_Limits
begin

text \<open>
  Child hotkeys (\<open>pallets/subtensor/src/staking/set_children.rs\<close>): a parent hotkey schedules
  a list of children with proportions, which replaces its current one after a cool-down. The
  parents of a hotkey are kept as a second map. The invariant \<open>family_inv\<close> says that the
  two maps are inverse to each other and that every list of children is valid.

  The stake of a hotkey, which is computed from the share pool and the prices, is an argument.
\<close>

section \<open>State\<close>

record 'a children_state =
  ch_accounts :: "'a accounts"
  ch_limits :: "'a rate_limits"
  ch_NetworksAdded :: "netuid \<Rightarrow> bool"
  ch_SubnetOwnerHotkey :: "netuid \<Rightarrow> 'a option"
  ChildKeys :: "'a \<Rightarrow> netuid \<Rightarrow> (nat \<times> 'a) list"
  ParentKeys :: "'a \<Rightarrow> netuid \<Rightarrow> (nat \<times> 'a) list"
  PendingChildKeys :: "netuid \<Rightarrow> ('a \<times> (nat \<times> 'a) list \<times> nat) list"
  PendingChildKeyCooldown :: nat
  StakeThreshold :: nat
  ChildkeyTake :: "'a \<Rightarrow> netuid \<Rightarrow> nat"
  MaxChildkeyTake :: nat

section \<open>Operations\<close>

fun no_self_child :: "'a \<Rightarrow> (nat \<times> 'a) list \<Rightarrow> (subtensor_error, unit) result" where
  "no_self_child hotkey [] = Inr ()"
| "no_self_child hotkey ((p, child_i) # cs) =
     ensure (child_i \<noteq> hotkey) InvalidChild (no_self_child hotkey cs)"

fun total_proportion :: "nat \<Rightarrow> (nat \<times> 'a) list \<Rightarrow> nat option" where
  "total_proportion acc [] = Some acc"
| "total_proportion acc ((proportion, c) # cs) =
     (case checked_add u64_max acc proportion of None \<Rightarrow> None | Some a \<Rightarrow> total_proportion a cs)"

fun no_duplicate_child :: "'a list \<Rightarrow> (nat \<times> 'a) list \<Rightarrow> (subtensor_error, unit) result" where
  "no_duplicate_child unique_children [] = Inr ()"
| "no_duplicate_child unique_children ((p, child_i) # cs) =
     ensure (child_i \<notin> set unique_children) DuplicateChild
       (no_duplicate_child (unique_children @ [child_i]) cs)"

definition do_schedule_children ::
    "nat \<Rightarrow> ('a \<Rightarrow> nat) \<Rightarrow> 'a origin \<Rightarrow> 'a::linorder \<Rightarrow> netuid \<Rightarrow> (nat \<times> 'a) list \<Rightarrow> 'a children_state \<Rightarrow>
     (subtensor_error, 'a children_state) result" where
  "do_schedule_children block total_stake og hotkey n children s =
     and_then (ensure_signed BadOrigin og) (\<lambda>coldkey.
     ensure (passes_rate_limit_on_subnet (ch_limits s) block SetChildren hotkey n) TxRateLimitExceeded
    (ensure (\<not> is_root n) RegistrationNotPermittedOnRootSubnet
    (ensure (ch_NetworksAdded s n) SubNetworkDoesNotExist
    (ensure (coldkey_owns_hotkey (ch_accounts s) coldkey hotkey) NonAssociatedColdKey
    (ensure (length children \<le> 5) TooManyChildren
    (and_then (no_self_child hotkey children) (\<lambda>_.
     and_then (ok_or (total_proportion 0 children) ProportionOverflow) (\<lambda>_.
     and_then (no_duplicate_child [] children) (\<lambda>_.
     ensure (children = [] \<or> total_stake hotkey \<ge> StakeThreshold s \<or>
        ch_SubnetOwnerHotkey s n = Some hotkey) NotEnoughStakeToSetChildkeys
    (let cooldown_block = sat_add u64_max block (PendingChildKeyCooldown s) in
     Inr (s\<lparr>ch_limits := set_last_transaction_block_on_subnet hotkey n SetChildren block (ch_limits s),
            PendingChildKeys := (PendingChildKeys s)(n :=
              smap_put hotkey (children, cooldown_block) (PendingChildKeys s n))\<rparr>)))))))))))"

text \<open>The body of the iteration of \<open>do_set_pending_children\<close> for one pending entry.\<close>

definition remove_parent :: "netuid \<Rightarrow> 'a \<Rightarrow> nat \<times> 'a \<Rightarrow> 'a children_state \<Rightarrow> 'a children_state" where
  "remove_parent n hotkey old s =
     (let old_child = snd old;
          filtered_parents = filter (\<lambda>p. snd p \<noteq> hotkey) (ParentKeys s old_child n)
      in s\<lparr>ParentKeys := (ParentKeys s)(old_child := (ParentKeys s old_child)(n := filtered_parents))\<rparr>)"

definition add_parent :: "netuid \<Rightarrow> 'a \<Rightarrow> nat \<times> 'a \<Rightarrow> 'a children_state \<Rightarrow> 'a children_state" where
  "add_parent n hotkey new s =
     (let (proportion, new_child) = new
      in s\<lparr>ParentKeys := (ParentKeys s)(new_child := (ParentKeys s new_child)(n :=
           ParentKeys s new_child n @ [(proportion, hotkey)]))\<rparr>)"

definition set_pending_entry ::
    "nat \<Rightarrow> netuid \<Rightarrow> 'a \<times> (nat \<times> 'a) list \<times> nat \<Rightarrow> 'a children_state \<Rightarrow> 'a children_state" where
  "set_pending_entry current_block n entry s =
     (let (hotkey, children, cool_down_block) = entry in
      if cool_down_block < current_block
      then let old_children = ChildKeys s hotkey n;
               s = fold (remove_parent n hotkey) old_children s;
               s = s\<lparr>ChildKeys := (ChildKeys s)(hotkey := (ChildKeys s hotkey)(n := children))\<rparr>;
               s = fold (add_parent n hotkey) children s
           in s\<lparr>PendingChildKeys := (PendingChildKeys s)(n := smap_del hotkey (PendingChildKeys s n))\<rparr>
      else s)"

definition do_set_pending_children :: "nat \<Rightarrow> netuid \<Rightarrow> 'a children_state \<Rightarrow> 'a children_state" where
  "do_set_pending_children current_block n s =
     fold (set_pending_entry current_block n) (PendingChildKeys s n) s"

definition get_children :: "'a children_state \<Rightarrow> 'a \<Rightarrow> netuid \<Rightarrow> (nat \<times> 'a) list" where
  "get_children s hotkey n = ChildKeys s hotkey n"

definition get_parents :: "'a children_state \<Rightarrow> 'a \<Rightarrow> netuid \<Rightarrow> (nat \<times> 'a) list" where
  "get_parents s child n = ParentKeys s child n"

definition get_childkey_take :: "'a children_state \<Rightarrow> 'a \<Rightarrow> netuid \<Rightarrow> nat" where
  "get_childkey_take s hotkey n = ChildkeyTake s hotkey n"

definition do_set_childkey_take ::
    "nat \<Rightarrow> 'a \<Rightarrow> 'a \<Rightarrow> netuid \<Rightarrow> nat \<Rightarrow> 'a children_state \<Rightarrow> (subtensor_error, 'a children_state) result" where
  "do_set_childkey_take block coldkey hotkey n new_take s =
     ensure (coldkey_owns_hotkey (ch_accounts s) coldkey hotkey) NonAssociatedColdKey
    (ensure (new_take \<le> MaxChildkeyTake s) InvalidChildkeyTake
    (let current_take = get_childkey_take s hotkey n in
     and_then (if new_take > current_take
        then ensure (passes_rate_limit_on_subnet (ch_limits s) block SetChildkeyTake hotkey n)
          TxChildkeyTakeRateLimitExceeded (Inr ())
        else Inr ()) (\<lambda>_.
     let limits = set_last_transaction_block_on_subnet hotkey n SetChildkeyTake block (ch_limits s);
         limits' = set_last_transaction_block_on_subnet hotkey n SetChildkeyTake block limits
     in Inr (s\<lparr>ChildkeyTake := (ChildkeyTake s)(hotkey := (ChildkeyTake s hotkey)(n := new_take)),
               ch_limits := limits'\<rparr>))))"

section \<open>Invariant\<close>

definition valid_children :: "'a \<Rightarrow> (nat \<times> 'a) list \<Rightarrow> bool" where
  "valid_children hotkey cs \<longleftrightarrow>
     length cs \<le> 5 \<and> hotkey \<notin> snd ` set cs \<and> distinct (map snd cs) \<and> sum_list (map fst cs) \<le> u64_max"

definition dual_inv :: "'a children_state \<Rightarrow> netuid \<Rightarrow> bool" where
  "dual_inv s n \<longleftrightarrow>
     (\<forall>c. distinct (map snd (ParentKeys s c n))) \<and>
     (\<forall>x p c. (x, c) \<in> set (ChildKeys s p n) \<longleftrightarrow> (x, p) \<in> set (ParentKeys s c n))"

definition family_inv :: "'a::linorder children_state \<Rightarrow> netuid \<Rightarrow> bool" where
  "family_inv s n \<longleftrightarrow>
     dual_inv s n \<and> (\<forall>p. valid_children p (ChildKeys s p n)) \<and>
     smap_wf (PendingChildKeys s n) \<and>
     (\<forall>(h, cs, b) \<in> set (PendingChildKeys s n). valid_children h cs)"

text \<open>The three checks of the list of children.\<close>

lemma no_self_child_Inr [simp]: "no_self_child h cs = Inr u \<longleftrightarrow> h \<notin> snd ` set cs"
  by (induction h cs rule: no_self_child.induct) auto

lemma total_proportion_Some: "total_proportion acc cs = Some t \<longleftrightarrow>
    t = acc + sum_list (map fst cs) \<and> (cs = [] \<or> t \<le> u64_max)"
  by (induction acc cs rule: total_proportion.induct) (auto split: option.splits simp: checked_add_def)

lemma no_duplicate_child_Inr:
  "no_duplicate_child us cs = Inr u \<longleftrightarrow> distinct (map snd cs) \<and> set us \<inter> snd ` set cs = {}"
  by (induction us cs rule: no_duplicate_child.induct) auto

lemma children_checks:
  assumes "length cs \<le> 5" "no_self_child h cs = Inr u" "total_proportion 0 cs = Some t"
    "no_duplicate_child [] cs = Inr v"
  shows "valid_children h cs"
  using assms by (auto simp: valid_children_def total_proportion_Some no_duplicate_child_Inr)

text \<open>The two folds over the lists of old and new children.\<close>

lemma fold_remove_parent:
  "fold (remove_parent n h) old s = s\<lparr>ParentKeys := (\<lambda>c. if c \<in> snd ` set old
      then (ParentKeys s c)(n := filter (\<lambda>p. snd p \<noteq> h) (ParentKeys s c n)) else ParentKeys s c)\<rparr>"
proof (induction old arbitrary: s)
  case (Cons o1 old)
  show ?case
    unfolding fold_simps(2) Cons.IH
    by (rule children_state.equality) (auto simp: remove_parent_def Let_def fun_eq_iff)
qed simp

lemma fold_add_parent:
  assumes "distinct (map snd new)"
  shows "fold (add_parent n h) new s = s\<lparr>ParentKeys := (\<lambda>c. case map_of (map prod.swap new) c of
      None \<Rightarrow> ParentKeys s c | Some x \<Rightarrow> (ParentKeys s c)(n := ParentKeys s c n @ [(x, h)]))\<rparr>"
  using assms
proof (induction new arbitrary: s)
  case (Cons p new)
  obtain x c where p: "p = (x, c)" by (cases p)
  have none: "map_of (map prod.swap new) c = None"
    using Cons.prems by (force simp: p map_of_eq_None_iff)
  have IH: "fold (add_parent n h) new s' = s'\<lparr>ParentKeys := (\<lambda>c. case map_of (map prod.swap new) c of
      None \<Rightarrow> ParentKeys s' c | Some x \<Rightarrow> (ParentKeys s' c)(n := ParentKeys s' c n @ [(x, h)]))\<rparr>" for s'
    using Cons by simp
  show ?case
    unfolding fold_simps(2) IH
    by (rule children_state.equality)
      (auto simp: add_parent_def Let_def fun_eq_iff p none split: option.splits)
qed (simp add: children_state.equality)

lemma map_of_swap:
  "distinct (map snd cs) \<Longrightarrow> map_of (map prod.swap cs) c = Some x \<longleftrightarrow> (x, c) \<in> set cs"
  by (subst map_of_eq_Some_iff) (force simp: comp_def prod.swap_def)+

definition parent_entry :: "'a \<Rightarrow> (nat \<times> 'a) list \<Rightarrow> 'a \<Rightarrow> (nat \<times> 'a) list" where
  "parent_entry h cs c = (case map_of (map prod.swap cs) c of None \<Rightarrow> [] | Some x \<Rightarrow> [(x, h)])"

text \<open>The effect of one due entry: the parent's children are replaced, the parent moves to the end
  of the parent lists of its new children and disappears from all others.\<close>

lemma set_pending_entry_effect:
  assumes dual: "dual_inv s n" and valid: "valid_children h cs" and due: "b < now"
  shows "set_pending_entry now n (h, cs, b) s =
    s\<lparr>ChildKeys := (ChildKeys s)(h := (ChildKeys s h)(n := cs)),
      ParentKeys := (\<lambda>c. (ParentKeys s c)(n := filter (\<lambda>p. snd p \<noteq> h) (ParentKeys s c n) @ parent_entry h cs c)),
      PendingChildKeys := (PendingChildKeys s)(n := smap_del h (PendingChildKeys s n))\<rparr>"
proof -
  have nochild: "filter (\<lambda>p. snd p \<noteq> h) (ParentKeys s c n) = ParentKeys s c n"
    if "c \<notin> snd ` set (ChildKeys s h n)" for c
  proof (rule filter_True)
    show "\<forall>p \<in> set (ParentKeys s c n). snd p \<noteq> h"
    proof
      fix p assume p: "p \<in> set (ParentKeys s c n)"
      show "snd p \<noteq> h"
      proof
        assume "snd p = h"
        with p have "(fst p, c) \<in> set (ChildKeys s h n)" using dual by (cases p) (auto simp: dual_inv_def)
        with that show False by force
      qed
    qed
  qed
  have d: "distinct (map snd cs)" using valid by (simp add: valid_children_def)
  show ?thesis
    using due nochild
    by (intro children_state.equality)
      (auto simp: set_pending_entry_def Let_def fold_remove_parent fold_add_parent[OF d] parent_entry_def
        fun_eq_iff split: option.splits)
qed

lemma set_pending_entry_dual:
  assumes dual: "dual_inv s n" and valid: "valid_children h cs" and due: "b < now"
  shows "dual_inv (set_pending_entry now n (h, cs, b) s) n"
proof -
  have d: "distinct (map snd cs)" using valid by (simp add: valid_children_def)
  have pe: "(x, p) \<in> set (parent_entry h cs c) \<longleftrightarrow> p = h \<and> (x, c) \<in> set cs" for x p c
    using map_of_swap[OF d, of c x] by (auto simp: parent_entry_def split: option.splits)
  have dist: "distinct (map snd (filter (\<lambda>p. snd p \<noteq> h) (ParentKeys s c n) @ parent_entry h cs c))" for c
    using dual by (auto simp: dual_inv_def parent_entry_def distinct_map_filter split: option.splits)
  show ?thesis
    using dual dist
    by (auto simp: set_pending_entry_effect[OF assms] dual_inv_def pe)
qed

lemma family_invD:
  assumes "family_inv s n"
  shows "dual_inv s n" "valid_children p (ChildKeys s p n)" "smap_wf (PendingChildKeys s n)"
    "(h, cs, b) \<in> set (PendingChildKeys s n) \<Longrightarrow> valid_children h cs"
  using assms by (auto simp: family_inv_def)

lemma set_pending_entry_inv:
  assumes inv: "family_inv s n" and valid: "valid_children h cs"
  shows "family_inv (set_pending_entry now n (h, cs, b) s) n"
proof (cases "b < now")
  case True
  note D = family_invD[OF inv]
  have "dual_inv (set_pending_entry now n (h, cs, b) s) n"
    by (rule set_pending_entry_dual[OF D(1) valid True])
  moreover have "\<forall>(h', cs', b') \<in> set (smap_del h (PendingChildKeys s n)). valid_children h' cs'"
    using D(4) by (auto simp: smap_del_def)
  ultimately show ?thesis
    using D(2,3) valid by (auto simp: family_inv_def set_pending_entry_effect[OF D(1) valid True])
qed (use inv in \<open>simp add: set_pending_entry_def\<close>)

lemma do_set_pending_children_inv:
  assumes "family_inv s n"
  shows "family_inv (do_set_pending_children now n s) n"
proof -
  have "family_inv (fold (set_pending_entry now n) es s) n"
    if "\<forall>(h, cs, b) \<in> set es. valid_children h cs" "family_inv s n" for es s
    using that
  proof (induction es arbitrary: s)
    case (Cons e es)
    obtain h cs b where e: "e = (h, cs, b)" by (cases e)
    have "family_inv (set_pending_entry now n (h, cs, b) s) n"
      using Cons.prems by (intro set_pending_entry_inv) (auto simp: e)
    with Cons show ?case by (simp add: e)
  qed simp
  from this[of "PendingChildKeys s n" s] family_invD(4)[OF assms] assms show ?thesis
    unfolding do_set_pending_children_def by blast
qed

lemma set_pending_entry_other:
  assumes "m \<noteq> n"
  shows "family_inv (set_pending_entry now n e s) m \<longleftrightarrow> family_inv s m"
proof -
  obtain h cs b where e: "e = (h, cs, b)" by (cases e)
  have r: "ParentKeys (fold (remove_parent n h) xs s) c m = ParentKeys s c m"
    "ChildKeys (fold (remove_parent n h) xs s) = ChildKeys s"
    "PendingChildKeys (fold (remove_parent n h) xs s) = PendingChildKeys s" for xs s c
    using assms by (simp_all add: fold_remove_parent)
  have a: "ParentKeys (fold (add_parent n h) xs s) c m = ParentKeys s c m \<and>
    ChildKeys (fold (add_parent n h) xs s) = ChildKeys s \<and>
    PendingChildKeys (fold (add_parent n h) xs s) = PendingChildKeys s" for xs s c
  proof (induction xs arbitrary: s)
    case (Cons x xs)
    have "ParentKeys (add_parent n h x s) c m = ParentKeys s c m" "ChildKeys (add_parent n h x s) = ChildKeys s"
      "PendingChildKeys (add_parent n h x s) = PendingChildKeys s"
      using assms by (auto simp: add_parent_def split: prod.splits)
    then show ?case by (simp add: Cons)
  qed simp
  have "ParentKeys (set_pending_entry now n e s) c m = ParentKeys s c m"
    "ChildKeys (set_pending_entry now n e s) p m = ChildKeys s p m"
    "PendingChildKeys (set_pending_entry now n e s) m = PendingChildKeys s m" for c p
    using assms a r by (auto simp: set_pending_entry_def e Let_def)
  then show ?thesis by (simp add: family_inv_def dual_inv_def)
qed

lemma do_set_pending_children_all:
  fixes s :: "'a::linorder children_state"
  assumes "\<And>m. family_inv s m"
  shows "family_inv (do_set_pending_children now n s) m"
proof (cases "m = n")
  case False
  have "family_inv (fold (set_pending_entry now n) es s) m \<longleftrightarrow> family_inv s m" for es
    and s :: "'a children_state"
    using False by (induction es arbitrary: s) (simp_all add: set_pending_entry_other)
  from this[of "PendingChildKeys s n" s] assms show ?thesis by (simp add: do_set_pending_children_def)
qed (use assms in \<open>simp add: do_set_pending_children_inv\<close>)

lemma schedule_childrenE:
  assumes "do_schedule_children block stake og h n cs s = Inr s'"
  obtains c where "og = Signed c" "Owner (ch_accounts s) h = Some c" "valid_children h cs" "\<not> is_root n"
    "ch_NetworksAdded s n"
    "s' = s\<lparr>ch_limits := set_last_transaction_block_on_subnet h n SetChildren block (ch_limits s),
        PendingChildKeys := (PendingChildKeys s)(n :=
          smap_put h (cs, sat_add u64_max block (PendingChildKeyCooldown s)) (PendingChildKeys s n))\<rparr>"
  using assms children_checks[of cs h]
  by (auto simp: do_schedule_children_def Let_def simp del: no_self_child_Inr intro: that)

lemma schedule_children_inv:
  assumes "\<And>m. family_inv s m" "do_schedule_children block stake og h n cs s = Inr s'"
  shows "family_inv s' m"
  using assms(2)
proof (rule schedule_childrenE)
  fix c
  assume v: "valid_children h cs"
    and s': "s' = s\<lparr>ch_limits := set_last_transaction_block_on_subnet h n SetChildren block (ch_limits s),
        PendingChildKeys := (PendingChildKeys s)(n :=
          smap_put h (cs, sat_add u64_max block (PendingChildKeyCooldown s)) (PendingChildKeys s n))\<rparr>"
  have "\<forall>e \<in> set (smap_put h (cs, sat_add u64_max block (PendingChildKeyCooldown s)) (PendingChildKeys s n)).
      case e of (h, cs, b) \<Rightarrow> valid_children h cs"
    using v assms(1)[of n] by (intro all_smap_put) (auto simp: family_inv_def)
  then show "family_inv s' m"
    using assms(1)[of m] assms(1)[of n] by (auto simp: s' family_inv_def dual_inv_def)
qed

datatype 'a children_call =
    ScheduleChildren "'a origin" 'a netuid "(nat \<times> 'a) list"
  | SetPendingChildren netuid
  | SetChildkeyTakeCall 'a 'a netuid nat

fun children_exec ::
    "nat \<Rightarrow> ('a \<Rightarrow> nat) \<Rightarrow> 'a::linorder children_call \<Rightarrow> 'a children_state \<Rightarrow>
     (subtensor_error, 'a children_state) result" where
  "children_exec block stake (ScheduleChildren og h n cs) s = do_schedule_children block stake og h n cs s"
| "children_exec block stake (SetPendingChildren n) s = Inr (do_set_pending_children block n s)"
| "children_exec block stake (SetChildkeyTakeCall c h n t) s = do_set_childkey_take block c h n t s"

inductive children_step :: "'a::linorder children_state \<Rightarrow> 'a children_state \<Rightarrow> bool" where
  "children_exec block stake call s = Inr s' \<Longrightarrow> children_step s s'"

inductive_cases children_stepE: "children_step s s'"

definition children_initial :: "'a::linorder children_state \<Rightarrow> bool" where
  "children_initial s \<longleftrightarrow> ChildKeys s = (\<lambda>_ _. []) \<and> ParentKeys s = (\<lambda>_ _. []) \<and> PendingChildKeys s = (\<lambda>_. [])"

interpretation family: invariant_system children_initial children_step "\<lambda>s. \<forall>m. family_inv s m"
proof (unfold_locales, goal_cases)
  case (1 s)
  then show ?case by (simp add: children_initial_def family_inv_def dual_inv_def valid_children_def)
next
  case (2 s t)
  from 2(2) obtain block stake call where ok: "children_exec block stake call s = Inr t"
    by (rule children_stepE)
  show ?case
  proof (cases call)
    case (ScheduleChildren og h n cs)
    with ok 2(1) show ?thesis by (auto intro: schedule_children_inv)
  next
    case (SetPendingChildren n)
    with ok 2(1) show ?thesis by (auto intro: do_set_pending_children_all)
  next
    case (SetChildkeyTakeCall c h n t')
    with ok have "ChildKeys t = ChildKeys s" "ParentKeys t = ParentKeys s" "PendingChildKeys t = PendingChildKeys s"
      by (auto simp: do_set_childkey_take_def Let_def)
    with 2(1) show ?thesis by (simp add: family_inv_def dual_inv_def)
  qed
qed


lemma pending_fold_other:
  assumes "family_inv s n" "\<forall>(h, cs, b) \<in> set es. valid_children h cs" "h \<notin> fst ` set es"
  shows "ChildKeys (fold (set_pending_entry now n) es s) h n = ChildKeys s h n"
  using assms
proof (induction es arbitrary: s)
  case (Cons e es)
  obtain h' cs b where e: "e = (h', cs, b)" by (cases e)
  have v: "valid_children h' cs" using Cons.prems(2) by (simp add: e)
  have "family_inv (set_pending_entry now n e s) n"
    using Cons.prems(1) v unfolding e by (rule set_pending_entry_inv)
  moreover have "ChildKeys (set_pending_entry now n e s) h n = ChildKeys s h n"
    using Cons.prems(3) set_pending_entry_effect[OF family_invD(1)[OF Cons.prems(1)] v, of b now]
    by (cases "b < now") (auto simp: e, auto simp: set_pending_entry_def)
  ultimately show ?case using Cons by simp
qed simp

lemma pending_fold_applied:
  assumes "family_inv s n" "\<forall>(h, cs, b) \<in> set es. valid_children h cs" "distinct (map fst es)"
    "(h, cs, b) \<in> set es" "b < now"
  shows "ChildKeys (fold (set_pending_entry now n) es s) h n = cs"
  using assms
proof (induction es arbitrary: s)
  case (Cons e es)
  obtain h' cs' b' where e: "e = (h', cs', b')" by (cases e)
  have v: "valid_children h' cs'" using Cons.prems(2) by (simp add: e)
  have inv: "family_inv (set_pending_entry now n e s) n"
    using Cons.prems(1) v unfolding e by (rule set_pending_entry_inv)
  show ?case
  proof (cases "e = (h, cs, b)")
    case True
    then have "ChildKeys (set_pending_entry now n e s) h n = cs"
      using set_pending_entry_effect[OF family_invD(1)[OF Cons.prems(1)] v, of b' now] Cons.prems(5)
      by (simp add: e)
    moreover have "h \<notin> fst ` set es" using Cons.prems(3) True by (simp add: e)
    ultimately show ?thesis
      using pending_fold_other[OF inv, of es h] Cons.prems(2) by simp
  next
    case False
    with Cons inv show ?thesis by auto
  qed
qed simp

text \<open>A scheduled list of children becomes the list of children of the hotkey when the pending
  lists of the subnet are applied after the cool-down, provided nothing else is scheduled for
  that hotkey in between, and the hotkey is then among the parents of exactly those children.\<close>

theorem schedule_then_apply:
  assumes "\<And>m. family_inv s m" "do_schedule_children block stake og h n cs s = Inr s1"
    and "block + PendingChildKeyCooldown s < now" "now \<le> u64_max"
  shows "get_children (do_set_pending_children now n s1) h n = cs
    \<and> (\<forall>x c. (x, c) \<in> set cs \<longleftrightarrow> (x, h) \<in> set (get_parents (do_set_pending_children now n s1) c n))"
proof -
  have inv1: "family_inv s1 m" for m by (rule schedule_children_inv[OF assms(1,2)])
  note D = family_invD[OF inv1[of n]]
  have "(h, cs, block + PendingChildKeyCooldown s) \<in> set (PendingChildKeys s1 n)"
    using assms(2)
  proof (rule schedule_childrenE)
    fix c
    assume "s1 = s\<lparr>ch_limits := set_last_transaction_block_on_subnet h n SetChildren block (ch_limits s),
        PendingChildKeys := (PendingChildKeys s)(n :=
          smap_put h (cs, sat_add u64_max block (PendingChildKeyCooldown s)) (PendingChildKeys s n))\<rparr>"
    then have "map_of (PendingChildKeys s1 n) h = Some (cs, sat_add u64_max block (PendingChildKeyCooldown s))"
      using family_invD(3)[OF assms(1)[of n]] by simp
    then show ?thesis using assms(3,4) by (auto dest: map_of_SomeD simp: sat_add_def)
  qed
  then have ch: "ChildKeys (do_set_pending_children now n s1) h n = cs"
    unfolding do_set_pending_children_def using D(3,4) assms(3)
    by (intro pending_fold_applied[OF inv1]) (auto simp: smap_wf_def)
  have "dual_inv (do_set_pending_children now n s1) n"
    using do_set_pending_children_inv[OF inv1] by (rule family_invD(1))
  with ch show ?thesis by (auto simp: get_children_def get_parents_def dual_inv_def)
qed

section \<open>A concrete run\<close>

definition sample_family :: "nat children_state" where
  "sample_family = \<lparr>ch_accounts = ds_accounts sample_delegates, ch_limits = ds_limits sample_delegates,
     ch_NetworksAdded = (\<lambda>_. True), ch_SubnetOwnerHotkey = (\<lambda>_. None), ChildKeys = (\<lambda>_ _. []),
     ParentKeys = (\<lambda>_ _. []), PendingChildKeys = (\<lambda>_. []), PendingChildKeyCooldown = 3,
     StakeThreshold = 1000, ChildkeyTake = (\<lambda>_ _. 0), MaxChildkeyTake = 100\<rparr>"

lemma sample_schedule:
  "\<exists>s1. do_schedule_children 10 (\<lambda>_. 2000) (Signed 9) 5 1 [(100, 6), (50, 7)] sample_family = Inr s1"
  by (simp add: do_schedule_children_def sample_family_def sample_delegates_def is_root_def root_netuid_def
      passes_rate_limit_on_subnet_def check_passes_rate_limit_def checked_add_def u64_max_def Let_def)

theorem schedule_then_apply_witness:
  "\<exists>s1. do_schedule_children 10 (\<lambda>_. 2000) (Signed 9) 5 1 [(100, 6), (50, 7)] sample_family = Inr s1 \<and>
    get_children (do_set_pending_children 14 1 s1) 5 1 = [(100, 6), (50, 7)] \<and>
    (50, 5) \<in> set (get_parents (do_set_pending_children 14 1 s1) 7 1)"
proof -
  obtain s1 where s1: "do_schedule_children 10 (\<lambda>_. 2000) (Signed 9) 5 1 [(100, 6), (50, 7)] sample_family = Inr s1"
    using sample_schedule by blast
  have "family_inv sample_family m" for m
    by (simp add: sample_family_def family_inv_def dual_inv_def valid_children_def)
  from schedule_then_apply[OF this s1, of 14] s1 show ?thesis
    by (auto simp: sample_family_def u64_max_def)
qed


text \<open>The ownership check of \<open>do_schedule_children\<close> also covers hotkeys that have no
  account: such a call is refused as not associated with the coldkey; \<open>HotKeyAccountNotExists\<close>
  is never returned.\<close>

lemma schedule_children_unknown_hotkey:
  assumes "Owner (ch_accounts s) h = None" "\<not> is_root n" "ch_NetworksAdded s n"
    "passes_rate_limit_on_subnet (ch_limits s) block SetChildren h n"
  shows "do_schedule_children block stake (Signed c) h n cs s = Inl NonAssociatedColdKey"
  using assms by (simp add: do_schedule_children_def)

end
