(* ===== verification/Weights.thy ===== *)
theory Weights
  imports Neurons "HOL-Library.Multiset"
begin

text \<open>
  Setting weights and the commit-reveal scheme (\<open>pallets/subtensor/src/subnets/weights.rs\<close>),
  with the epoch schedule it refers to (\<open>coinbase/run_coinbase.rs\<close>) and the max-upscaling of
  \<open>epoch/math.rs\<close>. The fixed-point type \<open>I32F32\<close> of \<open>epoch/math.rs\<close> comes from the crate
  \<open>substrate-fixed\<close>: its operations are the record \<open>fixed_ops\<close>, an argument of the model, as
  are the hash \<open>BlakeTwo256::hash_of\<close> and the minimum-stake test, in \<open>weights_env\<close>.
\<close>

section \<open>Data\<close>

record 'f fixed_ops =
  fx_from :: "nat \<Rightarrow> 'f"
  fx_saturating_mul :: "'f \<Rightarrow> 'f \<Rightarrow> 'f"
  fx_checked_div :: "'f \<Rightarrow> 'f \<Rightarrow> 'f option"
  fx_round :: "'f \<Rightarrow> 'f"
  fx_to_u16 :: "'f \<Rightarrow> nat"
  fx_le :: "'f \<Rightarrow> 'f \<Rightarrow> bool"
  fx_sum :: "'f list \<Rightarrow> 'f"

record ('a, 'h, 'f) weights_env =
  we_block :: nat
  hash_of :: "'a \<times> netuid \<times> nat list \<times> nat list \<times> nat list \<times> nat \<Rightarrow> 'h"
  check_weights_min_stake :: "'a \<Rightarrow> netuid \<Rightarrow> bool"
  we_fixed :: "'f fixed_ops"

text \<open>An entry of \<open>WeightCommits\<close> is (hash, commit block, first reveal block, last reveal block).\<close>

type_synonym 'h weight_commit = "'h \<times> nat \<times> nat \<times> nat"

record ('a, 'h) weights_state =
  w_neurons :: "'a neurons"
  w_NetworksAdded :: "netuid \<Rightarrow> bool"
  CommitRevealWeightsEnabled :: "netuid \<Rightarrow> bool"
  WeightCommits :: "netuid \<Rightarrow> 'a \<Rightarrow> 'h weight_commit list option"
  CRV3WeightCommits :: "netuid \<Rightarrow> nat \<Rightarrow> ('a \<times> nat list \<times> nat) list"
  Tempo :: "netuid \<Rightarrow> nat"
  RevealPeriodEpochs :: "netuid \<Rightarrow> nat"
  WeightsVersionKey :: "netuid \<Rightarrow> nat"
  WeightsSetRateLimit :: "netuid \<Rightarrow> nat"
  MinAllowedWeights :: "netuid \<Rightarrow> nat"
  MaxWeightsLimit :: "netuid \<Rightarrow> nat"
  WeightRows :: "netuid \<Rightarrow> nat \<Rightarrow> (nat \<times> nat) list"

section \<open>Fixed-point scaling\<close>

definition fx_safe_div :: "'f fixed_ops \<Rightarrow> 'f \<Rightarrow> 'f \<Rightarrow> 'f" where
  "fx_safe_div F a b = (case fx_checked_div F a b of None \<Rightarrow> fx_from F 0 | Some q \<Rightarrow> q)"

text \<open>\<open>Iterator::max\<close>: the last of the largest elements.\<close>

fun iter_max :: "('f \<Rightarrow> 'f \<Rightarrow> bool) \<Rightarrow> 'f list \<Rightarrow> 'f option" where
  "iter_max le [] = None"
| "iter_max le (x # xs) = Some (foldl (\<lambda>m e. if le m e then e else m) x xs)"

definition vec_max_upscale_to_u16 :: "'f fixed_ops \<Rightarrow> 'f list \<Rightarrow> nat list" where
  "vec_max_upscale_to_u16 F vec =
     (let max16 = fx_from F u16_max; threshold = fx_from F 32768 in
      case iter_max (fx_le F) vec of
        Some val \<Rightarrow>
          if val = fx_from F 0 then map (\<lambda>e. fx_to_u16 F (fx_saturating_mul F e max16)) vec
          else if \<not> fx_le F val threshold
          then map (\<lambda>e. fx_to_u16 F (fx_round F (fx_saturating_mul F e (fx_safe_div F max16 val)))) vec
          else map (\<lambda>e. fx_to_u16 F (fx_round F (fx_safe_div F (fx_saturating_mul F e max16) val))) vec
      | None \<Rightarrow>
          (let total = fx_sum F vec
           in map (\<lambda>e. fx_to_u16 F (fx_safe_div F (fx_saturating_mul F e max16) total)) vec))"

definition vec_u16_max_upscale_to_u16 :: "'f fixed_ops \<Rightarrow> nat list \<Rightarrow> nat list" where
  "vec_u16_max_upscale_to_u16 F vec = vec_max_upscale_to_u16 F (map (fx_from F) vec)"

definition inplace_normalize :: "'f fixed_ops \<Rightarrow> 'f list \<Rightarrow> 'f list" where
  "inplace_normalize F x =
     (let x_sum = fx_sum F x in
      if x_sum = fx_from F 0 then x else map (\<lambda>value. fx_safe_div F value x_sum) x)"

definition check_vec_max_limited :: "'f fixed_ops \<Rightarrow> nat list \<Rightarrow> nat \<Rightarrow> bool" where
  "check_vec_max_limited F vec max_limit =
     (let max_limit_fixed = fx_safe_div F (fx_from F max_limit) (fx_from F u16_max);
          vec_fixed = inplace_normalize F (map (fx_from F) vec)
      in case iter_max (fx_le F) vec_fixed of None \<Rightarrow> True | Some v \<Rightarrow> fx_le F v max_limit_fixed)"

section \<open>Epochs\<close>

definition get_epoch_index :: "('a, 'h) weights_state \<Rightarrow> netuid \<Rightarrow> nat \<Rightarrow> nat" where
  "get_epoch_index s n block_number =
     (let tempo_plus_one = sat_add u64_max (Tempo s n) 1;
          netuid_plus_one = sat_add u64_max n 1;
          block_with_offset = sat_add u64_max block_number netuid_plus_one
      in case checked_div block_with_offset tempo_plus_one of None \<Rightarrow> 0 | Some q \<Rightarrow> q)"

definition get_reveal_period :: "('a, 'h) weights_state \<Rightarrow> netuid \<Rightarrow> nat" where
  "get_reveal_period s n = RevealPeriodEpochs s n"

definition set_reveal_period :: "netuid \<Rightarrow> nat \<Rightarrow> ('a, 'h) weights_state \<Rightarrow> ('a, 'h) weights_state" where
  "set_reveal_period n reveal_period s =
     s\<lparr>RevealPeriodEpochs := (RevealPeriodEpochs s)(n := reveal_period)\<rparr>"

definition is_reveal_block_range :: "nat \<Rightarrow> ('a, 'h) weights_state \<Rightarrow> netuid \<Rightarrow> nat \<Rightarrow> bool" where
  "is_reveal_block_range current_block s n commit_block \<longleftrightarrow>
     (let commit_epoch = get_epoch_index s n commit_block;
          current_epoch = get_epoch_index s n current_block
      in current_epoch = sat_add u64_max commit_epoch (get_reveal_period s n))"

definition is_commit_expired :: "nat \<Rightarrow> ('a, 'h) weights_state \<Rightarrow> netuid \<Rightarrow> nat \<Rightarrow> bool" where
  "is_commit_expired current_block s n commit_block \<longleftrightarrow>
     (let current_epoch = get_epoch_index s n current_block;
          commit_epoch = get_epoch_index s n commit_block
      in current_epoch > sat_add u64_max commit_epoch (get_reveal_period s n))"

definition get_reveal_blocks :: "('a, 'h) weights_state \<Rightarrow> netuid \<Rightarrow> nat \<Rightarrow> nat \<times> nat" where
  "get_reveal_blocks s n commit_block =
     (let tempo = Tempo s n;
          tempo_plus_one = sat_add u64_max tempo 1;
          netuid_plus_one = sat_add u64_max n 1;
          commit_epoch = get_epoch_index s n commit_block;
          reveal_epoch = sat_add u64_max commit_epoch (get_reveal_period s n);
          first_reveal_block = sat_mul u64_max reveal_epoch tempo_plus_one - netuid_plus_one;
          last_reveal_block = sat_add u64_max first_reveal_block tempo
      in (first_reveal_block, last_reveal_block))"

text \<open>\<open>wrapping_add\<close> on \<open>u64\<close> is addition modulo \<open>u64::MAX + 1\<close>.\<close>

definition blocks_until_next_epoch :: "netuid \<Rightarrow> nat \<Rightarrow> nat \<Rightarrow> nat" where
  "blocks_until_next_epoch n tempo block_number =
     (if tempo = 0 then u64_max
      else let netuid_plus_one = sat_add u64_max n 1;
               tempo_plus_one = sat_add u64_max tempo 1;
               adjusted_block = (block_number + netuid_plus_one) mod (u64_max + 1);
               remainder = (if tempo_plus_one = 0 then 0 else adjusted_block mod tempo_plus_one)
           in tempo - remainder)"

definition should_run_epoch :: "('a, 'h) weights_state \<Rightarrow> netuid \<Rightarrow> nat \<Rightarrow> bool" where
  "should_run_epoch s n current_block \<longleftrightarrow> blocks_until_next_epoch n (Tempo s n) current_block = 0"

section \<open>Checks\<close>

definition check_version_key :: "('a, 'h) weights_state \<Rightarrow> netuid \<Rightarrow> nat \<Rightarrow> bool" where
  "check_version_key s n version_key \<longleftrightarrow>
     (let network_version_key = WeightsVersionKey s n
      in network_version_key = 0 \<or> version_key \<ge> network_version_key)"

definition check_rate_limit :: "('a, 'h) weights_state \<Rightarrow> netuid \<Rightarrow> nat \<Rightarrow> nat \<Rightarrow> bool" where
  "check_rate_limit s n neuron_uid current_block =
     (if is_uid_exist_on_network (w_neurons s) n neuron_uid
      then let last_set_weights = get_last_update_for_uid (w_neurons s) n neuron_uid in
           if last_set_weights = 0 then True
           else current_block - last_set_weights \<ge> WeightsSetRateLimit s n
      else False)"

fun contains_invalid_uids :: "('a, 'h) weights_state \<Rightarrow> netuid \<Rightarrow> nat list \<Rightarrow> bool" where
  "contains_invalid_uids s n [] = False"
| "contains_invalid_uids s n (uid # uids) =
     (if \<not> is_uid_exist_on_network (w_neurons s) n uid then True else contains_invalid_uids s n uids)"

definition uids_match_values :: "nat list \<Rightarrow> nat list \<Rightarrow> bool" where
  "uids_match_values uids values \<longleftrightarrow> length uids = length values"

text \<open>The loop of \<open>has_duplicate_uids\<close> with the list \<open>parsed\<close> it builds.\<close>

fun has_duplicate_uids_loop :: "nat list \<Rightarrow> nat list \<Rightarrow> bool" where
  "has_duplicate_uids_loop parsed [] = False"
| "has_duplicate_uids_loop parsed (item # items) =
     (if item \<in> set parsed then True else has_duplicate_uids_loop (parsed @ [item]) items)"

definition has_duplicate_uids :: "nat list \<Rightarrow> bool" where
  "has_duplicate_uids items = has_duplicate_uids_loop [] items"

definition is_self_weight :: "nat \<Rightarrow> nat list \<Rightarrow> nat list \<Rightarrow> bool" where
  "is_self_weight uid uids weights =
     (if length weights \<noteq> 1 then False
      else case uids of [] \<Rightarrow> False | first_uid # _ \<Rightarrow> if uid \<noteq> first_uid then False else True)"

definition check_validator_permit :: "('a, 'h) weights_state \<Rightarrow> netuid \<Rightarrow> nat \<Rightarrow> nat list \<Rightarrow> nat list \<Rightarrow> bool" where
  "check_validator_permit s n uid uids weights =
     (if is_self_weight uid uids weights then True
      else get_validator_permit_for_uid (w_neurons s) n uid)"

definition check_length :: "('a, 'h) weights_state \<Rightarrow> netuid \<Rightarrow> nat \<Rightarrow> nat list \<Rightarrow> nat list \<Rightarrow> bool" where
  "check_length s n uid uids weights =
     (let subnet_n = get_subnetwork_n (w_neurons s) n;
          min_allowed_length = MinAllowedWeights s n;
          min_allowed = (if subnet_n < min_allowed_length then subnet_n else min_allowed_length)
      in if \<not> is_root n \<and> is_self_weight uid uids weights then True
         else if length weights \<ge> min_allowed then True else False)"

definition normalize_weights :: "nat list \<Rightarrow> nat list" where
  "normalize_weights weights =
     (let total = sum_list weights in
      if total = 0 then weights
      else map (\<lambda>x. safe_div (sat_mul u64_max x u16_max) total mod (u16_max + 1)) weights)"

definition max_weight_limited ::
    "'f fixed_ops \<Rightarrow> ('a, 'h) weights_state \<Rightarrow> netuid \<Rightarrow> nat \<Rightarrow> nat list \<Rightarrow> nat list \<Rightarrow> bool" where
  "max_weight_limited F s n uid uids weights =
     (if is_self_weight uid uids weights then True
      else if MaxWeightsLimit s n = u16_max then True
      else check_vec_max_limited F weights (MaxWeightsLimit s n))"

definition check_len_uids_within_allowed :: "('a, 'h) weights_state \<Rightarrow> netuid \<Rightarrow> nat list \<Rightarrow> bool" where
  "check_len_uids_within_allowed s n uids \<longleftrightarrow> length uids \<le> get_subnetwork_n (w_neurons s) n"

section \<open>Setting weights\<close>

definition w_set_last_update ::
    "netuid \<Rightarrow> nat \<Rightarrow> nat \<Rightarrow> ('a, 'h) weights_state \<Rightarrow> ('a, 'h) weights_state" where
  "w_set_last_update n uid block s = s\<lparr>w_neurons := set_last_update_for_uid n uid block (w_neurons s)\<rparr>"

definition do_set_weights ::
    "('a, 'h, 'f) weights_env \<Rightarrow> 'a origin \<Rightarrow> netuid \<Rightarrow> nat list \<Rightarrow> nat list \<Rightarrow> nat \<Rightarrow>
     ('a, 'h) weights_state \<Rightarrow> (subtensor_error, ('a, 'h) weights_state) result" where
  "do_set_weights env og n uids values version_key s =
     and_then (ensure_signed BadOrigin og) (\<lambda>hotkey.
     ensure (\<not> is_root n) CanNotSetRootNetworkWeights
    (ensure (uids_match_values uids values) WeightVecNotEqualSize
    (ensure (w_NetworksAdded s n) SubNetworkDoesNotExist
    (ensure (check_len_uids_within_allowed s n uids) UidsLengthExceedUidsInSubNet
    (ensure (is_hotkey_registered_on_network (w_neurons s) n hotkey) HotKeyNotRegisteredInSubNet
    (ensure (check_weights_min_stake env hotkey n) NotEnoughStakeToSetWeights
    (ensure (check_version_key s n version_key) IncorrectWeightVersionKey
    (and_then (get_uid_for_net_and_hotkey (w_neurons s) n hotkey) (\<lambda>neuron_uid.
     let current_block = we_block env in
     ensure (CommitRevealWeightsEnabled s n \<or> check_rate_limit s n neuron_uid current_block)
       SettingWeightsTooFast
    (ensure (check_validator_permit s n neuron_uid uids values) NeuronNoValidatorPermit
    (ensure (\<not> has_duplicate_uids uids) DuplicateUids
    (ensure (\<not> contains_invalid_uids s n uids) UidVecContainInvalidOne
    (ensure (check_length s n neuron_uid uids values) WeightVecLengthIsLow
    (let max_upscaled_weights = vec_u16_max_upscale_to_u16 (we_fixed env) values in
     ensure (max_weight_limited (we_fixed env) s n neuron_uid uids max_upscaled_weights)
       MaxWeightExceeded
    (let zipped_weights = zip uids max_upscaled_weights;
         s = s\<lparr>WeightRows := (WeightRows s)(n := (WeightRows s n)(neuron_uid := zipped_weights))\<rparr>
     in Inr (if \<not> CommitRevealWeightsEnabled s n
             then w_set_last_update n neuron_uid current_block s else s))))))))))))))))"

text \<open>The dispatchable \<open>set_weights\<close> of \<open>macros/dispatches.rs\<close>.\<close>

definition set_weights ::
    "('a, 'h, 'f) weights_env \<Rightarrow> 'a origin \<Rightarrow> netuid \<Rightarrow> nat list \<Rightarrow> nat list \<Rightarrow> nat \<Rightarrow>
     ('a, 'h) weights_state \<Rightarrow> (subtensor_error, ('a, 'h) weights_state) result" where
  "set_weights env og n dests weights version_key s =
     (if CommitRevealWeightsEnabled s n then Inl CommitRevealEnabled
      else do_set_weights env og n dests weights version_key s)"

text \<open>
  A batch keeps the writes of the items that succeed and records the error of each item that
  fails (the event \<open>BatchWeightItemFailed\<close>); an item that fails has not written anything.
\<close>

definition batch_item ::
    "('s \<Rightarrow> (subtensor_error, 's) result) \<Rightarrow> 's \<times> subtensor_error list \<Rightarrow> 's \<times> subtensor_error list" where
  "batch_item f = (\<lambda>(s, errs). case f s of Inl e \<Rightarrow> (s, errs @ [e]) | Inr s' \<Rightarrow> (s', errs))"

definition do_batch_set_weights ::
    "('a, 'h, 'f) weights_env \<Rightarrow> 'a origin \<Rightarrow> netuid list \<Rightarrow> (nat \<times> nat) list list \<Rightarrow> nat list \<Rightarrow>
     ('a, 'h) weights_state \<Rightarrow> (subtensor_error, ('a, 'h) weights_state \<times> subtensor_error list) result" where
  "do_batch_set_weights env og netuids weights version_keys s =
     and_then (ensure_signed BadOrigin og) (\<lambda>hotkey.
     ensure (length netuids = length weights \<and> length netuids = length version_keys) InputLengthsUnequal
    (Inr (fold (\<lambda>((n, w), version_key). batch_item (\<lambda>s.
        if CommitRevealWeightsEnabled s n then Inl CommitRevealEnabled
        else do_set_weights env og n (map fst w) (map snd w) version_key s))
      (zip (zip netuids weights) version_keys) (s, []))))"

section \<open>Committing\<close>

text \<open>The loop that removes expired commits from the front, with the hashes it removes.\<close>

fun pop_expired :: "(nat \<Rightarrow> bool) \<Rightarrow> 'h weight_commit list \<Rightarrow> 'h list \<times> 'h weight_commit list" where
  "pop_expired expired [] = ([], [])"
| "pop_expired expired ((hash, commit_block, rest) # commits) =
     (if expired commit_block
      then let (hs, cs) = pop_expired expired commits in (hash # hs, cs)
      else ([], (hash, commit_block, rest) # commits))"

definition do_commit_weights ::
    "('a, 'h, 'f) weights_env \<Rightarrow> 'a origin \<Rightarrow> netuid \<Rightarrow> 'h \<Rightarrow> ('a, 'h) weights_state \<Rightarrow>
     (subtensor_error, ('a, 'h) weights_state) result" where
  "do_commit_weights env og n commit_hash s =
     and_then (ensure_signed BadOrigin og) (\<lambda>who.
     ensure (CommitRevealWeightsEnabled s n) CommitRevealDisabled
    (ensure (is_hotkey_registered_on_network (w_neurons s) n who) HotKeyNotRegisteredInSubNet
    (let commit_block = we_block env in
     and_then (get_uid_for_net_and_hotkey (w_neurons s) n who) (\<lambda>neuron_uid.
     ensure (check_rate_limit s n neuron_uid commit_block) CommittingWeightsTooFast
    (let (first_reveal_block, last_reveal_block) = get_reveal_blocks s n commit_block;
         commits = (case WeightCommits s n who of None \<Rightarrow> [] | Some cs \<Rightarrow> cs);
         commits = snd (pop_expired (is_commit_expired (we_block env) s n) commits)
     in ensure (length commits < 10) TooManyUnrevealedCommits
       (let commits = commits @ [(commit_hash, commit_block, first_reveal_block, last_reveal_block)];
            s = s\<lparr>WeightCommits := (WeightCommits s)(n := (WeightCommits s n)(who \<mapsto> commits))\<rparr>
        in Inr (w_set_last_update n neuron_uid commit_block s)))))))"

definition do_batch_commit_weights ::
    "('a, 'h, 'f) weights_env \<Rightarrow> 'a origin \<Rightarrow> netuid list \<Rightarrow> 'h list \<Rightarrow> ('a, 'h) weights_state \<Rightarrow>
     (subtensor_error, ('a, 'h) weights_state \<times> subtensor_error list) result" where
  "do_batch_commit_weights env og netuids commit_hashes s =
     and_then (ensure_signed BadOrigin og) (\<lambda>hotkey.
     ensure (length netuids = length commit_hashes) InputLengthsUnequal
    (Inr (fold (\<lambda>(n, commit_hash). batch_item (do_commit_weights env og n commit_hash))
      (zip netuids commit_hashes) (s, []))))"

definition do_commit_crv3_weights ::
    "('a, 'h, 'f) weights_env \<Rightarrow> 'a origin \<Rightarrow> netuid \<Rightarrow> nat list \<Rightarrow> nat \<Rightarrow> ('a, 'h) weights_state \<Rightarrow>
     (subtensor_error, ('a, 'h) weights_state) result" where
  "do_commit_crv3_weights env og n commit reveal_round s =
     and_then (ensure_signed BadOrigin og) (\<lambda>who.
     ensure (CommitRevealWeightsEnabled s n) CommitRevealDisabled
    (ensure (is_hotkey_registered_on_network (w_neurons s) n who) HotKeyNotRegisteredInSubNet
    (let commit_block = we_block env in
     and_then (get_uid_for_net_and_hotkey (w_neurons s) n who) (\<lambda>neuron_uid.
     ensure (check_rate_limit s n neuron_uid commit_block) CommittingWeightsTooFast
    (let cur_block = we_block env;
         cur_epoch = (if should_run_epoch s n commit_block
                      then sat_add u64_max (get_epoch_index s n cur_block) 1
                      else get_epoch_index s n cur_block);
         commits = CRV3WeightCommits s n cur_epoch;
         unrevealed_commits_for_who = length (filter (\<lambda>(account, _, _). account = who) commits)
     in ensure (unrevealed_commits_for_who < 10) TooManyUnrevealedCommits
       (let s = s\<lparr>CRV3WeightCommits := (CRV3WeightCommits s)(n :=
              (CRV3WeightCommits s n)(cur_epoch := commits @ [(who, commit, reveal_round)]))\<rparr>
        in Inr (w_set_last_update n neuron_uid commit_block s)))))))"

section \<open>Revealing\<close>

fun hash_position :: "'h \<Rightarrow> 'h weight_commit list \<Rightarrow> nat option" where
  "hash_position h [] = None"
| "hash_position h ((hash, _) # commits) =
     (if hash = h then Some 0 else map_option Suc (hash_position h commits))"

definition non_empty :: "'x list \<Rightarrow> 'x list option" where
  "non_empty commits = (if commits = [] then None else Some commits)"

definition do_reveal_weights ::
    "('a, 'h, 'f) weights_env \<Rightarrow> 'a origin \<Rightarrow> netuid \<Rightarrow> nat list \<Rightarrow> nat list \<Rightarrow> nat list \<Rightarrow> nat \<Rightarrow>
     ('a, 'h) weights_state \<Rightarrow> (subtensor_error, ('a, 'h) weights_state) result" where
  "do_reveal_weights env og n uids values salt version_key s =
     and_then (ensure_signed BadOrigin og) (\<lambda>who.
     ensure (CommitRevealWeightsEnabled s n) CommitRevealDisabled
    (and_then (ok_or (WeightCommits s n who) NoWeightsCommitFound) (\<lambda>commits.
     let (expired_hashes, commits) = pop_expired (is_commit_expired (we_block env) s n) commits;
         provided_hash = hash_of env (who, n, uids, values, salt, version_key)
     in if commits = []
        then if provided_hash \<in> set expired_hashes then Inl ExpiredWeightCommit else Inl NoWeightsCommitFound
        else case hash_position provided_hash commits of
          Some position \<Rightarrow>
            ensure (is_reveal_block_range (we_block env) s n (fst (snd (commits ! position)))) RevealTooEarly
           (let commits = drop (Suc position) commits in
            and_then (do_set_weights env og n uids values version_key s) (\<lambda>s.
            Inr (s\<lparr>WeightCommits := (WeightCommits s)(n := (WeightCommits s n)(who := non_empty commits))\<rparr>)))
        | None \<Rightarrow>
            if provided_hash \<in> set expired_hashes then Inl ExpiredWeightCommit
            else Inl InvalidRevealCommitHashNotMatch)))"

text \<open>The two loops of \<open>do_batch_reveal_weights\<close> over the reveals (uids, values, version key, hash).\<close>

type_synonym 'h reveal = "nat list \<times> nat list \<times> nat \<times> 'h"

fun batch_reveal_validate ::
    "(nat \<Rightarrow> bool) \<Rightarrow> 'h list \<Rightarrow> 'h weight_commit list \<Rightarrow> 'h reveal list \<Rightarrow> (subtensor_error, unit) result" where
  "batch_reveal_validate in_range expired_hashes commits [] = Inr ()"
| "batch_reveal_validate in_range expired_hashes commits ((_, _, _, provided_hash) # reveals) =
     (case hash_position provided_hash commits of
        None \<Rightarrow> if provided_hash \<in> set expired_hashes then Inl ExpiredWeightCommit
                else Inl InvalidRevealCommitHashNotMatch
      | Some position \<Rightarrow>
          ensure (in_range (fst (snd (commits ! position)))) RevealTooEarly
            (batch_reveal_validate in_range expired_hashes commits reveals))"

fun batch_reveal_apply ::
    "('a, 'h, 'f) weights_env \<Rightarrow> 'a origin \<Rightarrow> netuid \<Rightarrow> 'h list \<Rightarrow> 'h reveal list \<Rightarrow>
     'h weight_commit list \<Rightarrow> ('a, 'h) weights_state \<Rightarrow>
     (subtensor_error, 'h weight_commit list \<times> ('a, 'h) weights_state) result" where
  "batch_reveal_apply env og n expired_hashes [] commits s = Inr (commits, s)"
| "batch_reveal_apply env og n expired_hashes ((uids, values, version_key, provided_hash) # reveals) commits s =
     (case hash_position provided_hash commits of
        Some position \<Rightarrow>
          (let commits = take position commits @ drop (Suc position) commits in
           and_then (do_set_weights env og n uids values version_key s) (\<lambda>s.
           batch_reveal_apply env og n expired_hashes reveals commits s))
      | None \<Rightarrow> if provided_hash \<in> set expired_hashes then Inl ExpiredWeightCommit
                else Inl InvalidRevealCommitHashNotMatch)"

definition do_batch_reveal_weights ::
    "('a, 'h, 'f) weights_env \<Rightarrow> 'a origin \<Rightarrow> netuid \<Rightarrow> nat list list \<Rightarrow> nat list list \<Rightarrow>
     nat list list \<Rightarrow> nat list \<Rightarrow> ('a, 'h) weights_state \<Rightarrow>
     (subtensor_error, ('a, 'h) weights_state) result" where
  "do_batch_reveal_weights env og n uids_list values_list salts_list version_keys s =
     (let num_reveals = length uids_list in
      ensure (num_reveals = length values_list \<and> num_reveals = length salts_list \<and>
              num_reveals = length version_keys) InputLengthsUnequal
     (and_then (ensure_signed BadOrigin og) (\<lambda>who.
      ensure (CommitRevealWeightsEnabled s n) CommitRevealDisabled
     (and_then (ok_or (WeightCommits s n who) NoWeightsCommitFound) (\<lambda>commits.
      let (expired_hashes, commits) = pop_expired (is_commit_expired (we_block env) s n) commits;
          reveals = map (\<lambda>((uids, values), (salt, version_key)).
              (uids, values, version_key, hash_of env (who, n, uids, values, salt, version_key)))
            (zip (zip uids_list values_list) (zip salts_list version_keys))
      in and_then (batch_reveal_validate (is_reveal_block_range (we_block env) s n)
                     expired_hashes commits reveals) (\<lambda>_.
         and_then (batch_reveal_apply env og n expired_hashes reveals commits s) (\<lambda>(commits, s).
         Inr (s\<lparr>WeightCommits := (WeightCommits s)(n := (WeightCommits s n)(who := non_empty commits))\<rparr>))))))))"

section \<open>The epoch schedule\<close>

lemma epoch_index_exact:
  assumes "b + n + 1 \<le> u64_max" "Tempo s n < u64_max"
  shows "get_epoch_index s n b = (b + n + 1) div (Tempo s n + 1)"
proof -
  have "sat_add u64_max (Tempo s n) 1 = Tempo s n + 1" "sat_add u64_max n 1 = n + 1"
    "sat_add u64_max b (n + 1) = b + n + 1"
    using assms by (simp_all add: sat_add_def)
  then show ?thesis by (simp only: get_epoch_index_def Let_def checked_div_def) simp
qed

lemma sat_add_mono: "a \<le> b \<Longrightarrow> sat_add m a c \<le> sat_add m b c"
  by (auto simp: sat_add_def)

lemma epoch_index_mono:
  assumes "a \<le> b"
  shows "get_epoch_index s n a \<le> get_epoch_index s n b"
  using div_le_mono[OF sat_add_mono[OF assms]] by (simp add: get_epoch_index_def Let_def checked_div_def)

lemma epoch_window:
  fixes x t e k :: nat
  assumes "k \<le> e * (t + 1)"
  shows "(b + k) div (t + 1) = e \<longleftrightarrow> e * (t + 1) - k \<le> b \<and> b \<le> e * (t + 1) - k + t"
    "e < (b + k) div (t + 1) \<longleftrightarrow> e * (t + 1) - k + t < b"
proof -
  have "(b + k) div (t + 1) = e \<longleftrightarrow> e * (t + 1) \<le> b + k \<and> b + k < (e + 1) * (t + 1)"
    by (metis Suc_eq_plus1 div_less_iff_less_mult dividend_less_times_div less_Suc_eq_le
        less_eq_div_iff_mult_less_eq nle_le not_less_eq_eq zero_less_Suc)
  then show "(b + k) div (t + 1) = e \<longleftrightarrow> e * (t + 1) - k \<le> b \<and> b \<le> e * (t + 1) - k + t"
    using assms by (auto simp: algebra_simps)
  have "e < (b + k) div (t + 1) \<longleftrightarrow> (e + 1) * (t + 1) \<le> b + k"
    by (simp add: Suc_le_eq[symmetric] less_eq_div_iff_mult_less_eq del: mult_Suc mult_Suc_right)
  then show "e < (b + k) div (t + 1) \<longleftrightarrow> e * (t + 1) - k + t < b"
    using assms by (auto simp: algebra_simps)
qed

lemma reveal_epoch_bounds:
  fixes t k rp x :: nat
  assumes "1 \<le> rp" "k \<le> x"
  shows "k \<le> (x div (t + 1) + rp) * (t + 1)" "(x div (t + 1) + rp) * (t + 1) \<le> x + rp * (t + 1)"
proof -
  have "x < (x div (t + 1) + 1) * (t + 1)"
    by (metis Suc_eq_plus1 dividend_less_div_times mult.commute mult_Suc_right add.commute zero_less_Suc mult_Suc)
  also have "\<dots> \<le> (x div (t + 1) + rp) * (t + 1)" using assms(1) by (intro mult_le_mono1) simp
  finally show "k \<le> (x div (t + 1) + rp) * (t + 1)" using assms(2) by simp
  show "(x div (t + 1) + rp) * (t + 1) \<le> x + rp * (t + 1)"
    using div_times_less_eq_dividend[of x "t + 1"] by (simp add: add_mult_distrib)
qed

text \<open>The reveal window is what \<open>get_reveal_blocks\<close> stores with the commit: as long as no 64-bit
  operation saturates and the reveal period is at least one epoch, a commit made at block c can
  be revealed at block b exactly when b lies between the first and the last reveal block, it has
  expired exactly when b is past the last one, and the window has tempo + 1 blocks.
\<close>

theorem reveal_window:
  assumes "1 \<le> RevealPeriodEpochs s n" "b + n + 1 \<le> u64_max"
    and "c + n + 1 + (RevealPeriodEpochs s n + 1) * (Tempo s n + 1) \<le> u64_max"
    and "get_reveal_blocks s n c = (first_block, last_block)"
  shows "(is_reveal_block_range b s n c \<longleftrightarrow> first_block \<le> b \<and> b \<le> last_block) \<and>
    (is_commit_expired b s n c \<longleftrightarrow> last_block < b) \<and> last_block = first_block + Tempo s n"
proof (intro conjI)
  let ?t = "Tempo s n" and ?rp = "RevealPeriodEpochs s n"
  let ?E = "(c + n + 1) div (?t + 1) + ?rp"
  have T: "?t < u64_max" and c: "c + n + 1 \<le> u64_max" using assms(3) by auto
  note B = reveal_epoch_bounds[OF assms(1), of "n + 1" "c + n + 1" ?t]
  have E: "?E * (?t + 1) \<le> u64_max" "?E * (?t + 1) - (n + 1) + ?t \<le> u64_max" "?E \<le> u64_max"
  proof -
    show 1: "?E * (?t + 1) \<le> u64_max" using B(2) assms(3) by (simp add: algebra_simps)
    show "?E * (?t + 1) - (n + 1) + ?t \<le> u64_max" using B(2) assms(3) by (simp add: algebra_simps)
    show "?E \<le> u64_max" using 1 by (simp add: algebra_simps)
  qed
  have ep: "get_epoch_index s n c = (c + n + 1) div (?t + 1)" "get_epoch_index s n b = (b + (n + 1)) div (?t + 1)"
    using epoch_index_exact[OF c T] epoch_index_exact[OF assms(2) T] by simp_all
  have sat: "sat_add u64_max ((c + n + 1) div (?t + 1)) ?rp = ?E" "sat_add u64_max ?t 1 = ?t + 1"
    "sat_add u64_max n 1 = n + 1" "sat_mul u64_max ?E (?t + 1) = ?E * (?t + 1)"
    using E T c by (simp_all add: sat_add_exact sat_mul_exact)
  have "sat_add u64_max (?E * (?t + 1) - (n + 1)) ?t = ?E * (?t + 1) - (n + 1) + ?t"
    using E(2) by (rule sat_add_exact)
  with assms(4) sat have fl: "first_block = ?E * (?t + 1) - (n + 1)" "last_block = ?E * (?t + 1) - (n + 1) + ?t"
    by (simp_all add: get_reveal_blocks_def Let_def ep get_reveal_period_def)
  have k: "n + 1 \<le> ?E * (?t + 1)" using B(1) by simp
  show "is_reveal_block_range b s n c \<longleftrightarrow> first_block \<le> b \<and> b \<le> last_block"
    by (simp only: is_reveal_block_range_def Let_def ep get_reveal_period_def sat fl epoch_window(1)[OF k])
  show "is_commit_expired b s n c \<longleftrightarrow> last_block < b"
    by (simp only: is_commit_expired_def Let_def ep get_reveal_period_def sat fl epoch_window(2)[OF k])
  show "last_block = first_block + ?t" by (simp add: fl)
qed

text \<open>A small state for the witnesses: subnet 1 with the hotkeys 10 and 20 at uids 0 and 1.\<close>

definition sample_slots :: "nat neurons" where
  "sample_slots = \<lparr>DefaultAccount = 0, SubnetworkN = (\<lambda>n. if n = 1 then 2 else 0),
     Keys = (\<lambda>n u. if n = 1 then (if u = 0 then Some 10 else if u = 1 then Some 20 else None) else None),
     Uids = (\<lambda>n h. if n = 1 then (if h = 10 then Some 0 else if h = 20 then Some 1 else None) else None),
     IsNetworkMember = (\<lambda>h n. if n = 1 \<and> (h = 10 \<or> h = 20) then Some True else None),
     BlockAtRegistration = (\<lambda>n u. 0), SubnetOwnerHotkey = (\<lambda>n. None),
     Rank = (\<lambda>n. if n = 1 then [0, 0] else []), Trust = (\<lambda>n. if n = 1 then [0, 0] else []),
     Active = (\<lambda>n. if n = 1 then [True, True] else []), Emission = (\<lambda>n. if n = 1 then [0, 0] else []),
     Consensus = (\<lambda>n. if n = 1 then [0, 0] else []), Incentive = (\<lambda>n. if n = 1 then [0, 0] else []),
     Dividends = (\<lambda>n. if n = 1 then [0, 0] else []), LastUpdate = (\<lambda>n. if n = 1 then [0, 0] else []),
     PruningScores = (\<lambda>n. if n = 1 then [0, 0] else []), ValidatorTrust = (\<lambda>n. if n = 1 then [0, 0] else []),
     ValidatorPermit = (\<lambda>n. if n = 1 then [True, False] else []), Bonds = (\<lambda>n u. []),
     NeuronCertificates = (\<lambda>n h. None), Axons = (\<lambda>n h. None)\<rparr>"

definition sample_weights :: "bool \<Rightarrow> (nat, nat) weights_state" where
  "sample_weights cr = \<lparr>w_neurons = sample_slots, w_NetworksAdded = (\<lambda>n. n = 1),
     CommitRevealWeightsEnabled = (\<lambda>n. cr), WeightCommits = (\<lambda>n h. None),
     CRV3WeightCommits = (\<lambda>n e. []), Tempo = (\<lambda>n. 9), RevealPeriodEpochs = (\<lambda>n. 1),
     WeightsVersionKey = (\<lambda>n. 0), WeightsSetRateLimit = (\<lambda>n. 5), MinAllowedWeights = (\<lambda>n. 1),
     MaxWeightsLimit = (\<lambda>n. 65535), WeightRows = (\<lambda>n u. [])\<rparr>"

text \<open>Non-negative \<open>I32F32\<close> numbers as multiples of two to the power of minus 32.\<close>

definition sample_fixed :: "nat fixed_ops" where
  "sample_fixed = \<lparr>fx_from = (\<lambda>k. k * 4294967296),
     fx_saturating_mul = (\<lambda>a b. min 9223372036854775807 (a * b div 4294967296)),
     fx_checked_div = (\<lambda>a b. if b = 0 then None else Some (a * 4294967296 div b)),
     fx_round = (\<lambda>a. (a + 2147483648) div 4294967296 * 4294967296),
     fx_to_u16 = (\<lambda>a. min 65535 (a div 4294967296)), fx_le = (\<le>), fx_sum = sum_list\<rparr>"

definition sample_chain :: "nat \<Rightarrow> (nat, nat, nat) weights_env" where
  "sample_chain b = \<lparr>we_block = b,
     hash_of = (\<lambda>(who, n, uids, values, salt, key). who + sum_list uids + 100 * sum_list values + 1000 * sum_list salt),
     check_weights_min_stake = (\<lambda>h n. True), we_fixed = sample_fixed\<rparr>"

theorem reveal_window_witness:
  "(is_reveal_block_range 20 (sample_weights True) 1 3 \<longleftrightarrow> 8 \<le> (20::nat) \<and> 20 \<le> (17::nat)) \<and>
   (is_commit_expired 20 (sample_weights True) 1 3 \<longleftrightarrow> 17 < (20::nat)) \<and>
   (17::nat) = 8 + Tempo (sample_weights True) 1"
  by (rule reveal_window)
    (simp_all add: sample_weights_def u64_max_def get_reveal_blocks_def get_epoch_index_def
      get_reveal_period_def sat_add_def sat_mul_def checked_div_def)

lemma mod_add_small:
  fixes x k t :: nat
  assumes "x mod (t + 1) + k \<le> t"
  shows "(x + k) mod (t + 1) = x mod (t + 1) + k"
proof -
  have "(x + k) mod (t + 1) = (x mod (t + 1) + k) mod (t + 1)" by (simp add: mod_simps)
  with assms show ?thesis by simp
qed

lemma blocks_until_exact:
  assumes "b + n + 1 \<le> u64_max" "t < u64_max" "t \<noteq> 0"
  shows "blocks_until_next_epoch n t b = t - (b + n + 1) mod (t + 1)"
proof -
  have "sat_add u64_max n 1 = n + 1" "sat_add u64_max t 1 = t + 1" "(b + (n + 1)) mod (u64_max + 1) = b + n + 1"
    using assms by (simp_all add: sat_add_def)
  then show ?thesis using assms(3) by (simp only: blocks_until_next_epoch_def Let_def) simp
qed

lemma should_run_epoch_iff:
  assumes "b + n + 1 \<le> u64_max" "Tempo s n < u64_max" "Tempo s n \<noteq> 0"
  shows "should_run_epoch s n b \<longleftrightarrow> (b + n + 1) mod (Tempo s n + 1) = Tempo s n"
proof -
  have "(b + n + 1) mod (Tempo s n + 1) \<le> Tempo s n"
    by (metis Suc_eq_plus1 less_Suc_eq_le mod_less_divisor zero_less_Suc)
  then show ?thesis unfolding should_run_epoch_def blocks_until_exact[OF assms] by linarith
qed

text \<open>The epoch schedule of a subnet with a positive tempo: \<open>blocks_until_next_epoch\<close> counts the
  blocks to the next run exactly (the subnet runs its epoch that many blocks ahead and at no
  block before), and a block runs the epoch exactly when the epoch index that the commit-reveal
  scheme uses moves on by one with the following block.
\<close>

theorem epoch_schedule:
  assumes "Tempo s n \<noteq> 0" "b + n + 1 + Tempo s n < u64_max"
  shows "should_run_epoch s n (b + blocks_until_next_epoch n (Tempo s n) b) \<and>
    (\<forall>k < blocks_until_next_epoch n (Tempo s n) b. \<not> should_run_epoch s n (b + k)) \<and>
    (should_run_epoch s n b \<longleftrightarrow> get_epoch_index s n (b + 1) = get_epoch_index s n b + 1)"
proof (intro conjI allI impI)
  let ?t = "Tempo s n" and ?x = "b + n + 1"
  have t: "?t < u64_max" and b: "?x \<le> u64_max" using assms(2) by auto
  define d where "d = ?t - ?x mod (?t + 1)"
  have d: "blocks_until_next_epoch n ?t b = d" using blocks_until_exact[OF b t assms(1)] by (simp add: d_def)
  have r: "?x mod (?t + 1) \<le> ?t" by (metis Suc_eq_plus1 less_Suc_eq_le mod_less_divisor zero_less_Suc)
  have run: "should_run_epoch s n (b + k) \<longleftrightarrow> ?x mod (?t + 1) + k = ?t" if "k \<le> d" for k
  proof -
    have "(b + k) + n + 1 \<le> u64_max" using that assms(2) by (simp add: d_def)
    then have "should_run_epoch s n (b + k) \<longleftrightarrow> (?x + k) mod (?t + 1) = ?t"
      using should_run_epoch_iff[OF _ t assms(1), of "b + k"] by (simp add: ac_simps)
    also have "(?x + k) mod (?t + 1) = ?x mod (?t + 1) + k"
      using that r unfolding d_def by (intro mod_add_small) linarith
    finally show ?thesis .
  qed
  show "should_run_epoch s n (b + blocks_until_next_epoch n ?t b)" unfolding d using run[of d] r by (simp add: d_def)
  show "\<not> should_run_epoch s n (b + k)" if "k < blocks_until_next_epoch n ?t b" for k
    using that run[of k] unfolding d by (simp add: d_def)
  have "get_epoch_index s n (b + 1) = Suc ?x div Suc ?t" "get_epoch_index s n b = ?x div Suc ?t"
    using assms(2) epoch_index_exact[OF _ t, of "b + 1"] epoch_index_exact[OF b t] by simp_all
  moreover have "Suc ?x div Suc ?t = (if Suc ?x mod Suc ?t = 0 then Suc (?x div Suc ?t) else ?x div Suc ?t)"
    by (rule div_Suc)
  moreover have "Suc ?x mod Suc ?t = (if Suc (?x mod Suc ?t) = Suc ?t then 0 else Suc (?x mod Suc ?t))"
    by (rule mod_Suc)
  ultimately show "should_run_epoch s n b \<longleftrightarrow> get_epoch_index s n (b + 1) = get_epoch_index s n b + 1"
    using should_run_epoch_iff[OF b t assms(1)] by (simp split: if_splits)
qed

theorem epoch_schedule_witness:
  "should_run_epoch (sample_weights True) 1 (3 + blocks_until_next_epoch 1 (Tempo (sample_weights True) 1) 3) \<and>
   \<not> should_run_epoch (sample_weights True) 1 (3 + 2) \<and>
   (should_run_epoch (sample_weights True) 1 3 \<longleftrightarrow>
     get_epoch_index (sample_weights True) 1 (3 + 1) = get_epoch_index (sample_weights True) 1 3 + 1)"
proof -
  have "2 < blocks_until_next_epoch 1 (Tempo (sample_weights True) 1) 3"
    by (simp add: blocks_until_next_epoch_def sample_weights_def sat_add_def u64_max_def)
  moreover have "Tempo (sample_weights True) 1 \<noteq> 0" "3 + 1 + 1 + Tempo (sample_weights True) 1 < u64_max"
    by (simp_all add: sample_weights_def u64_max_def)
  ultimately show ?thesis using epoch_schedule[of "sample_weights True" 1 3] by blast
qed

section \<open>Weights that are set\<close>

lemma has_duplicate_uids_loop_iff:
  "distinct parsed \<Longrightarrow> has_duplicate_uids_loop parsed items \<longleftrightarrow> \<not> distinct (parsed @ items)"
  by (induction parsed items rule: has_duplicate_uids_loop.induct) auto

lemma has_duplicate_uids_iff: "has_duplicate_uids items \<longleftrightarrow> \<not> distinct items"
  by (simp add: has_duplicate_uids_def has_duplicate_uids_loop_iff)

lemma contains_invalid_uids_iff: "contains_invalid_uids s n uids \<longleftrightarrow> (\<exists>u \<in> set uids. Keys (w_neurons s) n u = None)"
  by (induction s n uids rule: contains_invalid_uids.induct) (auto simp: is_uid_exist_on_network_def)

lemma length_upscale [simp]: "length (vec_u16_max_upscale_to_u16 F vec) = length vec"
  by (simp add: vec_u16_max_upscale_to_u16_def vec_max_upscale_to_u16_def Let_def split: option.split)

lemma upscale_bound:
  assumes "\<And>x. fx_to_u16 F x \<le> u16_max" "v \<in> set (vec_u16_max_upscale_to_u16 F vec)"
  shows "v \<le> u16_max"
  using assms by (auto simp: vec_u16_max_upscale_to_u16_def vec_max_upscale_to_u16_def Let_def
      split: option.splits if_splits)

lemma w_set_last_update_fields [simp]:
  "w_neurons (w_set_last_update n u b s) = set_last_update_for_uid n u b (w_neurons s)"
  "w_NetworksAdded (w_set_last_update n u b s) = w_NetworksAdded s"
  "CommitRevealWeightsEnabled (w_set_last_update n u b s) = CommitRevealWeightsEnabled s"
  "WeightCommits (w_set_last_update n u b s) = WeightCommits s"
  "CRV3WeightCommits (w_set_last_update n u b s) = CRV3WeightCommits s"
  "Tempo (w_set_last_update n u b s) = Tempo s"
  "RevealPeriodEpochs (w_set_last_update n u b s) = RevealPeriodEpochs s"
  "WeightRows (w_set_last_update n u b s) = WeightRows s"
  by (simp_all add: w_set_last_update_def)

lemma set_last_update_fields [simp]:
  "Uids (set_last_update_for_uid n u b ns) = Uids ns" "Keys (set_last_update_for_uid n u b ns) = Keys ns"
  "SubnetworkN (set_last_update_for_uid n u b ns) = SubnetworkN ns"
  by (simp_all add: set_last_update_for_uid_def)

text \<open>What a successful \<open>do_set_weights\<close> has checked and written.\<close>

lemma do_set_weightsE:
  assumes "do_set_weights env og n uids values version_key s = Inr s'"
  obtains who uid where "og = Signed who" "n \<noteq> root_netuid" "w_NetworksAdded s n"
    "Uids (w_neurons s) n who = Some uid" "length uids = length values" "distinct uids"
    "\<forall>u \<in> set uids. Keys (w_neurons s) n u \<noteq> None" "check_weights_min_stake env who n"
    "CommitRevealWeightsEnabled s n \<or> check_rate_limit s n uid (we_block env)"
    "WeightRows s' = (WeightRows s)(n := (WeightRows s n)(uid :=
       zip uids (vec_u16_max_upscale_to_u16 (we_fixed env) values)))"
    "w_neurons s' = (if CommitRevealWeightsEnabled s n then w_neurons s
       else set_last_update_for_uid n uid (we_block env) (w_neurons s))"
    "CommitRevealWeightsEnabled s' = CommitRevealWeightsEnabled s" "WeightCommits s' = WeightCommits s"
    "CRV3WeightCommits s' = CRV3WeightCommits s" "Tempo s' = Tempo s"
    "RevealPeriodEpochs s' = RevealPeriodEpochs s" "w_NetworksAdded s' = w_NetworksAdded s"
proof -
  from assms obtain who where og: "og = Signed who" by (auto simp: do_set_weights_def)
  from assms obtain uid where uid: "Uids (w_neurons s) n who = Some uid"
    by (auto simp: do_set_weights_def og get_uid_for_net_and_hotkey_def)
  note F = assms[unfolded do_set_weights_def og get_uid_for_net_and_hotkey_def uid Let_def
      ensure_signed.simps and_then_simps ok_or_simps ensure_Inr sum.inject]
  let ?s = "s\<lparr>WeightRows := (WeightRows s)(n := (WeightRows s n)(uid :=
    zip uids (vec_u16_max_upscale_to_u16 (we_fixed env) values)))\<rparr>"
  have s': "s' = (if CommitRevealWeightsEnabled s n then ?s else w_set_last_update n uid (we_block env) ?s)"
  proof -
    have "(if \<not> CommitRevealWeightsEnabled ?s n then w_set_last_update n uid (we_block env) ?s else ?s) = s'"
      using F by (elim conjE)
    then show ?thesis by (rule subst) simp
  qed
  show thesis
    using F by (intro that[of who uid])
      (simp_all add: s' og uid is_root_def uids_match_values_def has_duplicate_uids_iff contains_invalid_uids_iff)
qed

text \<open>Weights that are set are well formed: a call that succeeds comes from a hotkey registered
  on an existing subnet other than root, and replaces exactly the row of its uid by one entry
  per given uid, without duplicates, all of them uids of the subnet, each weight at most
  \<open>u16::MAX\<close>, the values being the max-upscaled ones of the call.
\<close>

theorem set_weights_valid:
  assumes "do_set_weights env og n uids values version_key s = Inr s'"
    and "\<And>x. fx_to_u16 (we_fixed env) x \<le> u16_max"
  shows "\<exists>who uid. og = Signed who \<and> Uids (w_neurons s) n who = Some uid \<and> n \<noteq> root_netuid \<and>
    (\<forall>m u. (m, u) \<noteq> (n, uid) \<longrightarrow> WeightRows s' m u = WeightRows s m u) \<and>
    map fst (WeightRows s' n uid) = uids \<and> distinct uids \<and>
    map snd (WeightRows s' n uid) = vec_u16_max_upscale_to_u16 (we_fixed env) values \<and>
    (\<forall>(u, v) \<in> set (WeightRows s' n uid). Keys (w_neurons s) n u \<noteq> None \<and> v \<le> u16_max)"
  using assms(1)
proof (rule do_set_weightsE)
  fix who uid
  assume *: "og = Signed who" "Uids (w_neurons s) n who = Some uid" "n \<noteq> root_netuid"
    "length uids = length values" "distinct uids" "\<forall>u \<in> set uids. Keys (w_neurons s) n u \<noteq> None"
    and rows: "WeightRows s' = (WeightRows s)(n := (WeightRows s n)(uid :=
       zip uids (vec_u16_max_upscale_to_u16 (we_fixed env) values)))"
  have "Keys (w_neurons s) n u \<noteq> None \<and> v \<le> u16_max"
    if "(u, v) \<in> set (zip uids (vec_u16_max_upscale_to_u16 (we_fixed env) values))" for u v
    using set_zip_leftD[OF that] set_zip_rightD[OF that] *(6) upscale_bound[OF assms(2)] by blast
  with * rows show ?thesis by (intro exI[of _ who] exI[of _ uid]) auto
qed

lemmas weights_eval = sample_weights_def sample_slots_def sample_chain_def sample_fixed_def do_set_weights_def
  do_commit_weights_def do_reveal_weights_def is_root_def root_netuid_def uids_match_values_def
  check_len_uids_within_allowed_def get_subnetwork_n_def is_hotkey_registered_on_network_def
  check_version_key_def get_uid_for_net_and_hotkey_def check_rate_limit_def is_uid_exist_on_network_def
  get_last_update_for_uid_def vec_get_def check_validator_permit_def is_self_weight_def
  get_validator_permit_for_uid_def has_duplicate_uids_def check_length_def max_weight_limited_def
  vec_u16_max_upscale_to_u16_def vec_max_upscale_to_u16_def fx_safe_div_def u16_max_def Let_def
  w_set_last_update_def set_last_update_for_uid_def get_reveal_blocks_def get_epoch_index_def
  is_commit_expired_def is_reveal_block_range_def get_reveal_period_def sat_add_def sat_mul_def
  u64_max_def checked_div_def non_empty_def

theorem set_weights_valid_witness:
  "\<exists>s'. do_set_weights (sample_chain 7) (Signed 10) 1 [0, 1] [100, 300] 0 (sample_weights False) = Inr s' \<and>
    WeightRows s' 1 1 = [] \<and> map fst (WeightRows s' 1 0) = [0, 1] \<and>
    map snd (WeightRows s' 1 0) = vec_u16_max_upscale_to_u16 (we_fixed (sample_chain 7)) [100, 300]"
proof -
  have "\<exists>s'. do_set_weights (sample_chain 7) (Signed 10) 1 [0, 1] [100, 300] 0 (sample_weights False) = Inr s'"
    by (simp add: weights_eval)
  then obtain s' where s': "do_set_weights (sample_chain 7) (Signed 10) 1 [0, 1] [100, 300] 0 (sample_weights False) = Inr s'" ..
  have "fx_to_u16 (we_fixed (sample_chain 7)) x \<le> u16_max" for x
    by (simp add: sample_chain_def sample_fixed_def u16_max_def)
  from set_weights_valid[OF s' this] show ?thesis
  proof (elim exE conjE)
    fix who uid
    assume w: "Signed (10::nat) = Signed who" "Uids (w_neurons (sample_weights False)) 1 who = Some uid"
      "\<forall>m u. (m, u) \<noteq> (1, uid) \<longrightarrow> WeightRows s' m u = WeightRows (sample_weights False) m u"
      "map fst (WeightRows s' 1 uid) = [0, 1]"
      "map snd (WeightRows s' 1 uid) = vec_u16_max_upscale_to_u16 (we_fixed (sample_chain 7)) [100, 300]"
    have "uid = 0" using w(1,2) by (simp add: sample_weights_def sample_slots_def)
    moreover have "(1::nat, 1::nat) \<noteq> (1, 0)" by simp
    ultimately show ?thesis
      using w(3)[rule_format, of 1 1] w(4,5) s' by (intro exI[of _ s'] conjI) (simp_all add: sample_weights_def)
  qed
qed

section \<open>The queue of commits\<close>

definition commit_block_of :: "'h weight_commit \<Rightarrow> nat" where
  "commit_block_of c = fst (snd c)"

lemma pop_expired_eq:
  "pop_expired expired cs =
     (map fst (takeWhile (\<lambda>c. expired (commit_block_of c)) cs), dropWhile (\<lambda>c. expired (commit_block_of c)) cs)"
  by (induction expired cs rule: pop_expired.induct) (auto simp: commit_block_of_def)

lemma hash_position_Some:
  "hash_position h cs = Some i \<longleftrightarrow> i < length cs \<and> fst (cs ! i) = h \<and> (\<forall>j < i. fst (cs ! j) \<noteq> h)"
proof (induction h cs arbitrary: i rule: hash_position.induct)
  case (2 h hash rest commits)
  show ?case using 2[of "i - 1"] by (cases i) (auto simp: less_Suc_eq_0_disj)
qed simp

lemma hash_position_None: "hash_position h cs = None \<longleftrightarrow> h \<notin> fst ` set cs"
  by (induction h cs rule: hash_position.induct) auto

definition queue_inv :: "nat \<Rightarrow> 'h weight_commit list \<Rightarrow> bool" where
  "queue_inv block cs \<longleftrightarrow> cs \<noteq> [] \<and> length cs \<le> 10 \<and> sorted (map commit_block_of cs) \<and>
     (\<forall>c \<in> set cs. commit_block_of c \<le> block)"

definition weights_inv :: "nat \<Rightarrow> ('a, 'h) weights_state \<Rightarrow> bool" where
  "weights_inv block s \<longleftrightarrow>
     (\<forall>n who cs. WeightCommits s n who = Some cs \<longrightarrow> queue_inv block cs) \<and>
     (\<forall>n e who. length (filter (\<lambda>c. fst c = who) (CRV3WeightCommits s n e)) \<le> 10) \<and>
     (\<forall>n uid. distinct (map fst (WeightRows s n uid)))"

text \<open>In a queue sorted by commit block the expired commits are a prefix, so the loop removes all of them.\<close>

lemma expired_mono:
  assumes "is_commit_expired b s n c" "c' \<le> c"
  shows "is_commit_expired b s n c'"
  using assms epoch_index_mono[OF assms(2), of s n] sat_add_mono[of _ _ u64_max "get_reveal_period s n"]
  unfolding is_commit_expired_def Let_def by (meson le_less_trans)

lemma dropWhile_sorted_filter:
  assumes "sorted (map f cs)" "\<And>x y. P x \<Longrightarrow> f y \<le> f x \<Longrightarrow> P y"
  shows "dropWhile P cs = filter (\<lambda>c. \<not> P c) cs"
  using assms(1)
proof (induction cs)
  case (Cons c cs)
  show ?case
  proof (cases "P c")
    case False
    then have "\<forall>c' \<in> set cs. \<not> P c'" using Cons.prems assms(2) by auto
    with False show ?thesis by simp
  qed (use Cons in simp)
qed simp

lemma pop_expired_sorted:
  assumes "sorted (map commit_block_of cs)"
  shows "snd (pop_expired (is_commit_expired b s n) cs) =
    filter (\<lambda>c. \<not> is_commit_expired b s n (commit_block_of c)) cs"
  unfolding pop_expired_eq snd_conv by (rule dropWhile_sorted_filter[OF assms]) (rule expired_mono)

lemma do_commit_weightsE:
  assumes "do_commit_weights env og n commit_hash s = Inr s'"
  obtains who uid cs f l where "og = Signed who" "CommitRevealWeightsEnabled s n"
    "Uids (w_neurons s) n who = Some uid" "check_rate_limit s n uid (we_block env)"
    "get_reveal_blocks s n (we_block env) = (f, l)"
    "cs = dropWhile (\<lambda>c. is_commit_expired (we_block env) s n (commit_block_of c))
      (case WeightCommits s n who of None \<Rightarrow> [] | Some cs \<Rightarrow> cs)" "length cs < 10"
    "s' = w_set_last_update n uid (we_block env) (s\<lparr>WeightCommits := (WeightCommits s)(n :=
       (WeightCommits s n)(who \<mapsto> cs @ [(commit_hash, we_block env, f, l)]))\<rparr>)"
proof -
  obtain f l where fl: "get_reveal_blocks s n (we_block env) = (f, l)" by fastforce
  from assms show thesis
    by (auto simp: do_commit_weights_def get_uid_for_net_and_hotkey_def fl Let_def pop_expired_eq
        intro!: that[OF _ _ _ _ fl])
qed

lemma do_commit_crv3_weightsE:
  assumes "do_commit_crv3_weights env og n commit reveal_round s = Inr s'"
  obtains who uid e where "og = Signed who" "CommitRevealWeightsEnabled s n"
    "length (filter (\<lambda>c. fst c = who) (CRV3WeightCommits s n e)) < 10"
    "s' = w_set_last_update n uid (we_block env) (s\<lparr>CRV3WeightCommits := (CRV3WeightCommits s)(n :=
       (CRV3WeightCommits s n)(e := CRV3WeightCommits s n e @ [(who, commit, reveal_round)]))\<rparr>)"
  using assms by (auto simp: do_commit_crv3_weights_def Let_def case_prod_unfold intro!: that)

lemma do_reveal_weightsE:
  assumes "do_reveal_weights env og n uids values salt version_key s = Inr s'"
  obtains who cs pre c post s1 where "og = Signed who" "CommitRevealWeightsEnabled s n"
    "WeightCommits s n who = Some cs" "cs = pre @ c # post"
    "fst c = hash_of env (who, n, uids, values, salt, version_key)"
    "is_reveal_block_range (we_block env) s n (commit_block_of c)"
    "do_set_weights env og n uids values version_key s = Inr s1"
    "s' = s1\<lparr>WeightCommits := (WeightCommits s1)(n := (WeightCommits s1 n)(who := non_empty post))\<rparr>"
proof -
  from assms obtain who cs where og: "og = Signed who" and cs: "WeightCommits s n who = Some cs"
    and cr: "CommitRevealWeightsEnabled s n" by (auto simp: do_reveal_weights_def)
  define ds where "ds = dropWhile (\<lambda>c. is_commit_expired (we_block env) s n (commit_block_of c)) cs"
  let ?h = "hash_of env (who, n, uids, values, salt, version_key)"
  note F = assms[unfolded do_reveal_weights_def og cs pop_expired_eq Let_def ds_def[symmetric]
      ensure_signed.simps and_then_simps ok_or_simps ensure_Inr prod.case]
  from F obtain i where i: "hash_position ?h ds = Some i"
    by (cases "hash_position ?h ds") (auto split: if_splits)
  from F obtain s1 where s1: "do_set_weights env (Signed who) n uids values version_key s = Inr s1"
    "s' = s1\<lparr>WeightCommits := (WeightCommits s1)(n := (WeightCommits s1 n)(who := non_empty (drop (Suc i) ds)))\<rparr>"
    and range: "is_reveal_block_range (we_block env) s n (fst (snd (ds ! i)))"
    by (auto simp: i split: if_splits)
  have il: "i < length ds" "fst (ds ! i) = ?h" using i by (simp_all add: hash_position_Some)
  have "cs = takeWhile (\<lambda>c. is_commit_expired (we_block env) s n (commit_block_of c)) cs @ ds"
    by (simp add: ds_def)
  also have "ds = take i ds @ ds ! i # drop (Suc i) ds" using il(1) by (rule id_take_nth_drop)
  finally have "cs = (takeWhile (\<lambda>c. is_commit_expired (we_block env) s n (commit_block_of c)) cs @ take i ds)
    @ ds ! i # drop (Suc i) ds" by simp
  from that[OF og cr cs this il(2) _ _ s1(2)] range s1(1) og show thesis by (simp add: commit_block_of_def)
qed

text \<open>The calls of the component, and what one call does to the state.\<close>

datatype ('a, 'h) weights_call =
    SetWeights "'a origin" netuid "nat list" "nat list" nat
  | BatchSetWeights "'a origin" "netuid list" "(nat \<times> nat) list list" "nat list"
  | CommitWeights "'a origin" netuid 'h
  | BatchCommitWeights "'a origin" "netuid list" "'h list"
  | CommitCRV3Weights "'a origin" netuid "nat list" nat
  | RevealWeights "'a origin" netuid "nat list" "nat list" "nat list" nat
  | BatchRevealWeights "'a origin" netuid "nat list list" "nat list list" "nat list list" "nat list"

definition batch_state :: "(subtensor_error, 's \<times> subtensor_error list) result \<Rightarrow> (subtensor_error, 's) result" where
  "batch_state r = and_then r (\<lambda>(s, errs). Inr s)"

fun weights_exec ::
    "('a, 'h, 'f) weights_env \<Rightarrow> ('a, 'h) weights_call \<Rightarrow> ('a, 'h) weights_state \<Rightarrow>
     (subtensor_error, ('a, 'h) weights_state) result" where
  "weights_exec env (SetWeights og n uids values key) s = set_weights env og n uids values key s"
| "weights_exec env (BatchSetWeights og ns ws keys) s = batch_state (do_batch_set_weights env og ns ws keys s)"
| "weights_exec env (CommitWeights og n h) s = do_commit_weights env og n h s"
| "weights_exec env (BatchCommitWeights og ns hs) s = batch_state (do_batch_commit_weights env og ns hs s)"
| "weights_exec env (CommitCRV3Weights og n commit r) s = do_commit_crv3_weights env og n commit r s"
| "weights_exec env (RevealWeights og n uids values salt key) s = do_reveal_weights env og n uids values salt key s"
| "weights_exec env (BatchRevealWeights og n us vs ss ks) s = do_batch_reveal_weights env og n us vs ss ks s"

lemma fold_batch_invariant:
  assumes "\<And>x s s'. P s \<Longrightarrow> f x s = Inr s' \<Longrightarrow> P s'" "P (fst acc)"
  shows "P (fst (fold (\<lambda>x. batch_item (f x)) xs acc))"
  using assms(2)
proof (induction xs arbitrary: acc)
  case (Cons x xs)
  have "P (fst (batch_item (f x) acc))"
    using assms(1)[of "fst acc" x] Cons.prems by (simp add: batch_item_def case_prod_unfold split: sum.split)
  then show ?case using Cons.IH by simp
qed simp

lemma batch_set_weights_invariant:
  assumes "do_batch_set_weights env og ns ws keys s = Inr r" "P s"
    and "\<And>n uids values key u u'. P u \<Longrightarrow> \<not> CommitRevealWeightsEnabled u n \<Longrightarrow>
      do_set_weights env og n uids values key u = Inr u' \<Longrightarrow> P u'"
  shows "P (fst r)"
proof -
  let ?f = "\<lambda>((n, w), key) s. if CommitRevealWeightsEnabled s n then Inl CommitRevealEnabled
        else do_set_weights env og n (map fst w) (map snd w) key s"
  have "r = fold (\<lambda>x. batch_item (?f x)) (zip (zip ns ws) keys) (s, [])"
    using assms(1) by (auto simp: do_batch_set_weights_def case_prod_unfold)
  moreover have "P (fst (fold (\<lambda>x. batch_item (?f x)) (zip (zip ns ws) keys) (s, [])))"
    by (rule fold_batch_invariant) (use assms(2,3) in \<open>auto split: if_splits\<close>)
  ultimately show ?thesis by simp
qed

lemma batch_commit_weights_invariant:
  assumes "do_batch_commit_weights env og ns hs s = Inr r" "P s"
    and "\<And>n h u u'. P u \<Longrightarrow> do_commit_weights env og n h u = Inr u' \<Longrightarrow> P u'"
  shows "P (fst r)"
proof -
  let ?f = "\<lambda>(n, h). do_commit_weights env og n h"
  have "r = fold (\<lambda>x. batch_item (?f x)) (zip ns hs) (s, [])"
    using assms(1) by (auto simp: do_batch_commit_weights_def case_prod_unfold)
  moreover have "P (fst (fold (\<lambda>x. batch_item (?f x)) (zip ns hs) (s, [])))"
    by (rule fold_batch_invariant) (use assms(2,3) in auto)
  ultimately show ?thesis by simp
qed

definition reveal_hash :: "'h reveal \<Rightarrow> 'h" where
  "reveal_hash r = snd (snd (snd r))"

lemma reveal_hash_simp [simp]: "reveal_hash (uids, values, key, h) = h"
  by (simp add: reveal_hash_def)

lemma remove_nth_facts:
  assumes "i < length cs"
  shows "set (take i cs @ drop (Suc i) cs) \<subseteq> set cs"
    "sorted (map f cs) \<Longrightarrow> sorted (map f (take i cs @ drop (Suc i) cs))"
    "mset (map g cs) = add_mset (g (cs ! i)) (mset (map g (take i cs @ drop (Suc i) cs)))"
    "length (take i cs @ drop (Suc i) cs) \<le> length cs"
proof -
  define as where "as = take i cs"
  define bs where "bs = drop (Suc i) cs"
  have cs: "cs = as @ cs ! i # bs" using id_take_nth_drop[OF assms] by (simp add: as_def bs_def)
  have s: "set (as @ bs) \<subseteq> set (as @ c # bs)" "sorted (map f (as @ c # bs)) \<Longrightarrow> sorted (map f (as @ bs))"
    "mset (map g (as @ c # bs)) = add_mset (g c) (mset (map g (as @ bs)))"
    "length (as @ bs) \<le> length (as @ c # bs)" for c
    by (auto simp: sorted_append)
  note S = s[of "cs ! i", folded cs]
  show "set (take i cs @ drop (Suc i) cs) \<subseteq> set cs"
    "sorted (map f cs) \<Longrightarrow> sorted (map f (take i cs @ drop (Suc i) cs))"
    "mset (map g cs) = add_mset (g (cs ! i)) (mset (map g (take i cs @ drop (Suc i) cs)))"
    "length (take i cs @ drop (Suc i) cs) \<le> length cs"
    unfolding as_def[symmetric] bs_def[symmetric] by (fact S)+
qed

text \<open>The second loop of a batch of reveals, in a subnet with commit-reveal enabled.\<close>

definition rows_revealed ::
    "('a, 'h, 'f) weights_env \<Rightarrow> netuid \<Rightarrow> 'a \<Rightarrow> 'h reveal set \<Rightarrow> ('a, 'h) weights_state \<Rightarrow>
     ('a, 'h) weights_state \<Rightarrow> bool" where
  "rows_revealed env n who R s s' \<longleftrightarrow>
     (\<forall>m u. WeightRows s' m u = WeightRows s m u \<or>
        m = n \<and> Uids (w_neurons s) n who = Some u \<and>
        (\<exists>(uids, values, key, h) \<in> R. distinct uids \<and>
           WeightRows s' n u = zip uids (vec_u16_max_upscale_to_u16 (we_fixed env) values)))"

lemma rows_revealedE:
  assumes "rows_revealed env n who R s s'" "WeightRows s' m u \<noteq> WeightRows s m u"
  obtains uids vals key h where "(uids, vals, key, h) \<in> R" "m = n" "Uids (w_neurons s) n who = Some u"
    "distinct uids" "WeightRows s' m u = zip uids (vec_u16_max_upscale_to_u16 (we_fixed env) vals)"
proof -
  from assms have "m = n" "Uids (w_neurons s) n who = Some u"
    and "\<exists>(uids, vals, key, h) \<in> R. distinct uids \<and>
       WeightRows s' n u = zip uids (vec_u16_max_upscale_to_u16 (we_fixed env) vals)"
    unfolding rows_revealed_def by blast+
  then show thesis using that by blast
qed

lemma batch_reveal_apply_spec:
  assumes "batch_reveal_apply env (Signed who) n ex reveals cs s = Inr (cs', s')" "CommitRevealWeightsEnabled s n"
  shows "set cs' \<subseteq> set cs \<and> (sorted (map commit_block_of cs) \<longrightarrow> sorted (map commit_block_of cs')) \<and>
    length cs' \<le> length cs \<and> mset (map fst cs) = mset (map fst cs') + mset (map reveal_hash reveals) \<and>
    WeightCommits s' = WeightCommits s \<and> CRV3WeightCommits s' = CRV3WeightCommits s \<and>
    w_neurons s' = w_neurons s \<and> rows_revealed env n who (set reveals) s s'"
  using assms
proof (induction reveals arbitrary: cs s)
  case Nil
  then show ?case by (simp add: rows_revealed_def)
next
  case (Cons r reveals)
  obtain uids vals key h where r: "r = (uids, vals, key, h)" by (cases r)
  from Cons.prems(1) obtain i where i: "hash_position h cs = Some i"
    by (auto simp: r split: option.splits if_splits)
  let ?cs = "take i cs @ drop (Suc i) cs"
  from Cons.prems(1) obtain s1 where s1: "do_set_weights env (Signed who) n uids vals key s = Inr s1"
    and rest: "batch_reveal_apply env (Signed who) n ex reveals ?cs s1 = Inr (cs', s')"
    by (auto simp: r i)
  have il: "i < length cs" "fst (cs ! i) = h" using i by (simp_all add: hash_position_Some)
  note R = remove_nth_facts[OF il(1)]
  from s1 show ?case
  proof (rule do_set_weightsE)
    fix who' uid
    assume F: "Signed who = Signed who'" "Uids (w_neurons s) n who' = Some uid" "distinct uids"
      "WeightRows s1 = (WeightRows s)(n := (WeightRows s n)(uid := zip uids (vec_u16_max_upscale_to_u16 (we_fixed env) vals)))"
      "w_neurons s1 = (if CommitRevealWeightsEnabled s n then w_neurons s
        else set_last_update_for_uid n uid (we_block env) (w_neurons s))"
      "CommitRevealWeightsEnabled s1 = CommitRevealWeightsEnabled s" "WeightCommits s1 = WeightCommits s"
      "CRV3WeightCommits s1 = CRV3WeightCommits s"
    have IH: "set cs' \<subseteq> set ?cs" "sorted (map commit_block_of ?cs) \<longrightarrow> sorted (map commit_block_of cs')"
      "length cs' \<le> length ?cs" "mset (map fst ?cs) = mset (map fst cs') + mset (map reveal_hash reveals)"
      "WeightCommits s' = WeightCommits s1" "CRV3WeightCommits s' = CRV3WeightCommits s1"
      "w_neurons s' = w_neurons s1" "rows_revealed env n who (set reveals) s1 s'"
      using Cons.IH[OF rest] F(6) Cons.prems(2) by simp_all
    have "rows_revealed env n who (set (r # reveals)) s s'"
      using IH(8) F(1-5) Cons.prems(2) unfolding rows_revealed_def r by (fastforce split: if_splits)
    then show ?thesis
      using IH R(1) R(2)[of commit_block_of] R(3)[of fst] R(4) F(5-8) Cons.prems(2) il(2)
      by (auto simp: r)
  qed
qed

definition batch_reveals ::
    "('a, 'h, 'f) weights_env \<Rightarrow> 'a \<Rightarrow> netuid \<Rightarrow> nat list list \<Rightarrow> nat list list \<Rightarrow> nat list list \<Rightarrow> nat list \<Rightarrow>
     'h reveal list" where
  "batch_reveals env who n us vs ss ks =
     map (\<lambda>((uids, values), (salt, key)). (uids, values, key, hash_of env (who, n, uids, values, salt, key)))
       (zip (zip us vs) (zip ss ks))"

lemma batch_reveals_hash:
  assumes "(uids, values, key, h) \<in> set (batch_reveals env who n us vs ss ks)"
  obtains salt where "h = hash_of env (who, n, uids, values, salt, key)"
  using assms by (auto simp: batch_reveals_def)

lemma batch_reveal_validate_ok:
  assumes "batch_reveal_validate in_range ex cs reveals = Inr u" "r \<in> set reveals"
  shows "\<exists>c \<in> set cs. fst c = reveal_hash r \<and> in_range (commit_block_of c)"
  using assms
proof (induction reveals)
  case (Cons r' reveals)
  obtain uids vals key h where r': "r' = (uids, vals, key, h)" by (cases r')
  from Cons.prems(1) obtain i where i: "hash_position h cs = Some i"
    by (auto simp: r' split: option.splits if_splits)
  with Cons.prems(1) have rest: "in_range (commit_block_of (cs ! i))"
    "batch_reveal_validate in_range ex cs reveals = Inr u"
    by (simp_all add: r' commit_block_of_def)
  have "cs ! i \<in> set cs" "fst (cs ! i) = h" using i by (simp_all add: hash_position_Some)
  with rest Cons.IH Cons.prems(2) r' show ?case by auto
qed simp

lemma do_batch_reveal_weightsE:
  assumes "do_batch_reveal_weights env og n us vs ss ks s = Inr s'"
  obtains who cs ds cs' s1 where "og = Signed who" "CommitRevealWeightsEnabled s n"
    "WeightCommits s n who = Some cs"
    "ds = dropWhile (\<lambda>c. is_commit_expired (we_block env) s n (commit_block_of c)) cs"
    "\<forall>r \<in> set (batch_reveals env who n us vs ss ks). \<exists>c \<in> set ds. fst c = reveal_hash r \<and>
       is_reveal_block_range (we_block env) s n (commit_block_of c)"
    "\<exists>ex. batch_reveal_apply env (Signed who) n ex (batch_reveals env who n us vs ss ks) ds s = Inr (cs', s1)"
    "s' = s1\<lparr>WeightCommits := (WeightCommits s1)(n := (WeightCommits s1 n)(who := non_empty cs'))\<rparr>"
proof -
  from assms obtain who cs where og: "og = Signed who" and cs: "WeightCommits s n who = Some cs"
    and cr: "CommitRevealWeightsEnabled s n" by (auto simp: do_batch_reveal_weights_def Let_def)
  define ds where "ds = dropWhile (\<lambda>c. is_commit_expired (we_block env) s n (commit_block_of c)) cs"
  note F = assms[unfolded do_batch_reveal_weights_def og cs pop_expired_eq Let_def ds_def[symmetric]
      ensure_signed.simps and_then_simps ok_or_simps ensure_Inr prod.case batch_reveals_def[symmetric]]
  obtain ex where ex: "ex = map fst (takeWhile (\<lambda>c. is_commit_expired (we_block env) s n (commit_block_of c)) cs)" by simp
  from F obtain u cs' s1
    where v: "batch_reveal_validate (is_reveal_block_range (we_block env) s n) ex ds (batch_reveals env who n us vs ss ks) = Inr u"
    and ap: "batch_reveal_apply env (Signed who) n ex (batch_reveals env who n us vs ss ks) ds s = Inr (cs', s1)"
    and s': "s' = s1\<lparr>WeightCommits := (WeightCommits s1)(n := (WeightCommits s1 n)(who := non_empty cs'))\<rparr>"
    unfolding ex by auto
  show thesis using that[OF og cr cs ds_def _ _ s'] batch_reveal_validate_ok[OF v] ap by blast
qed

section \<open>Invariant\<close>

lemma queue_inv_mono: "queue_inv b cs \<Longrightarrow> b \<le> b' \<Longrightarrow> queue_inv b' cs"
  by (auto simp: queue_inv_def)

lemma weights_inv_mono: "weights_inv b s \<Longrightarrow> b \<le> b' \<Longrightarrow> weights_inv b' s"
  unfolding weights_inv_def using queue_inv_mono by blast

lemma set_weights_inv:
  assumes "do_set_weights env og n uids values key s = Inr s'" "weights_inv b s"
  shows "weights_inv b s'"
  by (rule do_set_weightsE[OF assms(1)]) (use assms(2) in \<open>simp add: weights_inv_def\<close>)

lemma queue_inv_drop:
  assumes "queue_inv b (pre @ c # post)"
  shows "non_empty post = Some cs \<Longrightarrow> queue_inv b cs"
  using assms by (auto simp: queue_inv_def non_empty_def sorted_append split: if_splits)

lemma queue_inv_put:
  assumes "weights_inv b s" "WeightCommits s' = (WeightCommits s)(n := (WeightCommits s n)(who := q))"
    and "CRV3WeightCommits s' = CRV3WeightCommits s" "\<forall>n uid. distinct (map fst (WeightRows s' n uid))"
    and "\<And>cs. q = Some cs \<Longrightarrow> queue_inv b cs"
  shows "weights_inv b s'"
  using assms by (auto simp: weights_inv_def split: if_splits)

lemma dropWhile_facts:
  "set (dropWhile P cs) \<subseteq> set cs" "length (dropWhile P cs) \<le> length cs"
  "sorted (map f cs) \<Longrightarrow> sorted (map f (dropWhile P cs))"
  by (auto dest: set_dropWhileD simp: length_dropWhile_le)
    (simp add: dropWhile_eq_drop drop_map[symmetric] sorted_wrt_drop)

lemma commit_weights_inv:
  assumes "do_commit_weights env og n h s = Inr s'" "weights_inv (we_block env) s"
  shows "weights_inv (we_block env) s'"
  using assms(1)
proof (rule do_commit_weightsE)
  fix who uid cs f l
  assume cs: "cs = dropWhile (\<lambda>c. is_commit_expired (we_block env) s n (commit_block_of c))
      (case WeightCommits s n who of None \<Rightarrow> [] | Some cs \<Rightarrow> cs)" "length cs < 10"
    and s': "s' = w_set_last_update n uid (we_block env) (s\<lparr>WeightCommits := (WeightCommits s)(n :=
       (WeightCommits s n)(who \<mapsto> cs @ [(h, we_block env, f, l)]))\<rparr>)"
  have q: "sorted (map commit_block_of q)" "\<forall>c \<in> set q. commit_block_of c \<le> we_block env"
    if "q = (case WeightCommits s n who of None \<Rightarrow> [] | Some cs \<Rightarrow> cs)" for q
    using assms(2) that by (auto simp: weights_inv_def queue_inv_def split: option.splits)
  have "sorted (map commit_block_of cs)" "\<forall>c \<in> set cs. commit_block_of c \<le> we_block env"
    unfolding cs(1) using dropWhile_facts(3)[OF q(1)[OF refl]] q(2)[OF refl] set_dropWhileD by fast+
  then have "queue_inv (we_block env) (cs @ [(h, we_block env, f, l)])"
    using cs(2) by (auto simp: queue_inv_def sorted_append commit_block_of_def)
  then show ?thesis
    using assms(2) by (intro queue_inv_put[OF assms(2), of s']) (auto simp: s' weights_inv_def)
qed

lemma commit_crv3_weights_inv:
  assumes "do_commit_crv3_weights env og n commit r s = Inr s'" "weights_inv b s"
  shows "weights_inv b s'"
  by (rule do_commit_crv3_weightsE[OF assms(1)]) (use assms(2) in \<open>auto simp: weights_inv_def\<close>)

lemma reveal_weights_inv:
  assumes "do_reveal_weights env og n uids values salt key s = Inr s'" "weights_inv b s"
  shows "weights_inv b s'"
  using assms(1)
proof (rule do_reveal_weightsE)
  fix who cs pre c post s1
  assume cs: "WeightCommits s n who = Some cs" "cs = pre @ c # post"
    and s1: "do_set_weights env og n uids values key s = Inr s1"
    and s': "s' = s1\<lparr>WeightCommits := (WeightCommits s1)(n := (WeightCommits s1 n)(who := non_empty post))\<rparr>"
  have inv: "weights_inv b s1" using set_weights_inv[OF s1 assms(2)] .
  have "queue_inv b (pre @ c # post)" using assms(2) cs by (auto simp: weights_inv_def)
  then show ?thesis
    using inv by (intro queue_inv_put[OF inv, of s']) (auto simp: s' weights_inv_def intro: queue_inv_drop)
qed

lemma batch_reveal_weights_inv:
  assumes "do_batch_reveal_weights env og n us vs ss ks s = Inr s'" "weights_inv b s"
  shows "weights_inv b s'"
  using assms(1)
proof (rule do_batch_reveal_weightsE)
  fix who cs ds cs' s1
  assume cs: "WeightCommits s n who = Some cs" "CommitRevealWeightsEnabled s n"
    "ds = dropWhile (\<lambda>c. is_commit_expired (we_block env) s n (commit_block_of c)) cs"
    and ap: "\<exists>ex. batch_reveal_apply env (Signed who) n ex (batch_reveals env who n us vs ss ks) ds s = Inr (cs', s1)"
    and s': "s' = s1\<lparr>WeightCommits := (WeightCommits s1)(n := (WeightCommits s1 n)(who := non_empty cs'))\<rparr>"
  from ap obtain ex where "batch_reveal_apply env (Signed who) n ex (batch_reveals env who n us vs ss ks) ds s = Inr (cs', s1)" ..
  note A = batch_reveal_apply_spec[OF this cs(2)]
  have q: "queue_inv b cs" using assms(2) cs(1) by (simp add: weights_inv_def)
  have "set ds \<subseteq> set cs" "sorted (map commit_block_of ds)" "length ds \<le> length cs"
    using q dropWhile_facts(1,2)[of _ cs] dropWhile_facts(3)[of commit_block_of cs]
    unfolding cs(3) by (simp_all add: queue_inv_def)
  then have "queue_inv b qs" if "non_empty cs' = Some qs" for qs
    using A q that by (auto simp: queue_inv_def non_empty_def split: if_splits)
  moreover have "distinct (map fst (WeightRows s1 m u))" for m u
  proof (cases "WeightRows s1 m u = WeightRows s m u")
    case True
    then show ?thesis using assms(2) by (simp add: weights_inv_def)
  next
    case False
    have R: "rows_revealed env n who (set (batch_reveals env who n us vs ss ks)) s s1" using A by blast
    show ?thesis by (rule rows_revealedE[OF R False]) (metis distinct_take map_fst_zip_take)
  qed
  ultimately show ?thesis
    using A by (intro queue_inv_put[OF assms(2), of s' n who "non_empty cs'"]) (auto simp: s')
qed

lemma weights_exec_inv:
  assumes "weights_exec env call s = Inr s'" "weights_inv (we_block env) s"
  shows "weights_inv (we_block env) s'"
proof (cases call)
  case (BatchSetWeights og ns ws keys)
  with assms show ?thesis
    by (auto simp: batch_state_def
        dest!: batch_set_weights_invariant[where P = "weights_inv (we_block env)"] intro: set_weights_inv)
next
  case (BatchCommitWeights og ns hs)
  with assms show ?thesis
    by (auto simp: batch_state_def
        dest!: batch_commit_weights_invariant[where P = "weights_inv (we_block env)"] intro: commit_weights_inv)
qed (use assms in \<open>auto simp: set_weights_def split: if_splits intro: set_weights_inv commit_weights_inv
      commit_crv3_weights_inv reveal_weights_inv batch_reveal_weights_inv\<close>)

text \<open>
  A chain runs calls, moves to the next block, and in between other parts of the runtime may
  change anything but the commits and the weights (registrations, hyperparameters, stake). The
  hash and the arithmetic of \<open>E\<close> stay the same.
\<close>

inductive weights_step ::
    "('a, 'h, 'f) weights_env \<Rightarrow> nat \<times> ('a, 'h) weights_state \<Rightarrow> nat \<times> ('a, 'h) weights_state \<Rightarrow> bool"
  for E where
  call: "weights_exec (E\<lparr>we_block := b, check_weights_min_stake := stake\<rparr>) call s = Inr s' \<Longrightarrow>
    weights_step E (b, s) (b, s')"
| next_block: "weights_step E (b, s) (b + 1, s)"
| elsewhere: "WeightCommits s' = WeightCommits s \<Longrightarrow> CRV3WeightCommits s' = CRV3WeightCommits s \<Longrightarrow>
    WeightRows s' = WeightRows s \<Longrightarrow> weights_step E (b, s) (b, s')"

definition weights_initial :: "nat \<times> ('a, 'h) weights_state \<Rightarrow> bool" where
  "weights_initial p \<longleftrightarrow> WeightCommits (snd p) = (\<lambda>_ _. None) \<and> CRV3WeightCommits (snd p) = (\<lambda>_ _. []) \<and>
     WeightRows (snd p) = (\<lambda>_ _. [])"

interpretation weights: invariant_system weights_initial "weights_step E" "\<lambda>p. weights_inv (fst p) (snd p)"
proof (unfold_locales, goal_cases)
  case (1 s)
  then show ?case by (simp add: weights_initial_def weights_inv_def)
next
  case (2 p q)
  from 2(2,1) show ?case
  proof (induction rule: weights_step.induct)
    case (call b stake c s s')
    from weights_exec_inv[OF call(1)] call show ?case by simp
  next
    case (next_block b s)
    then show ?case by (auto intro: weights_inv_mono)
  qed (simp add: weights_inv_def)
qed

text \<open>C20. Bounds and order of the commits, in every state a chain can reach from the empty one: a
  stored queue is never empty, holds at most ten commits, in the order of their commit blocks,
  none from the future; an account has at most ten timelock commits per epoch; a row of weights
  never names a uid twice. So the loop that clears the front of a queue removes every expired
  commit, wherever it is, for any tempo and reveal period in force at that time.
\<close>

theorem commit_queue_invariant:
  assumes "weights_initial (b0, s0)" "(weights_step E)\<^sup>*\<^sup>* (b0, s0) (b, s)"
  shows "(\<forall>n who cs. WeightCommits s n who = Some cs \<longrightarrow>
      cs \<noteq> [] \<and> length cs \<le> 10 \<and> sorted (map (\<lambda>c. fst (snd c)) cs) \<and> (\<forall>c \<in> set cs. fst (snd c) \<le> b) \<and>
      snd (pop_expired (is_commit_expired b s n) cs) = filter (\<lambda>c. \<not> is_commit_expired b s n (fst (snd c))) cs) \<and>
    (\<forall>n e who. length (filter (\<lambda>c. fst c = who) (CRV3WeightCommits s n e)) \<le> 10) \<and>
    (\<forall>n uid. distinct (map fst (WeightRows s n uid)))"
proof -
  have inv: "weights_inv b s" using weights.reachable_invar[OF assms] by simp
  have "snd (pop_expired (is_commit_expired b s n) cs) = filter (\<lambda>c. \<not> is_commit_expired b s n (fst (snd c))) cs"
    "sorted (map (\<lambda>c. fst (snd c)) cs)"
    if "WeightCommits s n who = Some cs" for n who cs
  proof -
    have "sorted (map commit_block_of cs)" using inv that by (simp add: weights_inv_def queue_inv_def)
    from this pop_expired_sorted[OF this, of b s n]
    show "snd (pop_expired (is_commit_expired b s n) cs) = filter (\<lambda>c. \<not> is_commit_expired b s n (fst (snd c))) cs"
      "sorted (map (\<lambda>c. fst (snd c)) cs)"
      by (simp_all add: commit_block_of_def[abs_def])
  qed
  with inv show ?thesis unfolding weights_inv_def queue_inv_def commit_block_of_def by blast
qed

text \<open>The queue of hotkey 10 after a commit at block 3.\<close>

definition sample_committed :: "(nat, nat) weights_state" where
  "sample_committed = w_set_last_update 1 0 3 ((sample_weights True)\<lparr>WeightCommits :=
     (\<lambda>n. if n = 1 then [10 \<mapsto> [(47011, 3, 8, 17)]] else Map.empty)\<rparr>)"

lemma sample_commit:
  "do_commit_weights (sample_chain 3) (Signed 10) 1 47011 (sample_weights True) = Inr sample_committed"
  by (simp add: weights_eval sample_committed_def fun_eq_iff fun_upd_def)

theorem commit_queue_invariant_witness:
  "\<exists>b s. WeightCommits s 1 (10::nat) = Some [(47011::nat, 3, 8, 17)] \<and>
    snd (pop_expired (is_commit_expired b s 1) [(47011::nat, 3, 8, 17)]) =
      filter (\<lambda>c. \<not> is_commit_expired b s 1 (fst (snd c))) [(47011, 3, 8, 17)] \<and>
    length (filter (\<lambda>c. fst c = 10) (CRV3WeightCommits s 1 0)) \<le> 10 \<and> distinct (map fst (WeightRows s 1 0))"
proof -
  have "weights_step (sample_chain 0) (3, sample_weights True) (3, sample_committed)"
    using sample_commit by (intro weights_step.call[where stake = "\<lambda>h n. True" and call = "CommitWeights (Signed 10) 1 47011"])
      (simp add: sample_chain_def)
  then have st: "(weights_step (sample_chain 0))\<^sup>*\<^sup>* (3, sample_weights True) (3, sample_committed)" by (rule r_into_rtranclp)
  have "weights_initial (3, sample_weights True)" by (simp add: weights_initial_def sample_weights_def)
  note I = commit_queue_invariant[OF this st]
  have q: "WeightCommits sample_committed 1 10 = Some [(47011, 3, 8, 17)]" by (simp add: sample_committed_def)
  with I show ?thesis by (intro exI[of _ 3] exI[of _ sample_committed]) blast
qed

section \<open>Committing and revealing\<close>

lemma in_range_not_expired:
  "is_reveal_block_range b s n c \<Longrightarrow> \<not> is_commit_expired b s n c"
  by (simp add: is_reveal_block_range_def is_commit_expired_def Let_def)

lemma earlier_in_range:
  assumes "is_reveal_block_range b s n c" "\<not> is_commit_expired b s n c'" "c' \<le> c"
  shows "is_reveal_block_range b s n c'"
  using assms sat_add_mono[OF epoch_index_mono[OF assms(3)], of u64_max s n "get_reveal_period s n"]
  by (simp add: is_reveal_block_range_def is_commit_expired_def Let_def)

lemma reveal_succeeds:
  assumes q: "WeightCommits t n who = Some cs" "sorted (map commit_block_of cs)" "c \<in> set cs"
    and h: "fst c = hash_of env (who, n, uids, values, salt, key)"
    and r: "is_reveal_block_range (we_block env) t n (commit_block_of c)"
    and "CommitRevealWeightsEnabled t n"
    and s: "do_set_weights env (Signed who) n uids values key t = Inr t1"
  obtains pre c' post where "cs = pre @ c' # post" "fst c' = fst c"
    "do_reveal_weights env (Signed who) n uids values salt key t =
      Inr (t1\<lparr>WeightCommits := (WeightCommits t1)(n := (WeightCommits t1 n)(who := non_empty post))\<rparr>)"
proof -
  define ex where "ex = takeWhile (\<lambda>c. is_commit_expired (we_block env) t n (commit_block_of c)) cs"
  define ds where "ds = dropWhile (\<lambda>c. is_commit_expired (we_block env) t n (commit_block_of c)) cs"
  have ds: "ds = filter (\<lambda>c. \<not> is_commit_expired (we_block env) t n (commit_block_of c)) cs"
    unfolding ds_def by (rule dropWhile_sorted_filter[OF q(2)]) (rule expired_mono)
  have c: "c \<in> set ds" using q(3) in_range_not_expired[OF r] by (simp add: ds)
  obtain i where i: "hash_position (fst c) ds = Some i"
    using c hash_position_None[of "fst c" ds] by (cases "hash_position (fst c) ds") auto
  note I = iffD1[OF hash_position_Some i]
  obtain j where j: "j < length ds" "ds ! j = c" using c by (auto simp: in_set_conv_nth)
  have "i \<le> j" using I j by (cases "j < i") auto
  moreover have "sorted (map commit_block_of ds)" unfolding ds_def using dropWhile_facts(3)[OF q(2)] .
  ultimately have "commit_block_of (ds ! i) \<le> commit_block_of c"
    using j I sorted_nth_mono[of "map commit_block_of ds" i j] by simp
  moreover have "ds ! i \<in> set ds" using I by simp
  ultimately have range: "is_reveal_block_range (we_block env) t n (commit_block_of (ds ! i))"
    using earlier_in_range[OF r] by (simp add: ds)
  have "cs = (ex @ take i ds) @ ds ! i # drop (Suc i) ds"
    using id_take_nth_drop[of i ds] I by (simp add: ex_def ds_def)
  moreover have "pop_expired (is_commit_expired (we_block env) t n) cs = (map fst ex, ds)"
    by (simp add: pop_expired_eq ex_def ds_def)
  then have "do_reveal_weights env (Signed who) n uids values salt key t =
      Inr (t1\<lparr>WeightCommits := (WeightCommits t1)(n := (WeightCommits t1 n)(who := non_empty (drop (Suc i) ds)))\<rparr>)"
    using c i range assms(6) s q(1) by (auto simp: do_reveal_weights_def h[symmetric] commit_block_of_def Let_def)
  ultimately show thesis using that I by blast
qed



text \<open>A row that a reveal of a commit within its range put there.\<close>

definition row_from_commit :: "('a, 'h, 'f) weights_env \<Rightarrow> ('a, 'h) weights_state \<Rightarrow> ('a, 'h) weights_state \<Rightarrow> netuid \<Rightarrow> nat \<Rightarrow> bool" where
  "row_from_commit env s s' n uid \<longleftrightarrow> (\<exists>who cs c uids values salt key. Uids (w_neurons s) n who = Some uid \<and>
    WeightCommits s n who = Some cs \<and> c \<in> set cs \<and>
    fst c = hash_of env (who, n, uids, values, salt, key) \<and>
    is_reveal_block_range (we_block env) s n (fst (snd c)) \<and>
    WeightRows s' n uid = zip uids (vec_u16_max_upscale_to_u16 (we_fixed env) values))"

lemma reveal_row:
  assumes "do_reveal_weights env og m us vs salt k s = Inr s'" "WeightRows s' n uid \<noteq> WeightRows s n uid"
  shows "row_from_commit env s s' n uid"
  using assms(1)
proof (rule do_reveal_weightsE)
  fix who cs pre c post s1
  assume R: "og = Signed who" "WeightCommits s m who = Some cs" "cs = pre @ c # post"
    "fst c = hash_of env (who, m, us, vs, salt, k)"
    "is_reveal_block_range (we_block env) s m (commit_block_of c)"
    and s1: "do_set_weights env og m us vs k s = Inr s1"
    and s': "s' = s1\<lparr>WeightCommits := (WeightCommits s1)(m := (WeightCommits s1 m)(who := non_empty post))\<rparr>"
  show ?thesis
    unfolding row_from_commit_def
    by (rule do_set_weightsE[OF s1], rule exI[of _ who], rule exI[of _ cs], rule exI[of _ c], rule exI[of _ us],
        rule exI[of _ vs], rule exI[of _ salt], rule exI[of _ k])
      (use R s' assms(2) in \<open>auto simp: commit_block_of_def split: if_splits\<close>)
qed

lemma batch_reveal_row:
  assumes "do_batch_reveal_weights env og m us vs ss ks s = Inr s'" "WeightRows s' n uid \<noteq> WeightRows s n uid"
  shows "row_from_commit env s s' n uid"
  using assms(1)
proof (rule do_batch_reveal_weightsE)
  fix who cs ds cs' s1
  assume B: "CommitRevealWeightsEnabled s m" "WeightCommits s m who = Some cs"
    "ds = dropWhile (\<lambda>c. is_commit_expired (we_block env) s m (commit_block_of c)) cs"
    and v: "\<forall>r \<in> set (batch_reveals env who m us vs ss ks). \<exists>c \<in> set ds. fst c = reveal_hash r \<and>
      is_reveal_block_range (we_block env) s m (commit_block_of c)"
    and ap: "\<exists>ex. batch_reveal_apply env (Signed who) m ex (batch_reveals env who m us vs ss ks) ds s = Inr (cs', s1)"
    and s': "s' = s1\<lparr>WeightCommits := (WeightCommits s1)(m := (WeightCommits s1 m)(who := non_empty cs'))\<rparr>"
  have rr: "rows_revealed env m who (set (batch_reveals env who m us vs ss ks)) s s1"
    using ap batch_reveal_apply_spec[OF _ B(1)] by (elim exE) blast
  have ne: "WeightRows s1 n uid \<noteq> WeightRows s n uid" using assms(2) s' by simp
  from rr ne show ?thesis
  proof (rule rows_revealedE)
    fix uids vals key h
    assume mem: "(uids, vals, key, h) \<in> set (batch_reveals env who m us vs ss ks)"
      and *: "n = m" "Uids (w_neurons s) m who = Some uid"
        "WeightRows s1 n uid = zip uids (vec_u16_max_upscale_to_u16 (we_fixed env) vals)"
    from mem obtain salt where h: "h = hash_of env (who, m, uids, vals, salt, key)" by (rule batch_reveals_hash)
    from v mem obtain c where c: "c \<in> set ds" "fst c = h" "is_reveal_block_range (we_block env) s m (commit_block_of c)"
      by fastforce
    have "c \<in> set cs" using c(1) set_dropWhileD unfolding B(3) by fast
    with c h * B(2) s' show ?thesis unfolding commit_block_of_def row_from_commit_def
      by (intro exI[of _ who] exI[of _ cs] exI[of _ c] exI[of _ uids] exI[of _ vals] exI[of _ salt] exI[of _ key]) auto
  qed
qed

text \<open>C4. Only reveals change weights under commit-reveal: in a subnet with commit-reveal enabled, a
  row of weights that a call changes (any of the seven calls of the component, batches
  included) belongs to the caller's uid, and the new row is the content of a commit that was in
  the caller's queue and whose reveal epoch is the current one.
\<close>

theorem commit_reveal_integrity:
  assumes "weights_exec env call s = Inr s'" "CommitRevealWeightsEnabled s n"
    and "WeightRows s' n uid \<noteq> WeightRows s n uid"
  shows "\<exists>who cs c uids values salt key. Uids (w_neurons s) n who = Some uid \<and>
    WeightCommits s n who = Some cs \<and> c \<in> set cs \<and>
    fst c = hash_of env (who, n, uids, values, salt, key) \<and>
    is_reveal_block_range (we_block env) s n (fst (snd c)) \<and>
    WeightRows s' n uid = zip uids (vec_u16_max_upscale_to_u16 (we_fixed env) values)"
proof -
  let ?P = "\<lambda>u. CommitRevealWeightsEnabled u n \<and> WeightRows u n = WeightRows s n"
  have setw: "?P u'" if "?P u" "\<not> CommitRevealWeightsEnabled u m" "do_set_weights env og m us vs k u = Inr u'"
    for og m us vs k u u' by (rule do_set_weightsE[OF that(3)]) (use that(1,2) in auto)
  have commit: "?P u'" if "?P u" "do_commit_weights env og m h u = Inr u'" for og m h u u'
    by (rule do_commit_weightsE[OF that(2)]) (use that(1) in simp)
  have "row_from_commit env s s' n uid"
  proof (cases call)
    case (SetWeights og m us vs k)
    with assms show ?thesis using setw[of s m og us vs k s'] by (auto simp: set_weights_def split: if_splits)
  next
    case (BatchSetWeights og ns ws ks)
    then obtain r where r: "do_batch_set_weights env og ns ws ks s = Inr r" "fst r = s'"
      using assms(1) by (auto simp: batch_state_def)
    have "?P (fst r)" by (rule batch_set_weights_invariant[OF r(1)]) (use assms(2) setw in blast)+
    with r assms(3) show ?thesis by simp
  next
    case (CommitWeights og m h)
    with assms show ?thesis using commit[of s og m h s'] by simp
  next
    case (BatchCommitWeights og ns hs)
    then obtain r where r: "do_batch_commit_weights env og ns hs s = Inr r" "fst r = s'"
      using assms(1) by (auto simp: batch_state_def)
    have "?P (fst r)" by (rule batch_commit_weights_invariant[OF r(1)]) (use assms(2) commit in blast)+
    with r assms(3) show ?thesis by simp
  next
    case (CommitCRV3Weights og m c k)
    then have "do_commit_crv3_weights env og m c k s = Inr s'" using assms(1) by simp
    then have "WeightRows s' = WeightRows s" by (rule do_commit_crv3_weightsE) simp
    with assms(3) show ?thesis by simp
  qed (use assms(1,3) reveal_row batch_reveal_row in auto)
  then show ?thesis unfolding row_from_commit_def .
qed

theorem commit_reveal_integrity_witness:
  "\<exists>s' who cs c uids values salt key.
    do_reveal_weights (sample_chain 12) (Signed 10) 1 [0, 1] [100, 300] [7] 0 sample_committed = Inr s' \<and>
    Uids (w_neurons sample_committed) 1 who = Some 0 \<and> WeightCommits sample_committed 1 who = Some cs \<and> c \<in> set cs \<and>
    fst c = hash_of (sample_chain 12) (who, 1, uids, values, salt, key) \<and>
    is_reveal_block_range (we_block (sample_chain 12)) sample_committed 1 (fst (snd c)) \<and>
    WeightRows s' 1 0 = zip uids (vec_u16_max_upscale_to_u16 (we_fixed (sample_chain 12)) values)"
proof -
  have "\<exists>s'. do_reveal_weights (sample_chain 12) (Signed 10) 1 [0, 1] [100, 300] [7] 0 sample_committed = Inr s' \<and>
      WeightRows s' 1 0 \<noteq> WeightRows sample_committed 1 0"
    by (simp add: weights_eval sample_committed_def)
  then obtain s' where r: "do_reveal_weights (sample_chain 12) (Signed 10) 1 [0, 1] [100, 300] [7] 0 sample_committed = Inr s'"
    and ne: "WeightRows s' 1 0 \<noteq> WeightRows sample_committed 1 0" by blast
  have cr: "CommitRevealWeightsEnabled sample_committed 1" by (simp add: sample_committed_def sample_weights_def)
  have "weights_exec (sample_chain 12) (RevealWeights (Signed 10) 1 [0, 1] [100, 300] [7] 0) sample_committed = Inr s'"
    using r by simp
  from commit_reveal_integrity[OF this cr ne] r show ?thesis by blast
qed

text \<open>A batch of reveals consumes exactly what it reveals: the hashes of the unexpired commits
  before it are those left in the queue together with one for each reveal of the batch, and no
  other queue changes.
\<close>

theorem batch_reveal_consumes:
  assumes "do_batch_reveal_weights env (Signed who) n us vs ss ks s = Inr s'" "WeightCommits s n who = Some cs"
  shows "mset (map fst (snd (pop_expired (is_commit_expired (we_block env) s n) cs))) =
      mset (map fst (case WeightCommits s' n who of None \<Rightarrow> [] | Some q \<Rightarrow> q)) +
      mset (map (\<lambda>((uids, values), (salt, key)). hash_of env (who, n, uids, values, salt, key))
        (zip (zip us vs) (zip ss ks))) \<and>
    (\<forall>m h. (m, h) \<noteq> (n, who) \<longrightarrow> WeightCommits s' m h = WeightCommits s m h)"
  using assms(1)
proof (rule do_batch_reveal_weightsE)
  fix who' cs0 ds cs' s1
  assume B: "Signed who = Signed who'" "CommitRevealWeightsEnabled s n" "WeightCommits s n who' = Some cs0"
    "ds = dropWhile (\<lambda>c. is_commit_expired (we_block env) s n (commit_block_of c)) cs0"
    and ap: "\<exists>ex. batch_reveal_apply env (Signed who') n ex (batch_reveals env who' n us vs ss ks) ds s = Inr (cs', s1)"
    and s': "s' = s1\<lparr>WeightCommits := (WeightCommits s1)(n := (WeightCommits s1 n)(who' := non_empty cs'))\<rparr>"
  from ap obtain ex where "batch_reveal_apply env (Signed who') n ex (batch_reveals env who' n us vs ss ks) ds s = Inr (cs', s1)" ..
  note A = batch_reveal_apply_spec[OF this B(2)]
  have "map reveal_hash (batch_reveals env who n us vs ss ks) =
      map (\<lambda>((uids, values), (salt, key)). hash_of env (who, n, uids, values, salt, key)) (zip (zip us vs) (zip ss ks))"
    by (auto simp: batch_reveals_def)
  moreover have "snd (pop_expired (is_commit_expired (we_block env) s n) cs) = ds"
    using B assms(2) by (simp add: pop_expired_eq)
  moreover have "(case WeightCommits s' n who of None \<Rightarrow> [] | Some q \<Rightarrow> q) = cs'"
    using B(1) by (simp add: s' non_empty_def)
  moreover have "mset (map fst ds) = mset (map fst cs') + mset (map reveal_hash (batch_reveals env who n us vs ss ks))"
    using A B(1) by simp
  ultimately have "mset (map fst (snd (pop_expired (is_commit_expired (we_block env) s n) cs))) =
      mset (map fst (case WeightCommits s' n who of None \<Rightarrow> [] | Some q \<Rightarrow> q)) +
      mset (map (\<lambda>((uids, values), (salt, key)). hash_of env (who, n, uids, values, salt, key))
        (zip (zip us vs) (zip ss ks)))"
    by (simp only:)
  then show ?thesis using A B(1) by (intro conjI) (assumption, simp add: s')
qed

theorem batch_reveal_consumes_witness:
  "\<exists>s'. do_batch_reveal_weights (sample_chain 12) (Signed 10) 1 [[0, 1]] [[100, 300]] [[7]] [0] sample_committed = Inr s' \<and>
    mset (map fst (snd (pop_expired (is_commit_expired (we_block (sample_chain 12)) sample_committed 1) [(47011, 3, 8, 17)]))) =
      mset (map fst (case WeightCommits s' 1 10 of None \<Rightarrow> [] | Some q \<Rightarrow> q)) +
      mset (map (\<lambda>((uids, values), (salt, key)). hash_of (sample_chain 12) (10, 1, uids, values, salt, key))
        (zip (zip [[0, 1]] [[100, 300]]) (zip [[7]] [0]))) \<and>
    WeightCommits s' 1 20 = WeightCommits sample_committed 1 20"
proof -
  have "\<exists>s'. do_batch_reveal_weights (sample_chain 12) (Signed 10) 1 [[0, 1]] [[100, 300]] [[7]] [0] sample_committed = Inr s'"
    by (simp add: weights_eval sample_committed_def do_batch_reveal_weights_def)
  then obtain s' where r: "do_batch_reveal_weights (sample_chain 12) (Signed 10) 1 [[0, 1]] [[100, 300]] [[7]] [0] sample_committed = Inr s'" ..
  have "WeightCommits sample_committed 1 10 = Some [(47011, 3, 8, 17)]" by (simp add: sample_committed_def)
  note B = batch_reveal_consumes[OF r this]
  have "(1::nat, 20::nat) \<noteq> (1, 10)" by simp
  with B have "WeightCommits s' 1 20 = WeightCommits sample_committed 1 20" by blast
  with r conjunct1[OF B] show ?thesis by (intro exI[of _ s'] conjI)
qed

section \<open>Normalised weights\<close>

lemma sum_list_div_bounds:
  fixes m k :: nat
  assumes "k > 0"
  shows "sum_list (map (\<lambda>x. x * m div k) ws) * k \<le> sum_list ws * m"
    "ws \<noteq> [] \<Longrightarrow> sum_list ws * m < (sum_list (map (\<lambda>x. x * m div k) ws) + length ws) * k"
proof -
  show "sum_list (map (\<lambda>x. x * m div k) ws) * k \<le> sum_list ws * m"
    by (induction ws) (simp_all add: add_mult_distrib add_mono)
  have step: "x * m < (x * m div k + 1) * k" for x
    using assms dividend_less_div_times[of k "x * m"] by (simp add: algebra_simps)
  show "ws \<noteq> [] \<Longrightarrow> sum_list ws * m < (sum_list (map (\<lambda>x. x * m div k) ws) + length ws) * k"
  proof (induction ws rule: list_nonempty_induct)
    case (single x)
    then show ?case using step[of x] by simp
  next
    case (cons x xs)
    from add_strict_mono[OF step[of x] cons.IH] show ?case by (simp add: algebra_simps)
  qed
qed

text \<open>\<open>normalize_weights\<close> scales a vector of 16-bit weights with a positive sum so that the sum
  of the results is \<open>u16::MAX\<close> up to the rounding of each entry: at most \<open>u16::MAX\<close>, and less than
  one unit per entry below it. Nothing overflows: each entry is the exact quotient.
\<close>

theorem normalize_weights_sum:
  assumes "\<forall>w \<in> set ws. w \<le> u16_max" "sum_list ws \<noteq> 0"
  shows "normalize_weights ws = map (\<lambda>x. x * u16_max div sum_list ws) ws \<and>
    sum_list (normalize_weights ws) \<le> u16_max \<and> u16_max < sum_list (normalize_weights ws) + length ws"
proof (intro conjI)
  have exact: "safe_div (sat_mul u64_max x u16_max) (sum_list ws) mod (u16_max + 1) = x * u16_max div sum_list ws"
    if "x \<in> set ws" for x
  proof -
    have x: "x \<le> u16_max" "x \<le> sum_list ws" using that assms(1) by (auto intro: member_le_sum_list)
    have "x * u16_max \<le> u16_max * u16_max" using x(1) by (rule mult_le_mono1)
    also have "\<dots> \<le> u64_max" by (simp add: u16_max_def u64_max_def)
    finally have "sat_mul u64_max x u16_max = x * u16_max" by (rule sat_mul_exact)
    moreover have "x * u16_max div sum_list ws \<le> sum_list ws * u16_max div sum_list ws"
      using x(2) by (intro div_le_mono mult_le_mono1)
    ultimately show ?thesis using assms(2) by (simp add: safe_div_eq)
  qed
  then show eq: "normalize_weights ws = map (\<lambda>x. x * u16_max div sum_list ws) ws"
    unfolding normalize_weights_def Let_def if_not_P[OF assms(2)] by (intro map_cong refl)
  show "sum_list (normalize_weights ws) \<le> u16_max"
    using sum_list_div_bounds(1)[of "sum_list ws" u16_max ws] assms(2) unfolding eq by (simp add: mult.commute)
  have "ws \<noteq> []" using assms(2) by auto
  then show "u16_max < sum_list (normalize_weights ws) + length ws"
    using sum_list_div_bounds(2)[of "sum_list ws" ws u16_max] assms(2) unfolding eq by (simp add: mult.commute)
qed

theorem normalize_weights_sum_witness:
  "normalize_weights [1, 2, 4] = map (\<lambda>x. x * u16_max div sum_list [1, 2, 4]) [1, 2, 4] \<and>
   sum_list (normalize_weights [1, 2, 4]) \<le> u16_max \<and>
   u16_max < sum_list (normalize_weights [1, 2, 4]) + length [1::nat, 2, 4]"
  by (rule normalize_weights_sum) (simp_all add: u16_max_def)

end
