(* ===== verification/Serving.thy ===== *)
theory Serving
  imports Neurons
begin

text \<open>
  Serving axon and prometheus endpoints (\<open>pallets/subtensor/src/subnets/serving.rs\<close>) and the
  conversion of a certificate from bytes (\<open>lib.rs\<close>). The axons and certificates are fields of
  the neurons, since replacing a neuron removes them.
\<close>

section \<open>Data\<close>

record prometheus_info =
  prom_block :: nat
  prom_version :: nat
  prom_ip :: nat
  prom_port :: nat
  prom_ip_type :: nat

record 'a serving_state =
  sv_neurons :: "'a neurons"
  Prometheus :: "netuid \<Rightarrow> 'a \<Rightarrow> prometheus_info option"
  ServingRateLimit :: "netuid \<Rightarrow> nat"

section \<open>Operations\<close>

text \<open>\<open>TryFrom<Vec<u8>> for NeuronCertificate\<close>: the first byte is the algorithm, the others (at
  most 64) are the public key.\<close>

definition neuron_certificate_try_from :: "nat list \<Rightarrow> neuron_certificate option" where
  "neuron_certificate_try_from bytes =
     (if length bytes > 65 then None
      else case bytes of
        [] \<Rightarrow> None
      | algo # rest \<Rightarrow> if length rest \<le> 64 then Some \<lparr>public_key = rest, algorithm = algo\<rparr> else None)"

definition axon_passes_rate_limit :: "'a serving_state \<Rightarrow> netuid \<Rightarrow> axon_info \<Rightarrow> nat \<Rightarrow> bool" where
  "axon_passes_rate_limit s n prev_axon_info current_block \<longleftrightarrow>
     (let rate_limit = ServingRateLimit s n; last_serve = axon_block prev_axon_info
      in rate_limit = 0 \<or> last_serve = 0 \<or> current_block - last_serve \<ge> rate_limit)"

definition prometheus_passes_rate_limit :: "'a serving_state \<Rightarrow> netuid \<Rightarrow> prometheus_info \<Rightarrow> nat \<Rightarrow> bool" where
  "prometheus_passes_rate_limit s n prev_prometheus_info current_block \<longleftrightarrow>
     (let rate_limit = ServingRateLimit s n; last_serve = prom_block prev_prometheus_info
      in rate_limit = 0 \<or> last_serve = 0 \<or> current_block - last_serve \<ge> rate_limit)"

definition get_axon_info :: "'a serving_state \<Rightarrow> netuid \<Rightarrow> 'a \<Rightarrow> axon_info" where
  "get_axon_info s n hotkey =
     (case Axons (sv_neurons s) n hotkey of
        Some axons \<Rightarrow> axons
      | None \<Rightarrow> \<lparr>axon_block = 0, axon_version = 0, axon_ip = 0, axon_port = 0, axon_ip_type = 0,
                 axon_protocol = 0, axon_placeholder1 = 0, axon_placeholder2 = 0\<rparr>)"

definition get_prometheus_info :: "'a serving_state \<Rightarrow> netuid \<Rightarrow> 'a \<Rightarrow> prometheus_info" where
  "get_prometheus_info s n hotkey =
     (case Prometheus s n hotkey of
        Some prometheus \<Rightarrow> prometheus
      | None \<Rightarrow> \<lparr>prom_block = 0, prom_version = 0, prom_ip = 0, prom_port = 0, prom_ip_type = 0\<rparr>)"

definition is_valid_ip_type :: "nat \<Rightarrow> bool" where
  "is_valid_ip_type ip_type \<longleftrightarrow> ip_type \<in> set [4, 6]"

definition is_valid_ip_address :: "nat \<Rightarrow> nat \<Rightarrow> bool \<Rightarrow> bool" where
  "is_valid_ip_address ip_type addr allow_zero =
     (if \<not> allow_zero \<and> addr = 0 then False
      else if ip_type = 4 \<and> addr \<ge> u32_max then False
      else if ip_type = 4 \<and> addr = 0x7f000001 then False
      else if ip_type = 6 \<and> addr = u128_max then False
      else if ip_type = 6 \<and> addr = 1 then False
      else True)"

text \<open>\<open>clamp(0, u16::MAX)\<close> on the port.\<close>

definition validate_axon_data :: "axon_info \<Rightarrow> (subtensor_error, bool) result" where
  "validate_axon_data axon_info =
     (if min u16_max (max 0 (axon_port axon_info)) = 0 then Inl InvalidPort else Inr True)"

definition validate_prometheus_data :: "prometheus_info \<Rightarrow> (subtensor_error, bool) result" where
  "validate_prometheus_data prom_info =
     (if min u16_max (max 0 (prom_port prom_info)) = 0 then Inl InvalidPort else Inr True)"

definition validate_serve_axon ::
    "nat \<Rightarrow> 'a \<Rightarrow> netuid \<Rightarrow> nat \<Rightarrow> nat \<Rightarrow> nat \<Rightarrow> nat \<Rightarrow> nat \<Rightarrow> nat \<Rightarrow> nat \<Rightarrow> 'a serving_state \<Rightarrow>
     (subtensor_error, unit) result" where
  "validate_serve_axon block hotkey_id n version ip port ip_type protocol placeholder1 placeholder2 s =
     ensure (is_hotkey_registered_on_any_network (sv_neurons s) hotkey_id) HotKeyNotRegisteredInNetwork
    (ensure (is_valid_ip_type ip_type) InvalidIpType
    (ensure (is_valid_ip_address ip_type ip True) InvalidIpAddress
    (let prev_axon = get_axon_info s n hotkey_id in
     ensure (axon_passes_rate_limit s n prev_axon block) ServingRateLimitExceeded
    (let prev_axon = prev_axon\<lparr>axon_block := block, axon_version := version, axon_ip := ip, axon_port := port,
           axon_ip_type := ip_type, axon_protocol := protocol, axon_placeholder1 := placeholder1,
           axon_placeholder2 := placeholder2\<rparr>;
         axon_validated = validate_axon_data prev_axon
     in ensure (is_ok axon_validated) (case axon_validated of Inl e \<Rightarrow> e | Inr _ \<Rightarrow> InvalidPort) (Inr ())))))"

definition do_serve_axon ::
    "nat \<Rightarrow> 'a origin \<Rightarrow> netuid \<Rightarrow> nat \<Rightarrow> nat \<Rightarrow> nat \<Rightarrow> nat \<Rightarrow> nat \<Rightarrow> nat \<Rightarrow> nat \<Rightarrow> nat list option \<Rightarrow>
     'a serving_state \<Rightarrow> (subtensor_error, 'a serving_state) result" where
  "do_serve_axon block og n version ip port ip_type protocol placeholder1 placeholder2 certificate s =
     and_then (ensure_signed BadOrigin og) (\<lambda>hotkey_id.
     and_then (validate_serve_axon block hotkey_id n version ip port ip_type protocol placeholder1
       placeholder2 s) (\<lambda>_.
     let s = (case certificate of
           None \<Rightarrow> s
         | Some bytes \<Rightarrow> (case neuron_certificate_try_from bytes of
             None \<Rightarrow> s
           | Some cert \<Rightarrow> s\<lparr>sv_neurons := (sv_neurons s)\<lparr>NeuronCertificates :=
               (NeuronCertificates (sv_neurons s))(n := (NeuronCertificates (sv_neurons s) n)(hotkey_id \<mapsto> cert))\<rparr>\<rparr>));
         prev_axon = (get_axon_info s n hotkey_id)\<lparr>axon_block := block, axon_version := version, axon_ip := ip,
           axon_port := port, axon_ip_type := ip_type, axon_protocol := protocol,
           axon_placeholder1 := placeholder1, axon_placeholder2 := placeholder2\<rparr>;
         axon_validated = validate_axon_data prev_axon
     in ensure (is_ok axon_validated) (case axon_validated of Inl e \<Rightarrow> e | Inr _ \<Rightarrow> InvalidPort)
       (Inr (s\<lparr>sv_neurons := (sv_neurons s)\<lparr>Axons :=
          (Axons (sv_neurons s))(n := (Axons (sv_neurons s) n)(hotkey_id \<mapsto> prev_axon))\<rparr>\<rparr>))))"

definition do_serve_prometheus ::
    "nat \<Rightarrow> 'a origin \<Rightarrow> netuid \<Rightarrow> nat \<Rightarrow> nat \<Rightarrow> nat \<Rightarrow> nat \<Rightarrow> 'a serving_state \<Rightarrow>
     (subtensor_error, 'a serving_state) result" where
  "do_serve_prometheus block og n version ip port ip_type s =
     and_then (ensure_signed BadOrigin og) (\<lambda>hotkey_id.
     ensure (is_valid_ip_type ip_type) InvalidIpType
    (ensure (is_valid_ip_address ip_type ip False) InvalidIpAddress
    (ensure (is_hotkey_registered_on_any_network (sv_neurons s) hotkey_id) HotKeyNotRegisteredInNetwork
    (let prev_prometheus = get_prometheus_info s n hotkey_id; current_block = block in
     ensure (prometheus_passes_rate_limit s n prev_prometheus current_block) ServingRateLimitExceeded
    (let prev_prometheus = prev_prometheus\<lparr>prom_block := block, prom_version := version, prom_ip := ip,
           prom_port := port, prom_ip_type := ip_type\<rparr>;
         prom_validated = validate_prometheus_data prev_prometheus
     in ensure (is_ok prom_validated) (case prom_validated of Inl e \<Rightarrow> e | Inr _ \<Rightarrow> InvalidPort)
       (Inr (s\<lparr>Prometheus := (Prometheus s)(n := (Prometheus s n)(hotkey_id \<mapsto> prev_prometheus))\<rparr>)))))))"

section \<open>Endpoints that are served\<close>

lemma any_network_iff:
  "is_hotkey_registered_on_any_network s h \<longleftrightarrow> (\<exists>n \<le> u16_max. IsNetworkMember s h n = Some True)"
proof -
  have "(case r of None \<Rightarrow> False | Some b \<Rightarrow> b) \<longleftrightarrow> r = Some True" for r by (auto split: option.split)
  then show ?thesis
    unfolding is_hotkey_registered_on_any_network_def list_ex_iff set_upt by (auto simp: less_Suc_eq_le)
qed

lemma validate_axon_ok: "is_ok (validate_axon_data a) \<longleftrightarrow> axon_port a \<noteq> 0"
  by (simp add: validate_axon_data_def is_ok_def min_def u16_max_def)

lemma validate_prometheus_ok: "is_ok (validate_prometheus_data p) \<longleftrightarrow> prom_port p \<noteq> 0"
  by (simp add: validate_prometheus_data_def is_ok_def min_def u16_max_def)

text \<open>The axon of a call, and the checks of \<open>validate_serve_axon\<close> in one condition.\<close>

definition served_axon :: "nat \<Rightarrow> nat \<Rightarrow> nat \<Rightarrow> nat \<Rightarrow> nat \<Rightarrow> nat \<Rightarrow> nat \<Rightarrow> nat \<Rightarrow> axon_info" where
  "served_axon block version ip port ip_type protocol p1 p2 =
     \<lparr>axon_block = block, axon_version = version, axon_ip = ip, axon_port = port, axon_ip_type = ip_type,
      axon_protocol = protocol, axon_placeholder1 = p1, axon_placeholder2 = p2\<rparr>"

lemma served_axon_update:
  "a\<lparr>axon_block := block, axon_version := version, axon_ip := ip, axon_port := port, axon_ip_type := ip_type,
     axon_protocol := protocol, axon_placeholder1 := p1, axon_placeholder2 := p2\<rparr> =
   served_axon block version ip port ip_type protocol p1 p2"
  by (simp add: served_axon_def axon_info.equality)

lemma validate_serve_axon_Inr:
  "validate_serve_axon block h n version ip port ip_type protocol p1 p2 s = Inr u \<longleftrightarrow>
     is_hotkey_registered_on_any_network (sv_neurons s) h \<and> is_valid_ip_type ip_type \<and>
     is_valid_ip_address ip_type ip True \<and> axon_passes_rate_limit s n (get_axon_info s n h) block \<and> port \<noteq> 0"
  by (simp add: validate_serve_axon_def Let_def validate_axon_ok served_axon_def served_axon_update)

lemma do_serve_axon_Signed:
  "do_serve_axon block (Signed h) n version ip port ip_type protocol p1 p2 certificate s =
     and_then (validate_serve_axon block h n version ip port ip_type protocol p1 p2 s) (\<lambda>_.
       Inr (s\<lparr>sv_neurons := (sv_neurons s)\<lparr>
         NeuronCertificates := (case Option.bind certificate neuron_certificate_try_from of
             None \<Rightarrow> NeuronCertificates (sv_neurons s)
           | Some cert \<Rightarrow> (NeuronCertificates (sv_neurons s))(n := (NeuronCertificates (sv_neurons s) n)(h \<mapsto> cert))),
         Axons := (Axons (sv_neurons s))(n := (Axons (sv_neurons s) n)(h \<mapsto>
           served_axon block version ip port ip_type protocol p1 p2))\<rparr>\<rparr>))"
proof (cases "validate_serve_axon block h n version ip port ip_type protocol p1 p2 s")
  case (Inr u)
  then have "port \<noteq> 0" by (simp add: validate_serve_axon_Inr)
  then have "is_ok (validate_axon_data (served_axon block version ip port ip_type protocol p1 p2))"
    by (simp add: validate_axon_ok served_axon_def)
  with Inr show ?thesis
    by (simp add: do_serve_axon_def Let_def served_axon_update split: option.split)
qed (simp add: do_serve_axon_def)

text \<open>Serving an axon: the call succeeds exactly when the caller is registered on some subnet,
  the ip type is 4 or 6, the address is admissible, the rate limit of the subnet has passed and the port is
  not zero (the second validation never fails after the first); it then stores exactly the given
  endpoint with the current block for that hotkey and subnet, stores the certificate when its bytes are
  well formed, and changes no other axon. Nothing is required of the subnet itself.\<close>

theorem serve_axon_exact:
  assumes "is_hotkey_registered_on_any_network (sv_neurons s) h"
  shows "(if is_valid_ip_type ip_type \<and> is_valid_ip_address ip_type ip True \<and> port \<noteq> 0 \<and>
      axon_passes_rate_limit s n (get_axon_info s n h) block
     then \<exists>s'. do_serve_axon block (Signed h) n version ip port ip_type protocol p1 p2 certificate s = Inr s' \<and>
        get_axon_info s' n h = \<lparr>axon_block = block, axon_version = version, axon_ip = ip, axon_port = port,
          axon_ip_type = ip_type, axon_protocol = protocol, axon_placeholder1 = p1, axon_placeholder2 = p2\<rparr> \<and>
        (\<forall>m h'. (m, h') \<noteq> (n, h) \<longrightarrow> get_axon_info s' m h' = get_axon_info s m h') \<and>
        NeuronCertificates (sv_neurons s') n h =
          (case certificate of Some (algo # key) \<Rightarrow>
             if length key \<le> 64 then Some \<lparr>public_key = key, algorithm = algo\<rparr>
             else NeuronCertificates (sv_neurons s) n h
           | _ \<Rightarrow> NeuronCertificates (sv_neurons s) n h) \<and>
        Prometheus s' = Prometheus s
     else \<exists>e \<in> {InvalidIpType, InvalidIpAddress, ServingRateLimitExceeded, InvalidPort}.
        do_serve_axon block (Signed h) n version ip port ip_type protocol p1 p2 certificate s = Inl e)"
proof (cases "validate_serve_axon block h n version ip port ip_type protocol p1 p2 s")
  case (Inl e)
  with validate_serve_axon_Inr[of block h n version ip port ip_type protocol p1 p2 s "()"] assms
  have "\<not> (is_valid_ip_type ip_type \<and> is_valid_ip_address ip_type ip True \<and> port \<noteq> 0 \<and>
      axon_passes_rate_limit s n (get_axon_info s n h) block)" by auto
  moreover have "e \<in> {InvalidIpType, InvalidIpAddress, ServingRateLimitExceeded, InvalidPort}"
    using Inl assms by (auto simp: validate_serve_axon_def Let_def ensure_Inl validate_axon_data_def split: if_splits)
  ultimately show ?thesis using Inl by (auto simp: do_serve_axon_Signed)
next
  case (Inr u)
  then show ?thesis
    using iffD1[OF validate_serve_axon_Inr Inr]
    by (auto simp: do_serve_axon_Signed get_axon_info_def served_axon_def neuron_certificate_try_from_def
        split: option.splits list.splits)
qed

text \<open>A state for the witnesses: hotkey 10 is registered on subnet 1.\<close>

definition sample_serving :: "nat serving_state" where
  "sample_serving = \<lparr>sv_neurons = \<lparr>DefaultAccount = 0, SubnetworkN = (\<lambda>n. if n = 1 then 1 else 0),
       Keys = (\<lambda>n u. if n = 1 \<and> u = 0 then Some 10 else None),
       Uids = (\<lambda>n h. if n = 1 \<and> h = 10 then Some 0 else None),
       IsNetworkMember = (\<lambda>h n. if n = 1 \<and> h = 10 then Some True else None),
       BlockAtRegistration = (\<lambda>n u. 0), SubnetOwnerHotkey = (\<lambda>n. None), Rank = (\<lambda>n. []), Trust = (\<lambda>n. []),
       Active = (\<lambda>n. []), Emission = (\<lambda>n. []), Consensus = (\<lambda>n. []), Incentive = (\<lambda>n. []),
       Dividends = (\<lambda>n. []), LastUpdate = (\<lambda>n. []), PruningScores = (\<lambda>n. []), ValidatorTrust = (\<lambda>n. []),
       ValidatorPermit = (\<lambda>n. []), Bonds = (\<lambda>n u. []), NeuronCertificates = (\<lambda>n h. None), Axons = (\<lambda>n h. None)\<rparr>,
     Prometheus = (\<lambda>n h. None), ServingRateLimit = (\<lambda>n. 50)\<rparr>"

lemma sample_registered: "is_hotkey_registered_on_any_network (sv_neurons sample_serving) 10"
  by (auto simp: any_network_iff sample_serving_def u16_max_def intro: exI[of _ 1])

lemmas serving_eval = sample_serving_def is_valid_ip_type_def is_valid_ip_address_def u32_max_def u128_max_def
  axon_passes_rate_limit_def get_axon_info_def Let_def

theorem serve_axon_exact_witness:
  "\<exists>s'. do_serve_axon 7 (Signed 10) 1 2 16909060 8091 4 0 0 0 (Some [1, 99]) sample_serving = Inr s' \<and>
    axon_port (get_axon_info s' 1 10) = 8091 \<and>
    NeuronCertificates (sv_neurons s') 1 10 = Some \<lparr>public_key = [99], algorithm = 1\<rparr>"
proof -
  have "is_valid_ip_type 4" "is_valid_ip_address 4 16909060 True" "(8091::nat) \<noteq> 0"
    "axon_passes_rate_limit sample_serving 1 (get_axon_info sample_serving 1 10) 7"
    by (simp_all add: serving_eval)
  then show ?thesis
    using serve_axon_exact[OF sample_registered, of 4 16909060 8091 1 7 2 0 0 0 "Some [1, 99]"] by auto
qed

section \<open>Rate limit\<close>

text \<open>The serving rate limit: after a hotkey has served an axon on a subnet at block b (not the
  first block of the chain), the next call of the same hotkey on that subnet with admissible data
  succeeds exactly when at least the rate limit of the subnet has passed since then, and is rejected
  with \<open>ServingRateLimitExceeded\<close> otherwise; on another subnet it is not affected.\<close>

theorem serve_axon_rate_limit:
  assumes "do_serve_axon b (Signed h) n version ip port ip_type protocol p1 p2 certificate s = Inr s'" "0 < b" "b \<le> b'"
    and "is_valid_ip_type ip_type'" "is_valid_ip_address ip_type' ip' True" "port' \<noteq> 0"
  shows "(if b + ServingRateLimit s n \<le> b'
     then \<exists>s''. do_serve_axon b' (Signed h) n version' ip' port' ip_type' protocol' p1' p2' certificate' s' = Inr s''
     else do_serve_axon b' (Signed h) n version' ip' port' ip_type' protocol' p1' p2' certificate' s' =
       Inl ServingRateLimitExceeded) \<and>
    (\<forall>m. m \<noteq> n \<longrightarrow> axon_passes_rate_limit s' m (get_axon_info s' m h) b' =
      axon_passes_rate_limit s m (get_axon_info s m h) b')"
proof -
  from assms(1) have v: "is_hotkey_registered_on_any_network (sv_neurons s) h"
    by (auto simp: do_serve_axon_Signed validate_serve_axon_Inr)
  from assms(1) have s': "IsNetworkMember (sv_neurons s') = IsNetworkMember (sv_neurons s)"
    "ServingRateLimit s' = ServingRateLimit s" "axon_block (get_axon_info s' n h) = b"
    "\<forall>m. m \<noteq> n \<longrightarrow> get_axon_info s' m h = get_axon_info s m h"
    by (auto simp: do_serve_axon_Signed get_axon_info_def served_axon_def)
  have reg: "is_hotkey_registered_on_any_network (sv_neurons s') h" using v by (simp add: any_network_iff s')
  have rate: "axon_passes_rate_limit s' n (get_axon_info s' n h) b' \<longleftrightarrow> b + ServingRateLimit s n \<le> b'"
    using assms(2,3) by (auto simp: axon_passes_rate_limit_def Let_def s')
  show ?thesis
  proof (cases "b + ServingRateLimit s n \<le> b'")
    case True
    then have "validate_serve_axon b' h n version' ip' port' ip_type' protocol' p1' p2' s' = Inr ()"
      using reg rate assms(4-6) by (simp add: validate_serve_axon_Inr)
    with True s' show ?thesis by (simp add: do_serve_axon_Signed axon_passes_rate_limit_def Let_def)
  next
    case False
    then have "validate_serve_axon b' h n version' ip' port' ip_type' protocol' p1' p2' s' = Inl ServingRateLimitExceeded"
      using reg rate assms(4,5) by (simp add: validate_serve_axon_def)
    with False s' show ?thesis by (simp add: do_serve_axon_Signed axon_passes_rate_limit_def Let_def)
  qed
qed

theorem serve_axon_rate_limit_witness:
  "\<exists>s'. do_serve_axon 7 (Signed 10) 1 2 16909060 8091 4 0 0 0 None sample_serving = Inr s' \<and>
    do_serve_axon 56 (Signed 10) 1 2 16909060 8092 4 0 0 0 None s' = Inl ServingRateLimitExceeded \<and>
    (\<exists>s''. do_serve_axon 57 (Signed 10) 1 2 16909060 8092 4 0 0 0 None s' = Inr s'')"
proof -
  have ok: "is_valid_ip_type 4" "is_valid_ip_address 4 16909060 True" "(8091::nat) \<noteq> 0" "(8092::nat) \<noteq> 0"
    "axon_passes_rate_limit sample_serving 1 (get_axon_info sample_serving 1 10) 7"
    by (simp_all add: serving_eval)
  have "\<exists>s'. do_serve_axon 7 (Signed 10) 1 2 16909060 8091 4 0 0 0 None sample_serving = Inr s'"
    using ok sample_registered by (auto simp: do_serve_axon_Signed validate_serve_axon_Inr)
  then obtain s' where s': "do_serve_axon 7 (Signed 10) 1 2 16909060 8091 4 0 0 0 None sample_serving = Inr s'" ..
  have l: "ServingRateLimit sample_serving 1 = 50" by (simp add: sample_serving_def)
  have "do_serve_axon 56 (Signed 10) 1 2 16909060 8092 4 0 0 0 None s' = Inl ServingRateLimitExceeded"
    using serve_axon_rate_limit[OF s' _ _ ok(1,2,4), of 56 2 0 0 0 None] unfolding l by simp
  moreover have "\<exists>s''. do_serve_axon 57 (Signed 10) 1 2 16909060 8092 4 0 0 0 None s' = Inr s''"
    using serve_axon_rate_limit[OF s' _ _ ok(1,2,4), of 57 2 0 0 0 None] unfolding l by simp
  ultimately show ?thesis using s' by blast
qed

text \<open>Serving prometheus information: the call succeeds exactly when the ip type is 4 or 6, the
  address is admissible and not zero, the caller is registered on some subnet, the rate limit has
  passed and the port is not zero; it then stores exactly the given endpoint with the current block,
  and a repeated call before the rate limit has passed is rejected.\<close>

theorem serve_prometheus_exact:
  "(\<exists>s'. do_serve_prometheus block (Signed h) n version ip port ip_type s = Inr s') =
     (is_valid_ip_type ip_type \<and> is_valid_ip_address ip_type ip False \<and>
      is_hotkey_registered_on_any_network (sv_neurons s) h \<and>
      prometheus_passes_rate_limit s n (get_prometheus_info s n h) block \<and> port \<noteq> 0) \<and>
   (\<forall>s'. do_serve_prometheus block (Signed h) n version ip port ip_type s = Inr s' \<longrightarrow>
      get_prometheus_info s' n h = \<lparr>prom_block = block, prom_version = version, prom_ip = ip, prom_port = port,
        prom_ip_type = ip_type\<rparr> \<and>
      (\<forall>m h'. (m, h') \<noteq> (n, h) \<longrightarrow> get_prometheus_info s' m h' = get_prometheus_info s m h') \<and>
      sv_neurons s' = sv_neurons s \<and>
      (\<forall>block' \<ge> block. 0 < block \<and> block' < block + ServingRateLimit s n \<longrightarrow>
         \<not> prometheus_passes_rate_limit s' n (get_prometheus_info s' n h) block'))"
  by (auto simp: do_serve_prometheus_def Let_def validate_prometheus_ok get_prometheus_info_def
      prometheus_passes_rate_limit_def prometheus_info.equality)

theorem serve_prometheus_exact_witness:
  "\<exists>s'. do_serve_prometheus 7 (Signed 10) 1 2 16909060 8091 4 sample_serving = Inr s' \<and>
    \<not> prometheus_passes_rate_limit s' 1 (get_prometheus_info s' 1 10) 20"
proof -
  have ok: "is_valid_ip_type 4" "is_valid_ip_address 4 16909060 False"
    "prometheus_passes_rate_limit sample_serving 1 (get_prometheus_info sample_serving 1 10) 7"
    by (simp_all add: serving_eval prometheus_passes_rate_limit_def get_prometheus_info_def)
  note P = serve_prometheus_exact[of 7 10 1 2 16909060 8091 4 sample_serving]
  obtain s' where s': "do_serve_prometheus 7 (Signed 10) 1 2 16909060 8091 4 sample_serving = Inr s'"
    using P ok sample_registered by auto
  have "\<not> prometheus_passes_rate_limit s' 1 (get_prometheus_info s' 1 10) 20"
  proof -
    have "\<forall>block' \<ge> 7. (0::nat) < 7 \<and> block' < 7 + ServingRateLimit sample_serving 1 \<longrightarrow>
        \<not> prometheus_passes_rate_limit s' 1 (get_prometheus_info s' 1 10) block'"
      using P s' by blast
    from spec[OF this, of 20] show ?thesis by (simp add: sample_serving_def)
  qed
  with s' show ?thesis by blast
qed

end
