(* ===== verification/Staking.thy ===== *)
theory Staking
  imports Share_Pool Registration
begin

text \<open>
  Staking (\<open>pallets/subtensor/src/staking\<close>: \<open>stake_utils.rs\<close>, \<open>add_stake.rs\<close>, \<open>remove_stake.rs\<close>,
  \<open>move_stake.rs\<close>, \<open>recycle_alpha.rs\<close> and the helpers they use): a coldkey swaps TAO for the alpha of a
  subnet and holds it as shares in the pool of a hotkey. The state joins the pools of the hotkeys
  (\<open>Share_Pool\<close>), the reserves of the subnets (\<open>Subnet_Pool\<close>) and the accounts
  (\<open>Subtensor_Base\<close>). The currency and the market maker behind \<open>T::SwapInterface\<close> are the fields
  of \<open>staking_env\<close>, and so are the fixed-point types \<open>U64F64\<close>, \<open>I64F64\<close> and \<open>U96F32\<close>.

  \<open>unstake_from_subnet\<close> has written the sale of the shares before its swap may fail, and one of its
  callers goes on after the failure; it therefore returns its state with the error too.
\<close>

section \<open>State\<close>

record ('a, 'u, 'w) staking_state =
  st_accounts :: "'a accounts"
  st_pool :: "'w subnet_pool"
  st_alpha :: "('a, 'u) alpha_state"
  st_Delegates :: "'a \<Rightarrow> nat option"
  LastColdkeyHotkeyStakeBlock :: "'a \<Rightarrow> 'a \<Rightarrow> nat option"
  SubtokenEnabled :: "netuid \<Rightarrow> bool"
  TransferToggle :: "netuid \<Rightarrow> bool"
  st_NetworksAdded :: "(netuid \<times> bool) list"
  NominatorMinRequiredStake :: nat
  st_StakeThreshold :: nat
  st_PendingChildKeys :: "netuid \<Rightarrow> 'a \<Rightarrow> ((nat \<times> 'a) list \<times> nat) option"

record ('a, 'u, 'i, 'v, 'w) staking_env = "('a, 'w) registration_env" +
  sim_swap :: "netuid \<Rightarrow> order_type \<Rightarrow> nat \<Rightarrow> 'w subnet_pool \<Rightarrow> (subtensor_error, swap_result) result"
  approx_fee_amount :: "netuid \<Rightarrow> nat \<Rightarrow> 'w subnet_pool \<Rightarrow> nat"
  current_alpha_price :: "netuid \<Rightarrow> 'w subnet_pool \<Rightarrow> 'v"
  min_price :: nat
  default_take :: nat
  default_account :: 'a
  se_fixed :: "('u, 'i) pool_fixed"
  se_price :: "'v ufixed"
  se_sum :: "'v list \<Rightarrow> 'v"

definition DefaultMinStake :: nat where "DefaultMinStake = 500000"

definition if_subnet_exist :: "('a, 'u, 'w) staking_state \<Rightarrow> netuid \<Rightarrow> bool" where
  "if_subnet_exist s n \<longleftrightarrow> map_of (st_NetworksAdded s) n = Some True"

definition get_all_subnet_netuids :: "('a, 'u, 'w) staking_state \<Rightarrow> netuid list" where
  "get_all_subnet_netuids s = map fst (st_NetworksAdded s)"

definition ensure_subtoken_enabled :: "('a, 'u, 'w) staking_state \<Rightarrow> netuid \<Rightarrow> (subtensor_error, unit) result" where
  "ensure_subtoken_enabled s n = ensure (SubtokenEnabled s n) SubtokenDisabled (Inr ())"

section \<open>Stake of a hotkey and a coldkey\<close>

definition get_stake_for_hotkey_and_coldkey_on_subnet ::
    "('a, 'u, 'i, 'v, 'w) staking_env \<Rightarrow> 'a \<Rightarrow> 'a \<Rightarrow> netuid \<Rightarrow> ('a, 'u, 'w) staking_state \<Rightarrow> nat" where
  "get_stake_for_hotkey_and_coldkey_on_subnet env hotkey coldkey n s =
     (case try_get_value (se_fixed env) (hotkey_alpha_ops (se_fixed env) hotkey n) coldkey (st_alpha s) of
        Some v \<Rightarrow> v | None \<Rightarrow> 0)"

definition get_stake_for_hotkey_on_subnet :: "'a \<Rightarrow> netuid \<Rightarrow> ('a, 'u, 'w) staking_state \<Rightarrow> nat" where
  "get_stake_for_hotkey_on_subnet hotkey n s = total_hotkey_alpha (st_alpha s) hotkey n"

definition has_enough_stake_on_subnet ::
    "('a, 'u, 'i, 'v, 'w) staking_env \<Rightarrow> 'a \<Rightarrow> 'a \<Rightarrow> netuid \<Rightarrow> nat \<Rightarrow> ('a, 'u, 'w) staking_state \<Rightarrow> bool" where
  "has_enough_stake_on_subnet env hotkey coldkey n decrement s \<longleftrightarrow>
     get_stake_for_hotkey_and_coldkey_on_subnet env hotkey coldkey n s \<ge> decrement"

definition increase_stake_for_hotkey_on_subnet ::
    "('a, 'u, 'i, 'v, 'w) staking_env \<Rightarrow> 'a \<Rightarrow> netuid \<Rightarrow> nat \<Rightarrow> ('a, 'u, 'w) staking_state \<Rightarrow> ('a, 'u, 'w) staking_state" where
  "increase_stake_for_hotkey_on_subnet env hotkey n amount s =
     s\<lparr>st_alpha := update_value_for_all (se_fixed env) (hotkey_alpha_ops (se_fixed env) hotkey n) (as_i64 amount) (st_alpha s)\<rparr>"

definition decrease_stake_for_hotkey_on_subnet ::
    "('a, 'u, 'i, 'v, 'w) staking_env \<Rightarrow> 'a \<Rightarrow> netuid \<Rightarrow> nat \<Rightarrow> ('a, 'u, 'w) staking_state \<Rightarrow> ('a, 'u, 'w) staking_state" where
  "decrease_stake_for_hotkey_on_subnet env hotkey n amount s =
     s\<lparr>st_alpha := update_value_for_all (se_fixed env) (hotkey_alpha_ops (se_fixed env) hotkey n)
       (i64_neg (as_i64 amount)) (st_alpha s)\<rparr>"

definition push_staking_hotkey :: "'a \<Rightarrow> 'a \<Rightarrow> ('a, 'u, 'w) staking_state \<Rightarrow> ('a, 'u, 'w) staking_state" where
  "push_staking_hotkey hotkey coldkey s =
     s\<lparr>st_accounts := (st_accounts s)\<lparr>StakingHotkeys := (StakingHotkeys (st_accounts s))
       (coldkey := push_unique hotkey (StakingHotkeys (st_accounts s) coldkey))\<rparr>\<rparr>"

definition increase_stake_for_hotkey_and_coldkey_on_subnet ::
    "('a, 'u, 'i, 'v, 'w) staking_env \<Rightarrow> 'a \<Rightarrow> 'a \<Rightarrow> netuid \<Rightarrow> nat \<Rightarrow> ('a, 'u, 'w) staking_state \<Rightarrow>
     nat \<times> ('a, 'u, 'w) staking_state" where
  "increase_stake_for_hotkey_and_coldkey_on_subnet env hotkey coldkey n amount s =
     (let s = (if amount > 0 then push_staking_hotkey hotkey coldkey s else s);
          (actual_alpha, pools) = update_value_for_one (se_fixed env) (hotkey_alpha_ops (se_fixed env) hotkey n)
            coldkey (as_i64 amount) (st_alpha s)
      in (nat (max actual_alpha 0), s\<lparr>st_alpha := pools\<rparr>))"

definition try_increase_stake_for_hotkey_and_coldkey_on_subnet ::
    "('a, 'u, 'i, 'v, 'w) staking_env \<Rightarrow> 'a \<Rightarrow> netuid \<Rightarrow> nat \<Rightarrow> ('a, 'u, 'w) staking_state \<Rightarrow> bool" where
  "try_increase_stake_for_hotkey_and_coldkey_on_subnet env hotkey n amount s =
     sim_update_value_for_one (se_fixed env) (hotkey_alpha_ops (se_fixed env) hotkey n) (as_i64 amount) (st_alpha s)"

definition decrease_stake_for_hotkey_and_coldkey_on_subnet ::
    "('a, 'u, 'i, 'v, 'w) staking_env \<Rightarrow> 'a \<Rightarrow> 'a \<Rightarrow> netuid \<Rightarrow> nat \<Rightarrow> ('a, 'u, 'w) staking_state \<Rightarrow>
     nat \<times> ('a, 'u, 'w) staking_state" where
  "decrease_stake_for_hotkey_and_coldkey_on_subnet env hotkey coldkey n amount s =
     (let ops = hotkey_alpha_ops (se_fixed env) hotkey n;
          (actual_alpha, pools) =
            (case try_get_value (se_fixed env) ops coldkey (st_alpha s) of
               Some value \<Rightarrow>
                 if value \<ge> amount
                 then update_value_for_one (se_fixed env) ops coldkey (i64_neg (as_i64 amount)) (st_alpha s)
                 else (0, st_alpha s)
             | None \<Rightarrow> (0, st_alpha s))
      in (nat (max (i64_neg actual_alpha) 0), s\<lparr>st_alpha := pools\<rparr>))"

section \<open>Swapping into and out of a subnet\<close>

definition unstake_from_subnet ::
    "('a, 'u, 'i, 'v, 'w) staking_env \<Rightarrow> 'a \<Rightarrow> 'a \<Rightarrow> netuid \<Rightarrow> nat \<Rightarrow> nat \<Rightarrow> ('a, 'u, 'w) staking_state \<Rightarrow>
     (subtensor_error, nat) result \<times> ('a, 'u, 'w) staking_state" where
  "unstake_from_subnet env hotkey coldkey n alpha price_limit s =
     (let (actual_alpha_decrease, s) = decrease_stake_for_hotkey_and_coldkey_on_subnet env hotkey coldkey n alpha s
      in case swap_alpha_for_tao (env_swap env) n actual_alpha_decrease price_limit (st_pool s) of
           Inl e \<Rightarrow> (Inl e, s)
         | Inr (r, pool) \<Rightarrow>
             let s = s\<lparr>st_pool := pool\<rparr>;
                 refund = actual_alpha_decrease - sat_add u64_max (amount_paid_in r) (fee_paid r);
                 s = (if refund > 0
                      then snd (increase_stake_for_hotkey_and_coldkey_on_subnet env hotkey coldkey n refund s) else s);
                 s = s\<lparr>LastColdkeyHotkeyStakeBlock := (LastColdkeyHotkeyStakeBlock s)(coldkey :=
                   (LastColdkeyHotkeyStakeBlock s coldkey)(hotkey \<mapsto> env_block env))\<rparr>
             in (Inr (amount_paid_out r), s))"

text \<open>The state of an extrinsic that fails is rolled back.\<close>

definition committed :: "('e, 'x) result \<times> 's \<Rightarrow> ('e, 'x \<times> 's) result" where
  "committed p = (case fst p of Inl e \<Rightarrow> Inl e | Inr x \<Rightarrow> Inr (x, snd p))"

definition stake_into_subnet ::
    "('a, 'u, 'i, 'v, 'w) staking_env \<Rightarrow> 'a \<Rightarrow> 'a \<Rightarrow> netuid \<Rightarrow> nat \<Rightarrow> nat \<Rightarrow> ('a, 'u, 'w) staking_state \<Rightarrow>
     (subtensor_error, nat \<times> ('a, 'u, 'w) staking_state) result" where
  "stake_into_subnet env hotkey coldkey n tao price_limit s =
     and_then (swap_tao_for_alpha (env_swap env) n tao price_limit (st_pool s)) (\<lambda>(r, pool).
     let s = s\<lparr>st_pool := pool\<rparr> in
     ensure (amount_paid_out r > 0) AmountTooLow
    (ensure (try_increase_stake_for_hotkey_and_coldkey_on_subnet env hotkey n (amount_paid_out r) s) InsufficientLiquidity
    (let (increased, s) = increase_stake_for_hotkey_and_coldkey_on_subnet env hotkey coldkey n (amount_paid_out r) s in
     if increased = 0 \<or> amount_paid_out r = 0 then Inr (0, s)
     else
       let s = push_staking_hotkey hotkey coldkey s;
           s = s\<lparr>LastColdkeyHotkeyStakeBlock := (LastColdkeyHotkeyStakeBlock s)(coldkey :=
             (LastColdkeyHotkeyStakeBlock s coldkey)(hotkey \<mapsto> env_block env))\<rparr>
       in Inr (amount_paid_out r, s))))"

section \<open>Helpers\<close>

definition add_balance_to_coldkey_account ::
    "('a, 'u, 'i, 'v, 'w) staking_env \<Rightarrow> 'a \<Rightarrow> nat \<Rightarrow> ('a, 'u, 'w) staking_state \<Rightarrow> ('a, 'u, 'w) staking_state" where
  "add_balance_to_coldkey_account env coldkey amount s =
     s\<lparr>st_pool := (st_pool s)\<lparr>amm := env_deposit env coldkey amount (amm (st_pool s))\<rparr>\<rparr>"

definition get_total_stake_for_hotkey ::
    "('a, 'u, 'i, 'v, 'w) staking_env \<Rightarrow> 'a \<Rightarrow> ('a, 'u, 'w) staking_state \<Rightarrow> nat" where
  "get_total_stake_for_hotkey env hotkey s =
     to_u64 (se_price env) (se_sum env (map (\<lambda>n.
       let alpha = of_u64 (se_price env) (get_stake_for_hotkey_on_subnet hotkey n s);
           alpha_price = current_alpha_price env n (st_pool s)
       in f_mul (se_price env) alpha alpha_price) (get_all_subnet_netuids s)))"

definition get_hotkey_take :: "('a, 'u, 'i, 'v, 'w) staking_env \<Rightarrow> 'a \<Rightarrow> ('a, 'u, 'w) staking_state \<Rightarrow> nat" where
  "get_hotkey_take env hotkey s = (case st_Delegates s hotkey of Some tk \<Rightarrow> tk | None \<Rightarrow> default_take env)"

definition maybe_become_delegate ::
    "('a, 'u, 'i, 'v, 'w) staking_env \<Rightarrow> 'a \<Rightarrow> ('a, 'u, 'w) staking_state \<Rightarrow> ('a, 'u, 'w) staking_state" where
  "maybe_become_delegate env hotkey s =
     (if st_Delegates s hotkey = None
      then s\<lparr>st_Delegates := (st_Delegates s)(hotkey \<mapsto> get_hotkey_take env hotkey s)\<rparr> else s)"

definition get_owning_coldkey_for_hotkey ::
    "('a, 'u, 'i, 'v, 'w) staking_env \<Rightarrow> 'a \<Rightarrow> ('a, 'u, 'w) staking_state \<Rightarrow> 'a" where
  "get_owning_coldkey_for_hotkey env hotkey s =
     (case Owner (st_accounts s) hotkey of Some c \<Rightarrow> c | None \<Rightarrow> default_account env)"

definition clear_small_nomination_if_required ::
    "('a, 'u, 'i, 'v, 'w) staking_env \<Rightarrow> 'a \<Rightarrow> 'a \<Rightarrow> netuid \<Rightarrow> ('a, 'u, 'w) staking_state \<Rightarrow> ('a, 'u, 'w) staking_state" where
  "clear_small_nomination_if_required env hotkey coldkey n s =
     (if \<not> coldkey_owns_hotkey (st_accounts s) coldkey hotkey
      then let stake = get_stake_for_hotkey_and_coldkey_on_subnet env hotkey coldkey n s
           in if stake < NominatorMinRequiredStake s
              then case unstake_from_subnet env hotkey coldkey n stake (min_price env) s of
                     (Inr cleared_stake, s) \<Rightarrow> add_balance_to_coldkey_account env coldkey cleared_stake s
                   | (Inl _, s) \<Rightarrow>
                       let alpha = get_stake_for_hotkey_and_coldkey_on_subnet env hotkey coldkey n s
                       in snd (decrease_stake_for_hotkey_and_coldkey_on_subnet env hotkey coldkey n alpha s)
              else s
      else s)"

text \<open>\<open>keys\<close> are the keys of \<open>Alpha\<close> in the order of the storage.\<close>

definition clear_small_nominations ::
    "('a, 'u, 'i, 'v, 'w) staking_env \<Rightarrow> ('a \<times> 'a \<times> netuid) list \<Rightarrow> ('a, 'u, 'w) staking_state \<Rightarrow> ('a, 'u, 'w) staking_state" where
  "clear_small_nominations env keys s =
     fold (\<lambda>(hotkey, coldkey, n). clear_small_nomination_if_required env hotkey coldkey n) keys s"

text \<open>Removal of the pending children of a hotkey whose stake fell below the threshold.\<close>

definition drop_pending_children ::
    "('a, 'u, 'i, 'v, 'w) staking_env \<Rightarrow> 'a \<Rightarrow> ('a, 'u, 'w) staking_state \<Rightarrow> ('a, 'u, 'w) staking_state" where
  "drop_pending_children env hotkey s =
     (if get_total_stake_for_hotkey env hotkey s < st_StakeThreshold s
      then fold (\<lambda>n s. s\<lparr>st_PendingChildKeys := (st_PendingChildKeys s)(n := (st_PendingChildKeys s n)(hotkey := None))\<rparr>)
        (get_all_subnet_netuids s) s
      else s)"

section \<open>Validation\<close>

definition validate_add_stake ::
    "('a, 'u, 'i, 'v, 'w) staking_env \<Rightarrow> 'a \<Rightarrow> 'a \<Rightarrow> netuid \<Rightarrow> nat \<Rightarrow> nat \<Rightarrow> bool \<Rightarrow> ('a, 'u, 'w) staking_state \<Rightarrow>
     (subtensor_error, unit) result" where
  "validate_add_stake env coldkey hotkey n stake_to_be_added max_amount allow_partial s =
     ensure (if_subnet_exist s n) SubnetNotExists
    (and_then (ensure_subtoken_enabled s n) (\<lambda>_.
     let min_amount =
       (let min_stake = DefaultMinStake;
            fee = (case sim_swap env n Buy min_stake (st_pool s) of
                     Inr res \<Rightarrow> fee_paid res | Inl _ \<Rightarrow> approx_fee_amount env n min_stake (st_pool s))
        in sat_add u64_max min_stake fee) in
     ensure (stake_to_be_added \<ge> min_amount) AmountTooLow
    (ensure (allow_partial \<or> stake_to_be_added \<le> max_amount) SlippageTooHigh
    (ensure (can_remove_balance_from_coldkey_account env coldkey stake_to_be_added (amm (st_pool s))) NotEnoughBalanceToStake
    (ensure (hotkey_account_exists (st_accounts s) hotkey) HotKeyAccountNotExists
    (and_then (map_err (\<lambda>_. InsufficientLiquidity) (sim_swap env n Buy stake_to_be_added (st_pool s))) (\<lambda>expected_alpha.
     ensure (amount_paid_out expected_alpha > 0) InsufficientLiquidity
    (ensure (try_increase_stake_for_hotkey_and_coldkey_on_subnet env hotkey n (amount_paid_out expected_alpha) s)
       InsufficientLiquidity
    (Inr ())))))))))"

definition validate_remove_stake ::
    "('a, 'u, 'i, 'v, 'w) staking_env \<Rightarrow> 'a \<Rightarrow> 'a \<Rightarrow> netuid \<Rightarrow> nat \<Rightarrow> nat \<Rightarrow> bool \<Rightarrow> ('a, 'u, 'w) staking_state \<Rightarrow>
     (subtensor_error, unit) result" where
  "validate_remove_stake env coldkey hotkey n alpha_unstaked max_amount allow_partial s =
     ensure (if_subnet_exist s n) SubnetNotExists
    (and_then (map_err (\<lambda>_. InsufficientLiquidity) (sim_swap env n Sell alpha_unstaked (st_pool s))) (\<lambda>res.
     ensure (amount_paid_out res > DefaultMinStake) AmountTooLow
    (ensure (allow_partial \<or> alpha_unstaked \<le> max_amount) SlippageTooHigh
    (ensure (hotkey_account_exists (st_accounts s) hotkey) HotKeyAccountNotExists
    (ensure (has_enough_stake_on_subnet env hotkey coldkey n alpha_unstaked s) NotEnoughStakeToWithdraw
    (Inr ()))))))"

definition validate_unstake_all ::
    "('a, 'u, 'i, 'v, 'w) staking_env \<Rightarrow> 'a \<Rightarrow> 'a \<Rightarrow> bool \<Rightarrow> ('a, 'u, 'w) staking_state \<Rightarrow> (subtensor_error, unit) result" where
  "validate_unstake_all env coldkey hotkey only_alpha s =
     ensure (hotkey_account_exists (st_accounts s) hotkey) HotKeyAccountNotExists
    (let unstaking_any = fold (\<lambda>n any.
           if only_alpha \<and> is_root n then any
           else let alpha = get_stake_for_hotkey_and_coldkey_on_subnet env hotkey coldkey n s
                in if is_ok (validate_remove_stake env coldkey hotkey n alpha alpha False s) then True else any)
         (get_all_subnet_netuids s) False
     in ensure unstaking_any AmountTooLow (Inr ()))"

definition validate_stake_transition ::
    "('a, 'u, 'i, 'v, 'w) staking_env \<Rightarrow> 'a \<Rightarrow> 'a \<Rightarrow> 'a \<Rightarrow> 'a \<Rightarrow> netuid \<Rightarrow> netuid \<Rightarrow> nat \<Rightarrow> nat \<Rightarrow> bool option \<Rightarrow> bool \<Rightarrow>
     ('a, 'u, 'w) staking_state \<Rightarrow> (subtensor_error, unit) result" where
  "validate_stake_transition env origin_coldkey destination_coldkey origin_hotkey destination_hotkey
       origin_netuid destination_netuid alpha_amount max_amount maybe_allow_partial check_transfer_toggle s =
     ensure (\<not> (origin_coldkey = destination_coldkey \<and> origin_hotkey = destination_hotkey) \<or>
       origin_netuid \<noteq> destination_netuid) SameNetuid
    (ensure (if_subnet_exist s origin_netuid) SubnetNotExists
    (ensure (origin_netuid = destination_netuid \<or> if_subnet_exist s destination_netuid) SubnetNotExists
    (ensure (SubtokenEnabled s origin_netuid) SubtokenDisabled
    (ensure (SubtokenEnabled s destination_netuid) SubtokenDisabled
    (ensure (hotkey_account_exists (st_accounts s) origin_hotkey) HotKeyAccountNotExists
    (ensure (hotkey_account_exists (st_accounts s) destination_hotkey) HotKeyAccountNotExists
    (let origin_alpha = get_stake_for_hotkey_and_coldkey_on_subnet env origin_hotkey origin_coldkey origin_netuid s in
     ensure (alpha_amount \<le> origin_alpha) NotEnoughStakeToWithdraw
    (and_then (map_err (\<lambda>_. InsufficientLiquidity) (sim_swap env origin_netuid Sell alpha_amount (st_pool s))) (\<lambda>res.
     ensure (amount_paid_out res > DefaultMinStake) AmountTooLow
    (ensure (maybe_allow_partial = Some False \<longrightarrow> alpha_amount \<le> max_amount) SlippageTooHigh
    (ensure (check_transfer_toggle \<longrightarrow> TransferToggle s origin_netuid) TransferDisallowed
    (ensure (check_transfer_toggle \<longrightarrow> TransferToggle s destination_netuid) TransferDisallowed
    (Inr ())))))))))))))"

section \<open>Limits\<close>

definition get_max_amount_add ::
    "('a, 'u, 'i, 'v, 'w) staking_env \<Rightarrow> netuid \<Rightarrow> nat \<Rightarrow> 'w subnet_pool \<Rightarrow> (subtensor_error, nat) result" where
  "get_max_amount_add env n limit_price pool =
     (if is_root n \<or> SubnetMechanism pool n = 0
      then if limit_price \<ge> 1000000000 then Inr u64_max else Inl ZeroMaxStakeAmount
      else and_then (map_err (\<lambda>_. ZeroMaxStakeAmount) (env_swap env n Buy u64_max limit_price True pool)) (\<lambda>(r, _).
        let result = sat_add u64_max (amount_paid_in r) (fee_paid r)
        in if result \<noteq> 0 then Inr result else Inl ZeroMaxStakeAmount))"

definition get_max_amount_remove ::
    "('a, 'u, 'i, 'v, 'w) staking_env \<Rightarrow> netuid \<Rightarrow> nat \<Rightarrow> 'w subnet_pool \<Rightarrow> (subtensor_error, nat) result" where
  "get_max_amount_remove env n limit_price pool =
     (if is_root n \<or> SubnetMechanism pool n = 0
      then if limit_price \<le> 1000000000 then Inr u64_max else Inl ZeroMaxStakeAmount
      else and_then (map_err (\<lambda>_. ZeroMaxStakeAmount) (env_swap env n Sell u64_max limit_price True pool)) (\<lambda>(r, _).
        let result = sat_add u64_max (amount_paid_in r) (fee_paid r)
        in if result \<noteq> 0 then Inr result else Inl ZeroMaxStakeAmount))"

text \<open>A \<open>U64F64\<close> is compared with a \<open>U96F32\<close> by value.\<close>

definition get_max_amount_move ::
    "('a, 'u, 'i, 'v, 'w) staking_env \<Rightarrow> netuid \<Rightarrow> netuid \<Rightarrow> nat \<Rightarrow> 'w subnet_pool \<Rightarrow> (subtensor_error, nat) result" where
  "get_max_amount_move env origin_netuid destination_netuid limit_price pool =
     (let fx = se_fixed env;
          tao = of_u64 fx 1000000000;
          stable = (\<lambda>n. is_root n \<or> SubnetMechanism pool n = 0)
      in if stable origin_netuid \<and> stable destination_netuid
         then if limit_price > to_u64 fx tao then Inl ZeroMaxStakeAmount else Inr u64_max
         else if stable origin_netuid \<and> SubnetMechanism pool destination_netuid = 1
         then if limit_price = 0 then Inr u64_max
              else let destination_subnet_price = to_u64 fx (f_mul fx (f_safe_div fx tao (of_u64 fx limit_price)) tao)
                   in get_max_amount_add env destination_netuid destination_subnet_price pool
         else if stable destination_netuid \<and> SubnetMechanism pool origin_netuid = 1
         then get_max_amount_remove env origin_netuid limit_price pool
         else
           let subnet_tao_1 = sat_add u64_max (SubnetTAO pool origin_netuid) (SubnetTaoProvided pool origin_netuid);
               subnet_tao_2 = sat_add u64_max (SubnetTAO pool destination_netuid) (SubnetTaoProvided pool destination_netuid)
           in if subnet_tao_1 = 0 \<or> subnet_tao_2 = 0 then Inl ZeroMaxStakeAmount
         else
           let subnet_tao_1_float = of_u64 fx subnet_tao_1;
               subnet_tao_2_float = of_u64 fx subnet_tao_2;
               alpha_in_1 = sat_add u64_max (SubnetAlphaIn pool origin_netuid) (SubnetAlphaInProvided pool origin_netuid);
               alpha_in_2 = sat_add u64_max (SubnetAlphaIn pool destination_netuid) (SubnetAlphaInProvided pool destination_netuid)
           in if alpha_in_1 = 0 \<or> alpha_in_2 = 0 then Inl ZeroMaxStakeAmount
         else
           let alpha_in_1_float = of_u64 fx alpha_in_1;
               alpha_in_2_float = of_u64 fx alpha_in_2;
               limit_price_float = f_safe_div fx (of_u64 fx limit_price) (of_u64 fx 1000000000);
               current_price = f_safe_div (se_price env) (current_alpha_price env origin_netuid pool)
                 (current_alpha_price env destination_netuid pool)
           in if fbits fx limit_price_float > fbits (se_price env) current_price * 2 ^ 32 then Inl ZeroMaxStakeAmount
         else if limit_price = 0 then Inr u64_max
         else
           let tao_sum = f_add fx subnet_tao_2_float subnet_tao_1_float;
               t1_over_sum = f_safe_div fx subnet_tao_1_float tao_sum;
               t2_over_sum = f_safe_div fx subnet_tao_2_float tao_sum;
               final_result = to_u64 fx (f_sub fx
                 (f_safe_div fx (f_mul fx alpha_in_2_float t1_over_sum) limit_price_float)
                 (f_mul fx alpha_in_1_float t2_over_sum))
           in if final_result \<noteq> 0 then Inr final_result else Inl ZeroMaxStakeAmount)"

section \<open>Calls\<close>

text \<open>Withdrawal from a coldkey's balance, on the staking state.\<close>

definition withdraw_balance ::
    "('a, 'u, 'i, 'v, 'w) staking_env \<Rightarrow> 'a \<Rightarrow> nat \<Rightarrow> ('a, 'u, 'w) staking_state \<Rightarrow>
     (subtensor_error, nat \<times> ('a, 'u, 'w) staking_state) result" where
  "withdraw_balance env coldkey amount s =
     and_then (remove_balance_from_coldkey_account env coldkey amount (amm (st_pool s))) (\<lambda>(credit, w).
     Inr (credit, s\<lparr>st_pool := (st_pool s)\<lparr>amm := w\<rparr>\<rparr>))"

definition do_add_stake ::
    "('a, 'u, 'i, 'v, 'w) staking_env \<Rightarrow> 'a origin \<Rightarrow> 'a \<Rightarrow> netuid \<Rightarrow> nat \<Rightarrow> ('a, 'u, 'w) staking_state \<Rightarrow>
     (subtensor_error, ('a, 'u, 'w) staking_state) result" where
  "do_add_stake env og hotkey n stake_to_be_added s =
     and_then (ensure_signed BadOrigin og) (\<lambda>coldkey.
     and_then (ensure_subtoken_enabled s n) (\<lambda>_.
     and_then (validate_add_stake env coldkey hotkey n stake_to_be_added stake_to_be_added False s) (\<lambda>_.
     and_then (withdraw_balance env coldkey stake_to_be_added s) (\<lambda>(tao_staked, s).
     and_then (stake_into_subnet env hotkey coldkey n tao_staked (max_price env) s) (\<lambda>(_, s).
     Inr s)))))"

definition do_add_stake_limit ::
    "('a, 'u, 'i, 'v, 'w) staking_env \<Rightarrow> 'a origin \<Rightarrow> 'a \<Rightarrow> netuid \<Rightarrow> nat \<Rightarrow> nat \<Rightarrow> bool \<Rightarrow> ('a, 'u, 'w) staking_state \<Rightarrow>
     (subtensor_error, ('a, 'u, 'w) staking_state) result" where
  "do_add_stake_limit env og hotkey n stake_to_be_added limit_price allow_partial s =
     and_then (ensure_signed BadOrigin og) (\<lambda>coldkey.
     and_then (get_max_amount_add env n limit_price (st_pool s)) (\<lambda>max_amount.
     let possible_stake = (if stake_to_be_added > max_amount then max_amount else stake_to_be_added) in
     and_then (validate_add_stake env coldkey hotkey n stake_to_be_added max_amount allow_partial s) (\<lambda>_.
     let s = (if get_owning_coldkey_for_hotkey env hotkey s \<noteq> coldkey then maybe_become_delegate env hotkey s else s) in
     and_then (withdraw_balance env coldkey possible_stake s) (\<lambda>(tao_staked, s).
     and_then (stake_into_subnet env hotkey coldkey n tao_staked limit_price s) (\<lambda>(_, s).
     Inr s)))))"

definition do_remove_stake ::
    "('a, 'u, 'i, 'v, 'w) staking_env \<Rightarrow> 'a origin \<Rightarrow> 'a \<Rightarrow> netuid \<Rightarrow> nat \<Rightarrow> ('a, 'u, 'w) staking_state \<Rightarrow>
     (subtensor_error, ('a, 'u, 'w) staking_state) result" where
  "do_remove_stake env og hotkey n alpha_unstaked s =
     and_then (ensure_signed BadOrigin og) (\<lambda>coldkey.
     and_then (ensure_subtoken_enabled s n) (\<lambda>_.
     and_then (validate_remove_stake env coldkey hotkey n alpha_unstaked alpha_unstaked False s) (\<lambda>_.
     and_then (committed (unstake_from_subnet env hotkey coldkey n alpha_unstaked (min_price env) s)) (\<lambda>(tao_unstaked, s).
     let s = add_balance_to_coldkey_account env coldkey tao_unstaked s;
         s = clear_small_nomination_if_required env hotkey coldkey n s
     in Inr (drop_pending_children env hotkey s)))))"

definition do_remove_stake_limit ::
    "('a, 'u, 'i, 'v, 'w) staking_env \<Rightarrow> 'a origin \<Rightarrow> 'a \<Rightarrow> netuid \<Rightarrow> nat \<Rightarrow> nat \<Rightarrow> bool \<Rightarrow> ('a, 'u, 'w) staking_state \<Rightarrow>
     (subtensor_error, ('a, 'u, 'w) staking_state) result" where
  "do_remove_stake_limit env og hotkey n alpha_unstaked limit_price allow_partial s =
     and_then (ensure_signed BadOrigin og) (\<lambda>coldkey.
     and_then (get_max_amount_remove env n limit_price (st_pool s)) (\<lambda>max_amount.
     let possible_alpha = (if alpha_unstaked > max_amount then max_amount else alpha_unstaked) in
     and_then (validate_remove_stake env coldkey hotkey n alpha_unstaked max_amount allow_partial s) (\<lambda>_.
     and_then (committed (unstake_from_subnet env hotkey coldkey n possible_alpha limit_price s)) (\<lambda>(tao_unstaked, s).
     let s = add_balance_to_coldkey_account env coldkey tao_unstaked s;
         s = clear_small_nomination_if_required env hotkey coldkey n s
     in Inr (drop_pending_children env hotkey s)))))"

definition do_remove_stake_full_limit ::
    "('a, 'u, 'i, 'v, 'w) staking_env \<Rightarrow> 'a origin \<Rightarrow> 'a \<Rightarrow> netuid \<Rightarrow> nat option \<Rightarrow> ('a, 'u, 'w) staking_state \<Rightarrow>
     (subtensor_error, ('a, 'u, 'w) staking_state) result" where
  "do_remove_stake_full_limit env og hotkey n limit_price s =
     and_then (ensure_signed BadOrigin og) (\<lambda>coldkey.
     let alpha_unstaked = get_stake_for_hotkey_and_coldkey_on_subnet env hotkey coldkey n s
     in case limit_price of
          Some limit_price \<Rightarrow> do_remove_stake_limit env og hotkey n alpha_unstaked limit_price False s
        | None \<Rightarrow> do_remove_stake env og hotkey n alpha_unstaked s)"

definition unstake_all_step ::
    "('a, 'u, 'i, 'v, 'w) staking_env \<Rightarrow> 'a \<Rightarrow> 'a \<Rightarrow> netuid \<Rightarrow> ('a, 'u, 'w) staking_state \<Rightarrow>
     (subtensor_error, ('a, 'u, 'w) staking_state) result" where
  "unstake_all_step env hotkey coldkey n s =
     (if \<not> SubtokenEnabled s n then Inr s
      else
        let alpha_unstaked = get_stake_for_hotkey_and_coldkey_on_subnet env hotkey coldkey n s
        in if \<not> is_ok (validate_remove_stake env coldkey hotkey n alpha_unstaked alpha_unstaked False s) then Inr s
           else if alpha_unstaked > 0
           then and_then (committed (unstake_from_subnet env hotkey coldkey n alpha_unstaked (min_price env) s))
             (\<lambda>(tao_unstaked, s).
              let s = add_balance_to_coldkey_account env coldkey tao_unstaked s
              in Inr (clear_small_nomination_if_required env hotkey coldkey n s))
           else Inr s)"

definition do_unstake_all ::
    "('a, 'u, 'i, 'v, 'w) staking_env \<Rightarrow> 'a origin \<Rightarrow> 'a \<Rightarrow> ('a, 'u, 'w) staking_state \<Rightarrow>
     (subtensor_error, ('a, 'u, 'w) staking_state) result" where
  "do_unstake_all env og hotkey s =
     and_then (ensure_signed BadOrigin og) (\<lambda>coldkey.
     ensure (hotkey_account_exists (st_accounts s) hotkey) HotKeyAccountNotExists
    (let netuids = get_all_subnet_netuids s
     in try_for_each (unstake_all_step env hotkey coldkey) netuids s))"

text \<open>The loop of \<open>do_unstake_all_alpha\<close> carries \<open>total_tao_unstaked\<close>.\<close>

definition unstake_all_alpha_step ::
    "('a, 'u, 'i, 'v, 'w) staking_env \<Rightarrow> 'a \<Rightarrow> 'a \<Rightarrow> netuid \<Rightarrow> nat \<times> ('a, 'u, 'w) staking_state \<Rightarrow>
     (subtensor_error, nat \<times> ('a, 'u, 'w) staking_state) result" where
  "unstake_all_alpha_step env hotkey coldkey n p =
     (let (total_tao_unstaked, s) = p
      in if \<not> SubtokenEnabled s n then Inr p
         else if \<not> is_root n
         then
           let alpha_unstaked = get_stake_for_hotkey_and_coldkey_on_subnet env hotkey coldkey n s
           in if \<not> is_ok (validate_remove_stake env coldkey hotkey n alpha_unstaked alpha_unstaked False s) then Inr p
              else if alpha_unstaked > 0
              then and_then (committed (unstake_from_subnet env hotkey coldkey n alpha_unstaked (min_price env) s))
                (\<lambda>(tao_unstaked, s).
                 Inr (sat_add u64_max total_tao_unstaked tao_unstaked,
                      clear_small_nomination_if_required env hotkey coldkey n s))
              else Inr p
         else Inr p)"

definition do_unstake_all_alpha ::
    "('a, 'u, 'i, 'v, 'w) staking_env \<Rightarrow> 'a origin \<Rightarrow> 'a \<Rightarrow> ('a, 'u, 'w) staking_state \<Rightarrow>
     (subtensor_error, ('a, 'u, 'w) staking_state) result" where
  "do_unstake_all_alpha env og hotkey s =
     and_then (ensure_signed BadOrigin og) (\<lambda>coldkey.
     ensure (hotkey_account_exists (st_accounts s) hotkey) HotKeyAccountNotExists
    (let netuids = get_all_subnet_netuids s in
     and_then (try_for_each (unstake_all_alpha_step env hotkey coldkey) netuids (0, s)) (\<lambda>(total_tao_unstaked, s).
     and_then (stake_into_subnet env hotkey coldkey root_netuid total_tao_unstaked (max_price env) s) (\<lambda>(_, s).
     Inr s))))"

definition transition_stake_internal ::
    "('a, 'u, 'i, 'v, 'w) staking_env \<Rightarrow> 'a \<Rightarrow> 'a \<Rightarrow> 'a \<Rightarrow> 'a \<Rightarrow> netuid \<Rightarrow> netuid \<Rightarrow> nat \<Rightarrow> nat option \<Rightarrow> bool option \<Rightarrow> bool \<Rightarrow>
     ('a, 'u, 'w) staking_state \<Rightarrow> (subtensor_error, nat \<times> ('a, 'u, 'w) staking_state) result" where
  "transition_stake_internal env origin_coldkey destination_coldkey origin_hotkey destination_hotkey
       origin_netuid destination_netuid alpha_amount maybe_limit_price maybe_allow_partial check_transfer_toggle s =
     and_then (case maybe_limit_price of
         Some limit_price \<Rightarrow> get_max_amount_move env origin_netuid destination_netuid limit_price (st_pool s)
       | None \<Rightarrow> Inr alpha_amount) (\<lambda>max_amount.
     and_then (validate_stake_transition env origin_coldkey destination_coldkey origin_hotkey destination_hotkey
       origin_netuid destination_netuid alpha_amount max_amount maybe_allow_partial check_transfer_toggle s) (\<lambda>_.
     let move_amount = (if alpha_amount < max_amount then alpha_amount else max_amount) in
     and_then (committed (unstake_from_subnet env origin_hotkey origin_coldkey origin_netuid move_amount (min_price env) s))
       (\<lambda>(tao_unstaked, s).
     if tao_unstaked \<ge> DefaultMinStake
     then let s = (if get_owning_coldkey_for_hotkey env destination_hotkey s \<noteq> destination_coldkey
                   then maybe_become_delegate env destination_hotkey s else s)
          in and_then (stake_into_subnet env destination_hotkey destination_coldkey destination_netuid tao_unstaked
               (max_price env) s) (\<lambda>(_, s). Inr (tao_unstaked, s))
     else Inr (tao_unstaked, s))))"

definition do_move_stake ::
    "('a, 'u, 'i, 'v, 'w) staking_env \<Rightarrow> 'a origin \<Rightarrow> 'a \<Rightarrow> 'a \<Rightarrow> netuid \<Rightarrow> netuid \<Rightarrow> nat \<Rightarrow> ('a, 'u, 'w) staking_state \<Rightarrow>
     (subtensor_error, ('a, 'u, 'w) staking_state) result" where
  "do_move_stake env og origin_hotkey destination_hotkey origin_netuid destination_netuid alpha_amount s =
     and_then (ensure_signed BadOrigin og) (\<lambda>coldkey.
     and_then (transition_stake_internal env coldkey coldkey origin_hotkey destination_hotkey origin_netuid
       destination_netuid alpha_amount None None False s) (\<lambda>(_, s). Inr s))"

definition toggle_transfer :: "netuid \<Rightarrow> bool \<Rightarrow> ('a, 'u, 'w) staking_state \<Rightarrow> ('a, 'u, 'w) staking_state" where
  "toggle_transfer n toggle s = s\<lparr>TransferToggle := (TransferToggle s)(n := toggle)\<rparr>"

definition do_transfer_stake ::
    "('a, 'u, 'i, 'v, 'w) staking_env \<Rightarrow> 'a origin \<Rightarrow> 'a \<Rightarrow> 'a \<Rightarrow> netuid \<Rightarrow> netuid \<Rightarrow> nat \<Rightarrow> ('a, 'u, 'w) staking_state \<Rightarrow>
     (subtensor_error, ('a, 'u, 'w) staking_state) result" where
  "do_transfer_stake env og destination_coldkey hotkey origin_netuid destination_netuid alpha_amount s =
     and_then (ensure_signed BadOrigin og) (\<lambda>coldkey.
     and_then (transition_stake_internal env coldkey destination_coldkey hotkey hotkey origin_netuid
       destination_netuid alpha_amount None None True s) (\<lambda>(_, s). Inr s))"

definition do_swap_stake ::
    "('a, 'u, 'i, 'v, 'w) staking_env \<Rightarrow> 'a origin \<Rightarrow> 'a \<Rightarrow> netuid \<Rightarrow> netuid \<Rightarrow> nat \<Rightarrow> ('a, 'u, 'w) staking_state \<Rightarrow>
     (subtensor_error, ('a, 'u, 'w) staking_state) result" where
  "do_swap_stake env og hotkey origin_netuid destination_netuid alpha_amount s =
     and_then (ensure_signed BadOrigin og) (\<lambda>coldkey.
     and_then (transition_stake_internal env coldkey coldkey hotkey hotkey origin_netuid
       destination_netuid alpha_amount None None False s) (\<lambda>(_, s). Inr s))"

definition do_swap_stake_limit ::
    "('a, 'u, 'i, 'v, 'w) staking_env \<Rightarrow> 'a origin \<Rightarrow> 'a \<Rightarrow> netuid \<Rightarrow> netuid \<Rightarrow> nat \<Rightarrow> nat \<Rightarrow> bool \<Rightarrow> ('a, 'u, 'w) staking_state \<Rightarrow>
     (subtensor_error, ('a, 'u, 'w) staking_state) result" where
  "do_swap_stake_limit env og hotkey origin_netuid destination_netuid alpha_amount limit_price allow_partial s =
     and_then (ensure_signed BadOrigin og) (\<lambda>coldkey.
     and_then (transition_stake_internal env coldkey coldkey hotkey hotkey origin_netuid
       destination_netuid alpha_amount (Some limit_price) (Some allow_partial) False s) (\<lambda>(_, s). Inr s))"

definition do_recycle_alpha ::
    "('a, 'u, 'i, 'v, 'w) staking_env \<Rightarrow> 'a origin \<Rightarrow> 'a \<Rightarrow> nat \<Rightarrow> netuid \<Rightarrow> ('a, 'u, 'w) staking_state \<Rightarrow>
     (subtensor_error, ('a, 'u, 'w) staking_state) result" where
  "do_recycle_alpha env og hotkey amount n s =
     and_then (ensure_signed BadOrigin og) (\<lambda>coldkey.
     ensure (if_subnet_exist s n) SubNetworkDoesNotExist
    (ensure (\<not> is_root n) CannotBurnOrRecycleOnRootSubnet
    (and_then (ensure_subtoken_enabled s n) (\<lambda>_.
     ensure (hotkey_account_exists (st_accounts s) hotkey) HotKeyAccountNotExists
    (ensure (has_enough_stake_on_subnet env hotkey coldkey n amount s) NotEnoughStakeToWithdraw
    (ensure (SubnetAlphaOut (st_pool s) n \<ge> amount) InsufficientLiquidity
    (let (actual_alpha_decrease, s) = decrease_stake_for_hotkey_and_coldkey_on_subnet env hotkey coldkey n amount s
     in Inr (s\<lparr>st_pool := (st_pool s)\<lparr>SubnetAlphaOut := (SubnetAlphaOut (st_pool s))
          (n := SubnetAlphaOut (st_pool s) n - actual_alpha_decrease)\<rparr>\<rparr>))))))))"

definition do_burn_alpha ::
    "('a, 'u, 'i, 'v, 'w) staking_env \<Rightarrow> 'a origin \<Rightarrow> 'a \<Rightarrow> nat \<Rightarrow> netuid \<Rightarrow> ('a, 'u, 'w) staking_state \<Rightarrow>
     (subtensor_error, ('a, 'u, 'w) staking_state) result" where
  "do_burn_alpha env og hotkey amount n s =
     and_then (ensure_signed BadOrigin og) (\<lambda>coldkey.
     ensure (if_subnet_exist s n) SubNetworkDoesNotExist
    (ensure (\<not> is_root n) CannotBurnOrRecycleOnRootSubnet
    (and_then (ensure_subtoken_enabled s n) (\<lambda>_.
     ensure (hotkey_account_exists (st_accounts s) hotkey) HotKeyAccountNotExists
    (ensure (has_enough_stake_on_subnet env hotkey coldkey n amount s) NotEnoughStakeToWithdraw
    (ensure (SubnetAlphaOut (st_pool s) n \<ge> amount) InsufficientLiquidity
    (Inr (snd (decrease_stake_for_hotkey_and_coldkey_on_subnet env hotkey coldkey n amount s)))))))))"

section \<open>Whose shares a call changes\<close>

datatype 'a staking_call =
    AddStake 'a netuid nat
  | AddStakeLimit 'a netuid nat nat bool
  | RemoveStake 'a netuid nat
  | RemoveStakeLimit 'a netuid nat nat bool
  | RemoveStakeFullLimit 'a netuid "nat option"
  | UnstakeAll 'a
  | UnstakeAllAlpha 'a
  | MoveStake 'a 'a netuid netuid nat
  | TransferStake 'a 'a netuid netuid nat
  | SwapStake 'a netuid netuid nat
  | SwapStakeLimit 'a netuid netuid nat nat bool
  | RecycleAlpha 'a nat netuid
  | BurnAlpha 'a nat netuid

fun staking_exec ::
    "('a, 'u, 'i, 'v, 'w) staking_env \<Rightarrow> 'a origin \<Rightarrow> 'a staking_call \<Rightarrow> ('a, 'u, 'w) staking_state \<Rightarrow>
     (subtensor_error, ('a, 'u, 'w) staking_state) result" where
  "staking_exec env og (AddStake h n x) s = do_add_stake env og h n x s"
| "staking_exec env og (AddStakeLimit h n x l p) s = do_add_stake_limit env og h n x l p s"
| "staking_exec env og (RemoveStake h n x) s = do_remove_stake env og h n x s"
| "staking_exec env og (RemoveStakeLimit h n x l p) s = do_remove_stake_limit env og h n x l p s"
| "staking_exec env og (RemoveStakeFullLimit h n l) s = do_remove_stake_full_limit env og h n l s"
| "staking_exec env og (UnstakeAll h) s = do_unstake_all env og h s"
| "staking_exec env og (UnstakeAllAlpha h) s = do_unstake_all_alpha env og h s"
| "staking_exec env og (MoveStake h h' n m x) s = do_move_stake env og h h' n m x s"
| "staking_exec env og (TransferStake d h n m x) s = do_transfer_stake env og d h n m x s"
| "staking_exec env og (SwapStake h n m x) s = do_swap_stake env og h n m x s"
| "staking_exec env og (SwapStakeLimit h n m x l p) s = do_swap_stake_limit env og h n m x l p s"
| "staking_exec env og (RecycleAlpha h x n) s = do_recycle_alpha env og h x n s"
| "staking_exec env og (BurnAlpha h x n) s = do_burn_alpha env og h x n s"

fun receivers :: "'a staking_call \<Rightarrow> 'a set" where
  "receivers (TransferStake d h n m x) = {d}"
| "receivers _ = {}"

definition others_keep :: "'a set \<Rightarrow> ('a, 'u, 'w) staking_state \<Rightarrow> ('a, 'u, 'w) staking_state \<Rightarrow> bool" where
  "others_keep C s s' \<longleftrightarrow> (\<forall>h c n. c \<notin> C \<longrightarrow> Alpha (st_alpha s') h c n = Alpha (st_alpha s) h c n)"

lemma others_keep_eq: "st_alpha s' = st_alpha s \<Longrightarrow> others_keep C s s'"
  by (simp add: others_keep_def)

lemma others_keep_trans: "others_keep C s t \<Longrightarrow> others_keep D t u \<Longrightarrow> others_keep (C \<union> D) s u"
  by (simp add: others_keep_def)

lemma others_keep_same [trans]: "others_keep C s t \<Longrightarrow> others_keep C t u \<Longrightarrow> others_keep C s u"
  by (simp add: others_keep_def)

lemma update_one_keeps:
  assumes "st_alpha s' = snd (update_value_for_one fx (hotkey_alpha_ops fx h n) c u (st_alpha s))"
  shows "others_keep {c} s s'"
proof -
  obtain a p where "update_value_for_one fx (hotkey_alpha_ops fx h n) c u (st_alpha s) = (a, p)" by fastforce
  with update_one_frame(1)[OF this] assms show ?thesis by (auto simp: others_keep_def)
qed

lemma increase_keeps: "others_keep {c} s (snd (increase_stake_for_hotkey_and_coldkey_on_subnet env h c n x s))"
  by (rule update_one_keeps[where fx = "se_fixed env" and h = h and n = n and u = "as_i64 x"])
    (simp add: increase_stake_for_hotkey_and_coldkey_on_subnet_def push_staking_hotkey_def case_prod_unfold Let_def)

lemma decrease_keeps: "others_keep {c} s (snd (decrease_stake_for_hotkey_and_coldkey_on_subnet env h c n x s))"
proof (cases "\<exists>v. try_get_value (se_fixed env) (hotkey_alpha_ops (se_fixed env) h n) c (st_alpha s) = Some v \<and> v \<ge> x")
  case True
  then show ?thesis
    by (intro update_one_keeps[where fx = "se_fixed env" and h = h and n = n and u = "i64_neg (as_i64 x)"])
      (auto simp: decrease_stake_for_hotkey_and_coldkey_on_subnet_def case_prod_unfold Let_def)
next
  case False
  then show ?thesis
    by (intro others_keep_eq)
      (auto simp: decrease_stake_for_hotkey_and_coldkey_on_subnet_def Let_def split: option.splits)
qed

lemma unstake_keeps: "others_keep {c} s (snd (unstake_from_subnet env h c n x l s))"
proof -
  let ?d = "decrease_stake_for_hotkey_and_coldkey_on_subnet env h c n x s"
  have d: "others_keep {c} s (snd ?d)" by (rule decrease_keeps)
  show ?thesis
  proof (cases "swap_alpha_for_tao (env_swap env) n (fst ?d) l (st_pool (snd ?d))")
    case (Inl e)
    with d show ?thesis by (simp add: unstake_from_subnet_def case_prod_unfold)
  next
    case (Inr b)
    let ?p = "snd ?d\<lparr>st_pool := snd b\<rparr>"
    let ?i = "snd (increase_stake_for_hotkey_and_coldkey_on_subnet env h c n
      (fst ?d - sat_add u64_max (amount_paid_in (fst b)) (fee_paid (fst b))) ?p)"
    have "others_keep {c} s ?p" by (rule others_keep_same[OF d]) (simp add: others_keep_def)
    moreover have "others_keep {c} s ?i" using others_keep_same[OF calculation increase_keeps] .
    ultimately show ?thesis using Inr by (auto simp: unstake_from_subnet_def case_prod_unfold Let_def others_keep_def)
  qed
qed

lemma committed_Inr [simp]: "committed p = Inr (x, s) \<longleftrightarrow> p = (Inr x, s)"
  by (cases p) (auto simp: committed_def split: sum.splits)

lemma unstake_committed_keeps:
  "unstake_from_subnet env h c n x l s = (r, s') \<Longrightarrow> others_keep {c} s s'"
  using unstake_keeps[of c s env h n x l] by simp

lemma stake_into_subnetE:
  assumes "stake_into_subnet env h c n x l s = Inr (y, s')"
  obtains r pool inc s1 where "swap_tao_for_alpha (env_swap env) n x l (st_pool s) = Inr (r, pool)" "amount_paid_out r > 0"
    "increase_stake_for_hotkey_and_coldkey_on_subnet env h c n (amount_paid_out r) (s\<lparr>st_pool := pool\<rparr>) = (inc, s1)"
    "if inc = 0 then y = 0 \<and> s' = s1 else y = amount_paid_out r \<and> s' = push_staking_hotkey h c s1
      \<lparr>LastColdkeyHotkeyStakeBlock := (LastColdkeyHotkeyStakeBlock s1)(c := (LastColdkeyHotkeyStakeBlock s1 c)(h \<mapsto> env_block env))\<rparr>"
proof -
  from assms obtain r pool where r: "swap_tao_for_alpha (env_swap env) n x l (st_pool s) = Inr (r, pool)"
    by (auto simp: stake_into_subnet_def)
  obtain inc s1 where i: "increase_stake_for_hotkey_and_coldkey_on_subnet env h c n (amount_paid_out r) (s\<lparr>st_pool := pool\<rparr>) = (inc, s1)"
    by fastforce
  have "LastColdkeyHotkeyStakeBlock (push_staking_hotkey h c s1) = LastColdkeyHotkeyStakeBlock s1"
    by (simp add: push_staking_hotkey_def)
  with assms r i that show thesis by (auto simp: stake_into_subnet_def Let_def split: if_splits)
qed

lemma stake_into_keeps:
  assumes "stake_into_subnet env h c n x l s = Inr (y, s')"
  shows "others_keep {c} s s'"
  using assms
proof (rule stake_into_subnetE)
  fix r pool inc s1
  assume "increase_stake_for_hotkey_and_coldkey_on_subnet env h c n (amount_paid_out r) (s\<lparr>st_pool := pool\<rparr>) = (inc, s1)"
    and s': "if inc = 0 then y = 0 \<and> s' = s1 else y = amount_paid_out r \<and> s' = push_staking_hotkey h c s1
      \<lparr>LastColdkeyHotkeyStakeBlock := (LastColdkeyHotkeyStakeBlock s1)(c := (LastColdkeyHotkeyStakeBlock s1 c)(h \<mapsto> env_block env))\<rparr>"
  with increase_keeps[of c "s\<lparr>st_pool := pool\<rparr>" env h n "amount_paid_out r"] have "others_keep {c} s s1"
    by (simp add: others_keep_def)
  moreover have "st_alpha s' = st_alpha s1" using s' by (auto simp: push_staking_hotkey_def split: if_splits)
  ultimately show ?thesis by (simp add: others_keep_def)
qed

lemma add_balance_alpha [simp]: "st_alpha (add_balance_to_coldkey_account env c x s) = st_alpha s"
  by (simp add: add_balance_to_coldkey_account_def)

lemma maybe_become_delegate_alpha [simp]: "st_alpha (maybe_become_delegate env h s) = st_alpha s"
  by (simp add: maybe_become_delegate_def)

lemma drop_pending_children_alpha [simp]: "st_alpha (drop_pending_children env h s) = st_alpha s"
proof -
  have "st_alpha (fold (\<lambda>n s. s\<lparr>st_PendingChildKeys := (st_PendingChildKeys s)(n := (st_PendingChildKeys s n)(h := None))\<rparr>) ns s) =
      st_alpha s" for ns by (induction ns arbitrary: s) simp_all
  then show ?thesis by (simp add: drop_pending_children_def)
qed

lemma clear_keeps: "others_keep {c} s (clear_small_nomination_if_required env h c n s)"
proof (cases "\<not> coldkey_owns_hotkey (st_accounts s) c h \<and>
    get_stake_for_hotkey_and_coldkey_on_subnet env h c n s < NominatorMinRequiredStake s")
  case True
  obtain r s1 where u: "unstake_from_subnet env h c n (get_stake_for_hotkey_and_coldkey_on_subnet env h c n s)
      (min_price env) s = (r, s1)" by fastforce
  note k = unstake_committed_keeps[OF u]
  show ?thesis
  proof (cases r)
    case (Inl e)
    with True u show ?thesis
      using others_keep_same[OF k decrease_keeps]
      by (simp add: clear_small_nomination_if_required_def Let_def del: coldkey_owns_hotkey_iff)
  next
    case (Inr x)
    with True u k show ?thesis
      by (simp add: clear_small_nomination_if_required_def Let_def others_keep_def del: coldkey_owns_hotkey_iff)
  qed
next
  case False
  then show ?thesis
    by (auto simp: clear_small_nomination_if_required_def Let_def others_keep_def simp del: coldkey_owns_hotkey_iff)
qed

lemma withdraw_balance_alpha: "withdraw_balance env c x s = Inr (y, s') \<Longrightarrow> st_alpha s' = st_alpha s"
  by (auto simp: withdraw_balance_def)

lemma do_add_stake_keeps:
  assumes "do_add_stake env (Signed c) h n x s = Inr s'"
  shows "others_keep {c} s s'"
proof -
  from assms obtain y s1 z where "withdraw_balance env c x s = Inr (y, s1)"
    "stake_into_subnet env h c n y (max_price env) s1 = Inr (z, s')"
    by (auto simp: do_add_stake_def)
  then show ?thesis using stake_into_keeps withdraw_balance_alpha by (metis others_keep_def)
qed

lemma do_add_stake_limit_keeps:
  assumes "do_add_stake_limit env (Signed c) h n x l p s = Inr s'"
  shows "others_keep {c} s s'"
proof -
  from assms obtain a y s1 z s0 where "withdraw_balance env c a s0 = Inr (y, s1)" "st_alpha s0 = st_alpha s"
    "stake_into_subnet env h c n y l s1 = Inr (z, s')"
    by (auto simp: do_add_stake_limit_def Let_def split: if_splits)
  then show ?thesis using stake_into_keeps withdraw_balance_alpha by (metis others_keep_def)
qed

text \<open>What follows a sale: the credit, the small nomination and the pending children.\<close>

lemma after_unstake_keeps:
  assumes "unstake_from_subnet env h c n x l s = (r, s1)"
  shows "others_keep {c} s (clear_small_nomination_if_required env h c n (add_balance_to_coldkey_account env c y s1))"
    "others_keep {c} s (clear_small_nomination_if_required env h c n s1)"
proof -
  have "others_keep {c} s (add_balance_to_coldkey_account env c y s1)"
    using unstake_committed_keeps[OF assms] by (simp add: others_keep_def)
  from others_keep_same[OF this clear_keeps]
  show "others_keep {c} s (clear_small_nomination_if_required env h c n (add_balance_to_coldkey_account env c y s1))" .
  show "others_keep {c} s (clear_small_nomination_if_required env h c n s1)"
    using others_keep_same[OF unstake_committed_keeps[OF assms] clear_keeps] .
qed

lemma do_remove_stake_keeps:
  assumes "do_remove_stake env (Signed c) h n x s = Inr s'"
  shows "others_keep {c} s s'"
proof -
  from assms obtain y s1 where u: "unstake_from_subnet env h c n x (min_price env) s = (Inr y, s1)"
    and "s' = drop_pending_children env h (clear_small_nomination_if_required env h c n (add_balance_to_coldkey_account env c y s1))"
    by (auto simp: do_remove_stake_def Let_def)
  with after_unstake_keeps(1)[OF u, of y] show ?thesis by (simp add: others_keep_def)
qed

lemma do_remove_stake_limit_keeps:
  assumes "do_remove_stake_limit env (Signed c) h n x l p s = Inr s'"
  shows "others_keep {c} s s'"
proof -
  from assms obtain a y s1 where u: "unstake_from_subnet env h c n a l s = (Inr y, s1)"
    and "s' = drop_pending_children env h (clear_small_nomination_if_required env h c n (add_balance_to_coldkey_account env c y s1))"
    by (auto simp: do_remove_stake_limit_def Let_def)
  with after_unstake_keeps(1)[OF u, of y] show ?thesis by (simp add: others_keep_def)
qed

lemma unstake_all_step_keeps:
  assumes "unstake_all_step env h c n s = Inr s'"
  shows "others_keep {c} s s'"
proof (cases "s' = s")
  case False
  with assms obtain x y s1 where u: "unstake_from_subnet env h c n x (min_price env) s = (Inr y, s1)"
    and "s' = clear_small_nomination_if_required env h c n (add_balance_to_coldkey_account env c y s1)"
    by (auto simp: unstake_all_step_def Let_def split: if_splits)
  with after_unstake_keeps(1)[OF u, of y] show ?thesis by simp
qed (simp add: others_keep_def)

lemma unstake_all_alpha_step_keeps:
  assumes "unstake_all_alpha_step env h c n p = Inr p'"
  shows "others_keep {c} (snd p) (snd p')"
proof (cases "p' = p")
  case False
  obtain t s where p: "p = (t, s)" by fastforce
  from False assms obtain y s1 where u: "unstake_from_subnet env h c n
        (get_stake_for_hotkey_and_coldkey_on_subnet env h c n (snd p)) (min_price env) (snd p) = (Inr y, s1)"
    and "snd p' = clear_small_nomination_if_required env h c n s1"
    unfolding p by (auto simp: unstake_all_alpha_step_def Let_def split: if_splits)
  with after_unstake_keeps(2)[OF u] show ?thesis by simp
qed (simp add: others_keep_def)

lemma do_unstake_all_keeps:
  assumes "do_unstake_all env (Signed c) h s = Inr s'"
  shows "others_keep {c} s s'"
proof -
  from assms have "try_for_each (unstake_all_step env h c) (get_all_subnet_netuids s) s = Inr s'"
    by (auto simp: do_unstake_all_def Let_def)
  then show ?thesis
    by (rule try_for_each_rule[where P = "others_keep {c} s"])
      (auto simp: others_keep_eq intro: others_keep_same[OF _ unstake_all_step_keeps])
qed

lemma do_unstake_all_alpha_keeps:
  assumes "do_unstake_all_alpha env (Signed c) h s = Inr s'"
  shows "others_keep {c} s s'"
proof -
  from assms obtain y s1 z where t: "try_for_each (unstake_all_alpha_step env h c) (get_all_subnet_netuids s) (0, s) = Inr (y, s1)"
    and i: "stake_into_subnet env h c root_netuid y (max_price env) s1 = Inr (z, s')"
    by (auto simp: do_unstake_all_alpha_def Let_def)
  from t have "others_keep {c} s (snd (y, s1))"
    by (rule try_for_each_rule[where P = "\<lambda>p. others_keep {c} s (snd p)"])
      (auto simp: others_keep_eq dest!: unstake_all_alpha_step_keeps intro: others_keep_same)
  with stake_into_keeps[OF i] show ?thesis by (auto intro: others_keep_same)
qed

lemma transition_keeps:
  assumes "transition_stake_internal env c d h h' n m x l p t s = Inr (y, s')"
  shows "others_keep {c, d} s s'"
proof -
  from assms obtain a s1 where u: "unstake_from_subnet env h c n a (min_price env) s = (Inr y, s1)"
    and rest: "s' = s1 \<or> (\<exists>s2 z. st_alpha s2 = st_alpha s1 \<and> stake_into_subnet env h' d m y (max_price env) s2 = Inr (z, s'))"
    by (fastforce simp: transition_stake_internal_def Let_def split: if_splits)
  note k = unstake_committed_keeps[OF u]
  from rest show ?thesis
  proof (elim disjE exE conjE)
    fix s2 z
    assume "st_alpha s2 = st_alpha s1" "stake_into_subnet env h' d m y (max_price env) s2 = Inr (z, s')"
    with stake_into_keeps[OF this(2)] k show ?thesis by (simp add: others_keep_def)
  qed (use k in \<open>simp add: others_keep_def\<close>)
qed

lemma recycle_burn_keeps:
  "do_recycle_alpha env (Signed c) h x n s = Inr s' \<Longrightarrow> others_keep {c} s s'"
  "do_burn_alpha env (Signed c) h x n s = Inr s' \<Longrightarrow> others_keep {c} s s'"
  using decrease_keeps[of c s env h n x]
  by (auto simp: do_recycle_alpha_def do_burn_alpha_def others_keep_def case_prod_unfold Let_def)

text \<open>C3. Nobody's stake can be taken by others. Every staking call is signed, and a successful one
  changes the shares of no coldkey but the signer's, on whatever hotkey and subnet; a transfer
  also changes those of the coldkey it names.\<close>

theorem staking_changes_own_shares:
  assumes "staking_exec env og call s = Inr s'"
  shows "\<exists>c. og = Signed c \<and>
    (\<forall>h c' n. c' \<notin> insert c (receivers call) \<longrightarrow> Alpha (st_alpha s') h c' n = Alpha (st_alpha s) h c' n)"
proof -
  have "\<exists>c. og = Signed c"
    using assms by (cases call) (auto simp: do_add_stake_def do_add_stake_limit_def do_remove_stake_def do_remove_stake_limit_def
        do_remove_stake_full_limit_def do_unstake_all_def do_unstake_all_alpha_def do_move_stake_def do_transfer_stake_def
        do_swap_stake_def do_swap_stake_limit_def do_recycle_alpha_def do_burn_alpha_def)
  then obtain c where og: "og = Signed c" by blast
  note run = assms[unfolded og]
  note same = transition_keeps[where c = c and d = c, unfolded insert_absorb2]
  have "others_keep (insert c (receivers call)) s s'"
  proof (cases call)
    case (RemoveStakeFullLimit h n l)
    with run show ?thesis
      by (auto simp: do_remove_stake_full_limit_def Let_def intro: do_remove_stake_keeps do_remove_stake_limit_keeps
          split: option.splits)
  next
    case (MoveStake h h' n m x)
    with run show ?thesis by (auto simp: do_move_stake_def intro: same)
  next
    case (TransferStake d h n m x)
    with run show ?thesis by (auto simp: do_transfer_stake_def intro: transition_keeps)
  next
    case (SwapStake h n m x)
    with run show ?thesis by (auto simp: do_swap_stake_def intro: same)
  next
    case (SwapStakeLimit h n m x l p)
    with run show ?thesis by (auto simp: do_swap_stake_limit_def intro: same)
  qed (use run in \<open>auto intro: do_add_stake_keeps do_add_stake_limit_keeps do_remove_stake_keeps do_remove_stake_limit_keeps
      do_unstake_all_keeps do_unstake_all_alpha_keeps recycle_burn_keeps\<close>)
  with og show ?thesis by (auto simp: others_keep_def)
qed

section \<open>Amounts\<close>

lemma as_i64_exact: "x \<le> nat i64_max \<Longrightarrow> as_i64 x = int x" "x \<le> nat i64_max \<Longrightarrow> i64_neg (int x) = - int x"
  by (auto simp: as_i64_def i64_neg_def i64_min_def)

lemma i64_neg_twice: "x \<le> nat i64_max \<Longrightarrow> i64_neg (- int x) = int x"
  by (auto simp: i64_neg_def i64_max_def i64_min_def)

lemma increase_exact:
  assumes ok: "pool_fixed_ok (se_fixed env)" and le: "total_hotkey_alpha (st_alpha s) h n \<le> u64_max" and x: "x \<le> nat i64_max"
    and run: "increase_stake_for_hotkey_and_coldkey_on_subnet env h c n x s = (y, s')"
  shows "y = x" "total_hotkey_alpha (st_alpha s') h n = min u64_max (total_hotkey_alpha (st_alpha s) h n + x)"
    "h' \<noteq> h \<or> m \<noteq> n \<Longrightarrow> TotalHotkeyAlpha (st_alpha s') h' m = TotalHotkeyAlpha (st_alpha s) h' m"
    "st_pool s' = st_pool s" "x > 0 \<Longrightarrow> h \<in> set (StakingHotkeys (st_accounts s') c)"
proof -
  let ?fx = "se_fixed env"
  obtain a p where u: "update_value_for_one ?fx (hotkey_alpha_ops ?fx h n) c (int x) (st_alpha s) = (a, p)" by fastforce
  have a: "a = int x" using update_one_nonneg[OF ok, of "int x" "hotkey_alpha_ops ?fx h n" c "st_alpha s"] u by simp
  have s': "y = nat (max a 0)" "st_alpha s' = p" "st_pool s' = st_pool s" "x > 0 \<Longrightarrow> h \<in> set (StakingHotkeys (st_accounts s') c)"
    using run u as_i64_exact(1)[OF x]
    by (auto simp: increase_stake_for_hotkey_and_coldkey_on_subnet_def push_staking_hotkey_def Let_def split: if_splits)
  show "y = x" "st_pool s' = st_pool s" "x > 0 \<Longrightarrow> h \<in> set (StakingHotkeys (st_accounts s') c)" using s' a by auto
  have b: "i64_min < int x" "int x \<le> i64_max" using x by (auto simp: i64_min_def i64_max_def)
  show "total_hotkey_alpha (st_alpha s') h n = min u64_max (total_hotkey_alpha (st_alpha s) h n + x)"
    using update_one_total[OF ok u[unfolded a] b le] by (simp add: s')
  show "h' \<noteq> h \<or> m \<noteq> n \<Longrightarrow> TotalHotkeyAlpha (st_alpha s') h' m = TotalHotkeyAlpha (st_alpha s) h' m"
    using update_one_frame(3)[OF u] by (simp add: s')
qed

lemma stake_le_total:
  assumes ok: "pool_fixed_ok (se_fixed env)" and inv: "alpha_inv (se_fixed env) (st_alpha s)"
  shows "get_stake_for_hotkey_and_coldkey_on_subnet env h c n s \<le> total_hotkey_alpha (st_alpha s) h n"
proof -
  let ?fx = "se_fixed env" and ?ops = "hotkey_alpha_ops (se_fixed env) h n"
  have uok: "ufixed_ok 64 ?fx" using ok by (simp add: pool_fixed_ok_def)
  have "get_value ?fx ?ops c (st_alpha s) \<le> to_u64 ?fx (of_u64 ?fx (total_hotkey_alpha (st_alpha s) h n))"
    using alpha.values_le_shared[OF ok, of h n "st_alpha s" "{c}"] inv by (simp add: alpha_inv_pool hotkey_alpha_ops_def)
  also have "\<dots> = total_hotkey_alpha (st_alpha s) h n"
    using inv by (intro of_u64_to_u64(2)[OF uok]) (simp add: alpha_inv_def)
  finally show ?thesis
    by (simp add: get_stake_for_hotkey_and_coldkey_on_subnet_def try_get_value_def split: option.splits)
qed

lemma decrease_exact:
  assumes ok: "pool_fixed_ok (se_fixed env)" and inv: "alpha_inv (se_fixed env) (st_alpha s)"
    and small: "total_hotkey_alpha (st_alpha s) h n \<le> nat i64_max"
    and x: "x \<le> get_stake_for_hotkey_and_coldkey_on_subnet env h c n s"
    and run: "decrease_stake_for_hotkey_and_coldkey_on_subnet env h c n x s = (y, s')"
  shows "x \<le> y" "y \<le> get_stake_for_hotkey_and_coldkey_on_subnet env h c n s"
    "total_hotkey_alpha (st_alpha s') h n = total_hotkey_alpha (st_alpha s) h n - y"
    "h' \<noteq> h \<or> m \<noteq> n \<Longrightarrow> TotalHotkeyAlpha (st_alpha s') h' m = TotalHotkeyAlpha (st_alpha s) h' m"
    "s' = s\<lparr>st_alpha := st_alpha s'\<rparr>"
proof -
  let ?fx = "se_fixed env" and ?ops = "hotkey_alpha_ops (se_fixed env) h n" and ?T = "total_hotkey_alpha (st_alpha s) h n"
  let ?v = "get_stake_for_hotkey_and_coldkey_on_subnet env h c n s"
  have v: "?v \<le> ?T" by (rule stake_le_total[OF ok inv])
  with small x have v63: "?v \<le> nat i64_max" and x63: "x \<le> nat i64_max" by auto
  have T: "?T \<le> u64_max" using inv by (simp add: alpha_inv_def)
  show "s' = s\<lparr>st_alpha := st_alpha s'\<rparr>"
    using run by (auto simp: decrease_stake_for_hotkey_and_coldkey_on_subnet_def case_prod_unfold Let_def)
  have "x \<le> y \<and> y \<le> ?v \<and> total_hotkey_alpha (st_alpha s') h n = ?T - y \<and>
      (h' \<noteq> h \<or> m \<noteq> n \<longrightarrow> TotalHotkeyAlpha (st_alpha s') h' m = TotalHotkeyAlpha (st_alpha s) h' m)"
  proof (cases "try_get_value ?fx ?ops c (st_alpha s)")
    case None
    then have "?v = 0" by (simp add: get_stake_for_hotkey_and_coldkey_on_subnet_def)
    with None run x show ?thesis
      by (auto simp: decrease_stake_for_hotkey_and_coldkey_on_subnet_def Let_def i64_neg_def i64_min_def)
  next
    case (Some w)
    have w: "w = ?v" using Some by (simp add: get_stake_for_hotkey_and_coldkey_on_subnet_def)
    have val: "get_value ?fx ?ops c (st_alpha s) = ?v"
      using Some w by (simp add: try_get_value_def split: option.splits)
    obtain a p where u: "update_value_for_one ?fx ?ops c (- int x) (st_alpha s) = (a, p)" by fastforce
    have s': "y = nat (max (i64_neg a) 0)" "st_alpha s' = p"
      using run u Some w x as_i64_exact[OF x63] by (auto simp: decrease_stake_for_hotkey_and_coldkey_on_subnet_def Let_def)
    have "a = - int x \<or> a = - int ?v"
      using update_one_result[of ?fx ?ops c "- int x" "st_alpha s"] u as_i64_exact[OF v63] by (simp add: val)
    then have a: "a = - int y" "x \<le> y" "y \<le> ?v"
      using s'(1) x i64_neg_twice[OF x63] i64_neg_twice[OF v63] by auto
    have b: "i64_min < - int y" "- int y \<le> i64_max" using a(3) v63 by (auto simp: i64_min_def i64_max_def)
    show ?thesis
      using a(2,3) update_one_total[OF ok u[unfolded a(1)] b T] update_one_frame(3)[OF u] T by (auto simp: s')
  qed
  then show "x \<le> y" "y \<le> ?v" "total_hotkey_alpha (st_alpha s') h n = ?T - y"
    "h' \<noteq> h \<or> m \<noteq> n \<Longrightarrow> TotalHotkeyAlpha (st_alpha s') h' m = TotalHotkeyAlpha (st_alpha s) h' m" by blast+
qed

text \<open>C19. Staking credits what the market maker paid out. A successful \<open>do_add_stake\<close> of \<open>c\<close> on an
  existing, enabled subnet withdraws the amount from its balance, swaps what was withdrawn, and adds
  exactly the alpha that the swap paid out to the hotkey (unless the total is at the limit of
  \<open>u64\<close>); no other hotkey or subnet gets alpha, the hotkey is listed for \<open>c\<close>, and the block is
  recorded.\<close>

theorem add_stake_exact:
  assumes "pool_fixed_ok (se_fixed env)" "alpha_inv (se_fixed env) (st_alpha s)"
    and "do_add_stake env (Signed c) h n x s = Inr s'"
  shows "\<exists>paid w r pool. if_subnet_exist s n \<and> SubtokenEnabled s n \<and> hotkey_account_exists (st_accounts s) h \<and>
    remove_balance_from_coldkey_account env c x (amm (st_pool s)) = Inr (paid, w) \<and>
    swap_tao_for_alpha (env_swap env) n paid (max_price env) ((st_pool s)\<lparr>amm := w\<rparr>) = Inr (r, pool) \<and> st_pool s' = pool \<and>
    0 < amount_paid_out r \<and> (amount_paid_out r \<le> nat i64_max \<longrightarrow>
      total_hotkey_alpha (st_alpha s') h n = min u64_max (total_hotkey_alpha (st_alpha s) h n + amount_paid_out r) \<and>
      (\<forall>h' m. h' \<noteq> h \<or> m \<noteq> n \<longrightarrow> total_hotkey_alpha (st_alpha s') h' m = total_hotkey_alpha (st_alpha s) h' m) \<and>
      h \<in> set (StakingHotkeys (st_accounts s') c) \<and> LastColdkeyHotkeyStakeBlock s' c h = Some (env_block env))"
proof -
  from assms(3) obtain paid s1 z where v: "validate_add_stake env c h n x x False s = Inr ()"
    and wd: "withdraw_balance env c x s = Inr (paid, s1)"
    and into: "stake_into_subnet env h c n paid (max_price env) s1 = Inr (z, s')"
    by (auto simp: do_add_stake_def)
  from v have guards: "if_subnet_exist s n" "SubtokenEnabled s n" "hotkey_account_exists (st_accounts s) h"
    by (simp_all add: validate_add_stake_def ensure_subtoken_enabled_def Let_def)
  from wd obtain w where w: "remove_balance_from_coldkey_account env c x (amm (st_pool s)) = Inr (paid, w)"
    "s1 = s\<lparr>st_pool := (st_pool s)\<lparr>amm := w\<rparr>\<rparr>" by (auto simp: withdraw_balance_def)
  from into obtain r pool inc s2 where sw: "swap_tao_for_alpha (env_swap env) n paid (max_price env) (st_pool s1) = Inr (r, pool)"
    and pos: "0 < amount_paid_out r"
    and inc: "increase_stake_for_hotkey_and_coldkey_on_subnet env h c n (amount_paid_out r) (s1\<lparr>st_pool := pool\<rparr>) = (inc, s2)"
    and s': "if inc = 0 then z = 0 \<and> s' = s2 else z = amount_paid_out r \<and> s' = push_staking_hotkey h c s2
      \<lparr>LastColdkeyHotkeyStakeBlock := (LastColdkeyHotkeyStakeBlock s2)(c := (LastColdkeyHotkeyStakeBlock s2 c)(h \<mapsto> env_block env))\<rparr>"
    by (rule stake_into_subnetE)
  have a: "st_alpha (s1\<lparr>st_pool := pool\<rparr>) = st_alpha s" by (simp add: w)
  have T: "total_hotkey_alpha (st_alpha (s1\<lparr>st_pool := pool\<rparr>)) h n \<le> u64_max" using assms(2) by (simp add: a alpha_inv_def)
  have p: "st_pool s' = pool"
    using s' inc by (auto simp: push_staking_hotkey_def increase_stake_for_hotkey_and_coldkey_on_subnet_def case_prod_unfold
        Let_def split: if_splits)
  have amounts: "total_hotkey_alpha (st_alpha s') h n = min u64_max (total_hotkey_alpha (st_alpha s) h n + amount_paid_out r) \<and>
      (\<forall>h' m. h' \<noteq> h \<or> m \<noteq> n \<longrightarrow> total_hotkey_alpha (st_alpha s') h' m = total_hotkey_alpha (st_alpha s) h' m) \<and>
      h \<in> set (StakingHotkeys (st_accounts s') c) \<and> LastColdkeyHotkeyStakeBlock s' c h = Some (env_block env)"
    if small: "amount_paid_out r \<le> nat i64_max"
  proof -
    note I = increase_exact[OF assms(1) T small inc, unfolded a]
    have s'': "s' = push_staking_hotkey h c s2
        \<lparr>LastColdkeyHotkeyStakeBlock := (LastColdkeyHotkeyStakeBlock s2)(c := (LastColdkeyHotkeyStakeBlock s2 c)(h \<mapsto> env_block env))\<rparr>"
      using s' I(1) pos by simp
    show ?thesis using I(2,3) by (simp add: s'' push_staking_hotkey_def total_hotkey_alpha_def)
  qed
  show ?thesis
    by (intro exI conjI, rule guards(1), rule guards(2), rule guards(3), rule w(1), rule sw[unfolded w(2), simplified],
        rule p, rule pos, rule impI, rule amounts)
qed

text \<open>C18. Unstaking gives up what was sold. In a consistent state, a successful \<open>unstake_from_subnet\<close> of
  at most the stake sells at least the requested alpha (the whole stake when the rest would be too
  small for the precision of the pool), swaps exactly what was sold, and takes from the
  hotkey's alpha what the swap used, fees included: the rest is staked again. No other hotkey or
  subnet is affected.\<close>

theorem unstake_exact:
  assumes "pool_fixed_ok (se_fixed env)" "alpha_inv (se_fixed env) (st_alpha s)"
    and "total_hotkey_alpha (st_alpha s) h n \<le> nat i64_max" "x \<le> get_stake_for_hotkey_and_coldkey_on_subnet env h c n s"
    and "unstake_from_subnet env h c n x l s = (Inr tao, s')"
  shows "\<exists>sold r pool. x \<le> sold \<and> sold \<le> get_stake_for_hotkey_and_coldkey_on_subnet env h c n s \<and>
    swap_alpha_for_tao (env_swap env) n sold l (st_pool s) = Inr (r, pool) \<and> tao = amount_paid_out r \<and> st_pool s' = pool \<and>
    total_hotkey_alpha (st_alpha s') h n =
      total_hotkey_alpha (st_alpha s) h n - min sold (amount_paid_in r + fee_paid r) \<and>
    (\<forall>h' m. h' \<noteq> h \<or> m \<noteq> n \<longrightarrow> total_hotkey_alpha (st_alpha s') h' m = total_hotkey_alpha (st_alpha s) h' m)"
proof -
  obtain sold s1 where d: "decrease_stake_for_hotkey_and_coldkey_on_subnet env h c n x s = (sold, s1)" by fastforce
  note D = decrease_exact[OF assms(1-4) d]
  have keep: "st_pool s1 = st_pool s" using arg_cong[OF D(5), of st_pool] by simp
  obtain r pool where r: "swap_alpha_for_tao (env_swap env) n sold l (st_pool s) = Inr (r, pool)"
    using assms(5) by (auto simp: unstake_from_subnet_def d keep split: sum.splits)
  define refund where "refund = sold - sat_add u64_max (amount_paid_in r) (fee_paid r)"
  obtain y s2 where i: "increase_stake_for_hotkey_and_coldkey_on_subnet env h c n refund (s1\<lparr>st_pool := pool\<rparr>) = (y, s2)" by fastforce
  have res: "tao = amount_paid_out r" "st_alpha s' = (if refund > 0 then st_alpha s2 else st_alpha s1)"
    "st_pool s' = (if refund > 0 then st_pool s2 else pool)"
    using assms(5) r i unfolding refund_def by (auto simp: unstake_from_subnet_def d keep Let_def)
  let ?T = "total_hotkey_alpha (st_alpha s) h n"
  have sold: "sold \<le> ?T" using D(2) stake_le_total[OF assms(1,2)] le_trans by blast
  have T: "?T \<le> u64_max" "sold \<le> nat i64_max" using assms(2,3) sold by (auto simp: alpha_inv_def)
  have "total_hotkey_alpha (st_alpha (s1\<lparr>st_pool := pool\<rparr>)) h n \<le> u64_max" "refund \<le> nat i64_max"
    using T D(3) by (auto simp: refund_def)
  note I = increase_exact[OF assms(1) this i]
  have "refund = sold - min sold (amount_paid_in r + fee_paid r)"
    using T(2) by (auto simp: refund_def sat_add_def min_def u64_max_def i64_max_def)
  then have total: "total_hotkey_alpha (st_alpha s') h n = ?T - min sold (amount_paid_in r + fee_paid r)"
    using I(2) D(3) T sold by (auto simp: res)
  have "total_hotkey_alpha (st_alpha s') h' m = total_hotkey_alpha (st_alpha s) h' m" if "h' \<noteq> h \<or> m \<noteq> n" for h' m
    using I(3)[OF that] D(4)[OF that] by (simp add: res total_hotkey_alpha_def)
  moreover have "st_pool s' = pool" using I(4) by (simp add: res)
  ultimately show ?thesis using D(1,2) r res(1) total by blast
qed

text \<open>Recycling and burning. Both take at least the requested alpha from the caller's stake and
  from the hotkey; recycling takes the same amount from the outstanding alpha of the subnet,
  burning leaves the reserves and the outstanding alpha alone.\<close>

theorem recycle_burn_exact:
  assumes "pool_fixed_ok (se_fixed env)" "alpha_inv (se_fixed env) (st_alpha s)"
    and "total_hotkey_alpha (st_alpha s) h n \<le> nat i64_max"
    and "do_recycle_alpha env (Signed c) h x n s = Inr s1" "do_burn_alpha env (Signed c) h x n s = Inr s2"
  shows "\<exists>y. x \<le> y \<and> y \<le> get_stake_for_hotkey_and_coldkey_on_subnet env h c n s \<and>
    total_hotkey_alpha (st_alpha s1) h n = total_hotkey_alpha (st_alpha s) h n - y \<and> st_alpha s2 = st_alpha s1 \<and>
    st_pool s1 = (st_pool s)\<lparr>SubnetAlphaOut := (SubnetAlphaOut (st_pool s))(n := SubnetAlphaOut (st_pool s) n - y)\<rparr> \<and>
    st_pool s2 = st_pool s"
proof -
  obtain y t where d: "decrease_stake_for_hotkey_and_coldkey_on_subnet env h c n x s = (y, t)" by fastforce
  from assms(4) have x: "x \<le> get_stake_for_hotkey_and_coldkey_on_subnet env h c n s"
    by (simp add: do_recycle_alpha_def has_enough_stake_on_subnet_def)
  note D = decrease_exact[OF assms(1-3) x d]
  have keep: "st_pool t = st_pool s" using arg_cong[OF D(5), of st_pool] by simp
  have s1: "s1 = t\<lparr>st_pool := (st_pool s)\<lparr>SubnetAlphaOut := (SubnetAlphaOut (st_pool s))(n := SubnetAlphaOut (st_pool s) n - y)\<rparr>\<rparr>"
    and s2: "s2 = t" using assms(4,5) d keep by (auto simp: do_recycle_alpha_def do_burn_alpha_def)
  show ?thesis using D(1-3) keep by (intro exI[of _ y]) (simp add: s1 s2)
qed

text \<open>A move that unstakes less than the minimum stake keeps the TAO: when the amount that the
  limit price allows is worth less than \<open>DefaultMinStake\<close>, the state after the move is the state
  right after unstaking. What was paid out is neither staked on the destination nor credited to a
  coldkey.\<close>

theorem small_move_not_credited:
  assumes "transition_stake_internal env c d h h' n m x l p t s = Inr (tao, s')" "tao < DefaultMinStake"
  shows "\<exists>moved \<le> x. unstake_from_subnet env h c n moved (min_price env) s = (Inr tao, s')"
proof -
  from assms(1) obtain mx where mx: "(case l of Some limit \<Rightarrow> get_max_amount_move env n m limit (st_pool s) | None \<Rightarrow> Inr x) = Inr mx"
    by (auto simp: transition_stake_internal_def)
  from assms(1) obtain y s1 where u: "unstake_from_subnet env h c n (if x < mx then x else mx) (min_price env) s = (Inr y, s1)"
    unfolding transition_stake_internal_def mx by (auto simp del: if_split)
  from assms(1) have "unstake_from_subnet env h c n (if x < mx then x else mx) (min_price env) s = (Inr tao, s')"
    unfolding transition_stake_internal_def mx using u assms(2) by (cases "DefaultMinStake \<le> y") (auto simp: Let_def committed_def)
  moreover have "(if x < mx then x else mx) \<le> x" by simp
  ultimately show ?thesis by blast
qed

section \<open>Samples\<close>

text \<open>A market maker that swaps one to one without a fee and executes at most 100 under a limit; the
  world is the balances of the coldkeys.\<close>

definition even_swap :: "nat \<Rightarrow> swap_result" where
  "even_swap x = \<lparr>amount_paid_in = x, amount_paid_out = x, fee_paid = 0, tao_reserve_delta = int x, alpha_reserve_delta = int x\<rparr>"

definition sample_staking_env :: "('u, 'i) pool_fixed \<Rightarrow> 'v ufixed \<Rightarrow> (nat, 'u, 'i, 'v, nat \<Rightarrow> nat) staking_env" where
  "sample_staking_env fx px = \<lparr>env_block = 7, reducible_balance = (\<lambda>w a. w a), can_withdraw = (\<lambda>w a x. x \<le> w a),
     env_withdraw = (\<lambda>a x w. if x \<le> w a then Some (x, w(a := w a - x)) else None),
     env_deposit = (\<lambda>a x w. w(a := w a + x)),
     env_swap = (\<lambda>n ot x l rb pool. Inr (even_swap (if rb then 100 else x), amm pool)),
     max_price = u64_max, block_hash = (\<lambda>_. []), keccak_256 = (\<lambda>x. x), sha2_256 = (\<lambda>x. x), encode_account = (\<lambda>_. []),
     sim_swap = (\<lambda>n ot x pool. Inr (even_swap x)), approx_fee_amount = (\<lambda>n x pool. 0),
     current_alpha_price = (\<lambda>n pool. of_u64 px 1), min_price = 0, default_take = 0, default_account = 0,
     se_fixed = fx, se_price = px, se_sum = (\<lambda>xs. of_u64 px 0)\<rparr>"

definition sample_subnet_pool :: "(nat \<Rightarrow> nat) subnet_pool" where
  "sample_subnet_pool = \<lparr>SubnetMechanism = (\<lambda>n. if n = 0 then 0 else 1), SubnetTAO = (\<lambda>_. 1000000), SubnetTaoProvided = (\<lambda>_. 0),
     SubnetAlphaIn = (\<lambda>_. 1000000), SubnetAlphaInProvided = (\<lambda>_. 0), SubnetAlphaOut = (\<lambda>_. 1000000),
     SubnetVolume = (\<lambda>_. 0), TotalStake = 5000000, amm = (\<lambda>_. 1000000)\<rparr>"

definition sample_staking :: "(nat, 'u) alpha_state \<Rightarrow> (nat, 'u, nat \<Rightarrow> nat) staking_state" where
  "sample_staking pools = \<lparr>st_accounts = \<lparr>Owner = [5 \<mapsto> 10], OwnedHotkeys = (\<lambda>_. []), StakingHotkeys = (\<lambda>_. [])\<rparr>,
     st_pool = sample_subnet_pool, st_alpha = pools, st_Delegates = Map.empty, LastColdkeyHotkeyStakeBlock = (\<lambda>_ _. None),
     SubtokenEnabled = (\<lambda>_. True), TransferToggle = (\<lambda>_. True), st_NetworksAdded = [(0, True), (2, True)],
     NominatorMinRequiredStake = 0, st_StakeThreshold = 0, st_PendingChildKeys = (\<lambda>_ _. None)\<rparr>"

text \<open>Whole numbers, for runs in which the fraction does not matter.\<close>

definition whole_fixed :: "(nat, int) pool_fixed" where
  "whole_fixed = \<lparr>fbits = (\<lambda>x. x), of_u64 = (\<lambda>x. x), f_add = (+), f_sub = (-), f_mul = (*),
     f_div = (\<lambda>x y. if y = 0 then None else Some (x div y)), to_u64 = (\<lambda>x. x), u_of_i64 = nat, u_of_i = nat, i_of_i64 = (\<lambda>x. x),
     i_of_u = int, i_div = (\<lambda>x y. if y = 0 then None else Some (trunc_div x y)), i_mul = (*), i_neg = uminus, i_bits = (\<lambda>x. x),
     u_hundred_thousandth = 0\<rparr>"

definition million_alpha :: "(nat, nat) alpha_state" where
  "million_alpha = \<lparr>Alpha = (\<lambda>h c n. if h = 5 \<and> c = 10 \<and> n = 0 then Some 1000000 else None),
     TotalHotkeyAlpha = (\<lambda>h n. if h = 5 \<and> n = 0 then Some 1000000 else None),
     TotalHotkeyShares = (\<lambda>h n. if h = 5 \<and> n = 0 then Some 1000000 else None)\<rparr>"

abbreviation whole_env :: "(nat, nat, int, nat, nat \<Rightarrow> nat) staking_env" where
  "whole_env \<equiv> sample_staking_env whole_fixed (ufixed.truncate whole_fixed)"

abbreviation bits_env :: "(nat, nat, int, nat, nat \<Rightarrow> nat) staking_env" where
  "bits_env \<equiv> sample_staking_env bits_fixed (ufixed.truncate bits_fixed)"

lemma million_value:
  "get_stake_for_hotkey_and_coldkey_on_subnet whole_env 5 10 0 (sample_staking million_alpha) = 1000000"
  by (simp add: get_stake_for_hotkey_and_coldkey_on_subnet_def try_get_value_def get_value_def hotkey_alpha_ops_def
      sample_staking_def million_alpha_def sample_staking_env_def whole_fixed_def total_hotkey_alpha_def
      total_hotkey_shares_def get_alpha_def)

lemma move_limit: "get_max_amount_move whole_env 0 2 3 sample_subnet_pool = Inr 100"
  by (simp add: get_max_amount_move_def get_max_amount_add_def is_root_def root_netuid_def sample_subnet_pool_def
      sample_staking_env_def whole_fixed_def even_swap_def sat_add_def u64_max_def Let_def)

lemma unstake_100:
  "\<exists>s1. unstake_from_subnet whole_env 5 10 0 100 0 (sample_staking million_alpha) = (Inr 100, s1) \<and> amm (st_pool s1) 10 = 1000000"
proof -
  have v: "try_get_value whole_fixed (hotkey_alpha_ops whole_fixed 5 0) 10 million_alpha = Some 1000000"
    by (simp add: try_get_value_def get_value_def hotkey_alpha_ops_def million_alpha_def whole_fixed_def
        total_hotkey_alpha_def total_hotkey_shares_def get_alpha_def)
  have "fst (update_value_for_one whole_fixed (hotkey_alpha_ops whole_fixed 5 0) 10 (-100) million_alpha) = -100"
    by (simp add: update_value_for_one_def get_shares_per_update_def hotkey_alpha_ops_def million_alpha_def whole_fixed_def
        total_hotkey_alpha_def total_hotkey_shares_def get_alpha_def f_safe_div_def trunc_div_def Let_def)
  then obtain p where u: "update_value_for_one whole_fixed (hotkey_alpha_ops whole_fixed 5 0) 10 (-100) million_alpha = (-100, p)"
    by (metis prod.collapse)
  have f: "se_fixed whole_env = whole_fixed" "st_alpha (sample_staking million_alpha) = million_alpha"
    by (simp_all add: sample_staking_env_def sample_staking_def)
  have "decrease_stake_for_hotkey_and_coldkey_on_subnet whole_env 5 10 0 100 (sample_staking million_alpha) =
      (100, (sample_staking million_alpha)\<lparr>st_alpha := p\<rparr>)"
    by (simp add: decrease_stake_for_hotkey_and_coldkey_on_subnet_def f v u Let_def as_i64_def i64_neg_def i64_max_def i64_min_def)
  then show ?thesis
    by (simp add: unstake_from_subnet_def swap_alpha_for_tao_def sample_staking_def sample_subnet_pool_def sat_add_def
        u64_max_def Let_def)
qed

lemma small_move_validates:
  "validate_stake_transition whole_env 10 10 5 5 0 2 1000000 100 (Some True) False (sample_staking million_alpha) = Inr ()"
proof -
  have "if_subnet_exist (sample_staking million_alpha) 0" "if_subnet_exist (sample_staking million_alpha) 2"
    "SubtokenEnabled (sample_staking million_alpha) = (\<lambda>_. True)" "hotkey_account_exists (st_accounts (sample_staking million_alpha)) 5"
    "sim_swap whole_env 0 Sell 1000000 (st_pool (sample_staking million_alpha)) = Inr (even_swap 1000000)"
    "amount_paid_out (even_swap 1000000) > DefaultMinStake"
    by (simp_all add: if_subnet_exist_def hotkey_account_exists_def sample_staking_def sample_staking_env_def even_swap_def
        DefaultMinStake_def)
  then show ?thesis by (simp add: validate_stake_transition_def million_value)
qed

theorem small_move_not_credited_witness:
  "\<exists>s' moved. transition_stake_internal whole_env 10 10 5 5 0 2 1000000 (Some 3) (Some True) False (sample_staking million_alpha) =
      Inr (100, s') \<and> unstake_from_subnet whole_env 5 10 0 moved 0 (sample_staking million_alpha) = (Inr 100, s') \<and>
    amm (st_pool s') 10 = 1000000"
proof -
  let ?s = "sample_staking million_alpha"
  have f: "st_pool ?s = sample_subnet_pool" "min_price whole_env = 0" by (simp_all add: sample_staking_def sample_staking_env_def)
  from unstake_100 obtain s1 where u: "unstake_from_subnet whole_env 5 10 0 100 0 ?s = (Inr 100, s1)"
    "amm (st_pool s1) 10 = 1000000" by blast
  have run: "transition_stake_internal whole_env 10 10 5 5 0 2 1000000 (Some 3) (Some True) False ?s = Inr (100, s1)"
    by (simp add: transition_stake_internal_def f move_limit small_move_validates u committed_def DefaultMinStake_def Let_def)
  have "(100::nat) < DefaultMinStake" by (simp add: DefaultMinStake_def)
  from small_move_not_credited[OF run this] f(2)
  obtain moved where "unstake_from_subnet whole_env 5 10 0 moved 0 ?s = (Inr 100, s1)" by auto
  with run u(2) show ?thesis by blast
qed

lemma sample_add_validates:
  assumes "x \<ge> 500000" "x \<le> 1000000" "n \<in> {0, 2}"
    and "try_increase_stake_for_hotkey_and_coldkey_on_subnet (sample_staking_env fx px) 5 n x (sample_staking pools)"
  shows "validate_add_stake (sample_staking_env fx px) c 5 n x x False (sample_staking pools) = Inr ()"
proof -
  let ?s = "sample_staking pools" and ?e = "sample_staking_env fx px"
  have "if_subnet_exist ?s n" "SubtokenEnabled ?s n" "hotkey_account_exists (st_accounts ?s) 5"
    using assms(3) by (auto simp: if_subnet_exist_def hotkey_account_exists_def sample_staking_def)
  moreover have "sim_swap ?e m ot y pool = Inr (even_swap y)" for m ot y pool by (simp add: sample_staking_env_def)
  moreover have "can_remove_balance_from_coldkey_account ?e c x (amm (st_pool ?s))"
    using assms(2) by (simp add: can_remove_balance_from_coldkey_account_def sample_staking_env_def sample_staking_def sample_subnet_pool_def)
  ultimately show ?thesis
    using assms(1,4) by (simp add: validate_add_stake_def ensure_subtoken_enabled_def even_swap_def DefaultMinStake_def
        sat_add_def u64_max_def Let_def)
qed

lemma sample_add_stake:
  assumes "x \<ge> 500000" "x \<le> 1000000" "n \<in> {0, 2}"
    and "\<And>s. st_alpha s = pools \<Longrightarrow> try_increase_stake_for_hotkey_and_coldkey_on_subnet (sample_staking_env fx px) 5 n x s"
  shows "\<exists>s'. do_add_stake (sample_staking_env fx px) (Signed c) 5 n x (sample_staking pools) = Inr s'"
proof -
  let ?s = "sample_staking pools" and ?e = "sample_staking_env fx px"
  let ?w = "(amm sample_subnet_pool)(c := 1000000 - x)"
  have a: "st_alpha ?s = pools" "st_pool ?s = sample_subnet_pool" "SubtokenEnabled ?s n" by (simp_all add: sample_staking_def)
  have "withdraw_balance ?e c x ?s = Inr (x, ?s\<lparr>st_pool := sample_subnet_pool\<lparr>amm := ?w\<rparr>\<rparr>)"
    using assms(1,2) by (simp add: withdraw_balance_def remove_balance_from_coldkey_account_def a sample_staking_env_def
        sample_subnet_pool_def)
  moreover have "\<exists>r pool. swap_tao_for_alpha (env_swap ?e) n x (max_price ?e) (sample_subnet_pool\<lparr>amm := ?w\<rparr>) = Inr (r, pool) \<and>
      amount_paid_out r = x"
    using assms(3) by (auto simp: swap_tao_for_alpha_def sample_staking_env_def even_swap_def Let_def)
  then obtain r pool where "swap_tao_for_alpha (env_swap ?e) n x (max_price ?e) (sample_subnet_pool\<lparr>amm := ?w\<rparr>) = Inr (r, pool)"
    "amount_paid_out r = x" by blast
  then have "\<exists>y s'. stake_into_subnet ?e 5 c n x (max_price ?e) (?s\<lparr>st_pool := sample_subnet_pool\<lparr>amm := ?w\<rparr>\<rparr>) = Inr (y, s')"
    using assms(1) assms(4)[of "?s\<lparr>st_pool := pool\<rparr>"] a(1) by (auto simp: stake_into_subnet_def Let_def case_prod_unfold)
  ultimately show ?thesis
    using sample_add_validates[OF assms(1-3) assms(4)[OF a(1)], of c] a(3)
    by (auto simp: do_add_stake_def ensure_subtoken_enabled_def)
qed

theorem staking_changes_own_shares_witness:
  "\<exists>s'. staking_exec whole_env (Signed 11) (AddStake 5 0 600000) (sample_staking million_alpha) = Inr s' \<and>
    Alpha (st_alpha s') 5 10 0 = Some 1000000"
proof -
  let ?s = "sample_staking million_alpha"
  have "try_increase_stake_for_hotkey_and_coldkey_on_subnet whole_env 5 0 600000 s" if "st_alpha s = million_alpha" for s
    using that by (simp add: try_increase_stake_for_hotkey_and_coldkey_on_subnet_def sim_update_value_for_one_def
        get_shares_per_update_def hotkey_alpha_ops_def million_alpha_def sample_staking_env_def whole_fixed_def
        total_hotkey_alpha_def total_hotkey_shares_def as_i64_def i64_max_def trunc_div_def Let_def)
  then obtain s' where run: "do_add_stake whole_env (Signed 11) 5 0 600000 ?s = Inr s'"
    using sample_add_stake[of 600000 0 million_alpha whole_fixed _ 11] by auto
  then have "staking_exec whole_env (Signed 11) (AddStake 5 0 600000) ?s = Inr s'" by simp
  from staking_changes_own_shares[OF this] have "Alpha (st_alpha s') 5 10 0 = Alpha (st_alpha ?s) 5 10 0" by auto
  moreover have "Alpha (st_alpha ?s) 5 10 0 = Some 1000000" by (simp add: sample_staking_def million_alpha_def)
  ultimately show ?thesis using run by auto
qed

theorem add_stake_exact_witness:
  "\<exists>s'. do_add_stake bits_env (Signed 10) 5 2 600000 (sample_staking no_alpha) = Inr s' \<and> total_hotkey_alpha (st_alpha s') 5 2 = 600000"
proof -
  let ?s = "sample_staking no_alpha"
  have f: "se_fixed bits_env = bits_fixed" "st_alpha ?s = no_alpha" by (simp_all add: sample_staking_env_def sample_staking_def)
  have "try_increase_stake_for_hotkey_and_coldkey_on_subnet bits_env 5 2 600000 s" if "st_alpha s = no_alpha" for s
    using that by (simp add: try_increase_stake_for_hotkey_and_coldkey_on_subnet_def sim_update_value_for_one_def f
        hotkey_alpha_ops_def no_alpha_def total_hotkey_shares_def bits_fixed_simps Let_def)
  then obtain s' where run: "do_add_stake bits_env (Signed 10) 5 2 600000 ?s = Inr s'"
    using sample_add_stake[of 600000 2 no_alpha bits_fixed _ 10] by auto
  have inv: "alpha_inv (se_fixed bits_env) (st_alpha ?s)"
    unfolding f using alpha_pools.invar_initial[of no_alpha bits_fixed] bits_fixed_ok
    by (simp add: alpha_initial_def no_alpha_def)
  have ok: "pool_fixed_ok (se_fixed bits_env)" by (simp add: f bits_fixed_ok)
  from add_stake_exact[OF ok inv run] obtain paid w r pool where
    "remove_balance_from_coldkey_account bits_env 10 600000 (amm (st_pool ?s)) = Inr (paid, w)"
    "swap_tao_for_alpha (env_swap bits_env) 2 paid (max_price bits_env) ((st_pool ?s)\<lparr>amm := w\<rparr>) = Inr (r, pool)"
    and total: "amount_paid_out r \<le> nat i64_max \<longrightarrow>
      total_hotkey_alpha (st_alpha s') 5 2 = min u64_max (total_hotkey_alpha (st_alpha ?s) 5 2 + amount_paid_out r)"
    by (elim exE conjE) blast
  then have "paid = 600000" "amount_paid_out r = paid"
    by (auto simp: remove_balance_from_coldkey_account_def swap_tao_for_alpha_def sample_staking_env_def sample_staking_def
        sample_subnet_pool_def even_swap_def Let_def)
  with total have "total_hotkey_alpha (st_alpha s') 5 2 = 600000"
    unfolding f by (simp add: i64_max_def u64_max_def no_alpha_def total_hotkey_alpha_def)
  with run show ?thesis by blast
qed

lemma two_stakers_stake: "get_stake_for_hotkey_and_coldkey_on_subnet bits_env 5 10 2 (sample_staking two_stakers) = 300"
proof -
  have f: "se_fixed bits_env = bits_fixed" "st_alpha (sample_staking two_stakers) = two_stakers"
    by (simp_all add: sample_staking_env_def sample_staking_def)
  have d: "f_div bits_fixed (400 * 2 ^ 64) (400 * 2 ^ 64) = Some (2 ^ 64)" "f_mul bits_fixed (2 ^ 64) (300 * 2 ^ 64) = 300 * 2 ^ 64"
    "of_u64 bits_fixed 400 = 400 * 2 ^ 64"
    by (simp_all add: bits_fixed_def u128_max_def Let_def)
  have "get_value bits_fixed (hotkey_alpha_ops bits_fixed 5 2) 10 two_stakers = to_u64 bits_fixed (300 * 2 ^ 64)"
    by (simp only: get_value_def hotkey_alpha_ops_def total_hotkey_alpha_def total_hotkey_shares_def get_alpha_def
        two_stakers_fields option.case share_ops.select_convs Let_def d)
  also have "\<dots> = 300" by (simp add: bits_fixed_def u128_max_def u64_max_def)
  finally show ?thesis
    by (simp add: get_stake_for_hotkey_and_coldkey_on_subnet_def try_get_value_def f hotkey_alpha_ops_def two_stakers_fields)
qed

lemma two_stakers_ok:
  "pool_fixed_ok (se_fixed bits_env)" "alpha_inv (se_fixed bits_env) (st_alpha (sample_staking two_stakers))"
  "total_hotkey_alpha (st_alpha (sample_staking two_stakers)) 5 2 = 400"
proof -
  have f: "se_fixed bits_env = bits_fixed" "st_alpha (sample_staking two_stakers) = two_stakers"
    by (simp_all add: sample_staking_env_def sample_staking_def)
  show "pool_fixed_ok (se_fixed bits_env)" by (simp add: f bits_fixed_ok)
  have "alpha_initial no_alpha" by (simp add: alpha_initial_def no_alpha_def)
  then show "alpha_inv (se_fixed bits_env) (st_alpha (sample_staking two_stakers))"
    unfolding f using alpha_pools.reachable_invar[OF _ two_stakers_reachable] bits_fixed_ok by blast
  show "total_hotkey_alpha (st_alpha (sample_staking two_stakers)) 5 2 = 400"
    unfolding f by (simp add: total_hotkey_alpha_def two_stakers_fields)
qed

theorem unstake_exact_witness:
  "\<exists>tao s'. unstake_from_subnet bits_env 5 10 2 40 0 (sample_staking two_stakers) = (Inr tao, s') \<and>
    40 \<le> tao \<and> tao \<le> 300 \<and> total_hotkey_alpha (st_alpha s') 5 2 = 400 - tao"
proof -
  let ?s = "sample_staking two_stakers"
  have sw: "\<exists>pool'. swap_alpha_for_tao (env_swap bits_env) 2 x l pool = Inr (even_swap x, pool')" if "SubnetMechanism pool 2 = 1" for x l pool
    using that by (simp add: swap_alpha_for_tao_def sample_staking_env_def Let_def)
  have m: "SubnetMechanism (st_pool ?s) 2 = 1" by (simp add: sample_staking_def sample_subnet_pool_def)
  obtain y s1 where d: "decrease_stake_for_hotkey_and_coldkey_on_subnet bits_env 5 10 2 40 ?s = (y, s1)" by fastforce
  have "st_pool s1 = st_pool ?s"
    using d by (auto simp: decrease_stake_for_hotkey_and_coldkey_on_subnet_def case_prod_unfold Let_def)
  then obtain pool where "swap_alpha_for_tao (env_swap bits_env) 2 y 0 (st_pool s1) = Inr (even_swap y, pool)"
    using sw m by metis
  then have "\<exists>s'. unstake_from_subnet bits_env 5 10 2 40 0 ?s = (Inr y, s')"
    by (simp add: unstake_from_subnet_def d even_swap_def Let_def)
  then obtain s' where run: "unstake_from_subnet bits_env 5 10 2 40 0 ?s = (Inr y, s')" by blast
  have small: "total_hotkey_alpha (st_alpha ?s) 5 2 \<le> nat i64_max" "40 \<le> get_stake_for_hotkey_and_coldkey_on_subnet bits_env 5 10 2 ?s"
    unfolding two_stakers_ok(3) two_stakers_stake by (simp_all add: i64_max_def)
  from unstake_exact[OF two_stakers_ok(1,2) small run] obtain sold r pool where
    "40 \<le> sold" "sold \<le> 300" "swap_alpha_for_tao (env_swap bits_env) 2 sold 0 (st_pool ?s) = Inr (r, pool)" "y = amount_paid_out r"
    "total_hotkey_alpha (st_alpha s') 5 2 = 400 - min sold (amount_paid_in r + fee_paid r)"
    unfolding two_stakers_ok(3) two_stakers_stake by (elim exE conjE) blast
  moreover from this(3) sw[OF m, of sold 0] have "r = even_swap sold" by auto
  ultimately show ?thesis using run by (auto simp: even_swap_def)
qed

theorem recycle_burn_exact_witness:
  "\<exists>s1 s2 y. do_recycle_alpha bits_env (Signed 10) 5 40 2 (sample_staking two_stakers) = Inr s1 \<and>
    do_burn_alpha bits_env (Signed 10) 5 40 2 (sample_staking two_stakers) = Inr s2 \<and> 40 \<le> y \<and>
    SubnetAlphaOut (st_pool s1) 2 = 1000000 - y \<and> SubnetAlphaOut (st_pool s2) 2 = 1000000"
proof -
  let ?s = "sample_staking two_stakers"
  have g: "if_subnet_exist ?s 2" "SubtokenEnabled ?s 2" "hotkey_account_exists (st_accounts ?s) 5" "SubnetAlphaOut (st_pool ?s) 2 = 1000000"
    by (simp_all add: if_subnet_exist_def hotkey_account_exists_def sample_staking_def sample_subnet_pool_def)
  have "has_enough_stake_on_subnet bits_env 5 10 2 40 ?s" by (simp add: has_enough_stake_on_subnet_def two_stakers_stake)
  with g have "\<exists>s1. do_recycle_alpha bits_env (Signed 10) 5 40 2 ?s = Inr s1" "\<exists>s2. do_burn_alpha bits_env (Signed 10) 5 40 2 ?s = Inr s2"
    by (simp_all add: do_recycle_alpha_def do_burn_alpha_def ensure_subtoken_enabled_def is_root_def root_netuid_def case_prod_unfold Let_def)
  then obtain s1 s2 where run: "do_recycle_alpha bits_env (Signed 10) 5 40 2 ?s = Inr s1" "do_burn_alpha bits_env (Signed 10) 5 40 2 ?s = Inr s2"
    by blast
  have small: "total_hotkey_alpha (st_alpha ?s) 5 2 \<le> nat i64_max" unfolding two_stakers_ok(3) by (simp add: i64_max_def)
  from recycle_burn_exact[OF two_stakers_ok(1,2) small run] obtain y where "40 \<le> y"
    "st_pool s1 = (st_pool ?s)\<lparr>SubnetAlphaOut := (SubnetAlphaOut (st_pool ?s))(2 := SubnetAlphaOut (st_pool ?s) 2 - y)\<rparr>"
    "st_pool s2 = st_pool ?s" by (elim exE conjE) blast
  with g(4) run show ?thesis by (intro exI[of _ s1] exI[of _ s2] exI[of _ y]) simp
qed

end
