(* ===== verification/Key_Swap.thy ===== *)
theory Key_Swap
  imports Children Serving Weights Staking "HOL-Library.Product_Lexorder"
begin

text \<open>
  Swaps of keys (\<open>pallets/subtensor/src/swap/swap_hotkey.rs\<close>, \<open>swap_coldkey.rs\<close> and their calls in
  \<open>macros/dispatches.rs\<close>). A swap moves what the other components keep under a key to another key,
  so the state composes the slots, the children, the pools of the hotkeys and the accounts.
  \<open>SubnetOwnerHotkey\<close> is read by two components and written in both.

  Prefixes of \<open>Alpha\<close> are iterated in the order of hashed keys, which is the argument \<open>alpha_prefix\<close>. The
  senate, the scheduler and the currency are in the environment.
\<close>

section \<open>State\<close>

record ('a, 'u, 'h, 'd, 'w) key_state =
  ks_children :: "'a children_state"
  ks_neurons :: "'a neurons"
  ks_alpha :: "('a, 'u) alpha_state"
  ks_Prometheus :: "netuid \<Rightarrow> 'a \<Rightarrow> prometheus_info option"
  ks_WeightCommits :: "netuid \<Rightarrow> 'a \<Rightarrow> 'h weight_commit list option"
  LoadedEmission :: "netuid \<Rightarrow> ('a \<times> nat \<times> nat) list option"
  TotalHotkeyAlphaLastEpoch :: "'a \<Rightarrow> netuid \<Rightarrow> nat"
  AlphaDividendsPerSubnet :: "netuid \<Rightarrow> 'a \<Rightarrow> nat"
  TaoDividendsPerSubnet :: "netuid \<Rightarrow> 'a \<Rightarrow> nat"
  ks_Delegates :: "'a \<Rightarrow> nat option"
  SubnetOwner :: "netuid \<Rightarrow> 'a"
  IdentitiesV2 :: "'a \<Rightarrow> 'd option"
  ColdkeySwapScheduled :: "'a \<Rightarrow> (nat \<times> 'a) option"
  ColdkeySwapScheduleDuration :: nat
  ColdkeySwapRescheduleDuration :: nat
  LastHotkeySwapOnNetuid :: "netuid \<Rightarrow> 'a \<Rightarrow> nat"
  ks_NetworksAdded :: "(netuid \<times> bool) list"
  ks_TotalIssuance :: nat
  ks_world :: 'w

record ('a, 'u, 'x, 'w) key_env = "('a, 'w) registration_env" +
  ke_fixed :: "('u, 'x) pool_fixed"
  KeySwapCost :: nat
  KeySwapOnSubnetCost :: nat
  HotkeySwapOnSubnetInterval :: nat
  block_number_max :: nat
  alpha_prefix :: "('a, 'u) alpha_state \<Rightarrow> 'a \<Rightarrow> (('a \<times> netuid) \<times> 'u) list"
  senate_is_member :: "'a \<Rightarrow> 'w \<Rightarrow> bool"
  senate_swap_member :: "'a \<Rightarrow> 'a \<Rightarrow> 'w \<Rightarrow> (subtensor_error, 'w) result"
  withdraw_force :: "'a \<Rightarrow> nat \<Rightarrow> 'w \<Rightarrow> (nat \<times> 'w) option"
  schedule_swap :: "nat \<Rightarrow> 'a \<Rightarrow> 'a \<Rightarrow> nat \<Rightarrow> 'w \<Rightarrow> 'w option"

abbreviation ks_accounts :: "('a, 'u, 'h, 'd, 'w) key_state \<Rightarrow> 'a accounts" where
  "ks_accounts s \<equiv> ch_accounts (ks_children s)"

abbreviation ks_limits :: "('a, 'u, 'h, 'd, 'w) key_state \<Rightarrow> 'a rate_limits" where
  "ks_limits s \<equiv> ch_limits (ks_children s)"

definition set_ks_accounts :: "'a accounts \<Rightarrow> ('a, 'u, 'h, 'd, 'w) key_state \<Rightarrow> ('a, 'u, 'h, 'd, 'w) key_state" where
  "set_ks_accounts acc s = s\<lparr>ks_children := (ks_children s)\<lparr>ch_accounts := acc\<rparr>\<rparr>"

definition set_ks_limits :: "'a rate_limits \<Rightarrow> ('a, 'u, 'h, 'd, 'w) key_state \<Rightarrow> ('a, 'u, 'h, 'd, 'w) key_state" where
  "set_ks_limits lim s = s\<lparr>ks_children := (ks_children s)\<lparr>ch_limits := lim\<rparr>\<rparr>"

text \<open>\<open>if let Ok(v) = try_get(old) { remove(old); insert(new, v) }\<close>\<close>

definition move_entry :: "'k \<Rightarrow> 'k \<Rightarrow> ('k \<Rightarrow> 'v option) \<Rightarrow> 'k \<Rightarrow> 'v option" where
  "move_entry old new m = (case m old of None \<Rightarrow> m | Some v \<Rightarrow> m(old := None, new := Some v))"

definition rename_key :: "'k \<Rightarrow> 'k \<Rightarrow> 'k \<Rightarrow> 'k" where
  "rename_key old new k = (if k = old then new else k)"

section \<open>The swap on one subnet\<close>

text \<open>Steps 1 and 2: the totals of the pool.\<close>

definition swap_totals :: "('u, 'z) ufixed_scheme \<Rightarrow> 'a \<Rightarrow> 'a \<Rightarrow> netuid \<Rightarrow> ('a, 'u) alpha_state \<Rightarrow> ('a, 'u) alpha_state" where
  "swap_totals fx old_hotkey new_hotkey n al =
     (let alpha = total_hotkey_alpha al old_hotkey n;
          al = al\<lparr>TotalHotkeyAlpha := (TotalHotkeyAlpha al)(old_hotkey := (TotalHotkeyAlpha al old_hotkey)(n := None))\<rparr>;
          al = al\<lparr>TotalHotkeyAlpha := (TotalHotkeyAlpha al)(new_hotkey := (TotalHotkeyAlpha al new_hotkey)
                (n \<mapsto> sat_add u64_max (total_hotkey_alpha al new_hotkey n) alpha))\<rparr>;
          share = total_hotkey_shares fx al old_hotkey n;
          al = al\<lparr>TotalHotkeyShares := (TotalHotkeyShares al)(old_hotkey := (TotalHotkeyShares al old_hotkey)(n := None))\<rparr>
      in al\<lparr>TotalHotkeyShares := (TotalHotkeyShares al)(new_hotkey := (TotalHotkeyShares al new_hotkey)
              (n \<mapsto> f_add fx (total_hotkey_shares fx al new_hotkey n) share))\<rparr>)"

text \<open>Steps 3.1, 3.2, 3.4, 3.7 and 7: the slot of the neuron, with what is kept under its hotkey.\<close>

definition is_network_member :: "'a neurons \<Rightarrow> 'a \<Rightarrow> netuid \<Rightarrow> bool" where
  "is_network_member ns hotkey n = (case IsNetworkMember ns hotkey n of None \<Rightarrow> False | Some b \<Rightarrow> b)"

definition swap_slot :: "'a \<Rightarrow> 'a \<Rightarrow> netuid \<Rightarrow> 'a neurons \<Rightarrow> 'a neurons" where
  "swap_slot old_hotkey new_hotkey n ns =
     (let member = is_network_member ns old_hotkey n;
          ns = ns\<lparr>IsNetworkMember := (IsNetworkMember ns)(old_hotkey := (IsNetworkMember ns old_hotkey)(n := None))\<rparr>;
          ns = ns\<lparr>IsNetworkMember := (IsNetworkMember ns)(new_hotkey := (IsNetworkMember ns new_hotkey)(n \<mapsto> member))\<rparr>;
          ns = (if member
                then case Uids ns n old_hotkey of
                       None \<Rightarrow> ns
                     | Some old_uid \<Rightarrow>
                         ns\<lparr>Uids := (Uids ns)(n := (Uids ns n)(old_hotkey := None, new_hotkey \<mapsto> old_uid)),
                            Keys := (Keys ns)(n := (Keys ns n)(old_uid \<mapsto> new_hotkey))\<rparr>
                else ns);
          ns = (if member
                then ns\<lparr>Axons := (Axons ns)(n := move_entry old_hotkey new_hotkey (Axons ns n)),
                        NeuronCertificates := (NeuronCertificates ns)
                          (n := move_entry old_hotkey new_hotkey (NeuronCertificates ns n))\<rparr>
                else ns)
      in if SubnetOwnerHotkey ns n = Some old_hotkey
         then ns\<lparr>SubnetOwnerHotkey := (SubnetOwnerHotkey ns)(n \<mapsto> new_hotkey)\<rparr> else ns)"

text \<open>Steps 4 to 6: the children, the parents and the pending children.\<close>

definition rename_keys :: "'a \<Rightarrow> 'a \<Rightarrow> (nat \<times> 'a) list \<Rightarrow> (nat \<times> 'a) list" where
  "rename_keys old_hotkey new_hotkey = map (\<lambda>(p, k). (p, rename_key old_hotkey new_hotkey k))"

definition rename_in_parents :: "'a \<Rightarrow> 'a \<Rightarrow> netuid \<Rightarrow> nat \<times> 'a \<Rightarrow> 'a children_state \<Rightarrow> 'a children_state" where
  "rename_in_parents old_hotkey new_hotkey n child s =
     s\<lparr>ParentKeys := (ParentKeys s)(snd child := (ParentKeys s (snd child))
        (n := rename_keys old_hotkey new_hotkey (ParentKeys s (snd child) n)))\<rparr>"

definition rename_in_children :: "'a \<Rightarrow> 'a \<Rightarrow> netuid \<Rightarrow> nat \<times> 'a \<Rightarrow> 'a children_state \<Rightarrow> 'a children_state" where
  "rename_in_children old_hotkey new_hotkey n parent s =
     s\<lparr>ChildKeys := (ChildKeys s)(snd parent := (ChildKeys s (snd parent))
        (n := rename_keys old_hotkey new_hotkey (ChildKeys s (snd parent) n)))\<rparr>"

definition swap_child_keys :: "'a \<Rightarrow> 'a \<Rightarrow> netuid \<Rightarrow> 'a children_state \<Rightarrow> 'a children_state" where
  "swap_child_keys old_hotkey new_hotkey n s =
     (let my_children = ChildKeys s old_hotkey n;
          s = s\<lparr>ChildKeys := (ChildKeys s)(old_hotkey := (ChildKeys s old_hotkey)(n := []))\<rparr>;
          s = s\<lparr>ChildKeys := (ChildKeys s)(new_hotkey := (ChildKeys s new_hotkey)(n := my_children))\<rparr>
      in fold (rename_in_parents old_hotkey new_hotkey n) my_children s)"

definition swap_parent_keys :: "'a \<Rightarrow> 'a \<Rightarrow> netuid \<Rightarrow> 'a children_state \<Rightarrow> 'a children_state" where
  "swap_parent_keys old_hotkey new_hotkey n s =
     (let parents = ParentKeys s old_hotkey n;
          s = s\<lparr>ParentKeys := (ParentKeys s)(old_hotkey := (ParentKeys s old_hotkey)(n := []))\<rparr>;
          s = s\<lparr>ParentKeys := (ParentKeys s)(new_hotkey := (ParentKeys s new_hotkey)(n := parents))\<rparr>
      in fold (rename_in_children old_hotkey new_hotkey n) parents s)"

text \<open>The first entry of the old hotkey is removed and put at the end under the new one.\<close>

definition replace_child :: "'a \<Rightarrow> 'a \<Rightarrow> (nat \<times> 'a) list \<Rightarrow> (nat \<times> 'a) list option" where
  "replace_child old_hotkey new_hotkey children =
     (case dropWhile (\<lambda>e. snd e \<noteq> old_hotkey) children of
        [] \<Rightarrow> None
      | e # rest \<Rightarrow> Some (takeWhile (\<lambda>e. snd e \<noteq> old_hotkey) children @ rest @ [(fst e, new_hotkey)]))"

definition swap_pending_entry ::
    "'a::linorder \<Rightarrow> 'a \<Rightarrow> netuid \<Rightarrow> 'a \<times> (nat \<times> 'a) list \<times> nat \<Rightarrow> 'a children_state \<Rightarrow> 'a children_state" where
  "swap_pending_entry old_hotkey new_hotkey n entry s =
     (let (hotkey, children, cool_down_block) = entry
      in case replace_child old_hotkey new_hotkey children of
           None \<Rightarrow> s
         | Some new_children \<Rightarrow> s\<lparr>PendingChildKeys := (PendingChildKeys s)(n :=
             smap_put hotkey (new_children, cool_down_block) (smap_del hotkey (PendingChildKeys s n)))\<rparr>)"

definition swap_pending_keys :: "'a::linorder \<Rightarrow> 'a \<Rightarrow> netuid \<Rightarrow> 'a children_state \<Rightarrow> 'a children_state" where
  "swap_pending_keys old_hotkey new_hotkey n s =
     (let s = (case map_of (PendingChildKeys s n) old_hotkey of
                 None \<Rightarrow> s
               | Some pending \<Rightarrow> s\<lparr>PendingChildKeys := (PendingChildKeys s)(n :=
                   smap_put new_hotkey pending (smap_del old_hotkey (PendingChildKeys s n)))\<rparr>)
      in fold (swap_pending_entry old_hotkey new_hotkey n) (PendingChildKeys s n) s)"

definition swap_family :: "'a::linorder \<Rightarrow> 'a \<Rightarrow> netuid \<Rightarrow> 'a children_state \<Rightarrow> 'a children_state" where
  "swap_family old_hotkey new_hotkey n s =
     (let s = swap_child_keys old_hotkey new_hotkey n s;
          s = swap_parent_keys old_hotkey new_hotkey n s;
          s = swap_pending_keys old_hotkey new_hotkey n s
      in if ch_SubnetOwnerHotkey s n = Some old_hotkey
         then s\<lparr>ch_SubnetOwnerHotkey := (ch_SubnetOwnerHotkey s)(n \<mapsto> new_hotkey)\<rparr> else s)"

text \<open>Step 9: the shares of every coldkey.\<close>

definition move_alpha ::
    "('u, 'z) ufixed_scheme \<Rightarrow> 'a \<Rightarrow> 'a \<Rightarrow> netuid \<Rightarrow> ('a \<times> netuid) \<times> 'u \<Rightarrow> ('a, 'u) alpha_state \<times> 'a accounts \<Rightarrow>
     ('a, 'u) alpha_state \<times> 'a accounts" where
  "move_alpha fx old_hotkey new_hotkey n entry st =
     (let ((coldkey, netuid_alpha), alpha) = entry; (al, acc) = st in
      if n = netuid_alpha
      then let new_alpha = get_alpha fx al new_hotkey coldkey n;
               al = al\<lparr>Alpha := (Alpha al)(new_hotkey := (Alpha al new_hotkey)(coldkey := (Alpha al new_hotkey coldkey)(n := None)))\<rparr>;
               al = al\<lparr>Alpha := (Alpha al)(old_hotkey := (Alpha al old_hotkey)(coldkey := (Alpha al old_hotkey coldkey)(n := None)))\<rparr>;
               al = al\<lparr>Alpha := (Alpha al)(new_hotkey := (Alpha al new_hotkey)(coldkey := (Alpha al new_hotkey coldkey)
                     (n \<mapsto> f_add fx alpha new_alpha)))\<rparr>;
               staking_hotkeys = StakingHotkeys acc coldkey
           in (al, if old_hotkey \<in> set staking_hotkeys \<and> new_hotkey \<notin> set staking_hotkeys
                   then acc\<lparr>StakingHotkeys := (StakingHotkeys acc)(coldkey := staking_hotkeys @ [new_hotkey])\<rparr> else acc)
      else (al, acc))"

definition perform_hotkey_swap_on_one_subnet ::
    "('a::linorder, 'u, 'x, 'w) key_env \<Rightarrow> 'a \<Rightarrow> 'a \<Rightarrow> netuid \<Rightarrow> ('a, 'u, 'h, 'd, 'w) key_state \<Rightarrow>
     ('a, 'u, 'h, 'd, 'w) key_state" where
  "perform_hotkey_swap_on_one_subnet env old_hotkey new_hotkey n s =
     (let fx = ke_fixed env;
          s = s\<lparr>ks_alpha := swap_totals fx old_hotkey new_hotkey n (ks_alpha s)\<rparr>;
          member = is_network_member (ks_neurons s) old_hotkey n;
          s = s\<lparr>ks_neurons := swap_slot old_hotkey new_hotkey n (ks_neurons s)\<rparr>;
          s = (if member
               then s\<lparr>ks_Prometheus := (ks_Prometheus s)(n := move_entry old_hotkey new_hotkey (ks_Prometheus s n)),
                      ks_WeightCommits := (ks_WeightCommits s)(n := move_entry old_hotkey new_hotkey (ks_WeightCommits s n)),
                      LoadedEmission := (LoadedEmission s)(n := map_option
                        (map (\<lambda>(h, e). (rename_key old_hotkey new_hotkey h, e))) (LoadedEmission s n))\<rparr>
               else s);
          s = s\<lparr>ks_children := swap_family old_hotkey new_hotkey n (ks_children s)\<rparr>;
          old_alpha = TotalHotkeyAlphaLastEpoch s old_hotkey n;
          s = s\<lparr>TotalHotkeyAlphaLastEpoch := (TotalHotkeyAlphaLastEpoch s)
                (old_hotkey := (TotalHotkeyAlphaLastEpoch s old_hotkey)(n := 0))\<rparr>;
          new_total_hotkey_alpha = TotalHotkeyAlphaLastEpoch s new_hotkey n;
          s = s\<lparr>TotalHotkeyAlphaLastEpoch := (TotalHotkeyAlphaLastEpoch s)
                (new_hotkey := (TotalHotkeyAlphaLastEpoch s new_hotkey)(n := sat_add u64_max old_alpha new_total_hotkey_alpha))\<rparr>;
          old_alpha_dividends = AlphaDividendsPerSubnet s n old_hotkey;
          new_alpha_dividends = AlphaDividendsPerSubnet s n new_hotkey;
          s = s\<lparr>AlphaDividendsPerSubnet := (AlphaDividendsPerSubnet s)(n := (AlphaDividendsPerSubnet s n)
                (old_hotkey := 0, new_hotkey := sat_add u64_max old_alpha_dividends new_alpha_dividends))\<rparr>;
          old_tao_dividends = TaoDividendsPerSubnet s n old_hotkey;
          new_tao_dividends = TaoDividendsPerSubnet s n new_hotkey;
          s = s\<lparr>TaoDividendsPerSubnet := (TaoDividendsPerSubnet s)(n := (TaoDividendsPerSubnet s n)
                (old_hotkey := 0, new_hotkey := sat_add u64_max old_tao_dividends new_tao_dividends))\<rparr>;
          (al, acc) = fold (move_alpha fx old_hotkey new_hotkey n) (alpha_prefix env (ks_alpha s) old_hotkey)
                        (ks_alpha s, ks_accounts s)
      in set_ks_accounts acc (s\<lparr>ks_alpha := al\<rparr>))"

section \<open>Calls: hotkeys\<close>

definition burn_tokens :: "nat \<Rightarrow> ('a, 'u, 'h, 'd, 'w) key_state \<Rightarrow> ('a, 'u, 'h, 'd, 'w) key_state" where
  "burn_tokens amount s = s\<lparr>ks_TotalIssuance := ks_TotalIssuance s - amount\<rparr>"

definition set_last_tx_block :: "'a \<Rightarrow> nat \<Rightarrow> 'a rate_limits \<Rightarrow> 'a rate_limits" where
  "set_last_tx_block key block s = s\<lparr>LastTxBlock := (LastTxBlock s)(key := block)\<rparr>"

definition get_last_tx_block :: "'a rate_limits \<Rightarrow> 'a \<Rightarrow> nat" where
  "get_last_tx_block s key = LastTxBlock s key"

definition ks_netuids :: "('a, 'u, 'h, 'd, 'w) key_state \<Rightarrow> netuid list" where
  "ks_netuids s = map fst (ks_NetworksAdded s)"

definition swap_senate_member :: "('a, 'u, 'x, 'w) key_env \<Rightarrow> 'a \<Rightarrow> 'a \<Rightarrow> 'w \<Rightarrow> (subtensor_error, 'w) result" where
  "swap_senate_member env old_hotkey new_hotkey w =
     (if senate_is_member env old_hotkey w then senate_swap_member env old_hotkey new_hotkey w else Inr w)"

definition swap_staking_hotkey :: "'a \<Rightarrow> 'a \<Rightarrow> ('a \<times> netuid) \<times> 'u \<Rightarrow> 'a accounts \<Rightarrow> 'a accounts" where
  "swap_staking_hotkey old_hotkey new_hotkey entry acc =
     (let coldkey = fst (fst entry);
          staking_hotkeys = StakingHotkeys acc coldkey in
      if old_hotkey \<in> set staking_hotkeys
      then let staking_hotkeys = filter (\<lambda>hk. hk \<noteq> old_hotkey \<and> hk \<noteq> new_hotkey) staking_hotkeys
           in acc\<lparr>StakingHotkeys := (StakingHotkeys acc)(coldkey := push_unique new_hotkey staking_hotkeys)\<rparr>
      else acc)"

text \<open>Steps 6 to 8: the blocks of the last transactions of the old hotkey.\<close>

definition drop_last_blocks :: "'a \<Rightarrow> 'a rate_limits \<Rightarrow> 'a rate_limits" where
  "drop_last_blocks old_hotkey lim =
     lim\<lparr>LastTxBlock := (LastTxBlock lim)(old_hotkey := 0),
         LastTxBlockDelegateTake := (LastTxBlockDelegateTake lim)(old_hotkey := 0),
         LastTxBlockChildKeyTake := (LastTxBlockChildKeyTake lim)(old_hotkey := 0)\<rparr>"

definition perform_hotkey_swap_on_all_subnets ::
    "('a::linorder, 'u, 'x, 'w) key_env \<Rightarrow> 'a \<Rightarrow> 'a \<Rightarrow> 'a \<Rightarrow> ('a, 'u, 'h, 'd, 'w) key_state \<Rightarrow>
     (subtensor_error, ('a, 'u, 'h, 'd, 'w) key_state) result" where
  "perform_hotkey_swap_on_all_subnets env old_hotkey new_hotkey coldkey s =
     (let old_alpha_values = alpha_prefix env (ks_alpha s) old_hotkey;
          acc = ks_accounts s;
          acc = acc\<lparr>Owner := (Owner acc)(old_hotkey := None, new_hotkey \<mapsto> coldkey)\<rparr>;
          hotkeys = push_unique new_hotkey (OwnedHotkeys acc coldkey);
          hotkeys = filter (\<lambda>hk. hk \<noteq> old_hotkey) hotkeys;
          acc = acc\<lparr>OwnedHotkeys := (OwnedHotkeys acc)(coldkey := hotkeys)\<rparr>;
          s = set_ks_accounts acc s;
          s = fold (perform_hotkey_swap_on_one_subnet env old_hotkey new_hotkey) (ks_netuids s) s;
          s = set_ks_limits (drop_last_blocks old_hotkey (ks_limits s)) s
      in and_then (if senate_is_member env old_hotkey (ks_world s)
                   then senate_swap_member env old_hotkey new_hotkey (ks_world s) else Inr (ks_world s)) (\<lambda>w.
         let s = s\<lparr>ks_world := w, ks_Delegates := move_entry old_hotkey new_hotkey (ks_Delegates s)\<rparr>
         in Inr (set_ks_accounts (fold (swap_staking_hotkey old_hotkey new_hotkey) old_alpha_values (ks_accounts s)) s)))"

text \<open>Withdrawal of the cost from the coldkey, burnt.\<close>

definition pay_swap_cost ::
    "('a, 'u, 'x, 'w) key_env \<Rightarrow> 'a \<Rightarrow> nat \<Rightarrow> subtensor_error \<Rightarrow> ('a, 'u, 'h, 'd, 'w) key_state \<Rightarrow>
     (subtensor_error, ('a, 'u, 'h, 'd, 'w) key_state) result" where
  "pay_swap_cost env coldkey swap_cost err s =
     ensure (can_remove_balance_from_coldkey_account env coldkey swap_cost (ks_world s)) err
    (and_then (remove_balance_from_coldkey_account env coldkey swap_cost (ks_world s)) (\<lambda>(actual_burn_amount, w).
     Inr (burn_tokens actual_burn_amount (s\<lparr>ks_world := w\<rparr>))))"

definition swap_hotkey_on_subnet ::
    "('a::linorder, 'u, 'x, 'w) key_env \<Rightarrow> 'a \<Rightarrow> 'a \<Rightarrow> 'a \<Rightarrow> netuid \<Rightarrow> ('a, 'u, 'h, 'd, 'w) key_state \<Rightarrow>
     (subtensor_error, ('a, 'u, 'h, 'd, 'w) key_state) result" where
  "swap_hotkey_on_subnet env coldkey old_hotkey new_hotkey n s =
     (let block = env_block env;
          last_hotkey_swap_block = LastHotkeySwapOnNetuid s n coldkey in
      ensure (sat_add u64_max last_hotkey_swap_block (HotkeySwapOnSubnetInterval env) < block) HotKeySwapOnSubnetIntervalNotPassed
     (ensure (\<not> is_hotkey_registered_on_specific_network (ks_neurons s) new_hotkey n) HotKeyAlreadyRegisteredInSubNet
     (and_then (pay_swap_cost env coldkey (KeySwapOnSubnetCost env) NotEnoughBalanceToPaySwapHotKey s) (\<lambda>s.
      let acc = ks_accounts s;
          acc = acc\<lparr>Owner := (Owner acc)(new_hotkey \<mapsto> coldkey)\<rparr>;
          acc = acc\<lparr>OwnedHotkeys := (OwnedHotkeys acc)(coldkey := push_unique new_hotkey (OwnedHotkeys acc coldkey))\<rparr>;
          s = set_ks_accounts acc s;
          s = perform_hotkey_swap_on_one_subnet env old_hotkey new_hotkey n s;
          s = set_ks_limits (set_last_tx_block coldkey block (ks_limits s)) s
      in Inr (s\<lparr>LastHotkeySwapOnNetuid := (LastHotkeySwapOnNetuid s)(n := (LastHotkeySwapOnNetuid s n)(coldkey := block))\<rparr>)))))"

text \<open>Steps 8 to 10 of \<open>do_swap_hotkey\<close>.\<close>

definition copy_last_blocks :: "'a \<Rightarrow> 'a \<Rightarrow> 'a rate_limits \<Rightarrow> 'a rate_limits" where
  "copy_last_blocks old_hotkey new_hotkey lim =
     lim\<lparr>LastTxBlock := (LastTxBlock lim)(new_hotkey := LastTxBlock lim old_hotkey),
         LastTxBlockDelegateTake := (LastTxBlockDelegateTake lim)(new_hotkey := LastTxBlockDelegateTake lim old_hotkey),
         LastTxBlockChildKeyTake := (LastTxBlockChildKeyTake lim)(new_hotkey := LastTxBlockChildKeyTake lim old_hotkey)\<rparr>"

definition do_swap_hotkey ::
    "('a::linorder, 'u, 'x, 'w) key_env \<Rightarrow> 'a origin \<Rightarrow> 'a \<Rightarrow> 'a \<Rightarrow> netuid option \<Rightarrow> ('a, 'u, 'h, 'd, 'w) key_state \<Rightarrow>
     (subtensor_error, ('a, 'u, 'h, 'd, 'w) key_state) result" where
  "do_swap_hotkey env og old_hotkey new_hotkey netuid s =
     and_then (ensure_signed BadOrigin og) (\<lambda>coldkey.
     ensure (coldkey_owns_hotkey (ks_accounts s) coldkey old_hotkey) NonAssociatedColdKey
    (ensure (old_hotkey \<noteq> new_hotkey) NewHotKeyIsSameWithOld
    (let block = env_block env in
     ensure (\<not> exceeds_tx_rate_limit (ks_limits s) (get_last_tx_block (ks_limits s) coldkey) block) HotKeySetTxRateLimitExceeded
    (ensure (\<not> is_hotkey_registered_on_any_network (ks_neurons s) new_hotkey) HotKeyAlreadyRegisteredInSubNet
    (let s = set_ks_limits (copy_last_blocks old_hotkey new_hotkey (ks_limits s)) s in
     case netuid of
       Some n \<Rightarrow> swap_hotkey_on_subnet env coldkey old_hotkey new_hotkey n s
     | None \<Rightarrow>
         and_then (pay_swap_cost env coldkey (KeySwapCost env) NotEnoughBalanceToPaySwapHotKey s) (\<lambda>s.
         and_then (perform_hotkey_swap_on_all_subnets env old_hotkey new_hotkey coldkey s) (\<lambda>s.
         Inr (set_ks_limits (set_last_tx_block coldkey block (ks_limits s)) s))))))))"

section \<open>Calls: coldkeys\<close>

text \<open>The balance of the old coldkey; the outcome with the currency, which the caller keeps.\<close>

definition kill_coldkey_account ::
    "('a, 'u, 'x, 'w) key_env \<Rightarrow> 'a \<Rightarrow> nat \<Rightarrow> 'w \<Rightarrow> (subtensor_error, nat) result \<times> 'w" where
  "kill_coldkey_account env coldkey amount w =
     (if amount = 0 then (Inr 0, w)
      else case withdraw_force env coldkey amount w of
             None \<Rightarrow> (Inl BalanceWithdrawalError, w)
           | Some (credit, w) \<Rightarrow> (ensure (credit \<noteq> 0) ZeroBalanceAfterWithdrawn (Inr credit), w))"

definition swap_subnet_owner ::
    "'a \<Rightarrow> 'a \<Rightarrow> netuid \<Rightarrow> ('a, 'u, 'h, 'd, 'w) key_state \<Rightarrow> ('a, 'u, 'h, 'd, 'w) key_state" where
  "swap_subnet_owner old_coldkey new_coldkey n s =
     (if SubnetOwner s n = old_coldkey then s\<lparr>SubnetOwner := (SubnetOwner s)(n := new_coldkey)\<rparr> else s)"

definition swap_coldkey_alpha ::
    "('u, 'z) ufixed_scheme \<Rightarrow> 'a \<Rightarrow> 'a \<Rightarrow> 'a \<Rightarrow> netuid \<Rightarrow> ('a, 'u) alpha_state \<Rightarrow> ('a, 'u) alpha_state" where
  "swap_coldkey_alpha fx old_coldkey new_coldkey hotkey n al =
     (let old_alpha = get_alpha fx al hotkey old_coldkey n;
          new_alpha = get_alpha fx al hotkey new_coldkey n;
          al = al\<lparr>Alpha := (Alpha al)(hotkey := (Alpha al hotkey)(new_coldkey := (Alpha al hotkey new_coldkey)
                (n \<mapsto> f_add fx new_alpha old_alpha)))\<rparr>
      in al\<lparr>Alpha := (Alpha al)(hotkey := (Alpha al hotkey)(old_coldkey := (Alpha al hotkey old_coldkey)(n := None)))\<rparr>)"

definition swap_coldkey_accounts :: "'a \<Rightarrow> 'a \<Rightarrow> 'a accounts \<Rightarrow> 'a accounts" where
  "swap_coldkey_accounts old_coldkey new_coldkey acc =
     (let new_staking_hotkeys = fold push_unique (StakingHotkeys acc old_coldkey) (StakingHotkeys acc new_coldkey);
          acc = acc\<lparr>StakingHotkeys := (StakingHotkeys acc)(old_coldkey := [])\<rparr>;
          acc = acc\<lparr>StakingHotkeys := (StakingHotkeys acc)(new_coldkey := new_staking_hotkeys)\<rparr>;
          old_owned_hotkeys = OwnedHotkeys acc old_coldkey;
          new_owned_hotkeys = fold push_unique old_owned_hotkeys (OwnedHotkeys acc new_coldkey);
          acc = acc\<lparr>Owner := fold (\<lambda>owned_hotkey ow. ow(owned_hotkey \<mapsto> new_coldkey)) old_owned_hotkeys (Owner acc)\<rparr>;
          acc = acc\<lparr>OwnedHotkeys := (OwnedHotkeys acc)(old_coldkey := [])\<rparr>
      in acc\<lparr>OwnedHotkeys := (OwnedHotkeys acc)(new_coldkey := new_owned_hotkeys)\<rparr>)"

definition perform_swap_coldkey ::
    "('a, 'u, 'x, 'w) key_env \<Rightarrow> 'a \<Rightarrow> 'a \<Rightarrow> ('a, 'u, 'h, 'd, 'w) key_state \<Rightarrow>
     (subtensor_error, unit) result \<times> ('a, 'u, 'h, 'd, 'w) key_state" where
  "perform_swap_coldkey env old_coldkey new_coldkey s =
     (let s = fold (swap_subnet_owner old_coldkey new_coldkey) (ks_netuids s) s;
          s = s\<lparr>ks_alpha := fold (\<lambda>hotkey. fold (swap_coldkey_alpha (ke_fixed env) old_coldkey new_coldkey hotkey) (ks_netuids s))
                (StakingHotkeys (ks_accounts s) old_coldkey) (ks_alpha s)\<rparr>;
          s = set_ks_accounts (swap_coldkey_accounts old_coldkey new_coldkey (ks_accounts s)) s;
          remaining_balance = reducible_balance env (ks_world s) old_coldkey
      in if remaining_balance > 0
         then case kill_coldkey_account env old_coldkey remaining_balance (ks_world s) of
                (Inl e, w) \<Rightarrow> (Inl e, s\<lparr>ks_world := w\<rparr>)
              | (Inr _, w) \<Rightarrow> (Inr (), s\<lparr>ks_world := env_deposit env new_coldkey remaining_balance w\<rparr>)
         else (Inr (), s))"

definition do_swap_coldkey ::
    "('a, 'u, 'x, 'w) key_env \<Rightarrow> 'a \<Rightarrow> 'a \<Rightarrow> nat \<Rightarrow> ('a, 'u, 'h, 'd, 'w) key_state \<Rightarrow>
     (subtensor_error, ('a, 'u, 'h, 'd, 'w) key_state) result" where
  "do_swap_coldkey env old_coldkey new_coldkey swap_cost s =
     ensure (StakingHotkeys (ks_accounts s) new_coldkey = []) ColdKeyAlreadyAssociated
    (ensure (\<not> hotkey_account_exists (ks_accounts s) new_coldkey) NewColdKeyIsHotkey
    (let s = s\<lparr>IdentitiesV2 := move_entry old_coldkey new_coldkey (IdentitiesV2 s)\<rparr> in
     and_then (pay_swap_cost env old_coldkey swap_cost NotEnoughBalanceToPaySwapColdKey s) (\<lambda>s.
     let (_, s) = perform_swap_coldkey env old_coldkey new_coldkey s;
         s = set_ks_limits (set_last_tx_block new_coldkey (env_block env) (ks_limits s)) s
     in Inr (s\<lparr>ColdkeySwapScheduled := (ColdkeySwapScheduled s)(old_coldkey := None)\<rparr>))))"

definition swap_coldkey ::
    "('a, 'u, 'x, 'w) key_env \<Rightarrow> 'a origin \<Rightarrow> 'a \<Rightarrow> 'a \<Rightarrow> nat \<Rightarrow> ('a, 'u, 'h, 'd, 'w) key_state \<Rightarrow>
     (subtensor_error, ('a, 'u, 'h, 'd, 'w) key_state) result" where
  "swap_coldkey env og old_coldkey new_coldkey swap_cost s =
     and_then (ensure_root BadOrigin og) (\<lambda>_. do_swap_coldkey env old_coldkey new_coldkey swap_cost s)"

definition schedule_swap_coldkey ::
    "('a, 'u, 'x, 'w) key_env \<Rightarrow> 'a origin \<Rightarrow> 'a \<Rightarrow> ('a, 'u, 'h, 'd, 'w) key_state \<Rightarrow>
     (subtensor_error, ('a, 'u, 'h, 'd, 'w) key_state) result" where
  "schedule_swap_coldkey env og new_coldkey s =
     and_then (ensure_signed BadOrigin og) (\<lambda>who.
     let current_block = env_block env in
     and_then (case ColdkeySwapScheduled s who of
                 Some (scheduled_block, _) \<Rightarrow>
                   ensure (sat_add (block_number_max env) scheduled_block (ColdkeySwapRescheduleDuration s) \<le> current_block)
                     SwapAlreadyScheduled (Inr ())
               | None \<Rightarrow> Inr ()) (\<lambda>_.
     let swap_cost = KeySwapCost env in
     ensure (can_remove_balance_from_coldkey_account env who swap_cost (ks_world s)) NotEnoughBalanceToPaySwapColdKey
    (let when = sat_add (block_number_max env) current_block (ColdkeySwapScheduleDuration s) in
     and_then (ok_or (schedule_swap env when who new_coldkey swap_cost (ks_world s)) FailedToSchedule) (\<lambda>w.
     Inr (s\<lparr>ks_world := w, ColdkeySwapScheduled := (ColdkeySwapScheduled s)(who \<mapsto> (when, new_coldkey))\<rparr>)))))"

section \<open>What a swap of hotkeys does to each component\<close>

text \<open>What \<open>Alpha::iter_prefix\<close> promises: every entry of the hotkey, once.\<close>

definition prefix_ok :: "('a, 'u, 'x, 'w) key_env \<Rightarrow> bool" where
  "prefix_ok env \<longleftrightarrow> (\<forall>al h. finite {(c, m). Alpha al h c m \<noteq> None} \<longrightarrow>
     distinct (map fst (alpha_prefix env al h)) \<and>
     (\<forall>c m v. ((c, m), v) \<in> set (alpha_prefix env al h) \<longleftrightarrow> Alpha al h c m = Some v))"

lemma move_entry_apply:
  "old \<noteq> new \<Longrightarrow> move_entry old new m k = (if m old = None then m k else if k = new then m old else if k = old then None else m k)"
  by (auto simp: move_entry_def split: option.splits)

lemma set_ks_accounts_fields [simp]:
  "ks_children (set_ks_accounts acc s) = (ks_children s)\<lparr>ch_accounts := acc\<rparr>"
  "ks_neurons (set_ks_accounts acc s) = ks_neurons s" "ks_alpha (set_ks_accounts acc s) = ks_alpha s"
  "ks_NetworksAdded (set_ks_accounts acc s) = ks_NetworksAdded s" "ks_netuids (set_ks_accounts acc s) = ks_netuids s"
  "ks_world (set_ks_accounts acc s) = ks_world s"
  by (simp_all add: set_ks_accounts_def ks_netuids_def)

lemma set_ks_limits_fields [simp]:
  "ks_children (set_ks_limits lim s) = (ks_children s)\<lparr>ch_limits := lim\<rparr>"
  "ks_neurons (set_ks_limits lim s) = ks_neurons s" "ks_alpha (set_ks_limits lim s) = ks_alpha s"
  "ks_NetworksAdded (set_ks_limits lim s) = ks_NetworksAdded s" "ks_netuids (set_ks_limits lim s) = ks_netuids s"
  "ks_world (set_ks_limits lim s) = ks_world s"
  by (simp_all add: set_ks_limits_def ks_netuids_def)

lemma swap_one_fields:
  "ks_neurons (perform_hotkey_swap_on_one_subnet env old new n s) = swap_slot old new n (ks_neurons s)"
  "\<exists>acc. ks_alpha (perform_hotkey_swap_on_one_subnet env old new n s) =
     (let al = swap_totals (ke_fixed env) old new n (ks_alpha s)
      in fst (fold (move_alpha (ke_fixed env) old new n) (alpha_prefix env al old) (al, acc)))"
  "\<exists>acc. ks_children (perform_hotkey_swap_on_one_subnet env old new n s) = (swap_family old new n (ks_children s))\<lparr>ch_accounts := acc\<rparr>"
  "ks_NetworksAdded (perform_hotkey_swap_on_one_subnet env old new n s) = ks_NetworksAdded s"
  by (simp_all add: perform_hotkey_swap_on_one_subnet_def Let_def split_beta) blast+

text \<open>The loop over the shares of the old hotkey.\<close>

lemma move_alpha_fold:
  assumes "old \<noteq> new" "distinct (map fst es)"
  shows "fst (fold (move_alpha fx old new n) es (al, acc)) =
    al\<lparr>Alpha := (\<lambda>h c m. case (if m = n then map_of es (c, n) else None) of
         None \<Rightarrow> Alpha al h c m
       | Some v \<Rightarrow> if h = new then Some (f_add fx v (get_alpha fx al new c n)) else if h = old then None else Alpha al h c m)\<rparr>"
  using assms(2)
proof (induction es arbitrary: al acc)
  case (Cons e es)
  obtain c m v where e: "e = ((c, m), v)" by (metis prod.exhaust)
  obtain al1 acc1 where st: "move_alpha fx old new n e (al, acc) = (al1, acc1)" by fastforce
  have al1: "al1 = (if m = n then al\<lparr>Alpha := (Alpha al)(old := (Alpha al old)(c := (Alpha al old c)(n := None)),
      new := (Alpha al new)(c := (Alpha al new c)(n \<mapsto> f_add fx v (get_alpha fx al new c n))))\<rparr> else al)"
    using st assms(1) by (auto simp: move_alpha_def e Let_def fun_eq_iff intro!: alpha_state.equality)
  have none: "map_of es (c, m) = None" using Cons.prems by (simp add: e map_of_eq_None_iff)
  show ?case
    unfolding fold_simps(2) st Cons.IH[OF Cons.prems[simplified, THEN conjunct2]]
    using assms(1) none
    by (auto simp: al1 e fun_eq_iff get_alpha_def split: option.splits intro!: alpha_state.equality)
qed (auto simp: fun_eq_iff intro!: alpha_state.equality)

text \<open>The pools of the old hotkey are added to those of the new one on the subnets \<open>N\<close>.\<close>

definition stake_moved ::
    "('u, 'x) pool_fixed \<Rightarrow> 'a \<Rightarrow> 'a \<Rightarrow> netuid set \<Rightarrow> ('a, 'u) alpha_state \<Rightarrow> ('a, 'u) alpha_state \<Rightarrow> bool" where
  "stake_moved fx old new N al al' \<longleftrightarrow>
     (\<forall>h c n. fbits fx (get_alpha fx al' h c n) =
        (if n \<notin> N then fbits fx (get_alpha fx al h c n)
         else if h = new then fbits fx (get_alpha fx al old c n) + fbits fx (get_alpha fx al new c n)
         else if h = old then 0 else fbits fx (get_alpha fx al h c n))) \<and>
     (\<forall>h n. fbits fx (total_hotkey_shares fx al' h n) =
        (if n \<notin> N then fbits fx (total_hotkey_shares fx al h n)
         else if h = new then fbits fx (total_hotkey_shares fx al old n) + fbits fx (total_hotkey_shares fx al new n)
         else if h = old then 0 else fbits fx (total_hotkey_shares fx al h n))) \<and>
     (\<forall>h n. total_hotkey_alpha al' h n =
        (if n \<notin> N then total_hotkey_alpha al h n
         else if h = new then total_hotkey_alpha al old n + total_hotkey_alpha al new n
         else if h = old then 0 else total_hotkey_alpha al h n))"

text \<open>No sum of the two pools leaves the range of its type.\<close>

definition pools_fit :: "('u, 'x) pool_fixed \<Rightarrow> 'a \<Rightarrow> 'a \<Rightarrow> netuid set \<Rightarrow> ('a, 'u) alpha_state \<Rightarrow> bool" where
  "pools_fit fx old new N al \<longleftrightarrow> (\<forall>n \<in> N.
     fbits fx (total_hotkey_shares fx al old n) + fbits fx (total_hotkey_shares fx al new n) \<le> u128_max \<and>
     total_hotkey_alpha al old n + total_hotkey_alpha al new n \<le> u64_max \<and>
     (\<forall>c. fbits fx (get_alpha fx al old c n) + fbits fx (get_alpha fx al new c n) \<le> u128_max))"

lemma stake_moved_empty: "stake_moved fx old new {} al al' \<longleftrightarrow>
    (\<forall>h c n. fbits fx (get_alpha fx al' h c n) = fbits fx (get_alpha fx al h c n)) \<and>
    (\<forall>h n. fbits fx (total_hotkey_shares fx al' h n) = fbits fx (total_hotkey_shares fx al h n)) \<and>
    (\<forall>h n. total_hotkey_alpha al' h n = total_hotkey_alpha al h n)"
  by (simp add: stake_moved_def)

lemma stake_moved_insert:
  assumes "stake_moved fx old new {n} al al1" "stake_moved fx old new N al1 al2" "n \<notin> N"
  shows "stake_moved fx old new (insert n N) al al2"
  using assms unfolding stake_moved_def by (intro conjI allI) (simp_all split: if_splits)

lemma pools_fit_rest:
  assumes "pools_fit fx old new (insert n N) al" "stake_moved fx old new {n} al al1" "n \<notin> N"
  shows "pools_fit fx old new N al1"
  unfolding pools_fit_def
proof
  fix m assume "m \<in> N"
  then have "m \<noteq> n" "m \<in> insert n N" using assms(3) by auto
  with assms(1,2) show "fbits fx (total_hotkey_shares fx al1 old m) + fbits fx (total_hotkey_shares fx al1 new m) \<le> u128_max \<and>
     total_hotkey_alpha al1 old m + total_hotkey_alpha al1 new m \<le> u64_max \<and>
     (\<forall>c. fbits fx (get_alpha fx al1 old c m) + fbits fx (get_alpha fx al1 new c m) \<le> u128_max)"
    unfolding stake_moved_def pools_fit_def by simp
qed

lemma swap_totals_fields:
  "Alpha (swap_totals fx old new n al) = Alpha al"
  "old \<noteq> new \<Longrightarrow> total_hotkey_alpha (swap_totals fx old new n al) h m =
     (if m \<noteq> n then total_hotkey_alpha al h m
      else if h = new then sat_add u64_max (total_hotkey_alpha al new n) (total_hotkey_alpha al old n)
      else if h = old then 0 else total_hotkey_alpha al h n)"
  "old \<noteq> new \<Longrightarrow> total_hotkey_shares fx (swap_totals fx old new n al) h m =
     (if m \<noteq> n then total_hotkey_shares fx al h m
      else if h = new then f_add fx (total_hotkey_shares fx al new n) (total_hotkey_shares fx al old n)
      else if h = old then of_u64 fx 0 else total_hotkey_shares fx al h n)"
  by (auto simp: swap_totals_def Let_def total_hotkey_alpha_def total_hotkey_shares_def)

lemma swap_one_stake:
  assumes "old \<noteq> new" "prefix_ok env" "pool_fixed_ok (ke_fixed env)" "finite {(c, m). Alpha (ks_alpha s) old c m \<noteq> None}"
    and "pools_fit (ke_fixed env) old new {n} (ks_alpha s)"
  shows "stake_moved (ke_fixed env) old new {n} (ks_alpha s) (ks_alpha (perform_hotkey_swap_on_one_subnet env old new n s))"
    and "finite {(c, m). Alpha (ks_alpha (perform_hotkey_swap_on_one_subnet env old new n s)) old c m \<noteq> None}"
proof -
  let ?fx = "ke_fixed env" and ?al = "ks_alpha s" and ?al' = "ks_alpha (perform_hotkey_swap_on_one_subnet env old new n s)"
  let ?t = "swap_totals ?fx old new n ?al"
  have fin: "finite {(c, m). Alpha ?t old c m \<noteq> None}" using assms(4) by (simp add: swap_totals_fields)
  then have es: "distinct (map fst (alpha_prefix env ?t old))"
    "((c, m), v) \<in> set (alpha_prefix env ?t old) \<longleftrightarrow> Alpha ?al old c m = Some v" for c m v
    using assms(2) by (simp_all add: prefix_ok_def swap_totals_fields)
  then have look: "map_of (alpha_prefix env ?t old) (c, m) = Alpha ?al old c m" for c m
    by (cases "Alpha ?al old c m") (auto simp: map_of_eq_None_iff dest: map_of_SomeD)
  have gt: "get_alpha ?fx ?t = get_alpha ?fx ?al" by (simp add: fun_eq_iff get_alpha_def swap_totals_fields)
  from swap_one_fields(2)[of env old new n s] obtain acc where
    "?al' = fst (fold (move_alpha ?fx old new n) (alpha_prefix env ?t old) (?t, acc))" by (auto simp: Let_def)
  then have al': "?al' = ?t\<lparr>Alpha := (\<lambda>h c m. case (if m = n then Alpha ?al old c n else None) of
         None \<Rightarrow> Alpha ?al h c m
       | Some v \<Rightarrow> if h = new then Some (f_add ?fx v (get_alpha ?fx ?al new c n)) else if h = old then None else Alpha ?al h c m)\<rparr>"
    unfolding move_alpha_fold[OF assms(1) es(1)] look gt swap_totals_fields(1) .
  have z: "fbits ?fx (of_u64 ?fx 0) = 0" and add: "fbits ?fx (f_add ?fx x y) = sat_add u128_max (fbits ?fx x) (fbits ?fx y)" for x y
    using assms(3) by (auto simp: pool_fixed_ok_def ufixed_ok_def)
  have get: "get_alpha ?fx ?al' h c m = (case (if m = n then Alpha ?al old c n else None) of
         None \<Rightarrow> get_alpha ?fx ?al h c m
       | Some v \<Rightarrow> if h = new then f_add ?fx v (get_alpha ?fx ?al new c n) else if h = old then of_u64 ?fx 0 else get_alpha ?fx ?al h c m)" for h c m
    by (simp add: al' get_alpha_def split: option.split)
  have tot: "total_hotkey_alpha ?al' h m = total_hotkey_alpha ?t h m" "total_hotkey_shares ?fx ?al' h m = total_hotkey_shares ?fx ?t h m" for h m
    by (simp_all add: al' total_hotkey_alpha_def total_hotkey_shares_def)
  show "stake_moved ?fx old new {n} ?al ?al'"
    unfolding stake_moved_def
  proof (intro conjI allI)
    show "fbits ?fx (get_alpha ?fx ?al' h c m) =
        (if m \<notin> {n} then fbits ?fx (get_alpha ?fx ?al h c m)
         else if h = new then fbits ?fx (get_alpha ?fx ?al old c m) + fbits ?fx (get_alpha ?fx ?al new c m)
         else if h = old then 0 else fbits ?fx (get_alpha ?fx ?al h c m))" for h c m
      using assms(1,5) get_alpha_def[of ?fx ?al old c n]
      by (cases "Alpha ?al old c n") (auto simp: get z add pools_fit_def sat_add_def)
  qed (use assms(1,5) in \<open>simp_all add: tot swap_totals_fields z add pools_fit_def sat_add_def\<close>)
  show "finite {(c, m). Alpha ?al' old c m \<noteq> None}"
    by (rule finite_subset[OF _ assms(4)]) (use assms(1) in \<open>auto simp: al' split: option.splits if_splits\<close>)
qed

lemma swap_subnets_stake:
  assumes "old \<noteq> new" "prefix_ok env" "pool_fixed_ok (ke_fixed env)" "finite {(c, m). Alpha (ks_alpha s) old c m \<noteq> None}"
    and "distinct ns" "pools_fit (ke_fixed env) old new (set ns) (ks_alpha s)"
  shows "stake_moved (ke_fixed env) old new (set ns) (ks_alpha s) (ks_alpha (fold (perform_hotkey_swap_on_one_subnet env old new) ns s))"
  using assms(4-6)
proof (induction ns arbitrary: s)
  case (Cons n ns)
  let ?s1 = "perform_hotkey_swap_on_one_subnet env old new n s"
  have fit: "pools_fit (ke_fixed env) old new {n} (ks_alpha s)" using Cons.prems(3) by (simp add: pools_fit_def)
  note one = swap_one_stake[OF assms(1-3) Cons.prems(1) fit]
  have "pools_fit (ke_fixed env) old new (set ns) (ks_alpha ?s1)"
    by (rule pools_fit_rest[OF _ one(1)]) (use Cons.prems in simp_all)
  then have "stake_moved (ke_fixed env) old new (set ns) (ks_alpha ?s1)
      (ks_alpha (fold (perform_hotkey_swap_on_one_subnet env old new) ns ?s1))"
    using Cons.IH[OF one(2)] Cons.prems(2) by simp
  with one(1) Cons.prems(2) show ?case using stake_moved_insert by fastforce
qed (simp add: stake_moved_empty)

lemma support_sum_add:
  fixes f g :: "'c \<Rightarrow> nat"
  assumes "finite {c. f c \<noteq> 0}" "finite {c. g c \<noteq> 0}"
  shows "finite {c. f c + g c \<noteq> 0}"
    "(\<Sum>c | f c + g c \<noteq> 0. f c + g c) = (\<Sum>c | f c \<noteq> 0. f c) + (\<Sum>c | g c \<noteq> 0. g c)"
proof -
  have eq: "{c. f c + g c \<noteq> 0} = {c. f c \<noteq> 0} \<union> {c. g c \<noteq> 0}" by auto
  show fin: "finite {c. f c + g c \<noteq> 0}" unfolding eq using assms by simp
  have "(\<Sum>c | f c \<noteq> 0. f c) = (\<Sum>c | f c + g c \<noteq> 0. f c)" "(\<Sum>c | g c \<noteq> 0. g c) = (\<Sum>c | f c + g c \<noteq> 0. g c)"
    by (rule sum.mono_neutral_left[OF fin]; auto)+
  then show "(\<Sum>c | f c + g c \<noteq> 0. f c + g c) = (\<Sum>c | f c \<noteq> 0. f c) + (\<Sum>c | g c \<noteq> 0. g c)"
    by (simp add: sum.distrib)
qed

lemma alpha_invD:
  assumes "alpha_inv fx al"
  shows "finite {c. fbits fx (get_alpha fx al h c n) \<noteq> 0}" "total_hotkey_alpha al h n \<le> u64_max"
    "fbits fx (total_hotkey_shares fx al h n) = (\<Sum>c | fbits fx (get_alpha fx al h c n) \<noteq> 0. fbits fx (get_alpha fx al h c n))"
  using assms unfolding alpha_inv_def by blast+

lemma share_le_total:
  assumes "alpha_inv fx al"
  shows "fbits fx (get_alpha fx al h c n) \<le> fbits fx (total_hotkey_shares fx al h n)"
proof (cases "fbits fx (get_alpha fx al h c n) = 0")
  case False
  then show ?thesis unfolding alpha_invD(3)[OF assms] using alpha_invD(1)[OF assms] by (intro member_le_sum) auto
qed simp

lemma pools_fitI:
  assumes "alpha_inv fx al"
    and "\<And>n. n \<in> N \<Longrightarrow> fbits fx (total_hotkey_shares fx al old n) + fbits fx (total_hotkey_shares fx al new n) \<le> u128_max"
    and "\<And>n. n \<in> N \<Longrightarrow> total_hotkey_alpha al old n + total_hotkey_alpha al new n \<le> u64_max"
  shows "pools_fit fx old new N al"
  unfolding pools_fit_def
proof (intro ballI conjI allI)
  fix n c assume n: "n \<in> N"
  show "fbits fx (get_alpha fx al old c n) + fbits fx (get_alpha fx al new c n) \<le> u128_max"
    using assms(2)[OF n] share_le_total[OF assms(1), of old c n] share_le_total[OF assms(1), of new c n] by linarith
qed (use assms(2,3) in auto)

lemma stake_moved_inv:
  assumes "alpha_inv fx al" "pools_fit fx old new N al" "stake_moved fx old new N al al'" "old \<noteq> new"
  shows "alpha_inv fx al'"
  unfolding alpha_inv_def
proof (intro allI)
  fix h n
  note D = alpha_invD[OF assms(1)]
  note M = assms(3)[unfolded stake_moved_def, THEN conjunct1, rule_format]
    assms(3)[unfolded stake_moved_def, THEN conjunct2, THEN conjunct1, rule_format]
    assms(3)[unfolded stake_moved_def, THEN conjunct2, THEN conjunct2, rule_format]
  show "finite {c. fbits fx (get_alpha fx al' h c n) \<noteq> 0} \<and> total_hotkey_alpha al' h n \<le> u64_max \<and>
     fbits fx (total_hotkey_shares fx al' h n) =
       (\<Sum>c \<in> {c. fbits fx (get_alpha fx al' h c n) \<noteq> 0}. fbits fx (get_alpha fx al' h c n))"
  proof (cases "n \<in> N \<and> h = new")
    case True
    then show ?thesis
      using assms(2) unfolding M pools_fit_def
      by (simp only: support_sum_add[OF D(1)[of old n] D(1)[of new n]] D(3) if_True if_False not_True_eq_False True)
  next
    case False
    then show ?thesis using assms(4) D[of h n] by (cases "n \<in> N \<and> h = old") (auto simp: M)
  qed
qed

text \<open>The slots: on one subnet, and on all of them.\<close>

lemma is_network_member_iff [simp]: "is_network_member ns h n \<longleftrightarrow> IsNetworkMember ns h n = Some True"
  by (auto simp: is_network_member_def split: option.split)

lemma swap_slot_fields:
  assumes "slots_inv ns n" "old \<noteq> new"
  shows "Uids (swap_slot old new n ns) m = (if m = n then move_entry old new (Uids ns n) else Uids ns m)"
    "Uids ns n new = None \<Longrightarrow>
      Keys (swap_slot old new n ns) m u = (if m = n then map_option (rename_key old new) (Keys ns n u) else Keys ns m u)"
    "IsNetworkMember (swap_slot old new n ns) h m =
      (if m \<noteq> n then IsNetworkMember ns h m else if h = new then Some (Uids ns n old \<noteq> None)
       else if h = old then None else IsNetworkMember ns h n)"
    "SubnetworkN (swap_slot old new n ns) = SubnetworkN ns"
    "vectors_length (swap_slot old new n ns) m k \<longleftrightarrow> vectors_length ns m k"
proof -
  note D = slots_invD[OF assms(1)]
  show "Uids (swap_slot old new n ns) m = (if m = n then move_entry old new (Uids ns n) else Uids ns m)"
    using D(3)[of old] assms(2) by (auto simp: swap_slot_def Let_def move_entry_def split: option.splits)
  show "Keys (swap_slot old new n ns) m u = (if m = n then map_option (rename_key old new) (Keys ns n u) else Keys ns m u)"
    if "Uids ns n new = None"
    using D(3)[of old] D(2)[of u] assms(2) that
    by (cases "Keys ns n u") (auto simp: swap_slot_def Let_def rename_key_def split: option.splits)
  show "IsNetworkMember (swap_slot old new n ns) h m =
      (if m \<noteq> n then IsNetworkMember ns h m else if h = new then Some (Uids ns n old \<noteq> None)
       else if h = old then None else IsNetworkMember ns h n)"
    using D(3)[of old] assms(2) by (auto simp: swap_slot_def Let_def split: option.splits)
qed (auto simp: swap_slot_def Let_def vectors_length_def split: option.splits)

lemma swap_slot_inv:
  assumes "neurons_inv ns n" "old \<noteq> new" "Uids ns n new = None"
  shows "neurons_inv (swap_slot old new n ns) n"
proof -
  have sl: "slots_inv ns n" using assms(1) by (simp add: neurons_inv_def)
  note D = slots_invD[OF sl]
  note F = swap_slot_fields[OF sl assms(2)]
  have fresh: "Keys ns n u \<noteq> Some new" for u using D(2)[of u new] assms(3) by simp
  have "slots_inv (swap_slot old new n ns) n"
    unfolding slots_inv_def
  proof (intro conjI allI)
    fix u h
    show "Keys (swap_slot old new n ns) n u \<noteq> None \<longleftrightarrow> u < SubnetworkN (swap_slot old new n ns) n"
      using D(1)[of u] by (simp add: F assms(3))
    show "Keys (swap_slot old new n ns) n u = Some h \<longleftrightarrow> Uids (swap_slot old new n ns) n h = Some u"
      using D(2)[of u h] D(2)[of u old] fresh[of u] assms(2,3)
      by (cases "Keys ns n u") (auto simp: F move_entry_apply rename_key_def)
    show "IsNetworkMember (swap_slot old new n ns) h n = Some True \<longleftrightarrow> Uids (swap_slot old new n ns) n h \<noteq> None"
      using D(3)[of h] assms(2,3) by (auto simp: F move_entry_apply)
  qed
  then show ?thesis using assms(1) by (simp add: neurons_inv_def F)
qed

lemma swap_slot_other:
  assumes "m \<noteq> n" "slots_inv ns n" "old \<noteq> new"
  shows "neurons_inv (swap_slot old new n ns) m \<longleftrightarrow> neurons_inv ns m"
proof -
  have "Keys (swap_slot old new n ns) m = Keys ns m"
    using assms(1) by (auto simp: swap_slot_def Let_def split: option.splits)
  then show ?thesis using assms(1) by (intro neurons_inv_cong) (simp_all add: swap_slot_fields[OF assms(2,3)])
qed

definition slots_moved :: "'a \<Rightarrow> 'a \<Rightarrow> netuid set \<Rightarrow> 'a neurons \<Rightarrow> 'a neurons \<Rightarrow> bool" where
  "slots_moved old new N ns ns' \<longleftrightarrow> (\<forall>n.
     Uids ns' n = (if n \<in> N then move_entry old new (Uids ns n) else Uids ns n) \<and>
     (\<forall>u. Keys ns' n u = (if n \<in> N then map_option (rename_key old new) (Keys ns n u) else Keys ns n u)) \<and>
     (n \<in> N \<longrightarrow> IsNetworkMember ns' new n = Some (Uids ns n old \<noteq> None)))"

lemma swap_slots_fold:
  assumes "old \<noteq> new" "distinct ns" "\<And>m. neurons_inv s m" "\<And>m. m \<in> set ns \<Longrightarrow> Uids s m new = None"
  shows "slots_moved old new (set ns) s (fold (swap_slot old new) ns s) \<and> (\<forall>m. neurons_inv (fold (swap_slot old new) ns s) m)"
  using assms(2-4)
proof (induction ns arbitrary: s)
  case (Cons n ns)
  let ?t = "swap_slot old new n s"
  have sl: "slots_inv s n" using Cons.prems(2)[of n] by (simp add: neurons_inv_def)
  have new: "Uids s n new = None" using Cons.prems(3) by simp
  note F = swap_slot_fields[OF sl assms(1)]
  have inv: "neurons_inv ?t m" for m
    using swap_slot_inv[OF Cons.prems(2) assms(1) new] swap_slot_other[OF _ sl assms(1), of m] Cons.prems(2) by (cases "m = n") auto
  have "Uids ?t m new = None" if "m \<in> set ns" for m
    using that Cons.prems(1,3) by (auto simp: F)
  from Cons.IH[OF _ inv this] Cons.prems(1)
  have IH: "slots_moved old new (set ns) ?t (fold (swap_slot old new) ns ?t)" "\<forall>m. neurons_inv (fold (swap_slot old new) ns ?t) m" by auto
  have keep: "IsNetworkMember (fold (swap_slot old new) ms r) new k = IsNetworkMember r new k" if "k \<notin> set ms" for ms r k
    using that by (induction ms arbitrary: r) (auto simp: swap_slot_def Let_def split: option.splits)
  have "slots_moved old new (set (n # ns)) s (fold (swap_slot old new) ns ?t)"
    using IH(1) Cons.prems(1) F(2)[OF new] keep[of n ns ?t] by (simp add: slots_moved_def F)
  with IH(2) show ?case by simp
qed (auto simp: slots_moved_def)

text \<open>The whole call.\<close>

lemma swap_hotkeyE:
  fixes s s' :: "('a::linorder, 'u, 'h, 'd, 'w) key_state"
  assumes "do_swap_hotkey env (Signed coldkey) old new None s = Inr s'"
  obtains s1 s2 :: "('a, 'u, 'h, 'd, 'w) key_state" where "Owner (ks_accounts s) old = Some coldkey" "old \<noteq> new" "\<not> is_hotkey_registered_on_any_network (ks_neurons s) new"
    "ks_neurons s1 = ks_neurons s" "ks_alpha s1 = ks_alpha s" "ks_netuids s1 = ks_netuids s"
    "s2 = fold (perform_hotkey_swap_on_one_subnet env old new) (ks_netuids s1) s1"
    "ks_neurons s' = ks_neurons s2" "ks_alpha s' = ks_alpha s2"
proof -
  from assms obtain p q where g: "Owner (ks_accounts s) old = Some coldkey" "old \<noteq> new"
      "\<not> is_hotkey_registered_on_any_network (ks_neurons s) new"
    and p: "pay_swap_cost env coldkey (KeySwapCost env) NotEnoughBalanceToPaySwapHotKey
      (set_ks_limits (copy_last_blocks old new (ks_limits s)) s) = Inr p"
    and q: "perform_hotkey_swap_on_all_subnets env old new coldkey p = Inr q"
    and s': "s' = set_ks_limits (set_last_tx_block coldkey (env_block env) (ks_limits q)) q"
    unfolding do_swap_hotkey_def Let_def ensure_signed.simps and_then_simps guard_rules sum.inject option.case coldkey_owns_hotkey_iff
    by (elim exE conjE) blast
  have P: "ks_neurons p = ks_neurons s" "ks_alpha p = ks_alpha s" "ks_netuids p = ks_netuids s"
    using p by (auto simp: pay_swap_cost_def burn_tokens_def ks_netuids_def set_ks_limits_def)
  define s1 where "s1 = set_ks_accounts ((ks_accounts p)\<lparr>Owner := (Owner (ks_accounts p))(old := None, new \<mapsto> coldkey),
    OwnedHotkeys := (OwnedHotkeys (ks_accounts p))(coldkey := filter (\<lambda>hk. hk \<noteq> old) (push_unique new (OwnedHotkeys (ks_accounts p) coldkey)))\<rparr>) p"
  define s2 where "s2 = fold (perform_hotkey_swap_on_one_subnet env old new) (ks_netuids s1) s1"
  have "ks_neurons q = ks_neurons s2" "ks_alpha q = ks_alpha s2"
    using q unfolding perform_hotkey_swap_on_all_subnets_def Let_def and_then_simps guard_rules sum.inject
    by (auto simp: s2_def s1_def)
  with g P s' show thesis by (intro that[of s1 s2]) (simp_all add: s2_def s1_def)
qed

lemma swap_subnets_neurons:
  "ks_neurons (fold (perform_hotkey_swap_on_one_subnet env old new) ns s) = fold (swap_slot old new) ns (ks_neurons s)"
  by (induction ns arbitrary: s) (simp_all add: swap_one_fields(1))

lemma hotkey_swap_slots:
  fixes s s' :: "('a::linorder, 'u, 'h, 'd, 'w) key_state"
  assumes "do_swap_hotkey env (Signed coldkey) old new None s = Inr s'"
    and "\<And>n. neurons_inv (ks_neurons s) n" "distinct (ks_netuids s)" "set (ks_netuids s) \<subseteq> {..u16_max}"
  shows "slots_moved old new (set (ks_netuids s)) (ks_neurons s) (ks_neurons s')" "neurons_inv (ks_neurons s') n"
    "m \<in> set (ks_netuids s) \<Longrightarrow> Uids (ks_neurons s) m new = None" "old \<noteq> new"
proof -
  from assms(1) obtain s1 s2 :: "('a, 'u, 'h, 'd, 'w) key_state" where g: "old \<noteq> new" "\<not> is_hotkey_registered_on_any_network (ks_neurons s) new"
    and S: "ks_neurons s1 = ks_neurons s" "ks_netuids s1 = ks_netuids s"
      "s2 = fold (perform_hotkey_swap_on_one_subnet env old new) (ks_netuids s1) s1" "ks_neurons s' = ks_neurons s2"
    by (rule swap_hotkeyE) blast
  have ns': "ks_neurons s' = fold (swap_slot old new) (ks_netuids s) (ks_neurons s)" by (simp add: S swap_subnets_neurons)
  have new: "Uids (ks_neurons s) m new = None" if "m \<in> set (ks_netuids s)" for m
  proof -
    have "slots_inv (ks_neurons s) m" using assms(2)[of m] by (simp add: neurons_inv_def)
    moreover have "IsNetworkMember (ks_neurons s) new m \<noteq> Some True" using g(2) assms(4) that unfolding any_network_iff by blast
    ultimately show ?thesis using slots_invD(3)[of "ks_neurons s" m new] by simp
  qed
  from swap_slots_fold[OF g(1) assms(3,2) this] show "slots_moved old new (set (ks_netuids s)) (ks_neurons s) (ks_neurons s')"
    "neurons_inv (ks_neurons s') n" unfolding ns' by blast+
  show "m \<in> set (ks_netuids s) \<Longrightarrow> Uids (ks_neurons s) m new = None" "old \<noteq> new" by (fact new, fact g(1))
qed

text \<open>C24. A swapped hotkey keeps its slots. After a swap on all subnets the new hotkey has the uid that the
  old one had, on every subnet, the old one has none, every other neuron keeps its uid, and the
  maps of uids, hotkeys and members agree as before.\<close>

theorem hotkey_swap_keeps_slots:
  assumes "do_swap_hotkey env (Signed coldkey) old new None s = Inr s'"
    and "\<And>n. neurons_inv (ks_neurons s) n" "distinct (ks_netuids s)" "set (ks_netuids s) \<subseteq> {..u16_max}"
  shows "(\<forall>n \<in> set (ks_netuids s). Uids (ks_neurons s') n new = Uids (ks_neurons s) n old \<and> Uids (ks_neurons s') n old = None) \<and>
    (\<forall>n h. h \<noteq> old \<and> h \<noteq> new \<longrightarrow> Uids (ks_neurons s') n h = Uids (ks_neurons s) n h) \<and>
    (\<forall>n. neurons_inv (ks_neurons s') n)"
proof -
  note F = hotkey_swap_slots[OF assms]
  have U: "Uids (ks_neurons s') n = (if n \<in> set (ks_netuids s) then move_entry old new (Uids (ks_neurons s) n) else Uids (ks_neurons s) n)" for n
    using F(1) by (simp add: slots_moved_def)
  have "Uids (ks_neurons s') n new = Uids (ks_neurons s) n old \<and> Uids (ks_neurons s') n old = None" if "n \<in> set (ks_netuids s)" for n
    using that F(3)[of n] F(4) by (simp add: U move_entry_apply)
  moreover have "Uids (ks_neurons s') n h = Uids (ks_neurons s) n h" if "h \<noteq> old" "h \<noteq> new" for n h
    using that F(4) by (simp add: U move_entry_apply)
  ultimately show ?thesis using F(2) by blast
qed

text \<open>C23. A swapped hotkey keeps its stake. On every subnet the shares of each coldkey in the old hotkey are
  added to its shares in the new one, with the totals of the pool, and nothing is left under the
  old hotkey; other hotkeys keep theirs. The denominators stay the sums of the shares, so the
  stake that a coldkey can take out is that of before, as long as the sums of the two pools fit
  their types.\<close>

theorem hotkey_swap_keeps_stake:
  assumes "do_swap_hotkey env (Signed coldkey) old new None s = Inr s'"
    and "prefix_ok env" "pool_fixed_ok (ke_fixed env)" "finite {(c, m). Alpha (ks_alpha s) old c m \<noteq> None}"
    and "distinct (ks_netuids s)" "alpha_inv (ke_fixed env) (ks_alpha s)"
    and "\<And>n. n \<in> set (ks_netuids s) \<Longrightarrow> fbits (ke_fixed env) (total_hotkey_shares (ke_fixed env) (ks_alpha s) old n) +
           fbits (ke_fixed env) (total_hotkey_shares (ke_fixed env) (ks_alpha s) new n) \<le> u128_max"
    and "\<And>n. n \<in> set (ks_netuids s) \<Longrightarrow> total_hotkey_alpha (ks_alpha s) old n + total_hotkey_alpha (ks_alpha s) new n \<le> u64_max"
  shows "stake_moved (ke_fixed env) old new (set (ks_netuids s)) (ks_alpha s) (ks_alpha s') \<and>
    alpha_inv (ke_fixed env) (ks_alpha s')"
  using assms(1)
proof (rule swap_hotkeyE)
  fix s1 s2
  assume g: "old \<noteq> new" and S: "ks_alpha s1 = ks_alpha s" "ks_netuids s1 = ks_netuids s"
      "s2 = fold (perform_hotkey_swap_on_one_subnet env old new) (ks_netuids s1) s1" "ks_alpha s' = ks_alpha s2"
  have fit: "pools_fit (ke_fixed env) old new (set (ks_netuids s)) (ks_alpha s)"
    by (rule pools_fitI[OF assms(6)]) (use assms(7,8) in auto)
  have "stake_moved (ke_fixed env) old new (set (ks_netuids s)) (ks_alpha s) (ks_alpha s')"
    using swap_subnets_stake[OF g assms(2,3), of s1 "ks_netuids s"] assms(4,5) fit by (simp add: S)
  with stake_moved_inv[OF assms(6) fit _ g] show ?thesis by blast
qed

text \<open>A swap leaves marks of membership. On a subnet where the old hotkey was not registered, the swap on
  all subnets stores \<open>false\<close> for the new hotkey in \<open>IsNetworkMember\<close>. The check
  \<open>is_hotkey_registered_on_specific_network\<close> looks for the key only, so it reports the new hotkey as
  registered there, although it has no uid, and no later swap on that subnet can go to it.\<close>

theorem hotkey_swap_marks_membership:
  fixes s s' :: "('a::linorder, 'u, 'h, 'd, 'w) key_state" and env :: "('a, 'u, 'x, 'w) key_env"
  assumes "do_swap_hotkey env (Signed coldkey) old new None s = Inr s'"
    and "\<And>n. neurons_inv (ks_neurons s) n" "distinct (ks_netuids s)" "set (ks_netuids s) \<subseteq> {..u16_max}"
    and "n \<in> set (ks_netuids s)" "Uids (ks_neurons s) n old = None"
  shows "is_hotkey_registered_on_specific_network (ks_neurons s') new n \<and>
    \<not> is_hotkey_registered_on_network (ks_neurons s') n new \<and>
    (\<forall>(env' :: ('a, 'u, 'x, 'w) key_env) coldkey' hotkey. swap_hotkey_on_subnet env' coldkey' hotkey new n s' = Inl HotKeySwapOnSubnetIntervalNotPassed \<or>
       swap_hotkey_on_subnet env' coldkey' hotkey new n s' = Inl HotKeyAlreadyRegisteredInSubNet)"
proof -
  note F = hotkey_swap_slots[OF assms(1-4)]
  have m: "IsNetworkMember (ks_neurons s') new n = Some False" using F(1) assms(5,6) by (simp add: slots_moved_def)
  moreover have "slots_inv (ks_neurons s') n" using F(2)[of n] by (simp add: neurons_inv_def)
  ultimately have "Uids (ks_neurons s') n new = None" using slots_invD(3)[of "ks_neurons s'" n new] by simp
  moreover have "swap_hotkey_on_subnet env' c h new n s' = Inl HotKeySwapOnSubnetIntervalNotPassed \<or>
      swap_hotkey_on_subnet env' c h new n s' = Inl HotKeyAlreadyRegisteredInSubNet" for env' :: "('a, 'u, 'x, 'w) key_env" and c h
    using m by (cases "sat_add u64_max (LastHotkeySwapOnNetuid s' n c) (HotkeySwapOnSubnetInterval env') < env_block env'")
      (simp_all add: swap_hotkey_on_subnet_def is_hotkey_registered_on_specific_network_def)
  ultimately show ?thesis using m by (simp add: is_hotkey_registered_on_specific_network_def is_hotkey_registered_on_network_def)
qed

section \<open>Children and parents\<close>

text \<open>The new hotkey appears nowhere in the families of the subnet.\<close>

definition outside_families :: "'a \<Rightarrow> netuid \<Rightarrow> 'a children_state \<Rightarrow> bool" where
  "outside_families h n s \<longleftrightarrow> ChildKeys s h n = [] \<and> ParentKeys s h n = [] \<and>
     (\<forall>(p, cs, b) \<in> set (PendingChildKeys s n). p \<noteq> h \<and> h \<notin> snd ` set cs)"

lemma rename_keys_absent: "old \<notin> snd ` set xs \<Longrightarrow> rename_keys old new xs = xs"
  unfolding rename_keys_def rename_key_def by (induction xs) auto

lemma rename_keys_twice: "old \<noteq> new \<Longrightarrow> rename_keys old new (rename_keys old new xs) = rename_keys old new xs"
  unfolding rename_keys_def rename_key_def by (induction xs) auto

lemma in_rename_keys:
  "old \<noteq> new \<Longrightarrow> new \<notin> snd ` set xs \<Longrightarrow> (x, k) \<in> set (rename_keys old new xs) \<longleftrightarrow>
     k \<noteq> old \<and> (if k = new then (x, old) \<in> set xs else (x, k) \<in> set xs)"
  unfolding rename_keys_def rename_key_def by (induction xs) (auto split: if_splits)

lemma rename_keys_snd: "map snd (rename_keys old new xs) = map (rename_key old new) (map snd xs)"
  by (simp add: rename_keys_def comp_def split_beta)

lemma rename_keys_fst: "map fst (rename_keys old new xs) = map fst xs"
  by (simp add: rename_keys_def comp_def split_beta)

lemma distinct_rename: "distinct ks \<Longrightarrow> new \<notin> set ks \<Longrightarrow> distinct (map (rename_key old new) ks)"
  by (subst distinct_map) (auto simp: inj_on_def rename_key_def)

lemma fold_rename_in_parents:
  assumes "old \<noteq> new"
  shows "fold (rename_in_parents old new n) cs s = s\<lparr>ParentKeys := (\<lambda>c. if c \<in> snd ` set cs
      then (ParentKeys s c)(n := rename_keys old new (ParentKeys s c n)) else ParentKeys s c)\<rparr>"
proof (induction cs arbitrary: s)
  case (Cons c cs)
  show ?case
    unfolding fold_simps(2) Cons.IH
    by (rule children_state.equality) (auto simp: rename_in_parents_def fun_eq_iff rename_keys_twice[OF assms])
qed simp

lemma fold_rename_in_children:
  assumes "old \<noteq> new"
  shows "fold (rename_in_children old new n) ps s = s\<lparr>ChildKeys := (\<lambda>p. if p \<in> snd ` set ps
      then (ChildKeys s p)(n := rename_keys old new (ChildKeys s p n)) else ChildKeys s p)\<rparr>"
proof (induction ps arbitrary: s)
  case (Cons p ps)
  show ?case
    unfolding fold_simps(2) Cons.IH
    by (rule children_state.equality) (auto simp: rename_in_children_def fun_eq_iff rename_keys_twice[OF assms])
qed simp

lemma dual_no_child:
  assumes "dual_inv s n" "c \<notin> snd ` set (ChildKeys s h n)"
  shows "h \<notin> snd ` set (ParentKeys s c n)"
  using assms unfolding dual_inv_def by force

lemma dual_no_parent:
  assumes "dual_inv s n" "p \<notin> snd ` set (ParentKeys s h n)"
  shows "h \<notin> snd ` set (ChildKeys s p n)"
  using assms unfolding dual_inv_def by force

text \<open>The two lists of a subnet after steps 4 and 5: the old hotkey is renamed everywhere.\<close>

lemma swap_lists:
  assumes "dual_inv s n" "old \<noteq> new" "old \<notin> snd ` set (ChildKeys s old n)" "ChildKeys s new n = []" "ParentKeys s new n = []"
  defines "s' \<equiv> swap_parent_keys old new n (swap_child_keys old new n s)"
  shows "ChildKeys s' p n = (if p = new then ChildKeys s old n else if p = old then [] else rename_keys old new (ChildKeys s p n))"
    "ParentKeys s' c n = (if c = new then ParentKeys s old n else if c = old then [] else rename_keys old new (ParentKeys s c n))"
proof -
  have pr: "old \<notin> snd ` set (ParentKeys s old n)" using dual_no_child[OF assms(1)] assms(3) by blast
  have nn: "new \<notin> snd ` set (ParentKeys s c n)" "new \<notin> snd ` set (ChildKeys s c n)" for c
    using dual_no_child[OF assms(1)] dual_no_parent[OF assms(1)] assms(4,5) by (metis empty_iff image_empty list.set(1))+
  let ?t = "swap_child_keys old new n s"
  have T: "ParentKeys ?t c n = rename_keys old new (ParentKeys s c n)" for c
    using rename_keys_absent[OF dual_no_child[OF assms(1), of c old], of new] assms(2)
    by (auto simp: swap_child_keys_def Let_def fold_rename_in_parents[OF assms(2)])
  have TC: "ChildKeys ?t p n = (if p = new then ChildKeys s old n else if p = old then [] else ChildKeys s p n)" for p
    by (simp add: swap_child_keys_def Let_def fold_rename_in_parents[OF assms(2)])
  have P: "ParentKeys ?t old n = ParentKeys s old n" unfolding T by (rule rename_keys_absent[OF pr])
  show "ParentKeys s' c n = (if c = new then ParentKeys s old n else if c = old then [] else rename_keys old new (ParentKeys s c n))"
    using P assms(2) by (simp add: s'_def swap_parent_keys_def Let_def fold_rename_in_children[OF assms(2)] T)
  show "ChildKeys s' p n = (if p = new then ChildKeys s old n else if p = old then [] else rename_keys old new (ChildKeys s p n))"
    using rename_keys_absent[OF dual_no_parent[OF assms(1), of p old], of new] rename_keys_absent[OF assms(3), of new] nn(1)[of old]
    by (auto simp: s'_def swap_parent_keys_def Let_def fold_rename_in_children[OF assms(2)] P TC rename_keys_def)
qed

lemma rename_valid:
  assumes "valid_children p cs" "new \<notin> snd ` set cs" "p \<noteq> new"
  shows "valid_children p (rename_keys old new cs)"
proof -
  have "p \<notin> rename_key old new ` snd ` set cs" using assms by (auto simp: valid_children_def rename_key_def)
  moreover have "snd ` set (rename_keys old new cs) = rename_key old new ` snd ` set cs"
    by (metis list.set_map rename_keys_snd)
  moreover have "distinct (map snd (rename_keys old new cs))"
    unfolding rename_keys_snd by (rule distinct_rename) (use assms in \<open>auto simp: valid_children_def\<close>)
  ultimately show ?thesis using assms(1) by (simp add: valid_children_def rename_keys_fst) (simp add: rename_keys_def)
qed

lemma replace_child_mem:
  assumes "replace_child old new cs = Some cs'"
  shows "old \<in> snd ` set cs"
proof (rule ccontr)
  assume "old \<notin> snd ` set cs"
  then have "dropWhile (\<lambda>e. snd e \<noteq> old) cs = []" by (auto simp: dropWhile_eq_Nil_conv)
  with assms show False by (simp add: replace_child_def)
qed

lemma replace_child_valid:
  assumes "replace_child old new cs = Some cs'" "valid_children p cs" "new \<notin> snd ` set cs" "p \<noteq> new"
  shows "valid_children p cs'"
proof -
  from assms(1) obtain e rest where e: "dropWhile (\<lambda>e. snd e \<noteq> old) cs = e # rest"
    and cs': "cs' = takeWhile (\<lambda>e. snd e \<noteq> old) cs @ rest @ [(fst e, new)]"
    by (auto simp: replace_child_def split: list.splits)
  have cs: "cs = takeWhile (\<lambda>e. snd e \<noteq> old) cs @ e # rest" using e by (metis takeWhile_dropWhile_id)
  let ?t = "takeWhile (\<lambda>e. snd e \<noteq> old) cs"
  have "valid_children p (?t @ e # rest)" "new \<notin> snd ` set (?t @ e # rest)" using assms(2,3) cs by simp_all
  then show ?thesis using assms(4) unfolding cs' valid_children_def by auto
qed

text \<open>The loop over the pending entries, on the list of the entries.\<close>

definition swap_pending_list :: "'a::linorder \<Rightarrow> 'a \<Rightarrow> ('a \<times> (nat \<times> 'a) list \<times> nat) list \<Rightarrow> ('a \<times> (nat \<times> 'a) list \<times> nat) list" where
  "swap_pending_list old new es = fold (\<lambda>(h, cs, b) acc. case replace_child old new cs of None \<Rightarrow> acc
     | Some cs' \<Rightarrow> smap_put h (cs', b) (smap_del h acc)) es es"

lemma fold_swap_pending:
  "fold (swap_pending_entry old new n) es s = s\<lparr>PendingChildKeys := (PendingChildKeys s)(n :=
     fold (\<lambda>(h, cs, b) acc. case replace_child old new cs of None \<Rightarrow> acc
       | Some cs' \<Rightarrow> smap_put h (cs', b) (smap_del h acc)) es (PendingChildKeys s n))\<rparr>"
proof (induction es arbitrary: s)
  case (Cons e es)
  show ?case
    unfolding fold_simps(2) Cons.IH
    by (rule children_state.equality) (auto simp: swap_pending_entry_def Let_def split: option.split prod.split)
qed simp

lemma pending_fold_ok:
  assumes "\<And>h cs b. (h, cs, b) \<in> set es \<Longrightarrow> valid_children h cs \<and> new \<notin> snd ` set cs \<and> h \<noteq> new \<or> old \<notin> snd ` set cs"
    and "smap_wf acc" "\<And>h cs b. (h, cs, b) \<in> set acc \<Longrightarrow> valid_children h cs"
  defines "r \<equiv> fold (\<lambda>(h, cs, b) acc. case replace_child old new cs of None \<Rightarrow> acc
     | Some cs' \<Rightarrow> smap_put h (cs', b) (smap_del h acc)) es acc"
  shows "smap_wf r \<and> (\<forall>(h, cs, b) \<in> set r. valid_children h cs)"
  using assms(1-3) unfolding r_def
proof (induction es arbitrary: acc)
  case (Cons e es)
  obtain h cs b where e: "e = (h, cs, b)" by (cases e)
  let ?a = "case replace_child old new cs of None \<Rightarrow> acc | Some cs' \<Rightarrow> smap_put h (cs', b) (smap_del h acc)"
  have "smap_wf ?a" using Cons.prems(2) by (simp split: option.split)
  moreover have "valid_children h' c'" if "(h', c', b') \<in> set ?a" for h' c' b'
  proof (cases "replace_child old new cs")
    case (Some cs')
    have "old \<in> snd ` set cs" by (rule replace_child_mem[OF Some])
    then have "valid_children h cs'" using replace_child_valid[OF Some] Cons.prems(1)[of h cs b] e by auto
    then show ?thesis using that Cons.prems(3) smap_put_set[of h "(cs', b)" "smap_del h acc"]
      by (auto simp: Some smap_del_def)
  qed (use that Cons.prems(3) in simp)
  ultimately show ?case using Cons.IH[of ?a] Cons.prems(1) by (simp add: e) blast
qed auto

text \<open>Renaming a hotkey keeps the two maps inverse to each other, and the lists valid.\<close>

lemma renamed_family:
  assumes "dual_inv s n" "\<And>p. valid_children p (ChildKeys s p n)" "old \<noteq> new"
    and nn: "\<And>c. new \<notin> snd ` set (ParentKeys s c n)" "\<And>c. new \<notin> snd ` set (ChildKeys s c n)"
    and CK: "\<And>p. ChildKeys s' p n = (if p = new then ChildKeys s old n else if p = old then [] else rename_keys old new (ChildKeys s p n))"
    and PK: "\<And>c. ParentKeys s' c n = (if c = new then ParentKeys s old n else if c = old then [] else rename_keys old new (ParentKeys s c n))"
  shows "dual_inv s' n" "valid_children p (ChildKeys s' p n)"
proof -
  have D: "(x, c) \<in> set (ChildKeys s p n) \<longleftrightarrow> (x, p) \<in> set (ParentKeys s c n)" "distinct (map snd (ParentKeys s c n))" for x p c
    using assms(1) by (simp_all add: dual_inv_def)
  have self: "(x, old) \<notin> set (ChildKeys s old n)" for x using assms(2)[of old] by (force simp: valid_children_def)
  have new: "(x, new) \<notin> set (ChildKeys s c n)" "(x, new) \<notin> set (ParentKeys s c n)" for x c using nn by force+
  have "(x, c) \<in> set (ChildKeys s' p n) \<longleftrightarrow> (x, p) \<in> set (ParentKeys s' c n)" for x p c
    using self new assms(3) by (auto simp: CK PK in_rename_keys[OF assms(3)] nn D(1))
  moreover have "distinct (map snd (ParentKeys s' c n))" for c
    using D(2) distinct_rename[OF D(2)[of c], of new old] nn(1)[of c] by (simp add: PK rename_keys_snd)
  ultimately show "dual_inv s' n" by (simp add: dual_inv_def)
  show "valid_children p (ChildKeys s' p n)"
    using assms(2) rename_valid[OF assms(2)[of p] nn(2)] nn(2)[of old]
    by (auto simp: CK valid_children_def)
qed

lemma swap_family_inv:
  assumes "family_inv s n" "old \<noteq> new" "outside_families new n s"
  shows "family_inv (swap_family old new n s) n"
    "ChildKeys (swap_family old new n s) p n =
      (if p = new then ChildKeys s old n else if p = old then [] else rename_keys old new (ChildKeys s p n))"
    "ParentKeys (swap_family old new n s) c n =
      (if c = new then ParentKeys s old n else if c = old then [] else rename_keys old new (ParentKeys s c n))"
proof -
  note D = family_invD[OF assms(1)]
  have out: "ChildKeys s new n = []" "ParentKeys s new n = []"
    "(h, cs, b) \<in> set (PendingChildKeys s n) \<Longrightarrow> h \<noteq> new \<and> new \<notin> snd ` set cs" for h cs b
    using assms(3) by (auto simp: outside_families_def)
  have self: "old \<notin> snd ` set (ChildKeys s old n)" using D(2)[of old] by (simp add: valid_children_def)
  let ?t = "swap_parent_keys old new n (swap_child_keys old new n s)"
  note L = swap_lists[OF D(1) assms(2) self out(1,2)]
  have tp: "PendingChildKeys ?t = PendingChildKeys s"
    by (simp add: swap_parent_keys_def swap_child_keys_def Let_def fold_rename_in_children[OF assms(2)] fold_rename_in_parents[OF assms(2)])
  define es where "es = (case map_of (PendingChildKeys s n) old of None \<Rightarrow> PendingChildKeys s n
    | Some v \<Rightarrow> smap_put new v (smap_del old (PendingChildKeys s n)))"
  have pk: "swap_pending_keys old new n ?t = ?t\<lparr>PendingChildKeys := (PendingChildKeys s)(n := swap_pending_list old new es)\<rparr>"
    by (auto simp: swap_pending_keys_def es_def tp fold_swap_pending swap_pending_list_def Let_def split: option.split
        intro!: children_state.equality)
  have F: "ChildKeys (swap_family old new n s) = ChildKeys ?t" "ParentKeys (swap_family old new n s) = ParentKeys ?t"
    "PendingChildKeys (swap_family old new n s) n = swap_pending_list old new es"
    by (simp_all add: swap_family_def Let_def pk)
  show CK: "ChildKeys (swap_family old new n s) p n =
      (if p = new then ChildKeys s old n else if p = old then [] else rename_keys old new (ChildKeys s p n))" for p
    unfolding F by (rule L(1))
  show PK: "ParentKeys (swap_family old new n s) c n =
      (if c = new then ParentKeys s old n else if c = old then [] else rename_keys old new (ParentKeys s c n))" for c
    unfolding F by (rule L(2))
  have nn: "new \<notin> snd ` set (ParentKeys s c n)" "new \<notin> snd ` set (ChildKeys s c n)" for c
    using dual_no_child[OF D(1), of c new] dual_no_parent[OF D(1), of c new] out(1,2) by simp_all
  have es: "smap_wf es" "(h, cs, b) \<in> set es \<Longrightarrow> valid_children h cs"
    "(h, cs, b) \<in> set es \<Longrightarrow> valid_children h cs \<and> new \<notin> snd ` set cs \<and> h \<noteq> new \<or> old \<notin> snd ` set cs" for h cs b
  proof -
    show "smap_wf es" using D(3) by (simp add: es_def split: option.split)
    have mem: "(h, cs, b) \<in> set (PendingChildKeys s n) \<or> h = new \<and> (old, cs, b) \<in> set (PendingChildKeys s n)" if "(h, cs, b) \<in> set es"
      using that smap_put_set[of new _ "smap_del old (PendingChildKeys s n)"]
      by (auto simp: es_def smap_del_def split: option.splits dest!: map_of_SomeD)
    show "valid_children h cs" if "(h, cs, b) \<in> set es"
      using mem[OF that] D(4)[of h cs b] D(4)[of old cs b] out(3)[of old cs b] by (auto simp: valid_children_def)
    show "valid_children h cs \<and> new \<notin> snd ` set cs \<and> h \<noteq> new \<or> old \<notin> snd ` set cs" if "(h, cs, b) \<in> set es"
      using mem[OF that] D(4)[of h cs b] D(4)[of old cs b] out(3)[of h cs b] by (auto simp: valid_children_def)
  qed
  have "smap_wf (swap_pending_list old new es) \<and> (\<forall>(h, cs, b) \<in> set (swap_pending_list old new es). valid_children h cs)"
    unfolding swap_pending_list_def by (rule pending_fold_ok[OF es(3,1,2)])
  moreover note renamed_family[OF D(1,2) assms(2) nn CK PK]
  ultimately show "family_inv (swap_family old new n s) n" by (simp add: family_inv_def F(3))
qed

text \<open>The families do not depend on the accounts and the rate limits kept beside them.\<close>

abbreviation with_books :: "'a children_state \<Rightarrow> 'a accounts \<Rightarrow> 'a rate_limits \<Rightarrow> 'a children_state" where
  "with_books s acc lim \<equiv> s\<lparr>ch_accounts := acc, ch_limits := lim\<rparr>"

lemma swap_family_books:
  assumes "old \<noteq> new"
  shows "swap_family old new n (with_books s acc lim) = with_books (swap_family old new n s) acc lim"
proof -
  have c: "swap_child_keys old new n (with_books s acc lim) = with_books (swap_child_keys old new n s) acc lim" for s :: "'a children_state"
    by (simp add: swap_child_keys_def Let_def fold_rename_in_parents[OF assms] cong: if_cong)
  have p: "swap_parent_keys old new n (with_books s acc lim) = with_books (swap_parent_keys old new n s) acc lim" for s :: "'a children_state"
    by (simp add: swap_parent_keys_def Let_def fold_rename_in_children[OF assms] cong: if_cong)
  have q: "swap_pending_keys old new n (with_books s acc lim) = with_books (swap_pending_keys old new n s) acc lim" for s :: "'a children_state"
    by (simp add: swap_pending_keys_def Let_def fold_swap_pending split: option.split)
  show ?thesis by (simp add: swap_family_def Let_def c p q)
qed

lemma swap_subnets_children:
  fixes s :: "('a::linorder, 'u, 'h, 'd, 'w) key_state"
  assumes "old \<noteq> new" "ks_children s = with_books cs acc lim"
  shows "\<exists>acc lim. ks_children (fold (perform_hotkey_swap_on_one_subnet env old new) ns s) =
    with_books (fold (swap_family old new) ns cs) acc lim"
  using assms(2)
proof (induction ns arbitrary: s cs acc lim)
  case (Cons n ns)
  obtain acc' where "ks_children (perform_hotkey_swap_on_one_subnet env old new n s) = (swap_family old new n (ks_children s))\<lparr>ch_accounts := acc'\<rparr>"
    using swap_one_fields(3)[of env old new n s] by blast
  then have "ks_children (perform_hotkey_swap_on_one_subnet env old new n s) = with_books (swap_family old new n cs) acc' lim"
    by (simp add: Cons.prems swap_family_books[OF assms(1)])
  from Cons.IH[OF this] show ?case by simp
qed auto

lemma pay_swap_cost_children: "pay_swap_cost env c x e s = Inr s' \<Longrightarrow> ks_children s' = ks_children s \<and> ks_netuids s' = ks_netuids s"
  by (auto simp: pay_swap_cost_def burn_tokens_def ks_netuids_def)

lemma swap_hotkey_children:
  fixes s s' :: "('a::linorder, 'u, 'h, 'd, 'w) key_state"
  assumes "do_swap_hotkey env (Signed coldkey) old new netuid s = Inr s'"
  shows "old \<noteq> new \<and> (\<exists>acc lim. ks_children s' =
    with_books (fold (swap_family old new) (case netuid of None \<Rightarrow> ks_netuids s | Some n \<Rightarrow> [n]) (ks_children s)) acc lim)"
proof -
  let ?s0 = "set_ks_limits (copy_last_blocks old new (ks_limits s)) s"
  have ne: "old \<noteq> new" using assms by (auto simp: do_swap_hotkey_def Let_def)
  have s0: "ks_children ?s0 = with_books (ks_children s) (ks_accounts s) (copy_last_blocks old new (ks_limits s))" by simp
  have "\<exists>acc lim. ks_children s' =
    with_books (fold (swap_family old new) (case netuid of None \<Rightarrow> ks_netuids s | Some n \<Rightarrow> [n]) (ks_children s)) acc lim"
  proof (cases netuid)
    case None
    from assms obtain p q where p: "pay_swap_cost env coldkey (KeySwapCost env) NotEnoughBalanceToPaySwapHotKey ?s0 = Inr p"
      and q: "perform_hotkey_swap_on_all_subnets env old new coldkey p = Inr q"
      and s': "s' = set_ks_limits (set_last_tx_block coldkey (env_block env) (ks_limits q)) q"
      unfolding None do_swap_hotkey_def Let_def ensure_signed.simps and_then_simps guard_rules sum.inject option.case
      by (elim exE conjE) blast
    define acc1 where "acc1 = (ks_accounts p)\<lparr>Owner := (Owner (ks_accounts p))(old := None, new \<mapsto> coldkey),
      OwnedHotkeys := (OwnedHotkeys (ks_accounts p))(coldkey := filter (\<lambda>hk. hk \<noteq> old) (push_unique new (OwnedHotkeys (ks_accounts p) coldkey)))\<rparr>"
    have "ks_children q = with_books (ks_children (fold (perform_hotkey_swap_on_one_subnet env old new) (ks_netuids p) (set_ks_accounts acc1 p)))
        (ks_accounts q) (ks_limits q)"
      using q unfolding perform_hotkey_swap_on_all_subnets_def Let_def and_then_simps guard_rules sum.inject
      by (auto simp: acc1_def)
    moreover have "ks_children (set_ks_accounts acc1 p) = with_books (ks_children s) acc1 (copy_last_blocks old new (ks_limits s))"
      using pay_swap_cost_children[OF p] by simp
    from swap_subnets_children[OF ne this, of env "ks_netuids p"] obtain acc2 lim2 where
      "ks_children (fold (perform_hotkey_swap_on_one_subnet env old new) (ks_netuids p) (set_ks_accounts acc1 p)) =
        with_books (fold (swap_family old new) (ks_netuids p) (ks_children s)) acc2 lim2" by blast
    ultimately have "\<exists>acc lim. ks_children q = with_books (fold (swap_family old new) (ks_netuids s) (ks_children s)) acc lim"
      using pay_swap_cost_children[OF p] by auto
    then obtain acc lim where "ks_children q = with_books (fold (swap_family old new) (ks_netuids s) (ks_children s)) acc lim" by blast
    then have "ks_children s' = with_books (fold (swap_family old new) (ks_netuids s) (ks_children s)) acc
        (set_last_tx_block coldkey (env_block env) lim)" by (simp add: s')
    then show ?thesis unfolding None option.case by blast
  next
    case (Some n)
    from assms obtain p where p: "pay_swap_cost env coldkey (KeySwapOnSubnetCost env) NotEnoughBalanceToPaySwapHotKey ?s0 = Inr p"
      and s': "ks_children s' = with_books (ks_children (perform_hotkey_swap_on_one_subnet env old new n
        (set_ks_accounts ((ks_accounts p)\<lparr>Owner := (Owner (ks_accounts p))(new \<mapsto> coldkey),
          OwnedHotkeys := (OwnedHotkeys (ks_accounts p))(coldkey := push_unique new (OwnedHotkeys (ks_accounts p) coldkey))\<rparr>) p)))
        (ks_accounts s') (ks_limits s')"
      unfolding Some do_swap_hotkey_def swap_hotkey_on_subnet_def Let_def ensure_signed.simps and_then_simps guard_rules sum.inject option.case
      by (elim exE conjE) auto
    then obtain acc1 where
      "ks_children s' = with_books (ks_children (perform_hotkey_swap_on_one_subnet env old new n (set_ks_accounts acc1 p))) (ks_accounts s') (ks_limits s')" by blast
    moreover have "ks_children (set_ks_accounts acc1 p) = with_books (ks_children s) acc1 (copy_last_blocks old new (ks_limits s))"
      using pay_swap_cost_children[OF p] by simp
    from swap_subnets_children[OF ne this, of env "[n]"] obtain acc2 lim2 where
      "ks_children (perform_hotkey_swap_on_one_subnet env old new n (set_ks_accounts acc1 p)) =
        with_books (swap_family old new n (ks_children s)) acc2 lim2" by auto
    ultimately have "\<exists>acc lim. ks_children s' = with_books (swap_family old new n (ks_children s)) acc lim" by auto
    then show ?thesis using Some by simp
  qed
  with ne show ?thesis by blast
qed

lemma swap_family_other:
  assumes "m \<noteq> n" "old \<noteq> new"
  shows "ChildKeys (swap_family old new n s) p m = ChildKeys s p m" "ParentKeys (swap_family old new n s) p m = ParentKeys s p m"
    "PendingChildKeys (swap_family old new n s) m = PendingChildKeys s m"
proof -
  have c: "ChildKeys (swap_child_keys old new n s) p m = ChildKeys s p m" "ParentKeys (swap_child_keys old new n s) p m = ParentKeys s p m"
    "PendingChildKeys (swap_child_keys old new n s) = PendingChildKeys s" for s :: "'a children_state" and p
    using assms by (simp_all add: swap_child_keys_def Let_def fold_rename_in_parents)
  have d: "ChildKeys (swap_parent_keys old new n s) p m = ChildKeys s p m" "ParentKeys (swap_parent_keys old new n s) p m = ParentKeys s p m"
    "PendingChildKeys (swap_parent_keys old new n s) = PendingChildKeys s" for s :: "'a children_state" and p
    using assms by (simp_all add: swap_parent_keys_def Let_def fold_rename_in_children)
  have e: "ChildKeys (swap_pending_keys old new n s) = ChildKeys s" "ParentKeys (swap_pending_keys old new n s) = ParentKeys s"
    "PendingChildKeys (swap_pending_keys old new n s) m = PendingChildKeys s m" for s :: "'a children_state"
    using assms by (simp_all add: swap_pending_keys_def Let_def fold_swap_pending split: option.split)
  show "ChildKeys (swap_family old new n s) p m = ChildKeys s p m" "ParentKeys (swap_family old new n s) p m = ParentKeys s p m"
    "PendingChildKeys (swap_family old new n s) m = PendingChildKeys s m"
    by (simp_all add: swap_family_def Let_def c d e)
qed

lemma family_inv_cong:
  assumes "\<And>p. ChildKeys s' p n = ChildKeys s p n" "\<And>p. ParentKeys s' p n = ParentKeys s p n" "PendingChildKeys s' n = PendingChildKeys s n"
  shows "family_inv s' n \<longleftrightarrow> family_inv s n"
  by (simp add: family_inv_def dual_inv_def assms)

lemma family_inv_books [simp]: "family_inv (with_books s acc lim) n \<longleftrightarrow> family_inv s n"
  by (rule family_inv_cong) simp_all

lemma swap_families_inv:
  assumes "old \<noteq> new" "\<And>m. family_inv s m" "\<And>n. n \<in> set ns \<Longrightarrow> outside_families new n s" "distinct ns"
  shows "(\<forall>m. family_inv (fold (swap_family old new) ns s) m) \<and>
    (\<forall>n \<in> set ns. ChildKeys (fold (swap_family old new) ns s) new n = ChildKeys s old n)"
  using assms(2-4)
proof (induction ns arbitrary: s)
  case (Cons k ns)
  let ?t = "swap_family old new k s"
  have one: "family_inv ?t k" "ChildKeys ?t new k = ChildKeys s old k"
    using swap_family_inv[OF Cons.prems(1) assms(1) Cons.prems(2), of k] by simp_all
  have inv: "family_inv ?t m" for m
  proof (cases "m = k")
    case False
    then show ?thesis using Cons.prems(1)[of m] family_inv_cong[of ?t m s] by (simp add: swap_family_other assms(1))
  qed (use one in simp)
  have out: "outside_families new n ?t" if "n \<in> set ns" for n
  proof -
    have "n \<noteq> k" using that Cons.prems(3) by auto
    then show ?thesis using that Cons.prems(2)[of n] by (simp add: outside_families_def swap_family_other assms(1))
  qed
  have IH: "(\<forall>m. family_inv (fold (swap_family old new) ns ?t) m) \<and>
    (\<forall>n \<in> set ns. ChildKeys (fold (swap_family old new) ns ?t) new n = ChildKeys ?t old n)"
    by (rule Cons.IH[OF inv out]) (use Cons.prems(3) in simp_all)
  have "ChildKeys (fold (swap_family old new) ms r) p k = ChildKeys r p k" if "k \<notin> set ms" for ms and r :: "'a children_state" and p
    using that by (induction ms arbitrary: r) (simp_all add: swap_family_other(1)[OF _ assms(1)])
  then have "ChildKeys (fold (swap_family old new) ns ?t) new k = ChildKeys s old k" using one(2) Cons.prems(3) by simp
  moreover have "ChildKeys ?t old n = ChildKeys s old n" if "n \<in> set ns" for n
    using that Cons.prems(3) by (intro swap_family_other(1)[OF _ assms(1)]) auto
  ultimately show ?case using IH by simp
qed auto

text \<open>C26. A swapped hotkey keeps its family. When the new hotkey takes no part in the families of the
  swapped subnets, the maps of children and parents stay inverse to each other on every subnet,
  every list of children stays valid, and the new hotkey has the children of the old one.\<close>

theorem hotkey_swap_keeps_family:
  fixes s s' :: "('a::linorder, 'u, 'h, 'd, 'w) key_state"
  assumes "do_swap_hotkey env (Signed coldkey) old new netuid s = Inr s'" "\<And>m. family_inv (ks_children s) m" "distinct (ks_netuids s)"
    and "\<And>n. n \<in> set (case netuid of None \<Rightarrow> ks_netuids s | Some n \<Rightarrow> [n]) \<Longrightarrow> outside_families new n (ks_children s)"
  shows "(\<forall>m. family_inv (ks_children s') m) \<and>
    (\<forall>n \<in> set (case netuid of None \<Rightarrow> ks_netuids s | Some n \<Rightarrow> [n]). ChildKeys (ks_children s') new n = ChildKeys (ks_children s) old n)"
proof -
  let ?ns = "case netuid of None \<Rightarrow> ks_netuids s | Some n \<Rightarrow> [n]"
  have ne: "old \<noteq> new" and "\<exists>acc lim. ks_children s' = with_books (fold (swap_family old new) ?ns (ks_children s)) acc lim"
    using swap_hotkey_children[OF assms(1)] by blast+
  moreover have "distinct ?ns" using assms(3) by (simp split: option.split)
  from swap_families_inv[OF ne assms(2,4) this] have "(\<forall>m. family_inv (fold (swap_family old new) ?ns (ks_children s)) m) \<and>
      (\<forall>n \<in> set ?ns. ChildKeys (fold (swap_family old new) ?ns (ks_children s)) new n = ChildKeys (ks_children s) old n)" .
  ultimately show ?thesis by (elim exE) simp
qed

text \<open>A swap can make a hotkey its own child. When the new hotkey is a child of the old one on a swapped
  subnet, it becomes its own child there with the same proportion, which \<open>do_schedule_children\<close> refuses
  with \<open>InvalidChild\<close>.\<close>

theorem hotkey_swap_self_child:
  fixes s s' :: "('a::linorder, 'u, 'h, 'd, 'w) key_state"
  assumes "do_swap_hotkey env (Signed coldkey) old new (Some n) s = Inr s'" "(x, new) \<in> set (ChildKeys (ks_children s) old n)"
  shows "(x, new) \<in> set (ChildKeys (ks_children s') new n) \<and> \<not> family_inv (ks_children s') n"
proof -
  have ne: "old \<noteq> new" and s': "\<exists>acc lim. ks_children s' = with_books (swap_family old new n (ks_children s)) acc lim"
    using swap_hotkey_children[OF assms(1)] by simp_all
  have "(x, new) \<in> set (rename_keys old new xs)" if "(x, new) \<in> set xs" for xs
    using that ne by (force simp: rename_keys_def rename_key_def)
  then have "(x, new) \<in> set (ChildKeys (swap_parent_keys old new n (swap_child_keys old new n (ks_children s))) new n)"
    using assms(2) by (simp add: swap_parent_keys_def swap_child_keys_def Let_def fold_rename_in_children[OF ne] fold_rename_in_parents[OF ne])
  moreover have "ChildKeys (swap_family old new n (ks_children s)) = ChildKeys (swap_parent_keys old new n (swap_child_keys old new n (ks_children s)))"
    by (simp add: swap_family_def swap_pending_keys_def Let_def fold_swap_pending split: option.split)
  ultimately have "(x, new) \<in> set (ChildKeys (ks_children s') new n)" using s' by auto
  moreover from this have "\<not> valid_children new (ChildKeys (ks_children s') new n)" by (force simp: valid_children_def)
  ultimately show ?thesis using family_invD(2) by blast
qed

section \<open>Swapping a coldkey\<close>

text \<open>The shares of the old coldkey are added to those of the new one, in the pools \<open>S\<close>.\<close>

definition coldkey_moved ::
    "('u, 'x) pool_fixed \<Rightarrow> 'a \<Rightarrow> 'a \<Rightarrow> ('a \<times> netuid) set \<Rightarrow> ('a, 'u) alpha_state \<Rightarrow> ('a, 'u) alpha_state \<Rightarrow> bool" where
  "coldkey_moved fx old new S al al' \<longleftrightarrow>
     TotalHotkeyAlpha al' = TotalHotkeyAlpha al \<and> TotalHotkeyShares al' = TotalHotkeyShares al \<and>
     (\<forall>h c n. fbits fx (get_alpha fx al' h c n) =
        (if (h, n) \<notin> S then fbits fx (get_alpha fx al h c n)
         else if c = new then fbits fx (get_alpha fx al h old n) + fbits fx (get_alpha fx al h new n)
         else if c = old then 0 else fbits fx (get_alpha fx al h c n)))"

definition coldkeys_fit :: "('u, 'x) pool_fixed \<Rightarrow> 'a \<Rightarrow> 'a \<Rightarrow> ('a, 'u) alpha_state \<Rightarrow> bool" where
  "coldkeys_fit fx old new al \<longleftrightarrow> (\<forall>h n. fbits fx (get_alpha fx al h old n) + fbits fx (get_alpha fx al h new n) \<le> u128_max)"

lemma coldkey_moved_fit:
  "coldkey_moved fx old new S al al' \<Longrightarrow> coldkeys_fit fx old new al \<Longrightarrow> old \<noteq> new \<Longrightarrow> coldkeys_fit fx old new al'"
  by (simp add: coldkey_moved_def coldkeys_fit_def)

lemma coldkey_moved_trans:
  assumes "coldkey_moved fx old new S al al1" "coldkey_moved fx old new T al1 al2" "old \<noteq> new"
  shows "coldkey_moved fx old new (S \<union> T) al al2"
  using assms unfolding coldkey_moved_def by auto

lemma coldkey_moved_none: "coldkey_moved fx old new {} al al"
  by (simp add: coldkey_moved_def)

lemma coldkey_moved_UNIV:
  assumes "coldkey_moved fx old new S al al'" "\<And>h n. (h, n) \<notin> S \<Longrightarrow> fbits fx (get_alpha fx al h old n) = 0"
  shows "coldkey_moved fx old new UNIV al al'"
proof -
  have "fbits fx (get_alpha fx al' h c n) = (if c = new then fbits fx (get_alpha fx al h old n) + fbits fx (get_alpha fx al h new n)
      else if c = old then 0 else fbits fx (get_alpha fx al h c n))" for h c n
    using assms(1) assms(2)[of h n] by (cases "(h, n) \<in> S") (simp_all add: coldkey_moved_def)
  then show ?thesis using assms(1) by (simp add: coldkey_moved_def)
qed

lemma swap_coldkey_alpha_moved:
  assumes "pool_fixed_ok fx" "old \<noteq> new" "coldkeys_fit fx old new al"
  shows "coldkey_moved fx old new {(h, n)} al (swap_coldkey_alpha fx old new h n al)"
proof -
  have z: "fbits fx (of_u64 fx 0) = 0" and add: "fbits fx (f_add fx x y) = sat_add u128_max (fbits fx x) (fbits fx y)" for x y
    using assms(1) by (auto simp: pool_fixed_ok_def ufixed_ok_def)
  have "get_alpha fx (swap_coldkey_alpha fx old new h n al) k c m =
      (if (k, m) \<noteq> (h, n) then get_alpha fx al k c m else if c = new then f_add fx (get_alpha fx al h new n) (get_alpha fx al h old n)
       else if c = old then of_u64 fx 0 else get_alpha fx al k c m)" for k c m
    using assms(2) by (auto simp: swap_coldkey_alpha_def Let_def get_alpha_def)
  moreover have "sat_add u128_max (fbits fx (get_alpha fx al h new n)) (fbits fx (get_alpha fx al h old n)) =
      fbits fx (get_alpha fx al h old n) + fbits fx (get_alpha fx al h new n)"
    using assms(3) by (simp add: coldkeys_fit_def sat_add_def add.commute)
  moreover have "TotalHotkeyAlpha (swap_coldkey_alpha fx old new h n al) = TotalHotkeyAlpha al"
    "TotalHotkeyShares (swap_coldkey_alpha fx old new h n al) = TotalHotkeyShares al"
    by (simp_all add: swap_coldkey_alpha_def Let_def)
  ultimately show ?thesis by (auto simp: coldkey_moved_def z add)
qed

lemma coldkey_fold_moved:
  assumes "\<And>x al. coldkeys_fit fx old new al \<Longrightarrow> coldkey_moved fx old new (S x) al (f x al)" "old \<noteq> new" "coldkeys_fit fx old new al"
  shows "coldkey_moved fx old new (\<Union>x \<in> set xs. S x) al (fold f xs al)"
  using assms(3)
proof (induction xs arbitrary: al)
  case (Cons x xs)
  have "coldkey_moved fx old new (S x) al (f x al)" by (rule assms(1)[OF Cons.prems])
  moreover have "coldkey_moved fx old new (\<Union>x \<in> set xs. S x) (f x al) (fold f xs (f x al))"
    by (rule Cons.IH, rule coldkey_moved_fit[OF assms(1)[OF Cons.prems] Cons.prems assms(2)])
  ultimately show ?case using coldkey_moved_trans[OF _ _ assms(2)] by fastforce
qed (simp add: coldkey_moved_none)

lemma merged_sum:
  fixes f :: "'c \<Rightarrow> nat"
  assumes "finite {c. f c \<noteq> 0}" "a \<noteq> b"
  defines "g \<equiv> (\<lambda>c. if c = b then f a + f b else if c = a then 0 else f c)"
  shows "finite {c. g c \<noteq> 0}" "(\<Sum>c | g c \<noteq> 0. g c) = (\<Sum>c | f c \<noteq> 0. f c)"
proof -
  let ?B = "{c. f c \<noteq> 0} - {a, b}"
  have fin: "finite ?B" using assms(1) by simp
  have sub: "{c. g c \<noteq> 0} \<subseteq> insert a (insert b ?B)" "{c. f c \<noteq> 0} \<subseteq> insert a (insert b ?B)"
    by (auto simp: g_def split: if_splits)
  then show "finite {c. g c \<noteq> 0}" using fin by (meson finite_insert finite_subset)
  have "(\<Sum>c | g c \<noteq> 0. g c) = sum g (insert a (insert b ?B))" "(\<Sum>c | f c \<noteq> 0. f c) = sum f (insert a (insert b ?B))"
    by (rule sum.mono_neutral_left; use sub fin in auto)+
  moreover have "sum g ?B = sum f ?B" by (rule sum.cong) (auto simp: g_def)
  ultimately show "(\<Sum>c | g c \<noteq> 0. g c) = (\<Sum>c | f c \<noteq> 0. f c)" using fin assms(2) by (simp add: g_def)
qed

lemma coldkey_moved_inv:
  assumes "alpha_inv fx al" "coldkey_moved fx old new S al al'" "old \<noteq> new"
  shows "alpha_inv fx al'"
  unfolding alpha_inv_def
proof (intro allI)
  fix h n
  note D = alpha_invD[OF assms(1), of h n]
  have tot: "total_hotkey_alpha al' h n = total_hotkey_alpha al h n" "total_hotkey_shares fx al' h n = total_hotkey_shares fx al h n"
    using assms(2) by (simp_all add: coldkey_moved_def total_hotkey_alpha_def total_hotkey_shares_def)
  have M: "fbits fx (get_alpha fx al' h c n) = (if (h, n) \<notin> S then fbits fx (get_alpha fx al h c n)
         else if c = new then fbits fx (get_alpha fx al h old n) + fbits fx (get_alpha fx al h new n)
         else if c = old then 0 else fbits fx (get_alpha fx al h c n))" for c
    using assms(2) by (simp add: coldkey_moved_def)
  show "finite {c. fbits fx (get_alpha fx al' h c n) \<noteq> 0} \<and> total_hotkey_alpha al' h n \<le> u64_max \<and>
     fbits fx (total_hotkey_shares fx al' h n) =
       (\<Sum>c \<in> {c. fbits fx (get_alpha fx al' h c n) \<noteq> 0}. fbits fx (get_alpha fx al' h c n))"
    unfolding M tot using D merged_sum[OF D(1) assms(3)] by (cases "(h, n) \<in> S") simp_all
qed

lemma coldkeys_fitI:
  assumes "alpha_inv fx al" "pool_fixed_ok fx" "old \<noteq> new"
  shows "coldkeys_fit fx old new al"
  unfolding coldkeys_fit_def
proof (intro allI)
  fix h n
  note D = alpha_invD[OF assms(1), of h n]
  let ?g = "\<lambda>c. if c = new then fbits fx (get_alpha fx al h old n) + fbits fx (get_alpha fx al h new n)
    else if c = old then 0 else fbits fx (get_alpha fx al h c n)"
  note M = merged_sum[OF D(1) assms(3)]
  have "?g new \<le> (\<Sum>c | ?g c \<noteq> 0. ?g c)"
  proof (cases "?g new = 0")
    case False
    then show ?thesis using M(1) by (intro member_le_sum) auto
  qed simp
  also have "\<dots> = fbits fx (total_hotkey_shares fx al h n)" unfolding M(2) D(3) ..
  also have "\<dots> \<le> u128_max" using assms(2) by (simp add: pool_fixed_ok_def ufixed_ok_def)
  finally show "fbits fx (get_alpha fx al h old n) + fbits fx (get_alpha fx al h new n) \<le> u128_max" by simp
qed

lemma fold_push_unique: "set (fold push_unique xs ys) = set xs \<union> set ys" "distinct (fold push_unique xs ys) \<longleftrightarrow> distinct ys"
  by (induction xs arbitrary: ys) auto

lemma fold_own: "fold (\<lambda>h ow. ow(h \<mapsto> c)) hs ow = (\<lambda>h. if h \<in> set hs then Some c else ow h)"
  by (induction hs arbitrary: ow) (auto simp: fun_eq_iff)

lemma swap_coldkey_accounts_inv:
  assumes "accounts_inv acc" "StakingHotkeys acc new = []" "old \<noteq> new"
  shows "accounts_inv (swap_coldkey_accounts old new acc)"
    "Owner (swap_coldkey_accounts old new acc) h = (if Owner acc h = Some old then Some new else Owner acc h)"
proof -
  have A: "h \<in> set (OwnedHotkeys acc c) \<longleftrightarrow> Owner acc h = Some c" "distinct (OwnedHotkeys acc c)" "distinct (StakingHotkeys acc c)"
    "Owner acc h = Some c \<Longrightarrow> h \<in> set (StakingHotkeys acc c)" for c h
    using assms(1) by (simp_all add: accounts_inv_def)
  have none: "Owner acc h \<noteq> Some new" for h using A(4)[of h new] assms(2) by auto
  let ?acc = "swap_coldkey_accounts old new acc"
  have own: "Owner ?acc = (\<lambda>h. if Owner acc h = Some old then Some new else Owner acc h)"
    using assms(3) by (intro ext) (simp add: swap_coldkey_accounts_def Let_def fold_own A(1))
  then show "Owner ?acc h = (if Owner acc h = Some old then Some new else Owner acc h)" for h by simp
  have lists: "set (OwnedHotkeys ?acc c) = (if c = new then {h. Owner acc h = Some old} else if c = old then {} else {h. Owner acc h = Some c})"
    "set (StakingHotkeys ?acc c) = (if c = new then set (StakingHotkeys acc old) else if c = old then {} else set (StakingHotkeys acc c))"
    "distinct (OwnedHotkeys ?acc c)" "distinct (StakingHotkeys ?acc c)" for c
    using assms(2,3) A(2,3) none by (auto simp: swap_coldkey_accounts_def Let_def fold_push_unique A(1))
  show "accounts_inv ?acc"
    unfolding accounts_inv_def own using lists none A(4) assms(3) by auto
qed

lemma subnet_owner_fold:
  "SubnetOwner (fold (swap_subnet_owner old new) ns s) n = (if n \<in> set ns \<and> SubnetOwner s n = old then new else SubnetOwner s n)"
  "ks_alpha (fold (swap_subnet_owner old new) ns s) = ks_alpha s" "ks_children (fold (swap_subnet_owner old new) ns s) = ks_children s"
  "ks_netuids (fold (swap_subnet_owner old new) ns s) = ks_netuids s"
  by (induction ns arbitrary: s) (auto simp: swap_subnet_owner_def ks_netuids_def)

lemma perform_swap_coldkey_fields:
  fixes env :: "('a, 'u, 'x, 'w) key_env" and old new and s :: "('a, 'u, 'h, 'd, 'w) key_state"
  defines "s' \<equiv> snd (perform_swap_coldkey env old new s)"
  shows "ks_accounts s' = swap_coldkey_accounts old new (ks_accounts s)"
    "ks_alpha s' = fold (\<lambda>hotkey. fold (swap_coldkey_alpha (ke_fixed env) old new hotkey) (ks_netuids s))
       (StakingHotkeys (ks_accounts s) old) (ks_alpha s)"
    "SubnetOwner s' n = (if n \<in> set (ks_netuids s) \<and> SubnetOwner s n = old then new else SubnetOwner s n)"
  unfolding s'_def perform_swap_coldkey_def
  by (simp_all add: Let_def subnet_owner_fold set_ks_accounts_def split: prod.split sum.split)

lemma swap_coldkeyE:
  fixes s s' :: "('a, 'u, 'h, 'd, 'w) key_state"
  assumes "do_swap_coldkey env old new cost s = Inr s'"
  obtains s1 :: "('a, 'u, 'h, 'd, 'w) key_state" where "StakingHotkeys (ks_accounts s) new = []" "Owner (ks_accounts s) new = None"
    "ks_children s1 = ks_children s" "ks_alpha s1 = ks_alpha s" "ks_netuids s1 = ks_netuids s" "SubnetOwner s1 = SubnetOwner s"
    "ks_accounts s' = ks_accounts (snd (perform_swap_coldkey env old new s1))"
    "ks_alpha s' = ks_alpha (snd (perform_swap_coldkey env old new s1))"
    "SubnetOwner s' = SubnetOwner (snd (perform_swap_coldkey env old new s1))"
proof -
  let ?s0 = "s\<lparr>IdentitiesV2 := move_entry old new (IdentitiesV2 s)\<rparr>"
  from assms obtain s1 where g: "StakingHotkeys (ks_accounts s) new = []" "\<not> hotkey_account_exists (ks_accounts s) new"
    and p: "pay_swap_cost env old cost NotEnoughBalanceToPaySwapColdKey ?s0 = Inr s1"
    and s': "(let (_, s) = perform_swap_coldkey env old new s1;
         s = set_ks_limits (set_last_tx_block new (env_block env) (ks_limits s)) s
     in Inr (s\<lparr>ColdkeySwapScheduled := (ColdkeySwapScheduled s)(old := None)\<rparr>)) = (Inr s' :: (subtensor_error, _) result)"
    unfolding do_swap_coldkey_def Let_def[of ?s0] and_then_simps guard_rules by (elim exE conjE) blast
  have "ks_children s1 = ks_children s" "ks_alpha s1 = ks_alpha s" "ks_netuids s1 = ks_netuids s" "SubnetOwner s1 = SubnetOwner s"
    using p by (auto simp: pay_swap_cost_def burn_tokens_def ks_netuids_def)
  moreover have "ks_accounts s' = ks_accounts (snd (perform_swap_coldkey env old new s1))"
    "ks_alpha s' = ks_alpha (snd (perform_swap_coldkey env old new s1))"
    "SubnetOwner s' = SubnetOwner (snd (perform_swap_coldkey env old new s1))"
    using s' by (auto simp: Let_def split_beta set_ks_limits_def)
  ultimately show thesis using g by (intro that[of s1]) (simp_all add: hotkey_account_exists_def)
qed

text \<open>C25. A swap of coldkeys moves everything. The new coldkey owns exactly the hotkeys and the subnets that
  the old one owned, and the maps of owners and owned hotkeys agree as before. In every pool the
  shares of the old coldkey are added to those of the new one, nothing is left with the old one,
  and the denominators stay the sums of the shares; no sum can saturate. This rests on
  \<open>StakingHotkeys\<close> listing every hotkey that the old coldkey has shares in, on a subnet that exists.\<close>

theorem coldkey_swap_moves_all:
  fixes s s' :: "('a, 'u, 'h, 'd, 'w) key_state"
  assumes "do_swap_coldkey env old new cost s = Inr s'" "old \<noteq> new" "accounts_inv (ks_accounts s)"
    and "pool_fixed_ok (ke_fixed env)" "alpha_inv (ke_fixed env) (ks_alpha s)"
    and "\<And>h n. fbits (ke_fixed env) (get_alpha (ke_fixed env) (ks_alpha s) h old n) \<noteq> 0 \<Longrightarrow>
           h \<in> set (StakingHotkeys (ks_accounts s) old) \<and> n \<in> set (ks_netuids s)"
  shows "accounts_inv (ks_accounts s') \<and>
    (\<forall>h. Owner (ks_accounts s') h = (if Owner (ks_accounts s) h = Some old then Some new else Owner (ks_accounts s) h)) \<and>
    (\<forall>n \<in> set (ks_netuids s). SubnetOwner s' n = (if SubnetOwner s n = old then new else SubnetOwner s n)) \<and>
    coldkey_moved (ke_fixed env) old new UNIV (ks_alpha s) (ks_alpha s') \<and> alpha_inv (ke_fixed env) (ks_alpha s')"
proof -
  let ?fx = "ke_fixed env"
  obtain s1 :: "('a, 'u, 'h, 'd, 'w) key_state" where g: "StakingHotkeys (ks_accounts s) new = []"
    and S: "ks_children s1 = ks_children s" "ks_alpha s1 = ks_alpha s" "ks_netuids s1 = ks_netuids s" "SubnetOwner s1 = SubnetOwner s"
      "ks_accounts s' = ks_accounts (snd (perform_swap_coldkey env old new s1))"
      "ks_alpha s' = ks_alpha (snd (perform_swap_coldkey env old new s1))"
      "SubnetOwner s' = SubnetOwner (snd (perform_swap_coldkey env old new s1))"
    by (rule swap_coldkeyE[OF assms(1)]) blast
  let ?S = "\<Union>h \<in> set (StakingHotkeys (ks_accounts s) old). \<Union>n \<in> set (ks_netuids s). {(h, n)}"
  have fit: "coldkeys_fit ?fx old new (ks_alpha s)" by (rule coldkeys_fitI[OF assms(5,4,2)])
  have "coldkey_moved ?fx old new ?S (ks_alpha s) (ks_alpha s')"
    unfolding S perform_swap_coldkey_fields
    by (intro coldkey_fold_moved[OF _ assms(2)] swap_coldkey_alpha_moved[OF assms(4,2)] fit) assumption+
  moreover from this have "coldkey_moved ?fx old new UNIV (ks_alpha s) (ks_alpha s')"
    by (rule coldkey_moved_UNIV) (use assms(6) in auto)
  moreover note swap_coldkey_accounts_inv[OF assms(3) g assms(2)]
  ultimately show ?thesis
    using coldkey_moved_inv[OF assms(5) _ assms(2)] by (simp add: S(1,3,4,5,7) perform_swap_coldkey_fields)
qed

section \<open>Sample runs\<close>

text \<open>
  Coldkey 40 owns hotkey 7, which has uid 1 on subnet 1, one child there and a stake of coldkey 40;
  subnet 2 is empty. Balances are the world, and a swap costs 5.
\<close>

definition sample_key_env :: "(nat, nat, int, nat \<Rightarrow> nat) key_env" where
  "sample_key_env = \<lparr>env_block = 10, reducible_balance = (\<lambda>w a. w a), can_withdraw = (\<lambda>w a x. x \<le> w a),
     env_withdraw = (\<lambda>a x w. if x \<le> w a then Some (x, w(a := w a - x)) else None),
     env_deposit = (\<lambda>a x w. w(a := w a + x)), env_swap = (\<lambda>n or x l d p. Inl (Other ''none'')),
     max_price = 1000, block_hash = (\<lambda>b. []), keccak_256 = (\<lambda>_. []), sha2_256 = (\<lambda>_. []), encode_account = (\<lambda>a. []),
     ke_fixed = bits_fixed, KeySwapCost = 5, KeySwapOnSubnetCost = 5, HotkeySwapOnSubnetInterval = 3, block_number_max = u32_max,
     alpha_prefix = (\<lambda>al h. map (\<lambda>k. (k, the (Alpha al h (fst k) (snd k)))) (sorted_list_of_set {(c, m). Alpha al h c m \<noteq> None})),
     senate_is_member = (\<lambda>a w. False), senate_swap_member = (\<lambda>a b w. Inr w),
     withdraw_force = (\<lambda>a x w. if x \<le> w a then Some (x, w(a := w a - x)) else None), schedule_swap = (\<lambda>b a c x w. Some w)\<rparr>"

definition sample_stake :: "(nat, nat) alpha_state" where
  "sample_stake = \<lparr>Alpha = (\<lambda>h c n. if h = 7 \<and> c = 40 \<and> n = 1 then Some 900 else None),
     TotalHotkeyAlpha = (\<lambda>h n. if h = 7 \<and> n = 1 then Some 800 else None),
     TotalHotkeyShares = (\<lambda>h n. if h = 7 \<and> n = 1 then Some 900 else None)\<rparr>"

definition sample_keys :: "nat \<Rightarrow> (nat, nat, nat, nat, nat \<Rightarrow> nat) key_state" where
  "sample_keys child = \<lparr>ks_children = \<lparr>ch_accounts = \<lparr>Owner = [7 \<mapsto> 40], OwnedHotkeys = (\<lambda>c. if c = 40 then [7] else []),
       StakingHotkeys = (\<lambda>c. if c = 40 then [7] else [])\<rparr>,
     ch_limits = \<lparr>TxRateLimit = 0, TxDelegateTakeRateLimit = 0, TxChildkeyTakeRateLimit = 0,
       NetworkRateLimit = 0, WeightsVersionKeyRateLimit = 0, SetSNOwnerHotkeyRateLimit = 0,
       rl_Tempo = (\<lambda>_. 0), TransactionKeyLastBlock = (\<lambda>_. 0), LastRateLimitedBlock = (\<lambda>_. 0),
       NetworkLastRegistered = 0, LastTxBlock = (\<lambda>_. 0), LastTxBlockDelegateTake = (\<lambda>_. 0), LastTxBlockChildKeyTake = (\<lambda>_. 0)\<rparr>,
     ch_NetworksAdded = (\<lambda>n. n = 1 \<or> n = 2), ch_SubnetOwnerHotkey = (\<lambda>_. Some 5),
     ChildKeys = (\<lambda>h n. if h = 7 \<and> n = 1 then [(600, child)] else []),
     ParentKeys = (\<lambda>h n. if h = child \<and> n = 1 then [(600, 7)] else []),
     PendingChildKeys = (\<lambda>_. []), PendingChildKeyCooldown = 5, StakeThreshold = 0, ChildkeyTake = (\<lambda>_ _. 0), MaxChildkeyTake = 0\<rparr>,
     ks_neurons = sample_neurons, ks_alpha = sample_stake, ks_Prometheus = (\<lambda>_ _. None), ks_WeightCommits = (\<lambda>_ _. None),
     LoadedEmission = (\<lambda>_. None), TotalHotkeyAlphaLastEpoch = (\<lambda>_ _. 0), AlphaDividendsPerSubnet = (\<lambda>_ _. 0),
     TaoDividendsPerSubnet = (\<lambda>_ _. 0), ks_Delegates = Map.empty, SubnetOwner = (\<lambda>_. 40), IdentitiesV2 = Map.empty,
     ColdkeySwapScheduled = Map.empty, ColdkeySwapScheduleDuration = 5, ColdkeySwapRescheduleDuration = 1,
     LastHotkeySwapOnNetuid = (\<lambda>_ _. 0), ks_NetworksAdded = [(1, True), (2, True)], ks_TotalIssuance = 1000, ks_world = (\<lambda>_. 50)\<rparr>"

lemma sample_prefix_ok: "prefix_ok sample_key_env"
  unfolding prefix_ok_def
proof (intro allI impI conjI)
  fix al :: "(nat, nat) alpha_state" and h c m v
  assume fin: "finite {(c, m). Alpha al h c m \<noteq> None}"
  show "distinct (map fst (alpha_prefix sample_key_env al h))"
    by (simp add: sample_key_env_def comp_def)
  show "((c, m), v) \<in> set (alpha_prefix sample_key_env al h) \<longleftrightarrow> Alpha al h c m = Some v"
    using fin by (auto simp: sample_key_env_def image_iff)
qed

lemma sample_stake_inv: "alpha_inv bits_fixed sample_stake"
proof -
  have "{c. fbits bits_fixed (get_alpha bits_fixed sample_stake h c n) \<noteq> 0} = (if h = 7 \<and> n = 1 then {40} else {})" for h n
    by (auto simp: get_alpha_def sample_stake_def bits_fixed_def u128_max_def)
  then show ?thesis
    unfolding alpha_inv_def by (simp add: total_hotkey_alpha_def total_hotkey_shares_def get_alpha_def sample_stake_def bits_fixed_def
        u64_max_def u128_max_def)
qed

lemma sample_key_fields:
  "ks_netuids (sample_keys c) = [1, 2]" "ks_neurons (sample_keys c) = sample_neurons" "ks_alpha (sample_keys c) = sample_stake"
  "ke_fixed sample_key_env = bits_fixed" "finite {(c, m). Alpha sample_stake 7 c m \<noteq> None}"
proof -
  have "{(c, m). Alpha sample_stake 7 c m \<noteq> None} = {(40, 1)}" by (auto simp: sample_stake_def)
  then show "finite {(c, m). Alpha sample_stake 7 c m \<noteq> None}" by simp
qed (simp_all add: ks_netuids_def sample_keys_def sample_key_env_def)

lemma sample_slots_of: "Uids sample_neurons n h = (if n = 1 then if h = 5 then Some 0 else if h = 7 then Some 1 else if h = 8 then Some 2 else None else None)"
  by (simp add: sample_neurons_def append_neuron_def empty_neurons_def get_subnetwork_n_def Let_def sat_add_def u16_max_def)

lemma sample_swap_cost:
  "ks_world s 40 = 50 \<Longrightarrow> pay_swap_cost sample_key_env 40 5 e s = Inr (burn_tokens 5 (s\<lparr>ks_world := (ks_world s)(40 := 45)\<rparr>))"
  by (simp add: pay_swap_cost_def can_remove_balance_from_coldkey_account_def remove_balance_from_coldkey_account_def sample_key_env_def)

lemma sample_swap_runs:
  "\<exists>s'. do_swap_hotkey sample_key_env (Signed 40) 7 20 None (sample_keys c) = Inr s'"
  "\<exists>s'. do_swap_hotkey sample_key_env (Signed 40) 7 20 (Some 1) (sample_keys c) = Inr s'"
proof -
  have m: "IsNetworkMember sample_neurons 20 n = None" for n
    by (simp add: sample_neurons_def append_neuron_def empty_neurons_def Let_def)
  then have nr: "\<not> is_hotkey_registered_on_any_network sample_neurons 20" by (simp add: any_network_iff)
  have own: "Owner (ks_accounts (sample_keys c)) 7 = Some 40" and lim: "TxRateLimit (ks_limits (sample_keys c)) = 0"
    and w: "ks_world (sample_keys c) 40 = 50" "LastHotkeySwapOnNetuid (sample_keys c) n 40 = 0" for n by (simp_all add: sample_keys_def)
  have E: "KeySwapCost sample_key_env = 5" "KeySwapOnSubnetCost sample_key_env = 5" "env_block sample_key_env = 10"
    "HotkeySwapOnSubnetInterval sample_key_env = 3" "\<not> senate_is_member sample_key_env h v" for h v
    by (simp_all add: sample_key_env_def)
  obtain q where q: "perform_hotkey_swap_on_all_subnets sample_key_env 7 20 40 (burn_tokens 5
      ((set_ks_limits (copy_last_blocks 7 20 (ks_limits (sample_keys c))) (sample_keys c))\<lparr>ks_world := (ks_world (sample_keys c))(40 := 45)\<rparr>)) = Inr q"
    by (simp add: perform_hotkey_swap_on_all_subnets_def Let_def E)
  have "do_swap_hotkey sample_key_env (Signed 40) 7 20 None (sample_keys c) =
      Inr (set_ks_limits (set_last_tx_block 40 10 (ks_limits q)) q)"
    using nr by (simp add: do_swap_hotkey_def Let_def own lim exceeds_tx_rate_limit_def E sample_key_fields sample_swap_cost w q del: and_then_Inr)
  then show "\<exists>s'. do_swap_hotkey sample_key_env (Signed 40) 7 20 None (sample_keys c) = Inr s'" by blast
  show "\<exists>s'. do_swap_hotkey sample_key_env (Signed 40) 7 20 (Some 1) (sample_keys c) = Inr s'"
    using nr m by (simp add: do_swap_hotkey_def swap_hotkey_on_subnet_def Let_def own lim exceeds_tx_rate_limit_def E sample_key_fields
        is_hotkey_registered_on_specific_network_def sat_add_def u64_max_def sample_swap_cost w set_ks_limits_def)
qed

theorem hotkey_swap_keeps_slots_witness:
  "\<exists>s'. do_swap_hotkey sample_key_env (Signed 40) 7 20 None (sample_keys 30) = Inr s' \<and>
    Uids (ks_neurons s') 1 20 = Some 1 \<and> Uids (ks_neurons s') 1 7 = None \<and> Uids (ks_neurons s') 1 8 = Some 2"
proof -
  obtain s' where run: "do_swap_hotkey sample_key_env (Signed 40) 7 20 None (sample_keys 30) = Inr s'" using sample_swap_runs(1) by blast
  have "set (ks_netuids (sample_keys 30)) \<subseteq> {..u16_max}" by (simp add: sample_key_fields u16_max_def)
  from hotkey_swap_keeps_slots[OF run _ _ this] have
    "Uids (ks_neurons s') 1 20 = Uids sample_neurons 1 7 \<and> Uids (ks_neurons s') 1 7 = None"
    "Uids (ks_neurons s') 1 8 = Uids sample_neurons 1 8"
    by (simp_all add: sample_key_fields sample_neurons_inv)
  with run show ?thesis by (simp add: sample_slots_of)
qed

theorem hotkey_swap_keeps_stake_witness:
  "\<exists>s'. do_swap_hotkey sample_key_env (Signed 40) 7 20 None (sample_keys 30) = Inr s' \<and>
    fbits bits_fixed (get_alpha bits_fixed (ks_alpha s') 20 40 1) = 900 \<and>
    fbits bits_fixed (get_alpha bits_fixed (ks_alpha s') 7 40 1) = 0 \<and> total_hotkey_alpha (ks_alpha s') 20 1 = 800"
proof -
  obtain s' where run: "do_swap_hotkey sample_key_env (Signed 40) 7 20 None (sample_keys 30) = Inr s'" using sample_swap_runs(1) by blast
  have V: "fbits bits_fixed (get_alpha bits_fixed sample_stake h c n) = (if h = 7 \<and> c = 40 \<and> n = 1 then 900 else 0)"
    "fbits bits_fixed (total_hotkey_shares bits_fixed sample_stake h n) = (if h = 7 \<and> n = 1 then 900 else 0)"
    "total_hotkey_alpha sample_stake h n = (if h = 7 \<and> n = 1 then 800 else 0)" for h c n
    by (simp_all add: get_alpha_def total_hotkey_shares_def total_hotkey_alpha_def sample_stake_def bits_fixed_def u128_max_def)
  have "stake_moved bits_fixed 7 20 (set [1, 2]) sample_stake (ks_alpha s') \<and> alpha_inv bits_fixed (ks_alpha s')"
    by (rule hotkey_swap_keeps_stake[OF run sample_prefix_ok, unfolded sample_key_fields(1,3,4)])
      (simp_all only: sample_key_fields(5) bits_fixed_ok sample_stake_inv, simp_all add: V u128_max_def u64_max_def)
  then show ?thesis using run by (simp add: stake_moved_def V)
qed

theorem hotkey_swap_marks_membership_witness:
  "\<exists>s'. do_swap_hotkey sample_key_env (Signed 40) 7 20 None (sample_keys 30) = Inr s' \<and>
    is_hotkey_registered_on_specific_network (ks_neurons s') 20 2 \<and> \<not> is_hotkey_registered_on_network (ks_neurons s') 2 20"
proof -
  obtain s' where run: "do_swap_hotkey sample_key_env (Signed 40) 7 20 None (sample_keys 30) = Inr s'" using sample_swap_runs(1) by blast
  have "set (ks_netuids (sample_keys 30)) \<subseteq> {..u16_max}" by (simp add: sample_key_fields u16_max_def)
  from hotkey_swap_marks_membership[OF run _ _ this, of 2] run show ?thesis
    by (auto simp: sample_key_fields sample_neurons_inv sample_slots_of)
qed

lemma sample_family_inv: "family_inv (ks_children (sample_keys 30)) m" "outside_families 20 m (ks_children (sample_keys 30))"
  by (auto simp: family_inv_def dual_inv_def valid_children_def outside_families_def sample_keys_def u64_max_def)

theorem hotkey_swap_keeps_family_witness:
  "\<exists>s'. do_swap_hotkey sample_key_env (Signed 40) 7 20 (Some 1) (sample_keys 30) = Inr s' \<and>
    ChildKeys (ks_children s') 20 1 = [(600, 30)] \<and> family_inv (ks_children s') 1"
proof -
  obtain s' where run: "do_swap_hotkey sample_key_env (Signed 40) 7 20 (Some 1) (sample_keys 30) = Inr s'" using sample_swap_runs(2) by blast
  have "ChildKeys (ks_children (sample_keys 30)) 7 1 = [(600, 30)]" by (simp add: sample_keys_def)
  with hotkey_swap_keeps_family[OF run sample_family_inv(1) _ sample_family_inv(2)] run show ?thesis by (simp add: sample_key_fields)
qed

theorem hotkey_swap_self_child_witness:
  "\<exists>s'. do_swap_hotkey sample_key_env (Signed 40) 7 20 (Some 1) (sample_keys 20) = Inr s' \<and> (600, 20) \<in> set (ChildKeys (ks_children s') 20 1)"
proof -
  obtain s' where run: "do_swap_hotkey sample_key_env (Signed 40) 7 20 (Some 1) (sample_keys 20) = Inr s'" using sample_swap_runs(2) by blast
  have "(600, 20) \<in> set (ChildKeys (ks_children (sample_keys 20)) 7 1)" by (simp add: sample_keys_def)
  from hotkey_swap_self_child[OF run this] run show ?thesis by blast
qed

theorem coldkey_swap_moves_all_witness:
  "\<exists>s'. do_swap_coldkey sample_key_env 40 41 5 (sample_keys 30) = Inr s' \<and>
    Owner (ks_accounts s') 7 = Some 41 \<and> SubnetOwner s' 2 = 41 \<and>
    fbits bits_fixed (get_alpha bits_fixed (ks_alpha s') 7 41 1) = 900 \<and> fbits bits_fixed (get_alpha bits_fixed (ks_alpha s') 7 40 1) = 0"
proof -
  have acc: "StakingHotkeys (ks_accounts (sample_keys 30)) 41 = []" "Owner (ks_accounts (sample_keys 30)) 41 = None"
    "Owner (ks_accounts (sample_keys 30)) 7 = Some 40" "SubnetOwner (sample_keys 30) n = 40" "ks_world (sample_keys 30) 40 = 50"
    "StakingHotkeys (ks_accounts (sample_keys 30)) 40 = [7]" for n
    by (simp_all add: sample_keys_def)
  have "do_swap_coldkey sample_key_env 40 41 5 (sample_keys 30) \<noteq> Inl e" for e
    by (simp add: do_swap_coldkey_def acc hotkey_account_exists_def sample_swap_cost Let_def split_beta)
  then obtain s' where run: "do_swap_coldkey sample_key_env 40 41 5 (sample_keys 30) = Inr s'" by (meson sum.exhaust_sel)
  have V: "fbits bits_fixed (get_alpha bits_fixed sample_stake h c n) = (if h = 7 \<and> c = 40 \<and> n = 1 then 900 else 0)" for h c n
    by (simp add: get_alpha_def sample_stake_def bits_fixed_def u128_max_def)
  have "accounts_inv (ks_accounts (sample_keys 30))" by (simp add: accounts_inv_def sample_keys_def)
  then have "accounts_inv (ks_accounts s') \<and>
    (\<forall>h. Owner (ks_accounts s') h = (if Owner (ks_accounts (sample_keys 30)) h = Some 40 then Some 41 else Owner (ks_accounts (sample_keys 30)) h)) \<and>
    (\<forall>n \<in> set [1, 2]. SubnetOwner s' n = (if SubnetOwner (sample_keys 30) n = 40 then 41 else SubnetOwner (sample_keys 30) n)) \<and>
    coldkey_moved bits_fixed 40 41 UNIV sample_stake (ks_alpha s') \<and> alpha_inv bits_fixed (ks_alpha s')"
    by (intro coldkey_swap_moves_all[OF run, unfolded sample_key_fields(1,3,4)] bits_fixed_ok sample_stake_inv)
      (simp_all add: V acc split: if_splits)
  then show ?thesis using run by (simp add: acc V coldkey_moved_def)
qed

end
