(* ===== verification/Collective.thy ===== *)
theory Collective
  imports Storage "HOL-Library.Multiset"
begin

text \<open>
  The collective pallet (\<open>pallets/collective/src/lib.rs\<close>), through which the senate votes on
  motions. The state has the active proposals, their votes, the members and the prime; the
  field \<open>c_world\<close> stands for the rest of the chain, which decides who may propose and vote and
  how many seats there are. The runtime call of a proposal is dispatched by a parameter that may
  change the whole state; so are the hash, the encoded size and the weight of a proposal, and
  the member difference of \<open>frame_support\<close>'s \<open>ChangeMembers\<close>. The weights that a call reports
  are left out, except whether its fee is waived.
\<close>

section \<open>Data\<close>

datatype collective_error =
    NotMember | DuplicateProposal | ProposalNotExists | IndexMismatchProposalHash | DuplicateVote
  | TooEarlyToCloseProposal | TooManyActiveProposals | ProposalWeightLessThanDispatchCallWeight
  | ProposalLengthBoundLessThanProposalLength | DurationLowerThanConfiguredMotionDuration
  | BadOrigin

datatype 'a raw_origin = Members_origin nat nat | Member_origin 'a

record 'a motion =
  v_index :: nat
  v_threshold :: nat
  v_ayes :: "'a list"
  v_nays :: "'a list"
  v_end :: nat

record ('a, 'h, 'p, 'w) collective_state =
  Proposals :: "'h list"
  ProposalOf :: "'h \<Rightarrow> 'p option"
  Voting :: "'h \<Rightarrow> 'a motion option"
  ProposalCount :: nat
  Members :: "'a list"
  Prime :: "'a option"
  c_world :: 'w

record ('a, 'h, 'p, 'w) collective_config =
  MotionDuration :: nat
  MaxProposals :: nat
  DefaultVote :: "bool option \<Rightarrow> nat \<Rightarrow> nat \<Rightarrow> nat \<Rightarrow> bool"
  SetMembersOrigin :: "'a origin \<Rightarrow> bool"
  CanPropose :: "'w \<Rightarrow> 'a \<Rightarrow> bool"
  CanVote :: "'w \<Rightarrow> 'a \<Rightarrow> bool"
  GetVotingMembers :: "'w \<Rightarrow> nat"
  proposal_hash_of :: "'p \<Rightarrow> 'h"
  encoded_size :: "'p \<Rightarrow> nat"
  call_weight :: "'p \<Rightarrow> nat \<times> nat"
  members_diff :: "'a list \<Rightarrow> 'a list \<Rightarrow> 'a list \<times> 'a list"
  dispatch_proposal :: "'a raw_origin \<Rightarrow> 'p \<Rightarrow> ('a, 'h, 'p, 'w) collective_state \<Rightarrow> ('a, 'h, 'p, 'w) collective_state"

section \<open>Default votes\<close>

definition prime_default_vote :: "bool option \<Rightarrow> nat \<Rightarrow> nat \<Rightarrow> nat \<Rightarrow> bool" where
  "prime_default_vote prime_vote yes_votes no_votes len = (case prime_vote of None \<Rightarrow> False | Some b \<Rightarrow> b)"

definition more_than_majority_then_prime_default_vote :: "bool option \<Rightarrow> nat \<Rightarrow> nat \<Rightarrow> nat \<Rightarrow> bool" where
  "more_than_majority_then_prime_default_vote prime_vote yes_votes no_votes len =
     (let more_than_majority = sat_mul u32_max yes_votes 2 > len
      in more_than_majority \<or> (case prime_vote of None \<Rightarrow> False | Some b \<Rightarrow> b))"

section \<open>Helpers\<close>

text \<open>\<open>Iterator::position\<close> and \<open>Vec::swap_remove\<close>.\<close>

fun position :: "'a \<Rightarrow> 'a list \<Rightarrow> nat option" where
  "position x [] = None"
| "position x (y # ys) = (if y = x then Some 0 else map_option Suc (position x ys))"

definition swap_remove :: "'a list \<Rightarrow> nat \<Rightarrow> 'a list" where
  "swap_remove xs i = butlast (xs[i := last xs])"

definition is_member :: "('a, 'h, 'p, 'w) collective_state \<Rightarrow> 'a \<Rightarrow> bool" where
  "is_member s who \<longleftrightarrow> who \<in> set (Members s)"

definition remove_proposal ::
    "'h \<Rightarrow> ('a, 'h, 'p, 'w) collective_state \<Rightarrow> ('a, 'h, 'p, 'w) collective_state" where
  "remove_proposal proposal_hash s =
     s\<lparr>ProposalOf := (ProposalOf s)(proposal_hash := None),
       Voting := (Voting s)(proposal_hash := None),
       Proposals := filter (\<lambda>h. h \<noteq> proposal_hash) (Proposals s)\<rparr>"

definition do_disapprove_proposal ::
    "'h \<Rightarrow> ('a, 'h, 'p, 'w) collective_state \<Rightarrow> ('a, 'h, 'p, 'w) collective_state" where
  "do_disapprove_proposal proposal_hash s = remove_proposal proposal_hash s"

definition do_approve_proposal ::
    "('a, 'h, 'p, 'w) collective_config \<Rightarrow> nat \<Rightarrow> nat \<Rightarrow> 'h \<Rightarrow> 'p \<Rightarrow>
     ('a, 'h, 'p, 'w) collective_state \<Rightarrow> ('a, 'h, 'p, 'w) collective_state" where
  "do_approve_proposal cfg seats yes_votes proposal_hash proposal s =
     (let origin = Members_origin yes_votes seats;
          s = dispatch_proposal cfg origin proposal s
      in remove_proposal proposal_hash s)"

definition validate_and_get_proposal ::
    "('a, 'h, 'p, 'w) collective_config \<Rightarrow> 'h \<Rightarrow> nat \<Rightarrow> nat \<times> nat \<Rightarrow> ('a, 'h, 'p, 'w) collective_state \<Rightarrow>
     (collective_error, 'p) result" where
  "validate_and_get_proposal cfg hash length_bound weight_bound s =
     and_then (ok_or (ProposalOf s hash) ProposalNotExists) (\<lambda>proposal.
     ensure (encoded_size cfg proposal \<le> length_bound) ProposalLengthBoundLessThanProposalLength
    (let proposal_weight = call_weight cfg proposal in
     ensure (fst proposal_weight \<le> fst weight_bound \<and> snd proposal_weight \<le> snd weight_bound)
       ProposalWeightLessThanDispatchCallWeight (Inr proposal)))"

section \<open>Proposing and voting\<close>

definition do_propose_proposed ::
    "('a, 'h, 'p, 'w) collective_config \<Rightarrow> nat \<Rightarrow> 'a \<Rightarrow> nat \<Rightarrow> 'p \<Rightarrow> nat \<Rightarrow> nat \<Rightarrow>
     ('a, 'h, 'p, 'w) collective_state \<Rightarrow> (collective_error, ('a, 'h, 'p, 'w) collective_state) result" where
  "do_propose_proposed cfg now who threshold proposal length_bound duration s =
     (let proposal_len = encoded_size cfg proposal in
      ensure (proposal_len \<le> length_bound) ProposalLengthBoundLessThanProposalLength
     (let proposal_hash = proposal_hash_of cfg proposal in
      ensure (ProposalOf s proposal_hash = None) DuplicateProposal
     (ensure (length (Proposals s) < MaxProposals cfg) TooManyActiveProposals
     (let s = s\<lparr>Proposals := Proposals s @ [proposal_hash]\<rparr>;
          index = ProposalCount s
      in and_then (ok_or (checked_add u32_max index 1) TooManyActiveProposals) (\<lambda>count.
         let votes = \<lparr>v_index = index, v_threshold = threshold, v_ayes = [], v_nays = [],
               v_end = sat_add u32_max now duration\<rparr>
         in Inr (s\<lparr>ProposalCount := count,
                   ProposalOf := (ProposalOf s)(proposal_hash \<mapsto> proposal),
                   Voting := (Voting s)(proposal_hash \<mapsto> votes)\<rparr>))))))"

definition do_vote ::
    "'a \<Rightarrow> 'h \<Rightarrow> nat \<Rightarrow> bool \<Rightarrow> ('a, 'h, 'p, 'w) collective_state \<Rightarrow>
     (collective_error, bool \<times> ('a, 'h, 'p, 'w) collective_state) result" where
  "do_vote who proposal index approve s =
     and_then (ok_or (Voting s proposal) ProposalNotExists) (\<lambda>voting.
     ensure (v_index voting = index) IndexMismatchProposalHash
    (let position_yes = position who (v_ayes voting);
         position_no = position who (v_nays voting);
         is_account_voting_first_time = (position_yes = None \<and> position_no = None)
     in and_then
        (if approve
         then if position_yes = None
              then let voting = voting\<lparr>v_ayes := v_ayes voting @ [who]\<rparr> in
                   Inr (case position_no of None \<Rightarrow> voting
                        | Some pos \<Rightarrow> voting\<lparr>v_nays := swap_remove (v_nays voting) pos\<rparr>)
              else Inl DuplicateVote
         else if position_no = None
              then let voting = voting\<lparr>v_nays := v_nays voting @ [who]\<rparr> in
                   Inr (case position_yes of None \<Rightarrow> voting
                        | Some pos \<Rightarrow> voting\<lparr>v_ayes := swap_remove (v_ayes voting) pos\<rparr>)
              else Inl DuplicateVote) (\<lambda>voting.
        Inr (is_account_voting_first_time, s\<lparr>Voting := (Voting s)(proposal \<mapsto> voting)\<rparr>))))"

section \<open>Closing\<close>

text \<open>The result carries whether the caller pays the fee (\<open>Pays::Yes\<close>).\<close>

definition do_close ::
    "('a, 'h, 'p, 'w) collective_config \<Rightarrow> nat \<Rightarrow> 'h \<Rightarrow> nat \<Rightarrow> nat \<times> nat \<Rightarrow> nat \<Rightarrow>
     ('a, 'h, 'p, 'w) collective_state \<Rightarrow> (collective_error, bool \<times> ('a, 'h, 'p, 'w) collective_state) result" where
  "do_close cfg now proposal_hash index proposal_weight_bound length_bound s =
     and_then (ok_or (Voting s proposal_hash) ProposalNotExists) (\<lambda>voting.
     ensure (v_index voting = index) IndexMismatchProposalHash
    (let no_votes = length (v_nays voting);
         yes_votes = length (v_ayes voting);
         seats = GetVotingMembers cfg (c_world s);
         approved = (yes_votes \<ge> v_threshold voting);
         disapproved = (seats - no_votes < v_threshold voting)
     in if approved
        then and_then (validate_and_get_proposal cfg proposal_hash length_bound proposal_weight_bound s) (\<lambda>proposal.
          Inr (True, do_approve_proposal cfg seats yes_votes proposal_hash proposal s))
        else if disapproved
        then Inr (False, do_disapprove_proposal proposal_hash s)
        else ensure (now \<ge> v_end voting) TooEarlyToCloseProposal
       (let prime_vote = map_option (\<lambda>who. list_ex (\<lambda>a. a = who) (v_ayes voting)) (Prime s);
            default = DefaultVote cfg prime_vote yes_votes no_votes seats;
            abstentions = seats - sat_add u32_max yes_votes no_votes;
            yes_votes = (if default then sat_add u32_max yes_votes abstentions else yes_votes);
            approved = (yes_votes \<ge> v_threshold voting)
        in if approved
           then and_then (validate_and_get_proposal cfg proposal_hash length_bound proposal_weight_bound s) (\<lambda>proposal.
             Inr (True, do_approve_proposal cfg seats yes_votes proposal_hash proposal s))
           else Inr (False, do_disapprove_proposal proposal_hash s))))"

section \<open>Members\<close>

definition filter_votes ::
    "('a \<Rightarrow> bool) \<Rightarrow> 'h \<Rightarrow> ('a, 'h, 'p, 'w) collective_state \<Rightarrow> ('a, 'h, 'p, 'w) collective_state" where
  "filter_votes keep h s =
     s\<lparr>Voting := (Voting s)(h := (case Voting s h of
        None \<Rightarrow> None
      | Some votes \<Rightarrow> Some (votes\<lparr>v_ayes := filter keep (v_ayes votes), v_nays := filter keep (v_nays votes)\<rparr>)))\<rparr>"

definition remove_votes ::
    "'a \<Rightarrow> ('a, 'h, 'p, 'w) collective_state \<Rightarrow> ('a, 'h, 'p, 'w) collective_state" where
  "remove_votes who s = fold (filter_votes (\<lambda>i. i \<noteq> who)) (Proposals s) s"

definition has_voted ::
    "'h \<Rightarrow> nat \<Rightarrow> 'a \<Rightarrow> ('a, 'h, 'p, 'w) collective_state \<Rightarrow> (collective_error, bool) result" where
  "has_voted proposal index who s =
     and_then (ok_or (Voting s proposal) ProposalNotExists) (\<lambda>voting.
     ensure (v_index voting = index) IndexMismatchProposalHash
       (Inr (position who (v_ayes voting) \<noteq> None \<or> position who (v_nays voting) \<noteq> None)))"

text \<open>The binary search runs on the sorted vector, where it decides membership.\<close>

definition change_members_sorted ::
    "'a::linorder list \<Rightarrow> 'a list \<Rightarrow> 'a list \<Rightarrow> ('a, 'h, 'p, 'w) collective_state \<Rightarrow>
     ('a, 'h, 'p, 'w) collective_state" where
  "change_members_sorted incoming outgoing new s =
     (let outgoing = sort outgoing;
          s = fold (filter_votes (\<lambda>i. i \<notin> set outgoing)) (Proposals s) s
      in s\<lparr>Members := new, Prime := None\<rparr>)"

section \<open>Calls\<close>

definition set_members ::
    "('a::linorder, 'h, 'p, 'w) collective_config \<Rightarrow> 'a origin \<Rightarrow> 'a list \<Rightarrow> 'a option \<Rightarrow>
     ('a, 'h, 'p, 'w) collective_state \<Rightarrow> (collective_error, ('a, 'h, 'p, 'w) collective_state) result" where
  "set_members cfg og new_members prime s =
     ensure (SetMembersOrigin cfg og) BadOrigin
    (let old = Members s;
         new_members = sort new_members;
         (incoming, outgoing) = members_diff cfg new_members old;
         s = change_members_sorted incoming outgoing new_members s
     in Inr (s\<lparr>Prime := prime\<rparr>))"

definition execute ::
    "('a, 'h, 'p, 'w) collective_config \<Rightarrow> 'a origin \<Rightarrow> 'p \<Rightarrow> nat \<Rightarrow>
     ('a, 'h, 'p, 'w) collective_state \<Rightarrow> (collective_error, ('a, 'h, 'p, 'w) collective_state) result" where
  "execute cfg og proposal length_bound s =
     and_then (ensure_signed BadOrigin og) (\<lambda>who.
     ensure (who \<in> set (Members s)) NotMember
    (ensure (encoded_size cfg proposal \<le> length_bound) ProposalLengthBoundLessThanProposalLength
    (Inr (dispatch_proposal cfg (Member_origin who) proposal s))))"

definition propose ::
    "('a, 'h, 'p, 'w) collective_config \<Rightarrow> nat \<Rightarrow> 'a origin \<Rightarrow> 'p \<Rightarrow> nat \<Rightarrow> nat \<Rightarrow>
     ('a, 'h, 'p, 'w) collective_state \<Rightarrow> (collective_error, ('a, 'h, 'p, 'w) collective_state) result" where
  "propose cfg now og proposal length_bound duration s =
     and_then (ensure_signed BadOrigin og) (\<lambda>who.
     ensure (CanPropose cfg (c_world s) who) NotMember
    (ensure (duration \<ge> MotionDuration cfg) DurationLowerThanConfiguredMotionDuration
    (let threshold = sat_add u32_max
           (case checked_div (GetVotingMembers cfg (c_world s)) 2 of None \<Rightarrow> 0 | Some q \<Rightarrow> q) 1
     in do_propose_proposed cfg now who threshold proposal length_bound duration s)))"

definition vote ::
    "('a, 'h, 'p, 'w) collective_config \<Rightarrow> 'a origin \<Rightarrow> 'h \<Rightarrow> nat \<Rightarrow> bool \<Rightarrow>
     ('a, 'h, 'p, 'w) collective_state \<Rightarrow> (collective_error, bool \<times> ('a, 'h, 'p, 'w) collective_state) result" where
  "vote cfg og proposal index approve s =
     and_then (ensure_signed BadOrigin og) (\<lambda>who.
     ensure (CanVote cfg (c_world s) who) NotMember (do_vote who proposal index approve s))"

definition disapprove_proposal ::
    "'a origin \<Rightarrow> 'h \<Rightarrow> ('a, 'h, 'p, 'w) collective_state \<Rightarrow>
     (collective_error, ('a, 'h, 'p, 'w) collective_state) result" where
  "disapprove_proposal og proposal_hash s =
     and_then (ensure_root BadOrigin og) (\<lambda>_. Inr (do_disapprove_proposal proposal_hash s))"

definition close ::
    "('a, 'h, 'p, 'w) collective_config \<Rightarrow> nat \<Rightarrow> 'a origin \<Rightarrow> 'h \<Rightarrow> nat \<Rightarrow> nat \<times> nat \<Rightarrow> nat \<Rightarrow>
     ('a, 'h, 'p, 'w) collective_state \<Rightarrow> (collective_error, bool \<times> ('a, 'h, 'p, 'w) collective_state) result" where
  "close cfg now og proposal_hash index proposal_weight_bound length_bound s =
     and_then (ensure_root BadOrigin og) (\<lambda>_.
       do_close cfg now proposal_hash index proposal_weight_bound length_bound s)"

text \<open>\<open>ensure_members\<close> and the origins that require a number or a share of the seats.\<close>

definition ensure_members :: "'a raw_origin \<Rightarrow> nat \<Rightarrow> nat option" where
  "ensure_members orig n = (case orig of Members_origin x _ \<Rightarrow> if x \<ge> n then Some n else None | Member_origin _ \<Rightarrow> None)"

definition ensure_proportion_more_than :: "nat \<Rightarrow> nat \<Rightarrow> 'a raw_origin \<Rightarrow> bool" where
  "ensure_proportion_more_than N D orig =
     (case orig of Members_origin n m \<Rightarrow> sat_mul u32_max n D > sat_mul u32_max N m | Member_origin _ \<Rightarrow> False)"

definition ensure_proportion_at_least :: "nat \<Rightarrow> nat \<Rightarrow> 'a raw_origin \<Rightarrow> bool" where
  "ensure_proportion_at_least N D orig =
     (case orig of Members_origin n m \<Rightarrow> sat_mul u32_max n D \<ge> sat_mul u32_max N m | Member_origin _ \<Rightarrow> False)"

section \<open>Votes\<close>

lemma position_None [simp]: "position x xs = None \<longleftrightarrow> x \<notin> set xs"
  by (induction x xs rule: position.induct) auto

lemma position_notin [simp]: "x \<notin> set xs \<Longrightarrow> position x xs = None"
  by simp

lemma position_Some: "position x xs = Some i \<Longrightarrow> i < length xs \<and> xs ! i = x"
  by (induction x xs arbitrary: i rule: position.induct) (auto split: if_splits)

lemma mset_swap_remove:
  assumes "i < length xs"
  shows "add_mset (xs ! i) (mset (swap_remove xs i)) = mset xs"
proof (cases xs rule: rev_cases)
  case (snoc ys y)
  then show ?thesis
    using assms mset_update[of i ys y] by (cases "i = length ys") (auto simp: swap_remove_def nth_append list_update_append)
qed (use assms in simp)

lemma swap_remove_position:
  assumes "distinct xs" "position x xs = Some i"
  shows "distinct (swap_remove xs i)" "set (swap_remove xs i) = set xs - {x}"
    "length xs = Suc (length (swap_remove xs i))"
proof -
  from position_Some[OF assms(2)] have m: "mset xs = add_mset x (mset (swap_remove xs i))"
    using mset_swap_remove[of i xs] by auto
  from assms(1) have "distinct (x # swap_remove xs i)"
    using m by (metis mset.simps(2) mset_eq_imp_distinct_iff)
  moreover have "set xs = insert x (set (swap_remove xs i))"
    using m by (metis set_mset_add_mset_insert set_mset_mset)
  ultimately show "distinct (swap_remove xs i)" "set (swap_remove xs i) = set xs - {x}" by auto
  show "length xs = Suc (length (swap_remove xs i))" using m by (metis size_add_mset size_mset)
qed

definition motion_inv :: "'a motion \<Rightarrow> bool" where
  "motion_inv v \<longleftrightarrow> distinct (v_ayes v) \<and> distinct (v_nays v) \<and> set (v_ayes v) \<inter> set (v_nays v) = {}"

text \<open>What one accepted vote does to the motion.\<close>

lemma do_voteE:
  assumes "do_vote who h index approve s = Inr (first_time, s')" "motion_inv (the (Voting s h))"
  obtains v v' where "Voting s h = Some v" "v_index v = index" "s' = s\<lparr>Voting := (Voting s)(h \<mapsto> v')\<rparr>"
    "motion_inv v'" "v_index v' = v_index v" "v_threshold v' = v_threshold v" "v_end v' = v_end v"
    "first_time \<longleftrightarrow> who \<notin> set (v_ayes v) \<union> set (v_nays v)"
    "set (v_ayes v') = (if approve then insert who (set (v_ayes v)) else set (v_ayes v) - {who})"
    "set (v_nays v') = (if approve then set (v_nays v) - {who} else insert who (set (v_nays v)))"
    "who \<notin> (if approve then set (v_ayes v) else set (v_nays v))"
    "length (v_ayes v') + length (v_nays v') = length (v_ayes v) + length (v_nays v) + (if first_time then 1 else 0)"
proof -
  from assms(1) obtain v where v: "Voting s h = Some v" "v_index v = index" by (auto simp: do_vote_def)
  then have inv: "distinct (v_ayes v)" "distinct (v_nays v)" "set (v_ayes v) \<inter> set (v_nays v) = {}"
    using assms(2) by (auto simp: motion_inv_def)
  note D = assms(1)[unfolded do_vote_def v Let_def, simplified]
  show thesis
  proof (cases approve)
    case True
    show thesis
    proof (cases "position who (v_nays v)")
      case None
      with True D inv v show thesis
        by (intro that[of v "v\<lparr>v_ayes := v_ayes v @ [who]\<rparr>"]) (auto simp: motion_inv_def split: if_splits)
    next
      case (Some i)
      note S = swap_remove_position[OF inv(2) Some]
      have "who \<in> set (v_nays v)" using position_Some[OF Some] by (metis nth_mem)
      with True D inv v Some S show thesis
        by (intro that[of v "v\<lparr>v_ayes := v_ayes v @ [who], v_nays := swap_remove (v_nays v) i\<rparr>"])
          (auto simp: motion_inv_def split: if_splits)
    qed
  next
    case False
    show thesis
    proof (cases "position who (v_ayes v)")
      case None
      with False D inv v show thesis
        by (intro that[of v "v\<lparr>v_nays := v_nays v @ [who]\<rparr>"]) (auto simp: motion_inv_def split: if_splits)
    next
      case (Some i)
      note S = swap_remove_position[OF inv(1) Some]
      have "who \<in> set (v_ayes v)" using position_Some[OF Some] by (metis nth_mem)
      with False D inv v Some S show thesis
        by (intro that[of v "v\<lparr>v_nays := v_nays v @ [who], v_ayes := swap_remove (v_ayes v) i\<rparr>"])
          (auto simp: motion_inv_def split: if_splits)
    qed
  qed
qed

section \<open>Invariant\<close>

definition collective_inv :: "('a, 'h, 'p, 'w) collective_config \<Rightarrow> ('a, 'h, 'p, 'w) collective_state \<Rightarrow> bool" where
  "collective_inv cfg s \<longleftrightarrow>
     distinct (Proposals s) \<and> length (Proposals s) \<le> MaxProposals cfg \<and>
     dom (ProposalOf s) = set (Proposals s) \<and> dom (Voting s) = set (Proposals s) \<and>
     (\<forall>h p. ProposalOf s h = Some p \<longrightarrow> h = proposal_hash_of cfg p) \<and>
     (\<forall>h v. Voting s h = Some v \<longrightarrow> motion_inv v \<and> v_index v < ProposalCount s) \<and>
     inj_on (\<lambda>h. v_index (the (Voting s h))) (set (Proposals s))"

text \<open>The rest of the chain keeps the bookkeeping of the motions intact when a proposal is dispatched.\<close>

definition dispatch_keeps_inv :: "('a, 'h, 'p, 'w) collective_config \<Rightarrow> bool" where
  "dispatch_keeps_inv cfg \<longleftrightarrow> (\<forall>orig p s. collective_inv cfg s \<longrightarrow> collective_inv cfg (dispatch_proposal cfg orig p s))"

lemma collective_invD:
  assumes "collective_inv cfg s" "Voting s h = Some v"
  shows "motion_inv v" "h \<in> set (Proposals s)" "\<exists>p. ProposalOf s h = Some p" "v_index v < ProposalCount s"
proof -
  have "h \<in> dom (Voting s)" using assms(2) by auto
  then have "h \<in> dom (ProposalOf s)" "h \<in> set (Proposals s)" using assms(1) unfolding collective_inv_def by blast+
  then show "\<exists>p. ProposalOf s h = Some p" "h \<in> set (Proposals s)" by auto
  show "motion_inv v" "v_index v < ProposalCount s" using assms unfolding collective_inv_def by blast+
qed

lemma remove_proposal_inv:
  assumes "collective_inv cfg s"
  shows "collective_inv cfg (remove_proposal h s)"
  using assms by (auto simp: collective_inv_def remove_proposal_def inj_on_def intro: le_trans[OF length_filter_le])

text \<open>Replacing the motions of the active proposals by motions with the same index.\<close>

lemma put_motions_inv:
  assumes "collective_inv cfg s" "dom V = dom (Voting s)"
    and "\<And>h v'. V h = Some v' \<Longrightarrow> motion_inv v' \<and> (\<exists>v. Voting s h = Some v \<and> v_index v' = v_index v)"
    and "Proposals s' = Proposals s" "ProposalOf s' = ProposalOf s" "ProposalCount s' = ProposalCount s" "Voting s' = V"
  shows "collective_inv cfg s'"
proof -
  have idx: "v_index (the (V h)) = v_index (the (Voting s h))" if "h \<in> dom V" for h
    using assms(3)[of h] that by force
  have P: "dom V = set (Proposals s)" using assms(1,2) by (simp add: collective_inv_def)
  have "inj_on (\<lambda>h. v_index (the (V h))) (set (Proposals s))"
    using assms(1) idx unfolding P collective_inv_def by (auto simp: inj_on_def)
  moreover have "motion_inv v \<and> v_index v < ProposalCount s" if "V h = Some v" for h v
    using assms(3)[OF that] collective_invD(4)[OF assms(1)] by fastforce
  ultimately show ?thesis using assms by (simp add: collective_inv_def)
qed

lemma do_vote_inv:
  assumes "collective_inv cfg s" "do_vote who h index approve s = Inr (b, s')"
  shows "collective_inv cfg s'"
proof -
  have "motion_inv (the (Voting s h))"
    using assms collective_invD(1)[OF assms(1)] by (auto simp: do_vote_def)
  with assms(2) show ?thesis
  proof (rule do_voteE)
    fix v v'
    assume v: "Voting s h = Some v" "s' = s\<lparr>Voting := (Voting s)(h \<mapsto> v')\<rparr>" "motion_inv v'" "v_index v' = v_index v"
    show ?thesis
      by (rule put_motions_inv[OF assms(1), of "(Voting s)(h \<mapsto> v')"])
        (use v collective_invD(1)[OF assms(1)] in \<open>auto split: if_splits\<close>)
  qed
qed

lemma filter_votes_fold:
  "Proposals (fold (filter_votes keep) hs s) = Proposals s"
  "ProposalOf (fold (filter_votes keep) hs s) = ProposalOf s"
  "ProposalCount (fold (filter_votes keep) hs s) = ProposalCount s"
  "Voting (fold (filter_votes keep) hs s) h =
     (if h \<in> set hs then map_option (\<lambda>v. v\<lparr>v_ayes := filter keep (v_ayes v), v_nays := filter keep (v_nays v)\<rparr>) (Voting s h)
      else Voting s h)"
  by (induction hs arbitrary: s) (auto simp: filter_votes_def option.map_comp o_def split: option.split)

lemma filter_votes_inv:
  assumes "collective_inv cfg s"
  shows "collective_inv cfg (fold (filter_votes keep) (Proposals s) s)"
proof (rule put_motions_inv[OF assms])
  let ?V = "Voting (fold (filter_votes keep) (Proposals s) s)"
  show "dom ?V = dom (Voting s)" by (auto simp: filter_votes_fold dom_def split: if_splits)
  fix h v'
  assume v': "?V h = Some v'"
  then obtain v where v: "Voting s h = Some v"
    and eq: "v' = v\<lparr>v_ayes := filter keep (v_ayes v), v_nays := filter keep (v_nays v)\<rparr> \<or> v' = v"
    by (auto simp: filter_votes_fold split: if_splits)
  with collective_invD(1)[OF assms v] show "motion_inv v' \<and> (\<exists>v. Voting s h = Some v \<and> v_index v' = v_index v)"
    by (auto simp: motion_inv_def)
qed (simp_all add: filter_votes_fold)

lemma collective_inv_members [simp]:
  "collective_inv cfg (s\<lparr>Members := m, Prime := p\<rparr>) = collective_inv cfg s"
  "collective_inv cfg (s\<lparr>Prime := p\<rparr>) = collective_inv cfg s"
  "collective_inv cfg (s\<lparr>Members := m\<rparr>) = collective_inv cfg s"
  "collective_inv cfg (s\<lparr>c_world := w\<rparr>) = collective_inv cfg s"
  by (simp_all add: collective_inv_def)

lemma set_members_inv:
  assumes "collective_inv cfg s" "set_members cfg og new prime s = Inr s'"
  shows "collective_inv cfg s'"
  using assms filter_votes_inv[OF assms(1)]
  by (auto simp: set_members_def change_members_sorted_def Let_def case_prod_unfold)

lemma propose_inv:
  fixes s :: "('a, 'h, 'p, 'w) collective_state"
  assumes "collective_inv cfg s" "propose cfg now og p len dur s = Inr s'"
  shows "collective_inv cfg s'"
proof -
  let ?h = "proposal_hash_of cfg p"
  define v where "v = \<lparr>v_index = ProposalCount s, v_threshold = sat_add u32_max
      (case checked_div (GetVotingMembers cfg (c_world s)) 2 of None \<Rightarrow> 0 | Some q \<Rightarrow> q) 1,
      v_ayes = ([] :: 'a list), v_nays = [], v_end = sat_add u32_max now dur\<rparr>"
  have new: "ProposalOf s ?h = None" "length (Proposals s) < MaxProposals cfg"
    "v_ayes v = []" "v_nays v = []" "v_index v = ProposalCount s"
    and s': "s' = s\<lparr>Proposals := Proposals s @ [?h], ProposalCount := ProposalCount s + 1,
      ProposalOf := (ProposalOf s)(?h \<mapsto> p), Voting := (Voting s)(?h \<mapsto> v)\<rparr>"
    using assms(2) by (auto simp: propose_def do_propose_proposed_def Let_def v_def)
  have fresh: "?h \<notin> set (Proposals s)" using new(1) assms(1) by (auto simp: collective_inv_def)
  have idx: "v_index (the (Voting s h)) \<noteq> ProposalCount s" if "h \<in> set (Proposals s)" for h
  proof -
    have "h \<in> dom (Voting s)" using assms(1) that by (simp add: collective_inv_def)
    then obtain v where "Voting s h = Some v" by auto
    with collective_invD(4)[OF assms(1) this] show ?thesis by simp
  qed
  have "inj_on (\<lambda>h. v_index (the (((Voting s)(?h \<mapsto> v)) h))) (insert ?h (set (Proposals s)))"
  proof -
    have "inj_on (\<lambda>h. v_index (the (((Voting s)(?h \<mapsto> v)) h))) (set (Proposals s)) =
        inj_on (\<lambda>h. v_index (the (Voting s h))) (set (Proposals s))"
      using fresh by (intro inj_on_cong) auto
    moreover have "v_index v \<notin> (\<lambda>h. v_index (the (((Voting s)(?h \<mapsto> v)) h))) ` set (Proposals s)"
    proof
      assume "v_index v \<in> (\<lambda>h. v_index (the (((Voting s)(?h \<mapsto> v)) h))) ` set (Proposals s)"
      then obtain g where g: "g \<in> set (Proposals s)" "v_index v = v_index (the (((Voting s)(?h \<mapsto> v)) g))" by blast
      then have "g \<noteq> ?h" using fresh by blast
      with g(2) idx[OF g(1)] new(5) show False by simp
    qed
    ultimately show ?thesis using assms(1) fresh by (simp add: collective_inv_def)
  qed
  then show ?thesis
    using assms(1) new fresh by (auto simp: s' collective_inv_def motion_inv_def less_Suc_eq split: if_splits)
qed

text \<open>The votes in favour when the voting period is over: abstentions follow the default vote.\<close>

definition final_yes_votes ::
    "('a, 'h, 'p, 'w) collective_config \<Rightarrow> ('a, 'h, 'p, 'w) collective_state \<Rightarrow> 'a motion \<Rightarrow> nat" where
  "final_yes_votes cfg s v =
     (let seats = GetVotingMembers cfg (c_world s); yes = length (v_ayes v); no = length (v_nays v) in
      if DefaultVote cfg (map_option (\<lambda>who. list_ex (\<lambda>a. a = who) (v_ayes v)) (Prime s)) yes no seats
      then sat_add u32_max yes (seats - sat_add u32_max yes no) else yes)"

lemma do_close_cases:
  assumes "do_close cfg now h index wb lb s = Inr (pays, s')"
  obtains (approved) v p y where "Voting s h = Some v" "v_index v = index" "ProposalOf s h = Some p" "pays"
      "v_threshold v \<le> y" "y = length (v_ayes v) \<or> v_end v \<le> now \<and> y = final_yes_votes cfg s v"
      "s' = remove_proposal h (dispatch_proposal cfg (Members_origin y (GetVotingMembers cfg (c_world s))) p s)"
  | (disapproved) v where "Voting s h = Some v" "v_index v = index" "\<not> pays" "length (v_ayes v) < v_threshold v"
      "GetVotingMembers cfg (c_world s) - length (v_nays v) < v_threshold v \<or>
        v_end v \<le> now \<and> final_yes_votes cfg s v < v_threshold v"
      "s' = remove_proposal h s"
proof -
  from assms obtain v where v: "Voting s h = Some v" "v_index v = index" by (auto simp: do_close_def)
  let ?seats = "GetVotingMembers cfg (c_world s)"
  have C: "do_close cfg now h index wb lb s =
     (if v_threshold v \<le> length (v_ayes v)
      then and_then (validate_and_get_proposal cfg h lb wb s) (\<lambda>p.
        Inr (True, do_approve_proposal cfg ?seats (length (v_ayes v)) h p s))
      else if ?seats - length (v_nays v) < v_threshold v then Inr (False, do_disapprove_proposal h s)
      else ensure (v_end v \<le> now) TooEarlyToCloseProposal
        (if v_threshold v \<le> final_yes_votes cfg s v
         then and_then (validate_and_get_proposal cfg h lb wb s) (\<lambda>p.
           Inr (True, do_approve_proposal cfg ?seats (final_yes_votes cfg s v) h p s))
         else Inr (False, do_disapprove_proposal h s)))"
    by (simp add: do_close_def v Let_def final_yes_votes_def)
  have get: "ProposalOf s h = Some p" if "validate_and_get_proposal cfg h lb wb s = Inr p" for p
    using that by (auto simp: validate_and_get_proposal_def Let_def)
  show thesis
  proof (cases pays)
    case True
    from assms[unfolded C] True obtain p y where "validate_and_get_proposal cfg h lb wb s = Inr p"
      "v_threshold v \<le> y" "y = length (v_ayes v) \<or> v_end v \<le> now \<and> y = final_yes_votes cfg s v"
      "s' = do_approve_proposal cfg ?seats y h p s"
      by (auto split: if_splits)
    with approved[OF v] get True show thesis by (simp add: do_approve_proposal_def)
  next
    case False
    with assms[unfolded C] disapproved[OF v] show thesis
      by (auto simp: do_disapprove_proposal_def split: if_splits)
  qed
qed

lemma do_close_inv:
  assumes "collective_inv cfg s" "dispatch_keeps_inv cfg" "do_close cfg now h index wb lb s = Inr (pays, s')"
  shows "collective_inv cfg s'"
  using assms(3)
  by (cases rule: do_close_cases) (use assms(1,2) in \<open>auto simp: dispatch_keeps_inv_def intro: remove_proposal_inv\<close>)

section \<open>Reachable states\<close>

datatype ('a, 'h, 'p) collective_call =
    SetMembers "'a origin" "'a list" "'a option"
  | Execute "'a origin" 'p nat
  | Propose "'a origin" 'p nat nat
  | Vote "'a origin" 'h nat bool
  | DisapproveProposal "'a origin" 'h
  | Close "'a origin" 'h nat "nat \<times> nat" nat
  | RemoveVotes 'a

definition drop_flag :: "(collective_error, bool \<times> 's) result \<Rightarrow> (collective_error, 's) result" where
  "drop_flag r = and_then r (\<lambda>(b, s). Inr s)"

fun collective_exec ::
    "('a::linorder, 'h, 'p, 'w) collective_config \<Rightarrow> nat \<Rightarrow> ('a, 'h, 'p) collective_call \<Rightarrow>
     ('a, 'h, 'p, 'w) collective_state \<Rightarrow> (collective_error, ('a, 'h, 'p, 'w) collective_state) result" where
  "collective_exec cfg now (SetMembers og new prime) s = set_members cfg og new prime s"
| "collective_exec cfg now (Execute og p len) s = execute cfg og p len s"
| "collective_exec cfg now (Propose og p len dur) s = propose cfg now og p len dur s"
| "collective_exec cfg now (Vote og h i approve) s = drop_flag (vote cfg og h i approve s)"
| "collective_exec cfg now (DisapproveProposal og h) s = disapprove_proposal og h s"
| "collective_exec cfg now (Close og h i wb lb) s = drop_flag (close cfg now og h i wb lb s)"
| "collective_exec cfg now (RemoveVotes who) s = Inr (remove_votes who s)"

lemma collective_exec_inv:
  assumes "collective_inv cfg s" "dispatch_keeps_inv cfg" "collective_exec cfg now call s = Inr s'"
  shows "collective_inv cfg s'"
proof (cases call)
  case (SetMembers og new prime)
  with assms show ?thesis by (auto intro: set_members_inv)
next
  case (Execute og p len)
  with assms show ?thesis by (auto simp: execute_def dispatch_keeps_inv_def)
next
  case (Propose og p len dur)
  with assms show ?thesis by (auto intro: propose_inv)
next
  case (Vote og h i approve)
  with assms show ?thesis by (auto simp: drop_flag_def vote_def intro: do_vote_inv)
next
  case (DisapproveProposal og h)
  with assms show ?thesis by (auto simp: disapprove_proposal_def do_disapprove_proposal_def intro: remove_proposal_inv)
next
  case (Close og h i wb lb)
  with assms show ?thesis by (auto simp: drop_flag_def close_def intro: do_close_inv)
next
  case (RemoveVotes who)
  with assms show ?thesis by (auto simp: remove_votes_def intro: filter_votes_inv)
qed

inductive collective_step ::
    "('a::linorder, 'h, 'p, 'w) collective_config \<Rightarrow> ('a, 'h, 'p, 'w) collective_state \<Rightarrow>
     ('a, 'h, 'p, 'w) collective_state \<Rightarrow> bool" for cfg where
  call: "collective_exec cfg now c s = Inr s' \<Longrightarrow> collective_step cfg s s'"
| elsewhere: "collective_step cfg s (s\<lparr>c_world := w\<rparr>)"

inductive_cases collective_stepE: "collective_step cfg s s'"

definition collective_initial :: "('a, 'h, 'p, 'w) collective_state \<Rightarrow> bool" where
  "collective_initial s \<longleftrightarrow> Proposals s = [] \<and> ProposalOf s = Map.empty \<and> Voting s = Map.empty"

text \<open>With a dispatch that breaks the bookkeeping only the initial state is considered reachable.\<close>

interpretation collective: invariant_system
  "\<lambda>s. collective_initial s \<and> dispatch_keeps_inv cfg" "collective_step cfg"
  "\<lambda>s. collective_inv cfg s \<and> dispatch_keeps_inv cfg"
proof (unfold_locales, goal_cases)
  case (1 s)
  then show ?case by (simp add: collective_initial_def collective_inv_def)
next
  case (2 s t)
  from 2(2) show ?case by (cases rule: collective_step.cases) (use 2(1) collective_exec_inv in auto)
qed

text \<open>C29. Bookkeeping of the motions, in every state reachable from one without motions by the calls
  of the pallet and by changes elsewhere on the chain, provided a dispatched proposal keeps the
  bookkeeping itself: the active proposals are distinct and at most \<open>MaxProposals\<close>, exactly they
  have a stored call (whose hash they are) and votes; nobody is counted twice on a motion, neither
  on one side nor on both, and no two active motions have the same index.\<close>

theorem collective_bookkeeping:
  assumes "collective_initial s" "dispatch_keeps_inv cfg" "(collective_step cfg)\<^sup>*\<^sup>* s t"
  shows "distinct (Proposals t) \<and> length (Proposals t) \<le> MaxProposals cfg \<and>
    dom (ProposalOf t) = set (Proposals t) \<and> dom (Voting t) = set (Proposals t) \<and>
    (\<forall>h p. ProposalOf t h = Some p \<longrightarrow> h = proposal_hash_of cfg p) \<and>
    (\<forall>h v. Voting t h = Some v \<longrightarrow> distinct (v_ayes v @ v_nays v)) \<and>
    (\<forall>h h' v v'. Voting t h = Some v \<and> Voting t h' = Some v' \<and> v_index v = v_index v' \<longrightarrow> h = h')"
proof -
  have inv: "collective_inv cfg t" using collective.reachable_invar assms by blast
  have "h = h'" if "Voting t h = Some v" "Voting t h' = Some v'" "v_index v = v_index v'" for h h' v v'
  proof -
    have "inj_on (\<lambda>h. v_index (the (Voting t h))) (dom (Voting t))" using inv by (auto simp: collective_inv_def)
    from inj_onD[OF this, of h h'] that show ?thesis by auto
  qed
  moreover have "distinct (v_ayes v @ v_nays v)" if "Voting t h = Some v" for h v
    using collective_invD(1)[OF inv that] by (simp add: motion_inv_def)
  ultimately show ?thesis using inv unfolding collective_inv_def by blast
qed

text \<open>A configuration for the witnesses: three seats, proposals are numbers and their own hash,
  dispatching one adds it to the world.\<close>

definition sample_collective :: "(nat, nat, nat, nat) collective_config" where
  "sample_collective = \<lparr>MotionDuration = 5, MaxProposals = 2, DefaultVote = prime_default_vote,
     SetMembersOrigin = (\<lambda>og. og = Root), CanPropose = (\<lambda>w a. a < 4), CanVote = (\<lambda>w a. a < 4),
     GetVotingMembers = (\<lambda>w. 3), proposal_hash_of = (\<lambda>p. p), encoded_size = (\<lambda>p. 1), call_weight = (\<lambda>p. (1, 1)),
     members_diff = (\<lambda>new old. (filter (\<lambda>x. x \<notin> set old) new, filter (\<lambda>x. x \<notin> set new) old)),
     dispatch_proposal = (\<lambda>orig p s. s\<lparr>c_world := c_world s + p\<rparr>)\<rparr>"

definition sample_motions :: "(nat, nat, nat, nat) collective_state" where
  "sample_motions = \<lparr>Proposals = [7], ProposalOf = [7 \<mapsto> 7],
     Voting = [7 \<mapsto> \<lparr>v_index = 0, v_threshold = 2, v_ayes = [1], v_nays = [2], v_end = 15\<rparr>],
     ProposalCount = 1, Members = [1, 2, 3], Prime = None, c_world = 0\<rparr>"

definition no_motions :: "(nat, nat, nat, nat) collective_state" where
  "no_motions = \<lparr>Proposals = [], ProposalOf = Map.empty, Voting = Map.empty, ProposalCount = 0,
     Members = [1, 2, 3], Prime = None, c_world = 0\<rparr>"

lemma sample_dispatch: "dispatch_keeps_inv sample_collective"
  by (simp add: dispatch_keeps_inv_def) (simp add: sample_collective_def collective_inv_def)

theorem collective_bookkeeping_witness:
  "\<exists>t. collective_exec sample_collective 10 (Propose (Signed 1) 7 4 5) no_motions = Inr t \<and>
    Proposals t = [7] \<and> dom (Voting t) = set (Proposals t)"
proof -
  have "\<exists>t. collective_exec sample_collective 10 (Propose (Signed 1) 7 4 5) no_motions = Inr t \<and> Proposals t = [7]"
    by (simp add: propose_def do_propose_proposed_def sample_collective_def no_motions_def Let_def u32_max_def)
  then obtain t where t: "collective_exec sample_collective 10 (Propose (Signed 1) 7 4 5) no_motions = Inr t" "Proposals t = [7]"
    by blast
  have st: "(collective_step sample_collective)\<^sup>*\<^sup>* no_motions t"
    using collective_step.call[OF t(1)] by (rule r_into_rtranclp)
  have "collective_initial no_motions" by (simp add: collective_initial_def no_motions_def)
  from collective_bookkeeping[OF this sample_dispatch st] t show ?thesis by blast
qed

text \<open>A vote counts once and replaces the earlier one: in a consistent state, a vote on an active
  motion with the right index is rejected as a duplicate exactly when the account already votes on
  that side, and otherwise moves the account to that side, keeps every other vote, and raises the
  number of votes by one exactly for a first vote.\<close>

theorem vote_counts_once:
  assumes "collective_inv cfg s" "Voting s h = Some v" "v_index v = index" "CanVote cfg (c_world s) who"
  shows "if who \<in> set (if approve then v_ayes v else v_nays v)
    then vote cfg (Signed who) h index approve s = Inl DuplicateVote
    else \<exists>v'. vote cfg (Signed who) h index approve s =
          Inr (who \<notin> set (v_ayes v) \<union> set (v_nays v), s\<lparr>Voting := (Voting s)(h \<mapsto> v')\<rparr>) \<and>
        set (v_ayes v') = (if approve then insert who (set (v_ayes v)) else set (v_ayes v) - {who}) \<and>
        set (v_nays v') = (if approve then set (v_nays v) - {who} else insert who (set (v_nays v))) \<and>
        v_threshold v' = v_threshold v \<and> v_end v' = v_end v \<and> v_index v' = v_index v \<and>
        length (v_ayes v') + length (v_nays v') =
          length (v_ayes v) + length (v_nays v) + (if who \<in> set (v_ayes v) \<union> set (v_nays v) then 0 else 1)"
proof (cases "who \<in> set (if approve then v_ayes v else v_nays v)")
  case True
  then show ?thesis using assms by (auto simp: vote_def do_vote_def Let_def split: if_splits)
next
  case False
  then have "\<exists>r. do_vote who h index approve s = Inr r"
    using assms(2,3) by (cases approve) (simp_all add: do_vote_def Let_def)
  then obtain r where r: "do_vote who h index approve s = Inr r" ..
  obtain first_time s' where r': "r = (first_time, s')" by (cases r)
  have "motion_inv (the (Voting s h))" using collective_invD(1)[OF assms(1,2)] assms(2) by simp
  with r[unfolded r'] show ?thesis
  proof (rule do_voteE)
    fix w v'
    assume "Voting s h = Some w" and v': "s' = s\<lparr>Voting := (Voting s)(h \<mapsto> v')\<rparr>" "v_index v' = v_index w"
      "v_threshold v' = v_threshold w" "v_end v' = v_end w"
      "first_time \<longleftrightarrow> who \<notin> set (v_ayes w) \<union> set (v_nays w)"
      "set (v_ayes v') = (if approve then insert who (set (v_ayes w)) else set (v_ayes w) - {who})"
      "set (v_nays v') = (if approve then set (v_nays w) - {who} else insert who (set (v_nays w)))"
      "length (v_ayes v') + length (v_nays v') = length (v_ayes w) + length (v_nays w) + (if first_time then 1 else 0)"
    then have "w = v" using assms(2) by simp
    show ?thesis unfolding if_not_P[OF False]
      by (intro exI[of _ v'] conjI) (use v' r r' assms(4) \<open>w = v\<close> in \<open>simp_all add: vote_def\<close>)
  qed
qed

theorem vote_counts_once_witness:
  "\<exists>v'. vote sample_collective (Signed 2) 7 0 True sample_motions = Inr (False, sample_motions\<lparr>Voting := (Voting sample_motions)(7 \<mapsto> v')\<rparr>) \<and>
    set (v_ayes v') = {1, 2} \<and> set (v_nays v') = {}"
proof -
  let ?v = "\<lparr>v_index = 0, v_threshold = 2, v_ayes = [1], v_nays = [2], v_end = 15\<rparr> :: nat motion"
  have "collective_inv sample_collective sample_motions"
    by (simp add: collective_inv_def sample_collective_def sample_motions_def motion_inv_def)
  moreover have "Voting sample_motions 7 = Some ?v" by (simp add: sample_motions_def)
  moreover have "CanVote sample_collective (c_world sample_motions) 2" by (simp add: sample_collective_def)
  ultimately have "if (2::nat) \<in> set (if True then v_ayes ?v else v_nays ?v)
    then vote sample_collective (Signed 2) 7 0 True sample_motions = Inl DuplicateVote
    else \<exists>v'. vote sample_collective (Signed 2) 7 0 True sample_motions =
          Inr (2 \<notin> set (v_ayes ?v) \<union> set (v_nays ?v), sample_motions\<lparr>Voting := (Voting sample_motions)(7 \<mapsto> v')\<rparr>) \<and>
        set (v_ayes v') = (if True then insert 2 (set (v_ayes ?v)) else set (v_ayes ?v) - {2}) \<and>
        set (v_nays v') = (if True then set (v_nays ?v) - {2} else insert 2 (set (v_nays ?v))) \<and>
        v_threshold v' = v_threshold ?v \<and> v_end v' = v_end ?v \<and> v_index v' = v_index ?v \<and>
        length (v_ayes v') + length (v_nays v') =
          length (v_ayes ?v) + length (v_nays ?v) + (if 2 \<in> set (v_ayes ?v) \<union> set (v_nays ?v) then 0 else 1)"
    by (intro vote_counts_once) simp_all
  then show ?thesis by (auto simp: insert_commute)
qed



text \<open>No motion stays open for good: once its voting period is over, an active motion of a
  consistent state can be closed by the root origin with its index and sufficient bounds on the length
  and the weight of its call.\<close>

theorem close_after_end:
  assumes "collective_inv cfg s" "Voting s h = Some v" "v_end v \<le> now"
    and "\<And>p. encoded_size cfg p \<le> lb" "\<And>p. fst (call_weight cfg p) \<le> fst wb \<and> snd (call_weight cfg p) \<le> snd wb"
  shows "\<exists>pays s'. close cfg now Root h (v_index v) wb lb s = Inr (pays, s')"
proof -
  obtain p where "ProposalOf s h = Some p" using collective_invD(3)[OF assms(1,2)] ..
  then have "validate_and_get_proposal cfg h lb wb s = Inr p"
    using assms(4,5) by (simp add: validate_and_get_proposal_def Let_def)
  with assms(2,3) show ?thesis by (simp add: close_def do_close_def Let_def) blast
qed

theorem close_after_end_witness:
  "\<exists>pays s'. close sample_collective 15 Root 7 0 (1, 1) 4 sample_motions = Inr (pays, s')"
proof -
  let ?v = "\<lparr>v_index = 0, v_threshold = 2, v_ayes = [1], v_nays = [2], v_end = 15\<rparr> :: nat motion"
  have "collective_inv sample_collective sample_motions"
    by (simp add: collective_inv_def sample_collective_def sample_motions_def motion_inv_def)
  moreover have "Voting sample_motions 7 = Some ?v" by (simp add: sample_motions_def)
  ultimately show ?thesis
    using close_after_end[of sample_collective sample_motions 7 ?v 15 4 "(1, 1)"] by (simp add: sample_collective_def)
qed

text \<open>Accounts that leave the collective have no votes left on any active motion.\<close>

lemma outgoing_votes_removed:
  assumes "collective_inv cfg s" "set_members cfg og new prime s = Inr s'"
    and "members_diff cfg (sort new) (Members s) = (incoming, outgoing)"
    and "a \<in> set outgoing" "Voting s' h = Some v"
  shows "a \<notin> set (v_ayes v) \<union> set (v_nays v)"
proof -
  have "Voting s' h = Voting (fold (filter_votes (\<lambda>i. i \<notin> set outgoing)) (Proposals s) s) h"
    using assms(2,3) by (auto simp: set_members_def change_members_sorted_def Let_def)
  moreover have "h \<in> set (Proposals s)"
  proof -
    have "h \<in> set (Proposals s')" using collective_invD(2)[OF set_members_inv[OF assms(1,2)] assms(5)] .
    then show ?thesis using assms(2,3) by (auto simp: set_members_def change_members_sorted_def Let_def filter_votes_fold)
  qed
  ultimately show ?thesis using assms(4,5) by (cases "Voting s h") (auto simp: filter_votes_fold)
qed

end
