(* ===== verification/Proxy.thy ===== *)
theory Proxy
  imports Storage
begin

text \<open>
  The proxy pallet (\<open>pallets/proxy/src/lib.rs\<close>): accounts that act for others, immediately or
  after an announced delay. The state maps a delegator to its sorted proxy definitions and a
  delegate to its pending announcements, each with the deposit held for them. The currency's
  \<open>reserve\<close> and \<open>unreserve\<close>, the account lookup, the hash of a call, the derivation of a pure
  account and the dispatch of a call under a filter are parameters in \<open>proxy_config\<close>; the
  world \<open>p_world\<close> is what the currency and the dispatched calls act on.
\<close>

section \<open>Data\<close>

datatype proxy_error =
    TooMany | NotFound | NotProxy | Unproxyable | Duplicate | NoPermission | Unannounced | NoSelfProxy
  | BadOrigin | LookupError | CurrencyError

datatype ('a, 't) proxy_definition = ProxyDefinition (pd_delegate: 'a) (pd_type: 't) (pd_delay: nat)

text \<open>The derived \<open>Ord\<close> compares the fields in the order of their declaration.\<close>

instantiation proxy_definition :: (linorder, linorder) linorder
begin

fun less_eq_proxy_definition :: "('a, 'b) proxy_definition \<Rightarrow> ('a, 'b) proxy_definition \<Rightarrow> bool" where
  "less_eq_proxy_definition (ProxyDefinition a t d) (ProxyDefinition a' t' d') \<longleftrightarrow>
     a < a' \<or> a = a' \<and> (t < t' \<or> t = t' \<and> d \<le> d')"

definition less_proxy_definition :: "('a, 'b) proxy_definition \<Rightarrow> ('a, 'b) proxy_definition \<Rightarrow> bool" where
  "less_proxy_definition x y \<longleftrightarrow> x \<le> y \<and> \<not> y \<le> x"

instance
proof
  fix x y z :: "('a, 'b) proxy_definition"
  show "(x < y) = (x \<le> y \<and> \<not> y \<le> x)" by (rule less_proxy_definition_def)
  show "x \<le> x" by (cases x) simp
  show "x \<le> y \<Longrightarrow> y \<le> z \<Longrightarrow> x \<le> z" by (cases x; cases y; cases z) auto
  show "x \<le> y \<Longrightarrow> y \<le> x \<Longrightarrow> x = y" by (cases x; cases y) auto
  show "x \<le> y \<or> y \<le> x" by (cases x; cases y) auto
qed

end

record ('a, 'h) announcement =
  ann_real :: 'a
  ann_call_hash :: 'h
  ann_height :: nat

record ('a, 't, 'h, 'w) proxy_state =
  Proxies :: "'a \<Rightarrow> (('a, 't) proxy_definition list \<times> nat) option"
  Announcements :: "'a \<Rightarrow> (('a, 'h) announcement list \<times> nat) option"
  p_world :: 'w

text \<open>The calls of this pallet that a proxied call may be (\<open>is_sub_type\<close>).\<close>

datatype 't proxy_call = AddProxyCall 't | RemoveProxyCall 't | RemoveProxiesCall | KillPureCall | OtherProxyCall

record ('a, 't, 'h, 'c, 'l, 'w) proxy_config =
  ProxyDepositBase :: nat
  ProxyDepositFactor :: nat
  MaxProxies :: nat
  MaxPending :: nat
  AnnouncementDepositBase :: nat
  AnnouncementDepositFactor :: nat
  p_reserve :: "'a \<Rightarrow> nat \<Rightarrow> 'w \<Rightarrow> 'w option"
  p_unreserve :: "'a \<Rightarrow> nat \<Rightarrow> 'w \<Rightarrow> 'w"
  p_lookup :: "'l \<Rightarrow> 'a option"
  call_hash_of :: "'c \<Rightarrow> 'h"
  pure_entropy :: "'a \<Rightarrow> nat \<times> nat \<Rightarrow> 't \<Rightarrow> nat \<Rightarrow> 'a"
  is_sub_type :: "'c \<Rightarrow> 't proxy_call option"
  type_superset :: "'t \<Rightarrow> 't \<Rightarrow> bool"
  type_filter :: "'t \<Rightarrow> 'c \<Rightarrow> bool"
  default_type :: 't
  dispatch_filtered :: "('c \<Rightarrow> bool) \<Rightarrow> 'a \<Rightarrow> 'c \<Rightarrow> ('a, 't, 'h, 'w) proxy_state \<Rightarrow> ('a, 't, 'h, 'w) proxy_state"

section \<open>Deposits\<close>

definition deposit :: "('a, 't, 'h, 'c, 'l, 'w) proxy_config \<Rightarrow> nat \<Rightarrow> nat" where
  "deposit cfg num_proxies =
     (if num_proxies = 0 then 0
      else sat_add u64_max (ProxyDepositBase cfg) (sat_mul u64_max (ProxyDepositFactor cfg) num_proxies))"

text \<open>The \<open>match new_deposit.cmp(&old_deposit)\<close> that tops the deposit up or returns part of it.\<close>

definition adjust_deposit ::
    "('a, 't, 'h, 'c, 'l, 'w) proxy_config \<Rightarrow> 'a \<Rightarrow> nat \<Rightarrow> nat \<Rightarrow> ('a, 't, 'h, 'w) proxy_state \<Rightarrow>
     (proxy_error, ('a, 't, 'h, 'w) proxy_state) result" where
  "adjust_deposit cfg who new_deposit old_deposit s =
     (if new_deposit > old_deposit
      then and_then (ok_or (p_reserve cfg who (new_deposit - old_deposit) (p_world s)) CurrencyError) (\<lambda>w.
        Inr (s\<lparr>p_world := w\<rparr>))
      else if new_deposit < old_deposit
      then Inr (s\<lparr>p_world := p_unreserve cfg who (old_deposit - new_deposit) (p_world s)\<rparr>)
      else Inr s)"

definition rejig_deposit ::
    "('a, 't, 'h, 'c, 'l, 'w) proxy_config \<Rightarrow> 'a \<Rightarrow> nat \<Rightarrow> nat \<Rightarrow> nat \<Rightarrow> nat \<Rightarrow> ('a, 't, 'h, 'w) proxy_state \<Rightarrow>
     (proxy_error, nat option \<times> ('a, 't, 'h, 'w) proxy_state) result" where
  "rejig_deposit cfg who old_deposit base factor len s =
     (let new_deposit = (if len = 0 then 0 else sat_add u64_max base (sat_mul u64_max factor len)) in
      and_then (adjust_deposit cfg who new_deposit old_deposit s) (\<lambda>s.
      Inr (if len = 0 then None else Some new_deposit, s)))"

section \<open>Delegates\<close>

text \<open>\<open>slice::binary_search\<close> on a sorted slice: the position of the element, or where to insert it.\<close>

definition binary_search :: "'x::linorder list \<Rightarrow> 'x \<Rightarrow> (nat, nat) result" where
  "binary_search xs x =
     (let i = length (takeWhile (\<lambda>y. y < x) xs)
      in if i < length xs \<and> xs ! i = x then Inr i else Inl i)"

definition insert_at :: "nat \<Rightarrow> 'x \<Rightarrow> 'x list \<Rightarrow> 'x list" where
  "insert_at i x xs = take i xs @ x # drop i xs"

definition remove_at :: "nat \<Rightarrow> 'x list \<Rightarrow> 'x list" where
  "remove_at i xs = take i xs @ drop (Suc i) xs"

definition proxies :: "('a, 't, 'h, 'w) proxy_state \<Rightarrow> 'a \<Rightarrow> ('a, 't) proxy_definition list \<times> nat" where
  "proxies s account = (case Proxies s account of None \<Rightarrow> ([], 0) | Some x \<Rightarrow> x)"

definition announcements :: "('a, 't, 'h, 'w) proxy_state \<Rightarrow> 'a \<Rightarrow> ('a, 'h) announcement list \<times> nat" where
  "announcements s account = (case Announcements s account of None \<Rightarrow> ([], 0) | Some x \<Rightarrow> x)"

definition pure_account ::
    "('a, 't, 'h, 'c, 'l, 'w) proxy_config \<Rightarrow> nat \<times> nat \<Rightarrow> 'a \<Rightarrow> 't \<Rightarrow> nat \<Rightarrow> (nat \<times> nat) option \<Rightarrow> 'a" where
  "pure_account cfg current who proxy_type index maybe_when =
     (let when = (case maybe_when of None \<Rightarrow> current | Some w \<Rightarrow> w)
      in pure_entropy cfg who when proxy_type index)"

definition add_proxy_delegate ::
    "('a::linorder, 't::linorder, 'h, 'c, 'l, 'w) proxy_config \<Rightarrow> 'a \<Rightarrow> 'a \<Rightarrow> 't \<Rightarrow> nat \<Rightarrow>
     ('a, 't, 'h, 'w) proxy_state \<Rightarrow> (proxy_error, ('a, 't, 'h, 'w) proxy_state) result" where
  "add_proxy_delegate cfg delegator delegatee proxy_type delay s =
     ensure (delegator \<noteq> delegatee) NoSelfProxy
    (let (ps, old_deposit) = proxies s delegator;
         proxy_def = ProxyDefinition delegatee proxy_type delay
     in case binary_search ps proxy_def of
          Inr _ \<Rightarrow> Inl Duplicate
        | Inl i \<Rightarrow>
            ensure (length ps < MaxProxies cfg) TooMany
           (let ps = insert_at i proxy_def ps;
                new_deposit = deposit cfg (length ps)
            in and_then (adjust_deposit cfg delegator new_deposit old_deposit s) (\<lambda>s.
               Inr (s\<lparr>Proxies := (Proxies s)(delegator \<mapsto> (ps, new_deposit))\<rparr>))))"

definition remove_proxy_delegate ::
    "('a::linorder, 't::linorder, 'h, 'c, 'l, 'w) proxy_config \<Rightarrow> 'a \<Rightarrow> 'a \<Rightarrow> 't \<Rightarrow> nat \<Rightarrow>
     ('a, 't, 'h, 'w) proxy_state \<Rightarrow> (proxy_error, ('a, 't, 'h, 'w) proxy_state) result" where
  "remove_proxy_delegate cfg delegator delegatee proxy_type delay s =
     and_then (ok_or (Proxies s delegator) NotFound) (\<lambda>(ps, old_deposit).
     let proxy_def = ProxyDefinition delegatee proxy_type delay
     in case binary_search ps proxy_def of
          Inl _ \<Rightarrow> Inl NotFound
        | Inr i \<Rightarrow>
           (let ps = remove_at i ps;
                new_deposit = deposit cfg (length ps)
            in and_then (adjust_deposit cfg delegator new_deposit old_deposit s) (\<lambda>s.
               Inr (s\<lparr>Proxies := (Proxies s)(delegator :=
                 (if ps = [] then None else Some (ps, new_deposit)))\<rparr>))))"

definition remove_all_proxy_delegates ::
    "('a, 't, 'h, 'c, 'l, 'w) proxy_config \<Rightarrow> 'a \<Rightarrow> ('a, 't, 'h, 'w) proxy_state \<Rightarrow> ('a, 't, 'h, 'w) proxy_state" where
  "remove_all_proxy_delegates cfg delegator s =
     (let (_, old_deposit) = proxies s delegator
      in s\<lparr>Proxies := (Proxies s)(delegator := None),
           p_world := p_unreserve cfg delegator old_deposit (p_world s)\<rparr>)"

section \<open>Announcements and dispatch\<close>

definition edit_announcements ::
    "('a, 't, 'h, 'c, 'l, 'w) proxy_config \<Rightarrow> 'a \<Rightarrow> (('a, 'h) announcement \<Rightarrow> bool) \<Rightarrow>
     ('a, 't, 'h, 'w) proxy_state \<Rightarrow> (proxy_error, ('a, 't, 'h, 'w) proxy_state) result" where
  "edit_announcements cfg delegate f s =
     and_then (ok_or (Announcements s delegate) NotFound) (\<lambda>(pending, old_deposit).
     let orig_pending_len = length pending;
         pending = filter f pending
     in ensure (orig_pending_len > length pending) NotFound
       (and_then (rejig_deposit cfg delegate old_deposit (AnnouncementDepositBase cfg)
          (AnnouncementDepositFactor cfg) (length pending) s) (\<lambda>(d, s).
        Inr (s\<lparr>Announcements := (Announcements s)(delegate := map_option (\<lambda>d. (pending, d)) d)\<rparr>))))"

definition find_proxy ::
    "('a, 't, 'h, 'w) proxy_state \<Rightarrow> 'a \<Rightarrow> 'a \<Rightarrow> 't option \<Rightarrow> (proxy_error, ('a, 't) proxy_definition) result" where
  "find_proxy s real delegate force_proxy_type =
     ok_or (find (\<lambda>x. pd_delegate x = delegate \<and>
       (case force_proxy_type of None \<Rightarrow> True | Some y \<Rightarrow> pd_type x = y)) (fst (proxies s real))) NotProxy"

text \<open>The filter that \<open>do_proxy\<close> adds to the origin of the call.\<close>

definition proxy_filter :: "('a, 't, 'h, 'c, 'l, 'w) proxy_config \<Rightarrow> ('a, 't) proxy_definition \<Rightarrow> 'c \<Rightarrow> bool" where
  "proxy_filter cfg def c =
     (case is_sub_type cfg c of
        Some (AddProxyCall t) \<Rightarrow> if \<not> type_superset cfg (pd_type def) t then False else type_filter cfg (pd_type def) c
      | Some (RemoveProxyCall t) \<Rightarrow> if \<not> type_superset cfg (pd_type def) t then False else type_filter cfg (pd_type def) c
      | Some RemoveProxiesCall \<Rightarrow> if pd_type def \<noteq> default_type cfg then False else type_filter cfg (pd_type def) c
      | Some KillPureCall \<Rightarrow> if pd_type def \<noteq> default_type cfg then False else type_filter cfg (pd_type def) c
      | _ \<Rightarrow> type_filter cfg (pd_type def) c)"

definition do_proxy ::
    "('a, 't, 'h, 'c, 'l, 'w) proxy_config \<Rightarrow> ('a, 't) proxy_definition \<Rightarrow> 'a \<Rightarrow> 'c \<Rightarrow>
     ('a, 't, 'h, 'w) proxy_state \<Rightarrow> ('a, 't, 'h, 'w) proxy_state" where
  "do_proxy cfg def real call s = dispatch_filtered cfg (proxy_filter cfg def) real call s"

section \<open>Calls\<close>

definition proxy ::
    "('a, 't, 'h, 'c, 'l, 'w) proxy_config \<Rightarrow> 'a origin \<Rightarrow> 'l \<Rightarrow> 't option \<Rightarrow> 'c \<Rightarrow>
     ('a, 't, 'h, 'w) proxy_state \<Rightarrow> (proxy_error, ('a, 't, 'h, 'w) proxy_state) result" where
  "proxy cfg og real force_proxy_type call s =
     and_then (ensure_signed BadOrigin og) (\<lambda>who.
     and_then (ok_or (p_lookup cfg real) LookupError) (\<lambda>real.
     and_then (find_proxy s real who force_proxy_type) (\<lambda>def.
     ensure (pd_delay def = 0) Unannounced
       (Inr (do_proxy cfg def real call s)))))"

definition add_proxy ::
    "('a::linorder, 't::linorder, 'h, 'c, 'l, 'w) proxy_config \<Rightarrow> 'a origin \<Rightarrow> 'l \<Rightarrow> 't \<Rightarrow> nat \<Rightarrow>
     ('a, 't, 'h, 'w) proxy_state \<Rightarrow> (proxy_error, ('a, 't, 'h, 'w) proxy_state) result" where
  "add_proxy cfg og delegate proxy_type delay s =
     and_then (ensure_signed BadOrigin og) (\<lambda>who.
     and_then (ok_or (p_lookup cfg delegate) LookupError) (\<lambda>delegate.
     add_proxy_delegate cfg who delegate proxy_type delay s))"

definition remove_proxy ::
    "('a::linorder, 't::linorder, 'h, 'c, 'l, 'w) proxy_config \<Rightarrow> 'a origin \<Rightarrow> 'l \<Rightarrow> 't \<Rightarrow> nat \<Rightarrow>
     ('a, 't, 'h, 'w) proxy_state \<Rightarrow> (proxy_error, ('a, 't, 'h, 'w) proxy_state) result" where
  "remove_proxy cfg og delegate proxy_type delay s =
     and_then (ensure_signed BadOrigin og) (\<lambda>who.
     and_then (ok_or (p_lookup cfg delegate) LookupError) (\<lambda>delegate.
     remove_proxy_delegate cfg who delegate proxy_type delay s))"

definition remove_proxies ::
    "('a, 't, 'h, 'c, 'l, 'w) proxy_config \<Rightarrow> 'a origin \<Rightarrow> ('a, 't, 'h, 'w) proxy_state \<Rightarrow>
     (proxy_error, ('a, 't, 'h, 'w) proxy_state) result" where
  "remove_proxies cfg og s =
     and_then (ensure_signed BadOrigin og) (\<lambda>who. Inr (remove_all_proxy_delegates cfg who s))"

definition create_pure ::
    "('a, 't, 'h, 'c, 'l, 'w) proxy_config \<Rightarrow> nat \<times> nat \<Rightarrow> 'a origin \<Rightarrow> 't \<Rightarrow> nat \<Rightarrow> nat \<Rightarrow>
     ('a, 't, 'h, 'w) proxy_state \<Rightarrow> (proxy_error, ('a, 't, 'h, 'w) proxy_state) result" where
  "create_pure cfg current og proxy_type delay index s =
     and_then (ensure_signed BadOrigin og) (\<lambda>who.
     let pure = pure_account cfg current who proxy_type index None in
     ensure (Proxies s pure = None) Duplicate
    (let proxy_def = ProxyDefinition who proxy_type delay in
     ensure (1 \<le> MaxProxies cfg) TooMany
    (let d = sat_add u64_max (ProxyDepositBase cfg) (ProxyDepositFactor cfg) in
     and_then (ok_or (p_reserve cfg who d (p_world s)) CurrencyError) (\<lambda>w.
     Inr (s\<lparr>p_world := w, Proxies := (Proxies s)(pure \<mapsto> ([proxy_def], d))\<rparr>)))))"

definition kill_pure ::
    "('a, 't, 'h, 'c, 'l, 'w) proxy_config \<Rightarrow> nat \<times> nat \<Rightarrow> 'a origin \<Rightarrow> 'l \<Rightarrow> 't \<Rightarrow> nat \<Rightarrow> nat \<Rightarrow> nat \<Rightarrow>
     ('a, 't, 'h, 'w) proxy_state \<Rightarrow> (proxy_error, ('a, 't, 'h, 'w) proxy_state) result" where
  "kill_pure cfg current og spawner proxy_type index height ext_index s =
     and_then (ensure_signed BadOrigin og) (\<lambda>who.
     and_then (ok_or (p_lookup cfg spawner) LookupError) (\<lambda>spawner.
     let when = (height, ext_index);
         pure = pure_account cfg current spawner proxy_type index (Some when)
     in ensure (pure = who) NoPermission
       (let (_, d) = proxies s who
        in Inr (s\<lparr>Proxies := (Proxies s)(who := None), p_world := p_unreserve cfg spawner d (p_world s)\<rparr>))))"

definition announce ::
    "('a, 't, 'h, 'c, 'l, 'w) proxy_config \<Rightarrow> nat \<Rightarrow> 'a origin \<Rightarrow> 'l \<Rightarrow> 'h \<Rightarrow>
     ('a, 't, 'h, 'w) proxy_state \<Rightarrow> (proxy_error, ('a, 't, 'h, 'w) proxy_state) result" where
  "announce cfg now og real call_hash s =
     and_then (ensure_signed BadOrigin og) (\<lambda>who.
     and_then (ok_or (p_lookup cfg real) LookupError) (\<lambda>real.
     and_then (ok_or (find (\<lambda>x. pd_delegate x = who) (fst (proxies s real))) NotProxy) (\<lambda>_.
     let announcement = \<lparr>ann_real = real, ann_call_hash = call_hash, ann_height = now\<rparr>;
         (pending, old_deposit) = announcements s who
     in ensure (length pending < MaxPending cfg) TooMany
       (let pending = pending @ [announcement] in
        and_then (rejig_deposit cfg who old_deposit (AnnouncementDepositBase cfg) (AnnouncementDepositFactor cfg)
          (length pending) s) (\<lambda>(d, s).
        Inr (s\<lparr>Announcements := (Announcements s)(who \<mapsto> (pending, the d))\<rparr>))))))"

definition remove_announcement ::
    "('a, 't, 'h, 'c, 'l, 'w) proxy_config \<Rightarrow> 'a origin \<Rightarrow> 'l \<Rightarrow> 'h \<Rightarrow>
     ('a, 't, 'h, 'w) proxy_state \<Rightarrow> (proxy_error, ('a, 't, 'h, 'w) proxy_state) result" where
  "remove_announcement cfg og real call_hash s =
     and_then (ensure_signed BadOrigin og) (\<lambda>who.
     and_then (ok_or (p_lookup cfg real) LookupError) (\<lambda>real.
     edit_announcements cfg who (\<lambda>ann. ann_real ann \<noteq> real \<or> ann_call_hash ann \<noteq> call_hash) s))"

definition reject_announcement ::
    "('a, 't, 'h, 'c, 'l, 'w) proxy_config \<Rightarrow> 'a origin \<Rightarrow> 'l \<Rightarrow> 'h \<Rightarrow>
     ('a, 't, 'h, 'w) proxy_state \<Rightarrow> (proxy_error, ('a, 't, 'h, 'w) proxy_state) result" where
  "reject_announcement cfg og delegate call_hash s =
     and_then (ensure_signed BadOrigin og) (\<lambda>who.
     and_then (ok_or (p_lookup cfg delegate) LookupError) (\<lambda>delegate.
     edit_announcements cfg delegate (\<lambda>ann. ann_real ann \<noteq> who \<or> ann_call_hash ann \<noteq> call_hash) s))"

definition proxy_announced ::
    "('a, 't, 'h, 'c, 'l, 'w) proxy_config \<Rightarrow> nat \<Rightarrow> 'a origin \<Rightarrow> 'l \<Rightarrow> 'l \<Rightarrow> 't option \<Rightarrow> 'c \<Rightarrow>
     ('a, 't, 'h, 'w) proxy_state \<Rightarrow> (proxy_error, ('a, 't, 'h, 'w) proxy_state) result" where
  "proxy_announced cfg now og delegate real force_proxy_type call s =
     and_then (ensure_signed BadOrigin og) (\<lambda>_.
     and_then (ok_or (p_lookup cfg delegate) LookupError) (\<lambda>delegate.
     and_then (ok_or (p_lookup cfg real) LookupError) (\<lambda>real.
     and_then (find_proxy s real delegate force_proxy_type) (\<lambda>def.
     let call_hash = call_hash_of cfg call in
     and_then (map_err (\<lambda>_. Unannounced) (edit_announcements cfg delegate (\<lambda>ann.
         ann_real ann \<noteq> real \<or> ann_call_hash ann \<noteq> call_hash \<or> now - ann_height ann < pd_delay def) s)) (\<lambda>s.
     Inr (do_proxy cfg def real call s))))))"

section \<open>Sorted lists of definitions\<close>

lemma takeWhile_less_sorted:
  fixes xs :: "'x::linorder list" and x :: 'x
  assumes "sorted xs" "distinct xs"
  defines i: "i \<equiv> length (takeWhile (\<lambda>y. y < x) xs)"
  shows "\<forall>y \<in> set (take i xs). y < x" "\<forall>y \<in> set (drop i xs). x \<le> y"
    "x \<in> set xs \<longleftrightarrow> i < length xs \<and> xs ! i = x"
proof -
  have t: "take i xs = takeWhile (\<lambda>y. y < x) xs" and d: "drop i xs = dropWhile (\<lambda>y. y < x) xs"
    by (simp_all add: i takeWhile_eq_take[symmetric] dropWhile_eq_drop[symmetric])
  show 1: "\<forall>y \<in> set (take i xs). y < x" unfolding t by (auto dest: set_takeWhileD)
  show 2: "\<forall>y \<in> set (drop i xs). x \<le> y"
  proof (cases "drop i xs")
    case (Cons z zs)
    have "\<not> z < x" using Cons d by (metis dropWhile_eq_Cons_conv)
    moreover have "sorted (z # zs)" using assms(1) Cons by (metis sorted_wrt_drop)
    ultimately show ?thesis using Cons by auto
  qed simp
  show "x \<in> set xs \<longleftrightarrow> i < length xs \<and> xs ! i = x"
  proof
    assume "x \<in> set xs"
    then have "x \<in> set (drop i xs)" using 1 by (metis Un_iff append_take_drop_id less_irrefl set_append)
    then obtain z zs where zs: "drop i xs = z # zs" by (cases "drop i xs") auto
    have s: "sorted (z # zs)" using assms(1) zs by (metis sorted_wrt_drop)
    have "z \<le> x" using s \<open>x \<in> set (drop i xs)\<close> zs by auto
    moreover have "x \<le> z" using 2 zs by simp
    moreover have "i < length xs" using zs by (metis drop_all list.distinct(1) not_less)
    ultimately show "i < length xs \<and> xs ! i = x" using zs by (metis hd_drop_conv_nth list.sel(1) order_antisym)
  qed (auto simp: in_set_conv_nth)
qed

lemma binary_search_Inr:
  assumes "binary_search xs x = Inr i"
  shows "i < length xs" "xs ! i = x"
  using assms by (auto simp: binary_search_def Let_def split: if_splits)

lemma binary_search_Inl:
  assumes "sorted xs" "distinct xs" "binary_search xs x = Inl i"
  shows "x \<notin> set xs" "i \<le> length xs" "sorted (insert_at i x xs)" "distinct (insert_at i x xs)"
    "binary_search (insert_at i x xs) x = Inr i" "remove_at i (insert_at i x xs) = xs"
proof -
  have i: "i = length (takeWhile (\<lambda>y. y < x) xs)" "\<not> (i < length xs \<and> xs ! i = x)"
    using assms(3) by (auto simp: binary_search_def Let_def split: if_splits)
  note T = takeWhile_less_sorted[OF assms(1,2), of x, folded i(1)]
  show x: "x \<notin> set xs" using T(3) i(2) by simp
  show le: "i \<le> length xs" unfolding i(1) by (rule length_takeWhile_le)
  have s: "sorted (take i xs)" "sorted (drop i xs)" using assms(1) by (auto intro: sorted_wrt_take sorted_wrt_drop)
  show "sorted (insert_at i x xs)"
    unfolding insert_at_def using s T(1,2) by (auto simp: sorted_append) (meson less_le_trans less_imp_le)
  have "set (take i xs) \<inter> set (drop i xs) = {}" by (rule set_take_disj_set_drop_if_distinct[OF assms(2)]) simp
  moreover have "x \<notin> set (take i xs)" "x \<notin> set (drop i xs)" using x by (auto dest: in_set_takeD in_set_dropD)
  ultimately show "distinct (insert_at i x xs)" unfolding insert_at_def using assms(2) by auto
  have "takeWhile (\<lambda>y. y < x) (take i xs @ x # drop i xs) = take i xs"
    using T(1) by (subst takeWhile_append2) auto
  then show "binary_search (insert_at i x xs) x = Inr i"
    using le by (simp add: binary_search_def insert_at_def Let_def nth_append)
  show "remove_at i (insert_at i x xs) = xs" using le by (simp add: remove_at_def insert_at_def)
qed

lemma length_insert_at [simp]: "i \<le> length xs \<Longrightarrow> length (insert_at i x xs) = Suc (length xs)"
  by (simp add: insert_at_def)

lemma remove_at_facts:
  assumes "i < length xs"
  shows "Suc (length (remove_at i xs)) = length xs" "sorted xs \<Longrightarrow> sorted (remove_at i xs)"
    "distinct xs \<Longrightarrow> distinct (remove_at i xs)"
proof -
  define as where "as = take i xs"
  define bs where "bs = drop (Suc i) xs"
  have xs: "xs = as @ xs ! i # bs" using id_take_nth_drop[OF assms] by (simp add: as_def bs_def)
  have f: "Suc (length (as @ bs)) = length (as @ c # bs)" "sorted (as @ c # bs) \<Longrightarrow> sorted (as @ bs)"
    "distinct (as @ c # bs) \<Longrightarrow> distinct (as @ bs)" for c by (auto simp: sorted_append)
  note F = f[of "xs ! i", folded xs]
  show "Suc (length (remove_at i xs)) = length xs" "sorted xs \<Longrightarrow> sorted (remove_at i xs)"
    "distinct xs \<Longrightarrow> distinct (remove_at i xs)"
    unfolding remove_at_def as_def[symmetric] bs_def[symmetric] using F by blast+
qed

section \<open>Invariant\<close>

definition announcement_deposit :: "('a, 't, 'h, 'c, 'l, 'w) proxy_config \<Rightarrow> nat \<Rightarrow> nat" where
  "announcement_deposit cfg k =
     (if k = 0 then 0
      else sat_add u64_max (AnnouncementDepositBase cfg) (sat_mul u64_max (AnnouncementDepositFactor cfg) k))"

definition proxies_ok ::
    "('a::linorder, 't::linorder, 'h, 'c, 'l, 'w) proxy_config \<Rightarrow> ('a, 't) proxy_definition list \<times> nat \<Rightarrow> bool" where
  "proxies_ok cfg e \<longleftrightarrow> fst e \<noteq> [] \<and> length (fst e) \<le> MaxProxies cfg \<and> sorted (fst e) \<and> distinct (fst e) \<and>
     snd e = deposit cfg (length (fst e))"

definition announcements_ok ::
    "('a, 't, 'h, 'c, 'l, 'w) proxy_config \<Rightarrow> ('a, 'h) announcement list \<times> nat \<Rightarrow> bool" where
  "announcements_ok cfg e \<longleftrightarrow> fst e \<noteq> [] \<and> length (fst e) \<le> MaxPending cfg \<and>
     snd e = announcement_deposit cfg (length (fst e))"

definition proxy_inv ::
    "('a::linorder, 't::linorder, 'h, 'c, 'l, 'w) proxy_config \<Rightarrow> ('a, 't, 'h, 'w) proxy_state \<Rightarrow> bool" where
  "proxy_inv cfg s \<longleftrightarrow> (\<forall>a e. Proxies s a = Some e \<longrightarrow> proxies_ok cfg e) \<and>
     (\<forall>a e. Announcements s a = Some e \<longrightarrow> announcements_ok cfg e)"

lemma deposit_mono: "j \<le> k \<Longrightarrow> deposit cfg j \<le> deposit cfg k"
  by (auto simp: deposit_def sat_add_def sat_mul_def min_le_iff_disj intro: mult_le_mono2)

lemma announcement_deposit_mono: "j \<le> k \<Longrightarrow> announcement_deposit cfg j \<le> announcement_deposit cfg k"
  by (auto simp: announcement_deposit_def sat_add_def sat_mul_def min_le_iff_disj intro: mult_le_mono2)

lemma proxiesD:
  assumes "proxy_inv cfg s" "proxies s a = (ps, d)"
  shows "sorted ps" "distinct ps" "length ps \<le> MaxProxies cfg" "d = deposit cfg (length ps)"
    "Proxies s a = (if ps = [] then None else Some (ps, d))"
proof -
  have "sorted ps \<and> distinct ps \<and> length ps \<le> MaxProxies cfg \<and> d = deposit cfg (length ps) \<and>
      Proxies s a = (if ps = [] then None else Some (ps, d))"
  proof (cases "Proxies s a")
    case None
    with assms(2) show ?thesis by (auto simp: proxies_def deposit_def)
  next
    case (Some e)
    with assms have "proxies_ok cfg (ps, d)" "e = (ps, d)" by (auto simp: proxies_def proxy_inv_def)
    with Some show ?thesis by (auto simp: proxies_ok_def)
  qed
  then show "sorted ps" "distinct ps" "length ps \<le> MaxProxies cfg" "d = deposit cfg (length ps)"
    "Proxies s a = (if ps = [] then None else Some (ps, d))" by blast+
qed

lemma announcementsD:
  assumes "proxy_inv cfg s" "announcements s a = (pending, d)"
  shows "length pending \<le> MaxPending cfg" "d = announcement_deposit cfg (length pending)"
    "Announcements s a = (if pending = [] then None else Some (pending, d))"
proof -
  have "length pending \<le> MaxPending cfg \<and> d = announcement_deposit cfg (length pending) \<and>
      Announcements s a = (if pending = [] then None else Some (pending, d))"
  proof (cases "Announcements s a")
    case None
    with assms(2) show ?thesis by (auto simp: announcements_def announcement_deposit_def)
  next
    case (Some e)
    with assms have "announcements_ok cfg (pending, d)" "e = (pending, d)"
      by (auto simp: announcements_def proxy_inv_def)
    with Some show ?thesis by (auto simp: announcements_ok_def)
  qed
  then show "length pending \<le> MaxPending cfg" "d = announcement_deposit cfg (length pending)"
    "Announcements s a = (if pending = [] then None else Some (pending, d))" by blast+
qed

lemma adjust_deposit_fields:
  assumes "adjust_deposit cfg who new old s = Inr s'"
  shows "Proxies s' = Proxies s" "Announcements s' = Announcements s"
  using assms by (auto simp: adjust_deposit_def split: if_splits)

lemma adjust_deposit_down: "new \<le> old \<Longrightarrow> \<exists>s'. adjust_deposit cfg who new old s = Inr s'"
  by (auto simp: adjust_deposit_def)

lemma rejig_deposit_announcements:
  "rejig_deposit cfg who old (AnnouncementDepositBase cfg) (AnnouncementDepositFactor cfg) k s =
     and_then (adjust_deposit cfg who (announcement_deposit cfg k) old s) (\<lambda>s.
       Inr (if k = 0 then None else Some (announcement_deposit cfg k), s))"
  by (simp add: rejig_deposit_def announcement_deposit_def Let_def)

lemma proxy_inv_put:
  assumes "proxy_inv cfg s" "Proxies s' = (Proxies s)(a := e)" "Announcements s' = Announcements s"
    and "\<And>x. e = Some x \<Longrightarrow> proxies_ok cfg x"
  shows "proxy_inv cfg s'"
  using assms by (auto simp: proxy_inv_def split: if_splits)

lemma proxy_inv_announce:
  assumes "proxy_inv cfg s" "Announcements s' = (Announcements s)(a := e)" "Proxies s' = Proxies s"
    and "\<And>x. e = Some x \<Longrightarrow> announcements_ok cfg x"
  shows "proxy_inv cfg s'"
  using assms by (auto simp: proxy_inv_def split: if_splits)

lemma add_proxy_delegateE:
  assumes "add_proxy_delegate cfg a b t dl s = Inr s'" "proxy_inv cfg s"
  obtains ps d i s1 where "a \<noteq> b" "proxies s a = (ps, d)" "binary_search ps (ProxyDefinition b t dl) = Inl i"
    "length ps < MaxProxies cfg" "adjust_deposit cfg a (deposit cfg (Suc (length ps))) d s = Inr s1"
    "s' = s1\<lparr>Proxies := (Proxies s1)(a \<mapsto> (insert_at i (ProxyDefinition b t dl) ps, deposit cfg (Suc (length ps))))\<rparr>"
proof -
  obtain ps d where p: "proxies s a = (ps, d)" by fastforce
  have len: "length (insert_at i x ps) = Suc (length ps)" if "binary_search ps x = Inl i" for i x
    using binary_search_Inl(2)[OF proxiesD(1,2)[OF assms(2) p] that] by simp
  from assms(1) show thesis
    using that[OF _ p] by (auto simp: add_proxy_delegate_def p Let_def len split: sum.splits)
qed

lemma add_proxy_delegate_inv:
  assumes "add_proxy_delegate cfg a b t dl s = Inr s'" "proxy_inv cfg s"
  shows "proxy_inv cfg s'"
  using assms
proof (rule add_proxy_delegateE)
  fix ps d i s1
  assume p: "proxies s a = (ps, d)" "binary_search ps (ProxyDefinition b t dl) = Inl i" "length ps < MaxProxies cfg"
    and adj: "adjust_deposit cfg a (deposit cfg (Suc (length ps))) d s = Inr s1"
    and s': "s' = s1\<lparr>Proxies := (Proxies s1)(a \<mapsto> (insert_at i (ProxyDefinition b t dl) ps, deposit cfg (Suc (length ps))))\<rparr>"
  note B = binary_search_Inl[OF proxiesD(1,2)[OF assms(2) p(1)] p(2)]
  have "proxies_ok cfg (insert_at i (ProxyDefinition b t dl) ps, deposit cfg (Suc (length ps)))"
    using B p(3) by (auto simp: proxies_ok_def insert_at_def)
  then show ?thesis
    using adjust_deposit_fields[OF adj] by (intro proxy_inv_put[OF assms(2)]) (auto simp: s')
qed

lemma remove_proxy_delegate_inv:
  assumes "remove_proxy_delegate cfg a b t dl s = Inr s'" "proxy_inv cfg s"
  shows "proxy_inv cfg s'"
proof -
  from assms(1) obtain ps d where e: "Proxies s a = Some (ps, d)" by (auto simp: remove_proxy_delegate_def)
  from assms(1) obtain i where i: "binary_search ps (ProxyDefinition b t dl) = Inr i"
    by (cases "binary_search ps (ProxyDefinition b t dl)") (auto simp: remove_proxy_delegate_def e)
  note p = e i
  from assms(1) obtain s1 where adj: "adjust_deposit cfg a (deposit cfg (length (remove_at i ps))) d s = Inr s1"
    and s': "s' = s1\<lparr>Proxies := (Proxies s1)(a := (if remove_at i ps = [] then None
      else Some (remove_at i ps, deposit cfg (length (remove_at i ps)))))\<rparr>"
    by (auto simp: remove_proxy_delegate_def Let_def e i)
  have "proxies_ok cfg (ps, d)" using assms(2) p(1) by (auto simp: proxy_inv_def)
  then have "remove_at i ps \<noteq> [] \<Longrightarrow> proxies_ok cfg (remove_at i ps, deposit cfg (length (remove_at i ps)))"
    using remove_at_facts[OF binary_search_Inr(1)[OF p(2)]] by (auto simp: proxies_ok_def)
  then show ?thesis
    using adjust_deposit_fields[OF adj] by (intro proxy_inv_put[OF assms(2)]) (auto simp: s' split: if_splits)
qed

lemma edit_announcementsE:
  assumes "edit_announcements cfg a f s = Inr s'"
  obtains pending d s1 where "Announcements s a = Some (pending, d)" "length (filter f pending) < length pending"
    "adjust_deposit cfg a (announcement_deposit cfg (length (filter f pending))) d s = Inr s1"
    "s' = s1\<lparr>Announcements := (Announcements s1)(a := (if filter f pending = [] then None
      else Some (filter f pending, announcement_deposit cfg (length (filter f pending)))))\<rparr>"
  using assms
  by (auto simp: edit_announcements_def rejig_deposit_announcements Let_def intro!: that split: if_splits)

lemma edit_announcements_inv:
  assumes "edit_announcements cfg a f s = Inr s'" "proxy_inv cfg s"
  shows "proxy_inv cfg s'"
  using assms(1)
proof (rule edit_announcementsE)
  fix pending d s1
  assume p: "Announcements s a = Some (pending, d)" "length (filter f pending) < length pending"
    and adj: "adjust_deposit cfg a (announcement_deposit cfg (length (filter f pending))) d s = Inr s1"
    and s': "s' = s1\<lparr>Announcements := (Announcements s1)(a := (if filter f pending = [] then None
      else Some (filter f pending, announcement_deposit cfg (length (filter f pending)))))\<rparr>"
  have "announcements_ok cfg (pending, d)" using assms(2) p(1) by (auto simp: proxy_inv_def)
  then have "filter f pending \<noteq> [] \<Longrightarrow>
      announcements_ok cfg (filter f pending, announcement_deposit cfg (length (filter f pending)))"
    using p(2) by (auto simp: announcements_ok_def)
  then show ?thesis
    using adjust_deposit_fields[OF adj] by (intro proxy_inv_announce[OF assms(2)]) (auto simp: s' split: if_splits)
qed

lemma announce_inv:
  assumes "announce cfg now og rl h s = Inr s'" "proxy_inv cfg s"
  shows "proxy_inv cfg s'"
proof -
  from assms(1) obtain who r pending d s1 where p: "announcements s who = (pending, d)" "length pending < MaxPending cfg"
    and adj: "adjust_deposit cfg who (announcement_deposit cfg (Suc (length pending))) d s = Inr s1"
    and s': "s' = s1\<lparr>Announcements := (Announcements s1)(who \<mapsto>
      (pending @ [\<lparr>ann_real = r, ann_call_hash = h, ann_height = now\<rparr>], announcement_deposit cfg (Suc (length pending))))\<rparr>"
    by (auto simp: announce_def rejig_deposit_announcements Let_def case_prod_unfold prod_eq_iff)
  show ?thesis
    using adjust_deposit_fields[OF adj] p(2)
    by (intro proxy_inv_announce[OF assms(2)]) (auto simp: s' announcements_ok_def)
qed

lemma create_pure_inv:
  assumes "create_pure cfg current og t dl i s = Inr s'" "proxy_inv cfg s"
  shows "proxy_inv cfg s'"
proof -
  from assms(1) obtain who w where s': "1 \<le> MaxProxies cfg"
    "s' = s\<lparr>p_world := w, Proxies := (Proxies s)(pure_account cfg current who t i None \<mapsto>
      ([ProxyDefinition who t dl], sat_add u64_max (ProxyDepositBase cfg) (ProxyDepositFactor cfg)))\<rparr>"
    by (auto simp: create_pure_def Let_def)
  have "sat_add u64_max (ProxyDepositBase cfg) (sat_mul u64_max (ProxyDepositFactor cfg) 1) =
      sat_add u64_max (ProxyDepositBase cfg) (ProxyDepositFactor cfg)"
    by (auto simp: sat_add_def sat_mul_def)
  with s' show ?thesis
    by (intro proxy_inv_put[OF assms(2)]) (auto simp: proxies_ok_def deposit_def)
qed

section \<open>Reachable states\<close>

datatype ('a, 't, 'h, 'c, 'l) proxy_pallet_call =
    ProxyC "'a origin" 'l "'t option" 'c
  | AddProxyC "'a origin" 'l 't nat
  | RemoveProxyC "'a origin" 'l 't nat
  | RemoveProxiesC "'a origin"
  | CreatePureC "'a origin" 't nat nat
  | KillPureC "'a origin" 'l 't nat nat nat
  | AnnounceC "'a origin" 'l 'h
  | RemoveAnnouncementC "'a origin" 'l 'h
  | RejectAnnouncementC "'a origin" 'l 'h
  | ProxyAnnouncedC "'a origin" 'l 'l "'t option" 'c

fun proxy_exec ::
    "('a::linorder, 't::linorder, 'h, 'c, 'l, 'w) proxy_config \<Rightarrow> nat \<times> nat \<Rightarrow> ('a, 't, 'h, 'c, 'l) proxy_pallet_call \<Rightarrow>
     ('a, 't, 'h, 'w) proxy_state \<Rightarrow> (proxy_error, ('a, 't, 'h, 'w) proxy_state) result" where
  "proxy_exec cfg now (ProxyC og r ft c) s = proxy cfg og r ft c s"
| "proxy_exec cfg now (AddProxyC og d t dl) s = add_proxy cfg og d t dl s"
| "proxy_exec cfg now (RemoveProxyC og d t dl) s = remove_proxy cfg og d t dl s"
| "proxy_exec cfg now (RemoveProxiesC og) s = remove_proxies cfg og s"
| "proxy_exec cfg now (CreatePureC og t dl i) s = create_pure cfg now og t dl i s"
| "proxy_exec cfg now (KillPureC og sp t i h e) s = kill_pure cfg now og sp t i h e s"
| "proxy_exec cfg now (AnnounceC og r h) s = announce cfg (fst now) og r h s"
| "proxy_exec cfg now (RemoveAnnouncementC og r h) s = remove_announcement cfg og r h s"
| "proxy_exec cfg now (RejectAnnouncementC og d h) s = reject_announcement cfg og d h s"
| "proxy_exec cfg now (ProxyAnnouncedC og d r ft c) s = proxy_announced cfg (fst now) og d r ft c s"

text \<open>A dispatched call keeps the bookkeeping of this pallet.\<close>

definition proxied_calls_ok :: "('a::linorder, 't::linorder, 'h, 'c, 'l, 'w) proxy_config \<Rightarrow> bool" where
  "proxied_calls_ok cfg \<longleftrightarrow> (\<forall>f a c s. proxy_inv cfg s \<longrightarrow> proxy_inv cfg (dispatch_filtered cfg f a c s))"

lemma remove_all_inv:
  assumes "proxy_inv cfg s"
  shows "proxy_inv cfg (remove_all_proxy_delegates cfg a s)"
  using assms by (auto simp: proxy_inv_def remove_all_proxy_delegates_def case_prod_unfold Let_def split: if_splits)

lemma proxy_exec_inv:
  assumes "proxy_exec cfg now call s = Inr s'" "proxy_inv cfg s" "proxied_calls_ok cfg"
  shows "proxy_inv cfg s'"
proof (cases call)
  case (ProxyC og r ft c)
  with assms show ?thesis by (auto simp: proxy_def do_proxy_def proxied_calls_ok_def)
next
  case (KillPureC og sp t i h e)
  with assms(1,2) show ?thesis
    by (auto simp: kill_pure_def Let_def case_prod_unfold proxy_inv_def split: if_splits)
next
  case (ProxyAnnouncedC og d r ft c)
  with assms show ?thesis
    by (auto simp: proxy_announced_def Let_def do_proxy_def proxied_calls_ok_def dest!: edit_announcements_inv)
qed (use assms in \<open>auto simp: add_proxy_def remove_proxy_def remove_proxies_def remove_announcement_def
      reject_announcement_def intro: add_proxy_delegate_inv remove_proxy_delegate_inv remove_all_inv create_pure_inv
      announce_inv edit_announcements_inv\<close>)

inductive proxy_step ::
    "('a::linorder, 't::linorder, 'h, 'c, 'l, 'w) proxy_config \<Rightarrow> ('a, 't, 'h, 'w) proxy_state \<Rightarrow>
     ('a, 't, 'h, 'w) proxy_state \<Rightarrow> bool" for cfg where
  call: "proxy_exec cfg now c s = Inr s' \<Longrightarrow> proxy_step cfg s s'"
| elsewhere: "proxy_step cfg s (s\<lparr>p_world := w\<rparr>)"

definition proxy_initial :: "('a, 't, 'h, 'w) proxy_state \<Rightarrow> bool" where
  "proxy_initial s \<longleftrightarrow> Proxies s = Map.empty \<and> Announcements s = Map.empty"

interpretation proxying: invariant_system
  "\<lambda>s. proxy_initial s \<and> proxied_calls_ok cfg" "proxy_step cfg" "\<lambda>s. proxy_inv cfg s \<and> proxied_calls_ok cfg"
proof (unfold_locales, goal_cases)
  case (1 s)
  then show ?case by (simp add: proxy_initial_def proxy_inv_def)
next
  case (2 s t)
  from 2(2) show ?case
  proof (cases rule: proxy_step.cases)
    case (call now c)
    then show ?thesis using proxy_exec_inv 2(1) by blast
  next
    case (elsewhere w)
    then show ?thesis using 2(1) by (simp add: proxy_inv_def)
  qed
qed

text \<open>C32. Deposits and limits of proxies, in every state reachable from the empty one, provided the
  dispatched calls keep them: an account has at most \<open>MaxProxies\<close> proxy definitions, sorted and
  without duplicates, a delegate at most \<open>MaxPending\<close> announcements; entries without content
  are removed, and the recorded deposit is exactly the base plus the factor per entry.\<close>

theorem proxy_bookkeeping:
  assumes "proxy_initial s" "proxied_calls_ok cfg" "(proxy_step cfg)\<^sup>*\<^sup>* s t"
  shows "(\<forall>a ps d. Proxies t a = Some (ps, d) \<longrightarrow> ps \<noteq> [] \<and> length ps \<le> MaxProxies cfg \<and> sorted ps \<and> distinct ps \<and>
      d = sat_add u64_max (ProxyDepositBase cfg) (sat_mul u64_max (ProxyDepositFactor cfg) (length ps))) \<and>
    (\<forall>a pending d. Announcements t a = Some (pending, d) \<longrightarrow> pending \<noteq> [] \<and> length pending \<le> MaxPending cfg \<and>
      d = sat_add u64_max (AnnouncementDepositBase cfg) (sat_mul u64_max (AnnouncementDepositFactor cfg) (length pending)))"
proof -
  have inv: "proxy_inv cfg t" using proxying.reachable_invar assms by blast
  show ?thesis
  proof (intro conjI allI impI)
    fix a ps d
    assume "Proxies t a = Some (ps, d)"
    then have "proxies_ok cfg (ps, d)" using inv unfolding proxy_inv_def by blast
    then show "ps \<noteq> []" "length ps \<le> MaxProxies cfg" "sorted ps" "distinct ps"
      "d = sat_add u64_max (ProxyDepositBase cfg) (sat_mul u64_max (ProxyDepositFactor cfg) (length ps))"
      by (simp_all add: proxies_ok_def deposit_def)
  next
    fix a pending d
    assume "Announcements t a = Some (pending, d)"
    then have "announcements_ok cfg (pending, d)" using inv unfolding proxy_inv_def by blast
    then show "pending \<noteq> []" "length pending \<le> MaxPending cfg"
      "d = sat_add u64_max (AnnouncementDepositBase cfg) (sat_mul u64_max (AnnouncementDepositFactor cfg) (length pending))"
      by (simp_all add: announcements_ok_def announcement_deposit_def)
  qed
qed

text \<open>A configuration for the witnesses: the world is the reserved balance of every account, calls
  are numbers and change nothing.\<close>

definition sample_proxy :: "(nat, nat, nat, nat, nat, nat \<Rightarrow> nat) proxy_config" where
  "sample_proxy = \<lparr>ProxyDepositBase = 10, ProxyDepositFactor = 3, MaxProxies = 4, MaxPending = 2,
     AnnouncementDepositBase = 20, AnnouncementDepositFactor = 5,
     p_reserve = (\<lambda>a x w. Some (w(a := w a + x))), p_unreserve = (\<lambda>a x w. w(a := w a - x)), p_lookup = Some,
     call_hash_of = (\<lambda>c. c), pure_entropy = (\<lambda>a w t i. 1000 + a), is_sub_type = (\<lambda>c. None),
     type_superset = (\<ge>), type_filter = (\<lambda>t c. True), default_type = 0, dispatch_filtered = (\<lambda>f a c s. s)\<rparr>"

definition no_proxies :: "(nat, nat, nat, nat \<Rightarrow> nat) proxy_state" where
  "no_proxies = \<lparr>Proxies = Map.empty, Announcements = Map.empty, p_world = (\<lambda>_. 0)\<rparr>"

lemmas proxy_eval = sample_proxy_def no_proxies_def add_proxy_def add_proxy_delegate_def binary_search_def
  insert_at_def proxies_def adjust_deposit_def deposit_def sat_add_def sat_mul_def u64_max_def Let_def

theorem proxy_bookkeeping_witness:
  "\<exists>t. add_proxy sample_proxy (Signed 1) 2 0 5 no_proxies = Inr t \<and>
    Proxies t 1 = Some ([ProxyDefinition 2 0 5], sat_add u64_max (ProxyDepositBase sample_proxy)
      (sat_mul u64_max (ProxyDepositFactor sample_proxy) (length [ProxyDefinition (2::nat) (0::nat) 5])))"
proof -
  have "\<exists>t. add_proxy sample_proxy (Signed 1) 2 0 5 no_proxies = Inr t \<and> Proxies t 1 = Some ([ProxyDefinition 2 0 5], 13)"
    by (simp add: proxy_eval)
  then obtain t where t: "add_proxy sample_proxy (Signed 1) 2 0 5 no_proxies = Inr t"
    "Proxies t 1 = Some ([ProxyDefinition 2 0 5], 13)" by blast
  have "proxy_exec sample_proxy (0, 0) (AddProxyC (Signed 1) 2 0 5) no_proxies = Inr t" using t(1) by simp
  then have st: "(proxy_step sample_proxy)\<^sup>*\<^sup>* no_proxies t" by (intro r_into_rtranclp) (rule proxy_step.call)
  have "proxy_initial no_proxies" "proxied_calls_ok sample_proxy"
    by (simp_all add: proxy_initial_def no_proxies_def proxied_calls_ok_def) (simp add: sample_proxy_def)
  from proxy_bookkeeping[OF this st, THEN conjunct1, rule_format, OF t(2)]
  have "13 = sat_add u64_max (ProxyDepositBase sample_proxy)
      (sat_mul u64_max (ProxyDepositFactor sample_proxy) (length [ProxyDefinition (2::nat) (0::nat) 5]))" by (elim conjE)
  with t show ?thesis by (intro exI[of _ t]) simp
qed

text \<open>Adding a proxy and removing it again is the identity: in a consistent state, if \<open>add_proxy\<close>
  succeeds then \<open>remove_proxy\<close> with the same arguments succeeds, and restores the proxies and the
  world, when the currency gives back exactly what it reserved.\<close>

theorem add_remove_proxy_roundtrip:
  assumes "proxy_inv cfg s" "add_proxy cfg (Signed a) b t dl s = Inr s1"
    and "\<And>x w w'. p_reserve cfg a x w = Some w' \<Longrightarrow> p_unreserve cfg a x w' = w"
  shows "remove_proxy cfg (Signed a) b t dl s1 = Inr s"
proof -
  from assms(2) obtain b' where b': "p_lookup cfg b = Some b'" "add_proxy_delegate cfg a b' t dl s = Inr s1"
    by (auto simp: add_proxy_def)
  from b'(2) assms(1) have "remove_proxy_delegate cfg a b' t dl s1 = Inr s"
  proof (rule add_proxy_delegateE)
    fix ps d i u
    let ?x = "ProxyDefinition b' t dl"
    assume p: "proxies s a = (ps, d)" "binary_search ps ?x = Inl i"
      and adj: "adjust_deposit cfg a (deposit cfg (Suc (length ps))) d s = Inr u"
      and s1: "s1 = u\<lparr>Proxies := (Proxies u)(a \<mapsto> (insert_at i ?x ps, deposit cfg (Suc (length ps))))\<rparr>"
    note D = proxiesD[OF assms(1) p(1)] and B = binary_search_Inl[OF proxiesD(1,2)[OF assms(1) p(1)] p(2)]
    have le: "d \<le> deposit cfg (Suc (length ps))" unfolding D(4) by (rule deposit_mono) simp
    have undo: "adjust_deposit cfg a d (deposit cfg (Suc (length ps))) s1 =
        Inr (s\<lparr>Proxies := (Proxies s)(a \<mapsto> (insert_at i ?x ps, deposit cfg (Suc (length ps))))\<rparr>)"
    proof (cases "d = deposit cfg (Suc (length ps))")
      case True
      with adj show ?thesis by (simp add: adjust_deposit_def s1)
    next
      case False
      with le have lt: "d < deposit cfg (Suc (length ps))" by simp
      with adj obtain w where "p_reserve cfg a (deposit cfg (Suc (length ps)) - d) (p_world s) = Some w" "u = s\<lparr>p_world := w\<rparr>"
        by (auto simp: adjust_deposit_def)
      with assms(3)[OF this(1)] lt show ?thesis by (simp add: adjust_deposit_def s1)
    qed
    have "(Proxies s)(a := (if ps = [] then None else Some (ps, d))) = Proxies s"
      unfolding D(5)[symmetric] by (rule fun_upd_triv)
    then have same: "s\<lparr>Proxies := (Proxies s)(a := (if ps = [] then None else Some (ps, d)))\<rparr> = s" by simp
    have "remove_proxy_delegate cfg a b' t dl s1 =
        Inr (s\<lparr>Proxies := (Proxies s)(a := (if ps = [] then None else Some (ps, d)))\<rparr>)"
      using undo B D(4) by (simp add: remove_proxy_delegate_def s1)
    then show ?thesis unfolding same .
  qed
  then show ?thesis using b'(1) by (simp add: remove_proxy_def)
qed

theorem add_remove_proxy_roundtrip_witness:
  "\<exists>s1. add_proxy sample_proxy (Signed 1) 2 0 5 no_proxies = Inr s1 \<and>
    remove_proxy sample_proxy (Signed 1) 2 0 5 s1 = Inr no_proxies"
proof -
  have "\<exists>t. add_proxy sample_proxy (Signed 1) 2 0 5 no_proxies = Inr t" by (simp add: proxy_eval)
  then obtain t where t: "add_proxy sample_proxy (Signed 1) 2 0 5 no_proxies = Inr t" by blast
  have "proxy_inv sample_proxy no_proxies" by (simp add: proxy_inv_def no_proxies_def)
  moreover have "p_reserve sample_proxy 1 x w = Some w' \<Longrightarrow> p_unreserve sample_proxy 1 x w' = w" for x w w'
    by (auto simp: sample_proxy_def)
  ultimately show ?thesis using add_remove_proxy_roundtrip[OF _ t] t by blast
qed

lemma edit_announcements_lower:
  assumes "proxy_inv cfg s" "Announcements s a = Some (pending, d)"
  shows "length (filter f pending) < length pending \<Longrightarrow> \<exists>s'. edit_announcements cfg a f s = Inr s'"
    "\<not> length (filter f pending) < length pending \<Longrightarrow> edit_announcements cfg a f s = Inl NotFound"
proof -
  have d: "d = announcement_deposit cfg (length pending)"
    using assms by (auto simp: proxy_inv_def announcements_ok_def)
  show "\<not> length (filter f pending) < length pending \<Longrightarrow> edit_announcements cfg a f s = Inl NotFound"
    using assms(2) by (simp add: edit_announcements_def Let_def)
  assume less: "length (filter f pending) < length pending"
  then have "announcement_deposit cfg (length (filter f pending)) \<le> d"
    unfolding d by (intro announcement_deposit_mono) simp
  from adjust_deposit_down[OF this, of cfg a s] obtain s1
    where "adjust_deposit cfg a (announcement_deposit cfg (length (filter f pending))) d s = Inr s1" by blast
  with less assms(2) show "\<exists>s'. edit_announcements cfg a f s = Inr s'"
    by (auto simp: edit_announcements_def Let_def rejig_deposit_announcements)
qed

text \<open>C31. Announced calls. For a registered proxy \<open>def\<close> of \<open>r\<close>, \<open>proxy_announced\<close> goes through exactly
  when the delegate has announced this call for \<open>r\<close> at least \<open>def.delay\<close> blocks ago, and is
  \<open>Unannounced\<close> otherwise. When it goes through, the matured announcements of this call are used
  up before the dispatch, so none of them can authorise it twice; every other announcement and
  all proxies are as they were.\<close>

theorem announced_proxy:
  fixes cfg :: "('a::linorder, 't::linorder, 'h, 'c, 'l, 'w) proxy_config" and now :: nat and c :: 'c
  assumes "proxy_inv cfg s" "p_lookup cfg ld = Some b" "p_lookup cfg lr = Some r" "find_proxy s r b ft = Inr def"
  defines "mature \<equiv> \<lambda>ann. ann_real ann = r \<and> ann_call_hash ann = call_hash_of cfg c \<and> pd_delay def \<le> now - ann_height ann"
  shows "if \<exists>ann \<in> set (fst (announcements s b)). mature ann
    then \<exists>s1. proxy_announced cfg now (Signed a) ld lr ft c s = Inr (do_proxy cfg def r c s1) \<and>
      Proxies s1 = Proxies s \<and> fst (announcements s1 b) = filter (\<lambda>ann. \<not> mature ann) (fst (announcements s b)) \<and>
      (\<forall>b'. b' \<noteq> b \<longrightarrow> Announcements s1 b' = Announcements s b')
    else proxy_announced cfg now (Signed a) ld lr ft c s = Inl Unannounced"
proof -
  let ?f = "\<lambda>ann. \<not> mature ann"
  have f: "(\<lambda>ann. ann_real ann \<noteq> r \<or> ann_call_hash ann \<noteq> call_hash_of cfg c \<or> now - ann_height ann < pd_delay def) = ?f"
    by (auto simp: mature_def not_le)
  have run: "proxy_announced cfg now (Signed a) ld lr ft c s =
      and_then (map_err (\<lambda>_. Unannounced) (edit_announcements cfg b ?f s)) (\<lambda>s1. Inr (do_proxy cfg def r c s1))"
    unfolding f[symmetric] using assms(2-4) by (simp add: proxy_announced_def Let_def)
  show ?thesis
  proof (cases "Announcements s b")
    case None
    then have "edit_announcements cfg b ?f s = Inl NotFound" by (simp add: edit_announcements_def)
    with None show ?thesis unfolding run by (simp add: announcements_def)
  next
    case (Some e)
    obtain pending d where e: "Announcements s b = Some (pending, d)" using Some by (cases e) simp
    have less: "length (filter ?f pending) < length pending \<longleftrightarrow> (\<exists>ann \<in> set pending. mature ann)"
      using length_filter_less[of _ pending "\<lambda>ann. \<not> mature ann"]
      by (metis (no_types, lifting) filter_True less_irrefl)
    show ?thesis
    proof (cases "\<exists>ann \<in> set pending. mature ann")
      case True
      then obtain s1 where s1: "edit_announcements cfg b ?f s = Inr s1"
        using edit_announcements_lower(1)[OF assms(1) e] less by blast
      from s1 have "Proxies s1 = Proxies s \<and> fst (announcements s1 b) = filter ?f pending \<and>
          (\<forall>b'. b' \<noteq> b \<longrightarrow> Announcements s1 b' = Announcements s b')"
        by (rule edit_announcementsE) (auto simp: e announcements_def dest: adjust_deposit_fields)
      with True s1 e show ?thesis unfolding run by (auto simp: announcements_def)
    next
      case False
      then have "edit_announcements cfg b ?f s = Inl NotFound"
        using edit_announcements_lower(2)[OF assms(1) e] less by blast
      with False e show ?thesis unfolding run by (simp add: announcements_def)
    qed
  qed
qed

text \<open>A delegate with a matured and an unrelated announcement, for a proxy with a delay of five blocks.\<close>

definition announced_state :: "(nat, nat, nat, nat \<Rightarrow> nat) proxy_state" where
  "announced_state = \<lparr>Proxies = [1 \<mapsto> ([ProxyDefinition 2 0 5], 13)],
     Announcements = [2 \<mapsto> ([\<lparr>ann_real = 1, ann_call_hash = 77, ann_height = 10\<rparr>,
       \<lparr>ann_real = 1, ann_call_hash = 78, ann_height = 10\<rparr>], 30)], p_world = (\<lambda>_. 50)\<rparr>"

theorem announced_proxy_witness:
  "(\<exists>s1. proxy_announced sample_proxy 15 (Signed 3) 2 1 None 77 announced_state =
      Inr (do_proxy sample_proxy (ProxyDefinition 2 0 5) 1 77 s1) \<and>
      fst (announcements s1 2) = [\<lparr>ann_real = 1, ann_call_hash = 78, ann_height = 10\<rparr>]) \<and>
   proxy_announced sample_proxy 14 (Signed 3) 2 1 None 77 announced_state = Inl Unannounced"
proof -
  have inv: "proxy_inv sample_proxy announced_state"
    by (auto simp: proxy_inv_def announced_state_def proxies_ok_def announcements_ok_def deposit_def
        announcement_deposit_def sample_proxy_def sat_add_def sat_mul_def u64_max_def split: if_splits)
  have h: "p_lookup sample_proxy 2 = Some 2" "p_lookup sample_proxy 1 = Some 1"
    "find_proxy announced_state 1 2 None = Inr (ProxyDefinition 2 0 5)"
    by (simp_all add: sample_proxy_def find_proxy_def announced_state_def proxies_def)
  have anns: "fst (announcements announced_state 2) = [\<lparr>ann_real = 1, ann_call_hash = 77, ann_height = 10\<rparr>,
      \<lparr>ann_real = 1, ann_call_hash = 78, ann_height = 10\<rparr>]" "call_hash_of sample_proxy = (\<lambda>c. c)"
    by (simp_all add: announced_state_def announcements_def sample_proxy_def)
  show ?thesis
    using announced_proxy[OF inv h, where a = 3 and now = 15 and c = 77]
      announced_proxy[OF inv h, where a = 3 and now = 14 and c = 77]
    by (simp add: anns) blast
qed

end
