(* ===== verification/Commitments.thy ===== *)
theory Commitments
  imports Storage "HOL-Library.Product_Lexorder"
begin

text \<open>
  The commitments pallet (\<open>pallets/commitments/src/lib.rs\<close> and \<open>types.rs\<close>): metadata that accounts
  commit to on a subnet, some of it encrypted until a round of the randomness beacon, and the hook
  that reveals it. The binary format of a field is modelled with the codec of vectors and of
  \<open>u64\<close> as parameters (\<open>codec\<close>); the currency, the permission to commit, the epoch, the pulses of the
  beacon and the timelock decryption are the fields of \<open>commitments_config\<close>.

  The hook is not a transaction: when it fails it keeps what it has written, so
  \<open>reveal_timelocked_commitments\<close> returns its state with the outcome.
\<close>

section \<open>Fields\<close>

datatype commitment_data =
    NoData
  | Raw "nat list"
  | BlakeTwo256 "nat list"
  | Sha256 "nat list"
  | Keccak256 "nat list"
  | ShaThree256 "nat list"
  | TimelockEncrypted "nat list" nat
  | ResetBondsFlag
  | BigRaw "nat list"

fun is_timelock_encrypted :: "commitment_data \<Rightarrow> bool" where
  "is_timelock_encrypted (TimelockEncrypted _ _) = True"
| "is_timelock_encrypted _ = False"

fun len_for_rate_limit :: "commitment_data \<Rightarrow> nat" where
  "len_for_rate_limit NoData = 0"
| "len_for_rate_limit (Raw bytes) = length bytes"
| "len_for_rate_limit (BlakeTwo256 arr) = length arr"
| "len_for_rate_limit (Sha256 arr) = length arr"
| "len_for_rate_limit (Keccak256 arr) = length arr"
| "len_for_rate_limit (ShaThree256 arr) = length arr"
| "len_for_rate_limit (TimelockEncrypted encrypted _) = length encrypted"
| "len_for_rate_limit ResetBondsFlag = 0"
| "len_for_rate_limit (BigRaw bytes) = length bytes"

text \<open>The codec of the crate \<open>parity-scale-codec\<close>: a decoder consumes a prefix of the input.\<close>

record codec =
  vec_encode :: "nat list \<Rightarrow> nat list"
  vec_decode :: "nat \<Rightarrow> nat list \<Rightarrow> (nat list \<times> nat list) option"
  u64_encode :: "nat \<Rightarrow> nat list"
  u64_decode :: "nat list \<Rightarrow> (nat \<times> nat list) option"

definition MAX_TIMELOCK_COMMITMENT_SIZE_BYTES :: nat where "MAX_TIMELOCK_COMMITMENT_SIZE_BYTES = 1024"
definition MAX_BIGRAW_COMMITMENT_SIZE_BYTES :: nat where "MAX_BIGRAW_COMMITMENT_SIZE_BYTES = 512"

fun encode_data :: "codec \<Rightarrow> commitment_data \<Rightarrow> nat list" where
  "encode_data C NoData = [0]"
| "encode_data C (Raw x) = (min (length x) 128 + 1) # x"
| "encode_data C (BlakeTwo256 h) = 130 # h"
| "encode_data C (Sha256 h) = 131 # h"
| "encode_data C (Keccak256 h) = 132 # h"
| "encode_data C (ShaThree256 h) = 133 # h"
| "encode_data C (TimelockEncrypted encrypted reveal_round) = 134 # vec_encode C encrypted @ u64_encode C reveal_round"
| "encode_data C ResetBondsFlag = [135]"
| "encode_data C (BigRaw bigvec) = 136 # vec_encode C bigvec"

definition decode_data :: "codec \<Rightarrow> nat list \<Rightarrow> (commitment_data \<times> nat list) option" where
  "decode_data C bs =
     (case bs of
        [] \<Rightarrow> None
      | b # bs \<Rightarrow>
          if b = 0 then Some (NoData, bs)
          else if b \<le> 129 then map_option (\<lambda>(r, bs). (Raw r, bs)) (read_bytes (b - 1) bs)
          else if b = 130 then map_option (\<lambda>(h, bs). (BlakeTwo256 h, bs)) (read_bytes 32 bs)
          else if b = 131 then map_option (\<lambda>(h, bs). (Sha256 h, bs)) (read_bytes 32 bs)
          else if b = 132 then map_option (\<lambda>(h, bs). (Keccak256 h, bs)) (read_bytes 32 bs)
          else if b = 133 then map_option (\<lambda>(h, bs). (ShaThree256 h, bs)) (read_bytes 32 bs)
          else if b = 134 then
            (case vec_decode C MAX_TIMELOCK_COMMITMENT_SIZE_BYTES bs of
               None \<Rightarrow> None
             | Some (encrypted, bs) \<Rightarrow>
                 map_option (\<lambda>(reveal_round, bs). (TimelockEncrypted encrypted reveal_round, bs)) (u64_decode C bs))
          else if b = 135 then Some (ResetBondsFlag, bs)
          else if b = 136 then map_option (\<lambda>(v, bs). (BigRaw v, bs)) (vec_decode C MAX_BIGRAW_COMMITMENT_SIZE_BYTES bs)
          else None)"

text \<open>The bounds of the types: \<open>BoundedVec<u8, N>\<close>, \<open>[u8; 32]\<close> and \<open>u64\<close>.\<close>

fun data_wf :: "commitment_data \<Rightarrow> bool" where
  "data_wf (Raw x) \<longleftrightarrow> length x \<le> 128"
| "data_wf (BlakeTwo256 h) \<longleftrightarrow> length h = 32"
| "data_wf (Sha256 h) \<longleftrightarrow> length h = 32"
| "data_wf (Keccak256 h) \<longleftrightarrow> length h = 32"
| "data_wf (ShaThree256 h) \<longleftrightarrow> length h = 32"
| "data_wf (TimelockEncrypted e r) \<longleftrightarrow> length e \<le> MAX_TIMELOCK_COMMITMENT_SIZE_BYTES \<and> r \<le> u64_max"
| "data_wf (BigRaw x) \<longleftrightarrow> length x \<le> MAX_BIGRAW_COMMITMENT_SIZE_BYTES"
| "data_wf _ \<longleftrightarrow> True"

definition codec_ok :: "codec \<Rightarrow> bool" where
  "codec_ok C \<longleftrightarrow>
     (\<forall>k xs rest. length xs \<le> k \<longrightarrow> vec_decode C k (vec_encode C xs @ rest) = Some (xs, rest)) \<and>
     (\<forall>k bs xs rest. vec_decode C k bs = Some (xs, rest) \<longrightarrow> length xs \<le> k) \<and>
     (\<forall>n rest. n \<le> u64_max \<longrightarrow> u64_decode C (u64_encode C n @ rest) = Some (n, rest)) \<and>
     (\<forall>bs n rest. u64_decode C bs = Some (n, rest) \<longrightarrow> n \<le> u64_max)"

section \<open>State\<close>

record commitment_registration =
  cr_deposit :: nat
  cr_block :: nat
  cr_fields :: "commitment_data list"

record usage_tracker =
  last_epoch :: nat
  used_space :: nat

record ('a, 'w) commitments_state =
  TimelockedIndex :: "(netuid \<times> 'a) set"
  CommitmentOf :: "netuid \<Rightarrow> 'a \<Rightarrow> commitment_registration option"
  LastCommitment :: "netuid \<Rightarrow> 'a \<Rightarrow> nat option"
  LastBondsReset :: "netuid \<Rightarrow> 'a \<Rightarrow> nat option"
  RevealedCommitments :: "netuid \<Rightarrow> 'a \<Rightarrow> (nat list \<times> nat) list option"
  UsedSpaceOf :: "netuid \<Rightarrow> 'a \<Rightarrow> usage_tracker option"
  MaxSpace :: nat
  cm_world :: 'w

datatype commitments_error =
    TooManyFieldsInCommitmentInfo | AccountNotAllowedCommit | SpaceLimitExceeded | UnexpectedUnreserveLeftover
  | CommitBadOrigin | ReserveError

record ('a, 'w, 'g, 'x) commitments_config =
  MaxFields :: nat
  cm_InitialDeposit :: nat
  cm_FieldDeposit :: nat
  can_commit :: "netuid \<Rightarrow> 'a \<Rightarrow> 'w \<Rightarrow> bool"
  on_metadata_commitment :: "netuid \<Rightarrow> 'a \<Rightarrow> 'w \<Rightarrow> 'w"
  epoch_index :: "netuid \<Rightarrow> nat \<Rightarrow> 'w \<Rightarrow> nat"
  cm_reserve :: "'a \<Rightarrow> nat \<Rightarrow> 'w \<Rightarrow> 'w option"
  cm_unreserve :: "'a \<Rightarrow> nat \<Rightarrow> 'w \<Rightarrow> nat \<times> 'w"
  pulse_signature :: "nat \<Rightarrow> 'w \<Rightarrow> nat list option"
  signature_decode :: "nat list \<Rightarrow> 'g option"
  ciphertext_decode :: "nat list \<Rightarrow> 'x option"
  tld :: "'x \<Rightarrow> 'g \<Rightarrow> nat list option"

section \<open>Calls\<close>

definition required_space :: "commitment_data list \<Rightarrow> nat" where
  "required_space info = max (sum_list (map len_for_rate_limit info)) 100"

definition set_commitment ::
    "('a, 'w, 'g, 'x) commitments_config \<Rightarrow> nat \<Rightarrow> 'a origin \<Rightarrow> netuid \<Rightarrow> commitment_data list \<Rightarrow> ('a, 'w) commitments_state \<Rightarrow>
     (commitments_error, ('a, 'w) commitments_state) result" where
  "set_commitment cfg cur_block og n info s =
     and_then (ensure_signed CommitBadOrigin og) (\<lambda>who.
     ensure (can_commit cfg n who (cm_world s)) AccountNotAllowedCommit
    (let extra_fields = length info in
     ensure (extra_fields \<le> MaxFields cfg) TooManyFieldsInCommitmentInfo
    (let usage = (case UsedSpaceOf s n who of Some u \<Rightarrow> u | None \<Rightarrow> \<lparr>last_epoch = 0, used_space = 0\<rparr>);
         current_epoch = epoch_index cfg n cur_block (cm_world s);
         usage = (if last_epoch usage \<noteq> current_epoch then \<lparr>last_epoch = current_epoch, used_space = 0\<rparr> else usage);
         s = (if ResetBondsFlag \<in> set info
              then s\<lparr>LastBondsReset := (LastBondsReset s)(n := (LastBondsReset s n)(who \<mapsto> cur_block)),
                     cm_world := on_metadata_commitment cfg n who (cm_world s)\<rparr>
              else s) in
     ensure (sat_add u64_max (used_space usage) (required_space info) \<le> MaxSpace s) SpaceLimitExceeded
    (let usage = usage\<lparr>used_space := sat_add u64_max (used_space usage) (required_space info)\<rparr>;
         s = s\<lparr>UsedSpaceOf := (UsedSpaceOf s)(n := (UsedSpaceOf s n)(who \<mapsto> usage))\<rparr>;
         old_deposit = (case CommitmentOf s n who of Some reg \<Rightarrow> cr_deposit reg | None \<Rightarrow> 0);
         fd = sat_mul u64_max extra_fields (cm_FieldDeposit cfg);
         new_deposit = sat_add u64_max (cm_InitialDeposit cfg) fd;
         reg = \<lparr>cr_deposit = new_deposit, cr_block = cur_block, cr_fields = info\<rparr> in
     and_then (if new_deposit > old_deposit
               then map_err (\<lambda>_. ReserveError) (ok_or (cm_reserve cfg who (new_deposit - old_deposit) (cm_world s)) ())
               else Inr (cm_world s)) (\<lambda>w.
     and_then (if old_deposit > new_deposit
               then let (err_amount, w) = cm_unreserve cfg who (old_deposit - new_deposit) w
                    in ensure (err_amount = 0) UnexpectedUnreserveLeftover (Inr w)
               else Inr w) (\<lambda>w.
     Inr (s\<lparr>cm_world := w, CommitmentOf := (CommitmentOf s)(n := (CommitmentOf s n)(who \<mapsto> reg)),
            LastCommitment := (LastCommitment s)(n := (LastCommitment s n)(who \<mapsto> cur_block)),
            TimelockedIndex := (if \<exists>d \<in> set info. is_timelock_encrypted d
              then insert (n, who) (TimelockedIndex s) else TimelockedIndex s - {(n, who)})\<rparr>)))))))"

definition set_rate_limit ::
    "'a origin \<Rightarrow> nat \<Rightarrow> ('a, 'w) commitments_state \<Rightarrow> (commitments_error, ('a, 'w) commitments_state) result" where
  "set_rate_limit og rate_limit_blocks s = and_then (ensure_root CommitBadOrigin og) (\<lambda>_. Inr s)"

definition set_max_space ::
    "'a origin \<Rightarrow> nat \<Rightarrow> ('a, 'w) commitments_state \<Rightarrow> (commitments_error, ('a, 'w) commitments_state) result" where
  "set_max_space og new_limit s = and_then (ensure_root CommitBadOrigin og) (\<lambda>_. Inr (s\<lparr>MaxSpace := new_limit\<rparr>))"

section \<open>Reveals\<close>

text \<open>\<open>strip_prefix(b"0x").unwrap_or(..)\<close>\<close>

definition strip_0x :: "nat list \<Rightarrow> nat list" where
  "strip_0x bs = (if List.take 2 bs = [48, 120] then drop 2 bs else bs)"

text \<open>One field: kept, revealed or dropped. The accumulator is (remaining, revealed).\<close>

definition reveal_field ::
    "('a, 'w, 'g, 'x) commitments_config \<Rightarrow> 'w \<Rightarrow> commitment_data \<Rightarrow> commitment_data list \<times> nat list list \<Rightarrow>
     commitment_data list \<times> nat list list" where
  "reveal_field cfg w data acc =
     (let (remain, revealed) = acc
      in case data of
           TimelockEncrypted encrypted reveal_round \<Rightarrow>
             (case pulse_signature cfg reveal_round w of
                None \<Rightarrow> (remain @ [data], revealed)
              | Some signature \<Rightarrow>
                  (case signature_decode cfg (strip_0x signature) of
                     None \<Rightarrow> (remain, revealed)
                   | Some sig \<Rightarrow>
                       (case ciphertext_decode cfg encrypted of
                          None \<Rightarrow> (remain, revealed)
                        | Some commit \<Rightarrow>
                            let decrypted_bytes = (case tld cfg commit sig of Some bs \<Rightarrow> bs | None \<Rightarrow> [])
                            in if decrypted_bytes = [] then (remain, revealed)
                               else (remain, revealed @ [decrypted_bytes]))))
         | _ \<Rightarrow> (remain @ [data], revealed))"

definition MAX_REVEALS :: nat where "MAX_REVEALS = 10"

definition reveal_entry ::
    "('a, 'w, 'g, 'x) commitments_config \<Rightarrow> nat \<Rightarrow> netuid \<times> 'a \<Rightarrow> ('a, 'w) commitments_state \<Rightarrow>
     bool \<times> ('a, 'w) commitments_state" where
  "reveal_entry cfg block key s =
     (let (n, who) = key
      in case CommitmentOf s n who of
           None \<Rightarrow> (True, s\<lparr>TimelockedIndex := TimelockedIndex s - {(n, who)}\<rparr>)
         | Some registration \<Rightarrow>
             let (remain_fields, revealed_fields) = fold (reveal_field cfg (cm_world s)) (cr_fields registration) ([], []);
                 s = (if revealed_fields \<noteq> []
                      then let existing_reveals = (case RevealedCommitments s n who of Some xs \<Rightarrow> xs | None \<Rightarrow> []);
                               existing_reveals = existing_reveals @ map (\<lambda>bytes. (bytes, block)) revealed_fields;
                               existing_reveals = (if length existing_reveals > MAX_REVEALS
                                 then drop (length existing_reveals - MAX_REVEALS) existing_reveals else existing_reveals)
                           in s\<lparr>RevealedCommitments := (RevealedCommitments s)
                                  (n := (RevealedCommitments s n)(who \<mapsto> existing_reveals))\<rparr>
                      else s)
             in if length remain_fields > MaxFields cfg then (False, s)
                else if remain_fields = []
                then (True, s\<lparr>CommitmentOf := (CommitmentOf s)(n := (CommitmentOf s n)(who := None)),
                              TimelockedIndex := TimelockedIndex s - {(n, who)}\<rparr>)
                else
                  let s = s\<lparr>CommitmentOf := (CommitmentOf s)(n := (CommitmentOf s n)
                        (who \<mapsto> registration\<lparr>cr_fields := remain_fields\<rparr>))\<rparr>
                  in (True, if \<not> (\<exists>f \<in> set remain_fields. is_timelock_encrypted f)
                            then s\<lparr>TimelockedIndex := TimelockedIndex s - {(n, who)}\<rparr> else s))"

fun reveal_loop ::
    "('a, 'w, 'g, 'x) commitments_config \<Rightarrow> nat \<Rightarrow> (netuid \<times> 'a) list \<Rightarrow> ('a, 'w) commitments_state \<Rightarrow>
     bool \<times> ('a, 'w) commitments_state" where
  "reveal_loop cfg block [] s = (True, s)"
| "reveal_loop cfg block (key # keys) s =
     (let (ok, s) = reveal_entry cfg block key s in if ok then reveal_loop cfg block keys s else (False, s))"

definition reveal_timelocked_commitments ::
    "('a::linorder, 'w, 'g, 'x) commitments_config \<Rightarrow> nat \<Rightarrow> ('a, 'w) commitments_state \<Rightarrow> bool \<times> ('a, 'w) commitments_state" where
  "reveal_timelocked_commitments cfg block s = reveal_loop cfg block (sorted_list_of_set (TimelockedIndex s)) s"

section \<open>The format of a field\<close>

text \<open>The format of committed fields. Decoding what was encoded gives the field back and consumes
  exactly its bytes, whatever follows, for every field within the bounds of its type; and
  whatever decodes is within these bounds.\<close>

theorem data_format_roundtrip:
  assumes "codec_ok C"
  shows "(data_wf d \<longrightarrow> decode_data C (encode_data C d @ rest) = Some (d, rest)) \<and>
    (decode_data C bs = Some (d', rest') \<longrightarrow> data_wf d')"
proof (intro conjI impI)
  note V = assms[unfolded codec_ok_def]
  assume wf: "data_wf d"
  show "decode_data C (encode_data C d @ rest) = Some (d, rest)"
    using wf V by (cases d) (auto simp: decode_data_def min_def read_bytes_exact)
next
  note V = assms[unfolded codec_ok_def]
  have v: "length xs \<le> k" if "vec_decode C k bs = Some (xs, r)" for k bs xs r using V that by blast
  have u: "n \<le> u64_max" if "u64_decode C bs = Some (n, r)" for bs n r using V that by blast
  assume "decode_data C bs = Some (d', rest')"
  then show "data_wf d'"
    by (auto simp: decode_data_def split: list.splits if_splits option.splits dest: read_bytes_length v u)
qed

text \<open>A codec for the witnesses: the length before the bytes, and a number as one byte.\<close>

definition plain_codec :: codec where
  "plain_codec = \<lparr>vec_encode = (\<lambda>xs. length xs # xs),
     vec_decode = (\<lambda>k bs. case bs of [] \<Rightarrow> None | l # bs \<Rightarrow> if l \<le> k then read_bytes l bs else None),
     u64_encode = (\<lambda>n. [n]),
     u64_decode = (\<lambda>bs. case bs of [] \<Rightarrow> None | n # bs \<Rightarrow> if n \<le> u64_max then Some (n, bs) else None)\<rparr>"

lemma plain_codec_ok: "codec_ok plain_codec"
  by (auto simp: codec_ok_def plain_codec_def split: list.splits if_splits dest: read_bytes_length)

theorem data_format_roundtrip_witness:
  "decode_data plain_codec (encode_data plain_codec (TimelockEncrypted [7, 8, 9] 12) @ [5, 6]) =
     Some (TimelockEncrypted [7, 8, 9] 12, [5, 6])"
proof -
  have "data_wf (TimelockEncrypted [7, 8, 9] 12)" by (simp add: MAX_TIMELOCK_COMMITMENT_SIZE_BYTES_def u64_max_def)
  then show ?thesis using data_format_roundtrip[OF plain_codec_ok] by blast
qed

section \<open>Revealing one entry\<close>

text \<open>What becomes of the fields: those that are not due stay, in order.\<close>

definition due :: "('a, 'w, 'g, 'x) commitments_config \<Rightarrow> 'w \<Rightarrow> commitment_data \<Rightarrow> bool" where
  "due cfg w d = (case d of TimelockEncrypted e r \<Rightarrow> pulse_signature cfg r w \<noteq> None | _ \<Rightarrow> False)"

definition decrypted :: "('a, 'w, 'g, 'x) commitments_config \<Rightarrow> 'w \<Rightarrow> commitment_data \<Rightarrow> nat list option" where
  "decrypted cfg w d =
     (case d of
        TimelockEncrypted e r \<Rightarrow>
          Option.bind (pulse_signature cfg r w) (\<lambda>signature.
          Option.bind (signature_decode cfg (strip_0x signature)) (\<lambda>sig.
          Option.bind (ciphertext_decode cfg e) (\<lambda>commit.
          Option.bind (tld cfg commit sig) (\<lambda>bs. if bs = [] then None else Some bs))))
      | _ \<Rightarrow> None)"

lemma reveal_field_eq:
  "reveal_field cfg w d (remain, revealed) =
     (if due cfg w d then remain else remain @ [d],
      case decrypted cfg w d of Some bs \<Rightarrow> revealed @ [bs] | None \<Rightarrow> revealed)"
  by (auto simp: reveal_field_def due_def decrypted_def Let_def split: commitment_data.splits option.splits)

lemma reveal_fields_eq:
  "fold (reveal_field cfg w) ds (remain, revealed) =
     (remain @ filter (\<lambda>d. \<not> due cfg w d) ds, revealed @ List.map_filter (decrypted cfg w) ds)"
  by (induction ds arbitrary: remain revealed)
    (auto simp: reveal_field_eq map_filter_simps split: option.splits)

text \<open>The entry and the reveals of an account after the hook.\<close>

definition after_reveal ::
    "('a, 'w, 'g, 'x) commitments_config \<Rightarrow> 'w \<Rightarrow> commitment_registration option \<Rightarrow> commitment_registration option" where
  "after_reveal cfg w r = Option.bind r (\<lambda>reg.
     let remain = filter (\<lambda>d. \<not> due cfg w d) (cr_fields reg)
     in if remain = [] then None else Some (reg\<lparr>cr_fields := remain\<rparr>))"

definition last_reveals :: "'x list \<Rightarrow> 'x list" where
  "last_reveals xs = drop (length xs - MAX_REVEALS) xs"

definition after_reveals ::
    "('a, 'w, 'g, 'x) commitments_config \<Rightarrow> 'w \<Rightarrow> nat \<Rightarrow> commitment_registration option \<Rightarrow> (nat list \<times> nat) list option \<Rightarrow>
     (nat list \<times> nat) list option" where
  "after_reveals cfg w block r old =
     (case r of
        None \<Rightarrow> old
      | Some reg \<Rightarrow>
          let new = List.map_filter (decrypted cfg w) (cr_fields reg)
          in if new = [] then old
             else Some (last_reveals ((case old of Some xs \<Rightarrow> xs | None \<Rightarrow> []) @ map (\<lambda>bytes. (bytes, block)) new)))"

definition has_timelock :: "commitment_registration option \<Rightarrow> bool" where
  "has_timelock r \<longleftrightarrow> (\<exists>reg. r = Some reg \<and> (\<exists>d \<in> set (cr_fields reg). is_timelock_encrypted d))"

lemma last_reveals_if: "(if length xs > MAX_REVEALS then drop (length xs - MAX_REVEALS) xs else xs) = last_reveals xs"
  by (simp add: last_reveals_def)

lemma last_reveals_bounds [simp]: "last_reveals xs = [] \<longleftrightarrow> xs = []" "length (last_reveals xs) \<le> MAX_REVEALS"
  by (cases xs; auto simp: last_reveals_def MAX_REVEALS_def)+

lemma reveal_entry_eq:
  assumes "\<And>reg. CommitmentOf s n a = Some reg \<Longrightarrow> length (cr_fields reg) \<le> MaxFields cfg"
  shows "reveal_entry cfg block (n, a) s =
    (True, s\<lparr>RevealedCommitments := (RevealedCommitments s)(n := (RevealedCommitments s n)
        (a := after_reveals cfg (cm_world s) block (CommitmentOf s n a) (RevealedCommitments s n a))),
      CommitmentOf := (CommitmentOf s)(n := (CommitmentOf s n)(a := after_reveal cfg (cm_world s) (CommitmentOf s n a))),
      TimelockedIndex := (if has_timelock (after_reveal cfg (cm_world s) (CommitmentOf s n a))
        then TimelockedIndex s else TimelockedIndex s - {(n, a)})\<rparr>)"
proof (cases "CommitmentOf s n a")
  case None
  have "(CommitmentOf s)(n := (CommitmentOf s n)(a := None)) = CommitmentOf s" using None by (metis fun_upd_triv)
  with None show ?thesis by (simp add: reveal_entry_def after_reveal_def after_reveals_def has_timelock_def)
next
  case (Some reg)
  let ?remain = "filter (\<lambda>d. \<not> due cfg (cm_world s) d) (cr_fields reg)"
  have len: "\<not> length ?remain > MaxFields cfg" using assms[OF Some] length_filter_le[of _ "cr_fields reg"] by (meson le_trans not_less)
  have same: "(RevealedCommitments s)(n := (RevealedCommitments s n)(a := RevealedCommitments s n a)) = RevealedCommitments s" by simp
  show ?thesis
    using Some len unfolding reveal_entry_def
    by (simp add: reveal_fields_eq after_reveal_def after_reveals_def has_timelock_def last_reveals_if Let_def del: not_less) blast
qed

section \<open>The hook\<close>

lemma after_reveal_length:
  "after_reveal cfg w r = Some reg' \<Longrightarrow> \<exists>reg. r = Some reg \<and> length (cr_fields reg') \<le> length (cr_fields reg) \<and>
     set (cr_fields reg') \<subseteq> set (cr_fields reg)"
  by (cases r) (auto simp: after_reveal_def Let_def split: if_splits)

text \<open>The hook on distinct entries: each is revealed once, the others stay.\<close>

lemma reveal_loop_spec:
  assumes "distinct keys" "\<forall>n a reg. CommitmentOf s n a = Some reg \<longrightarrow> length (cr_fields reg) \<le> MaxFields cfg"
  shows "\<exists>s'. reveal_loop cfg block keys s = (True, s') \<and> cm_world s' = cm_world s \<and> MaxSpace s' = MaxSpace s \<and>
    (\<forall>n a. CommitmentOf s' n a =
      (if (n, a) \<in> set keys then after_reveal cfg (cm_world s) (CommitmentOf s n a) else CommitmentOf s n a)) \<and>
    (\<forall>n a. RevealedCommitments s' n a =
      (if (n, a) \<in> set keys then after_reveals cfg (cm_world s) block (CommitmentOf s n a) (RevealedCommitments s n a)
       else RevealedCommitments s n a)) \<and>
    TimelockedIndex s' = TimelockedIndex s -
      {(n, a). (n, a) \<in> set keys \<and> \<not> has_timelock (after_reveal cfg (cm_world s) (CommitmentOf s n a))}"
  using assms
proof (induction keys arbitrary: s)
  case (Cons key keys)
  obtain n a where key: "key = (n, a)" by fastforce
  let ?w = "cm_world s"
  define t where "t = s\<lparr>RevealedCommitments := (RevealedCommitments s)(n := (RevealedCommitments s n)
        (a := after_reveals cfg ?w block (CommitmentOf s n a) (RevealedCommitments s n a))),
      CommitmentOf := (CommitmentOf s)(n := (CommitmentOf s n)(a := after_reveal cfg ?w (CommitmentOf s n a))),
      TimelockedIndex := (if has_timelock (after_reveal cfg ?w (CommitmentOf s n a))
        then TimelockedIndex s else TimelockedIndex s - {(n, a)})\<rparr>"
  have e: "reveal_entry cfg block key s = (True, t)" unfolding key t_def by (rule reveal_entry_eq) (use Cons.prems(2) in blast)
  have "length (cr_fields reg) \<le> MaxFields cfg" if "CommitmentOf t m b = Some reg" for m b reg
    using that Cons.prems(2) after_reveal_length[of cfg ?w "CommitmentOf s n a" reg]
    by (auto simp: t_def split: if_splits intro: le_trans)
  with Cons.IH[of t] Cons.prems(1) obtain s' where s': "reveal_loop cfg block keys t = (True, s')" "cm_world s' = cm_world t"
    "MaxSpace s' = MaxSpace t"
    "\<And>m b. CommitmentOf s' m b = (if (m, b) \<in> set keys then after_reveal cfg (cm_world t) (CommitmentOf t m b) else CommitmentOf t m b)"
    "\<And>m b. RevealedCommitments s' m b = (if (m, b) \<in> set keys
      then after_reveals cfg (cm_world t) block (CommitmentOf t m b) (RevealedCommitments t m b) else RevealedCommitments t m b)"
    "TimelockedIndex s' = TimelockedIndex t -
      {(m, b). (m, b) \<in> set keys \<and> \<not> has_timelock (after_reveal cfg (cm_world t) (CommitmentOf t m b))}"
    by (auto 0 3)
  have ni: "(n, a) \<notin> set keys" using Cons.prems(1) key by simp
  then have keep: "CommitmentOf t m b = CommitmentOf s m b" "RevealedCommitments t m b = RevealedCommitments s m b"
    if "(m, b) \<in> set keys" for m b using that by (auto simp: t_def)
  show ?case
  proof (intro exI[of _ s'] conjI allI)
    show "reveal_loop cfg block (key # keys) s = (True, s')" using s'(1) e by simp
    show "cm_world s' = ?w" "MaxSpace s' = MaxSpace s" using s'(2,3) by (simp_all add: t_def)
    show "CommitmentOf s' m b = (if (m, b) \<in> set (key # keys) then after_reveal cfg ?w (CommitmentOf s m b) else CommitmentOf s m b)" for m b
      using s'(4)[of m b] keep[of m b] ni by (auto simp: key t_def)
    show "RevealedCommitments s' m b = (if (m, b) \<in> set (key # keys)
        then after_reveals cfg ?w block (CommitmentOf s m b) (RevealedCommitments s m b) else RevealedCommitments s m b)" for m b
      using s'(5)[of m b] keep[of m b] ni by (auto simp: key t_def)
    have "cm_world t = ?w" by (simp add: t_def)
    then show "TimelockedIndex s' = TimelockedIndex s -
        {(m, b). (m, b) \<in> set (key # keys) \<and> \<not> has_timelock (after_reveal cfg ?w (CommitmentOf s m b))}"
      unfolding s'(6) using keep by (auto simp: key t_def)
  qed
qed simp

definition commitments_inv :: "('a, 'w, 'g, 'x) commitments_config \<Rightarrow> ('a, 'w) commitments_state \<Rightarrow> bool" where
  "commitments_inv cfg s \<longleftrightarrow> finite (TimelockedIndex s) \<and>
     (\<forall>n a. (n, a) \<in> TimelockedIndex s \<longleftrightarrow> has_timelock (CommitmentOf s n a)) \<and>
     (\<forall>n a reg. CommitmentOf s n a = Some reg \<longrightarrow> length (cr_fields reg) \<le> MaxFields cfg) \<and>
     (\<forall>n a xs. RevealedCommitments s n a = Some xs \<longrightarrow> xs \<noteq> [] \<and> length xs \<le> MAX_REVEALS)"

lemma commitments_invD:
  assumes "commitments_inv cfg s"
  shows "finite (TimelockedIndex s)" "(n, a) \<in> TimelockedIndex s \<longleftrightarrow> has_timelock (CommitmentOf s n a)"
    "CommitmentOf s n a = Some reg \<Longrightarrow> length (cr_fields reg) \<le> MaxFields cfg"
    "RevealedCommitments s n a = Some xs \<Longrightarrow> xs \<noteq> [] \<and> length xs \<le> MAX_REVEALS"
  using assms unfolding commitments_inv_def by blast+

text \<open>The hook as a function of every entry.\<close>

lemma reveal_spec:
  assumes "commitments_inv cfg s"
  obtains s' where "reveal_timelocked_commitments cfg block s = (True, s')" "cm_world s' = cm_world s"
    "\<And>n a. CommitmentOf s' n a =
      (if (n, a) \<in> TimelockedIndex s then after_reveal cfg (cm_world s) (CommitmentOf s n a) else CommitmentOf s n a)"
    "\<And>n a. RevealedCommitments s' n a =
      (if (n, a) \<in> TimelockedIndex s then after_reveals cfg (cm_world s) block (CommitmentOf s n a) (RevealedCommitments s n a)
       else RevealedCommitments s n a)"
    "TimelockedIndex s' = TimelockedIndex s -
      {(n, a). \<not> has_timelock (after_reveal cfg (cm_world s) (CommitmentOf s n a))}"
proof -
  note D = commitments_invD[OF assms]
  have set: "set (sorted_list_of_set (TimelockedIndex s)) = TimelockedIndex s" using D(1) by simp
  have dist: "distinct (sorted_list_of_set (TimelockedIndex s))" by simp
  have bound: "\<forall>n a reg. CommitmentOf s n a = Some reg \<longrightarrow> length (cr_fields reg) \<le> MaxFields cfg" using D(3) by blast
  from reveal_loop_spec[of "sorted_list_of_set (TimelockedIndex s)" s cfg block, OF dist bound, unfolded set] obtain s' where
    s': "reveal_loop cfg block (sorted_list_of_set (TimelockedIndex s)) s = (True, s')" "cm_world s' = cm_world s"
    "\<forall>n a. CommitmentOf s' n a =
      (if (n, a) \<in> TimelockedIndex s then after_reveal cfg (cm_world s) (CommitmentOf s n a) else CommitmentOf s n a)"
    "\<forall>n a. RevealedCommitments s' n a =
      (if (n, a) \<in> TimelockedIndex s then after_reveals cfg (cm_world s) block (CommitmentOf s n a) (RevealedCommitments s n a)
       else RevealedCommitments s n a)"
    "TimelockedIndex s' = TimelockedIndex s -
      {(n, a). (n, a) \<in> TimelockedIndex s \<and> \<not> has_timelock (after_reveal cfg (cm_world s) (CommitmentOf s n a))}"
    by (elim exE conjE) blast
  show thesis
    by (rule that[of s']) (use s' in \<open>auto simp: reveal_timelocked_commitments_def\<close>)
qed

lemma after_reveals_ok:
  assumes "after_reveals cfg w block r old = Some xs" "\<And>ys. old = Some ys \<Longrightarrow> ys \<noteq> [] \<and> length ys \<le> MAX_REVEALS"
  shows "xs \<noteq> [] \<and> length xs \<le> MAX_REVEALS"
  using assms by (auto simp: after_reveals_def Let_def split: option.splits if_splits)

lemma reveal_inv:
  assumes "commitments_inv cfg s" "reveal_timelocked_commitments cfg block s = (b, s')"
  shows "commitments_inv cfg s'"
  using assms(1)
proof (rule reveal_spec[where block = block])
  fix t
  assume t: "reveal_timelocked_commitments cfg block s = (True, t)"
    and C: "\<And>n a. CommitmentOf t n a =
      (if (n, a) \<in> TimelockedIndex s then after_reveal cfg (cm_world s) (CommitmentOf s n a) else CommitmentOf s n a)"
    and R: "\<And>n a. RevealedCommitments t n a =
      (if (n, a) \<in> TimelockedIndex s then after_reveals cfg (cm_world s) block (CommitmentOf s n a) (RevealedCommitments s n a)
       else RevealedCommitments s n a)"
    and T: "TimelockedIndex t = TimelockedIndex s -
      {(n, a). \<not> has_timelock (after_reveal cfg (cm_world s) (CommitmentOf s n a))}"
  have s': "s' = t" using assms(2) t by simp
  note D = commitments_invD[OF assms(1)]
  show ?thesis
    unfolding s' commitments_inv_def
  proof (intro conjI allI impI)
    show "finite (TimelockedIndex t)" using D(1) T by simp
    show "(n, a) \<in> TimelockedIndex t \<longleftrightarrow> has_timelock (CommitmentOf t n a)" for n a
      using D(2)[of n a] by (auto simp: T C)
    show "length (cr_fields reg) \<le> MaxFields cfg" if "CommitmentOf t n a = Some reg" for n a reg
      using that D(3) after_reveal_length[of cfg "cm_world s" "CommitmentOf s n a" reg]
      by (auto simp: C split: if_splits intro: le_trans)
    show "xs \<noteq> []" "length xs \<le> MAX_REVEALS" if "RevealedCommitments t n a = Some xs" for n a xs
      using that after_reveals_ok[of cfg "cm_world s" block "CommitmentOf s n a" "RevealedCommitments s n a" xs] D(4)
      by (auto simp: R split: if_splits)
  qed
qed

lemma set_commitmentE:
  assumes "set_commitment cfg block (Signed who) n info s = Inr s'"
  obtains reg where "length info \<le> MaxFields cfg" "cr_fields reg = info"
    "CommitmentOf s' = (CommitmentOf s)(n := (CommitmentOf s n)(who \<mapsto> reg))"
    "RevealedCommitments s' = RevealedCommitments s"
    "TimelockedIndex s' = (if \<exists>d \<in> set info. is_timelock_encrypted d
      then insert (n, who) (TimelockedIndex s) else TimelockedIndex s - {(n, who)})"
  using assms unfolding set_commitment_def Let_def ensure_signed.simps and_then_simps guard_rules sum.inject
  apply (elim exE conjE)
  subgoal for w w'
    by (rule that[of "the (CommitmentOf s' n who)"]; hypsubst; simp)
  done

lemma set_commitment_inv:
  assumes "set_commitment cfg block og n info s = Inr s'" "commitments_inv cfg s"
  shows "commitments_inv cfg s'"
proof -
  from assms(1) obtain who where "og = Signed who" by (cases og) (simp_all add: set_commitment_def)
  with assms(1) have run: "set_commitment cfg block (Signed who) n info s = Inr s'" by simp
  from run obtain reg where len: "length info \<le> MaxFields cfg" and reg: "cr_fields reg = info"
    and C: "CommitmentOf s' = (CommitmentOf s)(n := (CommitmentOf s n)(who \<mapsto> reg))"
    and R: "RevealedCommitments s' = RevealedCommitments s"
    and T: "TimelockedIndex s' = (if \<exists>d \<in> set info. is_timelock_encrypted d
      then insert (n, who) (TimelockedIndex s) else TimelockedIndex s - {(n, who)})"
    by (rule set_commitmentE)
  show ?thesis
    unfolding commitments_inv_def
  proof (intro conjI allI impI)
    show "finite (TimelockedIndex s')" using commitments_invD(1)[OF assms(2)] by (simp add: T)
    show "(m, a) \<in> TimelockedIndex s' \<longleftrightarrow> has_timelock (CommitmentOf s' m a)" for m a
      using commitments_invD(2)[OF assms(2), of m a] reg by (auto simp: T C has_timelock_def)
    show "length (cr_fields r) \<le> MaxFields cfg" if "CommitmentOf s' m a = Some r" for m a r
      using that commitments_invD(3)[OF assms(2), of m a r] len reg by (auto simp: C split: if_splits)
    show "xs \<noteq> []" "length xs \<le> MAX_REVEALS" if "RevealedCommitments s' m a = Some xs" for m a xs
      using that commitments_invD(4)[OF assms(2)] by (auto simp: R)
  qed
qed

section \<open>Reachable states\<close>

inductive commitments_step ::
    "('a::linorder, 'w, 'g, 'x) commitments_config \<Rightarrow> ('a, 'w) commitments_state \<Rightarrow> ('a, 'w) commitments_state \<Rightarrow> bool" for cfg where
  commit: "set_commitment cfg block og n info s = Inr s' \<Longrightarrow> commitments_step cfg s s'"
| max_space: "set_max_space og k s = Inr s' \<Longrightarrow> commitments_step cfg s s'"
| on_initialize: "reveal_timelocked_commitments cfg block s = (ok, s') \<Longrightarrow> commitments_step cfg s s'"
| elsewhere: "commitments_step cfg s (s\<lparr>cm_world := w\<rparr>)"

definition commitments_initial :: "('a, 'w) commitments_state \<Rightarrow> bool" where
  "commitments_initial s \<longleftrightarrow> TimelockedIndex s = {} \<and> (\<forall>n a. CommitmentOf s n a = None \<and> RevealedCommitments s n a = None)"

interpretation commitments: invariant_system commitments_initial "commitments_step cfg" "commitments_inv cfg"
proof (unfold_locales, goal_cases)
  case (1 s)
  then show ?case by (simp add: commitments_initial_def commitments_inv_def has_timelock_def)
next
  case (2 s t)
  from 2(2) show ?case
  proof (cases rule: commitments_step.cases)
    case (max_space og k)
    then have t: "t = s\<lparr>MaxSpace := k\<rparr>" by (cases og) (auto simp: set_max_space_def)
    show ?thesis using 2(1) unfolding t commitments_inv_def by simp
  next
    case (elsewhere w)
    then show ?thesis using 2(1) by (simp add: commitments_inv_def)
  qed (use set_commitment_inv reveal_inv 2(1) in blast)+
qed

text \<open>C33. Timelocked commitments are found and revealed. In every reachable state the index lists exactly
  the entries with an encrypted field and at most ten reveals are kept per account. The hook
  does not fail there: in every listed entry it removes the fields whose pulse has arrived and keeps
  the others in order, an entry without fields is deleted, what could be decrypted is appended to
  the reveals with the block, and every other entry is left alone. So no field whose pulse is
  there stays encrypted.\<close>

theorem timelocks_revealed:
  assumes "commitments_initial s" "(commitments_step cfg)\<^sup>*\<^sup>* s t"
  shows "(\<forall>n a. (n, a) \<in> TimelockedIndex t \<longleftrightarrow> has_timelock (CommitmentOf t n a)) \<and>
    (\<forall>n a xs. RevealedCommitments t n a = Some xs \<longrightarrow> length xs \<le> 10) \<and>
    (\<exists>t'. reveal_timelocked_commitments cfg block t = (True, t') \<and>
      (\<forall>n a. CommitmentOf t' n a = (if has_timelock (CommitmentOf t n a)
        then after_reveal cfg (cm_world t) (CommitmentOf t n a) else CommitmentOf t n a)) \<and>
      (\<forall>n a. RevealedCommitments t' n a = (if has_timelock (CommitmentOf t n a)
        then after_reveals cfg (cm_world t) block (CommitmentOf t n a) (RevealedCommitments t n a) else RevealedCommitments t n a)) \<and>
      (\<forall>n a reg d. CommitmentOf t' n a = Some reg \<and> d \<in> set (cr_fields reg) \<longrightarrow> \<not> due cfg (cm_world t) d))"
proof -
  have inv: "commitments_inv cfg t" by (rule commitments.reachable_invar[OF assms])
  note D = commitments_invD[OF inv]
  obtain t' where t': "reveal_timelocked_commitments cfg block t = (True, t')"
    "\<And>n a. CommitmentOf t' n a =
      (if (n, a) \<in> TimelockedIndex t then after_reveal cfg (cm_world t) (CommitmentOf t n a) else CommitmentOf t n a)"
    "\<And>n a. RevealedCommitments t' n a =
      (if (n, a) \<in> TimelockedIndex t then after_reveals cfg (cm_world t) block (CommitmentOf t n a) (RevealedCommitments t n a)
       else RevealedCommitments t n a)"
    by (rule reveal_spec[OF inv, of block]) blast
  have "\<not> due cfg (cm_world t) d" if reg: "CommitmentOf t' n a = Some reg" "d \<in> set (cr_fields reg)" for n a reg d
  proof (cases "(n, a) \<in> TimelockedIndex t")
    case True
    with reg show ?thesis
      by (cases "CommitmentOf t n a") (auto simp: t'(2) after_reveal_def Let_def split: if_splits)
  next
    case False
    with reg have "CommitmentOf t n a = Some reg" "\<not> has_timelock (CommitmentOf t n a)" by (simp_all add: t'(2) D(2))
    with reg(2) show ?thesis by - (cases d; auto simp: has_timelock_def due_def)
  qed
  moreover have "\<forall>n a. CommitmentOf t' n a = (if has_timelock (CommitmentOf t n a)
      then after_reveal cfg (cm_world t) (CommitmentOf t n a) else CommitmentOf t n a)"
    "\<forall>n a. RevealedCommitments t' n a = (if has_timelock (CommitmentOf t n a)
      then after_reveals cfg (cm_world t) block (CommitmentOf t n a) (RevealedCommitments t n a) else RevealedCommitments t n a)"
    by (simp_all add: t'(2,3) D(2))
  moreover have "\<forall>n a. (n, a) \<in> TimelockedIndex t \<longleftrightarrow> has_timelock (CommitmentOf t n a)" using D(2) by blast
  moreover have "\<forall>n a xs. RevealedCommitments t n a = Some xs \<longrightarrow> length xs \<le> 10"
    using D(4) by (auto simp: MAX_REVEALS_def)
  ultimately show ?thesis using t'(1) by blast
qed

text \<open>The deposit of a revealed commitment. When all fields of an entry are due, the hook deletes the
  entry with the record of its deposit but leaves the currency alone: the deposit stays reserved,
  and the next commitment of the account reserves a full deposit again.\<close>

theorem revealed_deposit_kept:
  assumes "commitments_inv cfg s" "CommitmentOf s n a = Some reg" "cr_fields reg \<noteq> []"
    and "\<And>d. d \<in> set (cr_fields reg) \<Longrightarrow> due cfg (cm_world s) d"
  shows "\<exists>s'. reveal_timelocked_commitments cfg block s = (True, s') \<and> CommitmentOf s' n a = None \<and> cm_world s' = cm_world s"
proof -
  obtain d where "d \<in> set (cr_fields reg)" using assms(3) by (cases "cr_fields reg") auto
  moreover from assms(4)[OF this] have "is_timelock_encrypted d" by (cases d) (auto simp: due_def)
  ultimately have "(n, a) \<in> TimelockedIndex s" using commitments_invD(2)[OF assms(1), of n a] assms(2) by (auto simp: has_timelock_def)
  moreover have "after_reveal cfg (cm_world s) (Some reg) = None"
    using assms(4) by (auto simp: after_reveal_def Let_def filter_empty_conv)
  ultimately show ?thesis using assms(2) by (metis reveal_spec[OF assms(1), of block])
qed

text \<open>A pulse for round 5 whose signature decrypts every ciphertext to itself.\<close>

definition sample_commitments_cfg :: "(nat, nat \<Rightarrow> nat, nat list, nat list) commitments_config" where
  "sample_commitments_cfg = \<lparr>MaxFields = 3, cm_InitialDeposit = 10, cm_FieldDeposit = 2, can_commit = (\<lambda>n a w. True),
     on_metadata_commitment = (\<lambda>n a w. w), epoch_index = (\<lambda>n b w. b div 100), cm_reserve = (\<lambda>a x w. Some (w(a := w a + x))),
     cm_unreserve = (\<lambda>a x w. (0, w(a := w a - x))), pulse_signature = (\<lambda>r w. if r = 5 then Some [48, 120, 1] else None),
     signature_decode = Some, ciphertext_decode = Some, tld = (\<lambda>x g. Some x)\<rparr>"

definition no_commitments :: "(nat, nat \<Rightarrow> nat) commitments_state" where
  "no_commitments = \<lparr>TimelockedIndex = {}, CommitmentOf = (\<lambda>_ _. None), LastCommitment = (\<lambda>_ _. None), LastBondsReset = (\<lambda>_ _. None),
     RevealedCommitments = (\<lambda>_ _. None), UsedSpaceOf = (\<lambda>_ _. None), MaxSpace = 3100, cm_world = (\<lambda>_. 0)\<rparr>"

lemma sample_timelock_commit:
  "\<exists>s. set_commitment sample_commitments_cfg 7 (Signed 4) 2 [TimelockEncrypted [9, 9] 5] no_commitments = Inr s \<and>
     CommitmentOf s 2 4 = Some \<lparr>cr_deposit = 12, cr_block = 7, cr_fields = [TimelockEncrypted [9, 9] 5]\<rparr> \<and>
     cm_world s 4 = 12 \<and> RevealedCommitments s 2 4 = None"
  by (simp add: set_commitment_def sample_commitments_cfg_def no_commitments_def required_space_def sat_add_def sat_mul_def
      u64_max_def Let_def)

theorem timelocks_revealed_witness:
  "\<exists>s t'. set_commitment sample_commitments_cfg 7 (Signed 4) 2 [TimelockEncrypted [9, 9] 5] no_commitments = Inr s \<and>
    reveal_timelocked_commitments sample_commitments_cfg 8 s = (True, t') \<and>
    CommitmentOf t' 2 4 = None \<and> RevealedCommitments t' 2 4 = Some [([9, 9], 8)]"
proof -
  from sample_timelock_commit obtain s where run: "set_commitment sample_commitments_cfg 7 (Signed 4) 2 [TimelockEncrypted [9, 9] 5] no_commitments = Inr s"
    and s: "CommitmentOf s 2 4 = Some \<lparr>cr_deposit = 12, cr_block = 7, cr_fields = [TimelockEncrypted [9, 9] 5]\<rparr>"
      "RevealedCommitments s 2 4 = None" by blast
  have init: "commitments_initial no_commitments" by (simp add: commitments_initial_def no_commitments_def)
  have "(commitments_step sample_commitments_cfg)\<^sup>*\<^sup>* no_commitments s" by (rule r_into_rtranclp) (rule commitments_step.commit[OF run])
  from timelocks_revealed[OF init this, where block = 8] obtain t' where
    t': "reveal_timelocked_commitments sample_commitments_cfg 8 s = (True, t')"
    "CommitmentOf t' 2 4 = (if has_timelock (CommitmentOf s 2 4)
        then after_reveal sample_commitments_cfg (cm_world s) (CommitmentOf s 2 4) else CommitmentOf s 2 4)"
    "RevealedCommitments t' 2 4 = (if has_timelock (CommitmentOf s 2 4)
        then after_reveals sample_commitments_cfg (cm_world s) 8 (CommitmentOf s 2 4) (RevealedCommitments s 2 4) else RevealedCommitments s 2 4)"
    by (elim exE conjE) blast
  have "CommitmentOf t' 2 4 = None" "RevealedCommitments t' 2 4 = Some [([9, 9], 8)]"
    unfolding t'(2,3) s
    by (simp_all add: has_timelock_def after_reveal_def after_reveals_def due_def decrypted_def sample_commitments_cfg_def
        strip_0x_def last_reveals_def MAX_REVEALS_def map_filter_simps)
  with run t'(1) show ?thesis by blast
qed

theorem revealed_deposit_kept_witness:
  "\<exists>s s'. set_commitment sample_commitments_cfg 7 (Signed 4) 2 [TimelockEncrypted [9, 9] 5] no_commitments = Inr s \<and>
    reveal_timelocked_commitments sample_commitments_cfg 8 s = (True, s') \<and> CommitmentOf s' 2 4 = None \<and> cm_world s' 4 = 12"
proof -
  from sample_timelock_commit obtain s where run: "set_commitment sample_commitments_cfg 7 (Signed 4) 2 [TimelockEncrypted [9, 9] 5] no_commitments = Inr s"
    and s: "CommitmentOf s 2 4 = Some \<lparr>cr_deposit = 12, cr_block = 7, cr_fields = [TimelockEncrypted [9, 9] 5]\<rparr>" "cm_world s 4 = 12" by blast
  have "commitments_inv sample_commitments_cfg no_commitments"
    by (rule commitments.invar_initial) (simp add: commitments_initial_def no_commitments_def)
  then have inv: "commitments_inv sample_commitments_cfg s" by (rule set_commitment_inv[OF run])
  have "due sample_commitments_cfg (cm_world s) d" if "d \<in> set (cr_fields \<lparr>cr_deposit = 12, cr_block = 7, cr_fields = [TimelockEncrypted [9, 9] 5]\<rparr>)" for d
    using that by (simp add: due_def sample_commitments_cfg_def)
  from revealed_deposit_kept[OF inv s(1) _ this, where block = 8] run s(2) show ?thesis by fastforce
qed

end
