(* ===== verification/Registry.thy ===== *)
theory Registry
  imports Storage
begin

text \<open>
  The registry pallet (\<open>pallets/registry/src/lib.rs\<close> and \<open>types.rs\<close>): identities of accounts behind a
  deposit. The holds of the currency and the permission to register are the fields of
  \<open>registry_config\<close>. The assertions \<open>debug_assert!\<close> are not part of a release build, so the outcome of a
  release is ignored, as the code does.
\<close>

section \<open>Identities\<close>

datatype identity_data =
    IdNone
  | IdRaw "nat list"
  | IdBlakeTwo256 "nat list"
  | IdSha256 "nat list"
  | IdKeccak256 "nat list"
  | IdShaThree256 "nat list"

definition id_is_none :: "identity_data \<Rightarrow> bool" where
  "id_is_none d \<longleftrightarrow> d = IdNone"

fun encode_id :: "identity_data \<Rightarrow> nat list" where
  "encode_id IdNone = [0]"
| "encode_id (IdRaw x) = (min (length x) 64 + 1) # x"
| "encode_id (IdBlakeTwo256 h) = 66 # h"
| "encode_id (IdSha256 h) = 67 # h"
| "encode_id (IdKeccak256 h) = 68 # h"
| "encode_id (IdShaThree256 h) = 69 # h"

definition decode_id :: "nat list \<Rightarrow> (identity_data \<times> nat list) option" where
  "decode_id bs =
     (case bs of
        [] \<Rightarrow> None
      | b # bs \<Rightarrow>
          if b = 0 then Some (IdNone, bs)
          else if b \<le> 65 then map_option (\<lambda>(r, bs). (IdRaw r, bs)) (read_bytes (b - 1) bs)
          else if b = 66 then map_option (\<lambda>(h, bs). (IdBlakeTwo256 h, bs)) (read_bytes 32 bs)
          else if b = 67 then map_option (\<lambda>(h, bs). (IdSha256 h, bs)) (read_bytes 32 bs)
          else if b = 68 then map_option (\<lambda>(h, bs). (IdKeccak256 h, bs)) (read_bytes 32 bs)
          else if b = 69 then map_option (\<lambda>(h, bs). (IdShaThree256 h, bs)) (read_bytes 32 bs)
          else None)"

fun id_wf :: "identity_data \<Rightarrow> bool" where
  "id_wf IdNone \<longleftrightarrow> True"
| "id_wf (IdRaw x) \<longleftrightarrow> length x \<le> 64"
| "id_wf (IdBlakeTwo256 h) \<longleftrightarrow> length h = 32"
| "id_wf (IdSha256 h) \<longleftrightarrow> length h = 32"
| "id_wf (IdKeccak256 h) \<longleftrightarrow> length h = 32"
| "id_wf (IdShaThree256 h) \<longleftrightarrow> length h = 32"

datatype identity_field = Display | Legal | Web | Riot | Email | PgpFingerprint | Image | Twitter

record identity_info =
  additional :: "(identity_data \<times> identity_data) list"
  id_display :: identity_data
  id_legal :: identity_data
  id_web :: identity_data
  id_riot :: identity_data
  id_email :: identity_data
  pgp_fingerprint :: "nat list option"
  id_image :: identity_data
  id_twitter :: identity_data

definition identity_fields :: "identity_info \<Rightarrow> identity_field set" where
  "identity_fields info =
     (if \<not> id_is_none (id_display info) then {Display} else {}) \<union>
     (if \<not> id_is_none (id_legal info) then {Legal} else {}) \<union>
     (if \<not> id_is_none (id_web info) then {Web} else {}) \<union>
     (if \<not> id_is_none (id_riot info) then {Riot} else {}) \<union>
     (if \<not> id_is_none (id_email info) then {Email} else {}) \<union>
     (if pgp_fingerprint info \<noteq> None then {PgpFingerprint} else {}) \<union>
     (if \<not> id_is_none (id_image info) then {Image} else {}) \<union>
     (if \<not> id_is_none (id_twitter info) then {Twitter} else {})"

record identity_registration =
  id_deposit :: nat
  id_info :: identity_info

definition total_deposit :: "identity_registration \<Rightarrow> nat" where
  "total_deposit r = id_deposit r"

section \<open>State and calls\<close>

datatype registry_error = CannotRegister | TooManyFieldsInIdentityInfo | IdNotRegistered | RegistryBadOrigin | HoldError

record ('a, 'w) registry_state =
  IdentityOf :: "'a \<Rightarrow> identity_registration option"
  reg_world :: 'w

record ('a, 'w) registry_config =
  MaxAdditionalFields :: nat
  id_InitialDeposit :: nat
  id_FieldDeposit :: nat
  can_register :: "'a \<Rightarrow> 'a \<Rightarrow> 'w \<Rightarrow> bool"
  hold_funds :: "'a \<Rightarrow> nat \<Rightarrow> 'w \<Rightarrow> 'w option"
  release_funds :: "'a \<Rightarrow> nat \<Rightarrow> 'w \<Rightarrow> 'w"
  balance_on_hold :: "'a \<Rightarrow> 'w \<Rightarrow> nat"

definition set_identity ::
    "('a, 'w) registry_config \<Rightarrow> 'a origin \<Rightarrow> 'a \<Rightarrow> identity_info \<Rightarrow> ('a, 'w) registry_state \<Rightarrow>
     (registry_error, ('a, 'w) registry_state) result" where
  "set_identity cfg og identified info s =
     and_then (ensure_signed RegistryBadOrigin og) (\<lambda>who.
     ensure (can_register cfg who identified (reg_world s)) CannotRegister
    (let extra_fields = length (additional info) in
     ensure (extra_fields \<le> MaxAdditionalFields cfg) TooManyFieldsInIdentityInfo
    (let fd = sat_mul u64_max extra_fields (id_FieldDeposit cfg);
         old_deposit = (case IdentityOf s identified of Some reg \<Rightarrow> id_deposit reg | None \<Rightarrow> 0);
         new_deposit = sat_add u64_max (id_InitialDeposit cfg) fd;
         reg = \<lparr>id_deposit = new_deposit, id_info = info\<rparr> in
     and_then (if new_deposit > old_deposit
               then ok_or (hold_funds cfg who (new_deposit - old_deposit) (reg_world s)) HoldError
               else Inr (reg_world s)) (\<lambda>w.
     let w = (if old_deposit > new_deposit then release_funds cfg who (old_deposit - new_deposit) w else w)
     in Inr (s\<lparr>IdentityOf := (IdentityOf s)(identified \<mapsto> reg), reg_world := w\<rparr>)))))"

definition clear_identity ::
    "('a, 'w) registry_config \<Rightarrow> 'a origin \<Rightarrow> 'a \<Rightarrow> ('a, 'w) registry_state \<Rightarrow>
     (registry_error, ('a, 'w) registry_state) result" where
  "clear_identity cfg og identified s =
     and_then (ensure_signed RegistryBadOrigin og) (\<lambda>who.
     and_then (ok_or (IdentityOf s identified) IdNotRegistered) (\<lambda>reg.
     let deposit = total_deposit reg
     in Inr (s\<lparr>IdentityOf := (IdentityOf s)(identified := None),
              reg_world := release_funds cfg who deposit (reg_world s)\<rparr>)))"

text \<open>
  What the pallet relies on of the currency (\<open>fungible::MutateHold\<close>): a hold adds to the funds on hold of
  the account, a release with \<open>Precision::BestEffort\<close> takes away what it can, other accounts keep theirs.
\<close>

definition holds_ok :: "('a, 'w) registry_config \<Rightarrow> bool" where
  "holds_ok cfg \<longleftrightarrow>
     (\<forall>a x w w' b. hold_funds cfg a x w = Some w' \<longrightarrow>
        balance_on_hold cfg b w' = balance_on_hold cfg b w + (if b = a then x else 0)) \<and>
     (\<forall>a x w b. balance_on_hold cfg b (release_funds cfg a x w) =
        balance_on_hold cfg b w - (if b = a then x else 0))"

section \<open>The format of an identity\<close>

text \<open>Decoding what was encoded gives the data back and consumes exactly its bytes, and whatever
  decodes is within the bounds of its type and is the decoding of one byte string only.\<close>

lemma identity_format_roundtrip:
  "id_wf d \<Longrightarrow> decode_id (encode_id d @ rest) = Some (d, rest)"
  "decode_id bs = Some (d, rest) \<Longrightarrow> id_wf d \<and> bs = encode_id d @ rest"
proof -
  show "decode_id (encode_id d @ rest) = Some (d, rest)" if "id_wf d"
    using that by (cases d) (auto simp: decode_id_def min_def read_bytes_exact)
  show "id_wf d \<and> bs = encode_id d @ rest" if "decode_id bs = Some (d, rest)"
    using that by (cases bs) (auto simp: decode_id_def read_bytes_def split: if_splits)
qed

section \<open>Deposits\<close>

definition identity_deposit :: "('a, 'w) registry_config \<Rightarrow> identity_info \<Rightarrow> nat" where
  "identity_deposit cfg info =
     sat_add u64_max (id_InitialDeposit cfg) (sat_mul u64_max (length (additional info)) (id_FieldDeposit cfg))"

definition deposit_of :: "identity_registration option \<Rightarrow> nat" where
  "deposit_of r = (case r of None \<Rightarrow> 0 | Some reg \<Rightarrow> id_deposit reg)"

lemma deposit_of_simps [simp]: "deposit_of None = 0" "deposit_of (Some reg) = id_deposit reg"
  by (simp_all add: deposit_of_def)

text \<open>The deposits of the identities that an account is responsible for.\<close>

definition deposits_for :: "('a \<Rightarrow> 'a) \<Rightarrow> ('a \<Rightarrow> identity_registration option) \<Rightarrow> 'a \<Rightarrow> nat" where
  "deposits_for own ids a = (\<Sum>i | ids i \<noteq> None \<and> own i = a. deposit_of (ids i))"

lemma deposits_for_split:
  assumes "finite {i. ids i \<noteq> None}"
  shows "deposits_for own ids (own i) = deposit_of (ids i) + deposits_for own (ids(i := None)) (own i)"
proof -
  let ?B = "{j. (ids(i := None)) j \<noteq> None \<and> own j = own i}"
  have fin: "finite ?B" by (rule finite_subset[OF _ assms]) (auto split: if_splits)
  have eq: "(\<Sum>j\<in>?B. deposit_of ((ids(i := None)) j)) = (\<Sum>j\<in>?B. deposit_of (ids j))"
    by (rule sum.cong) (auto split: if_splits)
  have "{j. ids j \<noteq> None \<and> own j = own i} = (if ids i = None then ?B else insert i ?B)" by auto
  then show ?thesis unfolding deposits_for_def eq using fin by auto
qed

lemma deposits_for_other: "own i \<noteq> a \<Longrightarrow> deposits_for own (ids(i := r)) a = deposits_for own ids a"
  unfolding deposits_for_def by (rule sum.cong) (auto split: if_splits)

lemma deposits_for_update:
  assumes "finite {i. ids i \<noteq> None}"
  shows "deposits_for own (ids(i := r)) a + (if own i = a then deposit_of (ids i) else 0) =
    deposits_for own ids a + (if own i = a then deposit_of r else 0)"
proof -
  have "finite {j. (ids(i := r)) j \<noteq> None}"
    by (rule finite_subset[of _ "insert i {i. ids i \<noteq> None}"]) (use assms in \<open>auto split: if_splits\<close>)
  then show ?thesis
    using deposits_for_split[OF assms, of own i] deposits_for_split[of "ids(i := r)" own i] deposits_for_other[of own i a ids r]
    by (auto simp: deposits_for_other)
qed

definition registry_inv :: "('a, 'w) registry_config \<Rightarrow> ('a \<Rightarrow> 'a) \<Rightarrow> ('a, 'w) registry_state \<Rightarrow> bool" where
  "registry_inv cfg own s \<longleftrightarrow> finite {i. IdentityOf s i \<noteq> None} \<and>
     (\<forall>i reg. IdentityOf s i = Some reg \<longrightarrow>
        length (additional (id_info reg)) \<le> MaxAdditionalFields cfg \<and> id_deposit reg = identity_deposit cfg (id_info reg)) \<and>
     (\<forall>a. balance_on_hold cfg a (reg_world s) = deposits_for own (IdentityOf s) a)"

lemma set_identityE:
  assumes "set_identity cfg (Signed who) i info s = Inr s'" "holds_ok cfg"
  obtains "can_register cfg who i (reg_world s)" "length (additional info) \<le> MaxAdditionalFields cfg"
    "IdentityOf s' = (IdentityOf s)(i \<mapsto> \<lparr>id_deposit = identity_deposit cfg info, id_info = info\<rparr>)"
    "\<And>a. balance_on_hold cfg a (reg_world s') =
       (if a = who then balance_on_hold cfg a (reg_world s) + identity_deposit cfg info - deposit_of (IdentityOf s i)
        else balance_on_hold cfg a (reg_world s))"
proof -
  let ?new = "identity_deposit cfg info" and ?old = "deposit_of (IdentityOf s i)"
  from assms(1) obtain w where ok: "can_register cfg who i (reg_world s)" "length (additional info) \<le> MaxAdditionalFields cfg"
    and w: "(if ?new > ?old then ok_or (hold_funds cfg who (?new - ?old) (reg_world s)) HoldError else Inr (reg_world s)) = Inr w"
    and s': "s' = s\<lparr>IdentityOf := (IdentityOf s)(i \<mapsto> \<lparr>id_deposit = ?new, id_info = info\<rparr>),
      reg_world := if ?old > ?new then release_funds cfg who (?old - ?new) w else w\<rparr>"
    unfolding set_identity_def Let_def ensure_signed.simps and_then_simps guard_rules sum.inject identity_deposit_def deposit_of_def
    by (elim exE conjE) blast
  have "balance_on_hold cfg a (reg_world s') =
       (if a = who then balance_on_hold cfg a (reg_world s) + ?new - ?old else balance_on_hold cfg a (reg_world s))" for a
    using w assms(2) unfolding s' holds_ok_def by (auto split: if_splits)
  with ok s' show thesis using that by simp
qed

lemma clear_identityE:
  assumes "clear_identity cfg (Signed who) i s = Inr s'" "holds_ok cfg"
  obtains reg where "IdentityOf s i = Some reg" "IdentityOf s' = (IdentityOf s)(i := None)"
    "\<And>a. balance_on_hold cfg a (reg_world s') =
       balance_on_hold cfg a (reg_world s) - (if a = who then id_deposit reg else 0)"
proof -
  from assms(1) obtain reg where reg: "IdentityOf s i = Some reg"
    and s': "s' = s\<lparr>IdentityOf := (IdentityOf s)(i := None), reg_world := release_funds cfg who (id_deposit reg) (reg_world s)\<rparr>"
    unfolding clear_identity_def Let_def ensure_signed.simps and_then_simps guard_rules sum.inject total_deposit_def
    by (elim exE conjE) simp
  show thesis by (rule that[OF reg]) (use assms(2) in \<open>simp_all add: s' holds_ok_def\<close>)
qed

section \<open>Reachable states\<close>

text \<open>
  Histories in which the identity of \<open>i\<close> is set and cleared by one account, \<open>own i\<close>: the coldkey that owns
  the hotkey, or the account itself, as \<open>can_register\<close> of the runtime has it while ownership does
  not change. Other pallets may do anything but touch the holds of this one.
\<close>

inductive registry_step ::
    "('a, 'w) registry_config \<Rightarrow> ('a \<Rightarrow> 'a) \<Rightarrow> ('a, 'w) registry_state \<Rightarrow> ('a, 'w) registry_state \<Rightarrow> bool" for cfg own where
  set: "set_identity cfg (Signed (own i)) i info s = Inr s' \<Longrightarrow> registry_step cfg own s s'"
| clear: "clear_identity cfg (Signed (own i)) i s = Inr s' \<Longrightarrow> registry_step cfg own s s'"
| elsewhere: "\<forall>a. balance_on_hold cfg a w = balance_on_hold cfg a (reg_world s) \<Longrightarrow>
    registry_step cfg own s (s\<lparr>reg_world := w\<rparr>)"

definition registry_initial :: "('a, 'w) registry_config \<Rightarrow> ('a, 'w) registry_state \<Rightarrow> bool" where
  "registry_initial cfg s \<longleftrightarrow> holds_ok cfg \<and> (\<forall>i. IdentityOf s i = None) \<and> (\<forall>a. balance_on_hold cfg a (reg_world s) = 0)"

lemma registry_inv_held:
  assumes "registry_inv cfg own s"
  shows "deposit_of (IdentityOf s i) \<le> balance_on_hold cfg (own i) (reg_world s)"
proof -
  have "finite {i. IdentityOf s i \<noteq> None}"
    and "balance_on_hold cfg (own i) (reg_world s) = deposits_for own (IdentityOf s) (own i)"
    using assms unfolding registry_inv_def by blast+
  then show ?thesis using deposits_for_split by (metis le_add1)
qed

lemma registry_inv_write:
  assumes "registry_inv cfg own s" "IdentityOf s' = (IdentityOf s)(i := r)"
    and "\<And>reg. r = Some reg \<Longrightarrow> length (additional (id_info reg)) \<le> MaxAdditionalFields cfg \<and>
           id_deposit reg = identity_deposit cfg (id_info reg)"
    and "\<And>a. balance_on_hold cfg a (reg_world s') = (if a = own i
           then balance_on_hold cfg a (reg_world s) + deposit_of r - deposit_of (IdentityOf s i) else balance_on_hold cfg a (reg_world s))"
  shows "registry_inv cfg own s'"
  unfolding registry_inv_def
proof (intro conjI allI impI)
  have fin: "finite {i. IdentityOf s i \<noteq> None}" using assms(1) by (simp add: registry_inv_def)
  show "finite {i. IdentityOf s' i \<noteq> None}"
    by (rule finite_subset[of _ "insert i {i. IdentityOf s i \<noteq> None}"]) (use fin in \<open>auto simp: assms(2) split: if_splits\<close>)
  show "length (additional (id_info reg)) \<le> MaxAdditionalFields cfg" "id_deposit reg = identity_deposit cfg (id_info reg)"
    if "IdentityOf s' j = Some reg" for j reg
    using that assms(1,3) unfolding assms(2) registry_inv_def by (auto split: if_splits)
  show "balance_on_hold cfg a (reg_world s') = deposits_for own (IdentityOf s') a" for a
    using deposits_for_update[OF fin, of own i r a] registry_inv_held[OF assms(1), of i] assms(1,4)
    unfolding assms(2) registry_inv_def by (auto split: if_splits)
qed

interpretation registry: invariant_system "registry_initial cfg" "registry_step cfg own" "\<lambda>s. holds_ok cfg \<and> registry_inv cfg own s"
proof (unfold_locales, goal_cases)
  case (1 s)
  then show ?case by (simp add: registry_initial_def registry_inv_def deposits_for_def)
next
  case (2 s t)
  then have ok: "holds_ok cfg" and inv: "registry_inv cfg own s" by blast+
  from 2(2) have "registry_inv cfg own t"
  proof (cases rule: registry_step.cases)
    case (set i info)
    show ?thesis
      by (rule set_identityE[OF set ok], rule registry_inv_write[OF inv, where i = i]) auto
  next
    case (clear i)
    show ?thesis
      by (rule clear_identityE[OF clear ok], rule registry_inv_write[OF inv, where i = i]) auto
  next
    case (elsewhere w)
    then show ?thesis using inv by (simp add: registry_inv_def)
  qed
  with ok show ?case ..
qed

text \<open>C34. Deposits of identities. As long as every identity is set and cleared by one account, in every
  reachable state each identity is within the limit of additional fields and records the deposit
  for its number of fields, and the funds that an account has on hold are exactly the deposits
  of the identities it set.\<close>

theorem identity_deposits_held:
  assumes "registry_initial cfg s" "(registry_step cfg own)\<^sup>*\<^sup>* s t"
  shows "(\<forall>i reg. IdentityOf t i = Some reg \<longrightarrow> length (additional (id_info reg)) \<le> MaxAdditionalFields cfg \<and>
      id_deposit reg = identity_deposit cfg (id_info reg)) \<and>
    (\<forall>a. balance_on_hold cfg a (reg_world t) = (\<Sum>i | IdentityOf t i \<noteq> None \<and> own i = a. id_deposit (the (IdentityOf t i))))"
proof -
  have "deposits_for own (IdentityOf t) a = (\<Sum>i | IdentityOf t i \<noteq> None \<and> own i = a. id_deposit (the (IdentityOf t i)))" for a
    unfolding deposits_for_def by (rule sum.cong) (auto simp: deposit_of_def)
  then show ?thesis using registry.reachable_invar[OF assms] by (simp add: registry_inv_def)
qed

text \<open>Anyone can clear an identity. \<open>clear_identity\<close> has no permission check: whoever signs it, the
  identity is deleted. The deposit is released from the holds of the signer, so when somebody
  else placed it, it stays on hold, and the call cannot be repeated to give it back.\<close>

theorem clear_identity_unguarded:
  assumes "holds_ok cfg" "IdentityOf s i = Some reg"
  shows "\<exists>s'. clear_identity cfg (Signed who) i s = Inr s' \<and> IdentityOf s' = (IdentityOf s)(i := None) \<and>
    (\<forall>a. balance_on_hold cfg a (reg_world s') = balance_on_hold cfg a (reg_world s) - (if a = who then id_deposit reg else 0)) \<and>
    (\<forall>og. clear_identity cfg og i s' = Inl IdNotRegistered \<or> clear_identity cfg og i s' = Inl RegistryBadOrigin)"
proof -
  obtain s' where run: "clear_identity cfg (Signed who) i s = Inr s'" by (simp add: clear_identity_def assms(2))
  then obtain "IdentityOf s' = (IdentityOf s)(i := None)"
    "\<forall>a. balance_on_hold cfg a (reg_world s') = balance_on_hold cfg a (reg_world s) - (if a = who then id_deposit reg else 0)"
    by (rule clear_identityE[OF _ assms(1)]) (use assms(2) in auto)
  moreover from this(1) have "clear_identity cfg og i s' = Inl IdNotRegistered \<or> clear_identity cfg og i s' = Inl RegistryBadOrigin" for og
    by (cases og) (simp_all add: clear_identity_def)
  ultimately show ?thesis using run by blast
qed

text \<open>The world is the table of the holds; hotkeys 12 and 13 belong to coldkey 2.\<close>

definition sample_registry_cfg :: "(nat, nat \<Rightarrow> nat) registry_config" where
  "sample_registry_cfg = \<lparr>MaxAdditionalFields = 3, id_InitialDeposit = 100, id_FieldDeposit = 10,
     can_register = (\<lambda>a i w. True), hold_funds = (\<lambda>a x w. Some (w(a := w a + x))),
     release_funds = (\<lambda>a x w. w(a := w a - x)), balance_on_hold = (\<lambda>a w. w a)\<rparr>"

definition sample_identity :: identity_info where
  "sample_identity = \<lparr>additional = [(IdRaw [7], IdRaw [8, 9])], id_display = IdRaw [65], id_legal = IdNone, id_web = IdNone,
     id_riot = IdNone, id_email = IdNone, pgp_fingerprint = None, id_image = IdNone, id_twitter = IdNone\<rparr>"

definition no_identities :: "(nat, nat \<Rightarrow> nat) registry_state" where
  "no_identities = \<lparr>IdentityOf = (\<lambda>_. None), reg_world = (\<lambda>_. 0)\<rparr>"

definition one_identity :: "(nat, nat \<Rightarrow> nat) registry_state" where
  "one_identity = \<lparr>IdentityOf = [12 \<mapsto> \<lparr>id_deposit = 110, id_info = sample_identity\<rparr>], reg_world = (\<lambda>_. 0)(2 := 110)\<rparr>"

lemma sample_holds_ok: "holds_ok sample_registry_cfg"
  by (simp add: holds_ok_def sample_registry_cfg_def)

lemma sample_identity_set:
  "set_identity sample_registry_cfg (Signed 2) 12 sample_identity no_identities =
     Inr one_identity"
  by (simp add: one_identity_def set_identity_def sample_registry_cfg_def sample_identity_def no_identities_def sat_add_def sat_mul_def
      u64_max_def Let_def)

theorem identity_deposits_held_witness:
  "\<exists>t. set_identity sample_registry_cfg (Signed 2) 12 sample_identity no_identities = Inr t \<and>
    balance_on_hold sample_registry_cfg 2 (reg_world t) =
      (\<Sum>i | IdentityOf t i \<noteq> None \<and> (\<lambda>_. 2) i = (2::nat). id_deposit (the (IdentityOf t i)))"
proof -
  have "registry_initial sample_registry_cfg no_identities"
    using sample_holds_ok by (simp add: registry_initial_def no_identities_def sample_registry_cfg_def)
  moreover have "(registry_step sample_registry_cfg (\<lambda>_. 2))\<^sup>*\<^sup>* no_identities one_identity"
    by (rule r_into_rtranclp, rule registry_step.set) (rule sample_identity_set)
  ultimately have "balance_on_hold sample_registry_cfg 2 (reg_world one_identity) =
      (\<Sum>i | IdentityOf one_identity i \<noteq> None \<and> (\<lambda>_. 2) i = (2::nat). id_deposit (the (IdentityOf one_identity i)))"
    using identity_deposits_held by blast
  with sample_identity_set show ?thesis by blast
qed

theorem clear_identity_unguarded_witness:
  "\<exists>s s'. set_identity sample_registry_cfg (Signed 2) 12 sample_identity no_identities = Inr s \<and>
    clear_identity sample_registry_cfg (Signed 77) 12 s = Inr s' \<and> IdentityOf s' 12 = None \<and>
    balance_on_hold sample_registry_cfg 2 (reg_world s') = 110"
proof -
  have "IdentityOf one_identity 12 = Some \<lparr>id_deposit = 110, id_info = sample_identity\<rparr>" by (simp add: one_identity_def)
  from clear_identity_unguarded[OF sample_holds_ok this, of 77] obtain s' where
    "clear_identity sample_registry_cfg (Signed 77) 12 one_identity = Inr s'" "IdentityOf s' 12 = None"
    "balance_on_hold sample_registry_cfg 2 (reg_world s') = balance_on_hold sample_registry_cfg 2 (reg_world one_identity)"
    by auto
  with sample_identity_set show ?thesis by (auto simp: sample_registry_cfg_def one_identity_def)
qed

end
