(* ===== verification/Epoch_Math.thy ===== *)
theory Epoch_Math
  imports Weights "HOL-Library.Monad_Syntax"
begin

text \<open>
  The vector and matrix arithmetic of the epoch (\<open>pallets/subtensor/src/epoch/math.rs\<close>). A number
  of type \<open>I32F32\<close>, \<open>I64F64\<close> or \<open>I96F32\<close> is the integer of its bits, so comparing two numbers is
  comparing two integers; the arithmetic is that of the crate \<open>substrate-fixed\<close>, which is the
  argument \<open>epoch_fixed\<close> of the model. \<open>epoch_fixed_ok\<close> states what is documented of it: exact
  or saturating results on non-negative operands, and that a result is in the range of its type.

  A vector is a list, a dense matrix the list of its rows, and a sparse matrix the list of its
  rows of (column, value) pairs. A failed assertion or an index out of range panics in the code;
  it is \<open>None\<close> here. An index loop that only reads and writes slot \<open>i\<close> is a map over the rows.
\<close>

section \<open>Numbers\<close>

type_synonym sparse_row = "(nat \<times> int) list"
type_synonym sparse_matrix = "sparse_row list"

text \<open>
  \<open>ef_ops\<close> holds the operations on \<open>I32F32\<close> that are shared with the scaling of weights. The
  fields with prefix \<open>ef\<close> are the other operations on \<open>I32F32\<close>, \<open>ef64\<close> those on \<open>I64F64\<close> and
  \<open>ef96\<close> those on \<open>I96F32\<close>. A division by zero of \<open>saturating_div\<close> panics, and so does \<open>from_num\<close>
  on a number out of range.
\<close>

record epoch_fixed =
  ef_ops :: "int fixed_ops"
  ef_of_int :: "int \<Rightarrow> int"
  ef_half :: int
  ef_max_value :: int
  ef_saturating_add :: "int \<Rightarrow> int \<Rightarrow> int"
  ef_saturating_sub :: "int \<Rightarrow> int \<Rightarrow> int"
  ef_saturating_neg :: "int \<Rightarrow> int"
  ef_checked_mul :: "int \<Rightarrow> int \<Rightarrow> int option"
  ef_saturating_div :: "int \<Rightarrow> int \<Rightarrow> int option"
  ef_to_u64 :: "int \<Rightarrow> nat"
  ef_exp :: "int \<Rightarrow> int option"
  ef_ln :: "int \<Rightarrow> int option"
  ef64_from :: "nat \<Rightarrow> int"
  ef64_from_num :: "nat \<Rightarrow> int option"
  ef64_sum :: "int list \<Rightarrow> int"
  ef64_checked_div :: "int \<Rightarrow> int \<Rightarrow> int option"
  ef64_saturating_div :: "int \<Rightarrow> int \<Rightarrow> int option"
  ef64_saturating_add :: "int \<Rightarrow> int \<Rightarrow> int"
  ef64_saturating_mul :: "int \<Rightarrow> int \<Rightarrow> int"
  ef64_to_u64 :: "int \<Rightarrow> nat"
  ef64_to_32 :: "int \<Rightarrow> int"
  ef64_into_32 :: "int \<Rightarrow> int option"
  ef32_to_64 :: "int \<Rightarrow> int"
  ef96_from :: "nat \<Rightarrow> int"
  ef96_of_32 :: "int \<Rightarrow> int"
  ef96_saturating_mul :: "int \<Rightarrow> int \<Rightarrow> int"
  ef96_to_u64 :: "int \<Rightarrow> nat"

abbreviation ef_num :: "epoch_fixed \<Rightarrow> nat \<Rightarrow> int" where
  "ef_num F \<equiv> fx_from (ef_ops F)"

abbreviation ef_mul :: "epoch_fixed \<Rightarrow> int \<Rightarrow> int \<Rightarrow> int" where
  "ef_mul F \<equiv> fx_saturating_mul (ef_ops F)"

abbreviation ef_safe_div :: "epoch_fixed \<Rightarrow> int \<Rightarrow> int \<Rightarrow> int" where
  "ef_safe_div F \<equiv> fx_safe_div (ef_ops F)"

abbreviation ef_sum :: "epoch_fixed \<Rightarrow> int list \<Rightarrow> int" where
  "ef_sum F \<equiv> fx_sum (ef_ops F)"

abbreviation ef_normalize :: "epoch_fixed \<Rightarrow> int list \<Rightarrow> int list" where
  "ef_normalize F \<equiv> inplace_normalize (ef_ops F)"

definition ef64_safe_div :: "epoch_fixed \<Rightarrow> int \<Rightarrow> int \<Rightarrow> int" where
  "ef64_safe_div F a b = (case ef64_checked_div F a b of None \<Rightarrow> ef64_from F 0 | Some q \<Rightarrow> q)"

text \<open>Reading slot \<open>i\<close>; \<open>None\<close> is the panic of an index out of range.\<close>

definition idx :: "'a list \<Rightarrow> nat \<Rightarrow> 'a option" where
  "idx xs i = (if i < length xs then Some (xs ! i) else None)"

text \<open>Updating \<open>xs\<close> in place along \<open>ms\<close>: the slots of \<open>xs\<close> past the end of \<open>ms\<close> are kept.\<close>

fun zip_update :: "('m \<Rightarrow> 'x \<Rightarrow> 'x) \<Rightarrow> 'm list \<Rightarrow> 'x list \<Rightarrow> 'x list" where
  "zip_update f (m # ms) (x # xs) = f m x # zip_update f ms xs"
| "zip_update f [] xs = xs"
| "zip_update f (m # ms) [] = []"

subsection \<open>Conversions\<close>

definition fixed_to_u16 :: "epoch_fixed \<Rightarrow> int \<Rightarrow> nat" where
  "fixed_to_u16 F x = fx_to_u16 (ef_ops F) x"

definition fixed_to_u64 :: "epoch_fixed \<Rightarrow> int \<Rightarrow> nat" where
  "fixed_to_u64 F x = ef_to_u64 F x"

definition fixed64_to_u64 :: "epoch_fixed \<Rightarrow> int \<Rightarrow> nat" where
  "fixed64_to_u64 F x = ef64_to_u64 F x"

definition fixed64_to_fixed32 :: "epoch_fixed \<Rightarrow> int \<Rightarrow> int" where
  "fixed64_to_fixed32 F x = ef64_to_32 F x"

definition fixed32_to_fixed64 :: "epoch_fixed \<Rightarrow> int \<Rightarrow> int" where
  "fixed32_to_fixed64 F x = ef32_to_64 F x"

definition u16_to_fixed :: "epoch_fixed \<Rightarrow> nat \<Rightarrow> int" where
  "u16_to_fixed F x = ef_num F x"

definition u16_proportion_to_fixed :: "epoch_fixed \<Rightarrow> nat \<Rightarrow> int" where
  "u16_proportion_to_fixed F x = ef_safe_div F (ef_num F x) (ef_num F u16_max)"

definition fixed_to_fixed_u16_proportion :: "epoch_fixed \<Rightarrow> int \<Rightarrow> int" where
  "fixed_to_fixed_u16_proportion F x = ef_safe_div F x (ef_num F u16_max)"

definition fixed_proportion_to_u16 :: "epoch_fixed \<Rightarrow> int \<Rightarrow> nat" where
  "fixed_proportion_to_u16 F x = fixed_to_u16 F (ef_mul F x (ef_num F u16_max))"

definition vec_fixed32_to_u64 :: "epoch_fixed \<Rightarrow> int list \<Rightarrow> nat list" where
  "vec_fixed32_to_u64 F vec = map (fixed_to_u64 F) vec"

definition vec_fixed64_to_fixed32 :: "epoch_fixed \<Rightarrow> int list \<Rightarrow> int list" where
  "vec_fixed64_to_fixed32 F vec = map (fixed64_to_fixed32 F) vec"

definition vec_fixed32_to_fixed64 :: "epoch_fixed \<Rightarrow> int list \<Rightarrow> int list" where
  "vec_fixed32_to_fixed64 F vec = map (fixed32_to_fixed64 F) vec"

definition vec_fixed64_to_u64 :: "epoch_fixed \<Rightarrow> int list \<Rightarrow> nat list" where
  "vec_fixed64_to_u64 F vec = map (fixed64_to_u64 F) vec"

definition vec_fixed_proportions_to_u16 :: "epoch_fixed \<Rightarrow> int list \<Rightarrow> nat list" where
  "vec_fixed_proportions_to_u16 F vec = map (fixed_proportion_to_u16 F) vec"

subsection \<open>Scalars\<close>

text \<open>\<open>checked_sum\<close> is generic in the type: its \<open>checked_add\<close> and default are arguments.\<close>

definition checked_sum :: "('t \<Rightarrow> 't \<Rightarrow> 't option) \<Rightarrow> 't \<Rightarrow> 't list \<Rightarrow> 't option" where
  "checked_sum add dflt x =
     (case x of [] \<Rightarrow> Some dflt
      | first # rest \<Rightarrow> foldl (\<lambda>total i. Option.bind total (\<lambda>t. add t i)) (Some first) rest)"

definition is_zero :: "epoch_fixed \<Rightarrow> int list \<Rightarrow> bool" where
  "is_zero F vector \<longleftrightarrow> ef_sum F vector = ef_num F 0"

definition exp_safe :: "epoch_fixed \<Rightarrow> int \<Rightarrow> int" where
  "exp_safe F input =
     (let min_input = ef_of_int F (-20); max_input = ef_of_int F 20;
          safe_input = (if input < min_input then min_input
                        else if max_input < input then max_input else input)
      in case ef_exp F safe_input of
           Some val \<Rightarrow> val
         | None \<Rightarrow> if safe_input \<le> ef_num F 0 then ef_num F 0 else ef_max_value F)"

definition sigmoid_safe :: "epoch_fixed \<Rightarrow> int \<Rightarrow> int \<Rightarrow> int \<Rightarrow> int" where
  "sigmoid_safe F input rho kappa =
     (let one = ef_num F 1;
          offset = ef_saturating_sub F input kappa;
          neg_rho = ef_mul F rho (ef_saturating_neg F one);
          exp_input = ef_mul F neg_rho offset;
          exp_output = exp_safe F exp_input;
          denominator = ef_saturating_add F exp_output one
      in ef_safe_div F one denominator)"

text \<open>\<open>low\<close> and \<open>high\<close> are of the type of the value, so the calls of \<open>from_num\<close> change nothing.\<close>

definition clamp_value :: "int \<Rightarrow> int \<Rightarrow> int \<Rightarrow> int" where
  "clamp_value v low high = max (min v high) low"

definition safe_ln :: "epoch_fixed \<Rightarrow> int \<Rightarrow> int" where
  "safe_ln F v = (case ef_ln F v of None \<Rightarrow> ef_num F 0 | Some x \<Rightarrow> x)"

definition safe_exp :: "epoch_fixed \<Rightarrow> int \<Rightarrow> int" where
  "safe_exp F v = (case ef_exp F v of None \<Rightarrow> ef_num F 0 | Some x \<Rightarrow> x)"

section \<open>Vectors\<close>

text \<open>\<open>sort_by_key\<close> is a stable ascending sort, which is what \<open>sort_key\<close> is.\<close>

definition is_topk :: "int list \<Rightarrow> nat \<Rightarrow> bool list" where
  "is_topk vector k =
     (let n = length vector; result = replicate n True in
      if n < k then result
      else let idxs = sort_key (\<lambda>i. vector ! i) [0..<n]
           in foldl (\<lambda>r i. r[i := False]) result (List.take (n - k) idxs))"

definition is_topk_nonzero :: "epoch_fixed \<Rightarrow> int list \<Rightarrow> nat \<Rightarrow> bool list" where
  "is_topk_nonzero F vector k =
     (let n = length vector; result = map (\<lambda>elem. elem \<noteq> ef_num F 0) vector in
      if n < k then result
      else let idxs = sort_key (\<lambda>i. vector ! i) [0..<n]
           in foldl (\<lambda>r i. r[i := False]) result (List.take (n - k) idxs))"

definition normalize :: "epoch_fixed \<Rightarrow> int list \<Rightarrow> int list" where
  "normalize F x =
     (let x_sum = ef_sum F x
      in if x_sum \<noteq> ef_num F 0 then map (\<lambda>xi. ef_safe_div F xi x_sum) x else x)"

definition inplace_normalize_using_sum :: "epoch_fixed \<Rightarrow> int list \<Rightarrow> int \<Rightarrow> int list" where
  "inplace_normalize_using_sum F x x_sum =
     (if x_sum = ef_num F 0 then x else map (\<lambda>v. ef_safe_div F v x_sum) x)"

definition inplace_normalize_64 :: "epoch_fixed \<Rightarrow> int list \<Rightarrow> int list" where
  "inplace_normalize_64 F x =
     (let x_sum = ef64_sum F x
      in if x_sum = ef64_from F 0 then x else map (\<lambda>v. ef64_safe_div F v x_sum) x)"

definition vecdiv :: "epoch_fixed \<Rightarrow> int list \<Rightarrow> int list \<Rightarrow> int list option" where
  "vecdiv F x y =
     (if length x \<noteq> length y then None
      else Some (map (\<lambda>(x_i, y_i). if y_i \<noteq> ef_num F 0 then ef_safe_div F x_i y_i else ef_num F 0)
                   (zip x y)))"

definition vec_mul :: "epoch_fixed \<Rightarrow> int list \<Rightarrow> int list \<Rightarrow> int list" where
  "vec_mul F a b =
     map (\<lambda>(x, y). case ef_checked_mul F x y of None \<Rightarrow> ef_num F 0 | Some p \<Rightarrow> p) (zip a b)"

definition inplace_mask_vector :: "epoch_fixed \<Rightarrow> bool list \<Rightarrow> int list \<Rightarrow> int list option" where
  "inplace_mask_vector F msk vector =
     (if msk = [] then Some vector
      else if length msk \<noteq> length vector then None
      else Some (zip_update (\<lambda>m v. if m then ef_num F 0 else v) msk vector))"

section \<open>Dense matrices\<close>

text \<open>\<open>first_empty\<close>: the early returns of the dense operations, on a matrix with no row or no column.\<close>

definition first_empty :: "'x list list \<Rightarrow> bool" where
  "first_empty x \<longleftrightarrow> (case x of [] \<Rightarrow> True | first_row # _ \<Rightarrow> first_row = [])"

definition inplace_row_normalize :: "epoch_fixed \<Rightarrow> int list list \<Rightarrow> int list list" where
  "inplace_row_normalize F x =
     map (\<lambda>row. let row_sum = ef_sum F row
                in if row_sum > ef_num F 0 then map (\<lambda>x_ij. ef_safe_div F x_ij row_sum) row else row) x"

definition inplace_row_normalize_64 :: "epoch_fixed \<Rightarrow> int list list \<Rightarrow> int list list" where
  "inplace_row_normalize_64 F x =
     map (\<lambda>row. let row_sum = ef64_sum F row
                in if row_sum > ef64_from F 0 then map (\<lambda>x_ij. ef64_safe_div F x_ij row_sum) row
                   else row) x"

definition row_sum :: "epoch_fixed \<Rightarrow> int list list \<Rightarrow> int list" where
  "row_sum F x =
     (case x of [] \<Rightarrow> [] | first_row # _ \<Rightarrow> if first_row = [] then [] else map (ef_sum F) x)"

definition col_sum :: "epoch_fixed \<Rightarrow> int list list \<Rightarrow> int list" where
  "col_sum F x =
     (if first_empty x then []
      else foldl (\<lambda>acc next_row. map (\<lambda>(a, e). ef_saturating_add F a e) (zip acc next_row))
             (replicate (length (hd x)) (ef_num F 0)) x)"

definition inplace_col_normalize :: "epoch_fixed \<Rightarrow> int list list \<Rightarrow> int list list" where
  "inplace_col_normalize F x =
     (if first_empty x then x
      else let col_sums = foldl (\<lambda>acc row. map (\<lambda>(m_val, a). ef_saturating_add F a m_val) (zip row acc))
                            (replicate (length (hd x)) (ef_num F 0)) x
           in map (zip_update (\<lambda>c m_val. if c \<noteq> ef_num F 0 then ef_safe_div F m_val c else m_val)
                     col_sums) x)"

definition inplace_col_max_upscale :: "epoch_fixed \<Rightarrow> int list list \<Rightarrow> int list list" where
  "inplace_col_max_upscale F x =
     (if first_empty x then x
      else let col_maxes = foldl (\<lambda>acc row. map (\<lambda>(m_val, a). max a m_val) (zip row acc))
                             (replicate (length (hd x)) (ef_num F 0)) x
           in map (zip_update (\<lambda>c m_val. if c \<noteq> ef_num F 0 then ef_safe_div F m_val c else m_val)
                     col_maxes) x)"

definition inplace_mask_matrix ::
    "epoch_fixed \<Rightarrow> bool list list \<Rightarrow> int list list \<Rightarrow> int list list option" where
  "inplace_mask_matrix F msk matrix =
     (if first_empty msk then Some matrix
      else if length msk \<noteq> length matrix then None
      else Some (zip_update (zip_update (\<lambda>m v. if m then ef_num F 0 else v)) msk matrix))"

definition inplace_mask_rows ::
    "epoch_fixed \<Rightarrow> bool list \<Rightarrow> int list list \<Rightarrow> int list list option" where
  "inplace_mask_rows F msk matrix =
     (case matrix of [] \<Rightarrow> Some matrix
      | first_row # _ \<Rightarrow>
          if length msk \<noteq> length matrix then None
          else Some (zip_update (\<lambda>m row. if m then replicate (length first_row) (ef_num F 0) else row)
                       msk matrix))"

definition inplace_mask_cols ::
    "epoch_fixed \<Rightarrow> bool list \<Rightarrow> int list list \<Rightarrow> int list list option" where
  "inplace_mask_cols F msk matrix =
     (case matrix of [] \<Rightarrow> Some matrix
      | first_row # _ \<Rightarrow>
          if length msk \<noteq> length first_row then None
          else Some (map (zip_update (\<lambda>m v. if m then ef_num F 0 else v) msk) matrix))"

definition inplace_mask_diag :: "epoch_fixed \<Rightarrow> int list list \<Rightarrow> int list list option" where
  "inplace_mask_diag F matrix =
     (if first_empty matrix then Some matrix
      else if length matrix \<noteq> length (hd matrix) then None
      else Some (map (\<lambda>(i, row). row[i := ef_num F 0]) (List.enumerate 0 matrix)))"

definition inplace_mask_diag_except_index ::
    "epoch_fixed \<Rightarrow> int list list \<Rightarrow> nat \<Rightarrow> int list list option" where
  "inplace_mask_diag_except_index F matrix except_index =
     (if first_empty matrix then Some matrix
      else if length matrix \<noteq> length (hd matrix) then None
      else do {
        let diag_at_index = Option.bind (idx matrix except_index) (\<lambda>row. idx row except_index);
        masked \<leftarrow> inplace_mask_diag F matrix;
        Some (case idx masked except_index of
                None \<Rightarrow> masked
              | Some row \<Rightarrow>
                  (case diag_at_index of
                     None \<Rightarrow> masked
                   | Some d \<Rightarrow> masked[except_index := row[except_index := d]]))
      })"

definition row_hadamard :: "epoch_fixed \<Rightarrow> int list list \<Rightarrow> int list \<Rightarrow> int list list" where
  "row_hadamard F matrix vector =
     (if first_empty matrix then [[]]
      else map (\<lambda>(row, vec_val). map (\<lambda>m_val. ef_mul F vec_val m_val) row) (zip matrix vector))"

definition matmul :: "epoch_fixed \<Rightarrow> int list list \<Rightarrow> int list \<Rightarrow> int list option" where
  "matmul F matrix vector =
     (if first_empty matrix then Some []
      else if length matrix \<noteq> length vector then None
      else Some (foldl (\<lambda>acc (row, vec_val).
                          map (\<lambda>(m_val, a). ef_saturating_add F a (ef_mul F vec_val m_val)) (zip row acc))
                   (replicate (length (hd matrix)) (ef_num F 0)) (zip matrix vector)))"

definition matmul_64 :: "epoch_fixed \<Rightarrow> int list list \<Rightarrow> int list \<Rightarrow> int list option" where
  "matmul_64 F matrix vector =
     (if first_empty matrix then Some []
      else if length matrix \<noteq> length vector then None
      else Some (foldl (\<lambda>acc (row, vec_val).
                          map (\<lambda>(m_val, a). ef64_saturating_add F a (ef64_saturating_mul F vec_val m_val))
                            (zip row acc))
                   (replicate (length (hd matrix)) (ef64_from F 0)) (zip matrix vector)))"

definition matmul_transpose :: "epoch_fixed \<Rightarrow> int list list \<Rightarrow> int list \<Rightarrow> int list option" where
  "matmul_transpose F matrix vector =
     (if first_empty matrix then Some []
      else if length (hd matrix) \<noteq> length vector then None
      else Some (map (\<lambda>row. foldl (\<lambda>acc (velem, melem). ef_saturating_add F acc (ef_mul F velem melem))
                              (ef_num F 0) (zip row vector)) matrix))"

definition inplace_col_clip :: "int list list \<Rightarrow> int list \<Rightarrow> int list list" where
  "inplace_col_clip x col_threshold = map (zip_update (\<lambda>threshold v. min threshold v) col_threshold) x"

definition clip :: "int list list \<Rightarrow> int \<Rightarrow> int \<Rightarrow> int \<Rightarrow> int list list" where
  "clip x threshold upper lower =
     map (map (\<lambda>elem. if elem \<ge> threshold then upper else lower)) x"

definition inplace_clip :: "int list list \<Rightarrow> int \<Rightarrow> int \<Rightarrow> int \<Rightarrow> int list list" where
  "inplace_clip x threshold upper lower =
     map (map (\<lambda>elem. if elem \<ge> threshold then upper else lower)) x"

text \<open>\<open>lerp\<close>: \<open>v1 + ratio * (v2 - v1)\<close>, the cell of both interpolations.\<close>

definition lerp :: "epoch_fixed \<Rightarrow> int \<Rightarrow> int \<Rightarrow> int \<Rightarrow> int" where
  "lerp F ratio v1 v2 =
     ef_saturating_add F v1 (ef_mul F ratio (ef_saturating_sub F v2 v1))"

text \<open>
  The result of \<open>interpolate\<close> has the shape of the first row of \<open>mat1\<close>: a cell past its end is
  dropped, one that no row reaches is zero.
\<close>

definition interpolate ::
    "epoch_fixed \<Rightarrow> int list list \<Rightarrow> int list list \<Rightarrow> int \<Rightarrow> int list list option" where
  "interpolate F mat1 mat2 ratio =
     (if ratio = ef_num F 0 then Some mat1
      else if ratio = ef_num F 1 then Some mat2
      else if length mat1 \<noteq> length mat2 then None
      else if first_empty mat1 then Some [[]]
      else if list_ex (\<lambda>(row1, row2). length row1 \<noteq> length row2) (zip mat1 mat2) then None
      else let cols = length (hd mat1) in
           Some (map (\<lambda>(row1, row2).
                        zip_update (\<lambda>(v1, v2) _. lerp F ratio v1 v2) (zip row1 row2)
                          (replicate cols (ef_num F 0))) (zip mat1 mat2)))"

definition mat_vec_mul :: "epoch_fixed \<Rightarrow> int list list \<Rightarrow> int list \<Rightarrow> int list list" where
  "mat_vec_mul F matrix vector =
     (if first_empty matrix then [[]] else map (\<lambda>row. vec_mul F row vector) matrix)"

definition hadamard :: "epoch_fixed \<Rightarrow> int list list \<Rightarrow> int list list \<Rightarrow> int list list option" where
  "hadamard F mat1 mat2 =
     (if length mat1 \<noteq> length mat2 then None
      else if first_empty mat1 then Some [[]]
      else if list_ex (\<lambda>(row1, row2). length row1 \<noteq> length row2) (zip mat1 mat2) then None
      else Some (map (\<lambda>(row1, row2). map (\<lambda>(elem1, elem2). ef_mul F elem1 elem2) (zip row1 row2))
                   (zip mat1 mat2)))"

definition mat_ema :: "epoch_fixed \<Rightarrow> int list list \<Rightarrow> int list list \<Rightarrow> int \<Rightarrow> int list list" where
  "mat_ema F new old alpha =
     (if first_empty new then [[]]
      else let one_minus_alpha = ef_saturating_sub F (ef_num F 1) alpha in
           map (\<lambda>(new_row, old_row).
                  map (\<lambda>(new_elem, old_elem).
                         ef_saturating_add F (ef_mul F alpha new_elem) (ef_mul F one_minus_alpha old_elem))
                    (zip new_row old_row)) (zip new old))"

text \<open>\<open>ema_cell\<close>: the moving average of one bond, capped at one.\<close>

definition ema_cell :: "epoch_fixed \<Rightarrow> int \<Rightarrow> int \<Rightarrow> int \<Rightarrow> int" where
  "ema_cell F decayed_val alpha_val new_val =
     (let purchase_increment = max (ef_mul F alpha_val new_val) (ef_num F 0)
      in min (ef_saturating_add F decayed_val purchase_increment) (ef_num F 1))"

definition mat_ema_alpha ::
    "epoch_fixed \<Rightarrow> int list list \<Rightarrow> int list list \<Rightarrow> int list list \<Rightarrow> int list list option" where
  "mat_ema_alpha F new old alpha =
     (if first_empty new then Some [[]]
      else if length new \<noteq> length old \<or> length new \<noteq> length alpha then None
      else if list_ex (\<lambda>(new_row, old_row, alpha_row).
                         length new_row \<noteq> length old_row \<or> length new_row \<noteq> length alpha_row)
                (zip new (zip old alpha)) then None
      else Some (map (\<lambda>(new_row, old_row, alpha_row).
                        map (\<lambda>(new_val, old_val, alpha_val).
                               ema_cell F
                                 (ef_mul F (ef_saturating_sub F (ef_num F 1) alpha_val) old_val)
                                 alpha_val new_val)
                          (zip new_row (zip old_row alpha_row)))
                   (zip new (zip old alpha))))"

section \<open>Sparse matrices\<close>

text \<open>
  \<open>cols_lt\<close> is that no column index is out of range, without which indexing a column panics.
  \<open>add_cells\<close> accumulates cells into a vector of columns, \<open>set_cells\<close> writes them, the last
  write of a column winning; a write past the end is dropped, as with \<open>get_mut\<close>.
\<close>

definition cols_lt :: "nat \<Rightarrow> sparse_row \<Rightarrow> bool" where
  "cols_lt columns row \<longleftrightarrow> list_all (\<lambda>(j, _). j < columns) row"

definition add_cells :: "epoch_fixed \<Rightarrow> int list \<Rightarrow> sparse_row \<Rightarrow> int list" where
  "add_cells F acc cells = foldl (\<lambda>v (j, x). v[j := ef_saturating_add F (v ! j) x]) acc cells"

definition set_cells :: "int list \<Rightarrow> sparse_row \<Rightarrow> int list" where
  "set_cells acc cells = foldl (\<lambda>v (j, x). v[j := x]) acc cells"

definition inplace_row_normalize_sparse :: "epoch_fixed \<Rightarrow> sparse_matrix \<Rightarrow> sparse_matrix" where
  "inplace_row_normalize_sparse F m =
     map (\<lambda>row. let rsum = ef_sum F (map snd row)
                in if rsum > ef_num F 0 then map (\<lambda>(j, v). (j, ef_safe_div F v rsum)) row else row) m"

definition row_sum_sparse :: "epoch_fixed \<Rightarrow> sparse_matrix \<Rightarrow> int list" where
  "row_sum_sparse F m = map (\<lambda>row. ef_sum F (map snd row)) m"

definition col_sum_sparse :: "epoch_fixed \<Rightarrow> sparse_matrix \<Rightarrow> nat \<Rightarrow> int list option" where
  "col_sum_sparse F m columns =
     (if list_all (cols_lt columns) m
      then Some (add_cells F (replicate columns (ef_num F 0)) (concat m)) else None)"

text \<open>The second loop of both column scalings: divide each cell by the figure of its column.\<close>

definition col_scale :: "epoch_fixed \<Rightarrow> int list \<Rightarrow> sparse_matrix \<Rightarrow> sparse_matrix" where
  "col_scale F col m =
     map (map (\<lambda>(j, v). if col ! j = ef_num F 0 then (j, v) else (j, ef_safe_div F v (col ! j)))) m"

definition inplace_col_normalize_sparse ::
    "epoch_fixed \<Rightarrow> sparse_matrix \<Rightarrow> nat \<Rightarrow> sparse_matrix option" where
  "inplace_col_normalize_sparse F m columns =
     (if list_all (cols_lt columns) m
      then Some (col_scale F (add_cells F (replicate columns (ef_num F 0)) (concat m)) m)
      else None)"

definition max_cells :: "int list \<Rightarrow> sparse_row \<Rightarrow> int list" where
  "max_cells acc cells = foldl (\<lambda>v (j, x). if v ! j < x then v[j := x] else v) acc cells"

definition inplace_col_max_upscale_sparse ::
    "epoch_fixed \<Rightarrow> sparse_matrix \<Rightarrow> nat \<Rightarrow> sparse_matrix option" where
  "inplace_col_max_upscale_sparse F m columns =
     (if list_all (cols_lt columns) m
      then Some (col_scale F (max_cells (replicate columns (ef_num F 0)) (concat m)) m)
      else None)"

definition scalar_vec_mask_sparse_matrix ::
    "sparse_matrix \<Rightarrow> nat \<Rightarrow> nat list \<Rightarrow> (nat \<Rightarrow> nat \<Rightarrow> bool) \<Rightarrow> sparse_matrix option" where
  "scalar_vec_mask_sparse_matrix m scalar vector mask_fn =
     (if list_all (cols_lt (length vector)) m
      then Some (map (filter (\<lambda>(j, _). \<not> mask_fn scalar (vector ! j))) m) else None)"

definition mask_rows_sparse :: "bool list \<Rightarrow> sparse_matrix \<Rightarrow> sparse_matrix option" where
  "mask_rows_sparse msk m =
     (if length m \<noteq> length msk then None
      else Some (map (\<lambda>(mask_elem, row). if mask_elem then [] else row) (zip msk m)))"

definition mask_diag_sparse :: "sparse_matrix \<Rightarrow> sparse_matrix" where
  "mask_diag_sparse m = map (\<lambda>(i, row). filter (\<lambda>(j, _). i \<noteq> j) row) (List.enumerate 0 m)"

definition mask_diag_sparse_except_index :: "sparse_matrix \<Rightarrow> nat \<Rightarrow> sparse_matrix" where
  "mask_diag_sparse_except_index m except_index =
     map (\<lambda>(i, row). filter (\<lambda>(j, _). i \<noteq> j \<or> (i = except_index \<and> j = except_index)) row)
       (List.enumerate 0 m)"

definition vec_mask_sparse_matrix ::
    "sparse_matrix \<Rightarrow> nat list \<Rightarrow> nat list \<Rightarrow> (nat \<Rightarrow> nat \<Rightarrow> bool) \<Rightarrow> sparse_matrix option" where
  "vec_mask_sparse_matrix m first_vector second_vector mask_fn =
     those (map (\<lambda>(i, row).
                   if (row \<noteq> [] \<and> i \<ge> length first_vector) \<or> \<not> cols_lt (length second_vector) row
                   then None
                   else Some (filter (\<lambda>(j, _). \<not> mask_fn (first_vector ! i) (second_vector ! j)) row))
              (List.enumerate 0 m))"

definition row_hadamard_sparse :: "epoch_fixed \<Rightarrow> sparse_matrix \<Rightarrow> int list \<Rightarrow> sparse_matrix" where
  "row_hadamard_sparse F m vector =
     map (\<lambda>(row, vec_val). map (\<lambda>(j, v). (j, ef_mul F v vec_val)) row) (zip m vector)"

definition matmul_sparse ::
    "epoch_fixed \<Rightarrow> sparse_matrix \<Rightarrow> int list \<Rightarrow> nat \<Rightarrow> int list option" where
  "matmul_sparse F m vector columns =
     (if list_ex (\<lambda>(i, row). (row \<noteq> [] \<and> i \<ge> length vector) \<or> \<not> cols_lt columns row)
           (List.enumerate 0 m) then None
      else Some (foldl (\<lambda>result (i, row).
                          add_cells F result (map (\<lambda>(j, v). (j, ef_mul F (vector ! i) v)) row))
                   (replicate columns (ef_num F 0)) (List.enumerate 0 m)))"

definition matmul_transpose_sparse ::
    "epoch_fixed \<Rightarrow> sparse_matrix \<Rightarrow> int list \<Rightarrow> int list option" where
  "matmul_transpose_sparse F m vector =
     (if list_all (cols_lt (length vector)) m
      then Some (map (\<lambda>row. foldl (\<lambda>acc (j, v). ef_saturating_add F acc (ef_mul F (vector ! j) v))
                              (ef_num F 0) row) m)
      else None)"

definition col_clip_sparse ::
    "epoch_fixed \<Rightarrow> sparse_matrix \<Rightarrow> int list \<Rightarrow> sparse_matrix option" where
  "col_clip_sparse F m col_threshold =
     (if list_all (cols_lt (length col_threshold)) m
      then Some (map (\<lambda>row. concat (map (\<lambda>(j, v).
                        if col_threshold ! j < v
                        then (if ef_num F 0 < col_threshold ! j then [(j, col_threshold ! j)] else [])
                        else [(j, v)]) row)) m)
      else None)"

definition clip_sparse :: "sparse_matrix \<Rightarrow> int \<Rightarrow> int \<Rightarrow> int \<Rightarrow> sparse_matrix" where
  "clip_sparse m threshold upper lower =
     map (map (\<lambda>(j, v). if v < threshold then (j, lower) else (j, upper))) m"

text \<open>
  Collecting the positive cells of a dense row: the column counts are of type \<open>u16\<close>, so the cast
  \<open>j as u16\<close> is the identity.
\<close>

definition positive_cells :: "epoch_fixed \<Rightarrow> int list \<Rightarrow> sparse_row" where
  "positive_cells F row = filter (\<lambda>(_, v). ef_num F 0 < v) (List.enumerate 0 row)"

definition interpolate_sparse ::
    "epoch_fixed \<Rightarrow> sparse_matrix \<Rightarrow> sparse_matrix \<Rightarrow> nat \<Rightarrow> int \<Rightarrow> sparse_matrix option" where
  "interpolate_sparse F mat1 mat2 columns ratio =
     (if ratio = ef_num F 0 then Some mat1
      else if ratio = ef_num F 1 then Some mat2
      else if length mat1 \<noteq> length mat2 then None
      else Some (map (\<lambda>(r1, r2).
                   let row1 = set_cells (replicate columns (ef_num F 0)) r1;
                       row2 = set_cells (replicate columns (ef_num F 0)) r2
                   in positive_cells F (map (\<lambda>(v1, v2). lerp F ratio v1 v2) (zip row1 row2)))
              (zip mat1 mat2)))"

definition mat_vec_mul_sparse :: "epoch_fixed \<Rightarrow> sparse_matrix \<Rightarrow> int list \<Rightarrow> sparse_matrix" where
  "mat_vec_mul_sparse F matrix vector =
     map (\<lambda>row. concat (map (\<lambda>(j, v).
            case idx vector j of
              None \<Rightarrow> []
            | Some vector_value \<Rightarrow>
                (let new_value = ef_mul F v vector_value
                 in if new_value \<noteq> ef_num F 0 then [(j, new_value)] else [])) row)) matrix"

definition hadamard_sparse ::
    "epoch_fixed \<Rightarrow> sparse_matrix \<Rightarrow> sparse_matrix \<Rightarrow> nat \<Rightarrow> sparse_matrix option" where
  "hadamard_sparse F mat1 mat2 columns =
     (if length mat1 \<noteq> length mat2 then None
      else if \<not> list_all (cols_lt columns) mat1 \<or> \<not> list_all (cols_lt columns) mat2 then None
      else Some (map (\<lambda>(r1, r2).
                   let row1 = add_cells F (replicate columns (ef_num F 0)) r1;
                       row2 = add_cells F (replicate columns (ef_num F 0)) r2
                   in positive_cells F (map (\<lambda>(v1, v2). ef_mul F v1 v2) (zip row1 row2)))
              (zip mat1 mat2)))"

definition mat_ema_sparse ::
    "epoch_fixed \<Rightarrow> sparse_matrix \<Rightarrow> sparse_matrix \<Rightarrow> int \<Rightarrow> sparse_matrix option" where
  "mat_ema_sparse F new old alpha =
     (if length new \<noteq> length old then None
      else let n = length new;
               one_minus_alpha = ef_saturating_sub F (ef_num F 1) alpha in
           if \<not> list_all (cols_lt n) new \<or> \<not> list_all (cols_lt n) old then None
           else Some (map (\<lambda>(new_row, old_row).
                  let row = add_cells F (replicate n (ef_num F 0))
                              (map (\<lambda>(j, v). (j, ef_mul F alpha v)) new_row);
                      row = add_cells F row (map (\<lambda>(j, v). (j, ef_mul F one_minus_alpha v)) old_row)
                  in positive_cells F row) (zip new old)))"

definition mat_ema_alpha_sparse ::
    "epoch_fixed \<Rightarrow> sparse_matrix \<Rightarrow> sparse_matrix \<Rightarrow> int list list \<Rightarrow> sparse_matrix option" where
  "mat_ema_alpha_sparse F new old alpha =
     (if length new \<noteq> length old \<or> length new \<noteq> length alpha then None
      else Some (map (\<lambda>(new_row, old_row, alpha_row).
             let decayed_values =
                   foldl (\<lambda>v (j, old_val). case idx alpha_row j of
                            None \<Rightarrow> v
                          | Some alpha_val \<Rightarrow>
                              v[j := ef_mul F (ef_saturating_sub F (ef_num F 1) alpha_val) old_val])
                     (replicate (length alpha_row) (ef_num F 0)) old_row
             in concat (map (\<lambda>(j, new_val).
                  if j < length alpha_row
                  then (let result_val = ema_cell F (decayed_values ! j) (alpha_row ! j) new_val
                        in if result_val > ef_num F 0 then [(j, result_val)] else [])
                  else []) new_row)) (zip new (zip old alpha))))"

section \<open>The stake-weighted median\<close>

text \<open>
  \<open>weighted_median\<close> searches the score at which the stake of the lower scores passes \<open>minority\<close>,
  partitioning around the score of the middle index. The scores equal to the pivot are left out of
  both parts, so each call is on fewer indices and the search ends.
\<close>

function weighted_median ::
    "epoch_fixed \<Rightarrow> int list \<Rightarrow> int list \<Rightarrow> nat list \<Rightarrow> int \<Rightarrow> int \<Rightarrow> int \<Rightarrow> int option" where
  "weighted_median F stake score partition_idx minority partition_lo partition_hi =
     (let n = length partition_idx in
      if n = 0 then Some (ef_num F 0)
      else if n = 1 then idx score (partition_idx ! 0)
      else if length stake \<noteq> length score then None
      else if \<not> list_all (\<lambda>i. i < length score) partition_idx then None
      else
        let pivot = score ! (partition_idx ! (n div 2));
            lower = filter (\<lambda>i. score ! i < pivot) partition_idx;
            upper = filter (\<lambda>i. pivot < score ! i) partition_idx;
            lo_stake = foldl (\<lambda>acc i. ef_saturating_add F acc (stake ! i)) (ef_num F 0) lower;
            hi_stake = foldl (\<lambda>acc i. ef_saturating_add F acc (stake ! i)) (ef_num F 0) upper;
            lo_edge = ef_saturating_add F partition_lo lo_stake;
            hi_edge = ef_saturating_sub F partition_hi hi_stake
        in if lo_edge \<le> minority \<and> minority < hi_edge then Some pivot
           else if minority < lo_edge \<and> lower \<noteq> []
           then weighted_median F stake score lower minority partition_lo lo_edge
           else if hi_edge \<le> minority \<and> upper \<noteq> []
           then weighted_median F stake score upper minority hi_edge partition_hi
           else Some pivot)"
  by pat_completeness auto

lemma pivot_excluded:
  assumes "xs \<noteq> []" "\<not> P (xs ! (length xs div 2))"
  shows "length (filter P xs) < length xs"
proof -
  have "length xs div 2 < length xs" using assms(1) by (cases xs) simp_all
  then have "xs ! (length xs div 2) \<in> set xs" by (rule nth_mem)
  then show ?thesis using assms(2) by (rule length_filter_less)
qed

termination weighted_median
proof (relation "measure (\<lambda>(F, stake, score, part, r). length part)", goal_cases)
  case 1
  show ?case by simp
next
  case (2 F stake score part)
  then show ?case by (simp add: pivot_excluded)
next
  case (3 F stake score part)
  then show ?case by (simp add: pivot_excluded)
qed

declare weighted_median.simps [simp del]

text \<open>Column \<open>c\<close> of the rows with a positive stake.\<close>

definition weighted_median_col ::
    "epoch_fixed \<Rightarrow> int list \<Rightarrow> int list list \<Rightarrow> int \<Rightarrow> int list option" where
  "weighted_median_col F stake score majority =
     do {
       first_row \<leftarrow> idx score 0;
       let columns = length first_row;
       those (map (\<lambda>c. do {
         rows \<leftarrow> those (map (\<lambda>r. do {
                    row \<leftarrow> idx score r;
                    if columns = length row then Some (stake ! r, row ! c) else None
                  }) [0..<length stake]);
         let used = filter (\<lambda>(s, _). s > ef_num F 0) rows;
         if used = [] then Some (ef_num F 0)
         else (let use_stake = ef_normalize F (map fst used); use_score = map snd used;
                   stake_sum = ef_sum F use_stake;
                   minority = ef_saturating_sub F stake_sum majority
               in weighted_median F use_stake use_score [0..<length use_stake] minority (ef_num F 0)
                    stake_sum)
       }) [0..<columns])
     }"

definition weighted_median_col_sparse ::
    "epoch_fixed \<Rightarrow> int list \<Rightarrow> sparse_matrix \<Rightarrow> nat \<Rightarrow> int \<Rightarrow> int list option" where
  "weighted_median_col_sparse F stake score columns majority =
     do {
       let use_stake = ef_normalize F (filter (\<lambda>s. s > ef_num F 0) stake);
       let stake_sum = ef_sum F use_stake;
       let minority = ef_saturating_sub F stake_sum majority;
       use_rows \<leftarrow> those (map (\<lambda>r. do {
                      row \<leftarrow> idx score r;
                      if cols_lt columns row
                      then Some (set_cells (replicate columns (ef_num F 0)) row) else None
                    }) (filter (\<lambda>r. stake ! r > ef_num F 0) [0..<length stake]));
       those (map (\<lambda>c. weighted_median F use_stake (map (\<lambda>row. row ! c) use_rows)
                         [0..<length use_stake] minority (ef_num F 0) stake_sum) [0..<columns])
     }"

end
