(* ===== verification/Epoch_Arith.thy ===== *)
theory Epoch_Arith
  imports Epoch_Math
begin

text \<open>
  What the arithmetic of \<open>Epoch_Math\<close> computes. \<open>epoch_fixed_ok\<close> collects what the epoch relies on
  of the fixed-point crate; the locale \<open>epoch_arith\<close> is that interface, and inside it stand the
  facts about the vector and matrix operations: which lengths, signs and totals they keep. The
  bit-level arithmetic \<open>epoch_bits\<close> of the three types satisfies the interface.
\<close>

section \<open>The fixed-point crate\<close>

definition one32 :: int where "one32 = 4294967296"
definition one64 :: int where "one64 = 18446744073709551616"
definition i128_top :: int where "i128_top = 170141183460469231731687303715884105727"

definition nonneg :: "int list \<Rightarrow> bool" where
  "nonneg xs \<longleftrightarrow> (\<forall>x \<in> set xs. 0 \<le> x)"

definition epoch_fixed_ok :: "epoch_fixed \<Rightarrow> bool" where
  "epoch_fixed_ok F \<longleftrightarrow>
     (\<forall>k \<le> u16_max. ef_num F k = int k * one32) \<and>
     fx_le (ef_ops F) = (\<le>) \<and>
     (\<forall>a b. 0 \<le> a \<and> 0 \<le> b \<longrightarrow> ef_mul F a b = min i64_max (a * b div one32)) \<and>
     (\<forall>a b. 0 \<le> a \<and> 0 \<le> b \<longrightarrow> fx_checked_div (ef_ops F) a b =
        (if b = 0 \<or> i64_max < a * one32 div b then None else Some (a * one32 div b))) \<and>
     (\<forall>xs. nonneg xs \<and> sum_list xs \<le> i64_max \<longrightarrow> ef_sum F xs = sum_list xs) \<and>
     (\<forall>x. fx_to_u16 (ef_ops F) x \<le> u16_max) \<and>
     (\<forall>a b. 0 \<le> a \<and> 0 \<le> b \<longrightarrow> ef_saturating_add F a b = min i64_max (a + b)) \<and>
     (\<forall>a b. ef_saturating_add F a b \<le> i64_max) \<and>
     (\<forall>a b. 0 \<le> a \<and> a \<le> i64_max \<and> 0 \<le> b \<and> b \<le> i64_max \<longrightarrow> ef_saturating_sub F a b = a - b) \<and>
     (\<forall>a b. 0 \<le> a \<and> 0 \<le> b \<longrightarrow> ef_checked_mul F a b =
        (if a * b div one32 \<le> i64_max then Some (a * b div one32) else None)) \<and>
     (\<forall>a b. b \<noteq> 0 \<longrightarrow> ef_saturating_div F a b \<noteq> None) \<and>
     ef_of_int F (-100) \<noteq> 0 \<and>
     (\<forall>x y. ef_exp F x = Some y \<longrightarrow> 0 \<le> y) \<and>
     ef64_from F 0 = 0 \<and>
     (\<forall>k. int k \<le> i64_max \<longrightarrow> ef64_from_num F k = Some (int k * one64)) \<and>
     (\<forall>xs. nonneg xs \<and> sum_list xs \<le> i128_top \<longrightarrow> ef64_sum F xs = sum_list xs) \<and>
     (\<forall>a b. 0 \<le> a \<and> a \<le> b \<and> 0 < b \<longrightarrow> ef64_checked_div F a b = Some (a * one64 div b)) \<and>
     (\<forall>a b. 0 \<le> a \<and> 0 < b \<longrightarrow> ef64_saturating_div F a b = Some (min i128_top (a * one64 div b))) \<and>
     (\<forall>x. 0 \<le> x \<and> x div one32 \<le> i64_max \<longrightarrow> ef64_into_32 F x = Some (x div one32)) \<and>
     (\<forall>x. 0 \<le> x \<longrightarrow> ef64_to_32 F x = min i64_max (x div one32)) \<and>
     (\<forall>k \<le> u64_max. ef96_from F k = int k * one32) \<and>
     (\<forall>x. 0 \<le> x \<longrightarrow> ef96_of_32 F x = x) \<and>
     (\<forall>a b. 0 \<le> a \<and> 0 \<le> b \<longrightarrow> ef96_saturating_mul F a b = min i128_top (a * b div one32)) \<and>
     (\<forall>x. 0 \<le> x \<longrightarrow> ef96_to_u64 F x = min u64_max (nat (x div one32)))"

text \<open>
  The arithmetic of the three types on their bits: every result is rounded down and clamped to the
  range of the type, \<open>from_num\<close> is \<open>None\<close> out of range, and \<open>exp\<close> and \<open>ln\<close> report an error.
\<close>

definition epoch_bits :: epoch_fixed where
  "epoch_bits = \<lparr>
     ef_ops = \<lparr>fx_from = (\<lambda>k. min i64_max (int k * one32)),
       fx_saturating_mul = (\<lambda>a b. clamp i64_min i64_max (a * b div one32)),
       fx_checked_div = (\<lambda>a b. if b = 0 \<or> i64_max < a * one32 div b \<or> a * one32 div b < i64_min then None
                               else Some (a * one32 div b)),
       fx_round = (\<lambda>a. (a + 2147483648) div one32 * one32),
       fx_to_u16 = (\<lambda>x. nat (clamp 0 65535 (x div one32))), fx_le = (\<le>), fx_sum = sum_list\<rparr>,
     ef_of_int = (\<lambda>k. clamp i64_min i64_max (k * one32)), ef_half = 2147483648, ef_max_value = i64_max,
     ef_saturating_add = (\<lambda>a b. clamp i64_min i64_max (a + b)),
     ef_saturating_sub = (\<lambda>a b. clamp i64_min i64_max (a - b)),
     ef_saturating_neg = (\<lambda>a. clamp i64_min i64_max (- a)),
     ef_checked_mul = (\<lambda>a b. if i64_max < a * b div one32 \<or> a * b div one32 < i64_min then None
                             else Some (a * b div one32)),
     ef_saturating_div = (\<lambda>a b. if b = 0 then None else Some (clamp i64_min i64_max (a * one32 div b))),
     ef_to_u64 = (\<lambda>x. nat (max 0 (x div one32))), ef_exp = (\<lambda>_. None), ef_ln = (\<lambda>_. None),
     ef64_from = (\<lambda>k. min i128_top (int k * one64)),
     ef64_from_num = (\<lambda>k. if int k \<le> i64_max then Some (int k * one64) else None), ef64_sum = sum_list,
     ef64_checked_div = (\<lambda>a b. if b = 0 then None else Some (a * one64 div b)),
     ef64_saturating_div = (\<lambda>a b. if b = 0 then None else Some (min i128_top (a * one64 div b))),
     ef64_saturating_add = (\<lambda>a b. min i128_top (a + b)),
     ef64_saturating_mul = (\<lambda>a b. min i128_top (a * b div one64)),
     ef64_to_u64 = (\<lambda>x. nat (max 0 (x div one64))), ef64_to_32 = (\<lambda>x. clamp i64_min i64_max (x div one32)),
     ef64_into_32 = (\<lambda>x. if x div one32 \<le> i64_max \<and> i64_min \<le> x div one32 then Some (x div one32) else None),
     ef32_to_64 = (\<lambda>x. x * one32),
     ef96_from = (\<lambda>k. int k * one32), ef96_of_32 = (\<lambda>x. x),
     ef96_saturating_mul = (\<lambda>a b. min i128_top (a * b div one32)),
     ef96_to_u64 = (\<lambda>x. min u64_max (nat (x div one32)))\<rparr>"

lemma one32_pos [simp]: "0 < one32" "0 \<le> one32" "one32 \<noteq> 0" by (simp_all add: one32_def)
lemma one64_pos [simp]: "0 < one64" "0 \<le> one64" "one64 \<noteq> 0" by (simp_all add: one64_def)
lemma one64_square: "one64 = one32 * one32" by (simp add: one32_def one64_def)
lemma one32_le_max: "int k * one32 \<le> i64_max" if "k \<le> u16_max" for k
  using that by (simp add: one32_def i64_max_def u16_max_def)
lemma i64_max_nonneg [simp]: "0 \<le> i64_max" "\<not> i64_max < 0" by (simp_all add: i64_max_def)

lemma nonneg_Nil [simp]: "nonneg []" by (simp add: nonneg_def)
lemma nonneg_Cons [simp]: "nonneg (x # xs) \<longleftrightarrow> 0 \<le> x \<and> nonneg xs" by (simp add: nonneg_def)
lemma nonneg_append [simp]: "nonneg (xs @ ys) \<longleftrightarrow> nonneg xs \<and> nonneg ys" by (auto simp: nonneg_def)
lemma nonneg_nth: "nonneg xs \<Longrightarrow> i < length xs \<Longrightarrow> 0 \<le> xs ! i" by (simp add: nonneg_def)
lemma nonneg_replicate [simp]: "nonneg (replicate n 0)" by (simp add: nonneg_def)
lemma nonneg_update: "nonneg xs \<Longrightarrow> 0 \<le> a \<Longrightarrow> nonneg (xs[j := a])"
  using set_update_subset_insert[of xs j a] by (auto simp: nonneg_def)
lemma nonneg_filter: "nonneg xs \<Longrightarrow> nonneg (filter P xs)" by (simp add: nonneg_def)
lemma nonneg_sum: "nonneg xs \<Longrightarrow> 0 \<le> sum_list xs" by (induction xs) simp_all
lemma nonneg_member_le: "nonneg xs \<Longrightarrow> x \<in> set xs \<Longrightarrow> x \<le> sum_list xs"
  by (induction xs) (auto dest: nonneg_sum)
lemma nonneg_sum_0: "nonneg xs \<Longrightarrow> sum_list xs = 0 \<Longrightarrow> x \<in> set xs \<Longrightarrow> x = 0"
  using nonneg_member_le[of xs x] by (auto simp: nonneg_def)
lemma nonneg_sum_filter: "nonneg xs \<Longrightarrow> sum_list (filter P xs) \<le> sum_list xs"
  by (induction xs) (auto dest: nonneg_sum)

lemma sum_list_update_int: "k < length xs \<Longrightarrow> sum_list (xs[k := x]) = sum_list xs + x - xs ! k" for xs :: "int list"
  by (induction xs arbitrary: k) (auto split: nat.split)

lemma nonneg_sum_bound: "(\<And>x. x \<in> set xs \<Longrightarrow> x \<le> B) \<Longrightarrow> sum_list xs \<le> int (length xs) * B" for xs :: "int list"
proof (induction xs)
  case (Cons x xs)
  have "x \<le> B" "sum_list xs \<le> int (length xs) * B" using Cons by simp_all
  then show ?case by (simp add: algebra_simps)
qed simp

definition vec_ok :: "int list \<Rightarrow> bool" where
  "vec_ok xs \<longleftrightarrow> (\<forall>x \<in> set xs. 0 \<le> x \<and> x \<le> i64_max)"

lemma epoch_bits_ok: "epoch_fixed_ok epoch_bits"
  unfolding epoch_fixed_ok_def
proof (intro conjI allI impI, goal_cases)
  case (1 k)
  then show ?case using one32_le_max[of k] by (simp add: epoch_bits_def)
next
  case (3 a b)
  then have "0 \<le> a * b div one32" by (simp add: pos_imp_zdiv_nonneg_iff)
  then show ?case by (simp add: epoch_bits_def clamp_def i64_min_def i64_max_def min_def max_def)
next
  case (4 a b)
  then have "0 \<le> a * one32 div b" by (cases "b = 0") (simp_all add: pos_imp_zdiv_nonneg_iff)
  then show ?case by (simp add: epoch_bits_def i64_min_def)
next
  case (6 x)
  have "nat (x div one32) \<le> 65535" if "x div one32 < 65535" using that by linarith
  then show ?case by (simp add: epoch_bits_def clamp_def u16_max_def min_def max_def)
next
  case (9 a b)
  then show ?case by (simp add: epoch_bits_def clamp_def i64_min_def i64_max_def)
next
  case (10 a b)
  then have "0 \<le> a * b div one32" by (simp add: pos_imp_zdiv_nonneg_iff)
  then show ?case by (simp add: epoch_bits_def i64_min_def)
next
  case (12)
  show ?case by (simp add: epoch_bits_def clamp_def i64_min_def i64_max_def one32_def)
next
  case (19 x)
  then have "0 \<le> x div one32" by (simp add: pos_imp_zdiv_nonneg_iff)
  then show ?case using 19 by (simp add: epoch_bits_def i64_min_def)
next
  case (20 x)
  then have "0 \<le> x div one32" by (simp add: pos_imp_zdiv_nonneg_iff)
  then show ?case by (simp add: epoch_bits_def clamp_def i64_min_def i64_max_def min_def max_def)
qed (simp_all add: epoch_bits_def clamp_def i64_min_def i64_max_def i128_top_def one64_def u16_max_def min_def max_def)

section \<open>The interface and the scalar operations\<close>

lemma floor_mult_le: "0 < b \<Longrightarrow> (a div b) * b \<le> a" for a b :: int
  using div_mult_mod_eq[of a b] pos_mod_sign[of b a] by linarith

lemma floor_share_sum:
  assumes "nonneg xs" "sum_list xs \<le> S" "0 < S" "0 \<le> c"
  shows "sum_list (map (\<lambda>x. x * c div S) xs) \<le> c"
proof -
  have each: "(x * c div S) * S \<le> x * c" for x using assms(3) by (rule floor_mult_le)
  have "sum_list (map (\<lambda>x. x * c div S) xs) * S \<le> sum_list xs * c"
  proof (induction xs)
    case (Cons x xs)
    then show ?case using each[of x] by (simp add: algebra_simps)
  qed simp
  also have "\<dots> \<le> S * c" using assms(2,4) by (rule mult_right_mono)
  finally show ?thesis using assms(3) by (simp add: mult.commute)
qed

lemma sum_filter_split:
  "sum_list (map f xs) = sum_list (map f (filter Q xs)) + sum_list (map f (filter (\<lambda>x. \<not> Q x) xs))"
  for f :: "'a \<Rightarrow> int"
  by (induction xs) simp_all

lemma median_lower_part:
  fixes score :: "int list"
  assumes "v \<in> (!) score ` set (filter (\<lambda>i. score ! i < pivot) P)"
  shows "filter (\<lambda>i. score ! i < v) (filter (\<lambda>i. score ! i < pivot) P) = filter (\<lambda>i. score ! i < v) P"
    "filter (\<lambda>i. score ! i \<le> v) (filter (\<lambda>i. score ! i < pivot) P) = filter (\<lambda>i. score ! i \<le> v) P"
  using assms by (auto intro!: filter_cong)

lemma median_upper_part:
  fixes stake score :: "int list"
  assumes "v \<in> (!) score ` set (filter (\<lambda>i. pivot < score ! i) P)"
  shows "sum_list (map ((!) stake) (filter (\<lambda>i. score ! i < v) P)) =
      sum_list (map ((!) stake) (filter (\<lambda>i. score ! i \<le> pivot) P)) +
      sum_list (map ((!) stake) (filter (\<lambda>i. score ! i < v) (filter (\<lambda>i. pivot < score ! i) P)))"
    "sum_list (map ((!) stake) (filter (\<lambda>i. score ! i \<le> v) P)) =
      sum_list (map ((!) stake) (filter (\<lambda>i. score ! i \<le> pivot) P)) +
      sum_list (map ((!) stake) (filter (\<lambda>i. score ! i \<le> v) (filter (\<lambda>i. pivot < score ! i) P)))"
proof -
  have v: "pivot < v" using assms by auto
  have A: "filter (\<lambda>i. score ! i \<le> pivot) (filter (\<lambda>i. score ! i < v) P) = filter (\<lambda>i. score ! i \<le> pivot) P"
    "filter (\<lambda>i. score ! i \<le> pivot) (filter (\<lambda>i. score ! i \<le> v) P) = filter (\<lambda>i. score ! i \<le> pivot) P"
    "filter (\<lambda>i. \<not> score ! i \<le> pivot) (filter (\<lambda>i. score ! i < v) P) =
       filter (\<lambda>i. score ! i < v) (filter (\<lambda>i. pivot < score ! i) P)"
    "filter (\<lambda>i. \<not> score ! i \<le> pivot) (filter (\<lambda>i. score ! i \<le> v) P) =
       filter (\<lambda>i. score ! i \<le> v) (filter (\<lambda>i. pivot < score ! i) P)"
    using v by (auto intro!: filter_cong)
  show "sum_list (map ((!) stake) (filter (\<lambda>i. score ! i < v) P)) =
      sum_list (map ((!) stake) (filter (\<lambda>i. score ! i \<le> pivot) P)) +
      sum_list (map ((!) stake) (filter (\<lambda>i. score ! i < v) (filter (\<lambda>i. pivot < score ! i) P)))"
    by (subst sum_filter_split[where Q = "\<lambda>i. score ! i \<le> pivot"]) (simp only: A)
  show "sum_list (map ((!) stake) (filter (\<lambda>i. score ! i \<le> v) P)) =
      sum_list (map ((!) stake) (filter (\<lambda>i. score ! i \<le> pivot) P)) +
      sum_list (map ((!) stake) (filter (\<lambda>i. score ! i \<le> v) (filter (\<lambda>i. pivot < score ! i) P)))"
    by (subst sum_filter_split[where Q = "\<lambda>i. score ! i \<le> pivot"]) (simp only: A)
qed

section \<open>Well-formed matrices\<close>

text \<open>
  \<open>mat_ok n B m\<close>: \<open>m\<close> has \<open>n\<close> rows of at most \<open>n\<close> cells, in columns below \<open>n\<close>, with values between
  zero and \<open>B\<close>. \<open>rows_le\<close> bounds the total of each row.
\<close>

definition row_ok :: "nat \<Rightarrow> int \<Rightarrow> sparse_row \<Rightarrow> bool" where
  "row_ok n B row \<longleftrightarrow> length row \<le> n \<and> (\<forall>c \<in> set row. fst c < n \<and> 0 \<le> snd c \<and> snd c \<le> B)"

definition mat_ok :: "nat \<Rightarrow> int \<Rightarrow> sparse_matrix \<Rightarrow> bool" where
  "mat_ok n B m \<longleftrightarrow> length m = n \<and> (\<forall>row \<in> set m. row_ok n B row)"

definition rows_le :: "int \<Rightarrow> sparse_matrix \<Rightarrow> bool" where
  "rows_le B m \<longleftrightarrow> (\<forall>row \<in> set m. sum_list (map snd row) \<le> B)"

text \<open>The shape alone: \<open>n\<close> rows of at most \<open>n\<close> cells in columns below \<open>n\<close>.\<close>

definition shape_ok :: "nat \<Rightarrow> sparse_matrix \<Rightarrow> bool" where
  "shape_ok n m \<longleftrightarrow> length m = n \<and> (\<forall>row \<in> set m. length row \<le> n \<and> cols_lt n row)"

lemma row_ok_Nil [simp]: "row_ok n B []" by (simp add: row_ok_def)

lemma row_ok_cols: "row_ok n B row \<Longrightarrow> cols_lt n row"
  by (auto simp: row_ok_def cols_lt_def list_all_iff)

lemma row_ok_nonneg: "row_ok n B row \<Longrightarrow> nonneg (map snd row)"
  by (auto simp: row_ok_def nonneg_def)

lemma row_ok_filter: "row_ok n B row \<Longrightarrow> row_ok n B (filter P row)"
  by (auto simp: row_ok_def intro: order_trans[OF length_filter_le])

lemma row_ok_sum: "row_ok n B row \<Longrightarrow> 0 \<le> B \<Longrightarrow> sum_list (map snd row) \<le> int n * B"
proof -
  assume r: "row_ok n B row" "0 \<le> B"
  have "sum_list (map snd row) \<le> int (length row) * B"
    using nonneg_sum_bound[of "map snd row" B] r(1) by (auto simp: row_ok_def)
  also have "\<dots> \<le> int n * B" using r by (intro mult_right_mono) (simp_all add: row_ok_def)
  finally show ?thesis .
qed

lemma mat_ok_cols: "mat_ok n B m \<Longrightarrow> list_all (cols_lt n) m"
  by (auto simp: mat_ok_def list_all_iff row_ok_cols)

lemma mat_ok_shape: "mat_ok n B m \<Longrightarrow> shape_ok n m"
  using mat_ok_cols[of n B m] by (auto simp: mat_ok_def shape_ok_def row_ok_def list_all_iff)

lemma mat_ok_length: "mat_ok n B m \<Longrightarrow> length m = n"
  by (simp add: mat_ok_def)

lemma mat_ok_row: "mat_ok n B m \<Longrightarrow> row \<in> set m \<Longrightarrow> row_ok n B row"
  by (simp add: mat_ok_def)

lemma mat_ok_mono: "mat_ok n B m \<Longrightarrow> B \<le> C \<Longrightarrow> mat_ok n C m"
  by (force simp: mat_ok_def row_ok_def)

lemma mat_okI: "length m = n \<Longrightarrow> (\<And>row. row \<in> set m \<Longrightarrow> row_ok n B row) \<Longrightarrow> mat_ok n B m"
  by (simp add: mat_ok_def)

lemma mask_rows_ok:
  assumes "mat_ok n B m" "length msk = n"
  shows "\<exists>m'. mask_rows_sparse msk m = Some m' \<and> mat_ok n B m'"
  using assms by (auto simp: mask_rows_sparse_def mat_ok_def dest: set_zip_rightD)

lemma mask_diag_ok: "mat_ok n B m \<Longrightarrow> mat_ok n B (mask_diag_sparse m)"
  by (auto simp: mask_diag_sparse_def mat_ok_def in_set_enumerate_eq intro!: row_ok_filter)

lemma mask_diag_except_ok: "mat_ok n B m \<Longrightarrow> mat_ok n B (mask_diag_sparse_except_index m k)"
  by (auto simp: mask_diag_sparse_except_index_def mat_ok_def in_set_enumerate_eq intro!: row_ok_filter)

lemma those_map_Some: "(\<And>x. x \<in> set xs \<Longrightarrow> f x = Some (g x)) \<Longrightarrow> those (map f xs) = Some (map g xs)"
  by (induction xs) simp_all

lemma vec_mask_ok:
  assumes "mat_ok n B m" "length v1 = n" "length v2 = n"
  shows "\<exists>m'. vec_mask_sparse_matrix m v1 v2 f = Some m' \<and> mat_ok n B m'"
proof -
  have "vec_mask_sparse_matrix m v1 v2 f =
      Some (map (\<lambda>(i, row). filter (\<lambda>(j, _). \<not> f (v1 ! i) (v2 ! j)) row) (List.enumerate 0 m))"
    unfolding vec_mask_sparse_matrix_def using assms
    by (intro those_map_Some) (auto simp: in_set_enumerate_eq mat_ok_def intro!: row_ok_cols[of _ B])
  then show ?thesis using assms(1)
    by (auto simp: mat_ok_def in_set_enumerate_eq intro!: row_ok_filter)
qed

lemma scalar_mask_ok:
  assumes "mat_ok n B m" "length v = n"
  shows "\<exists>m'. scalar_vec_mask_sparse_matrix m k v f = Some m' \<and> mat_ok n B m'"
  using assms mat_ok_cols[OF assms(1)]
  by (auto simp: scalar_vec_mask_sparse_matrix_def mat_ok_def intro!: row_ok_filter)

lemma set_cells_length [simp]: "length (set_cells acc cells) = length acc"
  unfolding set_cells_def by (induction cells arbitrary: acc) auto

lemma set_cells_set: "set (set_cells acc cells) \<subseteq> set acc \<union> snd ` set cells"
  unfolding set_cells_def
proof (induction cells arbitrary: acc)
  case (Cons c cells)
  obtain j x where c: "c = (j, x)" by (cases c)
  show ?case using Cons[of "acc[j := x]"] set_update_subset_insert[of acc j x] by (auto simp: c)
qed simp

locale epoch_arith =
  fixes F :: epoch_fixed
  assumes ok: "epoch_fixed_ok F"
begin

lemma num: "k \<le> u16_max \<Longrightarrow> ef_num F k = int k * one32"
  using ok by (simp add: epoch_fixed_ok_def)

lemma num0 [simp]: "ef_num F 0 = 0" and num1 [simp]: "ef_num F 1 = one32" "ef_num F (Suc 0) = one32"
  and num_max [simp]: "ef_num F u16_max = 65535 * one32"
  using num[of 0] num[of 1] num[of u16_max] by (simp_all add: u16_max_def)

lemma mul: "0 \<le> a \<Longrightarrow> 0 \<le> b \<Longrightarrow> ef_mul F a b = min i64_max (a * b div one32)"
  using ok by (simp add: epoch_fixed_ok_def)

lemma mul_nonneg [simp]: "0 \<le> a \<Longrightarrow> 0 \<le> b \<Longrightarrow> 0 \<le> ef_mul F a b"
  by (simp add: mul pos_imp_zdiv_nonneg_iff)

lemma mul_le_max: "0 \<le> a \<Longrightarrow> 0 \<le> b \<Longrightarrow> ef_mul F a b \<le> i64_max"
  by (simp add: mul)

lemma mul_floor: "0 \<le> a \<Longrightarrow> 0 \<le> b \<Longrightarrow> ef_mul F a b * one32 \<le> a * b"
proof -
  assume "0 \<le> a" "0 \<le> b"
  then have "ef_mul F a b * one32 \<le> (a * b div one32) * one32" by (simp add: mul)
  also have "\<dots> \<le> a * b"
    by (rule floor_mult_le) simp
  finally show "ef_mul F a b * one32 \<le> a * b" .
qed

lemma mul_le: "0 \<le> a \<Longrightarrow> 0 \<le> b \<Longrightarrow> b \<le> one32 \<Longrightarrow> ef_mul F a b \<le> a"
proof -
  assume a: "0 \<le> a" "0 \<le> b" "b \<le> one32"
  have "ef_mul F a b * one32 \<le> a * one32"
    using mul_floor[OF a(1,2)] mult_left_mono[OF a(3,1)] by linarith
  then show "ef_mul F a b \<le> a" by simp
qed

lemma checked_div:
  "0 \<le> a \<Longrightarrow> 0 \<le> b \<Longrightarrow> fx_checked_div (ef_ops F) a b =
     (if b = 0 \<or> i64_max < a * one32 div b then None else Some (a * one32 div b))"
  using ok by (simp add: epoch_fixed_ok_def)

lemma safe_div_le: "0 \<le> a \<Longrightarrow> 0 < b \<Longrightarrow> ef_safe_div F a b \<le> a * one32 div b"
  by (simp add: fx_safe_div_def checked_div pos_imp_zdiv_nonneg_iff)

lemma safe_div_nonneg [simp]: "0 \<le> a \<Longrightarrow> 0 \<le> b \<Longrightarrow> 0 \<le> ef_safe_div F a b"
  by (cases "b = 0") (simp_all add: fx_safe_div_def checked_div pos_imp_zdiv_nonneg_iff)

lemma safe_div_le_one: "0 \<le> a \<Longrightarrow> a \<le> b \<Longrightarrow> ef_safe_div F a b \<le> one32"
proof (cases "b = 0")
  case False
  assume a: "0 \<le> a" "a \<le> b"
  have "a * one32 div b \<le> b * one32 div b"
    using a False by (intro zdiv_mono1 mult_right_mono) simp_all
  then show ?thesis using safe_div_le[of a b] a False by simp
qed (simp add: fx_safe_div_def checked_div)

lemma safe_div_le_max: "0 \<le> a \<Longrightarrow> 0 \<le> b \<Longrightarrow> ef_safe_div F a b \<le> i64_max"
  by (simp add: fx_safe_div_def checked_div)

lemma sum_exact: "nonneg xs \<Longrightarrow> sum_list xs \<le> i64_max \<Longrightarrow> ef_sum F xs = sum_list xs"
  using ok by (simp add: epoch_fixed_ok_def)

lemma add: "0 \<le> a \<Longrightarrow> 0 \<le> b \<Longrightarrow> ef_saturating_add F a b = min i64_max (a + b)"
  using ok by (simp add: epoch_fixed_ok_def)

lemma add_le_max: "ef_saturating_add F a b \<le> i64_max"
  using ok by (simp add: epoch_fixed_ok_def)

lemma add_nonneg [simp]: "0 \<le> a \<Longrightarrow> 0 \<le> b \<Longrightarrow> 0 \<le> ef_saturating_add F a b"
  by (simp add: add)

lemma sub: "0 \<le> a \<Longrightarrow> a \<le> i64_max \<Longrightarrow> 0 \<le> b \<Longrightarrow> b \<le> i64_max \<Longrightarrow> ef_saturating_sub F a b = a - b"
  using ok by (simp add: epoch_fixed_ok_def)

lemma checked_mul:
  "0 \<le> a \<Longrightarrow> 0 \<le> b \<Longrightarrow> ef_checked_mul F a b =
     (if a * b div one32 \<le> i64_max then Some (a * b div one32) else None)"
  using ok by (simp add: epoch_fixed_ok_def)

lemma to_u16: "fx_to_u16 (ef_ops F) x \<le> u16_max"
  using ok by (simp add: epoch_fixed_ok_def)

lemma sum64: "nonneg xs \<Longrightarrow> sum_list xs \<le> i128_top \<Longrightarrow> ef64_sum F xs = sum_list xs"
  and zero64 [simp]: "ef64_from F 0 = 0"
  and div64: "0 \<le> a \<Longrightarrow> a \<le> b \<Longrightarrow> 0 < b \<Longrightarrow> ef64_checked_div F a b = Some (a * one64 div b)"
  and to_32: "0 \<le> x \<Longrightarrow> ef64_to_32 F x = min i64_max (x div one32)"
  using ok by (simp_all add: epoch_fixed_ok_def)

lemma rao_share: "0 \<le> x \<Longrightarrow> x \<le> one32 \<Longrightarrow> k \<le> u64_max \<Longrightarrow>
    ef96_to_u64 F (ef96_saturating_mul F (ef96_of_32 F x) (ef96_from F k)) = nat (x * int k div one32)"
proof -
  assume x: "0 \<le> x" "x \<le> one32" "k \<le> u64_max"
  have k: "int k \<le> 18446744073709551615" using x(3) by (simp add: u64_max_def)
  have "x * (int k * one32) div one32 = x * int k" by (metis mult.assoc nonzero_mult_div_cancel_right one32_pos(3))
  moreover have "x * int k \<le> one32 * int k" using x(2) by (simp add: mult_right_mono)
  ultimately have *: "x * (int k * one32) div one32 = x * int k" "x * int k \<le> i128_top"
    "x * int k div one32 \<le> int k"
    using k zdiv_mono1[of "x * int k" "one32 * int k" one32] by (auto simp: one32_def i128_top_def)
  have "min i128_top (x * (int k * one32) div one32) = x * int k"
    using * by simp
  moreover have "min u64_max (nat (x * int k div one32)) = nat (x * int k div one32)"
    using *(3) x(3) by simp
  ultimately show ?thesis using ok x by (simp add: epoch_fixed_ok_def)
qed

lemma clamp_le_max: "ema_cell F d a v \<le> one32"
  by (simp add: ema_cell_def Let_def)

section \<open>Vectors\<close>

lemma normalize_length [simp]: "length (ef_normalize F xs) = length xs"
  by (simp add: inplace_normalize_def Let_def)

lemma normalize_ok:
  assumes "nonneg xs" "sum_list xs \<le> i64_max"
  shows "nonneg (ef_normalize F xs)" "sum_list (ef_normalize F xs) \<le> one32"
proof -
  let ?S = "sum_list xs"
  have S: "ef_sum F xs = ?S" "0 \<le> ?S" using assms by (simp_all add: sum_exact nonneg_sum)
  show "nonneg (ef_normalize F xs)"
    using assms(1) S by (auto simp: inplace_normalize_def Let_def nonneg_def)
  show "sum_list (ef_normalize F xs) \<le> one32"
  proof (cases "?S = 0")
    case False
    have "sum_list (map (\<lambda>x. ef_safe_div F x ?S) xs) \<le> sum_list (map (\<lambda>x. x * one32 div ?S) xs)"
      using assms(1) S(2) False by (intro sum_list_mono safe_div_le) (auto simp: nonneg_def)
    also have "\<dots> \<le> one32" using assms(1) S(2) False by (intro floor_share_sum) simp_all
    finally show ?thesis using False S(1) by (simp add: inplace_normalize_def Let_def)
  qed (use S(1) in \<open>simp add: inplace_normalize_def\<close>)
qed

lemma normalize_using_sum_ok:
  assumes "nonneg xs" "sum_list xs \<le> S"
  shows "nonneg (inplace_normalize_using_sum F xs S)"
    "0 < S \<Longrightarrow> sum_list (inplace_normalize_using_sum F xs S) \<le> sum_list (map (\<lambda>x. x * one32 div S) xs)"
proof -
  have S: "0 \<le> S" using assms nonneg_sum[OF assms(1)] by simp
  then show "nonneg (inplace_normalize_using_sum F xs S)"
    using assms(1) by (auto simp: inplace_normalize_using_sum_def nonneg_def)
  assume "0 < S"
  then show "sum_list (inplace_normalize_using_sum F xs S) \<le> sum_list (map (\<lambda>x. x * one32 div S) xs)"
    using assms(1)
    by (auto simp: inplace_normalize_using_sum_def nonneg_def intro!: sum_list_mono safe_div_le)
qed

section \<open>The median\<close>

lemma foldl_add_exact:
  assumes "\<And>i. i \<in> set xs \<Longrightarrow> 0 \<le> f i" "0 \<le> acc" "acc + sum_list (map f xs) \<le> i64_max"
  shows "foldl (\<lambda>a i. ef_saturating_add F a (f i)) acc xs = acc + sum_list (map f xs)"
  using assms
proof (induction xs arbitrary: acc)
  case (Cons x xs)
  have "0 \<le> sum_list (map f xs)" using Cons.prems(1) by (intro sum_list_nonneg) auto
  then have "ef_saturating_add F acc (f x) = acc + f x" using Cons.prems by (simp add: add)
  then show ?case using Cons by simp
qed simp

lemma weighted_median_step:
  assumes "length stake = length score" "nonneg stake" "\<forall>i \<in> set P. i < length score"
    and "0 \<le> lo" "hi \<le> i64_max" "hi = lo + sum_list (map ((!) stake) P)" "1 < length P"
    and pivot: "pivot = score ! (P ! (length P div 2))"
    and lower: "lower = filter (\<lambda>i. score ! i < pivot) P"
    and upper: "upper = filter (\<lambda>i. pivot < score ! i) P"
    and lo_edge: "lo_edge = lo + sum_list (map ((!) stake) lower)"
    and hi_edge: "hi_edge = lo + sum_list (map ((!) stake) (filter (\<lambda>i. score ! i \<le> pivot) P))"
  shows "weighted_median F stake score P minority lo hi =
      (if lo_edge \<le> minority \<and> minority < hi_edge then Some pivot
       else if minority < lo_edge \<and> lower \<noteq> [] then weighted_median F stake score lower minority lo lo_edge
       else if hi_edge \<le> minority \<and> upper \<noteq> [] then weighted_median F stake score upper minority hi_edge hi
       else Some pivot)"
    "lo_edge \<le> hi" "hi = hi_edge + sum_list (map ((!) stake) upper)" "0 \<le> hi_edge"
proof -
  let ?w = "\<lambda>Q. sum_list (map ((!) stake) (filter Q P))"
  have nn: "0 \<le> stake ! i" if "i \<in> set P" for i
    using that assms(1-3) by (simp add: nonneg_nth)
  have pos: "0 \<le> ?w Q" for Q using nn by (intro sum_list_nonneg) auto
  have parts: "sum_list (map ((!) stake) P) = ?w (\<lambda>i. score ! i < pivot) + ?w (\<lambda>i. \<not> score ! i < pivot)"
    "sum_list (map ((!) stake) P) = ?w (\<lambda>i. pivot < score ! i) + ?w (\<lambda>i. score ! i \<le> pivot)"
    using sum_filter_split[of "(!) stake" P "\<lambda>i. score ! i < pivot"]
      sum_filter_split[of "(!) stake" P "\<lambda>i. pivot < score ! i"] by (simp_all add: not_less)
  note bounds = parts pos[of "\<lambda>i. \<not> score ! i < pivot"] pos[of "\<lambda>i. score ! i < pivot"]
    pos[of "\<lambda>i. score ! i \<le> pivot"] pos[of "\<lambda>i. pivot < score ! i"] assms(4-6)
  show "lo_edge \<le> hi" "hi = hi_edge + sum_list (map ((!) stake) upper)" "0 \<le> hi_edge"
    using bounds by (simp_all add: lo_edge hi_edge lower upper)
  have stakes: "foldl (\<lambda>acc i. ef_saturating_add F acc (stake ! i)) 0 lower = sum_list (map ((!) stake) lower)"
    "foldl (\<lambda>acc i. ef_saturating_add F acc (stake ! i)) 0 upper = sum_list (map ((!) stake) upper)"
    using nn bounds foldl_add_exact[of lower "(!) stake" 0] foldl_add_exact[of upper "(!) stake" 0]
    by (auto simp: lower upper)
  have edges: "ef_saturating_add F lo (sum_list (map ((!) stake) lower)) = lo_edge"
    "ef_saturating_sub F hi (sum_list (map ((!) stake) upper)) = hi_edge"
    using bounds by (simp_all add: add sub lo_edge hi_edge lower upper)
  show "weighted_median F stake score P minority lo hi =
      (if lo_edge \<le> minority \<and> minority < hi_edge then Some pivot
       else if minority < lo_edge \<and> lower \<noteq> [] then weighted_median F stake score lower minority lo lo_edge
       else if hi_edge \<le> minority \<and> upper \<noteq> [] then weighted_median F stake score upper minority hi_edge hi
       else Some pivot)"
    using assms(1,3,7) stakes edges unfolding pivot lower upper
    by (subst weighted_median.simps) (auto simp: list_all_iff Let_def simp del: weighted_median.simps)
qed

lemma weighted_median_partition:
  assumes "length stake = length score" "nonneg stake" "\<forall>i \<in> set P. i < length score"
    and "0 \<le> lo" "hi \<le> i64_max" "hi = lo + sum_list (map ((!) stake) P)" "lo \<le> minority" "minority < hi"
  shows "\<exists>v. weighted_median F stake score P minority lo hi = Some v \<and> v \<in> (!) score ` set P \<and>
    lo + sum_list (map ((!) stake) (filter (\<lambda>i. score ! i < v) P)) \<le> minority \<and>
    minority < lo + sum_list (map ((!) stake) (filter (\<lambda>i. score ! i \<le> v) P))"
  using assms(3-)
proof (induction "length P" arbitrary: P lo hi rule: less_induct)
  case less
  have ne: "P \<noteq> []" using less.prems(4-6) by auto
  show ?case
  proof (cases "length P = 1")
    case True
    then obtain i where P: "P = [i]" by (cases P) simp_all
    then show ?thesis using less.prems by (simp add: weighted_median.simps[of F stake score "[i]"] idx_def)
  next
    case False
    then have big: "1 < length P" using ne by (cases P) auto
    define pivot where "pivot = score ! (P ! (length P div 2))"
    define lower where "lower = filter (\<lambda>i. score ! i < pivot) P"
    define upper where "upper = filter (\<lambda>i. pivot < score ! i) P"
    define lo_edge where "lo_edge = lo + sum_list (map ((!) stake) lower)"
    define hi_edge where "hi_edge = lo + sum_list (map ((!) stake) (filter (\<lambda>i. score ! i \<le> pivot) P))"
    note step = weighted_median_step[OF assms(1,2) less.prems(1-4) big pivot_def lower_def upper_def lo_edge_def hi_edge_def]
    have mid: "P ! (length P div 2) \<in> set P" using ne by (intro nth_mem) (cases P; simp)
    have short: "length lower < length P" "length upper < length P"
      using pivot_excluded[OF ne, of "\<lambda>i. score ! i < pivot"] pivot_excluded[OF ne, of "\<lambda>i. pivot < score ! i"]
      by (simp_all add: lower_def upper_def pivot_def)
    consider "lo_edge \<le> minority \<and> minority < hi_edge" | "minority < lo_edge" | "lo_edge \<le> minority" "hi_edge \<le> minority"
      by linarith
    then show ?thesis
    proof cases
      case 1
      then show ?thesis using mid step(1) by (auto simp: pivot_def lo_edge_def hi_edge_def lower_def)
    next
      case 2
      then have "lower \<noteq> []" using less.prems(5) by (auto simp: lo_edge_def)
      then show ?thesis
        using less.hyps[OF short(1), of lo lo_edge] less.prems 2 step(1,2)
          median_lower_part[where score = score and pivot = pivot and P = P] by (auto simp: lower_def lo_edge_def)
    next
      case 3
      then have "upper \<noteq> []" using less.prems(6) step(3) by auto
      moreover have "\<exists>v. weighted_median F stake score upper minority hi_edge hi = Some v \<and> v \<in> (!) score ` set upper \<and>
        hi_edge + sum_list (map ((!) stake) (filter (\<lambda>i. score ! i < v) upper)) \<le> minority \<and>
        minority < hi_edge + sum_list (map ((!) stake) (filter (\<lambda>i. score ! i \<le> v) upper))"
        using less.prems 3 step(3,4) by (intro less.hyps[OF short(2)]) (auto simp: upper_def)
      ultimately show ?thesis
        using 3 step(1) median_upper_part[where stake = stake and score = score and pivot = pivot and P = P]
        by (auto simp: upper_def hi_edge_def)
    qed
  qed
qed

lemma weighted_median_total:
  assumes "length stake = length score" "\<forall>i \<in> set P. i < length score"
  shows "\<exists>v. weighted_median F stake score P minority lo hi = Some v \<and> (v \<in> set score \<or> v = 0)"
  using assms(2)
proof (induction "length P" arbitrary: P lo hi rule: less_induct)
  case less
  show ?case
  proof (cases "length P \<le> 1")
    case True
    then consider "P = []" | i where "P = [i]" by (cases P) auto
    then show ?thesis using less.prems
      by cases (auto simp: weighted_median.simps[of F stake score "[]"] weighted_median.simps[of F stake score "[_]"] idx_def)
  next
    case False
    then have ne: "P \<noteq> []" by auto
    define pivot where "pivot = score ! (P ! (length P div 2))"
    have mid: "pivot \<in> set score" using ne less.prems nth_mem[of "length P div 2" P] by (cases P) (auto simp: pivot_def)
    have "\<exists>v. weighted_median F stake score (filter (\<lambda>i. score ! i < pivot) P) minority lo h = Some v \<and> (v \<in> set score \<or> v = 0)"
      "\<exists>v. weighted_median F stake score (filter (\<lambda>i. pivot < score ! i) P) minority l hi = Some v \<and> (v \<in> set score \<or> v = 0)" for l h
      using less.prems pivot_excluded[OF ne, of "\<lambda>i. score ! i < pivot"] pivot_excluded[OF ne, of "\<lambda>i. pivot < score ! i"]
      by (auto intro!: less.hyps simp: pivot_def)
    then show ?thesis
      using ne False assms(1) less.prems mid
      by (subst weighted_median.simps) (simp add: list_all_iff Let_def pivot_def)
  qed
qed

section \<open>Sparse matrices\<close>

lemma add_cells_length [simp]: "length (add_cells F acc cells) = length acc"
  unfolding add_cells_def by (induction cells arbitrary: acc) auto

lemma add_cells_Cons: "add_cells F acc ((j, x) # cells) = add_cells F (acc[j := ef_saturating_add F (acc ! j) x]) cells"
  by (simp add: add_cells_def)

lemma add_cells_le_max: "(\<And>x. x \<in> set acc \<Longrightarrow> x \<le> i64_max) \<Longrightarrow> y \<in> set (add_cells F acc cells) \<Longrightarrow> y \<le> i64_max"
proof (induction cells arbitrary: acc)
  case (Cons c cells)
  obtain j x where c: "c = (j, x)" by (cases c)
  let ?acc = "acc[j := ef_saturating_add F (acc ! j) x]"
  have "z \<le> i64_max" if "z \<in> set ?acc" for z
    using that Cons.prems(1) add_le_max set_update_subset_insert[of acc j] by fastforce
  then show ?case using Cons.IH[of ?acc] Cons.prems(2) by (simp add: c add_cells_Cons)
qed (simp add: add_cells_def)

lemma add_cells_nonneg:
  assumes "nonneg acc" "\<forall>c \<in> set cells. fst c < length acc \<and> 0 \<le> snd c"
  shows "nonneg (add_cells F acc cells)" "sum_list (add_cells F acc cells) \<le> sum_list acc + sum_list (map snd cells)"
  using assms
proof (induction cells arbitrary: acc)
  case Nil
  { case 1 then show ?case by (simp add: add_cells_def) next case 2 then show ?case by (simp add: add_cells_def) }
next
  case (Cons c cells)
  obtain j x where c: "c = (j, x)" by (cases c)
  { case 1
    let ?a = "ef_saturating_add F (acc ! j) x"
    from 1 have "nonneg (acc[j := ?a])" by (simp add: c nonneg_update nonneg_nth)
    then show ?case using Cons.IH(1)[of "acc[j := ?a]"] 1 by (simp add: c add_cells_Cons) }
  { case 2
    let ?a = "ef_saturating_add F (acc ! j) x"
    from 2 have nn: "nonneg (acc[j := ?a])" by (simp add: c nonneg_update nonneg_nth)
    have "sum_list (acc[j := ?a]) = sum_list acc + ?a - acc ! j" using 2 by (simp add: c sum_list_update_int)
    moreover have "?a \<le> acc ! j + x" using 2 by (simp add: c add nonneg_nth)
    moreover have "sum_list (add_cells F (acc[j := ?a]) cells) \<le> sum_list (acc[j := ?a]) + sum_list (map snd cells)"
      using Cons.IH(2)[of "acc[j := ?a]"] 2 nn by simp
    ultimately show ?case by (simp add: c add_cells_Cons) }
qed

lemma add_slot:
  assumes "vec_ok acc" "k < length acc" "0 \<le> x" "x \<le> i64_max"
  shows "vec_ok (acc[k := ef_saturating_add F (acc ! k) x])"
    "acc ! k \<le> ef_saturating_add F (acc ! k) x" "x \<le> ef_saturating_add F (acc ! k) x"
proof -
  have k: "0 \<le> acc ! k" "acc ! k \<le> i64_max" using assms(1,2) by (auto simp: vec_ok_def)
  then show "acc ! k \<le> ef_saturating_add F (acc ! k) x" "x \<le> ef_saturating_add F (acc ! k) x"
    using assms(3,4) by (simp_all add: add)
  show "vec_ok (acc[k := ef_saturating_add F (acc ! k) x])"
    using assms(1,3) k set_update_subset_insert[of acc k "ef_saturating_add F (acc ! k) x"]
    by (auto simp: vec_ok_def add_le_max)
qed

lemma add_cells_ge:
  assumes "vec_ok acc" "\<forall>c \<in> set cells. fst c < length acc \<and> 0 \<le> snd c \<and> snd c \<le> i64_max"
  shows "i < length acc \<Longrightarrow> acc ! i \<le> add_cells F acc cells ! i"
    and "(j, v) \<in> set cells \<Longrightarrow> v \<le> add_cells F acc cells ! j"
  using assms
proof (induction cells arbitrary: acc i)
  case (Cons c cells)
  obtain k x where c: "c = (k, x)" by (cases c)
  { case 1
    let ?acc = "acc[k := ef_saturating_add F (acc ! k) x]"
    note slot = add_slot[of acc k x]
    have "?acc ! i \<le> add_cells F ?acc cells ! i" using 1 slot(1) by (intro Cons.IH(1)) (simp_all add: c)
    then show ?case using 1 slot(2) by (cases "i = k") (auto simp: c add_cells_Cons) }
  { case 2
    let ?acc = "acc[k := ef_saturating_add F (acc ! k) x]"
    note slot = add_slot[of acc k x]
    have "?acc ! k \<le> add_cells F ?acc cells ! k" using 2 slot(1) by (intro Cons.IH(1)) (simp_all add: c)
    moreover have "v \<le> add_cells F ?acc cells ! j" if "(j, v) \<in> set cells"
      using that 2 slot(1) by (intro Cons.IH(2)) (simp_all add: c)
    ultimately show ?case using 2 slot(3) by (auto simp: c add_cells_Cons) }
qed (simp_all add: add_cells_def)

lemma row_normalize_ok:
  assumes "mat_ok n B m" "0 \<le> B" "int n * B \<le> i64_max"
  shows "mat_ok n one32 (inplace_row_normalize_sparse F m)" "rows_le one32 (inplace_row_normalize_sparse F m)"
proof -
  have row: "row_ok n one32 r' \<and> sum_list (map snd r') \<le> one32"
    if "row \<in> set m" "r' = (let rsum = ef_sum F (map snd row)
                in if rsum > ef_num F 0 then map (\<lambda>(j, v). (j, ef_safe_div F v rsum)) row else row)" for row r'
  proof -
    let ?S = "sum_list (map snd row)"
    have r: "row_ok n B row" using that(1) assms(1) by (rule mat_ok_row[rotated])
    have S: "ef_sum F (map snd row) = ?S" "0 \<le> ?S"
      using row_ok_nonneg[OF r] row_ok_sum[OF r assms(2)] assms(3) by (simp_all add: sum_exact nonneg_sum)
    show ?thesis
    proof (cases "0 < ?S")
      case True
      have "v \<le> ?S" if "(j, v) \<in> set row" for j v
        using that nonneg_member_le[OF row_ok_nonneg[OF r], of v] by force
      moreover have "sum_list (map (\<lambda>x. ef_safe_div F x ?S) (map snd row)) \<le> sum_list (map (\<lambda>x. x * one32 div ?S) (map snd row))"
        using row_ok_nonneg[OF r] True by (intro sum_list_mono safe_div_le) (auto simp: nonneg_def)
      moreover have "\<dots> \<le> one32" using row_ok_nonneg[OF r] True by (intro floor_share_sum) simp_all
      ultimately show ?thesis using r True S that(2)
        by (auto simp: row_ok_def o_def case_prod_beta intro!: safe_div_nonneg safe_div_le_one)
    next
      case False
      then have "?S = 0" using S(2) by simp
      then have "snd c = 0" if "c \<in> set row" for c
        using that nonneg_sum_0[OF row_ok_nonneg[OF r], of "snd c"] by force
      then show ?thesis using r False S that(2) by (auto simp: row_ok_def)
    qed
  qed
  show "mat_ok n one32 (inplace_row_normalize_sparse F m)"
    using assms(1) row by (auto simp: inplace_row_normalize_sparse_def mat_ok_def)
  show "rows_le one32 (inplace_row_normalize_sparse F m)"
    using row by (auto simp: inplace_row_normalize_sparse_def rows_le_def)
qed

lemma mul_row_sum:
  assumes "0 \<le> a" "nonneg xs" "sum_list xs \<le> one32"
  shows "sum_list (map (ef_mul F a) xs) \<le> a"
proof -
  have "sum_list (map (ef_mul F a) xs) * one32 \<le> a * sum_list xs"
    using assms(2)
  proof (induction xs)
    case (Cons x xs)
    then show ?case using mul_floor[OF assms(1), of x] by (simp add: algebra_simps)
  qed simp
  also have "\<dots> \<le> a * one32" using assms(1,3) by (rule mult_left_mono[rotated])
  finally show ?thesis by simp
qed

lemma matmul_rows:
  assumes "nonneg acc" "\<forall>(i, row) \<in> set es. row_ok (length acc) B row \<and> sum_list (map snd row) \<le> one32 \<and> 0 \<le> vector ! i"
  shows "let r = foldl (\<lambda>result (i, row). add_cells F result (map (\<lambda>(j, v). (j, ef_mul F (vector ! i) v)) row)) acc es
    in nonneg r \<and> length r = length acc \<and> sum_list r \<le> sum_list acc + sum_list (map (\<lambda>(i, row). vector ! i) es)"
  using assms
proof (induction es arbitrary: acc)
  case (Cons e es)
  obtain i row where e: "e = (i, row)" by (cases e)
  let ?cells = "map (\<lambda>(j, v). (j, ef_mul F (vector ! i) v)) row"
  have row: "row_ok (length acc) B row" "sum_list (map snd row) \<le> one32" "0 \<le> vector ! i"
    using Cons.prems(2) by (auto simp: e)
  have cells: "\<forall>c \<in> set ?cells. fst c < length acc \<and> 0 \<le> snd c" using row(1,3) by (auto simp: row_ok_def)
  have eq: "map snd ?cells = map (ef_mul F (vector ! i)) (map snd row)" by (simp add: case_prod_beta o_def)
  have "sum_list (map snd ?cells) \<le> vector ! i"
    unfolding eq by (rule mul_row_sum[OF row(3) row_ok_nonneg[OF row(1)] row(2)])
  then show ?case
    using Cons.IH[of "add_cells F acc ?cells"] Cons.prems add_cells_nonneg[OF Cons.prems(1) cells]
    by (auto simp: e Let_def)
qed (simp add: Let_def)

lemma matmul_sparse_ok:
  assumes "mat_ok n B m" "rows_le one32 m" "length vector = n" "nonneg vector"
  shows "\<exists>r. matmul_sparse F m vector n = Some r \<and> length r = n \<and> nonneg r \<and> sum_list r \<le> sum_list vector"
proof -
  let ?es = "List.enumerate 0 m"
  have n: "length m = n" using assms(1) by (rule mat_ok_length)
  have es: "row \<in> set m \<and> i < n" if "(i, row) \<in> set ?es" for i row
    using that n by (auto simp: in_set_enumerate_eq)
  have guard: "\<not> list_ex (\<lambda>(i, row). (row \<noteq> [] \<and> i \<ge> length vector) \<or> \<not> cols_lt n row) ?es"
    using es assms(3) mat_ok_row[OF assms(1)] row_ok_cols by (fastforce simp: list_ex_iff)
  have "map (\<lambda>(i, row). vector ! i) ?es = map ((!) vector) (map fst ?es)"
    unfolding map_map by (rule map_cong) auto
  also have "\<dots> = vector" using n assms(3) map_nth[of vector] by simp
  finally have total: "sum_list (map (\<lambda>(i, row). vector ! i) ?es) = sum_list vector" by simp
  have "\<forall>(i, row) \<in> set ?es. row_ok (length (replicate n (0::int))) B row \<and> sum_list (map snd row) \<le> one32 \<and> 0 \<le> vector ! i"
    using es assms mat_ok_row[OF assms(1)] by (fastforce simp: rows_le_def nonneg_nth)
  from matmul_rows[OF nonneg_replicate this] total guard
  show ?thesis by (auto simp: matmul_sparse_def Let_def sum_list_replicate)
qed

lemma filter_index: "map ((!) xs) (filter (\<lambda>i. P (xs ! i)) [0..<length xs]) = filter P xs"
proof -
  have "map ((!) xs) (filter (\<lambda>i. P (xs ! i)) [0..<length xs]) = filter P (map ((!) xs) [0..<length xs])"
    by (simp add: filter_map o_def)
  then show ?thesis by (simp add: map_nth)
qed

lemma median_col_ok:
  assumes "mat_ok n B m" "length stake = n"
  shows "\<exists>r. weighted_median_col_sparse F stake m n k = Some r \<and> length r = n \<and> nonneg r"
proof -
  let ?rows = "filter (\<lambda>r. stake ! r > 0) [0..<length stake]"
  let ?dense = "\<lambda>r. set_cells (replicate n 0) (m ! r)"
  let ?use = "ef_normalize F (filter (\<lambda>s. s > 0) stake)"
  let ?col = "\<lambda>c. map (\<lambda>row. row ! c) (map ?dense ?rows)"
  have cols: "cols_lt n (m ! r)" if "r < n" for r
    using that mat_ok_length[OF assms(1)] by (intro row_ok_cols[OF mat_ok_row[OF assms(1)]]) simp
  have rows: "those (map (\<lambda>r. idx m r \<bind> (\<lambda>row. if cols_lt n row then Some (set_cells (replicate n 0) row) else None)) ?rows)
      = Some (map ?dense ?rows)"
    using cols by (intro those_map_Some) (simp add: idx_def assms(2) mat_ok_length[OF assms(1)])
  have len: "length ?use = length ?rows"
    using filter_index[of stake "\<lambda>s. s > 0"] by (metis length_map normalize_length)
  have nn: "0 \<le> v" if v: "v \<in> set (?col c)" and c: "c < n" for v c
  proof -
    obtain r where r: "r < n" "v = ?dense r ! c" using v assms(2) by auto
    then have "v \<in> set (?dense r)" using c by simp
    then have "v \<in> set (replicate n 0) \<union> snd ` set (m ! r)" by (rule subsetD[OF set_cells_set])
    then show ?thesis using mat_ok_row[OF assms(1), of "m ! r"] r(1) mat_ok_length[OF assms(1)]
      by (auto simp: row_ok_def)
  qed
  define med where "med c = weighted_median F ?use (?col c) [0..<length ?use] (ef_saturating_sub F (ef_sum F ?use) k) 0 (ef_sum F ?use)" for c
  have med: "\<exists>v. med c = Some v \<and> 0 \<le> v" if "c < n" for c
  proof -
    have "length ?use = length (?col c)" "\<forall>i \<in> set [0..<length ?use]. i < length (?col c)" using len by simp_all
    from weighted_median_total[OF this] obtain v where "med c = Some v" "v \<in> set (?col c) \<or> v = 0"
      unfolding med_def by blast
    then show ?thesis using nn[OF _ that] by blast
  qed
  have "weighted_median_col_sparse F stake m n k = those (map med [0..<n])"
    unfolding weighted_median_col_sparse_def Let_def num0 rows by (simp add: med_def[abs_def])
  also have "\<dots> = Some (map (\<lambda>c. the (med c)) [0..<n])"
    by (rule those_map_Some) (use med in force)
  finally show ?thesis using med by (force simp: nonneg_def)
qed

lemma col_clip_ok:
  assumes "mat_ok n B m" "rows_le S m" "length t = n" "nonneg t"
  shows "\<exists>m'. col_clip_sparse F m t = Some m' \<and> mat_ok n B m' \<and> rows_le S m'"
proof -
  let ?clip = "\<lambda>row. concat (map (\<lambda>(j, v). if t ! j < v then (if 0 < t ! j then [(j, t ! j)] else []) else [(j, v)]) row)"
  have row: "row_ok n B (?clip row) \<and> sum_list (map snd (?clip row)) \<le> sum_list (map snd row) \<and> length (?clip row) \<le> length row"
    if "row_ok n B row" for row
    using that
  proof (induction row)
    case (Cons c row)
    have "row_ok n B row" using Cons.prems by (auto simp: row_ok_def)
    from Cons.IH[OF this] show ?case using Cons.prems assms(3,4)
      by (cases c) (auto simp: row_ok_def nonneg_nth)
  qed simp
  then have "mat_ok n B (map ?clip m)" "rows_le S (map ?clip m)"
    using assms(1,2) by (auto simp: mat_ok_def rows_le_def intro: order_trans)
  then show ?thesis using mat_ok_cols[OF assms(1)] assms(3) unfolding col_clip_sparse_def num0 by simp
qed

lemma positive_cells_ok:
  assumes "length row = n" "\<forall>v \<in> set row. v \<le> B"
  shows "row_ok n B (positive_cells F row)"
proof -
  have "length (positive_cells F row) \<le> n"
    using assms(1) length_filter_le[of _ "List.enumerate 0 row"] by (simp add: positive_cells_def)
  then show ?thesis using assms
    by (auto simp: row_ok_def positive_cells_def in_set_enumerate_eq)
qed

lemma interpolate_ok:
  assumes "mat_ok n i64_max m1" "mat_ok n i64_max m2"
  shows "\<exists>m'. interpolate_sparse F m1 m2 n ratio = Some m' \<and> mat_ok n i64_max m'"
  using assms
  by (auto simp: interpolate_sparse_def mat_ok_def Let_def lerp_def add_le_max intro!: positive_cells_ok)

lemma col_scale_row:
  assumes "row_ok n i64_max row" "\<forall>(j, v) \<in> set row. v \<le> col ! j" "length col = n" "nonneg col"
  shows "row_ok n one32 (map (\<lambda>(j, v). if col ! j = 0 then (j, v) else (j, ef_safe_div F v (col ! j))) row)"
proof -
  have "0 \<le> w \<and> w \<le> one32 \<and> j < n" if c: "(j, v) \<in> set row"
    and w: "w = snd (if col ! j = 0 then (j, v) else (j, ef_safe_div F v (col ! j)))" for j v w
  proof -
    have v: "j < n" "0 \<le> v" "v \<le> col ! j" using c assms(1,2) by (auto simp: row_ok_def)
    then have "0 \<le> col ! j" using assms(3,4) by (simp add: nonneg_nth)
    then show ?thesis using v w safe_div_le_one[OF v(2,3)] by auto
  qed
  then show ?thesis using assms(1) by (fastforce simp: row_ok_def)
qed

lemma col_normalize_ok:
  assumes "mat_ok n i64_max m"
  shows "\<exists>m'. inplace_col_normalize_sparse F m n = Some m' \<and> mat_ok n one32 m'"
proof -
  let ?col = "add_cells F (replicate n 0) (concat m)"
  have cells: "\<forall>c \<in> set (concat m). fst c < length (replicate n (0::int)) \<and> 0 \<le> snd c \<and> snd c \<le> i64_max"
    using mat_ok_row[OF assms] by (fastforce simp: row_ok_def)
  have ge: "v \<le> ?col ! j" if "(j, v) \<in> set (concat m)" for j v
    by (rule add_cells_ge(2)[OF _ cells that]) (simp add: vec_ok_def)
  have nn: "nonneg ?col" using cells by (intro add_cells_nonneg(1)) auto
  have row: "row_ok n one32 (map (\<lambda>(j, v). if ?col ! j = 0 then (j, v) else (j, ef_safe_div F v (?col ! j))) row)"
    if "row \<in> set m" for row
    using that ge nn mat_ok_row[OF assms that] by (intro col_scale_row) auto
  have "mat_ok n one32 (col_scale F ?col m)"
    unfolding col_scale_def num0 using row mat_ok_length[OF assms] by (intro mat_okI) auto
  then show ?thesis using mat_ok_cols[OF assms] by (simp add: inplace_col_normalize_sparse_def)
qed

lemma col_max_upscale_ok:
  "mat_ok n B m \<Longrightarrow> \<exists>m'. inplace_col_max_upscale_sparse F m n = Some m' \<and> shape_ok n m'"
  using mat_ok_cols[of n B m] mat_ok_row[of n B m]
  by (fastforce simp: inplace_col_max_upscale_sparse_def col_scale_def mat_ok_length cols_lt_def list_all_iff
      case_prod_beta shape_ok_def row_ok_def)

lemma row_hadamard_ok:
  assumes "mat_ok n i64_max m" "length v = n" "nonneg v"
  shows "mat_ok n i64_max (row_hadamard_sparse F m v)"
proof (rule mat_okI)
  show "length (row_hadamard_sparse F m v) = n"
    using assms by (simp add: row_hadamard_sparse_def mat_ok_length)
  fix row' assume "row' \<in> set (row_hadamard_sparse F m v)"
  then obtain row x where r: "row' = map (\<lambda>(j, a). (j, ef_mul F a x)) row" "row \<in> set m" "x \<in> set v"
    by (auto simp: row_hadamard_sparse_def dest: set_zip_leftD set_zip_rightD)
  have "0 \<le> x" using r(3) assms(3) by (simp add: nonneg_def)
  then show "row_ok n i64_max row'"
    using mat_ok_row[OF assms(1) r(2)] by (auto simp: r(1) row_ok_def mul_le_max)
qed

lemma mat_ema_ok:
  assumes "mat_ok n B new" "mat_ok n C old"
  shows "\<exists>m'. mat_ema_sparse F new old alpha = Some m' \<and> mat_ok n i64_max m'"
proof -
  let ?row = "\<lambda>(new_row, old_row). positive_cells F (add_cells F (add_cells F (replicate n 0)
      (map (\<lambda>(j, v). (j, ef_mul F alpha v)) new_row))
      (map (\<lambda>(j, v). (j, ef_mul F (ef_saturating_sub F one32 alpha) v)) old_row))"
  have bound: "\<forall>y \<in> set (add_cells F (add_cells F (replicate n 0) xs) ys). y \<le> i64_max" for xs ys
  proof -
    have "z \<le> i64_max" if "z \<in> set (add_cells F (replicate n 0) xs)" for z
      by (rule add_cells_le_max[OF _ that]) simp
    then show ?thesis using add_cells_le_max by blast
  qed
  have "mat_ema_sparse F new old alpha = Some (map ?row (zip new old))"
    using assms mat_ok_cols[OF assms(1)] mat_ok_cols[OF assms(2)]
    unfolding mat_ema_sparse_def Let_def num0 num1 by (simp add: mat_ok_length)
  moreover have "mat_ok n i64_max (map ?row (zip new old))"
    using assms bound by (intro mat_okI) (auto simp: mat_ok_length intro!: positive_cells_ok)
  ultimately show ?thesis by blast
qed

lemma mat_ema_alpha_ok:
  assumes "mat_ok n B new" "length old = n" "length alpha = n"
  shows "\<exists>m'. mat_ema_alpha_sparse F new old alpha = Some m' \<and> mat_ok n one32 m'"
proof -
  have cells: "row_ok n one32 (concat (map (\<lambda>(j, v). if j < k
      then (let r = ema_cell F (d ! j) (a ! j) v in if r > ef_num F 0 then [(j, r)] else []) else []) row)) \<and>
      length (concat (map (\<lambda>(j, v). if j < k
      then (let r = ema_cell F (d ! j) (a ! j) v in if r > ef_num F 0 then [(j, r)] else []) else []) row)) \<le> length row"
    if "row_ok n B row" for row k d a
    using that
  proof (induction row)
    case (Cons c row)
    have "row_ok n B row" using Cons.prems by (auto simp: row_ok_def)
    from Cons.IH[OF this] show ?case using Cons.prems
      by (cases c) (auto simp: row_ok_def Let_def clamp_le_max)
  qed simp
  then show ?thesis using assms
    by (auto simp: mat_ema_alpha_sparse_def Let_def mat_ok_def dest!: set_zip_leftD)
qed

lemma foldl_add_le:
  assumes "0 \<le> acc" "\<forall>x \<in> set xs. 0 \<le> f x \<and> f x \<le> B"
  shows "0 \<le> foldl (\<lambda>a x. ef_saturating_add F a (f x)) acc xs \<and>
    foldl (\<lambda>a x. ef_saturating_add F a (f x)) acc xs \<le> acc + int (length xs) * B"
  using assms
proof (induction xs arbitrary: acc)
  case (Cons x xs)
  let ?a = "ef_saturating_add F acc (f x)"
  have a: "0 \<le> ?a" "?a \<le> acc + B" using Cons.prems by (simp_all add: add min.coboundedI2)
  then show ?case using Cons.IH[of ?a] Cons.prems(2) by (auto simp: algebra_simps)
qed simp

lemma transpose_ok:
  assumes "mat_ok n one32 m" "length v = n" "\<forall>x \<in> set v. 0 \<le> x \<and> x \<le> one32"
  shows "\<exists>r. matmul_transpose_sparse F m v = Some r \<and> length r = n \<and> (\<forall>x \<in> set r. 0 \<le> x \<and> x \<le> int n * one32)"
proof -
  let ?f = "\<lambda>row. foldl (\<lambda>a x. ef_saturating_add F a (case x of (j, w) \<Rightarrow> ef_mul F (v ! j) w)) 0 row"
  have row: "0 \<le> ?f row \<and> ?f row \<le> int n * one32" if "row \<in> set m" for row
  proof -
    have r: "row_ok n one32 row" using assms(1) that by (rule mat_ok_row)
    have "0 \<le> ef_mul F (v ! j) w \<and> ef_mul F (v ! j) w \<le> one32" if "(j, w) \<in> set row" for j w
    proof -
      have "0 \<le> v ! j" "v ! j \<le> one32" "0 \<le> w" "w \<le> one32" using r that assms(2,3) by (auto simp: row_ok_def)
      then show ?thesis using mul_le[of "v ! j" w] by simp
    qed
    then have "0 \<le> ?f row \<and> ?f row \<le> 0 + int (length row) * one32" by (intro foldl_add_le) auto
    moreover have "int (length row) * one32 \<le> int n * one32" using r by (simp add: row_ok_def)
    ultimately show ?thesis by linarith
  qed
  have "(\<lambda>acc (j, w). ef_saturating_add F acc (ef_mul F (v ! j) w)) =
      (\<lambda>a x. ef_saturating_add F a (case x of (j, w) \<Rightarrow> ef_mul F (v ! j) w))"
    by (intro ext) (auto split: prod.split)
  then have "matmul_transpose_sparse F m v = Some (map ?f m)"
    using mat_ok_cols[OF assms(1)] assms(2) by (simp add: matmul_transpose_sparse_def)
  then show ?thesis using row mat_ok_length[OF assms(1)] by auto
qed

lemma mat_vec_mul_ok:
  assumes "mat_ok n one32 m" "\<forall>x \<in> set v. 0 \<le> x \<and> x \<le> one32"
  shows "mat_ok n one32 (mat_vec_mul_sparse F m v)"
proof -
  let ?r = "\<lambda>row. concat (map (\<lambda>(j, w). case idx v j of None \<Rightarrow> []
      | Some x \<Rightarrow> (let y = ef_mul F w x in if y \<noteq> ef_num F 0 then [(j, y)] else [])) row)"
  have "row_ok n one32 (?r row) \<and> length (?r row) \<le> length row" if "row_ok n one32 row" for row
    using that
  proof (induction row)
    case (Cons c row)
    obtain j w where c: "c = (j, w)" by (cases c)
    have "row_ok n one32 row" using Cons.prems by (auto simp: row_ok_def)
    moreover have "0 \<le> ef_mul F w x \<and> ef_mul F w x \<le> one32" if "idx v j = Some x" for x
    proof -
      have "0 \<le> x" "x \<le> one32" using that assms(2) by (auto simp: idx_def split: if_splits)
      then show ?thesis using Cons.prems mul_le[of w x] by (auto simp: c row_ok_def)
    qed
    ultimately show ?case using Cons.IH Cons.prems
      by (cases "idx v j") (auto simp: c row_ok_def Let_def)
  qed simp
  then show ?thesis using assms(1) by (auto simp: mat_vec_mul_sparse_def mat_ok_def)
qed

lemma row_sum_ok:
  assumes "mat_ok n B m" "0 \<le> B" "int n * B \<le> i64_max"
  shows "length (row_sum_sparse F m) = n" "\<forall>x \<in> set (row_sum_sparse F m). 0 \<le> x \<and> x \<le> int n * B"
proof -
  show "length (row_sum_sparse F m) = n" using assms(1) by (simp add: row_sum_sparse_def mat_ok_length)
  show "\<forall>x \<in> set (row_sum_sparse F m). 0 \<le> x \<and> x \<le> int n * B"
  proof
    fix x assume "x \<in> set (row_sum_sparse F m)"
    then obtain row where r: "x = ef_sum F (map snd row)" "row \<in> set m" by (auto simp: row_sum_sparse_def)
    have row: "row_ok n B row" using assms(1) r(2) by (rule mat_ok_row)
    then show "0 \<le> x \<and> x \<le> int n * B"
      using row_ok_nonneg[OF row] row_ok_sum[OF row assms(2)] assms(3) nonneg_sum[OF row_ok_nonneg[OF row]]
      by (simp add: r(1) sum_exact)
  qed
qed

lemma vec_mul_ok:
  assumes "length a = n" "length b = n" "\<forall>x \<in> set a. 0 \<le> x \<and> x \<le> A" "\<forall>x \<in> set b. 0 \<le> x \<and> x \<le> one32" "0 \<le> A"
  shows "length (vec_mul F a b) = n" "\<forall>x \<in> set (vec_mul F a b). 0 \<le> x \<and> x \<le> A"
proof -
  show "length (vec_mul F a b) = n" using assms by (simp add: vec_mul_def)
  show "\<forall>x \<in> set (vec_mul F a b). 0 \<le> x \<and> x \<le> A"
  proof
    fix x assume "x \<in> set (vec_mul F a b)"
    then obtain u w where x: "x = (case ef_checked_mul F u w of None \<Rightarrow> 0 | Some p \<Rightarrow> p)" "(u, w) \<in> set (zip a b)"
      unfolding vec_mul_def num0 by auto
    have u: "0 \<le> u" "u \<le> A" "0 \<le> w" "w \<le> one32"
      using set_zip_leftD[OF x(2)] set_zip_rightD[OF x(2)] assms(3,4) by auto
    have "u * w div one32 \<le> u * one32 div one32" using u by (intro zdiv_mono1 mult_left_mono) simp_all
    then show "0 \<le> x \<and> x \<le> A" using u assms(5)
      by (auto simp: x(1) checked_mul pos_imp_zdiv_nonneg_iff)
  qed
qed

lemma mask_vector_ok:
  assumes "length msk = length v" "nonneg v"
  shows "\<exists>v'. inplace_mask_vector F msk v = Some v' \<and> length v' = length v \<and> nonneg v' \<and> sum_list v' \<le> sum_list v"
proof -
  have "let v' = zip_update (\<lambda>m x. if m then 0 else x) msk v
    in length v' = length v \<and> nonneg v' \<and> sum_list v' \<le> sum_list v"
    using assms
  proof (induction "\<lambda>m x. if m then (0::int) else x" msk v rule: zip_update.induct)
    case (1 m ms x xs)
    then show ?case by (simp add: Let_def)
  qed (simp_all add: Let_def)
  then show ?thesis using assms(1) by (auto simp: inplace_mask_vector_def Let_def)
qed

end

interpretation ebits: epoch_arith epoch_bits
  by unfold_locales (rule epoch_bits_ok)

end
