(* ===== verification/Epoch.thy ===== *)
theory Epoch
  imports Epoch_Arith
begin

text \<open>
  The epoch (\<open>pallets/subtensor/src/epoch/run_epoch.rs\<close>): Yuma consensus on the weights of a subnet,
  the emission of each neuron, and the vectors it stores. Each stage of \<open>epoch\<close> is a definition, in
  the order of the code; \<open>epoch_dense\<close> is the dense variant. The stake of the neurons
  (\<open>get_stake_weights_for_network\<close>) and the order in which the trie yields the uids of \<open>Keys\<close> are
  arguments, and so is the fixed-point crate. A panic is \<open>None\<close>.

  \<open>epoch_wf\<close> collects what the epoch relies on: the slot invariant of the neurons, rows of weights
  no longer than the subnet and bonds that point to its slots. Under it the epoch always returns,
  stores vectors of one entry per neuron, and hands out at most the emission it was given.
\<close>

section \<open>State\<close>

record ('a, 'h) epoch_state =
  e_weights :: "('a, 'h) weights_state"
  StakeWeight :: "netuid \<Rightarrow> nat list"
  Rho :: "netuid \<Rightarrow> nat"
  Kappa :: "netuid \<Rightarrow> nat"
  ActivityCutoff :: "netuid \<Rightarrow> nat"
  MaxAllowedValidators :: "netuid \<Rightarrow> nat"
  BondsMovingAverage :: "netuid \<Rightarrow> nat"
  BondsPenalty :: "netuid \<Rightarrow> nat"
  BondsResetOn :: "netuid \<Rightarrow> bool"
  Yuma3On :: "netuid \<Rightarrow> bool"
  LiquidAlphaOn :: "netuid \<Rightarrow> bool"
  AlphaValues :: "netuid \<Rightarrow> nat \<times> nat"
  AlphaSigmoidSteepness :: "netuid \<Rightarrow> int"
  e_StakeThreshold :: nat
  e_SubnetOwner :: "netuid \<Rightarrow> 'a"

record epoch_env =
  ee_block :: nat
  ee_fixed :: epoch_fixed
  ee_total_stake :: "netuid \<Rightarrow> int list"
  ee_key_order :: "netuid \<Rightarrow> nat list"

abbreviation e_neurons :: "('a, 'h) epoch_state \<Rightarrow> 'a neurons" where
  "e_neurons s \<equiv> w_neurons (e_weights s)"

definition set_neurons :: "'a neurons \<Rightarrow> ('a, 'h) epoch_state \<Rightarrow> ('a, 'h) epoch_state" where
  "set_neurons ns s = s\<lparr>e_weights := (e_weights s)\<lparr>w_neurons := ns\<rparr>\<rparr>"

section \<open>Reading the state\<close>

definition get_float_rho :: "epoch_fixed \<Rightarrow> ('a, 'h) epoch_state \<Rightarrow> netuid \<Rightarrow> int" where
  "get_float_rho F s n = ef_num F (Rho s n)"

definition get_float_kappa :: "epoch_fixed \<Rightarrow> ('a, 'h) epoch_state \<Rightarrow> netuid \<Rightarrow> int" where
  "get_float_kappa F s n = ef_safe_div F (ef_num F (Kappa s n)) (ef_num F u16_max)"

definition get_float_bonds_penalty :: "epoch_fixed \<Rightarrow> ('a, 'h) epoch_state \<Rightarrow> netuid \<Rightarrow> int" where
  "get_float_bonds_penalty F s n = ef_safe_div F (ef_num F (BondsPenalty s n)) (ef_num F u16_max)"

definition get_alpha_values_32 :: "epoch_fixed \<Rightarrow> ('a, 'h) epoch_state \<Rightarrow> netuid \<Rightarrow> int \<times> int" where
  "get_alpha_values_32 F s n =
     (let (alpha_low, alpha_high) = AlphaValues s n
      in (ef_safe_div F (ef_num F alpha_low) (ef_num F u16_max),
          ef_safe_div F (ef_num F alpha_high) (ef_num F u16_max)))"

definition get_alpha_sigmoid_steepness :: "epoch_fixed \<Rightarrow> ('a, 'h) epoch_state \<Rightarrow> netuid \<Rightarrow> int" where
  "get_alpha_sigmoid_steepness F s n = ef_of_int F (AlphaSigmoidSteepness s n)"

definition get_owner_uid :: "'a neurons \<Rightarrow> netuid \<Rightarrow> nat option" where
  "get_owner_uid ns n =
     (case SubnetOwnerHotkey ns n of None \<Rightarrow> None | Some owner_hotkey \<Rightarrow> Uids ns n owner_hotkey)"

definition get_block_at_registration :: "'a neurons \<Rightarrow> netuid \<Rightarrow> nat list" where
  "get_block_at_registration ns n =
     map (\<lambda>uid. if Keys ns n uid \<noteq> None then get_neuron_block_at_registration ns n uid else 0)
       [0..<get_subnetwork_n ns n]"

text \<open>
  \<open>Weights\<close> and \<open>Bonds\<close> hold one row per uid, so the loops that iterate over the prefix of a subnet
  and push the cells of row \<open>uid_i\<close> into slot \<open>uid_i\<close> give the list of the rows below \<open>n\<close>.
\<close>

definition get_weights_sparse :: "epoch_fixed \<Rightarrow> ('a, 'h) epoch_state \<Rightarrow> netuid \<Rightarrow> sparse_matrix" where
  "get_weights_sparse F s n =
     (let k = get_subnetwork_n (e_neurons s) n
      in map (\<lambda>uid_i. map (\<lambda>(uid_j, weight_ij). (uid_j, ef_num F weight_ij))
                 (filter (\<lambda>(uid_j, _). uid_j < k) (WeightRows (e_weights s) n uid_i))) [0..<k])"

definition get_weights :: "epoch_fixed \<Rightarrow> ('a, 'h) epoch_state \<Rightarrow> netuid \<Rightarrow> int list list" where
  "get_weights F s n =
     (let k = get_subnetwork_n (e_neurons s) n
      in map (\<lambda>uid_i. set_cells (replicate k (ef_num F 0))
                 (map (\<lambda>(uid_j, weight_ij). (uid_j, ef_num F weight_ij))
                    (filter (\<lambda>(uid_j, _). uid_j < k) (WeightRows (e_weights s) n uid_i)))) [0..<k])"

definition get_bonds_sparse :: "epoch_fixed \<Rightarrow> ('a, 'h) epoch_state \<Rightarrow> netuid \<Rightarrow> sparse_matrix" where
  "get_bonds_sparse F s n =
     map (\<lambda>uid_i. map (\<lambda>(uid_j, bonds_ij). (uid_j, u16_to_fixed F bonds_ij)) (Bonds (e_neurons s) n uid_i))
       [0..<get_subnetwork_n (e_neurons s) n]"

definition get_bonds :: "epoch_fixed \<Rightarrow> ('a, 'h) epoch_state \<Rightarrow> netuid \<Rightarrow> int list list" where
  "get_bonds F s n =
     (let k = get_subnetwork_n (e_neurons s) n
      in map (\<lambda>uid_i. set_cells (replicate k (ef_num F 0))
                 (map (\<lambda>(uid_j, bonds_ij). (uid_j, u16_to_fixed F bonds_ij))
                    (filter (\<lambda>(uid_j, _). uid_j < k) (Bonds (e_neurons s) n uid_i)))) [0..<k])"

definition get_bonds_fixed_proportion :: "epoch_fixed \<Rightarrow> ('a, 'h) epoch_state \<Rightarrow> netuid \<Rightarrow> int list list" where
  "get_bonds_fixed_proportion F s n = map (map (fixed_to_fixed_u16_proportion F)) (get_bonds F s n)"

definition get_bonds_sparse_fixed_proportion ::
    "epoch_fixed \<Rightarrow> ('a, 'h) epoch_state \<Rightarrow> netuid \<Rightarrow> sparse_matrix" where
  "get_bonds_sparse_fixed_proportion F s n =
     map (map (\<lambda>(j, bond). (j, fixed_to_fixed_u16_proportion F bond))) (get_bonds_sparse F s n)"

section \<open>Moving averages of the bonds\<close>

definition compute_ema_bonds_normal_sparse ::
    "epoch_fixed \<Rightarrow> ('a, 'h) epoch_state \<Rightarrow> sparse_matrix \<Rightarrow> sparse_matrix \<Rightarrow> netuid \<Rightarrow> sparse_matrix option" where
  "compute_ema_bonds_normal_sparse F s bonds_delta bonds n =
     (let bonds_moving_average =
            ef64_safe_div F (ef64_from F (BondsMovingAverage s n)) (ef64_from F 1000000);
          alpha = ef_saturating_sub F (ef_num F 1) (ef64_to_32 F bonds_moving_average)
      in mat_ema_sparse F bonds_delta bonds alpha)"

definition compute_ema_bonds_normal ::
    "epoch_fixed \<Rightarrow> ('a, 'h) epoch_state \<Rightarrow> int list list \<Rightarrow> int list list \<Rightarrow> netuid \<Rightarrow> int list list" where
  "compute_ema_bonds_normal F s bonds_delta bonds n =
     (let bonds_moving_average =
            ef64_safe_div F (ef64_from F (BondsMovingAverage s n)) (ef64_from F 1000000);
          alpha = ef_saturating_sub F (ef_num F 1) (ef64_to_32 F bonds_moving_average)
      in mat_ema F bonds_delta bonds alpha)"

definition compute_disabled_liquid_alpha ::
    "epoch_fixed \<Rightarrow> ('a, 'h) epoch_state \<Rightarrow> netuid \<Rightarrow> int option" where
  "compute_disabled_liquid_alpha F s n =
     do {
       average \<leftarrow> ef64_from_num F (BondsMovingAverage s n);
       million \<leftarrow> ef64_from_num F 1000000;
       bonds_moving_average \<leftarrow> ef64_saturating_div F average million;
       average_32 \<leftarrow> ef64_into_32 F bonds_moving_average;
       Some (ef_saturating_sub F (ef_num F 1) average_32)
     }"

definition alpha_sigmoid ::
    "epoch_fixed \<Rightarrow> int \<Rightarrow> int \<Rightarrow> int \<Rightarrow> int \<Rightarrow> int \<Rightarrow> int \<Rightarrow> int option" where
  "alpha_sigmoid F consensus weight bond alpha_low alpha_high steepness =
     do {
       let zero = ef_num F 0;
       let one = ef_num F 1;
       let diff_buy = clamp_value (ef_saturating_sub F weight consensus) zero one;
       let diff_sell = clamp_value (ef_saturating_sub F bond weight) zero one;
       let combined_diff = (if weight \<ge> bond then diff_buy else diff_sell);
       slope \<leftarrow> ef_saturating_div F steepness (ef_of_int F (-100));
       let e = safe_exp F (ef_mul F slope (ef_saturating_sub F combined_diff (ef_half F)));
       sigmoid \<leftarrow> ef_saturating_div F one (ef_saturating_add F one e);
       let alpha = ef_saturating_add F alpha_low
                     (ef_mul F sigmoid (ef_saturating_sub F alpha_high alpha_low));
       Some (clamp_value alpha alpha_low alpha_high)
     }"

definition compute_liquid_alpha_values ::
    "epoch_fixed \<Rightarrow> ('a, 'h) epoch_state \<Rightarrow> netuid \<Rightarrow> int list list \<Rightarrow> int list list \<Rightarrow> int list \<Rightarrow>
     int list list option" where
  "compute_liquid_alpha_values F s n weights bonds consensus =
     (if length weights \<noteq> length bonds then None
      else let steepness = get_alpha_sigmoid_steepness F s n;
               (alpha_low, alpha_high) = get_alpha_values_32 F s n
           in those (map (\<lambda>(w_row, b_row).
                those (map (\<lambda>(weight, bond, consensus_val).
                         alpha_sigmoid F consensus_val weight bond alpha_low alpha_high steepness)
                     (zip w_row (zip b_row consensus)))) (zip weights bonds)))"

text \<open>
  \<open>peek_at j row\<close> is the peeking loop: the cells of a row before column \<open>j\<close> are consumed, and the
  value is that of column \<open>j\<close> if the next cell is in it. The iterator stays on that cell.
\<close>

definition peek_at :: "epoch_fixed \<Rightarrow> nat \<Rightarrow> sparse_row \<Rightarrow> int \<times> sparse_row" where
  "peek_at F j row =
     (let rest = dropWhile (\<lambda>(i, _). i < j) row
      in (case rest of [] \<Rightarrow> ef_num F 0 | (i, val) # _ \<Rightarrow> if i = j then val else ef_num F 0, rest))"

fun liquid_alpha_row ::
    "epoch_fixed \<Rightarrow> int \<Rightarrow> int \<Rightarrow> int \<Rightarrow> nat \<Rightarrow> int list \<Rightarrow> sparse_row \<Rightarrow> sparse_row \<Rightarrow> int list option" where
  "liquid_alpha_row F alpha_low alpha_high steepness j_pos [] w_iter b_iter = Some []"
| "liquid_alpha_row F alpha_low alpha_high steepness j_pos (consensus_val # consensus) w_iter b_iter =
     do {
       let j = j_pos mod (u16_max + 1);
       let (weight, w_iter) = peek_at F j w_iter;
       let (bond, b_iter) = peek_at F j b_iter;
       alpha \<leftarrow> alpha_sigmoid F consensus_val weight bond alpha_low alpha_high steepness;
       rest \<leftarrow> liquid_alpha_row F alpha_low alpha_high steepness (j_pos + 1) consensus w_iter b_iter;
       Some (alpha # rest)
     }"

definition compute_liquid_alpha_values_sparse ::
    "epoch_fixed \<Rightarrow> ('a, 'h) epoch_state \<Rightarrow> netuid \<Rightarrow> sparse_matrix \<Rightarrow> sparse_matrix \<Rightarrow> int list \<Rightarrow>
     int list list option" where
  "compute_liquid_alpha_values_sparse F s n weights bonds consensus =
     (if length weights \<noteq> length bonds then None
      else let steepness = get_alpha_sigmoid_steepness F s n;
               (alpha_low, alpha_high) = get_alpha_values_32 F s n
           in those (map (\<lambda>(w_row, b_row).
                liquid_alpha_row F alpha_low alpha_high steepness 0 consensus w_row b_row)
                (zip weights bonds)))"

definition compute_bonds ::
    "epoch_fixed \<Rightarrow> ('a, 'h) epoch_state \<Rightarrow> netuid \<Rightarrow> int list list \<Rightarrow> int list list \<Rightarrow> int list \<Rightarrow>
     int list list option" where
  "compute_bonds F s n weights bonds consensus =
     (if LiquidAlphaOn s n \<and> consensus \<noteq> [] \<and> list_ex (\<lambda>c. c \<noteq> ef_num F 0) consensus
      then do {
        alphas \<leftarrow> compute_liquid_alpha_values F s n weights bonds consensus;
        mat_ema_alpha F weights bonds alphas
      }
      else do {
        alpha \<leftarrow> compute_disabled_liquid_alpha F s n;
        Some (mat_ema F weights bonds alpha)
      })"

definition compute_bonds_sparse ::
    "epoch_fixed \<Rightarrow> ('a, 'h) epoch_state \<Rightarrow> netuid \<Rightarrow> sparse_matrix \<Rightarrow> sparse_matrix \<Rightarrow> int list \<Rightarrow>
     sparse_matrix option" where
  "compute_bonds_sparse F s n weights bonds consensus =
     (if LiquidAlphaOn s n \<and> consensus \<noteq> [] \<and> list_ex (\<lambda>c. c \<noteq> ef_num F 0) consensus
      then do {
        alphas \<leftarrow> compute_liquid_alpha_values_sparse F s n weights bonds consensus;
        mat_ema_alpha_sparse F weights bonds alphas
      }
      else do {
        alpha \<leftarrow> compute_disabled_liquid_alpha F s n;
        mat_ema_sparse F weights bonds alpha
      })"

section \<open>The stages of the epoch\<close>

text \<open>The inactive mask.\<close>

definition epoch_inactive :: "epoch_env \<Rightarrow> ('a, 'h) epoch_state \<Rightarrow> netuid \<Rightarrow> bool list" where
  "epoch_inactive env s n =
     map (\<lambda>updated. sat_add u64_max updated (ActivityCutoff s n) < ee_block env) (LastUpdate (e_neurons s) n)"

text \<open>The stake of each neuron, filtered by the threshold and normalised.\<close>

definition epoch_stake :: "epoch_env \<Rightarrow> ('a, 'h) epoch_state \<Rightarrow> netuid \<Rightarrow> int list" where
  "epoch_stake env s n =
     (let F = ee_fixed env; total_stake = ee_total_stake env n; min_stake = e_StakeThreshold s;
          filtered_stake = map (\<lambda>st. if fixed64_to_u64 F st < min_stake then ef64_from F 0 else st) total_stake
      in vec_fixed64_to_fixed32 F (inplace_normalize_64 F filtered_stake))"

definition epoch_active_stake ::
    "epoch_fixed \<Rightarrow> bool list \<Rightarrow> bool list \<Rightarrow> int list \<Rightarrow> int list option" where
  "epoch_active_stake F inactive validator_forbids stake =
     do {
       active_stake \<leftarrow> inplace_mask_vector F inactive stake;
       active_stake \<leftarrow> inplace_mask_vector F validator_forbids active_stake;
       Some (ef_normalize F active_stake)
     }"

text \<open>The weights of the permitted validators, without self-weights and outdated ones.\<close>

definition epoch_weights ::
    "epoch_fixed \<Rightarrow> ('a, 'h) epoch_state \<Rightarrow> netuid \<Rightarrow> bool list \<Rightarrow> nat list \<Rightarrow> nat list \<Rightarrow> sparse_matrix option" where
  "epoch_weights F s n validator_forbids last_update block_at_registration =
     do {
       weights \<leftarrow> mask_rows_sparse validator_forbids (get_weights_sparse F s n);
       let weights = (case get_owner_uid (e_neurons s) n of
                        Some owner_uid \<Rightarrow> mask_diag_sparse_except_index weights owner_uid
                      | None \<Rightarrow> mask_diag_sparse weights);
       weights \<leftarrow> vec_mask_sparse_matrix weights last_update block_at_registration
                     (\<lambda>updated registered. updated \<le> registered);
       Some (inplace_row_normalize_sparse F weights)
     }"

text \<open>Preranks, consensus, clipped weights and validator trust.\<close>

definition epoch_consensus ::
    "epoch_fixed \<Rightarrow> ('a, 'h) epoch_state \<Rightarrow> netuid \<Rightarrow> sparse_matrix \<Rightarrow> int list \<Rightarrow>
     (int list \<times> int list \<times> sparse_matrix \<times> int list) option" where
  "epoch_consensus F s n weights active_stake =
     do {
       let k = get_subnetwork_n (e_neurons s) n;
       preranks \<leftarrow> matmul_sparse F weights active_stake k;
       consensus \<leftarrow> weighted_median_col_sparse F active_stake weights k (get_float_kappa F s n);
       clipped_weights \<leftarrow> col_clip_sparse F weights consensus;
       Some (preranks, consensus, clipped_weights, row_sum_sparse F clipped_weights)
     }"

text \<open>Ranks (which become the incentive once normalised) and trust.\<close>

definition epoch_ranks ::
    "epoch_fixed \<Rightarrow> nat \<Rightarrow> sparse_matrix \<Rightarrow> int list \<Rightarrow> int list \<Rightarrow> (int list \<times> int list) option" where
  "epoch_ranks F k clipped_weights active_stake preranks =
     do {
       ranks \<leftarrow> matmul_sparse F clipped_weights active_stake k;
       trust \<leftarrow> vecdiv F ranks preranks;
       Some (ef_normalize F ranks, trust)
     }"

text \<open>Dividends and moving-average bonds, with Yuma 3 and without.\<close>

definition epoch_bonds_yuma3 ::
    "epoch_env \<Rightarrow> ('a, 'h) epoch_state \<Rightarrow> netuid \<Rightarrow> sparse_matrix \<Rightarrow> int list \<Rightarrow> int list \<Rightarrow> int list \<Rightarrow>
     nat list \<Rightarrow> (int list \<times> sparse_matrix) option" where
  "epoch_bonds_yuma3 env s n weights_for_bonds consensus incentive active_stake block_at_registration =
     do {
       let F = ee_fixed env;
       let k = get_subnetwork_n (e_neurons s) n;
       let bonds = get_bonds_sparse_fixed_proportion F s n;
       let last_tempo = ee_block env - Tempo (e_weights s) n;
       bonds \<leftarrow> scalar_vec_mask_sparse_matrix bonds last_tempo block_at_registration
                   (\<lambda>last_tempo registered. last_tempo \<le> registered);
       ema_bonds \<leftarrow> compute_bonds_sparse F s n weights_for_bonds bonds consensus;
       ema_bonds_norm \<leftarrow> inplace_col_normalize_sparse F ema_bonds k;
       let total_bonds_per_validator = row_sum_sparse F (mat_vec_mul_sparse F ema_bonds_norm incentive);
       let dividends = vec_mul F total_bonds_per_validator active_stake;
       Some (ef_normalize F dividends, ema_bonds)
     }"

definition epoch_bonds_yuma ::
    "epoch_env \<Rightarrow> ('a, 'h) epoch_state \<Rightarrow> netuid \<Rightarrow> sparse_matrix \<Rightarrow> int list \<Rightarrow> int list \<Rightarrow>
     nat list \<Rightarrow> (int list \<times> sparse_matrix) option" where
  "epoch_bonds_yuma env s n weights_for_bonds incentive active_stake block_at_registration =
     do {
       let F = ee_fixed env;
       let k = get_subnetwork_n (e_neurons s) n;
       let last_tempo = ee_block env - Tempo (e_weights s) n;
       bonds \<leftarrow> scalar_vec_mask_sparse_matrix (get_bonds_sparse F s n) last_tempo block_at_registration
                   (\<lambda>last_tempo registered. last_tempo \<le> registered);
       bonds \<leftarrow> inplace_col_normalize_sparse F bonds k;
       bonds_delta \<leftarrow> inplace_col_normalize_sparse F (row_hadamard_sparse F weights_for_bonds active_stake) k;
       ema_bonds \<leftarrow> compute_ema_bonds_normal_sparse F s bonds_delta bonds n;
       ema_bonds \<leftarrow> inplace_col_normalize_sparse F ema_bonds k;
       dividends \<leftarrow> matmul_transpose_sparse F ema_bonds incentive;
       ema_bonds \<leftarrow> inplace_col_max_upscale_sparse F ema_bonds k;
       Some (ef_normalize F dividends, ema_bonds)
     }"

text \<open>Server, validator and combined emission in rao, and the normalised combined emission.\<close>

definition rao_of :: "epoch_fixed \<Rightarrow> nat \<Rightarrow> int list \<Rightarrow> nat list" where
  "rao_of F rao_emission xs =
     map (\<lambda>x. ef96_to_u64 F (ef96_saturating_mul F (ef96_of_32 F x) (ef96_from F rao_emission))) xs"

definition epoch_emission ::
    "epoch_fixed \<Rightarrow> int list \<Rightarrow> int list \<Rightarrow> int list \<Rightarrow> int list \<Rightarrow> nat \<Rightarrow>
     nat list \<times> nat list \<times> nat list \<times> int list" where
  "epoch_emission F incentive dividends stake active_stake rao_emission =
     (let combined_emission = map (\<lambda>(ii, di). ef_saturating_add F ii di) (zip incentive dividends);
          emission_sum = ef_sum F combined_emission;
          server = inplace_normalize_using_sum F incentive emission_sum;
          validator = inplace_normalize_using_sum F dividends emission_sum;
          combined = ef_normalize F combined_emission;
          (validator, combined) =
            (if emission_sum = ef_num F 0
             then (if is_zero F active_stake then (stake, stake) else (active_stake, active_stake))
             else (validator, combined))
      in (rao_of F rao_emission server, rao_of F rao_emission validator,
          rao_of F rao_emission combined, combined))"

section \<open>Value storage\<close>

text \<open>The vectors an epoch stores, before their conversion.\<close>

record epoch_values =
  ev_stake :: "int list"
  ev_active :: "bool list"
  ev_emission :: "nat list"
  ev_ranks :: "int list"
  ev_trust :: "int list"
  ev_consensus :: "int list"
  ev_incentive :: "int list"
  ev_dividends :: "int list"
  ev_pruning_scores :: "int list"
  ev_validator_trust :: "int list"
  ev_permits :: "bool list"

definition epoch_store ::
    "epoch_fixed \<Rightarrow> netuid \<Rightarrow> epoch_values \<Rightarrow> ('a, 'h) epoch_state \<Rightarrow> ('a, 'h) epoch_state" where
  "epoch_store F n v s =
     (let u16 = map (fixed_proportion_to_u16 F); ns = e_neurons s in
      set_neurons
        (ns\<lparr>Active := (Active ns)(n := ev_active v),
            Emission := (Emission ns)(n := ev_emission v),
            Rank := (Rank ns)(n := u16 (ev_ranks v)),
            Trust := (Trust ns)(n := u16 (ev_trust v)),
            Consensus := (Consensus ns)(n := u16 (ev_consensus v)),
            Incentive := (Incentive ns)(n := u16 (ev_incentive v)),
            Dividends := (Dividends ns)(n := u16 (ev_dividends v)),
            PruningScores := (PruningScores ns)(n := vec_max_upscale_to_u16 (ef_ops F) (ev_pruning_scores v)),
            ValidatorTrust := (ValidatorTrust ns)(n := u16 (ev_validator_trust v)),
            ValidatorPermit := (ValidatorPermit ns)(n := ev_permits v)\<rparr>)
        (s\<lparr>StakeWeight := (StakeWeight s)(n := u16 (ev_stake v))\<rparr>))"

definition set_bonds_row ::
    "netuid \<Rightarrow> nat \<Rightarrow> (nat \<times> nat) list \<Rightarrow> ('a, 'h) epoch_state \<Rightarrow> ('a, 'h) epoch_state" where
  "set_bonds_row n i row s =
     set_neurons ((e_neurons s)\<lparr>Bonds := (Bonds (e_neurons s))(n := (Bonds (e_neurons s) n)(i := row))\<rparr>) s"

text \<open>
  Bonds are stored for a uid that has the new permit, cleared for one that had it, and kept
  otherwise. \<open>rows\<close> are the rows to store.
\<close>

definition store_bonds ::
    "netuid \<Rightarrow> bool list \<Rightarrow> bool list \<Rightarrow> (nat \<times> nat) list list \<Rightarrow> ('a, 'h) epoch_state \<Rightarrow>
     ('a, 'h) epoch_state" where
  "store_bonds n new_validator_permits validator_permits rows s =
     foldl (\<lambda>s (i, new_permit, validator_permit, row).
              if new_permit then set_bonds_row n i row s
              else if validator_permit then set_bonds_row n i [] s
              else s) s
       (List.enumerate 0 (zip new_validator_permits (zip validator_permits rows)))"

definition bonds_rows_sparse :: "epoch_fixed \<Rightarrow> sparse_matrix \<Rightarrow> (nat \<times> nat) list list" where
  "bonds_rows_sparse F ema_bonds = map (map (\<lambda>(j, v). (j, fixed_proportion_to_u16 F v))) ema_bonds"

definition bonds_rows_dense :: "epoch_fixed \<Rightarrow> nat \<Rightarrow> int list list \<Rightarrow> (nat \<times> nat) list list" where
  "bonds_rows_dense F k ema_bonds = map (\<lambda>row. zip [0..<k] (vec_fixed_proportions_to_u16 F row)) ema_bonds"

text \<open>The pairs of \<open>Keys\<close> under the subnet, in trie order, and the emission tuples.\<close>

definition epoch_hotkeys :: "epoch_env \<Rightarrow> ('a, 'h) epoch_state \<Rightarrow> netuid \<Rightarrow> (nat \<times> 'a) list" where
  "epoch_hotkeys env s n =
     List.map_filter (\<lambda>u. map_option (Pair u) (Keys (e_neurons s) n u)) (ee_key_order env n)"

definition emission_tuples ::
    "(nat \<times> 'a) list \<Rightarrow> nat list \<Rightarrow> nat list \<Rightarrow> ('a \<times> nat \<times> nat) list option" where
  "emission_tuples hotkeys server_emission validator_emission =
     those (map (\<lambda>(uid_i, hotkey). do {
                   server \<leftarrow> idx server_emission uid_i;
                   validator \<leftarrow> idx validator_emission uid_i;
                   Some (hotkey, server, validator)
                 }) hotkeys)"

section \<open>The epoch\<close>

definition epoch ::
    "epoch_env \<Rightarrow> netuid \<Rightarrow> nat \<Rightarrow> ('a, 'h) epoch_state \<Rightarrow>
     (('a \<times> nat \<times> nat) list \<times> ('a, 'h) epoch_state) option" where
  "epoch env n rao_emission s =
     do {
       let F = ee_fixed env;
       let k = get_subnetwork_n (e_neurons s) n;
       let last_update = LastUpdate (e_neurons s) n;
       let inactive = epoch_inactive env s n;
       let block_at_registration = get_block_at_registration (e_neurons s) n;
       let hotkeys = epoch_hotkeys env s n;
       let stake = epoch_stake env s n;
       let validator_permits = ValidatorPermit (e_neurons s) n;
       let validator_forbids = map Not validator_permits;
       let new_validator_permits = is_topk_nonzero F stake (MaxAllowedValidators s n);
       active_stake \<leftarrow> epoch_active_stake F inactive validator_forbids stake;
       weights \<leftarrow> epoch_weights F s n validator_forbids last_update block_at_registration;
       (preranks, consensus, clipped_weights, validator_trust) \<leftarrow>
          epoch_consensus F s n weights active_stake;
       (incentive, trust) \<leftarrow> epoch_ranks F k clipped_weights active_stake preranks;
       weights_for_bonds \<leftarrow> interpolate_sparse F weights clipped_weights k (get_float_bonds_penalty F s n);
       (dividends, ema_bonds) \<leftarrow>
          (if Yuma3On s n
           then epoch_bonds_yuma3 env s n weights_for_bonds consensus incentive active_stake block_at_registration
           else epoch_bonds_yuma env s n weights_for_bonds incentive active_stake block_at_registration);
       let (server_emission, validator_emission, combined_emission, pruning_scores) =
          epoch_emission F incentive dividends stake active_stake rao_emission;
       let s = epoch_store F n
          \<lparr>ev_stake = stake, ev_active = map Not inactive, ev_emission = combined_emission,
           ev_ranks = incentive, ev_trust = trust, ev_consensus = consensus, ev_incentive = incentive,
           ev_dividends = dividends, ev_pruning_scores = pruning_scores,
           ev_validator_trust = validator_trust, ev_permits = new_validator_permits\<rparr> s;
       let s = store_bonds n new_validator_permits validator_permits (bonds_rows_sparse F ema_bonds) s;
       tuples \<leftarrow> emission_tuples hotkeys server_emission validator_emission;
       Some (tuples, s)
     }"

subsection \<open>The dense variant\<close>

definition epoch_weights_dense ::
    "epoch_fixed \<Rightarrow> ('a, 'h) epoch_state \<Rightarrow> netuid \<Rightarrow> bool list \<Rightarrow> nat list \<Rightarrow> nat list \<Rightarrow> int list list option" where
  "epoch_weights_dense F s n validator_forbids last_update block_at_registration =
     do {
       let outdated = map (\<lambda>updated. map (\<lambda>registered. updated \<le> registered) block_at_registration) last_update;
       weights \<leftarrow> inplace_mask_rows F validator_forbids (get_weights F s n);
       weights \<leftarrow> (case get_owner_uid (e_neurons s) n of
                      Some owner_uid \<Rightarrow> inplace_mask_diag_except_index F weights owner_uid
                    | None \<Rightarrow> inplace_mask_diag F weights);
       weights \<leftarrow> inplace_mask_diag F weights;
       weights \<leftarrow> inplace_mask_matrix F outdated weights;
       Some (inplace_row_normalize F weights)
     }"

definition epoch_bonds_dense ::
    "epoch_env \<Rightarrow> ('a, 'h) epoch_state \<Rightarrow> netuid \<Rightarrow> int list list \<Rightarrow> int list \<Rightarrow> int list \<Rightarrow> int list \<Rightarrow>
     nat list \<Rightarrow> (int list \<times> int list list) option" where
  "epoch_bonds_dense env s n weights_for_bonds consensus incentive active_stake block_at_registration =
     do {
       let F = ee_fixed env;
       let last_tempo = ee_block env - Tempo (e_weights s) n;
       let recently_registered = map (\<lambda>registered. last_tempo \<le> registered) block_at_registration;
       if Yuma3On s n then do {
         bonds \<leftarrow> inplace_mask_cols F recently_registered (get_bonds_fixed_proportion F s n);
         ema_bonds \<leftarrow> compute_bonds F s n weights_for_bonds bonds consensus;
         let ema_bonds_norm = inplace_col_normalize F ema_bonds;
         let total_bonds_per_validator = row_sum F (mat_vec_mul F ema_bonds_norm incentive);
         let dividends = vec_mul F total_bonds_per_validator active_stake;
         Some (ef_normalize F dividends, ema_bonds)
       } else do {
         bonds \<leftarrow> inplace_mask_cols F recently_registered (get_bonds F s n);
         let bonds = inplace_col_normalize F bonds;
         let bonds_delta = inplace_col_normalize F (row_hadamard F weights_for_bonds active_stake);
         let ema_bonds = inplace_col_normalize F (compute_ema_bonds_normal F s bonds_delta bonds n);
         dividends \<leftarrow> matmul_transpose F ema_bonds incentive;
         Some (ef_normalize F dividends, inplace_col_max_upscale F ema_bonds)
       }
     }"

definition epoch_dense ::
    "epoch_env \<Rightarrow> netuid \<Rightarrow> nat \<Rightarrow> ('a, 'h) epoch_state \<Rightarrow>
     (('a \<times> nat \<times> nat) list \<times> ('a, 'h) epoch_state) option" where
  "epoch_dense env n rao_emission s =
     do {
       let F = ee_fixed env;
       let k = get_subnetwork_n (e_neurons s) n;
       let last_update = LastUpdate (e_neurons s) n;
       let inactive = epoch_inactive env s n;
       let block_at_registration = get_block_at_registration (e_neurons s) n;
       let hotkeys = epoch_hotkeys env s n;
       let stake = epoch_stake env s n;
       let validator_permits = ValidatorPermit (e_neurons s) n;
       let validator_forbids = map Not validator_permits;
       let new_validator_permits = is_topk_nonzero F stake (MaxAllowedValidators s n);
       active_stake \<leftarrow> epoch_active_stake F inactive validator_forbids stake;
       weights \<leftarrow> epoch_weights_dense F s n validator_forbids last_update block_at_registration;
       preranks \<leftarrow> matmul F weights active_stake;
       consensus \<leftarrow> weighted_median_col F active_stake weights (get_float_kappa F s n);
       let clipped_weights = inplace_col_clip weights consensus;
       let validator_trust = row_sum F clipped_weights;
       ranks \<leftarrow> matmul F clipped_weights active_stake;
       trust \<leftarrow> vecdiv F ranks preranks;
       let incentive = ef_normalize F ranks;
       weights_for_bonds \<leftarrow> interpolate F weights clipped_weights (get_float_bonds_penalty F s n);
       (dividends, ema_bonds) \<leftarrow>
          epoch_bonds_dense env s n weights_for_bonds consensus incentive active_stake block_at_registration;
       let (server_emission, validator_emission, combined_emission, pruning_scores) =
          epoch_emission F incentive dividends stake active_stake rao_emission;
       let s = epoch_store F n
          \<lparr>ev_stake = stake, ev_active = map Not inactive, ev_emission = combined_emission,
           ev_ranks = incentive, ev_trust = trust, ev_consensus = consensus, ev_incentive = incentive,
           ev_dividends = dividends, ev_pruning_scores = pruning_scores,
           ev_validator_trust = validator_trust, ev_permits = new_validator_permits\<rparr> s;
       let s = store_bonds n new_validator_permits validator_permits (bonds_rows_dense F k ema_bonds) s;
       tuples \<leftarrow> emission_tuples hotkeys server_emission validator_emission;
       Some (tuples, s)
     }"

section \<open>Alpha values and bond resets\<close>

text \<open>\<open>SubnetOwner\<close> of an unknown subnet is the default account, as \<open>get\<close> returns it.\<close>

definition ensure_subnet_owner_or_root ::
    "(netuid \<Rightarrow> 'a) \<Rightarrow> 'a origin \<Rightarrow> netuid \<Rightarrow> (subtensor_error, unit) result" where
  "ensure_subnet_owner_or_root owner og n =
     (case og of
        Signed who \<Rightarrow> if owner n = who then Inr () else Inl BadOrigin
      | Root \<Rightarrow> Inr ()
      | _ \<Rightarrow> Inl BadOrigin)"

definition do_set_alpha_values ::
    "'a origin \<Rightarrow> netuid \<Rightarrow> nat \<Rightarrow> nat \<Rightarrow> ('a, 'h) epoch_state \<Rightarrow>
     (subtensor_error, ('a, 'h) epoch_state) result" where
  "do_set_alpha_values og n alpha_low alpha_high s =
     and_then (ensure_signed BadOrigin og) (\<lambda>_.
     and_then (ensure_subnet_owner_or_root (e_SubnetOwner s) og n) (\<lambda>_.
     ensure (LiquidAlphaOn s n) LiquidAlphaDisabled (
     let min_alpha_low = safe_div u16_max 40; min_alpha_high = min_alpha_low in
     ensure (alpha_high \<ge> min_alpha_high) AlphaHighTooLow (
     ensure (alpha_low \<ge> min_alpha_low \<and> alpha_low \<le> alpha_high) AlphaLowOutOfRange (
     Inr (s\<lparr>AlphaValues := (AlphaValues s)(n := (alpha_low, alpha_high))\<rparr>))))))"

definition do_reset_bonds ::
    "netuid \<Rightarrow> 'a \<Rightarrow> ('a, 'h) epoch_state \<Rightarrow> (subtensor_error, ('a, 'h) epoch_state) result" where
  "do_reset_bonds n account_id s =
     (if \<not> BondsResetOn s n then Inr s
      else case get_uid_for_net_and_hotkey (e_neurons s) n account_id of
             Inr uid \<Rightarrow>
               Inr (set_neurons ((e_neurons s)\<lparr>Bonds := (Bonds (e_neurons s))
                      (n := (\<lambda>i. filter (\<lambda>(j, _). j \<noteq> uid) (Bonds (e_neurons s) n i)))\<rparr>) s)
           | Inl _ \<Rightarrow> Inr s)"

section \<open>What the epoch relies on\<close>

definition epoch_wf :: "epoch_env \<Rightarrow> ('a, 'h) epoch_state \<Rightarrow> netuid \<Rightarrow> bool" where
  "epoch_wf env s n \<longleftrightarrow>
     (let ns = e_neurons s; k = SubnetworkN ns n; stake = ee_total_stake env n in
      neurons_inv ns n \<and> k \<le> 32768 \<and>
      (\<forall>u < k. length (WeightRows (e_weights s) n u) \<le> k \<and>
         (\<forall>c \<in> set (WeightRows (e_weights s) n u). snd c \<le> u16_max)) \<and>
      (\<forall>u < k. length (Bonds ns n u) \<le> k \<and>
         (\<forall>c \<in> set (Bonds ns n u). fst c < k \<and> snd c \<le> u16_max)) \<and>
      length stake = k \<and> nonneg stake \<and> sum_list stake \<le> i128_top \<and>
      distinct (ee_key_order env n) \<and> set (ee_key_order env n) = {..<k} \<and>
      BondsMovingAverage s n \<le> 2147483647000000)"

lemma epoch_wfD:
  assumes "epoch_wf env s n"
  shows "neurons_inv (e_neurons s) n" "SubnetworkN (e_neurons s) n \<le> 32768"
    "\<And>u. u < SubnetworkN (e_neurons s) n \<Longrightarrow> length (WeightRows (e_weights s) n u) \<le> SubnetworkN (e_neurons s) n \<and>
         (\<forall>c \<in> set (WeightRows (e_weights s) n u). snd c \<le> u16_max)"
    "\<And>u. u < SubnetworkN (e_neurons s) n \<Longrightarrow> length (Bonds (e_neurons s) n u) \<le> SubnetworkN (e_neurons s) n \<and>
         (\<forall>c \<in> set (Bonds (e_neurons s) n u). fst c < SubnetworkN (e_neurons s) n \<and> snd c \<le> u16_max)"
    "length (ee_total_stake env n) = SubnetworkN (e_neurons s) n" "nonneg (ee_total_stake env n)"
    "sum_list (ee_total_stake env n) \<le> i128_top"
    "distinct (ee_key_order env n)" "set (ee_key_order env n) = {..<SubnetworkN (e_neurons s) n}"
    "BondsMovingAverage s n \<le> 2147483647000000"
  using assms by (auto simp: epoch_wf_def Let_def)

lemma wf_lengths:
  assumes "epoch_wf env s n"
  shows "length (LastUpdate (e_neurons s) n) = SubnetworkN (e_neurons s) n"
    "length (ValidatorPermit (e_neurons s) n) = SubnetworkN (e_neurons s) n"
    "length (get_block_at_registration (e_neurons s) n) = SubnetworkN (e_neurons s) n"
  using epoch_wfD(1)[OF assms]
  by (auto simp: neurons_inv_def vectors_length_def get_block_at_registration_def get_subnetwork_n_def)

text \<open>\<open>unit_vec k v\<close>: a share for each of \<open>k\<close> neurons, with a total of at most one.\<close>

definition unit_vec :: "nat \<Rightarrow> int list \<Rightarrow> bool" where
  "unit_vec k v \<longleftrightarrow> length v = k \<and> nonneg v \<and> sum_list v \<le> one32"

lemma unit_vecD:
  assumes "unit_vec k v"
  shows "length v = k" "nonneg v" "sum_list v \<le> one32" "\<forall>x \<in> set v. 0 \<le> x \<and> x \<le> one32"
  using assms nonneg_member_le[of v] by (auto simp: unit_vec_def nonneg_def intro: order_trans)

lemma sum_le_max: "k \<le> 32768 \<Longrightarrow> int k * (65535 * one32) \<le> i64_max" "k \<le> 32768 \<Longrightarrow> int k * one32 \<le> i64_max"
  "k \<le> 32768 \<Longrightarrow> int k * (int k * one32) \<le> i64_max" "one32 \<le> i64_max" "65535 * one32 \<le> i64_max"
proof -
  assume k: "k \<le> 32768"
  show "int k * (65535 * one32) \<le> i64_max" "int k * one32 \<le> i64_max"
    using k by (simp_all add: one32_def i64_max_def)
  have "int k * int k \<le> 32768 * 32768" using k by (intro mult_mono) simp_all
  then show "int k * (int k * one32) \<le> i64_max" by (simp add: one32_def i64_max_def)
qed (simp_all add: one32_def i64_max_def)

section \<open>The stages keep their promises\<close>

context epoch_arith
begin

lemma normalize_unit: "length v = k \<Longrightarrow> nonneg v \<Longrightarrow> sum_list v \<le> i64_max \<Longrightarrow> unit_vec k (ef_normalize F v)"
  using normalize_ok by (simp add: unit_vec_def)

lemma stake_share: "0 \<le> x \<Longrightarrow> 0 < S \<Longrightarrow> x * one64 div S div one32 = x * one32 div S"
proof -
  assume "0 \<le> x" "0 < S"
  have "x * one64 div S div one32 = x * one64 div (S * one32)" by (simp add: zdiv_zmult2_eq)
  also have "\<dots> = (x * one32) * one32 div (S * one32)" by (simp add: one64_square mult.assoc)
  finally show ?thesis by simp
qed

lemma epoch_stake_unit:
  assumes "ee_fixed env = F" "epoch_wf env s n"
  shows "unit_vec (SubnetworkN (e_neurons s) n) (epoch_stake env s n)"
proof -
  define xs where "xs = map (\<lambda>st. if fixed64_to_u64 F st < e_StakeThreshold s then 0 else st) (ee_total_stake env n)"
  have tot: "nonneg (ee_total_stake env n)" "sum_list (ee_total_stake env n) \<le> i128_top" using epoch_wfD[OF assms(2)] by auto
  have nn: "nonneg xs" using tot(1) by (auto simp: xs_def nonneg_def)
  have "sum_list xs \<le> sum_list (ee_total_stake env n)"
    unfolding xs_def using tot(1) sum_list_mono[of "ee_total_stake env n" _ "\<lambda>x. x"] by (auto simp: nonneg_def)
  then have S: "ef64_sum F xs = sum_list xs" "0 \<le> sum_list xs" using nn tot(2) by (simp_all add: sum64 nonneg_sum)
  have len: "length xs = SubnetworkN (e_neurons s) n" using epoch_wfD(5)[OF assms(2)] by (simp add: xs_def)
  have stake: "epoch_stake env s n = map (ef64_to_32 F) (inplace_normalize_64 F xs)"
    by (simp add: epoch_stake_def Let_def vec_fixed64_to_fixed32_def fixed64_to_fixed32_def assms(1) xs_def cong: if_cong)
  show ?thesis
  proof (cases "sum_list xs = 0")
    case True
    have "ef64_to_32 F x = 0" if "x \<in> set xs" for x using nonneg_sum_0[OF nn True that] by (simp add: to_32)
    then have "map (ef64_to_32 F) xs = map (\<lambda>_. 0) xs" by simp
    then have "epoch_stake env s n = replicate (length xs) 0"
      using True S(1) by (simp add: stake inplace_normalize_64_def map_replicate_const)
    then show ?thesis using len by (simp add: unit_vec_def sum_list_replicate)
  next
    case False
    let ?S = "sum_list xs"
    have pos: "0 < ?S" using False S(2) by simp
    have each: "ef64_to_32 F (ef64_safe_div F x ?S) = min i64_max (x * one32 div ?S)" if "x \<in> set xs" for x
    proof -
      have x: "0 \<le> x" "x \<le> ?S" using that nn nonneg_member_le[OF nn that] by (auto simp: nonneg_def)
      have "ef64_safe_div F x ?S = x * one64 div ?S" using div64[OF x pos] by (simp add: ef64_safe_div_def)
      moreover have "0 \<le> x * one64 div ?S" using x(1) pos by (simp add: pos_imp_zdiv_nonneg_iff)
      ultimately show ?thesis using stake_share[OF x(1) pos] by (simp add: to_32)
    qed
    have eq: "epoch_stake env s n = map (\<lambda>x. min i64_max (x * one32 div ?S)) xs"
      using each S(1) False by (simp add: stake inplace_normalize_64_def)
    have "sum_list (epoch_stake env s n) \<le> sum_list (map (\<lambda>x. x * one32 div ?S) xs)"
      unfolding eq by (rule sum_list_mono) simp
    also have "\<dots> \<le> one32" using nn pos by (intro floor_share_sum) simp_all
    moreover have "nonneg (epoch_stake env s n)"
      unfolding eq using nn pos by (auto simp: nonneg_def pos_imp_zdiv_nonneg_iff)
    ultimately show ?thesis using len by (simp add: unit_vec_def eq)
  qed
qed

lemma active_stake_unit:
  assumes "unit_vec k stake" "length inactive = k" "length forbids = k"
  shows "\<exists>a. epoch_active_stake F inactive forbids stake = Some a \<and> unit_vec k a"
proof -
  note st = unit_vecD[OF assms(1)]
  obtain v where v: "inplace_mask_vector F inactive stake = Some v" "length v = k" "nonneg v" "sum_list v \<le> one32"
    using mask_vector_ok[of inactive stake] st assms(2) by auto
  obtain w where w: "inplace_mask_vector F forbids v = Some w" "length w = k" "nonneg w" "sum_list w \<le> one32"
    using mask_vector_ok[of forbids v] v assms(3) by auto
  then show ?thesis using v(1) normalize_unit[of w k] sum_le_max(4) by (simp add: epoch_active_stake_def)
qed

lemma weights_sparse_ok:
  assumes "epoch_wf env s n"
  shows "mat_ok (SubnetworkN (e_neurons s) n) (65535 * one32) (get_weights_sparse F s n)"
proof -
  have "row_ok (SubnetworkN (e_neurons s) n) (65535 * one32)
      (map (\<lambda>(j, w). (j, ef_num F w)) (filter (\<lambda>(j, _). j < SubnetworkN (e_neurons s) n) (WeightRows (e_weights s) n u)))"
    if "u < SubnetworkN (e_neurons s) n" for u
  proof -
    have "int w * one32 \<le> 65535 * one32" if "w \<le> u16_max" for w using that by (simp add: u16_max_def)
    then show ?thesis using epoch_wfD(3)[OF assms that]
      by (force simp: row_ok_def num intro: order_trans[OF length_filter_le])
  qed
  then show ?thesis by (auto simp: get_weights_sparse_def Let_def get_subnetwork_n_def intro!: mat_okI)
qed

lemma epoch_weights_ok:
  assumes "epoch_wf env s n" "length forbids = SubnetworkN (e_neurons s) n"
  shows "\<exists>w. epoch_weights F s n forbids (LastUpdate (e_neurons s) n) (get_block_at_registration (e_neurons s) n) = Some w \<and>
    mat_ok (SubnetworkN (e_neurons s) n) one32 w \<and> rows_le one32 w"
proof -
  let ?k = "SubnetworkN (e_neurons s) n"
  obtain m1 where m1: "mask_rows_sparse forbids (get_weights_sparse F s n) = Some m1" "mat_ok ?k (65535 * one32) m1"
    using mask_rows_ok[OF weights_sparse_ok[OF assms(1)] assms(2)] by blast
  let ?m2 = "case get_owner_uid (e_neurons s) n of Some u \<Rightarrow> mask_diag_sparse_except_index m1 u | None \<Rightarrow> mask_diag_sparse m1"
  have m2: "mat_ok ?k (65535 * one32) ?m2"
    using m1(2) by (auto simp: mask_diag_ok mask_diag_except_ok split: option.split)
  obtain m3 where m3: "vec_mask_sparse_matrix ?m2 (LastUpdate (e_neurons s) n) (get_block_at_registration (e_neurons s) n)
      (\<lambda>updated registered. updated \<le> registered) = Some m3" "mat_ok ?k (65535 * one32) m3"
    using vec_mask_ok[OF m2 wf_lengths(1,3)[OF assms(1)]] by blast
  show ?thesis
    using m1(1) m3(1) row_normalize_ok[OF m3(2) _ sum_le_max(1)[OF epoch_wfD(2)[OF assms(1)]]]
    by (simp add: epoch_weights_def Let_def)
qed

lemma epoch_consensus_ok:
  assumes "mat_ok k one32 w" "rows_le one32 w" "unit_vec k a" "k = SubnetworkN (e_neurons s) n"
  shows "\<exists>pr co cl vt. epoch_consensus F s n w a = Some (pr, co, cl, vt) \<and> length pr = k \<and> nonneg pr \<and>
    length co = k \<and> mat_ok k one32 cl \<and> rows_le one32 cl \<and> length vt = k"
proof -
  note a = unit_vecD[OF assms(3)]
  obtain pr where pr: "matmul_sparse F w a k = Some pr" "length pr = k" "nonneg pr"
    using matmul_sparse_ok[OF assms(1,2) a(1,2)] by blast
  obtain co where co: "weighted_median_col_sparse F a w k (get_float_kappa F s n) = Some co" "length co = k" "nonneg co"
    using median_col_ok[OF assms(1) a(1)] by blast
  obtain cl where cl: "col_clip_sparse F w co = Some cl" "mat_ok k one32 cl" "rows_le one32 cl"
    using col_clip_ok[OF assms(1,2) co(2,3)] by blast
  show ?thesis using pr co cl mat_ok_length[OF cl(2)] assms(4)
    by (simp add: epoch_consensus_def Let_def get_subnetwork_n_def row_sum_sparse_def)
qed

lemma epoch_ranks_ok:
  assumes "mat_ok k one32 cl" "rows_le one32 cl" "unit_vec k a" "length pr = k"
  shows "\<exists>inc tr. epoch_ranks F k cl a pr = Some (inc, tr) \<and> unit_vec k inc \<and> length tr = k"
proof -
  note a = unit_vecD[OF assms(3)]
  obtain r where r: "matmul_sparse F cl a k = Some r" "length r = k" "nonneg r" "sum_list r \<le> sum_list a"
    using matmul_sparse_ok[OF assms(1,2) a(1,2)] by blast
  then have "unit_vec k (ef_normalize F r)" using a(3) sum_le_max(4) by (intro normalize_unit) simp_all
  then show ?thesis using r assms(4) by (simp add: epoch_ranks_def vecdiv_def)
qed

lemma bonds_sparse_ok:
  assumes "epoch_wf env s n"
  shows "mat_ok (SubnetworkN (e_neurons s) n) (65535 * one32) (get_bonds_sparse F s n)"
    "mat_ok (SubnetworkN (e_neurons s) n) one32 (get_bonds_sparse_fixed_proportion F s n)"
proof -
  let ?k = "SubnetworkN (e_neurons s) n"
  show raw: "mat_ok ?k (65535 * one32) (get_bonds_sparse F s n)"
  proof (rule mat_okI)
    fix row assume "row \<in> set (get_bonds_sparse F s n)"
    then obtain u where u: "u < ?k" "row = map (\<lambda>(j, b). (j, u16_to_fixed F b)) (Bonds (e_neurons s) n u)"
      by (auto simp: get_bonds_sparse_def get_subnetwork_n_def)
    have "int b * one32 \<le> 65535 * one32" if "b \<le> u16_max" for b using that by (simp add: u16_max_def)
    then show "row_ok ?k (65535 * one32) row"
      using epoch_wfD(4)[OF assms u(1)] by (force simp: u(2) row_ok_def u16_to_fixed_def num)
  qed (simp add: get_bonds_sparse_def get_subnetwork_n_def)
  have "row_ok ?k one32 (map (\<lambda>(j, b). (j, fixed_to_fixed_u16_proportion F b)) row)"
    if "row_ok ?k (65535 * one32) row" for row
    using that by (auto simp: row_ok_def fixed_to_fixed_u16_proportion_def safe_div_le_one)
  then show "mat_ok ?k one32 (get_bonds_sparse_fixed_proportion F s n)"
    using raw by (auto simp: get_bonds_sparse_fixed_proportion_def mat_ok_def)
qed

lemma alpha_sigmoid_total: "\<exists>v. alpha_sigmoid F c w b l h st = Some v"
proof -
  have "ef_saturating_div F a d \<noteq> None" if "d \<noteq> 0" for a d using ok that by (simp add: epoch_fixed_ok_def)
  then have div: "\<exists>q. ef_saturating_div F a d = Some q" if "d \<noteq> 0" for a d using that by blast
  have m100: "ef_of_int F (-100) \<noteq> 0" using ok by (simp add: epoch_fixed_ok_def)
  have "0 \<le> safe_exp F x" for x
    using ok by (auto simp: safe_exp_def epoch_fixed_ok_def split: option.split)
  then have one: "ef_saturating_add F one32 (safe_exp F x) \<noteq> 0" for x
  proof -
    have "0 < one32 + safe_exp F x" using \<open>\<And>x. 0 \<le> safe_exp F x\<close>[of x] one32_pos(1) by linarith
    then show ?thesis using \<open>\<And>x. 0 \<le> safe_exp F x\<close>[of x] by (simp add: add i64_max_def min_def)
  qed
  obtain q where q: "ef_saturating_div F st (ef_of_int F (-100)) = Some q" using div[OF m100] by blast
  have "ef_saturating_div F one32 (ef_saturating_add F one32 (safe_exp F x)) =
      Some (the (ef_saturating_div F one32 (ef_saturating_add F one32 (safe_exp F x))))" for x
    using div[OF one[of x], of one32] by force
  then show ?thesis unfolding alpha_sigmoid_def Let_def num0 num1 q by (metis bind.bind_lunit)
qed

lemma liquid_row_total: "\<exists>r. liquid_alpha_row F l h st j consensus w b = Some r"
proof (induction consensus arbitrary: j w b)
  case (Cons c consensus)
  obtain wv w' bv b' where p: "peek_at F (j mod (u16_max + 1)) w = (wv, w')" "peek_at F (j mod (u16_max + 1)) b = (bv, b')"
    by (metis surj_pair)
  then show ?case using Cons[of "j + 1" w' b'] alpha_sigmoid_total[of c wv bv l h st] by (auto simp: Let_def)
qed simp

lemma disabled_alpha_total:
  assumes "BondsMovingAverage s n \<le> 2147483647000000"
  shows "\<exists>a. compute_disabled_liquid_alpha F s n = Some a"
proof -
  let ?avg = "int (BondsMovingAverage s n) * one64" and ?mil = "1000000 * one64"
  have avg: "int (BondsMovingAverage s n) \<le> 2147483647000000" using assms by simp
  have nums: "ef64_from_num F (BondsMovingAverage s n) = Some ?avg" "ef64_from_num F 1000000 = Some ?mil"
    using ok avg by (simp_all add: epoch_fixed_ok_def i64_max_def)
  let ?q = "?avg * one64 div ?mil"
  have "?q \<le> 2147483647000000 * one64 * one64 div ?mil"
    using avg by (intro zdiv_mono1 mult_right_mono) simp_all
  also have "\<dots> = 2147483647 * one64" by (simp add: one64_def)
  finally have q: "?q \<le> 2147483647 * one64" .
  have q0: "0 \<le> ?q" by (simp add: pos_imp_zdiv_nonneg_iff)
  have "min i128_top ?q = ?q" using q by (simp add: one64_def i128_top_def)
  moreover have "ef64_saturating_div F ?avg ?mil = Some (min i128_top ?q)"
    using ok by (simp add: epoch_fixed_ok_def)
  ultimately have div: "ef64_saturating_div F ?avg ?mil = Some ?q" by simp
  have "?q div one32 \<le> 2147483647 * one64 div one32" using q by (intro zdiv_mono1) simp_all
  then have "?q div one32 \<le> i64_max" by (simp add: one64_def one32_def i64_max_def)
  then have "ef64_into_32 F ?q = Some (?q div one32)" using ok q0 by (simp add: epoch_fixed_ok_def)
  then show ?thesis using nums div by (simp add: compute_disabled_liquid_alpha_def)
qed

lemma compute_bonds_ok:
  assumes "mat_ok k B w" "mat_ok k C b" "length co = k" "BondsMovingAverage s n \<le> 2147483647000000"
  shows "\<exists>m. compute_bonds_sparse F s n w b co = Some m \<and> mat_ok k i64_max m"
proof (cases "LiquidAlphaOn s n \<and> co \<noteq> [] \<and> list_ex (\<lambda>c. c \<noteq> ef_num F 0) co")
  case True
  obtain l h where lh: "get_alpha_values_32 F s n = (l, h)" by (metis surj_pair)
  let ?st = "get_alpha_sigmoid_steepness F s n"
  let ?row = "\<lambda>(w_row, b_row). liquid_alpha_row F l h ?st 0 co w_row b_row"
  have "those (map ?row (zip w b)) = Some (map (\<lambda>p. the (?row p)) (zip w b))"
    using liquid_row_total by (intro those_map_Some) (force simp: case_prod_beta)
  then have "compute_liquid_alpha_values_sparse F s n w b co = Some (map (\<lambda>p. the (?row p)) (zip w b))"
    using assms(1,2) lh by (simp add: compute_liquid_alpha_values_sparse_def mat_ok_length Let_def)
  moreover have "length (map (\<lambda>p. the (?row p)) (zip w b)) = k" using assms(1,2) by (simp add: mat_ok_length)
  ultimately show ?thesis
    using True mat_ema_alpha_ok[OF assms(1) mat_ok_length[OF assms(2)]] mat_ok_mono[OF _ sum_le_max(4)]
    unfolding compute_bonds_sparse_def by fastforce
next
  case False
  obtain a where "compute_disabled_liquid_alpha F s n = Some a" using disabled_alpha_total[OF assms(4)] by blast
  then show ?thesis using False mat_ema_ok[OF assms(1,2)] unfolding compute_bonds_sparse_def by auto
qed

lemma dividends_unit:
  assumes "length d = k" "\<forall>x \<in> set d. 0 \<le> x \<and> x \<le> int k * one32" "k \<le> 32768"
  shows "unit_vec k (ef_normalize F d)"
proof (rule normalize_unit[OF assms(1)])
  show "nonneg d" using assms(2) by (simp add: nonneg_def)
  have "sum_list d \<le> int (length d) * (int k * one32)" using assms(2) by (intro nonneg_sum_bound) simp
  then show "sum_list d \<le> i64_max" using sum_le_max(3)[OF assms(3)] assms(1) by simp
qed

lemma yuma3_ok:
  assumes "ee_fixed env = F" "epoch_wf env s n" "k = SubnetworkN (e_neurons s) n"
    and "mat_ok k i64_max wb" "length co = k" "unit_vec k inc" "unit_vec k a"
  shows "\<exists>d e. epoch_bonds_yuma3 env s n wb co inc a (get_block_at_registration (e_neurons s) n) = Some (d, e) \<and>
    unit_vec k d \<and> shape_ok k e"
proof -
  note wf = epoch_wfD[OF assms(2)]
  have k: "k \<le> 32768" using wf(2) assms(3) by simp
  obtain b where b: "scalar_vec_mask_sparse_matrix (get_bonds_sparse_fixed_proportion F s n)
      (ee_block env - Tempo (e_weights s) n) (get_block_at_registration (e_neurons s) n) (\<lambda>t r. t \<le> r) = Some b" "mat_ok k one32 b"
    using scalar_mask_ok[OF bonds_sparse_ok(2)[OF assms(2)] wf_lengths(3)[OF assms(2)]] assms(3) by blast
  obtain e where e: "compute_bonds_sparse F s n wb b co = Some e" "mat_ok k i64_max e"
    using compute_bonds_ok[OF assms(4) b(2) assms(5) wf(10)] by blast
  obtain en where en: "inplace_col_normalize_sparse F e k = Some en" "mat_ok k one32 en"
    using col_normalize_ok[OF e(2)] by blast
  let ?t = "row_sum_sparse F (mat_vec_mul_sparse F en inc)"
  have mv: "mat_ok k one32 (mat_vec_mul_sparse F en inc)"
    using mat_vec_mul_ok[OF en(2) unit_vecD(4)[OF assms(6)]] .
  note t = row_sum_ok[OF mv one32_pos(2) sum_le_max(2)[OF k]]
  have "unit_vec k (ef_normalize F (vec_mul F ?t a))"
    by (rule dividends_unit[OF vec_mul_ok[OF t(1) unit_vecD(1)[OF assms(7)] t(2) unit_vecD(4)[OF assms(7)]] k])
      simp_all
  then show ?thesis
    using b(1) e(1) en(1) assms(1,3) mat_ok_shape[OF e(2)]
    by (simp add: epoch_bonds_yuma3_def Let_def get_subnetwork_n_def)
qed

lemma yuma_ok:
  assumes "ee_fixed env = F" "epoch_wf env s n" "k = SubnetworkN (e_neurons s) n"
    and "mat_ok k i64_max wb" "unit_vec k inc" "unit_vec k a"
  shows "\<exists>d e. epoch_bonds_yuma env s n wb inc a (get_block_at_registration (e_neurons s) n) = Some (d, e) \<and>
    unit_vec k d \<and> shape_ok k e"
proof -
  note wf = epoch_wfD[OF assms(2)]
  have k: "k \<le> 32768" using wf(2) assms(3) by simp
  obtain b where b: "scalar_vec_mask_sparse_matrix (get_bonds_sparse F s n)
      (ee_block env - Tempo (e_weights s) n) (get_block_at_registration (e_neurons s) n) (\<lambda>t r. t \<le> r) = Some b" "mat_ok k (65535 * one32) b"
    using scalar_mask_ok[OF bonds_sparse_ok(1)[OF assms(2)] wf_lengths(3)[OF assms(2)]] assms(3) by blast
  obtain bn where bn: "inplace_col_normalize_sparse F b k = Some bn" "mat_ok k one32 bn"
    using col_normalize_ok[OF mat_ok_mono[OF b(2) sum_le_max(5)]] by blast
  obtain bd where bd: "inplace_col_normalize_sparse F (row_hadamard_sparse F wb a) k = Some bd" "mat_ok k one32 bd"
    using col_normalize_ok[OF row_hadamard_ok[OF assms(4) unit_vecD(1,2)[OF assms(6)]]] by blast
  obtain e where e: "compute_ema_bonds_normal_sparse F s bd bn n = Some e" "mat_ok k i64_max e"
    using mat_ema_ok[OF bd(2) bn(2)] unfolding compute_ema_bonds_normal_sparse_def Let_def by blast
  obtain en where en: "inplace_col_normalize_sparse F e k = Some en" "mat_ok k one32 en"
    using col_normalize_ok[OF e(2)] by blast
  obtain d where d: "matmul_transpose_sparse F en inc = Some d" "length d = k" "\<forall>x \<in> set d. 0 \<le> x \<and> x \<le> int k * one32"
    using transpose_ok[OF en(2) unit_vecD(1,4)[OF assms(5)]] by blast
  obtain eu where eu: "inplace_col_max_upscale_sparse F en k = Some eu" "shape_ok k eu"
    using col_max_upscale_ok[OF en(2)] by blast
  show ?thesis
    using b(1) bn(1) bd(1) e(1) en(1) d(1) eu dividends_unit[OF d(2,3) k] assms(1,3)
    by (simp add: epoch_bonds_yuma_def Let_def get_subnetwork_n_def)
qed

lemma rao_of_sum:
  assumes "nonneg xs" "sum_list xs \<le> one32" "r \<le> u64_max"
  shows "sum_list (rao_of F r xs) \<le> r"
proof -
  have each: "0 \<le> x \<and> x \<le> one32" if "x \<in> set xs" for x
    using that assms(1,2) nonneg_member_le[OF assms(1) that] by (auto simp: nonneg_def)
  have "rao_of F r xs = map (\<lambda>x. nat (x * int r div one32)) xs"
    using each assms(3) by (simp add: rao_of_def rao_share)
  moreover have "int (sum_list (map (\<lambda>x. nat (x * int r div one32)) xs)) = sum_list (map (\<lambda>x. x * int r div one32) xs)"
    using assms(1) by (induction xs) (simp_all add: pos_imp_zdiv_nonneg_iff)
  moreover have "sum_list (map (\<lambda>x. x * int r div one32) xs) \<le> int r"
    using assms(1,2) by (intro floor_share_sum) simp_all
  ultimately have "int (sum_list (rao_of F r xs)) \<le> int r" by simp
  then show ?thesis by linarith
qed

lemma combined_exact:
  assumes "unit_vec k a" "unit_vec k b"
  shows "nonneg (map (\<lambda>(x, y). ef_saturating_add F x y) (zip a b))"
    "sum_list (map (\<lambda>(x, y). ef_saturating_add F x y) (zip a b)) = sum_list a + sum_list b"
proof -
  have each: "ef_saturating_add F x y = x + y \<and> 0 \<le> x + y" if "(x, y) \<in> set (zip a b)" for x y
  proof -
    have "0 \<le> x" "x \<le> one32" "0 \<le> y" "y \<le> one32"
      using set_zip_leftD[OF that] set_zip_rightD[OF that] unit_vecD(4)[OF assms(1)] unit_vecD(4)[OF assms(2)] by auto
    then show ?thesis by (simp add: add one32_def i64_max_def)
  qed
  then have eq: "map (\<lambda>(x, y). ef_saturating_add F x y) (zip a b) = map (\<lambda>(x, y). x + y) (zip a b)" by auto
  show "nonneg (map (\<lambda>(x, y). ef_saturating_add F x y) (zip a b))"
    unfolding eq using each by (auto simp: nonneg_def)
  have "length a = length b" using assms by (simp add: unit_vec_def)
  then show "sum_list (map (\<lambda>(x, y). ef_saturating_add F x y) (zip a b)) = sum_list a + sum_list b"
    unfolding eq by (induction a b rule: list_induct2) simp_all
qed

lemma epoch_emission_ok:
  assumes "unit_vec k inc" "unit_vec k d" "unit_vec k stake" "unit_vec k a" "r \<le> u64_max"
    and e: "epoch_emission F inc d stake a r = (sv, vl, cm, pr)"
  shows "length sv = k" "length vl = k" "length cm = k" "length pr = k" "sum_list sv + sum_list vl \<le> r"
proof -
  let ?c = "map (\<lambda>(x, y). ef_saturating_add F x y) (zip inc d)"
  note comb = combined_exact[OF assms(1,2)]
  note I = unit_vecD[OF assms(1)] and D = unit_vecD[OF assms(2)]
  have "sum_list ?c \<le> i64_max" using comb(2) I(3) D(3) by (simp add: one32_def i64_max_def)
  then have S: "ef_sum F ?c = sum_list inc + sum_list d" using comb by (simp add: sum_exact)
  define sum where "sum = sum_list inc + sum_list d"
  define server where "server = inplace_normalize_using_sum F inc sum"
  define validator where "validator = (if sum = 0 then (if is_zero F a then stake else a) else inplace_normalize_using_sum F d sum)"
  have sv: "sv = rao_of F r server" and vl: "vl = rao_of F r validator"
    and rest: "length cm = length pr" "length pr = k"
    using e S I(1) D(1) unit_vecD(1)[OF assms(3)] unit_vecD(1)[OF assms(4)]
    by (auto simp: epoch_emission_def Let_def sum_def server_def validator_def rao_of_def split: if_splits)
  show "length cm = k" "length pr = k" using rest by simp_all
  have pos: "0 \<le> sum_list inc" "0 \<le> sum_list d" using I(2) D(2) by (simp_all add: nonneg_sum)
  have "nonneg (server @ validator) \<and> sum_list (server @ validator) \<le> one32 \<and> length server = k \<and> length validator = k"
  proof (cases "sum = 0")
    case True
    then have "unit_vec k validator" using assms(3,4) by (simp add: validator_def)
    moreover have "server = inc" "sum_list inc = 0" using True pos by (simp_all add: server_def inplace_normalize_using_sum_def sum_def)
    ultimately show ?thesis using I(1,2) unit_vecD[of k validator] by simp
  next
    case False
    have v: "validator = inplace_normalize_using_sum F d sum" using False by (simp add: validator_def)
    have pos': "0 < sum" using False pos by (simp add: sum_def)
    have le: "sum_list inc \<le> sum" "sum_list d \<le> sum" using pos by (simp_all add: sum_def)
    have "sum_list server + sum_list validator \<le> sum_list (map (\<lambda>x. x * one32 div sum) (inc @ d))"
      using normalize_using_sum_ok(2)[OF I(2) le(1) pos'] normalize_using_sum_ok(2)[OF D(2) le(2) pos']
      by (simp add: server_def v)
    also have "\<dots> \<le> one32" using I(2) D(2) pos' by (intro floor_share_sum) (simp_all add: sum_def)
    finally show ?thesis
      using normalize_using_sum_ok(1)[OF I(2) le(1)] normalize_using_sum_ok(1)[OF D(2) le(2)] I(1) D(1) v
      by (simp add: server_def inplace_normalize_using_sum_def)
  qed
  then show "length sv = k" "length vl = k" "sum_list sv + sum_list vl \<le> r"
    using rao_of_sum[of "server @ validator" r] assms(5) by (simp_all add: sv vl rao_of_def)
qed

end

section \<open>The epoch as a whole\<close>

lemma map_filter_keys:
  "(\<And>u. u \<in> set us \<Longrightarrow> keys u \<noteq> None) \<Longrightarrow>
    List.map_filter (\<lambda>u. map_option (Pair u) (keys u)) us = map (\<lambda>u. (u, the (keys u))) us"
proof (induction us)
  case (Cons u us)
  then obtain h where "keys u = Some h" by fastforce
  then show ?case using Cons by (simp add: map_filter_simps)
qed (simp add: map_filter_simps)

lemma sum_list_nth_upt: "length xs = k \<Longrightarrow> sum_list (map ((!) xs) [0..<k]) = sum_list xs" for xs :: "nat list"
  using map_nth[of xs] by auto

lemma sum_nth_perm:
  fixes xs :: "nat list"
  assumes "distinct us" "set us = {..<k}" "length xs = k"
  shows "sum_list (map ((!) xs) us) = sum_list xs"
proof -
  have "set us = set [0..<k]" unfolding assms(2) set_upt atLeast0LessThan ..
  then have "mset us = mset [0..<k]" by (rule iffD1[OF set_eq_iff_mset_eq_distinct[OF assms(1) distinct_upt]])
  then have "sum_mset (mset (map ((!) xs) us)) = sum_mset (mset (map ((!) xs) [0..<k]))" by (simp only: mset_map)
  then show ?thesis unfolding sum_mset_sum_list sum_list_nth_upt[OF assms(3)] .
qed

lemma emission_tuples_ok:
  assumes "epoch_wf env s n" "k = SubnetworkN (e_neurons s) n" "length sv = k" "length vl = k"
  shows "\<exists>out. emission_tuples (epoch_hotkeys env s n) sv vl = Some out \<and> length out = k \<and>
    sum_list (map (\<lambda>(h, a, b). a + b) out) = sum_list sv + sum_list vl"
proof -
  let ?us = "ee_key_order env n" and ?keys = "Keys (e_neurons s) n"
  note wf = epoch_wfD[OF assms(1)]
  have us: "distinct ?us" "set ?us = {..<k}" using wf(8,9) assms(2) by auto
  have "?keys u \<noteq> None" if "u \<in> set ?us" for u
    using that wf(1,9) by (auto simp: neurons_inv_def slots_inv_def)
  then have keys: "epoch_hotkeys env s n = map (\<lambda>u. (u, the (?keys u))) ?us"
    unfolding epoch_hotkeys_def by (rule map_filter_keys)
  have out: "emission_tuples (epoch_hotkeys env s n) sv vl = Some (map (\<lambda>u. (the (?keys u), sv ! u, vl ! u)) ?us)"
    unfolding emission_tuples_def keys map_map using us(2) assms(3,4) by (intro those_map_Some) (auto simp: idx_def)
  have "sum_list (map (\<lambda>u. sv ! u + vl ! u) ?us) = sum_list sv + sum_list vl"
    using sum_nth_perm[OF us assms(3)] sum_nth_perm[OF us assms(4)] by (simp add: sum_list_addf)
  moreover have "length ?us = k" using us distinct_card[of ?us] by simp
  ultimately show ?thesis unfolding out by (simp add: o_def)
qed

definition bond_row_ok :: "nat \<Rightarrow> (nat \<times> nat) list \<Rightarrow> bool" where
  "bond_row_ok k row \<longleftrightarrow> length row \<le> k \<and> (\<forall>c \<in> set row. fst c < k \<and> snd c \<le> u16_max)"

definition values_ok :: "nat \<Rightarrow> epoch_values \<Rightarrow> bool" where
  "values_ok k v \<longleftrightarrow>
     length (ev_active v) = k \<and> length (ev_emission v) = k \<and> length (ev_ranks v) = k \<and>
     length (ev_trust v) = k \<and> length (ev_consensus v) = k \<and> length (ev_incentive v) = k \<and>
     length (ev_dividends v) = k \<and> length (ev_pruning_scores v) = k \<and>
     length (ev_validator_trust v) = k \<and> length (ev_permits v) = k"

lemma upscale_length [simp]: "length (vec_max_upscale_to_u16 G xs) = length xs"
  by (simp add: vec_max_upscale_to_u16_def Let_def split: option.split)

lemma foldl_update_length [simp]: "length (foldl (\<lambda>r i. r[i := x]) r is) = length r"
  by (induction "is" arbitrary: r) simp_all

lemma topk_length [simp]: "length (is_topk_nonzero G xs k) = length xs"
  by (simp add: is_topk_nonzero_def Let_def)

lemmas epoch_write_defs = epoch_store_def set_bonds_row_def set_neurons_def Let_def

lemma epoch_wf_frame:
  assumes "epoch_wf env s n" "slots_inv (e_neurons s') n = slots_inv (e_neurons s) n"
    and "vectors_length (e_neurons s') n (SubnetworkN (e_neurons s) n)"
    and "SubnetworkN (e_neurons s') n = SubnetworkN (e_neurons s) n" "WeightRows (e_weights s') = WeightRows (e_weights s)"
    and "\<And>u. u < SubnetworkN (e_neurons s) n \<Longrightarrow> bond_row_ok (SubnetworkN (e_neurons s) n) (Bonds (e_neurons s') n u)"
    and "BondsMovingAverage s' = BondsMovingAverage s"
  shows "epoch_wf env s' n"
  using assms unfolding epoch_wf_def neurons_inv_def Let_def bond_row_ok_def by simp

lemma epoch_wf_bonds: "epoch_wf env s n \<Longrightarrow> u < SubnetworkN (e_neurons s) n \<Longrightarrow>
    bond_row_ok (SubnetworkN (e_neurons s) n) (Bonds (e_neurons s) n u)"
  using epoch_wfD(4) by (simp add: bond_row_ok_def)

lemma epoch_store_wf:
  assumes "epoch_wf env s n" "values_ok (SubnetworkN (e_neurons s) n) v"
  shows "epoch_wf env (epoch_store G n v s) n" "SubnetworkN (e_neurons (epoch_store G n v s)) n = SubnetworkN (e_neurons s) n"
proof -
  show "SubnetworkN (e_neurons (epoch_store G n v s)) n = SubnetworkN (e_neurons s) n"
    by (simp add: epoch_write_defs)
  have "vectors_length (e_neurons s) n (SubnetworkN (e_neurons s) n)"
    using epoch_wfD(1)[OF assms(1)] by (simp add: neurons_inv_def)
  then show "epoch_wf env (epoch_store G n v s) n"
    using assms(2) epoch_wf_bonds[OF assms(1)]
    by (intro epoch_wf_frame[OF assms(1)]) (simp_all add: epoch_write_defs slots_inv_def vectors_length_def values_ok_def)
qed

lemma set_bonds_row_wf:
  assumes "epoch_wf env s n" "bond_row_ok (SubnetworkN (e_neurons s) n) row"
  shows "epoch_wf env (set_bonds_row n i row s) n" "SubnetworkN (e_neurons (set_bonds_row n i row s)) n = SubnetworkN (e_neurons s) n"
proof -
  show "SubnetworkN (e_neurons (set_bonds_row n i row s)) n = SubnetworkN (e_neurons s) n"
    by (simp add: epoch_write_defs)
  have "vectors_length (e_neurons s) n (SubnetworkN (e_neurons s) n)"
    using epoch_wfD(1)[OF assms(1)] by (simp add: neurons_inv_def)
  then show "epoch_wf env (set_bonds_row n i row s) n"
    using assms(2) epoch_wf_bonds[OF assms(1)]
    by (intro epoch_wf_frame[OF assms(1)]) (simp_all add: epoch_write_defs slots_inv_def vectors_length_def)
qed

lemma store_bonds_wf:
  assumes "epoch_wf env s n" "k = SubnetworkN (e_neurons s) n" "\<forall>row \<in> set rows. bond_row_ok k row"
  shows "epoch_wf env (store_bonds n new old rows s) n"
proof -
  define es where "es = List.enumerate 0 (zip new (zip old rows))"
  have "\<forall>(i, p, q, row) \<in> set es. bond_row_ok k row"
    using assms(3) by (fastforce simp: es_def in_set_enumerate_eq dest: set_zip_rightD)
  with assms(1,2) show ?thesis unfolding store_bonds_def es_def[symmetric]
  proof (induction es arbitrary: s)
    case (Cons e es)
    obtain i p q row where e: "e = (i, p, q, row)" by (cases e)
    have row: "bond_row_ok (SubnetworkN (e_neurons s) n) row" "bond_row_ok (SubnetworkN (e_neurons s) n) []"
      using Cons.prems by (auto simp: e bond_row_ok_def)
    let ?s = "if p then set_bonds_row n i row s else if q then set_bonds_row n i [] s else s"
    have "epoch_wf env ?s n" "k = SubnetworkN (e_neurons ?s) n"
      using set_bonds_row_wf[OF Cons.prems(1) row(1)] set_bonds_row_wf[OF Cons.prems(1) row(2)] Cons.prems(1,2) by simp_all
    then show ?case using Cons.IH[of ?s] Cons.prems(3) by (simp add: e)
  qed simp
qed

lemma bonds_rows_ok:
  assumes "epoch_fixed_ok G" "shape_ok k m"
  shows "\<forall>row \<in> set (bonds_rows_sparse G m). bond_row_ok k row"
proof -
  have "fixed_proportion_to_u16 G x \<le> u16_max" for x
    using epoch_arith.to_u16[OF epoch_arith.intro[OF assms(1)]] by (simp add: fixed_proportion_to_u16_def fixed_to_u16_def)
  then show ?thesis using assms(2)
    by (fastforce simp: bonds_rows_sparse_def bond_row_ok_def shape_ok_def cols_lt_def list_all_iff)
qed

lemma epoch_runs:
  assumes "epoch_fixed_ok (ee_fixed env)" "epoch_wf env s n" "r \<le> u64_max"
  shows "\<exists>out v rows. epoch env n r s = Some (out,
      store_bonds n (ev_permits v) (ValidatorPermit (e_neurons s) n) rows (epoch_store (ee_fixed env) n v s)) \<and>
    values_ok (SubnetworkN (e_neurons s) n) v \<and> (\<forall>row \<in> set rows. bond_row_ok (SubnetworkN (e_neurons s) n) row) \<and>
    length out = SubnetworkN (e_neurons s) n \<and> sum_list (map (\<lambda>(h, a, b). a + b) out) \<le> r"
proof -
  let ?F = "ee_fixed env" and ?k = "SubnetworkN (e_neurons s) n"
  let ?forbids = "map Not (ValidatorPermit (e_neurons s) n)"
  let ?reg = "get_block_at_registration (e_neurons s) n"
  note F = epoch_arith.intro[OF assms(1)]
  note len = wf_lengths[OF assms(2)]
  have forbids: "length ?forbids = ?k" "length (epoch_inactive env s n) = ?k"
    using len by (simp_all add: epoch_inactive_def)
  have stake: "unit_vec ?k (epoch_stake env s n)"
    by (rule epoch_arith.epoch_stake_unit[OF F refl assms(2)])
  obtain a where a: "epoch_active_stake ?F (epoch_inactive env s n) ?forbids (epoch_stake env s n) = Some a" "unit_vec ?k a"
    using epoch_arith.active_stake_unit[OF F stake forbids(2,1)] by blast
  obtain w where w: "epoch_weights ?F s n ?forbids (LastUpdate (e_neurons s) n) ?reg = Some w" "mat_ok ?k one32 w" "rows_le one32 w"
    using epoch_arith.epoch_weights_ok[OF F assms(2) forbids(1)] by blast
  obtain pr co cl vt where c: "epoch_consensus ?F s n w a = Some (pr, co, cl, vt)" "length pr = ?k" "length co = ?k"
      "mat_ok ?k one32 cl" "rows_le one32 cl" "length vt = ?k"
    using epoch_arith.epoch_consensus_ok[OF F w(2,3) a(2) refl] by blast
  obtain inc tr where i: "epoch_ranks ?F ?k cl a pr = Some (inc, tr)" "unit_vec ?k inc" "length tr = ?k"
    using epoch_arith.epoch_ranks_ok[OF F c(4,5) a(2) c(2)] by blast
  obtain wb where wb: "interpolate_sparse ?F w cl ?k (get_float_bonds_penalty ?F s n) = Some wb" "mat_ok ?k i64_max wb"
    using epoch_arith.interpolate_ok[OF F mat_ok_mono[OF w(2) sum_le_max(4)] mat_ok_mono[OF c(4) sum_le_max(4)]] by blast
  obtain d e where d: "(if Yuma3On s n then epoch_bonds_yuma3 env s n wb co inc a ?reg
      else epoch_bonds_yuma env s n wb inc a ?reg) = Some (d, e)" "unit_vec ?k d" "shape_ok ?k e"
    using epoch_arith.yuma3_ok[OF F refl assms(2) refl wb(2) c(3) i(2) a(2)]
      epoch_arith.yuma_ok[OF F refl assms(2) refl wb(2) i(2) a(2)] by (cases "Yuma3On s n") auto
  obtain sv vl cm ps where em: "epoch_emission ?F inc d (epoch_stake env s n) a r = (sv, vl, cm, ps)"
    by (metis prod_cases4)
  note E = epoch_arith.epoch_emission_ok[OF F i(2) d(2) stake a(2) assms(3) em]
  obtain out where out: "emission_tuples (epoch_hotkeys env s n) sv vl = Some out" "length out = ?k"
      "sum_list (map (\<lambda>(h, a, b). a + b) out) = sum_list sv + sum_list vl"
    using emission_tuples_ok[OF assms(2) refl E(1,2)] by blast
  let ?v = "\<lparr>ev_stake = epoch_stake env s n, ev_active = map Not (epoch_inactive env s n), ev_emission = cm,
           ev_ranks = inc, ev_trust = tr, ev_consensus = co, ev_incentive = inc,
           ev_dividends = d, ev_pruning_scores = ps, ev_validator_trust = vt,
           ev_permits = is_topk_nonzero ?F (epoch_stake env s n) (MaxAllowedValidators s n)\<rparr>"
  have "epoch env n r s = Some (out, store_bonds n (ev_permits ?v) (ValidatorPermit (e_neurons s) n)
      (bonds_rows_sparse ?F e) (epoch_store ?F n ?v s))"
    using a(1) w(1) c(1) i(1) wb(1) d(1) em out(1)
    by (simp add: epoch_def Let_def get_subnetwork_n_def)
  moreover have "values_ok ?k ?v"
    using unit_vecD(1)[OF stake] unit_vecD(1)[OF i(2)] unit_vecD(1)[OF d(2)] c i(3) E(3,4) forbids(2) by (simp add: values_ok_def)
  ultimately show ?thesis using bonds_rows_ok[OF assms(1) d(3)] out(2,3) E(5) by metis
qed

section \<open>Correctness of the epoch\<close>

lemma index_sum_zip:
  assumes "length stake = length score"
  shows "sum_list (map ((!) stake) (filter (\<lambda>i. P (score ! i)) [0..<length score])) =
    sum_list (map fst (filter (\<lambda>(s, x). P x) (zip stake score)))"
proof -
  have "zip stake score = map (\<lambda>i. (stake ! i, score ! i)) [0..<length score]"
    using assms by (intro nth_equalityI) simp_all
  then show ?thesis by (simp add: filter_map o_def)
qed

lemma foldl_false_nth:
  "i < length r \<Longrightarrow> foldl (\<lambda>r i. r[i := False]) r is ! i \<longleftrightarrow> r ! i \<and> i \<notin> set is"
proof (induction "is" arbitrary: r)
  case (Cons a as)
  then show ?case by (cases "a = i") simp_all
qed simp

definition sample_epoch :: "bool \<Rightarrow> (nat, nat) epoch_state" where
  "sample_epoch y3 = \<lparr>e_weights = (sample_weights False)\<lparr>
       w_neurons := (sample_slots\<lparr>ValidatorPermit := (\<lambda>_. [True, True]), Bonds := (\<lambda>_ u. [(1 - u, 100)])\<rparr>),
       WeightRows := (\<lambda>_ u. [(1 - u, 65535)])\<rparr>,
     StakeWeight = (\<lambda>_. []), Rho = (\<lambda>_. 10), Kappa = (\<lambda>_. 32767), ActivityCutoff = (\<lambda>_. 5000),
     MaxAllowedValidators = (\<lambda>_. 1), BondsMovingAverage = (\<lambda>_. 900000), BondsPenalty = (\<lambda>_. 65535),
     BondsResetOn = (\<lambda>_. True), Yuma3On = (\<lambda>_. y3), LiquidAlphaOn = (\<lambda>_. False),
     AlphaValues = (\<lambda>_. (45875, 58982)), AlphaSigmoidSteepness = (\<lambda>_. 1000), e_StakeThreshold = 0,
     e_SubnetOwner = (\<lambda>_. 40)\<rparr>"

definition sample_epoch_env :: epoch_env where
  "sample_epoch_env = \<lparr>ee_block = 100, ee_fixed = epoch_bits,
     ee_total_stake = (\<lambda>_. [3 * one64, one64]), ee_key_order = (\<lambda>_. [1, 0])\<rparr>"

lemma sample_epoch_wf: "epoch_wf sample_epoch_env (sample_epoch y3) 1"
proof -
  have "neurons_inv (e_neurons (sample_epoch y3)) 1" "SubnetworkN (e_neurons (sample_epoch y3)) 1 = 2"
    by (auto simp: sample_epoch_def sample_weights_def sample_slots_def neurons_inv_def slots_inv_def
        vectors_length_def u16_max_def)
  moreover have "WeightRows (e_weights (sample_epoch y3)) 1 u = [(1 - u, 65535)]"
    "Bonds (e_neurons (sample_epoch y3)) 1 u = [(1 - u, 100)]"
    "BondsMovingAverage (sample_epoch y3) 1 = 900000" for u
    by (simp_all add: sample_epoch_def)
  moreover have "ee_total_stake sample_epoch_env 1 = [3 * one64, one64]" "ee_key_order sample_epoch_env 1 = [1, 0]"
    by (simp_all add: sample_epoch_env_def)
  moreover have "set [1, 0] = {..<2::nat}" by (auto simp: less_2_cases_iff)
  ultimately show ?thesis
    unfolding epoch_wf_def Let_def by (simp add: u16_max_def one64_def i128_top_def less_2_cases_iff)
qed

text \<open>C5. A well-formed subnet runs its epoch: no assertion fails and no index is out of range on any
  path (with Yuma 3 and without, liquid alpha or not), one emission tuple comes out per neuron, and
  the state afterwards is well-formed again, so each of the vectors it stores has one entry per
  neuron and every stored bond points to a slot of the subnet.
\<close>

theorem epoch_total:
  assumes "epoch_fixed_ok (ee_fixed env)" "epoch_wf env s n" "rao_emission \<le> u64_max"
  shows "\<exists>out s'. epoch env n rao_emission s = Some (out, s') \<and> epoch_wf env s' n \<and>
    length out = SubnetworkN (e_neurons s) n"
proof -
  obtain out v rows where e: "epoch env n rao_emission s = Some (out,
      store_bonds n (ev_permits v) (ValidatorPermit (e_neurons s) n) rows (epoch_store (ee_fixed env) n v s))"
    and v: "values_ok (SubnetworkN (e_neurons s) n) v" "\<forall>row \<in> set rows. bond_row_ok (SubnetworkN (e_neurons s) n) row"
    and len: "length out = SubnetworkN (e_neurons s) n"
    using epoch_runs[OF assms] by (elim exE conjE) (rule that)
  note store = epoch_store_wf[OF assms(2) v(1), of "ee_fixed env"]
  show ?thesis unfolding e using store_bonds_wf[OF store(1) store(2)[symmetric] v(2)] len by blast
qed

theorem epoch_total_witness:
  "\<exists>out s'. epoch sample_epoch_env 1 1000 (sample_epoch True) = Some (out, s') \<and>
    epoch_wf sample_epoch_env s' 1 \<and> length out = SubnetworkN (e_neurons (sample_epoch True)) 1"
  using epoch_total[OF _ sample_epoch_wf[of True], of 1000] epoch_bits_ok
  by (simp add: sample_epoch_env_def u64_max_def)

text \<open>C12. An epoch hands out at most the emission it was given: over all the tuples it returns, the
  server and validator emission add up to no more than \<open>rao_emission\<close>, on every path and in
  particular when there is no weight or no active stake and the emission follows the stake.
\<close>

theorem epoch_emission_bounded:
  assumes "epoch_fixed_ok (ee_fixed env)" "epoch_wf env s n" "rao_emission \<le> u64_max"
  shows "\<exists>out s'. epoch env n rao_emission s = Some (out, s') \<and>
    sum_list (map (\<lambda>(hotkey, server, validator). server + validator) out) \<le> rao_emission"
  using epoch_runs[OF assms] by blast

theorem epoch_emission_bounded_witness:
  "\<exists>out s'. epoch sample_epoch_env 1 1000 (sample_epoch False) = Some (out, s') \<and>
    sum_list (map (\<lambda>(hotkey, server, validator). server + validator) out) \<le> 1000"
  using epoch_emission_bounded[OF _ sample_epoch_wf[of False], of 1000] epoch_bits_ok
  by (simp add: sample_epoch_env_def u64_max_def)

text \<open>C16. The stake-weighted median: for non-negative stakes whose total is in range and a minority below
  it, the search over all indices ends with one of the scores, the stake of the strictly lower
  scores is at most the minority, and the stake of the scores up to it is more.
\<close>

theorem weighted_median_correct:
  assumes "epoch_fixed_ok F" "length stake = length score" "nonneg stake" "sum_list stake \<le> i64_max"
    and "0 \<le> minority" "minority < sum_list stake"
  shows "\<exists>v. weighted_median F stake score [0..<length score] minority 0 (sum_list stake) = Some v \<and> v \<in> set score \<and>
    sum_list (map fst (filter (\<lambda>(s, x). x < v) (zip stake score))) \<le> minority \<and>
    minority < sum_list (map fst (filter (\<lambda>(s, x). x \<le> v) (zip stake score)))"
proof -
  let ?n = "length score"
  have P: "\<forall>i \<in> set [0..<?n]. i < ?n" by simp
  have total: "sum_list stake = 0 + sum_list (map ((!) stake) [0..<?n])"
    using map_nth[of stake] assms(2) by simp
  have scores: "(!) score ` set [0..<?n] = set score" using map_nth[of score] by (metis set_map)
  obtain v where v: "weighted_median F stake score [0..<?n] minority 0 (sum_list stake) = Some v" "v \<in> set score"
    "sum_list (map ((!) stake) (filter (\<lambda>i. score ! i < v) [0..<?n])) \<le> minority"
    "minority < sum_list (map ((!) stake) (filter (\<lambda>i. score ! i \<le> v) [0..<?n]))"
    using epoch_arith.weighted_median_partition[OF epoch_arith.intro[OF assms(1)] assms(2,3) P order_refl assms(4)
        total assms(5,6)] scores by auto
  then show ?thesis
    using index_sum_zip[OF assms(2), of "\<lambda>x. x < v"] index_sum_zip[OF assms(2), of "\<lambda>x. x \<le> v"] by auto
qed

theorem weighted_median_correct_witness:
  "\<exists>v. weighted_median epoch_bits [3, 1, 2] [50, 10, 30] [0..<length [50, 10, 30 :: int]] 2 0 (sum_list [3, 1, 2]) = Some v \<and>
    v \<in> set [50, 10, 30] \<and>
    sum_list (map fst (filter (\<lambda>(s, x). x < v) (zip [3, 1, 2] [50, 10, 30]))) \<le> (2 :: int) \<and>
    (2 :: int) < sum_list (map fst (filter (\<lambda>(s, x). x \<le> v) (zip [3, 1, 2] [50, 10, 30])))"
  by (rule weighted_median_correct[OF epoch_bits_ok]) (simp_all add: i64_max_def)



text \<open>C40. Bonds that point outside the subnet stop its epoch for good: while any stored row of a neuron
  holds a column that is not a uid of the subnet, the epoch panics. (The dense variant leaves such
  columns out when it reads the bonds; the sparse one indexes the registration blocks with them.)
\<close>

theorem epoch_panics_on_foreign_bond:
  assumes "u < SubnetworkN (e_neurons s) n" "(j, b) \<in> set (Bonds (e_neurons s) n u)"
    and "SubnetworkN (e_neurons s) n \<le> j"
  shows "epoch env n rao_emission s = None"
proof -
  let ?reg = "get_block_at_registration (e_neurons s) n"
  have len: "length ?reg = SubnetworkN (e_neurons s) n" by (simp add: get_block_at_registration_def get_subnetwork_n_def)
  have foreign: "\<not> list_all (cols_lt (length ?reg)) (get_bonds_sparse G s n)"
    "\<not> list_all (cols_lt (length ?reg)) (get_bonds_sparse_fixed_proportion G s n)" for G
    using assms unfolding len list_all_iff cols_lt_def get_bonds_sparse_fixed_proportion_def get_bonds_sparse_def get_subnetwork_n_def
    by (force simp: u16_to_fixed_def)+
  then have "epoch_bonds_yuma3 env s n wb co inc a ?reg = None" "epoch_bonds_yuma env s n wb inc a ?reg = None" for wb co inc a
    by (simp_all add: epoch_bonds_yuma3_def epoch_bonds_yuma_def scalar_vec_mask_sparse_matrix_def Let_def)
  then show ?thesis unfolding epoch_def Let_def by (auto split: Option.bind_split)
qed

theorem epoch_panics_on_foreign_bond_witness:
  "epoch sample_epoch_env 1 1000 (set_bonds_row 1 0 [(7, 1)] (sample_epoch True)) = None"
  by (rule epoch_panics_on_foreign_bond[where u = 0 and j = 7 and b = 1])
    (simp_all add: set_bonds_row_def set_neurons_def sample_epoch_def sample_slots_def)

section \<open>Alpha values and bond resets\<close>

lemma reset_bonds_cell:
  assumes "do_reset_bonds n hotkey s = Inr s'" "BondsResetOn s n" "Uids (e_neurons s) n hotkey = Some uid"
  shows "(j, b) \<in> set (Bonds (e_neurons s') n i) \<longleftrightarrow> j \<noteq> uid \<and> (j, b) \<in> set (Bonds (e_neurons s) n i)"
  using assms by (auto simp: do_reset_bonds_def get_uid_for_net_and_hotkey_def ok_or_def set_neurons_def)

lemma reset_bonds_wf:
  assumes "epoch_wf env s n" "do_reset_bonds n hotkey s = Inr s'"
  shows "epoch_wf env s' n"
proof (cases "BondsResetOn s n \<and> Uids (e_neurons s) n hotkey \<noteq> None")
  case True
  then obtain uid where s': "s' = set_neurons ((e_neurons s)\<lparr>Bonds := (Bonds (e_neurons s))
      (n := (\<lambda>i. filter (\<lambda>(j, _). j \<noteq> uid) (Bonds (e_neurons s) n i)))\<rparr>) s"
    using assms(2) by (auto simp: do_reset_bonds_def get_uid_for_net_and_hotkey_def ok_or_def)
  have v: "vectors_length (e_neurons s) n (SubnetworkN (e_neurons s) n)"
    using epoch_wfD(1)[OF assms(1)] by (simp add: neurons_inv_def)
  have f: "bond_row_ok k row \<Longrightarrow> bond_row_ok k (filter P row)" for k row P
    by (auto simp: bond_row_ok_def intro: order_trans[OF length_filter_le])
  show ?thesis unfolding s' using v f[OF epoch_wf_bonds[OF assms(1)]]
    by (intro epoch_wf_frame[OF assms(1)]) (simp_all add: set_neurons_def slots_inv_def vectors_length_def)
next
  case False
  then have "s' = s"
    using assms(2) by (auto simp: do_reset_bonds_def get_uid_for_net_and_hotkey_def ok_or_def split: if_splits)
  then show ?thesis using assms(1) by simp
qed

context epoch_arith
begin

lemma u16_share:
  assumes "x \<le> u16_max"
  shows "ef_safe_div F (ef_num F x) (ef_num F u16_max) = int x * one32 div 65535"
proof -
  have "int x * one32 * one32 div (65535 * one32) = int x * one32 div 65535" by (simp add: mult.assoc)
  moreover have "int x * one32 div 65535 \<le> i64_max"
    using assms zdiv_mono1[of "int x * one32" "65535 * one32" 65535] sum_le_max(4)
    by (auto simp: u16_max_def)
  ultimately show ?thesis using assms by (simp add: fx_safe_div_def num checked_div)
qed

lemma alpha_values_ordered:
  assumes "1638 \<le> lo" "lo \<le> hi" "hi \<le> u16_max" "AlphaValues s n = (lo, hi)"
  shows "\<exists>l h. get_alpha_values_32 F s n = (l, h) \<and> 0 < l \<and> l \<le> h \<and> h \<le> one32"
proof -
  let ?l = "int lo * one32 div 65535" and ?h = "int hi * one32 div 65535"
  have "?l \<le> ?h" using assms(2) by (intro zdiv_mono1) simp_all
  moreover have "?h \<le> one32" using assms(3) zdiv_mono1[of "int hi * one32" "65535 * one32" 65535] by (simp add: u16_max_def)
  moreover have "0 < ?l" using assms(1) zdiv_mono1[of "1638 * one32" "int lo * one32" 65535] by (simp add: one32_def)
  moreover have "get_alpha_values_32 F s n = (?l, ?h)"
    using u16_share[of lo] u16_share[of hi] assms(2,3) unfolding get_alpha_values_32_def assms(4) by (simp del: num_max)
  ultimately show ?thesis by blast
qed

end



text \<open>The root origin, which the guard of \<open>do_set_alpha_values\<close> admits beside the owner of the subnet, is
  turned away before the guard is reached: the call starts with \<open>ensure_signed\<close>.
\<close>

theorem root_cannot_set_alpha_values:
  "do_set_alpha_values Root n alpha_low alpha_high s = Inl BadOrigin \<and>
   ensure_subnet_owner_or_root (e_SubnetOwner s) Root n = Inr ()"
  by (simp add: do_set_alpha_values_def ensure_subnet_owner_or_root_def)

end
