(* ===== verification/Stake_Weights.thy ===== *)
theory Stake_Weights
  imports Epoch Staking Children
begin

text \<open>
  The state of the coinbase and the stake figures it reads: alpha issuance, moving price and TAO
  weight, the stake a hotkey inherits from its parents and passes to its children, and the stake
  weights of a subnet that the epoch works on
  (\<open>pallets/subtensor/src/staking/stake_utils.rs\<close>). \<open>U96F32\<close> is the unsigned fixed-point type
  \<open>se_price\<close> of the staking environment; a moving price is stored as an \<open>I96F32\<close>, the integer of
  its bits, and the conversions between the types are arguments.
\<close>

section \<open>State and environment\<close>

record ('a, 'h, 'u, 'w) coinbase_state =
  cb_epoch :: "('a, 'h) epoch_state"
  cb_staking :: "('a, 'u, 'w) staking_state"
  cb_children :: "'a children_state"
  cb_TotalIssuance :: nat
  TotalSupply :: nat
  BlockEmission :: nat
  TaoWeight :: nat
  SubnetOwnerCut :: nat
  cb_SubnetOwner :: "netuid \<Rightarrow> 'a option"
  FirstEmissionBlockNumber :: "netuid \<Rightarrow> nat option"
  cb_NetworkRegistrationAllowed :: "netuid \<Rightarrow> bool"
  cb_NetworkPowRegistrationAllowed :: "netuid \<Rightarrow> bool"
  SubnetMovingPrice :: "netuid \<Rightarrow> int"
  SubnetMovingAlpha :: int
  EMAPriceHalvingBlocks :: "netuid \<Rightarrow> nat"
  SubnetAlphaInEmission :: "netuid \<Rightarrow> nat"
  SubnetAlphaOutEmission :: "netuid \<Rightarrow> nat"
  SubnetTaoInEmission :: "netuid \<Rightarrow> nat"
  PendingEmission :: "netuid \<Rightarrow> nat"
  PendingRootDivs :: "netuid \<Rightarrow> nat"
  PendingAlphaSwapped :: "netuid \<Rightarrow> nat"
  PendingOwnerCut :: "netuid \<Rightarrow> nat"
  BlocksSinceLastStep :: "netuid \<Rightarrow> nat"
  LastMechansimStepBlock :: "netuid \<Rightarrow> nat"
  cb_AlphaDividendsPerSubnet :: "netuid \<Rightarrow> 'a \<Rightarrow> nat"
  cb_TaoDividendsPerSubnet :: "netuid \<Rightarrow> 'a \<Rightarrow> nat"
  cb_TotalHotkeyAlphaLastEpoch :: "'a \<Rightarrow> netuid \<Rightarrow> nat"
  Pulses :: "nat \<Rightarrow> nat list option"

text \<open>
  \<open>i96_ops\<close>: the operations on \<open>I96F32\<close> of the issuance curve. \<open>ce_of_i96\<close>, \<open>ce_to_i96\<close> and
  \<open>ce_u96_to_64\<close> are the saturating conversions between \<open>I96F32\<close>, \<open>U96F32\<close> and \<open>I64F64\<close>;
  \<open>adjust_protocol_liquidity\<close> is the call of the swap interface, \<open>failed_swap\<close> the state in which
  a sale that fails leaves the market maker, \<open>ce_key_order\<close> the order in which
  the trie yields the uids of \<open>Keys\<close>. The fields from \<open>tle_commit\<close> on are the timelock encryption and
  the codec of the payload.
\<close>

record i96_ops =
  i96_from :: "nat \<Rightarrow> int"
  i96_checked_div :: "int \<Rightarrow> int \<Rightarrow> int option"
  i96_checked_sub :: "int \<Rightarrow> int \<Rightarrow> int option"
  i96_saturating_mul :: "int \<Rightarrow> int \<Rightarrow> int"
  i96_log2 :: "int \<Rightarrow> int option"
  i96_floor :: "int \<Rightarrow> int"
  i96_to_u64 :: "int \<Rightarrow> nat"

record ('a, 'h, 'f, 'u, 'i, 'v, 'w, 'c, 'g) coinbase_env = "('a, 'u, 'i, 'v, 'w) staking_env" +
  ce_half :: 'v
  ce_i96 :: i96_ops
  ce_of_i96 :: "int \<Rightarrow> 'v"
  ce_to_i96 :: "'v \<Rightarrow> int"
  ce_u96_to_64 :: "'v \<Rightarrow> int"
  ce_epoch_fixed :: epoch_fixed
  ce_key_order :: "netuid \<Rightarrow> nat list"
  ce_weights :: "('a, 'h, 'f) weights_env"
  adjust_protocol_liquidity :: "netuid \<Rightarrow> nat \<Rightarrow> nat \<Rightarrow> 'w subnet_pool \<Rightarrow> 'w"
  failed_swap :: "netuid \<Rightarrow> nat \<Rightarrow> 'w subnet_pool \<Rightarrow> 'w"
  tle_commit :: "nat list \<Rightarrow> 'c option"
  tle_signature :: "nat list \<Rightarrow> 'g option"
  tld :: "'c \<Rightarrow> 'g \<Rightarrow> nat list option"
  decode_payload :: "nat list \<Rightarrow> (nat list \<times> nat list \<times> nat) option"

abbreviation cb_pool :: "('a, 'h, 'u, 'w) coinbase_state \<Rightarrow> 'w subnet_pool" where
  "cb_pool s \<equiv> st_pool (cb_staking s)"

definition set_cb_pool :: "'w subnet_pool \<Rightarrow> ('a, 'h, 'u, 'w) coinbase_state \<Rightarrow> ('a, 'h, 'u, 'w) coinbase_state" where
  "set_cb_pool pool s = s\<lparr>cb_staking := (cb_staking s)\<lparr>st_pool := pool\<rparr>\<rparr>"

section \<open>Prices and weights\<close>

definition get_alpha_issuance :: "('a, 'h, 'u, 'w) coinbase_state \<Rightarrow> netuid \<Rightarrow> nat" where
  "get_alpha_issuance s n = sat_add u64_max (SubnetAlphaIn (cb_pool s) n) (SubnetAlphaOut (cb_pool s) n)"

definition get_moving_alpha_price ::
    "('a, 'h, 'f, 'u, 'i, 'v, 'w, 'c, 'g) coinbase_env \<Rightarrow> ('a, 'h, 'u, 'w) coinbase_state \<Rightarrow> netuid \<Rightarrow> 'v" where
  "get_moving_alpha_price env s n =
     (let one = of_u64 (se_price env) 1 in
      if is_root n then one
      else if SubnetMechanism (cb_pool s) n = 0 then one
      else ce_of_i96 env (SubnetMovingPrice s n))"

definition f_min :: "('v, 'z) ufixed_scheme \<Rightarrow> 'v \<Rightarrow> 'v \<Rightarrow> 'v" where
  "f_min fx x y = (if fbits fx y < fbits fx x then y else x)"

definition update_moving_price ::
    "('a, 'h, 'f, 'u, 'i, 'v, 'w, 'c, 'g) coinbase_env \<Rightarrow> netuid \<Rightarrow> ('a, 'h, 'u, 'w) coinbase_state \<Rightarrow>
     ('a, 'h, 'u, 'w) coinbase_state" where
  "update_moving_price env n s =
     (let fx = se_price env;
          start_call_block = (case FirstEmissionBlockNumber s n of None \<Rightarrow> 0 | Some b \<Rightarrow> b) - 1;
          blocks_since_start_call = of_u64 fx (env_block env - start_call_block);
          halving_time = EMAPriceHalvingBlocks s n;
          current_ma_unsigned = ce_of_i96 env (SubnetMovingAlpha s);
          alpha = f_mul fx current_ma_unsigned (f_safe_div fx blocks_since_start_call
                    (f_add fx blocks_since_start_call (of_u64 fx halving_time)));
          one_minus_alpha = f_sub fx (of_u64 fx 1) alpha;
          current_price = f_mul fx alpha (f_min fx (current_alpha_price env n (cb_pool s)) (of_u64 fx 1));
          current_moving = f_mul fx one_minus_alpha (get_moving_alpha_price env s n);
          new_moving = ce_to_i96 env (f_add fx current_price current_moving)
      in s\<lparr>SubnetMovingPrice := (SubnetMovingPrice s)(n := new_moving)\<rparr>)"

definition get_tao_weight ::
    "('a, 'h, 'f, 'u, 'i, 'v, 'w, 'c, 'g) coinbase_env \<Rightarrow> ('a, 'h, 'u, 'w) coinbase_state \<Rightarrow> 'v" where
  "get_tao_weight env s =
     (let fx = se_price env; weight_fixed = of_u64 fx (TaoWeight s)
      in f_safe_div fx weight_fixed (of_u64 fx u64_max))"

definition set_tao_weight :: "nat \<Rightarrow> ('a, 'h, 'u, 'w) coinbase_state \<Rightarrow> ('a, 'h, 'u, 'w) coinbase_state" where
  "set_tao_weight weight s = s\<lparr>TaoWeight := weight\<rparr>"

section \<open>Inherited stake\<close>

text \<open>
  The stake of \<open>hotkey\<close> less what its children take of it plus what it takes of its parents; the
  two functions of the code do this with the stake on root and on the subnet.
\<close>

definition proportion_of :: "('v, 'z) ufixed_scheme \<Rightarrow> nat \<Rightarrow> 'v" where
  "proportion_of fx proportion = f_safe_div fx (of_u64 fx proportion) (of_u64 fx u64_max)"

definition to_children :: "('v, 'z) ufixed_scheme \<Rightarrow> 'v \<Rightarrow> (nat \<times> 'a) list \<Rightarrow> 'v" where
  "to_children fx initial children =
     foldl (\<lambda>total (proportion, _). f_add fx total (f_mul fx initial (proportion_of fx proportion)))
       (of_u64 fx 0) children"

definition from_parents :: "('v, 'z) ufixed_scheme \<Rightarrow> ('a \<Rightarrow> nat) \<Rightarrow> (nat \<times> 'a) list \<Rightarrow> 'v" where
  "from_parents fx stake_of parents =
     foldl (\<lambda>total (proportion, parent).
              f_add fx total (f_mul fx (of_u64 fx (stake_of parent)) (proportion_of fx proportion)))
       (of_u64 fx 0) parents"

definition get_tao_inherited_for_hotkey_on_subnet ::
    "('a, 'h, 'f, 'u, 'i, 'v, 'w, 'c, 'g) coinbase_env \<Rightarrow> 'a \<Rightarrow> netuid \<Rightarrow> ('a, 'h, 'u, 'w) coinbase_state \<Rightarrow> nat" where
  "get_tao_inherited_for_hotkey_on_subnet env hotkey n s =
     (let fx = se_price env;
          root_stake = (\<lambda>h. get_stake_for_hotkey_on_subnet h root_netuid (cb_staking s));
          initial_tao = of_u64 fx (root_stake hotkey);
          tao_to_children = to_children fx initial_tao (get_children (cb_children s) hotkey n);
          tao_from_parents = from_parents fx root_stake (get_parents (cb_children s) hotkey n)
      in to_u64 fx (f_add fx (f_sub fx initial_tao tao_to_children) tao_from_parents))"

definition get_inherited_for_hotkey_on_subnet ::
    "('a, 'h, 'f, 'u, 'i, 'v, 'w, 'c, 'g) coinbase_env \<Rightarrow> 'a \<Rightarrow> netuid \<Rightarrow> ('a, 'h, 'u, 'w) coinbase_state \<Rightarrow> nat" where
  "get_inherited_for_hotkey_on_subnet env hotkey n s =
     (let fx = se_price env;
          alpha_stake = (\<lambda>h. get_stake_for_hotkey_on_subnet h n (cb_staking s));
          initial_alpha = of_u64 fx (alpha_stake hotkey)
      in if is_root n then to_u64 fx initial_alpha
         else let alpha_to_children = to_children fx initial_alpha (get_children (cb_children s) hotkey n);
                  alpha_from_parents = from_parents fx alpha_stake (get_parents (cb_children s) hotkey n)
              in to_u64 fx (f_add fx (f_sub fx initial_alpha alpha_to_children) alpha_from_parents))"

section \<open>Stake weights\<close>

definition get_stake_weights_for_hotkey_on_subnet ::
    "('a, 'h, 'f, 'u, 'i, 'v, 'w, 'c, 'g) coinbase_env \<Rightarrow> 'a \<Rightarrow> netuid \<Rightarrow> ('a, 'h, 'u, 'w) coinbase_state \<Rightarrow>
     int \<times> int \<times> int" where
  "get_stake_weights_for_hotkey_on_subnet env hotkey n s =
     (let F = ce_epoch_fixed env;
          tao_weight = ce_u96_to_64 env (get_tao_weight env s);
          alpha_stake = ef64_from F (get_inherited_for_hotkey_on_subnet env hotkey n s);
          tao_stake = ef64_from F (get_tao_inherited_for_hotkey_on_subnet env hotkey n s);
          total_stake = ef64_saturating_add F alpha_stake (ef64_saturating_mul F tao_stake tao_weight)
      in (total_stake, alpha_stake, tao_stake))"

definition get_stake_weights_for_network ::
    "('a, 'h, 'f, 'u, 'i, 'v, 'w, 'c, 'g) coinbase_env \<Rightarrow> netuid \<Rightarrow> ('a, 'h, 'u, 'w) coinbase_state \<Rightarrow>
     int list \<times> int list \<times> int list" where
  "get_stake_weights_for_network env n s =
     (let F = ce_epoch_fixed env;
          ns = e_neurons (cb_epoch s);
          tao_weight = ce_u96_to_64 env (get_tao_weight env s);
          k = get_subnetwork_n ns n;
          alpha_stake = map (\<lambda>uid. case Keys ns n uid of
              Some hotkey \<Rightarrow> ef64_from F (get_inherited_for_hotkey_on_subnet env hotkey n s)
            | None \<Rightarrow> ef64_from F 0) [0..<k];
          tao_stake = map (\<lambda>uid. case Keys ns n uid of
              Some hotkey \<Rightarrow> ef64_from F (get_tao_inherited_for_hotkey_on_subnet env hotkey n s)
            | None \<Rightarrow> ef64_from F 0) [0..<k];
          total_stake = map (\<lambda>(alpha_i, tao_i).
              ef64_saturating_add F alpha_i (ef64_saturating_mul F tao_i tao_weight)) (zip alpha_stake tao_stake)
      in (total_stake, alpha_stake, tao_stake))"

end
