(* ===== verification/Coinbase.thy ===== *)
theory Coinbase
  imports Stake_Weights
begin

text \<open>
  The emission of a block (\<open>pallets/subtensor/src/coinbase/block_emission.rs\<close> and
  \<open>run_coinbase.rs\<close>): the issuance curve, the terms and the injection per subnet, the owner cut,
  the sale of the root share, and the drain of what is pending through the epoch to miners,
  validators, their parents and their nominators. A \<open>BTreeMap\<close> is the list of its entries in
  key order (\<open>Storage\<close>). The loops of \<open>run_coinbase\<close> are one definition each, in its order;
  \<open>None\<close> is a panic of the epoch, which \<open>run_coinbase\<close> does not catch.
\<close>

section \<open>Issuance curve\<close>

definition DefaultBlockEmission :: nat where "DefaultBlockEmission = 1000000000"

definition log_failed :: string where "log_failed = ''Logarithm calculation failed''"

definition f_div_or :: "('v, 'z) ufixed_scheme \<Rightarrow> 'v \<Rightarrow> 'v \<Rightarrow> 'v \<Rightarrow> 'v" where
  "f_div_or fx x y d = (case f_div fx x y of Some q \<Rightarrow> q | None \<Rightarrow> d)"

definition get_dynamic_tao_emission ::
    "('a, 'h, 'f, 'u, 'i, 'v, 'w, 'c, 'g) coinbase_env \<Rightarrow> netuid \<Rightarrow> nat \<Rightarrow> nat \<Rightarrow> ('a, 'h, 'u, 'w) coinbase_state \<Rightarrow>
     nat \<times> nat \<times> nat" where
  "get_dynamic_tao_emission env n tao_emission alpha_block_emission s =
     (let fx = se_price env; lt = (\<lambda>x y. fbits fx x < fbits fx y);
          tao_in_emission = of_u64 fx tao_emission;
          float_alpha_block_emission = of_u64 fx alpha_block_emission;
          alpha_price = current_alpha_price env n (cb_pool s);
          alpha_in_emission = f_div_or fx (of_u64 fx tao_emission) alpha_price float_alpha_block_emission;
          alpha_in_emission = (if \<not> lt alpha_in_emission float_alpha_block_emission
                               then float_alpha_block_emission else alpha_in_emission);
          (tao_in_emission, alpha_in_emission) =
            (if lt tao_in_emission (of_u64 fx 1) \<or> lt alpha_in_emission (of_u64 fx 1)
             then (of_u64 fx 0, of_u64 fx 0) else (tao_in_emission, alpha_in_emission));
          alpha_out_emission = float_alpha_block_emission
      in (to_u64 fx tao_in_emission, to_u64 fx alpha_in_emission, to_u64 fx alpha_out_emission))"

text \<open>The residual of the curve, before its floor.\<close>

definition emission_residual :: "i96_ops \<Rightarrow> int \<Rightarrow> (string, int) result" where
  "emission_residual I total_issuance =
     (let one = i96_from I 1 in
      and_then (ok_or (i96_checked_div I total_issuance
        (i96_saturating_mul I (i96_from I 2) (i96_from I 10500000000000000))) log_failed) (\<lambda>ratio.
      and_then (ok_or (i96_checked_sub I one ratio) log_failed) (\<lambda>rest.
      and_then (ok_or (i96_checked_div I one rest) log_failed) (\<lambda>x.
      ok_or (i96_log2 I x) log_failed))))"

definition get_block_emission_for_issuance ::
    "i96_ops \<Rightarrow> nat \<Rightarrow> ('a, 'h, 'u, 'w) coinbase_state \<Rightarrow> (string, nat) result \<times> ('a, 'h, 'u, 'w) coinbase_state" where
  "get_block_emission_for_issuance I issuance s =
     (let total_issuance = i96_from I issuance in
      if total_issuance \<ge> i96_from I (TotalSupply s) then (Inr 0, s)
      else case emission_residual I total_issuance of
          Inl e \<Rightarrow> (Inl e, s)
        | Inr residual \<Rightarrow>
            let floored_residual_int = i96_to_u64 I (i96_floor I residual);
                multiplier = ((\<lambda>m. i96_saturating_mul I m (i96_from I 2)) ^^ floored_residual_int) (i96_from I 1);
                block_emission_percentage = (case i96_checked_div I (i96_from I 1) multiplier of
                    Some q \<Rightarrow> q | None \<Rightarrow> i96_from I 0);
                block_emission = i96_saturating_mul I block_emission_percentage (i96_from I DefaultBlockEmission);
                block_emission_u64 = i96_to_u64 I block_emission;
                s = (if BlockEmission s \<noteq> block_emission_u64 then s\<lparr>BlockEmission := block_emission_u64\<rparr> else s)
            in (Inr block_emission_u64, s))"

definition get_block_emission ::
    "i96_ops \<Rightarrow> ('a, 'h, 'u, 'w) coinbase_state \<Rightarrow> (string, nat) result \<times> ('a, 'h, 'u, 'w) coinbase_state" where
  "get_block_emission I s = get_block_emission_for_issuance I (cb_TotalIssuance s) s"

definition emission_or_0 :: "(string, nat) result \<Rightarrow> nat" where
  "emission_or_0 r = (case r of Inr x \<Rightarrow> x | Inl _ \<Rightarrow> 0)"

section \<open>Terms, injection and sale\<close>

definition get_float_subnet_owner_cut ::
    "('a, 'h, 'f, 'u, 'i, 'v, 'w, 'c, 'g) coinbase_env \<Rightarrow> ('a, 'h, 'u, 'w) coinbase_state \<Rightarrow> 'v" where
  "get_float_subnet_owner_cut env s =
     f_safe_div (se_price env) (of_u64 (se_price env) (SubnetOwnerCut s)) (of_u64 (se_price env) u16_max)"

definition get_hotkey_take_float ::
    "('a, 'h, 'f, 'u, 'i, 'v, 'w, 'c, 'g) coinbase_env \<Rightarrow> 'a \<Rightarrow> ('a, 'h, 'u, 'w) coinbase_state \<Rightarrow> 'v" where
  "get_hotkey_take_float env hotkey s =
     f_safe_div (se_price env) (of_u64 (se_price env) (get_hotkey_take (staking_env.truncate env) hotkey (cb_staking s)))
       (of_u64 (se_price env) u16_max)"

definition coinbase_subnets :: "('a, 'h, 'u, 'w) coinbase_state \<Rightarrow> netuid list" where
  "coinbase_subnets s = filter (\<lambda>n. n \<noteq> root_netuid) (get_all_subnet_netuids (cb_staking s))"

definition subnets_to_emit_to :: "('a, 'h, 'u, 'w) coinbase_state \<Rightarrow> netuid list" where
  "subnets_to_emit_to s = filter (\<lambda>n. FirstEmissionBlockNumber s n \<noteq> None) (coinbase_subnets s)"

definition total_moving_prices ::
    "('a, 'h, 'f, 'u, 'i, 'v, 'w, 'c, 'g) coinbase_env \<Rightarrow> ('a, 'h, 'u, 'w) coinbase_state \<Rightarrow> 'v" where
  "total_moving_prices env s =
     foldl (\<lambda>t n. f_add (se_price env) t (get_moving_alpha_price env s n)) (of_u64 (se_price env) 0)
       (subnets_to_emit_to s)"

type_synonym 'v emission_terms = "(netuid \<times> 'v) list \<times> (netuid \<times> 'v) list \<times> (netuid \<times> 'v) list"

definition subnet_terms ::
    "('a, 'h, 'f, 'u, 'i, 'v, 'w, 'c, 'g) coinbase_env \<Rightarrow> 'v \<Rightarrow> 'v \<Rightarrow>
     'v emission_terms \<times> ('a, 'h, 'u, 'w) coinbase_state \<Rightarrow> netuid \<Rightarrow>
     'v emission_terms \<times> ('a, 'h, 'u, 'w) coinbase_state" where
  "subnet_terms env block_emission total_prices = (\<lambda>((tao_in, alpha_in, alpha_out), s) n.
     (let fx = se_price env;
          price_i = current_alpha_price env n (cb_pool s);
          moving_price_i = get_moving_alpha_price env s n;
          tao_in_i = f_div_or fx (f_mul fx block_emission moving_price_i) total_prices (of_u64 fx 0);
          (r, s) = get_block_emission_for_issuance (ce_i96 env) (get_alpha_issuance s n) s;
          alpha_emission_i = of_u64 fx (emission_or_0 r);
          alpha_in_i = f_min fx (f_div_or fx tao_in_i price_i alpha_emission_i) alpha_emission_i;
          alpha_out_i = alpha_emission_i;
          tao_in_i = (if \<not> cb_NetworkRegistrationAllowed s n \<and> \<not> cb_NetworkPowRegistrationAllowed s n
                      then of_u64 fx 0 else tao_in_i)
      in ((smap_put n tao_in_i tao_in, smap_put n alpha_in_i alpha_in, smap_put n alpha_out_i alpha_out), s)))"

definition term_of :: "('v, 'z) ufixed_scheme \<Rightarrow> (netuid \<times> 'v) list \<Rightarrow> netuid \<Rightarrow> 'v" where
  "term_of fx m n = (case map_of m n of Some x \<Rightarrow> x | None \<Rightarrow> of_u64 fx 0)"

definition inject ::
    "('a, 'h, 'f, 'u, 'i, 'v, 'w, 'c, 'g) coinbase_env \<Rightarrow> 'v emission_terms \<Rightarrow> netuid \<Rightarrow>
     ('a, 'h, 'u, 'w) coinbase_state \<Rightarrow> ('a, 'h, 'u, 'w) coinbase_state" where
  "inject env = (\<lambda>(tao_in, alpha_in, alpha_out) n s.
     (let fx = se_price env;
          alpha_in_i = to_u64 fx (term_of fx alpha_in n);
          alpha_out_i = to_u64 fx (term_of fx alpha_out n);
          tao_in_i = to_u64 fx (term_of fx tao_in n);
          pool = cb_pool s;
          pool = pool\<lparr>SubnetAlphaIn := (SubnetAlphaIn pool)(n := sat_add u64_max (SubnetAlphaIn pool n) alpha_in_i),
                      SubnetAlphaOut := (SubnetAlphaOut pool)(n := sat_add u64_max (SubnetAlphaOut pool n) alpha_out_i),
                      SubnetTAO := (SubnetTAO pool)(n := sat_add u64_max (SubnetTAO pool n) tao_in_i),
                      TotalStake := sat_add u64_max (TotalStake pool) tao_in_i\<rparr>;
          s = s\<lparr>SubnetAlphaInEmission := (SubnetAlphaInEmission s)(n := alpha_in_i),
                SubnetAlphaOutEmission := (SubnetAlphaOutEmission s)(n := alpha_out_i),
                SubnetTaoInEmission := (SubnetTaoInEmission s)(n := tao_in_i),
                cb_TotalIssuance := sat_add u64_max (cb_TotalIssuance s) tao_in_i\<rparr>
      in set_cb_pool (pool\<lparr>amm := adjust_protocol_liquidity env n tao_in_i alpha_in_i pool\<rparr>) s))"

definition cut_owner ::
    "('a, 'h, 'f, 'u, 'i, 'v, 'w, 'c, 'g) coinbase_env \<Rightarrow> 'v \<Rightarrow> (netuid \<times> 'v) list \<times> ('a, 'h, 'u, 'w) coinbase_state \<Rightarrow>
     netuid \<Rightarrow> (netuid \<times> 'v) list \<times> ('a, 'h, 'u, 'w) coinbase_state" where
  "cut_owner env cut_percent = (\<lambda>(alpha_out, s) n.
     (let fx = se_price env;
          alpha_out_i = term_of fx alpha_out n;
          owner_cut_i = f_mul fx alpha_out_i cut_percent
      in (smap_put n (f_sub fx alpha_out_i owner_cut_i) alpha_out,
          s\<lparr>PendingOwnerCut := (PendingOwnerCut s)(n := sat_add u64_max (PendingOwnerCut s n) (to_u64 fx owner_cut_i))\<rparr>)))"

definition sell_root_alpha ::
    "('a, 'h, 'f, 'u, 'i, 'v, 'w, 'c, 'g) coinbase_env \<Rightarrow> (netuid \<times> 'v) list \<Rightarrow> netuid \<Rightarrow>
     ('a, 'h, 'u, 'w) coinbase_state \<Rightarrow> ('a, 'h, 'u, 'w) coinbase_state" where
  "sell_root_alpha env alpha_out n s =
     (let fx = se_price env;
          alpha_out_i = term_of fx alpha_out n;
          root_tao = of_u64 fx (SubnetTAO (cb_pool s) root_netuid);
          alpha_issuance = of_u64 fx (get_alpha_issuance s n);
          tao_weight = f_mul fx root_tao (get_tao_weight env s);
          root_proportion = f_div_or fx tao_weight (f_add fx tao_weight alpha_issuance) (of_u64 fx 0);
          root_alpha = f_mul fx (f_mul fx root_proportion alpha_out_i) (ce_half env);
          pending_alpha = f_sub fx alpha_out_i root_alpha
      in case swap_alpha_for_tao (env_swap env) n (to_u64 fx root_alpha) (min_price env) (cb_pool s) of
           Inl _ \<Rightarrow> set_cb_pool ((cb_pool s)\<lparr>amm := failed_swap env n (to_u64 fx root_alpha) (cb_pool s)\<rparr>) s
         | Inr (ok_result, pool) \<Rightarrow>
             (set_cb_pool pool s)
               \<lparr>PendingAlphaSwapped := (PendingAlphaSwapped s)
                  (n := sat_add u64_max (PendingAlphaSwapped s n) (to_u64 fx root_alpha)),
                PendingEmission := (PendingEmission s)
                  (n := sat_add u64_max (PendingEmission s n) (to_u64 fx pending_alpha)),
                PendingRootDivs := (PendingRootDivs s)
                  (n := sat_add u64_max (PendingRootDivs s n) (amount_paid_out ok_result))\<rparr>)"

section \<open>Dividends of a hotkey and its parents\<close>

definition get_self_contribution ::
    "('a, 'h, 'f, 'u, 'i, 'v, 'w, 'c, 'g) coinbase_env \<Rightarrow> 'a \<Rightarrow> netuid \<Rightarrow> ('a, 'h, 'u, 'w) coinbase_state \<Rightarrow> nat" where
  "get_self_contribution env hotkey n s =
     (let fx = se_price env;
          remaining_proportion = foldl (\<lambda>r (proportion, _). f_sub fx r (proportion_of fx proportion))
            (of_u64 fx 1) (get_children (cb_children s) hotkey n);
          tao_weight = get_tao_weight env s;
          root_stake = of_u64 fx (get_stake_for_hotkey_on_subnet hotkey root_netuid (cb_staking s));
          alpha_stake = of_u64 fx (get_stake_for_hotkey_on_subnet hotkey n (cb_staking s));
          alpha_contribution = f_mul fx alpha_stake remaining_proportion;
          root_contribution = f_mul fx (f_mul fx root_stake remaining_proportion) tao_weight
      in to_u64 fx (f_add fx alpha_contribution root_contribution))"

definition parent_contribution ::
    "('a, 'h, 'f, 'u, 'i, 'v, 'w, 'c, 'g) coinbase_env \<Rightarrow> netuid \<Rightarrow> ('a, 'h, 'u, 'w) coinbase_state \<Rightarrow> nat \<times> 'a \<Rightarrow> 'a \<times> 'v" where
  "parent_contribution env n s = (\<lambda>(proportion, parent).
     (let fx = se_price env;
          parent_proportion = proportion_of fx proportion;
          parent_root = of_u64 fx (get_stake_for_hotkey_on_subnet parent root_netuid (cb_staking s));
          parent_alpha = of_u64 fx (get_stake_for_hotkey_on_subnet parent n (cb_staking s))
      in (parent, f_add fx (f_mul fx parent_alpha parent_proportion)
                    (f_mul fx (f_mul fx parent_root parent_proportion) (get_tao_weight env s)))))"

text \<open>The state of the distribution loop: the tuples, what remains and the childkey take.\<close>

definition pay_parent ::
    "('v, 'z) ufixed_scheme \<Rightarrow> 'v \<Rightarrow> 'v \<Rightarrow> 'v \<Rightarrow> ('a \<Rightarrow> bool) \<Rightarrow> ('a \<times> nat) list \<times> 'v \<times> 'v \<Rightarrow> 'a \<times> 'v \<Rightarrow>
     ('a \<times> nat) list \<times> 'v \<times> 'v" where
  "pay_parent fx validating_emission total_contribution childkey_take_proportion same_owner =
     (\<lambda>(dividend_tuples, remaining_emission, total_child_emission_take) (parent, contribution).
     (let emission_factor = f_div_or fx contribution total_contribution (of_u64 fx 0);
          parent_emission = f_mul fx validating_emission emission_factor;
          remaining_emission = f_sub fx remaining_emission parent_emission;
          child_emission_take = (if same_owner parent then of_u64 fx 0
                                 else f_mul fx childkey_take_proportion parent_emission);
          parent_emission = f_sub fx parent_emission child_emission_take
      in (dividend_tuples @ [(parent, to_u64 fx parent_emission)], remaining_emission,
          f_add fx total_child_emission_take child_emission_take)))"

definition get_parent_child_dividends_distribution ::
    "('a, 'h, 'f, 'u, 'i, 'v, 'w, 'c, 'g) coinbase_env \<Rightarrow> 'a \<Rightarrow> netuid \<Rightarrow> nat \<Rightarrow> ('a, 'h, 'u, 'w) coinbase_state \<Rightarrow>
     ('a \<times> nat) list" where
  "get_parent_child_dividends_distribution env hotkey n dividends s =
     (let fx = se_price env; senv = staking_env.truncate env;
          validating_emission = of_u64 fx dividends;
          childkey_take_proportion =
            f_safe_div fx (of_u64 fx (get_childkey_take (cb_children s) hotkey n)) (of_u64 fx u16_max);
          childkey_owner = get_owning_coldkey_for_hotkey senv hotkey (cb_staking s);
          total_contribution = f_add fx (of_u64 fx 0) (of_u64 fx (get_self_contribution env hotkey n s));
          parent_contributions = map (parent_contribution env n s) (get_parents (cb_children s) hotkey n);
          total_contribution = foldl (\<lambda>t (_, c). f_add fx t c) total_contribution parent_contributions;
          same_owner = (\<lambda>parent. get_owning_coldkey_for_hotkey senv parent (cb_staking s) = childkey_owner);
          (dividend_tuples, remaining_emission, total_child_emission_take) =
            foldl (pay_parent fx validating_emission total_contribution childkey_take_proportion same_owner)
              ([], validating_emission, of_u64 fx 0) parent_contributions;
          child_emission = to_u64 fx (f_add fx remaining_emission total_child_emission_take)
      in dividend_tuples @ [(hotkey, child_emission)])"

section \<open>Dividends and incentives of a subnet\<close>

text \<open>\<open>entry(k).and_modify(f).or_insert(v)\<close>.\<close>

definition entry_or :: "'k::linorder \<Rightarrow> ('v \<Rightarrow> 'v) \<Rightarrow> 'v \<Rightarrow> ('k \<times> 'v) list \<Rightarrow> ('k \<times> 'v) list" where
  "entry_or k f v m = smap_put k (case map_of m k of Some x \<Rightarrow> f x | None \<Rightarrow> v) m"

definition calculate_dividends_and_incentives ::
    "('a::linorder, 'h, 'f, 'u, 'i, 'v, 'w, 'c, 'g) coinbase_env \<Rightarrow> netuid \<Rightarrow> ('a \<times> nat \<times> nat) list \<Rightarrow>
     ('a, 'h, 'u, 'w) coinbase_state \<Rightarrow> ('a \<times> nat) list \<times> ('a \<times> 'v) list" where
  "calculate_dividends_and_incentives env n hotkey_emission s =
     foldl (\<lambda>(incentives, dividends) (hotkey, incentive, dividend).
         (let fx = se_price env;
              incentives = entry_or hotkey (\<lambda>e. sat_add u64_max e incentive) incentive incentives;
              div_tuples = get_parent_child_dividends_distribution env hotkey n dividend s;
              dividends = foldl (\<lambda>m (parent, parent_div).
                entry_or parent (\<lambda>e. f_add fx e (of_u64 fx parent_div)) (of_u64 fx parent_div) m)
                dividends div_tuples
          in (incentives, dividends)))
       ([], []) hotkey_emission"

record ('a, 'v) split_dividends =
  sd_total_root :: 'v
  sd_total_alpha :: 'v
  sd_root :: "('a \<times> 'v) list"
  sd_alpha :: "('a \<times> 'v) list"

definition split_dividend ::
    "('v, 'z) ufixed_scheme \<Rightarrow> 'v \<Rightarrow> ('a::linorder \<times> nat \<times> nat) list \<Rightarrow> ('a, 'v) split_dividends \<Rightarrow>
     'a \<times> 'v \<Rightarrow> ('a, 'v) split_dividends" where
  "split_dividend fx tao_weight stake_map d = (\<lambda>(hotkey, dividend).
     (case map_of stake_map hotkey of
        None \<Rightarrow> d
      | Some (alpha_stake_u64, root_stake_u64) \<Rightarrow>
          let alpha_stake = of_u64 fx alpha_stake_u64;
              root_stake = of_u64 fx root_stake_u64;
              root_alpha = f_mul fx root_stake tao_weight;
              total_alpha = f_add fx alpha_stake root_alpha;
              root_prop = f_div_or fx root_alpha total_alpha (of_u64 fx 0);
              root_divs = f_mul fx dividend root_prop;
              alpha_divs = f_sub fx dividend root_divs
          in \<lparr>sd_total_root = f_add fx (sd_total_root d) root_divs,
              sd_total_alpha = f_add fx (sd_total_alpha d) alpha_divs,
              sd_root = entry_or hotkey (\<lambda>e. f_add fx e root_divs) root_divs (sd_root d),
              sd_alpha = entry_or hotkey (\<lambda>e. f_add fx e alpha_divs) alpha_divs (sd_alpha d)\<rparr>))"

text \<open>The part of \<open>pending\<close> that each entry has of the total.\<close>

definition proportional ::
    "('v, 'z) ufixed_scheme \<Rightarrow> nat \<Rightarrow> 'v \<Rightarrow> ('a::linorder \<times> 'v) list \<Rightarrow> ('a \<times> 'v) list" where
  "proportional fx pending total_divs divs =
     foldl (\<lambda>m (hotkey, d).
         (let share = f_div_or fx d total_divs (of_u64 fx 0);
              part = f_mul fx (of_u64 fx pending) share
          in entry_or hotkey (\<lambda>_. part) part m))
       [] divs"

definition calculate_dividend_distribution ::
    "('v, 'z) ufixed_scheme \<Rightarrow> nat \<Rightarrow> nat \<Rightarrow> 'v \<Rightarrow> ('a::linorder \<times> nat \<times> nat) list \<Rightarrow> ('a \<times> 'v) list \<Rightarrow>
     ('a \<times> 'v) list \<times> ('a \<times> 'v) list" where
  "calculate_dividend_distribution fx pending_alpha pending_tao tao_weight stake_map dividends =
     (let d = foldl (split_dividend fx tao_weight stake_map)
            \<lparr>sd_total_root = of_u64 fx 0, sd_total_alpha = of_u64 fx 0, sd_root = [], sd_alpha = []\<rparr> dividends;
          tao_dividends = proportional fx pending_tao (sd_total_root d) (sd_root d);
          prop_alpha_dividends = proportional fx pending_alpha (sd_total_alpha d) (sd_alpha d)
      in (prop_alpha_dividends, tao_dividends))"

definition get_stake_map ::
    "netuid \<Rightarrow> 'a::linorder list \<Rightarrow> ('a, 'h, 'u, 'w) coinbase_state \<Rightarrow> ('a \<times> nat \<times> nat) list" where
  "get_stake_map n hotkeys s =
     foldl (\<lambda>m hotkey. smap_put hotkey (get_stake_for_hotkey_on_subnet hotkey n (cb_staking s),
         get_stake_for_hotkey_on_subnet hotkey root_netuid (cb_staking s)) m) [] hotkeys"

definition calculate_dividend_and_incentive_distribution ::
    "('a::linorder, 'h, 'f, 'u, 'i, 'v, 'w, 'c, 'g) coinbase_env \<Rightarrow> netuid \<Rightarrow> nat \<Rightarrow> nat \<Rightarrow> ('a \<times> nat \<times> nat) list \<Rightarrow> 'v \<Rightarrow>
     ('a, 'h, 'u, 'w) coinbase_state \<Rightarrow> ('a \<times> nat) list \<times> ('a \<times> 'v) list \<times> ('a \<times> 'v) list" where
  "calculate_dividend_and_incentive_distribution env n pending_tao pending_validator_alpha hotkey_emission tao_weight s =
     (let (incentives, dividends) = calculate_dividends_and_incentives env n hotkey_emission s;
          stake_map = get_stake_map n (map fst dividends) s
      in (incentives, calculate_dividend_distribution (se_price env) pending_validator_alpha pending_tao tao_weight
            stake_map dividends))"

section \<open>Distribution\<close>

definition cb_increase ::
    "('a, 'h, 'f, 'u, 'i, 'v, 'w, 'c, 'g) coinbase_env \<Rightarrow> 'a \<Rightarrow> 'a \<Rightarrow> netuid \<Rightarrow> nat \<Rightarrow> ('a, 'h, 'u, 'w) coinbase_state \<Rightarrow>
     nat \<times> ('a, 'h, 'u, 'w) coinbase_state" where
  "cb_increase env hotkey coldkey n amount s =
     (let (actual, st) = increase_stake_for_hotkey_and_coldkey_on_subnet (staking_env.truncate env) hotkey coldkey n amount
            (cb_staking s)
      in (actual, s\<lparr>cb_staking := st\<rparr>))"

definition cb_increase_all ::
    "('a, 'h, 'f, 'u, 'i, 'v, 'w, 'c, 'g) coinbase_env \<Rightarrow> 'a \<Rightarrow> netuid \<Rightarrow> nat \<Rightarrow> ('a, 'h, 'u, 'w) coinbase_state \<Rightarrow>
     ('a, 'h, 'u, 'w) coinbase_state" where
  "cb_increase_all env hotkey n amount s =
     s\<lparr>cb_staking := increase_stake_for_hotkey_on_subnet (staking_env.truncate env) hotkey n amount (cb_staking s)\<rparr>"

definition cb_owner_of ::
    "('a, 'h, 'f, 'u, 'i, 'v, 'w, 'c, 'g) coinbase_env \<Rightarrow> 'a \<Rightarrow> ('a, 'h, 'u, 'w) coinbase_state \<Rightarrow> 'a" where
  "cb_owner_of env hotkey s = get_owning_coldkey_for_hotkey (staking_env.truncate env) hotkey (cb_staking s)"

definition pay_owner ::
    "('a, 'h, 'f, 'u, 'i, 'v, 'w, 'c, 'g) coinbase_env \<Rightarrow> netuid \<Rightarrow> nat \<Rightarrow> ('a, 'h, 'u, 'w) coinbase_state \<Rightarrow>
     ('a, 'h, 'u, 'w) coinbase_state" where
  "pay_owner env n owner_cut s =
     (case cb_SubnetOwner s n of
        None \<Rightarrow> s
      | Some owner_coldkey \<Rightarrow>
          (case SubnetOwnerHotkey (e_neurons (cb_epoch s)) n of
             None \<Rightarrow> s
           | Some owner_hotkey \<Rightarrow> snd (cb_increase env owner_hotkey owner_coldkey n owner_cut s)))"

definition pay_incentive ::
    "('a, 'h, 'f, 'u, 'i, 'v, 'w, 'c, 'g) coinbase_env \<Rightarrow> netuid \<Rightarrow> ('a, 'h, 'u, 'w) coinbase_state \<Rightarrow> 'a \<times> nat \<Rightarrow>
     ('a, 'h, 'u, 'w) coinbase_state" where
  "pay_incentive env n s = (\<lambda>(hotkey, incentive).
     if SubnetOwnerHotkey (e_neurons (cb_epoch s)) n = Some hotkey then s
     else snd (cb_increase env hotkey (cb_owner_of env hotkey s) n incentive s))"

definition pay_alpha_dividend ::
    "('a, 'h, 'f, 'u, 'i, 'v, 'w, 'c, 'g) coinbase_env \<Rightarrow> netuid \<Rightarrow> ('a, 'h, 'u, 'w) coinbase_state \<Rightarrow> 'a \<times> 'v \<Rightarrow>
     ('a, 'h, 'u, 'w) coinbase_state" where
  "pay_alpha_dividend env n s = (\<lambda>(hotkey, alpha_divs).
     (let fx = se_price env;
          alpha_take = f_mul fx (get_hotkey_take_float env hotkey s) alpha_divs;
          alpha_divs = f_sub fx alpha_divs alpha_take;
          s = snd (cb_increase env hotkey (cb_owner_of env hotkey s) n (to_u64 fx alpha_take) s);
          s = cb_increase_all env hotkey n (to_u64 fx alpha_divs) s;
          divs = cb_AlphaDividendsPerSubnet s n;
          s = s\<lparr>cb_AlphaDividendsPerSubnet := (cb_AlphaDividendsPerSubnet s)
                 (n := divs(hotkey := sat_add u64_max (divs hotkey) (to_u64 fx alpha_divs)))\<rparr>;
          total_hotkey_alpha = total_hotkey_alpha (st_alpha (cb_staking s)) hotkey n
      in s\<lparr>cb_TotalHotkeyAlphaLastEpoch := (cb_TotalHotkeyAlphaLastEpoch s)
             (hotkey := (cb_TotalHotkeyAlphaLastEpoch s hotkey)(n := total_hotkey_alpha))\<rparr>))"

definition pay_root_dividend ::
    "('a, 'h, 'f, 'u, 'i, 'v, 'w, 'c, 'g) coinbase_env \<Rightarrow> netuid \<Rightarrow> ('a, 'h, 'u, 'w) coinbase_state \<Rightarrow> 'a \<times> 'v \<Rightarrow>
     ('a, 'h, 'u, 'w) coinbase_state" where
  "pay_root_dividend env n s = (\<lambda>(hotkey, root_tao).
     (let fx = se_price env;
          tao_take = f_mul fx (get_hotkey_take_float env hotkey s) root_tao;
          root_tao = f_sub fx root_tao tao_take;
          (validator_stake, s) = cb_increase env hotkey (cb_owner_of env hotkey s) root_netuid (to_u64 fx tao_take) s;
          s = cb_increase_all env hotkey root_netuid (to_u64 fx root_tao) s;
          divs = cb_TaoDividendsPerSubnet s n;
          s = s\<lparr>cb_TaoDividendsPerSubnet := (cb_TaoDividendsPerSubnet s)
                 (n := divs(hotkey := sat_add u64_max (divs hotkey) (to_u64 fx root_tao)))\<rparr>;
          pool = cb_pool s
      in set_cb_pool (pool\<lparr>SubnetTAO := (SubnetTAO pool)(root_netuid :=
           sat_add u64_max (sat_add u64_max (SubnetTAO pool root_netuid) validator_stake) (to_u64 fx root_tao))\<rparr>) s))"

definition distribute_dividends_and_incentives ::
    "('a, 'h, 'f, 'u, 'i, 'v, 'w, 'c, 'g) coinbase_env \<Rightarrow> netuid \<Rightarrow> nat \<Rightarrow> ('a \<times> nat) list \<Rightarrow> ('a \<times> 'v) list \<Rightarrow> ('a \<times> 'v) list \<Rightarrow>
     ('a, 'h, 'u, 'w) coinbase_state \<Rightarrow> ('a, 'h, 'u, 'w) coinbase_state" where
  "distribute_dividends_and_incentives env n owner_cut incentives alpha_dividends tao_dividends s =
     (let s = pay_owner env n owner_cut s;
          s = foldl (pay_incentive env n) s incentives;
          s = s\<lparr>cb_AlphaDividendsPerSubnet := (cb_AlphaDividendsPerSubnet s)(n := (\<lambda>_. 0))\<rparr>;
          s = foldl (pay_alpha_dividend env n) s alpha_dividends;
          s = s\<lparr>cb_TaoDividendsPerSubnet := (cb_TaoDividendsPerSubnet s)(n := (\<lambda>_. 0))\<rparr>
      in foldl (pay_root_dividend env n) s tao_dividends)"

text \<open>The sum of the incentives wraps: release builds do not check it.\<close>

definition drain_pending_emission ::
    "('a::linorder, 'h, 'f, 'u, 'i, 'v, 'w, 'c, 'g) coinbase_env \<Rightarrow> netuid \<Rightarrow> nat \<Rightarrow> nat \<Rightarrow> nat \<Rightarrow> nat \<Rightarrow>
     ('a, 'h, 'u, 'w) coinbase_state \<Rightarrow> ('a, 'h, 'u, 'w) coinbase_state option" where
  "drain_pending_emission env n pending_alpha pending_tao pending_swapped owner_cut s =
     do {
       let tao_weight = get_tao_weight env s;
       let eenv = \<lparr>ee_block = env_block env, ee_fixed = ce_epoch_fixed env,
                   ee_total_stake = (\<lambda>m. fst (get_stake_weights_for_network env m s)),
                   ee_key_order = ce_key_order env\<rparr>;
       (hotkey_emission, e) \<leftarrow> epoch eenv n (sat_add u64_max pending_alpha pending_swapped) (cb_epoch s);
       let s = s\<lparr>cb_epoch := e\<rparr>;
       let incentive_sum = sum_list (map (\<lambda>(_, incentive, _). incentive) hotkey_emission) mod (u64_max + 1);
       let pending_validator_alpha =
         (if incentive_sum \<noteq> 0 then sat_add u64_max pending_alpha pending_swapped div 2 - pending_swapped
          else pending_alpha);
       let (incentives, alpha_dividends, tao_dividends) =
         calculate_dividend_and_incentive_distribution env n pending_tao pending_validator_alpha hotkey_emission tao_weight s;
       Some (distribute_dividends_and_incentives env n owner_cut incentives alpha_dividends tao_dividends s)
     }"

section \<open>Reveals at the epoch\<close>

definition check_min_stake ::
    "('a, 'h, 'f, 'u, 'i, 'v, 'w, 'c, 'g) coinbase_env \<Rightarrow> ('a, 'h, 'u, 'w) coinbase_state \<Rightarrow> 'a \<Rightarrow> netuid \<Rightarrow> bool" where
  "check_min_stake env s hotkey n \<longleftrightarrow>
     (let (total_stake, _, _) = get_stake_weights_for_hotkey_on_subnet env hotkey n s
      in total_stake \<ge> int (e_StakeThreshold (cb_epoch s)) * 2 ^ 64)"

definition strip_hex_prefix :: "nat list \<Rightarrow> nat list" where
  "strip_hex_prefix sig = (case sig of a # b # rest \<Rightarrow> if a = 48 \<and> b = 120 then rest else sig | _ \<Rightarrow> sig)"

text \<open>One entry of the queue: any failure skips it.\<close>

definition reveal_crv3_entry ::
    "('a, 'h, 'f, 'u, 'i, 'v, 'w, 'c, 'g) coinbase_env \<Rightarrow> netuid \<Rightarrow> ('a, 'h, 'u, 'w) coinbase_state \<Rightarrow> 'a \<times> nat list \<times> nat \<Rightarrow>
     ('a, 'h, 'u, 'w) coinbase_state" where
  "reveal_crv3_entry env n s = (\<lambda>(who, serialized_commit, round_number).
     (let payload = do {
            commit \<leftarrow> tle_commit env serialized_commit;
            pulse_signature \<leftarrow> Pulses s round_number;
            sig \<leftarrow> tle_signature env (strip_hex_prefix pulse_signature);
            decrypted_bytes \<leftarrow> tld env commit sig;
            decode_payload env decrypted_bytes
          }
      in case payload of
           None \<Rightarrow> s
         | Some (uids, weights, version_key) \<Rightarrow>
             let wenv = (ce_weights env)\<lparr>we_block := env_block env, check_weights_min_stake := check_min_stake env s\<rparr>
             in case do_set_weights wenv (Signed who) n uids weights version_key (e_weights (cb_epoch s)) of
                  Inl _ \<Rightarrow> s
                | Inr w \<Rightarrow> s\<lparr>cb_epoch := (cb_epoch s)\<lparr>e_weights := w\<rparr>\<rparr>))"

definition set_crv3 ::
    "netuid \<Rightarrow> (nat \<Rightarrow> ('a \<times> nat list \<times> nat) list) \<Rightarrow> ('a, 'h, 'u, 'w) coinbase_state \<Rightarrow> ('a, 'h, 'u, 'w) coinbase_state" where
  "set_crv3 n c s = s\<lparr>cb_epoch := (cb_epoch s)\<lparr>e_weights := (e_weights (cb_epoch s))
     \<lparr>CRV3WeightCommits := (CRV3WeightCommits (e_weights (cb_epoch s)))(n := c)\<rparr>\<rparr>\<rparr>"

definition reveal_crv3_commits ::
    "('a, 'h, 'f, 'u, 'i, 'v, 'w, 'c, 'g) coinbase_env \<Rightarrow> netuid \<Rightarrow> ('a, 'h, 'u, 'w) coinbase_state \<Rightarrow>
     ('a, 'h, 'u, 'w) coinbase_state" where
  "reveal_crv3_commits env n s =
     (let w = e_weights (cb_epoch s);
          cur_epoch = get_epoch_index w n (env_block env);
          reveal_epoch = cur_epoch - (get_reveal_period w n - 1);
          commits = (\<lambda>e. if e < reveal_epoch then [] else CRV3WeightCommits w n e);
          s = set_crv3 n commits s
      in if cur_epoch < 2 then s
         else foldl (reveal_crv3_entry env n) (set_crv3 n (commits(reveal_epoch := [])) s) (commits reveal_epoch))"

section \<open>The coinbase\<close>

definition drain_subnet ::
    "('a::linorder, 'h, 'f, 'u, 'i, 'v, 'w, 'c, 'g) coinbase_env \<Rightarrow> netuid \<Rightarrow> ('a, 'h, 'u, 'w) coinbase_state \<Rightarrow>
     ('a, 'h, 'u, 'w) coinbase_state option" where
  "drain_subnet env n s =
     (let current_block = env_block env in
      if should_run_epoch (e_weights (cb_epoch s)) n current_block
      then let s = reveal_crv3_commits env n s;
               pending_alpha = PendingEmission s n;
               pending_tao = PendingRootDivs s n;
               pending_swapped = PendingAlphaSwapped s n;
               owner_cut = PendingOwnerCut s n;
               s = s\<lparr>BlocksSinceLastStep := (BlocksSinceLastStep s)(n := 0),
                     LastMechansimStepBlock := (LastMechansimStepBlock s)(n := current_block),
                     PendingEmission := (PendingEmission s)(n := 0),
                     PendingRootDivs := (PendingRootDivs s)(n := 0),
                     PendingAlphaSwapped := (PendingAlphaSwapped s)(n := 0),
                     PendingOwnerCut := (PendingOwnerCut s)(n := 0)\<rparr>
           in drain_pending_emission env n pending_alpha pending_tao pending_swapped owner_cut s
      else Some (s\<lparr>BlocksSinceLastStep := (BlocksSinceLastStep s)(n := sat_add u64_max (BlocksSinceLastStep s n) 1)\<rparr>))"

primrec drain_subnets ::
    "('a::linorder, 'h, 'f, 'u, 'i, 'v, 'w, 'c, 'g) coinbase_env \<Rightarrow> netuid list \<Rightarrow> ('a, 'h, 'u, 'w) coinbase_state \<Rightarrow>
     ('a, 'h, 'u, 'w) coinbase_state option" where
  "drain_subnets env [] s = Some s"
| "drain_subnets env (n # ns) s = Option.bind (drain_subnet env n s) (drain_subnets env ns)"

definition emit_to_subnets ::
    "('a, 'h, 'f, 'u, 'i, 'v, 'w, 'c, 'g) coinbase_env \<Rightarrow> 'v \<Rightarrow> ('a, 'h, 'u, 'w) coinbase_state \<Rightarrow>
     ('a, 'h, 'u, 'w) coinbase_state" where
  "emit_to_subnets env block_emission s =
     (let ns = subnets_to_emit_to s;
          total_prices = total_moving_prices env s;
          (terms, s) = foldl (subnet_terms env block_emission total_prices) (([], [], []), s) ns;
          s = fold (inject env terms) ns s;
          cut_percent = get_float_subnet_owner_cut env s;
          (alpha_out, s) = foldl (cut_owner env cut_percent) (snd (snd terms), s) ns;
          s = fold (sell_root_alpha env alpha_out) ns s
      in fold (update_moving_price env) ns s)"

definition run_coinbase ::
    "('a::linorder, 'h, 'f, 'u, 'i, 'v, 'w, 'c, 'g) coinbase_env \<Rightarrow> 'v \<Rightarrow> ('a, 'h, 'u, 'w) coinbase_state \<Rightarrow>
     ('a, 'h, 'u, 'w) coinbase_state option" where
  "run_coinbase env block_emission s =
     drain_subnets env (coinbase_subnets s) (emit_to_subnets env block_emission s)"

section \<open>A concrete state\<close>

text \<open>Subnet 2 emits; hotkey 5 is a child of hotkey 6 there, with a take of ten percent.\<close>

definition sample_coinbase :: "nat \<Rightarrow> (nat, nat, nat, nat \<Rightarrow> nat) coinbase_state" where
  "sample_coinbase issuance = \<lparr>cb_epoch = sample_epoch False,
     cb_staking = sample_staking \<lparr>Alpha = (\<lambda>_ _ _. None), TotalHotkeyAlpha = (\<lambda>h n. if h = 5 \<or> h = 6 then Some 1000000 else None),
       TotalHotkeyShares = (\<lambda>_ _. None)\<rparr>,
     cb_children = sample_family\<lparr>ParentKeys := (\<lambda>h n. if h = 5 then [(9223372036854775807, 6)] else []),
       ChildkeyTake := (\<lambda>_ _. 6553)\<rparr>,
     cb_TotalIssuance = issuance, TotalSupply = 21000000000000000, BlockEmission = 1000000000, TaoWeight = 3320413933267719290,
     SubnetOwnerCut = 11796, cb_SubnetOwner = (\<lambda>_. Some 40), FirstEmissionBlockNumber = (\<lambda>n. if n = 2 then Some 1 else None),
     cb_NetworkRegistrationAllowed = (\<lambda>_. True), cb_NetworkPowRegistrationAllowed = (\<lambda>_. False),
     SubnetMovingPrice = (\<lambda>_. 2147483648), SubnetMovingAlpha = 12884, EMAPriceHalvingBlocks = (\<lambda>_. 201600),
     SubnetAlphaInEmission = (\<lambda>_. 0), SubnetAlphaOutEmission = (\<lambda>_. 0), SubnetTaoInEmission = (\<lambda>_. 0),
     PendingEmission = (\<lambda>_. 0), PendingRootDivs = (\<lambda>_. 0), PendingAlphaSwapped = (\<lambda>_. 0), PendingOwnerCut = (\<lambda>_. 0),
     BlocksSinceLastStep = (\<lambda>_. 0), LastMechansimStepBlock = (\<lambda>_. 0), cb_AlphaDividendsPerSubnet = (\<lambda>_ _. 0),
     cb_TaoDividendsPerSubnet = (\<lambda>_ _. 0), cb_TotalHotkeyAlphaLastEpoch = (\<lambda>_ _. 0), Pulses = (\<lambda>_. None)\<rparr>"

end
