(* ===== verification/Block_Emission.thy ===== *)
theory Block_Emission
  imports Coinbase "HOL-Library.Log_Nat"
begin

text \<open>
  The issuance curve of \<open>coinbase/block_emission.rs\<close> against its reference, the halving schedule. The
  curve is computed with \<open>I96F32\<close> numbers and the base two logarithm of \<open>substrate_fixed\<close>; what is
  relied on of them is \<open>i96_ok\<close>: exact results rounded down, and the integer part of the logarithm.
\<close>

definition i96_ok :: "i96_ops \<Rightarrow> bool" where
  "i96_ok I \<longleftrightarrow>
     (\<forall>n \<le> u64_max. i96_from I n = int n * 2 ^ 32) \<and>
     (\<forall>x y. 0 \<le> x \<longrightarrow> 0 < y \<longrightarrow> x * 2 ^ 32 div y \<le> i128_top \<longrightarrow> i96_checked_div I x y = Some (x * 2 ^ 32 div y)) \<and>
     (\<forall>x y. 0 \<le> y \<longrightarrow> y \<le> x \<longrightarrow> i96_checked_sub I x y = Some (x - y)) \<and>
     (\<forall>x y. 0 \<le> x \<longrightarrow> 0 \<le> y \<longrightarrow> x * y div 2 ^ 32 \<le> i128_top \<longrightarrow> i96_saturating_mul I x y = x * y div 2 ^ 32) \<and>
     (\<forall>x k. 2 ^ (32 + k) \<le> x \<longrightarrow> x < 2 ^ (33 + k) \<longrightarrow>
        (\<exists>l. i96_log2 I x = Some l \<and> int k * 2 ^ 32 \<le> l \<and> l < (int k + 1) * 2 ^ 32)) \<and>
     (\<forall>x. 0 \<le> x \<longrightarrow> i96_floor I x = x div 2 ^ 32 * 2 ^ 32) \<and>
     (\<forall>x. 0 \<le> x \<longrightarrow> i96_to_u64 I x = min u64_max (nat (x div 2 ^ 32)))"

lemma i96_okD:
  assumes "i96_ok I"
  shows "n \<le> u64_max \<Longrightarrow> i96_from I n = int n * 2 ^ 32"
    "0 \<le> x \<Longrightarrow> 0 < y \<Longrightarrow> x * 2 ^ 32 div y \<le> i128_top \<Longrightarrow> i96_checked_div I x y = Some (x * 2 ^ 32 div y)"
    "0 \<le> y \<Longrightarrow> y \<le> x \<Longrightarrow> i96_checked_sub I x y = Some (x - y)"
    "0 \<le> x \<Longrightarrow> 0 \<le> y \<Longrightarrow> x * y div 2 ^ 32 \<le> i128_top \<Longrightarrow> i96_saturating_mul I x y = x * y div 2 ^ 32"
    "2 ^ (32 + k) \<le> x \<Longrightarrow> x < 2 ^ (33 + k) \<Longrightarrow>
       \<exists>l. i96_log2 I x = Some l \<and> int k * 2 ^ 32 \<le> l \<and> l < (int k + 1) * 2 ^ 32"
    "0 \<le> x \<Longrightarrow> i96_floor I x = x div 2 ^ 32 * 2 ^ 32"
    "0 \<le> x \<Longrightarrow> i96_to_u64 I x = min u64_max (nat (x div 2 ^ 32))"
  using assms unfolding i96_ok_def by blast+

text \<open>The supply at which the curve ends, 21 million TAO in rao.\<close>

definition full_supply :: int where "full_supply = 21000000000000000"

text \<open>The rounded residual passes a power of two exactly where the schedule halves.\<close>

definition residual_arg :: "int \<Rightarrow> int" where
  "residual_arg iss = 2 ^ 64 div (2 ^ 32 - iss * 2 ^ 32 div full_supply)"

lemma int_le_div:
  assumes "0 < (c::int)"
  shows "y \<le> x div c \<longleftrightarrow> y * c \<le> x"
proof
  assume "y \<le> x div c"
  then have "y * c \<le> x div c * c" using assms by simp
  also have "\<dots> \<le> x" using div_mult_mod_eq[of x c] pos_mod_sign[OF assms, of x] by linarith
  finally show "y * c \<le> x" .
next
  assume "y * c \<le> x"
  from zdiv_mono1[OF this assms] show "y \<le> x div c" using assms by simp
qed

lemma ratio_bounds:
  assumes "0 \<le> iss" "iss < full_supply"
  shows "0 \<le> iss * 2 ^ 32 div full_supply" "iss * 2 ^ 32 div full_supply < 2 ^ 32"
proof -
  show "0 \<le> iss * 2 ^ 32 div full_supply" using assms by (simp add: full_supply_def)
  show "iss * 2 ^ 32 div full_supply < 2 ^ 32" 
    using assms int_le_div[of full_supply "2 ^ 32" "iss * 2 ^ 32"] by (simp add: full_supply_def not_le[symmetric])
qed

lemma halving_point:
  assumes "0 \<le> iss" "iss < full_supply" "j \<le> 32"
  shows "2 ^ (32 + j) \<le> residual_arg iss \<longleftrightarrow> 2 ^ j * (full_supply - iss) \<le> full_supply"
proof -
  define q where "q = iss * 2 ^ 32 div full_supply"
  have q: "0 < 2 ^ 32 - q" using ratio_bounds[OF assms(1,2)] by (simp add: q_def)
  have e: "(2::int) ^ 64 = 2 ^ (32 + j) * 2 ^ (32 - j)" "(2::int) ^ 32 = 2 ^ j * 2 ^ (32 - j)"
    using assms(3) by (simp_all flip: power_add)
  have S: "0 < full_supply" by (simp add: full_supply_def)
  have "2 ^ (32 + j) \<le> residual_arg iss \<longleftrightarrow> 2 ^ (32 + j) * (2 ^ 32 - q) \<le> 2 ^ (32 + j) * 2 ^ (32 - j)"
    unfolding residual_arg_def q_def[symmetric] using q by (simp only: e(1) int_le_div)
  also have "\<dots> \<longleftrightarrow> 2 ^ 32 - q \<le> 2 ^ (32 - j)" by (rule mult_le_cancel_left_pos) simp
  also have "\<dots> \<longleftrightarrow> 2 ^ 32 - 2 ^ (32 - j) \<le> q" by linarith
  also have "\<dots> \<longleftrightarrow> (2 ^ 32 - 2 ^ (32 - j)) * full_supply \<le> iss * 2 ^ 32"
    unfolding q_def using S by (simp only: int_le_div)
  also have "\<dots> \<longleftrightarrow> 2 ^ (32 - j) * ((2 ^ j - 1) * full_supply) \<le> 2 ^ (32 - j) * (iss * 2 ^ j)"
    by (simp only: e(2)) (simp add: algebra_simps)
  also have "\<dots> \<longleftrightarrow> (2 ^ j - 1) * full_supply \<le> iss * 2 ^ j" by (rule mult_le_cancel_left_pos) simp
  also have "\<dots> \<longleftrightarrow> 2 ^ j * (full_supply - iss) \<le> full_supply" by (simp add: algebra_simps)
  finally show ?thesis .
qed

lemma residual_arg_range:
  assumes "0 \<le> iss" "iss < full_supply" "2 ^ k * (full_supply - iss) \<le> full_supply"
    and "full_supply < 2 ^ (k + 1) * (full_supply - iss)"
  shows "2 ^ (32 + min k 32) \<le> residual_arg iss" "residual_arg iss < 2 ^ (33 + min k 32)"
proof -
  have r: "1 \<le> 2 ^ 32 - iss * 2 ^ 32 div full_supply" using ratio_bounds[OF assms(1,2)] by linarith
  have "residual_arg iss \<le> 2 ^ 64 div 1" unfolding residual_arg_def by (rule zdiv_mono2) (use r in auto)
  then have top: "residual_arg iss < 2 ^ 65" by simp
  show "residual_arg iss < 2 ^ (33 + min k 32)"
  proof (cases "k < 32")
    case True
    with halving_point[OF assms(1,2), of "k + 1"] assms(4) show ?thesis by (simp add: not_le add.commute)
  qed (use top in \<open>simp add: min_def\<close>)
  have "(2::int) ^ min k 32 * (full_supply - iss) \<le> 2 ^ k * (full_supply - iss)"
    using assms(2) by (intro mult_right_mono power_increasing) auto
  then show "2 ^ (32 + min k 32) \<le> residual_arg iss"
    using halving_point[OF assms(1,2), of "min k 32"] assms(3) by simp
qed

lemma residual_value:
  assumes "i96_ok I" "0 \<le> iss" "iss < full_supply" "2 ^ (32 + k) \<le> residual_arg iss" "residual_arg iss < 2 ^ (33 + k)" "k \<le> 32"
  obtains l where "emission_residual I (iss * 2 ^ 32) = Inr l" "int k * 2 ^ 32 \<le> l" "l < (int k + 1) * 2 ^ 32"
proof -
  note i = i96_okD[OF assms(1)]
  have num: "i96_from I 1 = 2 ^ 32" "i96_from I 2 = 2 * 2 ^ 32" "i96_from I 10500000000000000 = 10500000000000000 * 2 ^ 32"
    using i(1)[of 1] i(1)[of 2] i(1)[of 10500000000000000] by (simp_all add: u64_max_def)
  have den: "i96_saturating_mul I (2 * 2 ^ 32) (10500000000000000 * 2 ^ 32) = full_supply * 2 ^ 32"
    by (subst i(4)) (simp_all add: i128_top_def full_supply_def)
  define q where "q = iss * 2 ^ 32 div full_supply"
  have q: "0 \<le> q" "q < 2 ^ 32" using ratio_bounds[OF assms(2,3)] by (simp_all add: q_def)
  have "iss * 2 ^ 32 * 2 ^ 32 div (full_supply * 2 ^ 32) = q" unfolding q_def by (rule div_mult_mult2) simp
  then have d1: "i96_checked_div I (iss * 2 ^ 32) (full_supply * 2 ^ 32) = Some q"
    using i(2)[of "iss * 2 ^ 32" "full_supply * 2 ^ 32"] assms(2) q by (simp add: full_supply_def i128_top_def)
  have d2: "i96_checked_sub I (2 ^ 32) q = Some (2 ^ 32 - q)" using i(3) q by simp
  have x: "2 ^ 32 * 2 ^ 32 div (2 ^ 32 - q) = residual_arg iss" by (simp add: residual_arg_def q_def)
  have "residual_arg iss < 2 ^ 65" using assms(5,6) power_increasing[of "33 + k" 65 "2::int"] by linarith
  then have d3: "i96_checked_div I (2 ^ 32) (2 ^ 32 - q) = Some (residual_arg iss)"
    using i(2)[of "2 ^ 32" "2 ^ 32 - q"] q unfolding x by (simp add: i128_top_def)
  from i(5)[OF assms(4,5)] obtain l where l: "i96_log2 I (residual_arg iss) = Some l" "int k * 2 ^ 32 \<le> l" "l < (int k + 1) * 2 ^ 32"
    by blast
  have "emission_residual I (iss * 2 ^ 32) = Inr l"
    unfolding emission_residual_def Let_def num den d1 d2 d3 l(1) ok_or_simps and_then_simps by (rule refl)
  then show thesis using l(2,3) by (rule that)
qed

lemma multiplier_value:
  assumes "i96_ok I" "k \<le> 32"
  shows "((\<lambda>m. i96_saturating_mul I m (i96_from I 2)) ^^ k) (i96_from I 1) = 2 ^ (32 + k)"
  using assms(2)
proof (induction k)
  case 0
  then show ?case using i96_okD(1)[OF assms(1), of 1] by (simp add: u64_max_def)
next
  case (Suc k)
  have "(2::int) ^ (32 + Suc k) \<le> 2 ^ 64" using Suc.prems by (intro power_increasing) auto
  moreover have "(2::int) ^ (32 + k) * (2 * 2 ^ 32) div 2 ^ 32 = 2 ^ (32 + Suc k)"
    by (simp add: power_add)
  ultimately show ?case using Suc i96_okD(1)[OF assms(1), of 2] i96_okD(4)[OF assms(1), of "2 ^ (32 + k)" "2 * 2 ^ 32"]
    by (simp add: u64_max_def i128_top_def)
qed

lemma floor_value:
  assumes "i96_ok I" "int m * 2 ^ 32 \<le> l" "l < (int m + 1) * 2 ^ 32" "m \<le> 32"
  shows "i96_to_u64 I (i96_floor I l) = m"
proof -
  have "0 \<le> l" using assms(2) by (rule order_trans[rotated]) simp
  moreover have "l div 2 ^ 32 = int m" by (rule int_div_pos_eq[of _ _ _ "l - int m * 2 ^ 32"]) (use assms(2,3) in auto)
  ultimately show ?thesis using i96_okD(6,7)[OF assms(1)] assms(4) by (simp add: u64_max_def)
qed

lemma percentage_value:
  assumes "i96_ok I" "m \<le> 32"
  shows "i96_to_u64 I (i96_saturating_mul I (case i96_checked_div I (i96_from I 1) (2 ^ (32 + m)) of
    Some q \<Rightarrow> q | None \<Rightarrow> i96_from I 0) (i96_from I DefaultBlockEmission)) = 1000000000 div 2 ^ m"
proof -
  have p: "(2::int) ^ 32 * 2 ^ 32 div 2 ^ (32 + m) = 2 ^ (32 - m)"
  proof -
    have "(2::int) ^ 32 * 2 ^ 32 = 2 ^ (32 - m) * 2 ^ (32 + m)" using assms(2) by (simp flip: power_add)
    moreover have "(2::int) ^ (32 - m) * 2 ^ (32 + m) div 2 ^ (32 + m) = 2 ^ (32 - m)"
      by (rule nonzero_mult_div_cancel_right) simp
    ultimately show ?thesis by (simp only:)
  qed
  have le: "(2::int) ^ (32 - m) \<le> 2 ^ 32" by (rule power_increasing) auto
  have num: "i96_from I 1 = 2 ^ 32" "i96_from I DefaultBlockEmission = 1000000000 * 2 ^ 32"
    using i96_okD(1)[OF assms(1), of 1] i96_okD(1)[OF assms(1), of 1000000000]
    by (simp_all add: u64_max_def DefaultBlockEmission_def)
  have d: "i96_checked_div I (2 ^ 32) (2 ^ (32 + m)) = Some (2 ^ (32 - m))"
    using i96_okD(2)[OF assms(1), of "2 ^ 32" "2 ^ (32 + m)"] le unfolding p by (simp add: i128_top_def)
  have m: "2 ^ (32 - m) * (1000000000 * 2 ^ 32) div 2 ^ 32 = (2 ^ (32 - m) * 1000000000 :: int)" by simp
  have mul: "i96_saturating_mul I (2 ^ (32 - m)) (1000000000 * 2 ^ 32) = 2 ^ (32 - m) * 1000000000"
    using i96_okD(4)[OF assms(1), of "2 ^ (32 - m)" "1000000000 * 2 ^ 32"] le unfolding m by (simp add: i128_top_def)
  have "(2::int) ^ (32 - m) * 1000000000 div 2 ^ 32 = 1000000000 div 2 ^ m"
  proof -
    have "(2::int) ^ 32 = 2 ^ (32 - m) * 2 ^ m" using assms(2) by (simp flip: power_add)
    moreover have "(2::int) ^ (32 - m) * 1000000000 div (2 ^ (32 - m) * 2 ^ m) = 1000000000 div 2 ^ m"
      by (rule div_mult_mult1) simp
    ultimately show ?thesis by (simp only:)
  qed
  moreover have "nat (1000000000 div 2 ^ m) = 1000000000 div 2 ^ m"
    using nat_div_distrib[of 1000000000 "2 ^ m"] by (simp add: nat_power_eq)
  ultimately show ?thesis unfolding num d option.case mul using i96_okD(7)[OF assms(1)]
    by (simp add: u64_max_def div_le_dividend le_trans[OF div_le_dividend] min_absorb2)
qed

lemma block_emission_value:
  fixes s :: "('a, 'h, 'u, 'w) coinbase_state"
  assumes "i96_ok I" "int (TotalSupply s) = full_supply" "issuance \<le> u64_max"
  shows "(full_supply \<le> int issuance \<longrightarrow> get_block_emission_for_issuance I issuance s = (Inr 0, s)) \<and>
    (int issuance < full_supply \<and> 2 ^ k * (full_supply - int issuance) \<le> full_supply \<and>
     full_supply < 2 ^ (k + 1) * (full_supply - int issuance) \<longrightarrow>
     get_block_emission_for_issuance I issuance s =
       (Inr (1000000000 div 2 ^ k), s\<lparr>BlockEmission := 1000000000 div 2 ^ k\<rparr>))"
proof -
  have S: "TotalSupply s \<le> u64_max" using assms(2) by (simp add: full_supply_def u64_max_def)
  have frm: "i96_from I issuance = int issuance * 2 ^ 32" "i96_from I (TotalSupply s) = full_supply * 2 ^ 32"
    using i96_okD(1)[OF assms(1)] assms(2,3) S by simp_all
  show ?thesis
  proof (intro conjI impI)
    assume "full_supply \<le> int issuance"
    then show "get_block_emission_for_issuance I issuance s = (Inr 0, s)"
      by (simp add: get_block_emission_for_issuance_def frm Let_def)
  next
    assume h: "int issuance < full_supply \<and> 2 ^ k * (full_supply - int issuance) \<le> full_supply \<and>
      full_supply < 2 ^ (k + 1) * (full_supply - int issuance)"
    define m where "m = min k 32"
    have "0 \<le> int issuance" "m \<le> 32" by (simp_all add: m_def)
    from residual_value[OF assms(1) this(1) _ _ _ this(2)] residual_arg_range[OF this(1)] h
    obtain l where l: "emission_residual I (int issuance * 2 ^ 32) = Inr l" "int m * 2 ^ 32 \<le> l" "l < (int m + 1) * 2 ^ 32"
      unfolding m_def by blast
    have fl: "i96_to_u64 I (i96_floor I l) = m" by (rule floor_value[OF assms(1) l(2,3)]) (simp add: m_def)
    have lt: "\<not> full_supply * 2 ^ 32 \<le> int issuance * 2 ^ 32" using h by simp
    have "get_block_emission_for_issuance I issuance s =
       (Inr (1000000000 div 2 ^ m), s\<lparr>BlockEmission := 1000000000 div 2 ^ m\<rparr>)"
      unfolding get_block_emission_for_issuance_def Let_def frm if_not_P[OF lt] l(1) sum.case fl
        multiplier_value[OF assms(1) \<open>m \<le> 32\<close>] percentage_value[OF assms(1) \<open>m \<le> 32\<close>]
      by simp
    moreover have "(1000000000::nat) div 2 ^ m = 1000000000 div 2 ^ k"
    proof (cases "k \<le> 32")
      case False
      then have "(2::nat) ^ 32 \<le> 2 ^ k" by (intro power_increasing) auto
      then have "(1000000000::nat) < 2 ^ k" by simp
      with False show ?thesis by (simp add: m_def)
    qed (simp add: m_def)
    ultimately show "get_block_emission_for_issuance I issuance s =
       (Inr (1000000000 div 2 ^ k), s\<lparr>BlockEmission := 1000000000 div 2 ^ k\<rparr>)" by simp
  qed
qed

text \<open>C13. The block emission computed from the logarithm of the issuance is exactly the halving
  schedule: below the supply of 21 million TAO it is one TAO halved once for every \<open>k\<close> with
  \<open>2^k\<close> times the rest at most the supply, and the value is stored; at the supply it is nothing.\<close>

theorem block_emission_schedule:
  fixes s :: "('a, 'h, 'u, 'w) coinbase_state"
  assumes "i96_ok I" "int (TotalSupply s) = full_supply" "issuance \<le> u64_max"
  shows "(full_supply \<le> int issuance \<longrightarrow> get_block_emission_for_issuance I issuance s = (Inr 0, s)) \<and>
    (int issuance < full_supply \<and> 2 ^ k * (full_supply - int issuance) \<le> full_supply \<and>
     full_supply < 2 ^ (k + 1) * (full_supply - int issuance) \<longrightarrow>
     get_block_emission_for_issuance I issuance s =
       (Inr (1000000000 div 2 ^ k), s\<lparr>BlockEmission := 1000000000 div 2 ^ k\<rparr>))"
  by (rule block_emission_value[OF assms])

section \<open>A concrete I96F32\<close>

text \<open>The exact arithmetic on the bits; the logarithm keeps its integer part only.\<close>

definition i96_bits :: i96_ops where
  "i96_bits = \<lparr>i96_from = (\<lambda>n. int n * 2 ^ 32),
     i96_checked_div = (\<lambda>x y. if y = 0 \<or> i128_top < x * 2 ^ 32 div y then None else Some (x * 2 ^ 32 div y)),
     i96_checked_sub = (\<lambda>x y. Some (x - y)),
     i96_saturating_mul = (\<lambda>x y. min i128_top (x * y div 2 ^ 32)),
     i96_log2 = (\<lambda>x. if x < 2 ^ 32 then None else Some (int (floorlog 2 (nat x) - 33) * 2 ^ 32)),
     i96_floor = (\<lambda>x. x div 2 ^ 32 * 2 ^ 32),
     i96_to_u64 = (\<lambda>x. min u64_max (nat (x div 2 ^ 32)))\<rparr>"

lemma floorlog_interval: "2 ^ (32 + k) \<le> x \<Longrightarrow> x < 2 ^ (33 + k) \<Longrightarrow> floorlog 2 (nat x) = 33 + k"
proof -
  assume a: "2 ^ (32 + k) \<le> x" "x < 2 ^ (33 + k)"
  then have "(2::nat) ^ (32 + k) \<le> nat x" "nat x < 2 ^ (33 + k)"
    by (simp_all add: le_nat_iff nat_less_iff)
  moreover from this(1) have "0 < nat x" by (rule less_le_trans[rotated]) simp
  from floorlog_bounds[OF this, of 2] have "2 ^ (floorlog 2 (nat x) - 1) \<le> nat x" "nat x < 2 ^ floorlog 2 (nat x)" by simp_all
  ultimately have "(2::nat) ^ (floorlog 2 (nat x) - 1) < 2 ^ (33 + k)" "(2::nat) ^ (32 + k) < 2 ^ floorlog 2 (nat x)"
    by linarith+
  then have "floorlog 2 (nat x) - 1 < 33 + k" "32 + k < floorlog 2 (nat x)"
    by (auto dest: power_less_imp_less_exp[rotated])
  then show ?thesis by simp
qed

lemma i96_bits_ok: "i96_ok i96_bits"
proof -
  have "(2::int) ^ 32 \<le> 2 ^ (32 + k)" for k by (rule power_increasing) auto
  then have "\<exists>l. i96_log2 i96_bits x = Some l \<and> int k * 2 ^ 32 \<le> l \<and> l < (int k + 1) * 2 ^ 32"
    if "2 ^ (32 + k) \<le> x" "x < 2 ^ (33 + k)" for x k
    using that floorlog_interval[OF that] order_trans[of "2 ^ 32" "2 ^ (32 + k)" x] by (simp add: i96_bits_def)
  moreover have "\<forall>n \<le> u64_max. i96_from i96_bits n = int n * 2 ^ 32" by (simp add: i96_bits_def)
  moreover have "\<forall>x y. 0 \<le> x \<longrightarrow> 0 < y \<longrightarrow> x * 2 ^ 32 div y \<le> i128_top \<longrightarrow> i96_checked_div i96_bits x y = Some (x * 2 ^ 32 div y)"
    by (simp add: i96_bits_def)
  moreover have "\<forall>x y. 0 \<le> x \<longrightarrow> 0 \<le> y \<longrightarrow> x * y div 2 ^ 32 \<le> i128_top \<longrightarrow> i96_saturating_mul i96_bits x y = x * y div 2 ^ 32"
    by (simp add: i96_bits_def)
  ultimately show ?thesis unfolding i96_ok_def by (simp add: i96_bits_def)
qed

text \<open>An issuance of 15 million TAO: one halving, half a TAO per block.\<close>

theorem block_emission_schedule_witness:
  "get_block_emission_for_issuance i96_bits 15000000000000000 (sample_coinbase 15000000000000000) =
     (Inr 500000000, (sample_coinbase 15000000000000000)\<lparr>BlockEmission := 500000000\<rparr>)"
proof -
  have "int (TotalSupply (sample_coinbase 15000000000000000)) = full_supply"
    by (simp add: sample_coinbase_def full_supply_def)
  from block_emission_schedule[OF i96_bits_ok this, of 15000000000000000 1] show ?thesis
    by (simp add: full_supply_def u64_max_def)
qed

end
