(* ===== verification/Coinbase_Facts.thy ===== *)
theory Coinbase_Facts
  imports Block_Emission
begin

text \<open>
  Properties of the coinbase: what it issues, what it hands to a hotkey and its parents, and
  what it distributes of the pending amounts. The interface \<open>price_arith\<close> is what the proofs use of
  \<open>U96F32\<close>, interpreted below on the exact arithmetic of its bits.
\<close>

section \<open>Arithmetic of U96F32\<close>

lemma f_div_or_zero: "f_div_or fx x y (of_u64 fx 0) = f_safe_div fx x y"
  by (simp add: f_div_or_def f_safe_div_def)

lemma sat_add_le_sum: "sat_add m x y \<le> x + y"
  by (simp add: sat_add_def)

definition bits_sum :: "('v, 'z) ufixed_scheme \<Rightarrow> ('k \<times> 'v) list \<Rightarrow> nat" where
  "bits_sum fx xs = sum_list (map (fbits fx \<circ> snd) xs)"

lemma bits_sum_simps [simp]:
  "bits_sum fx [] = 0" "bits_sum fx (p # xs) = fbits fx (snd p) + bits_sum fx xs"
  "bits_sum fx (xs @ ys) = bits_sum fx xs + bits_sum fx ys"
  by (simp_all add: bits_sum_def)

locale price_arith =
  fixes fx :: "('v, 'z) ufixed_scheme"
  assumes fx_ok: "ufixed_ok 32 fx"
begin

lemmas bits_rules = ufixed_okD[OF fx_ok] of_u64_0[OF fx_ok]

lemma bits_of_u64: "n \<le> u64_max \<Longrightarrow> fbits fx (of_u64 fx n) = n * 2 ^ 32"
  by (subst bits_rules(2)) (simp_all add: u64_max_def u128_max_def)

lemma to_of_u64: "n \<le> u64_max \<Longrightarrow> to_u64 fx (of_u64 fx n) = n"
  unfolding bits_rules(6) by (subst bits_of_u64) (simp_all add: u64_max_def)

lemma to_u64_below: "to_u64 fx x * 2 ^ 32 \<le> fbits fx x"
proof -
  have "min u64_max (fbits fx x div 2 ^ 32) * 2 ^ 32 \<le> fbits fx x div 2 ^ 32 * 2 ^ 32"
    by (intro mult_le_mono1) simp
  also have "\<dots> \<le> fbits fx x" by (rule div_times_less_eq_dividend)
  finally show ?thesis unfolding bits_rules(6) .
qed

lemma to_u64_above:
  assumes "fbits fx x \<le> u64_max * 2 ^ 32"
  shows "fbits fx x < to_u64 fx x * 2 ^ 32 + 2 ^ 32"
proof -
  have "fbits fx x div 2 ^ 32 \<le> u64_max" using div_le_mono[OF assms, of "2 ^ 32"] by simp
  then have "to_u64 fx x = fbits fx x div 2 ^ 32" unfolding bits_rules(6) by simp
  moreover have "fbits fx x < fbits fx x div 2 ^ 32 * 2 ^ 32 + 2 ^ 32"
    using dividend_less_div_times[of "2 ^ 32" "fbits fx x"] by (simp add: add.commute)
  ultimately show ?thesis by simp
qed

text \<open>A factor of at most one does not enlarge; a quotient of numbers in order is such a factor.\<close>

lemma mul_le:
  assumes "fbits fx t \<le> 2 ^ 32"
  shows "fbits fx (f_mul fx t x) \<le> fbits fx x" "fbits fx (f_mul fx x t) \<le> fbits fx x"
proof -
  have "fbits fx t * fbits fx x div 2 ^ 32 \<le> 2 ^ 32 * fbits fx x div 2 ^ 32"
    by (intro div_le_mono mult_le_mono1 assms)
  then have "fbits fx t * fbits fx x div 2 ^ 32 \<le> fbits fx x" by simp
  then show "fbits fx (f_mul fx t x) \<le> fbits fx x" "fbits fx (f_mul fx x t) \<le> fbits fx x"
    unfolding bits_rules(5) by (simp_all add: mult.commute min.coboundedI2)
qed

lemma quotient_le_one:
  assumes "x \<le> y" "0 < y" "y \<le> u64_max"
  shows "fbits fx (f_safe_div fx (of_u64 fx x) (of_u64 fx y)) \<le> 2 ^ 32" (is "?q \<le> _")
proof -
  have "?q * (y * 2 ^ 32) \<le> x * 2 ^ 32 * 2 ^ 32"
    using f_safe_div_le[OF fx_ok, of "of_u64 fx x" "of_u64 fx y"] assms by (simp add: bits_of_u64)
  also have "\<dots> \<le> y * 2 ^ 32 * 2 ^ 32" using assms(1) by simp
  finally have "?q * (y * 2 ^ 32) \<le> 2 ^ 32 * (y * 2 ^ 32)" by (simp only: ac_simps)
  then show ?thesis using assms(2) by simp
qed

text \<open>The part of \<open>v\<close> that \<open>c\<close> has of \<open>t\<close>; together such parts are at most \<open>v\<close>.\<close>

lemma part_le: "fbits fx (f_mul fx v (f_safe_div fx c t)) * fbits fx t \<le> fbits fx v * fbits fx c" (is "?m * _ \<le> _")
proof -
  let ?q = "fbits fx (f_safe_div fx c t)"
  have "?m * 2 ^ 32 \<le> fbits fx v * ?q div 2 ^ 32 * 2 ^ 32" unfolding bits_rules(5) by (intro mult_le_mono1) simp
  also have "\<dots> \<le> fbits fx v * ?q" by (rule div_times_less_eq_dividend)
  finally have "?m * 2 ^ 32 * fbits fx t \<le> fbits fx v * ?q * fbits fx t" by (rule mult_le_mono1)
  also have "\<dots> = fbits fx v * (?q * fbits fx t)" by (simp only: ac_simps)
  also have "\<dots> \<le> fbits fx v * (fbits fx c * 2 ^ 32)" by (intro mult_le_mono2 f_safe_div_le[OF fx_ok])
  finally have "(?m * fbits fx t) * 2 ^ 32 \<le> (fbits fx v * fbits fx c) * 2 ^ 32" by (simp only: ac_simps)
  then show ?thesis by (rule mult_right_le_imp_le) simp
qed

lemma parts_le:
  assumes "sum_list (map (fbits fx) cs) \<le> fbits fx t"
  shows "(\<Sum>c \<leftarrow> cs. fbits fx (f_mul fx v (f_safe_div fx c t))) \<le> fbits fx v" (is "?S cs \<le> _")
proof (cases "fbits fx t = 0")
  case True
  have "fbits fx c = 0" if "c \<in> set cs" for c using member_le_sum_list[of "fbits fx c" "map (fbits fx) cs"] that assms True by simp
  then have "(\<Sum>c \<leftarrow> cs. fbits fx (f_mul fx v (f_safe_div fx c t))) = (\<Sum>c \<leftarrow> cs. 0)"
    by (intro arg_cong[where f = sum_list] map_cong) (simp_all add: bits_rules(5) f_div_0[OF fx_ok])
  then show ?thesis by (simp only: sum_list_0 le0)
next
  case False
  have "?S cs * fbits fx t \<le> fbits fx v * sum_list (map (fbits fx) cs)"
    by (induction cs) (simp_all only: list.map sum_list.Nil sum_list.Cons distrib_right distrib_left mult_0 mult_0_right le_refl add_mono part_le)
  also have "\<dots> \<le> fbits fx v * fbits fx t" by (intro mult_le_mono2 assms)
  finally show ?thesis using False by simp
qed

lemma add_all:
  assumes "fbits fx t + sum_list (map (fbits fx) cs) \<le> u128_max"
  shows "fbits fx (foldl (f_add fx) t cs) = fbits fx t + sum_list (map (fbits fx) cs)"
  using assms by (induction cs arbitrary: t) (simp_all add: bits_rules(3) sat_add_def)

end

section \<open>A hotkey and its parents\<close>

context price_arith
begin

lemma pay_parents:
  assumes "foldl (pay_parent fx v t tk same) (tuples, rem, took) cs = (tuples', rem', took')"
    and "(\<Sum>c \<leftarrow> map snd cs. fbits fx (f_mul fx v (f_safe_div fx c t))) \<le> fbits fx rem"
    and "fbits fx rem + fbits fx took \<le> u64_max * 2 ^ 32" "fbits fx tk \<le> 2 ^ 32"
  shows "smap_sum tuples' * 2 ^ 32 + fbits fx rem' + fbits fx took' \<le>
      smap_sum tuples * 2 ^ 32 + fbits fx rem + fbits fx took \<and>
    smap_sum tuples * 2 ^ 32 + fbits fx rem + fbits fx took \<le>
      smap_sum tuples' * 2 ^ 32 + fbits fx rem' + fbits fx took' + length cs * (2 ^ 32 - 1) \<and>
    fbits fx rem' + fbits fx took' \<le> fbits fx rem + fbits fx took \<and> length tuples' = length tuples + length cs"
  using assms(1-3)
proof (induction cs arbitrary: tuples rem took)
  case (Cons pc cs)
  obtain parent c where pc: "pc = (parent, c)" by (cases pc)
  define p where "p = f_mul fx v (f_safe_div fx c t)"
  define take_i where "take_i = (if same parent then of_u64 fx 0 else f_mul fx tk p)"
  define paid where "paid = f_sub fx p take_i"
  define rem1 where "rem1 = f_sub fx rem p"
  define took1 where "took1 = f_add fx took take_i"
  have step: "foldl (pay_parent fx v t tk same) (tuples @ [(parent, to_u64 fx paid)], rem1, took1) cs = (tuples', rem', took')"
  proof -
    have "pay_parent fx v t tk same (tuples, rem, took) (parent, c) = (tuples @ [(parent, to_u64 fx paid)], rem1, took1)"
      unfolding pay_parent_def f_div_or_zero Let_def prod.case p_def take_i_def paid_def rem1_def took1_def by (rule refl)
    then show ?thesis using Cons.prems(1) by (simp only: pc foldl_Cons)
  qed
  have p: "fbits fx p \<le> fbits fx rem" using Cons.prems(2) by (simp add: pc p_def)
  have tk: "fbits fx take_i \<le> fbits fx p" using mul_le[OF assms(4)] by (simp add: take_i_def bits_rules)
  have paid: "fbits fx paid + fbits fx take_i = fbits fx p" using tk by (simp add: paid_def bits_rules(4))
  have rem1: "fbits fx rem1 + fbits fx p = fbits fx rem" using p by (simp add: rem1_def bits_rules(4))
  have "fbits fx took + fbits fx take_i \<le> u128_max" using Cons.prems(3) p tk by (simp add: u64_max_def u128_max_def)
  then have took1: "fbits fx took1 = fbits fx took + fbits fx take_i" by (simp add: took1_def bits_rules(3) sat_add_def)
  have low: "to_u64 fx paid * 2 ^ 32 \<le> fbits fx paid" by (rule to_u64_below)
  have high: "fbits fx paid < to_u64 fx paid * 2 ^ 32 + 2 ^ 32"
    by (rule to_u64_above) (use paid p Cons.prems(3) in linarith)
  have "(\<Sum>c \<leftarrow> map snd cs. fbits fx (f_mul fx v (f_safe_div fx c t))) \<le> fbits fx rem1"
    using Cons.prems(2) rem1 by (simp add: pc p_def)
  moreover have "fbits fx rem1 + fbits fx took1 \<le> u64_max * 2 ^ 32"
    using Cons.prems(3) rem1 took1 tk by linarith
  ultimately have ih: "smap_sum tuples' * 2 ^ 32 + fbits fx rem' + fbits fx took' \<le>
      smap_sum (tuples @ [(parent, to_u64 fx paid)]) * 2 ^ 32 + fbits fx rem1 + fbits fx took1"
    "smap_sum (tuples @ [(parent, to_u64 fx paid)]) * 2 ^ 32 + fbits fx rem1 + fbits fx took1 \<le>
      smap_sum tuples' * 2 ^ 32 + fbits fx rem' + fbits fx took' + length cs * (2 ^ 32 - 1)"
    "fbits fx rem' + fbits fx took' \<le> fbits fx rem1 + fbits fx took1"
    "length tuples' = Suc (length tuples) + length cs"
    using Cons.IH[OF step] by simp_all
  then show ?case using low high paid rem1 took1 tk by (simp add: distrib_right)
qed simp

end

lemma pay_parents_keys:
  "foldl (pay_parent fx v t tk same) (tuples, rem, took) cs = (tuples', rem', took') \<Longrightarrow>
     map fst tuples' = map fst tuples @ map fst cs"
  by (induction cs arbitrary: tuples rem took) (auto simp: pay_parent_def Let_def)

lemma parent_contribution_fst [simp]: "fst (parent_contribution env n s p) = snd p"
  by (simp add: parent_contribution_def Let_def case_prod_beta)

lemma foldl_snd: "foldl (\<lambda>t (_, c). f t c) a xs = foldl f a (map snd xs)"
  by (induction xs arbitrary: a) auto

text \<open>The ranges of the stored integers that the distribution reads.\<close>

definition stakes_typed :: "netuid \<Rightarrow> 'a \<Rightarrow> ('a, 'h, 'u, 'w) coinbase_state \<Rightarrow> bool" where
  "stakes_typed n hotkey s \<longleftrightarrow> TaoWeight s \<le> u64_max \<and>
     (\<forall>h m. get_stake_for_hotkey_on_subnet h m (cb_staking s) \<le> u64_max) \<and>
     (\<forall>p \<in> set (get_parents (cb_children s) hotkey n). fst p \<le> u64_max) \<and>
     length (get_parents (cb_children s) hotkey n) \<le> 2 ^ 30 \<and> get_childkey_take (cb_children s) hotkey n \<le> u16_max"

lemma self_contribution_u64: "ufixed_ok 32 (se_price env) \<Longrightarrow> get_self_contribution env hotkey n s \<le> u64_max"
  unfolding get_self_contribution_def Let_def by (simp add: ufixed_okD(6))

lemma tao_weight_le_one:
  assumes "ufixed_ok 32 (se_price env)" "TaoWeight s \<le> u64_max"
  shows "fbits (se_price env) (get_tao_weight env s) \<le> 2 ^ 32"
proof -
  have pa: "price_arith (se_price env)" using assms(1) by unfold_locales
  show ?thesis unfolding get_tao_weight_def Let_def
    by (rule price_arith.quotient_le_one[OF pa assms(2)]) (simp_all add: u64_max_def)
qed

lemma contribution_le:
  assumes "ufixed_ok 32 (se_price env)" "stakes_typed n hotkey s" "p \<in> set (get_parents (cb_children s) hotkey n)"
  shows "fbits (se_price env) (snd (parent_contribution env n s p)) \<le> 2 ^ 97"
proof -
  have pa: "price_arith (se_price env)" using assms(1) by unfold_locales
  obtain pr h where p: "p = (pr, h)" by (cases p)
  have pr: "fbits (se_price env) (proportion_of (se_price env) pr) \<le> 2 ^ 32"
    unfolding proportion_of_def
    by (rule price_arith.quotient_le_one[OF pa]) (use assms(2,3) in \<open>auto simp: stakes_typed_def p u64_max_def\<close>)
  have tw: "fbits (se_price env) (get_tao_weight env s) \<le> 2 ^ 32"
    using tao_weight_le_one[OF assms(1)] assms(2) by (simp add: stakes_typed_def)
  have st: "fbits (se_price env) (of_u64 (se_price env) (get_stake_for_hotkey_on_subnet h m (cb_staking s))) \<le> 2 ^ 96" for m
  proof -
    have le: "get_stake_for_hotkey_on_subnet h m (cb_staking s) \<le> u64_max" using assms(2) by (simp add: stakes_typed_def)
    have "u64_max * 2 ^ 32 \<le> 2 ^ 96" by (simp add: u64_max_def)
    then show ?thesis using mult_le_mono1[OF le, of "2 ^ 32"] price_arith.bits_of_u64[OF pa le] by linarith
  qed
  note small = price_arith.mul_le(2)[OF pa, THEN le_trans]
  have "fbits (se_price env) (snd (parent_contribution env n s p)) \<le> 2 ^ 96 + 2 ^ 96"
    unfolding p parent_contribution_def Let_def prod.case snd_conv ufixed_okD(3)[OF assms(1)]
    by (rule le_trans[OF sat_add_le_sum]) (intro add_mono small[OF tw] small[OF pr] st)
  then show ?thesis by simp
qed

lemma total_contribution_exact:
  fixes env :: "('a, 'h, 'f, 'u, 'i, 'v, 'w, 'c, 'g) coinbase_env"
  assumes "ufixed_ok 32 (se_price env)" "stakes_typed n hotkey s"
  defines "cs \<equiv> map snd (map (parent_contribution env n s) (get_parents (cb_children s) hotkey n))"
    and "t \<equiv> f_add (se_price env) (of_u64 (se_price env) 0) (of_u64 (se_price env) (get_self_contribution env hotkey n s))"
  shows "sum_list (map (fbits (se_price env)) cs) \<le> fbits (se_price env) (foldl (f_add (se_price env)) t cs)"
proof -
  let ?fx = "se_price env" and ?ps = "get_parents (cb_children s) hotkey n"
  have pa: "price_arith ?fx" using assms(1) by unfold_locales
  have "sum_list (map (fbits ?fx) cs) \<le> length ?ps * 2 ^ 97"
    using sum_list_mono[of ?ps "\<lambda>p. fbits ?fx (snd (parent_contribution env n s p))" "\<lambda>_. 2 ^ 97"]
      contribution_le[OF assms(1,2)] by (simp add: cs_def comp_def sum_list_triv)
  also have "\<dots> \<le> 2 ^ 30 * 2 ^ 97" using assms(2) by (intro mult_le_mono1) (simp add: stakes_typed_def)
  finally have S: "sum_list (map (fbits ?fx) cs) \<le> 2 ^ 30 * 2 ^ 97" .
  have "fbits ?fx t \<le> 0 + u64_max * 2 ^ 32"
    unfolding t_def ufixed_okD(3)[OF assms(1)] of_u64_0[OF assms(1)]
    by (rule le_trans[OF sat_add_le_sum])
       (simp add: price_arith.bits_of_u64[OF pa] self_contribution_u64[OF assms(1)])
  with S have "fbits ?fx t + sum_list (map (fbits ?fx) cs) \<le> u128_max" by (simp add: u64_max_def u128_max_def)
  from price_arith.add_all[OF pa this] show ?thesis by simp
qed

lemma parent_child_amounts:
  assumes "ufixed_ok 32 (se_price env)" "stakes_typed n hotkey s" "dividends \<le> u64_max"
  defines "tuples \<equiv> get_parent_child_dividends_distribution env hotkey n dividends s"
  shows "smap_sum tuples \<le> dividends \<and>
    dividends \<le> smap_sum tuples + length (get_parents (cb_children s) hotkey n) \<and>
    map fst tuples = map snd (get_parents (cb_children s) hotkey n) @ [hotkey]"
proof -
  let ?fx = "se_price env" and ?ps = "get_parents (cb_children s) hotkey n"
  have pa: "price_arith ?fx" using assms(1) by unfold_locales
  define cs where "cs = map (parent_contribution env n s) ?ps"
  define t0 where "t0 = f_add ?fx (of_u64 ?fx 0) (of_u64 ?fx (get_self_contribution env hotkey n s))"
  define v where "v = of_u64 ?fx dividends"
  define tk where "tk = f_safe_div ?fx (of_u64 ?fx (get_childkey_take (cb_children s) hotkey n)) (of_u64 ?fx u16_max)"
  define t where "t = foldl (f_add ?fx) t0 (map snd cs)"
  define same where "same = (\<lambda>parent. get_owning_coldkey_for_hotkey (staking_env.truncate env) parent (cb_staking s) =
    get_owning_coldkey_for_hotkey (staking_env.truncate env) hotkey (cb_staking s))"
  obtain tu rem took where loop: "foldl (pay_parent ?fx v t tk same) ([], v, of_u64 ?fx 0) cs = (tu, rem, took)"
    by (metis prod_cases3)
  have tuples: "tuples = tu @ [(hotkey, to_u64 ?fx (f_add ?fx rem took))]"
    using loop unfolding tuples_def get_parent_child_dividends_distribution_def Let_def cs_def[symmetric] t0_def[symmetric]
      v_def[symmetric] tk_def[symmetric] same_def[symmetric] foldl_snd t_def[symmetric] by (simp only: prod.case)
  have v: "fbits ?fx v = dividends * 2 ^ 32" unfolding v_def by (rule price_arith.bits_of_u64[OF pa assms(3)])
  have tk: "fbits ?fx tk \<le> 2 ^ 32" unfolding tk_def
    by (rule price_arith.quotient_le_one[OF pa]) (use assms(2) in \<open>auto simp: stakes_typed_def u16_max_def u64_max_def\<close>)
  have sum: "sum_list (map (fbits ?fx) (map snd cs)) \<le> fbits ?fx t"
    unfolding t_def using total_contribution_exact[OF assms(1,2)] by (simp add: cs_def t0_def)
  have z: "fbits ?fx (of_u64 ?fx 0) = 0" by (rule of_u64_0[OF assms(1)])
  have vmax: "fbits ?fx v + fbits ?fx (of_u64 ?fx 0) \<le> u64_max * 2 ^ 32" using assms(3) by (simp add: v z)
  note L = price_arith.pay_parents[OF pa loop price_arith.parts_le[OF pa sum] vmax tk]
  have "fbits ?fx rem + fbits ?fx took \<le> u64_max * 2 ^ 32" using L vmax by linarith
  moreover from this have "fbits ?fx (f_add ?fx rem took) = fbits ?fx rem + fbits ?fx took"
    by (simp add: ufixed_okD(3)[OF assms(1)] sat_add_def u64_max_def u128_max_def)
  ultimately have last: "to_u64 ?fx (f_add ?fx rem took) * 2 ^ 32 \<le> fbits ?fx rem + fbits ?fx took"
    "fbits ?fx rem + fbits ?fx took < to_u64 ?fx (f_add ?fx rem took) * 2 ^ 32 + 2 ^ 32"
    using price_arith.to_u64_below[OF pa, of "f_add ?fx rem took"] price_arith.to_u64_above[OF pa, of "f_add ?fx rem took"]
    by simp_all
  have "map fst tu = map snd ?ps" using pay_parents_keys[OF loop] by (simp add: cs_def parent_contribution_fst comp_def)
  then show ?thesis using L last unfolding tuples by (simp add: v z cs_def distrib_right)
qed

text \<open>C36. The dividends of a hotkey are split exactly between itself and its parents: the amounts add
  up to at most the dividends, and rounding loses at most one rao per parent. The take of the
  childkey only moves between the entries. The premises are the ranges of the stored integers.\<close>

theorem parent_child_split:
  assumes "ufixed_ok 32 (se_price env)" "stakes_typed n hotkey s" "dividends \<le> u64_max"
  defines "tuples \<equiv> get_parent_child_dividends_distribution env hotkey n dividends s"
  shows "smap_sum tuples \<le> dividends \<and>
    dividends \<le> smap_sum tuples + length (get_parents (cb_children s) hotkey n) \<and>
    map fst tuples = map snd (get_parents (cb_children s) hotkey n) @ [hotkey]"
  unfolding tuples_def by (rule parent_child_amounts[OF assms(1-3)])

section \<open>Dividends and incentives of a subnet\<close>

definition msum :: "('v \<Rightarrow> nat) \<Rightarrow> ('k \<times> 'v) list \<Rightarrow> nat" where
  "msum g m = sum_list (map (g \<circ> snd) m)"

lemma msum_simps [simp]: "msum g [] = 0" "msum g (p # m) = g (snd p) + msum g m"
  by (simp_all add: msum_def)

lemma msum_put:
  "smap_wf m \<Longrightarrow> msum g (smap_put k v m) + (case map_of m k of None \<Rightarrow> 0 | Some u \<Rightarrow> g u) = msum g m + g v"
proof (induction m)
  case (Cons p m)
  then show ?case
    by (cases p) (force simp: smap_wf_def map_of_eq_None_iff split: option.splits)
qed simp

text \<open>Adding to an entry, with or without saturation, adds at most that to the total.\<close>

lemma msum_entry:
  assumes "smap_wf m" "g x \<le> b" "\<And>e. g (f e) \<le> g e + b"
  shows "msum g (entry_or k f x m) \<le> msum g m + b" "smap_wf (entry_or k f x m)"
proof -
  show "smap_wf (entry_or k f x m)" using assms(1) by (simp add: entry_or_def)
  show "msum g (entry_or k f x m) \<le> msum g m + b"
  proof (cases "map_of m k")
    case None
    then show ?thesis using msum_put[OF assms(1), of g k x] assms(2) by (simp add: entry_or_def)
  next
    case (Some u)
    then show ?thesis using msum_put[OF assms(1), of g k "f u"] assms(3)[of u] by (simp add: entry_or_def)
  qed
qed

lemma smap_put_last: "\<forall>k' \<in> fst ` set m. k' < k \<Longrightarrow> smap_put k v m = m @ [(k, v)]"
  by (induction m) (auto dest: less_asym)

lemma proportional_eq:
  assumes "smap_wf divs"
  shows "proportional fx pending t divs =
    map (\<lambda>(h, d). (h, f_mul fx (of_u64 fx pending) (f_safe_div fx d t))) divs"
  using assms
proof (induction divs rule: rev_induct)
  case (snoc p divs)
  obtain h d where p: "p = (h, d)" by (cases p)
  have wf: "smap_wf divs" and lt: "\<forall>k \<in> fst ` set divs. k < h"
    using snoc.prems by (auto simp: smap_wf_def p sorted_append order.strict_iff_order)
  then have keys: "\<forall>k \<in> fst ` set (proportional fx pending t divs). k < h"
    using snoc.IH by auto
  then have "map_of (proportional fx pending t divs) h = None"
    by (auto simp: map_of_eq_None_iff)
  then show ?case using snoc.IH[OF wf] smap_put_last[OF keys]
    by (simp add: proportional_def p entry_or_def f_div_or_zero Let_def)
qed (simp add: proportional_def)

definition split_ok :: "('v, 'z) ufixed_scheme \<Rightarrow> ('a::linorder, 'v) split_dividends \<Rightarrow> bool" where
  "split_ok fx d \<longleftrightarrow> smap_wf (sd_root d) \<and> smap_wf (sd_alpha d) \<and> msum (fbits fx) (sd_root d) \<le> fbits fx (sd_total_root d) \<and>
     msum (fbits fx) (sd_alpha d) \<le> fbits fx (sd_total_alpha d)"

context price_arith
begin

lemma proportional_le:
  assumes "smap_wf divs" "msum (fbits fx) divs \<le> fbits fx t" "pending \<le> u64_max"
  shows "msum (to_u64 fx) (proportional fx pending t divs) \<le> pending"
proof -
  let ?part = "\<lambda>d. f_mul fx (of_u64 fx pending) (f_safe_div fx d t)"
  have "msum (to_u64 fx) (proportional fx pending t divs) * 2 ^ 32 = (\<Sum>d \<leftarrow> map snd divs. to_u64 fx (?part d) * 2 ^ 32)"
    by (simp add: proportional_eq[OF assms(1)] msum_def sum_list_mult_const case_prod_beta comp_def)
  also have "\<dots> \<le> (\<Sum>d \<leftarrow> map snd divs. fbits fx (?part d))"
    by (intro sum_list_mono to_u64_below)
  also have "\<dots> \<le> fbits fx (of_u64 fx pending)"
    by (rule parts_le) (use assms(2) in \<open>simp add: msum_def comp_def\<close>)
  finally show ?thesis by (simp add: bits_of_u64[OF assms(3)])
qed

lemma add_exact: "fbits fx x + fbits fx y \<le> u128_max \<Longrightarrow> fbits fx (f_add fx x y) = fbits fx x + fbits fx y"
  by (simp add: bits_rules(3) sat_add_def)

lemma add_le: "fbits fx (f_add fx x y) \<le> fbits fx x + fbits fx y"
  unfolding bits_rules(3) by (rule sat_add_le_sum)

lemma msum_entry_add:
  assumes "smap_wf m"
  shows "msum (fbits fx) (entry_or k (\<lambda>e. f_add fx e x) x m) \<le> msum (fbits fx) m + fbits fx x"
    "smap_wf (entry_or k (\<lambda>e. f_add fx e x) x m)"
  by (rule msum_entry[OF assms order_refl add_le])+

lemma quotient_le:
  assumes "fbits fx x \<le> fbits fx y"
  shows "fbits fx (f_safe_div fx x y) \<le> 2 ^ 32" (is "?q \<le> _")
proof (cases "fbits fx y = 0")
  case True
  then show ?thesis using assms f_div_0[OF fx_ok, of x y] by simp
next
  case False
  have "?q * fbits fx y \<le> fbits fx x * 2 ^ 32" by (rule f_safe_div_le[OF fx_ok])
  also have "\<dots> \<le> 2 ^ 32 * fbits fx y" using assms by simp
  finally show ?thesis using False by simp
qed

lemma split_step:
  assumes "split_ok fx d" "fbits fx (sd_total_root d) + fbits fx x \<le> u128_max"
    "fbits fx (sd_total_alpha d) + fbits fx x \<le> u128_max" and d': "d' = split_dividend fx tw sm d (h, x)"
  shows "split_ok fx d' \<and> fbits fx (sd_total_root d') \<le> fbits fx (sd_total_root d) + fbits fx x \<and>
    fbits fx (sd_total_alpha d') \<le> fbits fx (sd_total_alpha d) + fbits fx x"
proof (cases "map_of sm h")
  case None
  then show ?thesis using assms(1) by (simp add: d' split_dividend_def)
next
  case (Some st)
  obtain a r where st: "st = (a, r)" by (cases st)
  define ra where "ra = f_mul fx (of_u64 fx r) tw"
  define rp where "rp = f_safe_div fx ra (f_add fx (of_u64 fx a) ra)"
  define rd where "rd = f_mul fx x rp"
  define ad where "ad = f_sub fx x rd"
  have d': "d' = \<lparr>sd_total_root = f_add fx (sd_total_root d) rd, sd_total_alpha = f_add fx (sd_total_alpha d) ad,
      sd_root = entry_or h (\<lambda>e. f_add fx e rd) rd (sd_root d), sd_alpha = entry_or h (\<lambda>e. f_add fx e ad) ad (sd_alpha d)\<rparr>"
    unfolding d' split_dividend_def Some st Let_def ra_def rp_def rd_def ad_def
    by (simp add: f_div_or_zero Some st)
  have "fbits fx rp \<le> 2 ^ 32" unfolding rp_def
    by (rule quotient_le) (simp add: bits_rules(3) sat_add_def bits_rules(1))
  then have rd: "fbits fx rd \<le> fbits fx x" unfolding rd_def by (rule mul_le)
  have ad: "fbits fx ad \<le> fbits fx x" by (simp add: ad_def bits_rules(4))
  have tot: "fbits fx (f_add fx (sd_total_root d) rd) = fbits fx (sd_total_root d) + fbits fx rd"
    "fbits fx (f_add fx (sd_total_alpha d) ad) = fbits fx (sd_total_alpha d) + fbits fx ad"
    using assms(2,3) rd ad by (auto intro!: add_exact)
  show ?thesis using assms(1) msum_entry_add[of "sd_root d" h rd] msum_entry_add[of "sd_alpha d" h ad] rd ad
    by (auto simp: split_ok_def d' tot)
qed

lemma split_all:
  assumes "split_ok fx d" "fbits fx (sd_total_root d) + msum (fbits fx) xs \<le> u128_max"
    "fbits fx (sd_total_alpha d) + msum (fbits fx) xs \<le> u128_max"
  shows "split_ok fx (foldl (split_dividend fx tw sm) d xs)"
  using assms
proof (induction xs arbitrary: d)
  case (Cons p xs)
  obtain h x where p: "p = (h, x)" by (cases p)
  from split_step[OF Cons.prems(1) _ _ refl, of x tw sm h] Cons.prems(2,3)
  show ?case using Cons.IH[of "split_dividend fx tw sm d (h, x)"] by (simp add: p)
qed simp

lemma distribution_le:
  assumes "msum (fbits fx) dividends \<le> u128_max" "pending_alpha \<le> u64_max" "pending_tao \<le> u64_max"
    and "calculate_dividend_distribution fx pending_alpha pending_tao tw sm dividends = (alpha, tao)"
  shows "msum (to_u64 fx) alpha \<le> pending_alpha \<and> msum (to_u64 fx) tao \<le> pending_tao"
proof -
  let ?d = "foldl (split_dividend fx tw sm) \<lparr>sd_total_root = of_u64 fx 0, sd_total_alpha = of_u64 fx 0, sd_root = [], sd_alpha = []\<rparr>
    dividends"
  have "split_ok fx ?d" by (rule split_all) (use assms(1) in \<open>simp_all add: split_ok_def bits_rules(7)\<close>)
  moreover have "alpha = proportional fx pending_alpha (sd_total_alpha ?d) (sd_alpha ?d)"
    "tao = proportional fx pending_tao (sd_total_root ?d) (sd_root ?d)"
    using assms(4) by (simp_all add: calculate_dividend_distribution_def Let_def)
  ultimately show ?thesis
    using proportional_le[OF _ _ assms(2), of "sd_alpha ?d" "sd_total_alpha ?d"]
      proportional_le[OF _ _ assms(3), of "sd_root ?d" "sd_total_root ?d"] unfolding split_ok_def by fast
qed

end

lemma add_tuples_le:
  assumes "ufixed_ok 32 fx" "smap_wf m" "smap_sum ts \<le> u64_max"
  defines "r \<equiv> foldl (\<lambda>m (parent, d). entry_or parent (\<lambda>e. f_add fx e (of_u64 fx d)) (of_u64 fx d) m) m ts"
  shows "smap_wf r \<and> msum (fbits fx) r \<le> msum (fbits fx) m + smap_sum ts * 2 ^ 32"
  unfolding r_def using assms(2,3)
proof (induction ts arbitrary: m)
  case (Cons p ts)
  obtain h d where p: "p = (h, d)" by (cases p)
  have pa: "price_arith fx" using assms(1) by unfold_locales
  have d: "fbits fx (of_u64 fx d) = d * 2 ^ 32" using Cons.prems(2) by (intro price_arith.bits_of_u64[OF pa]) (simp add: p)
  note e = price_arith.msum_entry_add[OF pa Cons.prems(1), of h "of_u64 fx d"]
  show ?case using Cons.IH[OF e(2)] Cons.prems(2) e(1) by (auto simp: p d distrib_right)
qed simp

lemma dividends_and_incentives_le:
  fixes env :: "('a::linorder, 'h, 'f, 'u, 'i, 'v, 'w, 'c, 'g) coinbase_env"
  assumes "ufixed_ok 32 (se_price env)" "\<And>h. stakes_typed n h s" "\<forall>p \<in> set he. snd (snd p) \<le> u64_max"
  defines "r \<equiv> calculate_dividends_and_incentives env n he s"
  shows "smap_wf (fst r) \<and> smap_wf (snd r) \<and> smap_sum (fst r) \<le> (\<Sum>p \<leftarrow> he. fst (snd p)) \<and>
    msum (fbits (se_price env)) (snd r) \<le> (\<Sum>p \<leftarrow> he. snd (snd p)) * 2 ^ 32"
  unfolding r_def using assms(3)
proof (induction he rule: rev_induct)
  case Nil
  then show ?case by (simp add: calculate_dividends_and_incentives_def)
next
  case (snoc p he)
  obtain h i d where p: "p = (h, i, d)" by (cases p)
  let ?r = "calculate_dividends_and_incentives env n he s" and ?ts = "get_parent_child_dividends_distribution env h n d s"
  have ih: "smap_wf (fst ?r)" "smap_wf (snd ?r)" "smap_sum (fst ?r) \<le> (\<Sum>p \<leftarrow> he. fst (snd p))"
    "msum (fbits (se_price env)) (snd ?r) \<le> (\<Sum>p \<leftarrow> he. snd (snd p)) * 2 ^ 32" using snoc by simp_all
  have inc: "smap_sum (entry_or h (\<lambda>e. sat_add u64_max e i) i (fst ?r)) \<le> smap_sum (fst ?r) + i"
    "smap_wf (entry_or h (\<lambda>e. sat_add u64_max e i) i (fst ?r))"
    using msum_entry[where g = id and x = i and b = i and f = "\<lambda>e. sat_add u64_max e i", OF ih(1), of h] sat_add_le_sum
    by (simp_all add: msum_def smap_sum_def)
  have d: "d \<le> u64_max" using snoc.prems by (simp add: p)
  have ts: "smap_sum ?ts \<le> d" using parent_child_amounts[OF assms(1,2) d] by blast
  have dv: "smap_wf (foldl (\<lambda>m (parent, d). entry_or parent (\<lambda>e. f_add (se_price env) e (of_u64 (se_price env) d))
      (of_u64 (se_price env) d) m) (snd ?r) ?ts)"
    "msum (fbits (se_price env)) (foldl (\<lambda>m (parent, d). entry_or parent (\<lambda>e. f_add (se_price env) e (of_u64 (se_price env) d))
      (of_u64 (se_price env) d) m) (snd ?r) ?ts) \<le> msum (fbits (se_price env)) (snd ?r) + smap_sum ?ts * 2 ^ 32"
    using add_tuples_le[OF assms(1) ih(2), of ?ts] ts d by simp_all
  have r: "calculate_dividends_and_incentives env n (he @ [p]) s =
      (entry_or h (\<lambda>e. sat_add u64_max e i) i (fst ?r),
       foldl (\<lambda>m (parent, d). entry_or parent (\<lambda>e. f_add (se_price env) e (of_u64 (se_price env) d))
         (of_u64 (se_price env) d) m) (snd ?r) ?ts)"
    by (simp add: calculate_dividends_and_incentives_def p Let_def case_prod_beta)
  show ?case unfolding r using ih inc dv mult_le_mono1[OF ts, of "2 ^ 32"] by (simp add: p distrib_right)
qed


section \<open>What is issued\<close>

definition keeps_issuance :: "('a, 'h, 'u, 'w) coinbase_state \<Rightarrow> ('a, 'h, 'u, 'w) coinbase_state \<Rightarrow> bool" where
  "keeps_issuance s s' \<longleftrightarrow> cb_TotalIssuance s' = cb_TotalIssuance s \<and> SubnetTaoInEmission s' = SubnetTaoInEmission s"

lemma keeps_issuance_refl [simp]: "keeps_issuance s s"
  by (simp add: keeps_issuance_def)

lemma keeps_issuance_trans [trans]: "keeps_issuance s t \<Longrightarrow> keeps_issuance t u \<Longrightarrow> keeps_issuance s u"
  by (simp add: keeps_issuance_def)

lemma keeps_foldl: "(\<And>s x. keeps_issuance s (f s x)) \<Longrightarrow> keeps_issuance s (foldl f s xs)"
  by (induction xs arbitrary: s) (auto intro: keeps_issuance_trans)

lemma keeps_fold: "(\<And>s x. keeps_issuance s (f x s)) \<Longrightarrow> keeps_issuance s (fold f xs s)"
  by (induction xs arbitrary: s) (auto intro: keeps_issuance_trans)

lemma keeps_small:
  "keeps_issuance s (update_moving_price env n s)" "keeps_issuance s (snd (cb_increase env h c n x s))"
  "keeps_issuance s (cb_increase_all env h n x s)" "keeps_issuance s (set_cb_pool pool s)"
  "keeps_issuance s (set_crv3 n c' s)" "keeps_issuance s (reveal_crv3_entry env n s e)"
  by (simp_all add: keeps_issuance_def update_moving_price_def Let_def cb_increase_def cb_increase_all_def set_cb_pool_def
      set_crv3_def reveal_crv3_entry_def case_prod_beta split: option.split sum.split prod.split)

lemma keeps_pay:
  "keeps_issuance s (pay_owner env n x s)" "keeps_issuance s (pay_incentive env n s p)"
  "keeps_issuance s (pay_alpha_dividend env n s q)" "keeps_issuance s (pay_root_dividend env n s q)"
  using keeps_small(2)[of s env] unfolding keeps_issuance_def
  by (simp_all add: pay_owner_def pay_incentive_def pay_alpha_dividend_def pay_root_dividend_def case_prod_beta Let_def
      cb_increase_all_def set_cb_pool_def split: option.split)

lemma keeps_distribute: "keeps_issuance s (distribute_dividends_and_incentives env n x inc alpha tao s)"
proof -
  let ?s = "foldl (pay_incentive env n) (pay_owner env n x s) inc"
  let ?t = "?s\<lparr>cb_AlphaDividendsPerSubnet := (cb_AlphaDividendsPerSubnet ?s)(n := (\<lambda>_. 0))\<rparr>"
  let ?u = "foldl (pay_alpha_dividend env n) ?t alpha"
  let ?v = "?u\<lparr>cb_TaoDividendsPerSubnet := (cb_TaoDividendsPerSubnet ?u)(n := (\<lambda>_. 0))\<rparr>"
  have "keeps_issuance s ?s" by (rule keeps_issuance_trans[OF keeps_pay(1) keeps_foldl]) (rule keeps_pay)
  also have "keeps_issuance ?s ?t" by (simp add: keeps_issuance_def)
  also have "keeps_issuance ?t ?u" by (rule keeps_foldl) (rule keeps_pay)
  also have "keeps_issuance ?u ?v" by (simp add: keeps_issuance_def)
  also have "keeps_issuance ?v (foldl (pay_root_dividend env n) ?v tao)" by (rule keeps_foldl) (rule keeps_pay)
  finally show ?thesis by (simp add: distribute_dividends_and_incentives_def Let_def)
qed

lemma keeps_reveal: "keeps_issuance s (reveal_crv3_commits env n s)"
  unfolding reveal_crv3_commits_def Let_def
  by (auto intro!: keeps_foldl keeps_small intro: keeps_issuance_trans[OF _ keeps_foldl] keeps_issuance_trans[OF keeps_small(5) keeps_small(5)])

lemma keeps_drain_pending:
  assumes "drain_pending_emission env n pa pt ps oc s = Some s'"
  shows "keeps_issuance s s'"
proof -
  from assms obtain e inc alpha tao where
    s': "s' = distribute_dividends_and_incentives env n oc inc alpha tao (s\<lparr>cb_epoch := e\<rparr>)"
    by (auto simp: drain_pending_emission_def Let_def case_prod_beta split: bind_splits)
  have "keeps_issuance s (s\<lparr>cb_epoch := e\<rparr>)" by (simp add: keeps_issuance_def)
  also have "keeps_issuance (s\<lparr>cb_epoch := e\<rparr>) s'" unfolding s' by (rule keeps_distribute)
  finally show ?thesis .
qed

lemma keeps_drain_subnet:
  assumes "drain_subnet env n s = Some s'"
  shows "keeps_issuance s s'"
proof (cases "should_run_epoch (e_weights (cb_epoch s)) n (env_block env)")
  case True
  let ?r = "reveal_crv3_commits env n s"
  let ?t = "?r\<lparr>BlocksSinceLastStep := (BlocksSinceLastStep ?r)(n := 0),
      LastMechansimStepBlock := (LastMechansimStepBlock ?r)(n := env_block env),
      PendingEmission := (PendingEmission ?r)(n := 0), PendingRootDivs := (PendingRootDivs ?r)(n := 0),
      PendingAlphaSwapped := (PendingAlphaSwapped ?r)(n := 0), PendingOwnerCut := (PendingOwnerCut ?r)(n := 0)\<rparr>"
  have "keeps_issuance s ?r" by (rule keeps_reveal)
  also have "keeps_issuance ?r ?t" by (simp add: keeps_issuance_def)
  also have "keeps_issuance ?t s'"
    by (rule keeps_drain_pending) (use True assms in \<open>simp add: drain_subnet_def Let_def\<close>)
  finally show ?thesis .
next
  case False
  then show ?thesis using assms by (auto simp: drain_subnet_def keeps_issuance_def)
qed

lemma keeps_drain_subnets: "drain_subnets env ns s = Some s' \<Longrightarrow> keeps_issuance s s'"
  by (induction ns arbitrary: s) (auto split: bind_splits dest: keeps_drain_subnet intro: keeps_issuance_trans)

lemma keeps_sell: "keeps_issuance s (sell_root_alpha env alpha_out n s)"
  by (simp add: sell_root_alpha_def Let_def keeps_issuance_def set_cb_pool_def split: sum.split prod.split)

lemma keeps_cut: "keeps_issuance (snd p) (snd (foldl (cut_owner env percent) p ns))"
  by (induction ns arbitrary: p) (auto intro: keeps_issuance_trans simp: cut_owner_def Let_def keeps_issuance_def case_prod_beta)

text \<open>The terms read the state of the beginning; computing them only stores \<open>BlockEmission\<close>.\<close>

lemma same_state: "\<exists>b. s = s\<lparr>BlockEmission := b\<rparr>"
  by (rule exI[of _ "BlockEmission s"]) simp

lemma block_emission_state: "\<exists>b. snd (get_block_emission_for_issuance I i s) = s\<lparr>BlockEmission := b\<rparr>"
  by (auto simp: get_block_emission_for_issuance_def Let_def same_state split: sum.split)

lemma moving_price_frame [simp]: "get_moving_alpha_price env (s\<lparr>BlockEmission := b\<rparr>) n = get_moving_alpha_price env s n"
  by (simp add: get_moving_alpha_price_def Let_def)

definition tao_share :: "('a, 'h, 'f, 'u, 'i, 'v, 'w, 'c, 'g) coinbase_env \<Rightarrow> 'v \<Rightarrow> 'v \<Rightarrow> ('a, 'h, 'u, 'w) coinbase_state \<Rightarrow> netuid \<Rightarrow> 'v" where
  "tao_share env block_emission t s n =
     f_safe_div (se_price env) (f_mul (se_price env) block_emission (get_moving_alpha_price env s n)) t"

lemma terms_bound:
  fixes env :: "('a, 'h, 'f, 'u, 'i, 'v, 'w, 'c, 'g) coinbase_env"
  assumes "ufixed_ok 32 (se_price env)"
    and "foldl (subnet_terms env e t) (([], [], []), s) ns = ((tao, alpha_in, alpha_out), s')"
  shows "smap_wf tao \<and> (\<exists>b. s' = s\<lparr>BlockEmission := b\<rparr>) \<and>
    (\<forall>n \<in> set ns. fbits (se_price env) (term_of (se_price env) tao n) \<le> fbits (se_price env) (tao_share env e t s n))"
  using assms(2)
proof (induction ns arbitrary: tao alpha_in alpha_out s' rule: rev_induct)
  case Nil
  then show ?case by (auto simp: same_state)
next
  case (snoc n ns)
  obtain ta ai ao u where prev: "foldl (subnet_terms env e t) (([], [], []), s) ns = ((ta, ai, ao), u)"
    by (metis prod.exhaust)
  from snoc.IH[OF prev] obtain b where wf: "smap_wf ta" and u: "u = s\<lparr>BlockEmission := b\<rparr>"
    and le: "\<forall>n \<in> set ns. fbits (se_price env) (term_of (se_price env) ta n) \<le> fbits (se_price env) (tao_share env e t s n)"
    by blast
  obtain r v where g: "get_block_emission_for_issuance (ce_i96 env) (get_alpha_issuance u n) u = (r, v)" by fastforce
  have v: "\<exists>b. v = s\<lparr>BlockEmission := b\<rparr>"
    using block_emission_state[of "ce_i96 env" "get_alpha_issuance u n" u] unfolding g snd_conv by (auto simp: u)
  define x where "x = (if \<not> cb_NetworkRegistrationAllowed v n \<and> \<not> cb_NetworkPowRegistrationAllowed v n
     then of_u64 (se_price env) 0 else tao_share env e t s n)"
  have step: "subnet_terms env e t ((ta, ai, ao), u) n = ((tao, alpha_in, alpha_out), s')"
    using snoc.prems by (simp add: prev)
  have price: "get_moving_alpha_price env u n = get_moving_alpha_price env s n" by (simp add: u)
  have "tao = smap_put n x ta" "s' = v"
    using step unfolding subnet_terms_def prod.case Let_def g f_div_or_zero price x_def tao_share_def by (auto simp only: prod.inject)
  moreover have "fbits (se_price env) x \<le> fbits (se_price env) (tao_share env e t s n)"
    by (simp add: x_def of_u64_0[OF assms(1)])
  ultimately show ?case using wf le v by (auto simp: term_of_def)
qed

lemma inject_issuance:
  "cb_TotalIssuance (inject env (tao, ai, ao) n s) =
     sat_add u64_max (cb_TotalIssuance s) (to_u64 (se_price env) (term_of (se_price env) tao n))"
  "SubnetTaoInEmission (inject env (tao, ai, ao) n s) =
     (SubnetTaoInEmission s)(n := to_u64 (se_price env) (term_of (se_price env) tao n))"
  by (simp_all add: inject_def Let_def set_cb_pool_def)

lemma injected:
  assumes "distinct ns" "cb_TotalIssuance s \<le> u64_max"
  shows "cb_TotalIssuance (fold (inject env (tao, ai, ao)) ns s) =
      min u64_max (cb_TotalIssuance s + (\<Sum>n \<leftarrow> ns. to_u64 (se_price env) (term_of (se_price env) tao n))) \<and>
    (\<forall>n. SubnetTaoInEmission (fold (inject env (tao, ai, ao)) ns s) n =
      (if n \<in> set ns then to_u64 (se_price env) (term_of (se_price env) tao n) else SubnetTaoInEmission s n))"
  using assms
  by (induction ns arbitrary: s) (auto simp: inject_issuance sat_add_def min_def)

lemma shares_le:
  fixes env :: "('a, 'h, 'f, 'u, 'i, 'v, 'w, 'c, 'g) coinbase_env"
  assumes "ufixed_ok 32 (se_price env)" "(\<Sum>n \<leftarrow> ns. fbits (se_price env) (get_moving_alpha_price env s n)) \<le> fbits (se_price env) t"
  shows "(\<Sum>n \<leftarrow> ns. fbits (se_price env) (tao_share env e t s n)) \<le> fbits (se_price env) e"
proof (cases "fbits (se_price env) t = 0")
  case True
  have "fbits (se_price env) (get_moving_alpha_price env s n) = 0" if "n \<in> set ns" for n
    using member_le_sum_list[of "fbits (se_price env) (get_moving_alpha_price env s n)"
        "map (\<lambda>n. fbits (se_price env) (get_moving_alpha_price env s n)) ns"] that assms(2) True by auto
  then have "(\<Sum>n \<leftarrow> ns. fbits (se_price env) (tao_share env e t s n)) = (\<Sum>n \<leftarrow> ns. 0)"
    by (intro arg_cong[where f = sum_list] map_cong)
       (simp_all add: tao_share_def f_div_0[OF assms(1)] ufixed_okD(5)[OF assms(1)])
  then show ?thesis by (simp only: sum_list_0 le0)
next
  case False
  let ?b = "fbits (se_price env)"
  have one: "?b (tao_share env e t s n) * ?b t \<le> ?b e * ?b (get_moving_alpha_price env s n)" for n
  proof -
    have "?b (tao_share env e t s n) * ?b t \<le> ?b (f_mul (se_price env) e (get_moving_alpha_price env s n)) * 2 ^ 32"
      unfolding tao_share_def by (rule f_safe_div_le[OF assms(1)])
    also have "\<dots> \<le> (?b e * ?b (get_moving_alpha_price env s n) div 2 ^ 32) * 2 ^ 32"
      unfolding ufixed_okD(5)[OF assms(1)] by (intro mult_le_mono1) simp
    also have "\<dots> \<le> ?b e * ?b (get_moving_alpha_price env s n)" by (rule div_times_less_eq_dividend)
    finally show ?thesis .
  qed
  have "(\<Sum>n \<leftarrow> ns. ?b (tao_share env e t s n)) * ?b t \<le> ?b e * (\<Sum>n \<leftarrow> ns. ?b (get_moving_alpha_price env s n))"
    by (induction ns) (simp_all only: list.map sum_list.Nil sum_list.Cons distrib_right distrib_left mult_0 mult_0_right
        le_refl add_mono one)
  also have "\<dots> \<le> ?b e * ?b t" by (intro mult_le_mono2 assms)
  finally show ?thesis using False by simp
qed

lemma keeps_emit:
  assumes "foldl (subnet_terms env e (total_moving_prices env s)) (([], [], []), s) (subnets_to_emit_to s) = ((tao, ai, ao), u)"
  shows "keeps_issuance (fold (inject env (tao, ai, ao)) (subnets_to_emit_to s) u) (emit_to_subnets env e s)"
proof -
  let ?ns = "subnets_to_emit_to s"
  let ?v = "fold (inject env (tao, ai, ao)) ?ns u"
  let ?c = "foldl (cut_owner env (get_float_subnet_owner_cut env ?v)) (ao, ?v) ?ns"
  let ?w = "fold (sell_root_alpha env (fst ?c)) ?ns (snd ?c)"
  have "keeps_issuance ?v (snd ?c)" using keeps_cut[of "(ao, ?v)"] by simp
  also have "keeps_issuance (snd ?c) ?w" by (rule keeps_fold) (rule keeps_sell)
  also have "keeps_issuance ?w (fold (update_moving_price env) ?ns ?w)" by (rule keeps_fold) (rule keeps_small)
  finally show ?thesis using assms by (simp add: emit_to_subnets_def Let_def case_prod_beta)
qed

lemma coinbase_issues:
  fixes env :: "('a::linorder, 'h, 'f, 'u, 'i, 'v, 'w, 'c, 'g) coinbase_env"
  assumes "ufixed_ok 32 (se_price env)" "run_coinbase env (of_u64 (se_price env) e) s = Some s'" "e \<le> u64_max"
    and "distinct (get_all_subnet_netuids (cb_staking s))" "cb_TotalIssuance s \<le> u64_max"
    and "(\<Sum>n \<leftarrow> subnets_to_emit_to s. fbits (se_price env) (get_moving_alpha_price env s n)) \<le> u128_max"
  shows "cb_TotalIssuance s' = min u64_max (cb_TotalIssuance s + (\<Sum>n \<leftarrow> subnets_to_emit_to s. SubnetTaoInEmission s' n)) \<and>
    (\<Sum>n \<leftarrow> subnets_to_emit_to s. SubnetTaoInEmission s' n) \<le> e"
proof -
  let ?fx = "se_price env" and ?ns = "subnets_to_emit_to s" and ?e = "of_u64 (se_price env) e"
  have pa: "price_arith ?fx" using assms(1) by unfold_locales
  obtain tao ai ao u where terms: "foldl (subnet_terms env ?e (total_moving_prices env s)) (([], [], []), s) ?ns = ((tao, ai, ao), u)"
    by (metis prod.exhaust)
  note T = terms_bound[OF assms(1) terms]
  let ?v = "fold (inject env (tao, ai, ao)) ?ns u"
  have "keeps_issuance ?v s'"
    using keeps_emit[OF terms] keeps_drain_subnets assms(2) keeps_issuance_trans unfolding run_coinbase_def by blast
  moreover have "distinct ?ns" using assms(4) by (simp add: subnets_to_emit_to_def coinbase_subnets_def)
  moreover have "cb_TotalIssuance u = cb_TotalIssuance s" using T by auto
  ultimately have I: "cb_TotalIssuance s' = min u64_max (cb_TotalIssuance s + (\<Sum>n \<leftarrow> ?ns. to_u64 ?fx (term_of ?fx tao n)))"
    "\<And>n. n \<in> set ?ns \<Longrightarrow> SubnetTaoInEmission s' n = to_u64 ?fx (term_of ?fx tao n)"
    using injected[of ?ns u env tao ai ao] assms(5) by (simp_all add: keeps_issuance_def)
  have S: "(\<Sum>n \<leftarrow> ?ns. SubnetTaoInEmission s' n) = (\<Sum>n \<leftarrow> ?ns. to_u64 ?fx (term_of ?fx tao n))"
    by (intro arg_cong[where f = sum_list] map_cong refl I(2))
  have "fbits ?fx (total_moving_prices env s) = (\<Sum>n \<leftarrow> ?ns. fbits ?fx (get_moving_alpha_price env s n))"
    using price_arith.add_all[OF pa, of "of_u64 ?fx 0" "map (get_moving_alpha_price env s) ?ns"] assms(6)
    by (simp add: total_moving_prices_def foldl_map of_u64_0[OF assms(1)] comp_def)
  note shares = shares_le[OF assms(1) eq_refl[OF this[symmetric]], of ?e]
  have "(\<Sum>n \<leftarrow> ?ns. to_u64 ?fx (term_of ?fx tao n)) * 2 ^ 32 = (\<Sum>n \<leftarrow> ?ns. to_u64 ?fx (term_of ?fx tao n) * 2 ^ 32)"
    by (simp only: sum_list_mult_const)
  also have "\<dots> \<le> (\<Sum>n \<leftarrow> ?ns. fbits ?fx (tao_share env ?e (total_moving_prices env s) s n))"
    using T price_arith.to_u64_below[OF pa] by (intro sum_list_mono) (meson le_trans)
  also have "\<dots> \<le> e * 2 ^ 32" using shares by (simp add: price_arith.bits_of_u64[OF pa assms(3)])
  finally show ?thesis using I(1) by (simp add: S)
qed

text \<open>C6. A block issues at most its emission: after \<open>run_coinbase\<close> with a block emission of \<open>e\<close> rao the
  total issuance has grown by exactly the TAO injected into the pools of the subnets (at the top of
  \<open>u64\<close> it saturates), and these injections add up to at most \<open>e\<close>; the drain of the pending
  emissions issues nothing. The moving prices must add up within the range of \<open>U96F32\<close>.\<close>

theorem coinbase_issues_at_most_emission:
  fixes env :: "('a::linorder, 'h, 'f, 'u, 'i, 'v, 'w, 'c, 'g) coinbase_env"
  assumes "ufixed_ok 32 (se_price env)" "run_coinbase env (of_u64 (se_price env) e) s = Some s'" "e \<le> u64_max"
    and "distinct (get_all_subnet_netuids (cb_staking s))" "cb_TotalIssuance s \<le> u64_max"
    and "(\<Sum>n \<leftarrow> subnets_to_emit_to s. fbits (se_price env) (get_moving_alpha_price env s n)) \<le> u128_max"
  shows "cb_TotalIssuance s' = min u64_max (cb_TotalIssuance s + (\<Sum>n \<leftarrow> subnets_to_emit_to s. SubnetTaoInEmission s' n)) \<and>
    (\<Sum>n \<leftarrow> subnets_to_emit_to s. SubnetTaoInEmission s' n) \<le> e"
  by (rule coinbase_issues[OF assms])

section \<open>A concrete run\<close>

definition u96_bits :: "nat ufixed" where
  "u96_bits = \<lparr>fbits = (\<lambda>x. min u128_max x), of_u64 = (\<lambda>n. min u128_max (n * 2 ^ 32)),
     f_add = (\<lambda>x y. sat_add u128_max (min u128_max x) (min u128_max y)),
     f_sub = (\<lambda>x y. min u128_max x - min u128_max y),
     f_mul = (\<lambda>x y. min u128_max (min u128_max x * min u128_max y div 2 ^ 32)),
     f_div = (\<lambda>x y. let q = min u128_max x * 2 ^ 32 div min u128_max y
       in if y = 0 \<or> u128_max < q then None else Some q),
     to_u64 = (\<lambda>x. min u64_max (min u128_max x div 2 ^ 32))\<rparr>"

lemma u96_bits_ok: "ufixed_ok 32 u96_bits"
  unfolding ufixed_ok_def
  by (intro conjI allI impI) (auto simp: u96_bits_def sat_add_def u128_max_def Let_def split: if_splits)

interpretation u96: price_arith u96_bits
  by unfold_locales (rule u96_bits_ok)

definition sample_coinbase_env :: "(nat, nat, nat, nat, int, nat, nat \<Rightarrow> nat, nat, nat) coinbase_env" where
  "sample_coinbase_env = staking_env.extend (sample_staking_env bits_fixed u96_bits)
     (coinbase_env.fields 2147483648 i96_bits nat int (\<lambda>x. int x * 2 ^ 32) epoch_bits (\<lambda>_. [1, 0]) (sample_chain 7)
        (\<lambda>n x y pool. amm pool) (\<lambda>n x pool. amm pool) (\<lambda>_. None) (\<lambda>_. None) (\<lambda>_ _. None) (\<lambda>_. None))"

lemma sample_env_fields [simp]:
  "se_price sample_coinbase_env = u96_bits" "env_block sample_coinbase_env = 7" "ce_of_i96 sample_coinbase_env = nat"
  by (simp_all add: sample_coinbase_env_def sample_staking_env_def staking_env.defs coinbase_env.defs)

lemma sample_typed: "stakes_typed 2 h (sample_coinbase i)"
  by (simp add: stakes_typed_def sample_coinbase_def get_stake_for_hotkey_on_subnet_def total_hotkey_alpha_def sample_staking_def
      get_parents_def get_childkey_take_def u64_max_def u16_max_def)

theorem parent_child_split_witness:
  "smap_sum (get_parent_child_dividends_distribution sample_coinbase_env 5 2 1000 (sample_coinbase 0)) \<le> 1000 \<and>
   1000 \<le> smap_sum (get_parent_child_dividends_distribution sample_coinbase_env 5 2 1000 (sample_coinbase 0)) + 1 \<and>
   map fst (get_parent_child_dividends_distribution sample_coinbase_env 5 2 1000 (sample_coinbase 0)) = [6, 5]"
proof -
  have "get_parents (cb_children (sample_coinbase 0)) 5 2 = [(9223372036854775807, 6)]"
    by (simp add: sample_coinbase_def get_parents_def)
  then show ?thesis
    using parent_child_split[of sample_coinbase_env 2 5 "sample_coinbase 0" 1000] u96_bits_ok sample_typed
    by (simp add: u64_max_def)
qed


lemma sample_subnets: "coinbase_subnets (sample_coinbase i) = [2]" "subnets_to_emit_to (sample_coinbase i) = [2]"
  by (simp_all add: coinbase_subnets_def subnets_to_emit_to_def get_all_subnet_netuids_def sample_coinbase_def sample_staking_def
      root_netuid_def)

text \<open>Between its epochs a subnet only counts the block.\<close>

lemma drain_between_epochs:
  "\<not> should_run_epoch (e_weights (cb_epoch s)) n (env_block env) \<Longrightarrow> \<exists>s'. drain_subnets env [n] s = Some s'"
  by (simp add: drain_subnet_def)

lemma fold_keeps: "(\<And>x s. g (f x s) = g s) \<Longrightarrow> g (fold f xs s) = g s"
  by (induction xs arbitrary: s) simp_all

lemma foldl_snd_keeps: "(\<And>x p. g (snd (f p x)) = g (snd p)) \<Longrightarrow> g (snd (foldl f p xs)) = g (snd p)"
  by (induction xs arbitrary: p) simp_all

lemma block_emission_epoch: "cb_epoch (snd (get_block_emission_for_issuance I i s)) = cb_epoch s"
  using block_emission_state[of I i s] by auto

lemma emission_keeps_epoch:
  "cb_epoch (snd (subnet_terms env e t p n)) = cb_epoch (snd p)" "cb_epoch (inject env terms n s) = cb_epoch s"
  "cb_epoch (snd (cut_owner env percent q n)) = cb_epoch (snd q)" "cb_epoch (sell_root_alpha env ao n s) = cb_epoch s"
  "cb_epoch (update_moving_price env n s) = cb_epoch s"
proof -
  show "cb_epoch (snd (subnet_terms env e t p n)) = cb_epoch (snd p)"
    by (simp add: subnet_terms_def Let_def case_prod_beta block_emission_epoch)
  show "cb_epoch (inject env terms n s) = cb_epoch s" "cb_epoch (snd (cut_owner env percent q n)) = cb_epoch (snd q)"
    "cb_epoch (sell_root_alpha env ao n s) = cb_epoch s" "cb_epoch (update_moving_price env n s) = cb_epoch s"
    by (simp_all add: inject_def cut_owner_def sell_root_alpha_def update_moving_price_def Let_def case_prod_beta set_cb_pool_def
        split: sum.split)
qed

lemma emit_keeps_epoch: "cb_epoch (emit_to_subnets env e s) = cb_epoch s"
  unfolding emit_to_subnets_def Let_def case_prod_beta
  by (simp add: fold_keeps[where g = cb_epoch] foldl_snd_keeps[where g = cb_epoch] emission_keeps_epoch)

lemma sample_epoch_field: "cb_epoch (sample_coinbase i) = sample_epoch False"
  by (simp add: sample_coinbase_def)

lemma sample_run:
  assumes "cb_epoch t = sample_epoch False" "coinbase_subnets t = [2]"
  shows "\<exists>s'. run_coinbase sample_coinbase_env e t = Some s'"
proof -
  have "\<not> should_run_epoch (e_weights (sample_epoch False)) 2 7"
    by (simp add: should_run_epoch_def blocks_until_next_epoch_def sample_epoch_def sample_weights_def
        sat_add_def u64_max_def Let_def)
  then show ?thesis
    using drain_between_epochs[of "emit_to_subnets sample_coinbase_env e t" 2 sample_coinbase_env]
    by (simp add: run_coinbase_def assms emit_keeps_epoch)
qed

theorem coinbase_issues_at_most_emission_witness:
  "\<exists>s'. run_coinbase sample_coinbase_env (of_u64 u96_bits 1000000000) (sample_coinbase 7000000) = Some s' \<and>
     cb_TotalIssuance s' = min u64_max (7000000 + SubnetTaoInEmission s' 2) \<and> SubnetTaoInEmission s' 2 \<le> 1000000000"
proof -
  let ?s = "sample_coinbase 7000000"
  obtain s' where r: "run_coinbase sample_coinbase_env (of_u64 u96_bits 1000000000) ?s = Some s'"
    using sample_run[of ?s, OF sample_epoch_field sample_subnets(1)] by blast
  have "distinct (get_all_subnet_netuids (cb_staking ?s))" "cb_TotalIssuance ?s = 7000000"
    by (simp_all add: get_all_subnet_netuids_def sample_coinbase_def sample_staking_def)
  with coinbase_issues_at_most_emission[of sample_coinbase_env 1000000000 ?s s'] r u96_bits_ok
  show ?thesis by (simp add: sample_subnets u64_max_def u96_bits_def)
qed

end
