(* ===== verification/Block_Step.thy ===== *)
theory Block_Step
  imports Coinbase
begin

text \<open>
  The work of every block (\<open>pallets/subtensor/src/coinbase/block_step.rs\<close>): the burn and the difficulty
  of a registration follow the demand, the coinbase runs, and the children whose cooldown is over are
  set. \<open>U110F18\<close> is an unsigned fixed-point type with 18 fractional bits.
\<close>

section \<open>State\<close>

record ('a, 'h, 'u, 'w) chain_state =
  cs_coinbase :: "('a, 'h, 'u, 'w) coinbase_state"
  cs_registration :: "('a, 'w) registration_state"
  MinBurn :: "netuid \<Rightarrow> nat"
  MaxBurn :: "netuid \<Rightarrow> nat"
  MinDifficulty :: "netuid \<Rightarrow> nat"
  MaxDifficulty :: "netuid \<Rightarrow> nat"
  AdjustmentAlpha :: "netuid \<Rightarrow> nat"
  AdjustmentInterval :: "netuid \<Rightarrow> nat"
  LastAdjustmentBlock :: "netuid \<Rightarrow> nat"

section \<open>Registration terms\<close>

text \<open>The common part of \<open>upgraded_difficulty\<close> and \<open>upgraded_burn\<close>: the value moved towards the one
  scaled by the demand, kept between \<open>lo\<close> and \<open>hi\<close>.\<close>

definition upgraded_value :: "'x ufixed \<Rightarrow> nat \<Rightarrow> nat \<Rightarrow> nat \<Rightarrow> nat \<Rightarrow> nat \<Rightarrow> nat \<Rightarrow> nat" where
  "upgraded_value fx adjustment_alpha lo hi current registrations target =
     (let updated = f_safe_div fx (f_mul fx (of_u64 fx current) (of_u64 fx (sat_add u16_max registrations target)))
            (of_u64 fx (sat_add u16_max target target));
          alpha = f_safe_div fx (of_u64 fx adjustment_alpha) (of_u64 fx u64_max);
          next_value = f_add fx (f_mul fx alpha (of_u64 fx current)) (f_mul fx (f_sub fx (of_u64 fx 1) alpha) updated)
      in if fbits fx next_value \<ge> fbits fx (of_u64 fx hi) then hi
         else if fbits fx next_value \<le> fbits fx (of_u64 fx lo) then lo
         else to_u64 fx next_value)"

definition upgraded_difficulty ::
    "'x ufixed \<Rightarrow> ('a, 'h, 'u, 'w) chain_state \<Rightarrow> netuid \<Rightarrow> nat \<Rightarrow> nat \<Rightarrow> nat \<Rightarrow> nat" where
  "upgraded_difficulty fx s n current_difficulty registrations target =
     upgraded_value fx (AdjustmentAlpha s n) (MinDifficulty s n) (MaxDifficulty s n) current_difficulty registrations target"

definition upgraded_burn ::
    "'x ufixed \<Rightarrow> ('a, 'h, 'u, 'w) chain_state \<Rightarrow> netuid \<Rightarrow> nat \<Rightarrow> nat \<Rightarrow> nat \<Rightarrow> nat" where
  "upgraded_burn fx s n current_burn registrations target =
     upgraded_value fx (AdjustmentAlpha s n) (MinBurn s n) (MaxBurn s n) current_burn registrations target"

definition set_burn :: "netuid \<Rightarrow> nat \<Rightarrow> ('a, 'h, 'u, 'w) chain_state \<Rightarrow> ('a, 'h, 'u, 'w) chain_state" where
  "set_burn n burn s = s\<lparr>cs_registration := (cs_registration s)\<lparr>Burn := (Burn (cs_registration s))(n := burn)\<rparr>\<rparr>"

definition set_difficulty :: "netuid \<Rightarrow> nat \<Rightarrow> ('a, 'h, 'u, 'w) chain_state \<Rightarrow> ('a, 'h, 'u, 'w) chain_state" where
  "set_difficulty n difficulty s =
     s\<lparr>cs_registration := (cs_registration s)\<lparr>Difficulty := (Difficulty (cs_registration s))(n := difficulty)\<rparr>\<rparr>"

definition adjust_registration_terms ::
    "'x ufixed \<Rightarrow> nat \<Rightarrow> netuid \<Rightarrow> ('a, 'h, 'u, 'w) chain_state \<Rightarrow> ('a, 'h, 'u, 'w) chain_state" where
  "adjust_registration_terms fx current_block n s =
     (let r = cs_registration s;
          s = (if current_block - LastAdjustmentBlock s n \<ge> AdjustmentInterval s n
               then let registrations = RegistrationsThisInterval r n;
                        pow_registrations = POWRegistrationsThisInterval r n;
                        burn_registrations = BurnRegistrationsThisInterval r n;
                        target = TargetRegistrationsPerInterval r n;
                        new_difficulty = upgraded_difficulty fx s n (Difficulty r n) registrations target;
                        new_burn = upgraded_burn fx s n (Burn r n) registrations target;
                        s = (if registrations > target
                             then if pow_registrations > burn_registrations then set_difficulty n new_difficulty s
                                  else if pow_registrations < burn_registrations then set_burn n new_burn s
                                  else set_difficulty n new_difficulty (set_burn n new_burn s)
                             else if pow_registrations > burn_registrations then set_burn n new_burn s
                                  else if pow_registrations < burn_registrations then set_difficulty n new_difficulty s
                                  else set_difficulty n new_difficulty (set_burn n new_burn s))
                    in s\<lparr>LastAdjustmentBlock := (LastAdjustmentBlock s)(n := current_block),
                         cs_registration := (cs_registration s)
                           \<lparr>RegistrationsThisInterval := (RegistrationsThisInterval r)(n := 0),
                            POWRegistrationsThisInterval := (POWRegistrationsThisInterval r)(n := 0),
                            BurnRegistrationsThisInterval := (BurnRegistrationsThisInterval r)(n := 0)\<rparr>\<rparr>
               else s)
      in s\<lparr>cs_registration := (cs_registration s)
             \<lparr>RegistrationsThisBlock := (RegistrationsThisBlock (cs_registration s))(n := 0)\<rparr>\<rparr>)"

abbreviation cs_netuids :: "('a, 'h, 'u, 'w) chain_state \<Rightarrow> netuid list" where
  "cs_netuids s \<equiv> get_all_subnet_netuids (cb_staking (cs_coinbase s))"

definition adjust_registration_terms_for_networks ::
    "'x ufixed \<Rightarrow> nat \<Rightarrow> ('a, 'h, 'u, 'w) chain_state \<Rightarrow> ('a, 'h, 'u, 'w) chain_state" where
  "adjust_registration_terms_for_networks fx current_block s =
     fold (adjust_registration_terms fx current_block) (cs_netuids s) s"

section \<open>The block\<close>

definition try_set_pending_children :: "nat \<Rightarrow> ('a, 'h, 'u, 'w) coinbase_state \<Rightarrow> ('a, 'h, 'u, 'w) coinbase_state" where
  "try_set_pending_children block_number s =
     fold (\<lambda>n s. if should_run_epoch (e_weights (cb_epoch s)) n block_number
                 then s\<lparr>cb_children := do_set_pending_children block_number n (cb_children s)\<rparr> else s)
       (get_all_subnet_netuids (cb_staking s)) s"

text \<open>\<open>block_step\<close> always returns \<open>Ok\<close>; \<open>None\<close> is a panic of an epoch.\<close>

definition block_step ::
    "'x ufixed \<Rightarrow> ('a::linorder, 'h, 'f, 'u, 'i, 'v, 'w, 'c, 'g) coinbase_env \<Rightarrow> ('a, 'h, 'u, 'w) chain_state \<Rightarrow>
     ('a, 'h, 'u, 'w) chain_state option" where
  "block_step fx env s =
     (let s = adjust_registration_terms_for_networks fx (env_block env) s;
          (r, cb) = get_block_emission (ce_i96 env) (cs_coinbase s);
          block_emission = of_u64 (se_price env) (emission_or_0 r)
      in map_option (\<lambda>cb. s\<lparr>cs_coinbase := try_set_pending_children (env_block env) cb\<rparr>)
           (run_coinbase env block_emission cb))"

section \<open>Terms follow the demand within their limits\<close>

text \<open>Which of the two terms an interval adjusts.\<close>

definition adjusts_burn :: "('a, 'w) registration_state \<Rightarrow> netuid \<Rightarrow> bool" where
  "adjusts_burn r n \<longleftrightarrow> POWRegistrationsThisInterval r n = BurnRegistrationsThisInterval r n \<or>
     (RegistrationsThisInterval r n > TargetRegistrationsPerInterval r n \<longleftrightarrow>
      POWRegistrationsThisInterval r n < BurnRegistrationsThisInterval r n)"

definition adjusts_difficulty :: "('a, 'w) registration_state \<Rightarrow> netuid \<Rightarrow> bool" where
  "adjusts_difficulty r n \<longleftrightarrow> POWRegistrationsThisInterval r n = BurnRegistrationsThisInterval r n \<or>
     (RegistrationsThisInterval r n > TargetRegistrationsPerInterval r n \<longleftrightarrow>
      POWRegistrationsThisInterval r n > BurnRegistrationsThisInterval r n)"

lemma upgraded_value_bounds:
  assumes "ufixed_ok 18 fx" "lo \<le> hi" "hi \<le> u64_max"
  shows "lo \<le> upgraded_value fx a lo hi c r t \<and> upgraded_value fx a lo hi c r t \<le> hi"
proof -
  have bits: "fbits fx (of_u64 fx x) = x * 2 ^ 18" if "x \<le> u64_max" for x
    using that by (subst ufixed_okD(2)[OF assms(1)]) (simp_all add: u64_max_def u128_max_def)
  have "lo \<le> to_u64 fx x \<and> to_u64 fx x \<le> hi" if "fbits fx x < hi * 2 ^ 18" "lo * 2 ^ 18 < fbits fx x" for x
  proof -
    have "fbits fx x div 2 ^ 18 < hi" by (rule less_mult_imp_div_less[OF that(1)])
    moreover have "lo \<le> fbits fx x div 2 ^ 18" using div_le_mono[of "lo * 2 ^ 18" "fbits fx x" "2 ^ 18"] that(2) by simp
    ultimately show ?thesis using assms(3) by (simp add: ufixed_okD(6)[OF assms(1)])
  qed
  then show ?thesis using assms(2,3) bits[of lo] bits[of hi] by (simp add: upgraded_value_def Let_def not_le)
qed

definition terms_at :: "('a, 'h, 'u, 'w) chain_state \<Rightarrow> netuid \<Rightarrow> nat \<times> nat \<times> nat \<times> nat \<times> nat \<times> nat \<times> nat \<times> nat \<times> nat" where
  "terms_at s n = (let r = cs_registration s in
     (Burn r n, Difficulty r n, LastAdjustmentBlock s n, RegistrationsThisInterval r n, POWRegistrationsThisInterval r n,
      BurnRegistrationsThisInterval r n, RegistrationsThisBlock r n, TargetRegistrationsPerInterval r n, AdjustmentInterval s n))"

lemma adjust_one:
  "m \<noteq> n \<Longrightarrow> terms_at (adjust_registration_terms fx b n s) m = terms_at s m"
  "cs_coinbase (adjust_registration_terms fx b n s) = cs_coinbase s"
  "MinBurn (adjust_registration_terms fx b n s) = MinBurn s" "MaxBurn (adjust_registration_terms fx b n s) = MaxBurn s"
  "MinDifficulty (adjust_registration_terms fx b n s) = MinDifficulty s"
  "MaxDifficulty (adjust_registration_terms fx b n s) = MaxDifficulty s"
  "AdjustmentAlpha (adjust_registration_terms fx b n s) = AdjustmentAlpha s"
  by (simp_all add: adjust_registration_terms_def terms_at_def Let_def set_burn_def set_difficulty_def)

definition same_limits :: "('a, 'h, 'u, 'w) chain_state \<Rightarrow> ('a, 'h, 'u, 'w) chain_state \<Rightarrow> bool" where
  "same_limits s t \<longleftrightarrow> MinBurn t = MinBurn s \<and> MaxBurn t = MaxBurn s \<and> MinDifficulty t = MinDifficulty s \<and>
     MaxDifficulty t = MaxDifficulty s \<and> AdjustmentAlpha t = AdjustmentAlpha s \<and> cs_coinbase t = cs_coinbase s"

lemma adjust_local:
  assumes "terms_at t n = terms_at s n" "same_limits s t"
  shows "terms_at (adjust_registration_terms fx b n t) n = terms_at (adjust_registration_terms fx b n s) n"
  using assms
  by (simp add: terms_at_def same_limits_def Let_def adjust_registration_terms_def set_burn_def set_difficulty_def
      upgraded_burn_def upgraded_difficulty_def)

lemma adjust_same_limits: "same_limits s (fold (adjust_registration_terms fx b) ns s)"
  by (induction ns arbitrary: s) (auto simp: same_limits_def adjust_one)

lemma adjust_fold_other: "m \<notin> set ns \<Longrightarrow> terms_at (fold (adjust_registration_terms fx b) ns s) m = terms_at s m"
  by (induction ns arbitrary: s) (auto simp: adjust_one(1))

lemma adjust_fold:
  assumes "distinct ns" "n \<in> set ns"
  shows "terms_at (fold (adjust_registration_terms fx b) ns s) n = terms_at (adjust_registration_terms fx b n s) n"
proof -
  obtain xs ys where ns: "ns = xs @ n # ys" using assms(2) by (meson split_list)
  let ?t = "fold (adjust_registration_terms fx b) xs s"
  have "terms_at (fold (adjust_registration_terms fx b) ns s) n = terms_at (adjust_registration_terms fx b n ?t) n"
    using assms(1) by (simp add: ns adjust_fold_other)
  also have "\<dots> = terms_at (adjust_registration_terms fx b n s) n"
    using assms(1) by (intro adjust_local adjust_fold_other adjust_same_limits) (simp add: ns)
  finally show ?thesis .
qed

text \<open>C37. In every block the registration counter of the block is reset on every subnet. Where the
  adjustment interval is over, the burn and the difficulty are adjusted to the demand exactly in the
  cases of the table (too many registrations raise the term most of them used, too few lower the
  other one, equal numbers adjust both), the result is within its limits, and the counters of the
  interval start again; where it is not over, nothing else of the terms changes.\<close>

theorem registration_terms_follow_demand:
  fixes fx :: "'x ufixed" and s :: "('a, 'h, 'u, 'w) chain_state" and b :: nat
  assumes "ufixed_ok 18 fx" "distinct (cs_netuids s)" "n \<in> set (cs_netuids s)"
    and "MinBurn s n \<le> MaxBurn s n" "MaxBurn s n \<le> u64_max" "MinDifficulty s n \<le> MaxDifficulty s n" "MaxDifficulty s n \<le> u64_max"
  defines "s' \<equiv> adjust_registration_terms_for_networks fx b s" and "due \<equiv> AdjustmentInterval s n \<le> b - LastAdjustmentBlock s n"
    and "r \<equiv> cs_registration s"
  defines "r' \<equiv> cs_registration s'"
  shows "Burn r' n = (if due \<and> adjusts_burn r n
      then upgraded_burn fx s n (Burn r n) (RegistrationsThisInterval r n) (TargetRegistrationsPerInterval r n) else Burn r n)
    \<and> Difficulty r' n = (if due \<and> adjusts_difficulty r n
      then upgraded_difficulty fx s n (Difficulty r n) (RegistrationsThisInterval r n) (TargetRegistrationsPerInterval r n)
      else Difficulty r n)
    \<and> (due \<and> adjusts_burn r n \<longrightarrow> MinBurn s n \<le> Burn r' n \<and> Burn r' n \<le> MaxBurn s n)
    \<and> (due \<and> adjusts_difficulty r n \<longrightarrow> MinDifficulty s n \<le> Difficulty r' n \<and> Difficulty r' n \<le> MaxDifficulty s n)
    \<and> RegistrationsThisBlock r' n = 0
    \<and> RegistrationsThisInterval r' n = (if due then 0 else RegistrationsThisInterval r n)
    \<and> POWRegistrationsThisInterval r' n = (if due then 0 else POWRegistrationsThisInterval r n)
    \<and> BurnRegistrationsThisInterval r' n = (if due then 0 else BurnRegistrationsThisInterval r n)
    \<and> LastAdjustmentBlock s' n = (if due then b else LastAdjustmentBlock s n)"
proof -
  let ?a = "adjust_registration_terms fx b n s"
  have at: "terms_at s' n = terms_at ?a n"
    unfolding s'_def adjust_registration_terms_for_networks_def by (rule adjust_fold[OF assms(2,3)])
  have terms: "Burn r' n = Burn (cs_registration ?a) n" "Difficulty r' n = Difficulty (cs_registration ?a) n"
    "LastAdjustmentBlock s' n = LastAdjustmentBlock ?a n"
    "RegistrationsThisInterval r' n = RegistrationsThisInterval (cs_registration ?a) n"
    "POWRegistrationsThisInterval r' n = POWRegistrationsThisInterval (cs_registration ?a) n"
    "BurnRegistrationsThisInterval r' n = BurnRegistrationsThisInterval (cs_registration ?a) n"
    "RegistrationsThisBlock r' n = RegistrationsThisBlock (cs_registration ?a) n"
    using at unfolding terms_at_def Let_def r'_def by simp_all
  have b: "Burn r' n = (if due \<and> adjusts_burn r n
      then upgraded_burn fx s n (Burn r n) (RegistrationsThisInterval r n) (TargetRegistrationsPerInterval r n) else Burn r n)"
    unfolding terms(1) r_def due_def
    by (auto simp: adjust_registration_terms_def Let_def set_burn_def set_difficulty_def adjusts_burn_def)
  have d: "Difficulty r' n = (if due \<and> adjusts_difficulty r n
      then upgraded_difficulty fx s n (Difficulty r n) (RegistrationsThisInterval r n) (TargetRegistrationsPerInterval r n)
      else Difficulty r n)"
    unfolding terms(2) r_def due_def
    by (auto simp: adjust_registration_terms_def Let_def set_burn_def set_difficulty_def adjusts_difficulty_def)
  note bounds = upgraded_value_bounds[OF assms(1,4,5)] upgraded_value_bounds[OF assms(1,6,7)]
  have "due \<and> adjusts_burn r n \<longrightarrow> MinBurn s n \<le> Burn r' n \<and> Burn r' n \<le> MaxBurn s n"
    "due \<and> adjusts_difficulty r n \<longrightarrow> MinDifficulty s n \<le> Difficulty r' n \<and> Difficulty r' n \<le> MaxDifficulty s n"
    unfolding b d by (simp_all add: bounds upgraded_burn_def upgraded_difficulty_def)
  moreover have "RegistrationsThisBlock r' n = 0"
    "RegistrationsThisInterval r' n = (if due then 0 else RegistrationsThisInterval r n)"
    "POWRegistrationsThisInterval r' n = (if due then 0 else POWRegistrationsThisInterval r n)"
    "BurnRegistrationsThisInterval r' n = (if due then 0 else BurnRegistrationsThisInterval r n)"
    "LastAdjustmentBlock s' n = (if due then b else LastAdjustmentBlock s n)"
    unfolding terms by (simp_all add: r_def due_def adjust_registration_terms_def Let_def set_burn_def set_difficulty_def)
  ultimately show ?thesis using b d by blast
qed

section \<open>A concrete block\<close>

definition u110_bits :: "nat ufixed" where
  "u110_bits = \<lparr>fbits = (\<lambda>x. min u128_max x), of_u64 = (\<lambda>n. min u128_max (n * 2 ^ 18)),
     f_add = (\<lambda>x y. sat_add u128_max (min u128_max x) (min u128_max y)),
     f_sub = (\<lambda>x y. min u128_max x - min u128_max y),
     f_mul = (\<lambda>x y. min u128_max (min u128_max x * min u128_max y div 2 ^ 18)),
     f_div = (\<lambda>x y. let q = min u128_max x * 2 ^ 18 div min u128_max y
       in if y = 0 \<or> u128_max < q then None else Some q),
     to_u64 = (\<lambda>x. min u64_max (min u128_max x div 2 ^ 18))\<rparr>"

lemma u110_bits_ok: "ufixed_ok 18 u110_bits"
  unfolding ufixed_ok_def
  by (intro conjI allI impI) (auto simp: u110_bits_def sat_add_def u128_max_def Let_def split: if_splits)

definition sample_chain_state :: "nat \<Rightarrow> (nat, nat, nat, nat \<Rightarrow> nat) chain_state" where
  "sample_chain_state issuance = \<lparr>cs_coinbase = sample_coinbase issuance,
     cs_registration = (sample_state sample_neurons 0)\<lparr>Burn := (\<lambda>_. 1000), RegistrationsThisInterval := (\<lambda>_. 9),
       BurnRegistrationsThisInterval := (\<lambda>_. 6), POWRegistrationsThisInterval := (\<lambda>_. 3), TargetRegistrationsPerInterval := (\<lambda>_. 2)\<rparr>,
     MinBurn = (\<lambda>_. 500), MaxBurn = (\<lambda>_. 100000), MinDifficulty = (\<lambda>_. 1), MaxDifficulty = (\<lambda>_. 1000000),
     AdjustmentAlpha = (\<lambda>_. 0), AdjustmentInterval = (\<lambda>_. 5), LastAdjustmentBlock = (\<lambda>_. 0)\<rparr>"

theorem registration_terms_follow_demand_witness:
  "let s = sample_chain_state 0; r' = cs_registration (adjust_registration_terms_for_networks u110_bits 7 s) in
   Burn r' 2 = upgraded_burn u110_bits s 2 1000 9 2 \<and> 500 \<le> Burn r' 2 \<and> Burn r' 2 \<le> 100000 \<and>
   RegistrationsThisInterval r' 2 = 0 \<and> RegistrationsThisBlock r' 2 = 0"
proof -
  let ?s = "sample_chain_state 0"
  have f: "cs_netuids ?s = [0, 2]" "MinBurn ?s 2 = 500" "MaxBurn ?s 2 = 100000" "MinDifficulty ?s 2 = 1" "MaxDifficulty ?s 2 = 1000000"
    "AdjustmentInterval ?s 2 = 5" "LastAdjustmentBlock ?s 2 = 0" "Burn (cs_registration ?s) 2 = 1000"
    "RegistrationsThisInterval (cs_registration ?s) 2 = 9" "TargetRegistrationsPerInterval (cs_registration ?s) 2 = 2"
    "adjusts_burn (cs_registration ?s) 2"
    by (simp_all add: sample_chain_state_def sample_coinbase_def sample_staking_def get_all_subnet_netuids_def adjusts_burn_def)
  show ?thesis using registration_terms_follow_demand[of u110_bits ?s 2 7, OF u110_bits_ok]
    unfolding f Let_def by (simp add: f u64_max_def)
qed

end
