(* ===== verification/Admin_Utils.thy ===== *)
theory Admin_Utils
  imports Block_Step
begin

text \<open>
  The hyperparameters and the calls that set them (\<open>pallets/admin-utils/src/lib.rs\<close>, the setters of
  \<open>pallets/subtensor/src/utils/misc.rs\<close>). The state is that of the chain with the parameters that no
  other component reads. A storage item of which several component states hold a copy (the tempo,
  the stake threshold, the hotkey of a subnet's owner, the registration switches, the issuance) is
  written in every copy. The two consensus pallets behind \<open>T::Aura\<close> and \<open>T::Grandpa\<close> are a world
  \<open>'b\<close> with their operations as arguments; \<open>alpha_keys\<close> is the order in which \<open>Alpha\<close> is iterated.
\<close>

section \<open>State\<close>

datatype admin_error =
    SubnetDoesNotExist
  | MaxValidatorsLargerThanMaxUIds
  | MaxAllowedUIdsLessThanCurrentUIds
  | BondsMovingAverageMaxReached
  | NegativeSigmoidSteepness
  | SubtensorError subtensor_error

datatype precompile_enum = BalanceTransfer | StakingPrecompile | SubnetPrecompile | Metagraph | Neuron | UidLookup | AlphaPrecompile

record ('a, 'h, 'u, 'w, 'b) admin_state =
  ad_chain :: "('a, 'h, 'u, 'w) chain_state"
  ad_MaxDelegateTake :: nat
  ad_MinDelegateTake :: nat
  ad_ServingRateLimit :: "netuid \<Rightarrow> nat"
  MinActivityCutoff :: nat
  NetworkImmunityPeriod :: nat
  NetworkMinLockCost :: nat
  NetworkLockReductionInterval :: nat
  ad_ColdkeySwapScheduleDuration :: nat
  DissolveNetworkScheduleDuration :: nat
  ChainId :: nat
  PrecompileEnable :: "precompile_enum \<Rightarrow> bool"
  ad_consensus :: 'b

type_synonym ('a, 'h, 'u, 'w, 'b) admin_result = "(admin_error, ('a, 'h, 'u, 'w, 'b) admin_state) result"

record ('a, 'u, 'i, 'v, 'w, 'b) admin_env =
  ae_staking :: "('a, 'u, 'i, 'v, 'w) staking_env"
  alpha_keys :: "('a, 'u) alpha_state \<Rightarrow> ('a \<times> 'a \<times> netuid) list"
  change_authorities :: "nat list list \<Rightarrow> 'b \<Rightarrow> 'b"
  schedule_change :: "(nat list \<times> nat) list \<Rightarrow> nat \<Rightarrow> nat option \<Rightarrow> 'b \<Rightarrow> (subtensor_error, 'b) result"

section \<open>Access to the parts of the state\<close>

abbreviation ad_coinbase :: "('a, 'h, 'u, 'w, 'b) admin_state \<Rightarrow> ('a, 'h, 'u, 'w) coinbase_state" where
  "ad_coinbase s \<equiv> cs_coinbase (ad_chain s)"

definition on_chain ::
    "(('a, 'h, 'u, 'w) chain_state \<Rightarrow> ('a, 'h, 'u, 'w) chain_state) \<Rightarrow> ('a, 'h, 'u, 'w, 'b) admin_state \<Rightarrow>
     ('a, 'h, 'u, 'w, 'b) admin_state" where
  "on_chain f s = s\<lparr>ad_chain := f (ad_chain s)\<rparr>"

definition on_registration ::
    "(('a, 'w) registration_state \<Rightarrow> ('a, 'w) registration_state) \<Rightarrow> ('a, 'h, 'u, 'w, 'b) admin_state \<Rightarrow>
     ('a, 'h, 'u, 'w, 'b) admin_state" where
  "on_registration f = on_chain (\<lambda>c. c\<lparr>cs_registration := f (cs_registration c)\<rparr>)"

definition on_coinbase ::
    "(('a, 'h, 'u, 'w) coinbase_state \<Rightarrow> ('a, 'h, 'u, 'w) coinbase_state) \<Rightarrow> ('a, 'h, 'u, 'w, 'b) admin_state \<Rightarrow>
     ('a, 'h, 'u, 'w, 'b) admin_state" where
  "on_coinbase f = on_chain (\<lambda>c. c\<lparr>cs_coinbase := f (cs_coinbase c)\<rparr>)"

definition on_epoch ::
    "(('a, 'h) epoch_state \<Rightarrow> ('a, 'h) epoch_state) \<Rightarrow> ('a, 'h, 'u, 'w, 'b) admin_state \<Rightarrow> ('a, 'h, 'u, 'w, 'b) admin_state" where
  "on_epoch f = on_coinbase (\<lambda>c. c\<lparr>cb_epoch := f (cb_epoch c)\<rparr>)"

definition on_weights ::
    "(('a, 'h) weights_state \<Rightarrow> ('a, 'h) weights_state) \<Rightarrow> ('a, 'h, 'u, 'w, 'b) admin_state \<Rightarrow> ('a, 'h, 'u, 'w, 'b) admin_state" where
  "on_weights f = on_epoch (\<lambda>e. e\<lparr>e_weights := f (e_weights e)\<rparr>)"

definition on_staking ::
    "(('a, 'u, 'w) staking_state \<Rightarrow> ('a, 'u, 'w) staking_state) \<Rightarrow> ('a, 'h, 'u, 'w, 'b) admin_state \<Rightarrow>
     ('a, 'h, 'u, 'w, 'b) admin_state" where
  "on_staking f = on_coinbase (\<lambda>c. c\<lparr>cb_staking := f (cb_staking c)\<rparr>)"

definition on_children ::
    "('a children_state \<Rightarrow> 'a children_state) \<Rightarrow> ('a, 'h, 'u, 'w, 'b) admin_state \<Rightarrow> ('a, 'h, 'u, 'w, 'b) admin_state" where
  "on_children f = on_coinbase (\<lambda>c. c\<lparr>cb_children := f (cb_children c)\<rparr>)"

definition on_limits ::
    "('a rate_limits \<Rightarrow> 'a rate_limits) \<Rightarrow> ('a, 'h, 'u, 'w, 'b) admin_state \<Rightarrow> ('a, 'h, 'u, 'w, 'b) admin_state" where
  "on_limits f = on_children (\<lambda>c. c\<lparr>ch_limits := f (ch_limits c)\<rparr>)"

section \<open>Setters of the subtensor pallet\<close>

definition set_min_difficulty :: "netuid \<Rightarrow> nat \<Rightarrow> ('a, 'h, 'u, 'w, 'b) admin_state \<Rightarrow> ('a, 'h, 'u, 'w, 'b) admin_state" where
  "set_min_difficulty n v = on_chain (\<lambda>x. x\<lparr>MinDifficulty := (MinDifficulty x)(n := v)\<rparr>)"

definition set_max_difficulty :: "netuid \<Rightarrow> nat \<Rightarrow> ('a, 'h, 'u, 'w, 'b) admin_state \<Rightarrow> ('a, 'h, 'u, 'w, 'b) admin_state" where
  "set_max_difficulty n v = on_chain (\<lambda>x. x\<lparr>MaxDifficulty := (MaxDifficulty x)(n := v)\<rparr>)"

definition set_weights_version_key :: "netuid \<Rightarrow> nat \<Rightarrow> ('a, 'h, 'u, 'w, 'b) admin_state \<Rightarrow> ('a, 'h, 'u, 'w, 'b) admin_state" where
  "set_weights_version_key n v = on_weights (\<lambda>x. x\<lparr>WeightsVersionKey := (WeightsVersionKey x)(n := v)\<rparr>)"

definition set_weights_set_rate_limit :: "netuid \<Rightarrow> nat \<Rightarrow> ('a, 'h, 'u, 'w, 'b) admin_state \<Rightarrow> ('a, 'h, 'u, 'w, 'b) admin_state" where
  "set_weights_set_rate_limit n v = on_weights (\<lambda>x. x\<lparr>WeightsSetRateLimit := (WeightsSetRateLimit x)(n := v)\<rparr>)"

definition set_adjustment_interval :: "netuid \<Rightarrow> nat \<Rightarrow> ('a, 'h, 'u, 'w, 'b) admin_state \<Rightarrow> ('a, 'h, 'u, 'w, 'b) admin_state" where
  "set_adjustment_interval n v = on_chain (\<lambda>x. x\<lparr>AdjustmentInterval := (AdjustmentInterval x)(n := v)\<rparr>)"

definition set_adjustment_alpha :: "netuid \<Rightarrow> nat \<Rightarrow> ('a, 'h, 'u, 'w, 'b) admin_state \<Rightarrow> ('a, 'h, 'u, 'w, 'b) admin_state" where
  "set_adjustment_alpha n v = on_chain (\<lambda>x. x\<lparr>AdjustmentAlpha := (AdjustmentAlpha x)(n := v)\<rparr>)"

definition set_max_weight_limit :: "netuid \<Rightarrow> nat \<Rightarrow> ('a, 'h, 'u, 'w, 'b) admin_state \<Rightarrow> ('a, 'h, 'u, 'w, 'b) admin_state" where
  "set_max_weight_limit n v = on_weights (\<lambda>x. x\<lparr>MaxWeightsLimit := (MaxWeightsLimit x)(n := v)\<rparr>)"

definition set_immunity_period :: "netuid \<Rightarrow> nat \<Rightarrow> ('a, 'h, 'u, 'w, 'b) admin_state \<Rightarrow> ('a, 'h, 'u, 'w, 'b) admin_state" where
  "set_immunity_period n v = on_registration (\<lambda>x. x\<lparr>ImmunityPeriod := (ImmunityPeriod x)(n := v)\<rparr>)"

definition set_min_allowed_weights :: "netuid \<Rightarrow> nat \<Rightarrow> ('a, 'h, 'u, 'w, 'b) admin_state \<Rightarrow> ('a, 'h, 'u, 'w, 'b) admin_state" where
  "set_min_allowed_weights n v = on_weights (\<lambda>x. x\<lparr>MinAllowedWeights := (MinAllowedWeights x)(n := v)\<rparr>)"

definition set_max_allowed_uids :: "netuid \<Rightarrow> nat \<Rightarrow> ('a, 'h, 'u, 'w, 'b) admin_state \<Rightarrow> ('a, 'h, 'u, 'w, 'b) admin_state" where
  "set_max_allowed_uids n v = on_registration (\<lambda>x. x\<lparr>MaxAllowedUids := (MaxAllowedUids x)(n := v)\<rparr>)"

definition set_kappa :: "netuid \<Rightarrow> nat \<Rightarrow> ('a, 'h, 'u, 'w, 'b) admin_state \<Rightarrow> ('a, 'h, 'u, 'w, 'b) admin_state" where
  "set_kappa n v = on_epoch (\<lambda>x. x\<lparr>Kappa := (Kappa x)(n := v)\<rparr>)"

definition set_rho :: "netuid \<Rightarrow> nat \<Rightarrow> ('a, 'h, 'u, 'w, 'b) admin_state \<Rightarrow> ('a, 'h, 'u, 'w, 'b) admin_state" where
  "set_rho n v = on_epoch (\<lambda>x. x\<lparr>Rho := (Rho x)(n := v)\<rparr>)"

definition set_activity_cutoff :: "netuid \<Rightarrow> nat \<Rightarrow> ('a, 'h, 'u, 'w, 'b) admin_state \<Rightarrow> ('a, 'h, 'u, 'w, 'b) admin_state" where
  "set_activity_cutoff n v = on_epoch (\<lambda>x. x\<lparr>ActivityCutoff := (ActivityCutoff x)(n := v)\<rparr>)"

definition set_target_registrations_per_interval :: "netuid \<Rightarrow> nat \<Rightarrow> ('a, 'h, 'u, 'w, 'b) admin_state \<Rightarrow> ('a, 'h, 'u, 'w, 'b) admin_state" where
  "set_target_registrations_per_interval n v = on_registration (\<lambda>x. x\<lparr>TargetRegistrationsPerInterval := (TargetRegistrationsPerInterval x)(n := v)\<rparr>)"

definition set_min_burn :: "netuid \<Rightarrow> nat \<Rightarrow> ('a, 'h, 'u, 'w, 'b) admin_state \<Rightarrow> ('a, 'h, 'u, 'w, 'b) admin_state" where
  "set_min_burn n v = on_chain (\<lambda>x. x\<lparr>MinBurn := (MinBurn x)(n := v)\<rparr>)"

definition set_max_burn :: "netuid \<Rightarrow> nat \<Rightarrow> ('a, 'h, 'u, 'w, 'b) admin_state \<Rightarrow> ('a, 'h, 'u, 'w, 'b) admin_state" where
  "set_max_burn n v = on_chain (\<lambda>x. x\<lparr>MaxBurn := (MaxBurn x)(n := v)\<rparr>)"

definition set_max_allowed_validators :: "netuid \<Rightarrow> nat \<Rightarrow> ('a, 'h, 'u, 'w, 'b) admin_state \<Rightarrow> ('a, 'h, 'u, 'w, 'b) admin_state" where
  "set_max_allowed_validators n v = on_epoch (\<lambda>x. x\<lparr>MaxAllowedValidators := (MaxAllowedValidators x)(n := v)\<rparr>)"

definition set_bonds_moving_average :: "netuid \<Rightarrow> nat \<Rightarrow> ('a, 'h, 'u, 'w, 'b) admin_state \<Rightarrow> ('a, 'h, 'u, 'w, 'b) admin_state" where
  "set_bonds_moving_average n v = on_epoch (\<lambda>x. x\<lparr>BondsMovingAverage := (BondsMovingAverage x)(n := v)\<rparr>)"

definition set_bonds_penalty :: "netuid \<Rightarrow> nat \<Rightarrow> ('a, 'h, 'u, 'w, 'b) admin_state \<Rightarrow> ('a, 'h, 'u, 'w, 'b) admin_state" where
  "set_bonds_penalty n v = on_epoch (\<lambda>x. x\<lparr>BondsPenalty := (BondsPenalty x)(n := v)\<rparr>)"

definition set_max_registrations_per_block :: "netuid \<Rightarrow> nat \<Rightarrow> ('a, 'h, 'u, 'w, 'b) admin_state \<Rightarrow> ('a, 'h, 'u, 'w, 'b) admin_state" where
  "set_max_registrations_per_block n v = on_registration (\<lambda>x. x\<lparr>MaxRegistrationsPerBlock := (MaxRegistrationsPerBlock x)(n := v)\<rparr>)"

definition set_rao_recycled :: "netuid \<Rightarrow> nat \<Rightarrow> ('a, 'h, 'u, 'w, 'b) admin_state \<Rightarrow> ('a, 'h, 'u, 'w, 'b) admin_state" where
  "set_rao_recycled n v = on_registration (\<lambda>x. x\<lparr>RAORecycledForRegistration := (RAORecycledForRegistration x)(n := v)\<rparr>)"

definition set_commit_reveal_weights_enabled :: "netuid \<Rightarrow> bool \<Rightarrow> ('a, 'h, 'u, 'w, 'b) admin_state \<Rightarrow> ('a, 'h, 'u, 'w, 'b) admin_state" where
  "set_commit_reveal_weights_enabled n v = on_weights (\<lambda>x. x\<lparr>CommitRevealWeightsEnabled := (CommitRevealWeightsEnabled x)(n := v)\<rparr>)"

definition set_liquid_alpha_enabled :: "netuid \<Rightarrow> bool \<Rightarrow> ('a, 'h, 'u, 'w, 'b) admin_state \<Rightarrow> ('a, 'h, 'u, 'w, 'b) admin_state" where
  "set_liquid_alpha_enabled n v = on_epoch (\<lambda>x. x\<lparr>LiquidAlphaOn := (LiquidAlphaOn x)(n := v)\<rparr>)"

definition set_alpha_sigmoid_steepness :: "netuid \<Rightarrow> int \<Rightarrow> ('a, 'h, 'u, 'w, 'b) admin_state \<Rightarrow> ('a, 'h, 'u, 'w, 'b) admin_state" where
  "set_alpha_sigmoid_steepness n v = on_epoch (\<lambda>x. x\<lparr>AlphaSigmoidSteepness := (AlphaSigmoidSteepness x)(n := v)\<rparr>)"

definition set_yuma3_enabled :: "netuid \<Rightarrow> bool \<Rightarrow> ('a, 'h, 'u, 'w, 'b) admin_state \<Rightarrow> ('a, 'h, 'u, 'w, 'b) admin_state" where
  "set_yuma3_enabled n v = on_epoch (\<lambda>x. x\<lparr>Yuma3On := (Yuma3On x)(n := v)\<rparr>)"

definition set_bonds_reset :: "netuid \<Rightarrow> bool \<Rightarrow> ('a, 'h, 'u, 'w, 'b) admin_state \<Rightarrow> ('a, 'h, 'u, 'w, 'b) admin_state" where
  "set_bonds_reset n v = on_epoch (\<lambda>x. x\<lparr>BondsResetOn := (BondsResetOn x)(n := v)\<rparr>)"

definition set_serving_rate_limit :: "netuid \<Rightarrow> nat \<Rightarrow> ('a, 'h, 'u, 'w, 'b) admin_state \<Rightarrow> ('a, 'h, 'u, 'w, 'b) admin_state" where
  "set_serving_rate_limit n v s = s\<lparr>ad_ServingRateLimit := (ad_ServingRateLimit s)(n := v)\<rparr>"

definition set_network_registration_allowed :: "netuid \<Rightarrow> bool \<Rightarrow> ('a, 'h, 'u, 'w, 'b) admin_state \<Rightarrow> ('a, 'h, 'u, 'w, 'b) admin_state" where
  "set_network_registration_allowed n v s =
     on_coinbase (\<lambda>x. x\<lparr>cb_NetworkRegistrationAllowed := (cb_NetworkRegistrationAllowed x)(n := v)\<rparr>)
       (on_registration (\<lambda>x. x\<lparr>NetworkRegistrationAllowed := (NetworkRegistrationAllowed x)(n := v)\<rparr>) s)"

definition set_network_pow_registration_allowed :: "netuid \<Rightarrow> bool \<Rightarrow> ('a, 'h, 'u, 'w, 'b) admin_state \<Rightarrow> ('a, 'h, 'u, 'w, 'b) admin_state" where
  "set_network_pow_registration_allowed n v s =
     on_coinbase (\<lambda>x. x\<lparr>cb_NetworkPowRegistrationAllowed := (cb_NetworkPowRegistrationAllowed x)(n := v)\<rparr>)
       (on_registration (\<lambda>x. x\<lparr>NetworkPowRegistrationAllowed := (NetworkPowRegistrationAllowed x)(n := v)\<rparr>) s)"

definition set_tempo :: "netuid \<Rightarrow> nat \<Rightarrow> ('a, 'h, 'u, 'w, 'b) admin_state \<Rightarrow> ('a, 'h, 'u, 'w, 'b) admin_state" where
  "set_tempo n v s = on_limits (\<lambda>x. x\<lparr>rl_Tempo := (rl_Tempo x)(n := v)\<rparr>) (on_weights (\<lambda>x. x\<lparr>Tempo := (Tempo x)(n := v)\<rparr>) s)"

definition set_subnet_owner_hotkey :: "netuid \<Rightarrow> 'a \<Rightarrow> ('a, 'h, 'u, 'w, 'b) admin_state \<Rightarrow> ('a, 'h, 'u, 'w, 'b) admin_state" where
  "set_subnet_owner_hotkey n hotkey s =
     on_children (\<lambda>x. x\<lparr>ch_SubnetOwnerHotkey := (ch_SubnetOwnerHotkey x)(n \<mapsto> hotkey)\<rparr>)
    (on_registration (\<lambda>x. x\<lparr>reg_neurons := (reg_neurons x)\<lparr>SubnetOwnerHotkey := (SubnetOwnerHotkey (reg_neurons x))(n \<mapsto> hotkey)\<rparr>\<rparr>)
    (on_weights (\<lambda>x. x\<lparr>w_neurons := (w_neurons x)\<lparr>SubnetOwnerHotkey := (SubnetOwnerHotkey (w_neurons x))(n \<mapsto> hotkey)\<rparr>\<rparr>) s))"

definition set_stake_threshold :: "nat \<Rightarrow> ('a, 'h, 'u, 'w, 'b) admin_state \<Rightarrow> ('a, 'h, 'u, 'w, 'b) admin_state" where
  "set_stake_threshold v s =
     on_children (\<lambda>x. x\<lparr>StakeThreshold := v\<rparr>) (on_staking (\<lambda>x. x\<lparr>st_StakeThreshold := v\<rparr>) (on_epoch (\<lambda>x. x\<lparr>e_StakeThreshold := v\<rparr>) s))"

definition set_total_issuance :: "nat \<Rightarrow> ('a, 'h, 'u, 'w, 'b) admin_state \<Rightarrow> ('a, 'h, 'u, 'w, 'b) admin_state" where
  "set_total_issuance v s = on_coinbase (\<lambda>x. x\<lparr>cb_TotalIssuance := v\<rparr>) (on_registration (\<lambda>x. x\<lparr>TotalIssuance := v\<rparr>) s)"

definition set_tx_rate_limit :: "nat \<Rightarrow> ('a, 'h, 'u, 'w, 'b) admin_state \<Rightarrow> ('a, 'h, 'u, 'w, 'b) admin_state" where
  "set_tx_rate_limit v = on_limits (\<lambda>x. x\<lparr>TxRateLimit := v\<rparr>)"

definition set_network_rate_limit :: "nat \<Rightarrow> ('a, 'h, 'u, 'w, 'b) admin_state \<Rightarrow> ('a, 'h, 'u, 'w, 'b) admin_state" where
  "set_network_rate_limit v = on_limits (\<lambda>x. x\<lparr>NetworkRateLimit := v\<rparr>)"

definition set_tx_delegate_take_rate_limit :: "nat \<Rightarrow> ('a, 'h, 'u, 'w, 'b) admin_state \<Rightarrow> ('a, 'h, 'u, 'w, 'b) admin_state" where
  "set_tx_delegate_take_rate_limit v = on_limits (\<lambda>x. x\<lparr>TxDelegateTakeRateLimit := v\<rparr>)"

definition set_subnet_owner_cut :: "nat \<Rightarrow> ('a, 'h, 'u, 'w, 'b) admin_state \<Rightarrow> ('a, 'h, 'u, 'w, 'b) admin_state" where
  "set_subnet_owner_cut v = on_coinbase (\<lambda>x. x\<lparr>SubnetOwnerCut := v\<rparr>)"

definition set_nominator_min_required_stake :: "nat \<Rightarrow> ('a, 'h, 'u, 'w, 'b) admin_state \<Rightarrow> ('a, 'h, 'u, 'w, 'b) admin_state" where
  "set_nominator_min_required_stake v = on_staking (\<lambda>x. x\<lparr>NominatorMinRequiredStake := v\<rparr>)"

definition set_max_delegate_take :: "nat \<Rightarrow> ('a, 'h, 'u, 'w, 'b) admin_state \<Rightarrow> ('a, 'h, 'u, 'w, 'b) admin_state" where
  "set_max_delegate_take v s = s\<lparr>ad_MaxDelegateTake := v\<rparr>"

definition set_min_delegate_take :: "nat \<Rightarrow> ('a, 'h, 'u, 'w, 'b) admin_state \<Rightarrow> ('a, 'h, 'u, 'w, 'b) admin_state" where
  "set_min_delegate_take v s = s\<lparr>ad_MinDelegateTake := v\<rparr>"

definition set_network_immunity_period :: "nat \<Rightarrow> ('a, 'h, 'u, 'w, 'b) admin_state \<Rightarrow> ('a, 'h, 'u, 'w, 'b) admin_state" where
  "set_network_immunity_period v s = s\<lparr>NetworkImmunityPeriod := v\<rparr>"

definition set_network_min_lock :: "nat \<Rightarrow> ('a, 'h, 'u, 'w, 'b) admin_state \<Rightarrow> ('a, 'h, 'u, 'w, 'b) admin_state" where
  "set_network_min_lock v s = s\<lparr>NetworkMinLockCost := v\<rparr>"

definition set_lock_reduction_interval :: "nat \<Rightarrow> ('a, 'h, 'u, 'w, 'b) admin_state \<Rightarrow> ('a, 'h, 'u, 'w, 'b) admin_state" where
  "set_lock_reduction_interval v s = s\<lparr>NetworkLockReductionInterval := v\<rparr>"

definition set_coldkey_swap_schedule_duration :: "nat \<Rightarrow> ('a, 'h, 'u, 'w, 'b) admin_state \<Rightarrow> ('a, 'h, 'u, 'w, 'b) admin_state" where
  "set_coldkey_swap_schedule_duration v s = s\<lparr>ad_ColdkeySwapScheduleDuration := v\<rparr>"

definition set_dissolve_network_schedule_duration :: "nat \<Rightarrow> ('a, 'h, 'u, 'w, 'b) admin_state \<Rightarrow> ('a, 'h, 'u, 'w, 'b) admin_state" where
  "set_dissolve_network_schedule_duration v s = s\<lparr>DissolveNetworkScheduleDuration := v\<rparr>"

section \<open>Origins and checks\<close>

definition ad_root :: "'a origin \<Rightarrow> (admin_error, 's) result \<Rightarrow> (admin_error, 's) result" where
  "ad_root og k = and_then (ensure_root (SubtensorError BadOrigin) og) (\<lambda>_. k)"

definition ad_owner_or_root :: "'a origin \<Rightarrow> netuid \<Rightarrow> ('a, 'h, 'u, 'w, 'b) admin_state \<Rightarrow> (admin_error, 's) result \<Rightarrow> (admin_error, 's) result" where
  "ad_owner_or_root og n s k =
     and_then (map_err SubtensorError (ensure_subnet_owner_or_root (e_SubnetOwner (cb_epoch (ad_coinbase s))) og n)) (\<lambda>_. k)"

definition ensure_subnet_owner :: "(netuid \<Rightarrow> 'a) \<Rightarrow> 'a origin \<Rightarrow> netuid \<Rightarrow> (subtensor_error, unit) result" where
  "ensure_subnet_owner owner og n =
     (case og of Signed who \<Rightarrow> if owner n = who then Inr () else Inl BadOrigin | _ \<Rightarrow> Inl BadOrigin)"

definition ad_subnet_exists :: "netuid \<Rightarrow> ('a, 'h, 'u, 'w, 'b) admin_state \<Rightarrow> (admin_error, 's) result \<Rightarrow> (admin_error, 's) result" where
  "ad_subnet_exists n s k = ensure (if_subnet_exist (cb_staking (ad_coinbase s)) n) SubnetDoesNotExist k"

section \<open>Calls\<close>

definition swap_authorities ::
    "('a, 'u, 'i, 'v, 'w, 'b) admin_env \<Rightarrow> 'a origin \<Rightarrow> nat list list \<Rightarrow> ('a, 'h, 'u, 'w, 'b) admin_state \<Rightarrow> ('a, 'h, 'u, 'w, 'b) admin_result" where
  "swap_authorities env og new_authorities s =
     ad_root og (Inr (s\<lparr>ad_consensus := change_authorities env new_authorities (ad_consensus s)\<rparr>))"

definition sudo_set_default_take ::
    "'a origin \<Rightarrow> nat \<Rightarrow> ('a, 'h, 'u, 'w, 'b) admin_state \<Rightarrow> ('a, 'h, 'u, 'w, 'b) admin_result" where
  "sudo_set_default_take og v s =
     ad_root og (Inr (set_max_delegate_take v s))"

definition sudo_set_tx_rate_limit ::
    "'a origin \<Rightarrow> nat \<Rightarrow> ('a, 'h, 'u, 'w, 'b) admin_state \<Rightarrow> ('a, 'h, 'u, 'w, 'b) admin_result" where
  "sudo_set_tx_rate_limit og v s =
     ad_root og (Inr (set_tx_rate_limit v s))"

definition sudo_set_serving_rate_limit ::
    "'a origin \<Rightarrow> netuid \<Rightarrow> nat \<Rightarrow> ('a, 'h, 'u, 'w, 'b) admin_state \<Rightarrow> ('a, 'h, 'u, 'w, 'b) admin_result" where
  "sudo_set_serving_rate_limit og n v s =
     ad_owner_or_root og n s (Inr (set_serving_rate_limit n v s))"

definition sudo_set_min_difficulty ::
    "'a origin \<Rightarrow> netuid \<Rightarrow> nat \<Rightarrow> ('a, 'h, 'u, 'w, 'b) admin_state \<Rightarrow> ('a, 'h, 'u, 'w, 'b) admin_result" where
  "sudo_set_min_difficulty og n v s =
     ad_root og (ad_subnet_exists n s (Inr (set_min_difficulty n v s)))"

definition sudo_set_max_difficulty ::
    "'a origin \<Rightarrow> netuid \<Rightarrow> nat \<Rightarrow> ('a, 'h, 'u, 'w, 'b) admin_state \<Rightarrow> ('a, 'h, 'u, 'w, 'b) admin_result" where
  "sudo_set_max_difficulty og n v s =
     ad_owner_or_root og n s (ad_subnet_exists n s (Inr (set_max_difficulty n v s)))"

text \<open>The owner of a subnet is rate limited; root is not.\<close>

definition sudo_set_weights_version_key :: "nat \<Rightarrow> 'a origin \<Rightarrow> netuid \<Rightarrow> nat \<Rightarrow> ('a, 'h, 'u, 'w, 'b) admin_state \<Rightarrow> ('a, 'h, 'u, 'w, 'b) admin_result" where
  "sudo_set_weights_version_key current_block og n v s =
     ad_owner_or_root og n s (ad_subnet_exists n s (
       case og of
         Signed who \<Rightarrow>
           ensure (passes_rate_limit_on_subnet (ch_limits (cb_children (ad_coinbase s))) current_block SetWeightsVersionKey who n)
             (SubtensorError TxRateLimitExceeded)
             (Inr (set_weights_version_key n v
               (on_limits (set_last_transaction_block_on_subnet who n SetWeightsVersionKey current_block) s)))
       | _ \<Rightarrow> Inr (set_weights_version_key n v s)))"

definition sudo_set_weights_set_rate_limit ::
    "'a origin \<Rightarrow> netuid \<Rightarrow> nat \<Rightarrow> ('a, 'h, 'u, 'w, 'b) admin_state \<Rightarrow> ('a, 'h, 'u, 'w, 'b) admin_result" where
  "sudo_set_weights_set_rate_limit og n v s =
     ad_root og (ad_subnet_exists n s (Inr (set_weights_set_rate_limit n v s)))"

definition sudo_set_adjustment_interval ::
    "'a origin \<Rightarrow> netuid \<Rightarrow> nat \<Rightarrow> ('a, 'h, 'u, 'w, 'b) admin_state \<Rightarrow> ('a, 'h, 'u, 'w, 'b) admin_result" where
  "sudo_set_adjustment_interval og n v s =
     ad_root og (ad_subnet_exists n s (Inr (set_adjustment_interval n v s)))"

definition sudo_set_adjustment_alpha ::
    "'a origin \<Rightarrow> netuid \<Rightarrow> nat \<Rightarrow> ('a, 'h, 'u, 'w, 'b) admin_state \<Rightarrow> ('a, 'h, 'u, 'w, 'b) admin_result" where
  "sudo_set_adjustment_alpha og n v s =
     ad_owner_or_root og n s (ad_subnet_exists n s (Inr (set_adjustment_alpha n v s)))"

definition sudo_set_max_weight_limit ::
    "'a origin \<Rightarrow> netuid \<Rightarrow> nat \<Rightarrow> ('a, 'h, 'u, 'w, 'b) admin_state \<Rightarrow> ('a, 'h, 'u, 'w, 'b) admin_result" where
  "sudo_set_max_weight_limit og n v s =
     ad_owner_or_root og n s (ad_subnet_exists n s (Inr (set_max_weight_limit n v s)))"

definition sudo_set_immunity_period ::
    "'a origin \<Rightarrow> netuid \<Rightarrow> nat \<Rightarrow> ('a, 'h, 'u, 'w, 'b) admin_state \<Rightarrow> ('a, 'h, 'u, 'w, 'b) admin_result" where
  "sudo_set_immunity_period og n v s =
     ad_owner_or_root og n s (ad_subnet_exists n s (Inr (set_immunity_period n v s)))"

definition sudo_set_min_allowed_weights ::
    "'a origin \<Rightarrow> netuid \<Rightarrow> nat \<Rightarrow> ('a, 'h, 'u, 'w, 'b) admin_state \<Rightarrow> ('a, 'h, 'u, 'w, 'b) admin_result" where
  "sudo_set_min_allowed_weights og n v s =
     ad_owner_or_root og n s (ad_subnet_exists n s (Inr (set_min_allowed_weights n v s)))"

definition sudo_set_max_allowed_uids ::
    "'a origin \<Rightarrow> netuid \<Rightarrow> nat \<Rightarrow> ('a, 'h, 'u, 'w, 'b) admin_state \<Rightarrow> ('a, 'h, 'u, 'w, 'b) admin_result" where
  "sudo_set_max_allowed_uids og n v s =
     ad_root og (ad_subnet_exists n s (ensure (get_subnetwork_n (e_neurons (cb_epoch (ad_coinbase s))) n < v) MaxAllowedUIdsLessThanCurrentUIds (Inr (set_max_allowed_uids n v s))))"

definition sudo_set_kappa ::
    "'a origin \<Rightarrow> netuid \<Rightarrow> nat \<Rightarrow> ('a, 'h, 'u, 'w, 'b) admin_state \<Rightarrow> ('a, 'h, 'u, 'w, 'b) admin_result" where
  "sudo_set_kappa og n v s =
     ad_owner_or_root og n s (ad_subnet_exists n s (Inr (set_kappa n v s)))"

definition sudo_set_rho ::
    "'a origin \<Rightarrow> netuid \<Rightarrow> nat \<Rightarrow> ('a, 'h, 'u, 'w, 'b) admin_state \<Rightarrow> ('a, 'h, 'u, 'w, 'b) admin_result" where
  "sudo_set_rho og n v s =
     ad_owner_or_root og n s (ad_subnet_exists n s (Inr (set_rho n v s)))"

definition sudo_set_activity_cutoff ::
    "'a origin \<Rightarrow> netuid \<Rightarrow> nat \<Rightarrow> ('a, 'h, 'u, 'w, 'b) admin_state \<Rightarrow> ('a, 'h, 'u, 'w, 'b) admin_result" where
  "sudo_set_activity_cutoff og n v s =
     ad_owner_or_root og n s (ad_subnet_exists n s (ensure (v \<ge> MinActivityCutoff s) (SubtensorError ActivityCutoffTooLow) (Inr (set_activity_cutoff n v s))))"

definition sudo_set_network_registration_allowed ::
    "'a origin \<Rightarrow> netuid \<Rightarrow> bool \<Rightarrow> ('a, 'h, 'u, 'w, 'b) admin_state \<Rightarrow> ('a, 'h, 'u, 'w, 'b) admin_result" where
  "sudo_set_network_registration_allowed og n v s =
     ad_owner_or_root og n s (Inr (set_network_registration_allowed n v s))"

definition sudo_set_network_pow_registration_allowed ::
    "'a origin \<Rightarrow> netuid \<Rightarrow> bool \<Rightarrow> ('a, 'h, 'u, 'w, 'b) admin_state \<Rightarrow> ('a, 'h, 'u, 'w, 'b) admin_result" where
  "sudo_set_network_pow_registration_allowed og n v s =
     ad_owner_or_root og n s (Inr (set_network_pow_registration_allowed n v s))"

definition sudo_set_target_registrations_per_interval ::
    "'a origin \<Rightarrow> netuid \<Rightarrow> nat \<Rightarrow> ('a, 'h, 'u, 'w, 'b) admin_state \<Rightarrow> ('a, 'h, 'u, 'w, 'b) admin_result" where
  "sudo_set_target_registrations_per_interval og n v s =
     ad_root og (ad_subnet_exists n s (Inr (set_target_registrations_per_interval n v s)))"

definition sudo_set_min_burn ::
    "'a origin \<Rightarrow> netuid \<Rightarrow> nat \<Rightarrow> ('a, 'h, 'u, 'w, 'b) admin_state \<Rightarrow> ('a, 'h, 'u, 'w, 'b) admin_result" where
  "sudo_set_min_burn og n v s =
     ad_root og (ad_subnet_exists n s (Inr (set_min_burn n v s)))"

definition sudo_set_max_burn ::
    "'a origin \<Rightarrow> netuid \<Rightarrow> nat \<Rightarrow> ('a, 'h, 'u, 'w, 'b) admin_state \<Rightarrow> ('a, 'h, 'u, 'w, 'b) admin_result" where
  "sudo_set_max_burn og n v s =
     ad_root og (ad_subnet_exists n s (Inr (set_max_burn n v s)))"

definition sudo_set_difficulty ::
    "'a origin \<Rightarrow> netuid \<Rightarrow> nat \<Rightarrow> ('a, 'h, 'u, 'w, 'b) admin_state \<Rightarrow> ('a, 'h, 'u, 'w, 'b) admin_result" where
  "sudo_set_difficulty og n v s =
     ad_root og (ad_subnet_exists n s (Inr (on_chain (set_difficulty n v) s)))"

definition sudo_set_max_allowed_validators ::
    "'a origin \<Rightarrow> netuid \<Rightarrow> nat \<Rightarrow> ('a, 'h, 'u, 'w, 'b) admin_state \<Rightarrow> ('a, 'h, 'u, 'w, 'b) admin_result" where
  "sudo_set_max_allowed_validators og n v s =
     ad_root og (ad_subnet_exists n s (ensure (v \<le> MaxAllowedUids (cs_registration (ad_chain s)) n) MaxValidatorsLargerThanMaxUIds (Inr (set_max_allowed_validators n v s))))"

definition sudo_set_bonds_moving_average ::
    "'a origin \<Rightarrow> netuid \<Rightarrow> nat \<Rightarrow> ('a, 'h, 'u, 'w, 'b) admin_state \<Rightarrow> ('a, 'h, 'u, 'w, 'b) admin_result" where
  "sudo_set_bonds_moving_average og n v s =
     ad_owner_or_root og n s (
     let rest = ad_subnet_exists n s (Inr (set_bonds_moving_average n v s)) in
     if is_ok (ensure_subnet_owner (e_SubnetOwner (cb_epoch (ad_coinbase s))) og n)
     then ensure (v \<le> 975000) BondsMovingAverageMaxReached rest else rest)"

definition sudo_set_bonds_penalty ::
    "'a origin \<Rightarrow> netuid \<Rightarrow> nat \<Rightarrow> ('a, 'h, 'u, 'w, 'b) admin_state \<Rightarrow> ('a, 'h, 'u, 'w, 'b) admin_result" where
  "sudo_set_bonds_penalty og n v s =
     ad_owner_or_root og n s (ad_subnet_exists n s (Inr (set_bonds_penalty n v s)))"

definition sudo_set_max_registrations_per_block ::
    "'a origin \<Rightarrow> netuid \<Rightarrow> nat \<Rightarrow> ('a, 'h, 'u, 'w, 'b) admin_state \<Rightarrow> ('a, 'h, 'u, 'w, 'b) admin_result" where
  "sudo_set_max_registrations_per_block og n v s =
     ad_root og (ad_subnet_exists n s (Inr (set_max_registrations_per_block n v s)))"

definition sudo_set_subnet_owner_cut ::
    "'a origin \<Rightarrow> nat \<Rightarrow> ('a, 'h, 'u, 'w, 'b) admin_state \<Rightarrow> ('a, 'h, 'u, 'w, 'b) admin_result" where
  "sudo_set_subnet_owner_cut og v s =
     ad_root og (Inr (set_subnet_owner_cut v s))"

definition sudo_set_network_rate_limit ::
    "'a origin \<Rightarrow> nat \<Rightarrow> ('a, 'h, 'u, 'w, 'b) admin_state \<Rightarrow> ('a, 'h, 'u, 'w, 'b) admin_result" where
  "sudo_set_network_rate_limit og v s =
     ad_root og (Inr (set_network_rate_limit v s))"

definition sudo_set_tempo ::
    "'a origin \<Rightarrow> netuid \<Rightarrow> nat \<Rightarrow> ('a, 'h, 'u, 'w, 'b) admin_state \<Rightarrow> ('a, 'h, 'u, 'w, 'b) admin_result" where
  "sudo_set_tempo og n v s =
     ad_root og (ad_subnet_exists n s (Inr (set_tempo n v s)))"

definition sudo_set_total_issuance ::
    "'a origin \<Rightarrow> nat \<Rightarrow> ('a, 'h, 'u, 'w, 'b) admin_state \<Rightarrow> ('a, 'h, 'u, 'w, 'b) admin_result" where
  "sudo_set_total_issuance og v s =
     ad_root og (Inr (set_total_issuance v s))"

definition sudo_set_network_immunity_period ::
    "'a origin \<Rightarrow> nat \<Rightarrow> ('a, 'h, 'u, 'w, 'b) admin_state \<Rightarrow> ('a, 'h, 'u, 'w, 'b) admin_result" where
  "sudo_set_network_immunity_period og v s =
     ad_root og (Inr (set_network_immunity_period v s))"

definition sudo_set_network_min_lock_cost ::
    "'a origin \<Rightarrow> nat \<Rightarrow> ('a, 'h, 'u, 'w, 'b) admin_state \<Rightarrow> ('a, 'h, 'u, 'w, 'b) admin_result" where
  "sudo_set_network_min_lock_cost og v s =
     ad_root og (Inr (set_network_min_lock v s))"

definition sudo_set_subnet_limit ::
    "'a origin \<Rightarrow> nat \<Rightarrow> ('a, 'h, 'u, 'w, 'b) admin_state \<Rightarrow> ('a, 'h, 'u, 'w, 'b) admin_result" where
  "sudo_set_subnet_limit og v s =
     ad_root og (Inr s)"

definition sudo_set_lock_reduction_interval ::
    "'a origin \<Rightarrow> nat \<Rightarrow> ('a, 'h, 'u, 'w, 'b) admin_state \<Rightarrow> ('a, 'h, 'u, 'w, 'b) admin_result" where
  "sudo_set_lock_reduction_interval og v s =
     ad_root og (Inr (set_lock_reduction_interval v s))"

definition sudo_set_rao_recycled ::
    "'a origin \<Rightarrow> netuid \<Rightarrow> nat \<Rightarrow> ('a, 'h, 'u, 'w, 'b) admin_state \<Rightarrow> ('a, 'h, 'u, 'w, 'b) admin_result" where
  "sudo_set_rao_recycled og n v s =
     ad_root og (ad_subnet_exists n s (Inr (set_rao_recycled n v s)))"

definition sudo_set_stake_threshold ::
    "'a origin \<Rightarrow> nat \<Rightarrow> ('a, 'h, 'u, 'w, 'b) admin_state \<Rightarrow> ('a, 'h, 'u, 'w, 'b) admin_result" where
  "sudo_set_stake_threshold og v s =
     ad_root og (Inr (set_stake_threshold v s))"

definition sudo_set_nominator_min_required_stake ::
    "('a, 'u, 'i, 'v, 'w, 'b) admin_env \<Rightarrow> 'a origin \<Rightarrow> nat \<Rightarrow> ('a, 'h, 'u, 'w, 'b) admin_state \<Rightarrow> ('a, 'h, 'u, 'w, 'b) admin_result" where
  "sudo_set_nominator_min_required_stake env og min_stake s =
     ad_root og
       (let prev_min_stake = NominatorMinRequiredStake (cb_staking (ad_coinbase s));
            s = set_nominator_min_required_stake min_stake s
        in Inr (if min_stake > prev_min_stake then on_staking (clear_small_nominations (ae_staking env) (alpha_keys env (st_alpha (cb_staking (ad_coinbase s))))) s else s))"

definition sudo_set_tx_delegate_take_rate_limit ::
    "'a origin \<Rightarrow> nat \<Rightarrow> ('a, 'h, 'u, 'w, 'b) admin_state \<Rightarrow> ('a, 'h, 'u, 'w, 'b) admin_result" where
  "sudo_set_tx_delegate_take_rate_limit og v s =
     ad_root og (Inr (set_tx_delegate_take_rate_limit v s))"

definition sudo_set_min_delegate_take ::
    "'a origin \<Rightarrow> nat \<Rightarrow> ('a, 'h, 'u, 'w, 'b) admin_state \<Rightarrow> ('a, 'h, 'u, 'w, 'b) admin_result" where
  "sudo_set_min_delegate_take og v s =
     ad_root og (Inr (set_min_delegate_take v s))"

definition sudo_set_commit_reveal_weights_enabled ::
    "'a origin \<Rightarrow> netuid \<Rightarrow> bool \<Rightarrow> ('a, 'h, 'u, 'w, 'b) admin_state \<Rightarrow> ('a, 'h, 'u, 'w, 'b) admin_result" where
  "sudo_set_commit_reveal_weights_enabled og n v s =
     ad_owner_or_root og n s (ad_subnet_exists n s (Inr (set_commit_reveal_weights_enabled n v s)))"

definition sudo_set_liquid_alpha_enabled ::
    "'a origin \<Rightarrow> netuid \<Rightarrow> bool \<Rightarrow> ('a, 'h, 'u, 'w, 'b) admin_state \<Rightarrow> ('a, 'h, 'u, 'w, 'b) admin_result" where
  "sudo_set_liquid_alpha_enabled og n v s =
     ad_owner_or_root og n s (Inr (set_liquid_alpha_enabled n v s))"

definition sudo_set_alpha_values ::
    "'a origin \<Rightarrow> netuid \<Rightarrow> nat \<Rightarrow> nat \<Rightarrow> ('a, 'h, 'u, 'w, 'b) admin_state \<Rightarrow> ('a, 'h, 'u, 'w, 'b) admin_result" where
  "sudo_set_alpha_values og n alpha_low alpha_high s =
     ad_owner_or_root og n s (
     and_then (map_err SubtensorError (do_set_alpha_values og n alpha_low alpha_high (cb_epoch (ad_coinbase s))))
       (\<lambda>e. Inr (on_epoch (\<lambda>_. e) s)))"

definition sudo_set_network_max_stake ::
    "'a origin \<Rightarrow> netuid \<Rightarrow> nat \<Rightarrow> ('a, 'h, 'u, 'w, 'b) admin_state \<Rightarrow> ('a, 'h, 'u, 'w, 'b) admin_result" where
  "sudo_set_network_max_stake og n v s =
     ad_root og (Inr s)"

definition sudo_set_coldkey_swap_schedule_duration ::
    "'a origin \<Rightarrow> nat \<Rightarrow> ('a, 'h, 'u, 'w, 'b) admin_state \<Rightarrow> ('a, 'h, 'u, 'w, 'b) admin_result" where
  "sudo_set_coldkey_swap_schedule_duration og v s =
     ad_root og (Inr (set_coldkey_swap_schedule_duration v s))"

definition sudo_set_dissolve_network_schedule_duration ::
    "'a origin \<Rightarrow> nat \<Rightarrow> ('a, 'h, 'u, 'w, 'b) admin_state \<Rightarrow> ('a, 'h, 'u, 'w, 'b) admin_result" where
  "sudo_set_dissolve_network_schedule_duration og v s =
     ad_root og (Inr (set_dissolve_network_schedule_duration v s))"

definition sudo_set_commit_reveal_weights_interval ::
    "'a origin \<Rightarrow> netuid \<Rightarrow> nat \<Rightarrow> ('a, 'h, 'u, 'w, 'b) admin_state \<Rightarrow> ('a, 'h, 'u, 'w, 'b) admin_result" where
  "sudo_set_commit_reveal_weights_interval og n v s =
     ad_owner_or_root og n s (ad_subnet_exists n s (Inr (on_weights (set_reveal_period n v) s)))"

definition sudo_set_evm_chain_id ::
    "'a origin \<Rightarrow> nat \<Rightarrow> ('a, 'h, 'u, 'w, 'b) admin_state \<Rightarrow> ('a, 'h, 'u, 'w, 'b) admin_result" where
  "sudo_set_evm_chain_id og v s =
     ad_root og (Inr (s\<lparr>ChainId := v\<rparr>))"

definition schedule_grandpa_change ::
    "('a, 'u, 'i, 'v, 'w, 'b) admin_env \<Rightarrow> 'a origin \<Rightarrow> (nat list \<times> nat) list \<Rightarrow> nat \<Rightarrow> nat option \<Rightarrow> ('a, 'h, 'u, 'w, 'b) admin_state \<Rightarrow> ('a, 'h, 'u, 'w, 'b) admin_result" where
  "schedule_grandpa_change env og next_authorities in_blocks forced s =
     ad_root og (and_then (map_err SubtensorError (schedule_change env next_authorities in_blocks forced (ad_consensus s)))
       (\<lambda>b. Inr (s\<lparr>ad_consensus := b\<rparr>)))"

definition sudo_set_toggle_transfer ::
    "'a origin \<Rightarrow> netuid \<Rightarrow> bool \<Rightarrow> ('a, 'h, 'u, 'w, 'b) admin_state \<Rightarrow> ('a, 'h, 'u, 'w, 'b) admin_result" where
  "sudo_set_toggle_transfer og n v s =
     ad_owner_or_root og n s (Inr (on_staking (toggle_transfer n v) s))"

definition sudo_toggle_evm_precompile ::
    "'a origin \<Rightarrow> precompile_enum \<Rightarrow> bool \<Rightarrow> ('a, 'h, 'u, 'w, 'b) admin_state \<Rightarrow> ('a, 'h, 'u, 'w, 'b) admin_result" where
  "sudo_toggle_evm_precompile og p v s =
     ad_root og (Inr (if PrecompileEnable s p \<noteq> v then s\<lparr>PrecompileEnable := (PrecompileEnable s)(p := v)\<rparr> else s))"

definition sudo_set_subnet_moving_alpha ::
    "'a origin \<Rightarrow> int \<Rightarrow> ('a, 'h, 'u, 'w, 'b) admin_state \<Rightarrow> ('a, 'h, 'u, 'w, 'b) admin_result" where
  "sudo_set_subnet_moving_alpha og v s =
     ad_root og (Inr (on_coinbase (\<lambda>x. x\<lparr>SubnetMovingAlpha := v\<rparr>) s))"

definition sudo_set_subnet_owner_hotkey ::
    "'a origin \<Rightarrow> netuid \<Rightarrow> 'a \<Rightarrow> ('a, 'h, 'u, 'w, 'b) admin_state \<Rightarrow> ('a, 'h, 'u, 'w, 'b) admin_result" where
  "sudo_set_subnet_owner_hotkey og n hotkey s =
     and_then (map_err SubtensorError (ensure_subnet_owner (e_SubnetOwner (cb_epoch (ad_coinbase s))) og n))
     (\<lambda>_. Inr (set_subnet_owner_hotkey n hotkey s))"

definition sudo_set_ema_price_halving_period ::
    "'a origin \<Rightarrow> netuid \<Rightarrow> nat \<Rightarrow> ('a, 'h, 'u, 'w, 'b) admin_state \<Rightarrow> ('a, 'h, 'u, 'w, 'b) admin_result" where
  "sudo_set_ema_price_halving_period og n v s =
     ad_root og (Inr (on_coinbase (\<lambda>x. x\<lparr>EMAPriceHalvingBlocks := (EMAPriceHalvingBlocks x)(n := v)\<rparr>) s))"

definition sudo_set_alpha_sigmoid_steepness ::
    "'a origin \<Rightarrow> netuid \<Rightarrow> int \<Rightarrow> ('a, 'h, 'u, 'w, 'b) admin_state \<Rightarrow> ('a, 'h, 'u, 'w, 'b) admin_result" where
  "sudo_set_alpha_sigmoid_steepness og n v s =
     ad_owner_or_root og n s (ad_subnet_exists n s (ensure (og = Root \<or> v \<ge> 0) NegativeSigmoidSteepness (Inr (set_alpha_sigmoid_steepness n v s))))"

definition sudo_set_yuma3_enabled ::
    "'a origin \<Rightarrow> netuid \<Rightarrow> bool \<Rightarrow> ('a, 'h, 'u, 'w, 'b) admin_state \<Rightarrow> ('a, 'h, 'u, 'w, 'b) admin_result" where
  "sudo_set_yuma3_enabled og n v s =
     ad_owner_or_root og n s (Inr (set_yuma3_enabled n v s))"

definition sudo_set_bonds_reset_enabled ::
    "'a origin \<Rightarrow> netuid \<Rightarrow> bool \<Rightarrow> ('a, 'h, 'u, 'w, 'b) admin_state \<Rightarrow> ('a, 'h, 'u, 'w, 'b) admin_result" where
  "sudo_set_bonds_reset_enabled og n v s =
     ad_owner_or_root og n s (Inr (set_bonds_reset n v s))"

definition do_set_sn_owner_hotkey :: "nat \<Rightarrow> 'a origin \<Rightarrow> netuid \<Rightarrow> 'a \<Rightarrow> ('a, 'h, 'u, 'w, 'b) admin_state \<Rightarrow> ('a, 'h, 'u, 'w, 'b) admin_result" where
  "do_set_sn_owner_hotkey current_block og n hotkey s =
     ad_owner_or_root og n s (
     ensure (if_subnet_exist (cb_staking (ad_coinbase s)) n) (SubtensorError SubnetNotExists) (
     ensure (passes_rate_limit_on_subnet (ch_limits (cb_children (ad_coinbase s))) current_block SetSNOwnerHotkey hotkey n)
       (SubtensorError TxRateLimitExceeded)
       (Inr (set_subnet_owner_hotkey n hotkey
         (on_limits (set_last_transaction_block_on_subnet hotkey n SetSNOwnerHotkey current_block) s)))))"

definition sudo_set_sn_owner_hotkey :: "nat \<Rightarrow> 'a origin \<Rightarrow> netuid \<Rightarrow> 'a \<Rightarrow> ('a, 'h, 'u, 'w, 'b) admin_state \<Rightarrow> ('a, 'h, 'u, 'w, 'b) admin_result" where
  "sudo_set_sn_owner_hotkey current_block og n hotkey s = do_set_sn_owner_hotkey current_block og n hotkey s"

definition sudo_set_subtoken_enabled ::
    "'a origin \<Rightarrow> netuid \<Rightarrow> bool \<Rightarrow> ('a, 'h, 'u, 'w, 'b) admin_state \<Rightarrow> ('a, 'h, 'u, 'w, 'b) admin_result" where
  "sudo_set_subtoken_enabled og n v s =
     ad_root og (Inr (on_staking (\<lambda>x. x\<lparr>SubtokenEnabled := (SubtokenEnabled x)(n := v)\<rparr>) s))"

section \<open>All calls\<close>

text \<open>A successful call of the pallet by the origin \<open>og\<close> at a block, as a step of the state.\<close>

inductive admin_step ::
    "('a, 'u, 'i, 'v, 'w, 'b) admin_env \<Rightarrow> nat \<Rightarrow> 'a origin \<Rightarrow> ('a, 'h, 'u, 'w, 'b) admin_state \<Rightarrow> ('a, 'h, 'u, 'w, 'b) admin_state \<Rightarrow> bool"
  for env block og where
  step_sudo_set_default_take: "sudo_set_default_take og x s = Inr s' \<Longrightarrow> admin_step env block og s s'"
| step_sudo_set_tx_rate_limit: "sudo_set_tx_rate_limit og x s = Inr s' \<Longrightarrow> admin_step env block og s s'"
| step_sudo_set_serving_rate_limit: "sudo_set_serving_rate_limit og x y s = Inr s' \<Longrightarrow> admin_step env block og s s'"
| step_sudo_set_min_difficulty: "sudo_set_min_difficulty og x y s = Inr s' \<Longrightarrow> admin_step env block og s s'"
| step_sudo_set_max_difficulty: "sudo_set_max_difficulty og x y s = Inr s' \<Longrightarrow> admin_step env block og s s'"
| step_sudo_set_weights_set_rate_limit: "sudo_set_weights_set_rate_limit og x y s = Inr s' \<Longrightarrow> admin_step env block og s s'"
| step_sudo_set_adjustment_interval: "sudo_set_adjustment_interval og x y s = Inr s' \<Longrightarrow> admin_step env block og s s'"
| step_sudo_set_adjustment_alpha: "sudo_set_adjustment_alpha og x y s = Inr s' \<Longrightarrow> admin_step env block og s s'"
| step_sudo_set_max_weight_limit: "sudo_set_max_weight_limit og x y s = Inr s' \<Longrightarrow> admin_step env block og s s'"
| step_sudo_set_immunity_period: "sudo_set_immunity_period og x y s = Inr s' \<Longrightarrow> admin_step env block og s s'"
| step_sudo_set_min_allowed_weights: "sudo_set_min_allowed_weights og x y s = Inr s' \<Longrightarrow> admin_step env block og s s'"
| step_sudo_set_max_allowed_uids: "sudo_set_max_allowed_uids og x y s = Inr s' \<Longrightarrow> admin_step env block og s s'"
| step_sudo_set_kappa: "sudo_set_kappa og x y s = Inr s' \<Longrightarrow> admin_step env block og s s'"
| step_sudo_set_rho: "sudo_set_rho og x y s = Inr s' \<Longrightarrow> admin_step env block og s s'"
| step_sudo_set_activity_cutoff: "sudo_set_activity_cutoff og x y s = Inr s' \<Longrightarrow> admin_step env block og s s'"
| step_sudo_set_network_registration_allowed: "sudo_set_network_registration_allowed og x y s = Inr s' \<Longrightarrow> admin_step env block og s s'"
| step_sudo_set_network_pow_registration_allowed: "sudo_set_network_pow_registration_allowed og x y s = Inr s' \<Longrightarrow> admin_step env block og s s'"
| step_sudo_set_target_registrations_per_interval: "sudo_set_target_registrations_per_interval og x y s = Inr s' \<Longrightarrow> admin_step env block og s s'"
| step_sudo_set_min_burn: "sudo_set_min_burn og x y s = Inr s' \<Longrightarrow> admin_step env block og s s'"
| step_sudo_set_max_burn: "sudo_set_max_burn og x y s = Inr s' \<Longrightarrow> admin_step env block og s s'"
| step_sudo_set_difficulty: "sudo_set_difficulty og x y s = Inr s' \<Longrightarrow> admin_step env block og s s'"
| step_sudo_set_max_allowed_validators: "sudo_set_max_allowed_validators og x y s = Inr s' \<Longrightarrow> admin_step env block og s s'"
| step_sudo_set_bonds_moving_average: "sudo_set_bonds_moving_average og x y s = Inr s' \<Longrightarrow> admin_step env block og s s'"
| step_sudo_set_bonds_penalty: "sudo_set_bonds_penalty og x y s = Inr s' \<Longrightarrow> admin_step env block og s s'"
| step_sudo_set_max_registrations_per_block: "sudo_set_max_registrations_per_block og x y s = Inr s' \<Longrightarrow> admin_step env block og s s'"
| step_sudo_set_subnet_owner_cut: "sudo_set_subnet_owner_cut og x s = Inr s' \<Longrightarrow> admin_step env block og s s'"
| step_sudo_set_network_rate_limit: "sudo_set_network_rate_limit og x s = Inr s' \<Longrightarrow> admin_step env block og s s'"
| step_sudo_set_tempo: "sudo_set_tempo og x y s = Inr s' \<Longrightarrow> admin_step env block og s s'"
| step_sudo_set_total_issuance: "sudo_set_total_issuance og x s = Inr s' \<Longrightarrow> admin_step env block og s s'"
| step_sudo_set_network_immunity_period: "sudo_set_network_immunity_period og x s = Inr s' \<Longrightarrow> admin_step env block og s s'"
| step_sudo_set_network_min_lock_cost: "sudo_set_network_min_lock_cost og x s = Inr s' \<Longrightarrow> admin_step env block og s s'"
| step_sudo_set_subnet_limit: "sudo_set_subnet_limit og x s = Inr s' \<Longrightarrow> admin_step env block og s s'"
| step_sudo_set_lock_reduction_interval: "sudo_set_lock_reduction_interval og x s = Inr s' \<Longrightarrow> admin_step env block og s s'"
| step_sudo_set_rao_recycled: "sudo_set_rao_recycled og x y s = Inr s' \<Longrightarrow> admin_step env block og s s'"
| step_sudo_set_stake_threshold: "sudo_set_stake_threshold og x s = Inr s' \<Longrightarrow> admin_step env block og s s'"
| step_sudo_set_tx_delegate_take_rate_limit: "sudo_set_tx_delegate_take_rate_limit og x s = Inr s' \<Longrightarrow> admin_step env block og s s'"
| step_sudo_set_min_delegate_take: "sudo_set_min_delegate_take og x s = Inr s' \<Longrightarrow> admin_step env block og s s'"
| step_sudo_set_commit_reveal_weights_enabled: "sudo_set_commit_reveal_weights_enabled og x y s = Inr s' \<Longrightarrow> admin_step env block og s s'"
| step_sudo_set_liquid_alpha_enabled: "sudo_set_liquid_alpha_enabled og x y s = Inr s' \<Longrightarrow> admin_step env block og s s'"
| step_sudo_set_alpha_values: "sudo_set_alpha_values og x y z s = Inr s' \<Longrightarrow> admin_step env block og s s'"
| step_sudo_set_network_max_stake: "sudo_set_network_max_stake og x y s = Inr s' \<Longrightarrow> admin_step env block og s s'"
| step_sudo_set_coldkey_swap_schedule_duration: "sudo_set_coldkey_swap_schedule_duration og x s = Inr s' \<Longrightarrow> admin_step env block og s s'"
| step_sudo_set_dissolve_network_schedule_duration: "sudo_set_dissolve_network_schedule_duration og x s = Inr s' \<Longrightarrow> admin_step env block og s s'"
| step_sudo_set_commit_reveal_weights_interval: "sudo_set_commit_reveal_weights_interval og x y s = Inr s' \<Longrightarrow> admin_step env block og s s'"
| step_sudo_set_evm_chain_id: "sudo_set_evm_chain_id og x s = Inr s' \<Longrightarrow> admin_step env block og s s'"
| step_sudo_set_toggle_transfer: "sudo_set_toggle_transfer og x y s = Inr s' \<Longrightarrow> admin_step env block og s s'"
| step_sudo_toggle_evm_precompile: "sudo_toggle_evm_precompile og x y s = Inr s' \<Longrightarrow> admin_step env block og s s'"
| step_sudo_set_subnet_moving_alpha: "sudo_set_subnet_moving_alpha og x s = Inr s' \<Longrightarrow> admin_step env block og s s'"
| step_sudo_set_subnet_owner_hotkey: "sudo_set_subnet_owner_hotkey og x y s = Inr s' \<Longrightarrow> admin_step env block og s s'"
| step_sudo_set_ema_price_halving_period: "sudo_set_ema_price_halving_period og x y s = Inr s' \<Longrightarrow> admin_step env block og s s'"
| step_sudo_set_alpha_sigmoid_steepness: "sudo_set_alpha_sigmoid_steepness og x y s = Inr s' \<Longrightarrow> admin_step env block og s s'"
| step_sudo_set_yuma3_enabled: "sudo_set_yuma3_enabled og x y s = Inr s' \<Longrightarrow> admin_step env block og s s'"
| step_sudo_set_bonds_reset_enabled: "sudo_set_bonds_reset_enabled og x y s = Inr s' \<Longrightarrow> admin_step env block og s s'"
| step_sudo_set_subtoken_enabled: "sudo_set_subtoken_enabled og x y s = Inr s' \<Longrightarrow> admin_step env block og s s'"
| step_swap_authorities: "swap_authorities env og x s = Inr s' \<Longrightarrow> admin_step env block og s s'"
| step_sudo_set_weights_version_key: "sudo_set_weights_version_key block og x y s = Inr s' \<Longrightarrow> admin_step env block og s s'"
| step_sudo_set_nominator_min_required_stake: "sudo_set_nominator_min_required_stake env og x s = Inr s' \<Longrightarrow> admin_step env block og s s'"
| step_schedule_grandpa_change: "schedule_grandpa_change env og x y z s = Inr s' \<Longrightarrow> admin_step env block og s s'"
| step_sudo_set_sn_owner_hotkey: "sudo_set_sn_owner_hotkey block og x y s = Inr s' \<Longrightarrow> admin_step env block og s s'"

inductive_cases admin_stepE: "admin_step env block og s s'"

section \<open>What the owner of a subnet can change\<close>

text \<open>The state without the entries of one subnet that its owner may set: two states with the same
  rest agree on all other parameters, on all other subnets and on everything else of the chain.\<close>

definition rest_of_weights :: "netuid \<Rightarrow> ('a, 'h) weights_state \<Rightarrow> ('a, 'h) weights_state" where
  "rest_of_weights n w = w\<lparr>WeightsVersionKey := (WeightsVersionKey w)(n := 0), MaxWeightsLimit := (MaxWeightsLimit w)(n := 0),
     MinAllowedWeights := (MinAllowedWeights w)(n := 0), CommitRevealWeightsEnabled := (CommitRevealWeightsEnabled w)(n := False),
     RevealPeriodEpochs := (RevealPeriodEpochs w)(n := 0),
     w_neurons := (w_neurons w)\<lparr>SubnetOwnerHotkey := (SubnetOwnerHotkey (w_neurons w))(n := None)\<rparr>\<rparr>"

definition rest_of_epoch :: "netuid \<Rightarrow> ('a, 'h) epoch_state \<Rightarrow> ('a, 'h) epoch_state" where
  "rest_of_epoch n e = e\<lparr>e_weights := rest_of_weights n (e_weights e), Kappa := (Kappa e)(n := 0), Rho := (Rho e)(n := 0),
     ActivityCutoff := (ActivityCutoff e)(n := 0), BondsMovingAverage := (BondsMovingAverage e)(n := 0),
     BondsPenalty := (BondsPenalty e)(n := 0), LiquidAlphaOn := (LiquidAlphaOn e)(n := False),
     AlphaValues := (AlphaValues e)(n := (0, 0)), AlphaSigmoidSteepness := (AlphaSigmoidSteepness e)(n := 0),
     Yuma3On := (Yuma3On e)(n := False), BondsResetOn := (BondsResetOn e)(n := False)\<rparr>"

definition rest_of_children :: "'a \<Rightarrow> netuid \<Rightarrow> 'a children_state \<Rightarrow> 'a children_state" where
  "rest_of_children who n c = c\<lparr>ch_SubnetOwnerHotkey := (ch_SubnetOwnerHotkey c)(n := None),
     ch_limits := (ch_limits c)\<lparr>LastRateLimitedBlock := (LastRateLimitedBlock (ch_limits c))(n := 0),
       TransactionKeyLastBlock := (TransactionKeyLastBlock (ch_limits c))((who, n, u16_of_transaction_type SetWeightsVersionKey) := 0)\<rparr>\<rparr>"

definition rest_of_coinbase :: "'a \<Rightarrow> netuid \<Rightarrow> ('a, 'h, 'u, 'w) coinbase_state \<Rightarrow> ('a, 'h, 'u, 'w) coinbase_state" where
  "rest_of_coinbase who n c = c\<lparr>cb_epoch := rest_of_epoch n (cb_epoch c), cb_children := rest_of_children who n (cb_children c),
     cb_staking := (cb_staking c)\<lparr>TransferToggle := (TransferToggle (cb_staking c))(n := False)\<rparr>,
     cb_NetworkRegistrationAllowed := (cb_NetworkRegistrationAllowed c)(n := False),
     cb_NetworkPowRegistrationAllowed := (cb_NetworkPowRegistrationAllowed c)(n := False)\<rparr>"

definition rest_of_registration :: "netuid \<Rightarrow> ('a, 'w) registration_state \<Rightarrow> ('a, 'w) registration_state" where
  "rest_of_registration n r = r\<lparr>ImmunityPeriod := (ImmunityPeriod r)(n := 0),
     NetworkRegistrationAllowed := (NetworkRegistrationAllowed r)(n := False),
     NetworkPowRegistrationAllowed := (NetworkPowRegistrationAllowed r)(n := False),
     reg_neurons := (reg_neurons r)\<lparr>SubnetOwnerHotkey := (SubnetOwnerHotkey (reg_neurons r))(n := None)\<rparr>\<rparr>"

definition rest_of_chain :: "'a \<Rightarrow> netuid \<Rightarrow> ('a, 'h, 'u, 'w) chain_state \<Rightarrow> ('a, 'h, 'u, 'w) chain_state" where
  "rest_of_chain who n c = c\<lparr>cs_coinbase := rest_of_coinbase who n (cs_coinbase c),
     cs_registration := rest_of_registration n (cs_registration c),
     MaxDifficulty := (MaxDifficulty c)(n := 0), AdjustmentAlpha := (AdjustmentAlpha c)(n := 0)\<rparr>"

definition rest_of_state :: "'a \<Rightarrow> netuid \<Rightarrow> ('a, 'h, 'u, 'w, 'b) admin_state \<Rightarrow> ('a, 'h, 'u, 'w, 'b) admin_state" where
  "rest_of_state who n s = s\<lparr>ad_chain := rest_of_chain who n (ad_chain s), ad_ServingRateLimit := (ad_ServingRateLimit s)(n := 0)\<rparr>"

text \<open>A change of a part that keeps the rest of the part keeps the rest of the state.\<close>

named_theorems rest_rules

lemma rest_on_weights [rest_rules]:
  "rest_of_weights n (f (e_weights (cb_epoch (ad_coinbase s)))) = rest_of_weights n (e_weights (cb_epoch (ad_coinbase s))) \<Longrightarrow>
     rest_of_state who n (on_weights f s) = rest_of_state who n s"
  by (simp add: rest_of_state_def on_weights_def on_epoch_def on_coinbase_def on_chain_def rest_of_chain_def rest_of_coinbase_def
      rest_of_epoch_def)

lemma rest_on_epoch [rest_rules]:
  "rest_of_epoch n (f (cb_epoch (ad_coinbase s))) = rest_of_epoch n (cb_epoch (ad_coinbase s)) \<Longrightarrow>
     rest_of_state who n (on_epoch f s) = rest_of_state who n s"
  by (simp add: rest_of_state_def on_epoch_def on_coinbase_def on_chain_def rest_of_chain_def rest_of_coinbase_def)

lemma rest_on_children [rest_rules]:
  "rest_of_children who n (f (cb_children (ad_coinbase s))) = rest_of_children who n (cb_children (ad_coinbase s)) \<Longrightarrow>
     rest_of_state who n (on_children f s) = rest_of_state who n s"
  by (simp add: rest_of_state_def on_children_def on_coinbase_def on_chain_def rest_of_chain_def rest_of_coinbase_def)

lemma rest_on_coinbase [rest_rules]:
  "rest_of_coinbase who n (f (ad_coinbase s)) = rest_of_coinbase who n (ad_coinbase s) \<Longrightarrow>
     rest_of_state who n (on_coinbase f s) = rest_of_state who n s"
  by (simp add: rest_of_state_def on_coinbase_def on_chain_def rest_of_chain_def)

lemma rest_on_staking [rest_rules]:
  "(f (cb_staking (ad_coinbase s)))\<lparr>TransferToggle := (TransferToggle (f (cb_staking (ad_coinbase s))))(n := False)\<rparr> =
     (cb_staking (ad_coinbase s))\<lparr>TransferToggle := (TransferToggle (cb_staking (ad_coinbase s)))(n := False)\<rparr> \<Longrightarrow>
     rest_of_state who n (on_staking f s) = rest_of_state who n s"
  by (simp add: rest_of_state_def on_staking_def on_coinbase_def on_chain_def rest_of_chain_def rest_of_coinbase_def)

lemma rest_on_registration [rest_rules]:
  "rest_of_registration n (f (cs_registration (ad_chain s))) = rest_of_registration n (cs_registration (ad_chain s)) \<Longrightarrow>
     rest_of_state who n (on_registration f s) = rest_of_state who n s"
  by (simp add: rest_of_state_def on_registration_def on_chain_def rest_of_chain_def)

lemma rest_on_chain [rest_rules]:
  "rest_of_chain who n (f (ad_chain s)) = rest_of_chain who n (ad_chain s) \<Longrightarrow>
     rest_of_state who n (on_chain f s) = rest_of_state who n s"
  by (simp add: rest_of_state_def on_chain_def)

text \<open>Each setter of an owner keeps the rest.\<close>

lemma rest_limits:
  "rest_of_state who n (on_limits (set_last_transaction_block_on_subnet who n SetWeightsVersionKey b) s) = rest_of_state who n s"
  "rest_of_state who n (on_limits (set_last_transaction_block_on_subnet h n SetSNOwnerHotkey b) s) = rest_of_state who n s"
  unfolding on_limits_def by (rule rest_on_children; simp add: rest_of_children_def)+

lemma rest_hotkey_copies:
  "rest_of_state who n (on_weights (\<lambda>x. x\<lparr>w_neurons := (w_neurons x)\<lparr>SubnetOwnerHotkey := (SubnetOwnerHotkey (w_neurons x))(n \<mapsto> h)\<rparr>\<rparr>) s)
    = rest_of_state who n s"
  "rest_of_state who n (on_registration (\<lambda>x. x\<lparr>reg_neurons := (reg_neurons x)\<lparr>SubnetOwnerHotkey :=
    (SubnetOwnerHotkey (reg_neurons x))(n \<mapsto> h)\<rparr>\<rparr>) s) = rest_of_state who n s"
  "rest_of_state who n (on_children (\<lambda>x. x\<lparr>ch_SubnetOwnerHotkey := (ch_SubnetOwnerHotkey x)(n \<mapsto> h)\<rparr>) s) = rest_of_state who n s"
  by (rule rest_on_weights rest_on_registration rest_on_children;
      simp add: rest_of_weights_def rest_of_registration_def rest_of_children_def)+

lemma rest_owner_hotkey: "rest_of_state who n (set_subnet_owner_hotkey n h s) = rest_of_state who n s"
  by (simp only: set_subnet_owner_hotkey_def rest_hotkey_copies)

lemma rest_switches:
  "rest_of_state who n (set_network_registration_allowed n v s) = rest_of_state who n s"
  "rest_of_state who n (set_network_pow_registration_allowed n v s) = rest_of_state who n s"
proof -
  have r: "rest_of_state who n (on_registration (\<lambda>x. x\<lparr>NetworkRegistrationAllowed := (NetworkRegistrationAllowed x)(n := v)\<rparr>) s) = rest_of_state who n s"
    "rest_of_state who n (on_registration (\<lambda>x. x\<lparr>NetworkPowRegistrationAllowed := (NetworkPowRegistrationAllowed x)(n := v)\<rparr>) s) = rest_of_state who n s"
    for s by (rule rest_on_registration; simp add: rest_of_registration_def)+
  have c: "rest_of_state who n (on_coinbase (\<lambda>x. x\<lparr>cb_NetworkRegistrationAllowed := (cb_NetworkRegistrationAllowed x)(n := v)\<rparr>) s) = rest_of_state who n s"
    "rest_of_state who n (on_coinbase (\<lambda>x. x\<lparr>cb_NetworkPowRegistrationAllowed := (cb_NetworkPowRegistrationAllowed x)(n := v)\<rparr>) s) = rest_of_state who n s"
    for s by (rule rest_on_coinbase; simp add: rest_of_coinbase_def)+
  show "rest_of_state who n (set_network_registration_allowed n v s) = rest_of_state who n s"
    "rest_of_state who n (set_network_pow_registration_allowed n v s) = rest_of_state who n s"
    by (simp_all add: set_network_registration_allowed_def set_network_pow_registration_allowed_def r c)
qed

lemmas epoch_setters = set_kappa_def set_rho_def set_activity_cutoff_def set_bonds_moving_average_def set_bonds_penalty_def
  set_liquid_alpha_enabled_def set_alpha_sigmoid_steepness_def set_yuma3_enabled_def set_bonds_reset_def

lemmas weights_setters = set_weights_version_key_def set_max_weight_limit_def set_min_allowed_weights_def
  set_commit_reveal_weights_enabled_def

lemma rest_epoch_setters:
  "rest_of_state who n (set_kappa n v s) = rest_of_state who n s" "rest_of_state who n (set_rho n v s) = rest_of_state who n s"
  "rest_of_state who n (set_activity_cutoff n v s) = rest_of_state who n s"
  "rest_of_state who n (set_bonds_moving_average n v s) = rest_of_state who n s"
  "rest_of_state who n (set_bonds_penalty n v s) = rest_of_state who n s"
  "rest_of_state who n (set_liquid_alpha_enabled n b s) = rest_of_state who n s"
  "rest_of_state who n (set_alpha_sigmoid_steepness n i s) = rest_of_state who n s"
  "rest_of_state who n (set_yuma3_enabled n b s) = rest_of_state who n s"
  "rest_of_state who n (set_bonds_reset n b s) = rest_of_state who n s"
  unfolding epoch_setters by (rule rest_on_epoch; simp add: rest_of_epoch_def)+

lemma rest_weights_setters:
  "rest_of_state who n (set_weights_version_key n v s) = rest_of_state who n s"
  "rest_of_state who n (set_max_weight_limit n v s) = rest_of_state who n s"
  "rest_of_state who n (set_min_allowed_weights n v s) = rest_of_state who n s"
  "rest_of_state who n (set_commit_reveal_weights_enabled n b s) = rest_of_state who n s"
  "rest_of_state who n (on_weights (set_reveal_period n v) s) = rest_of_state who n s"
  unfolding weights_setters by (rule rest_on_weights; simp add: rest_of_weights_def set_reveal_period_def)+

lemma rest_other_setters:
  "rest_of_state who n (set_immunity_period n v s) = rest_of_state who n s"
  "rest_of_state who n (set_max_difficulty n v s) = rest_of_state who n s"
  "rest_of_state who n (set_adjustment_alpha n v s) = rest_of_state who n s"
  "rest_of_state who n (on_staking (toggle_transfer n b) s) = rest_of_state who n s"
  unfolding set_immunity_period_def set_max_difficulty_def set_adjustment_alpha_def
  by (rule rest_on_registration rest_on_chain rest_on_staking;
      simp add: rest_of_registration_def rest_of_chain_def toggle_transfer_def)+

lemma rest_serving: "rest_of_state who n (set_serving_rate_limit n v s) = rest_of_state who n s"
  by (simp add: set_serving_rate_limit_def rest_of_state_def)

lemmas rest_setters = rest_epoch_setters rest_weights_setters rest_other_setters rest_serving rest_switches rest_owner_hotkey rest_limits

lemma ad_root_Inr [simp]: "ad_root og k = Inr x \<longleftrightarrow> og = Root \<and> k = Inr x"
  by (simp add: ad_root_def)

lemma ad_owner_or_root_Inr [simp]:
  "ad_owner_or_root og n s k = Inr x \<longleftrightarrow> (og = Root \<or> og = Signed (e_SubnetOwner (cb_epoch (ad_coinbase s)) n)) \<and> k = Inr x"
  by (cases og) (auto simp: ad_owner_or_root_def ensure_subnet_owner_or_root_def)

lemma ad_subnet_exists_Inr [simp]:
  "ad_subnet_exists n s k = Inr x \<longleftrightarrow> if_subnet_exist (cb_staking (ad_coinbase s)) n \<and> k = Inr x"
  by (simp add: ad_subnet_exists_def)

lemma ensure_subnet_owner_Inr [simp]: "ensure_subnet_owner owner og n = Inr u \<longleftrightarrow> og = Signed (owner n)"
  by (cases og) (auto simp: ensure_subnet_owner_def)

lemma set_alpha_values_rest:
  "do_set_alpha_values og n lo hi e = Inr e' \<Longrightarrow> rest_of_epoch n e' = rest_of_epoch n e"
  by (auto simp: do_set_alpha_values_def rest_of_epoch_def Let_def)

definition confined :: "'a origin \<Rightarrow> ('a, 'h, 'u, 'w, 'b) admin_state \<Rightarrow> ('a, 'h, 'u, 'w, 'b) admin_state \<Rightarrow> bool" where
  "confined og s s' \<longleftrightarrow> (\<exists>who n. og = Signed who \<and> e_SubnetOwner (cb_epoch (ad_coinbase s)) n = who \<and>
     rest_of_state who n s' = rest_of_state who n s)"

lemma confinedI:
  "og = Signed (e_SubnetOwner (cb_epoch (ad_coinbase s)) n) \<Longrightarrow>
   (\<And>who. og = Signed who \<Longrightarrow> rest_of_state who n s' = rest_of_state who n s) \<Longrightarrow> confined og s s'"
  by (auto simp: confined_def)


lemmas root_calls = sudo_set_default_take_def
  sudo_set_tx_rate_limit_def
  sudo_set_min_difficulty_def
  sudo_set_weights_set_rate_limit_def
  sudo_set_adjustment_interval_def
  sudo_set_max_allowed_uids_def
  sudo_set_target_registrations_per_interval_def
  sudo_set_min_burn_def
  sudo_set_max_burn_def
  sudo_set_difficulty_def
  sudo_set_max_allowed_validators_def
  sudo_set_max_registrations_per_block_def
  sudo_set_subnet_owner_cut_def
  sudo_set_network_rate_limit_def
  sudo_set_tempo_def
  sudo_set_total_issuance_def
  sudo_set_network_immunity_period_def
  sudo_set_network_min_lock_cost_def
  sudo_set_subnet_limit_def
  sudo_set_lock_reduction_interval_def
  sudo_set_rao_recycled_def
  sudo_set_stake_threshold_def
  sudo_set_tx_delegate_take_rate_limit_def
  sudo_set_min_delegate_take_def
  sudo_set_network_max_stake_def
  sudo_set_coldkey_swap_schedule_duration_def
  sudo_set_dissolve_network_schedule_duration_def
  sudo_set_evm_chain_id_def
  sudo_toggle_evm_precompile_def
  sudo_set_subnet_moving_alpha_def
  sudo_set_ema_price_halving_period_def
  sudo_set_subtoken_enabled_def
  swap_authorities_def
  sudo_set_nominator_min_required_stake_def
  schedule_grandpa_change_def

lemmas owner_calls = sudo_set_serving_rate_limit_def
  sudo_set_max_difficulty_def
  sudo_set_adjustment_alpha_def
  sudo_set_max_weight_limit_def
  sudo_set_immunity_period_def
  sudo_set_min_allowed_weights_def
  sudo_set_kappa_def
  sudo_set_rho_def
  sudo_set_activity_cutoff_def
  sudo_set_network_registration_allowed_def
  sudo_set_network_pow_registration_allowed_def
  sudo_set_bonds_moving_average_def
  sudo_set_bonds_penalty_def
  sudo_set_commit_reveal_weights_enabled_def
  sudo_set_liquid_alpha_enabled_def
  sudo_set_alpha_values_def
  sudo_set_commit_reveal_weights_interval_def
  sudo_set_toggle_transfer_def
  sudo_set_subnet_owner_hotkey_def
  sudo_set_alpha_sigmoid_steepness_def
  sudo_set_yuma3_enabled_def
  sudo_set_bonds_reset_enabled_def
  sudo_set_weights_version_key_def
  sudo_set_sn_owner_hotkey_def


section \<open>A concrete call\<close>

definition sample_admin :: "(nat, nat, nat, nat \<Rightarrow> nat, nat) admin_state" where
  "sample_admin = \<lparr>ad_chain = sample_chain_state 0, ad_MaxDelegateTake = 11796, ad_MinDelegateTake = 0,
     ad_ServingRateLimit = (\<lambda>_. 50), MinActivityCutoff = 360, NetworkImmunityPeriod = 100, NetworkMinLockCost = 1000,
     NetworkLockReductionInterval = 100, ad_ColdkeySwapScheduleDuration = 36000, DissolveNetworkScheduleDuration = 36000,
     ChainId = 945, PrecompileEnable = (\<lambda>_. True), ad_consensus = 0\<rparr>"

definition sample_admin_env :: "(nat, nat, int, nat, nat \<Rightarrow> nat, nat) admin_env" where
  "sample_admin_env = \<lparr>ae_staking = bits_env, alpha_keys = (\<lambda>_. []), change_authorities = (\<lambda>a b. length a),
     schedule_change = (\<lambda>a k f b. Inr (length a))\<rparr>"


end
