(* ===== verification/Spec2Isabelle.thy ===== *)
theory Spec2Isabelle
  imports Prelude Storage Tick_Index Tick_Bitmap Tick_Price Tick_Log Swap_Model Swap_Ledger Swap_Market Crowdloan Subtensor_Base Neurons Subnet_Pool
    Registration Rate_Limits Children Weights Serving Share_Pool Staking Key_Swap Collective Proxy Commitments Registry
    Epoch_Math Epoch_Arith Epoch Stake_Weights Coinbase Block_Emission Coinbase_Facts Block_Step Admin_Utils
begin

text \<open>
  Verification of subtensor, the runtime of the Bittensor chain: FRAME pallets over Substrate
  (directory \<open>src/\<close>). Users hold coldkeys and hotkeys; hotkeys register as neurons on subnets and
  set weights, coldkeys stake TAO on hotkeys, which a market maker swaps for the alpha of a subnet.

  \<^bold>\<open>Modelling.\<close> A dispatchable is a function from the state to an error or the new state
  (\<open>Prelude\<close>: \<open>ensure\<close>, \<open>and_then\<close>, \<open>ok_or\<close> are \<open>ensure!\<close>, \<open>?\<close> and \<open>ok_or\<close>), because
  the runtime rolls the storage back when a call returns an error. Where the code goes on after the
  failure of an inner function (\<open>clear_small_nomination_if_required\<close>) that function returns its state
  with the error. A storage map is a function, with \<open>option\<close> values when the code tells a missing
  entry from the default, and a sorted list of entries when it is iterated over (\<open>Storage\<close>).
  Unsigned integers are natural numbers with the limits of their width written out; bitmap words are
  \<open>128 word\<close>. Events, logs and weights of calls carry no state and are left out. The names are
  those of the source, with a prefix where two pallets use the same one.

  \<^bold>\<open>Parameters.\<close> What is not under \<open>src/\<close> is an argument: the currency and the preimages (\<open>crowdloan_config\<close>,
  \<open>registration_env\<close>, \<open>proxy_config\<close>, \<open>commitments_config\<close>, \<open>registry_config\<close>), the codec of vectors (\<open>codec\<close>),
  the hashes (\<open>registration_env\<close>, \<open>weights_env\<close>), the dispatch
  of stored runtime calls (\<open>crowdloan_config\<close>, \<open>collective_config\<close>, \<open>proxy_config\<close>) and the
  fixed-point types of the crate \<open>substrate-fixed\<close> (\<open>fixed_ops\<close>, \<open>pool_fixed\<close>, \<open>swap_fixed\<close>, \<open>epoch_fixed\<close>, \<open>i96_ops\<close>), the senate, the
  scheduler and the order of an iterated prefix (\<open>key_env\<close>, \<open>swap_env\<close>). A trait between two pallets of the runtime is
  a parameter of the one that calls it: the market maker behind \<open>T::SwapInterface\<close> in
  \<open>registration_env\<close> and \<open>staking_env\<close>, the balances behind \<open>T::BalanceOps\<close> and \<open>T::SubnetInfo\<close> in \<open>swap_env\<close>. Properties that rely on them say so with a named predicate (\<open>currency_ok\<close>,
  \<open>services_ok\<close>, \<open>call_ok\<close>, \<open>proxied_calls_ok\<close>, \<open>codec_ok\<close>, \<open>holds_ok\<close>, \<open>pool_fixed_ok\<close>, \<open>ufixed_ok\<close>, \<open>prefix_ok\<close>, \<open>swap_env_ok\<close>, \<open>epoch_fixed_ok\<close>, \<open>i96_ok\<close>), which the witnesses
  instantiate with concrete functions.

  \<^bold>\<open>Theories.\<close>
  \<^item> \<open>Prelude\<close>, \<open>Storage\<close>: results, origins, machine integers, iterated maps; the locale
    \<open>invariant_system\<close>, from which every pallet gets its reachability argument by interpretation.
  \<^item> \<open>Tick_Index\<close>, \<open>Tick_Bitmap\<close> (\<open>pallets/swap/src/tick.rs\<close>): tick arithmetic clamped to the valid range,
    and the three-layer bitmap of active ticks. The locale \<open>ordered_index\<close> says what an index of
    ticks promises; the bitmap is interpreted as one: after any history of insertions and
    removals the layered searches return the greatest active tick below and the least above.
  \<^item> \<open>Tick_Price\<close>, \<open>Tick_Log\<close> (\<open>pallets/swap/src/tick.rs\<close>): the price of a tick as a product of rounded factors, strictly
    increasing over the whole range, and the tick of a price by a binary logarithm of fourteen
    bits, which the corrections of the code make exact.
  \<^item> \<open>Swap_Model\<close>, \<open>Swap_Ledger\<close>, \<open>Swap_Market\<close> (\<open>pallets/swap/src/position.rs\<close>, \<open>pallet/impls.rs\<close>, \<open>pallet/mod.rs\<close>): positions,
    swap steps and every call. The ticks are the sum of the positions over every history; a swap
    moves the price and keeps them, within a thousand steps; adding and removing a position is
    the identity; what modifying one moves.
  \<^item> \<open>Crowdloan\<close> (\<open>pallets/crowdloan\<close>): every call. Accounting invariant, completeness of refunds, a
    finalized crowdloan is frozen, contributing and withdrawing is the identity.
  \<^item> \<open>Collective\<close> (\<open>pallets/collective\<close>): every call of the voting pallet. The storage maps agree, nobody votes
    twice, a closed motion is gone and was decided by its threshold, after its end it can be closed.
  \<^item> \<open>Proxy\<close> (\<open>pallets/proxy\<close>): every call. Sorted, bounded definitions with exact deposits; an announced
    call runs exactly after its delay, and its announcement is used up.
  \<^item> \<open>Commitments\<close> (\<open>pallets/commitments\<close>): every call and the hook that reveals timelocked metadata. The index
    lists the encrypted entries exactly, the hook reveals all that is due; the format of a field
    is a round trip.
  \<^item> \<open>Registry\<close> (\<open>pallets/registry\<close>): identities behind a deposit. The funds on hold are the deposits of the
    identities an account set, as long as nobody else clears them, which the code does not prevent.
  \<^item> \<open>Subtensor_Base\<close>, \<open>Neurons\<close>, \<open>Subnet_Pool\<close> (\<open>pallets/subtensor/src\<close>: \<open>staking/helpers.rs\<close>, \<open>subnets/uids.rs\<close>,
    \<open>staking/stake_utils.rs\<close>): ownership of hotkeys, the slots of a subnet with their vectors, the
    reserves and the two swaps.
  \<^item> \<open>Registration\<close> (\<open>subnets/registration.rs\<close>): burned and proof-of-work registration, the faucet, the choice of
    the neuron to prune as the least in a lexicographic order, the search for work. The search is
    \<open>partial_function (option)\<close>; it returns whenever a nonce within range works.
  \<^item> \<open>Rate_Limits\<close>, \<open>Children\<close>, \<open>Serving\<close> (\<open>utils/rate_limiting.rs\<close>, \<open>staking/increase_take.rs\<close>, \<open>staking/decrease_take.rs\<close>,
    \<open>staking/set_children.rs\<close>, \<open>subnets/serving.rs\<close>): windows of the limits, changes of takes, duality of
    children and parents, served endpoints.
  \<^item> \<open>Weights\<close> (\<open>subnets/weights.rs\<close>, parts of \<open>coinbase/run_coinbase.rs\<close> and \<open>epoch/math.rs\<close>): setting weights
    and commit-reveal. With commit-reveal enabled a row changes only by a reveal of its owner's
    commit in its reveal epoch, which the stored blocks delimit exactly.
  \<^item> \<open>Share_Pool\<close> (\<open>primitives/share-pool\<close> and its data layer): the trait \<open>SharePoolDataOperations\<close> is the locale
    \<open>share_store\<close>, interpreted on the pools of the hotkeys. The denominator is the sum of the
    shares, and all stakes together are at most the alpha of the hotkey.
  \<^item> \<open>Staking\<close> (\<open>staking/add_stake.rs\<close>, \<open>remove_stake.rs\<close>, \<open>move_stake.rs\<close>, \<open>recycle_alpha.rs\<close>, \<open>stake_utils.rs\<close>,
    \<open>helpers.rs\<close>): every staking call. A call changes the shares of its signer only; staking and
    unstaking move exactly the alpha that the market maker swapped.
  \<^item> \<open>Key_Swap\<close> (\<open>swap/swap_hotkey.rs\<close>, \<open>swap/swap_coldkey.rs\<close>): what is kept under a key moves to another key. The
    slots, the shares with the totals of the pools and the families of children arrive at the new
    key and nothing of another key changes; two theorems show where the swap leaves traces.

  \<^item> \<open>Epoch_Math\<close>, \<open>Epoch_Arith\<close>, \<open>Epoch\<close> (\<open>epoch/math.rs\<close>, \<open>epoch/run_epoch.rs\<close>): the vector and matrix
    functions, sparse and dense, and Yuma consensus in its stages, with \<open>None\<close> for every failed
    assertion and index out of range. The locale \<open>epoch_arith\<close> is what the proofs use of the
    fixed-point types, interpreted on their bits. A well-formed subnet always runs its epoch, pays
    at most its emission, and takes for consensus the exact weighted median; two theorems show
    where the code and its comments part.
  \<^item> \<open>Stake_Weights\<close>, \<open>Coinbase\<close>, \<open>Coinbase_Facts\<close> (\<open>staking/stake_utils.rs\<close>, \<open>coinbase/run_coinbase.rs\<close>): inherited
    stake and stake weights, the terms and injections per subnet, the sale of the root share, the
    drain through the epoch, the split of dividends with parents and the distribution, the reveals
    of timelocked weights. The interface \<open>price_arith\<close> holds the arithmetic of \<open>U96F32\<close>. A block issues
    exactly what it injects, at most its emission; dividends are split without loss beyond one rao
    per parent; no more than the pending amounts is handed out.
  \<^item> \<open>Block_Emission\<close> (\<open>coinbase/block_emission.rs\<close>): the logarithmic issuance curve is the halving schedule.
  \<^item> \<open>Block_Step\<close> (\<open>coinbase/block_step.rs\<close>): burn and difficulty follow the demand within their limits; the
    step of a block. The root theory closes with the composition: the issuance never passes the supply.
  \<^item> \<open>Admin_Utils\<close> (\<open>pallets/admin-utils\<close>, setters of \<open>utils/misc.rs\<close>): every call that sets a parameter, as a step
    relation; an origin other than root changes nothing but the owner's parameters of its own subnet.

  \<^bold>\<open>Interaction.\<close> \<open>Registration\<close> composes the slots, the accounts and the reserves; \<open>Weights\<close> and \<open>Serving\<close> read
  and write the slots; \<open>Children\<close> uses the rate limits; \<open>Staking\<close> composes the pools of the hotkeys, the
  reserves and the accounts; \<open>Key_Swap\<close> moves the entries of all of them. The epoch works on the slots, the weights
  and the stake weights; the coinbase composes the epoch, the staking pools and the children; the step of a block composes the
  coinbase and the terms of registration, and the parameters of all of them are set by \<open>Admin_Utils\<close>. The world of a state (\<open>amm\<close>, \<open>c_world\<close>, \<open>p_world\<close>) stands for what the other
  pallets keep.

  \<^bold>\<open>Bounds.\<close> There is no fuel: loops are structural recursions or folds over the list that the source iterates,
  and the one search that may run on is a partial function. The amounts of stake that the exact
  theorems speak of are below \<open>i64::MAX\<close>, since the code casts them to \<open>i64\<close>; the supply of a token
  is four hundred times smaller. The loop of a swap has the bound of the code. The table of ticks assumes that the gross
  liquidity of no tick reaches \<open>u64::MAX\<close>, where the additions of the code saturate. The solvency of the pools assumes that no denominator reaches
  the largest \<open>U64F64\<close>, where the additions of the code saturate.

  \<^bold>\<open>Not modelled.\<close> Creation and removal of subnets and the root network (\<open>subnets/subnet.rs\<close>, \<open>coinbase/root.rs\<close>), and the
  utility and drand pallets, for which there was no room; the functions \<open>fixed\<close> and \<open>quantile\<close> of \<open>epoch/math.rs\<close>, which
  compute with floating-point numbers; the node, the runtime configuration, precompiles, migrations, RPC views
  and benchmarks, which carry no logic of their own.
\<close>

section \<open>The supply\<close>

lemma halving_number:
  assumes "0 \<le> iss" "iss < full_supply"
  obtains k where "2 ^ k * (full_supply - iss) \<le> full_supply" "full_supply < 2 ^ (k + 1) * (full_supply - iss)"
proof -
  let ?P = "\<lambda>j::nat. full_supply < 2 ^ j * (full_supply - iss)"
  have "full_supply < (2::int) ^ 64" by (simp add: full_supply_def)
  also have "\<dots> \<le> 2 ^ 64 * (full_supply - iss)" using assms(2) by (simp add: full_supply_def)
  finally have "?P 64" .
  moreover have "\<not> ?P 0" using assms(1) by simp
  ultimately obtain k where "\<forall>i \<le> k. \<not> ?P i" "?P (Suc k)" using ex_least_nat_less[of ?P 64] by blast
  then show thesis using that[of k] by (simp add: not_less)
qed

text \<open>The emission of a block fits into the rest of the supply.\<close>

lemma emission_fits:
  assumes "iss < full_supply" "full_supply < 2 ^ (k + 1) * (full_supply - iss)"
  shows "int (1000000000 div 2 ^ k) \<le> full_supply - iss"
proof -
  have "(1000000000::int) \<le> 2 ^ k * (full_supply - iss)" using assms(2) by (simp add: full_supply_def)
  from zdiv_mono1[OF this, of "2 ^ k"] have "(1000000000::int) div 2 ^ k \<le> full_supply - iss" by simp
  then show ?thesis by (simp add: zdiv_int)
qed

lemma block_emission_fits:
  assumes "i96_ok I" "int (TotalSupply s) = full_supply" "int (cb_TotalIssuance s) \<le> full_supply"
  shows "int (emission_or_0 (fst (get_block_emission I s))) \<le> full_supply - int (cb_TotalIssuance s) \<and>
    (\<exists>b. snd (get_block_emission I s) = s\<lparr>BlockEmission := b\<rparr>)"
proof -
  have u: "cb_TotalIssuance s \<le> u64_max" using assms(3) by (simp add: full_supply_def u64_max_def)
  note B = block_emission_value[OF assms(1,2) u]
  have "\<exists>b. snd (get_block_emission I s) = s\<lparr>BlockEmission := b\<rparr>" unfolding get_block_emission_def by (rule block_emission_state)
  moreover have "int (emission_or_0 (fst (get_block_emission I s))) \<le> full_supply - int (cb_TotalIssuance s)"
  proof (cases "int (cb_TotalIssuance s) < full_supply")
    case True
    obtain k where k: "2 ^ k * (full_supply - int (cb_TotalIssuance s)) \<le> full_supply"
      "full_supply < 2 ^ (k + 1) * (full_supply - int (cb_TotalIssuance s))"
      by (rule halving_number[of "int (cb_TotalIssuance s)"]) (use True in auto)
    then have "fst (get_block_emission I s) = Inr (1000000000 div 2 ^ k)"
      using B[of k] True by (simp add: get_block_emission_def)
    then show ?thesis using emission_fits[OF True k(2)] by (simp add: emission_or_0_def)
  next
    case False
    then show ?thesis using B assms(3) by (simp add: get_block_emission_def emission_or_0_def)
  qed
  ultimately show ?thesis by blast
qed

lemma pending_children_issuance: "cb_TotalIssuance (try_set_pending_children b s) = cb_TotalIssuance s"
  unfolding try_set_pending_children_def by (rule fold_keeps) simp

text \<open>C1. The issuance never passes the supply of 21 million TAO: a block step that starts at or below it
  ends at or below it, and never lowers the issuance. It composes the issuance curve, the injection
  of the coinbase and the drain of every subnet that is due.\<close>

theorem issuance_within_supply:
  fixes env :: "('a::linorder, 'h, 'f, 'u, 'i, 'v, 'w, 'c, 'g) coinbase_env"
  assumes "ufixed_ok 32 (se_price env)" "i96_ok (ce_i96 env)" "block_step fx env s = Some s'"
    and "int (TotalSupply (cs_coinbase s)) = full_supply" "int (cb_TotalIssuance (cs_coinbase s)) \<le> full_supply"
    and "distinct (cs_netuids s)"
    and "(\<Sum>n \<leftarrow> subnets_to_emit_to (cs_coinbase s). fbits (se_price env) (get_moving_alpha_price env (cs_coinbase s) n)) \<le> u128_max"
  shows "cb_TotalIssuance (cs_coinbase s) \<le> cb_TotalIssuance (cs_coinbase s') \<and>
    int (cb_TotalIssuance (cs_coinbase s')) \<le> full_supply"
proof -
  let ?c = "cs_coinbase s"
  let ?e = "emission_or_0 (fst (get_block_emission (ce_i96 env) ?c))" and ?d = "snd (get_block_emission (ce_i96 env) ?c)"
  have a: "cs_coinbase (adjust_registration_terms_for_networks fx (env_block env) s) = ?c"
    using adjust_same_limits unfolding adjust_registration_terms_for_networks_def same_limits_def by blast
  obtain d' where run: "run_coinbase env (of_u64 (se_price env) ?e) ?d = Some d'"
    and s': "cs_coinbase s' = try_set_pending_children (env_block env) d'"
    using assms(3) by (auto simp: block_step_def a Let_def case_prod_beta)
  from block_emission_fits[OF assms(2,4,5)] obtain b where
    fits: "int ?e \<le> full_supply - int (cb_TotalIssuance ?c)" and d: "?d = ?c\<lparr>BlockEmission := b\<rparr>" by blast
  have same: "subnets_to_emit_to ?d = subnets_to_emit_to ?c" "cb_staking ?d = cb_staking ?c" "cb_TotalIssuance ?d = cb_TotalIssuance ?c"
    "get_moving_alpha_price env ?d = get_moving_alpha_price env ?c"
    unfolding d by (simp_all add: subnets_to_emit_to_def coinbase_subnets_def fun_eq_iff)
  have small: "?e \<le> u64_max" "cb_TotalIssuance ?c \<le> u64_max" "cb_TotalIssuance ?c + ?e \<le> u64_max"
    using fits assms(5) by (simp_all add: full_supply_def u64_max_def)
  define x where "x = (\<Sum>n \<leftarrow> subnets_to_emit_to ?d. SubnetTaoInEmission d' n)"
  have "cb_TotalIssuance d' = min u64_max (cb_TotalIssuance ?d + x) \<and> x \<le> ?e"
    unfolding x_def by (rule coinbase_issues[OF assms(1) run]) (use small assms(6,7) in \<open>simp_all add: same\<close>)
  then show ?thesis using fits small by (simp add: s' pending_children_issuance same)
qed

lemma sample_block: "\<exists>s'. block_step u110_bits sample_coinbase_env (sample_chain_state i) = Some s'"
proof -
  let ?s = "sample_chain_state i"
  let ?d = "snd (get_block_emission (ce_i96 sample_coinbase_env) (sample_coinbase i))"
  have c: "cs_coinbase ?s = sample_coinbase i" by (simp add: sample_chain_state_def)
  have a: "cs_coinbase (adjust_registration_terms_for_networks u110_bits 7 ?s) = sample_coinbase i"
    using adjust_same_limits c unfolding adjust_registration_terms_for_networks_def same_limits_def by metis
  obtain b where "?d = (sample_coinbase i)\<lparr>BlockEmission := b\<rparr>"
    using block_emission_state unfolding get_block_emission_def by blast
  then have "cb_epoch ?d = sample_epoch False" "coinbase_subnets ?d = [2]"
    using sample_subnets(1)[of i] by (simp_all add: coinbase_subnets_def) (simp add: sample_coinbase_def)
  from sample_run[OF this] show ?thesis by (auto simp: block_step_def a Let_def case_prod_beta)
qed

theorem issuance_within_supply_witness:
  "\<exists>s'. block_step u110_bits sample_coinbase_env (sample_chain_state 20999999999000000) = Some s' \<and>
     20999999999000000 \<le> cb_TotalIssuance (cs_coinbase s') \<and> int (cb_TotalIssuance (cs_coinbase s')) \<le> full_supply"
proof -
  let ?s = "sample_chain_state 20999999999000000"
  have c: "cs_coinbase ?s = sample_coinbase 20999999999000000" by (simp add: sample_chain_state_def)
  have i: "ce_i96 sample_coinbase_env = i96_bits"
    by (simp add: sample_coinbase_env_def sample_staking_env_def staking_env.defs coinbase_env.defs)
  obtain s' where r: "block_step u110_bits sample_coinbase_env ?s = Some s'"
    using sample_block by blast
  have f: "int (TotalSupply (cs_coinbase ?s)) = full_supply" "cb_TotalIssuance (cs_coinbase ?s) = 20999999999000000" "distinct (cs_netuids ?s)"
    by (simp_all add: c sample_coinbase_def sample_staking_def get_all_subnet_netuids_def full_supply_def)
  show ?thesis using issuance_within_supply[OF _ _ r f(1)] f u96_bits_ok i96_bits_ok r
    by (simp add: c i sample_subnets u96_bits_def full_supply_def)
qed

end
